(* ===== verification/Mcr_Prelude.thy ===== *)
theory Mcr_Prelude
  imports Main "HOL-Library.Word" "HOL-Library.Monad_Syntax"
begin

text \<open>
  Shared vocabulary of the development: Rust's \<open>Result\<close> with an explicit panic value, checked
  arithmetic on machine words, little-endian byte codecs, and slices.  Every other theory
  imports this one.
\<close>

unbundle bit_operations_syntax

named_theorems result_simps \<open>equations that characterise a successful step of a fallible computation\<close>
named_theorems checked_simps \<open>unsigned readings of checked word arithmetic\<close>

type_synonym u8 = "8 word"
type_synonym u16 = "16 word"
type_synonym u32 = "32 word"
type_synonym u64 = "64 word"

section \<open>Results\<close>

text \<open>
  \<open>Ok\<close> and \<open>Err\<close> are Rust's two constructors.  \<open>Panic\<close> stands for a Rust panic: a slice
  index out of bounds, an \<open>expect\<close> on \<open>None\<close>, or an arithmetic overflow.  It is a
  value of the model so that the absence of panics is a theorem.
\<close>

datatype ('a, 'e) result = Ok 'a | Err 'e | Panic

primrec and_then :: "('a, 'e) result \<Rightarrow> ('a \<Rightarrow> ('b, 'e) result) \<Rightarrow> ('b, 'e) result" where
  "and_then (Ok x) f = f x"
| "and_then (Err e) f = Err e"
| "and_then Panic f = Panic"

primrec map_err :: "('e \<Rightarrow> 'f) \<Rightarrow> ('a, 'e) result \<Rightarrow> ('a, 'f) result" where
  "map_err g (Ok x) = Ok x"
| "map_err g (Err e) = Err (g e)"
| "map_err g Panic = Panic"

definition ok_or :: "'a option \<Rightarrow> 'e \<Rightarrow> ('a, 'e) result" where
  "ok_or x e = (case x of Some v \<Rightarrow> Ok v | None \<Rightarrow> Err e)"

definition ensure :: "bool \<Rightarrow> 'e \<Rightarrow> (unit, 'e) result" where
  "ensure b e = (if b then Ok () else Err e)"

text \<open>A \<open>Result\<close> of code that cannot panic is a value of \<open>'e + 'a\<close>.\<close>

definition lift_sum :: "'e + 'a \<Rightarrow> ('a, 'e) result" where
  "lift_sum r = (case r of Inl e \<Rightarrow> Err e | Inr x \<Rightarrow> Ok x)"

lemma lift_sum_simps [simp]: "lift_sum (Inl e) = Err e" "lift_sum (Inr x) = Ok x"
  by (simp_all add: lift_sum_def)

text \<open>\<open>Result::expect\<close>.\<close>

primrec expect :: "('a, 'e) result \<Rightarrow> ('a, 'f) result" where
  "expect (Ok x) = Ok x"
| "expect (Err _) = Panic"
| "expect Panic = Panic"

text \<open>The results of a sequence of fallible steps, in order, or the first failure
  (\<open>collect::<Result<Vec<_>, _>>\<close>).\<close>

fun collect_results :: "('a \<Rightarrow> ('b, 'e) result) \<Rightarrow> 'a list \<Rightarrow> ('b list, 'e) result" where
  "collect_results f [] = Ok []"
| "collect_results f (x # xs) =
     and_then (f x) (\<lambda>y. and_then (collect_results f xs) (\<lambda>ys. Ok (y # ys)))"

lemma and_then_Ok [result_simps]: "and_then r f = Ok y \<longleftrightarrow> (\<exists>x. r = Ok x \<and> f x = Ok y)"
  by (cases r) auto

lemma and_then_Panic [result_simps]:
  "and_then r f = Panic \<longleftrightarrow> r = Panic \<or> (\<exists>x. r = Ok x \<and> f x = Panic)"
  by (cases r) auto

lemma map_err_Ok [result_simps]: "map_err g r = Ok y \<longleftrightarrow> r = Ok y"
  by (cases r) auto

lemma map_err_Panic [result_simps]: "map_err g r = Panic \<longleftrightarrow> r = Panic"
  by (cases r) auto

lemma ok_or_Ok [result_simps]: "ok_or x e = Ok y \<longleftrightarrow> x = Some y"
  by (auto simp: ok_or_def split: option.splits)

lemma ok_or_not_Panic [simp]: "ok_or x e \<noteq> Panic"
  by (auto simp: ok_or_def split: option.splits)

lemma ensure_Ok [result_simps]: "ensure b e = Ok u \<longleftrightarrow> b"
  by (auto simp: ensure_def)

lemma ensure_not_Panic [simp]: "ensure b e \<noteq> Panic"
  by (auto simp: ensure_def)

lemma ok_or_simps [simp]: "ok_or (Some x) e = Ok x" "ok_or None e = Err e"
  by (simp_all add: ok_or_def)

lemma ensure_simps [simp]: "ensure True e = Ok ()" "ensure False e = Err e"
  by (simp_all add: ensure_def)

lemma collect_results_Ok:
  "collect_results f xs = Ok ys \<longleftrightarrow> list_all2 (\<lambda>x y. f x = Ok y) xs ys"
  by (induction xs arbitrary: ys) (auto simp: result_simps list_all2_Cons1)

lemma collect_results_not_Panic:
  "(\<And>x. x \<in> set xs \<Longrightarrow> f x \<noteq> Panic) \<Longrightarrow> collect_results f xs \<noteq> Panic"
  by (induction xs) (auto simp: result_simps)

section \<open>Checked arithmetic\<close>

definition checked_add :: "'w::len word \<Rightarrow> 'w word \<Rightarrow> 'w word option" where
  "checked_add a b = (if unat a + unat b < 2 ^ LENGTH('w) then Some (a + b) else None)"

definition checked_sub :: "'w::len word \<Rightarrow> 'w word \<Rightarrow> 'w word option" where
  "checked_sub a b = (if b \<le> a then Some (a - b) else None)"

definition checked_mul :: "'w::len word \<Rightarrow> 'w word \<Rightarrow> 'w word option" where
  "checked_mul a b = (if unat a * unat b < 2 ^ LENGTH('w) then Some (a * b) else None)"

definition saturating_add :: "'w::len word \<Rightarrow> 'w word \<Rightarrow> 'w word" where
  "saturating_add a b = (if unat a + unat b < 2 ^ LENGTH('w) then a + b else - 1)"

lemma checked_add_Some [checked_simps]:
  fixes a :: "'w::len word"
  shows "checked_add a b = Some c \<longleftrightarrow> unat c = unat a + unat b"
proof (cases "unat a + unat b < 2 ^ LENGTH('w)")
  case True
  then have "unat (a + b) = unat a + unat b"
    by (simp add: unat_word_ariths)
  with True show ?thesis
    by (auto simp: checked_add_def word_unat_eq_iff)
next
  case False
  then have "unat c \<noteq> unat a + unat b"
    using unsigned_less [of c, where ?'a = nat] by linarith
  with False show ?thesis
    by (simp add: checked_add_def)
qed

lemma checked_add_None [checked_simps]:
  fixes a :: "'w::len word"
  shows "checked_add a b = None \<longleftrightarrow> 2 ^ LENGTH('w) \<le> unat a + unat b"
  by (auto simp: checked_add_def)

lemma checked_sub_Some [checked_simps]:
  "checked_sub a b = Some c \<longleftrightarrow> unat a = unat b + unat c"
proof
  assume "checked_sub a b = Some c"
  then show "unat a = unat b + unat c"
    by (auto simp: checked_sub_def unat_sub word_le_nat_alt split: if_splits)
next
  assume eq: "unat a = unat b + unat c"
  then have le: "b \<le> a" by (simp add: word_le_nat_alt)
  then have "unat (a - b) = unat c" using eq by (simp add: unat_sub)
  then show "checked_sub a b = Some c" using le by (simp add: checked_sub_def word_unat_eq_iff)
qed

lemma checked_sub_None [checked_simps]: "checked_sub a b = None \<longleftrightarrow> unat a < unat b"
  by (auto simp: checked_sub_def word_le_nat_alt)

lemma checked_mul_Some:
  fixes a :: "'w::len word"
  assumes "checked_mul a b = Some c"
  shows "unat c = unat a * unat b"
  using assms by (auto simp: checked_mul_def unat_word_ariths split: if_splits)

lemma unat_add_small:
  fixes a b :: "'w::len word"
  assumes "unat a + unat b < 2 ^ LENGTH('w)"
  shows "unat (a + b) = unat a + unat b"
  using assms by (simp add: unat_word_ariths)

lemma unat_u64_less [simp]: "unat (x :: u64) < 18446744073709551616"
  using unsigned_less [of x, where ?'a = nat] by simp

lemma unat_ucast_u16_u64 [simp]: "unat (ucast (x :: u16) :: u64) = unat x"
  by (simp add: unsigned_ucast_eq take_bit_nat_eq_self unsigned_less
      order.strict_trans [OF unsigned_less])

text \<open>\<open>u64::try_from\<close> on a length.\<close>

definition u64_try_from :: "nat \<Rightarrow> u64 option" where
  "u64_try_from n = (if n < 2 ^ 64 then Some (of_nat n) else None)"

lemma u64_try_from_Some [checked_simps]: "u64_try_from n = Some w \<longleftrightarrow> unat w = n"
  by (auto simp: u64_try_from_def unat_of_nat)

section \<open>Slices\<close>

text \<open>
  \<open>&xs[a..b]\<close> panics unless \<open>a \<le> b \<le> xs.len()\<close>; assigning a slice with
  \<open>copy_from_slice\<close> also needs equal lengths.
\<close>

definition slice :: "'a list \<Rightarrow> nat \<Rightarrow> nat \<Rightarrow> ('a list, 'e) result" where
  "slice xs a b = (if a \<le> b \<and> b \<le> length xs then Ok (take (b - a) (drop a xs)) else Panic)"

text \<open>\<open>vec![0; n]\<close> panics with a capacity overflow beyond \<open>isize::MAX\<close> bytes.  Running out
  of host memory below that bound is not modelled.\<close>

definition ISIZE_MAX :: nat where
  "ISIZE_MAX = 2 ^ 63 - 1"

definition vec_zero :: "nat \<Rightarrow> (u8 list, 'e) result" where
  "vec_zero n = (if n \<le> ISIZE_MAX then Ok (replicate n 0) else Panic)"

lemma vec_zero_Ok [result_simps]: "vec_zero n = Ok bs \<longleftrightarrow> n \<le> ISIZE_MAX \<and> bs = replicate n 0"
  by (auto simp: vec_zero_def)

lemma vec_zero_Panic [result_simps]: "vec_zero n = Panic \<longleftrightarrow> ISIZE_MAX < n"
  by (auto simp: vec_zero_def)

definition splice :: "nat \<Rightarrow> 'a list \<Rightarrow> 'a list \<Rightarrow> 'a list" where
  "splice a ys xs = take a xs @ ys @ drop (a + length ys) xs"

definition write_slice :: "'a list \<Rightarrow> nat \<Rightarrow> nat \<Rightarrow> 'a list \<Rightarrow> ('a list, 'e) result" where
  "write_slice xs a b ys =
     (if a \<le> b \<and> b \<le> length xs \<and> length ys = b - a then Ok (splice a ys xs) else Panic)"

lemma slice_Ok [result_simps]:
  "slice xs a b = Ok ys \<longleftrightarrow> a \<le> b \<and> b \<le> length xs \<and> ys = take (b - a) (drop a xs)"
  by (auto simp: slice_def)

lemma slice_Panic: "slice xs a b = Panic \<longleftrightarrow> \<not> (a \<le> b \<and> b \<le> length xs)"
  by (auto simp: slice_def)

lemma slice_not_Err [simp]: "slice xs a b \<noteq> Err e"
  by (simp add: slice_def)

lemma write_slice_Ok [result_simps]:
  "write_slice xs a b ys = Ok zs \<longleftrightarrow>
     a \<le> b \<and> b \<le> length xs \<and> length ys = b - a \<and> zs = splice a ys xs"
  by (auto simp: write_slice_def)

lemma write_slice_Panic:
  "write_slice xs a b ys = Panic \<longleftrightarrow> \<not> (a \<le> b \<and> b \<le> length xs \<and> length ys = b - a)"
  by (auto simp: write_slice_def)

lemma length_splice [simp]:
  "a + length ys \<le> length xs \<Longrightarrow> length (splice a ys xs) = length xs"
  by (simp add: splice_def)

text \<open>What a splice wrote is what a slice of the same range reads back.\<close>

lemma take_drop_splice_same:
  "a + length ys \<le> length xs \<Longrightarrow> take (length ys) (drop a (splice a ys xs)) = ys"
  by (simp add: splice_def)

lemma take_drop_splice_before:
  assumes "b + n \<le> a" "a \<le> length xs"
  shows "take n (drop b (splice a ys xs)) = take n (drop b xs)"
proof -
  have "drop b (splice a ys xs) = drop b (take a xs) @ ys @ drop (a + length ys) xs"
    using assms by (simp add: splice_def)
  moreover have "length (drop b (take a xs)) \<ge> n"
    using assms by simp
  ultimately have "take n (drop b (splice a ys xs)) = take n (drop b (take a xs))"
    by simp
  also have "\<dots> = take n (drop b xs)"
    using assms by (simp add: drop_take)
  finally show ?thesis .
qed

lemma take_drop_splice_after:
  assumes "a + length ys \<le> b" "a + length ys \<le> length xs"
  shows "take n (drop b (splice a ys xs)) = take n (drop b xs)"
proof -
  have "drop b (splice a ys xs) = drop (b - (a + length ys)) (drop (a + length ys) xs)"
    using assms by (simp add: splice_def)
  also have "\<dots> = drop b xs" using assms by simp
  finally show ?thesis by simp
qed

section \<open>Little-endian codecs\<close>

fun le_nat :: "u8 list \<Rightarrow> nat" where
  "le_nat [] = 0"
| "le_nat (b # bs) = unat b + 256 * le_nat bs"

fun nat_le :: "nat \<Rightarrow> nat \<Rightarrow> u8 list" where
  "nat_le 0 n = []"
| "nat_le (Suc k) n = of_nat (n mod 256) # nat_le k (n div 256)"

definition u16_from_le_bytes :: "u8 list \<Rightarrow> u16" where
  "u16_from_le_bytes bs = of_nat (le_nat bs)"

definition u32_from_le_bytes :: "u8 list \<Rightarrow> u32" where
  "u32_from_le_bytes bs = of_nat (le_nat bs)"

definition u64_from_le_bytes :: "u8 list \<Rightarrow> u64" where
  "u64_from_le_bytes bs = of_nat (le_nat bs)"

definition u64_to_le_bytes :: "u64 \<Rightarrow> u8 list" where
  "u64_to_le_bytes w = nat_le 8 (unat w)"

lemma length_nat_le [simp]: "length (nat_le k n) = k"
  by (induction k arbitrary: n) auto

lemma le_nat_nat_le: "le_nat (nat_le k n) = n mod 256 ^ k"
proof (induction k arbitrary: n)
  case 0
  then show ?case by simp
next
  case (Suc k)
  have "unat (of_nat (n mod 256) :: u8) = n mod 256"
    by (simp add: unat_of_nat)
  then show ?case
    by (simp add: Suc mod_mult2_eq mult.commute)
qed

lemma le_nat_bound: "le_nat bs < 256 ^ length bs"
proof (induction bs)
  case Nil
  then show ?case by simp
next
  case (Cons b bs)
  have "unat b < 256" using unsigned_less [of b] by simp
  with Cons show ?case by (simp add: field_simps)
qed

lemma u64_le_roundtrip [simp]: "u64_from_le_bytes (u64_to_le_bytes w) = w"
proof -
  have "unat w < 256 ^ 8" using unsigned_less [of w] by simp
  then show ?thesis
    by (simp add: u64_from_le_bytes_def u64_to_le_bytes_def le_nat_nat_le)
qed

lemma length_u64_to_le_bytes [simp]: "length (u64_to_le_bytes w) = 8"
  by (simp add: u64_to_le_bytes_def)

section \<open>Lists\<close>

lemma take_length_take [simp]: "take (length (take n xs)) xs = take n xs"
  by (cases "n \<le> length xs") simp_all

lemma find_Some_iff_take:
  "List.find P xs = Some x \<Longrightarrow> x \<in> set xs \<and> P x"
  by (auto simp: find_Some_iff)

lemma find_append: "List.find P (xs @ ys) = (case List.find P xs of None \<Rightarrow> List.find P ys | r \<Rightarrow> r)"
  by (induction xs) auto

end
