(* ===== verification/Btree.thy ===== *)
theory Btree
  imports Mcr_Prelude
begin

text \<open>
  \<open>BTreeMap\<close> and \<open>BTreeSet\<close> of the Rust standard library, as strictly sorted association
  lists behind an abstract type.  Iteration order is key order, and two maps are equal exactly
  when they hold the same entries, as in Rust.  The locale \<open>ordered_map\<close> states what the
  kernel, the memory manager and the loader rely on; its interpretation on the concrete
  operations discharges those laws.
\<close>

named_theorems bt_simps \<open>observations of the ordered-map operations\<close>

section \<open>Sorted association lists\<close>

abbreviation keys_sorted :: "('k::linorder \<times> 'v) list \<Rightarrow> bool" where
  "keys_sorted xs \<equiv> sorted_wrt (<) (map fst xs)"

fun alist_insert :: "'k::linorder \<Rightarrow> 'v \<Rightarrow> ('k \<times> 'v) list \<Rightarrow> ('k \<times> 'v) list" where
  "alist_insert k v [] = [(k, v)]"
| "alist_insert k v ((k', v') # xs) =
     (if k < k' then (k, v) # (k', v') # xs
      else if k = k' then (k, v) # xs
      else (k', v') # alist_insert k v xs)"

lemma set_fst_alist_insert: "fst ` set (alist_insert k v xs) = insert k (fst ` set xs)"
  by (induction k v xs rule: alist_insert.induct) auto

lemma keys_sorted_alist_insert: "keys_sorted xs \<Longrightarrow> keys_sorted (alist_insert k v xs)"
proof (induction k v xs rule: alist_insert.induct)
  case (1 k v)
  then show ?case by simp
next
  case (2 k v k' v' xs)
  show ?case
  proof (cases "k' < k")
    case True
    have "\<forall>y \<in> fst ` set (alist_insert k v xs). k' < y"
      using 2 True by (auto simp: set_fst_alist_insert)
    with 2 True show ?thesis by auto
  next
    case False
    with 2 show ?thesis by (auto intro: less_trans)
  qed
qed

lemma map_of_alist_insert: "map_of (alist_insert k v xs) = (map_of xs)(k \<mapsto> v)"
  by (induction k v xs rule: alist_insert.induct) auto

lemma keys_sorted_filter: "keys_sorted xs \<Longrightarrow> keys_sorted (filter P xs)"
  by (induction xs) auto

lemma keys_sorted_distinct: "keys_sorted xs \<Longrightarrow> distinct (map fst xs)"
  by (induction xs) auto

lemma keys_sorted_unique:
  assumes "keys_sorted xs" "keys_sorted ys" "map_of xs = map_of ys"
  shows "xs = ys"
proof -
  have "set xs = set ys"
    using assms by (metis keys_sorted_distinct map_of_inject_set)
  moreover have "inj_on fst (set xs)"
    using keys_sorted_distinct [OF assms(1)] by (simp add: distinct_map)
  ultimately show ?thesis
    using assms keys_sorted_distinct strict_sorted_imp_sorted
    by (intro map_sorted_distinct_set_unique [of fst]) auto
qed

section \<open>The abstract type\<close>

typedef (overloaded) ('k::linorder, 'v) btree_map = "{xs :: ('k \<times> 'v) list. keys_sorted xs}"
  morphisms bt_entries Abs_btree
  by (rule exI [of _ "[]"]) simp

setup_lifting type_definition_btree_map

type_synonym 'k btree_set = "('k, unit) btree_map"

lift_definition bt_empty :: "('k::linorder, 'v) btree_map" is "[]"
  by simp

lift_definition bt_insert :: "'k::linorder \<Rightarrow> 'v \<Rightarrow> ('k, 'v) btree_map \<Rightarrow> ('k, 'v) btree_map"
  is alist_insert
  by (rule keys_sorted_alist_insert)

lift_definition bt_retain :: "('k::linorder \<Rightarrow> 'v \<Rightarrow> bool) \<Rightarrow> ('k, 'v) btree_map \<Rightarrow> ('k, 'v) btree_map"
  is "\<lambda>P. filter (\<lambda>(k, v). P k v)"
  by (rule keys_sorted_filter)

lift_definition bt_map_values :: "('v \<Rightarrow> 'w) \<Rightarrow> ('k::linorder, 'v) btree_map \<Rightarrow> ('k, 'w) btree_map"
  is "\<lambda>f. map (\<lambda>(k, v). (k, f v))"
  by (simp add: comp_def case_prod_unfold)

definition bt_get :: "('k::linorder, 'v) btree_map \<Rightarrow> 'k \<Rightarrow> 'v option" where
  "bt_get m k = map_of (bt_entries m) k"

definition bt_remove :: "'k::linorder \<Rightarrow> ('k, 'v) btree_map \<Rightarrow> ('k, 'v) btree_map" where
  "bt_remove k m = bt_retain (\<lambda>k' _. k' \<noteq> k) m"

definition bt_keys :: "('k::linorder, 'v) btree_map \<Rightarrow> 'k list" where
  "bt_keys m = map fst (bt_entries m)"

definition bt_values :: "('k::linorder, 'v) btree_map \<Rightarrow> 'v list" where
  "bt_values m = map snd (bt_entries m)"

definition bt_contains :: "('k::linorder, 'v) btree_map \<Rightarrow> 'k \<Rightarrow> bool" where
  "bt_contains m k = (bt_get m k \<noteq> None)"

text \<open>\<open>get_mut\<close> followed by an assignment through the reference: no effect on an absent key.\<close>

definition bt_modify :: "'k::linorder \<Rightarrow> ('v \<Rightarrow> 'v) \<Rightarrow> ('k, 'v) btree_map \<Rightarrow> ('k, 'v) btree_map" where
  "bt_modify k f m = (case bt_get m k of Some v \<Rightarrow> bt_insert k (f v) m | None \<Rightarrow> m)"

text \<open>Ordered sets are maps to \<open>unit\<close>, as in the standard library.\<close>

definition bs_insert :: "'k::linorder \<Rightarrow> 'k btree_set \<Rightarrow> 'k btree_set" where
  "bs_insert k s = bt_insert k () s"

definition bs_remove :: "'k::linorder \<Rightarrow> 'k btree_set \<Rightarrow> 'k btree_set" where
  "bs_remove k s = bt_remove k s"

definition bs_set :: "'k::linorder btree_set \<Rightarrow> 'k set" where
  "bs_set s = dom (bt_get s)"

definition bs_list :: "'k::linorder btree_set \<Rightarrow> 'k list" where
  "bs_list s = bt_keys s"

definition bs_is_empty :: "'k::linorder btree_set \<Rightarrow> bool" where
  "bs_is_empty s = (bt_entries s = [])"

section \<open>Observations\<close>

lemma keys_sorted_bt_entries [simp]: "keys_sorted (bt_entries m)"
  using bt_entries [of m] by simp

lemma bt_entries_empty [bt_simps]: "bt_entries bt_empty = []"
  by (simp add: bt_empty.rep_eq)

lemma bt_entries_insert [bt_simps]: "bt_entries (bt_insert k v m) = alist_insert k v (bt_entries m)"
  by (simp add: bt_insert.rep_eq)

lemma bt_entries_retain [bt_simps]:
  "bt_entries (bt_retain P m) = filter (\<lambda>(k, v). P k v) (bt_entries m)"
  by (simp add: bt_retain.rep_eq)

lemma bt_entries_remove [bt_simps]:
  "bt_entries (bt_remove k m) = filter (\<lambda>(k', v). k' \<noteq> k) (bt_entries m)"
  by (simp add: bt_remove_def bt_entries_retain)

lemma bt_entries_map_values [bt_simps]:
  "bt_entries (bt_map_values f m) = map (\<lambda>(k, v). (k, f v)) (bt_entries m)"
  by (simp add: bt_map_values.rep_eq)

lemma bt_get_empty [simp]: "bt_get bt_empty k = None"
  by (simp add: bt_get_def bt_simps)

lemma bt_get_insert: "bt_get (bt_insert k v m) k' = (if k' = k then Some v else bt_get m k')"
  by (simp add: bt_get_def bt_simps map_of_alist_insert)

lemma map_of_filter_keys_sorted:
  "keys_sorted xs \<Longrightarrow> map_of (filter (\<lambda>(k, v). P k v) xs) k =
     (case map_of xs k of Some v \<Rightarrow> if P k v then Some v else None | None \<Rightarrow> None)"
proof (induction xs)
  case Nil
  then show ?case by simp
next
  case (Cons a xs)
  obtain k' v' where a: "a = (k', v')" by (cases a)
  have "map_of xs k' = None"
    using Cons.prems a by (auto simp: map_of_eq_None_iff)
  then show ?case
    using Cons a by (auto split: option.splits)
qed

lemma bt_get_retain:
  "bt_get (bt_retain P m) k =
     (case bt_get m k of Some v \<Rightarrow> if P k v then Some v else None | None \<Rightarrow> None)"
  by (simp add: bt_get_def bt_entries_retain map_of_filter_keys_sorted)

lemma bt_get_remove: "bt_get (bt_remove k m) k' = (if k' = k then None else bt_get m k')"
  by (simp add: bt_remove_def bt_get_retain split: option.splits)

lemma bt_get_map_values [simp]: "bt_get (bt_map_values f m) k = map_option f (bt_get m k)"
proof -
  have "map_of (map (\<lambda>(k, v). (k, f v)) xs) k = map_option f (map_of xs k)" for xs
    by (induction xs) auto
  then show ?thesis by (simp add: bt_get_def bt_entries_map_values)
qed

lemma bt_get_modify:
  "bt_get (bt_modify k f m) k' = (if k' = k then map_option f (bt_get m k) else bt_get m k')"
  by (simp add: bt_modify_def bt_get_insert split: option.splits)

lemmas bt_get_simps = bt_get_insert bt_get_remove bt_get_modify bt_get_retain

lemma bt_get_Some_iff_entries: "bt_get m k = Some v \<longleftrightarrow> (k, v) \<in> set (bt_entries m)"
  by (simp add: bt_get_def keys_sorted_distinct)

lemma set_bt_keys: "set (bt_keys m) = dom (bt_get m)"
  by (force simp: bt_keys_def bt_get_Some_iff_entries dom_def)

lemma set_bt_values: "set (bt_values m) = ran (bt_get m)"
  by (force simp: bt_values_def ran_def bt_get_Some_iff_entries)

lemma sorted_bt_keys [simp]: "sorted_wrt (<) (bt_keys m)"
  by (simp add: bt_keys_def)

lemma distinct_bt_keys [simp]: "distinct (bt_keys m)"
  using keys_sorted_distinct [of "bt_entries m"] by (simp add: bt_keys_def)

lemma bt_eqI: "(\<And>k. bt_get m k = bt_get m' k) \<Longrightarrow> m = m'"
  by (metis bt_entries_inject bt_get_def ext keys_sorted_bt_entries keys_sorted_unique)

lemma bt_insert_insert [simp]: "bt_insert k v (bt_insert k w m) = bt_insert k v m"
  by (rule bt_eqI) (simp add: bt_get_insert)

lemma bs_set_simps [simp]:
  "bs_set bt_empty = {}"
  "bs_set (bs_insert k s) = insert k (bs_set s)"
  "bs_set (bs_remove k s) = bs_set s - {k}"
  by (auto simp: bs_set_def bs_insert_def bs_remove_def bt_get_insert bt_get_remove split: if_splits)

lemma set_bs_list [simp]: "set (bs_list s) = bs_set s"
  by (simp add: bs_list_def bs_set_def set_bt_keys)

lemma sorted_bs_list [simp]: "sorted_wrt (<) (bs_list s)" "distinct (bs_list s)"
  by (simp_all add: bs_list_def)

lemma finite_bs_set [simp]: "finite (bs_set s)"
  using set_bs_list [of s] finite_set by metis

lemma bs_list_eq_sorted_list: "bs_list s = sorted_list_of_set (bs_set s)"
  by (metis set_bs_list sorted_bs_list(1) sorted_list_of_set.idem_if_sorted_distinct
      sorted_bs_list(2) strict_sorted_imp_sorted)

lemma bs_is_empty_iff [simp]: "bs_is_empty s \<longleftrightarrow> bs_set s = {}"
  using set_bs_list [of s] by (auto simp: bs_is_empty_def bs_list_def bt_keys_def)

lemma bs_eqI: "bs_set s = bs_set t \<Longrightarrow> s = t"
  by (rule bt_eqI) (metis (full_types) bs_set_def domIff not_None_eq unit.exhaust)

section \<open>The interface\<close>

text \<open>What a client may assume of an ordered map, and what follows from it once and for all.\<close>

locale ordered_map =
  fixes empty :: 'm
    and get :: "'m \<Rightarrow> 'k::linorder \<Rightarrow> 'v option"
    and put :: "'k \<Rightarrow> 'v \<Rightarrow> 'm \<Rightarrow> 'm"
    and del :: "'k \<Rightarrow> 'm \<Rightarrow> 'm"
    and items :: "'m \<Rightarrow> ('k \<times> 'v) list"
  assumes get_empty: "get empty k = None"
    and get_put: "get (put k v m) k' = (if k' = k then Some v else get m k')"
    and get_del: "get (del k m) k' = (if k' = k then None else get m k')"
    and items_sorted: "keys_sorted (items m)"
    and get_items: "get m k = map_of (items m) k"
begin

lemma items_put: "items (put k v m) = alist_insert k v (items m)"
proof (rule keys_sorted_unique)
  show "keys_sorted (items (put k v m))" by (rule items_sorted)
  show "keys_sorted (alist_insert k v (items m))"
    by (rule keys_sorted_alist_insert [OF items_sorted])
  show "map_of (items (put k v m)) = map_of (alist_insert k v (items m))"
    by (auto simp: map_of_alist_insert fun_eq_iff get_put simp flip: get_items)
qed

text \<open>Iterating in key order and taking the first entry with a property finds the least key.\<close>

lemma first_match_least:
  assumes "List.find (\<lambda>(k, v). P k v) (items m) = Some (k, v)"
  shows "get m k = Some v \<and> P k v \<and> (\<forall>k' v'. get m k' = Some v' \<longrightarrow> P k' v' \<longrightarrow> k \<le> k')"
proof -
  obtain i where i: "i < length (items m)" "items m ! i = (k, v)" "P k v"
    and least: "\<And>j. j < i \<Longrightarrow> \<not> (\<lambda>(k, v). P k v) (items m ! j)"
    using assms by (auto simp: find_Some_iff)
  have d: "distinct (map fst (items m))" by (rule keys_sorted_distinct [OF items_sorted])
  have kv: "get m k = Some v"
    using i d by (metis get_items map_of_is_SomeI nth_mem)
  have "k \<le> k'" if "get m k' = Some v'" "P k' v'" for k' v'
  proof -
    have "(k', v') \<in> set (items m)"
      using that(1) by (simp add: get_items map_of_SomeD)
    then obtain j where j: "j < length (items m)" "items m ! j = (k', v')"
      by (auto simp: in_set_conv_nth)
    then have "\<not> j < i" using least [of j] that(2) by auto
    then have "i \<le> j" by simp
    moreover have "map fst (items m) ! i \<le> map fst (items m) ! j" if "i < j"
      using sorted_wrt_nth_less [OF items_sorted [of m] that] j by simp
    ultimately show ?thesis using i j by (cases "i = j") auto
  qed
  with kv i show ?thesis by blast
qed

lemma first_match_none:
  "List.find (\<lambda>(k, v). P k v) (items m) = None \<longleftrightarrow> (\<forall>k v. get m k = Some v \<longrightarrow> \<not> P k v)"
proof -
  have d: "distinct (map fst (items m))" by (rule keys_sorted_distinct [OF items_sorted])
  then have "get m k = Some v \<longleftrightarrow> (k, v) \<in> set (items m)" for k v
    by (simp add: get_items)
  then show ?thesis by (auto simp: find_None_iff)
qed

end

interpretation bt: ordered_map bt_empty bt_get bt_insert bt_remove bt_entries
  by unfold_locales (simp_all add: bt_get_insert bt_get_remove, simp add: bt_get_def)

instantiation btree_map :: (linorder, equal) equal
begin

definition equal_btree_map :: "('a, 'b) btree_map \<Rightarrow> ('a, 'b) btree_map \<Rightarrow> bool" where
  "equal_btree_map m m' \<longleftrightarrow> bt_entries m = bt_entries m'"

instance
  by standard (simp add: equal_btree_map_def bt_entries_inject)

end

end
