(* ===== verification/Abi.thy ===== *)
theory Abi
  imports Mcr_Prelude
begin

text \<open>
  The part of \<open>mcr-sys\<close> that the modelled components share: errno values and the encoding of
  syscall results into \<open>rax\<close> (\<open>errno.rs\<close>, \<open>return_value.rs\<close>), the decoded argument
  blocks of the task syscalls (\<open>task.rs\<close>), and requests and outcomes
  (\<open>abi.rs\<close>, \<open>trace.rs\<close>, \<open>dispatcher.rs\<close>).  The trace text attached to an
  outcome (\<open>decoded\<close> fields, \<open>host_error\<close>) never influences the result and is not modelled.
\<close>

type_synonym guest_address = u64
type_synonym guest_pid = u32
type_synonym guest_tid = u32

section \<open>Errno\<close>

type_synonym linux_errno = u16

definition EPERM :: linux_errno where "EPERM = 1"
definition ENOENT :: linux_errno where "ENOENT = 2"
definition ESRCH :: linux_errno where "ESRCH = 3"
definition EINTR :: linux_errno where "EINTR = 4"
definition EIO :: linux_errno where "EIO = 5"
definition ENOEXEC :: linux_errno where "ENOEXEC = 8"
definition EBADF :: linux_errno where "EBADF = 9"
definition ECHILD :: linux_errno where "ECHILD = 10"
definition EAGAIN :: linux_errno where "EAGAIN = 11"
definition ENOMEM :: linux_errno where "ENOMEM = 12"
definition EACCES :: linux_errno where "EACCES = 13"
definition EFAULT :: linux_errno where "EFAULT = 14"
definition EEXIST :: linux_errno where "EEXIST = 17"
definition EINVAL :: linux_errno where "EINVAL = 22"
definition EPIPE :: linux_errno where "EPIPE = 32"
definition ENOSYS :: linux_errno where "ENOSYS = 38"
definition ETIMEDOUT :: linux_errno where "ETIMEDOUT = 110"

lemmas errno_defs = EPERM_def ENOENT_def ESRCH_def EINTR_def ENOEXEC_def EBADF_def ECHILD_def
  EAGAIN_def EFAULT_def EINVAL_def ENOSYS_def ETIMEDOUT_def EIO_def ENOMEM_def EACCES_def
  EEXIST_def EPIPE_def

definition LINUX_MAX_ERRNO :: u16 where "LINUX_MAX_ERRNO = 4095"

definition errno_new :: "u16 \<Rightarrow> linux_errno option" where
  "errno_new raw = (if raw \<ge> 1 \<and> raw \<le> LINUX_MAX_ERRNO then Some raw else None)"

section \<open>Syscall results\<close>

datatype syscall_return = Success u64 | Errno linux_errno

primrec encode_i64 :: "syscall_return \<Rightarrow> int" where
  "encode_i64 (Success value) = sint value"
| "encode_i64 (Errno errno) = - uint errno"

definition encode_u64 :: "syscall_return \<Rightarrow> u64" where
  "encode_u64 r = word_of_int (encode_i64 r)"

definition decode_rax :: "u64 \<Rightarrow> syscall_return" where
  "decode_rax raw =
     (let signed = sint raw in
      if signed < 0 \<and> - uint LINUX_MAX_ERRNO \<le> signed
      then (case errno_new (word_of_int (- signed)) of
              Some errno \<Rightarrow> Errno errno
            | None \<Rightarrow> Success raw)
      else Success raw)"

text \<open>A value the kernel ABI reserves for errors: the top 4095 values of the register.\<close>

definition reserved_for_errno :: "u64 \<Rightarrow> bool" where
  "reserved_for_errno v \<longleftrightarrow> 2 ^ 64 - 4095 \<le> uint v"

record syscall_outcome =
  so_result :: syscall_return
  so_unsupported :: bool

definition outcome_success :: "u64 \<Rightarrow> syscall_outcome" where
  "outcome_success v = \<lparr>so_result = Success v, so_unsupported = False\<rparr>"

definition outcome_errno :: "linux_errno \<Rightarrow> syscall_outcome" where
  "outcome_errno e = \<lparr>so_result = Errno e, so_unsupported = False\<rparr>"

definition outcome_unsupported :: syscall_outcome where
  "outcome_unsupported = \<lparr>so_result = Errno ENOSYS, so_unsupported = True\<rparr>"

lemma outcome_inject [simp]:
  "outcome_success v = outcome_success w \<longleftrightarrow> v = w"
  "outcome_errno e = outcome_errno f \<longleftrightarrow> e = f"
  "outcome_success v \<noteq> outcome_errno e"
  "outcome_errno e \<noteq> outcome_success v"
  by (auto simp: outcome_success_def outcome_errno_def)

section \<open>Requests\<close>

text \<open>
  The syscalls that the modelled dispatchers distinguish carry their source names; every other
  number, known or unknown to the source table, is \<open>Other_syscall\<close>, which those dispatchers
  send to their default branch.
\<close>

datatype syscall =
    Getpid | Gettid | Getppid | Getpgrp | Getpgid | Getsid
  | Getuid | Geteuid | Getgid | Getegid | Setuid | Setgid | Setreuid | Setregid
  | Setpgid | Setsid | Fork | Vfork | Clone | Exit | ExitGroup | Wait4
  | RtSigaction | RtSigprocmask | RtSigreturn | RtSigtimedwait
  | Kill | Tkill | Tgkill | SetTidAddress | SetRobustList | Uname | ArchPrctl | Execve
  | Mmap | Munmap | Mprotect | Madvise | Brk
  | Other_syscall u64

record syscall_request =
  req_pid :: guest_pid
  req_tid :: guest_tid
  req_rip :: guest_address
  req_syscall :: syscall
  req_args :: "u64 list"

text \<open>\<open>SyscallArgs\<close> is a six-element array; \<open>get\<close> is \<open>None\<close> beyond it and the dispatchers
  read it with \<open>unwrap_or_default\<close>.\<close>

definition args_get :: "u64 list \<Rightarrow> nat \<Rightarrow> u64 option" where
  "args_get args i = (if i < length args then Some (args ! i) else None)"

definition req_arg :: "syscall_request \<Rightarrow> nat \<Rightarrow> u64" where
  "req_arg r i = (case args_get (req_args r) i of Some v \<Rightarrow> v | None \<Rightarrow> 0)"

section \<open>Task syscall arguments\<close>

definition LINUX_SIGCHLD :: u64 where "LINUX_SIGCHLD = 17"
definition LINUX_KERNEL_SIGSET_SIZE :: u64 where "LINUX_KERNEL_SIGSET_SIZE = 8"
definition LINUX_SIG_BLOCK :: u32 where "LINUX_SIG_BLOCK = 0"
definition LINUX_SIG_UNBLOCK :: u32 where "LINUX_SIG_UNBLOCK = 1"
definition LINUX_SIG_SETMASK :: u32 where "LINUX_SIG_SETMASK = 2"
definition LINUX_CLONE_VM :: u64 where "LINUX_CLONE_VM = 0x100"
definition LINUX_CLONE_FS :: u64 where "LINUX_CLONE_FS = 0x200"
definition LINUX_CLONE_FILES :: u64 where "LINUX_CLONE_FILES = 0x400"
definition LINUX_CLONE_SIGHAND :: u64 where "LINUX_CLONE_SIGHAND = 0x800"
definition LINUX_CLONE_VFORK :: u64 where "LINUX_CLONE_VFORK = 0x4000"
definition LINUX_CLONE_THREAD :: u64 where "LINUX_CLONE_THREAD = 0x10000"
definition LINUX_CLONE_SYSVSEM :: u64 where "LINUX_CLONE_SYSVSEM = 0x40000"
definition LINUX_CLONE_SETTLS :: u64 where "LINUX_CLONE_SETTLS = 0x80000"
definition LINUX_CLONE_PARENT_SETTID :: u64 where "LINUX_CLONE_PARENT_SETTID = 0x100000"
definition LINUX_CLONE_CHILD_CLEARTID :: u64 where "LINUX_CLONE_CHILD_CLEARTID = 0x200000"
definition LINUX_CLONE_DETACHED :: u64 where "LINUX_CLONE_DETACHED = 0x400000"
definition LINUX_CLONE_CHILD_SETTID :: u64 where "LINUX_CLONE_CHILD_SETTID = 0x1000000"
definition LINUX_CLONE_EXIT_SIGNAL_MASK :: u64 where "LINUX_CLONE_EXIT_SIGNAL_MASK = 0xff"
definition LINUX_ROBUST_LIST_HEAD_SIZE :: u64 where "LINUX_ROBUST_LIST_HEAD_SIZE = 24"
definition LINUX_WNOHANG :: u32 where "LINUX_WNOHANG = 1"
definition LINUX_WAIT_SUPPORTED_OPTIONS :: u32 where "LINUX_WAIT_SUPPORTED_OPTIONS = LINUX_WNOHANG"

lemmas clone_flag_defs = LINUX_CLONE_VM_def LINUX_CLONE_FS_def LINUX_CLONE_FILES_def
  LINUX_CLONE_SIGHAND_def LINUX_CLONE_VFORK_def LINUX_CLONE_THREAD_def LINUX_CLONE_SYSVSEM_def
  LINUX_CLONE_SETTLS_def LINUX_CLONE_PARENT_SETTID_def LINUX_CLONE_CHILD_CLEARTID_def
  LINUX_CLONE_DETACHED_def LINUX_CLONE_CHILD_SETTID_def LINUX_CLONE_EXIT_SIGNAL_MASK_def
  LINUX_SIGCHLD_def

record clone_args =
  clone_flags :: u64
  clone_child_stack :: guest_address
  clone_parent_tid :: guest_address
  clone_child_tid :: guest_address
  clone_tls :: guest_address

definition has_clone_vfork :: "clone_args \<Rightarrow> bool" where
  "has_clone_vfork a \<longleftrightarrow> clone_flags a AND LINUX_CLONE_VFORK \<noteq> 0"

definition has_clone_thread :: "clone_args \<Rightarrow> bool" where
  "has_clone_thread a \<longleftrightarrow> clone_flags a AND LINUX_CLONE_THREAD \<noteq> 0"

definition has_clone_settls :: "clone_args \<Rightarrow> bool" where
  "has_clone_settls a \<longleftrightarrow> clone_flags a AND LINUX_CLONE_SETTLS \<noteq> 0"

definition has_clone_child_cleartid :: "clone_args \<Rightarrow> bool" where
  "has_clone_child_cleartid a \<longleftrightarrow> clone_flags a AND LINUX_CLONE_CHILD_CLEARTID \<noteq> 0"

record rt_sigaction_args =
  sa_sig :: u32
  sa_act :: guest_address
  sa_oldact :: guest_address
  sa_sigsetsize :: u64

record rt_sigprocmask_args =
  sm_how :: u32
  sm_set :: guest_address
  sm_oldset :: guest_address
  sm_sigsetsize :: u64

definition supported_how :: "u32 \<Rightarrow> bool" where
  "supported_how how \<longleftrightarrow>
     how = LINUX_SIG_BLOCK \<or> how = LINUX_SIG_UNBLOCK \<or> how = LINUX_SIG_SETMASK"

text \<open>Signed 32-bit fields are kept as words and read with \<open>sint\<close>.\<close>

type_synonym i32 = "32 word"

record kill_args =
  kill_pid :: i32
  kill_sig :: u32

record tgkill_args =
  tgkill_tgid :: i32
  tgkill_tid :: i32
  tgkill_sig :: u32

record tkill_args =
  tkill_tid :: i32
  tkill_sig :: u32

record set_robust_list_args =
  robust_head :: guest_address
  robust_len :: u64

record wait4_args =
  w4_pid :: i32
  w4_wstatus :: guest_address
  w4_options :: u32
  w4_rusage :: guest_address

definition no_hang :: "wait4_args \<Rightarrow> bool" where
  "no_hang a \<longleftrightarrow> w4_options a AND LINUX_WNOHANG \<noteq> 0"

definition has_unsupported_options :: "wait4_args \<Rightarrow> bool" where
  "has_unsupported_options a \<longleftrightarrow> w4_options a AND NOT LINUX_WAIT_SUPPORTED_OPTIONS \<noteq> 0"

section \<open>Properties of the result encoding\<close>

lemma errno_new_Some: "errno_new raw = Some e \<longleftrightarrow> e = raw \<and> 1 \<le> uint raw \<and> uint raw \<le> 4095"
  by (auto simp: errno_new_def LINUX_MAX_ERRNO_def word_le_def)

lemma signed_window:
  fixes x h :: int
  assumes "0 \<le> x" "x < 2 * h"
  shows "(x + h) mod (2 * h) - h = (if x < h then x else x - 2 * h)"
proof (cases "x < h")
  case True
  then show ?thesis using assms by (simp add: mod_pos_pos_trivial)
next
  case False
  have "(x + h) mod (2 * h) = (x - h + 1 * (2 * h)) mod (2 * h)"
    by (rule arg_cong [where f = "\<lambda>y. y mod (2 * h)"]) simp
  also have "\<dots> = (x - h) mod (2 * h)"
    by (rule mod_mult_self1)
  also have "\<dots> = x - h"
    using False assms by (intro mod_pos_pos_trivial) simp_all
  finally show ?thesis using False by simp
qed

lemma sint_u64: "sint (w :: u64) = (if uint w < 2 ^ 63 then uint w else uint w - 2 ^ 64)"
proof -
  have "0 \<le> uint w" "uint w < 2 * 2 ^ 63"
    using uint_lt2p [of w] by simp_all
  from signed_window [OF this] show ?thesis
    by (simp add: sint_uint signed_take_bit_eq_take_bit_shift take_bit_eq_mod)
qed

lemma sint_u32: "sint (w :: u32) = (if uint w < 2 ^ 31 then uint w else uint w - 2 ^ 32)"
proof -
  have "0 \<le> uint w" "uint w < 2 * 2 ^ 31"
    using uint_lt2p [of w] by simp_all
  from signed_window [OF this] show ?thesis
    by (simp add: sint_uint signed_take_bit_eq_take_bit_shift take_bit_eq_mod)
qed

lemma encode_u64_Success [simp]: "encode_u64 (Success v) = v"
  by (simp add: encode_u64_def)

lemma uint_encode_errno:
  assumes "1 \<le> uint e" "uint e \<le> 4095"
  shows "uint (encode_u64 (Errno e)) = 2 ^ 64 - uint e"
proof -
  have "(- uint e) mod 2 ^ 64 = (2 ^ 64 - uint e) mod 2 ^ 64"
    by (simp add: mod_diff_left_eq [symmetric])
  also have "\<dots> = 2 ^ 64 - uint e"
    using assms by (intro mod_pos_pos_trivial) simp_all
  finally show ?thesis
    unfolding encode_u64_def encode_i64.simps uint_word_of_int by simp
qed

lemma reserved_iff: "reserved_for_errno v \<longleftrightarrow> sint v < 0 \<and> - 4095 \<le> sint v"
  using uint_lt2p [of v] by (auto simp: reserved_for_errno_def sint_u64)

text \<open>C1. A syscall result survives the trip through the guest's \<open>rax\<close>: every valid errno decodes
  to itself, and a successful value decodes to itself exactly when it does not fall in the
  range that the Linux ABI reserves for errors.
\<close>

theorem syscall_return_roundtrip:
  "(\<forall>e. errno_new e = Some e \<longrightarrow> decode_rax (encode_u64 (Errno e)) = Errno e)
   \<and> (\<forall>v. decode_rax (encode_u64 (Success v)) = Success v \<longleftrightarrow> \<not> reserved_for_errno v)"
proof (intro conjI allI impI)
  fix e :: linux_errno
  assume "errno_new e = Some e"
  then have e: "1 \<le> uint e" "uint e \<le> 4095" by (simp_all add: errno_new_Some)
  have s: "sint (encode_u64 (Errno e)) = - uint e"
    using e by (simp add: sint_u64 uint_encode_errno [OF e])
  have "decode_rax (encode_u64 (Errno e)) = (case errno_new e of Some errno \<Rightarrow> Errno errno
      | None \<Rightarrow> Success (encode_u64 (Errno e)))"
    using e by (simp add: decode_rax_def s LINUX_MAX_ERRNO_def)
  then show "decode_rax (encode_u64 (Errno e)) = Errno e"
    using \<open>errno_new e = Some e\<close> by simp
next
  fix v :: u64
  show "decode_rax (encode_u64 (Success v)) = Success v \<longleftrightarrow> \<not> reserved_for_errno v"
  proof (cases "reserved_for_errno v")
    case True
    then have s: "sint v < 0" "- 4095 \<le> sint v" by (simp_all add: reserved_iff)
    have "uint (word_of_int (- sint v) :: u16) = - sint v"
      unfolding uint_word_of_int using s by (intro mod_pos_pos_trivial) simp_all
    then have "errno_new (word_of_int (- sint v)) = Some (word_of_int (- sint v))"
      using s by (simp only: errno_new_Some) simp
    with s True show ?thesis
      by (simp add: decode_rax_def LINUX_MAX_ERRNO_def)
  next
    case False
    then show ?thesis
      by (auto simp: decode_rax_def reserved_iff LINUX_MAX_ERRNO_def Let_def)
  qed
qed

theorem syscall_return_roundtrip_witness:
  "decode_rax (encode_u64 (Errno ECHILD)) = Errno ECHILD
   \<and> decode_rax (encode_u64 (Success 42)) = Success 42"
  using syscall_return_roundtrip by (simp add: ECHILD_def errno_new_Some reserved_for_errno_def)

end
