(* ===== verification/Elf_Parser.thy ===== *)
theory Elf_Parser
  imports Mcr_Prelude
begin

text \<open>
  The ELF64 parser of \<open>mcr-elf\<close> (\<open>plan.rs\<close>, \<open>parser.rs\<close>): validation of the
  file header and of the program headers, and the load plan they produce.  Integer additions
  and slice accesses that Rust checks at run time yield \<open>Panic\<close> in the model, so that totality
  of the parser on arbitrary input is a theorem.  \<open>usize\<close> is 64 bits wide on the supported
  host, so conversions between \<open>u64\<close> and \<open>usize\<close> never fail.
\<close>

section \<open>Constants\<close>

definition ELF64_HEADER_SIZE :: u16 where "ELF64_HEADER_SIZE = 64"
definition ELF64_PROGRAM_HEADER_SIZE :: u16 where "ELF64_PROGRAM_HEADER_SIZE = 56"
definition PAGE_SIZE :: u64 where "PAGE_SIZE = 4096"
definition EI_CLASS :: nat where "EI_CLASS = 4"
definition EI_DATA :: nat where "EI_DATA = 5"
definition EI_VERSION :: nat where "EI_VERSION = 6"
definition ELFCLASS64 :: u8 where "ELFCLASS64 = 2"
definition ELFDATA2LSB :: u8 where "ELFDATA2LSB = 1"
definition EV_CURRENT_U8 :: u8 where "EV_CURRENT_U8 = 1"
definition EV_CURRENT_U32 :: u32 where "EV_CURRENT_U32 = 1"
definition ET_EXEC :: u16 where "ET_EXEC = 2"
definition ET_DYN :: u16 where "ET_DYN = 3"
definition EM_X86_64 :: u16 where "EM_X86_64 = 62"
definition PT_LOAD :: u32 where "PT_LOAD = 1"
definition PT_INTERP :: u32 where "PT_INTERP = 3"
definition PT_PHDR :: u32 where "PT_PHDR = 6"
definition PF_X :: u32 where "PF_X = 1"
definition PF_W :: u32 where "PF_W = 2"
definition PF_R :: u32 where "PF_R = 4"
definition PF_SUPPORTED :: u32 where "PF_SUPPORTED = PF_X OR PF_W OR PF_R"
definition ELF_MAGIC :: "u8 list" where "ELF_MAGIC = [0x7f, 0x45, 0x4c, 0x46]"

lemmas elf_const_defs = ELF64_HEADER_SIZE_def ELF64_PROGRAM_HEADER_SIZE_def PAGE_SIZE_def
  EI_CLASS_def EI_DATA_def EI_VERSION_def ELFCLASS64_def ELFDATA2LSB_def EV_CURRENT_U8_def
  EV_CURRENT_U32_def ET_EXEC_def ET_DYN_def EM_X86_64_def PT_LOAD_def PT_INTERP_def PT_PHDR_def
  PF_X_def PF_W_def PF_R_def PF_SUPPORTED_def ELF_MAGIC_def

section \<open>The load plan\<close>

record segment_permissions =
  perm_read :: bool
  perm_write :: bool
  perm_execute :: bool

record memory_mapping =
  mm_start :: u64
  mm_end :: u64
  mm_file_offset :: u64
  mm_file_size :: u64
  mm_permissions :: segment_permissions

record load_segment =
  ls_program_header_index :: u16
  ls_file_offset :: u64
  ls_virtual_address :: u64
  ls_file_size :: u64
  ls_memory_size :: u64
  ls_alignment :: u64
  ls_permissions :: segment_permissions
  ls_mapping :: memory_mapping

record program_header_table =
  pht_file_offset :: u64
  pht_entry_size :: u16
  pht_entry_count :: u16
  pht_virtual_address :: "u64 option"

record interpreter =
  interp_path :: "u8 list"

datatype elf_object_type = Executable | SharedObject

record load_plan =
  lp_object_type :: elf_object_type
  lp_entrypoint :: u64
  lp_program_headers :: program_header_table
  lp_interpreter :: "interpreter option"
  lp_segments :: "load_segment list"

datatype elf_validation_error =
    FileTooSmall nat nat
  | InvalidMagic
  | UnsupportedClass u8
  | UnsupportedEndian u8
  | UnsupportedIdentVersion u8
  | UnsupportedFileVersion u32
  | UnsupportedObjectType u16
  | UnsupportedMachine u16
  | InvalidHeaderSize u16 u16
  | MissingProgramHeaders
  | InvalidProgramHeaderEntrySize u16 u16
  | ProgramHeaderTableOverflow
  | ProgramHeaderTableOutOfBounds u64 u64 nat
  | SegmentFileSizeExceedsMemorySize u16 u64 u64
  | SegmentFileRangeOverflow u16 u64 u64
  | SegmentFileRangeOutOfBounds u16 u64 u64 nat
  | SegmentAddressOverflow u16 u64 u64
  | SegmentMappingOverflow u16
  | InvalidSegmentAlignment u16 u64
  | MisalignedSegment u16 u64 u64 u64
  | UnsupportedSegmentFlags u16 u32
  | MissingLoadSegments
  | OverlappingLoadSegments u16 u16
  | EntrypointNotExecutable u64
  | DuplicateInterpreter u16 u16
  | InterpreterRangeOverflow u16 u64 u64
  | InterpreterOutOfBounds u16 u64 u64 nat
  | UnterminatedInterpreter u16
  | EmptyInterpreter u16

type_synonym 'a elf_result = "('a, elf_validation_error) result"

section \<open>Run-time checked primitives\<close>

definition add_or_panic :: "u64 \<Rightarrow> u64 \<Rightarrow> (u64, 'e) result" where
  "add_or_panic a b = (case checked_add a b of Some c \<Rightarrow> Ok c | None \<Rightarrow> Panic)"

definition sub_or_panic :: "u64 \<Rightarrow> u64 \<Rightarrow> (u64, 'e) result" where
  "sub_or_panic a b = (case checked_sub a b of Some c \<Rightarrow> Ok c | None \<Rightarrow> Panic)"

definition mul_or_panic :: "u64 \<Rightarrow> u64 \<Rightarrow> (u64, 'e) result" where
  "mul_or_panic a b = (case checked_mul a b of Some c \<Rightarrow> Ok c | None \<Rightarrow> Panic)"

definition byte_at :: "u8 list \<Rightarrow> nat \<Rightarrow> (u8, 'e) result" where
  "byte_at bytes i = (if i < length bytes then Ok (bytes ! i) else Panic)"

definition read_u16 :: "u8 list \<Rightarrow> nat \<Rightarrow> (u16, 'e) result" where
  "read_u16 bytes offset =
     and_then (slice bytes offset (offset + 2)) (\<lambda>bs. Ok (u16_from_le_bytes bs))"

definition read_u32 :: "u8 list \<Rightarrow> nat \<Rightarrow> (u32, 'e) result" where
  "read_u32 bytes offset =
     and_then (slice bytes offset (offset + 4)) (\<lambda>bs. Ok (u32_from_le_bytes bs))"

definition read_u64 :: "u8 list \<Rightarrow> nat \<Rightarrow> (u64, 'e) result" where
  "read_u64 bytes offset =
     and_then (slice bytes offset (offset + 8)) (\<lambda>bs. Ok (u64_from_le_bytes bs))"

definition elf_align_down :: "u64 \<Rightarrow> u64 \<Rightarrow> u64" where
  "elf_align_down value alignment = value div alignment * alignment"

definition elf_align_up :: "u64 \<Rightarrow> u64 \<Rightarrow> u64 option" where
  "elf_align_up value alignment =
     (let remainder = value mod alignment in
      if remainder = 0 then Some value else checked_add value (alignment - remainder))"

definition is_power_of_two :: "u64 \<Rightarrow> bool" where
  "is_power_of_two x \<longleftrightarrow> x \<noteq> 0 \<and> x AND (x - 1) = 0"

datatype file_range_error = RangeOverflow | RangeOutOfBounds

definition checked_file_range :: "u64 \<Rightarrow> u64 \<Rightarrow> nat \<Rightarrow> (nat \<times> nat, file_range_error) result" where
  "checked_file_range offset sz file_len =
     and_then (ok_or (checked_add offset sz) RangeOverflow) (\<lambda>end.
     if unat end > file_len then Err RangeOutOfBounds else Ok (unat offset, unat end))"

section \<open>Header structures\<close>

record elf_header =
  eh_object_type :: u16
  eh_machine :: u16
  eh_version :: u32
  eh_entrypoint :: u64
  eh_program_header_offset :: u64
  eh_header_size :: u16
  eh_program_header_entry_size :: u16
  eh_program_header_count :: u16

record raw_program_header =
  rh_index :: u16
  rh_header_type :: u32
  rh_flags :: u32
  rh_file_offset :: u64
  rh_virtual_address :: u64
  rh_file_size :: u64
  rh_memory_size :: u64
  rh_alignment :: u64

record parsed_interpreter =
  pi_index :: u16
  pi_interpreter :: interpreter

definition is_elf64 :: "u8 list \<Rightarrow> bool" where
  "is_elf64 bytes \<longleftrightarrow>
     length bytes \<ge> 5 \<and> take 4 bytes = ELF_MAGIC \<and> bytes ! EI_CLASS = ELFCLASS64"

definition validate_ident :: "u8 list \<Rightarrow> unit elf_result" where
  "validate_ident bytes =
     (if length bytes < unat ELF64_HEADER_SIZE
      then Err (FileTooSmall (unat ELF64_HEADER_SIZE) (length bytes))
      else and_then (slice bytes 0 4) (\<lambda>magic.
        if magic \<noteq> ELF_MAGIC then Err InvalidMagic
        else and_then (byte_at bytes EI_CLASS) (\<lambda>class.
        if class \<noteq> ELFCLASS64 then Err (UnsupportedClass class)
        else and_then (byte_at bytes EI_DATA) (\<lambda>endian.
        if endian \<noteq> ELFDATA2LSB then Err (UnsupportedEndian endian)
        else and_then (byte_at bytes EI_VERSION) (\<lambda>version.
        if version \<noteq> EV_CURRENT_U8 then Err (UnsupportedIdentVersion version)
        else Ok ())))))"

definition elf_header_parse :: "u8 list \<Rightarrow> elf_header elf_result" where
  "elf_header_parse bytes =
     and_then (read_u16 bytes 16) (\<lambda>object_type.
     and_then (read_u16 bytes 18) (\<lambda>machine.
     and_then (read_u32 bytes 20) (\<lambda>version.
     and_then (read_u64 bytes 24) (\<lambda>entrypoint.
     and_then (read_u64 bytes 32) (\<lambda>program_header_offset.
     and_then (read_u16 bytes 52) (\<lambda>header_size.
     and_then (read_u16 bytes 54) (\<lambda>program_header_entry_size.
     and_then (read_u16 bytes 56) (\<lambda>program_header_count.
     if version \<noteq> EV_CURRENT_U32 then Err (UnsupportedFileVersion version)
     else if machine \<noteq> EM_X86_64 then Err (UnsupportedMachine machine)
     else Ok \<lparr>eh_object_type = object_type, eh_machine = machine, eh_version = version,
              eh_entrypoint = entrypoint, eh_program_header_offset = program_header_offset,
              eh_header_size = header_size,
              eh_program_header_entry_size = program_header_entry_size,
              eh_program_header_count = program_header_count\<rparr>))))))))"

definition object_type_from_raw :: "u16 \<Rightarrow> elf_object_type elf_result" where
  "object_type_from_raw raw =
     (if raw = ET_EXEC then Ok Executable
      else if raw = ET_DYN then Ok SharedObject
      else Err (UnsupportedObjectType raw))"

definition permissions_try_from :: "u32 \<Rightarrow> (segment_permissions, u32) result" where
  "permissions_try_from flags =
     (if flags AND NOT PF_SUPPORTED \<noteq> 0 then Err flags
      else Ok \<lparr>perm_read = (flags AND PF_R \<noteq> 0), perm_write = (flags AND PF_W \<noteq> 0),
               perm_execute = (flags AND PF_X \<noteq> 0)\<rparr>)"

definition validate_program_header_table :: "elf_header \<Rightarrow> nat \<Rightarrow> unit elf_result" where
  "validate_program_header_table header file_size =
     (if eh_header_size header \<noteq> ELF64_HEADER_SIZE
      then Err (InvalidHeaderSize ELF64_HEADER_SIZE (eh_header_size header))
      else if eh_program_header_count header = 0 then Err MissingProgramHeaders
      else if eh_program_header_entry_size header \<noteq> ELF64_PROGRAM_HEADER_SIZE
      then Err (InvalidProgramHeaderEntrySize ELF64_PROGRAM_HEADER_SIZE
                 (eh_program_header_entry_size header))
      else and_then (ok_or (checked_mul (ucast (eh_program_header_entry_size header))
                              (ucast (eh_program_header_count header)))
                      ProgramHeaderTableOverflow) (\<lambda>table_size.
           and_then (ok_or (checked_add (eh_program_header_offset header) table_size)
                      ProgramHeaderTableOverflow) (\<lambda>table_end.
           if unat table_end > file_size
           then Err (ProgramHeaderTableOutOfBounds (eh_program_header_offset header)
                       table_size file_size)
           else Ok ())))"

definition raw_program_header_parse ::
  "u16 \<Rightarrow> u8 list \<Rightarrow> u64 \<Rightarrow> raw_program_header elf_result" where
  "raw_program_header_parse index bytes offset =
     and_then (map_err (\<lambda>e. case e of
                   RangeOverflow \<Rightarrow> ProgramHeaderTableOverflow
                 | RangeOutOfBounds \<Rightarrow> ProgramHeaderTableOutOfBounds offset
                     (ucast ELF64_PROGRAM_HEADER_SIZE) (length bytes))
                 (checked_file_range offset (ucast ELF64_PROGRAM_HEADER_SIZE) (length bytes)))
       (\<lambda>(lo, hi).
     and_then (slice bytes lo hi) (\<lambda>entry.
     and_then (read_u32 entry 0) (\<lambda>header_type.
     and_then (read_u32 entry 4) (\<lambda>flags.
     and_then (read_u64 entry 8) (\<lambda>file_offset.
     and_then (read_u64 entry 16) (\<lambda>virtual_address.
     and_then (read_u64 entry 32) (\<lambda>file_size.
     and_then (read_u64 entry 40) (\<lambda>memory_size.
     and_then (read_u64 entry 48) (\<lambda>alignment.
     Ok \<lparr>rh_index = index, rh_header_type = header_type, rh_flags = flags,
         rh_file_offset = file_offset, rh_virtual_address = virtual_address,
         rh_file_size = file_size, rh_memory_size = memory_size,
         rh_alignment = alignment\<rparr>)))))))))"

definition parse_program_headers ::
  "u8 list \<Rightarrow> elf_header \<Rightarrow> raw_program_header list elf_result" where
  "parse_program_headers bytes header =
     collect_results (\<lambda>index.
       and_then (mul_or_panic (of_nat index) (ucast (eh_program_header_entry_size header)))
         (\<lambda>delta.
       and_then (add_or_panic (eh_program_header_offset header) delta) (\<lambda>offset.
       raw_program_header_parse (of_nat index) bytes offset)))
       [0..<unat (eh_program_header_count header)]"

section \<open>Segments\<close>

definition validate_segment_alignment :: "raw_program_header \<Rightarrow> unit elf_result" where
  "validate_segment_alignment header =
     (if rh_alignment header > 1 \<and> \<not> is_power_of_two (rh_alignment header)
      then Err (InvalidSegmentAlignment (rh_index header) (rh_alignment header))
      else if rh_alignment header > 1
           \<and> rh_file_offset header mod rh_alignment header
             \<noteq> rh_virtual_address header mod rh_alignment header
      then Err (MisalignedSegment (rh_index header) (rh_file_offset header)
                  (rh_virtual_address header) (rh_alignment header))
      else Ok ())"

definition build_memory_mapping ::
  "raw_program_header \<Rightarrow> segment_permissions \<Rightarrow> memory_mapping elf_result" where
  "build_memory_mapping header permissions =
     (let start = elf_align_down (rh_virtual_address header) PAGE_SIZE;
          overflow = SegmentMappingOverflow (rh_index header) in
      and_then (sub_or_panic (rh_virtual_address header) start) (\<lambda>page_offset.
      and_then (ok_or (checked_add (rh_virtual_address header) (rh_memory_size header)) overflow)
        (\<lambda>memory_end.
      and_then (ok_or (elf_align_up memory_end PAGE_SIZE) overflow) (\<lambda>end.
      and_then (ok_or (checked_sub (rh_file_offset header) page_offset) overflow) (\<lambda>file_offset.
      and_then (ok_or (checked_add (rh_file_size header) page_offset) overflow) (\<lambda>file_size.
      Ok \<lparr>mm_start = start, mm_end = end, mm_file_offset = file_offset,
          mm_file_size = file_size, mm_permissions = permissions\<rparr>))))))"

definition load_segment_from_header ::
  "raw_program_header \<Rightarrow> nat \<Rightarrow> load_segment elf_result" where
  "load_segment_from_header header file_len =
     (if rh_file_size header > rh_memory_size header
      then Err (SegmentFileSizeExceedsMemorySize (rh_index header) (rh_file_size header)
                  (rh_memory_size header))
      else and_then (ok_or (checked_add (rh_file_offset header) (rh_file_size header))
                      (SegmentFileRangeOverflow (rh_index header) (rh_file_offset header)
                         (rh_file_size header))) (\<lambda>file_end.
      if unat file_end > file_len
      then Err (SegmentFileRangeOutOfBounds (rh_index header) (rh_file_offset header)
                  (rh_file_size header) file_len)
      else and_then (ok_or (checked_add (rh_virtual_address header) (rh_memory_size header))
                      (SegmentAddressOverflow (rh_index header) (rh_virtual_address header)
                         (rh_memory_size header))) (\<lambda>_.
      and_then (validate_segment_alignment header) (\<lambda>_.
      and_then (map_err (\<lambda>flags. UnsupportedSegmentFlags (rh_index header) flags)
                  (permissions_try_from (rh_flags header))) (\<lambda>permissions.
      and_then (build_memory_mapping header permissions) (\<lambda>mapping.
      Ok \<lparr>ls_program_header_index = rh_index header, ls_file_offset = rh_file_offset header,
          ls_virtual_address = rh_virtual_address header, ls_file_size = rh_file_size header,
          ls_memory_size = rh_memory_size header, ls_alignment = rh_alignment header,
          ls_permissions = permissions, ls_mapping = mapping\<rparr>))))))"

fun validate_non_overlapping_segments :: "load_segment list \<Rightarrow> unit elf_result" where
  "validate_non_overlapping_segments (first # second # rest) =
     (if ls_memory_size first = 0 \<or> ls_memory_size second = 0
      then validate_non_overlapping_segments (second # rest)
      else and_then (add_or_panic (ls_virtual_address first) (ls_memory_size first)) (\<lambda>end.
        if end > ls_virtual_address second
        then Err (OverlappingLoadSegments (ls_program_header_index first)
                    (ls_program_header_index second))
        else validate_non_overlapping_segments (second # rest)))"
| "validate_non_overlapping_segments _ = Ok ()"

definition contains_virtual_address :: "load_segment \<Rightarrow> u64 \<Rightarrow> bool elf_result" where
  "contains_virtual_address segment address =
     (if ls_virtual_address segment \<le> address
      then and_then (add_or_panic (ls_virtual_address segment) (ls_memory_size segment))
             (\<lambda>end. Ok (address < end))
      else Ok False)"

fun validate_entrypoint :: "u64 \<Rightarrow> load_segment list \<Rightarrow> unit elf_result" where
  "validate_entrypoint entrypoint [] = Err (EntrypointNotExecutable entrypoint)"
| "validate_entrypoint entrypoint (segment # rest) =
     (if perm_execute (ls_permissions segment)
      then and_then (contains_virtual_address segment entrypoint) (\<lambda>inside.
             if inside then Ok () else validate_entrypoint entrypoint rest)
      else validate_entrypoint entrypoint rest)"

definition parse_interpreter :: "raw_program_header \<Rightarrow> u8 list \<Rightarrow> parsed_interpreter elf_result" where
  "parse_interpreter header bytes =
     and_then (map_err (\<lambda>e. case e of
                   RangeOverflow \<Rightarrow> InterpreterRangeOverflow (rh_index header)
                     (rh_file_offset header) (rh_file_size header)
                 | RangeOutOfBounds \<Rightarrow> InterpreterOutOfBounds (rh_index header)
                     (rh_file_offset header) (rh_file_size header) (length bytes))
                 (checked_file_range (rh_file_offset header) (rh_file_size header)
                    (length bytes))) (\<lambda>(lo, hi).
     and_then (slice bytes lo hi) (\<lambda>range.
     if range = [] \<or> last range \<noteq> 0 then Err (UnterminatedInterpreter (rh_index header))
     else (let path = butlast range in
           if path = [] then Err (EmptyInterpreter (rh_index header))
           else Ok \<lparr>pi_index = rh_index header, pi_interpreter = \<lparr>interp_path = path\<rparr>\<rparr>)))"

fun infer_program_header_virtual_address ::
  "load_segment list \<Rightarrow> elf_header \<Rightarrow> u64 option elf_result" where
  "infer_program_header_virtual_address [] header = Ok None"
| "infer_program_header_virtual_address (segment # rest) header =
     (case checked_sub (eh_program_header_offset header) (ls_file_offset segment) of
        None \<Rightarrow> infer_program_header_virtual_address rest header
      | Some phoff_in_segment \<Rightarrow>
          and_then (mul_or_panic (ucast (eh_program_header_entry_size header))
                      (ucast (eh_program_header_count header))) (\<lambda>table_size.
          case checked_add phoff_in_segment table_size of
            None \<Rightarrow> infer_program_header_virtual_address rest header
          | Some phend_in_segment \<Rightarrow>
              if phend_in_segment \<le> ls_file_size segment
              then and_then (add_or_panic (ls_virtual_address segment) phoff_in_segment)
                     (\<lambda>address. Ok (Some address))
              else infer_program_header_virtual_address rest header))"

text \<open>The accumulating loop of \<open>parse_load_plan\<close> over the raw headers.\<close>

fun scan_headers ::
  "u8 list \<Rightarrow> raw_program_header list \<Rightarrow> load_segment list \<Rightarrow> parsed_interpreter option
     \<Rightarrow> u64 option \<Rightarrow> (load_segment list \<times> parsed_interpreter option \<times> u64 option) elf_result" where
  "scan_headers bytes [] segments interpreter phdr = Ok (segments, interpreter, phdr)"
| "scan_headers bytes (header # rest) segments interpreter phdr =
     (if rh_header_type header = PT_LOAD
      then and_then (load_segment_from_header header (length bytes)) (\<lambda>segment.
             scan_headers bytes rest (segments @ [segment]) interpreter phdr)
      else if rh_header_type header = PT_INTERP
      then (case interpreter of
              Some existing \<Rightarrow> Err (DuplicateInterpreter (pi_index existing) (rh_index header))
            | None \<Rightarrow> and_then (parse_interpreter header bytes) (\<lambda>parsed.
                scan_headers bytes rest segments (Some parsed) phdr))
      else if rh_header_type header = PT_PHDR
      then scan_headers bytes rest segments interpreter (Some (rh_virtual_address header))
      else scan_headers bytes rest segments interpreter phdr)"

definition parse_load_plan :: "u8 list \<Rightarrow> load_plan elf_result" where
  "parse_load_plan bytes =
     and_then (validate_ident bytes) (\<lambda>_.
     and_then (elf_header_parse bytes) (\<lambda>header.
     and_then (object_type_from_raw (eh_object_type header)) (\<lambda>object_type.
     and_then (validate_program_header_table header (length bytes)) (\<lambda>_.
     and_then (parse_program_headers bytes header) (\<lambda>raw_headers.
     and_then (scan_headers bytes raw_headers [] None None) (\<lambda>(scanned, interpreter, phdr).
     if scanned = [] then Err MissingLoadSegments
     else (let segments = sort_key ls_virtual_address scanned in
     and_then (validate_non_overlapping_segments segments) (\<lambda>_.
     and_then (validate_entrypoint (eh_entrypoint header) segments) (\<lambda>_.
     and_then (case phdr of Some address \<Rightarrow> Ok (Some address)
               | None \<Rightarrow> infer_program_header_virtual_address segments header) (\<lambda>phdr_address.
     Ok \<lparr>lp_object_type = object_type, lp_entrypoint = eh_entrypoint header,
         lp_program_headers =
           \<lparr>pht_file_offset = eh_program_header_offset header,
            pht_entry_size = eh_program_header_entry_size header,
            pht_entry_count = eh_program_header_count header,
            pht_virtual_address = phdr_address\<rparr>,
         lp_interpreter = map_option pi_interpreter interpreter,
         lp_segments = segments\<rparr>))))))))))"


section \<open>Absence of panics\<close>

lemma add_or_panic_Ok [result_simps]: "add_or_panic a b = Ok c \<longleftrightarrow> unat c = unat a + unat b"
  by (simp add: add_or_panic_def checked_add_Some [symmetric] split: option.splits)

lemma add_or_panic_Panic [result_simps]: "add_or_panic a b = Panic \<longleftrightarrow> 2 ^ 64 \<le> unat a + unat b"
  by (simp add: add_or_panic_def checked_add_def)

lemma sub_or_panic_Ok [result_simps]: "sub_or_panic a b = Ok c \<longleftrightarrow> unat a = unat b + unat c"
  by (simp add: sub_or_panic_def checked_sub_Some [symmetric] split: option.splits)

lemma sub_or_panic_Panic [result_simps]: "sub_or_panic a b = Panic \<longleftrightarrow> unat a < unat b"
  by (simp add: sub_or_panic_def checked_sub_None [symmetric] split: option.splits)

lemma sub_or_panic_le:
  assumes "unat b \<le> unat a"
  shows "sub_or_panic a b = Ok (a - b)" "unat (a - b) = unat a - unat b"
  using assms by (simp_all add: sub_or_panic_def checked_sub_def word_le_nat_alt unat_sub)

lemma mul_or_panic_Ok: "mul_or_panic a b = Ok c \<Longrightarrow> unat c = unat a * unat b"
  by (auto simp: mul_or_panic_def checked_mul_Some split: option.splits)

lemma mul_or_panic_Panic [result_simps]: "mul_or_panic a b = Panic \<longleftrightarrow> 2 ^ 64 \<le> unat a * unat b"
  by (auto simp: mul_or_panic_def checked_mul_def split: option.splits)

lemma byte_at_Panic [result_simps]: "byte_at bytes i = Panic \<longleftrightarrow> length bytes \<le> i"
  by (auto simp: byte_at_def)

lemma byte_at_Ok [result_simps]: "byte_at bytes i = Ok b \<longleftrightarrow> i < length bytes \<and> b = bytes ! i"
  by (auto simp: byte_at_def)

lemma read_not_Panic:
  "read_u16 bytes i = Panic \<longleftrightarrow> length bytes < i + 2"
  "read_u32 bytes i = Panic \<longleftrightarrow> length bytes < i + 4"
  "read_u64 bytes i = Panic \<longleftrightarrow> length bytes < i + 8"
  by (auto simp: read_u16_def read_u32_def read_u64_def result_simps slice_Panic)

lemma validate_ident_length: "validate_ident bytes = Ok u \<Longrightarrow> 64 \<le> length bytes"
  by (auto simp: validate_ident_def elf_const_defs split: if_splits)

lemma validate_ident_not_Panic: "validate_ident bytes \<noteq> Panic"
  by (auto simp: validate_ident_def elf_const_defs result_simps slice_Panic split: if_splits)

lemma elf_header_parse_not_Panic: "64 \<le> length bytes \<Longrightarrow> elf_header_parse bytes \<noteq> Panic"
  by (auto simp: elf_header_parse_def result_simps read_not_Panic split: if_splits)

lemma object_type_not_Panic: "object_type_from_raw raw \<noteq> Panic"
  by (simp add: object_type_from_raw_def)

lemma permissions_not_Panic: "permissions_try_from flags \<noteq> Panic"
  by (simp add: permissions_try_from_def)

lemma program_header_table_not_Panic: "validate_program_header_table header n \<noteq> Panic"
  by (auto simp: validate_program_header_table_def result_simps split: if_splits)

lemma program_header_table_bound:
  assumes "validate_program_header_table header n = Ok u"
  shows "eh_program_header_entry_size header = 56"
    and "unat (eh_program_header_offset header) + 56 * unat (eh_program_header_count header) \<le> n"
proof -
  show entry: "eh_program_header_entry_size header = 56"
    using assms by (auto simp: validate_program_header_table_def elf_const_defs split: if_splits)
  obtain table_size table_end :: u64 where
    "checked_mul (56::u64) (ucast (eh_program_header_count header)) = Some table_size"
    "unat table_end = unat (eh_program_header_offset header) + unat table_size"
    "unat table_end \<le> n"
    using assms
    by (auto simp: validate_program_header_table_def result_simps checked_simps elf_const_defs
        split: if_splits)
  then show "unat (eh_program_header_offset header) + 56 * unat (eh_program_header_count header) \<le> n"
    by (auto dest!: checked_mul_Some)
qed

lemma program_header_table_no_wrap:
  assumes "validate_program_header_table header n = Ok u"
  shows "unat (eh_program_header_offset header) + 56 * unat (eh_program_header_count header) < 2 ^ 64"
proof -
  obtain table_size table_end :: u64 where
    "checked_mul (56::u64) (ucast (eh_program_header_count header)) = Some table_size"
    "unat table_end = unat (eh_program_header_offset header) + unat table_size"
    using assms
    by (auto simp: validate_program_header_table_def result_simps checked_simps elf_const_defs
        split: if_splits)
  then show ?thesis
    using unat_u64_less [of table_end] by (auto dest!: checked_mul_Some)
qed

lemma checked_file_range_Ok [result_simps]:
  "checked_file_range offset sz len = Ok (lo, hi) \<longleftrightarrow>
     lo = unat offset \<and> hi = unat offset + unat sz \<and> hi \<le> len \<and> hi < 2 ^ 64"
proof
  assume "checked_file_range offset sz len = Ok (lo, hi)"
  then obtain e :: u64 where "unat e = unat offset + unat sz" "unat e \<le> len" "lo = unat offset" "hi = unat e"
    by (auto simp: checked_file_range_def result_simps checked_simps split: if_splits)
  then show "lo = unat offset \<and> hi = unat offset + unat sz \<and> hi \<le> len \<and> hi < 2 ^ 64"
    using unsigned_less [of e, where ?'a = nat] by simp
next
  assume "lo = unat offset \<and> hi = unat offset + unat sz \<and> hi \<le> len \<and> hi < 2 ^ 64"
  then show "checked_file_range offset sz len = Ok (lo, hi)"
    by (auto simp: checked_file_range_def checked_add_def unat_add_small)
qed

lemma checked_file_range_not_Panic [simp]: "checked_file_range offset sz len \<noteq> Panic"
  by (auto simp: checked_file_range_def result_simps)

lemma raw_program_header_parse_not_Panic: "raw_program_header_parse i bytes offset \<noteq> Panic"
  by (auto simp: raw_program_header_parse_def result_simps slice_Panic read_not_Panic elf_const_defs
      split: prod.splits)

lemma parse_program_headers_not_Panic:
  assumes "eh_program_header_entry_size header = 56"
    and "unat (eh_program_header_offset header) + 56 * unat (eh_program_header_count header) < 2 ^ 64"
  shows "parse_program_headers bytes header \<noteq> Panic"
  unfolding parse_program_headers_def
proof (rule collect_results_not_Panic, rule notI)
  fix index
  assume "index \<in> set [0..<unat (eh_program_header_count header)]"
  then have lt: "index < unat (eh_program_header_count header)" by simp
  moreover have "unat (eh_program_header_count header) < 2 ^ 16"
    using unsigned_less [of "eh_program_header_count header", where ?'a = nat] by simp
  ultimately have un: "unat (of_nat index :: u64) = index"
    by (simp add: unat_of_nat)
  assume "and_then (mul_or_panic (of_nat index) (ucast (eh_program_header_entry_size header)))
    (\<lambda>delta. and_then (add_or_panic (eh_program_header_offset header) delta)
      (\<lambda>offset. raw_program_header_parse (of_nat index) bytes offset)) = Panic"
  then show False
    using assms lt un
    by (auto simp: result_simps raw_program_header_parse_not_Panic dest!: mul_or_panic_Ok)
qed

section \<open>What an accepted segment satisfies\<close>

text \<open>
  \<open>segment_wf\<close> is the contract of one accepted segment with respect to a file of \<open>len\<close>
  bytes: the file range lies in the file, the address range does not wrap, and the mapping is the
  smallest run of whole pages that holds the segment, with the file bytes of its first page moved
  to the page boundary.
\<close>

definition segment_wf :: "nat \<Rightarrow> load_segment \<Rightarrow> bool" where
  "segment_wf len seg \<longleftrightarrow>
     unat (ls_file_size seg) \<le> unat (ls_memory_size seg)
   \<and> unat (ls_file_offset seg) + unat (ls_file_size seg) \<le> len
   \<and> unat (ls_virtual_address seg) + unat (ls_memory_size seg) < 2 ^ 64
   \<and> mm_permissions (ls_mapping seg) = ls_permissions seg
   \<and> unat (mm_start (ls_mapping seg)) mod 4096 = 0
   \<and> unat (mm_end (ls_mapping seg)) mod 4096 = 0
   \<and> unat (mm_start (ls_mapping seg)) \<le> unat (ls_virtual_address seg)
   \<and> unat (ls_virtual_address seg) < unat (mm_start (ls_mapping seg)) + 4096
   \<and> unat (ls_virtual_address seg) + unat (ls_memory_size seg) \<le> unat (mm_end (ls_mapping seg))
   \<and> unat (mm_end (ls_mapping seg))
       < unat (ls_virtual_address seg) + unat (ls_memory_size seg) + 4096
   \<and> unat (mm_file_offset (ls_mapping seg)) + unat (ls_virtual_address seg)
       = unat (ls_file_offset seg) + unat (mm_start (ls_mapping seg))
   \<and> unat (mm_file_size (ls_mapping seg)) + unat (mm_start (ls_mapping seg))
       = unat (ls_file_size seg) + unat (ls_virtual_address seg)"

lemma elf_align_down_page:
  "unat (elf_align_down v PAGE_SIZE) = unat v div 4096 * 4096"
proof -
  have "unat v div 4096 * 4096 \<le> unat v" by simp
  then have "unat v div 4096 * 4096 < 18446744073709551616"
    using unat_u64_less [of v] by linarith
  then show ?thesis
    by (simp add: elf_align_down_def PAGE_SIZE_def unat_word_ariths unat_div)
qed

lemma round_up_eq: "n + (4096 - n mod 4096) = (n div 4096 + 1) * 4096" for n :: nat
proof -
  define q r where "q = n div 4096" and "r = n mod 4096"
  then have "n = q * 4096 + r" "r < 4096" by simp_all
  then show ?thesis by simp
qed

lemma elf_align_up_page:
  assumes "elf_align_up v PAGE_SIZE = Some w"
  shows "unat w mod 4096 = 0 \<and> unat v \<le> unat w \<and> unat w < unat v + 4096"
proof -
  have r: "unat (v mod 4096) = unat v mod 4096"
    by (simp add: unat_mod)
  show ?thesis
  proof (cases "v mod 4096 = 0")
    case True
    with r assms show ?thesis
      by (simp add: elf_align_up_def PAGE_SIZE_def)
  next
    case False
    then have nz: "unat v mod 4096 \<noteq> 0"
      by (simp add: r [symmetric] unat_eq_0)
    have lt: "unat v mod 4096 < 4096" by simp
    have "unat (4096 - v mod 4096) = 4096 - unat v mod 4096"
      using r lt by (simp add: unat_sub word_le_nat_alt)
    moreover have "unat w = unat v + unat (4096 - v mod 4096)"
      using assms False by (simp add: elf_align_up_def PAGE_SIZE_def checked_simps Let_def)
    ultimately have w: "unat w = unat v + (4096 - unat v mod 4096)" by simp
    have "unat w mod 4096 = 0"
      unfolding w round_up_eq by (rule mod_mult_self2_is_0)
    moreover have "unat v \<le> unat w" using w by linarith
    moreover have "unat w < unat v + 4096" using w nz lt by linarith
    ultimately show ?thesis by blast
  qed
qed

lemma build_memory_mapping_not_Panic: "build_memory_mapping header p \<noteq> Panic"
proof -
  have "unat (rh_virtual_address header) div 4096 * 4096 \<le> unat (rh_virtual_address header)"
    by simp
  then show ?thesis
    by (auto simp: build_memory_mapping_def Let_def result_simps elf_align_down_page)
qed

lemma validate_segment_alignment_not_Panic: "validate_segment_alignment header \<noteq> Panic"
  by (simp add: validate_segment_alignment_def)

lemma load_segment_not_Panic: "load_segment_from_header header n \<noteq> Panic"
  by (auto simp: load_segment_from_header_def result_simps build_memory_mapping_not_Panic
      permissions_not_Panic validate_segment_alignment_not_Panic split: if_splits)

lemma build_memory_mapping_Ok:
  assumes "build_memory_mapping header p = Ok m"
  shows "mm_permissions m = p"
    and "unat (mm_start m) = unat (rh_virtual_address header) div 4096 * 4096"
    and "unat (mm_end m) mod 4096 = 0"
    and "unat (rh_virtual_address header) + unat (rh_memory_size header) \<le> unat (mm_end m)"
    and "unat (mm_end m) < unat (rh_virtual_address header) + unat (rh_memory_size header) + 4096"
    and "unat (mm_file_offset m) + unat (rh_virtual_address header)
           = unat (rh_file_offset header) + unat (mm_start m)"
    and "unat (mm_file_size m) + unat (mm_start m)
           = unat (rh_file_size header) + unat (rh_virtual_address header)"
proof -
  obtain po me e fo fs :: u64 where
      po: "unat (rh_virtual_address header) = unat (rh_virtual_address header) div 4096 * 4096 + unat po"
    and me: "unat me = unat (rh_virtual_address header) + unat (rh_memory_size header)"
    and e: "elf_align_up me PAGE_SIZE = Some e"
    and fo: "unat (rh_file_offset header) = unat po + unat fo"
    and fs: "unat fs = unat (rh_file_size header) + unat po"
    and m: "m = \<lparr>mm_start = elf_align_down (rh_virtual_address header) PAGE_SIZE, mm_end = e,
                  mm_file_offset = fo, mm_file_size = fs, mm_permissions = p\<rparr>"
    using assms
    by (auto simp: build_memory_mapping_def Let_def result_simps checked_simps elf_align_down_page)
  note up = elf_align_up_page [OF e]
  show "mm_permissions m = p" by (simp add: m)
  show start: "unat (mm_start m) = unat (rh_virtual_address header) div 4096 * 4096"
    by (simp add: m elf_align_down_page)
  show "unat (mm_end m) mod 4096 = 0" using up by (simp add: m)
  show "unat (rh_virtual_address header) + unat (rh_memory_size header) \<le> unat (mm_end m)"
    using up me by (simp add: m)
  show "unat (mm_end m) < unat (rh_virtual_address header) + unat (rh_memory_size header) + 4096"
    using up me by (simp add: m)
  show "unat (mm_file_offset m) + unat (rh_virtual_address header)
           = unat (rh_file_offset header) + unat (mm_start m)"
    using po fo start by (simp add: m)
  show "unat (mm_file_size m) + unat (mm_start m)
           = unat (rh_file_size header) + unat (rh_virtual_address header)"
    using po fs start by (simp add: m)
qed

lemma load_segment_from_header_wf:
  assumes "load_segment_from_header header len = Ok seg"
  shows "segment_wf len seg"
proof -
  obtain fe ve :: u64 and p m where
      "unat (rh_file_size header) \<le> unat (rh_memory_size header)"
    and "unat fe = unat (rh_file_offset header) + unat (rh_file_size header)" "unat fe \<le> len"
    and "unat ve = unat (rh_virtual_address header) + unat (rh_memory_size header)"
    and m: "build_memory_mapping header p = Ok m"
    and seg: "seg = \<lparr>ls_program_header_index = rh_index header,
        ls_file_offset = rh_file_offset header, ls_virtual_address = rh_virtual_address header,
        ls_file_size = rh_file_size header, ls_memory_size = rh_memory_size header,
        ls_alignment = rh_alignment header, ls_permissions = p, ls_mapping = m\<rparr>"
    using assms
    by (auto simp: load_segment_from_header_def result_simps checked_simps word_less_nat_alt
        split: if_splits)
  moreover have "unat (rh_virtual_address header)
      < unat (rh_virtual_address header) div 4096 * 4096 + 4096"
    by (metis add.commute div_mult_mod_eq mod_less_divisor nat_add_left_cancel_less zero_less_numeral)
  ultimately show ?thesis
    using build_memory_mapping_Ok [OF m] unat_u64_less [of ve]
    by (simp add: segment_wf_def)
qed

section \<open>What an accepted plan satisfies\<close>

lemma scan_headers_segments:
  assumes "scan_headers bytes headers segs interp phdr = Ok (segs', interp', phdr')"
  shows "\<exists>new. segs' = segs @ new
           \<and> list_all2 (\<lambda>h seg. load_segment_from_header h (length bytes) = Ok seg)
               (filter (\<lambda>h. rh_header_type h = PT_LOAD) headers) new"
  using assms
proof (induction bytes headers segs interp phdr rule: scan_headers.induct)
  case (2 bytes header rest segs interp phdr)
  then show ?case
    by (auto simp: result_simps elf_const_defs split: if_splits option.splits)
qed simp

lemma scan_headers_not_Panic: "scan_headers bytes headers segs interp phdr \<noteq> Panic"
proof (induction bytes headers segs interp phdr rule: scan_headers.induct)
  case (2 bytes header rest segs interp phdr)
  moreover have "parse_interpreter header bytes \<noteq> Panic"
    by (auto simp: parse_interpreter_def result_simps slice_Panic Let_def split: if_splits prod.splits)
  ultimately show ?case
    by (auto simp: result_simps load_segment_not_Panic split: option.splits)
qed simp

text \<open>Two segments are ordered and do not overlap unless one of them is empty.\<close>

definition segments_disjoint :: "load_segment \<Rightarrow> load_segment \<Rightarrow> bool" where
  "segments_disjoint first second \<longleftrightarrow>
     ls_memory_size first = 0 \<or> ls_memory_size second = 0
     \<or> unat (ls_virtual_address first) + unat (ls_memory_size first)
         \<le> unat (ls_virtual_address second)"

lemma validate_non_overlapping_Ok:
  "validate_non_overlapping_segments segs = Ok u \<Longrightarrow> successively segments_disjoint segs"
  by (induction segs rule: validate_non_overlapping_segments.induct)
    (auto simp: result_simps segments_disjoint_def word_less_nat_alt split: if_splits)

lemma validate_non_overlapping_not_Panic:
  "list_all (segment_wf len) segs \<Longrightarrow> validate_non_overlapping_segments segs \<noteq> Panic"
  by (induction segs rule: validate_non_overlapping_segments.induct)
    (auto simp: result_simps segment_wf_def split: if_splits)

lemma contains_virtual_address_wf:
  assumes "segment_wf len seg"
  shows "contains_virtual_address seg a =
    Ok (unat (ls_virtual_address seg) \<le> unat a
        \<and> unat a < unat (ls_virtual_address seg) + unat (ls_memory_size seg))"
  using assms
  by (auto simp: contains_virtual_address_def add_or_panic_def checked_add_def segment_wf_def
      word_le_nat_alt word_less_nat_alt unat_add_small)

lemma validate_entrypoint_wf:
  assumes "list_all (segment_wf len) segs"
  shows "validate_entrypoint a segs =
    (if \<exists>seg \<in> set segs. perm_execute (ls_permissions seg)
          \<and> unat (ls_virtual_address seg) \<le> unat a
          \<and> unat a < unat (ls_virtual_address seg) + unat (ls_memory_size seg)
     then Ok () else Err (EntrypointNotExecutable a))"
  using assms
  by (induction segs) (auto simp: contains_virtual_address_wf)

lemma infer_phdr_not_Panic:
  assumes "list_all (segment_wf len) segs"
    and "unat (eh_program_header_entry_size header) * unat (eh_program_header_count header) < 2 ^ 64"
  shows "infer_program_header_virtual_address segs header \<noteq> Panic"
  using assms
  by (induction segs)
    (auto simp: result_simps checked_simps segment_wf_def word_le_nat_alt split: option.splits if_splits)

lemma parse_interpreter_path:
  assumes "parse_interpreter header bytes = Ok p"
  shows "interp_path (pi_interpreter p) \<noteq> []
    \<and> take (Suc (length (interp_path (pi_interpreter p))))
        (drop (unat (rh_file_offset header)) bytes) = interp_path (pi_interpreter p) @ [0]"
proof -
  define range where
    "range = take (unat (rh_file_size header)) (drop (unat (rh_file_offset header)) bytes)"
  have p: "range \<noteq> []" "last range = 0" "butlast range \<noteq> []"
      "interp_path (pi_interpreter p) = butlast range"
    using assms unfolding range_def
    by (auto simp: parse_interpreter_def result_simps Let_def split: if_splits prod.splits)
  have "butlast range @ [0] = range"
    using p append_butlast_last_id [of range] by simp
  moreover have "take (length range) (drop (unat (rh_file_offset header)) bytes) = range"
    unfolding range_def by (rule take_length_take)
  ultimately show ?thesis
    using p by (metis Suc_pred length_butlast length_greater_0_conv One_nat_def)
qed

lemma scan_headers_interpreter:
  assumes "scan_headers bytes headers segs None phdr = Ok (segs', Some p, phdr')"
  shows "\<exists>h \<in> set headers. parse_interpreter h bytes = Ok p"
proof -
  have "interp' = Some p \<Longrightarrow> scan_headers bytes headers segs interp phdr = Ok (segs', interp', phdr')
    \<Longrightarrow> interp = Some p \<or> (\<exists>h \<in> set headers. parse_interpreter h bytes = Ok p)"
    for interp interp'
    by (induction bytes headers segs interp phdr rule: scan_headers.induct)
      (auto simp: result_simps split: if_splits option.splits)
  with assms show ?thesis by blast
qed

definition plan_wf :: "u8 list \<Rightarrow> load_plan \<Rightarrow> bool" where
  "plan_wf bytes plan \<longleftrightarrow>
     lp_segments plan \<noteq> []
   \<and> list_all (segment_wf (length bytes)) (lp_segments plan)
   \<and> sorted (map ls_virtual_address (lp_segments plan))
   \<and> successively segments_disjoint (lp_segments plan)
   \<and> (\<exists>seg \<in> set (lp_segments plan). perm_execute (ls_permissions seg)
        \<and> unat (ls_virtual_address seg) \<le> unat (lp_entrypoint plan)
        \<and> unat (lp_entrypoint plan) < unat (ls_virtual_address seg) + unat (ls_memory_size seg))
   \<and> pht_entry_size (lp_program_headers plan) = 56
   \<and> pht_entry_count (lp_program_headers plan) \<noteq> 0
   \<and> unat (pht_file_offset (lp_program_headers plan))
       + 56 * unat (pht_entry_count (lp_program_headers plan)) \<le> length bytes
   \<and> (\<forall>i. lp_interpreter plan = Some i \<longrightarrow> interp_path i \<noteq> []
        \<and> (\<exists>off. take (Suc (length (interp_path i))) (drop off bytes) = interp_path i @ [0]))"

lemma parse_load_plan_steps:
  assumes "parse_load_plan bytes = Ok plan"
  obtains header headers scanned interp phdr phdr' where
    "elf_header_parse bytes = Ok header"
    "validate_program_header_table header (length bytes) = Ok ()"
    "parse_program_headers bytes header = Ok headers"
    "scan_headers bytes headers [] None None = Ok (scanned, interp, phdr)"
    "scanned \<noteq> []"
    "lp_segments plan = sort_key ls_virtual_address scanned"
    "validate_non_overlapping_segments (lp_segments plan) = Ok ()"
    "validate_entrypoint (lp_entrypoint plan) (lp_segments plan) = Ok ()"
    "lp_interpreter plan = map_option pi_interpreter interp"
    "lp_program_headers plan = \<lparr>pht_file_offset = eh_program_header_offset header,
       pht_entry_size = eh_program_header_entry_size header,
       pht_entry_count = eh_program_header_count header, pht_virtual_address = phdr'\<rparr>"
  using assms
  by (auto simp: parse_load_plan_def result_simps Let_def split: if_splits prod.splits)

lemma scanned_segments_wf:
  assumes "scan_headers bytes headers [] None None = Ok (scanned, interp, phdr)"
  shows "list_all (segment_wf (length bytes)) scanned"
  using scan_headers_segments [OF assms]
  by (auto simp: list_all_length list_all2_conv_all_nth intro: load_segment_from_header_wf)

lemma list_all_sort_key: "list_all P (sort_key f xs) = list_all P xs"
  by (simp add: list_all_iff)

lemma scanned_non_overlapping_not_Panic:
  assumes "scan_headers bytes headers [] None None = Ok (scanned, interp, phdr)"
  shows "validate_non_overlapping_segments (sort_key ls_virtual_address scanned) \<noteq> Panic"
  using scanned_segments_wf [OF assms]
  by (intro validate_non_overlapping_not_Panic) (simp add: list_all_sort_key)

lemma parse_program_headers_length:
  "parse_program_headers bytes header = Ok headers
   \<Longrightarrow> length headers = unat (eh_program_header_count header)"
  unfolding parse_program_headers_def collect_results_Ok by (drule list_all2_lengthD) simp

lemma parse_load_plan_wf: "parse_load_plan bytes = Ok plan \<Longrightarrow> plan_wf bytes plan"
proof (erule parse_load_plan_steps)
  fix header headers scanned interp phdr phdr'
  assume tab: "validate_program_header_table header (length bytes) = Ok ()"
    and scan: "scan_headers bytes headers [] None None = Ok (scanned, interp, phdr)"
    and ne: "scanned \<noteq> []" and segs: "lp_segments plan = sort_key ls_virtual_address scanned"
    and nov: "validate_non_overlapping_segments (lp_segments plan) = Ok ()"
    and ent: "validate_entrypoint (lp_entrypoint plan) (lp_segments plan) = Ok ()"
    and ip: "lp_interpreter plan = map_option pi_interpreter interp"
    and pht: "lp_program_headers plan = \<lparr>pht_file_offset = eh_program_header_offset header,
       pht_entry_size = eh_program_header_entry_size header,
       pht_entry_count = eh_program_header_count header, pht_virtual_address = phdr'\<rparr>"
  have wf: "list_all (segment_wf (length bytes)) (lp_segments plan)"
    using scanned_segments_wf [OF scan] by (simp add: segs list_all_sort_key)
  have "lp_segments plan \<noteq> []"
    using ne by (metis length_0_conv length_sort segs)
  moreover have "sorted (map ls_virtual_address (lp_segments plan))"
    by (simp add: segs)
  moreover have "\<forall>i. lp_interpreter plan = Some i \<longrightarrow> interp_path i \<noteq> []
      \<and> (\<exists>off. take (Suc (length (interp_path i))) (drop off bytes) = interp_path i @ [0])"
  proof (intro allI impI)
    fix i
    assume "lp_interpreter plan = Some i"
    then obtain p where "interp = Some p" "i = pi_interpreter p"
      using ip by auto
    with scan obtain h where "parse_interpreter h bytes = Ok p"
      by (auto dest: scan_headers_interpreter)
    then show "interp_path i \<noteq> []
        \<and> (\<exists>off. take (Suc (length (interp_path i))) (drop off bytes) = interp_path i @ [0])"
      using \<open>i = pi_interpreter p\<close> parse_interpreter_path by blast
  qed
  moreover have "eh_program_header_count header \<noteq> 0"
    using tab by (auto simp: validate_program_header_table_def split: if_splits)
  ultimately show ?thesis
    using wf program_header_table_bound [OF tab] validate_non_overlapping_Ok [OF nov] ent
    by (simp add: plan_wf_def pht validate_entrypoint_wf split: if_splits)
qed

lemma disjoint_nonempty_pairwise:
  assumes "successively segments_disjoint segs" "list_all (segment_wf len) segs"
    and "\<forall>seg \<in> set segs. ls_memory_size seg \<noteq> 0"
  shows "sorted_wrt segments_disjoint segs"
proof -
  let ?before = "\<lambda>a b. unat (ls_virtual_address a) + unat (ls_memory_size a)
    \<le> unat (ls_virtual_address b)"
  have "successively ?before segs"
    using assms by (auto simp: segments_disjoint_def elim!: successively_mono)
  then have "sorted_wrt ?before segs"
    by (subst (asm) successively_iff_sorted_wrt_strong) auto
  then show ?thesis
    by (rule sorted_wrt_mono_rel [rotated]) (simp add: segments_disjoint_def)
qed

section \<open>Properties of the parser\<close>

text \<open>
  Two concrete files.  \<open>tiny_elf\<close> is a minimal static executable: one readable and executable
  segment over the whole file.  \<open>masked_overlap_elf\<close> has segments at \<open>0x400000\<close> (two pages),
  \<open>0x400000\<close> (empty) and \<open>0x401000\<close> (one page).
\<close>

definition tiny_elf :: "u8 list" where
  "tiny_elf = [
    127, 69, 76, 70, 2, 1, 1, 0, 0, 0, 0, 0, 0, 0, 0, 0, 2, 0, 62, 0, 1, 0, 0, 0, 112, 0, 64,
    0, 0, 0, 0, 0, 64, 0, 0, 0, 0, 0, 0, 0, 0, 0, 0, 0, 0, 0, 0, 0, 0, 0, 0, 0, 64, 0, 56, 0,
    1, 0, 0, 0, 0, 0, 0, 0, 1, 0, 0, 0, 5, 0, 0, 0, 0, 0, 0, 0, 0, 0, 0, 0, 0, 0, 64, 0, 0, 0,
    0, 0, 0, 0, 64, 0, 0, 0, 0, 0, 120, 0, 0, 0, 0, 0, 0, 0, 120, 0, 0, 0, 0, 0, 0, 0, 0, 16,
    0, 0, 0, 0, 0, 0]"

definition masked_overlap_elf :: "u8 list" where
  "masked_overlap_elf = [
    127, 69, 76, 70, 2, 1, 1, 0, 0, 0, 0, 0, 0, 0, 0, 0, 2, 0, 62, 0, 1, 0, 0, 0, 16, 0, 64, 0,
    0, 0, 0, 0, 64, 0, 0, 0, 0, 0, 0, 0, 0, 0, 0, 0, 0, 0, 0, 0, 0, 0, 0, 0, 64, 0, 56, 0, 3,
    0, 0, 0, 0, 0, 0, 0, 1, 0, 0, 0, 5, 0, 0, 0, 0, 0, 0, 0, 0, 0, 0, 0, 0, 0, 64, 0, 0, 0, 0,
    0, 0, 0, 64, 0, 0, 0, 0, 0, 64, 0, 0, 0, 0, 0, 0, 0, 0, 32, 0, 0, 0, 0, 0, 0, 0, 16, 0, 0,
    0, 0, 0, 0, 1, 0, 0, 0, 4, 0, 0, 0, 0, 0, 0, 0, 0, 0, 0, 0, 0, 0, 64, 0, 0, 0, 0, 0, 0, 0,
    0, 0, 0, 0, 0, 0, 0, 0, 0, 0, 0, 0, 0, 0, 0, 0, 0, 0, 0, 0, 0, 0, 0, 16, 0, 0, 0, 0, 0, 0,
    1, 0, 0, 0, 6, 0, 0, 0, 0, 0, 0, 0, 0, 0, 0, 0, 0, 16, 64, 0, 0, 0, 0, 0, 0, 0, 0, 0, 0, 0,
    0, 0, 64, 0, 0, 0, 0, 0, 0, 0, 0, 16, 0, 0, 0, 0, 0, 0, 0, 16, 0, 0, 0, 0, 0, 0]"

lemmas elf_eval = slice_def byte_at_def read_u16_def read_u32_def read_u64_def elf_const_defs
  u16_from_le_bytes_def u32_from_le_bytes_def u64_from_le_bytes_def add_or_panic_def
  sub_or_panic_def mul_or_panic_def checked_add_def checked_sub_def checked_mul_def
  checked_file_range_def

lemmas segment_eval = object_type_from_raw_def validate_program_header_table_def
  parse_program_headers_def load_segment_from_header_def validate_segment_alignment_def
  is_power_of_two_def permissions_try_from_def build_memory_mapping_def elf_align_down_def
  elf_align_up_def contains_virtual_address_def elf_eval

definition tiny_plan :: load_plan where
  "tiny_plan =
     (let rx = \<lparr>perm_read = True, perm_write = False, perm_execute = True\<rparr> in
      \<lparr>lp_object_type = Executable, lp_entrypoint = 0x400070,
       lp_program_headers = \<lparr>pht_file_offset = 64, pht_entry_size = 56, pht_entry_count = 1,
                             pht_virtual_address = Some 0x400040\<rparr>,
       lp_interpreter = None,
       lp_segments =
         [\<lparr>ls_program_header_index = 0, ls_file_offset = 0, ls_virtual_address = 0x400000,
           ls_file_size = 120, ls_memory_size = 120, ls_alignment = 4096, ls_permissions = rx,
           ls_mapping = \<lparr>mm_start = 0x400000, mm_end = 0x401000, mm_file_offset = 0,
                         mm_file_size = 120, mm_permissions = rx\<rparr>\<rparr>]\<rparr>)"

lemma tiny_elf_ident: "validate_ident tiny_elf = Ok ()"
  by (simp add: validate_ident_def elf_eval tiny_elf_def)

lemma tiny_elf_header: "elf_header_parse tiny_elf =
  Ok \<lparr>eh_object_type = 2, eh_machine = 62, eh_version = 1, eh_entrypoint = 0x400070,
      eh_program_header_offset = 64, eh_header_size = 64, eh_program_header_entry_size = 56,
      eh_program_header_count = 1\<rparr>"
  by (simp add: elf_header_parse_def elf_eval tiny_elf_def)

lemma tiny_elf_phdr: "raw_program_header_parse 0 tiny_elf 64 =
  Ok \<lparr>rh_index = 0, rh_header_type = 1, rh_flags = 5, rh_file_offset = 0,
      rh_virtual_address = 0x400000, rh_file_size = 120, rh_memory_size = 120,
      rh_alignment = 4096\<rparr>"
  by (simp add: raw_program_header_parse_def elf_eval tiny_elf_def)

lemma tiny_elf_length [simp]: "length tiny_elf = 120"
  by (simp add: tiny_elf_def)

lemma tiny_elf_plan: "parse_load_plan tiny_elf = Ok tiny_plan"
  by (simp add: parse_load_plan_def tiny_elf_ident tiny_elf_header tiny_elf_phdr tiny_plan_def
      segment_eval Let_def)

lemma masked_ident: "validate_ident masked_overlap_elf = Ok ()"
  by (simp add: validate_ident_def elf_eval masked_overlap_elf_def)

lemma masked_header: "elf_header_parse masked_overlap_elf =
  Ok \<lparr>eh_object_type = 2, eh_machine = 62, eh_version = 1, eh_entrypoint = 0x400010,
      eh_program_header_offset = 64, eh_header_size = 64, eh_program_header_entry_size = 56,
      eh_program_header_count = 3\<rparr>"
  by (simp add: elf_header_parse_def elf_eval masked_overlap_elf_def)

lemma masked_phdrs:
  "raw_program_header_parse 0 masked_overlap_elf 64 =
     Ok \<lparr>rh_index = 0, rh_header_type = 1, rh_flags = 5, rh_file_offset = 0,
         rh_virtual_address = 0x400000, rh_file_size = 64, rh_memory_size = 0x2000,
         rh_alignment = 4096\<rparr>"
  "raw_program_header_parse 1 masked_overlap_elf 120 =
     Ok \<lparr>rh_index = 1, rh_header_type = 1, rh_flags = 4, rh_file_offset = 0,
         rh_virtual_address = 0x400000, rh_file_size = 0, rh_memory_size = 0,
         rh_alignment = 4096\<rparr>"
  "raw_program_header_parse 2 masked_overlap_elf 176 =
     Ok \<lparr>rh_index = 2, rh_header_type = 1, rh_flags = 6, rh_file_offset = 0,
         rh_virtual_address = 0x401000, rh_file_size = 64, rh_memory_size = 0x1000,
         rh_alignment = 4096\<rparr>"
  by (simp_all add: raw_program_header_parse_def elf_eval masked_overlap_elf_def)

lemma masked_length [simp]: "length masked_overlap_elf = 232"
  by (simp add: masked_overlap_elf_def)

lemma upt_3: "[0..<3] = [0, 1, 2::nat]"
  by (simp add: upt_rec numeral_3_eq_3)

lemma masked_plan_segments:
  "\<exists>plan. parse_load_plan masked_overlap_elf = Ok plan
     \<and> map (\<lambda>seg. (ls_virtual_address seg, ls_memory_size seg)) (lp_segments plan)
         = [(0x400000, 0x2000), (0x400000, 0), (0x401000, 0x1000)]"
  by (simp add: parse_load_plan_def masked_ident masked_header masked_phdrs upt_3 segment_eval)

lemma parse_load_plan_not_Panic: "parse_load_plan bytes \<noteq> Panic"
proof
  assume "parse_load_plan bytes = Panic"
  moreover {
    fix header headers
    assume tab: "validate_program_header_table header (length bytes) = Ok ()"
    note bound = program_header_table_bound [OF tab]
    from tab have small: "unat (eh_program_header_offset header)
        + 56 * unat (eh_program_header_count header) < 2 ^ 64"
      by (rule program_header_table_no_wrap)
    have "parse_program_headers bytes header \<noteq> Panic"
      using bound small by (intro parse_program_headers_not_Panic) simp_all
    moreover have "infer_program_header_virtual_address segs header \<noteq> Panic"
      if "list_all (segment_wf (length bytes)) segs" for segs
      using that bound small by (intro infer_phdr_not_Panic) simp_all
    moreover note calculation
  }
  ultimately show False
    by (auto simp: parse_load_plan_def result_simps Let_def validate_ident_not_Panic
        object_type_not_Panic program_header_table_not_Panic scan_headers_not_Panic
        validate_entrypoint_wf list_all_sort_key
        dest: validate_ident_length elf_header_parse_not_Panic scanned_segments_wf
          scanned_non_overlapping_not_Panic
        split: if_splits prod.splits option.splits)
qed

text \<open>C15. The parser is total: on no byte sequence, however malformed, does it index out of
  bounds or overflow an address or offset computation.\<close>

theorem parse_load_plan_no_panic: "parse_load_plan bytes \<noteq> Panic"
  by (rule parse_load_plan_not_Panic)

text \<open>C3. An accepted file yields a well-formed plan: every file range lies in the file, no address
  range wraps, every mapping is the page hull of its segment, segments are sorted and adjacent
  non-empty ones are disjoint, the entry point lies in an executable segment, the program header
  table lies in the file, and the interpreter path is a non-empty NUL-terminated string of the
  file.\<close>

theorem parse_load_plan_sound:
  "parse_load_plan bytes = Ok plan \<Longrightarrow> plan_wf bytes plan"
  by (rule parse_load_plan_wf)

theorem parse_load_plan_sound_witness: "plan_wf tiny_elf tiny_plan"
  using parse_load_plan_sound [OF tiny_elf_plan] .

text \<open>C16. Nothing is dropped or invented: the segments of an accepted plan are exactly the
  \<open>PT_LOAD\<close> entries of the program header table, each validated on its own, ordered by
  virtual address.\<close>

theorem parse_load_plan_complete:
  assumes "parse_load_plan bytes = Ok plan"
  shows "\<exists>header headers scanned.
    elf_header_parse bytes = Ok header
    \<and> parse_program_headers bytes header = Ok headers
    \<and> length headers = unat (eh_program_header_count header)
    \<and> list_all2 (\<lambda>h seg. load_segment_from_header h (length bytes) = Ok seg)
        (filter (\<lambda>h. rh_header_type h = PT_LOAD) headers) scanned
    \<and> lp_segments plan = sort_key ls_virtual_address scanned"
proof -
  from assms obtain header headers scanned interp phdr where
      "elf_header_parse bytes = Ok header"
    and "parse_program_headers bytes header = Ok headers"
    and "scan_headers bytes headers [] None None = Ok (scanned, interp, phdr)"
    and "lp_segments plan = sort_key ls_virtual_address scanned"
    by (rule parse_load_plan_steps)
  then show ?thesis
    using parse_program_headers_length scan_headers_segments by fastforce
qed

theorem parse_load_plan_complete_witness:
  "\<exists>header headers scanned.
    elf_header_parse tiny_elf = Ok header
    \<and> parse_program_headers tiny_elf header = Ok headers
    \<and> length headers = unat (eh_program_header_count header)
    \<and> list_all2 (\<lambda>h seg. load_segment_from_header h (length tiny_elf) = Ok seg)
        (filter (\<lambda>h. rh_header_type h = PT_LOAD) headers) scanned
    \<and> lp_segments tiny_plan = sort_key ls_virtual_address scanned"
  using parse_load_plan_complete [OF tiny_elf_plan] .

text \<open>C17. When no segment is empty, no two segments of an accepted plan overlap, adjacent or not.\<close>

theorem parse_load_plan_disjoint:
  assumes "parse_load_plan bytes = Ok plan"
    and "\<forall>seg \<in> set (lp_segments plan). ls_memory_size seg \<noteq> 0"
  shows "sorted_wrt (\<lambda>a b. unat (ls_virtual_address a) + unat (ls_memory_size a)
    \<le> unat (ls_virtual_address b)) (lp_segments plan)"
proof -
  have "sorted_wrt segments_disjoint (lp_segments plan)"
    using parse_load_plan_wf [OF assms(1)] assms(2)
    by (auto simp: plan_wf_def intro: disjoint_nonempty_pairwise)
  with assms(2) show ?thesis
    by (auto simp: segments_disjoint_def elim: sorted_wrt_mono_rel [rotated])
qed

theorem parse_load_plan_disjoint_witness:
  "parse_load_plan tiny_elf = Ok tiny_plan
   \<and> sorted_wrt (\<lambda>a b. unat (ls_virtual_address a) + unat (ls_memory_size a)
       \<le> unat (ls_virtual_address b)) (lp_segments tiny_plan)"
  using parse_load_plan_disjoint [OF tiny_elf_plan] tiny_elf_plan
  by (simp add: tiny_plan_def Let_def)

text \<open>C6. The non-emptiness condition cannot be dropped: the overlap check compares neighbours only
  and skips empty segments, so an empty segment between two overlapping ones hides the overlap and
  the file is accepted.\<close>

theorem empty_segment_masks_overlap:
  "\<exists>plan a b. parse_load_plan masked_overlap_elf = Ok plan
     \<and> a \<in> set (lp_segments plan) \<and> b \<in> set (lp_segments plan)
     \<and> ls_virtual_address a < ls_virtual_address b
     \<and> ls_virtual_address b < ls_virtual_address a + ls_memory_size a
     \<and> ls_memory_size b \<noteq> 0"
proof -
  obtain plan where plan: "parse_load_plan masked_overlap_elf = Ok plan"
    and segs: "map (\<lambda>seg. (ls_virtual_address seg, ls_memory_size seg)) (lp_segments plan)
         = [(0x400000, 0x2000), (0x400000, 0), (0x401000, 0x1000)]"
    using masked_plan_segments by (elim exE conjE)
  have len: "length (lp_segments plan) = 3"
    using arg_cong [OF segs, of length] by simp
  have nth: "(ls_virtual_address (lp_segments plan ! i), ls_memory_size (lp_segments plan ! i))
      = [(0x400000, 0x2000), (0x400000, 0), (0x401000, 0x1000)] ! i" if "i < 3" for i
    using arg_cong [OF segs, of "\<lambda>xs. xs ! i"] len that by simp
  let ?a = "lp_segments plan ! 0" and ?b = "lp_segments plan ! 2"
  have "ls_virtual_address ?a = 0x400000" "ls_memory_size ?a = 0x2000"
      "ls_virtual_address ?b = 0x401000" "ls_memory_size ?b = 0x1000"
    using nth [of 0] nth [of 2] by simp_all
  moreover have "?a \<in> set (lp_segments plan)" "?b \<in> set (lp_segments plan)"
    using len by simp_all
  ultimately show ?thesis
    using plan by (intro exI [of _ plan] exI [of _ ?a] exI [of _ ?b]) simp
qed

end
