(* ===== verification/Elf_Stack.thy ===== *)
theory Elf_Stack
  imports Elf_Parser
begin

text \<open>
  The initial user stack of \<open>mcr-elf\<close> (\<open>stack.rs\<close>, \<open>auxv.rs\<close>): the strings, the random
  bytes and the auxiliary vector that the kernel hands to a new program image.  The mutable
  cursor and the vector of placed byte strings are threaded through the definitions.
\<close>

section \<open>Constants\<close>

definition AT_NULL :: u64 where "AT_NULL = 0"
definition AT_PHDR :: u64 where "AT_PHDR = 3"
definition AT_PHENT :: u64 where "AT_PHENT = 4"
definition AT_PHNUM :: u64 where "AT_PHNUM = 5"
definition AT_PAGESZ :: u64 where "AT_PAGESZ = 6"
definition AT_BASE :: u64 where "AT_BASE = 7"
definition AT_FLAGS :: u64 where "AT_FLAGS = 8"
definition AT_ENTRY :: u64 where "AT_ENTRY = 9"
definition AT_UID :: u64 where "AT_UID = 11"
definition AT_EUID :: u64 where "AT_EUID = 12"
definition AT_GID :: u64 where "AT_GID = 13"
definition AT_EGID :: u64 where "AT_EGID = 14"
definition AT_PLATFORM :: u64 where "AT_PLATFORM = 15"
definition AT_HWCAP :: u64 where "AT_HWCAP = 16"
definition AT_CLKTCK :: u64 where "AT_CLKTCK = 17"
definition AT_SECURE :: u64 where "AT_SECURE = 23"
definition AT_RANDOM :: u64 where "AT_RANDOM = 25"
definition AT_HWCAP2 :: u64 where "AT_HWCAP2 = 26"
definition AT_EXECFN :: u64 where "AT_EXECFN = 31"

definition AT_RANDOM_BYTES :: nat where "AT_RANDOM_BYTES = 16"
definition INITIAL_STACK_ALIGNMENT :: u64 where "INITIAL_STACK_ALIGNMENT = 16"
definition DEFAULT_PLATFORM :: "u8 list" where
  "DEFAULT_PLATFORM = [0x78, 0x38, 0x36, 0x5f, 0x36, 0x34]"
definition DEFAULT_CLOCK_TICKS_PER_SECOND :: u64 where "DEFAULT_CLOCK_TICKS_PER_SECOND = 100"

section \<open>Data\<close>

record auxiliary_vector_entry =
  aux_key :: u64
  aux_value :: u64

definition aux :: "u64 \<Rightarrow> u64 \<Rightarrow> auxiliary_vector_entry" where
  "aux key value = \<lparr>aux_key = key, aux_value = value\<rparr>"

record initial_stack_config =
  sc_stack_top :: u64
  sc_stack_size :: u64
  sc_executable_path :: "u8 list"
  sc_argv :: "u8 list list"
  sc_envp :: "u8 list list"
  sc_random_bytes :: "u8 list"
  sc_executable_load_bias :: u64
  sc_interpreter_base :: u64
  sc_platform :: "u8 list"

definition stack_config_new :: "u64 \<Rightarrow> u64 \<Rightarrow> u8 list \<Rightarrow> initial_stack_config" where
  "stack_config_new stack_top stack_size executable_path =
     \<lparr>sc_stack_top = stack_top, sc_stack_size = stack_size,
      sc_executable_path = executable_path, sc_argv = [executable_path], sc_envp = [],
      sc_random_bytes = replicate AT_RANDOM_BYTES 0, sc_executable_load_bias = 0,
      sc_interpreter_base = 0, sc_platform = DEFAULT_PLATFORM\<rparr>"

definition with_argv :: "u8 list list \<Rightarrow> initial_stack_config \<Rightarrow> initial_stack_config" where
  "with_argv argv c = c\<lparr>sc_argv := argv\<rparr>"

definition with_envp :: "u8 list list \<Rightarrow> initial_stack_config \<Rightarrow> initial_stack_config" where
  "with_envp envp c = c\<lparr>sc_envp := envp\<rparr>"

definition with_random_bytes :: "u8 list \<Rightarrow> initial_stack_config \<Rightarrow> initial_stack_config" where
  "with_random_bytes bytes c = c\<lparr>sc_random_bytes := bytes\<rparr>"

definition with_executable_load_bias :: "u64 \<Rightarrow> initial_stack_config \<Rightarrow> initial_stack_config" where
  "with_executable_load_bias bias c = c\<lparr>sc_executable_load_bias := bias\<rparr>"

definition with_interpreter_base :: "u64 \<Rightarrow> initial_stack_config \<Rightarrow> initial_stack_config" where
  "with_interpreter_base base c = c\<lparr>sc_interpreter_base := base\<rparr>"

definition with_platform :: "u8 list \<Rightarrow> initial_stack_config \<Rightarrow> initial_stack_config" where
  "with_platform platform c = c\<lparr>sc_platform := platform\<rparr>"

record initial_stack =
  is_stack_top :: u64
  is_stack_size :: u64
  is_stack_pointer :: u64
  is_bytes :: "u8 list"
  is_argv_addresses :: "u64 list"
  is_envp_addresses :: "u64 list"
  is_executable_path_address :: u64
  is_platform_address :: u64
  is_random_address :: u64
  is_auxv_entries :: "auxiliary_vector_entry list"

definition stack_base :: "initial_stack \<Rightarrow> (u64, 'e) result" where
  "stack_base s = sub_or_panic (is_stack_top s) (is_stack_size s)"

datatype stack_field = Field_executable_path | Field_argv | Field_envp | Field_platform

datatype initial_stack_error =
    MissingProgramHeaderAddress
  | InvalidStackSize u64
  | StackRangeUnderflow u64 u64
  | StackLayoutOverflow
  | StackDataExceedsStack u64 u64
  | RelocatedAddressOverflow u64 u64
  | InteriorNul stack_field nat
  | EmptyPlatform

type_synonym 'a stack_result = "('a, initial_stack_error) result"

record placed_stack_bytes =
  psb_address :: u64
  psb_bytes :: "u8 list"

section \<open>Validation\<close>

definition validate_no_interior_nul :: "stack_field \<Rightarrow> nat \<Rightarrow> u8 list \<Rightarrow> unit stack_result" where
  "validate_no_interior_nul field index bytes =
     (if 0 \<in> set bytes then Err (InteriorNul field index) else Ok ())"

fun validate_no_interior_nul_from ::
  "stack_field \<Rightarrow> nat \<Rightarrow> u8 list list \<Rightarrow> unit stack_result" where
  "validate_no_interior_nul_from field index [] = Ok ()"
| "validate_no_interior_nul_from field index (entry # entries) =
     and_then (validate_no_interior_nul field index entry) (\<lambda>_.
     validate_no_interior_nul_from field (Suc index) entries)"

definition validate_no_interior_nul_entries ::
  "stack_field \<Rightarrow> u8 list list \<Rightarrow> unit stack_result" where
  "validate_no_interior_nul_entries field entries = validate_no_interior_nul_from field 0 entries"

definition validate_stack_config :: "initial_stack_config \<Rightarrow> unit stack_result" where
  "validate_stack_config config =
     (if sc_stack_size config = 0 then Err (InvalidStackSize (sc_stack_size config))
      else and_then (validate_no_interior_nul Field_executable_path 0 (sc_executable_path config))
        (\<lambda>_.
      and_then (validate_no_interior_nul_entries Field_argv (sc_argv config)) (\<lambda>_.
      and_then (validate_no_interior_nul_entries Field_envp (sc_envp config)) (\<lambda>_.
      if sc_platform config = [] then Err EmptyPlatform
      else validate_no_interior_nul Field_platform 0 (sc_platform config)))))"

definition relocated_address :: "u64 \<Rightarrow> u64 \<Rightarrow> u64 stack_result" where
  "relocated_address address load_bias =
     ok_or (checked_add address load_bias) (RelocatedAddressOverflow address load_bias)"

section \<open>Layout\<close>

text \<open>The cursor after the call is the address that the source returns.\<close>

definition place_c_string ::
  "u64 \<Rightarrow> placed_stack_bytes list \<Rightarrow> u8 list
     \<Rightarrow> (u64 \<times> placed_stack_bytes list) stack_result" where
  "place_c_string cursor placed bytes =
     and_then (ok_or (u64_try_from (length bytes)) StackLayoutOverflow) (\<lambda>len.
     and_then (ok_or (checked_add len 1) StackLayoutOverflow) (\<lambda>len_with_nul.
     and_then (ok_or (checked_sub cursor len_with_nul) StackLayoutOverflow) (\<lambda>cursor.
     Ok (cursor, placed @ [\<lparr>psb_address = cursor, psb_bytes = bytes @ [0]\<rparr>]))))"

fun place_c_strings_loop ::
  "u64 \<Rightarrow> placed_stack_bytes list \<Rightarrow> u8 list list \<Rightarrow> u64 list
     \<Rightarrow> (u64 \<times> placed_stack_bytes list \<times> u64 list) stack_result" where
  "place_c_strings_loop cursor placed [] addresses = Ok (cursor, placed, addresses)"
| "place_c_strings_loop cursor placed (string # strings) addresses =
     and_then (place_c_string cursor placed string) (\<lambda>(cursor, placed).
     place_c_strings_loop cursor placed strings (addresses @ [cursor]))"

definition place_c_strings ::
  "u64 \<Rightarrow> placed_stack_bytes list \<Rightarrow> u8 list list
     \<Rightarrow> (u64 \<times> placed_stack_bytes list \<times> u64 list) stack_result" where
  "place_c_strings cursor placed strings =
     and_then (place_c_strings_loop cursor placed (rev strings) []) (\<lambda>(cursor, placed, addresses).
     Ok (cursor, placed, rev addresses))"

definition push_u64 :: "u8 list \<Rightarrow> u64 \<Rightarrow> u8 list" where
  "push_u64 bytes value = bytes @ u64_to_le_bytes value"

definition build_pointer_area ::
  "u64 list \<Rightarrow> u64 list \<Rightarrow> auxiliary_vector_entry list \<Rightarrow> u8 list stack_result" where
  "build_pointer_area argv_addresses envp_addresses auxv_entries =
     and_then (ok_or (u64_try_from (length argv_addresses)) StackLayoutOverflow) (\<lambda>argc.
     let bytes = push_u64 [] argc;
         bytes = foldl push_u64 bytes argv_addresses;
         bytes = push_u64 bytes 0;
         bytes = foldl push_u64 bytes envp_addresses;
         bytes = push_u64 bytes 0
     in Ok (foldl (\<lambda>bytes entry. push_u64 (push_u64 bytes (aux_key entry)) (aux_value entry))
              bytes auxv_entries))"

fun write_placed ::
  "u64 \<Rightarrow> placed_stack_bytes list \<Rightarrow> u8 list \<Rightarrow> u8 list stack_result" where
  "write_placed stack_pointer [] bytes = Ok bytes"
| "write_placed stack_pointer (item # placed) bytes =
     and_then (sub_or_panic (psb_address item) stack_pointer) (\<lambda>offset.
     if unat offset + length (psb_bytes item) \<ge> 2 ^ 64 then Err StackLayoutOverflow
     else and_then (write_slice bytes (unat offset) (unat offset + length (psb_bytes item))
                      (psb_bytes item)) (\<lambda>bytes.
     write_placed stack_pointer placed bytes))"

definition auxv_entries_for ::
  "load_plan \<Rightarrow> u64 \<Rightarrow> u64 \<Rightarrow> u64 \<Rightarrow> u64 \<Rightarrow> u64 \<Rightarrow> u64 \<Rightarrow> auxiliary_vector_entry list" where
  "auxv_entries_for plan phdr_address interpreter_base entrypoint random_address
     executable_path_address platform_address =
     [aux AT_PHDR phdr_address,
      aux AT_PHENT (ucast (pht_entry_size (lp_program_headers plan))),
      aux AT_PHNUM (ucast (pht_entry_count (lp_program_headers plan))),
      aux AT_PAGESZ PAGE_SIZE,
      aux AT_BASE interpreter_base,
      aux AT_FLAGS 0,
      aux AT_ENTRY entrypoint,
      aux AT_UID 0,
      aux AT_EUID 0,
      aux AT_GID 0,
      aux AT_EGID 0,
      aux AT_HWCAP 0,
      aux AT_CLKTCK DEFAULT_CLOCK_TICKS_PER_SECOND,
      aux AT_SECURE 0,
      aux AT_RANDOM random_address,
      aux AT_HWCAP2 0,
      aux AT_EXECFN executable_path_address,
      aux AT_PLATFORM platform_address,
      aux AT_NULL 0]"

text \<open>
  The second half of \<open>build_initial_stack\<close>: from the placed strings to the byte image.
\<close>

definition emit_stack ::
  "initial_stack_config \<Rightarrow> u64 \<Rightarrow> u64 \<Rightarrow> placed_stack_bytes list \<Rightarrow> u8 list
     \<Rightarrow> (u64 \<times> u8 list) stack_result" where
  "emit_stack config base cursor placed pointer_area =
     and_then (ok_or (u64_try_from (length pointer_area)) StackLayoutOverflow)
       (\<lambda>pointer_area_len.
     and_then (ok_or (checked_sub cursor pointer_area_len) StackLayoutOverflow) (\<lambda>unaligned.
     let stack_pointer = elf_align_down unaligned INITIAL_STACK_ALIGNMENT in
     if stack_pointer < base
     then and_then (sub_or_panic (sc_stack_top config) stack_pointer) (\<lambda>needed.
          Err (StackDataExceedsStack needed (sc_stack_size config)))
     else and_then (sub_or_panic (sc_stack_top config) stack_pointer) (\<lambda>used_len.
     and_then (vec_zero (unat used_len)) (\<lambda>bytes.
     and_then (write_slice bytes 0 (length pointer_area) pointer_area) (\<lambda>bytes.
     and_then (write_placed stack_pointer placed bytes) (\<lambda>bytes.
     Ok (stack_pointer, bytes)))))))"

text \<open>
  The part of \<open>build_initial_stack\<close> that moves the cursor down over the strings and the random
  bytes, with the addresses it hands to the rest of the function.
\<close>

record stack_addresses =
  sa_path :: u64
  sa_platform :: u64
  sa_envp :: "u64 list"
  sa_argv :: "u64 list"
  sa_random :: u64

definition place_stack_data ::
  "initial_stack_config \<Rightarrow> (stack_addresses \<times> placed_stack_bytes list) stack_result" where
  "place_stack_data config =
     and_then (place_c_string (sc_stack_top config) [] (sc_executable_path config))
       (\<lambda>(executable_path_address, placed).
     and_then (place_c_string executable_path_address placed (sc_platform config))
       (\<lambda>(platform_address, placed).
     and_then (place_c_strings platform_address placed (sc_envp config))
       (\<lambda>(cursor, placed, envp_addresses).
     and_then (place_c_strings cursor placed (sc_argv config))
       (\<lambda>(cursor, placed, argv_addresses).
     and_then (ok_or (checked_sub cursor (of_nat AT_RANDOM_BYTES)) StackLayoutOverflow)
       (\<lambda>random_address.
     Ok (\<lparr>sa_path = executable_path_address, sa_platform = platform_address,
          sa_envp = envp_addresses, sa_argv = argv_addresses, sa_random = random_address\<rparr>,
         placed @ [\<lparr>psb_address = random_address, psb_bytes = sc_random_bytes config\<rparr>]))))))"

definition build_initial_stack ::
  "load_plan \<Rightarrow> initial_stack_config \<Rightarrow> initial_stack stack_result" where
  "build_initial_stack plan config =
     and_then (validate_stack_config config) (\<lambda>_.
     and_then (ok_or (pht_virtual_address (lp_program_headers plan)) MissingProgramHeaderAddress)
       (\<lambda>phdr.
     and_then (relocated_address phdr (sc_executable_load_bias config)) (\<lambda>phdr_address.
     and_then (relocated_address (lp_entrypoint plan) (sc_executable_load_bias config))
       (\<lambda>entrypoint.
     and_then (ok_or (checked_sub (sc_stack_top config) (sc_stack_size config))
                 (StackRangeUnderflow (sc_stack_top config) (sc_stack_size config))) (\<lambda>base.
     and_then (place_stack_data config) (\<lambda>(addresses, placed).
     let cursor = elf_align_down (sa_random addresses) INITIAL_STACK_ALIGNMENT;
         auxv_entries = auxv_entries_for plan phdr_address (sc_interpreter_base config) entrypoint
           (sa_random addresses) (sa_path addresses) (sa_platform addresses) in
     and_then (build_pointer_area (sa_argv addresses) (sa_envp addresses) auxv_entries)
       (\<lambda>pointer_area.
     and_then (emit_stack config base cursor placed pointer_area) (\<lambda>(stack_pointer, bytes).
     Ok \<lparr>is_stack_top = sc_stack_top config, is_stack_size = sc_stack_size config,
         is_stack_pointer = stack_pointer, is_bytes = bytes,
         is_argv_addresses = sa_argv addresses, is_envp_addresses = sa_envp addresses,
         is_executable_path_address = sa_path addresses,
         is_platform_address = sa_platform addresses,
         is_random_address = sa_random addresses,
         is_auxv_entries = auxv_entries\<rparr>))))))))"

section \<open>The placed strings fill a contiguous range\<close>

text \<open>
  \<open>stacked hi placed lo\<close>: the items occupy \<open>[lo, hi)\<close> from the top down, without gaps.
\<close>

fun stacked :: "nat \<Rightarrow> placed_stack_bytes list \<Rightarrow> nat \<Rightarrow> bool" where
  "stacked hi [] lo \<longleftrightarrow> lo = hi"
| "stacked hi (item # placed) lo \<longleftrightarrow>
     unat (psb_address item) + length (psb_bytes item) = hi
     \<and> stacked (unat (psb_address item)) placed lo"

lemma stacked_append [simp]:
  "stacked hi (xs @ ys) lo \<longleftrightarrow> (\<exists>mid. stacked hi xs mid \<and> stacked mid ys lo)"
  by (induction xs arbitrary: hi) auto

lemma stacked_le: "stacked hi placed lo \<Longrightarrow> lo \<le> hi"
  by (induction placed arbitrary: hi) fastforce+

lemma place_c_string_Ok:
  assumes "place_c_string cursor placed bytes = Ok (cursor', placed')"
  shows "placed' = placed @ [\<lparr>psb_address = cursor', psb_bytes = bytes @ [0]\<rparr>]"
    and "unat cursor = unat cursor' + (length bytes + 1)"
  using assms
  by (auto simp: place_c_string_def result_simps checked_simps)

lemma place_c_string_not_Panic [simp]: "place_c_string cursor placed bytes \<noteq> Panic"
  by (auto simp: place_c_string_def result_simps)

lemma place_c_strings_loop_not_Panic: "place_c_strings_loop cursor placed strings acc \<noteq> Panic"
  by (induction strings arbitrary: cursor placed acc)
    (auto simp: result_simps split: prod.splits)

lemma place_c_strings_not_Panic [simp]: "place_c_strings cursor placed strings \<noteq> Panic"
  by (auto simp: place_c_strings_def result_simps place_c_strings_loop_not_Panic split: prod.splits)

definition c_strings :: "u64 list \<Rightarrow> u8 list list \<Rightarrow> placed_stack_bytes list" where
  "c_strings addresses strings =
     map2 (\<lambda>a s. \<lparr>psb_address = a, psb_bytes = s @ [0]\<rparr>) addresses strings"

lemma c_strings_rev:
  assumes "length addresses = length strings"
  shows "rev (c_strings (rev addresses) strings) = c_strings addresses (rev strings)"
proof -
  have "zip addresses (rev strings) = rev (zip (rev addresses) strings)"
    using assms zip_rev [of "rev addresses" strings] by simp
  then show ?thesis by (simp add: c_strings_def rev_map)
qed

lemma place_c_strings_loop_Ok:
  assumes "place_c_strings_loop cursor placed strings acc = Ok (cursor', placed', addresses)"
  shows "\<exists>new. addresses = acc @ new \<and> length new = length strings
    \<and> placed' = placed @ c_strings new strings
    \<and> stacked (unat cursor) (c_strings new strings) (unat cursor')"
  using assms
proof (induction strings arbitrary: cursor placed acc)
  case Nil
  then show ?case by (auto simp: c_strings_def)
next
  case (Cons string strings)
  then obtain c p where step: "place_c_string cursor placed string = Ok (c, p)"
    and rest: "place_c_strings_loop c p strings (acc @ [c]) = Ok (cursor', placed', addresses)"
    by (auto simp: result_simps)
  from Cons.IH [OF rest] obtain new where
    "addresses = (acc @ [c]) @ new" "length new = length strings"
    "placed' = p @ c_strings new strings" "stacked (unat c) (c_strings new strings) (unat cursor')"
    by blast
  then show ?case
    using place_c_string_Ok [OF step] by (intro exI [of _ "c # new"]) (simp add: c_strings_def)
qed

lemma place_c_strings_Ok:
  assumes "place_c_strings cursor placed strings = Ok (cursor', placed', addresses)"
  shows "length addresses = length strings"
    and "placed' = placed @ rev (c_strings addresses strings)"
    and "stacked (unat cursor) (rev (c_strings addresses strings)) (unat cursor')"
proof -
  from assms obtain as where
    "place_c_strings_loop cursor placed (rev strings) [] = Ok (cursor', placed', as)"
    "addresses = rev as"
    by (auto simp: place_c_strings_def result_simps)
  with place_c_strings_loop_Ok [OF this(1)] show "length addresses = length strings"
    "placed' = placed @ rev (c_strings addresses strings)"
    "stacked (unat cursor) (rev (c_strings addresses strings)) (unat cursor')"
    by (auto simp: c_strings_rev)
qed

section \<open>Writing the placed strings\<close>

definition placed_at :: "nat \<Rightarrow> u8 list \<Rightarrow> placed_stack_bytes \<Rightarrow> bool" where
  "placed_at sp bytes item \<longleftrightarrow>
     take (length (psb_bytes item)) (drop (unat (psb_address item) - sp) bytes) = psb_bytes item"

lemma write_placed_stacked:
  assumes "stacked hi placed lo" "unat sp \<le> lo" "hi \<le> unat sp + length bytes" "hi < 2 ^ 64"
  shows "\<exists>out. write_placed sp placed bytes = Ok out \<and> length out = length bytes
    \<and> take (lo - unat sp) out = take (lo - unat sp) bytes
    \<and> drop (hi - unat sp) out = drop (hi - unat sp) bytes
    \<and> (\<forall>item \<in> set placed. placed_at (unat sp) out item)"
  using assms
proof (induction placed arbitrary: hi bytes)
  case Nil
  then show ?case by simp
next
  case (Cons item placed)
  define a where "a = unat (psb_address item)"
  have hi: "a + length (psb_bytes item) = hi" and tail: "stacked a placed lo"
    using Cons.prems by (simp_all add: a_def)
  have lo: "lo \<le> a" using stacked_le [OF tail] .
  then have sp: "unat sp \<le> a" using Cons.prems by simp
  have off: "unat sp \<le> unat (psb_address item)" "unat (psb_address item) - unat sp = a - unat sp"
    using sp by (simp_all add: a_def)
  define bytes1 where "bytes1 = splice (a - unat sp) (psb_bytes item) bytes"
  have fit: "a - unat sp + length (psb_bytes item) \<le> length bytes"
    using Cons.prems hi sp by linarith
  then have len1: "length bytes1 = length bytes"
    by (simp add: bytes1_def)
  have small: "a - unat sp + length (psb_bytes item) < 2 ^ 64"
    using hi Cons.prems(4) by linarith
  have "write_slice bytes (a - unat sp) (a - unat sp + length (psb_bytes item)) (psb_bytes item)
      = (Ok bytes1 :: u8 list stack_result)"
    using fit by (simp add: write_slice_def bytes1_def)
  with small have step: "write_placed sp (item # placed) bytes = write_placed sp placed bytes1"
    by (simp add: sub_or_panic_le [OF off(1)] off(2))
  obtain out where out: "write_placed sp placed bytes1 = Ok out" "length out = length bytes"
    "take (lo - unat sp) out = take (lo - unat sp) bytes1"
    "drop (a - unat sp) out = drop (a - unat sp) bytes1"
    "\<forall>item \<in> set placed. placed_at (unat sp) out item"
    using Cons.IH [OF tail Cons.prems(2), of bytes1] len1 Cons.prems hi by auto
  have "placed_at (unat sp) out item"
    using out(4) take_drop_splice_same [OF fit]
    by (simp add: placed_at_def a_def [symmetric] bytes1_def)
  moreover have "take (lo - unat sp) out = take (lo - unat sp) bytes"
    using out(3) take_drop_splice_before [of 0 "lo - unat sp" "a - unat sp" bytes "psb_bytes item"]
      lo fit by (simp add: bytes1_def)
  moreover have "drop (hi - unat sp) out = drop (hi - unat sp) bytes"
  proof -
    have "hi - unat sp = length (psb_bytes item) + (a - unat sp)"
      using hi sp by simp
    then have "drop (hi - unat sp) out = drop (length (psb_bytes item)) (drop (a - unat sp) out)"
      by (simp add: add.commute)
    also have "\<dots> = drop (hi - unat sp) bytes1"
      using out(4) hi sp by (simp add: add.commute)
    also have "\<dots> = drop (hi - unat sp) bytes"
      using hi sp fit by (simp add: bytes1_def splice_def)
    finally show ?thesis .
  qed
  ultimately show ?case
    using step out by simp
qed

section \<open>The pointer area\<close>

definition pointer_words :: "u64 list \<Rightarrow> u64 list \<Rightarrow> auxiliary_vector_entry list \<Rightarrow> u64 list" where
  "pointer_words argv_addresses envp_addresses auxv_entries =
     [of_nat (length argv_addresses)] @ argv_addresses @ [0] @ envp_addresses @ [0]
     @ concat (map (\<lambda>entry. [aux_key entry, aux_value entry]) auxv_entries)"

lemma foldl_push_u64: "foldl push_u64 bytes ws = bytes @ concat (map u64_to_le_bytes ws)"
  by (induction ws arbitrary: bytes) (simp_all add: push_u64_def)

lemma foldl_push_aux:
  "foldl (\<lambda>bytes entry. push_u64 (push_u64 bytes (aux_key entry)) (aux_value entry)) bytes es
     = bytes @ concat (map u64_to_le_bytes
         (concat (map (\<lambda>entry. [aux_key entry, aux_value entry]) es)))"
  by (induction es arbitrary: bytes) (simp_all add: push_u64_def)

lemmas push_simps = foldl_push_u64 foldl_push_aux

lemma build_pointer_area_Ok:
  assumes "build_pointer_area argv_addresses envp_addresses auxv_entries = Ok pa"
  shows "pa = concat (map u64_to_le_bytes
    (pointer_words argv_addresses envp_addresses auxv_entries))"
proof -
  have "pa = foldl (\<lambda>bytes entry. push_u64 (push_u64 bytes (aux_key entry)) (aux_value entry))
      (push_u64 (foldl push_u64 (push_u64 (foldl push_u64
        (push_u64 [] (of_nat (length argv_addresses))) argv_addresses) 0) envp_addresses) 0)
      auxv_entries"
    using assms
    by (auto simp: build_pointer_area_def result_simps Let_def u64_try_from_def split: if_splits)
  then show ?thesis
    by (simp only: push_simps) (simp add: push_u64_def pointer_words_def)
qed

lemma build_pointer_area_not_Panic [simp]: "build_pointer_area a e x \<noteq> Panic"
  by (auto simp: build_pointer_area_def result_simps Let_def)

lemma length_concat_words [simp]: "length (concat (map u64_to_le_bytes ws)) = 8 * length ws"
  by (induction ws) simp_all

lemma read_word:
  "k < length ws \<Longrightarrow>
   take 8 (drop (8 * k) (concat (map u64_to_le_bytes ws))) = u64_to_le_bytes (ws ! k)"
proof (induction ws arbitrary: k)
  case (Cons w ws)
  then show ?case by (cases k) simp_all
qed simp

text \<open>Reading a word of a byte image whose prefix is the pointer area.\<close>

lemma read_word_of_prefix:
  assumes "take (8 * length ws) bytes = concat (map u64_to_le_bytes ws)" "k < length ws"
  shows "u64_from_le_bytes (take 8 (drop (8 * k) bytes)) = ws ! k"
proof -
  have "take 8 (drop (8 * k) (take (8 * length ws) bytes)) = take 8 (drop (8 * k) bytes)"
    using assms(2) by (simp add: drop_take min_def)
  with assms read_word [OF assms(2)] show ?thesis
    by (metis u64_le_roundtrip)
qed

section \<open>The byte image\<close>

lemma align_down_16: "unat (elf_align_down v INITIAL_STACK_ALIGNMENT) = unat v div 16 * 16"
proof -
  have "unat v div 16 * 16 \<le> unat v" by simp
  then have "unat v div 16 * 16 < 18446744073709551616"
    using unat_u64_less [of v] by linarith
  then show ?thesis
    by (simp add: elf_align_down_def INITIAL_STACK_ALIGNMENT_def unat_word_ariths unat_div)
qed

definition image_of :: "u64 \<Rightarrow> u64 \<Rightarrow> placed_stack_bytes list \<Rightarrow> u8 list \<Rightarrow> u64 \<Rightarrow> u8 list \<Rightarrow> bool" where
  "image_of hi base placed pa sp bytes \<longleftrightarrow>
     unat sp mod 16 = 0 \<and> unat base \<le> unat sp \<and> unat sp \<le> unat hi
   \<and> length bytes = unat hi - unat sp
   \<and> length pa \<le> length bytes \<and> take (length pa) bytes = pa
   \<and> (\<forall>item \<in> set placed. placed_at (unat sp) bytes item \<and> unat sp + length pa \<le> unat (psb_address item)
        \<and> unat (psb_address item) + length (psb_bytes item) \<le> unat hi)"

lemma stacked_within:
  "stacked hi placed lo \<Longrightarrow> item \<in> set placed
   \<Longrightarrow> lo \<le> unat (psb_address item) \<and> unat (psb_address item) + length (psb_bytes item) \<le> hi"
proof (induction placed arbitrary: hi)
  case (Cons x placed)
  then show ?case
    by (auto dest: stacked_le) fastforce
qed simp

lemma emit_stack_run:
  assumes st: "stacked (unat (sc_stack_top config)) placed lo" and cur: "unat cursor \<le> lo"
    and size: "unat (sc_stack_top config) - unat base \<le> ISIZE_MAX"
    and len: "u64_try_from (length pa) = Some len" and un: "checked_sub cursor len = Some un"
    and base: "unat base \<le> unat un div 16 * 16"
  shows "\<exists>sp bytes. emit_stack config base cursor placed pa = Ok (sp, bytes)
    \<and> image_of (sc_stack_top config) base placed pa sp bytes"
proof -
  let ?top = "unat (sc_stack_top config)"
  have lo: "lo \<le> ?top" using stacked_le [OF st] .
  define sp where "sp = elf_align_down un INITIAL_STACK_ALIGNMENT"
  have spv: "unat sp = unat un div 16 * 16" by (simp add: sp_def align_down_16)
  have "unat un div 16 * 16 \<le> unat un" by simp
  then have below: "unat sp + length pa \<le> lo"
    using spv len un cur by (auto simp: checked_simps)
  then have sub: "unat sp \<le> ?top" using lo by linarith
  have ge: "\<not> sp < base" using base spv by (simp add: word_less_nat_alt)
  define buf where "buf = splice 0 pa (replicate (?top - unat sp) (0::u8))"
  have fit: "length pa \<le> ?top - unat sp" using below lo by linarith
  then have lbuf: "length buf = ?top - unat sp" by (simp add: buf_def)
  have small: "?top - unat sp \<le> ISIZE_MAX" using base spv size by linarith
  obtain out where out: "write_placed sp placed buf = Ok out" "length out = length buf"
    "take (lo - unat sp) out = take (lo - unat sp) buf"
    "\<forall>item \<in> set placed. placed_at (unat sp) out item"
    using write_placed_stacked [OF st, of sp buf] below lbuf lo by auto
  have run: "emit_stack config base cursor placed pa = Ok (sp, out)"
    using len un ge small fit out(1)
    by (simp add: emit_stack_def sub_or_panic_le [OF sub] sp_def [symmetric] vec_zero_def write_slice_def buf_def)
  have "take (length pa) out = take (length pa) (take (lo - unat sp) out)"
    using below by (simp add: min_absorb1)
  also have "\<dots> = pa"
    using below by (simp add: out(3) min_absorb1 buf_def splice_def)
  finally have "take (length pa) out = pa" .
  then have "image_of (sc_stack_top config) base placed pa sp out"
    using spv base below lo out(2,4) lbuf fit stacked_within [OF st]
    by (auto simp: image_of_def) (meson le_trans)
  with run show ?thesis by blast
qed

lemma emit_stack_spec:
  assumes st: "stacked (unat (sc_stack_top config)) placed lo" and cur: "unat cursor \<le> lo"
    and size: "unat (sc_stack_top config) - unat base \<le> ISIZE_MAX"
  shows "case emit_stack config base cursor placed pa of
      Ok (sp, bytes) \<Rightarrow> image_of (sc_stack_top config) base placed pa sp bytes
    | Err e \<Rightarrow> True | Panic \<Rightarrow> False"
proof (cases "\<exists>len un. u64_try_from (length pa) = Some len \<and> checked_sub cursor len = Some un")
  case False
  then show ?thesis
    by (auto simp: emit_stack_def ok_or_def split: option.splits)
next
  case True
  then obtain len un where len: "u64_try_from (length pa) = Some len"
    and un: "checked_sub cursor len = Some un" by blast
  show ?thesis
  proof (cases "unat base \<le> unat un div 16 * 16")
    case True
    then show ?thesis
      using emit_stack_run [OF st cur size len un] by auto
  next
    case False
    have "unat un div 16 * 16 \<le> unat un" by simp
    then have "unat un div 16 * 16 \<le> unat (sc_stack_top config)"
      using un cur stacked_le [OF st] by (auto simp: checked_simps)
    then have "sub_or_panic (sc_stack_top config) (elf_align_down un INITIAL_STACK_ALIGNMENT)
        \<noteq> (Panic :: u64 stack_result)"
      by (simp add: result_simps align_down_16)
    moreover have "elf_align_down un INITIAL_STACK_ALIGNMENT < base"
      using False by (simp add: word_less_nat_alt align_down_16)
    ultimately show ?thesis
      using len un by (auto simp: emit_stack_def Let_def result_simps split: result.splits)
  qed
qed

section \<open>The finished stack\<close>

text \<open>\<open>random_bytes\<close> is an array of sixteen bytes in the source.\<close>

definition config_typed :: "initial_stack_config \<Rightarrow> bool" where
  "config_typed config \<longleftrightarrow> length (sc_random_bytes config) = AT_RANDOM_BYTES"

definition stack_reads :: "initial_stack \<Rightarrow> u64 \<Rightarrow> u8 list \<Rightarrow> bool" where
  "stack_reads s address bytes \<longleftrightarrow>
     unat (is_stack_pointer s) \<le> unat address
   \<and> unat address + length bytes \<le> unat (is_stack_top s)
   \<and> take (length bytes) (drop (unat address - unat (is_stack_pointer s)) (is_bytes s)) = bytes"

definition stack_words :: "initial_stack \<Rightarrow> u64 list" where
  "stack_words s = pointer_words (is_argv_addresses s) (is_envp_addresses s) (is_auxv_entries s)"

definition stack_layout :: "load_plan \<Rightarrow> initial_stack_config \<Rightarrow> initial_stack \<Rightarrow> bool" where
  "stack_layout plan config s \<longleftrightarrow>
     is_stack_top s = sc_stack_top config \<and> is_stack_size s = sc_stack_size config
   \<and> unat (is_stack_size s) \<le> unat (is_stack_top s)
   \<and> unat (is_stack_pointer s) mod 16 = 0
   \<and> unat (is_stack_top s) - unat (is_stack_size s) \<le> unat (is_stack_pointer s)
   \<and> unat (is_stack_pointer s) \<le> unat (is_stack_top s)
   \<and> length (is_bytes s) = unat (is_stack_top s) - unat (is_stack_pointer s)
   \<and> 8 * length (stack_words s) \<le> length (is_bytes s)
   \<and> take (8 * length (stack_words s)) (is_bytes s) = concat (map u64_to_le_bytes (stack_words s))
   \<and> (\<exists>phdr entry. is_auxv_entries s = auxv_entries_for plan phdr (sc_interpreter_base config) entry
        (is_random_address s) (is_executable_path_address s) (is_platform_address s)
      \<and> unat entry = unat (lp_entrypoint plan) + unat (sc_executable_load_bias config)
      \<and> (\<exists>v. pht_virtual_address (lp_program_headers plan) = Some v
           \<and> unat phdr = unat v + unat (sc_executable_load_bias config)))"

definition stack_strings :: "initial_stack_config \<Rightarrow> initial_stack \<Rightarrow> bool" where
  "stack_strings config s \<longleftrightarrow>
     list_all2 (\<lambda>a str. stack_reads s a (str @ [0])) (is_argv_addresses s) (sc_argv config)
   \<and> list_all2 (\<lambda>a str. stack_reads s a (str @ [0])) (is_envp_addresses s) (sc_envp config)
   \<and> stack_reads s (is_executable_path_address s) (sc_executable_path config @ [0])
   \<and> stack_reads s (is_platform_address s) (sc_platform config @ [0])
   \<and> stack_reads s (is_random_address s) (sc_random_bytes config)"

lemma validate_no_interior_nul_not_Panic [simp]: "validate_no_interior_nul f i bs \<noteq> Panic"
  by (simp add: validate_no_interior_nul_def)

lemma validate_no_interior_nul_from_not_Panic [simp]: "validate_no_interior_nul_from f i es \<noteq> Panic"
  by (induction es arbitrary: i) (auto simp: result_simps)

lemma validate_stack_config_not_Panic [simp]: "validate_stack_config config \<noteq> Panic"
  by (auto simp: validate_stack_config_def validate_no_interior_nul_entries_def result_simps)

lemma relocated_address_Ok [result_simps]:
  "relocated_address a b = Ok c \<longleftrightarrow> unat c = unat a + unat b"
  by (simp add: relocated_address_def result_simps checked_add_Some)

lemma relocated_address_not_Panic [simp]: "relocated_address a b \<noteq> Panic"
  by (simp add: relocated_address_def)

lemma place_stack_data_not_Panic [simp]: "place_stack_data config \<noteq> Panic"
  by (auto simp: place_stack_data_def result_simps split: prod.splits)

lemma place_stack_data_Ok:
  assumes typed: "config_typed config" and "place_stack_data config = Ok (a, placed)"
  shows "stacked (unat (sc_stack_top config)) placed (unat (sa_random a))"
    and "length (sa_argv a) = length (sc_argv config)"
    and "length (sa_envp a) = length (sc_envp config)"
    and "set (c_strings (sa_argv a) (sc_argv config)) \<subseteq> set placed"
    and "set (c_strings (sa_envp a) (sc_envp config)) \<subseteq> set placed"
    and "\<lparr>psb_address = sa_path a, psb_bytes = sc_executable_path config @ [0]\<rparr> \<in> set placed"
    and "\<lparr>psb_address = sa_platform a, psb_bytes = sc_platform config @ [0]\<rparr> \<in> set placed"
    and "\<lparr>psb_address = sa_random a, psb_bytes = sc_random_bytes config\<rparr> \<in> set placed"
proof -
  from assms(2) obtain path p1 plat p2 c3 p3 envs c4 p4 args rand where
      1: "place_c_string (sc_stack_top config) [] (sc_executable_path config) = Ok (path, p1)"
    and 2: "place_c_string path p1 (sc_platform config) = Ok (plat, p2)"
    and 3: "place_c_strings plat p2 (sc_envp config) = Ok (c3, p3, envs)"
    and 4: "place_c_strings c3 p3 (sc_argv config) = Ok (c4, p4, args)"
    and 5: "checked_sub c4 (of_nat AT_RANDOM_BYTES) = Some rand"
    and a: "a = \<lparr>sa_path = path, sa_platform = plat, sa_envp = envs, sa_argv = args,
                 sa_random = rand\<rparr>"
    and p: "placed = p4 @ [\<lparr>psb_address = rand, psb_bytes = sc_random_bytes config\<rparr>]"
    by (auto simp: place_stack_data_def result_simps split: prod.splits)
  have "unat c4 = unat rand + length (sc_random_bytes config)"
    using 5 typed by (simp add: checked_simps config_typed_def AT_RANDOM_BYTES_def)
  then show "stacked (unat (sc_stack_top config)) placed (unat (sa_random a))"
    using place_c_string_Ok [OF 1] place_c_string_Ok [OF 2] place_c_strings_Ok [OF 3]
      place_c_strings_Ok [OF 4]
    by (fastforce simp: a p)
  show "length (sa_argv a) = length (sc_argv config)"
    "length (sa_envp a) = length (sc_envp config)"
    using place_c_strings_Ok(1) [OF 3] place_c_strings_Ok(1) [OF 4] by (simp_all add: a)
  show "set (c_strings (sa_argv a) (sc_argv config)) \<subseteq> set placed"
    "set (c_strings (sa_envp a) (sc_envp config)) \<subseteq> set placed"
    "\<lparr>psb_address = sa_path a, psb_bytes = sc_executable_path config @ [0]\<rparr> \<in> set placed"
    "\<lparr>psb_address = sa_platform a, psb_bytes = sc_platform config @ [0]\<rparr> \<in> set placed"
    "\<lparr>psb_address = sa_random a, psb_bytes = sc_random_bytes config\<rparr> \<in> set placed"
    using place_c_string_Ok(1) [OF 1] place_c_string_Ok(1) [OF 2] place_c_strings_Ok(2) [OF 3]
      place_c_strings_Ok(2) [OF 4]
    by (auto simp: a p)
qed

lemma build_initial_stack_steps:
  assumes "build_initial_stack plan config = Ok s"
  obtains v phdr entry base a placed sp bytes where
    "pht_virtual_address (lp_program_headers plan) = Some v"
    "unat phdr = unat v + unat (sc_executable_load_bias config)"
    "unat entry = unat (lp_entrypoint plan) + unat (sc_executable_load_bias config)"
    "unat (sc_stack_top config) = unat (sc_stack_size config) + unat base"
    "place_stack_data config = Ok (a, placed)"
    "emit_stack config base (elf_align_down (sa_random a) INITIAL_STACK_ALIGNMENT) placed
       (concat (map u64_to_le_bytes (stack_words s))) = Ok (sp, bytes)"
    "s = \<lparr>is_stack_top = sc_stack_top config, is_stack_size = sc_stack_size config,
         is_stack_pointer = sp, is_bytes = bytes,
         is_argv_addresses = sa_argv a, is_envp_addresses = sa_envp a,
         is_executable_path_address = sa_path a,
         is_platform_address = sa_platform a,
         is_random_address = sa_random a,
         is_auxv_entries = auxv_entries_for plan phdr (sc_interpreter_base config) entry
           (sa_random a) (sa_path a) (sa_platform a)\<rparr>"
  using assms
  by (auto simp: build_initial_stack_def result_simps checked_simps Let_def stack_words_def
      dest!: build_pointer_area_Ok split: prod.splits)

lemma align_down_16_le: "unat (elf_align_down v INITIAL_STACK_ALIGNMENT) \<le> unat v"
  by (simp add: align_down_16)

lemma build_initial_stack_image:
  assumes "config_typed config" "unat (sc_stack_size config) \<le> ISIZE_MAX"
    and "build_initial_stack plan config = Ok s"
  obtains base a placed where
    "unat (sc_stack_top config) = unat (sc_stack_size config) + unat base"
    "place_stack_data config = Ok (a, placed)"
    "image_of (sc_stack_top config) base placed (concat (map u64_to_le_bytes (stack_words s)))
       (is_stack_pointer s) (is_bytes s)"
    "is_stack_top s = sc_stack_top config" "is_argv_addresses s = sa_argv a"
    "is_envp_addresses s = sa_envp a" "is_executable_path_address s = sa_path a"
    "is_platform_address s = sa_platform a" "is_random_address s = sa_random a"
  using assms(3)
proof (rule build_initial_stack_steps)
  fix v phdr entry base a placed sp bytes
  assume base: "unat (sc_stack_top config) = unat (sc_stack_size config) + unat base"
    and pl: "place_stack_data config = Ok (a, placed)"
    and emit: "emit_stack config base (elf_align_down (sa_random a) INITIAL_STACK_ALIGNMENT) placed
       (concat (map u64_to_le_bytes (stack_words s))) = Ok (sp, bytes)"
    and s: "s = \<lparr>is_stack_top = sc_stack_top config, is_stack_size = sc_stack_size config,
         is_stack_pointer = sp, is_bytes = bytes,
         is_argv_addresses = sa_argv a, is_envp_addresses = sa_envp a,
         is_executable_path_address = sa_path a,
         is_platform_address = sa_platform a,
         is_random_address = sa_random a,
         is_auxv_entries = auxv_entries_for plan phdr (sc_interpreter_base config) entry
           (sa_random a) (sa_path a) (sa_platform a)\<rparr>"
  have "image_of (sc_stack_top config) base placed
      (concat (map u64_to_le_bytes (stack_words s))) sp bytes"
    using emit_stack_spec [OF place_stack_data_Ok(1) [OF assms(1) pl] align_down_16_le, of base
        "concat (map u64_to_le_bytes (stack_words s))"]
      emit base assms(2) by simp
  then show thesis
    using that [OF base pl] by (simp add: s)
qed

lemma build_initial_stack_not_Panic:
  assumes "config_typed config" "unat (sc_stack_size config) \<le> ISIZE_MAX"
  shows "build_initial_stack plan config \<noteq> Panic"
proof -
  have "emit_stack config base (elf_align_down (sa_random a) INITIAL_STACK_ALIGNMENT) placed pa \<noteq> Panic"
    if "unat (sc_stack_top config) = unat (sc_stack_size config) + unat base"
      and "place_stack_data config = Ok (a, placed)" for base a placed pa
    using emit_stack_spec [OF place_stack_data_Ok(1) [OF assms(1) that(2)] align_down_16_le, of base pa]
      that(1) assms(2) by (auto split: result.splits)
  then show ?thesis
    by (auto simp: build_initial_stack_def result_simps checked_simps Let_def split: prod.splits)
qed

lemma build_initial_stack_layout:
  assumes "config_typed config" "unat (sc_stack_size config) \<le> ISIZE_MAX"
    and "build_initial_stack plan config = Ok s"
  shows "stack_layout plan config s"
proof -
  obtain base a placed where
      "unat (sc_stack_top config) = unat (sc_stack_size config) + unat base"
      "image_of (sc_stack_top config) base placed (concat (map u64_to_le_bytes (stack_words s)))
       (is_stack_pointer s) (is_bytes s)"
    by (rule build_initial_stack_image [OF assms])
  moreover have "is_stack_top s = sc_stack_top config \<and> is_stack_size s = sc_stack_size config
     \<and> (\<exists>phdr entry. is_auxv_entries s = auxv_entries_for plan phdr (sc_interpreter_base config) entry
        (is_random_address s) (is_executable_path_address s) (is_platform_address s)
      \<and> unat entry = unat (lp_entrypoint plan) + unat (sc_executable_load_bias config)
      \<and> (\<exists>v. pht_virtual_address (lp_program_headers plan) = Some v
           \<and> unat phdr = unat v + unat (sc_executable_load_bias config)))"
    using assms(3) by (rule build_initial_stack_steps) auto
  ultimately show ?thesis
    by (auto simp: stack_layout_def image_of_def)
qed

lemma build_initial_stack_strings:
  assumes "config_typed config" "unat (sc_stack_size config) \<le> ISIZE_MAX"
    and "build_initial_stack plan config = Ok s"
  shows "stack_strings config s"
proof -
  obtain base a placed where pl: "place_stack_data config = Ok (a, placed)"
    and img: "image_of (sc_stack_top config) base placed
        (concat (map u64_to_le_bytes (stack_words s))) (is_stack_pointer s) (is_bytes s)"
    and top: "is_stack_top s = sc_stack_top config"
    and s: "is_argv_addresses s = sa_argv a" "is_envp_addresses s = sa_envp a"
      "is_executable_path_address s = sa_path a" "is_platform_address s = sa_platform a"
      "is_random_address s = sa_random a"
    by (rule build_initial_stack_image [OF assms])
  have reads: "stack_reads s (psb_address item) (psb_bytes item)" if "item \<in> set placed" for item
    using img that top by (fastforce simp: image_of_def placed_at_def stack_reads_def)
  have strs: "list_all2 (\<lambda>a str. stack_reads s a (str @ [0])) as strs"
    if "length as = length strs" "set (c_strings as strs) \<subseteq> set placed" for as strs
    using that reads
    by (auto simp: list_all2_iff c_strings_def subset_iff image_iff) (metis case_prod_conv
        placed_stack_bytes.select_convs)
  note pl_ok = place_stack_data_Ok [OF assms(1) pl]
  show ?thesis
    unfolding stack_strings_def s
    using strs [OF pl_ok(2,4)] strs [OF pl_ok(3,5)] reads [OF pl_ok(6)] reads [OF pl_ok(7)]
      reads [OF pl_ok(8)]
    by simp
qed

section \<open>A stack that is large enough is built\<close>

definition strings_size :: "u8 list list \<Rightarrow> nat" where
  "strings_size strings = sum_list (map (\<lambda>str. length str + 1) strings)"

text \<open>The strings, the random bytes, the words of the pointer area and at most fifteen bytes of
  padding at each of the two alignment steps.\<close>

definition stack_needed :: "initial_stack_config \<Rightarrow> nat" where
  "stack_needed config =
     length (sc_executable_path config) + 1 + (length (sc_platform config) + 1)
     + strings_size (sc_envp config) + strings_size (sc_argv config) + 16
     + 8 * (3 + length (sc_argv config) + length (sc_envp config) + 38) + 30"

lemma place_c_string_room:
  assumes "length bytes + 1 \<le> unat cursor"
  obtains c where "place_c_string cursor placed bytes =
      Ok (c, placed @ [\<lparr>psb_address = c, psb_bytes = bytes @ [0]\<rparr>])"
    "unat c = unat cursor - (length bytes + 1)"
proof -
  have lt: "length bytes + 1 < 2 ^ 64"
    by (rule le_less_trans [OF assms]) simp
  then have u: "unat (of_nat (length bytes) :: u64) = length bytes"
    "unat (of_nat (length bytes) + 1 :: u64) = length bytes + 1"
    by (simp_all add: unat_of_nat unat_add_small)
  have "place_c_string cursor placed bytes =
      Ok (cursor - (of_nat (length bytes) + 1),
          placed @ [\<lparr>psb_address = cursor - (of_nat (length bytes) + 1), psb_bytes = bytes @ [0]\<rparr>])"
    using lt assms u
    by (simp add: place_c_string_def u64_try_from_def checked_add_def checked_sub_def word_le_nat_alt)
  moreover have "unat (cursor - (of_nat (length bytes) + 1)) = unat cursor - (length bytes + 1)"
    using assms u by (simp add: unat_sub word_le_nat_alt)
  ultimately show thesis using that by blast
qed

lemma place_c_strings_loop_room:
  assumes "strings_size strings \<le> unat cursor"
  shows "\<exists>c p as. place_c_strings_loop cursor placed strings acc = Ok (c, p, as)
    \<and> unat c = unat cursor - strings_size strings"
  using assms
proof (induction strings arbitrary: cursor placed acc)
  case Nil
  then show ?case by (simp add: strings_size_def)
next
  case (Cons str strings)
  then have "length str + 1 \<le> unat cursor" by (simp add: strings_size_def)
  then obtain c where "place_c_string cursor placed str =
      Ok (c, placed @ [\<lparr>psb_address = c, psb_bytes = str @ [0]\<rparr>])"
    "unat c = unat cursor - (length str + 1)"
    by (rule place_c_string_room)
  moreover from this Cons.prems have "strings_size strings \<le> unat c"
    by (simp add: strings_size_def)
  ultimately show ?case
    using Cons.IH [of c] by (fastforce simp: strings_size_def)
qed

lemma strings_size_rev [simp]: "strings_size (rev strings) = strings_size strings"
  by (simp add: strings_size_def rev_map [symmetric] sum_list_rev)

lemma place_c_strings_room:
  assumes "strings_size strings \<le> unat cursor"
  obtains c p as where "place_c_strings cursor placed strings = Ok (c, p, as)"
    "unat c = unat cursor - strings_size strings"
  using place_c_strings_loop_room [of "rev strings" cursor placed "[]"] assms that
  by (auto simp: place_c_strings_def)

lemma place_stack_data_room:
  assumes "stack_needed config \<le> unat (sc_stack_top config)"
  obtains a placed where "place_stack_data config = Ok (a, placed)"
    "unat (sa_random a) = unat (sc_stack_top config)
       - (stack_needed config - 30 - 8 * (3 + length (sc_argv config) + length (sc_envp config) + 38))"
proof -
  obtain path p1 where 1: "place_c_string (sc_stack_top config) [] (sc_executable_path config) = Ok (path, p1)"
    "unat path = unat (sc_stack_top config) - (length (sc_executable_path config) + 1)"
    by (rule place_c_string_room [of "sc_executable_path config" "sc_stack_top config" "[]"])
      (use assms in \<open>auto simp: stack_needed_def\<close>)
  obtain plat p2 where 2: "place_c_string path p1 (sc_platform config) = Ok (plat, p2)"
    "unat plat = unat path - (length (sc_platform config) + 1)"
    by (rule place_c_string_room [of "sc_platform config" path p1])
      (use assms 1 in \<open>auto simp: stack_needed_def\<close>)
  obtain c3 p3 envs where 3: "place_c_strings plat p2 (sc_envp config) = Ok (c3, p3, envs)"
    "unat c3 = unat plat - strings_size (sc_envp config)"
    by (rule place_c_strings_room [of "sc_envp config" plat p2])
      (use assms 1 2 in \<open>auto simp: stack_needed_def\<close>)
  obtain c4 p4 args where 4: "place_c_strings c3 p3 (sc_argv config) = Ok (c4, p4, args)"
    "unat c4 = unat c3 - strings_size (sc_argv config)"
    by (rule place_c_strings_room [of "sc_argv config" c3 p3])
      (use assms 1 2 3 in \<open>auto simp: stack_needed_def\<close>)
  have "16 \<le> unat c4"
    using assms 1(2) 2(2) 3(2) 4(2) by (simp add: stack_needed_def)
  then have "checked_sub c4 (of_nat AT_RANDOM_BYTES) = Some (c4 - 16)" "unat (c4 - 16) = unat c4 - 16"
    by (simp_all add: checked_sub_def AT_RANDOM_BYTES_def word_le_nat_alt unat_sub)
  then show thesis
    using 1 2 3 4 that
    by (simp add: place_stack_data_def stack_needed_def)
qed

lemma emit_stack_room:
  assumes st: "stacked (unat (sc_stack_top config)) placed lo" and cur: "unat cursor \<le> lo"
    and size: "unat (sc_stack_top config) - unat base \<le> ISIZE_MAX"
    and room: "unat base + length pa + 15 \<le> unat cursor"
  shows "\<exists>sp bytes. emit_stack config base cursor placed pa = Ok (sp, bytes)"
proof -
  have lt: "length pa < 2 ^ 64"
    by (rule le_less_trans [of _ "unat cursor"]) (use room in auto)
  then have len: "u64_try_from (length pa) = Some (of_nat (length pa))"
    "unat (of_nat (length pa) :: u64) = length pa"
    by (simp_all add: u64_try_from_def unat_of_nat)
  define un where "un = cursor - of_nat (length pa)"
  have un: "checked_sub cursor (of_nat (length pa)) = Some un"
    "unat un = unat cursor - length pa"
    using room len(2) by (simp_all add: checked_sub_def word_le_nat_alt un_def unat_sub)
  have "unat un < unat un div 16 * 16 + 16"
    by (metis add.commute div_mult_mod_eq mod_less_divisor nat_add_left_cancel_less zero_less_numeral)
  then have "unat base \<le> unat un div 16 * 16"
    using room un by linarith
  then show ?thesis
    using emit_stack_run [OF st cur size len(1) un(1)] by blast
qed

lemma build_pointer_area_room:
  assumes "length args < 2 ^ 64"
  shows "\<exists>pa. build_pointer_area args envs auxv = Ok pa
    \<and> length pa = 8 * (3 + length args + length envs + 2 * length auxv)"
proof -
  obtain pa where pa: "build_pointer_area args envs auxv = Ok pa"
    using assms by (auto simp: build_pointer_area_def u64_try_from_def Let_def)
  then have "length pa = 8 * length (pointer_words args envs auxv)"
    using build_pointer_area_Ok by fastforce
  moreover have "length (concat (map (\<lambda>entry. [aux_key entry, aux_value entry]) auxv)) = 2 * length auxv"
    by (induction auxv) simp_all
  ultimately show ?thesis using pa by (simp add: pointer_words_def)
qed

lemma build_initial_stack_room:
  assumes typed: "config_typed config" and valid: "validate_stack_config config = Ok ()"
    and phdr: "pht_virtual_address (lp_program_headers plan) = Some v"
      "unat v + unat (sc_executable_load_bias config) < 2 ^ 64"
    and entry: "unat (lp_entrypoint plan) + unat (sc_executable_load_bias config) < 2 ^ 64"
    and room: "stack_needed config \<le> unat (sc_stack_size config)"
    and range: "unat (sc_stack_size config) \<le> unat (sc_stack_top config)"
    and size: "unat (sc_stack_size config) \<le> ISIZE_MAX"
  shows "\<exists>s. build_initial_stack plan config = Ok s"
proof -
  obtain a placed where pl: "place_stack_data config = Ok (a, placed)"
    and rand: "unat (sa_random a) = unat (sc_stack_top config)
       - (stack_needed config - 30 - 8 * (3 + length (sc_argv config) + length (sc_envp config) + 38))"
    using room range by (elim place_stack_data_room [OF le_trans])
  note pl_ok = place_stack_data_Ok [OF typed pl]
  define base where "base = sc_stack_top config - sc_stack_size config"
  have base: "checked_sub (sc_stack_top config) (sc_stack_size config) = Some base"
    "unat base = unat (sc_stack_top config) - unat (sc_stack_size config)"
    using range by (simp_all add: checked_sub_def word_le_nat_alt base_def unat_sub)
  define auxv where "auxv = auxv_entries_for plan (v + sc_executable_load_bias config)
    (sc_interpreter_base config) (lp_entrypoint plan + sc_executable_load_bias config)
    (sa_random a) (sa_path a) (sa_platform a)"
  have "length (sa_argv a) < 2 ^ 64"
    by (rule le_less_trans [of _ "unat (sc_stack_size config)"])
      (use room pl_ok(2) in \<open>auto simp: stack_needed_def\<close>)
  then obtain pa where pa: "build_pointer_area (sa_argv a) (sa_envp a) auxv = Ok pa"
    "length pa = 8 * (3 + length (sc_argv config) + length (sc_envp config) + 38)"
    using build_pointer_area_room [of "sa_argv a" "sa_envp a" auxv] pl_ok(2,3)
    by (auto simp: auxv_def auxv_entries_for_def)
  have "unat (sa_random a) < unat (sa_random a) div 16 * 16 + 16"
    by (metis add.commute div_mult_mod_eq mod_less_divisor nat_add_left_cancel_less zero_less_numeral)
  then have "unat base + length pa + 15
      \<le> unat (elf_align_down (sa_random a) INITIAL_STACK_ALIGNMENT)"
    using rand room range base(2) pa(2) unfolding align_down_16 by (simp add: stack_needed_def)
  then obtain sp bytes where
    "emit_stack config base (elf_align_down (sa_random a) INITIAL_STACK_ALIGNMENT) placed pa = Ok (sp, bytes)"
    using emit_stack_room [OF pl_ok(1) align_down_16_le] base(2) range size by fastforce
  moreover have "relocated_address v (sc_executable_load_bias config)
      = Ok (v + sc_executable_load_bias config)"
    "relocated_address (lp_entrypoint plan) (sc_executable_load_bias config)
      = Ok (lp_entrypoint plan + sc_executable_load_bias config)"
    using phdr entry by (simp_all add: relocated_address_def checked_add_def)
  ultimately show ?thesis
    using valid phdr base(1) pl pa by (simp add: build_initial_stack_def auxv_def Let_def)
qed

section \<open>Properties of the initial stack\<close>

definition demo_config :: initial_stack_config where
  "demo_config = with_envp [[72, 61, 47]] (with_argv [[97], [45, 120]]
     (stack_config_new 0x10000 0x1000 [47, 97]))"

lemma demo_config_ok:
  "config_typed demo_config" "unat (sc_stack_size demo_config) \<le> ISIZE_MAX"
  "validate_stack_config demo_config = Ok ()"
  "stack_needed demo_config \<le> unat (sc_stack_size demo_config)"
  "unat (sc_stack_size demo_config) \<le> unat (sc_stack_top demo_config)"
  "unat (0x400040 :: u64) + unat (sc_executable_load_bias demo_config) < 2 ^ 64"
  "unat (lp_entrypoint tiny_plan) + unat (sc_executable_load_bias demo_config) < 2 ^ 64"
  "pht_virtual_address (lp_program_headers tiny_plan) = Some 0x400040"
  by (simp_all add: demo_config_def with_envp_def with_argv_def stack_config_new_def
      config_typed_def AT_RANDOM_BYTES_def ISIZE_MAX_def validate_stack_config_def
      validate_no_interior_nul_def validate_no_interior_nul_entries_def DEFAULT_PLATFORM_def
      stack_needed_def strings_size_def tiny_plan_def Let_def)

lemma demo_stack: "\<exists>s. build_initial_stack tiny_plan demo_config = Ok s"
  using build_initial_stack_room [OF demo_config_ok(1,3,8,6,7,4,5,2)] .

text \<open>C1. Building the initial stack never panics: every subtraction stays non-negative and every
  string and the pointer area fit in the buffer that is allocated for them.  The two conditions are
  the source's type of \<open>random_bytes\<close> and the allocation limit of the host.\<close>

theorem initial_stack_no_panic:
  assumes "config_typed config" "unat (sc_stack_size config) \<le> ISIZE_MAX"
  shows "build_initial_stack plan config \<noteq> Panic"
  using assms by (rule build_initial_stack_not_Panic)

theorem initial_stack_no_panic_witness:
  "config_typed demo_config \<and> build_initial_stack tiny_plan demo_config \<noteq> Panic"
  using initial_stack_no_panic [OF demo_config_ok(1,2)] demo_config_ok(1) by simp

text \<open>C22. The stack pointer is 16-byte aligned and inside the stack, the bytes reach exactly to the
  stack top, and the words at the stack pointer are the argument count, the argument addresses, a
  null word, the environment addresses, a null word and the auxiliary vector, whose entry point and
  program header address are relocated by the load bias.\<close>

theorem initial_stack_layout:
  assumes "config_typed config" "unat (sc_stack_size config) \<le> ISIZE_MAX"
    and "build_initial_stack plan config = Ok s"
  shows "stack_layout plan config s
    \<and> (\<forall>k < length (stack_words s).
         u64_from_le_bytes (take 8 (drop (8 * k) (is_bytes s))) = stack_words s ! k)"
  using build_initial_stack_layout [OF assms]
  by (auto simp: stack_layout_def intro: read_word_of_prefix)

theorem initial_stack_layout_witness:
  "\<exists>s. build_initial_stack tiny_plan demo_config = Ok s \<and> stack_layout tiny_plan demo_config s
    \<and> (\<forall>k < length (stack_words s).
         u64_from_le_bytes (take 8 (drop (8 * k) (is_bytes s))) = stack_words s ! k)"
  using demo_stack initial_stack_layout [OF demo_config_ok(1,2)] by blast

text \<open>C23. Every argument and environment string, the executable path and the platform name can be
  read back, NUL-terminated, at the address recorded for it, and the random bytes at theirs: no
  string overwrites another or the pointer area.\<close>

theorem initial_stack_strings:
  assumes "config_typed config" "unat (sc_stack_size config) \<le> ISIZE_MAX"
    and "build_initial_stack plan config = Ok s"
  shows "stack_strings config s"
  using assms by (rule build_initial_stack_strings)

theorem initial_stack_strings_witness:
  "\<exists>s. build_initial_stack tiny_plan demo_config = Ok s \<and> stack_strings demo_config s"
  using demo_stack initial_stack_strings [OF demo_config_ok(1,2)] by blast

text \<open>C24. The builder succeeds whenever the configuration is valid, the program headers are mapped,
  relocation does not overflow, and the stack holds the strings, the pointer area and the padding.\<close>

theorem initial_stack_succeeds:
  assumes "config_typed config" "validate_stack_config config = Ok ()"
    and "pht_virtual_address (lp_program_headers plan) = Some v"
    and "unat v + unat (sc_executable_load_bias config) < 2 ^ 64"
    and "unat (lp_entrypoint plan) + unat (sc_executable_load_bias config) < 2 ^ 64"
    and "stack_needed config \<le> unat (sc_stack_size config)"
    and "unat (sc_stack_size config) \<le> unat (sc_stack_top config)"
    and "unat (sc_stack_size config) \<le> ISIZE_MAX"
  shows "\<exists>s. build_initial_stack plan config = Ok s"
  using assms by (rule build_initial_stack_room)

theorem initial_stack_succeeds_witness:
  "\<exists>s. build_initial_stack tiny_plan demo_config = Ok s"
  using initial_stack_succeeds [OF demo_config_ok(1,3,8,6,7,4,5,2)] .

end
