(* ===== verification/Elf_Image.thy ===== *)
theory Elf_Image
  imports Elf_Stack "HOL-Library.Multiset"
begin

text \<open>
  The guest memory image of \<open>mcr-elf\<close> (\<open>image.rs\<close>): virtual memory areas and their contents
  for the executable, its interpreter and the initial stack.  The two vectors that the source
  grows by \<open>&mut\<close> reference are threaded as a pair.
\<close>

section \<open>Data\<close>

definition DEFAULT_POSITION_INDEPENDENT_EXECUTABLE_BASE :: u64 where
  "DEFAULT_POSITION_INDEPENDENT_EXECUTABLE_BASE = 0x400000"

definition DEFAULT_INTERPRETER_LOAD_BASE :: u64 where
  "DEFAULT_INTERPRETER_LOAD_BASE = 0x70000000"

datatype guest_vma_kind =
    ElfLoad u16 u64 u64
  | InterpreterLoad "u8 list" u16 u64 u64
  | Stack

record guest_vma =
  gv_start :: u64
  gv_end :: u64
  gv_permissions :: segment_permissions
  gv_kind :: guest_vma_kind

record guest_memory_region =
  gr_start :: u64
  gr_end :: u64
  gr_bytes :: "u8 list"

record loaded_interpreter =
  li_path :: "u8 list"
  li_load_bias :: u64
  li_entrypoint :: u64
  li_program_headers :: program_header_table

record guest_memory_image =
  gi_entrypoint :: u64
  gi_initial_stack_pointer :: u64
  gi_initial_stack :: initial_stack
  gi_executable_load_bias :: u64
  gi_interpreter :: "loaded_interpreter option"
  gi_brk :: u64
  gi_vmas :: "guest_vma list"
  gi_regions :: "guest_memory_region list"

datatype guest_image_error =
    Stack_error initial_stack_error
  | Interpreter_error elf_validation_error
  | MissingInterpreterBytes
  | UnsupportedInterpreter "u8 list"
  | Image_SegmentFileRangeOverflow u16 u64 u64
  | Image_SegmentFileRangeOutOfBounds u16 u64 u64 nat
  | AddressRangeOverflow u64 u64
  | RegionTooLarge u64 u64
  | InvalidVmaRange u64 u64
  | VmaOverlap guest_vma guest_vma

type_synonym 'a image_result = "('a, guest_image_error) result"
type_synonym image_parts = "guest_vma list \<times> guest_memory_region list"

section \<open>Operations\<close>

definition region_new :: "u64 \<Rightarrow> u8 list \<Rightarrow> guest_memory_region image_result" where
  "region_new start bytes =
     and_then (ok_or (u64_try_from (length bytes)) (RegionTooLarge start (- 1))) (\<lambda>len.
     and_then (ok_or (checked_add start len) (AddressRangeOverflow start len)) (\<lambda>end.
     Ok \<lparr>gr_start = start, gr_end = end, gr_bytes = bytes\<rparr>))"

definition executable_load_bias :: "load_plan \<Rightarrow> u64" where
  "executable_load_bias plan =
     (case lp_object_type plan of
        Executable \<Rightarrow> 0
      | SharedObject \<Rightarrow>
          if lp_interpreter plan \<noteq> None then DEFAULT_POSITION_INDEPENDENT_EXECUTABLE_BASE else 0)"

definition relocated_image_address :: "u64 \<Rightarrow> u64 \<Rightarrow> u64 image_result" where
  "relocated_image_address address load_bias =
     ok_or (checked_add address load_bias) (AddressRangeOverflow address load_bias)"

definition read_segment_mapping_bytes ::
  "u8 list \<Rightarrow> u16 \<Rightarrow> u64 \<Rightarrow> u64 \<Rightarrow> u8 list image_result" where
  "read_segment_mapping_bytes elf_bytes index file_offset file_size =
     and_then (ok_or (checked_add file_offset file_size)
                 (Image_SegmentFileRangeOverflow index file_offset file_size)) (\<lambda>file_end.
     if unat file_end > length elf_bytes
     then Err (Image_SegmentFileRangeOutOfBounds index file_offset file_size (length elf_bytes))
     else slice elf_bytes (unat file_offset) (unat file_end))"

definition register_vma :: "guest_vma list \<Rightarrow> guest_vma \<Rightarrow> guest_vma list image_result" where
  "register_vma vmas vma =
     (if gv_start vma \<ge> gv_end vma then Err (InvalidVmaRange (gv_start vma) (gv_end vma))
      else case List.find (\<lambda>existing. gv_start existing < gv_end vma
                              \<and> gv_start vma < gv_end existing) vmas of
        Some existing \<Rightarrow> Err (VmaOverlap existing vma)
      | None \<Rightarrow> Ok (sort_key gv_start (vmas @ [vma])))"

text \<open>
  One iteration of the two segment loops of \<open>build_guest_memory_image_with_interpreter\<close> and
  \<open>load_interpreter_image\<close>, which differ in the kind of the area they register.
\<close>

definition map_segment ::
  "u8 list \<Rightarrow> u64 \<Rightarrow> (load_segment \<Rightarrow> guest_vma_kind) \<Rightarrow> load_segment \<Rightarrow> image_parts
     \<Rightarrow> image_parts image_result" where
  "map_segment elf_bytes bias kind segment = (\<lambda>(vmas, regions).
     (let mapping = ls_mapping segment in
     and_then (relocated_image_address (mm_start mapping) bias) (\<lambda>mapping_start.
     and_then (relocated_image_address (mm_end mapping) bias) (\<lambda>mapping_end.
     and_then (read_segment_mapping_bytes elf_bytes (ls_program_header_index segment)
                 (mm_file_offset mapping) (mm_file_size mapping)) (\<lambda>mapped_bytes.
     and_then (sub_or_panic (mm_end mapping) (mm_start mapping)) (\<lambda>region_size.
     and_then (vec_zero (unat region_size)) (\<lambda>region_bytes.
     and_then (write_slice region_bytes 0 (length mapped_bytes) mapped_bytes) (\<lambda>region_bytes.
     and_then (register_vma vmas \<lparr>gv_start = mapping_start, gv_end = mapping_end,
                 gv_permissions = mm_permissions mapping, gv_kind = kind segment\<rparr>) (\<lambda>vmas.
     and_then (region_new mapping_start region_bytes) (\<lambda>region.
     Ok (vmas, regions @ [region])))))))))))"

fun map_segments ::
  "u8 list \<Rightarrow> u64 \<Rightarrow> (load_segment \<Rightarrow> guest_vma_kind) \<Rightarrow> load_segment list \<Rightarrow> image_parts
     \<Rightarrow> image_parts image_result" where
  "map_segments elf_bytes bias kind [] parts = Ok parts"
| "map_segments elf_bytes bias kind (segment # segments) parts =
     and_then (map_segment elf_bytes bias kind segment parts) (\<lambda>parts.
     map_segments elf_bytes bias kind segments parts)"

definition load_interpreter_image ::
  "interpreter \<Rightarrow> load_plan \<Rightarrow> u8 list \<Rightarrow> u64 \<Rightarrow> image_parts
     \<Rightarrow> (loaded_interpreter \<times> image_parts) image_result" where
  "load_interpreter_image interp plan bytes bias parts =
     (if lp_interpreter plan \<noteq> None then Err (UnsupportedInterpreter (interp_path interp))
      else and_then (map_segments bytes bias (\<lambda>segment. InterpreterLoad (interp_path interp)
                       (ls_program_header_index segment) (mm_file_offset (ls_mapping segment))
                       (mm_file_size (ls_mapping segment))) (lp_segments plan) parts) (\<lambda>parts.
      and_then (relocated_image_address (lp_entrypoint plan) bias) (\<lambda>entrypoint.
      and_then (case pht_virtual_address (lp_program_headers plan) of
                  None \<Rightarrow> Ok None
                | Some address \<Rightarrow> and_then (relocated_image_address address bias) (\<lambda>a. Ok (Some a)))
        (\<lambda>virtual_address.
      Ok (\<lparr>li_path = interp_path interp, li_load_bias = bias, li_entrypoint = entrypoint,
           li_program_headers =
             \<lparr>pht_file_offset = pht_file_offset (lp_program_headers plan),
              pht_entry_size = pht_entry_size (lp_program_headers plan),
              pht_entry_count = pht_entry_count (lp_program_headers plan),
              pht_virtual_address = virtual_address\<rparr>\<rparr>, parts)))))"

definition load_interpreter_step ::
  "load_plan \<Rightarrow> u8 list option \<Rightarrow> (loaded_interpreter option \<times> image_parts) image_result" where
  "load_interpreter_step plan interpreter_bytes =
     (case lp_interpreter plan of
        None \<Rightarrow> Ok (None, [], [])
      | Some interp \<Rightarrow>
          and_then (ok_or interpreter_bytes MissingInterpreterBytes) (\<lambda>bytes.
          and_then (map_err Interpreter_error (parse_load_plan bytes)) (\<lambda>interpreter_plan.
          and_then (load_interpreter_image interp interpreter_plan bytes
                      DEFAULT_INTERPRETER_LOAD_BASE ([], [])) (\<lambda>(loaded, parts).
          Ok (Some loaded, parts)))))"

definition map_stack :: "initial_stack \<Rightarrow> image_parts \<Rightarrow> image_parts image_result" where
  "map_stack stack = (\<lambda>(vmas, regions).
     and_then (stack_base stack) (\<lambda>base.
     and_then (sub_or_panic (is_stack_pointer stack) base) (\<lambda>stack_offset.
     if unat stack_offset + length (is_bytes stack) \<ge> 2 ^ 64
     then Err (AddressRangeOverflow (is_stack_pointer stack) (of_nat (length (is_bytes stack))))
     else
     and_then (vec_zero (unat (is_stack_size stack))) (\<lambda>stack_region.
     and_then (write_slice stack_region (unat stack_offset)
                 (unat stack_offset + length (is_bytes stack)) (is_bytes stack)) (\<lambda>stack_region.
     and_then (register_vma vmas \<lparr>gv_start = base, gv_end = is_stack_top stack,
                 gv_permissions = \<lparr>perm_read = True, perm_write = True, perm_execute = False\<rparr>,
                 gv_kind = Stack\<rparr>) (\<lambda>vmas.
     and_then (region_new base stack_region) (\<lambda>region.
     Ok (vmas, regions @ [region]))))))))"

definition max_or_zero :: "u64 list \<Rightarrow> u64" where
  "max_or_zero xs = fold max xs 0"

definition build_guest_memory_image_with_interpreter ::
  "load_plan \<Rightarrow> u8 list \<Rightarrow> u8 list option \<Rightarrow> initial_stack_config
     \<Rightarrow> guest_memory_image image_result" where
  "build_guest_memory_image_with_interpreter plan elf_bytes interpreter_bytes stack_config =
     (let bias = executable_load_bias plan in
     and_then (load_interpreter_step plan interpreter_bytes) (\<lambda>(interp, parts).
     and_then (map_segments elf_bytes bias (\<lambda>segment. ElfLoad (ls_program_header_index segment)
                 (mm_file_offset (ls_mapping segment)) (mm_file_size (ls_mapping segment)))
                 (lp_segments plan) parts) (\<lambda>parts.
     and_then (map_err Stack_error (build_initial_stack plan
                 (with_interpreter_base (case interp of None \<Rightarrow> 0 | Some i \<Rightarrow> li_load_bias i)
                   (with_executable_load_bias bias stack_config)))) (\<lambda>stack.
     and_then (map_stack stack parts) (\<lambda>(vmas, regions).
     and_then (relocated_image_address (lp_entrypoint plan) bias) (\<lambda>own_entrypoint.
     and_then (collect_results (\<lambda>segment.
                 relocated_image_address (mm_end (ls_mapping segment)) bias) (lp_segments plan))
       (\<lambda>ends.
     Ok \<lparr>gi_entrypoint = (case interp of None \<Rightarrow> own_entrypoint | Some i \<Rightarrow> li_entrypoint i),
         gi_initial_stack_pointer = is_stack_pointer stack, gi_initial_stack = stack,
         gi_executable_load_bias = bias, gi_interpreter = interp, gi_brk = max_or_zero ends,
         gi_vmas = vmas, gi_regions = sort_key gr_start regions\<rparr>)))))))"

definition build_guest_memory_image ::
  "load_plan \<Rightarrow> u8 list \<Rightarrow> initial_stack_config \<Rightarrow> guest_memory_image image_result" where
  "build_guest_memory_image plan elf_bytes stack_config =
     build_guest_memory_image_with_interpreter plan elf_bytes None stack_config"

definition image_read :: "guest_memory_image \<Rightarrow> u64 \<Rightarrow> nat \<Rightarrow> (u8 list option, 'e) result" where
  "image_read img address len =
     (case Option.bind (u64_try_from len) (checked_add address) of
        None \<Rightarrow> Ok None
      | Some end \<Rightarrow>
          (case List.find (\<lambda>region. gr_start region \<le> address \<and> end \<le> gr_end region)
                  (gi_regions img) of
             None \<Rightarrow> Ok None
           | Some region \<Rightarrow>
               and_then (sub_or_panic address (gr_start region)) (\<lambda>offset.
               if unat offset + len \<ge> 2 ^ 64 then Ok None
               else and_then (slice (gr_bytes region) (unat offset) (unat offset + len)) (\<lambda>bytes.
               Ok (Some bytes)))))"

section \<open>Virtual memory areas\<close>

definition vmas_wf :: "guest_vma list \<Rightarrow> bool" where
  "vmas_wf vmas \<longleftrightarrow>
     (\<forall>vma \<in> set vmas. gv_start vma < gv_end vma)
   \<and> sorted_wrt (\<lambda>a b. gv_end a \<le> gv_start b) vmas"

lemma sorted_wrt_refine:
  assumes "distinct xs" "sorted_wrt P xs"
    and "\<And>a b. a \<in> set xs \<Longrightarrow> b \<in> set xs \<Longrightarrow> a \<noteq> b \<Longrightarrow> P a b \<Longrightarrow> Q a b"
  shows "sorted_wrt Q xs"
  using assms by (induction xs) auto

lemma vmas_wf_distinct: "vmas_wf vmas \<Longrightarrow> distinct vmas"
  unfolding vmas_wf_def by (induction vmas) fastforce+

lemma vmas_wf_pairwise:
  assumes "vmas_wf vmas" "a \<in> set vmas" "b \<in> set vmas" "a \<noteq> b"
  shows "gv_end a \<le> gv_start b \<or> gv_end b \<le> gv_start a"
  using assms unfolding vmas_wf_def by (induction vmas) auto

lemma register_vma_Ok:
  assumes "register_vma vmas vma = Ok vmas'"
  shows "gv_start vma < gv_end vma"
    and "\<forall>e \<in> set vmas. \<not> (gv_start e < gv_end vma \<and> gv_start vma < gv_end e)"
    and "vmas' = sort_key gv_start (vmas @ [vma])"
  using assms
  by (auto simp: register_vma_def find_None_iff split: if_splits option.splits)

lemma register_vma_wf:
  assumes "vmas_wf vmas" "register_vma vmas vma = Ok vmas'"
  shows "vmas_wf vmas'" and "set vmas' = insert vma (set vmas)"
proof -
  note reg = register_vma_Ok [OF assms(2)]
  have vma: "vma \<notin> set vmas" using reg(1,2) by auto
  show set: "set vmas' = insert vma (set vmas)" by (simp add: reg(3))
  have "distinct vmas'"
    using vmas_wf_distinct [OF assms(1)] vma by (simp add: reg(3))
  moreover have "sorted_wrt (\<lambda>a b. gv_start a \<le> gv_start b) vmas'"
    using sorted_sort_key [of gv_start "vmas @ [vma]"] by (simp add: reg(3) sorted_map)
  moreover have "gv_end a \<le> gv_start b"
    if "a \<in> set vmas'" "b \<in> set vmas'" "a \<noteq> b" "gv_start a \<le> gv_start b" for a b
    using that reg(1,2) vmas_wf_pairwise [OF assms(1), of a b] assms(1)
    unfolding set vmas_wf_def by fastforce
  ultimately have "sorted_wrt (\<lambda>a b. gv_end a \<le> gv_start b) vmas'"
    by (rule sorted_wrt_refine)
  then show "vmas_wf vmas'"
    using assms(1) reg(1) by (auto simp: vmas_wf_def set)
qed

lemma register_vma_not_Panic [simp]: "register_vma vmas vma \<noteq> Panic"
  by (simp add: register_vma_def split: option.splits)

section \<open>Regions\<close>

lemma region_new_Ok:
  "region_new start bytes = Ok r \<longleftrightarrow>
     gr_start r = start \<and> unat (gr_end r) = unat start + length bytes \<and> gr_bytes r = bytes"
proof
  assume "region_new start bytes = Ok r"
  then show "gr_start r = start \<and> unat (gr_end r) = unat start + length bytes \<and> gr_bytes r = bytes"
    by (auto simp: region_new_def result_simps checked_simps)
next
  assume r: "gr_start r = start \<and> unat (gr_end r) = unat start + length bytes \<and> gr_bytes r = bytes"
  then have "length bytes \<le> unat (gr_end r)" by simp
  then have "length bytes < 2 ^ 64" by (rule le_less_trans) simp
  then have "u64_try_from (length bytes) = Some (of_nat (length bytes))"
    "unat (of_nat (length bytes) :: u64) = length bytes"
    by (simp_all add: u64_try_from_def unat_of_nat)
  moreover from this r have "checked_add start (of_nat (length bytes)) = Some (gr_end r)"
    by (simp add: checked_add_Some)
  ultimately show "region_new start bytes = Ok r"
    using r by (simp add: region_new_def)
qed

lemma region_new_not_Panic [simp]: "region_new start bytes \<noteq> Panic"
  by (auto simp: region_new_def result_simps)

lemma relocated_image_address_Ok [result_simps]:
  "relocated_image_address a b = Ok c \<longleftrightarrow> unat c = unat a + unat b"
  by (simp add: relocated_image_address_def result_simps checked_add_Some)

lemma relocated_image_address_not_Panic [simp]: "relocated_image_address a b \<noteq> Panic"
  by (simp add: relocated_image_address_def)

text \<open>Regions and areas describe the same ranges.\<close>

definition parts_wf :: "image_parts \<Rightarrow> bool" where
  "parts_wf parts \<longleftrightarrow>
     vmas_wf (fst parts)
   \<and> mset (map (\<lambda>r. (gr_start r, gr_end r)) (snd parts))
       = mset (map (\<lambda>v. (gv_start v, gv_end v)) (fst parts))
   \<and> (\<forall>r \<in> set (snd parts). unat (gr_end r) = unat (gr_start r) + length (gr_bytes r))"

lemma parts_wf_empty [simp]: "parts_wf ([], [])"
  by (simp add: parts_wf_def vmas_wf_def)

lemma parts_wf_add:
  assumes "parts_wf (vmas, regions)" "register_vma vmas vma = Ok vmas'"
    and "region_new (gv_start vma) bytes = Ok region"
    and "unat (gv_start vma) + length bytes = unat (gv_end vma)"
  shows "parts_wf (vmas', regions @ [region])"
proof -
  have "gr_end region = gv_end vma"
    using assms(3,4) by (simp add: region_new_Ok word_unat_eq_iff)
  then show ?thesis
    using assms register_vma_Ok(3) [OF assms(2)] register_vma_wf(1) [OF _ assms(2)]
    by (auto simp: parts_wf_def region_new_Ok)
qed

section \<open>Mapping the segments\<close>

definition mapping_size :: "load_segment \<Rightarrow> nat" where
  "mapping_size seg = unat (mm_end (ls_mapping seg)) - unat (mm_start (ls_mapping seg))"

definition mapping_bytes :: "u8 list \<Rightarrow> load_segment \<Rightarrow> u8 list" where
  "mapping_bytes elf seg =
     take (unat (mm_file_size (ls_mapping seg))) (drop (unat (mm_file_offset (ls_mapping seg))) elf)
     @ replicate (mapping_size seg - unat (mm_file_size (ls_mapping seg))) 0"

definition region_for :: "u8 list \<Rightarrow> u64 \<Rightarrow> load_segment \<Rightarrow> guest_memory_region \<Rightarrow> bool" where
  "region_for elf bias seg r \<longleftrightarrow>
     unat (gr_start r) = unat (mm_start (ls_mapping seg)) + unat bias
   \<and> gr_bytes r = mapping_bytes elf seg
   \<and> unat (mm_file_size (ls_mapping seg)) \<le> mapping_size seg
   \<and> unat (mm_file_offset (ls_mapping seg)) + unat (mm_file_size (ls_mapping seg)) \<le> length elf"

lemma read_segment_mapping_bytes_Ok [result_simps]:
  "read_segment_mapping_bytes elf i fo fs = Ok bs \<longleftrightarrow>
     unat fo + unat fs < 2 ^ 64 \<and> unat fo + unat fs \<le> length elf
     \<and> bs = take (unat fs) (drop (unat fo) elf)"
  by (auto simp: read_segment_mapping_bytes_def result_simps checked_add_def unat_add_small ok_or_def)

lemma read_segment_mapping_bytes_not_Panic [simp]:
  "read_segment_mapping_bytes elf i fo fs \<noteq> Panic"
  by (auto simp: read_segment_mapping_bytes_def result_simps checked_simps slice_Panic)

lemma splice_zeros:
  "length ys \<le> n \<Longrightarrow> splice 0 ys (replicate n 0) = ys @ replicate (n - length ys) 0"
  by (simp add: splice_def)

lemma map_segment_Ok:
  assumes "map_segment elf bias kind seg (vmas, regions) = Ok (vmas', regions')"
    and wf: "parts_wf (vmas, regions)"
  shows "parts_wf (vmas', regions')"
    and "\<exists>r. regions' = regions @ [r] \<and> region_for elf bias seg r"
proof -
  let ?m = "ls_mapping seg"
  obtain ms me bytes region and size :: u64 where
      ms: "unat ms = unat (mm_start ?m) + unat bias" and me: "unat me = unat (mm_end ?m) + unat bias"
    and rd: "unat (mm_file_offset ?m) + unat (mm_file_size ?m) \<le> length elf"
    and sz: "unat (mm_end ?m) = unat (mm_start ?m) + unat size"
    and wr: "write_slice (replicate (unat size) 0) 0 (length (take (unat (mm_file_size ?m))
        (drop (unat (mm_file_offset ?m)) elf))) (take (unat (mm_file_size ?m))
        (drop (unat (mm_file_offset ?m)) elf)) = (Ok bytes :: u8 list image_result)"
    and reg: "register_vma vmas \<lparr>gv_start = ms, gv_end = me, gv_permissions = mm_permissions ?m,
        gv_kind = kind seg\<rparr> = Ok vmas'"
    and new: "region_new ms bytes = Ok region" and r: "regions' = regions @ [region]"
    using assms(1) by (auto simp: map_segment_def Let_def result_simps)
  let ?file = "take (unat (mm_file_size ?m)) (drop (unat (mm_file_offset ?m)) elf)"
  have flen: "length ?file = unat (mm_file_size ?m)" using rd by simp
  have fit: "unat (mm_file_size ?m) \<le> unat size" and "bytes = splice 0 ?file (replicate (unat size) 0)"
    using wr unfolding write_slice_Ok flen by simp_all
  then have bytes: "bytes = ?file @ replicate (unat size - unat (mm_file_size ?m)) 0"
    using splice_zeros [of ?file "unat size"] flen by simp
  have "length bytes = unat size" using bytes flen fit by simp
  then show "parts_wf (vmas', regions')"
    using parts_wf_add [OF wf reg, of bytes region] new ms me sz by (simp add: r)
  show "\<exists>r. regions' = regions @ [r] \<and> region_for elf bias seg r"
    using r new ms sz bytes fit rd
    by (auto simp: region_for_def region_new_Ok mapping_bytes_def mapping_size_def)
qed

lemma map_segments_Ok:
  assumes "map_segments elf bias kind segs (vmas, regions) = Ok (vmas', regions')"
    and "parts_wf (vmas, regions)"
  shows "parts_wf (vmas', regions')
    \<and> (\<exists>new. regions' = regions @ new \<and> list_all2 (region_for elf bias) segs new)"
  using assms
proof (induction segs arbitrary: vmas regions)
  case (Cons seg segs)
  then obtain v1 r1 where step: "map_segment elf bias kind seg (vmas, regions) = Ok (v1, r1)"
    and rest: "map_segments elf bias kind segs (v1, r1) = Ok (vmas', regions')"
    by (auto simp: result_simps)
  show ?case
    using map_segment_Ok [OF step Cons.prems(2)] Cons.IH [OF rest] by force
qed simp

lemma map_segment_not_Panic:
  assumes "segment_wf len seg" "mapping_size seg \<le> ISIZE_MAX" "len = length elf"
  shows "map_segment elf bias kind seg parts \<noteq> Panic"
proof -
  have "unat (mm_file_size (ls_mapping seg)) \<le> mapping_size seg"
    "unat (mm_start (ls_mapping seg)) \<le> unat (mm_end (ls_mapping seg))"
    using assms(1) by (auto simp: segment_wf_def mapping_size_def)
  then show ?thesis
    using assms
    by (auto simp: map_segment_def Let_def result_simps write_slice_Panic mapping_size_def
        split: prod.splits)
qed

lemma map_segments_not_Panic:
  assumes "list_all (segment_wf (length elf)) segs" "\<forall>seg \<in> set segs. mapping_size seg \<le> ISIZE_MAX"
  shows "map_segments elf bias kind segs parts \<noteq> Panic"
  using assms
  by (induction segs arbitrary: parts) (auto simp: result_simps dest: map_segment_not_Panic)

lemma map_stack_Ok:
  assumes "map_stack stack (vmas, regions) = Ok (vmas', regions')" "parts_wf (vmas, regions)"
  shows "parts_wf (vmas', regions')"
    and "\<exists>r. regions' = regions @ [r]
      \<and> unat (is_stack_top stack) = unat (gr_start r) + unat (is_stack_size stack)
      \<and> unat (gr_start r) \<le> unat (is_stack_pointer stack)
      \<and> take (length (is_bytes stack))
          (drop (unat (is_stack_pointer stack) - unat (gr_start r)) (gr_bytes r)) = is_bytes stack"
proof -
  obtain base bytes region and off :: u64 where
      base: "unat (is_stack_top stack) = unat (is_stack_size stack) + unat base"
    and off: "unat (is_stack_pointer stack) = unat base + unat off"
    and wr: "unat off + length (is_bytes stack) \<le> unat (is_stack_size stack)"
      "bytes = splice (unat off) (is_bytes stack) (replicate (unat (is_stack_size stack)) 0)"
    and reg: "register_vma vmas \<lparr>gv_start = base, gv_end = is_stack_top stack,
        gv_permissions = \<lparr>perm_read = True, perm_write = True, perm_execute = False\<rparr>,
        gv_kind = Stack\<rparr> = Ok vmas'"
    and new: "region_new base bytes = Ok region" and r: "regions' = regions @ [region]"
    using assms(1)
    by (auto simp: map_stack_def stack_base_def result_simps split: if_splits)
  have "length bytes = unat (is_stack_size stack)" using wr by simp
  then show "parts_wf (vmas', regions')"
    using parts_wf_add [OF assms(2) reg, of bytes region] new base by (simp add: r)
  have "take (length (is_bytes stack)) (drop (unat off) bytes) = is_bytes stack"
    using take_drop_splice_same [of "unat off" "is_bytes stack" "replicate (unat (is_stack_size stack)) 0"]
      wr by simp
  then show "\<exists>r. regions' = regions @ [r]
      \<and> unat (is_stack_top stack) = unat (gr_start r) + unat (is_stack_size stack)
      \<and> unat (gr_start r) \<le> unat (is_stack_pointer stack)
      \<and> take (length (is_bytes stack))
          (drop (unat (is_stack_pointer stack) - unat (gr_start r)) (gr_bytes r)) = is_bytes stack"
    using r new base off by (auto simp: region_new_Ok)
qed

section \<open>The finished image\<close>

abbreviation region_range :: "guest_memory_region \<Rightarrow> u64 \<times> u64" where
  "region_range r \<equiv> (gr_start r, gr_end r)"

abbreviation vma_range :: "guest_vma \<Rightarrow> u64 \<times> u64" where
  "vma_range v \<equiv> (gv_start v, gv_end v)"

definition image_wf :: "guest_memory_image \<Rightarrow> bool" where
  "image_wf img \<longleftrightarrow>
     vmas_wf (gi_vmas img)
   \<and> map region_range (gi_regions img) = map vma_range (gi_vmas img)
   \<and> (\<forall>r \<in> set (gi_regions img). unat (gr_end r) = unat (gr_start r) + length (gr_bytes r))"

lemma vmas_wf_ranges:
  assumes "vmas_wf vmas"
  shows "distinct (map vma_range vmas)" "sorted (map gv_start vmas)" "distinct (map gv_start vmas)"
  using assms unfolding vmas_wf_def by (induction vmas) fastforce+

lemma parts_wf_sorted:
  assumes "parts_wf (vmas, regions)"
  shows "map region_range (sort_key gr_start regions) = map vma_range vmas"
proof -
  have m: "mset (map region_range regions) = mset (map vma_range vmas)" and wf: "vmas_wf vmas"
    using assms by (simp_all add: parts_wf_def)
  let ?rs = "sort_key gr_start regions"
  have ranges: "mset (map region_range ?rs) = mset (map vma_range vmas)"
    using m by simp
  have "mset (map gr_start ?rs) = image_mset fst (mset (map region_range ?rs))"
    by (simp add: image_mset.compositionality comp_def)
  also have "\<dots> = mset (map gv_start vmas)"
    unfolding ranges by (simp add: image_mset.compositionality comp_def)
  finally have starts: "mset (map gr_start ?rs) = mset (map gv_start vmas)" .
  show ?thesis
  proof (rule map_sorted_distinct_set_unique [of fst])
    show "set (map region_range ?rs) = set (map vma_range vmas)"
      using mset_eq_setD [OF ranges] .
    then show "inj_on fst (set (map region_range ?rs) \<union> set (map vma_range vmas))"
      using vmas_wf_ranges(3) [OF wf] by (auto simp: distinct_map inj_on_def)
    show "distinct (map fst (map region_range ?rs))"
      using mset_eq_imp_distinct_iff [OF starts] vmas_wf_ranges(3) [OF wf] by (simp add: comp_def)
    show "distinct (map fst (map vma_range vmas))" "sorted (map fst (map vma_range vmas))"
      using vmas_wf_ranges [OF wf] by (simp_all add: comp_def)
    show "sorted (map fst (map region_range ?rs))"
      by (simp add: comp_def)
  qed
qed

lemma load_interpreter_image_Ok:
  assumes "load_interpreter_image interp plan bytes bias (vmas, regions) = Ok (loaded, parts)"
    and "parts_wf (vmas, regions)"
  shows "parts_wf parts"
  using assms map_segments_Ok
  by (fastforce simp: load_interpreter_image_def result_simps split: if_splits)

lemma load_interpreter_step_Ok:
  assumes "load_interpreter_step plan bytes = Ok (interp, parts)"
  shows "parts_wf parts"
  using assms load_interpreter_image_Ok
  by (fastforce simp: load_interpreter_step_def result_simps split: option.splits)

definition stack_config_for ::
  "load_plan \<Rightarrow> loaded_interpreter option \<Rightarrow> initial_stack_config \<Rightarrow> initial_stack_config" where
  "stack_config_for plan interp config =
     with_interpreter_base (case interp of None \<Rightarrow> 0 | Some i \<Rightarrow> li_load_bias i)
       (with_executable_load_bias (executable_load_bias plan) config)"

lemma build_image_steps:
  assumes "build_guest_memory_image_with_interpreter plan elf ibytes config = Ok img"
  obtains v2 r2 new r0 r where
    "parts_wf (v2, r2)" "gi_vmas img = v2" "gi_regions img = sort_key gr_start r2"
    "r2 = r0 @ new @ [r]"
    "list_all2 (region_for elf (executable_load_bias plan)) (lp_segments plan) new"
    "build_initial_stack plan (stack_config_for plan (gi_interpreter img) config)
       = Ok (gi_initial_stack img)"
    "unat (is_stack_top (gi_initial_stack img))
       = unat (gr_start r) + unat (is_stack_size (gi_initial_stack img))"
    "unat (gr_start r) \<le> unat (is_stack_pointer (gi_initial_stack img))"
    "take (length (is_bytes (gi_initial_stack img)))
       (drop (unat (is_stack_pointer (gi_initial_stack img)) - unat (gr_start r)) (gr_bytes r))
       = is_bytes (gi_initial_stack img)"
    "gi_executable_load_bias img = executable_load_bias plan"
    "gi_initial_stack_pointer img = is_stack_pointer (gi_initial_stack img)"
proof -
  let ?kind = "\<lambda>segment. ElfLoad (ls_program_header_index segment)
    (mm_file_offset (ls_mapping segment)) (mm_file_size (ls_mapping segment))"
  obtain interp v0 r0 v1 r1 stack v2 r2 own ends where
      0: "load_interpreter_step plan ibytes = Ok (interp, v0, r0)"
    and 1: "map_segments elf (executable_load_bias plan) ?kind (lp_segments plan) (v0, r0) = Ok (v1, r1)"
    and 2: "build_initial_stack plan (stack_config_for plan interp config) = Ok stack"
    and 3: "map_stack stack (v1, r1) = Ok (v2, r2)"
    and img: "img = \<lparr>gi_entrypoint = (case interp of None \<Rightarrow> own | Some i \<Rightarrow> li_entrypoint i),
         gi_initial_stack_pointer = is_stack_pointer stack, gi_initial_stack = stack,
         gi_executable_load_bias = executable_load_bias plan, gi_interpreter = interp,
         gi_brk = max_or_zero ends, gi_vmas = v2, gi_regions = sort_key gr_start r2\<rparr>"
    using assms
    by (fastforce simp: build_guest_memory_image_with_interpreter_def Let_def result_simps
        stack_config_for_def split: prod.splits)
  obtain new where new: "parts_wf (v1, r1)" "r1 = r0 @ new"
    "list_all2 (region_for elf (executable_load_bias plan)) (lp_segments plan) new"
    using map_segments_Ok [OF 1 load_interpreter_step_Ok [OF 0]] by blast
  obtain r where "r2 = r1 @ [r]" "unat (is_stack_top stack) = unat (gr_start r) + unat (is_stack_size stack)"
    "unat (gr_start r) \<le> unat (is_stack_pointer stack)"
    "take (length (is_bytes stack))
       (drop (unat (is_stack_pointer stack) - unat (gr_start r)) (gr_bytes r)) = is_bytes stack"
    using map_stack_Ok(2) [OF 3 new(1)] by blast
  then show thesis
    using that [of v2 r2 r0 new r] map_stack_Ok(1) [OF 3 new(1)] new 2 by (simp add: img)
qed

lemma build_image_wf:
  assumes "build_guest_memory_image_with_interpreter plan elf ibytes config = Ok img"
  shows "image_wf img"
  using assms
proof (rule build_image_steps)
  fix v2 r2
  assume "parts_wf (v2, r2)" "gi_vmas img = v2" "gi_regions img = sort_key gr_start r2"
  then show ?thesis
    using parts_wf_sorted by (simp add: image_wf_def) (simp add: parts_wf_def)
qed

section \<open>Reading the image\<close>

lemma take_drop_append_zeros:
  assumes "length xs = f" "off + n \<le> f + k"
  shows "take n (drop off (xs @ replicate k 0))
    = take n (drop off xs) @ replicate (n - (f - off)) 0"
  using assms by (auto simp: min_def)

lemma region_unique:
  assumes wf: "image_wf img" and r: "r1 \<in> set (gi_regions img)" "r2 \<in> set (gi_regions img)"
    and a: "gr_start r1 \<le> a" "a < gr_end r1" "gr_start r2 \<le> a" "a < gr_end r2"
  shows "r1 = r2"
proof -
  have eq: "map region_range (gi_regions img) = map vma_range (gi_vmas img)" and
    vwf: "vmas_wf (gi_vmas img)" using wf by (simp_all add: image_wf_def)
  have "region_range r1 \<in> set (map vma_range (gi_vmas img))"
    "region_range r2 \<in> set (map vma_range (gi_vmas img))"
    using r unfolding eq [symmetric] by (simp_all del: prod.inject)
  then obtain v1 v2 where v: "v1 \<in> set (gi_vmas img)" "v2 \<in> set (gi_vmas img)"
    "vma_range v1 = region_range r1" "vma_range v2 = region_range r2"
    by auto
  have "v1 = v2"
  proof (rule ccontr)
    assume "v1 \<noteq> v2"
    then show False
      using vmas_wf_pairwise [OF vwf v(1,2)] v(3,4) a by auto
  qed
  then have same: "region_range r1 = region_range r2" using v by simp
  have "distinct (map region_range (gi_regions img))"
    using vmas_wf_ranges(1) [OF vwf] eq by simp
  then have "inj_on region_range (set (gi_regions img))"
    by (simp add: distinct_map)
  with same r show ?thesis by (auto dest: inj_onD)
qed

lemma image_read_region:
  assumes wf: "image_wf img" and r: "r \<in> set (gi_regions img)"
    and a: "unat (gr_start r) \<le> unat a" "unat a + n \<le> unat (gr_end r)" "0 < n"
  shows "image_read img a n = Ok (Some (take n (drop (unat a - unat (gr_start r)) (gr_bytes r))))"
proof -
  have lt: "unat a + n < 2 ^ 64" by (rule le_less_trans [OF a(2)]) simp
  then have u: "unat (of_nat n :: u64) = n" by (simp add: unat_of_nat)
  then have bind: "Option.bind (u64_try_from n) (checked_add a) = Some (a + of_nat n)"
    and en: "unat (a + of_nat n) = unat a + n"
    using lt by (simp_all add: u64_try_from_def checked_add_def unat_add_small)
  let ?P = "\<lambda>region. gr_start region \<le> a \<and> a + of_nat n \<le> gr_end region"
  have "?P r" using a en by (simp add: word_le_nat_alt)
  then obtain r' where r': "List.find ?P (gi_regions img) = Some r'"
    using r by (cases "List.find ?P (gi_regions img)") (auto simp: find_None_iff)
  then have "r' \<in> set (gi_regions img)" "?P r'"
    by (auto dest: find_Some_iff_take)
  then have "r' = r"
    using region_unique [OF wf _ r, of r' a] a en
    by (simp add: word_le_nat_alt word_less_nat_alt)
  moreover have len: "unat (gr_end r) = unat (gr_start r) + length (gr_bytes r)"
    using wf r by (simp add: image_wf_def)
  ultimately have "unat a - unat (gr_start r) + n \<le> length (gr_bytes r)"
    "unat a - unat (gr_start r) + n < 2 ^ 64"
    using a lt by linarith+
  with \<open>r' = r\<close> show ?thesis
    using bind r' by (simp add: image_read_def slice_def sub_or_panic_le [OF a(1)] del: Nat.add_diff_assoc2)
qed

lemma segment_bytes_in_mapping:
  assumes wf: "segment_wf (length elf) seg" and n: "off + n \<le> unat (ls_memory_size seg)"
  shows "take n (drop (unat (ls_virtual_address seg) - unat (mm_start (ls_mapping seg)) + off)
      (mapping_bytes elf seg))
    = take n (drop off (take (unat (ls_file_size seg)) (drop (unat (ls_file_offset seg)) elf)
        @ replicate (unat (ls_memory_size seg) - unat (ls_file_size seg)) 0))"
proof -
  define d where "d = unat (ls_virtual_address seg) - unat (mm_start (ls_mapping seg))"
  define f where "f = unat (ls_file_size seg)"
  let ?m = "ls_mapping seg"
  have d: "unat (mm_file_size ?m) = f + d" "unat (mm_file_offset ?m) + d = unat (ls_file_offset seg)"
    and big: "d + unat (ls_memory_size seg) \<le> mapping_size seg" and fm: "f \<le> unat (ls_memory_size seg)"
    and len: "unat (ls_file_offset seg) + f \<le> length elf"
    using wf by (auto simp: segment_wf_def d_def f_def mapping_size_def)
  let ?file = "take f (drop (unat (ls_file_offset seg)) elf)"
  have flen: "length ?file = f" using len by simp
  have "drop d (take (f + d) (drop (unat (mm_file_offset ?m)) elf)) = ?file"
    using d(2) by (simp add: drop_take add.commute)
  moreover have "length (take (f + d) (drop (unat (mm_file_offset ?m)) elf)) = f + d"
    using d(2) len by simp
  ultimately have "drop d (mapping_bytes elf seg) = ?file @ replicate (mapping_size seg - (f + d)) 0"
    by (simp add: mapping_bytes_def d(1))
  then have dr: "drop (d + off) (mapping_bytes elf seg)
      = drop off (?file @ replicate (mapping_size seg - (f + d)) 0)"
    by (metis add.commute drop_drop)
  have "off + n \<le> f + (mapping_size seg - (f + d))" "off + n \<le> f + (unat (ls_memory_size seg) - f)"
    using n big fm by linarith+
  then show ?thesis
    unfolding d_def [symmetric] f_def [symmetric] dr
    by (simp only: take_drop_append_zeros [OF flen])
qed

section \<open>Areas of the segments\<close>

definition vma_for :: "u64 \<Rightarrow> (load_segment \<Rightarrow> guest_vma_kind) \<Rightarrow> load_segment \<Rightarrow> guest_vma \<Rightarrow> bool" where
  "vma_for bias kind seg v \<longleftrightarrow>
     unat (gv_start v) = unat (mm_start (ls_mapping seg)) + unat bias
   \<and> unat (gv_end v) = unat (mm_end (ls_mapping seg)) + unat bias
   \<and> gv_permissions v = mm_permissions (ls_mapping seg) \<and> gv_kind v = kind seg"

lemma map_segment_vma:
  assumes "map_segment elf bias kind seg (vmas, regions) = Ok (vmas', regions')"
  shows "\<exists>v. vma_for bias kind seg v \<and> set vmas' = insert v (set vmas)"
proof -
  let ?m = "ls_mapping seg"
  obtain ms me where "unat ms = unat (mm_start ?m) + unat bias" "unat me = unat (mm_end ?m) + unat bias"
    and reg: "register_vma vmas \<lparr>gv_start = ms, gv_end = me, gv_permissions = mm_permissions ?m,
        gv_kind = kind seg\<rparr> = Ok vmas'"
    using assms by (auto simp: map_segment_def Let_def result_simps)
  then show ?thesis
    by (intro exI [of _ "\<lparr>gv_start = ms, gv_end = me, gv_permissions = mm_permissions ?m,
        gv_kind = kind seg\<rparr>"]) (simp add: vma_for_def register_vma_Ok(3) [OF reg])
qed

lemma map_segments_vmas:
  assumes "map_segments elf bias kind segs (vmas, regions) = Ok (vmas', regions')"
  shows "set vmas \<subseteq> set vmas' \<and> (\<forall>seg \<in> set segs. \<exists>v \<in> set vmas'. vma_for bias kind seg v)"
  using assms
proof (induction segs arbitrary: vmas regions)
  case (Cons seg segs)
  then obtain v1 r1 where step: "map_segment elf bias kind seg (vmas, regions) = Ok (v1, r1)"
    and rest: "map_segments elf bias kind segs (v1, r1) = Ok (vmas', regions')"
    by (auto simp: result_simps)
  show ?case
    using map_segment_vma [OF step] Cons.IH [OF rest] by auto
qed simp

lemma map_stack_vmas:
  assumes "map_stack stack (vmas, regions) = Ok (vmas', regions')"
  shows "set vmas \<subseteq> set vmas'"
  using assms register_vma_Ok(3)
  by (fastforce simp: map_stack_def result_simps split: if_splits)

text \<open>An address of a segment lies in the area of that segment, with the segment's permissions.\<close>

lemma vma_for_contains:
  assumes "vma_for bias kind seg v" "segment_wf len seg" "unat a = unat x + unat bias"
    and "unat (ls_virtual_address seg) \<le> unat x"
    and "unat x < unat (ls_virtual_address seg) + unat (ls_memory_size seg)"
  shows "gv_start v \<le> a \<and> a < gv_end v \<and> gv_permissions v = ls_permissions seg"
  using assms by (auto simp: vma_for_def segment_wf_def word_le_nat_alt word_less_nat_alt)

lemma entrypoint_in_segments:
  assumes "plan_wf bytes plan"
    and "map_segments elf bias kind (lp_segments plan) (vmas, regions) = Ok (vmas', regions')"
    and "unat a = unat (lp_entrypoint plan) + unat bias"
  shows "\<exists>v \<in> set vmas'. perm_execute (gv_permissions v) \<and> gv_start v \<le> a \<and> a < gv_end v"
proof -
  obtain seg where seg: "seg \<in> set (lp_segments plan)" "perm_execute (ls_permissions seg)"
    "unat (ls_virtual_address seg) \<le> unat (lp_entrypoint plan)"
    "unat (lp_entrypoint plan) < unat (ls_virtual_address seg) + unat (ls_memory_size seg)"
    and wf: "segment_wf (length bytes) seg"
    using assms(1) by (auto simp: plan_wf_def list_all_iff)
  obtain v where v: "v \<in> set vmas'" "vma_for bias kind seg v"
    using map_segments_vmas [OF assms(2)] seg(1) by blast
  show ?thesis
    using vma_for_contains [OF v(2) wf assms(3) seg(3,4)] seg(2) v(1)
    by (intro bexI [of _ v]) simp_all
qed

lemma load_interpreter_step_entry:
  assumes "load_interpreter_step plan ibytes = Ok (Some loaded, vmas, regions)"
  shows "\<exists>v \<in> set vmas. perm_execute (gv_permissions v)
    \<and> gv_start v \<le> li_entrypoint loaded \<and> li_entrypoint loaded < gv_end v"
proof -
  obtain interp bytes iplan where parse: "parse_load_plan bytes = Ok iplan"
    and load: "load_interpreter_image interp iplan bytes DEFAULT_INTERPRETER_LOAD_BASE ([], [])
      = Ok (loaded, vmas, regions)"
    using assms by (auto simp: load_interpreter_step_def result_simps split: option.splits)
  let ?kind = "\<lambda>segment. InterpreterLoad (interp_path interp) (ls_program_header_index segment)
    (mm_file_offset (ls_mapping segment)) (mm_file_size (ls_mapping segment))"
  have "map_segments bytes DEFAULT_INTERPRETER_LOAD_BASE ?kind (lp_segments iplan) ([], [])
      = Ok (vmas, regions)"
    "unat (li_entrypoint loaded) = unat (lp_entrypoint iplan) + unat DEFAULT_INTERPRETER_LOAD_BASE"
    using load by (auto simp: load_interpreter_image_def result_simps split: if_splits)
  then show ?thesis
    using entrypoint_in_segments [OF parse_load_plan_wf [OF parse]] by blast
qed

lemma build_image_entry:
  assumes parse: "parse_load_plan elf = Ok plan"
    and "build_guest_memory_image_with_interpreter plan elf ibytes config = Ok img"
  shows "\<exists>v \<in> set (gi_vmas img). perm_execute (gv_permissions v)
    \<and> gv_start v \<le> gi_entrypoint img \<and> gi_entrypoint img < gv_end v"
proof -
  let ?kind = "\<lambda>segment. ElfLoad (ls_program_header_index segment)
    (mm_file_offset (ls_mapping segment)) (mm_file_size (ls_mapping segment))"
  obtain interp v0 r0 v1 r1 stack r2 own where
      0: "load_interpreter_step plan ibytes = Ok (interp, v0, r0)"
    and 1: "map_segments elf (executable_load_bias plan) ?kind (lp_segments plan) (v0, r0) = Ok (v1, r1)"
    and 3: "map_stack stack (v1, r1) = Ok (gi_vmas img, r2)"
    and own: "unat own = unat (lp_entrypoint plan) + unat (executable_load_bias plan)"
    and entry: "gi_entrypoint img = (case interp of None \<Rightarrow> own | Some i \<Rightarrow> li_entrypoint i)"
    using assms(2)
    by (fastforce simp: build_guest_memory_image_with_interpreter_def Let_def result_simps
        split: prod.splits)
  have "set v0 \<subseteq> set v1" "set v1 \<subseteq> set (gi_vmas img)"
    using map_segments_vmas [OF 1] map_stack_vmas [OF 3] by auto
  moreover have "\<exists>v \<in> set v1. perm_execute (gv_permissions v) \<and> gv_start v \<le> own \<and> own < gv_end v"
    using entrypoint_in_segments [OF parse_load_plan_wf [OF parse] 1 own] .
  ultimately show ?thesis
    using load_interpreter_step_entry [of plan ibytes _ v0 r0] 0 entry
    by (cases interp) fastforce+
qed

section \<open>Panics while building the image\<close>

definition mappings_fit :: "load_plan \<Rightarrow> bool" where
  "mappings_fit plan \<longleftrightarrow> (\<forall>seg \<in> set (lp_segments plan). mapping_size seg \<le> ISIZE_MAX)"

lemma map_plan_not_Panic:
  assumes "parse_load_plan elf = Ok plan" "mappings_fit plan"
  shows "map_segments elf bias kind (lp_segments plan) parts \<noteq> Panic"
  using assms parse_load_plan_wf [OF assms(1)]
  by (intro map_segments_not_Panic) (auto simp: plan_wf_def mappings_fit_def)

lemma load_interpreter_image_not_Panic:
  assumes "parse_load_plan bytes = Ok plan" "mappings_fit plan"
  shows "load_interpreter_image interp plan bytes bias parts \<noteq> Panic"
  using map_plan_not_Panic [OF assms]
  by (auto simp: load_interpreter_image_def result_simps split: option.splits)

lemma map_stack_not_Panic:
  assumes "stack_layout plan config s" "unat (is_stack_size s) \<le> ISIZE_MAX"
  shows "map_stack s parts \<noteq> Panic"
  using assms
  by (auto simp: map_stack_def stack_base_def result_simps write_slice_Panic stack_layout_def
      split: prod.splits)

lemma build_image_not_Panic:
  assumes parse: "parse_load_plan elf = Ok plan" and fit: "mappings_fit plan"
    and ifit: "\<And>bytes iplan. lp_interpreter plan \<noteq> None \<Longrightarrow> ibytes = Some bytes \<Longrightarrow>
      parse_load_plan bytes = Ok iplan \<Longrightarrow> mappings_fit iplan"
    and cfg: "config_typed config" "unat (sc_stack_size config) \<le> ISIZE_MAX"
  shows "build_guest_memory_image_with_interpreter plan elf ibytes config \<noteq> Panic"
proof -
  have pnp: "parse_load_plan bytes \<noteq> Panic" for bytes
    by (rule parse_load_plan_not_Panic)
  then have interp: "load_interpreter_step plan ibytes \<noteq> Panic"
    using ifit load_interpreter_image_not_Panic
    by (auto simp: load_interpreter_step_def result_simps split: option.splits)
  have cfg': "config_typed (with_interpreter_base b (with_executable_load_bias c config))"
    "unat (sc_stack_size (with_interpreter_base b (with_executable_load_bias c config))) \<le> ISIZE_MAX"
    for b c
    using cfg by (simp_all add: config_typed_def with_interpreter_base_def with_executable_load_bias_def)
  have "map_stack s parts \<noteq> Panic"
    if "build_initial_stack plan (with_interpreter_base b (with_executable_load_bias c config)) = Ok s"
    for s parts b c
    using map_stack_not_Panic [OF build_initial_stack_layout [OF cfg' that]]
      build_initial_stack_layout [OF cfg' that] cfg'
    by (simp add: stack_layout_def)
  moreover have "collect_results (\<lambda>segment. relocated_image_address (mm_end (ls_mapping segment)) b) segs \<noteq> Panic"
    for b and segs :: "load_segment list"
    by (rule collect_results_not_Panic) simp
  ultimately show ?thesis
    using interp map_plan_not_Panic [OF parse fit] build_initial_stack_not_Panic [OF cfg']
    by (auto simp: build_guest_memory_image_with_interpreter_def Let_def result_simps
        split: prod.splits)
qed

text \<open>What was loaded once can be loaded again: the allocations succeeded.\<close>

lemma map_segment_fit:
  assumes "map_segment elf bias kind seg parts = Ok parts'"
  shows "mapping_size seg \<le> ISIZE_MAX"
proof -
  obtain size :: u64 where "unat (mm_end (ls_mapping seg)) = unat (mm_start (ls_mapping seg)) + unat size"
    "unat size \<le> ISIZE_MAX"
    using assms by (auto simp: map_segment_def Let_def result_simps split: prod.splits)
  then show ?thesis by (simp add: mapping_size_def)
qed

lemma map_segments_fit:
  assumes "map_segments elf bias kind segs parts = Ok parts'"
  shows "\<forall>seg \<in> set segs. mapping_size seg \<le> ISIZE_MAX"
  using assms by (induction segs arbitrary: parts) (auto simp: result_simps dest: map_segment_fit)

lemma build_image_fits:
  assumes "build_guest_memory_image_with_interpreter plan elf ibytes config = Ok img"
  shows "mappings_fit plan"
    and "lp_interpreter plan \<noteq> None \<Longrightarrow> ibytes = Some bytes \<Longrightarrow> parse_load_plan bytes = Ok iplan \<Longrightarrow>
      mappings_fit iplan"
  using assms
  by (auto simp: build_guest_memory_image_with_interpreter_def Let_def result_simps mappings_fit_def
      load_interpreter_step_def load_interpreter_image_def ok_or_def
      split: prod.splits option.splits if_splits dest!: map_segments_fit)

lemma build_image_again:
  assumes "parse_load_plan elf = Ok plan"
    and "build_guest_memory_image_with_interpreter plan elf ibytes config = Ok img"
    and "config_typed config'" "unat (sc_stack_size config') \<le> ISIZE_MAX"
  shows "build_guest_memory_image_with_interpreter plan elf ibytes config' \<noteq> Panic"
  using build_image_not_Panic [OF assms(1) build_image_fits(1) [OF assms(2)]] build_image_fits(2) [OF assms(2)]
    assms(3,4) by blast

text \<open>A file whose only segment asks for \<open>2 ^ 63\<close> bytes of zero-initialised memory.\<close>

definition huge_segment_elf :: "u8 list" where
  "huge_segment_elf = [
    127, 69, 76, 70, 2, 1, 1, 0, 0, 0, 0, 0, 0, 0, 0, 0, 2, 0, 62, 0, 1, 0, 0, 0, 112, 0, 64,
    0, 0, 0, 0, 0, 64, 0, 0, 0, 0, 0, 0, 0, 0, 0, 0, 0, 0, 0, 0, 0, 0, 0, 0, 0, 64, 0, 56, 0,
    1, 0, 0, 0, 0, 0, 0, 0, 1, 0, 0, 0, 5, 0, 0, 0, 0, 0, 0, 0, 0, 0, 0, 0, 0, 0, 64, 0, 0, 0,
    0, 0, 0, 0, 64, 0, 0, 0, 0, 0, 120, 0, 0, 0, 0, 0, 0, 0, 0, 0, 0, 0, 0, 0, 0, 128, 0, 16,
    0, 0, 0, 0, 0, 0]"

lemma huge_ident: "validate_ident huge_segment_elf = Ok ()"
  by (simp add: validate_ident_def elf_eval huge_segment_elf_def)

lemma huge_header: "elf_header_parse huge_segment_elf =
  Ok \<lparr>eh_object_type = 2, eh_machine = 62, eh_version = 1, eh_entrypoint = 0x400070,
      eh_program_header_offset = 64, eh_header_size = 64, eh_program_header_entry_size = 56,
      eh_program_header_count = 1\<rparr>"
  by (simp add: elf_header_parse_def elf_eval huge_segment_elf_def)

lemma huge_phdr: "raw_program_header_parse 0 huge_segment_elf 64 =
  Ok \<lparr>rh_index = 0, rh_header_type = 1, rh_flags = 5, rh_file_offset = 0,
      rh_virtual_address = 0x400000, rh_file_size = 120, rh_memory_size = 0x8000000000000000,
      rh_alignment = 4096\<rparr>"
  by (simp add: raw_program_header_parse_def elf_eval huge_segment_elf_def)

lemma huge_length [simp]: "length huge_segment_elf = 120"
  by (simp add: huge_segment_elf_def)

lemma huge_segment_image:
  "\<exists>plan. parse_load_plan huge_segment_elf = Ok plan
     \<and> build_guest_memory_image plan huge_segment_elf config = Panic"
  by (simp add: parse_load_plan_def huge_ident huge_header huge_phdr segment_eval
      build_guest_memory_image_def build_guest_memory_image_with_interpreter_def Let_def
      load_interpreter_step_def executable_load_bias_def map_segment_def
      relocated_image_address_def read_segment_mapping_bytes_def vec_zero_def ISIZE_MAX_def)

section \<open>Properties of the image\<close>

lemma tiny_segments: "\<exists>vmas regions.
  map_segments tiny_elf 0 kind (lp_segments tiny_plan) ([], []) = Ok (vmas, regions)
  \<and> map (\<lambda>v. (gv_start v, gv_end v)) vmas = [(0x400000, 0x401000)]"
  by (simp add: tiny_plan_def Let_def map_segment_def relocated_image_address_def checked_add_def
      read_segment_mapping_bytes_def slice_def sub_or_panic_def checked_sub_def vec_zero_def
      ISIZE_MAX_def write_slice_def register_vma_def region_new_def u64_try_from_def)

lemma map_stack_succeeds:
  assumes lay: "stack_layout plan config s" and size: "unat (is_stack_size s) \<le> ISIZE_MAX"
    and ne: "0 < unat (is_stack_size s)"
    and free: "\<forall>v \<in> set vmas. unat (is_stack_top s) \<le> unat (gv_start v)
      \<or> unat (gv_end v) \<le> unat (is_stack_top s) - unat (is_stack_size s)"
  shows "\<exists>parts. map_stack s (vmas, regions) = Ok parts"
proof -
  define base where "base = is_stack_top s - is_stack_size s"
  have le: "unat (is_stack_size s) \<le> unat (is_stack_top s)"
    "unat (is_stack_top s) - unat (is_stack_size s) \<le> unat (is_stack_pointer s)"
    "unat (is_stack_pointer s) \<le> unat (is_stack_top s)"
    "length (is_bytes s) = unat (is_stack_top s) - unat (is_stack_pointer s)"
    using lay unfolding stack_layout_def by blast+
  have base: "unat base = unat (is_stack_top s) - unat (is_stack_size s)"
    using sub_or_panic_le(2) [OF le(1)] by (simp add: base_def)
  have reg: "\<exists>vmas'. register_vma vmas \<lparr>gv_start = base, gv_end = is_stack_top s,
        gv_permissions = p, gv_kind = Stack\<rparr> = Ok vmas'" for p
  proof -
    have "List.find (\<lambda>e. gv_start e < is_stack_top s \<and> base < gv_end e) vmas = None"
      using free base by (auto simp: find_None_iff word_less_nat_alt not_less)
    then show ?thesis
      using base ne le(1) by (simp add: register_vma_def word_le_nat_alt)
  qed
  have off: "unat base \<le> unat (is_stack_pointer s)" using base le by simp
  have fits: "unat (is_stack_pointer s) - unat base + length (is_bytes s) = unat (is_stack_size s)"
    using base le by linarith
  have new: "\<exists>r. region_new base bytes = Ok r" if "length bytes = unat (is_stack_size s)" for bytes
    using that base le(1)
    by (intro exI [of _ "\<lparr>gr_start = base, gr_end = is_stack_top s, gr_bytes = bytes\<rparr>"])
      (simp add: region_new_Ok)
  obtain vmas' where "register_vma vmas \<lparr>gv_start = base, gv_end = is_stack_top s,
        gv_permissions = \<lparr>perm_read = True, perm_write = True, perm_execute = False\<rparr>,
        gv_kind = Stack\<rparr> = Ok vmas'"
    using reg by blast
  moreover have "length (splice (unat (is_stack_pointer s) - unat base) (is_bytes s)
      (replicate (unat (is_stack_size s)) 0)) = unat (is_stack_size s)"
    using fits by simp
  then obtain region where "region_new base (splice (unat (is_stack_pointer s) - unat base)
      (is_bytes s) (replicate (unat (is_stack_size s)) 0)) = Ok region"
    using new by blast
  moreover have "\<not> 2 ^ 64 \<le> unat (is_stack_size s)"
    "length (is_bytes s) = unat (is_stack_size s) - (unat (is_stack_pointer s) - unat base)"
    using fits by (simp_all add: not_le)
  ultimately show ?thesis
    using size fits
    by (simp add: map_stack_def stack_base_def sub_or_panic_le [OF off] sub_or_panic_le [OF le(1)]
        base_def [symmetric] vec_zero_def write_slice_def)
qed

text \<open>The one-segment executable loads with every stack that is large enough and clear of it.\<close>

lemma tiny_image:
  assumes typed: "config_typed config" and size: "unat (sc_stack_size config) \<le> ISIZE_MAX"
    and valid: "validate_stack_config config = Ok ()"
    and room: "stack_needed config \<le> unat (sc_stack_size config)"
      "unat (sc_stack_size config) \<le> unat (sc_stack_top config)" "0 < unat (sc_stack_size config)"
    and cfg: "with_interpreter_base 0 (with_executable_load_bias 0 config) = config"
      "sc_executable_load_bias config = 0"
    and clear: "unat (sc_stack_top config) \<le> 0x400000
      \<or> 0x401000 \<le> unat (sc_stack_top config) - unat (sc_stack_size config)"
  shows "\<exists>img. build_guest_memory_image_with_interpreter tiny_plan tiny_elf None config = Ok img"
proof -
  have bias: "executable_load_bias tiny_plan = 0"
    by (simp add: executable_load_bias_def tiny_plan_def Let_def)
  have "unat (0x400040 :: u64) + unat (sc_executable_load_bias config) < 2 ^ 64"
    "unat (lp_entrypoint tiny_plan) + unat (sc_executable_load_bias config) < 2 ^ 64"
    using cfg(2) by (simp_all add: tiny_plan_def Let_def)
  then obtain s where s: "build_initial_stack tiny_plan config = Ok s"
    using build_initial_stack_room [OF typed valid demo_config_ok(8) _ _ room(1,2) size] by blast
  note lay = build_initial_stack_layout [OF typed size s]
  have dims: "is_stack_top s = sc_stack_top config" "is_stack_size s = sc_stack_size config"
    using lay by (auto simp: stack_layout_def)
  let ?kind = "\<lambda>segment. ElfLoad (ls_program_header_index segment)
    (mm_file_offset (ls_mapping segment)) (mm_file_size (ls_mapping segment))"
  obtain vmas regions where segs: "map_segments tiny_elf 0 ?kind (lp_segments tiny_plan) ([], [])
      = Ok (vmas, regions)"
    and places: "map (\<lambda>v. (gv_start v, gv_end v)) vmas = [(0x400000, 0x401000)]"
    using tiny_segments [of ?kind] by (elim exE conjE)
  have "\<forall>v \<in> set vmas. gv_start v = 0x400000 \<and> gv_end v = 0x401000"
    using arg_cong [OF places, of set] by auto
  then have "\<forall>v \<in> set vmas. unat (is_stack_top s) \<le> unat (gv_start v)
      \<or> unat (gv_end v) \<le> unat (is_stack_top s) - unat (is_stack_size s)"
    using clear by (simp add: dims)
  then obtain vmas' regions' where "map_stack s (vmas, regions) = Ok (vmas', regions')"
    using map_stack_succeeds [OF lay, of vmas regions] size room(3) unfolding dims
    by (metis surj_pair)
  moreover have "lp_interpreter tiny_plan = None"
    by (simp add: tiny_plan_def Let_def)
  moreover have "\<exists>e. relocated_image_address (lp_entrypoint tiny_plan) 0 = Ok e"
    "\<exists>ends. collect_results (\<lambda>segment. relocated_image_address (mm_end (ls_mapping segment)) 0)
       (lp_segments tiny_plan) = Ok ends"
    by (simp_all add: tiny_plan_def Let_def relocated_image_address_def checked_add_def)
  ultimately show ?thesis
    using segs s cfg(1) bias
    by (fastforce simp: build_guest_memory_image_with_interpreter_def load_interpreter_step_def Let_def)
qed

lemma demo_image: "\<exists>img. build_guest_memory_image_with_interpreter tiny_plan tiny_elf None demo_config = Ok img"
proof (rule tiny_image)
  show "with_interpreter_base 0 (with_executable_load_bias 0 demo_config) = demo_config"
    "sc_executable_load_bias demo_config = 0"
    by (simp_all add: with_interpreter_base_def with_executable_load_bias_def demo_config_def
        with_envp_def with_argv_def stack_config_new_def)
  show "unat (sc_stack_top demo_config) \<le> 0x400000
      \<or> 0x401000 \<le> unat (sc_stack_top demo_config) - unat (sc_stack_size demo_config)"
    "0 < unat (sc_stack_size demo_config)"
    by (simp_all add: demo_config_def with_envp_def with_argv_def stack_config_new_def)
qed (fact demo_config_ok(1,2,3,4,5))+

lemma tiny_mappings_fit: "mappings_fit tiny_plan"
  by (simp add: mappings_fit_def tiny_plan_def Let_def mapping_size_def ISIZE_MAX_def)

text \<open>C1. Building the image of a parsed executable, with or without an interpreter, never panics,
  provided no mapping and no stack is larger than the host can allocate in one piece.\<close>

theorem image_no_panic:
  assumes "parse_load_plan elf = Ok plan" "mappings_fit plan"
    and "\<forall>bytes iplan. ibytes = Some bytes \<and> parse_load_plan bytes = Ok iplan \<longrightarrow> mappings_fit iplan"
    and "config_typed config" "unat (sc_stack_size config) \<le> ISIZE_MAX"
  shows "build_guest_memory_image_with_interpreter plan elf ibytes config \<noteq> Panic"
  using assms by (intro build_image_not_Panic) blast+

theorem image_no_panic_witness:
  "build_guest_memory_image_with_interpreter tiny_plan tiny_elf (Some tiny_elf) demo_config \<noteq> Panic"
  using image_no_panic [OF tiny_elf_plan tiny_mappings_fit, of "Some tiny_elf" demo_config]
    tiny_mappings_fit tiny_elf_plan demo_config_ok(1,2)
  by simp

text \<open>C1. The condition on the mapping size is needed: the parser accepts a file whose segment is
  larger than the host's allocation limit, and building its image panics whatever the stack
  configuration.\<close>

theorem huge_segment_panics:
  "\<exists>plan. parse_load_plan huge_segment_elf = Ok plan
     \<and> build_guest_memory_image plan huge_segment_elf config = Panic"
  by (rule huge_segment_image)

text \<open>C25. In every image, the memory areas are non-empty, sorted and pairwise disjoint, there is
  exactly one region per area, in the same order and with the same bounds, and a region holds
  exactly as many bytes as its bounds say.\<close>

theorem image_areas_disjoint:
  assumes "build_guest_memory_image_with_interpreter plan elf ibytes config = Ok img"
  shows "image_wf img"
  using assms by (rule build_image_wf)

theorem image_areas_disjoint_witness:
  "\<exists>img. build_guest_memory_image_with_interpreter tiny_plan tiny_elf None demo_config = Ok img
     \<and> image_wf img"
  using demo_image image_areas_disjoint by blast

text \<open>C1. Loading is faithful: reading the image at an address of a segment gives the bytes of the
  file at the corresponding offset, and zeros beyond the file-backed part.\<close>

theorem image_reads_segments:
  assumes "parse_load_plan elf = Ok plan"
    and "build_guest_memory_image_with_interpreter plan elf ibytes config = Ok img"
    and "seg \<in> set (lp_segments plan)"
    and "unat a = unat (ls_virtual_address seg) + unat (executable_load_bias plan) + off"
    and "0 < n" "off + n \<le> unat (ls_memory_size seg)"
  shows "image_read img a n = Ok (Some (take n (drop off
    (take (unat (ls_file_size seg)) (drop (unat (ls_file_offset seg)) elf)
     @ replicate (unat (ls_memory_size seg) - unat (ls_file_size seg)) 0))))"
proof -
  have wf: "segment_wf (length elf) seg"
    using parse_load_plan_wf [OF assms(1)] assms(3) by (simp add: plan_wf_def list_all_iff)
  obtain r where r: "r \<in> set (gi_regions img)" "region_for elf (executable_load_bias plan) seg r"
    using assms(2)
  proof (rule build_image_steps)
    fix r2 new r0 r'
    assume "gi_regions img = sort_key gr_start r2" "r2 = r0 @ new @ [r']"
      "list_all2 (region_for elf (executable_load_bias plan)) (lp_segments plan) new"
    moreover from this assms(3) obtain r where "r \<in> set new"
      "region_for elf (executable_load_bias plan) seg r"
      by (metis list_all2_conv_all_nth in_set_conv_nth)
    ultimately show thesis using that [of r] by simp
  qed
  have iwf: "image_wf img" using assms(2) by (rule build_image_wf)
  have start: "unat (gr_start r) = unat (mm_start (ls_mapping seg)) + unat (executable_load_bias plan)"
    and bytes: "gr_bytes r = mapping_bytes elf seg"
    and fits: "unat (mm_file_size (ls_mapping seg)) \<le> mapping_size seg"
      "unat (mm_file_offset (ls_mapping seg)) + unat (mm_file_size (ls_mapping seg)) \<le> length elf"
    using r(2) by (simp_all add: region_for_def)
  have "length (gr_bytes r) = mapping_size seg"
    using fits by (simp add: bytes mapping_bytes_def)
  moreover have "unat (gr_end r) = unat (gr_start r) + length (gr_bytes r)"
    using iwf r(1) by (simp add: image_wf_def)
  ultimately have in_r: "unat (gr_start r) \<le> unat a" "unat a + n \<le> unat (gr_end r)"
    and off: "unat a - unat (gr_start r) = unat (ls_virtual_address seg) - unat (mm_start (ls_mapping seg)) + off"
    using wf assms(4,6) start by (auto simp: segment_wf_def mapping_size_def)
  show ?thesis
    unfolding image_read_region [OF iwf r(1) in_r assms(5)] bytes off
      segment_bytes_in_mapping [OF wf assms(6)] ..
qed

theorem image_reads_segments_witness:
  "\<exists>img. build_guest_memory_image_with_interpreter tiny_plan tiny_elf None demo_config = Ok img
     \<and> image_read img 0x400001 3 = Ok (Some [0x45, 0x4c, 0x46])"
proof -
  obtain img where img: "build_guest_memory_image_with_interpreter tiny_plan tiny_elf None demo_config = Ok img"
    using demo_image by blast
  have "image_read img 0x400001 3 = Ok (Some (take 3 (drop 1
    (take 120 (drop 0 tiny_elf) @ replicate 0 0))))"
    using image_reads_segments [OF tiny_elf_plan img, of "hd (lp_segments tiny_plan)" "0x400001" 1 3]
    by (simp add: tiny_plan_def Let_def executable_load_bias_def)
  then show ?thesis
    using img by (auto simp: tiny_elf_def)
qed

text \<open>C1. The strings and random bytes of the initial stack can be read through the image at the
  addresses that the auxiliary vector and the pointer arrays hold.\<close>

theorem image_reads_stack:
  assumes "build_guest_memory_image_with_interpreter plan elf ibytes config = Ok img"
    and "stack_reads (gi_initial_stack img) a bytes" "bytes \<noteq> []"
    and "config_typed config" "unat (sc_stack_size config) \<le> ISIZE_MAX"
  shows "image_read img a (length bytes) = Ok (Some bytes)"
  using assms(1)
proof (rule build_image_steps)
  let ?s = "gi_initial_stack img"
  fix r2 new r0 r
  assume regs: "gi_regions img = sort_key gr_start r2" "r2 = r0 @ new @ [r]"
    and build: "build_initial_stack plan (stack_config_for plan (gi_interpreter img) config) = Ok ?s"
    and top: "unat (is_stack_top ?s) = unat (gr_start r) + unat (is_stack_size ?s)"
    and sp: "unat (gr_start r) \<le> unat (is_stack_pointer ?s)"
    and content: "take (length (is_bytes ?s))
       (drop (unat (is_stack_pointer ?s) - unat (gr_start r)) (gr_bytes r)) = is_bytes ?s"
  have iwf: "image_wf img" using assms(1) by (rule build_image_wf)
  have r: "r \<in> set (gi_regions img)" using regs by simp
  have "config_typed (stack_config_for plan (gi_interpreter img) config)"
    "unat (sc_stack_size (stack_config_for plan (gi_interpreter img) config)) \<le> ISIZE_MAX"
    using assms(4,5) by (simp_all add: stack_config_for_def config_typed_def
        with_interpreter_base_def with_executable_load_bias_def)
  then have blen: "length (is_bytes ?s) = unat (is_stack_top ?s) - unat (is_stack_pointer ?s)"
    using build_initial_stack_layout [OF _ _ build] unfolding stack_layout_def by blast
  have rd: "unat (is_stack_pointer ?s) \<le> unat a" "unat a + length bytes \<le> unat (is_stack_top ?s)"
    "take (length bytes) (drop (unat a - unat (is_stack_pointer ?s)) (is_bytes ?s)) = bytes"
    using assms(2) by (simp_all add: stack_reads_def)
  have "unat (is_stack_top ?s) \<le> unat (gr_end r)"
  proof -
    have "unat (gr_end r) = unat (gr_start r) + length (gr_bytes r)"
      using iwf r by (simp add: image_wf_def)
    moreover have "length (is_bytes ?s)
        \<le> length (gr_bytes r) - (unat (is_stack_pointer ?s) - unat (gr_start r))"
      using arg_cong [OF content, of length] by simp
    ultimately show ?thesis using blen sp rd assms(3) by (cases bytes) auto
  qed
  moreover have "take (length bytes) (drop (unat a - unat (gr_start r)) (gr_bytes r)) = bytes"
  proof -
    define k where "k = unat (is_stack_pointer ?s) - unat (gr_start r)"
    define j where "j = unat a - unat (is_stack_pointer ?s)"
    have "j + length bytes \<le> length (is_bytes ?s)" using rd blen by (simp add: j_def)
    then have "take (length bytes) (drop j (take (length (is_bytes ?s)) (drop k (gr_bytes r))))
        = take (length bytes) (drop (k + j) (gr_bytes r))"
      by (simp add: drop_take add.commute min_absorb1)
    moreover have "unat a - unat (gr_start r) = k + j" using sp rd by (simp add: k_def j_def)
    ultimately show ?thesis using rd(3) content by (simp add: k_def j_def)
  qed
  ultimately show ?thesis
    using image_read_region [OF iwf r, of a "length bytes"] sp rd assms(3) by simp
qed

theorem image_reads_stack_witness:
  "\<exists>img a. build_guest_memory_image_with_interpreter tiny_plan tiny_elf None demo_config = Ok img
     \<and> image_read img a 3 = Ok (Some [45, 120, 0])"
proof -
  obtain img where img: "build_guest_memory_image_with_interpreter tiny_plan tiny_elf None demo_config = Ok img"
    using demo_image by blast
  let ?cfg = "stack_config_for tiny_plan (gi_interpreter img) demo_config"
  have cfg: "config_typed ?cfg" "unat (sc_stack_size ?cfg) \<le> ISIZE_MAX" "sc_argv ?cfg = [[97], [45, 120]]"
    using demo_config_ok(1,2) by (simp_all add: stack_config_for_def config_typed_def
        with_interpreter_base_def with_executable_load_bias_def demo_config_def with_envp_def
        with_argv_def stack_config_new_def)
  have "build_initial_stack tiny_plan ?cfg = Ok (gi_initial_stack img)"
    using img by (rule build_image_steps)
  from build_initial_stack_strings [OF cfg(1,2) this]
  obtain a where "stack_reads (gi_initial_stack img) a [45, 120, 0]"
    by (auto simp: stack_strings_def cfg(3) list_all2_Cons2)
  then show ?thesis
    using image_reads_stack [OF img, of a "[45, 120, 0]"] img demo_config_ok(1,2)
    by (auto simp: numeral_3_eq_3)
qed

text \<open>C1. The guest starts in executable memory: the entry point of the image, the interpreter's when
  there is one, lies in an area with execute permission.\<close>

theorem image_entrypoint_executable:
  assumes "parse_load_plan elf = Ok plan"
    and "build_guest_memory_image_with_interpreter plan elf ibytes config = Ok img"
  shows "\<exists>v \<in> set (gi_vmas img). perm_execute (gv_permissions v)
    \<and> gv_start v \<le> gi_entrypoint img \<and> gi_entrypoint img < gv_end v"
  using assms by (rule build_image_entry)

theorem image_entrypoint_executable_witness:
  "\<exists>img. build_guest_memory_image_with_interpreter tiny_plan tiny_elf None demo_config = Ok img
    \<and> (\<exists>v \<in> set (gi_vmas img). perm_execute (gv_permissions v)
        \<and> gv_start v \<le> gi_entrypoint img \<and> gi_entrypoint img < gv_end v)"
  using demo_image image_entrypoint_executable [OF tiny_elf_plan] by blast

end
