(* ===== verification/Task_State.thy ===== *)
theory Task_State
  imports Btree Abi Elf_Image "HOL-Library.Option_ord"
begin

text \<open>
  The data of \<open>mcr-task\<close>: registers, tasks, processes, file descriptor tables, programs
  and the kernel record (\<open>registers.rs\<close>, \<open>task.rs\<close>, \<open>process.rs\<close>, \<open>fd.rs\<close>,
  \<open>program.rs\<close>, \<open>errors.rs\<close>, \<open>lib.rs\<close> and the record of \<open>kernel/mod.rs\<close>).
  The host worker pools, a field that no modelled operation reads or writes, are left out.
\<close>

section \<open>Constants\<close>

definition INITIAL_GUEST_PID :: guest_pid where "INITIAL_GUEST_PID = 1"
definition INITIAL_GUEST_TID :: guest_tid where "INITIAL_GUEST_TID = 1"
definition DEFAULT_STACK_TOP :: guest_address where "DEFAULT_STACK_TOP = 0x100200000"
definition DEFAULT_STACK_SIZE :: u64 where "DEFAULT_STACK_SIZE = 0x200000"
definition X86_64_SYSCALL_INSTRUCTION_LEN :: guest_address where
  "X86_64_SYSCALL_INSTRUCTION_LEN = 2"
definition X86_64_DEFAULT_RFLAGS :: u64 where "X86_64_DEFAULT_RFLAGS = 0x202"
definition ARCH_SET_GS :: u64 where "ARCH_SET_GS = 0x1001"
definition ARCH_SET_FS :: u64 where "ARCH_SET_FS = 0x1002"
definition ARCH_GET_FS :: u64 where "ARCH_GET_FS = 0x1003"
definition ARCH_GET_GS :: u64 where "ARCH_GET_GS = 0x1004"
definition LINUX_SIGKILL :: u32 where "LINUX_SIGKILL = 9"
definition LINUX_SIGSTOP :: u32 where "LINUX_SIGSTOP = 19"
definition LINUX_SIGNAL_COUNT :: u32 where "LINUX_SIGNAL_COUNT = 64"

definition unblockable_signal_mask :: u64 where
  "unblockable_signal_mask =
     push_bit (unat (LINUX_SIGKILL - 1)) 1 OR push_bit (unat (LINUX_SIGSTOP - 1)) 1"

section \<open>Errors\<close>

datatype task_error =
    BadFd int
  | InvalidCloneFlags u64
  | InvalidRobustListLength u64
  | InvalidSignal u32
  | InvalidSignalMaskHow u32
  | InvalidSigsetSize u64
  | InvalidWaitOptions u32
  | NoChild
  | PidExhausted
  | TidExhausted
  | UnknownPid guest_pid
  | UnknownTid guest_tid
  | UnsupportedSignalTarget i32
  | WouldBlock
  | Elf elf_validation_error
  | Image guest_image_error

fun task_errno :: "task_error \<Rightarrow> linux_errno" where
  "task_errno (BadFd _) = EBADF"
| "task_errno (InvalidCloneFlags _) = EINVAL"
| "task_errno (InvalidRobustListLength _) = EINVAL"
| "task_errno (InvalidSignal _) = EINVAL"
| "task_errno (InvalidSignalMaskHow _) = EINVAL"
| "task_errno (InvalidSigsetSize _) = EINVAL"
| "task_errno (InvalidWaitOptions _) = EINVAL"
| "task_errno (UnsupportedSignalTarget _) = EINVAL"
| "task_errno NoChild = ECHILD"
| "task_errno PidExhausted = EAGAIN"
| "task_errno TidExhausted = EAGAIN"
| "task_errno (UnknownPid _) = ESRCH"
| "task_errno (UnknownTid _) = ESRCH"
| "task_errno WouldBlock = EAGAIN"
| "task_errno (Elf _) = ENOEXEC"
| "task_errno (Image _) = ENOEXEC"

definition into_outcome :: "task_error \<Rightarrow> syscall_outcome" where
  "into_outcome e = outcome_errno (task_errno e)"

type_synonym 'a task_result = "('a, task_error) result"

section \<open>Registers\<close>

record tls_state =
  fs_base :: guest_address
  gs_base :: guest_address

definition tls_new :: tls_state where
  "tls_new = \<lparr>fs_base = 0, gs_base = 0\<rparr>"

record gpr_state =
  rip :: guest_address
  rsp :: guest_address
  rax :: u64
  rbx :: u64
  rcx :: u64
  rdi :: u64
  rsi :: u64
  rdx :: u64
  rbp :: u64
  r10 :: u64
  r8 :: u64
  r9 :: u64
  r11 :: u64
  r12 :: u64
  r13 :: u64
  r14 :: u64
  r15 :: u64
  rflags :: u64

definition with_syscall_registers ::
  "guest_address \<Rightarrow> guest_address \<Rightarrow> u64 \<Rightarrow> u64 \<Rightarrow> u64 \<Rightarrow> u64 \<Rightarrow> u64 \<Rightarrow> u64 \<Rightarrow> u64 \<Rightarrow> gpr_state" where
  "with_syscall_registers ip sp a a0 a1 a2 a3 a4 a5 =
     \<lparr>rip = ip, rsp = sp, rax = a, rbx = 0, rcx = 0, rdi = a0, rsi = a1, rdx = a2, rbp = 0,
      r10 = a3, r8 = a4, r9 = a5, r11 = 0, r12 = 0, r13 = 0, r14 = 0, r15 = 0,
      rflags = X86_64_DEFAULT_RFLAGS\<rparr>"

definition gpr_new :: "guest_address \<Rightarrow> guest_address \<Rightarrow> gpr_state" where
  "gpr_new ip sp = with_syscall_registers ip sp 0 0 0 0 0 0 0"

definition with_syscall_return :: "gpr_state \<Rightarrow> guest_address \<Rightarrow> u64 \<Rightarrow> gpr_state" where
  "with_syscall_return regs ip v = regs\<lparr>rip := ip, rax := v\<rparr>"

section \<open>File descriptor tables\<close>

record guest_fd_entry =
  fde_description :: string
  fde_cloexec :: bool

record guest_fd_table =
  fdt_entries :: "(int, guest_fd_entry) btree_map"

definition fd_table_new :: guest_fd_table where
  "fd_table_new = \<lparr>fdt_entries = bt_empty\<rparr>"

definition fd_entry_new :: "string \<Rightarrow> guest_fd_entry" where
  "fd_entry_new description = \<lparr>fde_description = description, fde_cloexec = False\<rparr>"

definition fd_insert_exact ::
  "int \<Rightarrow> guest_fd_entry \<Rightarrow> bool \<Rightarrow> guest_fd_table \<Rightarrow> guest_fd_table task_result" where
  "fd_insert_exact fd entry cloexec table =
     (if fd < 0 \<or> bt_contains (fdt_entries table) fd then Err (BadFd fd)
      else Ok (table\<lparr>fdt_entries := bt_insert fd (entry\<lparr>fde_cloexec := cloexec\<rparr>) (fdt_entries table)\<rparr>))"

definition fd_get :: "guest_fd_table \<Rightarrow> int \<Rightarrow> guest_fd_entry option" where
  "fd_get table fd = bt_get (fdt_entries table) fd"

definition fd_set_cloexec :: "int \<Rightarrow> bool \<Rightarrow> guest_fd_table \<Rightarrow> guest_fd_table task_result" where
  "fd_set_cloexec fd cloexec table =
     (case bt_get (fdt_entries table) fd of
        None \<Rightarrow> Err (BadFd fd)
      | Some entry \<Rightarrow>
          Ok (table\<lparr>fdt_entries := bt_insert fd (entry\<lparr>fde_cloexec := cloexec\<rparr>) (fdt_entries table)\<rparr>))"

definition close_on_exec :: "guest_fd_table \<Rightarrow> guest_fd_table" where
  "close_on_exec table =
     table\<lparr>fdt_entries := bt_retain (\<lambda>_ entry. \<not> fde_cloexec entry) (fdt_entries table)\<rparr>"

definition fd_with_stdio :: "guest_fd_table task_result" where
  "fd_with_stdio =
     and_then (expect (fd_insert_exact 0 (fd_entry_new ''stdin'') False fd_table_new)) (\<lambda>table.
     and_then (expect (fd_insert_exact 1 (fd_entry_new ''stdout'') False table)) (\<lambda>table.
     expect (fd_insert_exact 2 (fd_entry_new ''stderr'') False table)))"

section \<open>Programs\<close>

record guest_executable =
  exe_path :: "u8 list"
  exe_bytes :: "u8 list"

record guest_program =
  gp_executable :: guest_executable
  gp_interpreter :: "guest_executable option"
  gp_argv :: "u8 list list"
  gp_envp :: "u8 list list"

definition program_new :: "guest_executable \<Rightarrow> guest_program" where
  "program_new executable =
     \<lparr>gp_executable = executable, gp_interpreter = None, gp_argv = [exe_path executable],
      gp_envp = []\<rparr>"

definition with_interpreter :: "guest_executable \<Rightarrow> guest_program \<Rightarrow> guest_program" where
  "with_interpreter executable program = program\<lparr>gp_interpreter := Some executable\<rparr>"

record guest_image_state =
  gis_executable :: guest_executable
  gis_interpreter :: "guest_executable option"
  gis_argv :: "u8 list list"
  gis_envp :: "u8 list list"
  gis_memory :: guest_memory_image

definition load_program :: "guest_program \<Rightarrow> guest_image_state task_result" where
  "load_program program =
     and_then (map_err Elf (parse_load_plan (exe_bytes (gp_executable program)))) (\<lambda>load_plan.
     and_then (map_err Image (build_guest_memory_image_with_interpreter load_plan
                 (exe_bytes (gp_executable program))
                 (map_option exe_bytes (gp_interpreter program))
                 (with_envp (gp_envp program) (with_argv (gp_argv program)
                   (stack_config_new DEFAULT_STACK_TOP DEFAULT_STACK_SIZE
                      (exe_path (gp_executable program))))))) (\<lambda>memory.
     Ok \<lparr>gis_executable = gp_executable program, gis_interpreter = gp_interpreter program,
         gis_argv = gp_argv program, gis_envp = gp_envp program, gis_memory = memory\<rparr>))"

section \<open>Tasks\<close>

datatype futex_wait_key = Futex_wait_key (fk_pid: "guest_pid option") (fk_uaddr: guest_address)

definition futex_wait_key_new :: "guest_pid \<Rightarrow> guest_address \<Rightarrow> bool \<Rightarrow> futex_wait_key" where
  "futex_wait_key_new pid uaddr private =
     Futex_wait_key (if private then Some pid else None) uaddr"

text \<open>The derived lexicographic order; \<open>None\<close> is least.\<close>

instantiation futex_wait_key :: linorder
begin

definition less_eq_futex_wait_key :: "futex_wait_key \<Rightarrow> futex_wait_key \<Rightarrow> bool" where
  "less_eq_futex_wait_key a b \<longleftrightarrow>
     fk_pid a < fk_pid b \<or> fk_pid a = fk_pid b \<and> fk_uaddr a \<le> fk_uaddr b"

definition less_futex_wait_key :: "futex_wait_key \<Rightarrow> futex_wait_key \<Rightarrow> bool" where
  "less_futex_wait_key a b \<longleftrightarrow>
     fk_pid a < fk_pid b \<or> fk_pid a = fk_pid b \<and> fk_uaddr a < fk_uaddr b"

instance
  by standard
    (auto simp: less_eq_futex_wait_key_def less_futex_wait_key_def futex_wait_key.expand)

end

datatype task_state =
    Runnable
  | WaitingForChild wait4_args
  | WaitingForVfork guest_pid
  | WaitingForSignalSet u64
  | WaitingForSignalSuspend u64
  | WaitingForFd int bool
  | WaitingForFutex futex_wait_key
  | WaitingForSleep
  | Exited i32

record guest_task =
  t_tid :: guest_tid
  t_pid :: guest_pid
  t_regs :: gpr_state
  t_tls :: tls_state
  t_state :: task_state
  t_robust_list :: "guest_address option"
  t_clear_child_tid :: "guest_address option"
  t_signal_mask :: u64
  t_pending_signals :: "u32 btree_set"
  t_pending_signal_delivery :: "u32 option"

definition task_initial :: "guest_tid \<Rightarrow> guest_pid \<Rightarrow> guest_memory_image \<Rightarrow> guest_task" where
  "task_initial tid pid img =
     \<lparr>t_tid = tid, t_pid = pid,
      t_regs = gpr_new (gi_entrypoint img) (gi_initial_stack_pointer img), t_tls = tls_new,
      t_state = Runnable, t_robust_list = None, t_clear_child_tid = None, t_signal_mask = 0,
      t_pending_signals = bt_empty, t_pending_signal_delivery = None\<rparr>"

definition take_robust_list :: "guest_task \<Rightarrow> guest_address option \<times> guest_task" where
  "take_robust_list task = (t_robust_list task, task\<lparr>t_robust_list := None\<rparr>)"

definition take_clear_child_tid :: "guest_task \<Rightarrow> guest_address option \<times> guest_task" where
  "take_clear_child_tid task = (t_clear_child_tid task, task\<lparr>t_clear_child_tid := None\<rparr>)"

section \<open>Processes\<close>

datatype exit_state = Running | Process_exited i32

record guest_signal_action =
  sig_action :: guest_address
  sig_flags :: u64
  sig_restorer :: guest_address
  sig_mask :: u64

definition signal_action_new :: "guest_address \<Rightarrow> guest_signal_action" where
  "signal_action_new action =
     \<lparr>sig_action = action, sig_flags = 0, sig_restorer = 0, sig_mask = 0\<rparr>"

definition from_kernel_sigaction ::
  "guest_address \<Rightarrow> u64 \<Rightarrow> guest_address \<Rightarrow> u64 \<Rightarrow> guest_signal_action" where
  "from_kernel_sigaction action flags restorer msk =
     \<lparr>sig_action = action, sig_flags = flags, sig_restorer = restorer, sig_mask = msk\<rparr>"

record signal_state =
  ss_actions :: "(u32, guest_signal_action) btree_map"

definition signal_state_default :: signal_state where
  "signal_state_default = \<lparr>ss_actions = bt_empty\<rparr>"

definition signal_action :: "signal_state \<Rightarrow> u32 \<Rightarrow> guest_signal_action option" where
  "signal_action s signal = bt_get (ss_actions s) signal"

definition set_action :: "u32 \<Rightarrow> guest_signal_action \<Rightarrow> signal_state \<Rightarrow> signal_state" where
  "set_action signal action s = s\<lparr>ss_actions := bt_insert signal action (ss_actions s)\<rparr>"

record waited_child =
  wc_pid :: guest_pid
  wc_status :: i32
  wc_wait_status :: u32

definition linux_wait_exit_status :: "i32 \<Rightarrow> u32" where
  "linux_wait_exit_status status = push_bit 8 (status AND 0xff)"

definition waited_child_new :: "guest_pid \<Rightarrow> i32 \<Rightarrow> waited_child" where
  "waited_child_new pid status =
     \<lparr>wc_pid = pid, wc_status = status, wc_wait_status = linux_wait_exit_status status\<rparr>"

record completed_wait =
  cw_tid :: guest_tid
  cw_pid :: guest_pid
  cw_args :: wait4_args
  cw_waited :: waited_child

record guest_process =
  p_pid :: guest_pid
  p_parent :: "guest_pid option"
  p_pgid :: guest_pid
  p_sid :: guest_pid
  p_image :: guest_image_state
  p_files :: guest_fd_table
  p_signals :: signal_state
  p_pending_signals :: "u32 btree_set"
  p_children :: "guest_pid btree_set"
  p_exit_state :: exit_state

section \<open>The kernel record\<close>

record guest_kernel =
  k_next_pid :: guest_pid
  k_next_tid :: guest_tid
  k_processes :: "(guest_pid, guest_process) btree_map"
  k_tasks :: "(guest_tid, guest_task) btree_map"
  k_runnable_tids :: "guest_tid btree_set"
  k_child_wait_tids :: "guest_tid btree_set"
  k_fd_wait_tids :: "guest_tid btree_set"
  k_futex_wait_tids :: "(futex_wait_key, guest_tid btree_set) btree_map"

definition kernel_empty :: guest_kernel where
  "kernel_empty =
     \<lparr>k_next_pid = INITIAL_GUEST_PID, k_next_tid = INITIAL_GUEST_TID, k_processes = bt_empty,
      k_tasks = bt_empty, k_runnable_tids = bt_empty, k_child_wait_tids = bt_empty,
      k_fd_wait_tids = bt_empty, k_futex_wait_tids = bt_empty\<rparr>"

abbreviation k_task :: "guest_kernel \<Rightarrow> guest_tid \<Rightarrow> guest_task option" where
  "k_task k tid \<equiv> bt_get (k_tasks k) tid"

abbreviation k_process :: "guest_kernel \<Rightarrow> guest_pid \<Rightarrow> guest_process option" where
  "k_process k pid \<equiv> bt_get (k_processes k) pid"

end
