(* ===== verification/Task_Kernel.thy ===== *)
theory Task_Kernel
  imports Task_State
begin

text \<open>
  The core of the guest kernel (\<open>kernel/mod.rs\<close>): the task table with its four wait indexes,
  identifier allocation and the initial process.  A \<open>&mut self\<close> method becomes a function that
  returns its result together with the new kernel; a fallible one keeps the mutations it made
  before it failed.  The second half states the kernel invariant and shows that the primitive
  operations keep it.
\<close>

section \<open>Operations\<close>

definition modify_task ::
  "guest_tid \<Rightarrow> (guest_task \<Rightarrow> guest_task) \<Rightarrow> guest_kernel \<Rightarrow> guest_kernel" where
  "modify_task tid f k = k\<lparr>k_tasks := bt_modify tid f (k_tasks k)\<rparr>"

definition modify_process ::
  "guest_pid \<Rightarrow> (guest_process \<Rightarrow> guest_process) \<Rightarrow> guest_kernel \<Rightarrow> guest_kernel" where
  "modify_process pid f k = k\<lparr>k_processes := bt_modify pid f (k_processes k)\<rparr>"

definition futex_index_insert ::
  "futex_wait_key \<Rightarrow> guest_tid \<Rightarrow> (futex_wait_key, guest_tid btree_set) btree_map
     \<Rightarrow> (futex_wait_key, guest_tid btree_set) btree_map" where
  "futex_index_insert key tid index =
     (case bt_get index key of
        None \<Rightarrow> bt_insert key (bs_insert tid bt_empty) index
      | Some waiters \<Rightarrow> bt_insert key (bs_insert tid waiters) index)"

definition futex_index_remove ::
  "futex_wait_key \<Rightarrow> guest_tid \<Rightarrow> (futex_wait_key, guest_tid btree_set) btree_map
     \<Rightarrow> (futex_wait_key, guest_tid btree_set) btree_map" where
  "futex_index_remove key tid index =
     (case bt_get index key of
        None \<Rightarrow> index
      | Some waiters \<Rightarrow>
          let waiters = bs_remove tid waiters in
          if bs_is_empty waiters then bt_remove key index else bt_insert key waiters index)"

fun index_task_state :: "guest_tid \<Rightarrow> task_state \<Rightarrow> guest_kernel \<Rightarrow> guest_kernel" where
  "index_task_state tid Runnable k = k\<lparr>k_runnable_tids := bs_insert tid (k_runnable_tids k)\<rparr>"
| "index_task_state tid (WaitingForChild args) k =
     k\<lparr>k_child_wait_tids := bs_insert tid (k_child_wait_tids k)\<rparr>"
| "index_task_state tid (WaitingForFd fd write) k =
     k\<lparr>k_fd_wait_tids := bs_insert tid (k_fd_wait_tids k)\<rparr>"
| "index_task_state tid (WaitingForFutex key) k =
     k\<lparr>k_futex_wait_tids := futex_index_insert key tid (k_futex_wait_tids k)\<rparr>"
| "index_task_state tid state k = k"

fun unindex_task_state :: "guest_tid \<Rightarrow> task_state \<Rightarrow> guest_kernel \<Rightarrow> guest_kernel" where
  "unindex_task_state tid Runnable k = k\<lparr>k_runnable_tids := bs_remove tid (k_runnable_tids k)\<rparr>"
| "unindex_task_state tid (WaitingForChild args) k =
     k\<lparr>k_child_wait_tids := bs_remove tid (k_child_wait_tids k)\<rparr>"
| "unindex_task_state tid (WaitingForFd fd write) k =
     k\<lparr>k_fd_wait_tids := bs_remove tid (k_fd_wait_tids k)\<rparr>"
| "unindex_task_state tid (WaitingForFutex key) k =
     k\<lparr>k_futex_wait_tids := futex_index_remove key tid (k_futex_wait_tids k)\<rparr>"
| "unindex_task_state tid state k = k"

definition insert_task :: "guest_task \<Rightarrow> guest_kernel \<Rightarrow> guest_kernel" where
  "insert_task task k =
     (let k = index_task_state (t_tid task) (t_state task) k in
      k\<lparr>k_tasks := bt_insert (t_tid task) task (k_tasks k)\<rparr>)"

definition remove_task :: "guest_tid \<Rightarrow> guest_kernel \<Rightarrow> guest_task option \<times> guest_kernel" where
  "remove_task tid k =
     (case k_task k tid of
        None \<Rightarrow> (None, k)
      | Some task \<Rightarrow>
          (Some task, unindex_task_state (t_tid task) (t_state task)
             (k\<lparr>k_tasks := bt_remove tid (k_tasks k)\<rparr>)))"

definition set_task_state ::
  "guest_tid \<Rightarrow> task_state \<Rightarrow> guest_kernel \<Rightarrow> task_state option \<times> guest_kernel" where
  "set_task_state tid state k =
     (case k_task k tid of
        None \<Rightarrow> (None, k)
      | Some task \<Rightarrow>
          let previous = t_state task in
          if previous = state then (Some previous, k)
          else (let k = unindex_task_state tid previous k;
                    k = modify_task tid (\<lambda>task. task\<lparr>t_state := state\<rparr>) k
                in (Some previous, index_task_state tid state k)))"

definition allocate_pid :: "guest_kernel \<Rightarrow> (task_error + guest_pid) \<times> guest_kernel" where
  "allocate_pid k =
     (case checked_add (k_next_pid k) 1 of
        None \<Rightarrow> (Inl PidExhausted, k)
      | Some next_pid \<Rightarrow> (Inr (k_next_pid k), k\<lparr>k_next_pid := next_pid\<rparr>))"

definition allocate_tid :: "guest_kernel \<Rightarrow> (task_error + guest_tid) \<times> guest_kernel" where
  "allocate_tid k =
     (case checked_add (k_next_tid k) 1 of
        None \<Rightarrow> (Inl TidExhausted, k)
      | Some next_tid \<Rightarrow> (Inr (k_next_tid k), k\<lparr>k_next_tid := next_tid\<rparr>))"

definition current_syscall_return_rip :: "guest_kernel \<Rightarrow> guest_tid \<Rightarrow> guest_address" where
  "current_syscall_return_rip k tid =
     (case k_task k tid of
        None \<Rightarrow> 0
      | Some task \<Rightarrow> saturating_add (rip (t_regs task)) X86_64_SYSCALL_INSTRUCTION_LEN)"

definition create_initial_process ::
  "guest_program \<Rightarrow> guest_kernel \<Rightarrow> guest_kernel task_result" where
  "create_initial_process program k =
     (case allocate_pid k of (rpid, k) \<Rightarrow> and_then (lift_sum rpid) (\<lambda>pid.
      case allocate_tid k of (rtid, k) \<Rightarrow> and_then (lift_sum rtid) (\<lambda>tid.
      and_then (load_program program) (\<lambda>img.
      and_then fd_with_stdio (\<lambda>files.
      let task = task_initial tid pid (gis_memory img);
          process = \<lparr>p_pid = pid, p_parent = None, p_pgid = pid, p_sid = pid, p_image = img,
            p_files = files, p_signals = signal_state_default, p_pending_signals = bt_empty,
            p_children = bt_empty, p_exit_state = Running\<rparr>;
          k = k\<lparr>k_processes := bt_insert pid process (k_processes k)\<rparr>
      in Ok (insert_task task k))))))"

definition kernel_new :: "guest_program \<Rightarrow> guest_kernel task_result" where
  "kernel_new program = create_initial_process program kernel_empty"

section \<open>Identifier allocation\<close>

text \<open>
  The contract of an allocator of machine-word identifiers: a successful call returns the
  current counter and steps it by one without wrapping; at the last value it fails and changes
  nothing.  Identifiers handed out by successive calls are strictly increasing, hence never
  reused.
\<close>

locale id_allocator =
  fixes counter :: "'k \<Rightarrow> u32"
    and alloc :: "'k \<Rightarrow> (task_error + u32) \<times> 'k"
  assumes alloc_Ok: "alloc k = (Inr i, k') \<Longrightarrow> i = counter k \<and> unat (counter k') = unat (counter k) + 1"
    and alloc_Err: "alloc k = (Inl e, k') \<Longrightarrow> k' = k \<and> counter k = - 1"
begin

lemma alloc_fresh:
  assumes "alloc k = (Inr i, k')"
  shows "i < counter k'" "\<not> i < counter k" "counter k \<le> counter k'"
  using alloc_Ok [OF assms] by (auto simp: word_less_nat_alt word_le_nat_alt)

lemma alloc_increasing:
  assumes "alloc k = (Inr i, k')" "counter k' \<le> counter k''" "alloc k'' = (Inr j, k''')"
  shows "i < j"
  using alloc_Ok [OF assms(1)] alloc_Ok [OF assms(3)] assms(2)
  by (auto simp: word_less_nat_alt word_le_nat_alt)

lemma alloc_mono: "counter k \<le> counter (snd (alloc k))"
proof (cases "alloc k")
  case (Pair r k')
  then show ?thesis
    using alloc_Ok [of k _ k'] alloc_Err [of k _ k']
    by (cases r) (auto simp: word_le_nat_alt)
qed

end

lemma checked_add_one_None: "checked_add (x :: u32) 1 = None \<longleftrightarrow> x = - 1"
proof -
  have "unat x < 4294967296" using unsigned_less [of x, where ?'a = nat] by simp
  moreover have "unat (- 1 :: u32) = 4294967295"
    using unsigned_minus_1_eq_mask [where ?'a = nat and ?'b = 32]
    by (simp add: mask_eq_exp_minus_1)
  ultimately show ?thesis
    by (auto simp: checked_add_None word_unat_eq_iff)
qed

interpretation pids: id_allocator k_next_pid allocate_pid
  by unfold_locales
    (auto simp: allocate_pid_def checked_add_Some checked_add_one_None split: option.splits)

interpretation tids: id_allocator k_next_tid allocate_tid
  by unfold_locales
    (auto simp: allocate_tid_def checked_add_Some checked_add_one_None split: option.splits)

section \<open>The kernel invariant\<close>

definition state_of :: "guest_kernel \<Rightarrow> guest_tid \<Rightarrow> task_state option" where
  "state_of k tid = map_option t_state (k_task k tid)"

definition futex_waiters :: "guest_kernel \<Rightarrow> futex_wait_key \<Rightarrow> guest_tid set" where
  "futex_waiters k key =
     (case bt_get (k_futex_wait_tids k) key of None \<Rightarrow> {} | Some waiters \<Rightarrow> bs_set waiters)"

text \<open>The indexes agree with a state function: a task is in an index exactly when its state says
  so, and no futex key has an empty waiter set.\<close>

definition index_of :: "(guest_tid \<Rightarrow> task_state option) \<Rightarrow> guest_kernel \<Rightarrow> bool" where
  "index_of f k \<longleftrightarrow>
     bs_set (k_runnable_tids k) = {tid. f tid = Some Runnable}
   \<and> bs_set (k_child_wait_tids k) = {tid. \<exists>args. f tid = Some (WaitingForChild args)}
   \<and> bs_set (k_fd_wait_tids k) = {tid. \<exists>fd write. f tid = Some (WaitingForFd fd write)}
   \<and> (\<forall>key. futex_waiters k key = {tid. f tid = Some (WaitingForFutex key)})
   \<and> (\<forall>key waiters. bt_get (k_futex_wait_tids k) key = Some waiters \<longrightarrow> bs_set waiters \<noteq> {})"

text \<open>Every image in the kernel was produced by the loader.\<close>

definition image_ok :: "guest_image_state \<Rightarrow> bool" where
  "image_ok img \<longleftrightarrow> (\<exists>program. load_program program = Ok img)"

definition keys_ok :: "guest_kernel \<Rightarrow> bool" where
  "keys_ok k \<longleftrightarrow>
     (\<forall>tid t. k_task k tid = Some t \<longrightarrow>
        t_tid t = tid \<and> tid < k_next_tid k \<and> k_process k (t_pid t) \<noteq> None
        \<and> t_signal_mask t AND unblockable_signal_mask = 0)
   \<and> (\<forall>pid p. k_process k pid = Some p \<longrightarrow>
        p_pid p = pid \<and> pid < k_next_pid k \<and> image_ok (p_image p))"

definition parent_of :: "(guest_pid \<Rightarrow> guest_process option) \<Rightarrow> guest_pid \<Rightarrow> guest_pid option" where
  "parent_of ps pid = (case ps pid of None \<Rightarrow> None | Some p \<Rightarrow> p_parent p)"

definition children_of :: "(guest_pid \<Rightarrow> guest_process option) \<Rightarrow> guest_pid \<Rightarrow> guest_pid set" where
  "children_of ps pid = (case ps pid of None \<Rightarrow> {} | Some p \<Rightarrow> bs_set (p_children p))"

text \<open>Every child names its parent, every live parent lists its child, and a parent is older than
  its child.  A parent that was reaped before its child leaves a dangling parent number behind.\<close>

definition family_ok :: "(guest_pid \<Rightarrow> guest_process option) \<Rightarrow> bool" where
  "family_ok ps \<longleftrightarrow>
     (\<forall>pid c. c \<in> children_of ps pid \<longrightarrow> parent_of ps c = Some pid)
   \<and> (\<forall>pid pp. parent_of ps pid = Some pp \<longrightarrow>
        pp < pid \<and> (ps pp \<noteq> None \<longrightarrow> pid \<in> children_of ps pp))"

definition kernel_ok :: "guest_kernel \<Rightarrow> bool" where
  "kernel_ok k \<longleftrightarrow> keys_ok k \<and> family_ok (bt_get (k_processes k)) \<and> index_of (state_of k) k"

subsection \<open>Frames\<close>

lemma index_frame [simp]:
  "k_tasks (index_task_state tid st k) = k_tasks k"
  "k_processes (index_task_state tid st k) = k_processes k"
  "k_next_pid (index_task_state tid st k) = k_next_pid k"
  "k_next_tid (index_task_state tid st k) = k_next_tid k"
  "k_tasks (unindex_task_state tid st k) = k_tasks k"
  "k_processes (unindex_task_state tid st k) = k_processes k"
  "k_next_pid (unindex_task_state tid st k) = k_next_pid k"
  "k_next_tid (unindex_task_state tid st k) = k_next_tid k"
  by (cases st; simp)+

lemma modify_frame [simp]:
  "k_processes (modify_task tid f k) = k_processes k"
  "k_next_pid (modify_task tid f k) = k_next_pid k"
  "k_next_tid (modify_task tid f k) = k_next_tid k"
  "k_tasks (modify_process pid g k) = k_tasks k"
  "k_next_pid (modify_process pid g k) = k_next_pid k"
  "k_next_tid (modify_process pid g k) = k_next_tid k"
  by (simp_all add: modify_task_def modify_process_def)

lemma k_task_modify [simp]:
  "k_task (modify_task tid f k) tid' = (if tid' = tid then map_option f (k_task k tid) else k_task k tid')"
  by (simp add: modify_task_def bt_get_modify)

lemma k_process_modify [simp]:
  "k_process (modify_process pid f k) pid' =
     (if pid' = pid then map_option f (k_process k pid) else k_process k pid')"
  by (simp add: modify_process_def bt_get_modify)

lemma index_of_cong:
  assumes "k_runnable_tids k' = k_runnable_tids k" "k_child_wait_tids k' = k_child_wait_tids k"
    "k_fd_wait_tids k' = k_fd_wait_tids k" "k_futex_wait_tids k' = k_futex_wait_tids k"
  shows "index_of f k' = index_of f k"
  using assms by (simp add: index_of_def futex_waiters_def)

lemma index_of_frame [simp]:
  "index_of f (modify_task tid g k) = index_of f k"
  "index_of f (modify_process pid h k) = index_of f k"
  "index_of f (k\<lparr>k_tasks := ts\<rparr>) = index_of f k"
  "index_of f (k\<lparr>k_processes := ps\<rparr>) = index_of f k"
  "index_of f (k\<lparr>k_next_pid := np\<rparr>) = index_of f k"
  "index_of f (k\<lparr>k_next_tid := nt\<rparr>) = index_of f k"
  by (rule index_of_cong; simp add: modify_task_def modify_process_def)+

lemma state_of_frame [simp]:
  "state_of (index_task_state tid st k) = state_of k"
  "state_of (unindex_task_state tid st k) = state_of k"
  "state_of (modify_process pid h k) = state_of k"
  "state_of (k\<lparr>k_processes := ps\<rparr>) = state_of k"
  "state_of (k\<lparr>k_next_pid := np\<rparr>) = state_of k"
  "state_of (k\<lparr>k_next_tid := nt\<rparr>) = state_of k"
  by (auto simp: state_of_def fun_eq_iff)

subsection \<open>The indexes\<close>

lemma futex_waiters_insert:
  "futex_waiters (k\<lparr>k_futex_wait_tids := futex_index_insert key tid (k_futex_wait_tids k)\<rparr>) key' =
     (if key' = key then insert tid (futex_waiters k key) else futex_waiters k key')"
  by (auto simp: futex_waiters_def futex_index_insert_def bt_get_simps split: option.splits)

lemma futex_waiters_remove:
  "futex_waiters (k\<lparr>k_futex_wait_tids := futex_index_remove key tid (k_futex_wait_tids k)\<rparr>) key' =
     (if key' = key then futex_waiters k key - {tid} else futex_waiters k key')"
  by (auto simp: futex_waiters_def futex_index_remove_def bt_get_simps Let_def split: option.splits)

lemma futex_index_nonempty:
  assumes "\<forall>key waiters. bt_get m key = Some waiters \<longrightarrow> bs_set waiters \<noteq> {}"
  shows "bt_get (futex_index_insert key tid m) key' = Some waiters \<Longrightarrow> bs_set waiters \<noteq> {}"
    and "bt_get (futex_index_remove key tid m) key' = Some waiters \<Longrightarrow> bs_set waiters \<noteq> {}"
  using assms
  by (auto simp: futex_index_insert_def futex_index_remove_def bt_get_simps Let_def
      split: option.splits if_splits)

lemma index_of_index:
  assumes "index_of f k" "f tid = None"
  shows "index_of (f(tid \<mapsto> st)) (index_task_state tid st k)"
proof (cases st)
  case (WaitingForFutex key)
  with assms show ?thesis
    unfolding index_of_def
    by (auto simp: futex_waiters_insert dest: futex_index_nonempty(1) [rotated])
qed (use assms in \<open>auto simp: index_of_def futex_waiters_def\<close>)

lemma index_of_unindex:
  assumes "index_of f k" "f tid = Some st"
  shows "index_of (f(tid := None)) (unindex_task_state tid st k)"
proof (cases st)
  case (WaitingForFutex key)
  with assms show ?thesis
    unfolding index_of_def
    by (auto simp: futex_waiters_remove dest: futex_index_nonempty(2) [rotated])
qed (use assms in \<open>auto simp: index_of_def futex_waiters_def\<close>)

subsection \<open>Primitive updates keep the invariant\<close>

abbreviation put_state :: "guest_tid \<Rightarrow> task_state \<Rightarrow> guest_kernel \<Rightarrow> guest_kernel" where
  "put_state tid st k \<equiv> snd (set_task_state tid st k)"

lemma put_state_frame [simp]:
  "k_processes (put_state tid st k) = k_processes k"
  "k_next_pid (put_state tid st k) = k_next_pid k"
  "k_next_tid (put_state tid st k) = k_next_tid k"
  by (simp_all add: set_task_state_def Let_def split: option.splits)

lemma k_task_put_state [simp]:
  "k_task (put_state tid st k) tid' =
     (if tid' = tid then map_option (\<lambda>t. t\<lparr>t_state := st\<rparr>) (k_task k tid) else k_task k tid')"
  by (auto simp: set_task_state_def Let_def modify_task_def bt_get_modify split: option.splits)

lemma fst_set_task_state: "fst (set_task_state tid st k) = state_of k tid"
  by (simp add: set_task_state_def state_of_def Let_def split: option.splits)

lemma state_of_put_state:
  "state_of (put_state tid st k) tid' =
     (if tid' = tid \<and> state_of k tid \<noteq> None then Some st else state_of k tid')"
  by (auto simp: state_of_def)

lemma index_of_put_state:
  assumes "index_of (state_of k) k"
  shows "index_of (state_of (put_state tid st k)) (put_state tid st k)"
proof (cases "k_task k tid")
  case None
  with assms show ?thesis by (simp add: set_task_state_def)
next
  case (Some t)
  show ?thesis
  proof (cases "t_state t = st")
    case True
    with Some assms show ?thesis by (simp add: set_task_state_def)
  next
    case False
    let ?k = "unindex_task_state tid (t_state t) k"
    have "index_of ((state_of k)(tid := None)) ?k"
      using assms Some by (intro index_of_unindex) (simp_all add: state_of_def)
    then have "index_of ((state_of k)(tid := None))
        (modify_task tid (\<lambda>t. t\<lparr>t_state := st\<rparr>) ?k)"
      by simp
    from index_of_index [OF this, of tid st]
    have "index_of ((state_of k)(tid \<mapsto> st)) (put_state tid st k)"
      using Some False by (simp add: set_task_state_def Let_def)
    moreover have "state_of (put_state tid st k) = (state_of k)(tid \<mapsto> st)"
      using Some by (auto simp: state_of_put_state state_of_def)
    ultimately show ?thesis by simp
  qed
qed

lemma kernel_ok_put_state [intro]: "kernel_ok k \<Longrightarrow> kernel_ok (put_state tid st k)"
  by (auto simp: kernel_ok_def keys_ok_def index_of_put_state)

text \<open>An update of one task that keeps its identity, its state and the rule on its signal mask.\<close>

definition benign :: "(guest_task \<Rightarrow> guest_task) \<Rightarrow> bool" where
  "benign f \<longleftrightarrow> (\<forall>t. t_tid (f t) = t_tid t \<and> t_pid (f t) = t_pid t \<and> t_state (f t) = t_state t
     \<and> (t_signal_mask t AND unblockable_signal_mask = 0 \<longrightarrow>
        t_signal_mask (f t) AND unblockable_signal_mask = 0))"

lemma state_of_modify_task:
  assumes "benign f"
  shows "state_of (modify_task tid f k) = state_of k"
  using assms by (auto simp: state_of_def fun_eq_iff benign_def option.map_comp comp_def)

lemma kernel_ok_modify_task [intro]:
  assumes "kernel_ok k" "benign f"
  shows "kernel_ok (modify_task tid f k)"
  using assms by (auto simp: kernel_ok_def keys_ok_def state_of_modify_task benign_def)

text \<open>An update of one process that keeps its identity and its place in the family tree.\<close>

definition family_neutral :: "(guest_process \<Rightarrow> guest_process) \<Rightarrow> bool" where
  "family_neutral f \<longleftrightarrow> (\<forall>p. p_pid (f p) = p_pid p \<and> p_parent (f p) = p_parent p
     \<and> p_children (f p) = p_children p \<and> (image_ok (p_image p) \<longrightarrow> image_ok (p_image (f p))))"

lemma family_ok_cong:
  assumes "\<And>pid. parent_of ps' pid = parent_of ps pid" "\<And>pid. children_of ps' pid = children_of ps pid"
    and "\<And>pid. ps' pid = None \<longleftrightarrow> ps pid = None"
  shows "family_ok ps' = family_ok ps"
  by (simp add: family_ok_def assms)

lemma family_ok_neutral:
  assumes "family_neutral f"
  shows "family_ok (bt_get (k_processes (modify_process pid f k))) = family_ok (bt_get (k_processes k))"
  using assms
  by (intro family_ok_cong)
    (auto simp: parent_of_def children_of_def family_neutral_def split: option.splits)

lemma kernel_ok_modify_process [intro]:
  assumes "kernel_ok k" "family_neutral f"
  shows "kernel_ok (modify_process pid f k)"
  using assms
  by (auto simp: kernel_ok_def family_ok_neutral) (auto simp: keys_ok_def family_neutral_def)

lemma kernel_ok_next:
  assumes "kernel_ok k"
  shows "k_next_pid k \<le> np \<Longrightarrow> kernel_ok (k\<lparr>k_next_pid := np\<rparr>)"
    and "k_next_tid k \<le> nt \<Longrightarrow> kernel_ok (k\<lparr>k_next_tid := nt\<rparr>)"
  using assms by (auto simp: kernel_ok_def keys_ok_def) (meson less_le_trans)+

lemma kernel_ok_allocate [intro]:
  assumes "kernel_ok k"
  shows "kernel_ok (snd (allocate_pid k))" "kernel_ok (snd (allocate_tid k))"
  using assms pids.alloc_mono [of k] tids.alloc_mono [of k]
  by (auto simp: allocate_pid_def allocate_tid_def split: option.splits intro: kernel_ok_next)

section \<open>The scheduler's view\<close>

text \<open>
  What the wait, signal and exit code relies on of the task table: a state change is seen by
  every later look-up, keeps the invariant, and the set of runnable tasks is exactly the set of
  tasks whose state is \<open>Runnable\<close>.
\<close>

locale state_table =
  fixes inv :: "'k \<Rightarrow> bool"
    and state :: "'k \<Rightarrow> guest_tid \<Rightarrow> task_state option"
    and put :: "guest_tid \<Rightarrow> task_state \<Rightarrow> 'k \<Rightarrow> 'k"
    and ready :: "'k \<Rightarrow> guest_tid set"
  assumes inv_put: "inv k \<Longrightarrow> inv (put t s k)"
    and state_put: "state (put t s k) t' = (if t' = t \<and> state k t \<noteq> None then Some s else state k t')"
    and ready_state: "inv k \<Longrightarrow> ready k = {t. state k t = Some Runnable}"
begin

lemma inv_fold: "inv k \<Longrightarrow> inv (fold (\<lambda>t. put t s) ts k)"
  by (induction ts arbitrary: k) (simp_all add: inv_put)

lemma state_fold:
  "state (fold (\<lambda>t. put t s) ts k) t' =
     (if t' \<in> set ts \<and> state k t' \<noteq> None then Some s else state k t')"
  by (induction ts arbitrary: k) (auto simp: state_put)

lemma ready_fold_Runnable:
  "inv k \<Longrightarrow> ready (fold (\<lambda>t. put t Runnable) ts k) = ready k \<union> {t \<in> set ts. state k t \<noteq> None}"
  by (auto simp: ready_state inv_fold state_fold)

lemma ready_fold_blocked:
  "inv k \<Longrightarrow> s \<noteq> Runnable \<Longrightarrow> ready (fold (\<lambda>t. put t s) ts k) = ready k - set ts"
  by (auto simp: ready_state inv_fold state_fold split: if_splits)

end

lemma runnable_tids_state:
  "kernel_ok k \<Longrightarrow> bs_set (k_runnable_tids k) = {t. state_of k t = Some Runnable}"
  by (simp add: kernel_ok_def index_of_def)

interpretation sched: state_table kernel_ok state_of put_state "\<lambda>k. bs_set (k_runnable_tids k)"
  by unfold_locales (rule kernel_ok_put_state, assumption, rule state_of_put_state,
    rule runnable_tids_state)

section \<open>Insertion and removal\<close>

lemma insert_task_frame [simp]:
  "k_processes (insert_task t k) = k_processes k"
  "k_next_pid (insert_task t k) = k_next_pid k"
  "k_next_tid (insert_task t k) = k_next_tid k"
  "k_task (insert_task t k) tid = (if tid = t_tid t then Some t else k_task k tid)"
  by (simp_all add: insert_task_def Let_def bt_get_insert)

lemma state_of_insert_task: "state_of (insert_task t k) = (state_of k)(t_tid t \<mapsto> t_state t)"
  by (auto simp: state_of_def)

lemma kernel_ok_insert_task:
  assumes "kernel_ok k" "k_task k (t_tid t) = None" "t_tid t < k_next_tid k"
    and "k_process k (t_pid t) \<noteq> None" "t_signal_mask t AND unblockable_signal_mask = 0"
  shows "kernel_ok (insert_task t k)"
proof -
  have "index_of ((state_of k)(t_tid t \<mapsto> t_state t)) (index_task_state (t_tid t) (t_state t) k)"
    using assms by (intro index_of_index) (simp_all add: kernel_ok_def state_of_def)
  then have "index_of (state_of (insert_task t k)) (insert_task t k)"
    unfolding state_of_insert_task by (simp add: insert_task_def Let_def)
  then show ?thesis
    using assms by (auto simp: kernel_ok_def keys_ok_def)
qed

lemma remove_task_frame [simp]:
  "k_processes (snd (remove_task tid k)) = k_processes k"
  "k_next_pid (snd (remove_task tid k)) = k_next_pid k"
  "k_next_tid (snd (remove_task tid k)) = k_next_tid k"
  "k_task (snd (remove_task tid k)) tid' = (if tid' = tid then None else k_task k tid')"
  by (auto simp: remove_task_def bt_get_remove split: option.splits)

lemma kernel_ok_remove_task [intro]:
  assumes "kernel_ok k"
  shows "kernel_ok (snd (remove_task tid k))"
proof (cases "k_task k tid")
  case None
  with assms show ?thesis by (simp add: remove_task_def)
next
  case (Some t)
  then have tid: "t_tid t = tid" using assms by (simp add: kernel_ok_def keys_ok_def)
  have "index_of ((state_of k)(tid := None)) (unindex_task_state tid (t_state t) k)"
    using assms Some by (intro index_of_unindex) (simp_all add: kernel_ok_def state_of_def)
  moreover have "state_of (snd (remove_task tid k)) = (state_of k)(tid := None)"
    by (auto simp: state_of_def)
  moreover have "unindex_task_state tid (t_state t) (k\<lparr>k_tasks := bt_remove tid (k_tasks k)\<rparr>)
      = (unindex_task_state tid (t_state t) k)\<lparr>k_tasks := bt_remove tid (k_tasks k)\<rparr>"
    by (cases "t_state t") simp_all
  ultimately have "index_of (state_of (snd (remove_task tid k))) (snd (remove_task tid k))"
    using Some tid by (simp add: remove_task_def)
  then show ?thesis
    using assms by (auto simp: kernel_ok_def keys_ok_def)
qed

lemma kernel_ok_empty: "kernel_ok kernel_empty"
  by (auto simp: kernel_ok_def keys_ok_def family_ok_def parent_of_def children_of_def index_of_def
      kernel_empty_def futex_waiters_def state_of_def)

text \<open>Adding a process under a number above all others: without a parent, or as a child that its
  live parent lists.\<close>

definition pid_fresh :: "guest_pid \<Rightarrow> guest_kernel \<Rightarrow> bool" where
  "pid_fresh pid k \<longleftrightarrow> (\<forall>q. k_process k q \<noteq> None \<longrightarrow> q < pid) \<and> pid < k_next_pid k"

definition add_process :: "guest_pid \<Rightarrow> guest_process \<Rightarrow> guest_kernel \<Rightarrow> guest_kernel" where
  "add_process pid p k = k\<lparr>k_processes := bt_insert pid p (k_processes k)\<rparr>"

definition add_child :: "guest_pid \<Rightarrow> guest_process \<Rightarrow> guest_process" where
  "add_child c p = p\<lparr>p_children := bs_insert c (p_children p)\<rparr>"

lemma add_process_frame [simp]:
  "k_tasks (add_process pid p k) = k_tasks k"
  "k_next_pid (add_process pid p k) = k_next_pid k"
  "k_next_tid (add_process pid p k) = k_next_tid k"
  "k_process (add_process pid p k) q = (if q = pid then Some p else k_process k q)"
  "state_of (add_process pid p k) = state_of k"
  "index_of f (add_process pid p k) = index_of f k"
  by (simp_all add: add_process_def bt_get_insert)

lemma pid_fresh_None: "pid_fresh pid k \<Longrightarrow> k_process k pid = None"
  by (auto simp: pid_fresh_def)

lemma family_okD:
  assumes "family_ok ps"
  shows "c \<in> children_of ps pid \<Longrightarrow> parent_of ps c = Some pid"
    and "parent_of ps pid = Some pp \<Longrightarrow> pp < pid"
    and "parent_of ps pid = Some pp \<Longrightarrow> ps pp \<noteq> None \<Longrightarrow> pid \<in> children_of ps pp"
  using assms unfolding family_ok_def by blast+

lemma parent_of_dom: "parent_of ps q = Some pp \<Longrightarrow> ps q \<noteq> None"
  by (cases "ps q") (simp_all add: parent_of_def)

lemma kernel_ok_family: "kernel_ok k \<Longrightarrow> family_ok (bt_get (k_processes k))"
  by (simp add: kernel_ok_def)

lemma family_fresh_not_parent:
  assumes "kernel_ok k" "pid_fresh pid k" "parent_of (bt_get (k_processes k)) q = Some pp"
  shows "pp \<noteq> pid" "q \<noteq> pid"
proof -
  have "k_process k q \<noteq> None" using assms(3) by (rule parent_of_dom)
  then have "q < pid" using assms(2) by (simp add: pid_fresh_def)
  moreover have "pp < q"
    using family_okD(2) [OF kernel_ok_family [OF assms(1)] assms(3)] .
  ultimately show "pp \<noteq> pid" "q \<noteq> pid" by auto
qed

lemma kernel_ok_insert_root:
  assumes ok: "kernel_ok k" and fresh: "pid_fresh pid k"
    and p: "p_pid p = pid" "p_parent p = None" "bs_set (p_children p) = {}" "image_ok (p_image p)"
  shows "kernel_ok (add_process pid p k)"
proof -
  let ?ps = "bt_get (k_processes k)" and ?ps' = "bt_get (k_processes (add_process pid p k))"
  have none: "?ps pid = None" using fresh by (rule pid_fresh_None)
  have par: "parent_of ?ps' q = parent_of ?ps q" and ch: "children_of ?ps' q = children_of ?ps q" for q
    using p none by (auto simp: parent_of_def children_of_def)
  have dom: "?ps' q \<noteq> None \<longleftrightarrow> q = pid \<or> ?ps q \<noteq> None" for q
    by auto
  have "family_ok ?ps'"
    unfolding family_ok_def par ch dom
    using family_okD [OF kernel_ok_family [OF ok]] family_fresh_not_parent [OF ok fresh]
    by blast
  then show ?thesis
    using ok p fresh none by (auto simp: kernel_ok_def keys_ok_def pid_fresh_def)
qed

lemma kernel_ok_insert_child:
  assumes ok: "kernel_ok k" and fresh: "pid_fresh pid k" and parent: "k_process k pp \<noteq> None"
    and p: "p_pid p = pid" "p_parent p = Some pp" "bs_set (p_children p) = {}" "image_ok (p_image p)"
  shows "kernel_ok (modify_process pp (add_child pid) (add_process pid p k))"
proof -
  let ?k = "modify_process pp (add_child pid) (add_process pid p k)"
  let ?ps = "bt_get (k_processes k)" and ?ps' = "bt_get (k_processes ?k)"
  have none: "?ps pid = None" using fresh by (rule pid_fresh_None)
  have lt: "pp < pid" using fresh parent by (simp add: pid_fresh_def)
  have par: "parent_of ?ps' q = (if q = pid then Some pp else parent_of ?ps q)" for q
    using p lt by (auto simp: parent_of_def add_child_def split: option.splits)
  have ch: "children_of ?ps' q = (if q = pp then insert pid (children_of ?ps q) else children_of ?ps q)"
    for q
    using p lt none parent by (auto simp: children_of_def add_child_def split: option.splits)
  have dom: "?ps' q \<noteq> None \<longleftrightarrow> q = pid \<or> ?ps q \<noteq> None" for q
    using lt by auto
  have notin: "pid \<notin> children_of ?ps q" for q
    using family_okD(1) [OF kernel_ok_family [OF ok]] parent_of_dom none by blast
  have "family_ok ?ps'"
    unfolding family_ok_def par ch dom
    using family_okD [OF kernel_ok_family [OF ok]] family_fresh_not_parent [OF ok fresh] lt notin
    by (metis insert_iff option.inject)
  moreover have "keys_ok ?k"
    using ok p fresh none lt by (auto simp: kernel_ok_def keys_ok_def pid_fresh_def add_child_def)
  ultimately show ?thesis
    using ok by (simp add: kernel_ok_def)
qed

text \<open>A new kernel satisfies the invariant.\<close>

lemma fd_with_stdio_not_Panic: "fd_with_stdio \<noteq> Panic"
  by (simp add: fd_with_stdio_def fd_insert_exact_def fd_table_new_def bt_contains_def bt_get_insert)

text \<open>The kernel that \<open>create_initial_process\<close> builds around a loaded image.\<close>

definition boot_process :: "guest_image_state \<Rightarrow> guest_fd_table \<Rightarrow> guest_process" where
  "boot_process img files = \<lparr>p_pid = 1, p_parent = None, p_pgid = 1, p_sid = 1, p_image = img,
     p_files = files, p_signals = signal_state_default, p_pending_signals = bt_empty,
     p_children = bt_empty, p_exit_state = Running\<rparr>"

definition boot_kernel :: "guest_image_state \<Rightarrow> guest_fd_table \<Rightarrow> guest_kernel" where
  "boot_kernel img files = insert_task (task_initial 1 1 (gis_memory img))
     (add_process 1 (boot_process img files) (kernel_empty\<lparr>k_next_pid := 2, k_next_tid := 2\<rparr>))"

lemma kernel_new_Ok:
  "kernel_new program = Ok k \<longleftrightarrow> (\<exists>img files. load_program program = Ok img
     \<and> fd_with_stdio = Ok files \<and> k = boot_kernel img files)"
  by (auto simp: kernel_new_def create_initial_process_def allocate_pid_def allocate_tid_def
      kernel_empty_def INITIAL_GUEST_PID_def INITIAL_GUEST_TID_def checked_add_def result_simps
      Let_def add_process_def boot_kernel_def boot_process_def)

lemma boot_kernel_ok [simp]:
  assumes "image_ok img"
  shows "kernel_ok (boot_kernel img files)"
proof -
  have "kernel_ok (kernel_empty\<lparr>k_next_pid := 2, k_next_tid := 2\<rparr>)"
    by (intro kernel_ok_next kernel_ok_empty)
      (simp_all add: kernel_empty_def INITIAL_GUEST_PID_def INITIAL_GUEST_TID_def)
  then show ?thesis
    unfolding boot_kernel_def
    by (intro kernel_ok_insert_task kernel_ok_insert_root)
      (simp_all add: pid_fresh_def kernel_empty_def task_initial_def boot_process_def assms)
qed

lemma kernel_new_ok: "kernel_new program = Ok k \<Longrightarrow> kernel_ok k"
  unfolding kernel_new_Ok by (metis boot_kernel_ok image_ok_def)

lemma boot_kernel_simps [simp]:
  "k_task (boot_kernel img files) tid = (if tid = 1 then Some (task_initial 1 1 (gis_memory img)) else None)"
  "k_process (boot_kernel img files) pid = (if pid = 1 then Some (boot_process img files) else None)"
  "k_next_pid (boot_kernel img files) = 2"
  "k_next_tid (boot_kernel img files) = 2"
  by (simp_all add: boot_kernel_def task_initial_def kernel_empty_def)

text \<open>The one-segment executable of the loader theories boots with the default stack.\<close>

definition tiny_program :: guest_program where
  "tiny_program = program_new \<lparr>exe_path = [47, 97], exe_bytes = tiny_elf\<rparr>"

lemma tiny_program_loads: "\<exists>img. load_program tiny_program = Ok img"
proof -
  let ?cfg = "with_envp [] (with_argv [[47, 97]]
    (stack_config_new DEFAULT_STACK_TOP DEFAULT_STACK_SIZE [47, 97]))"
  have "\<exists>img. build_guest_memory_image_with_interpreter tiny_plan tiny_elf None ?cfg = Ok img"
    by (rule tiny_image)
      (simp_all add: with_interpreter_base_def with_executable_load_bias_def with_envp_def
        with_argv_def stack_config_new_def DEFAULT_STACK_TOP_def DEFAULT_STACK_SIZE_def
        config_typed_def AT_RANDOM_BYTES_def ISIZE_MAX_def validate_stack_config_def
        validate_no_interior_nul_def validate_no_interior_nul_entries_def DEFAULT_PLATFORM_def
        stack_needed_def strings_size_def)
  then show ?thesis
    by (auto simp: load_program_def tiny_program_def program_new_def tiny_elf_plan)
qed

text \<open>The image of this program, by which the examples of later theories run.\<close>

definition tiny_image_state :: guest_image_state where
  "tiny_image_state = (case load_program tiny_program of Ok img \<Rightarrow> img)"

lemma tiny_image_state: "load_program tiny_program = Ok tiny_image_state"
  using tiny_program_loads by (auto simp: tiny_image_state_def)

lemma image_ok_tiny [simp]: "image_ok tiny_image_state"
  using tiny_image_state by (auto simp: image_ok_def)

text \<open>An image that the loader produced can be produced again with its default arguments.\<close>

lemma reload_not_Panic:
  assumes "image_ok img"
  shows "load_program \<lparr>gp_executable = gis_executable img, gp_interpreter = gis_interpreter img,
    gp_argv = argv, gp_envp = envp\<rparr> \<noteq> Panic"
proof -
  obtain program where p: "load_program program = Ok img" using assms by (auto simp: image_ok_def)
  obtain plan memory config where plan: "parse_load_plan (exe_bytes (gp_executable program)) = Ok plan"
    and mem: "build_guest_memory_image_with_interpreter plan (exe_bytes (gp_executable program))
      (map_option exe_bytes (gp_interpreter program)) config = Ok memory"
    and img: "gis_executable img = gp_executable program" "gis_interpreter img = gp_interpreter program"
    using p by (auto simp: load_program_def result_simps)
  have "build_guest_memory_image_with_interpreter plan (exe_bytes (gp_executable program))
      (map_option exe_bytes (gp_interpreter program)) (with_envp envp (with_argv argv
        (stack_config_new DEFAULT_STACK_TOP DEFAULT_STACK_SIZE path))) \<noteq> Panic" for path
    by (rule build_image_again [OF plan mem])
      (simp_all add: config_typed_def with_envp_def with_argv_def stack_config_new_def AT_RANDOM_BYTES_def
        DEFAULT_STACK_SIZE_def ISIZE_MAX_def)
  then show ?thesis
    by (simp add: load_program_def img plan result_simps)
qed

end
