(* ===== verification/Task_Clone.thy ===== *)
theory Task_Clone
  imports Task_Kernel
begin

text \<open>
  Process and thread creation and program replacement (\<open>kernel/clone.rs\<close>,
  \<open>kernel/exec.rs\<close>).  The decoded trace fields of a syscall outcome are not modelled, so the
  \<open>"fork"\<close>, \<open>"vfork"\<close> and \<open>"clone"\<close> labels of the source have no counterpart.
\<close>

section \<open>Creation\<close>

definition fork_child_task ::
  "guest_tid \<Rightarrow> guest_kernel \<Rightarrow> (task_error + guest_pid \<times> guest_tid) \<times> guest_kernel" where
  "fork_child_task tid k =
     (case k_task k tid of
        None \<Rightarrow> (Inl (UnknownTid tid), k)
      | Some parent_task \<Rightarrow>
          let parent_pid = t_pid parent_task in
          (case k_process k parent_pid of
             None \<Rightarrow> (Inl (UnknownPid parent_pid), k)
           | Some parent \<Rightarrow>
               if p_exit_state parent \<noteq> Running then (Inl (UnknownPid parent_pid), k)
               else (case allocate_pid k of
                  (Inr child_pid, k) \<Rightarrow>
                    (case allocate_tid k of
                       (Inr child_tid, k) \<Rightarrow>
                         let child_task = parent_task\<lparr>t_pid := child_pid, t_tid := child_tid,
                               t_state := Runnable, t_pending_signals := bt_empty,
                               t_pending_signal_delivery := None\<rparr>;
                             child = \<lparr>p_pid = child_pid, p_parent = Some parent_pid,
                               p_pgid = p_pgid parent, p_sid = p_sid parent,
                               p_image = p_image parent, p_files = p_files parent,
                               p_signals = p_signals parent, p_pending_signals = bt_empty,
                               p_children = bt_empty, p_exit_state = Running\<rparr>;
                             k = add_process child_pid child k;
                             k = insert_task child_task k
                         in (case k_process k parent_pid of
                               None \<Rightarrow> (Inl (UnknownPid parent_pid), k)
                             | Some _ \<Rightarrow>
                                 (Inr (child_pid, child_tid),
                                  modify_process parent_pid (add_child child_pid) k))
                     | (Inl e, k) \<Rightarrow> (Inl e, k))
                | (Inl e, k) \<Rightarrow> (Inl e, k))))"

definition fork_child :: "guest_tid \<Rightarrow> guest_kernel \<Rightarrow> (task_error + guest_pid) \<times> guest_kernel" where
  "fork_child tid k =
     (case fork_child_task tid k of
        (Inl e, k) \<Rightarrow> (Inl e, k)
      | (Inr (child_pid, _), k) \<Rightarrow> (Inr child_pid, k))"

definition set_regs :: "gpr_state \<Rightarrow> guest_task \<Rightarrow> guest_task" where
  "set_regs regs task = task\<lparr>t_regs := regs\<rparr>"

definition fork_like_current_with_child_regs_and_maybe_block_parent ::
  "guest_tid \<Rightarrow> gpr_state \<Rightarrow> bool \<Rightarrow> guest_kernel \<Rightarrow> syscall_outcome \<times> guest_kernel" where
  "fork_like_current_with_child_regs_and_maybe_block_parent tid child_regs block_parent_for_vfork k =
     (case fork_child_task tid k of
        (Inr (child_pid, child_tid), k) \<Rightarrow>
          let k = modify_task child_tid (set_regs child_regs) k;
              k = (if block_parent_for_vfork then put_state tid (WaitingForVfork child_pid) k else k)
          in (outcome_success (ucast child_pid), k)
      | (Inl e, k) \<Rightarrow> (into_outcome e, k))"

definition fork_like_current_and_maybe_block_parent ::
  "guest_tid \<Rightarrow> guest_address \<Rightarrow> bool \<Rightarrow> guest_kernel \<Rightarrow> syscall_outcome \<times> guest_kernel" where
  "fork_like_current_and_maybe_block_parent tid child_return_rip block_parent_for_vfork k =
     (case fork_child_task tid k of
        (Inr (child_pid, child_tid), k) \<Rightarrow>
          let k = modify_task child_tid
                    (\<lambda>task. set_regs (with_syscall_return (t_regs task) child_return_rip 0) task) k;
              k = (if block_parent_for_vfork then put_state tid (WaitingForVfork child_pid) k else k)
          in (outcome_success (ucast child_pid), k)
      | (Inl e, k) \<Rightarrow> (into_outcome e, k))"

definition fork_like_current ::
  "guest_tid \<Rightarrow> guest_address \<Rightarrow> guest_kernel \<Rightarrow> syscall_outcome \<times> guest_kernel" where
  "fork_like_current tid child_return_rip k =
     fork_like_current_and_maybe_block_parent tid child_return_rip False k"

definition fork_current :: "guest_tid \<Rightarrow> guest_kernel \<Rightarrow> syscall_outcome \<times> guest_kernel" where
  "fork_current tid k = fork_like_current tid (current_syscall_return_rip k tid) k"

definition vfork_current :: "guest_tid \<Rightarrow> guest_kernel \<Rightarrow> syscall_outcome \<times> guest_kernel" where
  "vfork_current tid k =
     fork_like_current_and_maybe_block_parent tid (current_syscall_return_rip k tid) True k"

definition fork_like_current_with_child_regs ::
  "guest_tid \<Rightarrow> gpr_state \<Rightarrow> guest_kernel \<Rightarrow> syscall_outcome \<times> guest_kernel" where
  "fork_like_current_with_child_regs tid child_regs k =
     fork_like_current_with_child_regs_and_maybe_block_parent tid child_regs False k"

definition fork_current_with_child_regs ::
  "guest_tid \<Rightarrow> gpr_state \<Rightarrow> guest_kernel \<Rightarrow> syscall_outcome \<times> guest_kernel" where
  "fork_current_with_child_regs tid child_regs k =
     fork_like_current_with_child_regs tid child_regs k"

definition vfork_current_with_child_regs ::
  "guest_tid \<Rightarrow> gpr_state \<Rightarrow> guest_kernel \<Rightarrow> syscall_outcome \<times> guest_kernel" where
  "vfork_current_with_child_regs tid child_regs k =
     fork_like_current_with_child_regs_and_maybe_block_parent tid child_regs True k"

definition is_supported_fork_like_clone :: "u64 \<Rightarrow> bool" where
  "is_supported_fork_like_clone flags \<longleftrightarrow>
     (let semantic_flags = flags AND NOT LINUX_CLONE_EXIT_SIGNAL_MASK;
          exit_signal = flags AND LINUX_CLONE_EXIT_SIGNAL_MASK in
      (exit_signal = 0 \<or> exit_signal = LINUX_SIGCHLD)
      \<and> (semantic_flags = 0 \<or> semantic_flags = (LINUX_CLONE_VM OR LINUX_CLONE_VFORK))
      \<and> flags AND NOT (LINUX_CLONE_EXIT_SIGNAL_MASK OR LINUX_CLONE_VM OR LINUX_CLONE_VFORK) = 0)"

definition clone_fork_like_child_regs :: "clone_args \<Rightarrow> gpr_state \<Rightarrow> gpr_state" where
  "clone_fork_like_child_regs args child_regs =
     (if clone_child_stack args \<noteq> 0 then child_regs\<lparr>rsp := clone_child_stack args\<rparr> else child_regs)"

definition THREAD_REQUIRED :: u64 where
  "THREAD_REQUIRED = LINUX_CLONE_VM OR LINUX_CLONE_FS OR LINUX_CLONE_FILES OR LINUX_CLONE_SIGHAND
     OR LINUX_CLONE_THREAD"

definition THREAD_OPTIONAL :: u64 where
  "THREAD_OPTIONAL = LINUX_CLONE_SYSVSEM OR LINUX_CLONE_SETTLS OR LINUX_CLONE_PARENT_SETTID
     OR LINUX_CLONE_CHILD_CLEARTID OR LINUX_CLONE_CHILD_SETTID OR LINUX_CLONE_DETACHED"

definition is_supported_thread_clone :: "u64 \<Rightarrow> bool" where
  "is_supported_thread_clone flags \<longleftrightarrow>
     flags AND LINUX_CLONE_EXIT_SIGNAL_MASK = 0
     \<and> flags AND THREAD_REQUIRED = THREAD_REQUIRED
     \<and> flags AND NOT (THREAD_REQUIRED OR THREAD_OPTIONAL) = 0"

definition thread_current_with_child_regs ::
  "guest_tid \<Rightarrow> clone_args \<Rightarrow> gpr_state \<Rightarrow> guest_kernel \<Rightarrow> syscall_outcome \<times> guest_kernel" where
  "thread_current_with_child_regs tid args child_regs k =
     (if \<not> is_supported_thread_clone (clone_flags args)
      then (into_outcome (InvalidCloneFlags (clone_flags args)), k)
      else case k_task k tid of
        None \<Rightarrow> (outcome_errno ESRCH, k)
      | Some parent_task \<Rightarrow>
          if \<not> bt_contains (k_processes k) (t_pid parent_task) then (outcome_errno ESRCH, k)
          else (case allocate_tid k of
             (Inr child_tid, k) \<Rightarrow>
               let child_regs = (if clone_child_stack args \<noteq> 0
                     then child_regs\<lparr>rsp := clone_child_stack args\<rparr> else child_regs);
                   child_task = parent_task\<lparr>t_tid := child_tid, t_regs := child_regs,
                     t_state := Runnable, t_pending_signals := bt_empty,
                     t_pending_signal_delivery := None, t_robust_list := None,
                     t_clear_child_tid :=
                       (if has_clone_child_cleartid args \<and> clone_child_tid args \<noteq> 0
                        then Some (clone_child_tid args) else None)\<rparr>;
                   child_task = (if has_clone_settls args
                     then child_task\<lparr>t_tls := (t_tls child_task)\<lparr>fs_base := clone_tls args\<rparr>\<rparr>
                     else child_task)
               in (outcome_success (ucast child_tid), insert_task child_task k)
           | (Inl e, k) \<Rightarrow> (into_outcome e, k)))"

definition clone_fork_like_current ::
  "guest_tid \<Rightarrow> clone_args \<Rightarrow> guest_address \<Rightarrow> guest_kernel \<Rightarrow> syscall_outcome \<times> guest_kernel" where
  "clone_fork_like_current tid args child_return_rip k =
     (case k_task k tid of
        None \<Rightarrow> (outcome_errno ESRCH, k)
      | Some task \<Rightarrow>
          fork_like_current_with_child_regs_and_maybe_block_parent tid
            (clone_fork_like_child_regs args (with_syscall_return (t_regs task) child_return_rip 0))
            (has_clone_vfork args) k)"

definition clone_current_with_return ::
  "guest_tid \<Rightarrow> clone_args \<Rightarrow> guest_address \<Rightarrow> guest_kernel \<Rightarrow> syscall_outcome \<times> guest_kernel" where
  "clone_current_with_return tid args child_return_rip k =
     (if has_clone_thread args
      then (case k_task k tid of
              None \<Rightarrow> (outcome_errno ESRCH, k)
            | Some task \<Rightarrow> thread_current_with_child_regs tid args
                (with_syscall_return (t_regs task) child_return_rip 0) k)
      else if \<not> is_supported_fork_like_clone (clone_flags args)
      then (into_outcome (InvalidCloneFlags (clone_flags args)), k)
      else clone_fork_like_current tid args child_return_rip k)"

definition clone_current ::
  "guest_tid \<Rightarrow> clone_args \<Rightarrow> guest_kernel \<Rightarrow> syscall_outcome \<times> guest_kernel" where
  "clone_current tid args k =
     clone_current_with_return tid args (current_syscall_return_rip k tid) k"

definition clone_current_with_child_regs ::
  "guest_tid \<Rightarrow> clone_args \<Rightarrow> gpr_state \<Rightarrow> guest_kernel \<Rightarrow> syscall_outcome \<times> guest_kernel" where
  "clone_current_with_child_regs tid args child_regs k =
     (if has_clone_thread args then thread_current_with_child_regs tid args child_regs k
      else if \<not> is_supported_fork_like_clone (clone_flags args)
      then (into_outcome (InvalidCloneFlags (clone_flags args)), k)
      else fork_like_current_with_child_regs_and_maybe_block_parent tid
             (clone_fork_like_child_regs args child_regs) (has_clone_vfork args) k)"

section \<open>Release of a vfork parent and exec\<close>

definition vfork_waiters :: "guest_pid \<Rightarrow> guest_pid \<Rightarrow> guest_kernel \<Rightarrow> guest_tid list" where
  "vfork_waiters parent_pid child_pid k =
     map t_tid (filter (\<lambda>task. t_pid task = parent_pid \<and> t_state task = WaitingForVfork child_pid)
       (bt_values (k_tasks k)))"

definition resume_vfork_parent :: "guest_pid \<Rightarrow> guest_kernel \<Rightarrow> guest_kernel" where
  "resume_vfork_parent child_pid k =
     (case Option.bind (k_process k child_pid) p_parent of
        None \<Rightarrow> k
      | Some parent_pid \<Rightarrow>
          fold (\<lambda>tid. put_state tid Runnable) (vfork_waiters parent_pid child_pid k) k)"

definition exec_process :: "guest_image_state \<Rightarrow> guest_process \<Rightarrow> guest_process" where
  "exec_process img process =
     process\<lparr>p_files := close_on_exec (p_files process), p_image := img, p_exit_state := Running\<rparr>"

definition exec_thread :: "guest_memory_image \<Rightarrow> guest_task \<Rightarrow> guest_task" where
  "exec_thread memory task =
     task\<lparr>t_regs := gpr_new (gi_entrypoint memory) (gi_initial_stack_pointer memory),
          t_tls := tls_new, t_robust_list := None, t_clear_child_tid := None\<rparr>"

definition exec_task ::
  "guest_tid \<Rightarrow> guest_program \<Rightarrow> guest_kernel \<Rightarrow> unit task_result \<times> guest_kernel" where
  "exec_task tid program k =
     (case k_task k tid of
        None \<Rightarrow> (Err (UnknownTid tid), k)
      | Some task \<Rightarrow>
          let pid = t_pid task in
          (case load_program program of
             Err e \<Rightarrow> (Err e, k)
           | Panic \<Rightarrow> (Panic, k)
           | Ok img \<Rightarrow>
               (case k_process k pid of
                  None \<Rightarrow> (Err (UnknownPid pid), k)
                | Some _ \<Rightarrow>
                    let k = modify_process pid (exec_process img) k;
                        k = modify_task tid (exec_thread (gis_memory img)) k;
                        k = put_state tid Runnable k
                    in (Ok (), resume_vfork_parent pid k))))"

definition execve_current ::
  "guest_tid \<Rightarrow> guest_program \<Rightarrow> guest_kernel \<Rightarrow> (syscall_outcome, task_error) result \<times> guest_kernel" where
  "execve_current tid program k =
     (case exec_task tid program k of
        (Ok _, k) \<Rightarrow> (Ok (outcome_success 0), k)
      | (Err e, k) \<Rightarrow> (Ok (into_outcome e), k)
      | (Panic, k) \<Rightarrow> (Panic, k))"

section \<open>The invariant\<close>

lemma benign_set_regs [simp]: "benign (set_regs regs)" "benign (\<lambda>t. set_regs (f t) t)"
  by (simp_all add: benign_def set_regs_def)

lemma benign_exec_thread [simp]: "benign (exec_thread memory)"
  by (simp add: benign_def exec_thread_def)

lemma family_neutral_exec_process: "image_ok img \<Longrightarrow> family_neutral (exec_process img)"
  by (simp add: family_neutral_def exec_process_def)

lemma modify_process_insert_task:
  "modify_process pid f (insert_task t k) = insert_task t (modify_process pid f k)"
  by (cases "t_state t") (simp_all add: modify_process_def insert_task_def)

text \<open>The task and the process that a successful fork adds.\<close>

definition forked_task :: "guest_pid \<Rightarrow> guest_tid \<Rightarrow> guest_task \<Rightarrow> guest_task" where
  "forked_task child_pid child_tid t = t\<lparr>t_pid := child_pid, t_tid := child_tid, t_state := Runnable,
     t_pending_signals := bt_empty, t_pending_signal_delivery := None\<rparr>"

definition forked_process :: "guest_pid \<Rightarrow> guest_pid \<Rightarrow> guest_process \<Rightarrow> guest_process" where
  "forked_process child_pid parent_pid p = \<lparr>p_pid = child_pid, p_parent = Some parent_pid,
     p_pgid = p_pgid p, p_sid = p_sid p, p_image = p_image p, p_files = p_files p,
     p_signals = p_signals p, p_pending_signals = bt_empty, p_children = bt_empty,
     p_exit_state = Running\<rparr>"

lemma fork_child_task_Inr:
  assumes "fork_child_task tid k = (Inr (cp, ct), k')"
  obtains t p np nt where
    "k_task k tid = Some t" "k_process k (t_pid t) = Some p" "p_exit_state p = Running"
    "cp = k_next_pid k" "ct = k_next_tid k"
    "unat np = unat cp + 1" "unat nt = unat ct + 1"
    "k' = insert_task (forked_task cp ct t) (modify_process (t_pid t) (add_child cp)
       (add_process cp (forked_process cp (t_pid t) p)
         (k\<lparr>k_next_pid := np, k_next_tid := nt\<rparr>)))"
proof -
  obtain t p k1 k2 where t: "k_task k tid = Some t" and p: "k_process k (t_pid t) = Some p"
    "p_exit_state p = Running"
    and a: "allocate_pid k = (Inr cp, k1)" "allocate_tid k1 = (Inr ct, k2)"
    and k': "k' = modify_process (t_pid t) (add_child cp) (insert_task (forked_task cp ct t)
       (add_process cp (forked_process cp (t_pid t) p) k2))"
    using assms
    by (auto simp: fork_child_task_def Let_def forked_task_def forked_process_def
        split: option.splits if_splits sum.splits prod.splits)
  obtain np where np: "k1 = k\<lparr>k_next_pid := np\<rparr>" "cp = k_next_pid k" "unat np = unat cp + 1"
    using a(1) by (auto simp: allocate_pid_def checked_add_Some split: option.splits)
  obtain nt where nt: "k2 = k1\<lparr>k_next_tid := nt\<rparr>" "ct = k_next_tid k1" "unat nt = unat ct + 1"
    using a(2) by (auto simp: allocate_tid_def checked_add_Some split: option.splits)
  have "ct = k_next_tid k" using np(1) nt(2) by simp
  then show thesis
    using that [OF t p np(2) _ np(3) nt(3)] unfolding k' modify_process_insert_task nt(1) np(1)
    by blast
qed

lemma keys_okD:
  assumes "kernel_ok k"
  shows "k_task k tid = Some t \<Longrightarrow> t_tid t = tid"
    and "k_task k tid = Some t \<Longrightarrow> tid < k_next_tid k"
    and "k_task k tid = Some t \<Longrightarrow> k_process k (t_pid t) \<noteq> None"
    and "k_task k tid = Some t \<Longrightarrow> t_signal_mask t AND unblockable_signal_mask = 0"
    and "k_process k pid = Some p \<Longrightarrow> p_pid p = pid"
    and "k_process k pid = Some p \<Longrightarrow> pid < k_next_pid k"
    and "k_process k pid = Some p \<Longrightarrow> image_ok (p_image p)"
  using assms unfolding kernel_ok_def keys_ok_def by blast+

lemma next_pid_fresh: "kernel_ok k \<Longrightarrow> k_process k (k_next_pid k) = None"
  using keys_okD(6) by (cases "k_process k (k_next_pid k)") fastforce+

lemma next_tid_fresh: "kernel_ok k \<Longrightarrow> k_task k (k_next_tid k) = None"
  using keys_okD(2) by (cases "k_task k (k_next_tid k)") fastforce+

lemma kernel_ok_fork_Inr:
  assumes ok: "kernel_ok k" and "fork_child_task tid k = (Inr (cp, ct), k')"
  shows "kernel_ok k'"
  using assms(2)
proof (rule fork_child_task_Inr)
  fix t p np nt
  assume t: "k_task k tid = Some t" and p: "k_process k (t_pid t) = Some p"
    and ids: "cp = k_next_pid k" "ct = k_next_tid k" "unat np = unat cp + 1" "unat nt = unat ct + 1"
    and k': "k' = insert_task (forked_task cp ct t) (modify_process (t_pid t) (add_child cp)
       (add_process cp (forked_process cp (t_pid t) p)
         (k\<lparr>k_next_pid := np, k_next_tid := nt\<rparr>)))"
  let ?k = "k\<lparr>k_next_pid := np, k_next_tid := nt\<rparr>"
  have lt: "cp < np" "ct < nt"
    using ids by (simp_all add: word_less_nat_alt)
  have okk: "kernel_ok ?k"
    using ok lt ids by (intro kernel_ok_next) simp_all
  have "q < cp" if "k_process k q = Some r" for q r
    using keys_okD(6) [OF ok that] ids(1) by simp
  then have fresh: "pid_fresh cp ?k"
    using lt by (auto simp: pid_fresh_def)
  have "kernel_ok (modify_process (t_pid t) (add_child cp)
      (add_process cp (forked_process cp (t_pid t) p) ?k))"
    using p keys_okD(7) [OF ok p]
    by (intro kernel_ok_insert_child okk fresh) (simp_all add: forked_process_def)
  then show ?thesis
    unfolding k'
    using lt next_tid_fresh [OF ok] ids(2) keys_okD(4) [OF ok t]
    by (intro kernel_ok_insert_task) (simp_all add: forked_task_def)
qed

lemma fork_child_task_Inl:
  assumes "fork_child_task tid k = (Inl e, k')"
  obtains np where "k' = k\<lparr>k_next_pid := np\<rparr>" "k_next_pid k \<le> np"
proof -
  have "k' = k \<or> (\<exists>np. k' = k\<lparr>k_next_pid := np\<rparr> \<and> unat np = unat (k_next_pid k) + 1)"
    using assms
    by (auto simp: fork_child_task_def Let_def allocate_pid_def allocate_tid_def checked_add_Some
        split: option.splits if_splits sum.splits prod.splits)
  then show thesis
    using that [of "k_next_pid k"] that by (auto simp: word_le_nat_alt)
qed

lemma kernel_ok_fork_child_task [intro]:
  assumes "kernel_ok k" "fork_child_task tid k = (r, k')"
  shows "kernel_ok k'"
proof (cases r)
  case (Inl e)
  with assms(2) show ?thesis
    using kernel_ok_next(1) [OF assms(1)] by (auto elim!: fork_child_task_Inl)
next
  case (Inr c)
  with assms show ?thesis by (cases c) (auto intro: kernel_ok_fork_Inr)
qed

lemma kernel_ok_fork_like [intro]:
  assumes "kernel_ok k"
  shows "kernel_ok (snd (fork_like_current_and_maybe_block_parent tid a b k))"
    and "kernel_ok (snd (fork_like_current_with_child_regs_and_maybe_block_parent tid regs b k))"
  using kernel_ok_fork_child_task [OF assms, of tid]
  by (auto simp: fork_like_current_and_maybe_block_parent_def
      fork_like_current_with_child_regs_and_maybe_block_parent_def Let_def
      intro!: kernel_ok_put_state kernel_ok_modify_task split: sum.splits prod.splits)

lemma kernel_ok_new_thread:
  assumes ok: "kernel_ok k" and t: "k_task k tid = Some t" and alloc: "allocate_tid k = (Inr ct, k')"
    and t': "t_tid t' = ct" "t_pid t' = t_pid t" "t_signal_mask t' = t_signal_mask t"
  shows "kernel_ok (insert_task t' k')"
proof -
  obtain nt where k': "k' = k\<lparr>k_next_tid := nt\<rparr>" and ct: "ct = k_next_tid k"
    and nt: "unat nt = unat ct + 1"
    using alloc by (auto simp: allocate_tid_def checked_add_Some split: option.splits)
  then have lt: "ct < nt" by (simp add: word_less_nat_alt)
  have "kernel_ok k'"
    unfolding k' using lt ct by (intro kernel_ok_next ok) simp
  then show ?thesis
    using keys_okD(3,4) [OF ok t] next_tid_fresh [OF ok] lt t' k' ct
    by (intro kernel_ok_insert_task) simp_all
qed

lemma kernel_ok_thread [intro]:
  assumes ok: "kernel_ok k"
  shows "kernel_ok (snd (thread_current_with_child_regs tid args regs k))"
proof -
  have "kernel_ok k'" if "allocate_tid k = (Inl e, k')" for e k'
    using tids.alloc_Err [OF that] ok by simp
  then show ?thesis
    using ok
    by (auto simp: thread_current_with_child_regs_def Let_def intro: kernel_ok_new_thread
        split: option.splits sum.splits prod.splits)
qed

lemma kernel_ok_clone [intro]:
  assumes "kernel_ok k"
  shows "kernel_ok (snd (clone_current_with_return tid args a k))"
    and "kernel_ok (snd (clone_current_with_child_regs tid args regs k))"
  using assms
  by (auto simp: clone_current_with_return_def clone_current_with_child_regs_def
      clone_fork_like_current_def split: option.splits)

lemma kernel_ok_resume_vfork_parent [intro]:
  "kernel_ok k \<Longrightarrow> kernel_ok (resume_vfork_parent pid k)"
  by (auto simp: resume_vfork_parent_def intro: sched.inv_fold split: option.splits)

lemma kernel_ok_exec_task [intro]:
  assumes "kernel_ok k"
  shows "kernel_ok (snd (exec_task tid program k))"
proof -
  have "kernel_ok (resume_vfork_parent pid (put_state tid Runnable (modify_task tid
      (exec_thread (gis_memory img)) (modify_process pid (exec_process img) k))))"
    if "load_program program = Ok img" for pid img
    using that assms
    by (intro kernel_ok_resume_vfork_parent kernel_ok_put_state kernel_ok_modify_task
        kernel_ok_modify_process benign_exec_thread family_neutral_exec_process) (auto simp: image_ok_def)
  then show ?thesis
    using assms by (simp add: exec_task_def Let_def split: option.splits result.splits)
qed

lemma snd_execve_current: "snd (execve_current tid program k) = snd (exec_task tid program k)"
proof -
  obtain r k' where "exec_task tid program k = (r, k')" by fastforce
  then show ?thesis by (cases r) (simp_all add: execve_current_def)
qed

lemma kernel_ok_execve [intro]:
  "kernel_ok k \<Longrightarrow> kernel_ok (snd (execve_current tid program k))"
  by (simp add: snd_execve_current kernel_ok_exec_task)

section \<open>Effects\<close>

lemma fork_child_task_succeeds:
  assumes "kernel_ok k" "k_task k tid = Some t" "k_process k (t_pid t) = Some p"
    and "p_exit_state p = Running" "k_next_pid k \<noteq> - 1" "k_next_tid k \<noteq> - 1"
  obtains k' where "fork_child_task tid k = (Inr (k_next_pid k, k_next_tid k), k')"
proof -
  obtain np where np: "checked_add (k_next_pid k) 1 = Some np"
    using assms(5) checked_add_one_None by blast
  obtain nt where nt: "checked_add (k_next_tid k) 1 = Some nt"
    using assms(6) checked_add_one_None by blast
  have "t_pid t \<noteq> k_next_pid k" using keys_okD(6) [OF assms(1,3)] by auto
  then show thesis
    using that assms(2-4) np nt
    by (fastforce simp: fork_child_task_def allocate_pid_def allocate_tid_def Let_def)
qed

text \<open>What a successful fork leaves behind, before the child's registers are set.\<close>

lemma fork_child_task_effect:
  assumes ok: "kernel_ok k" and t: "k_task k tid = Some t" and p: "k_process k (t_pid t) = Some p"
    and fork: "fork_child_task tid k = (Inr (cp, ct), k')"
  shows "cp = k_next_pid k" "ct = k_next_tid k" "tid \<noteq> ct" "t_pid t \<noteq> cp"
    and "k_process k' q = (if q = cp then Some (forked_process cp (t_pid t) p)
           else if q = t_pid t then Some (add_child cp p) else k_process k q)"
    and "k_task k' u = (if u = ct then Some (forked_task cp ct t) else k_task k u)"
proof -
  show cp: "cp = k_next_pid k" and ct: "ct = k_next_tid k"
    using fork by (auto elim: fork_child_task_Inr)
  show ne: "t_pid t \<noteq> cp" and "tid \<noteq> ct"
    using keys_okD(6) [OF ok p] keys_okD(2) [OF ok t] cp ct by auto
  show "k_process k' q = (if q = cp then Some (forked_process cp (t_pid t) p)
           else if q = t_pid t then Some (add_child cp p) else k_process k q)"
    using fork t p ne by (auto elim!: fork_child_task_Inr)
  show "k_task k' u = (if u = ct then Some (forked_task cp ct t) else k_task k u)"
    using fork t by (auto elim!: fork_child_task_Inr simp: forked_task_def)
qed

lemma fork_like_result:
  assumes "fork_child_task tid k = (Inr (cp, ct), k1)"
  shows "fork_like_current_and_maybe_block_parent tid a b k = (outcome_success (ucast cp),
     let k2 = modify_task ct (\<lambda>task. set_regs (with_syscall_return (t_regs task) a 0) task) k1
     in if b then put_state tid (WaitingForVfork cp) k2 else k2)"
  using assms by (simp add: fork_like_current_and_maybe_block_parent_def Let_def)

lemma kernel_ok_fork_current [intro]:
  assumes "kernel_ok k"
  shows "kernel_ok (snd (fork_current tid k))" "kernel_ok (snd (vfork_current tid k))"
  using assms by (auto simp: fork_current_def fork_like_current_def vfork_current_def)

definition demo_kernel :: guest_kernel where
  "demo_kernel = boot_kernel tiny_image_state fd_table_new"

lemma demo_kernel_ok [simp]: "kernel_ok demo_kernel"
  by (simp add: demo_kernel_def)

lemma demo_kernel_simps:
  "k_task demo_kernel tid = (if tid = 1 then Some (task_initial 1 1 (gis_memory tiny_image_state)) else None)"
  "k_process demo_kernel pid = (if pid = 1 then Some (boot_process tiny_image_state fd_table_new) else None)"
  "k_next_pid demo_kernel = 2" "k_next_tid demo_kernel = 2"
  by (simp_all add: demo_kernel_def)

text \<open>C26. Fork: the caller gets the child's process number, which no process had before; the child
  is a copy of the caller's process with an empty pending set, no children and the caller as its
  parent; its only task is a runnable copy of the calling task that sees \<open>0\<close> in \<open>rax\<close> and
  continues after the syscall instruction; the parent gains the child and nothing else changes.\<close>

theorem fork_current_creates_child:
  assumes ok: "kernel_ok k" and t: "k_task k tid = Some t" and p: "k_process k (t_pid t) = Some p"
    and running: "p_exit_state p = Running" and room: "k_next_pid k \<noteq> - 1" "k_next_tid k \<noteq> - 1"
    and fork: "fork_current tid k = (r, k')"
  shows "r = outcome_success (ucast (k_next_pid k))
    \<and> k_process k (k_next_pid k) = None \<and> k_task k (k_next_tid k) = None
    \<and> k_process k' (k_next_pid k) = Some (p\<lparr>p_pid := k_next_pid k, p_parent := Some (t_pid t),
         p_pending_signals := bt_empty, p_children := bt_empty\<rparr>)
    \<and> k_task k' (k_next_tid k) = Some (t\<lparr>t_tid := k_next_tid k, t_pid := k_next_pid k,
         t_regs := (t_regs t)\<lparr>rip := saturating_add (rip (t_regs t)) 2, rax := 0\<rparr>,
         t_state := Runnable, t_pending_signals := bt_empty, t_pending_signal_delivery := None\<rparr>)
    \<and> k_process k' (t_pid t) = Some (p\<lparr>p_children := bs_insert (k_next_pid k) (p_children p)\<rparr>)
    \<and> (\<forall>q. q \<noteq> k_next_pid k \<longrightarrow> q \<noteq> t_pid t \<longrightarrow> k_process k' q = k_process k q)
    \<and> (\<forall>u. u \<noteq> k_next_tid k \<longrightarrow> k_task k' u = k_task k u)"
proof -
  obtain k1 where k1: "fork_child_task tid k = (Inr (k_next_pid k, k_next_tid k), k1)"
    using fork_child_task_succeeds [OF ok t p running room] .
  note eff = fork_child_task_effect [OF ok t p k1]
  have res: "r = outcome_success (ucast (k_next_pid k))"
    "k' = modify_task (k_next_tid k) (\<lambda>task. set_regs (with_syscall_return (t_regs task)
       (current_syscall_return_rip k tid) 0) task) k1"
    using fork fork_like_result [OF k1, of "current_syscall_return_rip k tid" False]
    by (simp_all add: fork_current_def fork_like_current_def Let_def)
  show ?thesis
    using t running eff(4) next_pid_fresh [OF ok] next_tid_fresh [OF ok]
    by (auto simp: res eff(5,6) forked_process_def forked_task_def set_regs_def add_child_def
        with_syscall_return_def current_syscall_return_rip_def X86_64_SYSCALL_INSTRUCTION_LEN_def
        intro!: guest_process.equality guest_task.equality)
qed

theorem fork_current_creates_child_witness:
  "\<exists>r k'. fork_current 1 demo_kernel = (r, k') \<and> r = outcome_success 2
     \<and> map_option p_parent (k_process k' 2) = Some (Some 1)
     \<and> map_option (rax \<circ> t_regs) (k_task k' 2) = Some 0"
proof -
  obtain r k' where f: "fork_current 1 demo_kernel = (r, k')" by fastforce
  then show ?thesis
    using fork_current_creates_child [OF demo_kernel_ok _ _ _ _ _ f]
    by (simp add: demo_kernel_simps task_initial_def boot_process_def)
qed

text \<open>Collecting task numbers from the task table in key order, as several operations do.\<close>

lemma set_tids_where:
  assumes "kernel_ok k"
  shows "set (map t_tid (filter P (bt_values (k_tasks k)))) = {u. \<exists>t. k_task k u = Some t \<and> P t}"
  using keys_okD(1) [OF assms] by (force simp: set_bt_values ran_def)

lemma state_of_resume_vfork_parent:
  assumes "kernel_ok k"
  shows "state_of (resume_vfork_parent c k) u =
    (if state_of k u = Some (WaitingForVfork c)
        \<and> map_option t_pid (k_task k u) = Option.bind (k_process k c) p_parent
     then Some Runnable else state_of k u)"
proof (cases "Option.bind (k_process k c) p_parent")
  case None
  then show ?thesis by (auto simp: resume_vfork_parent_def state_of_def)
next
  case (Some pp)
  have "set (vfork_waiters pp c k) =
      {u. \<exists>t. k_task k u = Some t \<and> t_pid t = pp \<and> t_state t = WaitingForVfork c}"
    unfolding vfork_waiters_def by (rule set_tids_where [OF assms])
  then show ?thesis
    unfolding resume_vfork_parent_def Some option.case sched.state_fold
    by (auto simp: state_of_def)
qed

lemma resume_vfork_parent_frame [simp]:
  "k_processes (resume_vfork_parent c k) = k_processes k"
  "k_next_pid (resume_vfork_parent c k) = k_next_pid k"
  "k_next_tid (resume_vfork_parent c k) = k_next_tid k"
proof -
  have f: "k_processes (fold (\<lambda>u. put_state u s) us k) = k_processes k
      \<and> k_next_pid (fold (\<lambda>u. put_state u s) us k) = k_next_pid k
      \<and> k_next_tid (fold (\<lambda>u. put_state u s) us k) = k_next_tid k" for us s k
    by (induction us arbitrary: k) simp_all
  then show "k_processes (resume_vfork_parent c k) = k_processes k"
    "k_next_pid (resume_vfork_parent c k) = k_next_pid k"
    "k_next_tid (resume_vfork_parent c k) = k_next_tid k"
    by (simp_all add: resume_vfork_parent_def split: option.splits)
qed

text \<open>Changing states leaves everything else of the tasks alone.\<close>

definition same_but_state :: "guest_kernel \<Rightarrow> guest_kernel \<Rightarrow> bool" where
  "same_but_state k k' \<longleftrightarrow> (\<forall>u. map_option (\<lambda>t. t\<lparr>t_state := Runnable\<rparr>) (k_task k' u)
     = map_option (\<lambda>t. t\<lparr>t_state := Runnable\<rparr>) (k_task k u))"

lemma same_but_state_fold: "same_but_state k (fold (\<lambda>u. put_state u s) us k)"
proof (induction us arbitrary: k)
  case (Cons u us)
  have "same_but_state k (put_state u s k)"
    by (auto simp: same_but_state_def option.map_comp comp_def)
  with Cons [of "put_state u s k"] show ?case by (simp add: same_but_state_def)
qed (simp add: same_but_state_def)

lemma same_but_state_resume_vfork [simp]: "same_but_state k (resume_vfork_parent c k)"
  by (simp add: resume_vfork_parent_def same_but_state_fold split: option.splits)
    (simp add: same_but_state_def)

text \<open>C1. Vfork suspends the caller until the child lets go of its memory: afterwards the caller is
  not runnable and waits for exactly the new child, whose task is runnable.\<close>

theorem vfork_blocks_parent:
  assumes ok: "kernel_ok k" and t: "k_task k tid = Some t" and p: "k_process k (t_pid t) = Some p"
    and running: "p_exit_state p = Running" and room: "k_next_pid k \<noteq> - 1" "k_next_tid k \<noteq> - 1"
    and vfork: "vfork_current tid k = (r, k')"
  shows "r = outcome_success (ucast (k_next_pid k))
    \<and> state_of k' tid = Some (WaitingForVfork (k_next_pid k)) \<and> tid \<notin> bs_set (k_runnable_tids k')
    \<and> map_option t_pid (k_task k' (k_next_tid k)) = Some (k_next_pid k)
    \<and> k_next_tid k \<in> bs_set (k_runnable_tids k')
    \<and> Option.bind (k_process k' (k_next_pid k)) p_parent = Some (t_pid t)"
proof -
  obtain k1 where k1: "fork_child_task tid k = (Inr (k_next_pid k, k_next_tid k), k1)"
    using fork_child_task_succeeds [OF ok t p running room] .
  note eff = fork_child_task_effect [OF ok t p k1]
  have res: "r = outcome_success (ucast (k_next_pid k))"
    "k' = put_state tid (WaitingForVfork (k_next_pid k)) (modify_task (k_next_tid k)
       (\<lambda>task. set_regs (with_syscall_return (t_regs task) (current_syscall_return_rip k tid) 0) task) k1)"
    using vfork fork_like_result [OF k1, of "current_syscall_return_rip k tid" True]
    by (simp_all add: vfork_current_def Let_def)
  have "kernel_ok k'" using kernel_ok_fork_current(2) [OF ok, of tid] vfork by simp
  note run = runnable_tids_state [OF this]
  show ?thesis
    using t eff(3)
    by (auto simp: res(1) run) (auto simp: res(2) eff(5,6) state_of_def forked_process_def
        forked_task_def set_regs_def)
qed

theorem vfork_blocks_parent_witness:
  "\<exists>r k'. vfork_current 1 demo_kernel = (r, k') \<and> r = outcome_success 2
     \<and> state_of k' 1 = Some (WaitingForVfork 2) \<and> 2 \<in> bs_set (k_runnable_tids k')"
proof -
  obtain r k' where f: "vfork_current 1 demo_kernel = (r, k')" by fastforce
  then show ?thesis
    using vfork_blocks_parent [OF demo_kernel_ok _ _ _ _ _ f]
    by (simp add: demo_kernel_simps task_initial_def boot_process_def)
qed

lemma exec_task_Ok:
  assumes "exec_task tid program k = (Ok (), k')"
  obtains t p img where "k_task k tid = Some t" "k_process k (t_pid t) = Some p"
    "load_program program = Ok img"
    "k' = resume_vfork_parent (t_pid t) (put_state tid Runnable
       (modify_task tid (exec_thread (gis_memory img)) (modify_process (t_pid t) (exec_process img) k)))"
  using assms
  by (auto simp: exec_task_def Let_def split: option.splits result.splits)

lemma state_of_exec_task:
  assumes ok: "kernel_ok k" and t: "k_task k tid = Some t"
    and exec: "exec_task tid program k = (Ok (), k')"
  shows "state_of k' u =
    (if u = tid then Some Runnable
     else if state_of k u = Some (WaitingForVfork (t_pid t))
        \<and> map_option t_pid (k_task k u) = Option.bind (k_process k (t_pid t)) p_parent
     then Some Runnable else state_of k u)"
proof -
  obtain p img where p: "k_process k (t_pid t) = Some p" and img: "load_program program = Ok img" and
    k': "k' = resume_vfork_parent (t_pid t) (put_state tid Runnable
       (modify_task tid (exec_thread (gis_memory img)) (modify_process (t_pid t) (exec_process img) k)))"
    using exec t by (auto elim!: exec_task_Ok)
  have imgok: "image_ok img" using img by (auto simp: image_ok_def)
  show ?thesis
    unfolding k'
    by (subst state_of_resume_vfork_parent)
      (use t p in \<open>auto simp: state_of_def exec_process_def intro!: kernel_ok_put_state
        kernel_ok_modify_task kernel_ok_modify_process family_neutral_exec_process imgok ok\<close>)
qed

lemma same_but_stateD:
  assumes "same_but_state k k'" "k_task k u = Some t" "state_of k' u = Some s"
  shows "k_task k' u = Some (t\<lparr>t_state := s\<rparr>)"
proof -
  obtain t' where t': "k_task k' u = Some t'" "t_state t' = s"
    using assms(3) by (auto simp: state_of_def)
  have "t'\<lparr>t_state := Runnable\<rparr> = t\<lparr>t_state := Runnable\<rparr>"
    using assms(1,2) t'(1) by (auto simp: same_but_state_def dest: spec [of _ u])
  then have "t'\<lparr>t_state := Runnable, t_state := s\<rparr> = t\<lparr>t_state := Runnable, t_state := s\<rparr>"
    by (rule arg_cong)
  then show ?thesis using t' by (cases t', cases t) simp
qed

lemma fd_get_close_on_exec:
  "fd_get (close_on_exec files) fd =
     (case fd_get files fd of Some e \<Rightarrow> if fde_cloexec e then None else Some e | None \<Rightarrow> None)"
  by (simp add: fd_get_def close_on_exec_def bt_get_retain split: option.splits)

definition with_cloexec_fd :: "guest_fd_table" where
  "with_cloexec_fd = \<lparr>fdt_entries = bt_insert 3 \<lparr>fde_description = ''log'', fde_cloexec = True\<rparr>
     (bt_insert 4 \<lparr>fde_description = ''pipe'', fde_cloexec = False\<rparr> bt_empty)\<rparr>"

text \<open>A kernel in which process 2 is the vfork child of process 1.\<close>

definition vforked_kernel :: guest_kernel where
  "vforked_kernel = snd (vfork_current 1 (boot_kernel tiny_image_state with_cloexec_fd))"

lemma vforked_kernel_simps:
  "kernel_ok vforked_kernel"
  "\<exists>t. k_task vforked_kernel 2 = Some t \<and> t_pid t = 2"
  "\<exists>p. k_process vforked_kernel 2 = Some p \<and> p_parent p = Some 1 \<and> p_files p = with_cloexec_fd"
  "\<exists>t. k_task vforked_kernel 1 = Some t \<and> t_pid t = 1 \<and> t_state t = WaitingForVfork 2"
  "\<exists>q. k_process vforked_kernel 1 = Some q \<and> bs_set (p_children q) = {2} \<and> p_parent q = None
     \<and> p_exit_state q = Running"
proof -
  let ?k = "boot_kernel tiny_image_state with_cloexec_fd"
  have t: "k_task ?k 1 = Some (task_initial 1 1 (gis_memory tiny_image_state))" by simp
  have p: "k_process ?k (t_pid (task_initial 1 1 (gis_memory tiny_image_state)))
      = Some (boot_process tiny_image_state with_cloexec_fd)" by (simp add: task_initial_def)
  obtain k1 where k1: "fork_child_task 1 ?k = (Inr (k_next_pid ?k, k_next_tid ?k), k1)"
    using fork_child_task_succeeds [OF boot_kernel_ok [OF image_ok_tiny] t p] by (auto simp: boot_process_def)
  note eff = fork_child_task_effect [OF boot_kernel_ok [OF image_ok_tiny] t p k1]
  have v: "vforked_kernel = put_state 1 (WaitingForVfork 2) (modify_task 2
       (\<lambda>task. set_regs (with_syscall_return (t_regs task) (current_syscall_return_rip ?k 1) 0) task) k1)"
    using fork_like_result [OF k1, of "current_syscall_return_rip ?k 1" True]
    by (simp add: vforked_kernel_def vfork_current_def Let_def)
  show "kernel_ok vforked_kernel"
    unfolding vforked_kernel_def by (rule kernel_ok_fork_current) simp
  show "\<exists>t. k_task vforked_kernel 2 = Some t \<and> t_pid t = 2"
    "\<exists>p. k_process vforked_kernel 2 = Some p \<and> p_parent p = Some 1 \<and> p_files p = with_cloexec_fd"
    "\<exists>t. k_task vforked_kernel 1 = Some t \<and> t_pid t = 1 \<and> t_state t = WaitingForVfork 2"
    "\<exists>q. k_process vforked_kernel 1 = Some q \<and> bs_set (p_children q) = {2} \<and> p_parent q = None
     \<and> p_exit_state q = Running"
    by (simp_all add: v eff(5,6) add_child_def forked_task_def forked_process_def set_regs_def task_initial_def
        boot_process_def)
qed

lemma exec_task_vforked: "\<exists>k'. exec_task 2 tiny_program vforked_kernel = (Ok (), k')"
proof -
  obtain img where "load_program tiny_program = Ok img" using tiny_program_loads by blast
  then show ?thesis
    using vforked_kernel_simps(2,3) by (auto simp: exec_task_def Let_def)
qed

text \<open>C1. A successful exec releases the vfork parent: the threads of the parent process that wait
  for this child become runnable, the calling task is runnable, and no other task changes its
  state.\<close>

theorem exec_releases_vfork_parent:
  assumes "kernel_ok k" "k_task k tid = Some t" "exec_task tid program k = (Ok (), k')"
  shows "state_of k' u =
    (if u = tid then Some Runnable
     else if state_of k u = Some (WaitingForVfork (t_pid t))
        \<and> map_option t_pid (k_task k u) = Option.bind (k_process k (t_pid t)) p_parent
     then Some Runnable else state_of k u)"
  using assms by (rule state_of_exec_task)

theorem exec_releases_vfork_parent_witness:
  "\<exists>k'. exec_task 2 tiny_program vforked_kernel = (Ok (), k')
     \<and> state_of vforked_kernel 1 = Some (WaitingForVfork 2) \<and> state_of k' 1 = Some Runnable"
proof -
  obtain k' where k': "exec_task 2 tiny_program vforked_kernel = (Ok (), k')"
    using exec_task_vforked by blast
  obtain t where t: "k_task vforked_kernel 2 = Some t" "t_pid t = 2"
    using vforked_kernel_simps(2) by blast
  show ?thesis
    using k' exec_releases_vfork_parent [OF vforked_kernel_simps(1) t(1) k', of 1]
      vforked_kernel_simps(3,4) t(2)
    by (auto simp: state_of_def)
qed

text \<open>C1. A successful exec replaces the program: the process keeps its identity, parent, children,
  groups, signal dispositions and pending signals, loses exactly the descriptors marked
  close-on-exec, and runs the loaded image; the calling task starts at the image's entry point on
  the image's stack with cleared registers and thread area; other processes are untouched.  A
  failed exec changes nothing.\<close>

theorem exec_replaces_program:
  assumes ok: "kernel_ok k" and exec: "exec_task tid program k = (r, k')"
  shows "(r \<noteq> Ok () \<longrightarrow> k' = k)
    \<and> (r = Ok () \<longrightarrow> (\<exists>t p img p'. k_task k tid = Some t \<and> k_process k (t_pid t) = Some p
        \<and> load_program program = Ok img
        \<and> k_process k' (t_pid t) = Some p'
        \<and> p' = p\<lparr>p_image := img, p_files := p_files p', p_exit_state := Running\<rparr>
        \<and> (\<forall>fd. fd_get (p_files p') fd =
              (case fd_get (p_files p) fd of Some e \<Rightarrow> if fde_cloexec e then None else Some e
               | None \<Rightarrow> None))
        \<and> (\<forall>q. q \<noteq> t_pid t \<longrightarrow> k_process k' q = k_process k q)
        \<and> k_task k' tid = Some (t\<lparr>t_state := Runnable, t_tls := \<lparr>fs_base = 0, gs_base = 0\<rparr>,
             t_robust_list := None, t_clear_child_tid := None,
             t_regs := gpr_new (gi_entrypoint (gis_memory img))
               (gi_initial_stack_pointer (gis_memory img))\<rparr>)))"
proof (intro conjI impI)
  assume "r \<noteq> Ok ()"
  then show "k' = k"
    using exec by (auto simp: exec_task_def Let_def split: option.splits result.splits)
next
  assume r: "r = Ok ()"
  then obtain t p img where t: "k_task k tid = Some t" and p: "k_process k (t_pid t) = Some p"
    and img: "load_program program = Ok img" and
    k': "k' = resume_vfork_parent (t_pid t) (put_state tid Runnable
       (modify_task tid (exec_thread (gis_memory img)) (modify_process (t_pid t) (exec_process img) k)))"
      (is "_ = resume_vfork_parent _ ?k")
    using exec by (auto elim!: exec_task_Ok)
  have "state_of k' tid = Some Runnable"
    using state_of_exec_task [OF ok t] exec r by simp
  then have "k_task k' tid = Some ((exec_thread (gis_memory img) t)\<lparr>t_state := Runnable\<rparr>)"
    using same_but_stateD [of ?k k' tid] t unfolding k' by simp
  then have task: "k_task k' tid = Some (t\<lparr>t_state := Runnable, t_tls := \<lparr>fs_base = 0, gs_base = 0\<rparr>,
      t_robust_list := None, t_clear_child_tid := None,
      t_regs := gpr_new (gi_entrypoint (gis_memory img)) (gi_initial_stack_pointer (gis_memory img))\<rparr>)"
    by (simp add: exec_thread_def tls_new_def)
  show "\<exists>t p img p'. k_task k tid = Some t \<and> k_process k (t_pid t) = Some p
        \<and> load_program program = Ok img
        \<and> k_process k' (t_pid t) = Some p'
        \<and> p' = p\<lparr>p_image := img, p_files := p_files p', p_exit_state := Running\<rparr>
        \<and> (\<forall>fd. fd_get (p_files p') fd =
              (case fd_get (p_files p) fd of Some e \<Rightarrow> if fde_cloexec e then None else Some e
               | None \<Rightarrow> None))
        \<and> (\<forall>q. q \<noteq> t_pid t \<longrightarrow> k_process k' q = k_process k q)
        \<and> k_task k' tid = Some (t\<lparr>t_state := Runnable, t_tls := \<lparr>fs_base = 0, gs_base = 0\<rparr>,
             t_robust_list := None, t_clear_child_tid := None,
             t_regs := gpr_new (gi_entrypoint (gis_memory img))
               (gi_initial_stack_pointer (gis_memory img))\<rparr>)"
    by (rule exI [of _ t], rule exI [of _ p], rule exI [of _ img], rule exI [of _ "exec_process img p"])
      (use t p img task in \<open>simp add: k' exec_process_def fd_get_close_on_exec\<close>)
qed

theorem exec_replaces_program_witness:
  "\<exists>k' p'. exec_task 2 tiny_program vforked_kernel = (Ok (), k') \<and> k_process k' 2 = Some p'
     \<and> fd_get (p_files p') 3 = None \<and> fd_get (p_files p') 4 \<noteq> None"
proof -
  obtain k' where k': "exec_task 2 tiny_program vforked_kernel = (Ok (), k')"
    using exec_task_vforked by blast
  show ?thesis
    using k' exec_replaces_program [OF vforked_kernel_simps(1) k'] vforked_kernel_simps(2,3)
    by (auto simp: with_cloexec_fd_def fd_get_def bt_get_insert)
qed

section \<open>Clone\<close>

lemma flags_split: "(flags :: u64) = (flags AND NOT m) OR (flags AND m)"
  by (rule bit_word_eqI) (auto simp: bit_simps)

lemma fork_like_flags:
  "is_supported_fork_like_clone flags \<longleftrightarrow> flags \<in> {0, 0x11, 0x4100, 0x4111}"
proof
  assume sup: "is_supported_fork_like_clone flags"
  have "flags AND NOT 0xff \<in> {0, 0x4100}" "flags AND 0xff \<in> {0, 0x11}"
    using sup by (auto simp: is_supported_fork_like_clone_def Let_def clone_flag_defs)
  then show "flags \<in> {0, 0x11, 0x4100, 0x4111}"
    using flags_split [of flags "0xff"] by auto
qed (auto simp: is_supported_fork_like_clone_def Let_def clone_flag_defs)

text \<open>C1. Without \<open>CLONE_THREAD\<close> exactly four flag words are accepted: plain fork and
  \<open>CLONE_VM|CLONE_VFORK\<close>, each with \<open>SIGCHLD\<close> or no exit signal.  Every other word is refused
  with \<open>EINVAL\<close> and leaves the kernel as it was.\<close>

theorem clone_fork_flags:
  assumes "\<not> has_clone_thread args"
  shows "clone_current_with_return tid args return_rip k =
    (if clone_flags args \<in> {0, 0x11, 0x4100, 0x4111} then clone_fork_like_current tid args return_rip k
     else (outcome_errno EINVAL, k))"
  using assms
  by (simp only: clone_current_with_return_def fork_like_flags if_False not_False_eq_True if_True
      into_outcome_def task_errno.simps split: if_split) simp

theorem clone_fork_flags_witness:
  "clone_current_with_return 1
     \<lparr>clone_flags = 0x200, clone_child_stack = 0, clone_parent_tid = 0, clone_child_tid = 0,
      clone_tls = 0\<rparr> 0 demo_kernel = (outcome_errno EINVAL, demo_kernel)"
  using clone_fork_flags [of "\<lparr>clone_flags = 0x200, clone_child_stack = 0, clone_parent_tid = 0,
      clone_child_tid = 0, clone_tls = 0\<rparr>" 1 0 demo_kernel]
  by (simp add: has_clone_thread_def clone_flag_defs)

text \<open>C1. A supported thread clone adds one runnable task to the caller's process under a task number
  that was free: it continues at the given address with \<open>0\<close> in \<open>rax\<close>, on the given stack and with
  the given thread area when the arguments name them, with nothing pending and the caller's signal
  mask; no process and no existing task changes.\<close>

theorem clone_thread_adds_task:
  assumes ok: "kernel_ok k" and t: "k_task k tid = Some t"
    and thread: "has_clone_thread args" and flags: "is_supported_thread_clone (clone_flags args)"
    and room: "k_next_tid k \<noteq> - 1"
    and clone: "clone_current_with_return tid args return_rip k = (r, k')"
  shows "r = outcome_success (ucast (k_next_tid k)) \<and> k_task k (k_next_tid k) = None
    \<and> k_task k' (k_next_tid k) = Some (t\<lparr>t_tid := k_next_tid k,
        t_regs := (t_regs t)\<lparr>rip := return_rip, rax := 0,
          rsp := if clone_child_stack args = 0 then rsp (t_regs t) else clone_child_stack args\<rparr>,
        t_tls := if has_clone_settls args then (t_tls t)\<lparr>fs_base := clone_tls args\<rparr> else t_tls t,
        t_state := Runnable, t_robust_list := None,
        t_clear_child_tid := if has_clone_child_cleartid args \<and> clone_child_tid args \<noteq> 0
          then Some (clone_child_tid args) else None,
        t_pending_signals := bt_empty, t_pending_signal_delivery := None\<rparr>)
    \<and> k_processes k' = k_processes k \<and> (\<forall>u. u \<noteq> k_next_tid k \<longrightarrow> k_task k' u = k_task k u)"
proof -
  obtain nt where nt: "checked_add (k_next_tid k) 1 = Some nt"
    using room checked_add_one_None by blast
  have "k_process k (t_pid t) \<noteq> None" using keys_okD(3) [OF ok t] .
  then have has: "bt_contains (k_processes k) (t_pid t)" by (simp add: bt_contains_def)
  have res: "(r, k') = (outcome_success (ucast (k_next_tid k)), insert_task
      (t\<lparr>t_tid := k_next_tid k,
        t_regs := (t_regs t)\<lparr>rip := return_rip, rax := 0,
          rsp := if clone_child_stack args = 0 then rsp (t_regs t) else clone_child_stack args\<rparr>,
        t_tls := if has_clone_settls args then (t_tls t)\<lparr>fs_base := clone_tls args\<rparr> else t_tls t,
        t_state := Runnable, t_robust_list := None,
        t_clear_child_tid := if has_clone_child_cleartid args \<and> clone_child_tid args \<noteq> 0
          then Some (clone_child_tid args) else None,
        t_pending_signals := bt_empty, t_pending_signal_delivery := None\<rparr>)
      (k\<lparr>k_next_tid := nt\<rparr>))"
    unfolding clone [symmetric]
    using t thread flags has nt
    by (cases t) (simp add: clone_current_with_return_def thread_current_with_child_regs_def
        with_syscall_return_def allocate_tid_def Let_def)
  show ?thesis
    using res next_tid_fresh [OF ok] by simp
qed

theorem clone_thread_adds_task_witness:
  "\<exists>r k'. clone_current_with_return 1 \<lparr>clone_flags = 0x90f00, clone_child_stack = 0x7000,
      clone_parent_tid = 0, clone_child_tid = 0, clone_tls = 0x1234\<rparr> 0x400002 demo_kernel = (r, k')
     \<and> r = outcome_success 2 \<and> map_option t_pid (k_task k' 2) = Some 1
     \<and> map_option (fs_base \<circ> t_tls) (k_task k' 2) = Some 0x1234"
proof -
  let ?a = "\<lparr>clone_flags = 0x90f00, clone_child_stack = 0x7000, clone_parent_tid = 0,
    clone_child_tid = 0, clone_tls = 0x1234\<rparr>"
  obtain r k' where c: "clone_current_with_return 1 ?a 0x400002 demo_kernel = (r, k')" by fastforce
  have "has_clone_thread ?a" "has_clone_settls ?a" "is_supported_thread_clone (clone_flags ?a)"
    by (simp_all add: has_clone_thread_def has_clone_settls_def is_supported_thread_clone_def
        THREAD_REQUIRED_def THREAD_OPTIONAL_def clone_flag_defs)
  then show ?thesis
    using clone_thread_adds_task [OF demo_kernel_ok _ _ _ _ c] c
    by (simp add: demo_kernel_simps task_initial_def)
qed

end
