(* ===== verification/Task_Wait.thy ===== *)
theory Task_Wait
  imports Task_Clone
begin

text \<open>
  Blocking and waking (\<open>kernel/wait.rs\<close>): child waits, reaping, descriptor, sleep and futex
  waits.  Counters of type \<open>usize\<close> count tasks of the table and are natural numbers.
\<close>

section \<open>Waiting for children\<close>

definition child_matches :: "guest_kernel \<Rightarrow> guest_process \<Rightarrow> guest_pid \<Rightarrow> i32 \<Rightarrow> bool" where
  "child_matches k parent child_pid selector =
     (case k_process k child_pid of
        None \<Rightarrow> False
      | Some child \<Rightarrow>
          if sint selector = - 1 then True
          else if sint selector = 0 then p_pgid child = p_pgid parent
          else if sint selector > 0 then child_pid = selector
          else p_pgid child = word_of_int \<bar>sint selector\<bar>)"

definition matching_children ::
  "guest_kernel \<Rightarrow> guest_pid \<Rightarrow> i32 \<Rightarrow> task_error + guest_pid list" where
  "matching_children k parent_pid selector =
     (case k_process k parent_pid of
        None \<Rightarrow> Inl (UnknownPid parent_pid)
      | Some parent \<Rightarrow>
          Inr (filter (\<lambda>child_pid. child_matches k parent child_pid selector)
                 (bs_list (p_children parent))))"

definition is_exited :: "guest_kernel \<Rightarrow> guest_pid \<Rightarrow> bool" where
  "is_exited k pid =
     (case k_process k pid of
        None \<Rightarrow> False
      | Some p \<Rightarrow> (case p_exit_state p of Running \<Rightarrow> False | Process_exited _ \<Rightarrow> True))"

definition exited_waitable_child ::
  "guest_kernel \<Rightarrow> guest_pid \<Rightarrow> i32 \<Rightarrow> task_error + guest_pid option" where
  "exited_waitable_child k parent_pid selector =
     (case matching_children k parent_pid selector of
        Inl e \<Rightarrow> Inl e
      | Inr children \<Rightarrow> Inr (List.find (is_exited k) children))"

definition has_waitable_child :: "guest_kernel \<Rightarrow> guest_pid \<Rightarrow> i32 \<Rightarrow> task_error + bool" where
  "has_waitable_child k parent_pid selector =
     (case matching_children k parent_pid selector of
        Inl e \<Rightarrow> Inl e
      | Inr children \<Rightarrow> Inr (children \<noteq> []))"

definition remove_child :: "guest_pid \<Rightarrow> guest_process \<Rightarrow> guest_process" where
  "remove_child c p = p\<lparr>p_children := bs_remove c (p_children p)\<rparr>"

definition reap_child ::
  "guest_pid \<Rightarrow> guest_pid \<Rightarrow> guest_kernel \<Rightarrow> (task_error + waited_child) \<times> guest_kernel" where
  "reap_child parent_pid child_pid k =
     (case k_process k child_pid of
        None \<Rightarrow> (Inl (UnknownPid child_pid), k)
      | Some child \<Rightarrow>
          (case p_exit_state child of
             Running \<Rightarrow> (Inl WouldBlock, k)
           | Process_exited status \<Rightarrow>
               let child_tids = map t_tid (filter (\<lambda>task. t_pid task = child_pid) (bt_values (k_tasks k)));
                   k = fold (\<lambda>tid k. snd (remove_task tid k)) child_tids k;
                   k = k\<lparr>k_processes := bt_remove child_pid (k_processes k)\<rparr>
               in (case k_process k parent_pid of
                     None \<Rightarrow> (Inl (UnknownPid parent_pid), k)
                   | Some _ \<Rightarrow> (Inr (waited_child_new child_pid status),
                               modify_process parent_pid (remove_child child_pid) k))))"

definition wait4_child ::
  "guest_pid \<Rightarrow> wait4_args \<Rightarrow> guest_kernel \<Rightarrow> (task_error + waited_child option) \<times> guest_kernel" where
  "wait4_child parent_pid args k =
     (if has_unsupported_options args then (Inl (InvalidWaitOptions (w4_options args)), k)
      else case exited_waitable_child k parent_pid (w4_pid args) of
        Inl e \<Rightarrow> (Inl e, k)
      | Inr (Some child_pid) \<Rightarrow>
          (case reap_child parent_pid child_pid k of
             (Inl e, k) \<Rightarrow> (Inl e, k)
           | (Inr waited, k) \<Rightarrow> (Inr (Some waited), k))
      | Inr None \<Rightarrow>
          (case has_waitable_child k parent_pid (w4_pid args) of
             Inl e \<Rightarrow> (Inl e, k)
           | Inr waitable \<Rightarrow>
               if waitable \<and> no_hang args then (Inr None, k)
               else if waitable then (Inl WouldBlock, k)
               else (Inl NoChild, k)))"

definition return_to :: "guest_address \<Rightarrow> guest_task \<Rightarrow> guest_task" where
  "return_to return_rip task =
     task\<lparr>t_regs := with_syscall_return (t_regs task) return_rip (rax (t_regs task))\<rparr>"

definition return_value :: "u64 \<Rightarrow> guest_task \<Rightarrow> guest_task" where
  "return_value value task =
     task\<lparr>t_regs := with_syscall_return (t_regs task) (rip (t_regs task)) value\<rparr>"

definition wait4_current_with_return ::
  "guest_tid \<Rightarrow> wait4_args \<Rightarrow> guest_address \<Rightarrow> guest_kernel \<Rightarrow> syscall_outcome \<times> guest_kernel" where
  "wait4_current_with_return tid args return_rip k =
     (case k_task k tid of
        None \<Rightarrow> (outcome_errno ESRCH, k)
      | Some task \<Rightarrow>
          (case wait4_child (t_pid task) args k of
             (Inr (Some waited), k) \<Rightarrow> (outcome_success (ucast (wc_pid waited)), k)
           | (Inr None, k) \<Rightarrow> (outcome_success 0, k)
           | (Inl e, k) \<Rightarrow>
               if e = WouldBlock
               then (case k_task k tid of
                       None \<Rightarrow> (outcome_errno ESRCH, k)
                     | Some _ \<Rightarrow> (outcome_success 0,
                         put_state tid (WaitingForChild args) (modify_task tid (return_to return_rip) k)))
               else (into_outcome e, k)))"

definition wait4_current ::
  "guest_tid \<Rightarrow> wait4_args \<Rightarrow> guest_kernel \<Rightarrow> syscall_outcome \<times> guest_kernel" where
  "wait4_current tid args k =
     wait4_current_with_return tid args (current_syscall_return_rip k tid) k"

definition runnable_tids :: "guest_kernel \<Rightarrow> guest_tid list" where
  "runnable_tids k = bs_list (k_runnable_tids k)"

definition waiting_tasks :: "guest_kernel \<Rightarrow> (guest_tid \<times> guest_pid \<times> wait4_args) list" where
  "waiting_tasks k =
     List.map_filter (\<lambda>tid. case k_task k tid of
        None \<Rightarrow> None
      | Some task \<Rightarrow> (case t_state task of
          WaitingForChild args \<Rightarrow> Some (t_tid task, t_pid task, args)
        | _ \<Rightarrow> None)) (bs_list (k_child_wait_tids k))"

fun resume_waiting_loop ::
  "(guest_tid \<times> guest_pid \<times> wait4_args) list \<Rightarrow> completed_wait list \<Rightarrow> guest_kernel
     \<Rightarrow> completed_wait list \<times> guest_kernel" where
  "resume_waiting_loop [] completed k = (completed, k)"
| "resume_waiting_loop ((tid, parent_pid, args) # rest) completed k =
     (case wait4_child parent_pid args k of
        (Inr (Some waited), k) \<Rightarrow>
          let k = modify_task tid (return_value (ucast (wc_pid waited))) k;
              k = put_state tid Runnable k
          in resume_waiting_loop rest (completed @ [\<lparr>cw_tid = tid, cw_pid = parent_pid,
               cw_args = args, cw_waited = waited\<rparr>]) k
      | (_, k) \<Rightarrow> resume_waiting_loop rest completed k)"

definition resume_waiting_tasks :: "guest_kernel \<Rightarrow> completed_wait list \<times> guest_kernel" where
  "resume_waiting_tasks k = resume_waiting_loop (waiting_tasks k) [] k"

section \<open>Descriptor, sleep and futex waits\<close>

definition block_task ::
  "guest_tid \<Rightarrow> task_state \<Rightarrow> guest_kernel \<Rightarrow> (task_error + unit) \<times> guest_kernel" where
  "block_task tid state k =
     (case set_task_state tid state k of
        (None, k) \<Rightarrow> (Inl (UnknownTid tid), k)
      | (Some _, k) \<Rightarrow> (Inr (), k))"

definition block_task_for_fd ::
  "guest_tid \<Rightarrow> int \<Rightarrow> bool \<Rightarrow> guest_kernel \<Rightarrow> (task_error + unit) \<times> guest_kernel" where
  "block_task_for_fd tid fd write k = block_task tid (WaitingForFd fd write) k"

definition block_task_for_futex ::
  "guest_tid \<Rightarrow> futex_wait_key \<Rightarrow> guest_kernel \<Rightarrow> (task_error + unit) \<times> guest_kernel" where
  "block_task_for_futex tid key k = block_task tid (WaitingForFutex key) k"

definition block_task_for_sleep :: "guest_tid \<Rightarrow> guest_kernel \<Rightarrow> (task_error + unit) \<times> guest_kernel" where
  "block_task_for_sleep tid k = block_task tid WaitingForSleep k"

text \<open>The caller's closure \<open>ready\<close> is an \<open>FnMut\<close>: it may change its own state \<open>'s\<close>, not the
  kernel.\<close>

fun resume_fd_loop ::
  "(guest_pid \<Rightarrow> int \<Rightarrow> bool \<Rightarrow> 's \<Rightarrow> bool \<times> 's) \<Rightarrow> guest_tid list \<Rightarrow> nat \<Rightarrow> 's \<Rightarrow> guest_kernel
     \<Rightarrow> nat \<times> 's \<times> guest_kernel" where
  "resume_fd_loop ready [] resumed s k = (resumed, s, k)"
| "resume_fd_loop ready (tid # tids) resumed s k =
     (case k_task k tid of
        None \<Rightarrow> resume_fd_loop ready tids resumed s k
      | Some task \<Rightarrow>
          (case t_state task of
             WaitingForFd fd write \<Rightarrow>
               (case ready (t_pid task) fd write s of
                  (True, s) \<Rightarrow> resume_fd_loop ready tids (resumed + 1) s (put_state tid Runnable k)
                | (False, s) \<Rightarrow> resume_fd_loop ready tids resumed s k)
           | _ \<Rightarrow> resume_fd_loop ready tids resumed s k))"

definition resume_fd_waiters ::
  "(guest_pid \<Rightarrow> int \<Rightarrow> bool \<Rightarrow> 's \<Rightarrow> bool \<times> 's) \<Rightarrow> 's \<Rightarrow> guest_kernel \<Rightarrow> nat \<times> 's \<times> guest_kernel" where
  "resume_fd_waiters ready s k = resume_fd_loop ready (bs_list (k_fd_wait_tids k)) 0 s k"

definition resume_sleep_waiter :: "guest_tid \<Rightarrow> guest_kernel \<Rightarrow> bool \<times> guest_kernel" where
  "resume_sleep_waiter tid k =
     (if map_option t_state (k_task k tid) \<noteq> Some WaitingForSleep then (False, k)
      else (case set_task_state tid Runnable k of (previous, k) \<Rightarrow> (previous \<noteq> None, k)))"

text \<open>The loop that \<open>wake_futex_waiters\<close> and \<open>requeue_futex_waiters\<close> share: give the first
  \<open>limit\<close> tasks of the list that wait on \<open>source\<close> a new state and count them.\<close>

fun move_futex_waiters ::
  "futex_wait_key \<Rightarrow> task_state \<Rightarrow> nat \<Rightarrow> guest_tid list \<Rightarrow> nat \<Rightarrow> guest_kernel \<Rightarrow> nat \<times> guest_kernel" where
  "move_futex_waiters source state limit [] moved k = (moved, k)"
| "move_futex_waiters source state limit (tid # tids) moved k =
     (case k_task k tid of
        None \<Rightarrow> move_futex_waiters source state limit tids moved k
      | Some task \<Rightarrow>
          if t_state task \<noteq> WaitingForFutex source
          then move_futex_waiters source state limit tids moved k
          else (let k = put_state tid state k; moved = moved + 1 in
                if moved = limit then (moved, k)
                else move_futex_waiters source state limit tids moved k))"

definition futex_wait_list :: "guest_kernel \<Rightarrow> futex_wait_key \<Rightarrow> guest_tid list" where
  "futex_wait_list k key =
     (case bt_get (k_futex_wait_tids k) key of None \<Rightarrow> [] | Some waiters \<Rightarrow> bs_list waiters)"

definition wake_futex_waiters ::
  "futex_wait_key \<Rightarrow> u32 \<Rightarrow> guest_kernel \<Rightarrow> nat \<times> guest_kernel" where
  "wake_futex_waiters key limit k =
     (let limit = unat limit in
      if limit = 0 then (0, k)
      else move_futex_waiters key Runnable limit (futex_wait_list k key) 0 k)"

definition requeue_futex_waiters ::
  "futex_wait_key \<Rightarrow> futex_wait_key \<Rightarrow> u32 \<Rightarrow> u64 \<Rightarrow> guest_kernel \<Rightarrow> nat \<times> guest_kernel" where
  "requeue_futex_waiters source target wake_limit requeue_limit k =
     (case wake_futex_waiters source wake_limit k of (affected, k) \<Rightarrow>
        let requeue_limit = unat requeue_limit in
        if requeue_limit = 0 \<or> source = target then (affected, k)
        else (case move_futex_waiters source (WaitingForFutex target) requeue_limit
                     (futex_wait_list k source) 0 k of
                (requeued, k) \<Rightarrow> (affected + requeued, k)))"

definition is_futex_wait :: "task_state option \<Rightarrow> bool" where
  "is_futex_wait s \<longleftrightarrow> (case s of Some (WaitingForFutex _) \<Rightarrow> True | _ \<Rightarrow> False)"

definition timeout_futex_waiter :: "guest_tid \<Rightarrow> guest_kernel \<Rightarrow> bool \<times> guest_kernel" where
  "timeout_futex_waiter tid k =
     (if \<not> is_futex_wait (map_option t_state (k_task k tid)) then (False, k)
      else (let k = modify_task tid (return_value (encode_u64 (Errno ETIMEDOUT))) k in
            case set_task_state tid Runnable k of (previous, k) \<Rightarrow> (previous \<noteq> None, k)))"

section \<open>The invariant\<close>

lemma benign_return [simp]: "benign (return_to a)" "benign (return_value v)"
  by (simp_all add: benign_def return_to_def return_value_def)

lemma kernel_ok_remove_tasks:
  "kernel_ok k \<Longrightarrow> kernel_ok (fold (\<lambda>tid k. snd (remove_task tid k)) tids k)"
  by (induction tids arbitrary: k) (simp_all add: kernel_ok_remove_task)

lemma remove_tasks_frame [simp]:
  "k_processes (fold (\<lambda>tid k. snd (remove_task tid k)) tids k) = k_processes k"
  "k_next_pid (fold (\<lambda>tid k. snd (remove_task tid k)) tids k) = k_next_pid k"
  "k_next_tid (fold (\<lambda>tid k. snd (remove_task tid k)) tids k) = k_next_tid k"
  "k_task (fold (\<lambda>tid k. snd (remove_task tid k)) tids k) u = (if u \<in> set tids then None else k_task k u)"
  by (induction tids arbitrary: k) (simp_all add: remove_task_frame)

lemma kernel_ok_remove_process:
  assumes ok: "kernel_ok k" and no_task: "\<And>u t. k_task k u = Some t \<Longrightarrow> t_pid t \<noteq> c"
    and parent: "parent_of (bt_get (k_processes k)) c = Some pp"
  shows "kernel_ok (modify_process pp (remove_child c) (k\<lparr>k_processes := bt_remove c (k_processes k)\<rparr>))"
    (is "kernel_ok ?k")
proof -
  let ?ps = "bt_get (k_processes k)" and ?ps' = "bt_get (k_processes ?k)"
  have fam: "family_ok ?ps" using ok by (rule kernel_ok_family)
  have ne: "pp \<noteq> c" using family_okD(2) [OF fam parent] by auto
  have par: "parent_of ?ps' q = (if q = c then None else parent_of ?ps q)" for q
    using ne by (auto simp: parent_of_def remove_child_def bt_get_remove split: option.splits)
  have ch: "children_of ?ps' q =
      (if q = c then {} else if q = pp then children_of ?ps q - {c} else children_of ?ps q)" for q
    using ne by (auto simp: children_of_def remove_child_def bt_get_remove split: option.splits)
  have dom: "?ps' q \<noteq> None \<longleftrightarrow> q \<noteq> c \<and> ?ps q \<noteq> None" for q
    using ne by (auto simp: bt_get_remove)
  have only: "q = pp" if "c \<in> children_of ?ps q" for q
    using family_okD(1) [OF fam that] parent by simp
  have "family_ok ?ps'"
    unfolding family_ok_def par ch dom
    by (intro conjI allI impI)
      (auto split: if_splits dest: only family_okD [OF fam] intro: family_okD(3) [OF fam])
  moreover have "keys_ok ?k"
    using ok no_task by (auto simp: kernel_ok_def keys_ok_def remove_child_def bt_get_remove)
  ultimately show ?thesis
    using ok by (simp add: kernel_ok_def)
qed

text \<open>What reaping a child does, in one equation.\<close>

lemma reap_child_eq:
  assumes ok: "kernel_ok k" and child: "k_process k c = Some p" "p_exit_state p = Process_exited status"
    "p_parent p = Some pp" and parent: "k_process k pp = Some q"
  shows "\<exists>k'. reap_child pp c k = (Inr (waited_child_new c status), k') \<and> kernel_ok k'
    \<and> (\<forall>u. k_task k' u = (case k_task k u of
             Some t \<Rightarrow> if t_pid t = c then None else Some t | None \<Rightarrow> None))
    \<and> (\<forall>r. k_process k' r = (if r = c then None else if r = pp then Some (remove_child c q)
             else k_process k r))"
proof -
  define tids where
    "tids = map t_tid (filter (\<lambda>task. t_pid task = c) (bt_values (k_tasks k)))"
  define k1 where "k1 = fold (\<lambda>tid k. snd (remove_task tid k)) tids k"
  have tids: "set tids = {u. \<exists>t. k_task k u = Some t \<and> t_pid t = c}"
    unfolding tids_def by (rule set_tids_where [OF ok])
  have tasks: "k_task k1 u = (case k_task k u of
      Some t \<Rightarrow> if t_pid t = c then None else Some t | None \<Rightarrow> None)" for u
    unfolding k1_def by (auto simp: tids split: option.splits)
  have ok1: "kernel_ok k1" unfolding k1_def by (rule kernel_ok_remove_tasks [OF ok])
  have par: "parent_of (bt_get (k_processes k1)) c = Some pp"
    using child by (simp add: k1_def parent_of_def)
  have ne: "pp \<noteq> c" using family_okD(2) [OF kernel_ok_family [OF ok1] par] by auto
  let ?k = "modify_process pp (remove_child c) (k1\<lparr>k_processes := bt_remove c (k_processes k1)\<rparr>)"
  have "kernel_ok ?k"
    by (rule kernel_ok_remove_process [OF ok1 _ par]) (auto simp: tasks split: option.splits if_splits)
  moreover have "reap_child pp c k = (Inr (waited_child_new c status), ?k)"
    using child parent ne
    by (simp add: reap_child_def Let_def tids_def [symmetric] k1_def [symmetric] bt_get_remove)
      (simp add: k1_def)
  moreover have "k_process ?k r = (if r = c then None else if r = pp then Some (remove_child c q)
             else k_process k r)" for r
    using ne parent by (auto simp: bt_get_remove k1_def)
  ultimately show ?thesis using tasks by auto
qed

text \<open>The children a wait may collect: the matching ones, and those of them that have exited.\<close>

definition waitable :: "guest_kernel \<Rightarrow> guest_pid \<Rightarrow> i32 \<Rightarrow> guest_pid set" where
  "waitable k pp selector = {c. \<exists>q. k_process k pp = Some q \<and> c \<in> bs_set (p_children q)
     \<and> child_matches k q c selector}"

definition zombies :: "guest_kernel \<Rightarrow> guest_pid \<Rightarrow> i32 \<Rightarrow> guest_pid set" where
  "zombies k pp selector = {c \<in> waitable k pp selector. is_exited k c}"

lemma find_sorted_Min:
  fixes xs :: "'a::linorder list"
  assumes "sorted_wrt (<) xs"
  shows "List.find P xs = (if {x \<in> set xs. P x} = {} then None else Some (Min {x \<in> set xs. P x}))"
  using assms
proof (induction xs)
  case (Cons x xs)
  show ?case
  proof (cases "P x")
    case True
    have "Min {y \<in> set (x # xs). P y} = x"
      using Cons.prems True by (intro Min_eqI) (auto intro: less_imp_le)
    then show ?thesis using True by auto
  next
    case False
    then have "{y \<in> set (x # xs). P y} = {y \<in> set xs. P y}" by auto
    then show ?thesis using Cons False by simp
  qed
qed simp

lemma exited_waitable_child_eq:
  assumes "k_process k pp = Some q"
  shows "exited_waitable_child k pp sel =
    Inr (if zombies k pp sel = {} then None else Some (Min (zombies k pp sel)))"
    and "has_waitable_child k pp sel = Inr (waitable k pp sel \<noteq> {})"
proof -
  let ?xs = "filter (\<lambda>c. child_matches k q c sel) (bs_list (p_children q))"
  have set: "set ?xs = waitable k pp sel" using assms by (auto simp: waitable_def)
  then have "{c \<in> set ?xs. is_exited k c} = zombies k pp sel" by (simp add: zombies_def)
  moreover have "sorted_wrt (<) ?xs" by (simp add: sorted_wrt_filter)
  ultimately show "exited_waitable_child k pp sel =
    Inr (if zombies k pp sel = {} then None else Some (Min (zombies k pp sel)))"
    using assms find_sorted_Min [of ?xs "is_exited k"]
    by (simp add: exited_waitable_child_def matching_children_def)
  show "has_waitable_child k pp sel = Inr (waitable k pp sel \<noteq> {})"
    using assms unfolding set [symmetric]
    by (simp only: has_waitable_child_def matching_children_def option.case sum.case set_empty)
qed

lemma finite_zombies: "finite (zombies k pp sel)"
proof -
  have "zombies k pp sel \<subseteq> (case k_process k pp of None \<Rightarrow> {} | Some q \<Rightarrow> bs_set (p_children q))"
    by (auto simp: zombies_def waitable_def)
  moreover have "finite (case k_process k pp of None \<Rightarrow> {} | Some q \<Rightarrow> bs_set (p_children q))"
    by (simp split: option.splits)
  ultimately show ?thesis by (rule finite_subset)
qed

lemma zombie_process:
  assumes ok: "kernel_ok k" and z: "c \<in> zombies k pp sel"
  obtains q p status where "k_process k pp = Some q" "k_process k c = Some p"
    "p_parent p = Some pp" "p_exit_state p = Process_exited status"
proof -
  obtain q where q: "k_process k pp = Some q" "c \<in> bs_set (p_children q)" "is_exited k c"
    using z by (auto simp: zombies_def waitable_def)
  then obtain p status where p: "k_process k c = Some p" "p_exit_state p = Process_exited status"
    by (auto simp: is_exited_def split: option.splits exit_state.splits)
  have "c \<in> children_of (bt_get (k_processes k)) pp" using q by (simp add: children_of_def)
  then have "parent_of (bt_get (k_processes k)) c = Some pp"
    by (rule family_okD(1) [OF kernel_ok_family [OF ok]])
  then show thesis using that q(1) p by (simp add: parent_of_def)
qed

text \<open>The complete behaviour of \<open>wait4_child\<close> on a live parent with supported options.\<close>

lemma wait4_child_reaps:
  assumes ok: "kernel_ok k" and opts: "\<not> has_unsupported_options args"
    and z: "zombies k pp (w4_pid args) \<noteq> {}"
  obtains c q p status k' where "c = Min (zombies k pp (w4_pid args))" "c \<in> zombies k pp (w4_pid args)"
    "k_process k pp = Some q" "k_process k c = Some p" "p_exit_state p = Process_exited status"
    "wait4_child pp args k = (Inr (Some (waited_child_new c status)), k')" "kernel_ok k'"
    "\<And>u. k_task k' u = (case k_task k u of
       Some t \<Rightarrow> if t_pid t = c then None else Some t | None \<Rightarrow> None)"
    "\<And>r. k_process k' r = (if r = c then None else if r = pp then Some (remove_child c q)
       else k_process k r)"
proof -
  define c where "c = Min (zombies k pp (w4_pid args))"
  have cz: "c \<in> zombies k pp (w4_pid args)"
    unfolding c_def using finite_zombies z by (rule Min_in)
  obtain q p status where f: "k_process k pp = Some q" "k_process k c = Some p"
    "p_parent p = Some pp" "p_exit_state p = Process_exited status"
    using zombie_process [OF ok cz] .
  obtain k' where k': "reap_child pp c k = (Inr (waited_child_new c status), k')" "kernel_ok k'"
    "\<forall>u. k_task k' u = (case k_task k u of
       Some t \<Rightarrow> if t_pid t = c then None else Some t | None \<Rightarrow> None)"
    "\<forall>r. k_process k' r = (if r = c then None else if r = pp then Some (remove_child c q)
       else k_process k r)"
    using reap_child_eq [OF ok f(2,4,3,1)] by (elim exE conjE)
  have "wait4_child pp args k = (Inr (Some (waited_child_new c status)), k')"
    using opts z f(1) k'(1) by (simp add: wait4_child_def exited_waitable_child_eq c_def)
  then show thesis using that [OF c_def cz f(1,2,4) _ k'(2)] k'(3,4) by blast
qed

lemma wait4_child_no_zombie:
  assumes "zombies k pp (w4_pid args) = {}"
  shows "snd (wait4_child pp args k) = k" "fst (wait4_child pp args k) \<noteq> Inr (Some w)"
proof -
  have "snd (wait4_child pp args k) = k \<and> fst (wait4_child pp args k) \<noteq> Inr (Some w)"
  proof (cases "k_process k pp")
    case None
    then show ?thesis
      by (simp add: wait4_child_def exited_waitable_child_def matching_children_def)
  next
    case (Some q)
    then show ?thesis using assms by (simp add: wait4_child_def exited_waitable_child_eq)
  qed
  then show "snd (wait4_child pp args k) = k" "fst (wait4_child pp args k) \<noteq> Inr (Some w)"
    by blast+
qed

lemma wait4_child_cases:
  assumes ok: "kernel_ok k" and w: "wait4_child pp args k = (r, k')"
  obtains (same) "k' = k" "\<And>w. r \<noteq> Inr (Some w)"
      "has_unsupported_options args \<or> zombies k pp (w4_pid args) = {}"
  | (reaped) c q p status where "c \<in> zombies k pp (w4_pid args)"
      "k_process k pp = Some q" "k_process k c = Some p" "p_exit_state p = Process_exited status"
      "r = Inr (Some (waited_child_new c status))" "kernel_ok k'"
      "\<And>u. k_task k' u = (case k_task k u of
         Some t \<Rightarrow> if t_pid t = c then None else Some t | None \<Rightarrow> None)"
      "\<And>s. k_process k' s = (if s = c then None else if s = pp then Some (remove_child c q)
         else k_process k s)"
proof (cases "has_unsupported_options args \<or> zombies k pp (w4_pid args) = {}")
  case True
  then have "k' = k \<and> (\<forall>w. r \<noteq> Inr (Some w))"
  proof
    assume "has_unsupported_options args"
    then show ?thesis using w by (auto simp: wait4_child_def)
  next
    assume "zombies k pp (w4_pid args) = {}"
    from wait4_child_no_zombie [OF this] show ?thesis using w by simp
  qed
  with True same show thesis by blast
next
  case False
  then have opts: "\<not> has_unsupported_options args" and z: "zombies k pp (w4_pid args) \<noteq> {}"
    by simp_all
  obtain c q p status k'' where c: "c \<in> zombies k pp (w4_pid args)"
      "k_process k pp = Some q" "k_process k c = Some p" "p_exit_state p = Process_exited status"
    and res: "wait4_child pp args k = (Inr (Some (waited_child_new c status)), k'')"
    and k'': "kernel_ok k''" "\<And>u. k_task k'' u = (case k_task k u of
         Some t \<Rightarrow> if t_pid t = c then None else Some t | None \<Rightarrow> None)"
      "\<And>s. k_process k'' s = (if s = c then None else if s = pp then Some (remove_child c q)
         else k_process k s)"
    by (rule wait4_child_reaps [OF ok opts z]) (rule that; assumption)
  have eq: "r = Inr (Some (waited_child_new c status))" "k'' = k'" using res w by simp_all
  show thesis by (rule reaped [OF c eq(1) k'' [unfolded eq(2)]])
qed

lemma kernel_ok_wait4_child:
  assumes "kernel_ok k" "wait4_child pp args k = (r, k')"
  shows "kernel_ok k'"
  using assms(1,2) by (cases rule: wait4_child_cases) (simp_all add: assms(1))

lemma kernel_ok_wait4 [intro]:
  assumes "kernel_ok k"
  shows "kernel_ok (snd (wait4_current_with_return tid args a k))"
  using kernel_ok_wait4_child [OF assms]
  by (auto simp: wait4_current_with_return_def intro!: kernel_ok_put_state kernel_ok_modify_task
      assms split: option.splits prod.splits sum.splits)

subsection \<open>Resuming child waits\<close>

text \<open>One kernel is a later stage of another in the resume loop: fewer processes, fewer collectable
  children, and a task that still waits for a child is one that waited before.\<close>

definition drained :: "guest_kernel \<Rightarrow> guest_kernel \<Rightarrow> bool" where
  "drained k k' \<longleftrightarrow> kernel_ok k'
   \<and> (\<forall>pp sel. zombies k' pp sel \<subseteq> zombies k pp sel)
   \<and> (\<forall>c. k_process k' c \<noteq> None \<longrightarrow> is_exited k' c = is_exited k c \<and> k_process k c \<noteq> None)
   \<and> (\<forall>u t args. k_task k' u = Some t \<longrightarrow> t_state t = WaitingForChild args \<longrightarrow> k_task k u = Some t)"

lemma drained_refl: "kernel_ok k \<Longrightarrow> drained k k"
  by (simp add: drained_def)

lemma drained_trans: "drained k k' \<Longrightarrow> drained k' k'' \<Longrightarrow> drained k k''"
  unfolding drained_def by blast

lemma child_matches_cong:
  assumes "map_option p_pgid (k_process k' c) = map_option p_pgid (k_process k c)"
    and "p_pgid q' = p_pgid q"
  shows "child_matches k' q' c sel = child_matches k q c sel"
  using assms by (auto simp: child_matches_def split: option.splits)

lemma drained_wait4_child:
  assumes ok: "kernel_ok k" and w: "wait4_child pp args k = (r, k')"
  shows "drained k k'"
  using ok w
proof (cases rule: wait4_child_cases)
  case same
  then show ?thesis using ok by (simp add: drained_refl)
next
  case (reaped c q p status)
  have procs: "k_process k' s = (if s = c then None else if s = pp then Some (remove_child c q)
      else k_process k s)" for s by (rule reaped(8))
  have ex: "is_exited k' s = is_exited k s" if "s \<noteq> c" for s
    using that reaped(2) by (simp add: is_exited_def procs remove_child_def)
  have "zombies k' pp' sel \<subseteq> zombies k pp' sel" for pp' sel
  proof
    fix s assume "s \<in> zombies k' pp' sel"
    then obtain q' where q': "k_process k' pp' = Some q'" "s \<in> bs_set (p_children q')"
      "child_matches k' q' s sel" "is_exited k' s"
      by (auto simp: zombies_def waitable_def)
    have ne: "s \<noteq> c" using q'(3) by (auto simp: child_matches_def procs)
    obtain q0 where q0: "k_process k pp' = Some q0" "p_pgid q' = p_pgid q0"
      "bs_set (p_children q') \<subseteq> bs_set (p_children q0)"
      using q'(1) reaped(2) by (auto simp: procs remove_child_def split: if_splits)
    have "child_matches k q0 s sel"
      using q'(3) ne reaped(2) q0(2)
        child_matches_cong [of k' s k q' q0 sel] by (simp add: procs remove_child_def)
    then show "s \<in> zombies k pp' sel"
      using q0 q' ex [OF ne] by (auto simp: zombies_def waitable_def)
  qed
  moreover have "k_task k u = Some t" if "k_task k' u = Some t" for u t
    using that by (auto simp: reaped(7) split: option.splits if_splits)
  moreover have "is_exited k' s = is_exited k s \<and> k_process k s \<noteq> None"
    if "k_process k' s \<noteq> None" for s
    using that ex reaped(2) by (auto simp: procs split: if_splits)
  ultimately show ?thesis using reaped(6) by (simp add: drained_def)
qed

lemma zombies_cong: "k_processes k' = k_processes k \<Longrightarrow> zombies k' = zombies k"
  by (simp add: zombies_def waitable_def child_matches_def is_exited_def fun_eq_iff)

lemma is_exited_cong: "k_processes k' = k_processes k \<Longrightarrow> is_exited k' = is_exited k"
  by (simp add: is_exited_def fun_eq_iff)

lemma drained_wake:
  assumes ok: "kernel_ok k"
  shows "drained k (put_state tid Runnable (modify_task tid (return_value v) k))"
proof -
  let ?k = "put_state tid Runnable (modify_task tid (return_value v) k)"
  have "k_processes ?k = k_processes k" by simp
  moreover have "kernel_ok ?k" using ok by (intro kernel_ok_put_state kernel_ok_modify_task) simp_all
  ultimately show ?thesis
    using zombies_cong [of ?k k] is_exited_cong [of ?k k]
    by (auto simp: drained_def split: if_splits)
qed

text \<open>One iteration of the resume loop.\<close>

lemma resume_waiting_step:
  assumes ok: "kernel_ok k"
  obtains (skip) "has_unsupported_options args \<or> zombies k pp (w4_pid args) = {}"
      "resume_waiting_loop ((tid, pp, args) # rest) completed k = resume_waiting_loop rest completed k"
  | (woken) c status k2 where "c \<in> zombies k pp (w4_pid args)" "drained k k2" "k_process k2 c = None"
      "resume_waiting_loop ((tid, pp, args) # rest) completed k = resume_waiting_loop rest
         (completed @ [\<lparr>cw_tid = tid, cw_pid = pp, cw_args = args,
            cw_waited = waited_child_new c status\<rparr>]) k2"
      "\<And>t. k_task k2 tid = Some t \<Longrightarrow> t_state t = Runnable \<and> rax (t_regs t) = ucast c"
      "\<And>u. u \<noteq> tid \<Longrightarrow> k_task k2 u = (case k_task k u of
         Some t \<Rightarrow> if t_pid t = c then None else Some t | None \<Rightarrow> None)"
proof -
  obtain r k1 where w: "wait4_child pp args k = (r, k1)" by fastforce
  from ok w show thesis
  proof (cases rule: wait4_child_cases)
    case same
    have "resume_waiting_loop ((tid, pp, args) # rest) completed k
        = resume_waiting_loop rest completed k"
      using same w by (auto split: sum.splits option.splits)
    with same(3) show thesis by (rule skip)
  next
    case (reaped c q p status)
    define k2 where "k2 = put_state tid Runnable (modify_task tid (return_value (ucast c)) k1)"
    have d: "drained k k2"
      unfolding k2_def
      by (rule drained_trans [OF drained_wait4_child [OF ok w] drained_wake [OF reaped(6)]])
    have none: "k_process k2 c = None" by (simp add: k2_def reaped(8))
    have res: "resume_waiting_loop ((tid, pp, args) # rest) completed k = resume_waiting_loop rest
         (completed @ [\<lparr>cw_tid = tid, cw_pid = pp, cw_args = args,
            cw_waited = waited_child_new c status\<rparr>]) k2"
      using w reaped(5) by (simp add: Let_def k2_def waited_child_new_def)
    show thesis
    proof (rule woken [OF reaped(1) d none res])
      fix t assume "k_task k2 tid = Some t"
      then show "t_state t = Runnable \<and> rax (t_regs t) = ucast c"
        by (auto simp: k2_def return_value_def with_syscall_return_def)
    next
      fix u assume "u \<noteq> tid"
      then show "k_task k2 u = (case k_task k u of
         Some t \<Rightarrow> if t_pid t = c then None else Some t | None \<Rightarrow> None)"
        by (simp add: k2_def reaped(7))
    qed
  qed
qed

lemma resume_waiting_loop_frame:
  assumes "kernel_ok k" "resume_waiting_loop ws completed k = (completed', k')"
  shows "drained k k' \<and> (\<forall>u. u \<notin> fst ` set ws \<longrightarrow> k_task k' u = None \<or> k_task k' u = k_task k u)"
  using assms
proof (induction ws arbitrary: completed k)
  case Nil
  then show ?case by (simp add: drained_refl)
next
  case (Cons w rest)
  obtain tid pp args where wv: "w = (tid, pp, args)" by (cases w)
  from Cons.prems(1) show ?case
  proof (cases rule: resume_waiting_step [where tid = tid and pp = pp and args = args
        and rest = rest and completed = completed])
    case skip
    then show ?thesis using Cons by (simp add: wv)
  next
    case (woken c status k2)
    have "kernel_ok k2" using woken(2) by (simp add: drained_def)
    with Cons.IH [OF this] Cons.prems(2) woken(4)
    have IH: "drained k2 k'" "\<forall>u. u \<notin> fst ` set rest \<longrightarrow> k_task k' u = None \<or> k_task k' u = k_task k2 u"
      by (auto simp: wv)
    have "k_task k' u = None \<or> k_task k' u = k_task k u" if "u \<notin> fst ` set (w # rest)" for u
      using IH(2) woken(6) [of u] that by (auto simp: wv split: option.splits if_splits)
    then show ?thesis using drained_trans [OF woken(2) IH(1)] by blast
  qed
qed

lemma zombies_live: "c \<in> zombies k pp sel \<Longrightarrow> k_process k c \<noteq> None"
  by (auto simp: zombies_def is_exited_def split: option.splits)

definition completed_ok :: "guest_kernel \<Rightarrow> guest_kernel \<Rightarrow> completed_wait \<Rightarrow> bool" where
  "completed_ok k k' cw \<longleftrightarrow>
     (let c = wc_pid (cw_waited cw) in
      c \<in> zombies k (cw_pid cw) (w4_pid (cw_args cw)) \<and> k_process k' c = None
      \<and> (\<forall>t. k_task k' (cw_tid cw) = Some t \<longrightarrow> t_state t = Runnable \<and> rax (t_regs t) = ucast c))"

lemma resume_waiting_loop_spec:
  assumes "kernel_ok k" "distinct (map fst ws)" "resume_waiting_loop ws completed k = (completed', k')"
  shows "(\<forall>(tid, pp, args) \<in> set ws. has_unsupported_options args \<or> zombies k' pp (w4_pid args) = {}
            \<or> (\<forall>t. k_task k' tid = Some t \<longrightarrow> t_state t = Runnable))
    \<and> (\<exists>new. completed' = completed @ new \<and> distinct (map (wc_pid \<circ> cw_waited) new)
         \<and> (\<forall>cw \<in> set new. (cw_tid cw, cw_pid cw, cw_args cw) \<in> set ws \<and> completed_ok k k' cw))"
  using assms
proof (induction ws arbitrary: completed k)
  case Nil
  then show ?case by simp
next
  case (Cons w rest)
  obtain tid pp args where wv: "w = (tid, pp, args)" by (cases w)
  have dist: "distinct (map fst rest)" "tid \<notin> fst ` set rest" using Cons.prems(2) by (auto simp: wv)
  from Cons.prems(1) show ?case
  proof (cases rule: resume_waiting_step [where tid = tid and pp = pp and args = args
        and rest = rest and completed = completed])
    case skip
    then have r: "resume_waiting_loop rest completed k = (completed', k')"
      using Cons.prems(3) by (simp add: wv)
    have "zombies k' pp (w4_pid args) \<subseteq> zombies k pp (w4_pid args)"
      using resume_waiting_loop_frame [OF Cons.prems(1) r] by (simp add: drained_def)
    then show ?thesis
      using Cons.IH [OF Cons.prems(1) dist(1) r] skip(1) by (auto simp: wv)
  next
    case (woken c status k2)
    have r: "resume_waiting_loop rest (completed @ [\<lparr>cw_tid = tid, cw_pid = pp, cw_args = args,
            cw_waited = waited_child_new c status\<rparr>]) k2 = (completed', k')"
      using Cons.prems(3) woken(4) by (simp add: wv)
    have ok2: "kernel_ok k2" using woken(2) by (simp add: drained_def)
    note frame = resume_waiting_loop_frame [OF ok2 r]
    have task: "k_task k' tid = None \<or> k_task k' tid = k_task k2 tid" using frame dist(2) by blast
    have run: "t_state t = Runnable \<and> rax (t_regs t) = ucast c" if "k_task k' tid = Some t" for t
      using task woken(5) that by auto
    have gone: "k_process k' c = None" using frame woken(3) by (auto simp: drained_def)
    obtain new where new: "completed' = (completed @ [\<lparr>cw_tid = tid, cw_pid = pp, cw_args = args,
            cw_waited = waited_child_new c status\<rparr>]) @ new" "distinct (map (wc_pid \<circ> cw_waited) new)"
      "\<forall>cw \<in> set new. (cw_tid cw, cw_pid cw, cw_args cw) \<in> set rest \<and> completed_ok k2 k' cw"
      using Cons.IH [OF ok2 dist(1) r] by (elim conjE exE)
    have sub: "zombies k2 p sel \<subseteq> zombies k p sel" for p sel
      using woken(2) by (simp add: drained_def)
    have later: "completed_ok k k' cw" "wc_pid (cw_waited cw) \<noteq> c" if "completed_ok k2 k' cw" for cw
      using that sub zombies_live [of "wc_pid (cw_waited cw)" k2] woken(3)
      by (auto simp: completed_ok_def Let_def)
    let ?cw = "\<lparr>cw_tid = tid, cw_pid = pp, cw_args = args, cw_waited = waited_child_new c status\<rparr>"
    have first: "completed_ok k k' ?cw" "wc_pid (cw_waited ?cw) = c"
      using woken(1) gone run by (simp_all add: completed_ok_def Let_def waited_child_new_def)
    have "completed' = completed @ (?cw # new)" using new(1) by simp
    moreover have "distinct (map (wc_pid \<circ> cw_waited) (?cw # new))"
      using new(2,3) later(2) first(2) by auto
    moreover have "\<forall>cw \<in> set (?cw # new). (cw_tid cw, cw_pid cw, cw_args cw) \<in> set (w # rest)
        \<and> completed_ok k k' cw"
      using new(3) later(1) first(1) by (auto simp: wv)
    moreover have "\<forall>(tid, pp, args) \<in> set (w # rest). has_unsupported_options args
        \<or> zombies k' pp (w4_pid args) = {} \<or> (\<forall>t. k_task k' tid = Some t \<longrightarrow> t_state t = Runnable)"
      using Cons.IH [OF ok2 dist(1) r] run by (auto simp: wv)
    ultimately show ?thesis by blast
  qed
qed

lemma map_fst_map_filter:
  assumes "\<And>x y. x \<in> set xs \<Longrightarrow> f x = Some y \<Longrightarrow> fst y = x"
  shows "map fst (List.map_filter f xs) = filter (\<lambda>x. f x \<noteq> None) xs"
  using assms by (induction xs) (auto simp: map_filter_simps split: option.splits)

lemma set_map_filter_iff: "set (List.map_filter f xs) = {y. \<exists>x \<in> set xs. f x = Some y}"
  by (induction xs) (auto simp: map_filter_simps split: option.splits)

lemma waiting_tasks_spec:
  assumes ok: "kernel_ok k"
  shows "set (waiting_tasks k) =
      {(tid, pp, args). \<exists>t. k_task k tid = Some t \<and> t_pid t = pp \<and> t_state t = WaitingForChild args}"
    and "distinct (map fst (waiting_tasks k))"
proof -
  let ?f = "\<lambda>tid. case k_task k tid of None \<Rightarrow> None
      | Some task \<Rightarrow> (case t_state task of
          WaitingForChild args \<Rightarrow> Some (t_tid task, t_pid task, args) | _ \<Rightarrow> None)"
  have f: "?f tid = Some y \<longleftrightarrow> (\<exists>t args. k_task k tid = Some t \<and> t_state t = WaitingForChild args
      \<and> y = (tid, t_pid t, args))" for tid y
    using keys_okD(1) [OF ok] by (auto split: option.splits task_state.splits)
  have idx: "set (bs_list (k_child_wait_tids k)) = {tid. \<exists>args. state_of k tid = Some (WaitingForChild args)}"
    using ok by (simp add: kernel_ok_def index_of_def)
  show "set (waiting_tasks k) =
      {(tid, pp, args). \<exists>t. k_task k tid = Some t \<and> t_pid t = pp \<and> t_state t = WaitingForChild args}"
    unfolding waiting_tasks_def set_map_filter_iff idx f by (auto simp: state_of_def)
  have "map fst (waiting_tasks k) = filter (\<lambda>x. ?f x \<noteq> None) (bs_list (k_child_wait_tids k))"
    unfolding waiting_tasks_def by (rule map_fst_map_filter) (simp only: f, auto)
  then show "distinct (map fst (waiting_tasks k))" by simp
qed

lemma kernel_ok_resume_waiting_tasks [intro]:
  assumes "kernel_ok k"
  shows "kernel_ok (snd (resume_waiting_tasks k))"
  using resume_waiting_loop_frame [OF assms] unfolding resume_waiting_tasks_def drained_def
  by (metis prod.collapse)

subsection \<open>Futex queues\<close>

text \<open>The tasks that wait on a key, in the order in which they are woken.\<close>

definition futex_queue :: "guest_kernel \<Rightarrow> futex_wait_key \<Rightarrow> guest_tid list" where
  "futex_queue k key = sorted_list_of_set {u. state_of k u = Some (WaitingForFutex key)}"

lemma finite_states: "finite {u. state_of k u = Some s}"
proof (rule finite_subset)
  show "{u. state_of k u = Some s} \<subseteq> set (bt_keys (k_tasks k))"
    by (auto simp: state_of_def set_bt_keys)
qed simp

lemma futex_queue_simps [simp]:
  "set (futex_queue k key) = {u. state_of k u = Some (WaitingForFutex key)}"
  "sorted_wrt (<) (futex_queue k key)" "distinct (futex_queue k key)"
  by (simp_all add: futex_queue_def finite_states)

lemma futex_wait_list_eq:
  assumes "kernel_ok k"
  shows "futex_wait_list k key = futex_queue k key"
proof -
  have "futex_waiters k key = {u. state_of k u = Some (WaitingForFutex key)}"
    using assms by (simp add: kernel_ok_def index_of_def)
  then show ?thesis
    by (auto simp: futex_wait_list_def futex_waiters_def futex_queue_def bs_list_eq_sorted_list
        split: option.splits)
qed

lemma move_futex_waiters_eq:
  assumes "\<forall>u \<in> set tids. state_of k u = Some (WaitingForFutex source)" "distinct tids" "moved < limit"
  shows "move_futex_waiters source st limit tids moved k =
    (moved + min (limit - moved) (length tids), fold (\<lambda>u. put_state u st) (take (limit - moved) tids) k)"
  using assms
proof (induction tids arbitrary: moved k)
  case Nil
  then show ?case by simp
next
  case (Cons u tids)
  obtain t where t: "k_task k u = Some t" "t_state t = WaitingForFutex source"
    using Cons.prems(1) by (auto simp: state_of_def)
  have st: "\<forall>v \<in> set tids. state_of (put_state u st k) v = Some (WaitingForFutex source)"
    using Cons.prems(1,2) by (auto simp: state_of_put_state)
  show ?case
  proof (cases "Suc moved = limit")
    case True
    then have "limit - moved = Suc 0" by simp
    with True t show ?thesis by (simp add: Let_def)
  next
    case False
    then have "Suc moved < limit" using Cons.prems(3) by simp
    moreover have "limit - moved = Suc (limit - Suc moved)" using Cons.prems(3) by simp
    ultimately show ?thesis
      using t False Cons.IH [OF st] Cons.prems(2) by (simp add: Let_def)
  qed
qed

lemma wake_futex_waiters_eq:
  assumes "kernel_ok k"
  shows "wake_futex_waiters key limit k =
    (min (unat limit) (length (futex_queue k key)),
     fold (\<lambda>u. put_state u Runnable) (take (unat limit) (futex_queue k key)) k)"
  using move_futex_waiters_eq [of "futex_queue k key" k key 0 "unat limit" Runnable]
  by (auto simp: wake_futex_waiters_def Let_def futex_wait_list_eq [OF assms])

lemma set_drop_distinct: "distinct xs \<Longrightarrow> set (drop n xs) = set xs - set (take n xs)"
  by (metis Diff_cancel Diff_triv Un_Diff append_take_drop_id set_append set_take_disj_set_drop_if_distinct
      inf_commute order_refl sup_bot_left)

lemma futex_queue_drop:
  assumes "\<And>u. state_of k' u = Some (WaitingForFutex key) \<longleftrightarrow>
    state_of k u = Some (WaitingForFutex key) \<and> u \<notin> set (take n (futex_queue k key))"
  shows "futex_queue k' key = drop n (futex_queue k key)"
proof -
  have "set (drop n (futex_queue k key)) = {u. state_of k' u = Some (WaitingForFutex key)}"
    using assms by (auto simp: set_drop_distinct)
  moreover have "sorted_wrt (<) (drop n (futex_queue k key))"
    using sorted_wrt_drop futex_queue_simps(2) by blast
  ultimately show ?thesis
    unfolding futex_queue_def [of k']
    by (metis sorted_list_of_set.idem_if_sorted_distinct strict_sorted_iff)
qed

lemma put_states_frame [simp]:
  "k_processes (fold (\<lambda>u. put_state u s) us k) = k_processes k"
  "k_next_pid (fold (\<lambda>u. put_state u s) us k) = k_next_pid k"
  "k_next_tid (fold (\<lambda>u. put_state u s) us k) = k_next_tid k"
  by (induction us arbitrary: k) simp_all

lemma kernel_ok_wake_futex [intro]: "kernel_ok k \<Longrightarrow> kernel_ok (snd (wake_futex_waiters key limit k))"
  by (simp add: wake_futex_waiters_eq sched.inv_fold)

text \<open>Requeueing in closed form: the first waiters wake, the next ones move.\<close>

lemma requeue_futex_waiters_eq:
  assumes ok: "kernel_ok k" and ne: "source \<noteq> target"
  defines "q \<equiv> futex_queue k source"
  shows "requeue_futex_waiters source target wl rl k =
    (min (unat wl) (length q) + min (unat rl) (length q - unat wl),
     fold (\<lambda>u. put_state u (WaitingForFutex target)) (take (unat rl) (drop (unat wl) q))
       (fold (\<lambda>u. put_state u Runnable) (take (unat wl) q) k))"
proof -
  let ?k1 = "fold (\<lambda>u. put_state u Runnable) (take (unat wl) q) k"
  have ok1: "kernel_ok ?k1" by (rule sched.inv_fold [OF ok])
  have q1: "futex_queue ?k1 source = drop (unat wl) q"
    unfolding q_def by (rule futex_queue_drop) (auto simp: sched.state_fold dest: in_set_takeD)
  have "move_futex_waiters source (WaitingForFutex target) (unat rl) (futex_queue ?k1 source) 0 ?k1 =
      (min (unat rl) (length (futex_queue ?k1 source)),
       fold (\<lambda>u. put_state u (WaitingForFutex target)) (take (unat rl) (futex_queue ?k1 source)) ?k1)"
    if "unat rl \<noteq> 0"
    using move_futex_waiters_eq [of "futex_queue ?k1 source" ?k1 source 0 "unat rl" "WaitingForFutex target"]
      that by simp
  then show ?thesis
    using ne
    by (auto simp: requeue_futex_waiters_def Let_def wake_futex_waiters_eq [OF ok] q_def [symmetric]
        futex_wait_list_eq [OF ok1] q1)
qed

lemma kernel_ok_requeue_futex [intro]:
  assumes "kernel_ok k"
  shows "kernel_ok (snd (requeue_futex_waiters source target wl rl k))"
proof (cases "source = target")
  case True
  then have "snd (requeue_futex_waiters source target wl rl k) = snd (wake_futex_waiters source wl k)"
    by (simp add: requeue_futex_waiters_def Let_def split: prod.splits)
  then show ?thesis using assms by auto
next
  case False
  then show ?thesis using assms by (simp add: requeue_futex_waiters_eq sched.inv_fold)
qed

subsection \<open>Other waits\<close>

lemma snd_block_task: "snd (block_task tid s k) = put_state tid s k"
  by (auto simp: block_task_def split: prod.splits option.splits)

lemma kernel_ok_block [intro]:
  assumes "kernel_ok k"
  shows "kernel_ok (snd (block_task_for_fd tid fd w k))" "kernel_ok (snd (block_task_for_futex tid key k))"
    "kernel_ok (snd (block_task_for_sleep tid k))"
  using kernel_ok_put_state [OF assms]
  by (simp_all add: block_task_for_fd_def block_task_for_futex_def block_task_for_sleep_def snd_block_task)

lemma kernel_ok_resume_fd_loop:
  "kernel_ok k \<Longrightarrow> kernel_ok (snd (snd (resume_fd_loop ready tids resumed s k)))"
  by (induction ready tids resumed s k rule: resume_fd_loop.induct)
    (auto simp: kernel_ok_put_state split: option.splits task_state.splits prod.splits bool.splits)

lemma kernel_ok_resume_fd_waiters [intro]:
  "kernel_ok k \<Longrightarrow> kernel_ok (snd (snd (resume_fd_waiters ready s k)))"
  by (simp add: resume_fd_waiters_def kernel_ok_resume_fd_loop)

lemma kernel_ok_resume_sleep_waiter [intro]:
  "kernel_ok k \<Longrightarrow> kernel_ok (snd (resume_sleep_waiter tid k))"
  using kernel_ok_put_state [of k tid Runnable]
  by (auto simp: resume_sleep_waiter_def split: prod.splits)

lemma kernel_ok_timeout_futex_waiter [intro]:
  "kernel_ok k \<Longrightarrow> kernel_ok (snd (timeout_futex_waiter tid k))"
  by (simp add: timeout_futex_waiter_def Let_def case_prod_beta kernel_ok_put_state
      kernel_ok_modify_task)

section \<open>Properties\<close>

text \<open>C27. What \<open>wait4\<close> finds is decided by the matching children.  If one of them has exited, the
  one with the least number is reaped: the caller gets its number, its status and the encoded wait
  status, the process and all its tasks disappear, the parent forgets it, and nothing else changes.
  If none has exited, the result is an empty answer under \<open>WNOHANG\<close> and \<open>WouldBlock\<close> otherwise;
  with no matching child it is \<open>ECHILD\<close>; in these cases the kernel is unchanged.\<close>

theorem wait4_reaps_least_zombie:
  assumes ok: "kernel_ok k" and opts: "\<not> has_unsupported_options args"
    and parent: "k_process k pp = Some q" and wait: "wait4_child pp args k = (r, k')"
  shows "(zombies k pp (w4_pid args) \<noteq> {} \<longrightarrow>
      (\<exists>c p status. c = Min (zombies k pp (w4_pid args))
        \<and> k_process k c = Some p \<and> p_exit_state p = Process_exited status
        \<and> r = Inr (Some \<lparr>wc_pid = c, wc_status = status, wc_wait_status = push_bit 8 (status AND 0xff)\<rparr>)
        \<and> (\<forall>s. k_process k' s = (if s = c then None
             else if s = pp then Some (q\<lparr>p_children := bs_remove c (p_children q)\<rparr>) else k_process k s))
        \<and> (\<forall>u. k_task k' u = (case k_task k u of
             Some t \<Rightarrow> if t_pid t = c then None else Some t | None \<Rightarrow> None))))
    \<and> (zombies k pp (w4_pid args) = {} \<longrightarrow> k' = k
        \<and> r = (if waitable k pp (w4_pid args) = {} then Inl NoChild
               else if no_hang args then Inr None else Inl WouldBlock))"
proof (intro conjI impI)
  assume z: "zombies k pp (w4_pid args) \<noteq> {}"
  obtain c q' p status k'' where c: "c = Min (zombies k pp (w4_pid args))"
    and q': "k_process k pp = Some q'"
    and p: "k_process k c = Some p" "p_exit_state p = Process_exited status"
    and w: "wait4_child pp args k = (Inr (Some (waited_child_new c status)), k'')"
    and t: "\<And>u. k_task k'' u = (case k_task k u of
         Some t \<Rightarrow> if t_pid t = c then None else Some t | None \<Rightarrow> None)"
    and s: "\<And>s. k_process k'' s = (if s = c then None else if s = pp then Some (remove_child c q')
         else k_process k s)"
    by (rule wait4_child_reaps [OF ok opts z]) (rule that; assumption)
  have eq: "r = Inr (Some (waited_child_new c status))" "k'' = k'" "q' = q"
    using w wait q' parent by simp_all
  have "r = Inr (Some \<lparr>wc_pid = c, wc_status = status, wc_wait_status = push_bit 8 (status AND 0xff)\<rparr>)"
    using eq(1) by (simp add: waited_child_new_def linux_wait_exit_status_def)
  then show "\<exists>c p status. c = Min (zombies k pp (w4_pid args))
        \<and> k_process k c = Some p \<and> p_exit_state p = Process_exited status
        \<and> r = Inr (Some \<lparr>wc_pid = c, wc_status = status, wc_wait_status = push_bit 8 (status AND 0xff)\<rparr>)
        \<and> (\<forall>s. k_process k' s = (if s = c then None
             else if s = pp then Some (q\<lparr>p_children := bs_remove c (p_children q)\<rparr>) else k_process k s))
        \<and> (\<forall>u. k_task k' u = (case k_task k u of
             Some t \<Rightarrow> if t_pid t = c then None else Some t | None \<Rightarrow> None))"
    using c p s [unfolded eq] t [unfolded eq] by (auto simp: remove_child_def)
next
  assume z: "zombies k pp (w4_pid args) = {}"
  then have "(r, k') = (if waitable k pp (w4_pid args) = {} then Inl NoChild
               else if no_hang args then Inr None else Inl WouldBlock, k)"
    unfolding wait [symmetric]
    using opts parent by (auto simp: wait4_child_def exited_waitable_child_eq [OF parent])
  then show "k' = k" "r = (if waitable k pp (w4_pid args) = {} then Inl NoChild
               else if no_hang args then Inr None else Inl WouldBlock)"
    by simp_all
qed

definition any_child :: wait4_args where
  "any_child = \<lparr>w4_pid = - 1, w4_wstatus = 0, w4_options = 0, w4_rusage = 0\<rparr>"

text \<open>Process 2 has exited with status 3 and its parent, task 1, waits for any child.\<close>

definition zombie_kernel :: guest_kernel where
  "zombie_kernel = put_state 1 (WaitingForChild any_child)
     (modify_process 2 (\<lambda>p. p\<lparr>p_exit_state := Process_exited 3\<rparr>) vforked_kernel)"

lemma any_child_simps [simp]:
  "\<not> has_unsupported_options any_child" "\<not> no_hang any_child" "w4_pid any_child = - 1"
  by (simp_all add: any_child_def has_unsupported_options_def no_hang_def)

lemma zombie_kernel_ok [simp]: "kernel_ok zombie_kernel"
  unfolding zombie_kernel_def
  by (intro kernel_ok_put_state kernel_ok_modify_process vforked_kernel_simps(1))
    (simp add: family_neutral_def)

lemma zombie_kernel_simps:
  "\<exists>q. k_process zombie_kernel 1 = Some q \<and> \<not> is_exited zombie_kernel 1"
  "\<exists>t. k_task zombie_kernel 1 = Some t \<and> t_pid t = 1 \<and> t_state t = WaitingForChild any_child"
  "zombies zombie_kernel 1 (- 1) = {2}"
proof -
  obtain p q t where p: "k_process vforked_kernel 2 = Some p"
    and q: "k_process vforked_kernel 1 = Some q" "bs_set (p_children q) = {2}" "p_exit_state q = Running"
    and t: "k_task vforked_kernel 1 = Some t" "t_pid t = 1"
    using vforked_kernel_simps(3,4,5) by blast
  show "\<exists>q. k_process zombie_kernel 1 = Some q \<and> \<not> is_exited zombie_kernel 1"
    "\<exists>t. k_task zombie_kernel 1 = Some t \<and> t_pid t = 1 \<and> t_state t = WaitingForChild any_child"
    using p q t by (simp_all add: zombie_kernel_def is_exited_def)
  have "is_exited zombie_kernel 2" "child_matches zombie_kernel q' 2 (- 1)" for q'
    using p by (simp_all add: zombie_kernel_def is_exited_def child_matches_def)
  moreover have "k_process zombie_kernel 1 = Some q" using q by (simp add: zombie_kernel_def)
  ultimately show "zombies zombie_kernel 1 (- 1) = {2}"
    using q(2) by (auto simp: zombies_def waitable_def)
qed

theorem wait4_reaps_least_zombie_witness:
  "\<exists>k'. wait4_child 1 any_child zombie_kernel =
      (Inr (Some \<lparr>wc_pid = 2, wc_status = 3, wc_wait_status = 0x300\<rparr>), k')
    \<and> k_process k' 2 = None"
proof -
  obtain q where q: "k_process zombie_kernel 1 = Some q" using zombie_kernel_simps(1) by blast
  obtain r k' where w: "wait4_child 1 any_child zombie_kernel = (r, k')" by fastforce
  obtain p where p: "k_process zombie_kernel 2 = Some p" "p_exit_state p = Process_exited 3"
    using vforked_kernel_simps(3) by (auto simp: zombie_kernel_def)
  show ?thesis
    using wait4_reaps_least_zombie [OF zombie_kernel_ok _ q w] w p
    by (auto simp: zombie_kernel_simps(3))
qed

text \<open>C1. The wait status word of an exited child follows the Linux layout: the low seven bits are
  zero, which means a normal exit, and the next byte is the low byte of the exit status.\<close>

theorem wait_status_layout:
  "linux_wait_exit_status status AND 0x7f = 0
   \<and> drop_bit 8 (linux_wait_exit_status status) AND 0xff = status AND 0xff
   \<and> unat (linux_wait_exit_status status) = 256 * (unat status mod 256)"
proof -
  have m: "(0x7f :: u32) = mask 7" "(0xff :: u32) = mask 8" by (simp_all add: mask_eq_exp_minus_1)
  have "linux_wait_exit_status status AND 0x7f = 0"
    unfolding linux_wait_exit_status_def m by (rule bit_word_eqI) (auto simp: bit_simps)
  moreover have "drop_bit 8 (linux_wait_exit_status status) AND 0xff = status AND 0xff"
    unfolding linux_wait_exit_status_def m by (rule bit_word_eqI) (auto simp: bit_simps)
  moreover have "unat (linux_wait_exit_status status) = 256 * (unat status mod 256)"
  proof -
    have "unat (status AND 0xff) = unat status mod 256"
      unfolding m take_bit_eq_mask [symmetric] unsigned_take_bit_eq
      by (simp add: take_bit_eq_mod)
    then show ?thesis
      by (simp add: linux_wait_exit_status_def push_bit_eq_mult unat_word_ariths)
  qed
  ultimately show ?thesis by blast
qed

text \<open>C28. Resuming child waits loses no wake-up and reports no child twice: afterwards no task that
  still waits for a child has an exited matching child; every completed wait belongs to a task that
  was waiting with these arguments, names a child of its process that had exited and matched, that
  child is gone, and the task is runnable with the child's number in \<open>rax\<close>.\<close>

theorem resume_waiting_tasks_complete:
  assumes ok: "kernel_ok k" and res: "resume_waiting_tasks k = (completed, k')"
  shows "(\<forall>tid t args. k_task k' tid = Some t \<longrightarrow> t_state t = WaitingForChild args
        \<longrightarrow> \<not> has_unsupported_options args \<longrightarrow> zombies k' (t_pid t) (w4_pid args) = {})
    \<and> distinct (map (wc_pid \<circ> cw_waited) completed)
    \<and> (\<forall>cw \<in> set completed. state_of k (cw_tid cw) = Some (WaitingForChild (cw_args cw))
        \<and> map_option t_pid (k_task k (cw_tid cw)) = Some (cw_pid cw)
        \<and> wc_pid (cw_waited cw) \<in> zombies k (cw_pid cw) (w4_pid (cw_args cw))
        \<and> k_process k' (wc_pid (cw_waited cw)) = None
        \<and> (\<forall>t. k_task k' (cw_tid cw) = Some t \<longrightarrow>
             t_state t = Runnable \<and> rax (t_regs t) = ucast (wc_pid (cw_waited cw))))"
proof (intro conjI allI impI)
  note ws = waiting_tasks_spec [OF ok]
  have loop: "resume_waiting_loop (waiting_tasks k) [] k = (completed, k')"
    using res by (simp add: resume_waiting_tasks_def)
  note spec = resume_waiting_loop_spec [OF ok ws(2) loop]
  fix tid t args
  assume t: "k_task k' tid = Some t" "t_state t = WaitingForChild args" "\<not> has_unsupported_options args"
  have "k_task k tid = Some t"
    using resume_waiting_loop_frame [OF ok loop] t(1,2) by (auto simp: drained_def)
  then have "(tid, t_pid t, args) \<in> set (waiting_tasks k)" using t(2) ws(1) by auto
  then show "zombies k' (t_pid t) (w4_pid args) = {}"
    using conjunct1 [OF spec] t by fastforce
next
  have loop: "resume_waiting_loop (waiting_tasks k) [] k = (completed, k')"
    using res by (simp add: resume_waiting_tasks_def)
  obtain new where new: "completed = [] @ new" "distinct (map (wc_pid \<circ> cw_waited) new)"
    "\<forall>cw \<in> set new. (cw_tid cw, cw_pid cw, cw_args cw) \<in> set (waiting_tasks k) \<and> completed_ok k k' cw"
    using resume_waiting_loop_spec [OF ok waiting_tasks_spec(2) [OF ok] loop] by (elim conjE exE)
  then show "distinct (map (wc_pid \<circ> cw_waited) completed)" by simp
  show "\<forall>cw \<in> set completed. state_of k (cw_tid cw) = Some (WaitingForChild (cw_args cw))
        \<and> map_option t_pid (k_task k (cw_tid cw)) = Some (cw_pid cw)
        \<and> wc_pid (cw_waited cw) \<in> zombies k (cw_pid cw) (w4_pid (cw_args cw))
        \<and> k_process k' (wc_pid (cw_waited cw)) = None
        \<and> (\<forall>t. k_task k' (cw_tid cw) = Some t \<longrightarrow>
             t_state t = Runnable \<and> rax (t_regs t) = ucast (wc_pid (cw_waited cw)))"
    using new(1,3) waiting_tasks_spec(1) [OF ok]
    by (auto simp: completed_ok_def Let_def state_of_def)
qed

theorem resume_waiting_tasks_complete_witness:
  "\<exists>completed k'. resume_waiting_tasks zombie_kernel = (completed, k')
     \<and> (\<forall>t. k_task k' 1 = Some t \<longrightarrow> t_state t \<noteq> WaitingForChild any_child
          \<or> zombies k' (t_pid t) (- 1) = {})"
proof -
  obtain completed k' where r: "resume_waiting_tasks zombie_kernel = (completed, k')" by fastforce
  show ?thesis
    using resume_waiting_tasks_complete [OF zombie_kernel_ok r] r by fastforce
qed

text \<open>A task that is not concerned keeps its state through the resume loop.\<close>

lemma resume_waiting_loop_untouched:
  assumes "kernel_ok k" "resume_waiting_loop ws completed k = (completed', k')"
    and "k_task k u = Some t" "\<not> is_exited k (t_pid t)"
    and "\<And>pp args. (u, pp, args) \<in> set ws \<Longrightarrow> zombies k pp (w4_pid args) = {}"
  shows "k_task k' u = Some t"
  using assms
proof (induction ws arbitrary: completed k)
  case Nil
  then show ?case by simp
next
  case (Cons w rest)
  obtain tid pp args where wv: "w = (tid, pp, args)" by (cases w)
  from Cons.prems(1) show ?case
  proof (cases rule: resume_waiting_step [where tid = tid and pp = pp and args = args
        and rest = rest and completed = completed])
    case skip
    then show ?thesis using Cons.IH [OF Cons.prems(1) _ Cons.prems(3,4)] Cons.prems(2,5)
      by (simp add: wv)
  next
    case (woken c status k2)
    have ok2: "kernel_ok k2" and sub: "zombies k2 p s \<subseteq> zombies k p s"
      and ex: "k_process k2 p \<noteq> None \<Longrightarrow> is_exited k2 p = is_exited k p" for p s
      using woken(2) by (simp_all add: drained_def)
    have "u \<noteq> tid" using Cons.prems(5) [of pp args] woken(1) by (auto simp: wv)
    moreover have "t_pid t \<noteq> c" using woken(1) Cons.prems(4) by (auto simp: zombies_def)
    ultimately have t2: "k_task k2 u = Some t" using woken(6) [of u] Cons.prems(3) by simp
    then have "\<not> is_exited k2 (t_pid t)"
      using ex keys_okD(3) [OF ok2 t2] Cons.prems(4) by simp
    moreover have "zombies k2 p (w4_pid a) = {}" if "(u, p, a) \<in> set rest" for p a
      using that Cons.prems(5) sub by (metis list.set_intros(2) subset_empty)
    ultimately show ?thesis
      using Cons.IH [OF ok2 _ t2] Cons.prems(2) woken(4) by (simp add: wv)
  qed
qed

text \<open>C1. A child wait outlives the children: once no matching child is left (another thread of the
  process collected the last one), \<open>wait4\<close> itself would answer \<open>ECHILD\<close>, but a task that is
  already blocked in it stays blocked.\<close>

theorem wait4_blocked_without_children:
  assumes ok: "kernel_ok k" and t: "k_task k tid = Some t" "t_state t = WaitingForChild args"
    and live: "\<not> is_exited k (t_pid t)" "\<not> has_unsupported_options args"
    and none: "waitable k (t_pid t) (w4_pid args) = {}"
  shows "fst (wait4_child (t_pid t) args k) = Inl NoChild
    \<and> k_task (snd (resume_waiting_tasks k)) tid = Some t"
proof -
  have z: "zombies k (t_pid t) (w4_pid args) = {}" using none by (simp add: zombies_def)
  obtain q where q: "k_process k (t_pid t) = Some q" using keys_okD(3) [OF ok t(1)] by auto
  have "fst (wait4_child (t_pid t) args k) = Inl NoChild"
    using live(2) none z by (simp add: wait4_child_def exited_waitable_child_eq [OF q])
  moreover obtain completed k' where r: "resume_waiting_loop (waiting_tasks k) [] k = (completed, k')"
    by fastforce
  moreover have "k_task k' tid = Some t"
    by (rule resume_waiting_loop_untouched [OF ok r t(1) live(1)])
      (use t z waiting_tasks_spec(1) [OF ok] in auto)
  ultimately show ?thesis by (simp add: resume_waiting_tasks_def)
qed

theorem wait4_blocked_without_children_witness:
  "\<exists>t. k_task (snd (resume_waiting_tasks (put_state 1 (WaitingForChild any_child) demo_kernel))) 1 = Some t
     \<and> t_state t = WaitingForChild any_child"
proof -
  let ?k = "put_state 1 (WaitingForChild any_child) demo_kernel"
  let ?t = "(task_initial 1 1 (gis_memory tiny_image_state))\<lparr>t_state := WaitingForChild any_child\<rparr>"
  have t: "k_task ?k 1 = Some ?t" by (simp add: demo_kernel_simps)
  have "\<not> is_exited ?k (t_pid ?t)" "waitable ?k (t_pid ?t) (w4_pid any_child) = {}"
    by (simp_all add: is_exited_def waitable_def demo_kernel_simps boot_process_def task_initial_def)
  then show ?thesis
    using wait4_blocked_without_children [OF kernel_ok_put_state [OF demo_kernel_ok] t, of any_child]
    by simp
qed

text \<open>C1. A futex wake resumes the waiters with the least task numbers, at most \<open>limit\<close> of them and
  all of them if there are fewer, and returns how many; the rest keep waiting in order, and apart
  from the states of the woken tasks nothing changes.\<close>

theorem futex_wake_least:
  assumes ok: "kernel_ok k" and wake: "wake_futex_waiters key limit k = (n, k')"
  shows "n = min (unat limit) (length (futex_queue k key))
    \<and> futex_queue k' key = drop n (futex_queue k key)
    \<and> (\<forall>u. state_of k' u = (if u \<in> set (take n (futex_queue k key)) then Some Runnable else state_of k u))
    \<and> k_processes k' = k_processes k \<and> same_but_state k k'"
proof -
  let ?q = "futex_queue k key"
  have eq: "n = min (unat limit) (length ?q)"
    "k' = fold (\<lambda>u. put_state u Runnable) (take (unat limit) ?q) k"
    using wake wake_futex_waiters_eq [OF ok] by simp_all
  have take: "take n ?q = take (unat limit) ?q" by (simp add: eq(1) min_def)
  have state: "state_of k' u = (if u \<in> set (take n ?q) then Some Runnable else state_of k u)" for u
    by (auto simp: eq(2) take sched.state_fold dest: in_set_takeD)
  have "futex_queue k' key = drop n ?q"
    by (rule futex_queue_drop) (auto simp: state)
  then show ?thesis using eq state by (simp add: same_but_state_fold)
qed

theorem futex_wake_least_witness:
  "\<exists>n k'. wake_futex_waiters (futex_wait_key_new 1 0x1000 True) 5
      (put_state 1 (WaitingForFutex (futex_wait_key_new 1 0x1000 True)) demo_kernel) = (n, k')
     \<and> n = 1 \<and> state_of k' 1 = Some Runnable"
proof -
  let ?key = "futex_wait_key_new 1 0x1000 True"
  let ?k = "put_state 1 (WaitingForFutex ?key) demo_kernel"
  obtain n k' where w: "wake_futex_waiters ?key 5 ?k = (n, k')" by fastforce
  have "{u. state_of ?k u = Some (WaitingForFutex ?key)} = {1}"
    by (auto simp: state_of_def demo_kernel_simps split: if_splits)
  then have "futex_queue ?k ?key = [1]" by (simp add: futex_queue_def)
  then show ?thesis
    using futex_wake_least [OF kernel_ok_put_state [OF demo_kernel_ok] w] w by simp
qed

text \<open>C1. A futex requeue onto another key wakes the first \<open>wake_limit\<close> waiters and moves the next
  \<open>requeue_limit\<close> to the target key; the count covers both, later waiters stay on the source key
  in order, and no waiter is lost.\<close>

theorem futex_requeue_splits:
  assumes ok: "kernel_ok k" and ne: "source \<noteq> target"
    and rq: "requeue_futex_waiters source target wake_limit requeue_limit k = (n, k')"
  shows "n = min (unat wake_limit + unat requeue_limit) (length (futex_queue k source))
    \<and> (\<forall>u. state_of k' u =
         (if u \<in> set (take (unat wake_limit) (futex_queue k source)) then Some Runnable
          else if u \<in> set (take (unat requeue_limit) (drop (unat wake_limit) (futex_queue k source)))
          then Some (WaitingForFutex target) else state_of k u))
    \<and> futex_queue k' source = drop n (futex_queue k source)"
proof -
  let ?q = "futex_queue k source" and ?w = "unat wake_limit" and ?r = "unat requeue_limit"
  have eq: "n = min ?w (length ?q) + min ?r (length ?q - ?w)"
    "k' = fold (\<lambda>u. put_state u (WaitingForFutex target)) (take ?r (drop ?w ?q))
       (fold (\<lambda>u. put_state u Runnable) (take ?w ?q) k)"
    using rq requeue_futex_waiters_eq [OF ok ne] by simp_all
  have n: "n = min (?w + ?r) (length ?q)" using eq(1) by linarith
  have disj: "u \<notin> set (take ?w ?q)" if "u \<in> set (take ?r (drop ?w ?q))" for u
    using that in_set_takeD [OF that] set_take_disj_set_drop_if_distinct [of ?q ?w ?w] by auto
  have wait: "state_of k u = Some (WaitingForFutex source)"
    if "u \<in> set (take ?w ?q) \<or> u \<in> set (take ?r (drop ?w ?q))" for u
    using that by (auto dest!: in_set_takeD in_set_dropD)
  have state: "state_of k' u =
      (if u \<in> set (take ?w ?q) then Some Runnable
       else if u \<in> set (take ?r (drop ?w ?q)) then Some (WaitingForFutex target) else state_of k u)" for u
    using disj wait by (auto simp: eq(2) sched.state_fold)
  have "take n ?q = take ?w ?q @ take ?r (drop ?w ?q)"
    unfolding n by (metis take_add take_all_iff linorder_le_cases min.absorb1 min.absorb2 take_take)
  then have "u \<in> set (take n ?q) \<longleftrightarrow> u \<in> set (take ?w ?q) \<or> u \<in> set (take ?r (drop ?w ?q))" for u
    by simp
  then have "futex_queue k' source = drop n ?q"
    using ne by (intro futex_queue_drop) (auto simp: state)
  then show ?thesis using n state by simp
qed

theorem futex_requeue_splits_witness:
  "\<exists>n k'. requeue_futex_waiters (futex_wait_key_new 1 0x1000 True) (futex_wait_key_new 1 0x2000 True) 0 4
      (put_state 1 (WaitingForFutex (futex_wait_key_new 1 0x1000 True)) demo_kernel) = (n, k')
     \<and> n = 1 \<and> state_of k' 1 = Some (WaitingForFutex (futex_wait_key_new 1 0x2000 True))"
proof -
  let ?s = "futex_wait_key_new 1 0x1000 True" and ?t = "futex_wait_key_new 1 0x2000 True"
  let ?k = "put_state 1 (WaitingForFutex ?s) demo_kernel"
  obtain n k' where w: "requeue_futex_waiters ?s ?t 0 4 ?k = (n, k')" by fastforce
  have "{u. state_of ?k u = Some (WaitingForFutex ?s)} = {1}"
    by (auto simp: state_of_def demo_kernel_simps split: if_splits)
  then have "futex_queue ?k ?s = [1]" by (simp add: futex_queue_def)
  moreover have "?s \<noteq> ?t" by (simp add: futex_wait_key_new_def)
  ultimately show ?thesis
    using futex_requeue_splits [OF kernel_ok_put_state [OF demo_kernel_ok] _ w] w by simp
qed

end
