(* ===== verification/Task_Signal.thy ===== *)
theory Task_Signal
  imports Task_Wait
begin

text \<open>
  Signals and task exit (\<open>kernel/signal.rs\<close>, and the signal table of \<open>lib.rs\<close>): dispositions,
  masks, pending sets, delivery, signal waits, \<open>kill\<close> and its relatives, \<open>exit\<close> and
  \<open>exit_group\<close>.
\<close>

section \<open>Signal sets\<close>

definition LINUX_SIGHUP :: u32 where "LINUX_SIGHUP = 1"
definition LINUX_SIGINT :: u32 where "LINUX_SIGINT = 2"
definition LINUX_SIGQUIT :: u32 where "LINUX_SIGQUIT = 3"
definition LINUX_SIGILL :: u32 where "LINUX_SIGILL = 4"
definition LINUX_SIGTRAP :: u32 where "LINUX_SIGTRAP = 5"
definition LINUX_SIGABRT :: u32 where "LINUX_SIGABRT = 6"
definition LINUX_SIGBUS :: u32 where "LINUX_SIGBUS = 7"
definition LINUX_SIGFPE :: u32 where "LINUX_SIGFPE = 8"
definition LINUX_SIGUSR1 :: u32 where "LINUX_SIGUSR1 = 10"
definition LINUX_SIGSEGV :: u32 where "LINUX_SIGSEGV = 11"
definition LINUX_SIGUSR2 :: u32 where "LINUX_SIGUSR2 = 12"
definition LINUX_SIGPIPE :: u32 where "LINUX_SIGPIPE = 13"
definition LINUX_SIGALRM :: u32 where "LINUX_SIGALRM = 14"
definition LINUX_SIGTERM :: u32 where "LINUX_SIGTERM = 15"

datatype linux_default_signal_action = Ignore | Terminate

definition default_signal_action :: "u32 \<Rightarrow> linux_default_signal_action" where
  "default_signal_action signal =
     (if signal \<in> {LINUX_SIGHUP, LINUX_SIGINT, LINUX_SIGQUIT, LINUX_SIGILL, LINUX_SIGTRAP,
          LINUX_SIGABRT, LINUX_SIGBUS, LINUX_SIGFPE, LINUX_SIGKILL, LINUX_SIGUSR1, LINUX_SIGSEGV,
          LINUX_SIGUSR2, LINUX_SIGPIPE, LINUX_SIGALRM, LINUX_SIGTERM}
        \<or> 24 \<le> signal \<and> signal \<le> 27 \<or> 30 \<le> signal \<and> signal \<le> 31
      then Terminate else Ignore)"

definition signal_exit_status :: "u32 \<Rightarrow> i32" where
  "signal_exit_status signal = 128 + signal"

definition sanitize_signal_mask :: "u64 \<Rightarrow> u64" where
  "sanitize_signal_mask msk = msk AND NOT unblockable_signal_mask"

definition signal_matches_mask :: "u32 \<Rightarrow> u64 \<Rightarrow> bool" where
  "signal_matches_mask signal signal_mask \<longleftrightarrow>
     signal > 0 \<and> signal \<le> LINUX_SIGNAL_COUNT
     \<and> signal_mask AND push_bit (unat (signal - 1)) 1 \<noteq> 0"

definition take_pending_signal :: "u32 btree_set \<Rightarrow> u64 \<Rightarrow> u32 option \<times> u32 btree_set" where
  "take_pending_signal pending signal_mask =
     (case List.find (\<lambda>signal. signal_matches_mask signal signal_mask) (bs_list pending) of
        None \<Rightarrow> (None, pending)
      | Some signal \<Rightarrow> (Some signal, bs_remove signal pending))"

definition validate_signal :: "u32 \<Rightarrow> task_error + unit" where
  "validate_signal signal =
     (if signal > 0 \<and> signal \<le> LINUX_SIGNAL_COUNT \<and> signal \<noteq> LINUX_SIGKILL \<and> signal \<noteq> LINUX_SIGSTOP
      then Inr () else Inl (InvalidSignal signal))"

definition validate_signal_or_probe :: "u32 \<Rightarrow> task_error + unit" where
  "validate_signal_or_probe signal =
     (if signal \<le> LINUX_SIGNAL_COUNT then Inr () else Inl (InvalidSignal signal))"

definition apply_task_signal_mask :: "guest_task \<Rightarrow> u32 \<Rightarrow> u64 \<Rightarrow> task_error + guest_task" where
  "apply_task_signal_mask task how signal_mask =
     (let msk = sanitize_signal_mask signal_mask in
      if how = LINUX_SIG_BLOCK
      then Inr (task\<lparr>t_signal_mask := sanitize_signal_mask (t_signal_mask task OR msk)\<rparr>)
      else if how = LINUX_SIG_UNBLOCK then Inr (task\<lparr>t_signal_mask := t_signal_mask task AND NOT msk\<rparr>)
      else if how = LINUX_SIG_SETMASK then Inr (task\<lparr>t_signal_mask := msk\<rparr>)
      else Inl (InvalidSignalMaskHow how))"

section \<open>Taking pending signals\<close>

definition set_task_pending :: "u32 btree_set \<Rightarrow> guest_task \<Rightarrow> guest_task" where
  "set_task_pending pending task = task\<lparr>t_pending_signals := pending\<rparr>"

definition set_process_pending :: "u32 btree_set \<Rightarrow> guest_process \<Rightarrow> guest_process" where
  "set_process_pending pending process = process\<lparr>p_pending_signals := pending\<rparr>"

definition set_pending_delivery :: "u32 option \<Rightarrow> guest_task \<Rightarrow> guest_task" where
  "set_pending_delivery signal task = task\<lparr>t_pending_signal_delivery := signal\<rparr>"

text \<open>The mask argument of these operations is the set of signals that may be taken.\<close>

definition take_pending_signal_for_task ::
  "guest_tid \<Rightarrow> guest_pid \<Rightarrow> u64 \<Rightarrow> guest_kernel \<Rightarrow> u32 option \<times> guest_kernel" where
  "take_pending_signal_for_task tid pid signal_mask k =
     (case (case k_task k tid of
              None \<Rightarrow> (None, k)
            | Some task \<Rightarrow>
                (case take_pending_signal (t_pending_signals task) signal_mask of (signal, pending) \<Rightarrow>
                   (signal, modify_task tid (set_task_pending pending) k))) of
        (Some signal, k) \<Rightarrow> (Some signal, k)
      | (None, k) \<Rightarrow>
          (case k_process k pid of
             None \<Rightarrow> (None, k)
           | Some process \<Rightarrow>
               (case take_pending_signal (p_pending_signals process) signal_mask of (signal, pending) \<Rightarrow>
                  (signal, modify_process pid (set_process_pending pending) k))))"

definition take_pending_signal_for_return_to_user ::
  "guest_tid \<Rightarrow> guest_kernel \<Rightarrow> u32 option \<times> guest_kernel" where
  "take_pending_signal_for_return_to_user tid k =
     (case k_task k tid of
        None \<Rightarrow> (None, k)
      | Some task \<Rightarrow>
          (case t_pending_signal_delivery task of
             Some signal \<Rightarrow> (Some signal, modify_task tid (set_pending_delivery None) k)
           | None \<Rightarrow> take_pending_signal_for_task tid (t_pid task) (NOT (t_signal_mask task)) k))"

definition set_task_signal_mask :: "guest_tid \<Rightarrow> u64 \<Rightarrow> guest_kernel \<Rightarrow> bool \<times> guest_kernel" where
  "set_task_signal_mask tid signal_mask k =
     (case k_task k tid of
        None \<Rightarrow> (False, k)
      | Some _ \<Rightarrow>
          (True, modify_task tid (\<lambda>task. task\<lparr>t_signal_mask := sanitize_signal_mask signal_mask\<rparr>) k))"

section \<open>Waking signal waiters\<close>

definition signal_waiters :: "guest_pid \<Rightarrow> guest_kernel \<Rightarrow> (guest_tid \<times> u64 \<times> bool) list" where
  "signal_waiters pid k =
     List.map_filter (\<lambda>task.
       case t_state task of
         WaitingForSignalSet msk \<Rightarrow> if t_pid task = pid then Some (t_tid task, msk, True) else None
       | WaitingForSignalSuspend msk \<Rightarrow> if t_pid task = pid then Some (t_tid task, msk, False) else None
       | _ \<Rightarrow> None) (bt_values (k_tasks k))"

definition wake_with_signal :: "u32 \<Rightarrow> bool \<Rightarrow> guest_task \<Rightarrow> guest_task" where
  "wake_with_signal signal returns_signal task =
     (if returns_signal then return_value (ucast signal) task
      else return_value (encode_u64 (Errno EINTR)) (set_pending_delivery (Some signal) task))"

fun wake_signal_loop ::
  "guest_pid \<Rightarrow> (guest_tid \<times> u64 \<times> bool) list \<Rightarrow> nat \<Rightarrow> guest_kernel \<Rightarrow> nat \<times> guest_kernel" where
  "wake_signal_loop pid [] woken k = (woken, k)"
| "wake_signal_loop pid ((tid, msk, returns_signal) # rest) woken k =
     (case take_pending_signal_for_task tid pid msk k of
        (None, k) \<Rightarrow> wake_signal_loop pid rest woken k
      | (Some signal, k) \<Rightarrow>
          (case k_task k tid of
             None \<Rightarrow> wake_signal_loop pid rest woken k
           | Some _ \<Rightarrow> wake_signal_loop pid rest (woken + 1)
               (put_state tid Runnable (modify_task tid (wake_with_signal signal returns_signal) k))))"

definition wake_signal_waiters :: "guest_pid \<Rightarrow> guest_kernel \<Rightarrow> nat \<times> guest_kernel" where
  "wake_signal_waiters pid k = wake_signal_loop pid (signal_waiters pid k) 0 k"

definition signal_blocked :: "guest_kernel \<Rightarrow> guest_tid \<Rightarrow> u32 \<Rightarrow> bool" where
  "signal_blocked k tid signal =
     (case k_task k tid of None \<Rightarrow> False | Some task \<Rightarrow> signal_matches_mask signal (t_signal_mask task))"

definition interrupt_futex_waiter :: "guest_tid \<Rightarrow> guest_kernel \<Rightarrow> bool \<times> guest_kernel" where
  "interrupt_futex_waiter tid k =
     (if \<not> is_futex_wait (map_option t_state (k_task k tid)) then (False, k)
      else (let k = modify_task tid (return_value (encode_u64 (Errno EINTR))) k in
            case set_task_state tid Runnable k of (previous, k) \<Rightarrow> (previous \<noteq> None, k)))"

definition queue_process_signal :: "guest_pid \<Rightarrow> u32 \<Rightarrow> guest_kernel \<Rightarrow> guest_kernel" where
  "queue_process_signal pid signal k =
     snd (wake_signal_waiters pid
       (modify_process pid (\<lambda>p. set_process_pending (bs_insert signal (p_pending_signals p)) p) k))"

definition queue_task_signal :: "guest_tid \<Rightarrow> u32 \<Rightarrow> guest_kernel \<Rightarrow> guest_kernel" where
  "queue_task_signal tid signal k =
     (case k_task k tid of
        None \<Rightarrow> k
      | Some task \<Rightarrow>
          let k = modify_task tid (\<lambda>t. set_task_pending (bs_insert signal (t_pending_signals t)) t) k;
              k = snd (wake_signal_waiters (t_pid task) k)
          in if \<not> signal_blocked k tid signal then snd (interrupt_futex_waiter tid k) else k)"

section \<open>Exit\<close>

definition mark_exited :: "i32 \<Rightarrow> guest_process \<Rightarrow> guest_process" where
  "mark_exited status process = process\<lparr>p_exit_state := Process_exited status\<rparr>"

definition is_task_exited :: "task_state \<Rightarrow> bool" where
  "is_task_exited s = (case s of Exited _ \<Rightarrow> True | _ \<Rightarrow> False)"

text \<open>The tail that \<open>exit_task\<close> and \<open>exit_group\<close> share: record the status, release a vfork
  parent and notify the parent.\<close>

definition finish_process :: "guest_pid \<Rightarrow> i32 \<Rightarrow> guest_kernel \<Rightarrow> guest_kernel" where
  "finish_process pid status k =
     (let parent = Option.bind (k_process k pid) p_parent;
          k = modify_process pid (mark_exited status) k;
          k = resume_vfork_parent pid k
      in case parent of
           None \<Rightarrow> k
         | Some parent \<Rightarrow> queue_process_signal parent (ucast LINUX_SIGCHLD) k)"

definition exit_task :: "guest_tid \<Rightarrow> i32 \<Rightarrow> guest_kernel \<Rightarrow> syscall_outcome \<times> guest_kernel" where
  "exit_task tid status k =
     (case k_task k tid of
        None \<Rightarrow> (outcome_errno ESRCH, k)
      | Some task \<Rightarrow>
          let pid = t_pid task;
              k = put_state tid (Exited status) k;
              all_exited = list_all (\<lambda>candidate. is_task_exited (t_state candidate))
                (filter (\<lambda>candidate. t_pid candidate = pid) (bt_values (k_tasks k)))
          in (outcome_success 0, if all_exited then finish_process pid status k else k))"

definition exit_group :: "guest_pid \<Rightarrow> i32 \<Rightarrow> guest_kernel \<Rightarrow> syscall_outcome \<times> guest_kernel" where
  "exit_group pid status k =
     (if \<not> bt_contains (k_processes k) pid then (outcome_errno ESRCH, k)
      else (let tids = map t_tid (filter (\<lambda>task. t_pid task = pid) (bt_values (k_tasks k)));
                k = fold (\<lambda>tid. put_state tid (Exited status)) tids k
            in (outcome_success 0, finish_process pid status k)))"

section \<open>Signal system calls\<close>

definition rt_sigaction_current_with_action ::
  "guest_tid \<Rightarrow> rt_sigaction_args \<Rightarrow> guest_signal_action option \<Rightarrow> guest_kernel
     \<Rightarrow> syscall_outcome \<times> guest_kernel" where
  "rt_sigaction_current_with_action tid args action k =
     (case k_task k tid of
        None \<Rightarrow> (outcome_errno ESRCH, k)
      | Some task \<Rightarrow>
          let pid = t_pid task in
          (case validate_signal (sa_sig args) of
             Inl e \<Rightarrow> (into_outcome e, k)
           | Inr _ \<Rightarrow>
               if sa_sigsetsize args \<noteq> LINUX_KERNEL_SIGSET_SIZE
               then (into_outcome (InvalidSigsetSize (sa_sigsetsize args)), k)
               else (case action of
                  None \<Rightarrow> (outcome_success 0, k)
                | Some action \<Rightarrow>
                    (case k_process k pid of
                       None \<Rightarrow> (outcome_errno ESRCH, k)
                     | Some _ \<Rightarrow> (outcome_success 0, modify_process pid
                         (\<lambda>p. p\<lparr>p_signals := set_action (sa_sig args) action (p_signals p)\<rparr>) k)))))"

definition rt_sigaction_current ::
  "guest_tid \<Rightarrow> rt_sigaction_args \<Rightarrow> guest_kernel \<Rightarrow> syscall_outcome \<times> guest_kernel" where
  "rt_sigaction_current tid args k =
     rt_sigaction_current_with_action tid args
       (if sa_act args \<noteq> 0 then Some (signal_action_new (sa_act args)) else None) k"

definition rt_sigprocmask_current_mask ::
  "guest_tid \<Rightarrow> u32 \<Rightarrow> u64 option \<Rightarrow> u64 \<Rightarrow> guest_kernel \<Rightarrow> syscall_outcome \<times> guest_kernel" where
  "rt_sigprocmask_current_mask tid how signal_mask sigsetsize k =
     (case k_task k tid of
        None \<Rightarrow> (outcome_errno ESRCH, k)
      | Some task \<Rightarrow>
          if sigsetsize \<noteq> LINUX_KERNEL_SIGSET_SIZE
          then (into_outcome (InvalidSigsetSize sigsetsize), k)
          else if \<not> supported_how how then (into_outcome (InvalidSignalMaskHow how), k)
          else (case signal_mask of
             None \<Rightarrow> (outcome_success 0, k)
           | Some msk \<Rightarrow>
               (case apply_task_signal_mask task how msk of
                  Inl e \<Rightarrow> (into_outcome e, k)
                | Inr task' \<Rightarrow> (outcome_success 0, modify_task tid (\<lambda>_. task') k))))"

definition rt_sigprocmask_current ::
  "guest_tid \<Rightarrow> rt_sigprocmask_args \<Rightarrow> guest_kernel \<Rightarrow> syscall_outcome \<times> guest_kernel" where
  "rt_sigprocmask_current tid args k =
     rt_sigprocmask_current_mask tid (sm_how args)
       (if sm_set args \<noteq> 0 then Some (sm_set args) else None) (sm_sigsetsize args) k"

definition rt_sigtimedwait_current ::
  "guest_tid \<Rightarrow> u64 \<Rightarrow> u64 \<Rightarrow> bool \<Rightarrow> guest_kernel \<Rightarrow> syscall_outcome \<times> guest_kernel" where
  "rt_sigtimedwait_current tid signal_mask sigsetsize wait_indefinitely k =
     (if sigsetsize \<noteq> LINUX_KERNEL_SIGSET_SIZE then (into_outcome (InvalidSigsetSize sigsetsize), k)
      else case k_task k tid of
        None \<Rightarrow> (outcome_errno ESRCH, k)
      | Some task \<Rightarrow>
          (case take_pending_signal_for_task tid (t_pid task) signal_mask k of
             (Some signal, k) \<Rightarrow> (outcome_success (ucast signal), k)
           | (None, k) \<Rightarrow>
               if wait_indefinitely
               then (case k_task k tid of
                       None \<Rightarrow> (outcome_errno ESRCH, k)
                     | Some _ \<Rightarrow> (outcome_success 0, put_state tid (WaitingForSignalSet signal_mask)
                         (modify_task tid (return_to (current_syscall_return_rip k tid)) k)))
               else (outcome_errno EAGAIN, k)))"

definition rt_sigsuspend_current ::
  "guest_tid \<Rightarrow> u64 \<Rightarrow> u64 \<Rightarrow> guest_kernel \<Rightarrow> syscall_outcome \<times> guest_kernel" where
  "rt_sigsuspend_current tid signal_mask sigsetsize k =
     (if sigsetsize \<noteq> LINUX_KERNEL_SIGSET_SIZE then (into_outcome (InvalidSigsetSize sigsetsize), k)
      else case k_task k tid of
        None \<Rightarrow> (outcome_errno ESRCH, k)
      | Some task \<Rightarrow>
          (case take_pending_signal_for_task tid (t_pid task) signal_mask k of
             (Some signal, k) \<Rightarrow>
               (outcome_errno EINTR, modify_task tid (set_pending_delivery (Some signal)) k)
           | (None, k) \<Rightarrow>
               (case k_task k tid of
                  None \<Rightarrow> (outcome_errno ESRCH, k)
                | Some _ \<Rightarrow> (outcome_success 0, put_state tid (WaitingForSignalSuspend signal_mask)
                    (modify_task tid (return_to (current_syscall_return_rip k tid)) k)))))"

definition kill_current :: "kill_args \<Rightarrow> guest_kernel \<Rightarrow> syscall_outcome \<times> guest_kernel" where
  "kill_current args k =
     (if sint (kill_pid args) \<le> 0 then (into_outcome (UnsupportedSignalTarget (kill_pid args)), k)
      else let pid = kill_pid args in
        if \<not> bt_contains (k_processes k) pid then (outcome_errno ESRCH, k)
        else (case validate_signal_or_probe (kill_sig args) of
           Inl e \<Rightarrow> (into_outcome e, k)
         | Inr _ \<Rightarrow>
             if kill_sig args = 0 then (outcome_success 0, k)
             else (outcome_success 0, queue_process_signal pid (kill_sig args) k)))"

definition tkill_current :: "tkill_args \<Rightarrow> guest_kernel \<Rightarrow> syscall_outcome \<times> guest_kernel" where
  "tkill_current args k =
     (if sint (tkill_tid args) \<le> 0 then (into_outcome (UnsupportedSignalTarget (tkill_tid args)), k)
      else let tid = tkill_tid args in
        (case k_task k tid of
           None \<Rightarrow> (outcome_errno ESRCH, k)
         | Some _ \<Rightarrow>
             (case validate_signal_or_probe (tkill_sig args) of
                Inl e \<Rightarrow> (into_outcome e, k)
              | Inr _ \<Rightarrow>
                  if tkill_sig args = 0 then (outcome_success 0, k)
                  else (outcome_success 0, queue_task_signal tid (tkill_sig args) k))))"

definition tgkill_current :: "tgkill_args \<Rightarrow> guest_kernel \<Rightarrow> syscall_outcome \<times> guest_kernel" where
  "tgkill_current args k =
     (if sint (tgkill_tgid args) \<le> 0 \<or> sint (tgkill_tid args) \<le> 0
      then (into_outcome (UnsupportedSignalTarget (tgkill_tid args)), k)
      else let pid = tgkill_tgid args; tid = tgkill_tid args in
        (case k_task k tid of
           None \<Rightarrow> (outcome_errno ESRCH, k)
         | Some task \<Rightarrow>
             if t_pid task \<noteq> pid then (outcome_errno ESRCH, k)
             else (case validate_signal_or_probe (tgkill_sig args) of
                Inl e \<Rightarrow> (into_outcome e, k)
              | Inr _ \<Rightarrow>
                  if tgkill_sig args = 0 then (outcome_success 0, k)
                  else (outcome_success 0, queue_task_signal tid (tgkill_sig args) k))))"

definition set_tid_address_current ::
  "guest_tid \<Rightarrow> guest_address \<Rightarrow> guest_kernel \<Rightarrow> syscall_outcome \<times> guest_kernel" where
  "set_tid_address_current tid tidptr k =
     (case k_task k tid of
        None \<Rightarrow> (outcome_errno ESRCH, k)
      | Some _ \<Rightarrow> (outcome_success (ucast tid),
          modify_task tid (\<lambda>t. t\<lparr>t_clear_child_tid := (if tidptr \<noteq> 0 then Some tidptr else None)\<rparr>) k))"

definition set_robust_list_current ::
  "guest_tid \<Rightarrow> set_robust_list_args \<Rightarrow> guest_kernel \<Rightarrow> syscall_outcome \<times> guest_kernel" where
  "set_robust_list_current tid args k =
     (if robust_len args \<noteq> LINUX_ROBUST_LIST_HEAD_SIZE
      then (into_outcome (InvalidRobustListLength (robust_len args)), k)
      else case k_task k tid of
        None \<Rightarrow> (outcome_errno ESRCH, k)
      | Some _ \<Rightarrow> (outcome_success 0, modify_task tid
          (\<lambda>t. t\<lparr>t_robust_list := (if robust_head args \<noteq> 0 then Some (robust_head args) else None)\<rparr>) k))"

section \<open>The invariant\<close>

lemma sanitize_unblockable [simp]: "sanitize_signal_mask m AND unblockable_signal_mask = 0"
  unfolding sanitize_signal_mask_def by (rule bit_word_eqI) (simp add: bit_simps)

lemma and_not_unblockable:
  "(m :: u64) AND unblockable_signal_mask = 0 \<Longrightarrow> (m AND NOT n) AND unblockable_signal_mask = 0"
  by (metis and.assoc and.commute and_zero_eq)

lemma benign_signal [simp]:
  "benign (set_task_pending p)" "benign (\<lambda>t. set_task_pending (f t) t)"
  "benign (set_pending_delivery d)" "benign (wake_with_signal s r)"
  "benign (\<lambda>t. t\<lparr>t_signal_mask := sanitize_signal_mask m\<rparr>)"
  "benign (\<lambda>t. t\<lparr>t_clear_child_tid := a\<rparr>)" "benign (\<lambda>t. t\<lparr>t_robust_list := b\<rparr>)"
  by (simp_all add: benign_def set_task_pending_def set_pending_delivery_def wake_with_signal_def
      return_value_def)

lemma family_neutral_signal [simp]:
  "family_neutral (set_process_pending p)" "family_neutral (\<lambda>q. set_process_pending (f q) q)"
  "family_neutral (mark_exited s)" "family_neutral (\<lambda>q. q\<lparr>p_signals := g q\<rparr>)"
  by (simp_all add: family_neutral_def set_process_pending_def mark_exited_def)

text \<open>Writing back a task that was read before: benign when the written task is.\<close>

lemma kernel_ok_write_task:
  assumes ok: "kernel_ok k" and t: "k_task k tid = Some t"
    and "t_tid t' = t_tid t" "t_pid t' = t_pid t" "t_state t' = t_state t"
    and "t_signal_mask t' AND unblockable_signal_mask = 0"
  shows "kernel_ok (modify_task tid (\<lambda>_. t') k)"
proof -
  have "modify_task tid (\<lambda>_. t') k = modify_task tid (\<lambda>x. if x = t then t' else x) k"
    using t by (simp add: modify_task_def bt_modify_def)
  moreover have "benign (\<lambda>x. if x = t then t' else x)"
    using assms(3-) by (simp add: benign_def)
  ultimately show ?thesis using ok by (simp add: kernel_ok_modify_task)
qed

subsection \<open>Pending sets\<close>

definition deliverable :: "u32 btree_set \<Rightarrow> u64 \<Rightarrow> u32 set" where
  "deliverable pending msk = {s \<in> bs_set pending. signal_matches_mask s msk}"

lemma finite_deliverable [simp]: "finite (deliverable p m)"
  by (simp add: deliverable_def)

lemma take_pending_signal_eq:
  "take_pending_signal pending msk =
     (if deliverable pending msk = {} then (None, pending)
      else (Some (Min (deliverable pending msk)), bs_remove (Min (deliverable pending msk)) pending))"
  using find_sorted_Min [of "bs_list pending" "\<lambda>s. signal_matches_mask s msk"]
  by (simp add: take_pending_signal_def deliverable_def)

lemma deliverable_remove: "deliverable (bs_remove s p) m = deliverable p m - {s}"
  by (auto simp: deliverable_def)

lemma bt_modify_id: "bt_get m x = Some v \<Longrightarrow> f v = v \<Longrightarrow> bt_modify x f m = m"
  by (rule bt_eqI) (simp add: bt_get_modify)

lemma modify_task_id: "k_task k tid = Some t \<Longrightarrow> f t = t \<Longrightarrow> modify_task tid f k = k"
  by (simp add: modify_task_def bt_modify_id)

lemma modify_process_id: "k_process k pid = Some p \<Longrightarrow> f p = p \<Longrightarrow> modify_process pid f k = k"
  by (simp add: modify_process_def bt_modify_id)

text \<open>A thread's own pending signals come first, then those of its process.\<close>

lemma take_pending_signal_for_task_eq:
  assumes t: "k_task k tid = Some t" and p: "k_process k pid = Some p"
  shows "take_pending_signal_for_task tid pid msk k =
    (let own = deliverable (t_pending_signals t) msk; shared = deliverable (p_pending_signals p) msk in
     if own \<noteq> {} then (Some (Min own),
       modify_task tid (set_task_pending (bs_remove (Min own) (t_pending_signals t))) k)
     else if shared \<noteq> {} then (Some (Min shared),
       modify_process pid (set_process_pending (bs_remove (Min shared) (p_pending_signals p))) k)
     else (None, k))"
proof -
  have id: "modify_task tid (set_task_pending (t_pending_signals t)) k = k"
    "modify_process pid (set_process_pending (p_pending_signals p)) k = k"
    using modify_task_id [OF t] modify_process_id [OF p]
    by (simp_all add: set_task_pending_def set_process_pending_def)
  show ?thesis
    using t p by (simp add: take_pending_signal_for_task_def take_pending_signal_eq Let_def id)
qed

lemma kernel_ok_take_pending [intro]:
  assumes "kernel_ok k" "take_pending_signal_for_task tid pid msk k = (r, k')"
  shows "kernel_ok k'"
  using assms
  by (auto simp: take_pending_signal_for_task_def intro!: kernel_ok_modify_task kernel_ok_modify_process
      split: option.splits prod.splits)

lemma kernel_ok_wake_signal_loop: "kernel_ok k \<Longrightarrow> kernel_ok (snd (wake_signal_loop pid ws woken k))"
proof (induction ws arbitrary: woken k)
  case (Cons w ws)
  obtain tid msk rs where w: "w = (tid, msk, rs)" by (cases w)
  obtain r k1 where tk: "take_pending_signal_for_task tid pid msk k = (r, k1)" by fastforce
  then have "kernel_ok k1" using Cons.prems by blast
  then show ?case
    using Cons.IH by (simp add: w tk kernel_ok_put_state kernel_ok_modify_task split: option.splits)
qed simp

lemma kernel_ok_wake_signal_waiters [intro]: "kernel_ok k \<Longrightarrow> kernel_ok (snd (wake_signal_waiters pid k))"
  by (simp add: wake_signal_waiters_def kernel_ok_wake_signal_loop)

lemma kernel_ok_interrupt [intro]: "kernel_ok k \<Longrightarrow> kernel_ok (snd (interrupt_futex_waiter tid k))"
  by (simp add: interrupt_futex_waiter_def Let_def case_prod_beta kernel_ok_put_state
      kernel_ok_modify_task)

lemma kernel_ok_queue_process_signal [intro]: "kernel_ok k \<Longrightarrow> kernel_ok (queue_process_signal pid s k)"
  by (simp add: queue_process_signal_def kernel_ok_wake_signal_waiters kernel_ok_modify_process)

lemma kernel_ok_queue_task_signal [intro]: "kernel_ok k \<Longrightarrow> kernel_ok (queue_task_signal tid s k)"
  by (simp add: queue_task_signal_def Let_def kernel_ok_interrupt kernel_ok_wake_signal_waiters
      kernel_ok_modify_task split: option.splits)

lemma kernel_ok_finish_process [intro]: "kernel_ok k \<Longrightarrow> kernel_ok (finish_process pid s k)"
  by (simp add: finish_process_def Let_def kernel_ok_queue_process_signal kernel_ok_resume_vfork_parent
      kernel_ok_modify_process split: option.splits)

lemma kernel_ok_exit [intro]:
  assumes "kernel_ok k"
  shows "kernel_ok (snd (exit_task tid s k))" "kernel_ok (snd (exit_group pid s k))"
  using assms
  by (simp_all add: exit_task_def exit_group_def Let_def kernel_ok_finish_process kernel_ok_put_state
      sched.inv_fold split: option.splits)

lemma kernel_ok_kill [intro]:
  assumes "kernel_ok k"
  shows "kernel_ok (snd (kill_current a k))" "kernel_ok (snd (tkill_current b k))"
    "kernel_ok (snd (tgkill_current c k))"
  using assms
  by (simp_all add: kill_current_def tkill_current_def tgkill_current_def Let_def
      kernel_ok_queue_process_signal kernel_ok_queue_task_signal split: option.splits sum.splits)

lemma apply_task_signal_mask_Inr:
  assumes "apply_task_signal_mask t how m = Inr t'" "t_signal_mask t AND unblockable_signal_mask = 0"
  shows "t_tid t' = t_tid t \<and> t_pid t' = t_pid t \<and> t_state t' = t_state t
    \<and> t_signal_mask t' AND unblockable_signal_mask = 0"
  using assms by (auto simp: apply_task_signal_mask_def Let_def and_not_unblockable split: if_splits)

lemma kernel_ok_sigprocmask [intro]:
  assumes "kernel_ok k"
  shows "kernel_ok (snd (rt_sigprocmask_current_mask tid how m sz k))"
proof -
  have "kernel_ok (modify_task tid (\<lambda>_. t') k)"
    if "k_task k tid = Some t" "apply_task_signal_mask t how m' = Inr t'" for t t' m'
    using apply_task_signal_mask_Inr [OF that(2) keys_okD(4) [OF assms that(1)]]
    by (intro kernel_ok_write_task [OF assms that(1)]) simp_all
  then show ?thesis
    using assms by (simp add: rt_sigprocmask_current_mask_def split: option.splits sum.splits)
qed

lemma kernel_ok_signal_syscalls [intro]:
  assumes "kernel_ok k"
  shows "kernel_ok (snd (rt_sigaction_current_with_action tid args act k))"
    "kernel_ok (snd (set_tid_address_current tid a k))" "kernel_ok (snd (set_robust_list_current tid r k))"
    "kernel_ok (snd (set_task_signal_mask tid m k))"
    "kernel_ok (snd (take_pending_signal_for_return_to_user tid k))"
  using assms kernel_ok_take_pending [OF assms]
  by (simp_all add: rt_sigaction_current_with_action_def set_tid_address_current_def
      set_robust_list_current_def set_task_signal_mask_def take_pending_signal_for_return_to_user_def
      Let_def kernel_ok_modify_process kernel_ok_modify_task split: option.splits sum.splits)
    (metis prod.collapse)

lemma kernel_ok_sigwait [intro]:
  assumes "kernel_ok k"
  shows "kernel_ok (snd (rt_sigtimedwait_current tid m sz w k))"
    "kernel_ok (snd (rt_sigsuspend_current tid m sz k))"
  using assms kernel_ok_take_pending [OF assms]
  by (simp_all add: rt_sigtimedwait_current_def rt_sigsuspend_current_def kernel_ok_put_state
      kernel_ok_modify_task split: option.splits prod.splits)

subsection \<open>Signal waits\<close>

text \<open>What the wake loop may change: tasks become runnable, pending sets shrink.\<close>

definition quieter :: "guest_kernel \<Rightarrow> guest_kernel \<Rightarrow> bool" where
  "quieter k k' \<longleftrightarrow> kernel_ok k'
   \<and> (\<forall>u t'. k_task k' u = Some t' \<longrightarrow> (\<exists>t. k_task k u = Some t \<and> t_pid t' = t_pid t
        \<and> bs_set (t_pending_signals t') \<subseteq> bs_set (t_pending_signals t)
        \<and> (t_state t' = t_state t \<or> t_state t' = Runnable)))
   \<and> (\<forall>q p'. k_process k' q = Some p' \<longrightarrow> (\<exists>p. k_process k q = Some p
        \<and> bs_set (p_pending_signals p') \<subseteq> bs_set (p_pending_signals p)
        \<and> p' = p\<lparr>p_pending_signals := p_pending_signals p'\<rparr>))
   \<and> (\<forall>u. k_task k' u = None \<longleftrightarrow> k_task k u = None)
   \<and> (\<forall>q. k_process k' q = None \<longleftrightarrow> k_process k q = None)"

lemma quieter_refl: "kernel_ok k \<Longrightarrow> quieter k k"
  by (simp add: quieter_def)

lemma quieter_task:
  assumes "quieter k k'" "k_task k' u = Some t'"
  obtains t where "k_task k u = Some t" "t_pid t' = t_pid t"
    "bs_set (t_pending_signals t') \<subseteq> bs_set (t_pending_signals t)"
    "t_state t' = t_state t \<or> t_state t' = Runnable"
  using assms unfolding quieter_def by blast

lemma quieter_process:
  assumes "quieter k k'" "k_process k' q = Some p'"
  obtains p where "k_process k q = Some p"
    "bs_set (p_pending_signals p') \<subseteq> bs_set (p_pending_signals p)"
    "p' = p\<lparr>p_pending_signals := p_pending_signals p'\<rparr>"
  using assms unfolding quieter_def by blast

lemma quieter_alive: "quieter k k' \<Longrightarrow> k_task k u = Some t \<Longrightarrow> \<exists>t'. k_task k' u = Some t'"
  unfolding quieter_def by (metis option.distinct(1) option.exhaust)

lemma quieter_trans:
  assumes a: "quieter k k'" and b: "quieter k' k''"
  shows "quieter k k''"
  unfolding quieter_def
proof (intro conjI allI impI)
  show "kernel_ok k''" using b by (simp add: quieter_def)
  show "k_task k'' u = None \<longleftrightarrow> k_task k u = None" "k_process k'' q = None \<longleftrightarrow> k_process k q = None" for u q
    using a b by (simp_all add: quieter_def)
next
  fix u t'' assume "k_task k'' u = Some t''"
  then obtain t' where t': "k_task k' u = Some t'" "t_pid t'' = t_pid t'"
    "bs_set (t_pending_signals t'') \<subseteq> bs_set (t_pending_signals t')"
    "t_state t'' = t_state t' \<or> t_state t'' = Runnable" by (rule quieter_task [OF b])
  from a t'(1) obtain t where "k_task k u = Some t" "t_pid t' = t_pid t"
    "bs_set (t_pending_signals t') \<subseteq> bs_set (t_pending_signals t)"
    "t_state t' = t_state t \<or> t_state t' = Runnable" by (rule quieter_task)
  with t' show "\<exists>t. k_task k u = Some t \<and> t_pid t'' = t_pid t
      \<and> bs_set (t_pending_signals t'') \<subseteq> bs_set (t_pending_signals t)
      \<and> (t_state t'' = t_state t \<or> t_state t'' = Runnable)" by auto
next
  fix q p'' assume "k_process k'' q = Some p''"
  then obtain p' where p': "k_process k' q = Some p'"
    "bs_set (p_pending_signals p'') \<subseteq> bs_set (p_pending_signals p')"
    "p'' = p'\<lparr>p_pending_signals := p_pending_signals p''\<rparr>" by (rule quieter_process [OF b])
  from a p'(1) obtain p where p: "k_process k q = Some p"
    "bs_set (p_pending_signals p') \<subseteq> bs_set (p_pending_signals p)"
    "p' = p\<lparr>p_pending_signals := p_pending_signals p'\<rparr>" by (rule quieter_process)
  have "p'' = p\<lparr>p_pending_signals := p_pending_signals p''\<rparr>"
    by (subst p'(3), subst p(3)) simp
  with p' p show "\<exists>p. k_process k q = Some p
      \<and> bs_set (p_pending_signals p'') \<subseteq> bs_set (p_pending_signals p)
      \<and> p'' = p\<lparr>p_pending_signals := p_pending_signals p''\<rparr>" by auto
qed

lemma quieter_modify_task:
  assumes ok: "kernel_ok k" and b: "benign f"
    and sub: "\<And>t. k_task k tid = Some t \<Longrightarrow>
      bs_set (t_pending_signals (f t)) \<subseteq> bs_set (t_pending_signals t)"
  shows "quieter k (modify_task tid f k)"
proof -
  have "kernel_ok (modify_task tid f k)" using ok b by (rule kernel_ok_modify_task)
  then show ?thesis
    using b sub by (auto simp: quieter_def benign_def)
qed

lemma quieter_modify_process:
  assumes ok: "kernel_ok k" and pending: "bs_set pending \<subseteq> bs_set (p_pending_signals p)"
    and p: "k_process k pid = Some p"
  shows "quieter k (modify_process pid (set_process_pending pending) k)"
proof -
  have "kernel_ok (modify_process pid (set_process_pending pending) k)"
    using ok by (simp add: kernel_ok_modify_process)
  then show ?thesis
    using p pending by (auto simp: quieter_def set_process_pending_def)
qed

lemma quieter_put_Runnable: "kernel_ok k \<Longrightarrow> quieter k (put_state tid Runnable k)"
  by (auto simp: quieter_def kernel_ok_put_state)

lemma quieter_take:
  assumes ok: "kernel_ok k" and t: "k_task k tid = Some t" "t_pid t = pid"
    and take: "take_pending_signal_for_task tid pid m k = (r, k')"
  shows "quieter k k'"
proof -
  obtain p where p: "k_process k pid = Some p" using keys_okD(3) [OF ok t(1)] t(2) by auto
  have "quieter k (modify_task tid (set_task_pending (bs_remove s (t_pending_signals t))) k)" for s
    using t(1) by (intro quieter_modify_task ok) (auto simp: set_task_pending_def)
  moreover have "quieter k (modify_process pid
      (set_process_pending (bs_remove s (p_pending_signals p))) k)" for s
    by (rule quieter_modify_process [OF ok _ p]) auto
  ultimately show ?thesis
    using take quieter_refl [OF ok]
    by (auto simp: take_pending_signal_for_task_eq [OF t(1) p] Let_def split: if_splits)
qed

lemma quieter_state_back:
  assumes "quieter k k'" "k_task k' u = Some t" "t_state t \<noteq> Runnable"
  shows "\<exists>t0. k_task k u = Some t0 \<and> t_pid t0 = t_pid t \<and> t_state t0 = t_state t"
  using assms(1,2) by (rule quieter_task) (use assms(3) in auto)

text \<open>No signal that a waiting thread of the process could take.\<close>

definition no_takeable :: "guest_kernel \<Rightarrow> guest_tid \<Rightarrow> guest_pid \<Rightarrow> u64 \<Rightarrow> bool" where
  "no_takeable k tid pid m \<longleftrightarrow>
     (\<forall>t. k_task k tid = Some t \<longrightarrow> deliverable (t_pending_signals t) m = {})
   \<and> (\<forall>p. k_process k pid = Some p \<longrightarrow> deliverable (p_pending_signals p) m = {})"

lemma no_takeable_mono:
  assumes "quieter k k'" "no_takeable k tid pid m"
  shows "no_takeable k' tid pid m"
  unfolding no_takeable_def
proof (intro conjI allI impI)
  fix t assume "k_task k' tid = Some t"
  with assms(1) obtain t0 where "k_task k tid = Some t0"
    "bs_set (t_pending_signals t) \<subseteq> bs_set (t_pending_signals t0)" by (rule quieter_task)
  with assms(2) show "deliverable (t_pending_signals t) m = {}"
    by (auto simp: no_takeable_def deliverable_def)
next
  fix p assume "k_process k' pid = Some p"
  with assms(1) obtain p0 where "k_process k pid = Some p0"
    "bs_set (p_pending_signals p) \<subseteq> bs_set (p_pending_signals p0)" by (rule quieter_process)
  with assms(2) show "deliverable (p_pending_signals p) m = {}"
    by (auto simp: no_takeable_def deliverable_def)
qed

text \<open>One iteration of the wake loop.\<close>

lemma wake_signal_step:
  assumes ok: "kernel_ok k" and t: "k_task k tid = Some t" "t_pid t = pid"
  obtains (idle) "no_takeable k tid pid m"
      "wake_signal_loop pid ((tid, m, rs) # rest) woken k = wake_signal_loop pid rest woken k"
  | (woken) k2 where "quieter k k2" "state_of k2 tid = Some Runnable"
      "wake_signal_loop pid ((tid, m, rs) # rest) woken k = wake_signal_loop pid rest (woken + 1) k2"
proof -
  obtain p where p: "k_process k pid = Some p" using keys_okD(3) [OF ok t(1)] t(2) by auto
  obtain r k1 where tk: "take_pending_signal_for_task tid pid m k = (r, k1)" by fastforce
  have q1: "quieter k k1" using ok t tk by (rule quieter_take)
  then have ok1: "kernel_ok k1" by (simp add: quieter_def)
  show thesis
  proof (cases r)
    case None
    then have "no_takeable k tid pid m" "k1 = k"
      using tk t p by (auto simp: take_pending_signal_for_task_eq [OF t(1) p] Let_def no_takeable_def
          split: if_splits)
    then show thesis using idle tk None by simp
  next
    case (Some s)
    obtain t1 where t1: "k_task k1 tid = Some t1" using quieter_alive [OF q1 t(1)] by blast
    let ?k = "modify_task tid (wake_with_signal s rs) k1"
    have q2: "quieter k1 ?k"
      by (rule quieter_modify_task [OF ok1]) (auto simp: wake_with_signal_def return_value_def set_pending_delivery_def)
    then have ok2: "kernel_ok ?k" by (simp add: quieter_def)
    have "quieter k (put_state tid Runnable ?k)"
      by (rule quieter_trans [OF q1 quieter_trans [OF q2 quieter_put_Runnable [OF ok2]]])
    moreover have "state_of (put_state tid Runnable ?k) tid = Some Runnable"
      using t1 by (simp add: state_of_def)
    ultimately show thesis using woken tk Some t1 by simp
  qed
qed

lemma wake_signal_loop_spec:
  assumes "kernel_ok k" "\<forall>(u, m, rs) \<in> set ws. map_option t_pid (k_task k u) = Some pid"
    and "wake_signal_loop pid ws woken k = (n, k')"
  shows "quieter k k' \<and> (\<forall>(u, m, rs) \<in> set ws. state_of k' u = Some Runnable \<or> no_takeable k' u pid m)"
  using assms
proof (induction ws arbitrary: woken k)
  case Nil
  then show ?case by (simp add: quieter_refl)
next
  case (Cons w rest)
  obtain tid m rs where w: "w = (tid, m, rs)" by (cases w)
  obtain t where t: "k_task k tid = Some t" "t_pid t = pid" using Cons.prems(2) w by auto
  from Cons.prems(1) t show ?case
  proof (cases rule: wake_signal_step [where m = m and rs = rs and rest = rest and woken = woken])
    case idle
    then have "quieter k k' \<and> (\<forall>(u, m, rs) \<in> set rest. state_of k' u = Some Runnable \<or> no_takeable k' u pid m)"
      using Cons.IH [OF Cons.prems(1)] Cons.prems(2,3) w by simp
    then show ?thesis using no_takeable_mono [OF _ idle(1)] w by auto
  next
    case (woken k2)
    have same: "map_option t_pid (k_task k2 u) = map_option t_pid (k_task k u)" for u
      using woken(1) quieter_task [OF woken(1)] quieter_alive [OF woken(1)]
      by (cases "k_task k2 u"; cases "k_task k u") force+
    have IH: "quieter k2 k' \<and> (\<forall>(u, m, rs) \<in> set rest. state_of k' u = Some Runnable \<or> no_takeable k' u pid m)"
      using Cons.IH [of k2 "woken + 1"] woken(1,3) Cons.prems(2,3) w same by (simp add: quieter_def)
    obtain t2 where t2: "k_task k2 tid = Some t2" "t_state t2 = Runnable"
      using woken(2) by (auto simp: state_of_def)
    obtain t' where t': "k_task k' tid = Some t'" using quieter_alive [OF conjunct1 [OF IH] t2(1)] by blast
    have "t_state t' = Runnable"
      using quieter_task [OF conjunct1 [OF IH] t'] t2 by (metis option.inject)
    then have "state_of k' tid = Some Runnable" using t' by (simp add: state_of_def)
    then show ?thesis using quieter_trans [OF woken(1)] IH w by auto
  qed
qed

lemma set_signal_waiters:
  assumes "kernel_ok k"
  shows "set (signal_waiters pid k) = {(u, m, rs). \<exists>t. k_task k u = Some t \<and> t_pid t = pid
     \<and> (rs \<and> t_state t = WaitingForSignalSet m \<or> \<not> rs \<and> t_state t = WaitingForSignalSuspend m)}"
proof -
  let ?f = "\<lambda>task. case t_state task of
         WaitingForSignalSet m \<Rightarrow> if t_pid task = pid then Some (t_tid task, m, True) else None
       | WaitingForSignalSuspend m \<Rightarrow> if t_pid task = pid then Some (t_tid task, m, False) else None
       | _ \<Rightarrow> None"
  have f: "?f t = Some y \<longleftrightarrow> t_pid t = pid \<and> (\<exists>m. t_state t = WaitingForSignalSet m \<and> y = (t_tid t, m, True)
      \<or> t_state t = WaitingForSignalSuspend m \<and> y = (t_tid t, m, False))" for t y
    by (auto split: task_state.splits)
  have vals: "set (bt_values (k_tasks k)) = {t. \<exists>u. k_task k u = Some t}"
    by (auto simp: set_bt_values ran_def)
  show ?thesis
    unfolding signal_waiters_def set_map_filter_iff f vals using keys_okD(1) [OF assms] by fastforce
qed

lemma wake_signal_waiters_spec:
  assumes ok: "kernel_ok k" and wake: "wake_signal_waiters pid k = (n, k')"
  shows "quieter k k'"
    and "k_task k' u = Some t \<Longrightarrow> t_pid t = pid \<Longrightarrow>
      t_state t = WaitingForSignalSet m \<or> t_state t = WaitingForSignalSuspend m \<Longrightarrow>
      no_takeable k' u pid m"
proof -
  have "\<forall>(u, m, rs) \<in> set (signal_waiters pid k). map_option t_pid (k_task k u) = Some pid"
    unfolding set_signal_waiters [OF ok] by auto
  note spec = wake_signal_loop_spec [OF ok this wake [unfolded wake_signal_waiters_def]]
  show "quieter k k'" using spec by blast
  assume t: "k_task k' u = Some t" "t_pid t = pid"
    "t_state t = WaitingForSignalSet m \<or> t_state t = WaitingForSignalSuspend m"
  obtain t0 where "k_task k u = Some t0" "t_pid t0 = pid" "t_state t0 = t_state t"
    using quieter_state_back [OF conjunct1 [OF spec] t(1)] t(2,3) by auto
  then obtain rs where "(u, m, rs) \<in> set (signal_waiters pid k)"
    using t(3) unfolding set_signal_waiters [OF ok] by auto
  then have "state_of k' u = Some Runnable \<or> no_takeable k' u pid m" using spec by blast
  then show "no_takeable k' u pid m" using t(1,3) by (auto simp: state_of_def)
qed

subsection \<open>Frames\<close>

lemma take_pending_frame:
  assumes "take_pending_signal_for_task tid pid m k = (r, k')"
  shows "u \<noteq> tid \<Longrightarrow> k_task k' u = k_task k u" "q \<noteq> pid \<Longrightarrow> k_process k' q = k_process k q"
  using assms by (auto simp: take_pending_signal_for_task_def split: option.splits prod.splits)

lemma wake_signal_loop_frame:
  shows "u \<notin> fst ` set ws \<Longrightarrow> k_task (snd (wake_signal_loop pid ws woken k)) u = k_task k u"
    and "q \<noteq> pid \<Longrightarrow> k_process (snd (wake_signal_loop pid ws woken k)) q = k_process k q"
proof -
  have "(u \<notin> fst ` set ws \<longrightarrow> k_task (snd (wake_signal_loop pid ws woken k)) u = k_task k u)
      \<and> (q \<noteq> pid \<longrightarrow> k_process (snd (wake_signal_loop pid ws woken k)) q = k_process k q)"
  proof (induction ws arbitrary: woken k)
    case (Cons w ws)
    obtain tid m rs where w: "w = (tid, m, rs)" by (cases w)
    obtain r k1 where tk: "take_pending_signal_for_task tid pid m k = (r, k1)" by fastforce
    note f = take_pending_frame [OF tk]
    show ?case using f by (auto simp: w tk Cons.IH split: option.splits)
  qed simp
  then show "u \<notin> fst ` set ws \<Longrightarrow> k_task (snd (wake_signal_loop pid ws woken k)) u = k_task k u"
    "q \<noteq> pid \<Longrightarrow> k_process (snd (wake_signal_loop pid ws woken k)) q = k_process k q"
    by blast+
qed

definition waits_for_signal :: "task_state \<Rightarrow> bool" where
  "waits_for_signal s \<longleftrightarrow> (\<exists>m. s = WaitingForSignalSet m \<or> s = WaitingForSignalSuspend m)"

lemma wake_signal_waiters_frame:
  assumes "kernel_ok k"
  shows "k_task k u = Some t \<Longrightarrow> t_pid t \<noteq> pid \<or> \<not> waits_for_signal (t_state t) \<Longrightarrow>
      k_task (snd (wake_signal_waiters pid k)) u = Some t"
    and "q \<noteq> pid \<Longrightarrow> k_process (snd (wake_signal_waiters pid k)) q = k_process k q"
proof -
  assume t: "k_task k u = Some t" "t_pid t \<noteq> pid \<or> \<not> waits_for_signal (t_state t)"
  then have "u \<notin> fst ` set (signal_waiters pid k)"
    by (auto simp: set_signal_waiters [OF assms] waits_for_signal_def)
  then show "k_task (snd (wake_signal_waiters pid k)) u = Some t"
    using wake_signal_loop_frame(1) t(1) by (simp add: wake_signal_waiters_def)
next
  show "q \<noteq> pid \<Longrightarrow> k_process (snd (wake_signal_waiters pid k)) q = k_process k q"
    using wake_signal_loop_frame(2) by (simp add: wake_signal_waiters_def)
qed

lemma queue_process_signal_frame:
  assumes "kernel_ok k"
  shows "k_task k u = Some t \<Longrightarrow> t_pid t \<noteq> pid \<or> \<not> waits_for_signal (t_state t) \<Longrightarrow>
      k_task (queue_process_signal pid s k) u = Some t"
    and "q \<noteq> pid \<Longrightarrow> k_process (queue_process_signal pid s k) q = k_process k q"
    and "k_process k pid = Some p \<Longrightarrow> \<exists>pending. k_process (queue_process_signal pid s k) pid
      = Some (p\<lparr>p_pending_signals := pending\<rparr>)"
    and "k_process k r = None \<Longrightarrow> k_process (queue_process_signal pid s k) r = None"
proof -
  let ?k = "modify_process pid (\<lambda>p. set_process_pending (bs_insert s (p_pending_signals p)) p) k"
  have ok: "kernel_ok ?k" using assms by (simp add: kernel_ok_modify_process)
  show "k_task k u = Some t \<Longrightarrow> t_pid t \<noteq> pid \<or> \<not> waits_for_signal (t_state t) \<Longrightarrow>
      k_task (queue_process_signal pid s k) u = Some t"
    using wake_signal_waiters_frame(1) [OF ok] by (simp add: queue_process_signal_def)
  show "q \<noteq> pid \<Longrightarrow> k_process (queue_process_signal pid s k) q = k_process k q"
    using wake_signal_waiters_frame(2) [OF ok] by (simp add: queue_process_signal_def)
  obtain n k' where w: "wake_signal_waiters pid ?k = (n, k')" by fastforce
  note q = wake_signal_waiters_spec(1) [OF ok w]
  show "k_process (queue_process_signal pid s k) r = None" if "k_process k r = None"
  proof -
    have "k_process ?k r = None" using that by (cases "r = pid") simp_all
    then have "k_process k' r = None" using q unfolding quieter_def by blast
    then show ?thesis using w by (simp add: queue_process_signal_def)
  qed
  assume p: "k_process k pid = Some p"
  obtain p' where p': "k_process k' pid = Some p'"
    using q p by (cases "k_process k' pid") (auto simp: quieter_def)
  obtain p1 where "k_process ?k pid = Some p1" "p' = p1\<lparr>p_pending_signals := p_pending_signals p'\<rparr>"
    using quieter_process [OF q p'] by blast
  then have "p' = p\<lparr>p_pending_signals := p_pending_signals p'\<rparr>"
    using p by (auto simp: set_process_pending_def)
  then show "\<exists>pending. k_process (queue_process_signal pid s k) pid
      = Some (p\<lparr>p_pending_signals := pending\<rparr>)"
    using p' w by (auto simp: queue_process_signal_def)
qed

lemma finish_process_effect:
  assumes ok: "kernel_ok k" and p: "k_process k pid = Some p"
  shows "k_process (finish_process pid status k) pid = Some (p\<lparr>p_exit_state := Process_exited status\<rparr>)"
    and "q \<noteq> pid \<Longrightarrow> k_process k q = Some p' \<Longrightarrow> \<exists>pending.
      k_process (finish_process pid status k) q = Some (p'\<lparr>p_pending_signals := pending\<rparr>)"
    and "k_task k u = Some t \<Longrightarrow> t_pid t = pid \<Longrightarrow> k_task (finish_process pid status k) u = Some t"
    and "state_of k u = Some (WaitingForVfork pid) \<Longrightarrow> map_option t_pid (k_task k u) = p_parent p \<Longrightarrow>
      state_of (finish_process pid status k) u = Some Runnable"
    and "k_process k r = None \<Longrightarrow> k_process (finish_process pid status k) r = None"
proof -
  let ?k1 = "modify_process pid (mark_exited status) k"
  let ?k2 = "resume_vfork_parent pid ?k1"
  have ok1: "kernel_ok ?k1" using ok by (simp add: kernel_ok_modify_process)
  then have ok2: "kernel_ok ?k2" by (rule kernel_ok_resume_vfork_parent)
  have pp: "pp < pid" if "p_parent p = Some pp" for pp
    using family_okD(2) [OF kernel_ok_family [OF ok], of pid pp] p that by (simp add: parent_of_def)
  have fin: "finish_process pid status k =
      (case p_parent p of None \<Rightarrow> ?k2 | Some pp \<Rightarrow> queue_process_signal pp (ucast LINUX_SIGCHLD) ?k2)"
    using p by (simp add: finish_process_def Let_def)
  have procs: "k_process ?k2 q = (if q = pid then Some (p\<lparr>p_exit_state := Process_exited status\<rparr>)
      else k_process k q)" for q
    using p by (simp add: mark_exited_def)
  have st: "state_of ?k2 u = (if state_of k u = Some (WaitingForVfork pid)
        \<and> map_option t_pid (k_task k u) = p_parent p then Some Runnable else state_of k u)" for u
    unfolding state_of_resume_vfork_parent [OF ok1] using p by (auto simp: mark_exited_def)
  show "k_process (finish_process pid status k) pid = Some (p\<lparr>p_exit_state := Process_exited status\<rparr>)"
    using queue_process_signal_frame(2) [OF ok2] procs [of pid] pp
    by (cases "p_parent p") (auto simp: fin)
  show "k_process (finish_process pid status k) r = None" if "k_process k r = None"
  proof -
    have "k_process ?k2 r = None" using that p by (auto simp only: procs split: if_splits)
    then show ?thesis
      using queue_process_signal_frame(4) [OF ok2] by (cases "p_parent p") (simp_all only: fin option.case)
  qed
  show "\<exists>pending. k_process (finish_process pid status k) q = Some (p'\<lparr>p_pending_signals := pending\<rparr>)"
    if q: "q \<noteq> pid" "k_process k q = Some p'"
  proof (cases "p_parent p = Some q")
    case True
    have "k_process ?k2 q = Some p'" using q by (simp only: procs if_False)
    from queue_process_signal_frame(3) [OF ok2 this] True show ?thesis by (simp add: fin)
  next
    case False
    have "k_process ?k2 q = Some p'" using q by (simp only: procs if_False)
    moreover have "p' = p'\<lparr>p_pending_signals := p_pending_signals p'\<rparr>" by simp
    ultimately show ?thesis
      using False queue_process_signal_frame(2) [OF ok2] q
      by (cases "p_parent p") (auto simp only: fin option.case option.inject)
  qed
  show "k_task (finish_process pid status k) u = Some t" if t: "k_task k u = Some t" "t_pid t = pid"
  proof -
    have "\<not> (map_option t_pid (k_task k u) = p_parent p)" using pp t by (cases "p_parent p") auto
    then have "state_of ?k2 u = Some (t_state t)" using t(1) st by (simp add: state_of_def)
    then have k2: "k_task ?k2 u = Some t"
      using same_but_stateD [OF same_but_state_resume_vfork, of ?k1 u t pid] t(1) by simp
    show ?thesis
    proof (cases "p_parent p")
      case None
      then show ?thesis using k2 by (simp add: fin)
    next
      case (Some a)
      then have "t_pid t \<noteq> a" using pp t(2) by auto
      with Some show ?thesis using queue_process_signal_frame(1) [OF ok2 k2] by (simp add: fin)
    qed
  qed
  show "state_of (finish_process pid status k) u = Some Runnable"
    if w: "state_of k u = Some (WaitingForVfork pid)" "map_option t_pid (k_task k u) = p_parent p"
  proof -
    have run: "state_of ?k2 u = Some Runnable" using st w by simp
    then obtain t where t: "k_task ?k2 u = Some t" "t_state t = Runnable" by (auto simp: state_of_def)
    then show ?thesis
      using run queue_process_signal_frame(1) [OF ok2 t(1)]
      by (cases "p_parent p") (auto simp: fin state_of_def waits_for_signal_def)
  qed
qed

lemma same_but_state_pid:
  assumes "same_but_state k k'"
  shows "map_option t_pid (k_task k' u) = map_option t_pid (k_task k u)"
  using arg_cong [OF spec [OF assms [unfolded same_but_state_def], of u], of "map_option t_pid"]
  by (simp add: option.map_comp comp_def)

section \<open>Properties\<close>

text \<open>C30. What a thread is handed on its way back to user mode: a signal that interrupted its wait
  first, then the least unblocked signal pending for the thread, then the least unblocked signal
  pending for the process, and nothing otherwise; the signal is removed from the place it came from
  and nothing else changes.\<close>

theorem signal_delivery_order:
  assumes t: "k_task k tid = Some t" and p: "k_process k (t_pid t) = Some p"
  shows "take_pending_signal_for_return_to_user tid k =
    (let own = deliverable (t_pending_signals t) (NOT (t_signal_mask t));
         shared = deliverable (p_pending_signals p) (NOT (t_signal_mask t)) in
     case t_pending_signal_delivery t of
       Some s \<Rightarrow> (Some s, modify_task tid (\<lambda>x. x\<lparr>t_pending_signal_delivery := None\<rparr>) k)
     | None \<Rightarrow>
         if own \<noteq> {} then (Some (Min own), modify_task tid
           (\<lambda>x. x\<lparr>t_pending_signals := bs_remove (Min own) (t_pending_signals t)\<rparr>) k)
         else if shared \<noteq> {} then (Some (Min shared), modify_process (t_pid t)
           (\<lambda>x. x\<lparr>p_pending_signals := bs_remove (Min shared) (p_pending_signals p)\<rparr>) k)
         else (None, k))"
proof -
  have upd: "set_pending_delivery d = (\<lambda>x. x\<lparr>t_pending_signal_delivery := d\<rparr>)"
    "set_task_pending w = (\<lambda>x. x\<lparr>t_pending_signals := w\<rparr>)"
    "set_process_pending w = (\<lambda>x. x\<lparr>p_pending_signals := w\<rparr>)" for d w
    by (simp_all add: fun_eq_iff set_pending_delivery_def set_task_pending_def set_process_pending_def)
  show ?thesis
    using t take_pending_signal_for_task_eq [OF t p, of "NOT (t_signal_mask t)", unfolded upd]
    by (simp add: take_pending_signal_for_return_to_user_def upd Let_def split: option.split)
qed

theorem signal_delivery_order_witness:
  "fst (take_pending_signal_for_return_to_user 1
     (modify_process 1 (set_process_pending (bs_insert 10 (bs_insert 15 bt_empty))) demo_kernel)) = Some 10"
proof -
  let ?k = "modify_process 1 (set_process_pending (bs_insert 10 (bs_insert 15 bt_empty))) demo_kernel"
  let ?t = "task_initial 1 1 (gis_memory tiny_image_state)"
  let ?p = "set_process_pending (bs_insert 10 (bs_insert 15 bt_empty)) (boot_process tiny_image_state fd_table_new)"
  have t: "k_task ?k 1 = Some ?t" and p: "k_process ?k (t_pid ?t) = Some ?p"
    by (simp_all add: demo_kernel_simps task_initial_def)
  have "deliverable (p_pending_signals ?p) (NOT (t_signal_mask ?t)) = {10, 15}"
    by (auto simp: deliverable_def set_process_pending_def task_initial_def signal_matches_mask_def LINUX_SIGNAL_COUNT_def)
  moreover have "Min {10, 15 :: u32} = 10" by simp
  ultimately show ?thesis
    using signal_delivery_order [OF t p] by (simp add: Let_def task_initial_def deliverable_def [of bt_empty])
qed

text \<open>C1. A thread's signal mask after \<open>rt_sigprocmask\<close>: the union, the difference or the given set,
  always without \<open>SIGKILL\<close> and \<open>SIGSTOP\<close>; a bad set size or operation is refused with
  \<open>EINVAL\<close> and changes nothing.\<close>

theorem sigprocmask_effect:
  assumes ok: "kernel_ok k" and t: "k_task k tid = Some t"
  shows "rt_sigprocmask_current_mask tid how (Some m) sz k =
    (if sz \<noteq> 8 \<or> how \<notin> {0, 1, 2} then (outcome_errno EINVAL, k)
     else (outcome_success 0, modify_task tid (\<lambda>_. t\<lparr>t_signal_mask :=
       (if how = 0 then t_signal_mask t OR m else if how = 1 then t_signal_mask t AND NOT m else m)
         AND NOT unblockable_signal_mask\<rparr>) k))"
proof -
  have clear: "t_signal_mask t AND unblockable_signal_mask = 0" using keys_okD(4) [OF ok t] .
  have no: "\<not> (bit (t_signal_mask t) n \<and> bit unblockable_signal_mask n)" for n
    using arg_cong [OF clear, of "\<lambda>w. bit w n"] by (simp add: bit_and_iff)
  have block: "sanitize_signal_mask (t_signal_mask t OR sanitize_signal_mask m)
      = (t_signal_mask t OR m) AND NOT unblockable_signal_mask"
    unfolding sanitize_signal_mask_def by (rule bit_word_eqI) (auto simp: bit_simps)
  have unblock: "t_signal_mask t AND NOT (sanitize_signal_mask m)
      = (t_signal_mask t AND NOT m) AND NOT unblockable_signal_mask"
    unfolding sanitize_signal_mask_def by (rule bit_word_eqI) (use no in \<open>auto simp: bit_simps\<close>)
  show ?thesis
    using t block unblock
    by (simp add: rt_sigprocmask_current_mask_def LINUX_KERNEL_SIGSET_SIZE_def supported_how_def
        LINUX_SIG_BLOCK_def LINUX_SIG_UNBLOCK_def LINUX_SIG_SETMASK_def into_outcome_def
        apply_task_signal_mask_def Let_def sanitize_signal_mask_def)
qed

theorem sigprocmask_effect_witness:
  "map_option t_signal_mask (k_task (snd (rt_sigprocmask_current_mask 1 0 (Some 0x104) 8 demo_kernel)) 1)
     = Some 4"
  using sigprocmask_effect [OF demo_kernel_ok, of 1 "task_initial 1 1 (gis_memory tiny_image_state)" 0 "0x104" 8]
  by (simp add: demo_kernel_simps task_initial_def unblockable_signal_mask_def LINUX_SIGKILL_def
      LINUX_SIGSTOP_def)

text \<open>C1. No signal is lost to a sleeping waiter: after \<open>kill\<close> has queued a signal, no thread of the
  target that sleeps in \<open>rt_sigtimedwait\<close> or \<open>rt_sigsuspend\<close> could still take a pending signal,
  neither from its own set nor from the process.\<close>

theorem kill_wakes_signal_waiters:
  assumes ok: "kernel_ok k" and target: "0 < sint pid" "k_process k pid \<noteq> None"
    and sig: "0 < s" "s \<le> 64"
    and kill: "kill_current \<lparr>kill_pid = pid, kill_sig = s\<rparr> k = (r, k')"
  shows "r = outcome_success 0
    \<and> (\<forall>u t p m. k_task k' u = Some t \<longrightarrow> t_pid t = pid \<longrightarrow> k_process k' pid = Some p
       \<longrightarrow> t_state t = WaitingForSignalSet m \<or> t_state t = WaitingForSignalSuspend m
       \<longrightarrow> {s' \<in> bs_set (t_pending_signals t) \<union> bs_set (p_pending_signals p). signal_matches_mask s' m} = {})"
proof -
  let ?k = "modify_process pid (\<lambda>p. set_process_pending (bs_insert s (p_pending_signals p)) p) k"
  have ok': "kernel_ok ?k" using ok by (simp add: kernel_ok_modify_process)
  have "s \<noteq> 0" using sig(1) by auto
  then have res: "(r, k') = (outcome_success 0, queue_process_signal pid s k)"
    using kill [symmetric] target sig
    by (simp add: kill_current_def Let_def bt_contains_def validate_signal_or_probe_def
        LINUX_SIGNAL_COUNT_def)
  obtain n k'' where w: "wake_signal_waiters pid ?k = (n, k'')" by fastforce
  then have "k'' = k'" using res by (simp add: queue_process_signal_def)
  then have "no_takeable k' u pid m" if "k_task k' u = Some t" "t_pid t = pid"
    "t_state t = WaitingForSignalSet m \<or> t_state t = WaitingForSignalSuspend m" for u t m
    using wake_signal_waiters_spec(2) [OF ok' w] that by simp
  then have "{s' \<in> bs_set (t_pending_signals t) \<union> bs_set (p_pending_signals p). signal_matches_mask s' m} = {}"
    if "k_task k' u = Some t" "t_pid t = pid" "k_process k' pid = Some p"
      "t_state t = WaitingForSignalSet m \<or> t_state t = WaitingForSignalSuspend m" for u t p m
    using that by (fastforce simp: no_takeable_def deliverable_def)
  then show ?thesis using res by auto
qed

theorem kill_wakes_signal_waiters_witness:
  "\<exists>k'. kill_current \<lparr>kill_pid = 1, kill_sig = 10\<rparr> (put_state 1 (WaitingForSignalSet 0x4000) demo_kernel)
      = (outcome_success 0, k')
    \<and> state_of k' 1 = Some (WaitingForSignalSet 0x4000)
    \<and> map_option (\<lambda>p. {s \<in> bs_set (p_pending_signals p). signal_matches_mask s 0x4000}) (k_process k' 1) = Some {}"
proof -
  let ?k = "put_state 1 (WaitingForSignalSet 0x4000) demo_kernel"
  let ?t = "(task_initial 1 1 (gis_memory tiny_image_state))\<lparr>t_state := WaitingForSignalSet 0x4000\<rparr>"
  let ?p = "boot_process tiny_image_state fd_table_new"
  let ?k1 = "modify_process 1 (\<lambda>p. set_process_pending (bs_insert 10 (p_pending_signals p)) p) ?k"
  have ok: "kernel_ok ?k" by (simp add: kernel_ok_put_state)
  then have ok1: "kernel_ok ?k1" by (simp add: kernel_ok_modify_process)
  obtain r k' where kill: "kill_current \<lparr>kill_pid = 1, kill_sig = 10\<rparr> ?k = (r, k')" by fastforce
  have t1: "k_task ?k1 1 = Some ?t"
    and p1: "k_process ?k1 1 = Some (set_process_pending (bs_insert 10 bt_empty) ?p)"
    by (simp_all add: demo_kernel_simps boot_process_def)
  have "set (signal_waiters 1 ?k1) = {(1, 0x4000, True)}"
    unfolding set_signal_waiters [OF ok1]
    by (auto simp: demo_kernel_simps task_initial_def split: if_splits)
  moreover have "deliverable (bs_insert 10 bt_empty) 0x4000 = {}"
    by (auto simp: deliverable_def signal_matches_mask_def)
  then have "take_pending_signal_for_task 1 1 0x4000 ?k1 = (None, ?k1)"
    using take_pending_signal_for_task_eq [OF t1, of 1] p1
    by (simp add: Let_def set_process_pending_def task_initial_def deliverable_def)
  then have "wake_signal_loop 1 ws n ?k1 = (n, ?k1)" if "set ws \<subseteq> {(1, 0x4000, True)}" for ws n
    using that by (induction ws) auto
  ultimately have "queue_process_signal 1 10 ?k = ?k1"
    by (simp add: queue_process_signal_def wake_signal_waiters_def)
  then have k': "k' = ?k1" "state_of k' 1 = Some (WaitingForSignalSet 0x4000)"
    using kill t1
    by (auto simp: kill_current_def Let_def bt_contains_def validate_signal_or_probe_def
        LINUX_SIGNAL_COUNT_def demo_kernel_simps state_of_def)
  show ?thesis
    using kill_wakes_signal_waiters [OF ok _ _ _ _ kill] kill k' t1 p1
    by (fastforce simp: demo_kernel_simps task_initial_def)
qed

text \<open>C1. \<open>tgkill\<close> interrupts a futex wait of the target thread unless the thread blocks the signal:
  the thread then runs with \<open>EINTR\<close> as its result.  A blocked signal leaves it asleep.  In both
  cases the signal is pending for the thread.\<close>

theorem tgkill_interrupts_futex_wait:
  assumes ok: "kernel_ok k" and t: "k_task k tid = Some t" "t_state t = WaitingForFutex key"
    and ids: "0 < sint (t_pid t)" "0 < sint tid" and sig: "0 < s" "s \<le> 64"
    and kill: "tgkill_current \<lparr>tgkill_tgid = t_pid t, tgkill_tid = tid, tgkill_sig = s\<rparr> k = (r, k')"
  shows "r = outcome_success 0 \<and> k_task k' tid = Some (
    if signal_matches_mask s (t_signal_mask t)
    then t\<lparr>t_pending_signals := bs_insert s (t_pending_signals t)\<rparr>
    else t\<lparr>t_pending_signals := bs_insert s (t_pending_signals t), t_state := Runnable,
           t_regs := (t_regs t)\<lparr>rax := encode_u64 (Errno EINTR)\<rparr>\<rparr>)"
proof -
  let ?f = "\<lambda>t. set_task_pending (bs_insert s (t_pending_signals t)) t"
  let ?k1 = "modify_task tid ?f k"
  define k2 where "k2 = snd (wake_signal_waiters (t_pid t) ?k1)"
  have ok1: "kernel_ok ?k1" using ok by (simp add: kernel_ok_modify_task)
  have "s \<noteq> 0" using sig(1) by auto
  then have res: "(r, k') = (outcome_success 0, queue_task_signal tid s k)"
    using kill [symmetric] t(1) ids sig
    by (simp add: tgkill_current_def Let_def validate_signal_or_probe_def LINUX_SIGNAL_COUNT_def)
  have "k_task ?k1 tid = Some (?f t)" "\<not> waits_for_signal (t_state (?f t))"
    using t by (simp_all add: waits_for_signal_def set_task_pending_def)
  then have t2: "k_task k2 tid = Some (?f t)"
    unfolding k2_def using wake_signal_waiters_frame(1) [OF ok1, of tid "?f t"] by blast
  then have t2': "k_task k2 tid = Some (t\<lparr>t_pending_signals := bs_insert s (t_pending_signals t)\<rparr>)"
    by (simp add: set_task_pending_def)
  have "k' = (if signal_matches_mask s (t_signal_mask t) then k2 else snd (interrupt_futex_waiter tid k2))"
    using res t(1) t2'
    by (simp add: queue_task_signal_def Let_def signal_blocked_def k2_def [symmetric])
  moreover have "r = outcome_success 0" using res by simp
  ultimately show ?thesis
    using t2' t(2)
    by (cases t) (simp add: interrupt_futex_waiter_def is_futex_wait_def Let_def case_prod_beta
        set_task_pending_def return_value_def with_syscall_return_def)
qed

theorem tgkill_interrupts_futex_wait_witness:
  "\<exists>k'. tgkill_current \<lparr>tgkill_tgid = 1, tgkill_tid = 1, tgkill_sig = 10\<rparr>
     (put_state 1 (WaitingForFutex (futex_wait_key_new 1 0x1000 True)) demo_kernel) = (outcome_success 0, k')
    \<and> state_of k' 1 = Some Runnable"
proof -
  let ?k = "put_state 1 (WaitingForFutex (futex_wait_key_new 1 0x1000 True)) demo_kernel"
  let ?t = "(task_initial 1 1 (gis_memory tiny_image_state))\<lparr>t_state := WaitingForFutex (futex_wait_key_new 1 0x1000 True)\<rparr>"
  have t: "k_task ?k 1 = Some ?t" by (simp add: demo_kernel_simps)
  obtain r k' where kill: "tgkill_current \<lparr>tgkill_tgid = t_pid ?t, tgkill_tid = 1, tgkill_sig = 10\<rparr> ?k = (r, k')"
    by fastforce
  have nomask: "\<not> signal_matches_mask 10 0" by (simp add: signal_matches_mask_def)
  show ?thesis
    using tgkill_interrupts_futex_wait [OF kernel_ok_put_state [OF demo_kernel_ok] t _ _ _ _ _ kill] kill nomask
    by (simp add: task_initial_def state_of_def)
qed

text \<open>C1. A signal sent to a process never interrupts a futex wait: after \<open>kill\<close> every task that
  waited on a futex still does, whatever its mask, although the same signal sent to the thread would
  wake it.\<close>

theorem kill_leaves_futex_waiters:
  assumes ok: "kernel_ok k" and u: "state_of k u = Some (WaitingForFutex key)"
  shows "state_of (snd (kill_current args k)) u = Some (WaitingForFutex key)"
proof -
  obtain t where t: "k_task k u = Some t" "t_state t = WaitingForFutex key"
    using u by (auto simp: state_of_def)
  then have "\<not> waits_for_signal (t_state t)" by (simp add: waits_for_signal_def)
  then have "k_task (queue_process_signal pid s k) u = Some t" for pid s
    using queue_process_signal_frame(1) [OF ok t(1)] by blast
  then show ?thesis
    using t u by (simp add: kill_current_def Let_def state_of_def split: sum.splits)
qed

theorem kill_leaves_futex_waiters_witness:
  "state_of (snd (kill_current \<lparr>kill_pid = 1, kill_sig = 10\<rparr>
     (put_state 1 (WaitingForFutex (futex_wait_key_new 1 0x1000 True)) demo_kernel))) 1
   = Some (WaitingForFutex (futex_wait_key_new 1 0x1000 True))"
  by (rule kill_leaves_futex_waiters [OF kernel_ok_put_state [OF demo_kernel_ok]])
    (simp add: state_of_def demo_kernel_simps)

text \<open>C1. \<open>exit_group\<close> ends the process: every task of it is exited with the given status, the process
  has that exit state and is otherwise as before, and a parent suspended in vfork for it runs again.
  No process appears or disappears.\<close>

theorem exit_group_ends_process:
  assumes ok: "kernel_ok k" and p: "k_process k pid = Some p"
    and ex: "exit_group pid status k = (r, k')"
  shows "r = outcome_success 0
    \<and> k_process k' pid = Some (p\<lparr>p_exit_state := Process_exited status\<rparr>)
    \<and> (\<forall>u t. k_task k u = Some t \<longrightarrow> t_pid t = pid \<longrightarrow> state_of k' u = Some (Exited status))
    \<and> (\<forall>u. state_of k u = Some (WaitingForVfork pid) \<longrightarrow> map_option t_pid (k_task k u) = p_parent p
         \<longrightarrow> state_of k' u = Some Runnable)
    \<and> (\<forall>q. k_process k' q = None \<longleftrightarrow> k_process k q = None)"
proof -
  define tids where "tids = map t_tid (filter (\<lambda>task. t_pid task = pid) (bt_values (k_tasks k)))"
  define k1 where "k1 = fold (\<lambda>tid. put_state tid (Exited status)) tids k"
  have tids: "set tids = {u. \<exists>t. k_task k u = Some t \<and> t_pid t = pid}"
    unfolding tids_def by (rule set_tids_where [OF ok])
  have res: "r = outcome_success 0" "k' = finish_process pid status k1"
    using ex p by (simp_all add: exit_group_def bt_contains_def Let_def tids_def k1_def)
  have ok1: "kernel_ok k1" unfolding k1_def by (rule sched.inv_fold [OF ok])
  have p1: "k_process k1 q = k_process k q" for q by (simp add: k1_def)
  have pp: "pp < pid" if "p_parent p = Some pp" for pp
    using family_okD(2) [OF kernel_ok_family [OF ok], of pid pp] p that by (simp add: parent_of_def)
  have st: "state_of k1 u = (if u \<in> set tids then Some (Exited status) else state_of k u)" for u
    unfolding k1_def sched.state_fold by (auto simp: tids state_of_def)
  note eff = finish_process_effect [OF ok1 p1 [of pid, unfolded p], where status = status]
  have pid1: "map_option t_pid (k_task k1 u) = map_option t_pid (k_task k u)" for u
    using same_but_state_fold [of k "Exited status" tids]
    by (simp add: k1_def same_but_state_pid)
  have "state_of k' u = Some (Exited status)" if t: "k_task k u = Some t" "t_pid t = pid" for u t
  proof -
    obtain t1 where t1: "k_task k1 u = Some t1" "t_state t1 = Exited status"
      using st [of u] t by (auto simp: tids state_of_def)
    have "t_pid t1 = pid" using pid1 [of u] t t1 by simp
    then show ?thesis using eff(3) [OF t1(1)] t1(2) by (simp add: res state_of_def)
  qed
  moreover have "state_of k' u = Some Runnable"
    if "state_of k u = Some (WaitingForVfork pid)" "map_option t_pid (k_task k u) = p_parent p" for u
  proof -
    have "p_parent p \<noteq> Some pid" using pp by blast
    then have "u \<notin> set tids" using that(2) by (auto simp: tids)
    then show ?thesis using eff(4) [of u] that st pid1 by (simp add: res)
  qed
  moreover have "k_process k' q = None \<longleftrightarrow> k_process k q = None" for q
  proof (cases "k_process k q")
    case None
    then show ?thesis using eff(5) [of q] by (simp add: res p1)
  next
    case (Some p')
    then show ?thesis using eff(1) eff(2) [of q p'] p p1 by (cases "q = pid") (force simp: res)+
  qed
  ultimately show ?thesis using res(1) eff(1) by (auto simp: res(2))
qed

theorem exit_group_ends_process_witness:
  "\<exists>k'. exit_group 2 7 vforked_kernel = (outcome_success 0, k')
     \<and> state_of k' 2 = Some (Exited 7) \<and> state_of k' 1 = Some Runnable"
proof -
  obtain p t u where p: "k_process vforked_kernel 2 = Some p" "p_parent p = Some 1"
    and t: "k_task vforked_kernel 2 = Some t" "t_pid t = 2"
    and u: "k_task vforked_kernel 1 = Some u" "t_pid u = 1" "t_state u = WaitingForVfork 2"
    using vforked_kernel_simps(2,3,4) by blast
  obtain r k' where ex: "exit_group 2 7 vforked_kernel = (r, k')" by fastforce
  show ?thesis
    using exit_group_ends_process [OF vforked_kernel_simps(1) p(1) ex] ex p(2) t u
    by (auto simp: state_of_def)
qed

text \<open>C1. The exit status reaches the parent: after \<open>exit_group\<close> a \<open>wait4\<close> for this child by its
  parent returns at once with the child's number and exactly the status it exited with.\<close>

theorem exit_status_reaches_parent:
  assumes ok: "kernel_ok k" and p: "k_process k pid = Some p" "p_parent p = Some pp"
    and parent: "k_process k pp = Some q" and pos: "0 < sint pid"
    and ex: "exit_group pid status k = (r, k')"
    and args: "w4_pid args = pid" "\<not> has_unsupported_options args"
  shows "fst (wait4_child pp args k') =
    Inr (Some \<lparr>wc_pid = pid, wc_status = status, wc_wait_status = linux_wait_exit_status status\<rparr>)"
proof -
  define tids where "tids = map t_tid (filter (\<lambda>task. t_pid task = pid) (bt_values (k_tasks k)))"
  define k1 where "k1 = fold (\<lambda>tid. put_state tid (Exited status)) tids k"
  have k': "k' = finish_process pid status k1"
    using ex p by (simp add: exit_group_def bt_contains_def Let_def tids_def k1_def)
  have ok1: "kernel_ok k1" unfolding k1_def by (rule sched.inv_fold [OF ok])
  have p1: "k_process k1 pid = Some p" "k_process k1 pp = Some q" using p parent by (simp_all add: k1_def)
  have par: "parent_of (bt_get (k_processes k)) pid = Some pp" using p by (simp add: parent_of_def)
  have ne: "pp \<noteq> pid" using family_okD(2) [OF kernel_ok_family [OF ok] par] by auto
  have child: "pid \<in> bs_set (p_children q)"
    using family_okD(3) [OF kernel_ok_family [OF ok] par] parent by (simp add: children_of_def)
  have ok': "kernel_ok k'" unfolding k' by (rule kernel_ok_finish_process [OF ok1])
  have pe: "k_process k' pid = Some (p\<lparr>p_exit_state := Process_exited status\<rparr>)"
    unfolding k' by (rule finish_process_effect(1) [OF ok1 p1(1)])
  obtain pending where qe: "k_process k' pp = Some (q\<lparr>p_pending_signals := pending\<rparr>)"
    using finish_process_effect(2) [OF ok1 p1(1) ne p1(2)] unfolding k' by blast
  have "zombies k' pp (w4_pid args) = {pid}"
    using pe qe child pos args(1)
    by (auto simp: zombies_def waitable_def is_exited_def child_matches_def split: option.splits)
  then have Min: "Min (zombies k' pp (w4_pid args)) = pid" and ne': "zombies k' pp (w4_pid args) \<noteq> {}"
    by simp_all
  obtain c p' status' k'' where "c = pid" "k_process k' c = Some p'"
    "p_exit_state p' = Process_exited status'"
    "wait4_child pp args k' = (Inr (Some (waited_child_new c status')), k'')"
    by (rule wait4_child_reaps [OF ok' args(2) ne']) (rule that; (simp only: Min)?)
  then show ?thesis using pe by (auto simp: waited_child_new_def)
qed

theorem exit_status_reaches_parent_witness:
  "fst (wait4_child 1 \<lparr>w4_pid = 2, w4_wstatus = 0, w4_options = 0, w4_rusage = 0\<rparr>
     (snd (exit_group 2 7 vforked_kernel)))
   = Inr (Some \<lparr>wc_pid = 2, wc_status = 7, wc_wait_status = linux_wait_exit_status 7\<rparr>)"
proof -
  obtain p q where p: "k_process vforked_kernel 2 = Some p" "p_parent p = Some 1"
    and q: "k_process vforked_kernel 1 = Some q"
    using vforked_kernel_simps(3,5) by blast
  have pos: "0 < sint (2 :: guest_pid)" by simp
  obtain r k' where ex: "exit_group 2 7 vforked_kernel = (r, k')" by fastforce
  show ?thesis
    using exit_status_reaches_parent [OF vforked_kernel_simps(1) p q pos ex] ex
    by (simp add: has_unsupported_options_def)
qed

end
