(* ===== verification/Task_Dispatch.thy ===== *)
theory Task_Dispatch
  imports Task_Signal
begin

text \<open>
  The task part of the system call table (\<open>kernel/syscalls.rs\<close>): process groups and sessions,
  thread areas, \<open>uname\<close> and the dispatcher, and the reachable states of a kernel that is driven
  through its public operations.
\<close>

section \<open>Process groups, sessions and thread areas\<close>

definition u32_try_from :: "u64 \<Rightarrow> u32 option" where
  "u32_try_from raw = (if unat raw < 2 ^ 32 then Some (ucast raw) else None)"

definition target_pid :: "guest_pid \<Rightarrow> u64 \<Rightarrow> guest_pid option" where
  "target_pid current_pid raw_pid = (if raw_pid = 0 then Some current_pid else u32_try_from raw_pid)"

definition setpgid_current ::
  "guest_pid \<Rightarrow> u64 \<Rightarrow> u64 \<Rightarrow> guest_kernel \<Rightarrow> syscall_outcome \<times> guest_kernel" where
  "setpgid_current current_pid raw_pid raw_pgid k =
     (case target_pid current_pid raw_pid of
        None \<Rightarrow> (outcome_errno EINVAL, k)
      | Some pid \<Rightarrow>
          (case target_pid pid raw_pgid of
             None \<Rightarrow> (outcome_errno EINVAL, k)
           | Some pgid \<Rightarrow>
               (case k_process k pid of
                  None \<Rightarrow> (outcome_errno ESRCH, k)
                | Some process \<Rightarrow>
                    if p_parent process \<noteq> Some current_pid \<and> pid \<noteq> current_pid
                    then (outcome_errno EPERM, k)
                    else (outcome_success 0, modify_process pid (\<lambda>p. p\<lparr>p_pgid := pgid\<rparr>) k))))"

definition setsid_current :: "guest_pid \<Rightarrow> guest_kernel \<Rightarrow> syscall_outcome \<times> guest_kernel" where
  "setsid_current current_pid k =
     (case k_process k current_pid of
        None \<Rightarrow> (outcome_errno ESRCH, k)
      | Some _ \<Rightarrow> (outcome_success (ucast current_pid),
          modify_process current_pid (\<lambda>p. p\<lparr>p_sid := current_pid, p_pgid := current_pid\<rparr>) k))"

definition getpgid_current :: "guest_kernel \<Rightarrow> guest_pid \<Rightarrow> u64 \<Rightarrow> syscall_outcome" where
  "getpgid_current k current_pid raw_pid =
     (case target_pid current_pid raw_pid of
        None \<Rightarrow> outcome_errno ESRCH
      | Some pid \<Rightarrow>
          (case k_process k pid of
             None \<Rightarrow> outcome_errno ESRCH
           | Some process \<Rightarrow> outcome_success (ucast (p_pgid process))))"

definition getsid_current :: "guest_kernel \<Rightarrow> guest_pid \<Rightarrow> u64 \<Rightarrow> syscall_outcome" where
  "getsid_current k current_pid raw_pid =
     (case target_pid current_pid raw_pid of
        None \<Rightarrow> outcome_errno ESRCH
      | Some pid \<Rightarrow>
          (case k_process k pid of
             None \<Rightarrow> outcome_errno ESRCH
           | Some process \<Rightarrow> outcome_success (ucast (p_sid process))))"

definition arch_prctl ::
  "guest_tid \<Rightarrow> u64 \<Rightarrow> guest_address \<Rightarrow> guest_kernel \<Rightarrow> syscall_outcome \<times> guest_kernel" where
  "arch_prctl tid code address k =
     (case k_task k tid of
        None \<Rightarrow> (outcome_errno ESRCH, k)
      | Some task \<Rightarrow>
          if code = ARCH_SET_FS
          then (outcome_success 0, modify_task tid (\<lambda>t. t\<lparr>t_tls := (t_tls t)\<lparr>fs_base := address\<rparr>\<rparr>) k)
          else if code = ARCH_SET_GS
          then (outcome_success 0, modify_task tid (\<lambda>t. t\<lparr>t_tls := (t_tls t)\<lparr>gs_base := address\<rparr>\<rparr>) k)
          else if code = ARCH_GET_FS then (outcome_success (fs_base (t_tls task)), k)
          else if code = ARCH_GET_GS then (outcome_success (gs_base (t_tls task)), k)
          else (outcome_errno EINVAL, k))"

section \<open>uname\<close>

definition LINUX_UTSNAME_FIELD_LEN :: nat where "LINUX_UTSNAME_FIELD_LEN = 65"

record linux_utsname =
  uts_sysname :: "u8 list"
  uts_nodename :: "u8 list"
  uts_release :: "u8 list"
  uts_version :: "u8 list"
  uts_machine :: "u8 list"
  uts_domainname :: "u8 list"

definition utsname_default :: linux_utsname where
  "utsname_default =
     (let zeros = replicate LINUX_UTSNAME_FIELD_LEN 0 in
      \<lparr>uts_sysname = zeros, uts_nodename = zeros, uts_release = zeros, uts_version = zeros,
       uts_machine = zeros, uts_domainname = zeros\<rparr>)"

definition write_uts_field :: "u8 list \<Rightarrow> u8 list \<Rightarrow> (u8 list, 'e) result" where
  "write_uts_field field value =
     (let len = min (length value) (length field - 1) in write_slice field 0 len (take len value))"

definition ascii :: "string \<Rightarrow> u8 list" where
  "ascii s = map (\<lambda>c. of_nat (of_char c)) s"

definition linux_utsname_value :: "(linux_utsname, 'e) result" where
  "linux_utsname_value =
     and_then (write_uts_field (uts_sysname utsname_default) (ascii ''Linux'')) (\<lambda>sysname.
     and_then (write_uts_field (uts_nodename utsname_default) (ascii ''mcr'')) (\<lambda>nodename.
     and_then (write_uts_field (uts_release utsname_default) (ascii ''6.6.0-mcr'')) (\<lambda>release.
     and_then (write_uts_field (uts_version utsname_default) (ascii ''#1 MCR'')) (\<lambda>version.
     and_then (write_uts_field (uts_machine utsname_default) (ascii ''x86_64'')) (\<lambda>machine.
     and_then (write_uts_field (uts_domainname utsname_default) (ascii ''(none)'')) (\<lambda>domainname.
     Ok \<lparr>uts_sysname = sysname, uts_nodename = nodename, uts_release = release,
         uts_version = version, uts_machine = machine, uts_domainname = domainname\<rparr>))))))"

definition uname :: "guest_address \<Rightarrow> syscall_outcome" where
  "uname buffer = (if buffer = 0 then outcome_errno EFAULT else outcome_success 0)"

section \<open>The dispatcher\<close>

definition child_return_rip :: "syscall_request \<Rightarrow> guest_address" where
  "child_return_rip request = saturating_add (req_rip request) X86_64_SYSCALL_INSTRUCTION_LEN"

definition low_exit_status :: "u64 \<Rightarrow> i32" where
  "low_exit_status raw = ucast (raw AND 0xff)"

text \<open>\<open>task_process\<close> is an \<open>expect\<close>: a task without a process is a panic.\<close>

definition with_process ::
  "guest_kernel \<Rightarrow> guest_pid \<Rightarrow> (guest_process \<Rightarrow> (syscall_outcome, task_error) result \<times> guest_kernel)
     \<Rightarrow> (syscall_outcome, task_error) result \<times> guest_kernel" where
  "with_process k pid f = (case k_process k pid of None \<Rightarrow> (Panic, k) | Some p \<Rightarrow> f p)"

definition current_program :: "guest_image_state \<Rightarrow> guest_program" where
  "current_program img =
     (case gis_interpreter img of
        None \<Rightarrow> program_new (gis_executable img)
      | Some interpreter \<Rightarrow> with_interpreter interpreter (program_new (gis_executable img)))"

text \<open>An operation of the kernel that cannot panic, as an arm of the dispatcher.\<close>

definition total_arm ::
  "syscall_outcome \<times> guest_kernel \<Rightarrow> (syscall_outcome, task_error) result \<times> guest_kernel" where
  "total_arm r = (Ok (fst r), snd r)"

fun dispatch_arm ::
  "syscall \<Rightarrow> syscall_request \<Rightarrow> guest_task \<Rightarrow> guest_kernel
     \<Rightarrow> (syscall_outcome, task_error) result \<times> guest_kernel" where
  "dispatch_arm Getpid r task k = (Ok (outcome_success (ucast (t_pid task))), k)"
| "dispatch_arm Gettid r task k = (Ok (outcome_success (ucast (t_tid task))), k)"
| "dispatch_arm Getppid r task k = with_process k (t_pid task) (\<lambda>p.
     (Ok (outcome_success (ucast (case p_parent p of None \<Rightarrow> 0 | Some pp \<Rightarrow> pp))), k))"
| "dispatch_arm Getpgrp r task k = with_process k (t_pid task) (\<lambda>p.
     (Ok (outcome_success (ucast (p_pgid p))), k))"
| "dispatch_arm Getpgid r task k = (Ok (getpgid_current k (t_pid task) (req_arg r 0)), k)"
| "dispatch_arm Getsid r task k = (Ok (getsid_current k (t_pid task) (req_arg r 0)), k)"
| "dispatch_arm Getuid r task k = (Ok (outcome_success 0), k)"
| "dispatch_arm Geteuid r task k = (Ok (outcome_success 0), k)"
| "dispatch_arm Getgid r task k = (Ok (outcome_success 0), k)"
| "dispatch_arm Getegid r task k = (Ok (outcome_success 0), k)"
| "dispatch_arm Setuid r task k = (Ok (outcome_success 0), k)"
| "dispatch_arm Setgid r task k = (Ok (outcome_success 0), k)"
| "dispatch_arm Setreuid r task k = (Ok (outcome_success 0), k)"
| "dispatch_arm Setregid r task k = (Ok (outcome_success 0), k)"
| "dispatch_arm Setpgid r task k =
     total_arm (setpgid_current (t_pid task) (req_arg r 0) (req_arg r 1) k)"
| "dispatch_arm Setsid r task k = total_arm (setsid_current (t_pid task) k)"
| "dispatch_arm Fork r task k = total_arm (fork_like_current (req_tid r) (child_return_rip r) k)"
| "dispatch_arm Vfork r task k = total_arm (vfork_current (req_tid r) k)"
| "dispatch_arm Clone r task k = total_arm (clone_current_with_return (req_tid r)
     \<lparr>clone_flags = req_arg r 0, clone_child_stack = req_arg r 1, clone_parent_tid = req_arg r 2,
      clone_child_tid = req_arg r 3, clone_tls = req_arg r 4\<rparr> (child_return_rip r) k)"
| "dispatch_arm Exit r task k = total_arm (exit_task (req_tid r) (low_exit_status (req_arg r 0)) k)"
| "dispatch_arm ExitGroup r task k =
     total_arm (exit_group (t_pid task) (low_exit_status (req_arg r 0)) k)"
| "dispatch_arm Wait4 r task k = total_arm (wait4_current_with_return (req_tid r)
     \<lparr>w4_pid = ucast (req_arg r 0), w4_wstatus = req_arg r 1, w4_options = ucast (req_arg r 2),
      w4_rusage = req_arg r 3\<rparr> (child_return_rip r) k)"
| "dispatch_arm RtSigaction r task k = total_arm (rt_sigaction_current (req_tid r)
     \<lparr>sa_sig = ucast (req_arg r 0), sa_act = req_arg r 1, sa_oldact = req_arg r 2,
      sa_sigsetsize = req_arg r 3\<rparr> k)"
| "dispatch_arm RtSigprocmask r task k = total_arm (rt_sigprocmask_current (req_tid r)
     \<lparr>sm_how = ucast (req_arg r 0), sm_set = req_arg r 1, sm_oldset = req_arg r 2,
      sm_sigsetsize = req_arg r 3\<rparr> k)"
| "dispatch_arm RtSigreturn r task k = (Ok (outcome_success 0), k)"
| "dispatch_arm RtSigtimedwait r task k =
     total_arm (rt_sigtimedwait_current (req_tid r) 0 (req_arg r 3) False k)"
| "dispatch_arm Kill r task k =
     total_arm (kill_current \<lparr>kill_pid = ucast (req_arg r 0), kill_sig = ucast (req_arg r 1)\<rparr> k)"
| "dispatch_arm Tkill r task k =
     total_arm (tkill_current \<lparr>tkill_tid = ucast (req_arg r 0), tkill_sig = ucast (req_arg r 1)\<rparr> k)"
| "dispatch_arm Tgkill r task k = total_arm (tgkill_current
     \<lparr>tgkill_tgid = ucast (req_arg r 0), tgkill_tid = ucast (req_arg r 1),
      tgkill_sig = ucast (req_arg r 2)\<rparr> k)"
| "dispatch_arm SetTidAddress r task k =
     total_arm (set_tid_address_current (req_tid r) (req_arg r 0) k)"
| "dispatch_arm SetRobustList r task k = total_arm (set_robust_list_current (req_tid r)
     \<lparr>robust_head = req_arg r 0, robust_len = req_arg r 1\<rparr> k)"
| "dispatch_arm Uname r task k = (Ok (uname (req_arg r 0)), k)"
| "dispatch_arm ArchPrctl r task k =
     total_arm (arch_prctl (req_tid r) (req_arg r 0) (req_arg r 1) k)"
| "dispatch_arm Execve r task k = with_process k (t_pid task) (\<lambda>p.
     execve_current (req_tid r) (current_program (p_image p)) k)"
| "dispatch_arm _ r task k = (Ok outcome_unsupported, k)"

definition dispatch_for_current_task ::
  "syscall_request \<Rightarrow> guest_kernel \<Rightarrow> (syscall_outcome, task_error) result \<times> guest_kernel" where
  "dispatch_for_current_task request k =
     (case k_task k (req_tid request) of
        None \<Rightarrow> (Ok (outcome_errno ESRCH), k)
      | Some task \<Rightarrow>
          if t_pid task \<noteq> req_pid request then (Ok (outcome_errno ESRCH), k)
          else dispatch_arm (req_syscall request) request task k)"

section \<open>The invariant\<close>

lemma kernel_ok_groups [intro]:
  assumes "kernel_ok k"
  shows "kernel_ok (snd (setpgid_current c a b k))" "kernel_ok (snd (setsid_current c k))"
    "kernel_ok (snd (arch_prctl tid code addr k))"
proof -
  have "family_neutral (\<lambda>p. p\<lparr>p_pgid := g\<rparr>)" "family_neutral (\<lambda>p. p\<lparr>p_sid := s, p_pgid := g\<rparr>)" for g s
    by (simp_all add: family_neutral_def)
  moreover have "benign (\<lambda>t. t\<lparr>t_tls := f t\<rparr>)" for f by (simp add: benign_def)
  ultimately show "kernel_ok (snd (setpgid_current c a b k))" "kernel_ok (snd (setsid_current c k))"
    "kernel_ok (snd (arch_prctl tid code addr k))"
    using assms
    by (simp_all add: setpgid_current_def setsid_current_def arch_prctl_def kernel_ok_modify_process
        kernel_ok_modify_task split: option.splits)
qed

lemma snd_total_arm [simp]: "snd (total_arm r) = snd r" "fst (total_arm r) = Ok (fst r)"
  by (simp_all add: total_arm_def)

lemma kernel_ok_dispatch_arm:
  "kernel_ok k \<Longrightarrow> kernel_ok (snd (dispatch_arm s r task k))"
  by (cases s) (auto simp: with_process_def fork_like_current_def rt_sigaction_current_def
      rt_sigprocmask_current_def split: option.splits)

lemma kernel_ok_dispatch [intro]:
  "kernel_ok k \<Longrightarrow> kernel_ok (snd (dispatch_for_current_task request k))"
  by (simp add: dispatch_for_current_task_def kernel_ok_dispatch_arm split: option.splits)

lemma current_program_not_Panic:
  assumes "image_ok img"
  shows "load_program (current_program img) \<noteq> Panic"
  using reload_not_Panic [OF assms, of "[exe_path (gis_executable img)]" "[]"]
  by (cases "gis_interpreter img") (simp_all add: current_program_def program_new_def with_interpreter_def)

lemma dispatch_not_Panic:
  assumes ok: "kernel_ok k"
  shows "fst (dispatch_for_current_task request k) \<noteq> Panic"
proof (cases "k_task k (req_tid request)")
  case None
  then show ?thesis by (simp add: dispatch_for_current_task_def)
next
  case (Some task)
  obtain p where p: "k_process k (t_pid task) = Some p" using keys_okD(3) [OF ok Some] by auto
  have "fst (exec_task (req_tid request) (current_program (p_image p)) k) \<noteq> Panic"
    using current_program_not_Panic [OF keys_okD(7) [OF ok p]] Some p
    by (auto simp: exec_task_def Let_def split: result.splits)
  then have "fst (execve_current (req_tid request) (current_program (p_image p)) k) \<noteq> Panic"
    by (cases "exec_task (req_tid request) (current_program (p_image p)) k"; cases "fst (exec_task (req_tid request) (current_program (p_image p)) k)")
      (simp_all add: execve_current_def)
  then have "fst (dispatch_arm (req_syscall request) request task k) \<noteq> Panic"
    using p by (cases "req_syscall request") (simp_all add: with_process_def)
  then show ?thesis using Some by (simp add: dispatch_for_current_task_def)
qed

section \<open>Reachable kernels\<close>

text \<open>
  One step of the runtime on the kernel: a call of one of its public mutating operations, or one of
  the three task updates the runtime makes through \<open>task_mut\<close>.  The readiness callback of
  \<open>resume_fd_waiters\<close> is a stateful closure; its answers are a stream of Booleans here.
\<close>

inductive kernel_step :: "guest_kernel \<Rightarrow> guest_kernel \<Rightarrow> bool" where
  step_dispatch: "kernel_step k (snd (dispatch_for_current_task request k))"
| step_exec: "kernel_step k (snd (execve_current tid program k))"
| step_fork: "kernel_step k (snd (fork_current tid k))"
| step_vfork: "kernel_step k (snd (vfork_current tid k))"
| step_clone: "kernel_step k (snd (clone_current tid clone k))"
| step_fork_regs: "kernel_step k (snd (fork_current_with_child_regs tid regs k))"
| step_vfork_regs: "kernel_step k (snd (vfork_current_with_child_regs tid regs k))"
| step_clone_regs: "kernel_step k (snd (clone_current_with_child_regs tid clone regs k))"
| step_fork_child: "kernel_step k (snd (fork_child tid k))"
| step_wait4_child: "kernel_step k (snd (wait4_child pid wait k))"
| step_wait4: "kernel_step k (snd (wait4_current tid wait k))"
| step_resume_waiting: "kernel_step k (snd (resume_waiting_tasks k))"
| step_block_fd: "kernel_step k (snd (block_task_for_fd tid fd write k))"
| step_block_futex: "kernel_step k (snd (block_task_for_futex tid key k))"
| step_block_sleep: "kernel_step k (snd (block_task_for_sleep tid k))"
| step_resume_fd: "kernel_step k (snd (snd (resume_fd_waiters ready (answers :: bool list) k)))"
| step_resume_sleep: "kernel_step k (snd (resume_sleep_waiter tid k))"
| step_futex_wake: "kernel_step k (snd (wake_futex_waiters key limit k))"
| step_futex_requeue: "kernel_step k (snd (requeue_futex_waiters key key' limit moves k))"
| step_futex_timeout: "kernel_step k (snd (timeout_futex_waiter tid k))"
| step_sigaction: "kernel_step k (snd (rt_sigaction_current_with_action tid action new k))"
| step_sigprocmask: "kernel_step k (snd (rt_sigprocmask_current_mask tid how sigset sz k))"
| step_take_signal: "kernel_step k (snd (take_pending_signal_for_return_to_user tid k))"
| step_signal_mask: "kernel_step k (snd (set_task_signal_mask tid msk k))"
| step_sigtimedwait: "kernel_step k (snd (rt_sigtimedwait_current tid msk sz block k))"
| step_sigsuspend: "kernel_step k (snd (rt_sigsuspend_current tid msk sz k))"
| step_wake_signal: "kernel_step k (snd (wake_signal_waiters pid k))"
| step_exit: "kernel_step k (snd (exit_task tid status k))"
| step_exit_group: "kernel_step k (snd (exit_group pid status k))"
| step_kill: "kernel_step k (snd (kill_current kill k))"
| step_tkill: "kernel_step k (snd (tkill_current tkill k))"
| step_tgkill: "kernel_step k (snd (tgkill_current tgkill k))"
| step_set_tid_address: "kernel_step k (snd (set_tid_address_current tid address k))"
| step_set_robust_list: "kernel_step k (snd (set_robust_list_current tid robust k))"
| step_arch_prctl: "kernel_step k (snd (arch_prctl tid code address k))"
| step_set_regs: "kernel_step k (modify_task tid (set_regs regs) k)"
| step_take_robust_list: "kernel_step k (modify_task tid (\<lambda>t. snd (take_robust_list t)) k)"
| step_take_clear_child_tid: "kernel_step k (modify_task tid (\<lambda>t. snd (take_clear_child_tid t)) k)"

inductive reachable :: "guest_kernel \<Rightarrow> bool" where
  reachable_boot: "kernel_new program = Ok k \<Longrightarrow> reachable k"
| reachable_step: "reachable k \<Longrightarrow> kernel_step k k' \<Longrightarrow> reachable k'"

inductive_cases kernel_stepE: "kernel_step k k'"

lemma kernel_ok_task_mut [intro]:
  assumes "kernel_ok k"
  shows "kernel_ok (modify_task tid (set_regs regs) k)"
    "kernel_ok (modify_task tid (\<lambda>t. snd (take_robust_list t)) k)"
    "kernel_ok (modify_task tid (\<lambda>t. snd (take_clear_child_tid t)) k)"
  using assms
  by (auto intro!: kernel_ok_modify_task
      simp: benign_def set_regs_def take_robust_list_def take_clear_child_tid_def)

lemma kernel_ok_entry_points [intro]:
  assumes "kernel_ok k"
  shows "kernel_ok (snd (clone_current tid clone k))"
    "kernel_ok (snd (fork_current_with_child_regs tid regs k))"
    "kernel_ok (snd (vfork_current_with_child_regs tid regs k))"
    "kernel_ok (snd (fork_child tid k))" "kernel_ok (snd (wait4_child pid wait k))"
    "kernel_ok (snd (wait4_current tid wait k))"
  using assms kernel_ok_fork_child_task [OF assms prod.collapse [symmetric], of tid]
    kernel_ok_wait4_child [OF assms prod.collapse [symmetric], of pid wait]
  by (auto simp: clone_current_def fork_current_with_child_regs_def vfork_current_with_child_regs_def
      fork_like_current_with_child_regs_def fork_child_def wait4_current_def prod.case_eq_if
      split: sum.splits)

lemma kernel_step_ok: "kernel_step k k' \<Longrightarrow> kernel_ok k \<Longrightarrow> kernel_ok k'"
  by (induction rule: kernel_step.induct) auto

lemma reachable_ok: "reachable k \<Longrightarrow> kernel_ok k"
  by (induction rule: reachable.induct) (auto intro: kernel_new_ok kernel_step_ok)

section \<open>Properties\<close>

text \<open>C8. Every kernel that the runtime can reach from a booted program by any sequence of public
  operations satisfies the kernel invariant: the tables are keyed by the numbers of their entries,
  every task belongs to a process, the parent and child links of processes agree, and the runnable,
  child-wait, descriptor-wait, sleep and futex indexes list exactly the tasks in these states.\<close>
theorem reachable_kernel_ok:
  assumes "reachable k"
  shows "kernel_ok k"
  using assms by (rule reachable_ok)

definition tiny_kernel :: guest_kernel where
  "tiny_kernel = (case kernel_new tiny_program of Ok k \<Rightarrow> k)"

lemma tiny_kernel: "kernel_new tiny_program = Ok tiny_kernel"
proof -
  obtain files where "(fd_with_stdio :: guest_fd_table task_result) = Ok files"
    by (simp add: fd_with_stdio_def fd_insert_exact_def fd_table_new_def bt_contains_def bt_get_insert)
  then have "kernel_new tiny_program = Ok (boot_kernel tiny_image_state files)"
    using tiny_image_state by (auto simp: kernel_new_Ok)
  then show ?thesis by (simp add: tiny_kernel_def)
qed

lemma tiny_task: "\<exists>t. k_task tiny_kernel 1 = Some t \<and> t_pid t = 1"
proof -
  obtain img files where boot: "tiny_kernel = boot_kernel img files"
    using tiny_kernel by (auto simp: kernel_new_Ok)
  show ?thesis
    unfolding boot by (simp add: boot_kernel_def insert_task_def task_initial_def add_process_def bt_get_insert)
qed

lemma reachable_tiny: "reachable tiny_kernel"
  by (rule reachable_boot [OF tiny_kernel])

lemma reachable_tiny_vfork: "reachable (snd (vfork_current 1 tiny_kernel))"
  by (rule reachable_step [OF reachable_tiny step_vfork])

theorem reachable_kernel_ok_witness:
  "kernel_ok (snd (vfork_current 1 tiny_kernel))"
  by (rule reachable_kernel_ok [OF reachable_tiny_vfork])

text \<open>C29. No system call of a guest can make the task kernel panic: on a reachable kernel the
  dispatcher returns an outcome for every request, whatever its number, its arguments and the
  identity it claims.\<close>
theorem dispatch_never_panics:
  assumes "reachable k"
  shows "fst (dispatch_for_current_task request k) \<noteq> Panic"
  using dispatch_not_Panic [OF reachable_ok [OF assms]] .

theorem dispatch_never_panics_witness:
  "\<forall>request. fst (dispatch_for_current_task request tiny_kernel) \<noteq> Panic"
  using dispatch_never_panics [OF reachable_tiny] by blast

text \<open>No sequence of operations can make a task block \<open>SIGKILL\<close> or \<open>SIGSTOP\<close>.\<close>
theorem reachable_unblockable:
  assumes "reachable k" "k_task k tid = Some t"
  shows "\<not> bit (t_signal_mask t) (unat LINUX_SIGKILL - 1) \<and> \<not> bit (t_signal_mask t) (unat LINUX_SIGSTOP - 1)"
proof -
  have "bit unblockable_signal_mask (8 :: nat)" "bit unblockable_signal_mask (18 :: nat)"
    by (simp_all add: unblockable_signal_mask_def LINUX_SIGKILL_def LINUX_SIGSTOP_def)
  moreover have "\<not> (bit (t_signal_mask t) n \<and> bit unblockable_signal_mask n)" for n
    using arg_cong [OF keys_okD(4) [OF reachable_ok [OF assms(1)] assms(2)], of "\<lambda>w. bit w n"]
    by (simp add: bit_simps)
  ultimately show ?thesis
    by (auto simp: LINUX_SIGKILL_def LINUX_SIGSTOP_def)
qed

theorem reachable_unblockable_witness:
  "\<exists>t. k_task tiny_kernel 1 = Some t \<and> \<not> bit (t_signal_mask t) (unat LINUX_SIGKILL - 1)"
  using reachable_unblockable [OF reachable_tiny, of 1] tiny_task by auto

text \<open>A request that names a task that does not exist, or whose process number is not the one of
  its task, is refused with \<open>ESRCH\<close> and changes nothing.\<close>
theorem dispatch_checks_identity:
  assumes "\<forall>t. k_task k (req_tid request) = Some t \<longrightarrow> t_pid t \<noteq> req_pid request"
  shows "dispatch_for_current_task request k = (Ok (outcome_errno ESRCH), k)"
  using assms by (simp add: dispatch_for_current_task_def split: option.splits)

theorem dispatch_checks_identity_witness:
  "dispatch_for_current_task
     \<lparr>req_pid = 7, req_tid = 1, req_rip = 0, req_syscall = Getpid, req_args = []\<rparr> tiny_kernel
   = (Ok (outcome_errno ESRCH), tiny_kernel)"
  by (rule dispatch_checks_identity) (use tiny_task in auto)

text \<open>The identification that \<open>uname\<close> reports: each of its six fields has the fixed width of 65
  bytes and holds its text followed by NUL bytes only, so that every field is terminated.\<close>
theorem utsname_fields:
  "\<exists>u. (linux_utsname_value :: (linux_utsname, unit) result) = Ok u
     \<and> uts_sysname u = ascii ''Linux'' @ replicate 60 0
     \<and> uts_nodename u = ascii ''mcr'' @ replicate 62 0
     \<and> uts_release u = ascii ''6.6.0-mcr'' @ replicate 56 0
     \<and> uts_version u = ascii ''#1 MCR'' @ replicate 59 0
     \<and> uts_machine u = ascii ''x86_64'' @ replicate 59 0
     \<and> uts_domainname u = ascii ''(none)'' @ replicate 59 0"
  by (simp add: linux_utsname_value_def write_uts_field_def utsname_default_def Let_def ascii_def
      LINUX_UTSNAME_FIELD_LEN_def write_slice_def
      Mcr_Prelude.splice_def)

end
