(* ===== verification/Host_Api.thy ===== *)
theory Host_Api
  imports Mcr_Prelude
begin

text \<open>
  The errors of the host adapter \<open>mcr-win\<close> (\<open>error.rs\<close>), which the memory manager and the file system
  translate into guest errors.
\<close>

datatype host_error_kind =
    HostAccessDenied | HostNotFound | HostAlreadyExists | HostInvalidInput | HostInterrupted
  | HostTimedOut | HostWouldBlock | HostBrokenPipe | HostOutOfMemory | HostUnsupported
  | HostPoisoned | HostUnavailable | HostOther

text \<open>The operations of the host adapter that the memory manager uses.\<close>

datatype host_operation = AllocateMemory | ProtectMemory | FlushInstructionCache

record host_error =
  he_operation :: host_operation
  he_kind :: host_error_kind
  he_code :: "u32 option"

end
