(* ===== verification/Mem_Vma.thy ===== *)
theory Mem_Vma
  imports Btree Host_Api
begin

text \<open>
  The map of virtual memory areas of a guest address space (\<open>mcr-memory\<close>, \<open>ranges.rs\<close> and the
  part of \<open>lib.rs\<close> that only reads or edits the area map).  Addresses, lengths and offsets are
  \<open>u64\<close> values; they are natural numbers here, and every operation that could leave the range of
  \<open>u64\<close> carries its check.  What an area map means is the function \<open>locate\<close> from an address to the
  protection, the kind and the allocation byte behind it; the lemmas of this theory express every
  operation by its effect on \<open>locate\<close>.
\<close>

section \<open>Errors and ranges\<close>

datatype guest_memory_error =
    InvalidAddress | InvalidLength | InvalidProtection | InvalidFlags | InvalidOffset
  | BadFileDescriptor | AddressInUse | NotMapped | OutOfMemory | AccessDenied
  | MemRegionTooLarge | Host host_error

type_synonym 'a mem_result = "('a, guest_memory_error) result"

definition GUEST_PAGE_SIZE :: nat where "GUEST_PAGE_SIZE = 4096"
definition MIN_GUEST_ADDRESS :: nat where "MIN_GUEST_ADDRESS = GUEST_PAGE_SIZE"
definition DEFAULT_MMAP_BASE :: nat where "DEFAULT_MMAP_BASE = 0x700000000000"
definition GUEST_ADDRESS_SPACE_END :: nat where "GUEST_ADDRESS_SPACE_END = 0x800000000000"

definition nat_checked_add :: "nat \<Rightarrow> nat \<Rightarrow> nat option" where
  "nat_checked_add a b = (if a + b < 2 ^ 64 then Some (a + b) else None)"

definition is_page_aligned :: "nat \<Rightarrow> bool" where
  "is_page_aligned v \<longleftrightarrow> v mod GUEST_PAGE_SIZE = 0"

text \<open>\<open>value & !(alignment - 1)\<close>; both alignments the code uses are powers of two.\<close>

definition align_down_to :: "nat \<Rightarrow> nat \<Rightarrow> nat" where
  "align_down_to v alignment = v div alignment * alignment"

definition align_up_to :: "nat \<Rightarrow> nat \<Rightarrow> nat mem_result" where
  "align_up_to v alignment =
     and_then (ok_or (nat_checked_add v (alignment - 1)) InvalidLength)
       (\<lambda>w. Ok (align_down_to w alignment))"

definition align_up :: "nat \<Rightarrow> nat mem_result" where
  "align_up v = align_up_to v GUEST_PAGE_SIZE"

definition page_round_length :: "nat \<Rightarrow> nat mem_result" where
  "page_round_length len = (if len = 0 then Err InvalidLength else align_up len)"

definition checked_raw_range :: "nat \<Rightarrow> nat \<Rightarrow> nat mem_result" where
  "checked_raw_range start len = ok_or (nat_checked_add start len) InvalidLength"

definition checked_page_range :: "nat \<Rightarrow> nat \<Rightarrow> nat mem_result" where
  "checked_page_range start len =
     (if \<not> is_page_aligned start \<or> len = 0 then Err InvalidAddress
      else and_then (page_round_length len) (checked_raw_range start))"

definition raw_ranges_overlap :: "nat \<Rightarrow> nat \<Rightarrow> nat \<Rightarrow> bool mem_result" where
  "raw_ranges_overlap lhs rhs len =
     (if len = 0 then Ok False
      else and_then (checked_raw_range lhs len) (\<lambda>lhs_end.
        and_then (checked_raw_range rhs len) (\<lambda>rhs_end. Ok (lhs < rhs_end \<and> rhs < lhs_end))))"

definition checked_mapping_end :: "nat \<Rightarrow> nat \<Rightarrow> nat \<Rightarrow> nat mem_result" where
  "checked_mapping_end start len address_space_end =
     (if start < MIN_GUEST_ADDRESS \<or> \<not> is_page_aligned start then Err InvalidAddress
      else and_then (checked_raw_range start len) (\<lambda>end.
        if end > address_space_end then Err OutOfMemory else Ok end))"

definition is_supported_madvise :: "nat \<Rightarrow> bool" where
  "is_supported_madvise advice \<longleftrightarrow>
     advice \<le> 4 \<or> (8 \<le> advice \<and> advice \<le> 25) \<or> advice = 100 \<or> advice = 101"

section \<open>Areas\<close>

record mem_protection =
  prot_read :: bool
  prot_write :: bool
  prot_execute :: bool

datatype mem_vma_kind = Anonymous | Heap | FileBacked int int bool

record mem_vma =
  v_start :: nat
  v_end :: nat
  v_protection :: mem_protection
  v_kind :: mem_vma_kind
  v_allocation_id :: nat
  v_allocation_offset :: nat

type_synonym vma_map = "(nat, mem_vma) btree_map"

definition v_len :: "mem_vma \<Rightarrow> nat" where
  "v_len v = v_end v - v_start v"

definition v_contains :: "mem_vma \<Rightarrow> nat \<Rightarrow> bool" where
  "v_contains v address \<longleftrightarrow> v_start v \<le> address \<and> address < v_end v"

definition can_merge :: "mem_vma \<Rightarrow> mem_vma \<Rightarrow> bool" where
  "can_merge l r \<longleftrightarrow> v_end l = v_start r \<and> v_protection l = v_protection r \<and> v_kind l = v_kind r
     \<and> v_allocation_id l = v_allocation_id r
     \<and> v_allocation_offset l + v_len l = v_allocation_offset r"

text \<open>\<open>range(..=address).next_back()\<close>, \<open>values_mut().next_back()\<close> and the keys of \<open>range(a..b)\<close>.\<close>

definition last_opt :: "'a list \<Rightarrow> 'a option" where
  "last_opt xs = (if xs = [] then None else Some (last xs))"

definition range_keys :: "nat \<Rightarrow> nat \<Rightarrow> (nat, 'v) btree_map \<Rightarrow> nat list" where
  "range_keys a b m = filter (\<lambda>k. a \<le> k \<and> k < b) (bt_keys m)"

definition vma_containing :: "vma_map \<Rightarrow> nat \<Rightarrow> mem_vma option" where
  "vma_containing vmas address =
     (case last_opt (filter (\<lambda>(k, _). k \<le> address) (bt_entries vmas)) of
        None \<Rightarrow> None
      | Some (_, v) \<Rightarrow> if v_contains v address then Some v else None)"

definition overlaps :: "vma_map \<Rightarrow> nat \<Rightarrow> nat \<Rightarrow> bool" where
  "overlaps vmas start end \<longleftrightarrow> (\<exists>v \<in> set (bt_values vmas). v_start v < end \<and> start < v_end v)"

definition range_overlaps_executable :: "vma_map \<Rightarrow> nat \<Rightarrow> nat \<Rightarrow> bool" where
  "range_overlaps_executable vmas start end \<longleftrightarrow>
     start < end \<and> (\<exists>v \<in> set (bt_values vmas).
       prot_execute (v_protection v) \<and> v_start v < end \<and> start < v_end v)"

fun range_mapped_loop :: "mem_vma list \<Rightarrow> nat \<Rightarrow> nat \<Rightarrow> bool" where
  "range_mapped_loop [] cursor end \<longleftrightarrow> False"
| "range_mapped_loop (v # vs) cursor end \<longleftrightarrow>
     (if v_start v > cursor then False
      else let cursor' = (if v_end v > cursor then v_end v else cursor)
           in if cursor' \<ge> end then True else range_mapped_loop vs cursor' end)"

definition is_range_mapped :: "vma_map \<Rightarrow> nat \<Rightarrow> nat \<Rightarrow> bool" where
  "is_range_mapped vmas start end =
     range_mapped_loop (filter (\<lambda>v. v_end v > start) (bt_values vmas)) start end"

fun find_free_loop :: "mem_vma list \<Rightarrow> nat \<Rightarrow> nat \<Rightarrow> nat \<Rightarrow> nat mem_result" where
  "find_free_loop [] len space_end candidate =
     and_then (checked_mapping_end candidate len space_end) (\<lambda>_. Ok candidate)"
| "find_free_loop (v # vs) len space_end candidate =
     and_then (checked_mapping_end candidate len space_end) (\<lambda>end.
       if end \<le> v_start v then Ok candidate
       else if candidate < v_end v then and_then (align_up (v_end v)) (find_free_loop vs len space_end)
       else find_free_loop vs len space_end candidate)"

definition find_free_range :: "vma_map \<Rightarrow> nat \<Rightarrow> nat \<Rightarrow> nat \<Rightarrow> nat mem_result" where
  "find_free_range vmas space_end hint len =
     and_then (align_up hint) (\<lambda>candidate.
       find_free_loop (bt_values vmas) len space_end
         (if candidate < MIN_GUEST_ADDRESS then MIN_GUEST_ADDRESS else candidate))"

definition split_left :: "nat \<Rightarrow> mem_vma \<Rightarrow> mem_vma" where
  "split_left address v = v\<lparr>v_end := address\<rparr>"

definition split_right :: "nat \<Rightarrow> mem_vma \<Rightarrow> mem_vma" where
  "split_right address v =
     v\<lparr>v_start := address, v_allocation_offset := v_allocation_offset v + (address - v_start v)\<rparr>"

definition split_vma_at :: "nat \<Rightarrow> vma_map \<Rightarrow> vma_map" where
  "split_vma_at address vmas =
     (case vma_containing vmas address of
        None \<Rightarrow> vmas
      | Some v \<Rightarrow>
          if address = v_start v \<or> address = v_end v then vmas
          else bt_insert address (split_right address v)
            (bt_insert (v_start v) (split_left address v) (bt_remove (v_start v) vmas)))"

text \<open>The area part of \<open>unmap_range\<close>: split at both ends, then remove every area that starts in
  between.\<close>

definition unmap_vmas :: "nat \<Rightarrow> nat \<Rightarrow> vma_map \<Rightarrow> vma_map" where
  "unmap_vmas start end vmas =
     (let vmas = split_vma_at end (split_vma_at start vmas)
      in fold bt_remove (range_keys start end vmas) vmas)"

definition coalesce_step :: "mem_vma \<Rightarrow> vma_map \<Rightarrow> vma_map" where
  "coalesce_step v merged =
     (case last_opt (bt_entries merged) of
        Some (k, previous) \<Rightarrow>
          if can_merge previous v then bt_insert k (previous\<lparr>v_end := v_end v\<rparr>) merged
          else bt_insert (v_start v) v merged
      | None \<Rightarrow> bt_insert (v_start v) v merged)"

definition coalesce_adjacent :: "vma_map \<Rightarrow> vma_map" where
  "coalesce_adjacent vmas = fold coalesce_step (bt_values vmas) bt_empty"

definition heap_vma :: "vma_map \<Rightarrow> mem_vma option" where
  "heap_vma vmas = List.find (\<lambda>v. v_kind v = Heap) (bt_values vmas)"

definition heap_mapped_end :: "vma_map \<Rightarrow> nat \<Rightarrow> nat" where
  "heap_mapped_end vmas brk_base =
     (case heap_vma vmas of None \<Rightarrow> brk_base | Some v \<Rightarrow> max (v_end v) brk_base)"

text \<open>The keys that \<open>remove_heap_vmas\<close> and \<open>shrink_heap\<close> collect, and their removal.\<close>

definition heap_keys_from :: "nat \<Rightarrow> vma_map \<Rightarrow> nat list" where
  "heap_keys_from start vmas =
     map fst (filter (\<lambda>(k, v). start \<le> k \<and> v_kind v = Heap) (bt_entries vmas))"

definition ensure_brk_can_grow :: "vma_map \<Rightarrow> nat \<Rightarrow> nat \<Rightarrow> unit mem_result" where
  "ensure_brk_can_grow vmas old_end new_end =
     ensure (\<not> (\<exists>v \<in> set (bt_values vmas). v_kind v \<noteq> Heap \<and> v_start v < new_end \<and> old_end < v_end v))
       OutOfMemory"

section \<open>The meaning of an area map\<close>

definition vmas_ok :: "vma_map \<Rightarrow> bool" where
  "vmas_ok vmas \<longleftrightarrow>
     (\<forall>k v. bt_get vmas k = Some v \<longrightarrow> v_start v = k \<and> k < v_end v)
   \<and> (\<forall>k v k' v'. bt_get vmas k = Some v \<longrightarrow> bt_get vmas k' = Some v' \<longrightarrow> k < k' \<longrightarrow> v_end v \<le> k')"

definition place :: "mem_vma \<Rightarrow> nat \<Rightarrow> mem_protection \<times> mem_vma_kind \<times> nat \<times> nat" where
  "place v a = (v_protection v, v_kind v, v_allocation_id v, v_allocation_offset v + (a - v_start v))"

definition locate :: "vma_map \<Rightarrow> nat \<Rightarrow> (mem_protection \<times> mem_vma_kind \<times> nat \<times> nat) option" where
  "locate vmas a = map_option (\<lambda>v. place v a) (vma_containing vmas a)"

lemma vmas_okD:
  assumes "vmas_ok vmas" "bt_get vmas k = Some v"
  shows "v_start v = k" "k < v_end v" "bt_get vmas k' = Some v' \<Longrightarrow> k < k' \<Longrightarrow> v_end v \<le> k'"
  using assms by (auto simp: vmas_ok_def)

lemma vma_overlap_unique:
  assumes ok: "vmas_ok vmas" and v: "bt_get vmas k = Some v" and w: "bt_get vmas k' = Some w"
    and a: "v_start v \<le> a" "a < v_end v" "v_start w \<le> a" "a < v_end w"
  shows "k = k' \<and> v = w"
proof -
  have "v_start v = k" "v_start w = k'" using vmas_okD(1) [OF ok] v w by auto
  moreover have "\<not> k < k'" "\<not> k' < k"
    using vmas_okD(3) [OF ok v w] vmas_okD(3) [OF ok w v] a calculation by auto
  ultimately show ?thesis using v w by simp
qed

lemma last_opt_filter_le:
  assumes "keys_sorted xs" "(k, v) \<in> set xs" "k \<le> a" "\<And>k' v'. (k', v') \<in> set xs \<Longrightarrow> k' \<le> a \<Longrightarrow> k' \<le> k"
  shows "last_opt (filter (\<lambda>(k, _). k \<le> a) xs) = Some (k, v)"
proof -
  let ?ys = "filter (\<lambda>(k, _). k \<le> a) xs"
  have s: "keys_sorted ?ys" by (rule keys_sorted_filter [OF assms(1)])
  have mem: "(k, v) \<in> set ?ys" using assms by auto
  then have ne: "?ys \<noteq> []" by (metis empty_iff empty_set)
  obtain k' v' where l: "last ?ys = (k', v')" by fastforce
  have in': "(k', v') \<in> set ?ys" using l last_in_set [OF ne] by simp
  then have "k' \<le> k" using assms(4) by auto
  moreover have "k \<le> k'"
  proof -
    obtain i where i: "i < length ?ys" "?ys ! i = (k, v)" using mem unfolding in_set_conv_nth by blast
    have "i \<le> length ?ys - 1" using i by simp
    then show ?thesis
      using sorted_wrt_nth_less [OF s, of i "length ?ys - 1"] i l ne
      by (cases "i = length ?ys - 1") (auto simp: last_conv_nth)
  qed
  ultimately have "k' = k" by simp
  moreover have "v' = v"
    using in' mem s calculation
    by (metis keys_sorted_distinct map_of_is_SomeI option.inject)
  ultimately show ?thesis using l ne by (simp add: last_opt_def)
qed

lemma vma_containing_Some:
  assumes ok: "vmas_ok vmas"
  shows "vma_containing vmas a = Some v \<longleftrightarrow>
    bt_get vmas (v_start v) = Some v \<and> v_start v \<le> a \<and> a < v_end v"
proof
  assume "vma_containing vmas a = Some v"
  then obtain k where l: "last_opt (filter (\<lambda>(k, _). k \<le> a) (bt_entries vmas)) = Some (k, v)"
    and c: "v_contains v a"
    by (auto simp: vma_containing_def split: option.splits if_splits)
  then have "(k, v) \<in> set (filter (\<lambda>(k, _). k \<le> a) (bt_entries vmas))"
    by (metis last_in_set last_opt_def option.distinct(1) option.inject)
  then have "(k, v) \<in> set (bt_entries vmas)" by simp
  then have "bt_get vmas k = Some v" by (simp add: bt_get_Some_iff_entries)
  then show "bt_get vmas (v_start v) = Some v \<and> v_start v \<le> a \<and> a < v_end v"
    using vmas_okD(1) [OF ok] c by (auto simp: v_contains_def)
next
  assume v: "bt_get vmas (v_start v) = Some v \<and> v_start v \<le> a \<and> a < v_end v"
  have "last_opt (filter (\<lambda>(k, _). k \<le> a) (bt_entries vmas)) = Some (v_start v, v)"
  proof (rule last_opt_filter_le)
    fix k' v' assume "(k', v') \<in> set (bt_entries vmas)" "k' \<le> a"
    then show "k' \<le> v_start v"
      using v vmas_okD(3) [OF ok, of "v_start v" v k' v'] by (force simp: bt_get_Some_iff_entries)
  qed (use v in \<open>auto simp: bt_get_Some_iff_entries\<close>)
  then show "vma_containing vmas a = Some v"
    using v by (simp add: vma_containing_def v_contains_def)
qed

lemma vma_containing_None:
  assumes ok: "vmas_ok vmas"
  shows "vma_containing vmas a = None \<longleftrightarrow>
    (\<forall>k v. bt_get vmas k = Some v \<longrightarrow> \<not> (v_start v \<le> a \<and> a < v_end v))"
proof -
  have "vma_containing vmas a \<noteq> None \<longleftrightarrow> (\<exists>v. vma_containing vmas a = Some v)" by simp
  also have "\<dots> \<longleftrightarrow> (\<exists>k v. bt_get vmas k = Some v \<and> v_start v \<le> a \<and> a < v_end v)"
    using vma_containing_Some [OF ok] vmas_okD(1) [OF ok] by metis
  finally show ?thesis by blast
qed

lemma locate_Some:
  assumes "vmas_ok vmas" "bt_get vmas k = Some v" "v_start v \<le> a" "a < v_end v"
  shows "locate vmas a = Some (place v a)"
  using vma_containing_Some [OF assms(1), of a v] vmas_okD(1) [OF assms(1,2)] assms
  by (simp add: locate_def)

lemma locate_None:
  assumes "vmas_ok vmas"
  shows "locate vmas a = None \<longleftrightarrow>
    (\<forall>k v. bt_get vmas k = Some v \<longrightarrow> \<not> (v_start v \<le> a \<and> a < v_end v))"
  using vma_containing_None [OF assms] by (simp add: locate_def)

lemma locate_SomeE:
  assumes "vmas_ok vmas" "locate vmas a = Some p"
  obtains v where "bt_get vmas (v_start v) = Some v" "v_start v \<le> a" "a < v_end v" "p = place v a"
    "vma_containing vmas a = Some v"
  using assms vma_containing_Some [OF assms(1)] by (auto simp: locate_def)

text \<open>Two area maps that cover every address by areas with the same placement locate alike.\<close>

lemma locate_eqI:
  assumes ok: "vmas_ok vmas" and ok': "vmas_ok vmas'"
    and fwd: "\<And>k v a. bt_get vmas k = Some v \<Longrightarrow> v_start v \<le> a \<Longrightarrow> a < v_end v \<Longrightarrow>
      \<exists>k' v'. bt_get vmas' k' = Some v' \<and> v_start v' \<le> a \<and> a < v_end v' \<and> place v' a = place v a"
    and bwd: "\<And>k v a. bt_get vmas' k = Some v \<Longrightarrow> v_start v \<le> a \<Longrightarrow> a < v_end v \<Longrightarrow>
      \<exists>k' v'. bt_get vmas k' = Some v' \<and> v_start v' \<le> a \<and> a < v_end v'"
  shows "locate vmas = locate vmas'"
proof
  fix a
  show "locate vmas a = locate vmas' a"
  proof (cases "locate vmas a")
    case None
    then have "locate vmas' a = None" using bwd unfolding locate_None [OF ok] locate_None [OF ok'] by blast
    with None show ?thesis by simp
  next
    case (Some p)
    then obtain v where v: "bt_get vmas (v_start v) = Some v" "v_start v \<le> a" "a < v_end v" "p = place v a"
      using locate_SomeE [OF ok] by metis
    obtain k' v' where "bt_get vmas' k' = Some v'" "v_start v' \<le> a" "a < v_end v'" "place v' a = place v a"
      using fwd [OF v(1-3)] by blast
    then show ?thesis using locate_Some [OF ok'] v Some by simp
  qed
qed

section \<open>Splitting, inserting and removing areas\<close>

definition boundary :: "nat \<Rightarrow> vma_map \<Rightarrow> bool" where
  "boundary a vmas \<longleftrightarrow> (\<forall>k v. bt_get vmas k = Some v \<longrightarrow> v_end v \<le> a \<or> a \<le> v_start v)"

lemma split_cases:
  assumes ok: "vmas_ok vmas"
  obtains (same) "split_vma_at a vmas = vmas" "boundary a vmas"
  | (split) v where "bt_get vmas (v_start v) = Some v" "v_start v < a" "a < v_end v"
      "\<And>k. bt_get (split_vma_at a vmas) k =
        (if k = a then Some (split_right a v) else if k = v_start v then Some (split_left a v)
         else bt_get vmas k)"
proof (cases "vma_containing vmas a")
  case None
  then have "boundary a vmas"
    using vma_containing_None [OF ok, of a] by (force simp: boundary_def)
  with None show thesis by (intro same) (simp_all add: split_vma_at_def)
next
  case (Some v)
  then have v: "bt_get vmas (v_start v) = Some v" "v_start v \<le> a" "a < v_end v"
    using vma_containing_Some [OF ok] by auto
  show thesis
  proof (cases "a = v_start v")
    case True
    have "boundary a vmas"
      unfolding boundary_def
    proof (intro allI impI)
      fix k w assume w: "bt_get vmas k = Some w"
      show "v_end w \<le> a \<or> a \<le> v_start w"
        using vma_overlap_unique [OF ok v(1) w v(2,3)] True by (cases "v_start w \<le> a \<and> a < v_end w") auto
    qed
    then show thesis using True Some by (intro same) (simp_all add: split_vma_at_def)
  next
    case False
    then show thesis
      using v Some by (intro split [of v]) (auto simp: split_vma_at_def bt_get_simps)
  qed
qed

lemma vmas_ok_split:
  assumes ok: "vmas_ok vmas"
  shows "vmas_ok (split_vma_at a vmas)"
  using ok
proof (cases rule: split_cases [of vmas a])
  case (split v)
  have lo: "v_end w \<le> v_start v" if "bt_get vmas k = Some w" "k < v_start v" for k w
    using vmas_okD(3) [OF ok that(1) split(1)] that(2) by simp
  have hi: "v_end v \<le> k" if "bt_get vmas k = Some w" "v_start v < k" for k w
    using vmas_okD(3) [OF ok split(1) that(1)] that(2) by simp
  have no: "bt_get vmas a = None"
    using hi [of a] split(2,3) by (cases "bt_get vmas a") auto
  show ?thesis
    unfolding vmas_ok_def
  proof (intro conjI allI impI)
    fix k w assume "bt_get (split_vma_at a vmas) k = Some w"
    then show "v_start w = k" "k < v_end w"
      using vmas_okD(1,2) [OF ok, of k w] split(2,3)
      by (auto simp: split(4) split_left_def split_right_def split: if_splits)
  next
    fix k w k' w'
    assume w: "bt_get (split_vma_at a vmas) k = Some w" "bt_get (split_vma_at a vmas) k' = Some w'" "k < k'"
    show "v_end w \<le> k'"
      using w lo [of k w] hi [of k w] hi [of k' w'] vmas_okD(3) [OF ok, of k w k' w'] split(2,3)
      by (cases k "v_start v" rule: linorder_cases)
        (auto simp: split(4) split_left_def split_right_def split: if_splits)
  qed
qed (simp add: ok)

lemma locate_split [simp]:
  assumes ok: "vmas_ok vmas"
  shows "locate (split_vma_at a vmas) = locate vmas"
  using ok
proof (cases rule: split_cases [of vmas a])
  case (split v)
  show ?thesis
  proof (rule locate_eqI [OF ok vmas_ok_split [OF ok], symmetric])
    fix k w x assume w: "bt_get vmas k = Some w" "v_start w \<le> x" "x < v_end w"
    show "\<exists>k' v'. bt_get (split_vma_at a vmas) k' = Some v' \<and> v_start v' \<le> x \<and> x < v_end v' \<and> place v' x = place w x"
    proof (cases "k = v_start v")
      case True
      then have [simp]: "w = v" using w split(1) by simp
      show ?thesis
      proof (cases "x < a")
        case True
        then show ?thesis
          using w split(2,3) by (intro exI [of _ "v_start v"] exI [of _ "split_left a v"])
            (simp add: split(4) split_left_def place_def)
      next
        case False
        then show ?thesis
          using w split(2,3) by (intro exI [of _ a] exI [of _ "split_right a v"])
            (simp add: split(4) split_right_def place_def)
      qed
    next
      case False
      have "k \<noteq> a"
        using vmas_okD(3) [OF ok split(1) w(1)] split(2,3) by auto
      then show ?thesis using w False by (intro exI [of _ k] exI [of _ w]) (simp add: split(4))
    qed
  next
    fix k w x assume w: "bt_get (split_vma_at a vmas) k = Some w" "v_start w \<le> x" "x < v_end w"
    show "\<exists>k' v'. bt_get vmas k' = Some v' \<and> v_start v' \<le> x \<and> x < v_end v'"
    proof (cases "k = a \<or> k = v_start v")
      case True
      then show ?thesis
        using w split(1-3) by (intro exI [of _ "v_start v"] exI [of _ v])
          (auto simp: split(4) split_left_def split_right_def split: if_splits)
    next
      case False
      then show ?thesis using w by (auto simp: split(4))
    qed
  qed
qed simp

lemma boundary_split:
  assumes ok: "vmas_ok vmas"
  shows "boundary a (split_vma_at a vmas)"
    and "boundary b vmas \<Longrightarrow> boundary b (split_vma_at a vmas)"
proof -
  have "boundary a (split_vma_at a vmas) \<and> (boundary b vmas \<longrightarrow> boundary b (split_vma_at a vmas))"
    using ok
  proof (cases rule: split_cases [of vmas a])
    case (split v)
    have hi: "v_end v \<le> k" if "bt_get vmas k = Some w" "v_start v < k" for k w
      using vmas_okD(3) [OF ok split(1) that(1)] that(2) by simp
    have "boundary a (split_vma_at a vmas)"
      unfolding boundary_def
    proof (intro allI impI)
      fix k w assume "bt_get (split_vma_at a vmas) k = Some w"
      then show "v_end w \<le> a \<or> a \<le> v_start w"
        using vma_overlap_unique [OF ok split(1), of k w a] split(2,3)
        by (cases "v_start w \<le> a \<and> a < v_end w")
          (auto simp: split(4) split_left_def split_right_def split: if_splits)
    qed
    moreover have "boundary b (split_vma_at a vmas)" if "boundary b vmas"
      using that split(1-3)
      by (fastforce simp: boundary_def split(4) split_left_def split_right_def split: if_splits)
    ultimately show ?thesis by blast
  qed simp
  then show "boundary a (split_vma_at a vmas)" "boundary b vmas \<Longrightarrow> boundary b (split_vma_at a vmas)"
    by blast+
qed

lemma overlaps_iff_get: "overlaps vmas s e \<longleftrightarrow> (\<exists>k v. bt_get vmas k = Some v \<and> v_start v < e \<and> s < v_end v)"
  by (auto simp: overlaps_def set_bt_values ran_def)

lemma overlaps_iff:
  assumes ok: "vmas_ok vmas" and "s < e"
  shows "overlaps vmas s e \<longleftrightarrow> (\<exists>a. s \<le> a \<and> a < e \<and> locate vmas a \<noteq> None)"
proof
  assume "overlaps vmas s e"
  then obtain k v where v: "bt_get vmas k = Some v" "v_start v < e" "s < v_end v"
    by (auto simp: overlaps_iff_get)
  then have "locate vmas (max s (v_start v)) = Some (place v (max s (v_start v)))"
    using vmas_okD(1,2) [OF ok v(1)] by (intro locate_Some [OF ok v(1)]) auto
  then show "\<exists>a. s \<le> a \<and> a < e \<and> locate vmas a \<noteq> None"
    using v assms by (intro exI [of _ "max s (v_start v)"]) auto
next
  assume "\<exists>a. s \<le> a \<and> a < e \<and> locate vmas a \<noteq> None"
  then obtain a v where "s \<le> a" "a < e" "bt_get vmas (v_start v) = Some v" "v_start v \<le> a" "a < v_end v"
    using locate_SomeE [OF ok] by (metis option.exhaust)
  then show "overlaps vmas s e"
    by (auto simp: overlaps_iff_get intro!: exI [of _ "v_start v"] exI [of _ v])
qed

lemma vmas_ok_empty [simp]: "vmas_ok bt_empty"
  by (simp add: vmas_ok_def)

lemma locate_empty [simp]: "locate bt_empty a = None"
  by (simp add: locate_None)

lemma vmas_ok_insert:
  assumes ok: "vmas_ok vmas" and v: "v_start v < v_end v" "\<not> overlaps vmas (v_start v) (v_end v)"
  shows "vmas_ok (bt_insert (v_start v) v vmas)"
proof -
  have sep: "v_end w \<le> v_start v \<or> v_end v \<le> k" if "bt_get vmas k = Some w" for k w
    using that v vmas_okD(1) [OF ok that] by (auto simp: overlaps_iff_get not_less)
  show ?thesis
    unfolding vmas_ok_def
  proof (intro conjI allI impI)
    fix k w assume "bt_get (bt_insert (v_start v) v vmas) k = Some w"
    then show "v_start w = k" "k < v_end w"
      using vmas_okD(1,2) [OF ok] v(1) by (auto simp: bt_get_insert split: if_splits)
  next
    fix k w k' w'
    assume "bt_get (bt_insert (v_start v) v vmas) k = Some w"
      "bt_get (bt_insert (v_start v) v vmas) k' = Some w'" "k < k'"
    then show "v_end w \<le> k'"
      using sep [of k w] sep [of k' w'] vmas_okD(2) [OF ok, of k w] vmas_okD(2) [OF ok, of k' w']
        vmas_okD(3) [OF ok, of k w k' w'] v(1)
      by (auto simp: bt_get_insert split: if_splits)
  qed
qed

lemma locate_insert:
  assumes ok: "vmas_ok vmas" and v: "v_start v < v_end v" "\<not> overlaps vmas (v_start v) (v_end v)"
  shows "locate (bt_insert (v_start v) v vmas) a =
    (if v_start v \<le> a \<and> a < v_end v then Some (place v a) else locate vmas a)"
proof -
  note ok' = vmas_ok_insert [OF ok v]
  show ?thesis
  proof (cases "v_start v \<le> a \<and> a < v_end v")
    case True
    then show ?thesis using locate_Some [OF ok', of "v_start v" v a] by (simp add: bt_get_insert)
  next
    case False
    have "locate (bt_insert (v_start v) v vmas) a = locate vmas a"
    proof (cases "locate vmas a")
      case None
      then have "locate (bt_insert (v_start v) v vmas) a = None"
        using False unfolding locate_None [OF ok] locate_None [OF ok']
        by (auto simp: bt_get_insert split: if_splits)
      with None show ?thesis by simp
    next
      case (Some p)
      then obtain w where w: "bt_get vmas (v_start w) = Some w" "v_start w \<le> a" "a < v_end w" "p = place w a"
        using locate_SomeE [OF ok] by metis
      have "v_start w \<noteq> v_start v"
      proof
        assume "v_start w = v_start v"
        then have "overlaps vmas (v_start v) (v_end v)"
          unfolding overlaps_iff_get using w v(1) by (intro exI [of _ "v_start w"] exI [of _ w]) auto
        with v(2) show False by simp
      qed
      then show ?thesis
        using locate_Some [OF ok', of "v_start w" w a] w Some by (simp add: bt_get_insert)
    qed
    with False show ?thesis by auto
  qed
qed

text \<open>Removing areas leaves the others where they were.\<close>

lemma bt_get_fold_remove:
  "bt_get (fold bt_remove ks m) k = (if k \<in> set ks then None else bt_get m k)"
  by (induction ks arbitrary: m) (auto simp: bt_get_remove)

lemma vmas_ok_fold_remove: "vmas_ok vmas \<Longrightarrow> vmas_ok (fold bt_remove ks vmas)"
  by (auto simp: vmas_ok_def bt_get_fold_remove split: if_splits)

lemma locate_fold_remove:
  assumes ok: "vmas_ok vmas"
  shows "locate (fold bt_remove ks vmas) a =
    (case vma_containing vmas a of
       Some v \<Rightarrow> if v_start v \<in> set ks then None else Some (place v a) | None \<Rightarrow> None)"
proof -
  note ok' = vmas_ok_fold_remove [OF ok, of ks]
  show ?thesis
  proof (cases "vma_containing vmas a")
    case None
    then have "locate (fold bt_remove ks vmas) a = None"
      using vma_containing_None [OF ok, of a] locate_None [OF ok', of a]
      by (auto simp: bt_get_fold_remove split: if_splits)
    with None show ?thesis by simp
  next
    case (Some v)
    then have v: "bt_get vmas (v_start v) = Some v" "v_start v \<le> a" "a < v_end v"
      using vma_containing_Some [OF ok] by auto
    show ?thesis
    proof (cases "v_start v \<in> set ks")
      case True
      have "locate (fold bt_remove ks vmas) a = None"
        unfolding locate_None [OF ok'] bt_get_fold_remove
        using vma_overlap_unique [OF ok v(1)] v True by (metis option.distinct(1))
      with True Some show ?thesis by simp
    next
      case False
      then show ?thesis
        using locate_Some [OF ok', of "v_start v" v a] v Some by (simp add: bt_get_fold_remove)
    qed
  qed
qed

lemma set_range_keys: "set (range_keys a b m) = {k. a \<le> k \<and> k < b \<and> bt_get m k \<noteq> None}"
  by (auto simp: range_keys_def set_bt_keys)

lemma vmas_ok_unmap: "vmas_ok vmas \<Longrightarrow> vmas_ok (unmap_vmas s e vmas)"
  by (simp add: unmap_vmas_def Let_def vmas_ok_fold_remove vmas_ok_split)

text \<open>Unmapping a range forgets exactly the addresses of the range.\<close>

lemma locate_unmap:
  assumes ok: "vmas_ok vmas" and "s \<le> e"
  shows "locate (unmap_vmas s e vmas) a = (if s \<le> a \<and> a < e then None else locate vmas a)"
proof -
  let ?m = "split_vma_at e (split_vma_at s vmas)"
  have okm: "vmas_ok ?m" using ok by (simp add: vmas_ok_split)
  have bd: "boundary s ?m" "boundary e ?m"
    using boundary_split vmas_ok_split ok by auto
  have eq: "locate ?m a = locate vmas a" using ok vmas_ok_split by simp
  show ?thesis
  proof (cases "vma_containing ?m a")
    case None
    moreover from None have "locate vmas a = None" using eq by (simp add: locate_def)
    ultimately show ?thesis by (simp add: unmap_vmas_def Let_def locate_fold_remove [OF okm])
  next
    case (Some v)
    then have v: "bt_get ?m (v_start v) = Some v" "v_start v \<le> a" "a < v_end v"
      using vma_containing_Some [OF okm] by auto
    have "v_start v \<in> set (range_keys s e ?m) \<longleftrightarrow> s \<le> a \<and> a < e"
      using bd v assms(2) by (fastforce simp: set_range_keys boundary_def)
    moreover have "locate vmas a = Some (place v a)" using eq Some by (simp add: locate_def)
    ultimately show ?thesis
      using Some by (simp add: unmap_vmas_def Let_def locate_fold_remove [OF okm])
  qed
qed

section \<open>Searches over the area list\<close>

lemma sorted_bt_values:
  assumes ok: "vmas_ok vmas"
  shows "sorted_wrt (\<lambda>v w. v_end v \<le> v_start w) (bt_values vmas)"
proof -
  have "sorted_wrt (\<lambda>x y. fst x < fst y) (bt_entries vmas)"
    using keys_sorted_bt_entries [of vmas] by (simp add: sorted_wrt_map)
  then have "sorted_wrt (\<lambda>x y. v_end (snd x) \<le> v_start (snd y)) (bt_entries vmas)"
  proof (rule sorted_wrt_mono_rel [rotated])
    fix x y assume xy: "x \<in> set (bt_entries vmas)" "y \<in> set (bt_entries vmas)" "fst x < fst y"
    then have "bt_get vmas (fst x) = Some (snd x)" "bt_get vmas (fst y) = Some (snd y)"
      by (simp_all add: bt_get_Some_iff_entries)
    then show "v_end (snd x) \<le> v_start (snd y)"
      using vmas_okD(1) [OF ok] vmas_okD(3) [OF ok] xy(3) by metis
  qed
  then show ?thesis by (simp add: bt_values_def sorted_wrt_map)
qed

lemma bt_values_get:
  assumes ok: "vmas_ok vmas"
  shows "v \<in> set (bt_values vmas) \<longleftrightarrow> bt_get vmas (v_start v) = Some v"
  using vmas_okD(1) [OF ok] by (auto simp: set_bt_values ran_def)

lemma range_mapped_loop_iff:
  assumes "sorted_wrt (\<lambda>v w. v_end v \<le> v_start w) vs" "\<forall>v \<in> set vs. v_start v < v_end v \<and> cursor < v_end v"
    "cursor < e"
  shows "range_mapped_loop vs cursor e \<longleftrightarrow>
    (\<forall>a. cursor \<le> a \<and> a < e \<longrightarrow> (\<exists>v \<in> set vs. v_start v \<le> a \<and> a < v_end v))"
  using assms
proof (induction vs arbitrary: cursor)
  case Nil
  then show ?case by auto
next
  case (Cons v vs)
  show ?case
  proof (cases "cursor < v_start v")
    case True
    then have "\<not> (\<exists>w \<in> set (v # vs). v_start w \<le> cursor \<and> cursor < v_end w)"
      using Cons.prems by fastforce
    then show ?thesis using True Cons.prems(3) by auto
  next
    case False
    show ?thesis
    proof (cases "e \<le> v_end v")
      case True
      then show ?thesis using False Cons.prems by (auto simp: Let_def intro!: bexI [of _ v])
    next
      case below: False
      have "range_mapped_loop (v # vs) cursor e \<longleftrightarrow> range_mapped_loop vs (v_end v) e"
        using False below Cons.prems(2) by (simp add: Let_def)
      also have "\<dots> \<longleftrightarrow> (\<forall>a. v_end v \<le> a \<and> a < e \<longrightarrow> (\<exists>w \<in> set vs. v_start w \<le> a \<and> a < v_end w))"
        using Cons.prems below by (intro Cons.IH) (auto intro: le_less_trans)
      also have "\<dots> \<longleftrightarrow> (\<forall>a. cursor \<le> a \<and> a < e \<longrightarrow> (\<exists>w \<in> set (v # vs). v_start w \<le> a \<and> a < v_end w))"
      proof -
        have "(\<exists>w \<in> set (v # vs). v_start w \<le> a \<and> a < v_end w) \<longleftrightarrow>
            a < v_end v \<or> (\<exists>w \<in> set vs. v_start w \<le> a \<and> a < v_end w)" if "cursor \<le> a" for a
          using that False by auto
        moreover have "cursor \<le> v_end v" using Cons.prems(2) by simp
        ultimately show ?thesis by (auto simp: not_less) (meson le_trans not_le)+
      qed
      finally show ?thesis .
    qed
  qed
qed

text \<open>\<open>is_range_mapped\<close> tests that every address of the range is mapped.\<close>

lemma is_range_mapped_iff:
  assumes ok: "vmas_ok vmas" and "s < e"
  shows "is_range_mapped vmas s e \<longleftrightarrow> (\<forall>a. s \<le> a \<and> a < e \<longrightarrow> locate vmas a \<noteq> None)"
proof -
  let ?vs = "filter (\<lambda>v. s < v_end v) (bt_values vmas)"
  have "is_range_mapped vmas s e \<longleftrightarrow>
      (\<forall>a. s \<le> a \<and> a < e \<longrightarrow> (\<exists>v \<in> set ?vs. v_start v \<le> a \<and> a < v_end v))"
    unfolding is_range_mapped_def
    using sorted_bt_values [OF ok] vmas_okD(1,2) [OF ok] assms(2)
    by (intro range_mapped_loop_iff) (auto simp: sorted_wrt_filter set_bt_values ran_def)
  also have "\<dots> \<longleftrightarrow> (\<forall>a. s \<le> a \<and> a < e \<longrightarrow> locate vmas a \<noteq> None)"
  proof -
    have "(\<exists>v \<in> set ?vs. v_start v \<le> a \<and> a < v_end v) \<longleftrightarrow> locate vmas a \<noteq> None" if "s \<le> a" for a
      using that locate_None [OF ok, of a] by (auto simp: set_bt_values ran_def)
    then show ?thesis by blast
  qed
  finally show ?thesis .
qed

definition aligned_vmas :: "vma_map \<Rightarrow> nat \<Rightarrow> bool" where
  "aligned_vmas vmas space_end \<longleftrightarrow> (\<forall>k v. bt_get vmas k = Some v \<longrightarrow>
     MIN_GUEST_ADDRESS \<le> v_start v \<and> is_page_aligned (v_start v) \<and> is_page_aligned (v_end v)
     \<and> v_end v \<le> space_end)"

definition free_range :: "mem_vma list \<Rightarrow> nat \<Rightarrow> nat \<Rightarrow> bool" where
  "free_range vs c len \<longleftrightarrow> (\<forall>v \<in> set vs. v_end v \<le> c \<or> c + len \<le> v_start v)"

lemma align_up_aligned:
  "is_page_aligned v \<Longrightarrow> v + 4095 < 2 ^ 64 \<Longrightarrow> align_up v = Ok v"
  unfolding align_up_def align_up_to_def nat_checked_add_def align_down_to_def is_page_aligned_def GUEST_PAGE_SIZE_def
  by (auto simp: ok_or_def)

lemma align_up_Ok:
  assumes "align_up v = Ok w"
  shows "is_page_aligned w" "v \<le> w" "w < v + 4096" "w < 2 ^ 64"
    "is_page_aligned x \<Longrightarrow> v \<le> x \<Longrightarrow> w \<le> x"
proof -
  have w: "w = (v + 4095) div 4096 * 4096" and lt: "v + 4095 < 2 ^ 64"
    using assms
    by (auto simp: align_up_def align_up_to_def nat_checked_add_def align_down_to_def GUEST_PAGE_SIZE_def
        result_simps split: if_splits)
  show "is_page_aligned w" by (simp add: w is_page_aligned_def GUEST_PAGE_SIZE_def)
  have m: "w + (v + 4095) mod 4096 = v + 4095" "(v + 4095) mod 4096 < 4096"
    unfolding w by (rule div_mult_mod_eq, simp)
  then show "v \<le> w" "w < v + 4096" by linarith+
  show "w < 2 ^ 64" using w lt by (metis div_times_less_eq_dividend le_less_trans)
  show "w \<le> x" if "is_page_aligned x" "v \<le> x"
  proof -
    have "4096 dvd x" using that(1) by (simp add: is_page_aligned_def GUEST_PAGE_SIZE_def mod_eq_0_iff_dvd)
    then obtain q where x: "x = 4096 * q" by (rule dvdE)
    have "(v + 4095) div 4096 \<le> (4096 * q + 4095) div 4096" using that(2) x by (intro div_le_mono) simp
    then show ?thesis by (simp add: w x)
  qed
qed

lemma checked_mapping_end_Ok:
  "checked_mapping_end c len space_end = Ok e \<longleftrightarrow>
     MIN_GUEST_ADDRESS \<le> c \<and> is_page_aligned c \<and> e = c + len \<and> c + len < 2 ^ 64 \<and> c + len \<le> space_end"
  by (auto simp: checked_mapping_end_def checked_raw_range_def nat_checked_add_def ok_or_def result_simps
      split: if_splits)

lemma find_free_loop_Ok:
  assumes "sorted_wrt (\<lambda>v w. v_end v \<le> v_start w) vs" "\<forall>v \<in> set vs. v_start v < v_end v"
    "find_free_loop vs len space_end c = Ok r"
  shows "c \<le> r \<and> MIN_GUEST_ADDRESS \<le> r \<and> is_page_aligned r \<and> r + len < 2 ^ 64 \<and> r + len \<le> space_end
    \<and> free_range vs r len"
  using assms
proof (induction vs arbitrary: c)
  case Nil
  then show ?case by (auto simp: result_simps checked_mapping_end_Ok free_range_def)
next
  case (Cons v vs)
  have ok: "checked_mapping_end c len space_end = Ok (c + len)"
    using Cons.prems(3) by (auto simp: result_simps checked_mapping_end_Ok)
  consider (before) "c + len \<le> v_start v" "r = c"
    | (inside) w where "v_start v < c + len" "c < v_end v" "align_up (v_end v) = Ok w"
        "find_free_loop vs len space_end w = Ok r"
    | (after) "v_end v \<le> c" "find_free_loop vs len space_end c = Ok r"
    using Cons.prems(3) ok by (force simp: result_simps split: if_splits)
  then show ?case
  proof cases
    case before
    have "c + len \<le> v_start w" if "w \<in> set vs" for w
      using that Cons.prems(1,2) before by fastforce
    with before ok show ?thesis by (auto simp: checked_mapping_end_Ok free_range_def)
  next
    case inside
    then show ?thesis
      using Cons.IH [of w] Cons.prems align_up_Ok(2) [OF inside(3)] by (auto simp: free_range_def)
  next
    case after
    then show ?thesis using Cons.IH [of c] Cons.prems by (auto simp: free_range_def)
  qed
qed

lemma find_free_loop_complete:
  assumes "sorted_wrt (\<lambda>v w. v_end v \<le> v_start w) vs"
    "\<forall>v \<in> set vs. v_start v < v_end v \<and> is_page_aligned (v_end v) \<and> v_end v \<le> space_end"
    "space_end + 4095 < 2 ^ 64" "0 < len" "c \<le> r" "MIN_GUEST_ADDRESS \<le> c" "is_page_aligned c"
    "is_page_aligned r" "r + len \<le> space_end" "free_range vs r len"
  shows "\<exists>r' \<le> r. find_free_loop vs len space_end c = Ok r'"
  using assms
proof (induction vs arbitrary: c)
  case Nil
  then have "checked_mapping_end c len space_end = Ok (c + len)" by (simp add: checked_mapping_end_Ok)
  then show ?case using Nil by auto
next
  case (Cons v vs)
  have ok: "checked_mapping_end c len space_end = Ok (c + len)"
    using Cons.prems by (simp add: checked_mapping_end_Ok)
  consider (before) "c + len \<le> v_start v" | (inside) "v_start v < c + len" "c < v_end v"
    | (after) "v_start v < c + len" "v_end v \<le> c" by linarith
  then show ?case
  proof cases
    case before
    with ok Cons.prems show ?thesis by auto
  next
    case inside
    then have up: "align_up (v_end v) = Ok (v_end v)"
      using Cons.prems by (intro align_up_aligned) auto
    have "v_end v \<le> r"
      using Cons.prems(5,10) inside by (auto simp: free_range_def)
    then have "\<exists>r' \<le> r. find_free_loop vs len space_end (v_end v) = Ok r'"
      using Cons.prems inside by (intro Cons.IH) (auto simp: free_range_def)
    with ok up inside show ?thesis by simp
  next
    case after
    have "\<exists>r' \<le> r. find_free_loop vs len space_end c = Ok r'"
      using Cons.prems by (intro Cons.IH) (auto simp: free_range_def)
    with ok after show ?thesis by simp
  qed
qed

section \<open>Coalescing\<close>

definition ends_by :: "nat \<Rightarrow> vma_map \<Rightarrow> bool" where
  "ends_by b m \<longleftrightarrow> (\<forall>k v. bt_get m k = Some v \<longrightarrow> v_end v \<le> b)"

lemma last_entry:
  assumes "last_opt (bt_entries m) = Some (k, v)"
  shows "bt_get m k = Some v" "bt_get m k' = Some w \<Longrightarrow> k' \<le> k"
proof -
  have ne: "bt_entries m \<noteq> []" and l: "last (bt_entries m) = (k, v)"
    using assms by (auto simp: last_opt_def split: if_splits)
  then show "bt_get m k = Some v"
    by (metis bt_get_Some_iff_entries last_in_set)
  assume "bt_get m k' = Some w"
  then obtain i where i: "i < length (bt_entries m)" "bt_entries m ! i = (k', w)"
    by (auto simp: bt_get_Some_iff_entries in_set_conv_nth)
  then show "k' \<le> k"
    using sorted_wrt_nth_less [OF keys_sorted_bt_entries [of m], of i "length (bt_entries m) - 1"] l ne
    by (cases "i < length (bt_entries m) - 1") (auto simp: last_conv_nth not_less dest: le_antisym)
qed

lemma coalesce_step:
  assumes ok: "vmas_ok m" and ends: "ends_by (v_start v) m" and v: "v_start v < v_end v"
  shows "vmas_ok (coalesce_step v m) \<and> ends_by (v_end v) (coalesce_step v m)
    \<and> locate (coalesce_step v m) = locate (bt_insert (v_start v) v m)"
proof -
  have no: "\<not> overlaps m (v_start v) (v_end v)"
    using ends by (auto simp: overlaps_iff_get ends_by_def not_less)
  have plain: "vmas_ok (bt_insert (v_start v) v m)" "ends_by (v_end v) (bt_insert (v_start v) v m)"
    using vmas_ok_insert [OF ok v no] ends v
    by (auto simp: ends_by_def bt_get_insert) (meson le_trans less_imp_le)
  consider (merge) k w where "last_opt (bt_entries m) = Some (k, w)" "can_merge w v"
      "coalesce_step v m = bt_insert k (w\<lparr>v_end := v_end v\<rparr>) m"
    | (insert) "coalesce_step v m = bt_insert (v_start v) v m"
  proof (cases "last_opt (bt_entries m)")
    case None
    then show ?thesis by (intro that(2)) (simp add: coalesce_step_def)
  next
    case (Some e)
    then show ?thesis
      by (cases e; cases "can_merge (snd e) v") (auto simp: coalesce_step_def intro: that)
  qed
  then show ?thesis
  proof cases
    case merge
    let ?w = "w\<lparr>v_end := v_end v\<rparr>"
    have w: "bt_get m k = Some w" by (rule last_entry(1) [OF merge(1)])
    have k: "v_start w = k" "k < v_end w" "v_end w = v_start v"
      using vmas_okD [OF ok w] merge(2) by (auto simp: can_merge_def)
    have get: "bt_get (coalesce_step v m) k' = (if k' = k then Some ?w else bt_get m k')" for k'
      by (simp add: merge(3) bt_get_insert)
    have below: "v_end x \<le> k" if "bt_get m k' = Some x" "k' \<noteq> k" for k' x
      using vmas_okD(3) [OF ok that(1) w] last_entry(2) [OF merge(1) that(1)] that(2) by simp
    have ok': "vmas_ok (coalesce_step v m)"
      unfolding vmas_ok_def get
      using vmas_okD [OF ok] k v below last_entry(2) [OF merge(1)]
      by (auto split: if_splits) (metis leD)+
    moreover have "ends_by (v_end v) (coalesce_step v m)"
      using ends v by (auto simp: ends_by_def get split: if_splits) (metis le_less_trans less_imp_le)
    moreover have "locate (coalesce_step v m) = locate (bt_insert (v_start v) v m)"
    proof (rule locate_eqI [OF ok' plain(1)])
      fix k' x a assume x: "bt_get (coalesce_step v m) k' = Some x" "v_start x \<le> a" "a < v_end x"
      show "\<exists>k'' v'. bt_get (bt_insert (v_start v) v m) k'' = Some v' \<and> v_start v' \<le> a \<and> a < v_end v'
          \<and> place v' a = place x a"
      proof (cases "k' = k \<and> v_start v \<le> a")
        case True
        then show ?thesis
          using x merge(2) k by (intro exI [of _ "v_start v"] exI [of _ v])
            (auto simp: get bt_get_insert place_def can_merge_def v_len_def)
      next
        case False
        have "k' \<noteq> v_start v"
          using x(1) last_entry(2) [OF merge(1), of k' x] k by (auto simp: get split: if_splits)
        then show ?thesis
          using False x w k by (intro exI [of _ k'] exI [of _ "if k' = k then w else x"])
            (auto simp: get bt_get_insert place_def split: if_splits)
      qed
    next
      fix k' x a assume x: "bt_get (bt_insert (v_start v) v m) k' = Some x" "v_start x \<le> a" "a < v_end x"
      show "\<exists>k'' v'. bt_get (coalesce_step v m) k'' = Some v' \<and> v_start v' \<le> a \<and> a < v_end v'"
      proof (cases "k' = v_start v \<or> k' = k")
        case True
        then show ?thesis
          using x k v w by (intro exI [of _ k] exI [of _ ?w]) (auto simp: get bt_get_insert split: if_splits)
      next
        case False
        then show ?thesis using x by (intro exI [of _ k'] exI [of _ x]) (auto simp: get bt_get_insert)
      qed
    qed
    ultimately show ?thesis by blast
  next
    case insert
    with plain show ?thesis by simp
  qed
qed

lemma fold_coalesce:
  assumes "sorted_wrt (\<lambda>v w. v_end v \<le> v_start w) vs" "\<forall>v \<in> set vs. v_start v < v_end v"
    "vmas_ok m" "vmas_ok n" "locate m = locate n" "\<forall>v \<in> set vs. ends_by (v_start v) m \<and> ends_by (v_start v) n"
  shows "vmas_ok (fold coalesce_step vs m)
    \<and> locate (fold coalesce_step vs m) = locate (fold (\<lambda>v. bt_insert (v_start v) v) vs n)"
  using assms
proof (induction vs arbitrary: m n)
  case Nil
  then show ?case by simp
next
  case (Cons v vs)
  have v: "v_start v < v_end v" "ends_by (v_start v) m" "ends_by (v_start v) n"
    using Cons.prems by auto
  have no: "\<not> overlaps m (v_start v) (v_end v)" "\<not> overlaps n (v_start v) (v_end v)"
    using v by (auto simp: overlaps_iff_get ends_by_def not_less)
  note step = coalesce_step [OF Cons.prems(3) v(2,1)]
  have n': "vmas_ok (bt_insert (v_start v) v n)" by (rule vmas_ok_insert [OF Cons.prems(4) v(1) no(2)])
  have "locate (bt_insert (v_start v) v m) = locate (bt_insert (v_start v) v n)"
    using locate_insert [OF Cons.prems(3) v(1) no(1)] locate_insert [OF Cons.prems(4) v(1) no(2)]
      Cons.prems(5) by (simp add: fun_eq_iff)
  moreover have "ends_by (v_start w) (coalesce_step v m) \<and> ends_by (v_start w) (bt_insert (v_start v) v n)"
    if "w \<in> set vs" for w
  proof -
    have le: "v_end v \<le> v_start w" using that Cons.prems(1) by simp
    have "ends_by (v_start w) (coalesce_step v m)"
      using step le unfolding ends_by_def by (meson le_trans)
    moreover have "ends_by (v_start w) (bt_insert (v_start v) v n)"
      using Cons.prems(6) that le by (auto simp: ends_by_def bt_get_insert split: if_splits)
    ultimately show ?thesis by blast
  qed
  ultimately show ?case
    using Cons.prems(1,2) step n' Cons.IH [of "coalesce_step v m" "bt_insert (v_start v) v n"] by simp
qed

lemma bt_get_fold_insert:
  "sorted_wrt (\<lambda>v w. v_start v \<noteq> v_start w) vs \<Longrightarrow>
   bt_get (fold (\<lambda>v. bt_insert (v_start v) v) vs m) k =
     (case List.find (\<lambda>v. v_start v = k) vs of Some v \<Rightarrow> Some v | None \<Rightarrow> bt_get m k)"
proof (induction vs arbitrary: m)
  case (Cons v vs)
  have "List.find (\<lambda>w. v_start w = k) vs = None" if "v_start v = k"
    using Cons.prems that by (auto simp: find_None_iff)
  then show ?case using Cons by (auto simp: bt_get_insert split: option.splits)
qed simp

lemma fold_insert_values:
  assumes ok: "vmas_ok vmas"
  shows "fold (\<lambda>v. bt_insert (v_start v) v) (bt_values vmas) bt_empty = vmas"
proof (rule bt_eqI)
  fix k
  have s: "sorted_wrt (\<lambda>v w. v_start v \<noteq> v_start w) (bt_values vmas)"
    using sorted_bt_values [OF ok]
  proof (rule sorted_wrt_mono_rel [rotated])
    fix v w assume "v \<in> set (bt_values vmas)" "v_end v \<le> v_start w"
    then show "v_start v \<noteq> v_start w" using vmas_okD(2) [OF ok, of "v_start v" v] by (auto simp: bt_values_get [OF ok])
  qed
  have "List.find (\<lambda>v. v_start v = k) (bt_values vmas) = bt_get vmas k"
  proof (cases "bt_get vmas k")
    case None
    then show ?thesis by (auto simp: find_None_iff bt_values_get [OF ok])
  next
    case (Some v)
    then have v: "v \<in> set (bt_values vmas)" "v_start v = k"
      using bt_values_get [OF ok] vmas_okD(1) [OF ok] by auto
    then obtain w where w: "List.find (\<lambda>v. v_start v = k) (bt_values vmas) = Some w"
      by (cases "List.find (\<lambda>v. v_start v = k) (bt_values vmas)") (auto simp: find_None_iff)
    then have "w \<in> set (bt_values vmas)" "v_start w = k"
      by (auto simp: find_Some_iff)
    then show ?thesis using w Some by (simp add: bt_values_get [OF ok])
  qed
  then show "bt_get (fold (\<lambda>v. bt_insert (v_start v) v) (bt_values vmas) bt_empty) k = bt_get vmas k"
    by (simp add: bt_get_fold_insert [OF s] split: option.splits)
qed

text \<open>Merging neighbouring areas does not change what any address means.\<close>

lemma coalesce_adjacent:
  assumes ok: "vmas_ok vmas"
  shows "vmas_ok (coalesce_adjacent vmas)" "locate (coalesce_adjacent vmas) = locate vmas"
proof -
  have "vmas_ok (fold coalesce_step (bt_values vmas) bt_empty)
    \<and> locate (fold coalesce_step (bt_values vmas) bt_empty)
      = locate (fold (\<lambda>v. bt_insert (v_start v) v) (bt_values vmas) bt_empty)"
    using sorted_bt_values [OF ok] vmas_okD(2) [OF ok]
    by (intro fold_coalesce) (auto simp: bt_values_get [OF ok] ends_by_def)
  then show "vmas_ok (coalesce_adjacent vmas)" "locate (coalesce_adjacent vmas) = locate vmas"
    by (simp_all add: coalesce_adjacent_def fold_insert_values [OF ok])
qed

end
