(* ===== verification/Mcr_State.thy ===== *)
theory Mcr_State
  imports Mcr_Prelude
begin

text \<open>
  Fallible transformers of a state and their postconditions.  The memory manager and the file system
  are written in them.
\<close>

section \<open>Fallible state transformers\<close>

text \<open>A method that takes \<open>&mut self\<close> and returns a \<open>Result\<close>: an error leaves the state as it was at
  the point of failure.\<close>

type_synonym ('s, 'a, 'e) st = "'s \<Rightarrow> ('a, 'e) result \<times> 's"

definition st_ok :: "'a \<Rightarrow> ('s, 'a, 'e) st" where
  "st_ok x s = (Ok x, s)"

definition st_err :: "'e \<Rightarrow> ('s, 'a, 'e) st" where
  "st_err e s = (Err e, s)"

definition st_panic :: "('s, 'a, 'e) st" where
  "st_panic s = (Panic, s)"

definition st_lift :: "('a, 'e) result \<Rightarrow> ('s, 'a, 'e) st" where
  "st_lift r s = (r, s)"

definition st_bind :: "('s, 'a, 'e) st \<Rightarrow> ('a \<Rightarrow> ('s, 'b, 'e) st) \<Rightarrow> ('s, 'b, 'e) st" where
  "st_bind m f s =
     (case m s of
        (Ok x, s') \<Rightarrow> f x s'
      | (Err e, s') \<Rightarrow> (Err e, s')
      | (Panic, s') \<Rightarrow> (Panic, s'))"

text \<open>A \<open>match\<close> on the result of a call with a branch for its error.\<close>

definition st_try ::
  "('s, 'a, 'e) st \<Rightarrow> ('a \<Rightarrow> ('s, 'b, 'f) st) \<Rightarrow> ('e \<Rightarrow> ('s, 'b, 'f) st) \<Rightarrow> ('s, 'b, 'f) st" where
  "st_try m f g s =
     (case m s of
        (Ok x, s') \<Rightarrow> f x s'
      | (Err e, s') \<Rightarrow> g e s'
      | (Panic, s') \<Rightarrow> (Panic, s'))"

definition st_get :: "('s \<Rightarrow> 'a) \<Rightarrow> ('s, 'a, 'e) st" where
  "st_get f s = (Ok (f s), s)"

definition st_modify :: "('s \<Rightarrow> 's) \<Rightarrow> ('s, unit, 'e) st" where
  "st_modify f s = (Ok (), f s)"

primrec st_for :: "'x list \<Rightarrow> ('x \<Rightarrow> ('s, unit, 'e) st) \<Rightarrow> ('s, unit, 'e) st" where
  "st_for [] f = st_ok ()"
| "st_for (x # xs) f = st_bind (f x) (\<lambda>_. st_for xs f)"

text \<open>\<open>st_post m s Q E\<close>: run from \<open>s\<close>, \<open>m\<close> does not panic, its value satisfies \<open>Q\<close> and its error
  satisfies \<open>E\<close>.\<close>

definition st_post ::
  "('s, 'a, 'e) st \<Rightarrow> 's \<Rightarrow> ('a \<Rightarrow> 's \<Rightarrow> bool) \<Rightarrow> ('e \<Rightarrow> 's \<Rightarrow> bool) \<Rightarrow> bool" where
  "st_post m s Q E \<longleftrightarrow>
     (case m s of (Ok x, s') \<Rightarrow> Q x s' | (Err e, s') \<Rightarrow> E e s' | (Panic, s') \<Rightarrow> False)"

named_theorems post_simps \<open>postconditions of the basic state transformers\<close>

lemma st_post_basic [post_simps]:
  "st_post (st_ok x) s Q E \<longleftrightarrow> Q x s"
  "st_post (st_err e) s Q E \<longleftrightarrow> E e s"
  "st_post st_panic s Q E \<longleftrightarrow> False"
  "st_post (st_get g) s Q E \<longleftrightarrow> Q (g s) s"
  "st_post (st_lift (Ok x)) s Q E \<longleftrightarrow> Q x s"
  "st_post (st_lift (Err e)) s Q E \<longleftrightarrow> E e s"
  by (auto simp: st_post_def st_ok_def st_err_def st_panic_def st_get_def st_lift_def
      split: prod.splits result.splits)

lemma st_post_modify [post_simps]: "st_post (st_modify f) s Q E \<longleftrightarrow> Q () (f s)"
  by (simp add: st_post_def st_modify_def)

lemma st_post_bind [post_simps]:
  "st_post (st_bind m f) s Q E \<longleftrightarrow> st_post m s (\<lambda>x s'. st_post (f x) s' Q E) E"
  by (auto simp: st_post_def st_bind_def split: prod.splits result.splits)

lemma st_post_try [post_simps]:
  "st_post (st_try m f g) s Q E \<longleftrightarrow>
     st_post m s (\<lambda>x s'. st_post (f x) s' Q E) (\<lambda>e s'. st_post (g e) s' Q E)"
  by (auto simp: st_post_def st_try_def split: prod.splits result.splits)

lemma st_post_mono:
  assumes "st_post m s Q E" "\<And>x s'. Q x s' \<Longrightarrow> Q' x s'" "\<And>e s'. E e s' \<Longrightarrow> E' e s'"
  shows "st_post m s Q' E'"
  using assms by (auto simp: st_post_def split: prod.splits result.splits)

lemma st_post_for:
  assumes "I s" "\<And>x s. x \<in> set xs \<Longrightarrow> I s \<Longrightarrow> st_post (f x) s (\<lambda>_. I) E"
  shows "st_post (st_for xs f) s (\<lambda>_. I) E"
  using assms
proof (induction xs arbitrary: s)
  case (Cons x xs)
  have "st_post (f x) s (\<lambda>_. I) E" using Cons.prems by simp
  then show ?case
    unfolding st_for.simps st_post_bind
    by (rule st_post_mono) (use Cons in auto)
qed (simp add: st_post_basic)

lemma st_postD:
  assumes "st_post m s Q E"
  shows "m s = (Ok x, s') \<Longrightarrow> Q x s'" "m s = (Err e, s') \<Longrightarrow> E e s'" "m s \<noteq> (Panic, s')"
  using assms by (auto simp: st_post_def)

end
