(* ===== verification/Mem_Host.thy ===== *)
theory Mem_Host
  imports Mem_Vma Mcr_State
begin

text \<open>
  Host memory as \<open>mcr-win\<close> offers it to the memory manager (\<open>mcr-win/src/memory.rs\<close>), and the
  reference-counted store that stands for \<open>Arc<HostMemory>\<close>.  The operating system calls behind it
  are a parameter: \<open>h_os c n\<close> is the answer to the \<open>n\<close>-th call, which is of the kind \<open>c\<close>; \<open>None\<close>
  is success.  What the code relies on is the documented behaviour of these calls: fresh memory is
  zero, committing a committed page keeps its contents, and a protection change acts on whole pages.
\<close>

section \<open>Host memory\<close>

datatype memory_protection = NoAccess | ReadOnly | ReadWrite | ExecuteRead | ExecuteReadWrite

record host_memory =
  hm_bytes :: "u8 list"
  hm_page :: "nat \<Rightarrow> memory_protection"

text \<open>The contents of an \<open>Arc\<close> with its strong count.\<close>

record host_object =
  ho_memory :: host_memory
  ho_count :: nat

datatype os_call = Virtual_alloc | Virtual_commit | Virtual_protect | Flush_instruction_cache

record host =
  h_os :: "os_call \<Rightarrow> nat \<Rightarrow> (host_error_kind \<times> u32 option) option"
  h_calls :: nat
  h_next :: nat
  h_objects :: "nat \<Rightarrow> host_object option"

definition os_ask :: "os_call \<Rightarrow> host \<Rightarrow> (host_error_kind \<times> u32 option) option \<times> host" where
  "os_ask c h = (h_os h c (h_calls h), h\<lparr>h_calls := Suc (h_calls h)\<rparr>)"

definition last_windows_error :: "host_operation \<Rightarrow> host_error_kind \<times> u32 option \<Rightarrow> host_error" where
  "last_windows_error op e = \<lparr>he_operation = op, he_kind = fst e, he_code = snd e\<rparr>"

definition invalid_input :: "host_operation \<Rightarrow> host_error" where
  "invalid_input op = \<lparr>he_operation = op, he_kind = HostInvalidInput, he_code = None\<rparr>"

definition allocate_platform :: "nat \<Rightarrow> memory_protection \<Rightarrow> (host, host_memory, host_error) st" where
  "allocate_platform sz protection h =
     (case os_ask Virtual_alloc h of
        (None, h') \<Rightarrow> (Ok \<lparr>hm_bytes = replicate sz 0, hm_page = (\<lambda>_. protection)\<rparr>, h')
      | (Some e, h') \<Rightarrow> (Err (last_windows_error AllocateMemory e), h'))"

definition hm_allocate :: "nat \<Rightarrow> memory_protection \<Rightarrow> (host, host_memory, host_error) st" where
  "hm_allocate sz protection =
     (if sz = 0 then st_err (invalid_input AllocateMemory) else allocate_platform sz protection)"

definition hm_allocate_at ::
  "nat \<Rightarrow> nat \<Rightarrow> memory_protection \<Rightarrow> (host, host_memory, host_error) st" where
  "hm_allocate_at address sz protection =
     (if address = 0 \<or> sz = 0 then st_err (invalid_input AllocateMemory)
      else allocate_platform sz protection)"

text \<open>\<open>VirtualProtect\<close> on the pages that the byte range touches.\<close>

definition set_pages :: "nat \<Rightarrow> nat \<Rightarrow> memory_protection \<Rightarrow> host_memory \<Rightarrow> host_memory" where
  "set_pages offset len protection mem =
     mem\<lparr>hm_page := (\<lambda>p. if offset div GUEST_PAGE_SIZE \<le> p \<and> p * GUEST_PAGE_SIZE < offset + len
                        then protection else hm_page mem p)\<rparr>"

text \<open>Changing the protection of a host object goes through a shared reference, so the new
  memory is returned beside the result.  The outcome of \<open>VirtualProtect\<close> is not reported.\<close>

definition protect_platform ::
  "nat \<Rightarrow> nat \<Rightarrow> memory_protection \<Rightarrow> (host_memory \<times> host, unit, host_error) st" where
  "protect_platform offset len protection s =
     (case s of (mem, h) \<Rightarrow>
        (case (if protection = NoAccess then (None, h) else os_ask Virtual_commit h) of
           (Some e, h') \<Rightarrow> (Err (last_windows_error ProtectMemory e), mem, h')
         | (None, h') \<Rightarrow>
             (case os_ask Virtual_protect h' of
                (None, h'') \<Rightarrow> (Ok (), set_pages offset len protection mem, h'')
              | (Some _, h'') \<Rightarrow> (Ok (), mem, h''))))"

definition hm_protect_range ::
  "nat \<Rightarrow> nat \<Rightarrow> memory_protection \<Rightarrow> (host_memory \<times> host, unit, host_error) st" where
  "hm_protect_range offset len protection s =
     (if 2 ^ 64 \<le> offset + len \<or> len = 0 \<or> length (hm_bytes (fst s)) < offset + len
      then (Err (invalid_input ProtectMemory), s)
      else protect_platform offset len protection s)"

definition hm_protect :: "memory_protection \<Rightarrow> (host_memory \<times> host, unit, host_error) st" where
  "hm_protect protection s = hm_protect_range 0 (length (hm_bytes (fst s))) protection s"

definition hm_flush :: "nat \<Rightarrow> nat \<Rightarrow> host_memory \<Rightarrow> (host, unit, host_error) st" where
  "hm_flush offset len mem =
     (if 2 ^ 64 \<le> offset + len \<or> len = 0 \<or> length (hm_bytes mem) < offset + len
      then st_err (invalid_input FlushInstructionCache)
      else (\<lambda>h. case os_ask Flush_instruction_cache h of
                  (None, h') \<Rightarrow> (Ok (), h')
                | (Some e, h') \<Rightarrow> (Err (last_windows_error FlushInstructionCache e), h')))"

section \<open>The reference-counted store\<close>

definition arc_new :: "host_memory \<Rightarrow> host \<Rightarrow> nat \<times> host" where
  "arc_new mem h =
     (h_next h, h\<lparr>h_next := Suc (h_next h),
                  h_objects := (h_objects h)(h_next h \<mapsto> \<lparr>ho_memory = mem, ho_count = 1\<rparr>)\<rparr>)"

definition arc_clone :: "nat \<Rightarrow> host \<Rightarrow> host" where
  "arc_clone i h =
     h\<lparr>h_objects := (h_objects h)(i := map_option (\<lambda>ob. ob\<lparr>ho_count := Suc (ho_count ob)\<rparr>) (h_objects h i))\<rparr>"

definition arc_drop :: "nat \<Rightarrow> host \<Rightarrow> host" where
  "arc_drop i h =
     h\<lparr>h_objects := (h_objects h)(i := (case h_objects h i of
         None \<Rightarrow> None
       | Some ob \<Rightarrow> if ho_count ob \<le> 1 then None else Some (ob\<lparr>ho_count := ho_count ob - 1\<rparr>)))\<rparr>"

definition arc_count :: "host \<Rightarrow> nat \<Rightarrow> nat" where
  "arc_count h i = (case h_objects h i of None \<Rightarrow> 0 | Some ob \<Rightarrow> ho_count ob)"

definition arc_bytes :: "host \<Rightarrow> nat \<Rightarrow> u8 list" where
  "arc_bytes h i = (case h_objects h i of None \<Rightarrow> [] | Some ob \<Rightarrow> hm_bytes (ho_memory ob))"

definition arc_set_memory :: "nat \<Rightarrow> host_memory \<Rightarrow> host \<Rightarrow> host" where
  "arc_set_memory i mem h =
     h\<lparr>h_objects := (h_objects h)(i := map_option (\<lambda>ob. ob\<lparr>ho_memory := mem\<rparr>) (h_objects h i))\<rparr>"

text \<open>Running an operation on the memory of a live object.\<close>

definition on_object :: "nat \<Rightarrow> (host_memory \<times> host, 'a, 'e) st \<Rightarrow> (host, 'a, 'e) st" where
  "on_object i f h =
     (case h_objects h i of
        None \<Rightarrow> (Panic, h)
      | Some ob \<Rightarrow> (case f (ho_memory ob, h) of (r, mem, h') \<Rightarrow> (r, arc_set_memory i mem h')))"

end
