(* ===== verification/Mem_Space.thy ===== *)
theory Mem_Space
  imports Mem_Host Abi
begin

text \<open>
  The guest address space of \<open>mcr-memory\<close> (\<open>lib.rs\<close>): areas over host allocations, the mapping
  calls, the program break and the copying of allocations on demand.  A method of \<open>GuestMemory\<close> is a
  fallible transformer of the pair of the address space and the host.  \<open>usize\<close> is 64 bits wide, so
  the conversions between \<open>u64\<close> and \<open>usize\<close> never fail and are left out.
\<close>

section \<open>Protections and flags\<close>

definition LINUX_PROT_READ :: u32 where "LINUX_PROT_READ = 0x1"
definition LINUX_PROT_WRITE :: u32 where "LINUX_PROT_WRITE = 0x2"
definition LINUX_PROT_EXEC :: u32 where "LINUX_PROT_EXEC = 0x4"
definition LINUX_PROT_VALID_MASK :: u32 where
  "LINUX_PROT_VALID_MASK = LINUX_PROT_READ OR LINUX_PROT_WRITE OR LINUX_PROT_EXEC"

definition LINUX_MAP_SHARED :: u32 where "LINUX_MAP_SHARED = 0x01"
definition LINUX_MAP_PRIVATE :: u32 where "LINUX_MAP_PRIVATE = 0x02"
definition LINUX_MAP_FIXED :: u32 where "LINUX_MAP_FIXED = 0x10"
definition LINUX_MAP_ANONYMOUS :: u32 where "LINUX_MAP_ANONYMOUS = 0x20"
definition LINUX_MAP_32BIT :: u32 where "LINUX_MAP_32BIT = 0x40"
definition LINUX_MAP_GROWSDOWN :: u32 where "LINUX_MAP_GROWSDOWN = 0x0100"
definition LINUX_MAP_DENYWRITE :: u32 where "LINUX_MAP_DENYWRITE = 0x0800"
definition LINUX_MAP_EXECUTABLE :: u32 where "LINUX_MAP_EXECUTABLE = 0x1000"
definition LINUX_MAP_LOCKED :: u32 where "LINUX_MAP_LOCKED = 0x2000"
definition LINUX_MAP_NORESERVE :: u32 where "LINUX_MAP_NORESERVE = 0x4000"
definition LINUX_MAP_POPULATE :: u32 where "LINUX_MAP_POPULATE = 0x8000"
definition LINUX_MAP_NONBLOCK :: u32 where "LINUX_MAP_NONBLOCK = 0x10000"
definition LINUX_MAP_STACK :: u32 where "LINUX_MAP_STACK = 0x20000"
definition LINUX_MAP_HUGETLB :: u32 where "LINUX_MAP_HUGETLB = 0x40000"
definition LINUX_MAP_SYNC :: u32 where "LINUX_MAP_SYNC = 0x80000"
definition LINUX_MAP_FIXED_NOREPLACE :: u32 where "LINUX_MAP_FIXED_NOREPLACE = 0x100000"

definition LINUX_MAP_TYPE_MASK :: u32 where
  "LINUX_MAP_TYPE_MASK = LINUX_MAP_SHARED OR LINUX_MAP_PRIVATE"

definition LINUX_MAP_VALID_MASK :: u32 where
  "LINUX_MAP_VALID_MASK = LINUX_MAP_SHARED OR LINUX_MAP_PRIVATE OR LINUX_MAP_FIXED
     OR LINUX_MAP_ANONYMOUS OR LINUX_MAP_32BIT OR LINUX_MAP_GROWSDOWN OR LINUX_MAP_DENYWRITE
     OR LINUX_MAP_EXECUTABLE OR LINUX_MAP_LOCKED OR LINUX_MAP_NORESERVE OR LINUX_MAP_POPULATE
     OR LINUX_MAP_NONBLOCK OR LINUX_MAP_STACK OR LINUX_MAP_HUGETLB OR LINUX_MAP_SYNC
     OR LINUX_MAP_FIXED_NOREPLACE"

lemmas map_flag_defs = LINUX_MAP_SHARED_def LINUX_MAP_PRIVATE_def LINUX_MAP_FIXED_def
  LINUX_MAP_ANONYMOUS_def LINUX_MAP_32BIT_def LINUX_MAP_GROWSDOWN_def LINUX_MAP_DENYWRITE_def
  LINUX_MAP_EXECUTABLE_def LINUX_MAP_LOCKED_def LINUX_MAP_NORESERVE_def LINUX_MAP_POPULATE_def
  LINUX_MAP_NONBLOCK_def LINUX_MAP_STACK_def LINUX_MAP_HUGETLB_def LINUX_MAP_SYNC_def
  LINUX_MAP_FIXED_NOREPLACE_def LINUX_MAP_TYPE_MASK_def LINUX_MAP_VALID_MASK_def

lemmas prot_flag_defs = LINUX_PROT_READ_def LINUX_PROT_WRITE_def LINUX_PROT_EXEC_def
  LINUX_PROT_VALID_MASK_def

text \<open>\<open>fd\<close> and \<open>offset\<close> are the signed readings of their registers.\<close>

record mmap_args =
  mm_addr :: nat
  mm_length :: nat
  mm_prot :: u32
  mm_flags :: u32
  mm_fd :: int
  mm_offset :: int

record mprotect_args =
  mp_addr :: nat
  mp_length :: nat
  mp_prot :: u32

record munmap_args =
  mu_addr :: nat
  mu_length :: nat

definition is_anonymous :: "mmap_args \<Rightarrow> bool" where
  "is_anonymous args \<longleftrightarrow> mm_flags args AND LINUX_MAP_ANONYMOUS \<noteq> 0"

definition is_fixed :: "mmap_args \<Rightarrow> bool" where
  "is_fixed args \<longleftrightarrow> mm_flags args AND LINUX_MAP_FIXED \<noteq> 0"

definition is_fixed_noreplace :: "mmap_args \<Rightarrow> bool" where
  "is_fixed_noreplace args \<longleftrightarrow> mm_flags args AND LINUX_MAP_FIXED_NOREPLACE \<noteq> 0"

definition protection_new :: "bool \<Rightarrow> bool \<Rightarrow> bool \<Rightarrow> mem_protection" where
  "protection_new r w x = \<lparr>prot_read = r, prot_write = w, prot_execute = x\<rparr>"

definition from_linux :: "u32 \<Rightarrow> mem_protection mem_result" where
  "from_linux prot =
     (if prot AND NOT LINUX_PROT_VALID_MASK \<noteq> 0 then Err InvalidProtection
      else Ok \<lparr>prot_read = (prot AND LINUX_PROT_READ \<noteq> 0),
               prot_write = (prot AND LINUX_PROT_WRITE \<noteq> 0),
               prot_execute = (prot AND LINUX_PROT_EXEC \<noteq> 0)\<rparr>)"

definition to_host :: "mem_protection \<Rightarrow> memory_protection" where
  "to_host p =
     (case (prot_read p, prot_write p, prot_execute p) of
        (_, True, True) \<Rightarrow> ExecuteReadWrite
      | (_, True, False) \<Rightarrow> ReadWrite
      | (_, False, True) \<Rightarrow> ExecuteRead
      | (True, False, False) \<Rightarrow> ReadOnly
      | (False, False, False) \<Rightarrow> NoAccess)"

definition mmap_kind :: "mmap_args \<Rightarrow> mem_vma_kind mem_result" where
  "mmap_kind args =
     (if mm_flags args AND NOT LINUX_MAP_VALID_MASK \<noteq> 0
         \<or> mm_flags args AND (LINUX_MAP_HUGETLB OR LINUX_MAP_SYNC) \<noteq> 0
      then Err InvalidFlags
      else
        let map_type = mm_flags args AND LINUX_MAP_TYPE_MASK in
        if map_type \<noteq> LINUX_MAP_PRIVATE \<and> map_type \<noteq> LINUX_MAP_SHARED then Err InvalidFlags
        else if is_anonymous args
        then (if mm_offset args \<noteq> 0 then Err InvalidOffset else Ok Anonymous)
        else if mm_fd args < 0 then Err BadFileDescriptor
        else if mm_offset args < 0 \<or> \<not> is_page_aligned (nat (mm_offset args)) then Err InvalidOffset
        else Ok (FileBacked (mm_fd args) (mm_offset args) (mm_flags args AND LINUX_MAP_SHARED \<noteq> 0)))"

datatype access_kind = Read | Write

definition access_check :: "access_kind \<Rightarrow> mem_protection \<Rightarrow> unit mem_result" where
  "access_check access p =
     ensure (case access of Read \<Rightarrow> prot_read p | Write \<Rightarrow> prot_write p) AccessDenied"

section \<open>The state\<close>

datatype host_address_mode = Flexible | FixedGuest

record guest_allocation =
  ga_guest_start :: nat
  ga_memory :: nat

record guest_memory =
  gm_vmas :: vma_map
  gm_allocations :: "(nat, guest_allocation) btree_map"
  gm_next_allocation_id :: nat
  gm_brk_base :: nat
  gm_current_brk :: nat
  gm_mmap_base :: nat
  gm_address_space_end :: nat
  gm_host_address_mode :: host_address_mode
  gm_executable_write_generation :: u64

type_synonym 'a mem_op = "(guest_memory \<times> host, 'a, guest_memory_error) st"

record protection_range =
  apr_offset :: nat
  apr_len :: nat
  apr_protection :: mem_protection

record saved_allocation =
  sa_allocation_id :: nat
  sa_guest_start :: nat
  sa_bytes :: "u8 list"
  sa_ranges :: "protection_range list"

text \<open>An operation of the host within a method of the address space; its error is wrapped.\<close>

definition on_host :: "(host, 'a, host_error) st \<Rightarrow> 'a mem_op" where
  "on_host f s = (case f (snd s) of (r, h) \<Rightarrow> (map_err Host r, fst s, h))"

definition set_vmas :: "(vma_map \<Rightarrow> vma_map) \<Rightarrow> guest_memory \<times> host \<Rightarrow> guest_memory \<times> host" where
  "set_vmas f s = ((fst s)\<lparr>gm_vmas := f (gm_vmas (fst s))\<rparr>, snd s)"

definition with_layout :: "nat \<Rightarrow> nat \<Rightarrow> nat \<Rightarrow> guest_memory mem_result" where
  "with_layout initial_brk mmap_base address_space_end =
     (if \<not> is_page_aligned initial_brk \<or> \<not> is_page_aligned mmap_base
         \<or> \<not> is_page_aligned address_space_end \<or> initial_brk < MIN_GUEST_ADDRESS
         \<or> mmap_base < MIN_GUEST_ADDRESS \<or> address_space_end \<le> MIN_GUEST_ADDRESS
      then Err InvalidAddress
      else Ok \<lparr>gm_vmas = bt_empty, gm_allocations = bt_empty, gm_next_allocation_id = 1,
               gm_brk_base = initial_brk, gm_current_brk = initial_brk, gm_mmap_base = mmap_base,
               gm_address_space_end = address_space_end, gm_host_address_mode = Flexible,
               gm_executable_write_generation = 0\<rparr>)"

definition memory_new :: "nat \<Rightarrow> guest_memory mem_result" where
  "memory_new initial_brk = with_layout initial_brk DEFAULT_MMAP_BASE GUEST_ADDRESS_SPACE_END"

section \<open>Allocations\<close>

definition ga_len :: "host \<Rightarrow> guest_allocation \<Rightarrow> nat" where
  "ga_len h a = length (arc_bytes h (ga_memory a))"

definition allocation_guest_end :: "host \<Rightarrow> guest_allocation \<Rightarrow> nat" where
  "allocation_guest_end h a = min (ga_guest_start a + ga_len h a) (2 ^ 64 - 1)"

definition contains_guest_range :: "host \<Rightarrow> nat \<Rightarrow> nat \<Rightarrow> guest_allocation \<Rightarrow> bool" where
  "contains_guest_range h start end a \<longleftrightarrow> ga_guest_start a \<le> start \<and> end \<le> allocation_guest_end h a"

definition overlaps_guest_range :: "host \<Rightarrow> nat \<Rightarrow> nat \<Rightarrow> guest_allocation \<Rightarrow> bool" where
  "overlaps_guest_range h start end a \<longleftrightarrow> ga_guest_start a < end \<and> start < allocation_guest_end h a"

definition allocation_protection_ranges :: "guest_memory \<Rightarrow> nat \<Rightarrow> protection_range list" where
  "allocation_protection_ranges m i =
     map (\<lambda>v. \<lparr>apr_offset = v_allocation_offset v, apr_len = v_len v, apr_protection = v_protection v\<rparr>)
       (filter (\<lambda>v. v_allocation_id v = i) (bt_values (gm_vmas m)))"

definition apply_allocation_protections ::
  "protection_range list \<Rightarrow> (host_memory \<times> host, unit, host_error) st" where
  "apply_allocation_protections ranges =
     st_for ranges (\<lambda>r. hm_protect_range (apr_offset r) (apr_len r) (to_host (apr_protection r)))"

definition allocate_guest_host_memory_at ::
  "nat \<Rightarrow> nat \<Rightarrow> memory_protection \<Rightarrow> host_address_mode \<Rightarrow> (host, host_memory, host_error) st" where
  "allocate_guest_host_memory_at start len protection mode =
     (case mode of Flexible \<Rightarrow> hm_allocate len protection | FixedGuest \<Rightarrow> hm_allocate_at start len protection)"

definition HOST_ALLOCATION_GRANULARITY :: nat where "HOST_ALLOCATION_GRANULARITY = 0x10000"

definition host_allocation_range :: "nat \<Rightarrow> nat \<Rightarrow> (nat \<times> nat) mem_result" where
  "host_allocation_range start len =
     and_then (checked_raw_range start len) (\<lambda>end.
       let guest_start = align_down_to start HOST_ALLOCATION_GRANULARITY in
       and_then (align_up_to end HOST_ALLOCATION_GRANULARITY) (\<lambda>guest_end.
         Ok (guest_start, guest_end - guest_start)))"

text \<open>\<open>AllocationProtectionGuard\<close>: the whole object is made writable while its bytes are read, and
  the ranges are restored afterwards.  A guard that could not restore tries once more when it is
  dropped and ignores the outcome.\<close>

definition guard_drop :: "nat \<Rightarrow> protection_range list \<Rightarrow> host \<Rightarrow> host" where
  "guard_drop i ranges h = snd (on_object i (apply_allocation_protections ranges) h)"

definition guard_restore :: "nat \<Rightarrow> protection_range list \<Rightarrow> (host, unit, host_error) st" where
  "guard_restore i ranges h =
     (case on_object i (apply_allocation_protections ranges) h of
        (Err e, h') \<Rightarrow> (Err e, guard_drop i ranges h')
      | r \<Rightarrow> r)"

definition guarded_bytes :: "nat \<Rightarrow> protection_range list \<Rightarrow> (host, u8 list, host_error) st" where
  "guarded_bytes i ranges =
     st_bind (on_object i (hm_protect ReadWrite)) (\<lambda>_.
     st_bind (st_get (\<lambda>h. arc_bytes h i)) (\<lambda>bytes.
     st_bind (guard_restore i ranges) (\<lambda>_. st_ok bytes)))"

text \<open>A fresh memory filled with the given bytes and protected range by range; until it is put into an
  \<open>Arc\<close> it is a local value, and an error drops it.\<close>

definition filled_memory ::
  "nat \<Rightarrow> u8 list \<Rightarrow> protection_range list \<Rightarrow> host_address_mode \<Rightarrow> (host, host_memory, host_error) st" where
  "filled_memory start bytes ranges mode =
     st_bind (allocate_guest_host_memory_at start (length bytes) ReadWrite mode) (\<lambda>mem h.
       (case apply_allocation_protections ranges (mem\<lparr>hm_bytes := bytes\<rparr>, h) of
          (Ok _, mem', h') \<Rightarrow> (Ok mem', h')
        | (Err e, _, h') \<Rightarrow> (Err e, h')
        | (Panic, _, h') \<Rightarrow> (Panic, h')))"

text \<open>\<open>allocations.insert\<close>, which drops an allocation that it replaces, and \<open>allocations.remove\<close>.\<close>

definition drop_allocation :: "guest_allocation option \<Rightarrow> host \<Rightarrow> host" where
  "drop_allocation a h = (case a of None \<Rightarrow> h | Some a \<Rightarrow> arc_drop (ga_memory a) h)"

definition allocations_insert :: "nat \<Rightarrow> nat \<Rightarrow> host_memory \<Rightarrow> guest_memory \<times> host \<Rightarrow> guest_memory \<times> host" where
  "allocations_insert i guest_start mem s =
     (case s of (m, h) \<Rightarrow>
       let (ob, h) = arc_new mem h in
       (m\<lparr>gm_allocations := bt_insert i \<lparr>ga_guest_start = guest_start, ga_memory = ob\<rparr> (gm_allocations m)\<rparr>,
        drop_allocation (bt_get (gm_allocations m) i) h))"

definition allocations_remove :: "nat \<Rightarrow> guest_memory \<times> host \<Rightarrow> guest_memory \<times> host" where
  "allocations_remove i s =
     (case s of (m, h) \<Rightarrow>
       (m\<lparr>gm_allocations := bt_remove i (gm_allocations m)\<rparr>,
        drop_allocation (bt_get (gm_allocations m) i) h))"

definition take_allocation_id :: "nat mem_op" where
  "take_allocation_id s =
     (let i = gm_next_allocation_id (fst s) in
      case nat_checked_add i 1 of
        None \<Rightarrow> (Err OutOfMemory, s)
      | Some n \<Rightarrow> (Ok i, (fst s)\<lparr>gm_next_allocation_id := n\<rparr>, snd s))"

definition ensure_allocation_unique :: "nat \<Rightarrow> unit mem_op" where
  "ensure_allocation_unique i s =
     (case bt_get (gm_allocations (fst s)) i of
        None \<Rightarrow> (Err NotMapped, s)
      | Some a \<Rightarrow>
          if arc_count (snd s) (ga_memory a) = 1 then (Ok (), s)
          else
            let ranges = allocation_protection_ranges (fst s) i in
            st_bind (on_host (guarded_bytes (ga_memory a) ranges)) (\<lambda>bytes.
            st_bind (on_host (filled_memory (ga_guest_start a) bytes ranges
                               (gm_host_address_mode (fst s)))) (\<lambda>mem.
            st_modify (allocations_insert i (ga_guest_start a) mem))) s)"

text \<open>\<open>allocation_memory_mut\<close>: the object is made unique first; the value is the object that the
  mutable reference points to.\<close>

definition allocation_memory_mut :: "nat \<Rightarrow> nat mem_op" where
  "allocation_memory_mut i =
     st_bind (ensure_allocation_unique i) (\<lambda>_ s.
       (case bt_get (gm_allocations (fst s)) i of
          None \<Rightarrow> (Panic, s)
        | Some a \<Rightarrow>
            if arc_count (snd s) (ga_memory a) = 1 then (Ok (ga_memory a), s) else (Err AccessDenied, s)))"

text \<open>\<open>as_mut_slice()[a..b].copy_from_slice(xs)\<close>.\<close>

definition write_object :: "nat \<Rightarrow> nat \<Rightarrow> nat \<Rightarrow> u8 list \<Rightarrow> (host, unit, host_error) st" where
  "write_object i a b xs =
     on_object i (\<lambda>(mem, h).
       (case write_slice (hm_bytes mem) a b xs of
          Ok bytes \<Rightarrow> (Ok (), mem\<lparr>hm_bytes := bytes\<rparr>, h)
        | Err e \<Rightarrow> (Err e, mem, h)
        | Panic \<Rightarrow> (Panic, mem, h)))"

definition allocation_memory_write :: "nat \<Rightarrow> nat \<Rightarrow> nat \<Rightarrow> u8 list \<Rightarrow> unit mem_op" where
  "allocation_memory_write i a b xs =
     st_bind (allocation_memory_mut i) (\<lambda>ob. on_host (write_object ob a b xs))"

text \<open>An operation on the host memory of a live allocation (\<open>expect("VMA references live
  allocation")\<close>).\<close>

definition on_allocation :: "nat \<Rightarrow> (nat \<Rightarrow> (host, 'a, host_error) st) \<Rightarrow> 'a mem_op" where
  "on_allocation i f s =
     (case bt_get (gm_allocations (fst s)) i of
        None \<Rightarrow> (Panic, s)
      | Some a \<Rightarrow> on_host (f (ga_memory a)) s)"

definition drop_unreferenced_allocations :: "guest_memory \<times> host \<Rightarrow> guest_memory \<times> host" where
  "drop_unreferenced_allocations s =
     (case s of (m, h) \<Rightarrow>
       let referenced = v_allocation_id ` set (bt_values (gm_vmas m));
           dropped = filter (\<lambda>(i, _). i \<notin> referenced) (bt_entries (gm_allocations m))
       in (m\<lparr>gm_allocations := bt_retain (\<lambda>i _. i \<in> referenced) (gm_allocations m)\<rparr>,
           fold (\<lambda>(_, a). arc_drop (ga_memory a)) dropped h))"

definition unmap_range :: "nat \<Rightarrow> nat \<Rightarrow> guest_memory \<times> host \<Rightarrow> guest_memory \<times> host" where
  "unmap_range start end s = drop_unreferenced_allocations (set_vmas (unmap_vmas start end) s)"

definition zero_allocation_range :: "nat \<Rightarrow> nat \<Rightarrow> nat \<Rightarrow> unit mem_op" where
  "zero_allocation_range i offset len s =
     (case nat_checked_add offset len of
        None \<Rightarrow> (Err MemRegionTooLarge, s)
      | Some end \<Rightarrow>
          let ranges = allocation_protection_ranges (fst s) i in
          st_bind (ensure_allocation_unique i) (\<lambda>_.
          st_bind (on_allocation i (\<lambda>ob. on_object ob (hm_protect ReadWrite))) (\<lambda>_.
          st_bind (allocation_memory_write i offset end (replicate (end - offset) 0)) (\<lambda>_.
          on_allocation i (\<lambda>ob. on_object ob (apply_allocation_protections ranges))))) s)"

section \<open>Placing a mapping on the host\<close>

definition restore_saved_allocation :: "saved_allocation \<Rightarrow> unit mem_op" where
  "restore_saved_allocation a s =
     st_bind (on_host (filled_memory (sa_guest_start a) (sa_bytes a) (sa_ranges a)
                        (gm_host_address_mode (fst s)))) (\<lambda>mem.
     st_modify (allocations_insert (sa_allocation_id a) (sa_guest_start a) mem)) s"

definition restore_saved_allocations :: "saved_allocation list \<Rightarrow> unit mem_op" where
  "restore_saved_allocations saved = st_for saved restore_saved_allocation"

text \<open>Restoring after a failure: the original error is returned unless the restoration fails.\<close>

definition restore_and_fail :: "saved_allocation list \<Rightarrow> guest_memory_error \<Rightarrow> 'a mem_op" where
  "restore_and_fail saved e = st_bind (restore_saved_allocations saved) (\<lambda>_. st_err e)"

fun save_allocations :: "nat list \<Rightarrow> saved_allocation list mem_op" where
  "save_allocations [] = st_ok []"
| "save_allocations (i # is) = (\<lambda>s.
     let ranges = allocation_protection_ranges (fst s) i in
     (case bt_get (gm_allocations (fst s)) i of
        None \<Rightarrow> (Panic, s)
      | Some a \<Rightarrow>
          st_bind (on_host (guarded_bytes (ga_memory a) ranges)) (\<lambda>bytes.
          st_bind (save_allocations is) (\<lambda>saved.
          st_ok (\<lparr>sa_allocation_id = i, sa_guest_start = ga_guest_start a, sa_bytes = bytes,
                   sa_ranges = ranges\<rparr> # saved))) s))"

fun copy_saved :: "nat \<Rightarrow> saved_allocation list \<Rightarrow> u8 list \<Rightarrow> (u8 list, guest_memory_error) result" where
  "copy_saved guest_start [] bytes = Ok bytes"
| "copy_saved guest_start (a # saved) bytes =
     (let offset = sa_guest_start a - guest_start in
      and_then (write_slice bytes offset (offset + length (sa_bytes a)) (sa_bytes a))
        (copy_saved guest_start saved))"

definition replacement_ranges :: "nat \<Rightarrow> nat list \<Rightarrow> guest_memory \<Rightarrow> protection_range list" where
  "replacement_ranges guest_start ids m =
     map (\<lambda>v. \<lparr>apr_offset = v_start v - guest_start, apr_len = v_len v, apr_protection = v_protection v\<rparr>)
       (filter (\<lambda>v. v_allocation_id v \<in> set ids) (bt_values (gm_vmas m)))"

definition rebase_vma :: "nat \<Rightarrow> nat list \<Rightarrow> nat \<Rightarrow> mem_vma \<Rightarrow> mem_vma" where
  "rebase_vma guest_start ids i v =
     (if v_allocation_id v \<in> set ids
      then v\<lparr>v_allocation_id := i, v_allocation_offset := v_start v - guest_start\<rparr> else v)"

definition commit_replacement ::
  "nat \<Rightarrow> nat \<Rightarrow> nat list \<Rightarrow> saved_allocation list \<Rightarrow> protection_range list \<Rightarrow> host_memory \<Rightarrow> (nat \<times> nat) mem_op" where
  "commit_replacement requested_start guest_start ids saved ranges mem =
     st_bind (st_lift (copy_saved guest_start saved (hm_bytes mem))) (\<lambda>bytes.
     st_bind take_allocation_id (\<lambda>i.
     st_bind (st_modify (allocations_insert i guest_start (mem\<lparr>hm_bytes := bytes\<rparr>))) (\<lambda>_.
     st_try (on_allocation i (\<lambda>ob. on_object ob (apply_allocation_protections ranges)))
       (\<lambda>_. st_bind (st_modify (set_vmas (bt_map_values (rebase_vma guest_start ids i)))) (\<lambda>_.
         st_ok (i, requested_start - guest_start)))
       (\<lambda>e. st_bind (st_modify (allocations_remove i)) (\<lambda>_. restore_and_fail saved e)))))"

definition replace_overlapping_allocations :: "nat \<Rightarrow> nat \<Rightarrow> nat \<Rightarrow> nat list \<Rightarrow> (nat \<times> nat) mem_op" where
  "replace_overlapping_allocations requested_start guest_start guest_end ids =
     st_bind (save_allocations ids) (\<lambda>saved.
     st_bind (st_get (\<lambda>s. (replacement_ranges guest_start ids (fst s), gm_host_address_mode (fst s)))) (\<lambda>(ranges, mode).
     st_bind (st_modify (fold allocations_remove ids)) (\<lambda>_.
       if guest_end < guest_start then st_err InvalidAddress
       else
         st_try (on_host (allocate_guest_host_memory_at guest_start (guest_end - guest_start) ReadWrite mode))
           (commit_replacement requested_start guest_start ids saved ranges)
           (restore_and_fail saved))))"

text \<open>The hull of the requested host range and the allocations that overlap it.\<close>

definition overlapping_allocations :: "nat \<Rightarrow> nat \<Rightarrow> guest_memory \<times> host \<Rightarrow> (nat \<times> guest_allocation) list" where
  "overlapping_allocations guest_start guest_end s =
     filter (\<lambda>(_, a). overlaps_guest_range (snd s) guest_start guest_end a)
       (bt_entries (gm_allocations (fst s)))"

definition hull_start :: "(nat \<times> guest_allocation) list \<Rightarrow> nat \<Rightarrow> nat" where
  "hull_start overlapping guest_start = fold (\<lambda>(_, a) x. min x (ga_guest_start a)) overlapping guest_start"

definition hull_end :: "host \<Rightarrow> (nat \<times> guest_allocation) list \<Rightarrow> nat \<Rightarrow> nat" where
  "hull_end h overlapping guest_end = fold (\<lambda>(_, a) x. max x (allocation_guest_end h a)) overlapping guest_end"

definition fresh_host_allocation :: "nat \<Rightarrow> nat \<Rightarrow> nat \<Rightarrow> (nat \<times> nat) mem_op" where
  "fresh_host_allocation start guest_start guest_end s =
     (if start < guest_start \<or> guest_end < guest_start then (Err InvalidAddress, s)
      else
        st_bind (on_host (allocate_guest_host_memory_at guest_start (guest_end - guest_start) ReadWrite
                   (gm_host_address_mode (fst s)))) (\<lambda>mem.
        st_bind take_allocation_id (\<lambda>i.
        st_bind (st_modify (allocations_insert i guest_start mem)) (\<lambda>_.
        st_ok (i, start - guest_start)))) s)"

definition new_host_allocation :: "nat \<Rightarrow> nat \<Rightarrow> nat \<Rightarrow> (nat \<times> nat) mem_op" where
  "new_host_allocation start guest_start guest_end s =
     (let overlapping = overlapping_allocations guest_start guest_end s;
          guest_start' = hull_start overlapping guest_start;
          guest_end' = hull_end (snd s) overlapping guest_end
      in
      if overlapping \<noteq> []
      then replace_overlapping_allocations start guest_start' guest_end' (map fst overlapping) s
      else fresh_host_allocation start guest_start' guest_end' s)"

definition ensure_host_allocation :: "nat \<Rightarrow> nat \<Rightarrow> (nat \<times> nat) mem_op" where
  "ensure_host_allocation start len s =
     st_bind (st_lift (checked_raw_range start len)) (\<lambda>end.
       (case List.find (\<lambda>(_, a). contains_guest_range (snd s) start end a)
               (bt_entries (gm_allocations (fst s))) of
          Some (i, a) \<Rightarrow> st_ok (i, start - ga_guest_start a)
        | None \<Rightarrow>
            st_bind (st_lift (host_allocation_range start len)) (\<lambda>(guest_start, allocation_length).
            st_bind (st_lift (checked_raw_range guest_start allocation_length))
              (new_host_allocation start guest_start)))) s"

definition new_vma ::
  "nat \<Rightarrow> nat \<Rightarrow> mem_protection \<Rightarrow> mem_vma_kind \<Rightarrow> nat \<Rightarrow> nat \<Rightarrow> mem_vma" where
  "new_vma start end protection kind i offset =
     \<lparr>v_start = start, v_end = end, v_protection = protection, v_kind = kind, v_allocation_id = i,
      v_allocation_offset = offset\<rparr>"

definition insert_mapping :: "nat \<Rightarrow> nat \<Rightarrow> mem_protection \<Rightarrow> mem_vma_kind \<Rightarrow> unit mem_op" where
  "insert_mapping start len protection kind s =
     st_bind (st_lift (checked_mapping_end start len (gm_address_space_end (fst s)))) (\<lambda>end.
       if overlaps (gm_vmas (fst s)) start end then st_err AddressInUse
       else
         st_bind (ensure_host_allocation start len) (\<lambda>(i, offset).
         st_bind (zero_allocation_range i offset len) (\<lambda>_.
         st_bind (on_allocation i (\<lambda>ob. on_object ob (hm_protect_range offset len (to_host protection)))) (\<lambda>_.
         st_modify (set_vmas (bt_insert start (new_vma start end protection kind i offset))))))) s"

definition insert_loaded_mapping :: "nat \<Rightarrow> nat \<Rightarrow> mem_protection \<Rightarrow> u8 list \<Rightarrow> unit mem_op" where
  "insert_loaded_mapping start len protection bytes s =
     st_bind (st_lift (checked_mapping_end start len (gm_address_space_end (fst s)))) (\<lambda>end.
       if overlaps (gm_vmas (fst s)) start end then st_err AddressInUse
       else if length bytes \<noteq> len then st_err InvalidLength
       else
         st_bind (ensure_host_allocation start len) (\<lambda>(i, offset).
         st_bind (ensure_allocation_unique i) (\<lambda>_.
         st_bind (allocation_memory_write i offset (offset + len) bytes) (\<lambda>_.
         st_bind (on_allocation i (\<lambda>ob. on_object ob (hm_protect_range offset len (to_host protection)))) (\<lambda>_.
         st_modify (set_vmas (bt_insert start (new_vma start end protection Anonymous i offset)))))))) s"

section \<open>mmap and munmap\<close>

definition MMAP_HOST_CONFLICT_RETRIES :: nat where "MMAP_HOST_CONFLICT_RETRIES = 64"

definition mmap_start :: "guest_memory \<Rightarrow> mmap_args \<Rightarrow> nat \<Rightarrow> nat mem_result" where
  "mmap_start m args len =
     (if is_fixed args \<or> is_fixed_noreplace args then
        if mm_addr args < MIN_GUEST_ADDRESS \<or> \<not> is_page_aligned (mm_addr args) then Err InvalidAddress
        else and_then (checked_mapping_end (mm_addr args) len (gm_address_space_end m)) (\<lambda>_.
          if overlaps (gm_vmas m) (mm_addr args) (mm_addr args + len) \<and> is_fixed_noreplace args
          then Err AddressInUse else Ok (mm_addr args))
      else
        and_then (if mm_addr args = 0 then Ok (gm_mmap_base m)
                  else align_up (max (mm_addr args) MIN_GUEST_ADDRESS)) (\<lambda>hint.
          find_free_range (gm_vmas m) (gm_address_space_end m) hint len))"

definition should_retry_mmap_host_conflict :: "guest_memory \<Rightarrow> mmap_args \<Rightarrow> guest_memory_error \<Rightarrow> bool" where
  "should_retry_mmap_host_conflict m args e \<longleftrightarrow>
     gm_host_address_mode m = FixedGuest \<and> \<not> is_fixed args \<and> \<not> is_fixed_noreplace args
     \<and> (case e of Host _ \<Rightarrow> True | _ \<Rightarrow> False)"

definition next_retry_mmap_start :: "guest_memory \<Rightarrow> nat \<Rightarrow> nat \<Rightarrow> nat mem_result" where
  "next_retry_mmap_start m previous len =
     and_then (and_then (ok_or (nat_checked_add previous len) OutOfMemory) align_up) (\<lambda>hint.
       if hint \<ge> gm_address_space_end m then Err OutOfMemory
       else find_free_range (gm_vmas m) (gm_address_space_end m) hint len)"

text \<open>The attempts of the loop; the number is of those that are left for a retry.\<close>

definition mmap_attempt :: "mmap_args \<Rightarrow> nat \<Rightarrow> mem_protection \<Rightarrow> mem_vma_kind \<Rightarrow> nat \<Rightarrow> unit mem_op" where
  "mmap_attempt args len protection kind start =
     st_bind (if is_fixed args then st_modify (unmap_range start (start + len)) else st_ok ()) (\<lambda>_.
     insert_mapping start len protection kind)"

primrec mmap_loop :: "nat \<Rightarrow> mmap_args \<Rightarrow> nat \<Rightarrow> mem_protection \<Rightarrow> mem_vma_kind \<Rightarrow> nat \<Rightarrow> nat mem_op" where
  "mmap_loop 0 args len protection kind start =
     st_bind (mmap_attempt args len protection kind start) (\<lambda>_. st_ok start)"
| "mmap_loop (Suc n) args len protection kind start =
     st_try (mmap_attempt args len protection kind start) (\<lambda>_. st_ok start)
       (\<lambda>e s. if should_retry_mmap_host_conflict (fst s) args e
              then st_bind (st_lift (next_retry_mmap_start (fst s) start len))
                     (mmap_loop n args len protection kind) s
              else (Err e, s))"

definition mmap :: "mmap_args \<Rightarrow> nat mem_op" where
  "mmap args =
     st_bind (st_lift (from_linux (mm_prot args))) (\<lambda>protection.
     st_bind (st_lift (page_round_length (mm_length args))) (\<lambda>len.
     st_bind (st_lift (mmap_kind args)) (\<lambda>kind s.
     st_bind (st_lift (mmap_start (fst s) args len))
       (mmap_loop MMAP_HOST_CONFLICT_RETRIES args len protection kind) s)))"

definition munmap :: "munmap_args \<Rightarrow> unit mem_op" where
  "munmap args =
     st_bind (st_lift (checked_page_range (mu_addr args) (mu_length args))) (\<lambda>end.
     st_modify (unmap_range (mu_addr args) end))"

section \<open>Copy on demand\<close>

definition detach_shared_vma :: "mem_vma \<Rightarrow> unit mem_op" where
  "detach_shared_vma v s =
     (case bt_get (gm_allocations (fst s)) (v_allocation_id v) of
        None \<Rightarrow> (Err NotMapped, s)
      | Some a \<Rightarrow>
          if arc_count (snd s) (ga_memory a) = 1 then (Ok (), s)
          else
            let ranges = allocation_protection_ranges (fst s) (v_allocation_id v) in
            st_bind (on_host (guarded_bytes (ga_memory a) ranges)) (\<lambda>all_bytes.
            st_bind (st_lift (slice all_bytes (v_allocation_offset v) (v_allocation_offset v + v_len v))) (\<lambda>bytes.
            st_bind (on_host (filled_memory (v_start v) bytes
                       [\<lparr>apr_offset = 0, apr_len = length bytes, apr_protection = v_protection v\<rparr>]
                       (gm_host_address_mode (fst s)))) (\<lambda>mem.
            st_bind take_allocation_id (\<lambda>i.
            st_bind (st_modify (allocations_insert i (v_start v) mem)) (\<lambda>_ s.
              (case bt_get (gm_vmas (fst s)) (v_start v) of
                 None \<Rightarrow> (Err NotMapped, s)
               | Some _ \<Rightarrow> (Ok (), set_vmas (bt_modify (v_start v)
                   (\<lambda>w. w\<lparr>v_allocation_id := i, v_allocation_offset := 0\<rparr>)) s)))))) ) s)"

definition detach_key :: "nat \<Rightarrow> unit mem_op" where
  "detach_key key s =
     (case bt_get (gm_vmas (fst s)) key of
        None \<Rightarrow> (Err NotMapped, s)
      | Some v \<Rightarrow> detach_shared_vma v s)"

definition overlapping_allocation_ids :: "guest_memory \<Rightarrow> nat \<Rightarrow> nat \<Rightarrow> nat list" where
  "overlapping_allocation_ids m start end =
     sorted_list_of_set (v_allocation_id `
       {v \<in> set (bt_values (gm_vmas m)). v_start v < end \<and> start < v_end v})"

definition ensure_guest_range_unique :: "nat \<Rightarrow> nat \<Rightarrow> unit mem_op" where
  "ensure_guest_range_unique start end s =
     (if start \<ge> end then (Ok (), s)
      else if gm_host_address_mode (fst s) = FixedGuest
      then st_for (overlapping_allocation_ids (fst s) start end) ensure_allocation_unique s
      else
        let s' = set_vmas (\<lambda>vmas. split_vma_at end (split_vma_at start vmas)) s in
        st_bind (st_for (range_keys start end (gm_vmas (fst s'))) detach_key) (\<lambda>_.
        st_modify drop_unreferenced_allocations) s')"

definition ensure_guest_page_range_unique :: "nat \<Rightarrow> nat \<Rightarrow> unit mem_op" where
  "ensure_guest_page_range_unique start end =
     (if start \<ge> end then st_ok ()
      else st_bind (st_lift (align_up_to end GUEST_PAGE_SIZE)) (\<lambda>page_end.
        ensure_guest_range_unique (align_down_to start GUEST_PAGE_SIZE) page_end))"

section \<open>mprotect\<close>

definition protect_vma :: "mem_protection \<Rightarrow> nat \<times> nat \<times> nat \<Rightarrow> unit mem_op" where
  "protect_vma protection operation =
     (case operation of (i, offset, len) \<Rightarrow>
        on_allocation i (\<lambda>ob. on_object ob (hm_protect_range offset len (to_host protection))))"

definition mprotect :: "mprotect_args \<Rightarrow> unit mem_op" where
  "mprotect args =
     st_bind (st_lift (from_linux (mp_prot args))) (\<lambda>protection.
       if mp_length args = 0 then st_ok ()
       else
         st_bind (st_lift (checked_page_range (mp_addr args) (mp_length args))) (\<lambda>end s.
           if \<not> is_range_mapped (gm_vmas (fst s)) (mp_addr args) end then (Err NotMapped, s)
           else
             st_bind (st_modify (set_vmas (\<lambda>vmas. split_vma_at end (split_vma_at (mp_addr args) vmas)))) (\<lambda>_.
             st_bind (ensure_guest_page_range_unique (mp_addr args) end) (\<lambda>_ s.
               let areas = filter (\<lambda>(k, _). mp_addr args \<le> k \<and> k < end) (bt_entries (gm_vmas (fst s)));
                   keys = map fst areas;
                   operations = map (\<lambda>(_, v). (v_allocation_id v, v_allocation_offset v, v_len v)) areas
               in
               st_bind (st_for operations (protect_vma protection)) (\<lambda>_.
               st_modify (set_vmas (\<lambda>vmas. coalesce_adjacent
                 (fold (\<lambda>k. bt_modify k (\<lambda>v. v\<lparr>v_protection := protection\<rparr>)) keys vmas)))) s)) s))"

section \<open>The program break\<close>

definition remove_heap_vmas :: "guest_memory \<times> host \<Rightarrow> guest_memory \<times> host" where
  "remove_heap_vmas s =
     drop_unreferenced_allocations (set_vmas (\<lambda>vmas. fold bt_remove (heap_keys_from 0 vmas) vmas) s)"

definition shrink_heap :: "nat \<Rightarrow> guest_memory \<times> host \<Rightarrow> guest_memory \<times> host" where
  "shrink_heap mapped_end s =
     (if mapped_end \<le> gm_brk_base (fst s) then remove_heap_vmas s
      else drop_unreferenced_allocations (set_vmas (\<lambda>vmas.
        let vmas = split_vma_at mapped_end vmas
        in fold bt_remove (heap_keys_from mapped_end vmas) vmas) s))"

definition resize_heap :: "nat \<Rightarrow> unit mem_op" where
  "resize_heap mapped_end s =
     (let m = fst s; base = gm_brk_base m; old_end = heap_mapped_end (gm_vmas m) base;
          protection = protection_new True True False
      in
      if mapped_end = base then (Ok (), remove_heap_vmas s)
      else if mapped_end < base then (Err InvalidAddress, s)
      else
        st_bind (ensure_host_allocation base (mapped_end - base)) (\<lambda>(i, offset).
        st_bind (let zero_start = max old_end base in
                 if zero_start < mapped_end
                 then st_bind (st_lift (ok_or (nat_checked_add offset (zero_start - base)) MemRegionTooLarge))
                   (\<lambda>zero_offset. zero_allocation_range i zero_offset (mapped_end - zero_start))
                 else st_ok ()) (\<lambda>_.
        st_bind (st_modify (set_vmas (bt_insert base (new_vma base mapped_end protection Heap i offset)))) (\<lambda>_.
        st_bind (ensure_allocation_unique i) (\<lambda>_.
        on_allocation i (\<lambda>ob. on_object ob
          (hm_protect_range offset (mapped_end - base) (to_host protection))))))) s)"

definition try_set_brk :: "nat \<Rightarrow> unit mem_op" where
  "try_set_brk requested =
     st_bind (st_lift (align_up requested)) (\<lambda>new_end s.
       if new_end > gm_address_space_end (fst s) then (Err OutOfMemory, s)
       else
         let old_end = heap_mapped_end (gm_vmas (fst s)) (gm_brk_base (fst s)) in
         st_bind
           (if new_end > old_end
            then st_bind (st_lift (ensure_brk_can_grow (gm_vmas (fst s)) old_end new_end))
                   (\<lambda>_. resize_heap new_end)
            else if new_end < old_end then st_modify (shrink_heap new_end)
            else st_ok ())
           (\<lambda>_. st_modify (\<lambda>(m, h). (m\<lparr>gm_current_brk := requested\<rparr>, h))) s)"

record guest_brk_outcome =
  brk_current :: nat
  brk_error :: "guest_memory_error option"

text \<open>\<open>set_brk\<close> reports an error beside the current break; only a panic of its parts is a panic.\<close>

definition set_brk :: "nat \<Rightarrow> (guest_memory \<times> host, guest_brk_outcome, guest_memory_error) st" where
  "set_brk requested s =
     (if requested = 0 then (Ok \<lparr>brk_current = gm_current_brk (fst s), brk_error = None\<rparr>, s)
      else if requested < gm_brk_base (fst s)
      then (Ok \<lparr>brk_current = gm_current_brk (fst s), brk_error = Some InvalidAddress\<rparr>, s)
      else
        st_try (try_set_brk requested)
          (\<lambda>_. st_get (\<lambda>s. \<lparr>brk_current = gm_current_brk (fst s), brk_error = None\<rparr>))
          (\<lambda>e. st_get (\<lambda>s. \<lparr>brk_current = gm_current_brk (fst s), brk_error = Some e\<rparr>)) s)"

definition set_mmap_base :: "nat \<Rightarrow> unit mem_op" where
  "set_mmap_base mmap_base s =
     (if mmap_base < MIN_GUEST_ADDRESS \<or> mmap_base \<ge> gm_address_space_end (fst s)
         \<or> \<not> is_page_aligned mmap_base
      then (Err InvalidAddress, s)
      else (Ok (), (fst s)\<lparr>gm_mmap_base := mmap_base\<rparr>, snd s))"

section \<open>Cloning\<close>

definition allocation_is_readonly_shareable :: "guest_memory \<Rightarrow> nat \<Rightarrow> bool" where
  "allocation_is_readonly_shareable m i \<longleftrightarrow>
     gm_host_address_mode m = Flexible
     \<and> (\<forall>v \<in> set (bt_values (gm_vmas m)). v_allocation_id v = i \<longrightarrow> \<not> prot_write (v_protection v))"

definition empty_clone_layout :: "guest_memory \<Rightarrow> guest_memory" where
  "empty_clone_layout m = m\<lparr>gm_vmas := bt_empty, gm_allocations := bt_empty, gm_next_allocation_id := 1\<rparr>"

text \<open>The copy of one allocation.  The guard of the source is dropped when the allocation of the copy
  fails.\<close>

definition clone_allocation ::
  "guest_memory \<Rightarrow> bool \<Rightarrow> (nat \<Rightarrow> nat \<Rightarrow> (host, host_memory, host_error) st) \<Rightarrow> nat \<Rightarrow> guest_allocation
     \<Rightarrow> (host, guest_allocation, guest_memory_error) st" where
  "clone_allocation m sharing allocate i a h =
     (if sharing \<and> allocation_is_readonly_shareable m i then (Ok a, arc_clone (ga_memory a) h)
      else
        let ranges = allocation_protection_ranges m i in
        (case st_bind (on_object (ga_memory a) (hm_protect ReadWrite)) (\<lambda>_ h.
                (case allocate (ga_guest_start a) (ga_len h a) h of
                   (Err e, h) \<Rightarrow> (Err e, guard_drop (ga_memory a) ranges h)
                 | r \<Rightarrow> r)) h of
           (Err e, h) \<Rightarrow> (Err (Host e), h)
         | (Panic, h) \<Rightarrow> (Panic, h)
         | (Ok mem, h) \<Rightarrow>
             let bytes = arc_bytes h (ga_memory a) in
             (case guard_restore (ga_memory a) ranges h of
                (Err e, h) \<Rightarrow> (Err (Host e), h)
              | (Panic, h) \<Rightarrow> (Panic, h)
              | (Ok _, h) \<Rightarrow>
                  (case apply_allocation_protections ranges (mem\<lparr>hm_bytes := bytes\<rparr>, h) of
                     (Ok _, mem, h) \<Rightarrow>
                       let (ob, h) = arc_new mem h in (Ok (a\<lparr>ga_memory := ob\<rparr>), h)
                   | (Err e, _, h) \<Rightarrow> (Err (Host e), h)
                   | (Panic, _, h) \<Rightarrow> (Panic, h)))))"

text \<open>The loop over the allocations; an error drops the copies that were made.\<close>

fun clone_allocations ::
  "guest_memory \<Rightarrow> bool \<Rightarrow> (nat \<Rightarrow> nat \<Rightarrow> (host, host_memory, host_error) st)
     \<Rightarrow> (nat \<times> guest_allocation) list \<Rightarrow> (nat, guest_allocation) btree_map
     \<Rightarrow> (host, (nat, guest_allocation) btree_map, guest_memory_error) st" where
  "clone_allocations m sharing allocate [] done = st_ok done"
| "clone_allocations m sharing allocate ((i, a) # as) done = (\<lambda>h.
     (case clone_allocation m sharing allocate i a h of
        (Ok a', h) \<Rightarrow> clone_allocations m sharing allocate as (bt_insert i a' done) h
      | (Err e, h) \<Rightarrow> (Err e, fold (\<lambda>(_, a). arc_drop (ga_memory a)) (bt_entries done) h)
      | (Panic, h) \<Rightarrow> (Panic, h)))"

definition try_clone_runtime_with_allocator ::
  "bool \<Rightarrow> (nat \<Rightarrow> nat \<Rightarrow> (host, host_memory, host_error) st)
     \<Rightarrow> guest_memory \<Rightarrow> (host, guest_memory, guest_memory_error) st" where
  "try_clone_runtime_with_allocator sharing allocate m =
     st_bind (clone_allocations m sharing allocate (bt_entries (gm_allocations m)) bt_empty) (\<lambda>allocations.
     st_ok (m\<lparr>gm_allocations := allocations, gm_host_address_mode := Flexible\<rparr>))"

definition try_clone_runtime :: "guest_memory \<Rightarrow> (host, guest_memory, guest_memory_error) st" where
  "try_clone_runtime = try_clone_runtime_with_allocator True (\<lambda>_ len. hm_allocate len ReadWrite)"

definition try_clone_runtime_at_guest_addresses ::
  "guest_memory \<Rightarrow> (host, guest_memory, guest_memory_error) st" where
  "try_clone_runtime_at_guest_addresses m =
     st_bind (try_clone_runtime_with_allocator False
       (\<lambda>start len. allocate_guest_host_memory_at start len ReadWrite FixedGuest) m) (\<lambda>m'.
     st_ok (m'\<lparr>gm_host_address_mode := FixedGuest\<rparr>))"

text \<open>Dropping an address space drops its allocations.\<close>

definition drop_memory :: "guest_memory \<Rightarrow> host \<Rightarrow> host" where
  "drop_memory m h = fold (\<lambda>(_, a). arc_drop (ga_memory a)) (bt_entries (gm_allocations m)) h"

end
