(* ===== verification/Mem_Access.thy ===== *)
theory Mem_Access
  imports Mem_Space Elf_Image
begin

text \<open>
  Reading and writing guest memory (\<open>copy_guest\<close>, \<open>write_guest\<close>, slices, C strings, code patches),
  the libc intrinsics (\<open>intrinsics.rs\<close>), loading an ELF image (\<open>from_image\<close>) and the memory part of
  the system call table (\<open>syscalls.rs\<close>).
\<close>

lemma vma_containing_bounds:
  "vma_containing vmas a = Some v \<Longrightarrow> v_start v \<le> a \<and> a < v_end v"
  by (auto simp: vma_containing_def v_contains_def split: option.splits if_splits)

section \<open>Copying\<close>

text \<open>The bytes that \<open>copy_guest\<close> stores in its destination.\<close>

function copy_guest_loop ::
  "guest_memory \<Rightarrow> host \<Rightarrow> access_kind \<Rightarrow> nat \<Rightarrow> nat \<Rightarrow> u8 list mem_result" where
  "copy_guest_loop m h access cursor end =
     (if cursor \<ge> end then Ok []
      else
        (case vma_containing (gm_vmas m) cursor of
           None \<Rightarrow> Err NotMapped
         | Some v \<Rightarrow>
             and_then (access_check access (v_protection v)) (\<lambda>_.
               let chunk_len = min (v_end v) end - cursor;
                   offset = v_allocation_offset v + (cursor - v_start v)
               in
               (case bt_get (gm_allocations m) (v_allocation_id v) of
                  None \<Rightarrow> Panic
                | Some a \<Rightarrow>
                    and_then (slice (arc_bytes h (ga_memory a)) offset (offset + chunk_len)) (\<lambda>chunk.
                    and_then (copy_guest_loop m h access (cursor + chunk_len) end) (\<lambda>rest.
                    Ok (chunk @ rest)))))))"
  by pat_completeness auto
termination
  by (relation "measure (\<lambda>(m, h, access, cursor, end). end - cursor)")
    (auto dest!: vma_containing_bounds)

declare copy_guest_loop.simps [simp del]

definition copy_guest :: "guest_memory \<Rightarrow> host \<Rightarrow> nat \<Rightarrow> nat \<Rightarrow> access_kind \<Rightarrow> u8 list mem_result" where
  "copy_guest m h address len access =
     and_then (checked_raw_range address len) (copy_guest_loop m h access address)"

definition read_guest :: "guest_memory \<Rightarrow> host \<Rightarrow> nat \<Rightarrow> nat \<Rightarrow> u8 list mem_result" where
  "read_guest m h address len = copy_guest m h address len Read"

definition flush_allocation :: "nat \<Rightarrow> nat \<Rightarrow> nat \<Rightarrow> unit mem_op" where
  "flush_allocation i offset len =
     on_allocation i (\<lambda>ob. on_object ob (\<lambda>(mem, h). case hm_flush offset len mem h of (r, h) \<Rightarrow> (r, mem, h)))"

text \<open>One round of \<open>write_guest\<close>: its value is the length of the chunk and whether it was
  executable.\<close>

definition store_chunk :: "mem_vma \<Rightarrow> nat \<Rightarrow> nat \<Rightarrow> u8 list \<Rightarrow> nat \<Rightarrow> (nat \<times> bool) mem_op" where
  "store_chunk v cursor end bytes copied =
     (let chunk_len = min (v_end v) end - cursor;
          offset = v_allocation_offset v + (cursor - v_start v)
      in
      st_bind (st_lift (slice bytes copied (copied + chunk_len))) (\<lambda>chunk.
      st_bind (allocation_memory_write (v_allocation_id v) offset (offset + chunk_len) chunk) (\<lambda>_.
      st_bind (if prot_execute (v_protection v) then flush_allocation (v_allocation_id v) offset chunk_len
               else st_ok ()) (\<lambda>_.
      st_ok (chunk_len, prot_execute (v_protection v))))))"

definition write_chunk :: "nat \<Rightarrow> nat \<Rightarrow> u8 list \<Rightarrow> nat \<Rightarrow> (nat \<times> bool) mem_op" where
  "write_chunk cursor end bytes copied s =
     (case vma_containing (gm_vmas (fst s)) cursor of
        None \<Rightarrow> (Err NotMapped, s)
      | Some v \<Rightarrow>
          st_bind (st_lift (access_check Write (v_protection v))) (\<lambda>_.
          st_bind (ensure_guest_page_range_unique cursor (min (v_end v) end)) (\<lambda>_ s.
            (case vma_containing (gm_vmas (fst s)) cursor of
               None \<Rightarrow> (Err NotMapped, s)
             | Some v \<Rightarrow> store_chunk v cursor end bytes copied s))) s)"

lemma st_bind_Ok:
  "st_bind m f s = (Ok y, s'') \<longleftrightarrow> (\<exists>x s'. m s = (Ok x, s') \<and> f x s' = (Ok y, s''))"
  by (auto simp: st_bind_def split: prod.splits result.splits)

lemma store_chunk_len:
  "store_chunk v cursor end bytes copied s = (Ok (n, x), s') \<Longrightarrow> n = min (v_end v) end - cursor"
  by (auto simp: store_chunk_def Let_def st_bind_Ok st_ok_def)

lemma write_chunk_pos:
  assumes "write_chunk cursor end bytes copied s = (Ok (n, x), s')" "cursor < end"
  shows "0 < n"
proof -
  obtain s'' v where "vma_containing (gm_vmas (fst s'')) cursor = Some v"
    "store_chunk v cursor end bytes copied s'' = (Ok (n, x), s')"
    using assms(1) by (auto simp: write_chunk_def st_bind_Ok split: option.splits)
  then show ?thesis
    using assms(2) by (auto dest!: vma_containing_bounds store_chunk_len)
qed

function write_guest_loop :: "nat \<Rightarrow> nat \<Rightarrow> u8 list \<Rightarrow> nat \<Rightarrow> bool \<Rightarrow> bool mem_op" where
  "write_guest_loop cursor end bytes copied touched s =
     (if cursor \<ge> end then (Ok touched, s)
      else
        (case write_chunk cursor end bytes copied s of
           (Ok (chunk_len, executable), s') \<Rightarrow>
             write_guest_loop (cursor + chunk_len) end bytes (copied + chunk_len) (touched \<or> executable) s'
         | (Err e, s') \<Rightarrow> (Err e, s')
         | (Panic, s') \<Rightarrow> (Panic, s')))"
  by pat_completeness auto
termination
  by (relation "measure (\<lambda>(cursor, end, bytes, copied, touched, s). end - cursor)")
    (auto dest!: write_chunk_pos [OF sym])

declare write_guest_loop.simps [simp del]

definition record_executable_write :: "guest_memory \<times> host \<Rightarrow> guest_memory \<times> host" where
  "record_executable_write s =
     ((fst s)\<lparr>gm_executable_write_generation := gm_executable_write_generation (fst s) + 1\<rparr>, snd s)"

definition write_guest :: "nat \<Rightarrow> u8 list \<Rightarrow> unit mem_op" where
  "write_guest address bytes =
     st_bind (st_lift (checked_raw_range address (length bytes))) (\<lambda>end.
     st_bind (write_guest_loop address end bytes 0 False) (\<lambda>touched.
     if touched then st_modify record_executable_write else st_ok ()))"

section \<open>Slices and strings\<close>

definition guest_slice ::
  "guest_memory \<Rightarrow> host \<Rightarrow> nat \<Rightarrow> nat \<Rightarrow> access_kind \<Rightarrow> u8 list option mem_result" where
  "guest_slice m h address len access =
     and_then (checked_raw_range address len) (\<lambda>end.
       if len = 0 then Ok (Some [])
       else
         and_then (ok_or (vma_containing (gm_vmas m) address) NotMapped) (\<lambda>v.
         and_then (access_check access (v_protection v)) (\<lambda>_.
           if end > v_end v then Ok None
           else
             (case bt_get (gm_allocations m) (v_allocation_id v) of
                None \<Rightarrow> Panic
              | Some a \<Rightarrow>
                  let offset = v_allocation_offset v + (address - v_start v) in
                  and_then (ok_or (nat_checked_add offset len) MemRegionTooLarge) (\<lambda>slice_end.
                  and_then (slice (arc_bytes h (ga_memory a)) offset slice_end) (\<lambda>bytes.
                  Ok (Some bytes)))))))"

text \<open>\<open>slice_mut\<close> hands out a mutable view; the model names it by the object and the byte range.\<close>

definition slice_mut :: "nat \<Rightarrow> nat \<Rightarrow> (nat \<times> nat \<times> nat) option mem_op" where
  "slice_mut address len =
     st_bind (st_lift (checked_raw_range address len)) (\<lambda>end s.
       if len = 0 then (Ok (Some (0, 0, 0)), s)
       else
         (case vma_containing (gm_vmas (fst s)) address of
            None \<Rightarrow> (Err NotMapped, s)
          | Some v \<Rightarrow>
              st_bind (st_lift (access_check Write (v_protection v))) (\<lambda>_.
                if end > v_end v then st_ok None
                else
                  st_bind (if range_overlaps_executable (gm_vmas (fst s)) address end
                           then st_modify record_executable_write else st_ok ()) (\<lambda>_.
                  st_bind (ensure_guest_page_range_unique address end) (\<lambda>_ s.
                    (case vma_containing (gm_vmas (fst s)) address of
                       None \<Rightarrow> (Err NotMapped, s)
                     | Some v \<Rightarrow>
                         let offset = v_allocation_offset v + (address - v_start v) in
                         st_bind (st_lift (ok_or (nat_checked_add offset len) MemRegionTooLarge)) (\<lambda>slice_end.
                         st_bind (allocation_memory_mut (v_allocation_id v)) (\<lambda>ob.
                         st_bind (\<lambda>s. (slice (arc_bytes (snd s) ob) offset slice_end, s)) (\<lambda>_.
                         st_ok (Some (ob, offset, slice_end))))) s)))) s))"

lemma guest_slice_length:
  "guest_slice m h a len access = Ok (Some chunk) \<Longrightarrow> length chunk = len"
  by (auto simp: guest_slice_def result_simps nat_checked_add_def Let_def split: if_splits option.splits)

function read_c_string_loop ::
  "guest_memory \<Rightarrow> host \<Rightarrow> nat \<Rightarrow> nat \<Rightarrow> u8 list \<Rightarrow> u8 list mem_result" where
  "read_c_string_loop m h cursor max_len bytes =
     (if length bytes \<ge> max_len then Err InvalidLength
      else
        and_then (ok_or (vma_containing (gm_vmas m) cursor) NotMapped) (\<lambda>v.
        and_then (access_check Read (v_protection v)) (\<lambda>_.
          let chunk_len = min (v_end v - cursor) (max_len - length bytes) in
          if chunk_len = 0 then Err InvalidLength
          else
            (case guest_slice m h cursor chunk_len Read of
               Err e \<Rightarrow> Err e
             | Panic \<Rightarrow> Panic
             | Ok None \<Rightarrow> Panic
             | Ok (Some chunk) \<Rightarrow>
                 if 0 \<in> set chunk then Ok (bytes @ takeWhile (\<lambda>b. b \<noteq> 0) chunk)
                 else
                   and_then (ok_or (nat_checked_add cursor chunk_len) InvalidLength) (\<lambda>cursor'.
                   read_c_string_loop m h cursor' max_len (bytes @ chunk))))))"
  by pat_completeness auto
termination
  by (relation "measure (\<lambda>(m, h, cursor, max_len, bytes). max_len - length bytes)")
    (auto dest: guest_slice_length)

declare read_c_string_loop.simps [simp del]

definition read_c_string_bytes :: "guest_memory \<Rightarrow> host \<Rightarrow> nat \<Rightarrow> nat \<Rightarrow> u8 list mem_result" where
  "read_c_string_bytes m h address max_len = read_c_string_loop m h address max_len []"

section \<open>Code patches\<close>

definition patch_code :: "nat \<Rightarrow> u8 list \<Rightarrow> u8 list mem_op" where
  "patch_code address bytes =
     st_bind (st_lift (checked_raw_range address (length bytes))) (\<lambda>end s.
       (case vma_containing (gm_vmas (fst s)) address of
          None \<Rightarrow> (Err NotMapped, s)
        | Some v \<Rightarrow>
            if end > v_end v then (Err InvalidLength, s)
            else
              st_bind (ensure_guest_page_range_unique address end) (\<lambda>_ s.
                (case vma_containing (gm_vmas (fst s)) address of
                   None \<Rightarrow> (Err NotMapped, s)
                 | Some v \<Rightarrow>
                     let i = v_allocation_id v;
                         ranges = allocation_protection_ranges (fst s) i;
                         offset = v_allocation_offset v + (address - v_start v)
                     in
                     st_bind (on_allocation i (\<lambda>ob. on_object ob (hm_protect ReadWrite))) (\<lambda>_.
                     st_bind (st_lift (ok_or (nat_checked_add offset (length bytes)) MemRegionTooLarge)) (\<lambda>patch_end.
                     st_bind (on_allocation i (\<lambda>ob h. (slice (arc_bytes h ob) offset patch_end, h))) (\<lambda>old.
                     st_bind (allocation_memory_write i offset patch_end bytes) (\<lambda>_.
                     st_bind (on_allocation i (\<lambda>ob. on_object ob (apply_allocation_protections ranges))) (\<lambda>_.
                     st_bind (flush_allocation i offset (length bytes)) (\<lambda>_.
                     st_ok old)))))) s)) s))"

definition patch_vma :: "guest_memory \<Rightarrow> nat \<Rightarrow> nat \<Rightarrow> mem_vma mem_result" where
  "patch_vma m n address =
     and_then (checked_raw_range address n) (\<lambda>end.
     and_then (ok_or (vma_containing (gm_vmas m) address) NotMapped) (\<lambda>v.
     if end > v_end v then Err InvalidLength else Ok v))"

text \<open>Making the pages under the patches unique.\<close>

definition unshare_patches :: "nat \<Rightarrow> (nat \<times> u8 list) list \<Rightarrow> unit mem_op" where
  "unshare_patches n patches s =
     (if gm_host_address_mode (fst s) = FixedGuest
      then st_bind (st_lift (collect_results (\<lambda>(address, _). patch_vma (fst s) n address) patches)) (\<lambda>vs.
             st_for (sorted_list_of_set (v_allocation_id ` set vs)) ensure_allocation_unique) s
      else st_for patches (\<lambda>(address, _) s.
             st_bind (st_lift (patch_vma (fst s) n address)) (\<lambda>_.
             ensure_guest_page_range_unique address (address + n)) s) s)"

text \<open>A planned patch: the allocation, the offset in it and the bytes.\<close>

definition plan_patch :: "guest_memory \<Rightarrow> nat \<Rightarrow> nat \<times> u8 list \<Rightarrow> (nat \<times> nat \<times> u8 list) mem_result" where
  "plan_patch m n patch =
     (case patch of (address, bytes) \<Rightarrow>
        and_then (patch_vma m n address) (\<lambda>v.
        Ok (v_allocation_id v, v_allocation_offset v + (address - v_start v), bytes)))"

definition apply_patches :: "nat \<Rightarrow> (nat \<times> nat \<times> u8 list) list \<Rightarrow> nat \<Rightarrow> unit mem_op" where
  "apply_patches n planned i s =
     (let patches = filter (\<lambda>(j, _). j = i) planned;
          ranges = allocation_protection_ranges (fst s) i
      in
      st_bind (on_allocation i (\<lambda>ob. on_object ob (hm_protect ReadWrite))) (\<lambda>_.
      st_bind (st_for patches (\<lambda>(_, offset, bytes).
        st_bind (st_lift (ok_or (nat_checked_add offset n) MemRegionTooLarge)) (\<lambda>patch_end.
        allocation_memory_write i offset patch_end bytes))) (\<lambda>_.
      st_bind (on_allocation i (\<lambda>ob. on_object ob (apply_allocation_protections ranges))) (\<lambda>_.
      st_for patches (\<lambda>(_, offset, _). flush_allocation i offset n)))) s)"

definition patch_code_fixed :: "nat \<Rightarrow> (nat \<times> u8 list) list \<Rightarrow> unit mem_op" where
  "patch_code_fixed n patches =
     st_bind (unshare_patches n patches) (\<lambda>_ s.
     st_bind (st_lift (collect_results (plan_patch (fst s) n) patches)) (\<lambda>planned.
     st_for (sorted_list_of_set (fst ` set planned)) (apply_patches n planned)) s)"

section \<open>Libc intrinsics\<close>

datatype guest_libc_intrinsic = Memcpy | Memmove | Memset | Memchr | Memcmp | Strlen nat

datatype guest_libc_intrinsic_error =
  Memory guest_memory_error | UnsupportedOverlap | UnterminatedString

definition DEFAULT_LIBC_STRLEN_MAX :: nat where "DEFAULT_LIBC_STRLEN_MAX = 1024 * 1024"

definition from_symbol_name :: "string \<Rightarrow> guest_libc_intrinsic option" where
  "from_symbol_name symbol =
     (let name = takeWhile (\<lambda>c. c \<noteq> CHR ''@'') symbol in
      if name = ''memcpy'' then Some Memcpy
      else if name = ''memmove'' then Some Memmove
      else if name = ''memset'' then Some Memset
      else if name = ''memchr'' then Some Memchr
      else if name = ''memcmp'' then Some Memcmp
      else if name = ''strlen'' then Some (Strlen DEFAULT_LIBC_STRLEN_MAX)
      else None)"

text \<open>\<open>vec![value; len]\<close> panics beyond \<open>isize::MAX\<close> bytes.\<close>

definition vec_fill :: "u8 \<Rightarrow> nat \<Rightarrow> u8 list mem_result" where
  "vec_fill b len = and_then (vec_zero len) (\<lambda>bytes. Ok (map (\<lambda>_. b) bytes))"

definition intrinsic_memset :: "nat \<Rightarrow> u8 \<Rightarrow> nat \<Rightarrow> unit mem_op" where
  "intrinsic_memset address b len =
     st_bind (st_lift (checked_raw_range address len)) (\<lambda>_.
     st_bind (st_lift (vec_fill b len)) (write_guest address))"

definition copy_out :: "guest_memory \<times> host \<Rightarrow> nat \<Rightarrow> nat \<Rightarrow> u8 list mem_result" where
  "copy_out s address len =
     and_then (vec_fill 0 len) (\<lambda>_. copy_guest (fst s) (snd s) address len Read)"

definition intrinsic_memmove :: "nat \<Rightarrow> nat \<Rightarrow> nat \<Rightarrow> unit mem_op" where
  "intrinsic_memmove destination source len s =
     st_bind (st_lift (copy_out s source len)) (write_guest destination) s"

definition intrinsic_memcmp :: "guest_memory \<times> host \<Rightarrow> nat \<Rightarrow> nat \<Rightarrow> nat \<Rightarrow> int mem_result" where
  "intrinsic_memcmp s lhs rhs len =
     and_then (copy_out s lhs len) (\<lambda>lhs_bytes.
     and_then (copy_out s rhs len) (\<lambda>rhs_bytes.
     Ok (case List.find (\<lambda>(l, r). l \<noteq> r) (zip lhs_bytes rhs_bytes) of
           Some (l, r) \<Rightarrow> uint l - uint r | None \<Rightarrow> 0)))"

text \<open>\<open>iter().position\<close>: the index of the first element with a property.\<close>

fun position :: "('a \<Rightarrow> bool) \<Rightarrow> 'a list \<Rightarrow> nat option" where
  "position P [] = None"
| "position P (x # xs) = (if P x then Some 0 else map_option Suc (position P xs))"

definition intrinsic_memchr :: "guest_memory \<times> host \<Rightarrow> nat \<Rightarrow> u8 \<Rightarrow> nat \<Rightarrow> nat option mem_result" where
  "intrinsic_memchr s address needle len =
     and_then (copy_out s address len) (\<lambda>bytes.
     Ok (map_option (\<lambda>i. address + i) (position (\<lambda>b. b = needle) bytes)))"

definition intrinsic_strlen :: "guest_memory \<times> host \<Rightarrow> nat \<Rightarrow> nat \<Rightarrow> nat option mem_result" where
  "intrinsic_strlen s address max_len =
     and_then (copy_out s address max_len) (\<lambda>bytes. Ok (position (\<lambda>b. b = 0) bytes))"

definition wrap_memory ::
  "'a mem_op \<Rightarrow> (guest_memory \<times> host, 'a, guest_libc_intrinsic_error) st" where
  "wrap_memory f s = (case f s of (r, s') \<Rightarrow> (map_err Memory r, s'))"

fun dispatch_libc_intrinsic ::
  "guest_libc_intrinsic \<Rightarrow> u64 \<Rightarrow> u64 \<Rightarrow> u64 \<Rightarrow> (guest_memory \<times> host, u64, guest_libc_intrinsic_error) st" where
  "dispatch_libc_intrinsic Memcpy rdi rsi rdx =
     st_bind (wrap_memory (st_lift (raw_ranges_overlap (unat rdi) (unat rsi) (unat rdx)))) (\<lambda>overlap.
       if overlap then st_err UnsupportedOverlap
       else st_bind (wrap_memory (intrinsic_memmove (unat rdi) (unat rsi) (unat rdx))) (\<lambda>_. st_ok rdi))"
| "dispatch_libc_intrinsic Memmove rdi rsi rdx =
     st_bind (wrap_memory (intrinsic_memmove (unat rdi) (unat rsi) (unat rdx))) (\<lambda>_. st_ok rdi)"
| "dispatch_libc_intrinsic Memset rdi rsi rdx =
     st_bind (wrap_memory (intrinsic_memset (unat rdi) (ucast rsi) (unat rdx))) (\<lambda>_. st_ok rdi)"
| "dispatch_libc_intrinsic Memchr rdi rsi rdx = (\<lambda>s.
     st_bind (wrap_memory (st_lift (intrinsic_memchr s (unat rdi) (ucast rsi) (unat rdx)))) (\<lambda>r.
     st_ok (case r of None \<Rightarrow> 0 | Some a \<Rightarrow> of_nat a)) s)"
| "dispatch_libc_intrinsic Memcmp rdi rsi rdx = (\<lambda>s.
     st_bind (wrap_memory (st_lift (intrinsic_memcmp s (unat rdi) (unat rsi) (unat rdx)))) (\<lambda>r.
     st_ok (word_of_int r)) s)"
| "dispatch_libc_intrinsic (Strlen max_len) rdi rsi rdx = (\<lambda>s.
     st_bind (wrap_memory (st_lift (intrinsic_strlen s (unat rdi) max_len))) (\<lambda>r.
     case r of None \<Rightarrow> st_err UnterminatedString | Some n \<Rightarrow> st_ok (of_nat n)) s)"

section \<open>Loading an image\<close>

definition from_segment :: "segment_permissions \<Rightarrow> mem_protection" where
  "from_segment p = protection_new (perm_read p) (perm_write p) (perm_execute p)"

definition load_vma :: "guest_memory_image \<Rightarrow> guest_vma \<Rightarrow> unit mem_op" where
  "load_vma img vma =
     (case List.find (\<lambda>r. gr_start r = gv_start vma \<and> gr_end r = gv_end vma) (gi_regions img) of
        None \<Rightarrow> st_err InvalidAddress
      | Some region \<Rightarrow>
          if gv_end vma < gv_start vma then st_err InvalidAddress
          else insert_loaded_mapping (unat (gv_start vma)) (unat (gv_end vma - gv_start vma))
                 (from_segment (gv_permissions vma)) (gr_bytes region))"

text \<open>The address space under construction is a local value; an error drops it with its
  allocations.\<close>

definition from_image :: "guest_memory_image \<Rightarrow> (host, guest_memory, guest_memory_error) st" where
  "from_image img h =
     (case and_then (align_up (max (unat (gi_brk img)) MIN_GUEST_ADDRESS)) memory_new of
        Err e \<Rightarrow> (Err e, h)
      | Panic \<Rightarrow> (Panic, h)
      | Ok m \<Rightarrow>
          (case st_for (gi_vmas img) (load_vma img) (m, h) of
             (Ok _, m, h) \<Rightarrow> (Ok m, h)
           | (Err e, m, h) \<Rightarrow> (Err e, drop_memory m h)
           | (Panic, m, h) \<Rightarrow> (Panic, h)))"

section \<open>System calls\<close>

fun host_error_errno :: "host_error_kind \<Rightarrow> linux_errno" where
  "host_error_errno HostAccessDenied = EACCES"
| "host_error_errno HostInvalidInput = EINVAL"
| "host_error_errno HostOutOfMemory = ENOMEM"
| "host_error_errno HostUnsupported = ENOSYS"
| "host_error_errno HostInterrupted = EINTR"
| "host_error_errno HostTimedOut = ETIMEDOUT"
| "host_error_errno HostWouldBlock = EAGAIN"
| "host_error_errno HostBrokenPipe = EPIPE"
| "host_error_errno HostNotFound = ENOENT"
| "host_error_errno HostAlreadyExists = EEXIST"
| "host_error_errno HostPoisoned = EIO"
| "host_error_errno HostUnavailable = EIO"
| "host_error_errno HostOther = EIO"

fun guest_memory_errno :: "guest_memory_error \<Rightarrow> linux_errno" where
  "guest_memory_errno AccessDenied = EACCES"
| "guest_memory_errno AddressInUse = EEXIST"
| "guest_memory_errno BadFileDescriptor = EBADF"
| "guest_memory_errno (Host e) = host_error_errno (he_kind e)"
| "guest_memory_errno NotMapped = ENOMEM"
| "guest_memory_errno OutOfMemory = ENOMEM"
| "guest_memory_errno MemRegionTooLarge = ENOMEM"
| "guest_memory_errno InvalidAddress = EINVAL"
| "guest_memory_errno InvalidLength = EINVAL"
| "guest_memory_errno InvalidProtection = EINVAL"
| "guest_memory_errno InvalidFlags = EINVAL"
| "guest_memory_errno InvalidOffset = EINVAL"

definition mmap_args_from :: "syscall_request \<Rightarrow> mmap_args" where
  "mmap_args_from r =
     \<lparr>mm_addr = unat (req_arg r 0), mm_length = unat (req_arg r 1), mm_prot = ucast (req_arg r 2),
      mm_flags = ucast (req_arg r 3), mm_fd = sint (ucast (req_arg r 4) :: 32 word),
      mm_offset = sint (req_arg r 5)\<rparr>"

definition mprotect_args_from :: "syscall_request \<Rightarrow> mprotect_args" where
  "mprotect_args_from r =
     \<lparr>mp_addr = unat (req_arg r 0), mp_length = unat (req_arg r 1), mp_prot = ucast (req_arg r 2)\<rparr>"

definition munmap_args_from :: "syscall_request \<Rightarrow> munmap_args" where
  "munmap_args_from r = \<lparr>mu_addr = unat (req_arg r 0), mu_length = unat (req_arg r 1)\<rparr>"

definition madvise :: "nat \<Rightarrow> nat \<Rightarrow> nat \<Rightarrow> nat mem_result" where
  "madvise addr len advice =
     (if \<not> is_page_aligned addr then Err InvalidAddress
      else if \<not> is_supported_madvise advice then Err InvalidFlags
      else if len = 0 then Ok 0
      else and_then (checked_raw_range addr len) (\<lambda>_. Ok 0))"

text \<open>\<open>syscall_result\<close>; the host error that the trace carries is not part of the outcome here.\<close>

definition syscall_result :: "nat mem_op \<Rightarrow> (guest_memory \<times> host, syscall_outcome, guest_memory_error) st" where
  "syscall_result f s =
     (case f s of
        (Ok v, s') \<Rightarrow> (Ok (outcome_success (of_nat v)), s')
      | (Err e, s') \<Rightarrow> (Ok (outcome_errno (guest_memory_errno e)), s')
      | (Panic, s') \<Rightarrow> (Panic, s'))"

definition dispatch_memory ::
  "syscall_request \<Rightarrow> (guest_memory \<times> host, syscall_outcome, guest_memory_error) st" where
  "dispatch_memory r =
     (case req_syscall r of
        Mmap \<Rightarrow> syscall_result (mmap (mmap_args_from r))
      | Munmap \<Rightarrow> syscall_result (st_bind (munmap (munmap_args_from r)) (\<lambda>_. st_ok 0))
      | Mprotect \<Rightarrow> syscall_result (st_bind (mprotect (mprotect_args_from r)) (\<lambda>_. st_ok 0))
      | Madvise \<Rightarrow> syscall_result (st_lift (madvise (unat (req_arg r 0)) (unat (req_arg r 1))
                     (unat (ucast (req_arg r 2) :: u32))))
      | Brk \<Rightarrow> st_bind (set_brk (unat (req_arg r 0))) (\<lambda>outcome.
                 st_ok (outcome_success (of_nat (brk_current outcome))))
      | _ \<Rightarrow> st_ok outcome_unsupported)"

end
