(* ===== verification/Mem_Inv.thy ===== *)
theory Mem_Inv
  imports Mem_Access
begin

text \<open>
  The invariant of a guest address space and of the reference-counted store behind it, and the
  effect of the allocation operations on both.  References from other address spaces appear as the
  function \<open>ext\<close>: the number of references to each host object that the address space under
  consideration does not hold.  An operation keeps the bytes of every object with an outside
  reference, which is what makes copying on demand invisible to the other address spaces.
\<close>

section \<open>Faults of the host\<close>

text \<open>The host fails no call from now on; the host fails at most one call from now on.\<close>

definition calm :: "host \<Rightarrow> bool" where
  "calm h \<longleftrightarrow> (\<forall>c n. h_calls h \<le> n \<longrightarrow> h_os h c n = None)"

definition one_fault :: "host \<Rightarrow> bool" where
  "one_fault h \<longleftrightarrow> (\<forall>c n. h_calls h \<le> n \<and> h_os h c n \<noteq> None \<longrightarrow> (\<forall>c' n'. n < n' \<longrightarrow> h_os h c' n' = None))"

text \<open>Calls were made, nothing else changed.\<close>

definition tick :: "host \<Rightarrow> host \<Rightarrow> bool" where
  "tick h h' \<longleftrightarrow> h_os h' = h_os h \<and> h_next h' = h_next h \<and> h_objects h' = h_objects h \<and> h_calls h \<le> h_calls h'"

text \<open>At most the page protections of the objects changed.\<close>

definition host_same :: "host \<Rightarrow> host \<Rightarrow> bool" where
  "host_same h h' \<longleftrightarrow> h_os h' = h_os h \<and> h_next h' = h_next h \<and> h_calls h \<le> h_calls h'
   \<and> (\<forall>i. map_option (\<lambda>ob. (hm_bytes (ho_memory ob), ho_count ob)) (h_objects h' i)
        = map_option (\<lambda>ob. (hm_bytes (ho_memory ob), ho_count ob)) (h_objects h i))"

lemma calm_imp_one_fault: "calm h \<Longrightarrow> one_fault h"
  by (auto simp: calm_def one_fault_def)

lemma tick_refl [simp]: "tick h h" and host_same_refl [simp]: "host_same h h"
  by (simp_all add: tick_def host_same_def)

lemma tick_host_same: "tick h h' \<Longrightarrow> host_same h h'"
  by (simp add: tick_def host_same_def)

lemma tick_trans: "tick h h' \<Longrightarrow> tick h' h'' \<Longrightarrow> tick h h''"
  by (auto simp: tick_def)

lemma host_same_trans: "host_same h h' \<Longrightarrow> host_same h' h'' \<Longrightarrow> host_same h h''"
  by (auto simp: host_same_def)

lemma calm_later: "calm h \<Longrightarrow> h_os h' = h_os h \<Longrightarrow> h_calls h \<le> h_calls h' \<Longrightarrow> calm h'"
  by (auto simp: calm_def)

lemma one_fault_later: "one_fault h \<Longrightarrow> h_os h' = h_os h \<Longrightarrow> h_calls h \<le> h_calls h' \<Longrightarrow> one_fault h'"
  unfolding one_fault_def by (metis le_trans)

lemma host_same_calm: "host_same h h' \<Longrightarrow> calm h \<Longrightarrow> calm h'"
  by (auto simp: host_same_def intro: calm_later)

lemma host_same_one_fault: "host_same h h' \<Longrightarrow> one_fault h \<Longrightarrow> one_fault h'"
  by (auto simp: host_same_def intro: one_fault_later)

lemma host_same_arc [simp]:
  assumes "host_same h h'"
  shows "arc_bytes h' i = arc_bytes h i" "arc_count h' i = arc_count h i"
    "h_objects h' i = None \<longleftrightarrow> h_objects h i = None"
proof -
  have *: "map_option (\<lambda>ob. (hm_bytes (ho_memory ob), ho_count ob)) (h_objects h' i)
      = map_option (\<lambda>ob. (hm_bytes (ho_memory ob), ho_count ob)) (h_objects h i)"
    using assms by (simp add: host_same_def)
  then show "arc_bytes h' i = arc_bytes h i" "arc_count h' i = arc_count h i"
    "h_objects h' i = None \<longleftrightarrow> h_objects h i = None"
    by (cases "h_objects h i"; cases "h_objects h' i"; simp add: arc_bytes_def arc_count_def)+
qed

text \<open>How a host operation with valid arguments ends: it fails only on a fault, and after the only
  fault the host is calm.\<close>

definition faulted :: "host \<Rightarrow> host \<Rightarrow> bool" where
  "faulted h h' \<longleftrightarrow> \<not> calm h \<and> (one_fault h \<longrightarrow> calm h')"

lemma faulted_before:
  "h_os h' = h_os h \<Longrightarrow> h_calls h \<le> h_calls h' \<Longrightarrow> faulted h' h'' \<Longrightarrow> faulted h h''"
  by (auto simp: faulted_def intro: calm_later one_fault_later)

lemma faulted_after:
  "h_os h'' = h_os h' \<Longrightarrow> h_calls h' \<le> h_calls h'' \<Longrightarrow> faulted h h' \<Longrightarrow> faulted h h''"
  by (auto simp: faulted_def intro: calm_later)

lemma os_ask:
  "tick h (snd (os_ask c h))" "fst (os_ask c h) \<noteq> None \<Longrightarrow> faulted h (snd (os_ask c h))"
proof -
  show "tick h (snd (os_ask c h))" by (simp add: os_ask_def tick_def)
  assume "fst (os_ask c h) \<noteq> None"
  then have f: "h_os h c (h_calls h) \<noteq> None" by (simp add: os_ask_def)
  then have "\<not> calm h" by (auto simp: calm_def)
  moreover have "calm (snd (os_ask c h))" if "one_fault h"
    using that f unfolding calm_def one_fault_def os_ask_def by (auto dest!: Suc_le_lessD)
  ultimately show "faulted h (snd (os_ask c h))" by (simp add: faulted_def)
qed

section \<open>Host operations\<close>

lemma allocate_platform_post:
  "st_post (allocate_platform sz p) h
     (\<lambda>mem h'. tick h h' \<and> hm_bytes mem = replicate sz 0) (\<lambda>e h'. tick h h' \<and> faulted h h')"
  using os_ask [where h = h and c = Virtual_alloc]
  by (auto simp: st_post_def allocate_platform_def split: prod.splits option.splits)

lemma allocate_at_post:
  assumes "0 < sz" "0 < start"
  shows "st_post (allocate_guest_host_memory_at start sz p mode) h
     (\<lambda>mem h'. tick h h' \<and> hm_bytes mem = replicate sz 0) (\<lambda>e h'. tick h h' \<and> faulted h h')"
  using assms allocate_platform_post [of sz p h]
  by (cases mode) (simp_all add: allocate_guest_host_memory_at_def hm_allocate_def hm_allocate_at_def)

definition memory_kept :: "host_memory \<times> host \<Rightarrow> host_memory \<times> host \<Rightarrow> bool" where
  "memory_kept s s' \<longleftrightarrow> hm_bytes (fst s') = hm_bytes (fst s) \<and> tick (snd s) (snd s')"

lemma hm_protect_range_post:
  assumes "0 < len" "offset + len \<le> length (hm_bytes (fst s))" "length (hm_bytes (fst s)) < 2 ^ 64"
  shows "st_post (hm_protect_range offset len p) s
     (\<lambda>_ s'. memory_kept s s') (\<lambda>_ s'. memory_kept s s' \<and> faulted (snd s) (snd s'))"
proof -
  obtain mem h where s: "s = (mem, h)" by (cases s)
  obtain r h1 where c: "(if p = NoAccess then (None, h) else os_ask Virtual_commit h) = (r, h1)" by fastforce
  have t1: "tick h h1" "r \<noteq> None \<Longrightarrow> faulted h h1"
    using c os_ask [where h = h and c = Virtual_commit] by (auto split: if_splits)
  obtain r2 h2 where c2: "os_ask Virtual_protect h1 = (r2, h2)" by fastforce
  have t2: "tick h1 h2" using os_ask(1) [where h = h1 and c = Virtual_protect] c2 by simp
  show ?thesis
    using assms t1 t2 c c2 tick_trans [OF t1(1) t2]
    by (auto simp: s st_post_def hm_protect_range_def protect_platform_def memory_kept_def set_pages_def
        split: prod.splits option.splits)
qed

lemma memory_kept_trans: "memory_kept s s' \<Longrightarrow> memory_kept s' s'' \<Longrightarrow> memory_kept s s''"
  by (auto simp: memory_kept_def intro: tick_trans)

lemma memory_kept_refl [simp]: "memory_kept s s"
  by (simp add: memory_kept_def)

definition range_in :: "nat \<Rightarrow> protection_range \<Rightarrow> bool" where
  "range_in n r \<longleftrightarrow> 0 < apr_len r \<and> apr_offset r + apr_len r \<le> n"

lemma apply_protections_post:
  assumes "\<forall>r \<in> set ranges. range_in (length (hm_bytes (fst s))) r" "length (hm_bytes (fst s)) < 2 ^ 64"
  shows "st_post (apply_allocation_protections ranges) s
     (\<lambda>_ s'. memory_kept s s') (\<lambda>_ s'. memory_kept s s' \<and> faulted (snd s) (snd s'))"
  unfolding apply_allocation_protections_def
proof (rule st_post_for)
  fix r s' assume r: "r \<in> set ranges" and I: "memory_kept s s'"
  have "range_in (length (hm_bytes (fst s'))) r" "length (hm_bytes (fst s')) < 2 ^ 64"
    using assms r I by (auto simp: memory_kept_def)
  then have "st_post (hm_protect_range (apr_offset r) (apr_len r) (to_host (apr_protection r))) s'
     (\<lambda>_ s''. memory_kept s' s'') (\<lambda>_ s''. memory_kept s' s'' \<and> faulted (snd s') (snd s''))"
    by (intro hm_protect_range_post) (auto simp: range_in_def)
  then show "st_post (hm_protect_range (apr_offset r) (apr_len r) (to_host (apr_protection r))) s'
     (\<lambda>_. memory_kept s) (\<lambda>_ s''. memory_kept s s'' \<and> faulted (snd s) (snd s''))"
    by (rule st_post_mono)
      (use I in \<open>auto intro: memory_kept_trans faulted_before simp: memory_kept_def tick_def\<close>)
qed simp

text \<open>An operation on the memory of an object that keeps its bytes keeps the host.\<close>

lemma host_same_set_memory:
  assumes "h_objects h i = Some ob" "tick h h'" "hm_bytes mem = hm_bytes (ho_memory ob)"
  shows "host_same h (arc_set_memory i mem h')"
  using assms by (auto simp: host_same_def arc_set_memory_def tick_def)

lemma on_object_post:
  assumes ob: "h_objects h i = Some ob"
    and f: "st_post f (ho_memory ob, h) (\<lambda>_ s'. memory_kept (ho_memory ob, h) s')
      (\<lambda>_ s'. memory_kept (ho_memory ob, h) s' \<and> faulted h (snd s'))"
  shows "st_post (on_object i f) h (\<lambda>_ h'. host_same h h') (\<lambda>_ h'. host_same h h' \<and> faulted h h')"
proof -
  obtain r mem h' where r: "f (ho_memory ob, h) = (r, mem, h')" by (metis prod.exhaust)
  have k: "r \<noteq> Panic" "memory_kept (ho_memory ob, h) (mem, h')" "(\<exists>e. r = Err e) \<Longrightarrow> faulted h h'"
    using f r by (auto simp: st_post_def split: result.splits)
  then have "host_same h (arc_set_memory i mem h')"
    using ob by (intro host_same_set_memory) (auto simp: memory_kept_def)
  moreover have "faulted h (arc_set_memory i mem h')" if "\<exists>e. r = Err e"
    using faulted_after [OF _ _ k(3) [OF that]] by (simp add: arc_set_memory_def)
  ultimately show ?thesis
    using k(1) r ob by (auto simp: st_post_def on_object_def split: result.splits)
qed

lemma object_bytes: "h_objects h i = Some ob \<Longrightarrow> hm_bytes (ho_memory ob) = arc_bytes h i"
  by (simp add: arc_bytes_def)

lemma protect_object_post:
  assumes "h_objects h i \<noteq> None" "0 < len" "offset + len \<le> length (arc_bytes h i)"
    "length (arc_bytes h i) < 2 ^ 64"
  shows "st_post (on_object i (hm_protect_range offset len p)) h
    (\<lambda>_ h'. host_same h h') (\<lambda>_ h'. host_same h h' \<and> faulted h h')"
proof -
  obtain ob where ob: "h_objects h i = Some ob" using assms(1) by blast
  show ?thesis
    using assms hm_protect_range_post [of len offset "(ho_memory ob, h)" p] object_bytes [OF ob]
    by (intro on_object_post [OF ob]) simp
qed

lemma protect_all_post:
  assumes "h_objects h i \<noteq> None" "arc_bytes h i \<noteq> []" "length (arc_bytes h i) < 2 ^ 64"
  shows "st_post (on_object i (hm_protect p)) h
    (\<lambda>_ h'. host_same h h') (\<lambda>_ h'. host_same h h' \<and> faulted h h')"
proof -
  obtain ob where ob: "h_objects h i = Some ob" using assms(1) by blast
  have "hm_protect p (ho_memory ob, h) = hm_protect_range 0 (length (arc_bytes h i)) p (ho_memory ob, h)"
    by (simp add: hm_protect_def object_bytes [OF ob])
  then have "on_object i (hm_protect p) h = on_object i (hm_protect_range 0 (length (arc_bytes h i)) p) h"
    by (simp add: on_object_def ob)
  then show ?thesis
    using protect_object_post [of h i "length (arc_bytes h i)" 0 p] assms by (simp add: st_post_def)
qed

lemma apply_object_post:
  assumes "h_objects h i \<noteq> None" "\<forall>r \<in> set ranges. range_in (length (arc_bytes h i)) r"
    "length (arc_bytes h i) < 2 ^ 64"
  shows "st_post (on_object i (apply_allocation_protections ranges)) h
    (\<lambda>_ h'. host_same h h') (\<lambda>_ h'. host_same h h' \<and> faulted h h')"
proof -
  obtain ob where ob: "h_objects h i = Some ob" using assms(1) by blast
  show ?thesis
    using assms apply_protections_post [of ranges "(ho_memory ob, h)"] object_bytes [OF ob]
    by (intro on_object_post [OF ob]) simp
qed

lemma host_same_faulted:
  "host_same h h' \<Longrightarrow> faulted h' h'' \<Longrightarrow> faulted h h''"
  "host_same h' h'' \<Longrightarrow> faulted h h' \<Longrightarrow> faulted h h''"
  by (auto simp: host_same_def intro: faulted_before faulted_after)

lemma guard_restore_post:
  assumes "h_objects h i \<noteq> None" "\<forall>r \<in> set ranges. range_in (length (arc_bytes h i)) r"
    "length (arc_bytes h i) < 2 ^ 64"
  shows "st_post (guard_restore i ranges) h
    (\<lambda>_ h'. host_same h h') (\<lambda>_ h'. host_same h h' \<and> faulted h h')"
proof -
  have a: "st_post (on_object i (apply_allocation_protections ranges)) h'
      (\<lambda>_ h''. host_same h' h'') (\<lambda>_ h''. host_same h' h'' \<and> faulted h' h'')" if "host_same h h'" for h'
    using assms that by (intro apply_object_post) simp_all
  have d: "host_same h' (guard_drop i ranges h')" if "host_same h h'" for h'
    using a [OF that] by (auto simp: guard_drop_def st_post_def split: prod.splits result.splits)
  obtain r h1 where r: "on_object i (apply_allocation_protections ranges) h = (r, h1)" by fastforce
  show ?thesis
  proof (cases r)
    case (Err e)
    then have "host_same h h1" "faulted h h1" using a [of h] r by (auto simp: st_post_def)
    then have "host_same h (guard_drop i ranges h1)" "faulted h (guard_drop i ranges h1)"
      using d host_same_trans host_same_faulted(2) by blast+
    then show ?thesis using r Err by (simp add: st_post_def guard_restore_def)
  qed (use a [of h] r in \<open>auto simp: st_post_def guard_restore_def\<close>)
qed

lemma guard_drop_same:
  assumes "h_objects h i \<noteq> None" "\<forall>r \<in> set ranges. range_in (length (arc_bytes h i)) r"
    "length (arc_bytes h i) < 2 ^ 64"
  shows "host_same h (guard_drop i ranges h)"
  using apply_object_post [OF assms] by (auto simp: guard_drop_def st_post_def split: prod.splits result.splits)

lemma guarded_bytes_post:
  assumes "h_objects h i \<noteq> None" "\<forall>r \<in> set ranges. range_in (length (arc_bytes h i)) r"
    "length (arc_bytes h i) < 2 ^ 64" "arc_bytes h i \<noteq> []"
  shows "st_post (guarded_bytes i ranges) h
    (\<lambda>bytes h'. host_same h h' \<and> bytes = arc_bytes h i) (\<lambda>_ h'. host_same h h' \<and> faulted h h')"
proof -
  have "st_post (guard_restore i ranges) h' (\<lambda>_ h''. host_same h h'') (\<lambda>_ h''. host_same h h'' \<and> faulted h h'')"
    if "host_same h h'" for h'
  proof -
    have "st_post (guard_restore i ranges) h' (\<lambda>_ h''. host_same h' h'') (\<lambda>_ h''. host_same h' h'' \<and> faulted h' h'')"
      using assms that by (intro guard_restore_post) simp_all
    then show ?thesis
      by (rule st_post_mono) (use that host_same_trans host_same_faulted in blast)+
  qed
  then show ?thesis
    unfolding guarded_bytes_def post_simps
    by (intro st_post_mono [OF protect_all_post [OF assms(1,4,3)]]) (auto elim: st_post_mono)
qed

lemma filled_memory_post:
  assumes "bytes \<noteq> []" "0 < start" "\<forall>r \<in> set ranges. range_in (length bytes) r" "length bytes < 2 ^ 64"
  shows "st_post (filled_memory start bytes ranges mode) h
    (\<lambda>mem h'. tick h h' \<and> hm_bytes mem = bytes) (\<lambda>_ h'. tick h h' \<and> faulted h h')"
proof -
  have ap: "st_post (apply_allocation_protections ranges) (mem\<lparr>hm_bytes := bytes\<rparr>, h')
      (\<lambda>_ s'. memory_kept (mem\<lparr>hm_bytes := bytes\<rparr>, h') s')
      (\<lambda>_ s'. memory_kept (mem\<lparr>hm_bytes := bytes\<rparr>, h') s' \<and> faulted h' (snd s'))" for mem :: host_memory and h'
    using apply_protections_post [of ranges "(mem\<lparr>hm_bytes := bytes\<rparr>, h')"] assms by simp
  show ?thesis
    unfolding filled_memory_def post_simps
  proof (rule st_post_mono [OF allocate_at_post])
    fix mem :: host_memory and h' assume m: "tick h h' \<and> hm_bytes mem = replicate (length bytes) 0"
    have le: "h_os h' = h_os h" "h_calls h \<le> h_calls h'" using m by (auto simp: tick_def)
    show "st_post (\<lambda>h :: host. case apply_allocation_protections ranges (mem\<lparr>hm_bytes := bytes\<rparr>, h) of
          (Ok _, mem', h') \<Rightarrow> (Ok mem', h') | (Err e, _, h') \<Rightarrow> (Err e, h') | (Panic, _, h') \<Rightarrow> (Panic, h')) h'
        (\<lambda>mem h'. tick h h' \<and> hm_bytes mem = bytes) (\<lambda>_ h'. tick h h' \<and> faulted h h')"
      using ap [of mem h'] m faulted_before [OF le] tick_trans
      by (fastforce simp: st_post_def memory_kept_def split: prod.splits result.splits)
  qed (use assms in auto)
qed

section \<open>References\<close>

text \<open>What an allocation is to the address space: where it starts and what it holds.\<close>

definition alloc_at :: "guest_memory \<Rightarrow> host \<Rightarrow> nat \<Rightarrow> (nat \<times> u8 list) option" where
  "alloc_at m h i =
     map_option (\<lambda>a. (ga_guest_start a, arc_bytes h (ga_memory a))) (bt_get (gm_allocations m) i)"

definition holds :: "guest_memory \<Rightarrow> nat \<Rightarrow> bool" where
  "holds m i \<longleftrightarrow> (\<exists>k a. bt_get (gm_allocations m) k = Some a \<and> ga_memory a = i)"

definition host_ok :: "host \<Rightarrow> bool" where
  "host_ok h \<longleftrightarrow> (\<forall>i ob. h_objects h i = Some ob \<longrightarrow> i < h_next h \<and> 0 < ho_count ob)"

definition refs_ok :: "(nat \<Rightarrow> nat) \<Rightarrow> guest_memory \<Rightarrow> host \<Rightarrow> bool" where
  "refs_ok ext m h \<longleftrightarrow>
     host_ok h
   \<and> (\<forall>k a. bt_get (gm_allocations m) k = Some a \<longrightarrow> k < gm_next_allocation_id m)
   \<and> (\<forall>k k' a a'. bt_get (gm_allocations m) k = Some a \<longrightarrow> bt_get (gm_allocations m) k' = Some a' \<longrightarrow>
        ga_memory a = ga_memory a' \<longrightarrow> k = k')
   \<and> (\<forall>i. arc_count h i = of_bool (holds m i) + ext i)"

text \<open>The objects with outside references keep their bytes.\<close>

definition env_kept :: "(nat \<Rightarrow> nat) \<Rightarrow> host \<Rightarrow> host \<Rightarrow> bool" where
  "env_kept ext h h' \<longleftrightarrow> (\<forall>i. 0 < ext i \<longrightarrow> arc_bytes h' i = arc_bytes h i)
   \<and> h_os h' = h_os h \<and> h_calls h \<le> h_calls h'"

lemma env_kept_refl [simp]: "env_kept ext h h"
  by (simp add: env_kept_def)

lemma env_kept_trans: "env_kept ext h h' \<Longrightarrow> env_kept ext h' h'' \<Longrightarrow> env_kept ext h h''"
  by (auto simp: env_kept_def)

lemma host_same_env_kept: "host_same h h' \<Longrightarrow> env_kept ext h h'"
  by (simp add: env_kept_def) (simp add: host_same_def)

lemma env_kept_calm: "env_kept ext h h' \<Longrightarrow> calm h \<Longrightarrow> calm h'"
  and env_kept_one_fault: "env_kept ext h h' \<Longrightarrow> one_fault h \<Longrightarrow> one_fault h'"
  by (auto simp: env_kept_def intro: calm_later one_fault_later)

lemma refs_okD:
  assumes "refs_ok ext m h"
  shows "host_ok h" "bt_get (gm_allocations m) k = Some a \<Longrightarrow> k < gm_next_allocation_id m"
    "bt_get (gm_allocations m) k = Some a \<Longrightarrow> bt_get (gm_allocations m) k' = Some a' \<Longrightarrow>
       ga_memory a = ga_memory a' \<Longrightarrow> k = k'"
    "arc_count h i = of_bool (holds m i) + ext i"
  using assms by (auto simp: refs_ok_def)

lemma refs_ok_live:
  assumes "refs_ok ext m h" "bt_get (gm_allocations m) k = Some a"
  shows "h_objects h (ga_memory a) \<noteq> None" "arc_count h (ga_memory a) = Suc (ext (ga_memory a))"
proof -
  have "holds m (ga_memory a)" using assms(2) by (auto simp: holds_def)
  then show "arc_count h (ga_memory a) = Suc (ext (ga_memory a))" using refs_okD(4) [OF assms(1)] by simp
  then show "h_objects h (ga_memory a) \<noteq> None"
    by (cases "h_objects h (ga_memory a)") (simp_all add: arc_count_def)
qed

lemma host_ok_alt: "host_ok h \<longleftrightarrow> (\<forall>i. h_objects h i \<noteq> None \<longrightarrow> i < h_next h \<and> 0 < arc_count h i)"
  by (auto simp: host_ok_def arc_count_def)

lemma host_same_refs_ok:
  assumes "refs_ok ext m h" "host_same h h'"
  shows "refs_ok ext m h'"
proof -
  have "host_ok h'"
    using refs_okD(1) [OF assms(1)] assms(2) by (simp add: host_ok_alt) (simp add: host_same_def)
  then show ?thesis using assms by (simp add: refs_ok_def)
qed

lemma host_same_alloc_at [simp]: "host_same h h' \<Longrightarrow> alloc_at m h' = alloc_at m h"
  by (simp add: alloc_at_def fun_eq_iff)

lemma arc_drop_simps:
  "arc_bytes (arc_drop i h) j = (if j = i \<and> arc_count h i \<le> 1 then [] else arc_bytes h j)"
  "arc_count (arc_drop i h) j = (if j = i then arc_count h i - 1 else arc_count h j)"
  "h_os (arc_drop i h) = h_os h" "h_calls (arc_drop i h) = h_calls h" "h_next (arc_drop i h) = h_next h"
  by (auto simp: arc_drop_def arc_bytes_def arc_count_def split: option.splits)

lemma host_ok_arc_drop: "host_ok h \<Longrightarrow> host_ok (arc_drop i h)"
  by (auto simp: host_ok_def arc_drop_def split: if_splits option.splits)

lemma arc_new_simps:
  "fst (arc_new mem h) = h_next h"
  "arc_bytes (snd (arc_new mem h)) j = (if j = h_next h then hm_bytes mem else arc_bytes h j)"
  "arc_count (snd (arc_new mem h)) j = (if j = h_next h then 1 else arc_count h j)"
  "h_os (snd (arc_new mem h)) = h_os h" "h_calls (snd (arc_new mem h)) = h_calls h"
  "h_next (snd (arc_new mem h)) = Suc (h_next h)"
  by (auto simp: arc_new_def arc_bytes_def arc_count_def)

lemma host_ok_arc_new: "host_ok h \<Longrightarrow> host_ok (snd (arc_new mem h))"
  by (auto simp: host_ok_def arc_new_def less_Suc_eq)

lemma host_ok_fresh: "host_ok h \<Longrightarrow> arc_count h (h_next h) = 0" "host_ok h \<Longrightarrow> arc_bytes h (h_next h) = []"
  by (auto simp: host_ok_def arc_count_def arc_bytes_def split: option.splits)

lemma allocations_remove:
  assumes ok: "refs_ok ext m h" and s': "(m', h') = allocations_remove i (m, h)"
  shows "refs_ok ext m' h'" "env_kept ext h h'"
    "alloc_at m' h' k = (if k = i then None else alloc_at m h k)"
    "m' = m\<lparr>gm_allocations := bt_remove i (gm_allocations m)\<rparr>"
proof -
  show m': "m' = m\<lparr>gm_allocations := bt_remove i (gm_allocations m)\<rparr>"
    using s' by (simp add: allocations_remove_def)
  have h': "h' = drop_allocation (bt_get (gm_allocations m) i) h"
    using s' by (simp add: allocations_remove_def)
  have get: "bt_get (gm_allocations m') k = (if k = i then None else bt_get (gm_allocations m) k)" for k
    by (simp add: m' bt_get_remove)
  show "refs_ok ext m' h'" "env_kept ext h h'" "alloc_at m' h' k = (if k = i then None else alloc_at m h k)"
  proof -
    show "refs_ok ext m' h'"
    proof (cases "bt_get (gm_allocations m) i")
      case None
      then have "bt_remove i (gm_allocations m) = gm_allocations m"
        by (intro bt_eqI) (simp add: bt_get_remove)
      then show ?thesis using ok None by (simp add: h' drop_allocation_def m')
    next
      case (Some a)
      have hd: "h' = arc_drop (ga_memory a) h" using h' Some by (simp add: drop_allocation_def)
      have hold: "holds m' j \<longleftrightarrow> holds m j \<and> j \<noteq> ga_memory a" for j
      proof
        assume "holds m' j"
        then obtain k b where "k \<noteq> i" "bt_get (gm_allocations m) k = Some b" "ga_memory b = j"
          by (auto simp: holds_def get split: if_splits)
        then show "holds m j \<and> j \<noteq> ga_memory a"
          using refs_okD(3) [OF ok, of k b i a] Some by (auto simp: holds_def)
      next
        assume "holds m j \<and> j \<noteq> ga_memory a"
        then obtain k b where b: "bt_get (gm_allocations m) k = Some b" "ga_memory b = j" "j \<noteq> ga_memory a"
          by (auto simp: holds_def)
        then have "k \<noteq> i" using Some by auto
        then show "holds m' j" using b unfolding holds_def get by auto
      qed
      show ?thesis
        unfolding refs_ok_def
      proof (intro conjI allI impI)
        show "host_ok h'" using refs_okD(1) [OF ok] by (simp add: hd host_ok_arc_drop)
        show "arc_count h' j = of_bool (holds m' j) + ext j" for j
          using refs_okD(4) [OF ok, of j] refs_ok_live(2) [OF ok Some]
          by (auto simp: hd arc_drop_simps hold)
      qed (use refs_okD(2,3) [OF ok] in \<open>auto simp: bt_get_remove m' split: if_splits\<close>)
    qed
    show "env_kept ext h h'"
    proof (cases "bt_get (gm_allocations m) i")
      case (Some a)
      then show ?thesis
        using refs_ok_live(2) [OF ok Some] by (auto simp: h' drop_allocation_def env_kept_def arc_drop_simps)
    qed (simp add: h' drop_allocation_def)
    show "alloc_at m' h' k = (if k = i then None else alloc_at m h k)"
    proof (cases "bt_get (gm_allocations m) i")
      case None
      then show ?thesis by (simp add: alloc_at_def get h' drop_allocation_def)
    next
      case (Some a)
      have "ga_memory b \<noteq> ga_memory a" if "bt_get (gm_allocations m) k = Some b" "k \<noteq> i" for b
        using refs_okD(3) [OF ok that(1) Some] that(2) by auto
      then show ?thesis
        using Some by (cases "bt_get (gm_allocations m) k")
          (simp_all add: alloc_at_def get h' drop_allocation_def arc_drop_simps)
    qed
  qed
qed

lemma allocations_insert_fresh:
  assumes ok: "refs_ok ext m h" and i: "i < gm_next_allocation_id m" and none: "bt_get (gm_allocations m) i = None"
    and s': "(m', h') = allocations_insert i gs mem (m, h)"
  shows "refs_ok ext m' h' \<and> env_kept ext h h'
    \<and> (\<forall>k. alloc_at m' h' k = (if k = i then Some (gs, hm_bytes mem) else alloc_at m h k))
    \<and> m' = m\<lparr>gm_allocations := bt_insert i \<lparr>ga_guest_start = gs, ga_memory = h_next h\<rparr> (gm_allocations m)\<rparr>
    \<and> arc_count h' (h_next h) = 1"
proof -
  let ?a = "\<lparr>ga_guest_start = gs, ga_memory = h_next h\<rparr>"
  have m': "m' = m\<lparr>gm_allocations := bt_insert i ?a (gm_allocations m)\<rparr>" and h': "h' = snd (arc_new mem h)"
    using s' none by (simp_all add: allocations_insert_def Let_def case_prod_beta drop_allocation_def arc_new_simps)
  have get: "bt_get (gm_allocations m') k = (if k = i then Some ?a else bt_get (gm_allocations m) k)" for k
    by (simp add: m' bt_get_insert)
  have fresh: "ga_memory a \<noteq> h_next h" if "bt_get (gm_allocations m) k = Some a" for k a
    using refs_ok_live(2) [OF ok that] host_ok_fresh(1) [OF refs_okD(1) [OF ok]] by auto
  have fr: "\<not> holds m (h_next h)" "ext (h_next h) = 0"
    using refs_okD(4) [OF ok, of "h_next h"] host_ok_fresh(1) [OF refs_okD(1) [OF ok]] by auto
  have hold: "holds m' j \<longleftrightarrow> holds m j \<or> j = h_next h" for j
    unfolding holds_def get using none by (metis (full_types) guest_allocation.select_convs(2) option.inject option.distinct(1))
  have "refs_ok ext m' h'"
    unfolding refs_ok_def
  proof (intro conjI allI impI)
    show "host_ok h'" using refs_okD(1) [OF ok] by (simp add: h' host_ok_arc_new)
    show "arc_count h' j = of_bool (holds m' j) + ext j" for j
      using refs_okD(4) [OF ok, of j] fr by (auto simp: h' arc_new_simps hold)
    show "k = k'" if "bt_get (gm_allocations m') k = Some a" "bt_get (gm_allocations m') k' = Some a'"
      "ga_memory a = ga_memory a'" for k k' a a'
      using that fresh [of k a] fresh [of k' a'] refs_okD(3) [OF ok, of k a k' a']
      by (auto simp: get split: if_splits)
  qed (use refs_okD(2) [OF ok] i in \<open>auto simp: get m' bt_get_insert split: if_splits\<close>)
  moreover have "env_kept ext h h'"
    using fr by (auto simp: env_kept_def h' arc_new_simps)
  moreover have "alloc_at m' h' k = (if k = i then Some (gs, hm_bytes mem) else alloc_at m h k)" for k
    using fresh by (auto simp: alloc_at_def get h' arc_new_simps intro!: option.map_cong0)
  ultimately show ?thesis using m' by (simp add: h' arc_new_simps)
qed

text \<open>Inserting over an existing allocation is removing it and inserting afresh.\<close>

lemma allocations_insert_over:
  assumes "host_ok h" "bt_get (gm_allocations m) i = Some a" "h_objects h (ga_memory a) \<noteq> None"
  shows "fst (allocations_insert i gs mem (m, h)) = fst (allocations_insert i gs mem (allocations_remove i (m, h)))"
    "h_os (snd (allocations_insert i gs mem (m, h))) = h_os (snd (allocations_insert i gs mem (allocations_remove i (m, h))))"
    "snd (allocations_insert i gs mem (m, h)) = snd (allocations_insert i gs mem (allocations_remove i (m, h)))"
proof -
  have ne: "ga_memory a \<noteq> h_next h" using assms(1,3) unfolding host_ok_def by (metis less_irrefl not_None_eq)
  have bt: "bt_insert i x (bt_remove i M) = bt_insert i x M" for x and M :: "(nat, guest_allocation) btree_map"
    by (rule bt_eqI) (simp add: bt_get_insert bt_get_remove)
  show 1: "fst (allocations_insert i gs mem (m, h)) = fst (allocations_insert i gs mem (allocations_remove i (m, h)))"
    using assms by (simp add: allocations_insert_def allocations_remove_def drop_allocation_def arc_new_def
        arc_drop_def bt)
  show 2: "snd (allocations_insert i gs mem (m, h)) = snd (allocations_insert i gs mem (allocations_remove i (m, h)))"
    using assms ne by (auto simp: allocations_insert_def allocations_remove_def drop_allocation_def arc_new_def
        arc_drop_def bt_get_remove fun_upd_twist split: option.splits)
  show "h_os (snd (allocations_insert i gs mem (m, h))) = h_os (snd (allocations_insert i gs mem (allocations_remove i (m, h))))"
    by (simp add: 2)
qed

lemma allocations_insert:
  assumes ok: "refs_ok ext m h" and i: "i < gm_next_allocation_id m"
    and s': "(m', h') = allocations_insert i gs mem (m, h)"
  shows "refs_ok ext m' h' \<and> env_kept ext h h'
    \<and> (\<forall>k. alloc_at m' h' k = (if k = i then Some (gs, hm_bytes mem) else alloc_at m h k))
    \<and> (\<exists>ob. m' = m\<lparr>gm_allocations := bt_insert i \<lparr>ga_guest_start = gs, ga_memory = ob\<rparr> (gm_allocations m)\<rparr>
         \<and> arc_count h' ob = 1)"
proof (cases "bt_get (gm_allocations m) i")
  case None
  then show ?thesis using allocations_insert_fresh [OF ok i None s'] by blast
next
  case (Some a)
  obtain m1 h1 where r: "(m1, h1) = allocations_remove i (m, h)" by (metis prod.exhaust)
  note rm = allocations_remove [OF ok r]
  have eq: "(m', h') = allocations_insert i gs mem (m1, h1)"
    using allocations_insert_over(1,3) [OF refs_okD(1) [OF ok] Some refs_ok_live(1) [OF ok Some], of gs mem] s' r
    by (metis prod.collapse)
  have ins: "refs_ok ext m' h' \<and> env_kept ext h1 h'
    \<and> (\<forall>k. alloc_at m' h' k = (if k = i then Some (gs, hm_bytes mem) else alloc_at m1 h1 k))
    \<and> m' = m1\<lparr>gm_allocations := bt_insert i \<lparr>ga_guest_start = gs, ga_memory = h_next h1\<rparr> (gm_allocations m1)\<rparr>
    \<and> arc_count h' (h_next h1) = 1"
    using rm i by (intro allocations_insert_fresh [OF rm(1) _ _ eq]) (simp_all add: bt_get_remove)
  have "bt_insert i x (bt_remove i M) = bt_insert i x M" for x and M :: "(nat, guest_allocation) btree_map"
    by (rule bt_eqI) (simp add: bt_get_insert bt_get_remove)
  then show ?thesis
    using ins rm env_kept_trans [OF rm(2)] by auto
qed

lemma fold_allocations_remove:
  assumes "refs_ok ext m h" "(m', h') = fold allocations_remove is (m, h)"
  shows "refs_ok ext m' h' \<and> env_kept ext h h'
    \<and> (\<forall>k. alloc_at m' h' k = (if k \<in> set is then None else alloc_at m h k))
    \<and> m' = m\<lparr>gm_allocations := fold bt_remove is (gm_allocations m)\<rparr>"
  using assms
proof (induction "is" arbitrary: m h)
  case (Cons i "is")
  obtain m1 h1 where r: "(m1, h1) = allocations_remove i (m, h)" by (metis prod.exhaust)
  note rm = allocations_remove [OF Cons.prems(1) r]
  have "(m', h') = fold allocations_remove is (m1, h1)" using Cons.prems(2) r by simp
  from Cons.IH [OF rm(1) this] rm show ?case by (auto intro: env_kept_trans)
qed simp

text \<open>Dropping the unreferenced allocations removes them one after the other.\<close>

lemma drop_as_remove:
  assumes "\<forall>(k, a) \<in> set xs. bt_get (gm_allocations m) k = Some a" "distinct (map fst xs)"
  shows "fold allocations_remove (map fst xs) (m, h) =
    (m\<lparr>gm_allocations := fold bt_remove (map fst xs) (gm_allocations m)\<rparr>,
     fold (\<lambda>(_, a). arc_drop (ga_memory a)) xs h)"
  using assms
proof (induction xs arbitrary: m h)
  case (Cons x xs)
  obtain k a where x: "x = (k, a)" by (cases x)
  let ?m = "m\<lparr>gm_allocations := bt_remove k (gm_allocations m)\<rparr>"
  have "allocations_remove k (m, h) = (?m, arc_drop (ga_memory a) h)"
    using Cons.prems(1) x by (simp add: allocations_remove_def drop_allocation_def)
  moreover have "\<forall>(k', a') \<in> set xs. bt_get (gm_allocations ?m) k' = Some a'"
    using Cons.prems x by (force simp: bt_get_remove)
  ultimately show ?case using Cons.IH [of ?m] Cons.prems(2) x by simp
qed simp

lemma drop_unreferenced_allocations:
  assumes ok: "refs_ok ext m h" and s': "(m', h') = drop_unreferenced_allocations (m, h)"
  shows "refs_ok ext m' h' \<and> env_kept ext h h'
    \<and> (\<forall>k. alloc_at m' h' k = (if \<exists>v \<in> set (bt_values (gm_vmas m)). v_allocation_id v = k
          then alloc_at m h k else None))
    \<and> m' = m\<lparr>gm_allocations := gm_allocations m'\<rparr>"
proof -
  let ?ref = "v_allocation_id ` set (bt_values (gm_vmas m))"
  let ?xs = "filter (\<lambda>(i, _). i \<notin> ?ref) (bt_entries (gm_allocations m))"
  have d: "distinct (map fst ?xs)"
    using keys_sorted_distinct [OF keys_sorted_filter [OF keys_sorted_bt_entries]] .
  have g: "\<forall>(k, a) \<in> set ?xs. bt_get (gm_allocations m) k = Some a"
    by (auto simp: bt_get_Some_iff_entries)
  have eq: "fold bt_remove (map fst ?xs) (gm_allocations m) = bt_retain (\<lambda>i _. i \<in> ?ref) (gm_allocations m)"
  proof (rule bt_eqI)
    fix k
    show "bt_get (fold bt_remove (map fst ?xs) (gm_allocations m)) k
        = bt_get (bt_retain (\<lambda>i _. i \<in> ?ref) (gm_allocations m)) k"
      by (cases "bt_get (gm_allocations m) k")
        (force simp: bt_get_fold_remove bt_get_retain simp flip: bt_get_Some_iff_entries)+
  qed
  have s'': "(m', h') = fold allocations_remove (map fst ?xs) (m, h)"
    unfolding drop_as_remove [OF g d] eq using s' by (simp add: drop_unreferenced_allocations_def Let_def)
  have dropped: "k \<in> set (map fst ?xs) \<longleftrightarrow> alloc_at m h k \<noteq> None \<and> k \<notin> ?ref" for k
    by (force simp: alloc_at_def simp flip: bt_get_Some_iff_entries)
  have rm: "refs_ok ext m' h' \<and> env_kept ext h h'
    \<and> (\<forall>k. alloc_at m' h' k = (if k \<in> set (map fst ?xs) then None else alloc_at m h k))
    \<and> m' = m\<lparr>gm_allocations := fold bt_remove (map fst ?xs) (gm_allocations m)\<rparr>"
    by (rule fold_allocations_remove [OF ok s''])
  have "alloc_at m' h' k = (if \<exists>v \<in> set (bt_values (gm_vmas m)). v_allocation_id v = k
      then alloc_at m h k else None)" for k
  proof -
    have "alloc_at m' h' k = (if k \<in> set (map fst ?xs) then None else alloc_at m h k)" using rm by blast
    then show ?thesis unfolding dropped by (cases "alloc_at m h k") (auto simp: image_iff)
  qed
  moreover have "m' = m\<lparr>gm_allocations := gm_allocations m'\<rparr>"
    by (subst (1 2) conjunct2 [OF conjunct2 [OF conjunct2 [OF rm]]]) simp
  ultimately show ?thesis using rm by blast
qed

end
