(* ===== verification/Mem_Ops.thy ===== *)
theory Mem_Ops
  imports Mem_Inv
begin

text \<open>
  The invariant \<open>mem_ok\<close> of an address space and its meaning \<open>view\<close>, the partial function from
  addresses to bytes with their protection and kind; and how the allocation operations act on both.
\<close>

section \<open>The invariant and the meaning of an address space\<close>

definition backed :: "(nat \<Rightarrow> (nat \<times> u8 list) option) \<Rightarrow> mem_vma \<Rightarrow> bool" where
  "backed A v \<longleftrightarrow> (\<exists>gs bs. A (v_allocation_id v) = Some (gs, bs)
     \<and> gs + v_allocation_offset v = v_start v \<and> v_end v \<le> gs + length bs)"

definition map_ok :: "guest_memory \<Rightarrow> (nat \<Rightarrow> (nat \<times> u8 list) option) \<Rightarrow> bool" where
  "map_ok m A \<longleftrightarrow>
     vmas_ok (gm_vmas m) \<and> aligned_vmas (gm_vmas m) (gm_address_space_end m)
   \<and> is_page_aligned (gm_address_space_end m) \<and> gm_address_space_end m < 2 ^ 64
   \<and> is_page_aligned (gm_brk_base m) \<and> MIN_GUEST_ADDRESS \<le> gm_brk_base m
   \<and> (\<forall>i gs bs. A i = Some (gs, bs) \<longrightarrow> bs \<noteq> [] \<and> gs + length bs < 2 ^ 64
        \<and> (gm_host_address_mode m = FixedGuest \<longrightarrow> 0 < gs))
   \<and> (\<forall>k v. bt_get (gm_vmas m) k = Some v \<longrightarrow> backed A v)"

definition mem_ok :: "(nat \<Rightarrow> nat) \<Rightarrow> guest_memory \<times> host \<Rightarrow> bool" where
  "mem_ok ext s \<longleftrightarrow> refs_ok ext (fst s) (snd s) \<and> map_ok (fst s) (alloc_at (fst s) (snd s))"

definition content ::
  "vma_map \<Rightarrow> (nat \<Rightarrow> (nat \<times> u8 list) option) \<Rightarrow> nat \<Rightarrow> (u8 \<times> mem_protection \<times> mem_vma_kind) option" where
  "content vmas A a =
     (case locate vmas a of
        None \<Rightarrow> None
      | Some (p, k, i, off) \<Rightarrow>
          (case A i of None \<Rightarrow> None | Some (_, bs) \<Rightarrow> Some (bs ! off, p, k)))"

definition view :: "guest_memory \<times> host \<Rightarrow> nat \<Rightarrow> (u8 \<times> mem_protection \<times> mem_vma_kind) option" where
  "view s = content (gm_vmas (fst s)) (alloc_at (fst s) (snd s))"

lemma mem_okD:
  assumes "mem_ok ext s"
  shows "refs_ok ext (fst s) (snd s)" "map_ok (fst s) (alloc_at (fst s) (snd s))"
    "vmas_ok (gm_vmas (fst s))" "aligned_vmas (gm_vmas (fst s)) (gm_address_space_end (fst s))"
    "is_page_aligned (gm_address_space_end (fst s))" "gm_address_space_end (fst s) < 2 ^ 64"
    "is_page_aligned (gm_brk_base (fst s))" "MIN_GUEST_ADDRESS \<le> gm_brk_base (fst s)"
    "alloc_at (fst s) (snd s) i = Some (gs, bs) \<Longrightarrow> bs \<noteq> []"
    "alloc_at (fst s) (snd s) i = Some (gs, bs) \<Longrightarrow> gs + length bs < 2 ^ 64"
    "bt_get (gm_vmas (fst s)) k = Some v \<Longrightarrow> backed (alloc_at (fst s) (snd s)) v"
    "alloc_at (fst s) (snd s) i = Some (gs, bs) \<Longrightarrow> gm_host_address_mode (fst s) = FixedGuest \<Longrightarrow> 0 < gs"
  using assms by (auto simp: mem_ok_def map_ok_def)

text \<open>The address of an area byte determines its place in the allocation.\<close>

lemma content_Some:
  assumes "vmas_ok vmas" "bt_get vmas k = Some v" "v_start v \<le> a" "a < v_end v" "backed A v"
    "A (v_allocation_id v) = Some (gs, bs)"
  shows "content vmas A a = Some (bs ! (a - gs), v_protection v, v_kind v)" "a - gs < length bs" "gs \<le> a"
proof -
  have b: "gs + v_allocation_offset v = v_start v" "v_end v \<le> gs + length bs"
    using assms(5,6) by (auto simp: backed_def)
  then have "v_allocation_offset v + (a - v_start v) = a - gs" using assms(3) by linarith
  then show "content vmas A a = Some (bs ! (a - gs), v_protection v, v_kind v)"
    using locate_Some [OF assms(1-4)] assms(6) by (simp add: content_def place_def)
  show "a - gs < length bs" "gs \<le> a" using b assms(3,4) by linarith+
qed

lemma content_None: "vmas_ok vmas \<Longrightarrow> locate vmas a = None \<Longrightarrow> content vmas A a = None"
  by (simp add: content_def)

lemma alloc_atE:
  assumes "alloc_at m h i = Some (gs, bs)"
  obtains a where "bt_get (gm_allocations m) i = Some a" "ga_guest_start a = gs" "arc_bytes h (ga_memory a) = bs"
  using assms by (auto simp: alloc_at_def)

section \<open>Operations that change neither areas nor bytes\<close>

definition solid :: "(nat \<Rightarrow> nat) \<Rightarrow> guest_memory \<times> host \<Rightarrow> guest_memory \<times> host \<Rightarrow> bool" where
  "solid ext s s' \<longleftrightarrow> refs_ok ext (fst s') (snd s') \<and> env_kept ext (snd s) (snd s')
   \<and> alloc_at (fst s') (snd s') = alloc_at (fst s) (snd s)
   \<and> fst s' = (fst s)\<lparr>gm_allocations := gm_allocations (fst s')\<rparr>"

lemma solid_refl: "mem_ok ext s \<Longrightarrow> solid ext s s"
  by (simp add: solid_def mem_ok_def)

lemma solid_trans: "solid ext s s' \<Longrightarrow> solid ext s' s'' \<Longrightarrow> solid ext s s''"
  unfolding solid_def by (auto intro: env_kept_trans) (metis guest_memory.unfold_congs(2) guest_memory.surjective guest_memory.update_convs(2))

lemma solid_fields:
  assumes "solid ext s s'"
  shows "gm_vmas (fst s') = gm_vmas (fst s)" "gm_next_allocation_id (fst s') = gm_next_allocation_id (fst s)"
    "gm_brk_base (fst s') = gm_brk_base (fst s)" "gm_current_brk (fst s') = gm_current_brk (fst s)"
    "gm_mmap_base (fst s') = gm_mmap_base (fst s)" "gm_address_space_end (fst s') = gm_address_space_end (fst s)"
    "gm_host_address_mode (fst s') = gm_host_address_mode (fst s)"
    "alloc_at (fst s') (snd s') = alloc_at (fst s) (snd s)" "env_kept ext (snd s) (snd s')"
  using assms by (auto simp: solid_def) (metis guest_memory.select_convs guest_memory.surjective guest_memory.update_convs(2))+

lemma solid_mem_ok:
  assumes "mem_ok ext s" "solid ext s s'"
  shows "mem_ok ext s'" "view s' = view s"
  using assms solid_fields [OF assms(2)] by (auto simp: mem_ok_def map_ok_def solid_def view_def)

lemma host_same_solid: "mem_ok ext (m, h) \<Longrightarrow> host_same h h' \<Longrightarrow> solid ext (m, h) (m, h')"
  by (auto simp: solid_def mem_ok_def intro: host_same_refs_ok host_same_env_kept)

lemma st_post_on_host [post_simps]:
  "st_post (on_host f) s Q E \<longleftrightarrow>
     st_post f (snd s) (\<lambda>x h'. Q x (fst s, h')) (\<lambda>e h'. E (Host e) (fst s, h'))"
  by (auto simp: st_post_def on_host_def split: prod.splits result.splits)

lemma st_post_on_allocation:
  assumes "bt_get (gm_allocations (fst s)) i = Some a"
  shows "st_post (on_allocation i f) s Q E \<longleftrightarrow>
    st_post (f (ga_memory a)) (snd s) (\<lambda>x h'. Q x (fst s, h')) (\<lambda>e h'. E (Host e) (fst s, h'))"
  using assms by (simp add: st_post_def on_allocation_def on_host_def split: prod.splits result.splits)

lemma allocation_ranges_in:
  assumes ok: "mem_ok ext s" and A: "alloc_at (fst s) (snd s) i = Some (gs, bs)"
  shows "\<forall>r \<in> set (allocation_protection_ranges (fst s) i). range_in (length bs) r"
proof
  fix r assume "r \<in> set (allocation_protection_ranges (fst s) i)"
  then obtain v where v: "v \<in> set (bt_values (gm_vmas (fst s)))" "v_allocation_id v = i"
    and r: "r = \<lparr>apr_offset = v_allocation_offset v, apr_len = v_len v, apr_protection = v_protection v\<rparr>"
    by (auto simp: allocation_protection_ranges_def)
  have g: "bt_get (gm_vmas (fst s)) (v_start v) = Some v"
    using v(1) bt_values_get [OF mem_okD(3) [OF ok]] by simp
  show "range_in (length bs) r"
    using mem_okD(11) [OF ok g] vmas_okD(2) [OF mem_okD(3) [OF ok] g] A v(2)
    by (auto simp: r range_in_def backed_def v_len_def)
qed

definition unique_alloc :: "guest_memory \<times> host \<Rightarrow> nat \<Rightarrow> bool" where
  "unique_alloc s i \<longleftrightarrow>
     (\<exists>a. bt_get (gm_allocations (fst s)) i = Some a \<and> arc_count (snd s) (ga_memory a) = 1)"

lemma tick_solid: "mem_ok ext (m, h) \<Longrightarrow> tick h h' \<Longrightarrow> solid ext (m, h) (m, h')"
  by (simp add: host_same_solid tick_host_same)

lemma ensure_allocation_unique_post:
  assumes ok: "mem_ok ext s" and A: "alloc_at (fst s) (snd s) i = Some (gs, bs)" and gs: "0 < gs \<or> gm_host_address_mode (fst s) = Flexible"
  shows "st_post (ensure_allocation_unique i) s
    (\<lambda>_ s'. solid ext s s' \<and> unique_alloc s' i) (\<lambda>_ s'. solid ext s s' \<and> faulted (snd s) (snd s'))"
proof -
  obtain m h where s: "s = (m, h)" by (cases s)
  obtain a where a: "bt_get (gm_allocations m) i = Some a" "ga_guest_start a = gs" "arc_bytes h (ga_memory a) = bs"
    using A s by (auto elim: alloc_atE)
  note live = refs_ok_live [OF mem_okD(1) [OF ok, unfolded s fst_conv snd_conv] a(1)]
  let ?ranges = "allocation_protection_ranges m i"
  have rin: "\<forall>r \<in> set ?ranges. range_in (length bs) r"
    using allocation_ranges_in [OF ok A] s by simp
  have bs: "bs \<noteq> []" "length bs < 2 ^ 64" using mem_okD(9,10) [OF ok A] by auto
  show ?thesis
  proof (cases "arc_count h (ga_memory a) = 1")
    case True
    then show ?thesis
      using ok a s by (auto simp: st_post_def ensure_allocation_unique_def solid_refl unique_alloc_def)
  next
    case False
    have fill: "st_post (filled_memory gs bs ?ranges (gm_host_address_mode m)) h1
        (\<lambda>mem h'. tick h1 h' \<and> hm_bytes mem = bs) (\<lambda>_ h'. tick h1 h' \<and> faulted h1 h')" for h1
    proof (cases "0 < gs")
      case True
      then show ?thesis using filled_memory_post [OF bs(1) True rin bs(2)] by blast
    next
      case False
      then have "gm_host_address_mode m = Flexible" using gs s by simp
      then have "filled_memory gs bs ?ranges (gm_host_address_mode m) = filled_memory 1 bs ?ranges Flexible"
        by (simp add: filled_memory_def allocate_guest_host_memory_at_def fun_eq_iff)
      then show ?thesis using filled_memory_post [OF bs(1) _ rin bs(2), of 1] by simp
    qed
    have "st_post (st_bind (on_host (guarded_bytes (ga_memory a) ?ranges)) (\<lambda>bytes.
            st_bind (on_host (filled_memory (ga_guest_start a) bytes ?ranges (gm_host_address_mode m))) (\<lambda>mem.
            st_modify (allocations_insert i (ga_guest_start a) mem)))) (m, h)
       (\<lambda>_ s'. solid ext s s' \<and> unique_alloc s' i) (\<lambda>_ s'. solid ext s s' \<and> faulted (snd s) (snd s'))"
      unfolding post_simps fst_conv snd_conv
    proof (rule st_post_mono [OF guarded_bytes_post])
      fix bytes h1 assume b: "host_same h h1 \<and> bytes = arc_bytes h (ga_memory a)"
      have ok1: "mem_ok ext (m, h1)" using solid_mem_ok(1) [OF ok] host_same_solid b ok s by blast
      have le: "h_os h1 = h_os h" "h_calls h \<le> h_calls h1" using b by (auto simp: host_same_def)
      show "st_post (filled_memory (ga_guest_start a) bytes ?ranges (gm_host_address_mode m)) h1
          (\<lambda>x h'. solid ext s (allocations_insert i (ga_guest_start a) x (m, h')) \<and>
             unique_alloc (allocations_insert i (ga_guest_start a) x (m, h')) i)
          (\<lambda>e h'. solid ext s (m, h') \<and> faulted (snd s) h')"
        unfolding a(2) conjunct2 [OF b] a(3)
      proof (rule st_post_mono [OF fill])
        fix mem :: host_memory and h2 assume m2: "tick h1 h2 \<and> hm_bytes mem = bs"
        have sol2: "solid ext s (m, h2)"
          using solid_trans [OF _ tick_solid [OF ok1]] host_same_solid [of ext m h h1] b m2 ok s by auto
        have ok2: "mem_ok ext (m, h2)" using solid_mem_ok(1) [OF ok sol2] .
        obtain m3 h3 where ins: "(m3, h3) = allocations_insert i gs mem (m, h2)" by (metis prod.exhaust)
        have "i < gm_next_allocation_id m"
          using refs_okD(2) [OF mem_okD(1) [OF ok]] a(1) s by simp
        note I = allocations_insert [OF mem_okD(1) [OF ok2, unfolded fst_conv snd_conv] this ins]
        have "alloc_at m3 h3 = alloc_at m h2"
          using I A solid_fields(8) [OF sol2] m2 s by (auto simp: fun_eq_iff)
        then have "solid ext (m, h2) (m3, h3)"
          using I by (auto simp: solid_def)
        moreover have "unique_alloc (m3, h3) i"
          using I by (auto simp: unique_alloc_def bt_get_insert)
        ultimately show "solid ext s (allocations_insert i gs mem (m, h2)) \<and>
            unique_alloc (allocations_insert i gs mem (m, h2)) i"
          using solid_trans [OF sol2] by (simp flip: ins)
      next
        fix e :: host_error and h2 assume m2: "tick h1 h2 \<and> faulted h1 h2"
        show "solid ext s (m, h2) \<and> faulted (snd s) h2"
          using solid_trans [OF _ tick_solid [OF ok1]] host_same_solid [of ext m h h1] b m2 ok s
            faulted_before [OF le] by auto
      qed
    next
      fix e :: host_error and h1 assume "host_same h h1 \<and> faulted h h1"
      then show "solid ext s (m, h1) \<and> faulted (snd s) h1"
        using host_same_solid ok s by auto
    qed (use live rin bs a s in auto)
    then show ?thesis
      using a(1) False s by (simp add: st_post_def ensure_allocation_unique_def Let_def)
  qed
qed

lemma unique_post:
  assumes ok: "mem_ok ext s" and A: "alloc_at (fst s) (snd s) i = Some (gs, bs)"
  shows "st_post (ensure_allocation_unique i) s
    (\<lambda>_ s'. solid ext s s' \<and> unique_alloc s' i) (\<lambda>_ s'. solid ext s s' \<and> faulted (snd s) (snd s'))"
  using ensure_allocation_unique_post [OF ok A] mem_okD(12) [OF ok A]
  by (cases "gm_host_address_mode (fst s)") auto

section \<open>Protection changes of one allocation\<close>

lemma on_allocation_solid:
  assumes ok: "mem_ok ext s" and A: "alloc_at (fst s) (snd s) i = Some (gs, bs)"
    and f: "\<And>ob. h_objects (snd s) ob \<noteq> None \<Longrightarrow> arc_bytes (snd s) ob = bs \<Longrightarrow>
      st_post (f ob) (snd s) (\<lambda>_ h'. host_same (snd s) h') (\<lambda>_ h'. host_same (snd s) h' \<and> faulted (snd s) h')"
  shows "st_post (on_allocation i f) s (\<lambda>_ s'. solid ext s s') (\<lambda>_ s'. solid ext s s' \<and> faulted (snd s) (snd s'))"
proof -
  obtain a where a: "bt_get (gm_allocations (fst s)) i = Some a" "arc_bytes (snd s) (ga_memory a) = bs"
    using A by (auto elim: alloc_atE)
  have "st_post (f (ga_memory a)) (snd s) (\<lambda>_ h'. host_same (snd s) h')
      (\<lambda>_ h'. host_same (snd s) h' \<and> faulted (snd s) h')"
    using refs_ok_live(1) [OF mem_okD(1) [OF ok] a(1)] a(2) by (intro f)
  then show ?thesis
    unfolding st_post_on_allocation [OF a(1)]
    by (rule st_post_mono) (use host_same_solid [of ext "fst s" "snd s"] ok in auto)
qed

lemma protect_range_post:
  assumes ok: "mem_ok ext s" and A: "alloc_at (fst s) (snd s) i = Some (gs, bs)"
    and "0 < len" "offset + len \<le> length bs"
  shows "st_post (on_allocation i (\<lambda>ob. on_object ob (hm_protect_range offset len p))) s
    (\<lambda>_ s'. solid ext s s') (\<lambda>_ s'. solid ext s s' \<and> faulted (snd s) (snd s'))"
  using assms mem_okD(10) [OF ok A] by (intro on_allocation_solid [OF ok A] protect_object_post) auto

lemma protect_whole_post:
  assumes ok: "mem_ok ext s" and A: "alloc_at (fst s) (snd s) i = Some (gs, bs)"
  shows "st_post (on_allocation i (\<lambda>ob. on_object ob (hm_protect p))) s
    (\<lambda>_ s'. solid ext s s') (\<lambda>_ s'. solid ext s s' \<and> faulted (snd s) (snd s'))"
  using assms mem_okD(9,10) [OF ok A] by (intro on_allocation_solid [OF ok A] protect_all_post) auto

lemma apply_ranges_post:
  assumes ok: "mem_ok ext s" and A: "alloc_at (fst s) (snd s) i = Some (gs, bs)"
    and "\<forall>r \<in> set ranges. range_in (length bs) r"
  shows "st_post (on_allocation i (\<lambda>ob. on_object ob (apply_allocation_protections ranges))) s
    (\<lambda>_ s'. solid ext s s') (\<lambda>_ s'. solid ext s s' \<and> faulted (snd s) (snd s'))"
  using assms mem_okD(10) [OF ok A] by (intro on_allocation_solid [OF ok A] apply_object_post) auto

lemma flush_post:
  assumes ok: "mem_ok ext s" and A: "alloc_at (fst s) (snd s) i = Some (gs, bs)"
    and "0 < len" "offset + len \<le> length bs"
  shows "st_post (flush_allocation i offset len) s
    (\<lambda>_ s'. solid ext s s') (\<lambda>_ s'. solid ext s s' \<and> faulted (snd s) (snd s'))"
  unfolding flush_allocation_def
proof (rule on_allocation_solid [OF ok A])
  fix ob assume ob: "h_objects (snd s) ob \<noteq> None" "arc_bytes (snd s) ob = bs"
  then obtain b where b: "h_objects (snd s) ob = Some b" by blast
  have len: "offset + len \<le> length (hm_bytes (ho_memory b))" "offset + len < 2 ^ 64"
    using assms(4) object_bytes [OF b] ob mem_okD(10) [OF ok A] by auto
  then show "st_post (on_object ob (\<lambda>(mem, h). case hm_flush offset len mem h of (r, h) \<Rightarrow> (r, mem, h))) (snd s)
      (\<lambda>_ h'. host_same (snd s) h') (\<lambda>_ h'. host_same (snd s) h' \<and> faulted (snd s) h')"
    using assms(3) os_ask [where h = "snd s" and c = Flush_instruction_cache]
    by (intro on_object_post [OF b])
      (auto simp: st_post_def hm_flush_def memory_kept_def split: prod.splits option.splits)
qed

section \<open>Writing to an allocation\<close>

definition touches ::
  "(nat \<Rightarrow> nat) \<Rightarrow> (nat \<Rightarrow> (nat \<times> u8 list) option) \<Rightarrow> guest_memory \<times> host \<Rightarrow> guest_memory \<times> host \<Rightarrow> bool" where
  "touches ext A s s' \<longleftrightarrow> refs_ok ext (fst s') (snd s') \<and> env_kept ext (snd s) (snd s')
   \<and> alloc_at (fst s') (snd s') = A \<and> fst s' = (fst s)\<lparr>gm_allocations := gm_allocations (fst s')\<rparr>"

lemma solid_as_touches: "solid ext s s' \<longleftrightarrow> touches ext (alloc_at (fst s) (snd s)) s s'"
  by (simp add: solid_def touches_def)

lemma touches_fields:
  assumes "touches ext A s s'"
  shows "gm_vmas (fst s') = gm_vmas (fst s)" "gm_next_allocation_id (fst s') = gm_next_allocation_id (fst s)"
    "gm_brk_base (fst s') = gm_brk_base (fst s)" "gm_current_brk (fst s') = gm_current_brk (fst s)"
    "gm_mmap_base (fst s') = gm_mmap_base (fst s)" "gm_address_space_end (fst s') = gm_address_space_end (fst s)"
    "gm_host_address_mode (fst s') = gm_host_address_mode (fst s)"
    "alloc_at (fst s') (snd s') = A" "env_kept ext (snd s) (snd s')"
  using assms by (auto simp: touches_def) (metis guest_memory.select_convs guest_memory.surjective guest_memory.update_convs(2))+

lemma touches_trans: "touches ext B s s' \<Longrightarrow> touches ext A s' s'' \<Longrightarrow> touches ext A s s''"
  unfolding touches_def by (auto intro: env_kept_trans) (metis guest_memory.surjective guest_memory.update_convs(2))

definition same_extent :: "(nat \<Rightarrow> (nat \<times> u8 list) option) \<Rightarrow> (nat \<Rightarrow> (nat \<times> u8 list) option) \<Rightarrow> bool" where
  "same_extent A B \<longleftrightarrow>
     (\<forall>i. map_option (\<lambda>(gs, bs). (gs, length bs)) (B i) = map_option (\<lambda>(gs, bs). (gs, length bs)) (A i))"

lemma same_extent_backed: "same_extent A B \<Longrightarrow> backed A v \<Longrightarrow> backed B v"
proof -
  assume "same_extent A B" "backed A v"
  then obtain gs bs where A: "A (v_allocation_id v) = Some (gs, bs)" "gs + v_allocation_offset v = v_start v"
    "v_end v \<le> gs + length bs" by (auto simp: backed_def)
  moreover have "map_option (\<lambda>(gs, bs). (gs, length bs)) (B (v_allocation_id v)) = Some (gs, length bs)"
    using \<open>same_extent A B\<close> A(1) by (simp add: same_extent_def)
  ultimately show "backed B v" by (auto simp: backed_def)
qed

lemma same_extent_map_ok:
  assumes "map_ok m A" "same_extent A B" "m' = m\<lparr>gm_allocations := al\<rparr>"
  shows "map_ok m' B"
proof -
  have "bs \<noteq> [] \<and> gs + length bs < 2 ^ 64 \<and> (gm_host_address_mode m = FixedGuest \<longrightarrow> 0 < gs)"
    if "B i = Some (gs, bs)" for i gs bs
  proof -
    have "map_option (\<lambda>(gs, bs). (gs, length bs)) (A i) = Some (gs, length bs)"
      using assms(2) that unfolding same_extent_def by (metis option.simps(9) case_prod_conv)
    then obtain bs' where "A i = Some (gs, bs')" "length bs' = length bs" by auto
    then show ?thesis using assms(1) unfolding map_ok_def by (metis length_0_conv)
  qed
  then show ?thesis
    using assms same_extent_backed [OF assms(2)] by (auto simp: map_ok_def)
qed

lemma touches_mem_ok:
  assumes "mem_ok ext s" "touches ext A s s'" "same_extent (alloc_at (fst s) (snd s)) A"
  shows "mem_ok ext s'"
  using assms same_extent_map_ok [OF mem_okD(2) [OF assms(1)] assms(3)]
  unfolding mem_ok_def touches_def by metis

lemma same_extent_upd:
  "A i = Some (gs, bs) \<Longrightarrow> length bs' = length bs \<Longrightarrow> same_extent A (A(i \<mapsto> (gs, bs')))"
  by (simp add: same_extent_def)

lemma write_object_post:
  assumes "h_objects h i \<noteq> None" "a \<le> b" "b \<le> length (arc_bytes h i)" "length xs = b - a"
  shows "st_post (write_object i a b xs) h
    (\<lambda>_ h'. h_os h' = h_os h \<and> h_calls h' = h_calls h \<and> h_next h' = h_next h
       \<and> (\<forall>j. arc_count h' j = arc_count h j) \<and> (\<forall>j. (h_objects h' j = None) = (h_objects h j = None))
       \<and> (\<forall>j. arc_bytes h' j = (if j = i then splice a xs (arc_bytes h i) else arc_bytes h j)))
    (\<lambda>_ _. False)"
proof -
  obtain ob where ob: "h_objects h i = Some ob" using assms(1) by blast
  have w: "write_slice (hm_bytes (ho_memory ob)) a b xs = Ok (splice a xs (arc_bytes h i))"
    using assms object_bytes [OF ob] by (simp add: write_slice_def)
  show ?thesis
    using ob by (auto simp: write_object_def on_object_def st_post_def w arc_set_memory_def arc_count_def arc_bytes_def)
qed

lemma allocation_memory_write_post:
  assumes ok: "mem_ok ext s" and A: "alloc_at (fst s) (snd s) i = Some (gs, bs)"
    and ab: "a \<le> b" "b \<le> length bs" "length xs = b - a"
  shows "st_post (allocation_memory_write i a b xs) s
    (\<lambda>_ s'. touches ext ((alloc_at (fst s) (snd s))(i \<mapsto> (gs, splice a xs bs))) s s')
    (\<lambda>_ s'. solid ext s s' \<and> faulted (snd s) (snd s'))"
  unfolding allocation_memory_write_def allocation_memory_mut_def st_post_bind
proof (rule st_post_mono [OF unique_post [OF ok A]])
  fix u s1 assume s1: "solid ext s s1 \<and> unique_alloc s1 i"
  then obtain al where al: "bt_get (gm_allocations (fst s1)) i = Some al" "arc_count (snd s1) (ga_memory al) = 1"
    by (auto simp: unique_alloc_def)
  have A1: "alloc_at (fst s1) (snd s1) = alloc_at (fst s) (snd s)" using solid_fields(8) s1 by blast
  have ok1: "mem_ok ext s1" using solid_mem_ok(1) [OF ok] s1 by blast
  have "alloc_at (fst s1) (snd s1) i = Some (gs, bs)" using A A1 by simp
  then have bs: "arc_bytes (snd s1) (ga_memory al) = bs" and start: "ga_guest_start al = gs"
    using al(1) by (simp_all add: alloc_at_def)
  have live: "h_objects (snd s1) (ga_memory al) \<noteq> None"
    using refs_ok_live(1) [OF mem_okD(1) [OF ok1] al(1)] .
  have ext0: "ext (ga_memory al) = 0"
    using refs_ok_live(2) [OF mem_okD(1) [OF ok1] al(1)] al(2) by simp
  have W: "st_post (write_object (ga_memory al) a b xs) (snd s1)
      (\<lambda>_ h'. touches ext ((alloc_at (fst s) (snd s))(i \<mapsto> (gs, splice a xs bs))) s (fst s1, h')) (\<lambda>_ _. False)"
  proof (rule st_post_mono [OF write_object_post])
    fix u h' assume h': "h_os h' = h_os (snd s1) \<and> h_calls h' = h_calls (snd s1) \<and> h_next h' = h_next (snd s1)
       \<and> (\<forall>j. arc_count h' j = arc_count (snd s1) j) \<and> (\<forall>j. (h_objects h' j = None) = (h_objects (snd s1) j = None))
       \<and> (\<forall>j. arc_bytes h' j = (if j = ga_memory al then splice a xs (arc_bytes (snd s1) (ga_memory al)) else arc_bytes (snd s1) j))"
    have "host_ok h'" using refs_okD(1) [OF mem_okD(1) [OF ok1]] h' by (simp add: host_ok_alt)
    then have "refs_ok ext (fst s1) h'" using mem_okD(1) [OF ok1] h' by (simp add: refs_ok_def)
    moreover have "env_kept ext (snd s1) h'" using h' ext0 by (auto simp: env_kept_def)
    moreover have "alloc_at (fst s1) h' = (alloc_at (fst s) (snd s))(i \<mapsto> (gs, splice a xs bs))"
    proof
      fix k
      show "alloc_at (fst s1) h' k = ((alloc_at (fst s) (snd s))(i \<mapsto> (gs, splice a xs bs))) k"
      proof (cases "k = i")
        case True
        then show ?thesis using al(1) h' bs start by (simp add: alloc_at_def)
      next
        case False
        have "ga_memory c \<noteq> ga_memory al" if "bt_get (gm_allocations (fst s1)) k = Some c" for c
          using refs_okD(3) [OF mem_okD(1) [OF ok1] that al(1)] False by auto
        then have "alloc_at (fst s1) h' k = alloc_at (fst s1) (snd s1) k"
          using h' by (cases "bt_get (gm_allocations (fst s1)) k") (simp_all add: alloc_at_def)
        then show ?thesis using False A1 by simp
      qed
    qed
    ultimately show "touches ext ((alloc_at (fst s) (snd s))(i \<mapsto> (gs, splice a xs bs))) s (fst s1, h')"
      using s1 env_kept_trans by (auto simp: touches_def solid_def)
  qed (use live ab bs in auto)
  show "st_post (\<lambda>s. case bt_get (gm_allocations (fst s)) i of None \<Rightarrow> (Panic, s)
      | Some a \<Rightarrow> if arc_count (snd s) (ga_memory a) = 1 then (Ok (ga_memory a), s) else (Err AccessDenied, s)) s1
     (\<lambda>x s'. st_post (on_host (write_object x a b xs)) s'
        (\<lambda>_ s'. touches ext ((alloc_at (fst s) (snd s))(i \<mapsto> (gs, splice a xs bs))) s s')
        (\<lambda>_ s'. solid ext s s' \<and> faulted (snd s) (snd s')))
     (\<lambda>_ s'. solid ext s s' \<and> faulted (snd s) (snd s'))"
    using al W by (simp add: st_post_def [of "\<lambda>s. case _ s of None \<Rightarrow> _ s | Some a \<Rightarrow> _ a s"] st_post_on_host)
      (rule st_post_mono [OF W], auto)
qed auto

end
