(* ===== verification/Mem_Map.thy ===== *)
theory Mem_Map
  imports Mem_Ops
begin

text \<open>
  Placing mappings: \<open>ensure_host_allocation\<close> with its merging of overlapping allocations, and
  \<open>insert_mapping\<close>.  The effect of each operation on the invariant, on the meaning of the address
  space and on the objects of other address spaces, on success and on error.
\<close>

section \<open>Chaining\<close>

lemma solid_faulted:
  assumes "solid ext s s1"
  shows "faulted (snd s1) h \<Longrightarrow> faulted (snd s) h"
  using assms by (auto simp: solid_def env_kept_def intro: faulted_before)

lemma touches_faulted:
  assumes "touches ext A s s1"
  shows "faulted (snd s1) h \<Longrightarrow> faulted (snd s) h"
  using assms by (auto simp: touches_def env_kept_def intro: faulted_before)

text \<open>After an operation that changes neither areas nor bytes, the next one starts from an address
  space with the same meaning.\<close>

lemma chain_solid:
  assumes ok: "mem_ok ext s"
    and f: "st_post f s (\<lambda>x s'. solid ext s s' \<and> R x s') (\<lambda>e s'. solid ext s s' \<and> faulted (snd s) (snd s'))"
    and g: "\<And>x s1. solid ext s s1 \<Longrightarrow> mem_ok ext s1 \<Longrightarrow> R x s1 \<Longrightarrow> st_post (g x) s1 Q E"
    and E: "\<And>e s'. solid ext s s' \<Longrightarrow> faulted (snd s) (snd s') \<Longrightarrow> E e s'"
  shows "st_post (st_bind f g) s Q E"
  unfolding st_post_bind
  by (rule st_post_mono [OF f]) (use g E solid_mem_ok(1) [OF ok] in blast)+

lemma chain_solid':
  assumes ok: "mem_ok ext s"
    and f: "st_post f s (\<lambda>x s'. solid ext s s') (\<lambda>e s'. solid ext s s' \<and> faulted (snd s) (snd s'))"
    and g: "\<And>x s1. solid ext s s1 \<Longrightarrow> mem_ok ext s1 \<Longrightarrow> st_post (g x) s1 Q E"
    and E: "\<And>e s'. solid ext s s' \<Longrightarrow> faulted (snd s) (snd s') \<Longrightarrow> E e s'"
  shows "st_post (st_bind f g) s Q E"
  by (rule chain_solid [where R = "\<lambda>_ _. True", OF ok]) (use f g E in auto)

definition zeroed :: "nat \<Rightarrow> nat \<Rightarrow> u8 list \<Rightarrow> u8 list" where
  "zeroed off len bs = splice off (replicate len 0) bs"

lemma length_zeroed [simp]: "off + len \<le> length bs \<Longrightarrow> length (zeroed off len bs) = length bs"
  by (simp add: zeroed_def)

lemma zeroed_nth:
  "off + len \<le> length bs \<Longrightarrow> k < length bs \<Longrightarrow>
     zeroed off len bs ! k = (if off \<le> k \<and> k < off + len then 0 else bs ! k)"
  by (auto simp: zeroed_def splice_def nth_append)

lemma zero_post:
  assumes ok: "mem_ok ext s" and A: "alloc_at (fst s) (snd s) i = Some (gs, bs)"
    and len: "0 < len" "off + len \<le> length bs"
  defines "A' \<equiv> (alloc_at (fst s) (snd s))(i \<mapsto> (gs, zeroed off len bs))"
  shows "st_post (zero_allocation_range i off len) s (\<lambda>_ s'. touches ext A' s s')
    (\<lambda>_ s'. (solid ext s s' \<or> touches ext A' s s') \<and> faulted (snd s) (snd s'))"
proof -
  let ?ranges = "allocation_protection_ranges (fst s) i"
  have rin: "\<forall>r \<in> set ?ranges. range_in (length bs) r" by (rule allocation_ranges_in [OF ok A])
  have add: "nat_checked_add off len = Some (off + len)"
    using len mem_okD(10) [OF ok A] by (simp add: nat_checked_add_def)
  have "st_post (st_bind (ensure_allocation_unique i) (\<lambda>_.
          st_bind (on_allocation i (\<lambda>ob. on_object ob (hm_protect ReadWrite))) (\<lambda>_.
          st_bind (allocation_memory_write i off (off + len) (replicate (off + len - off) 0)) (\<lambda>_.
          on_allocation i (\<lambda>ob. on_object ob (apply_allocation_protections ?ranges)))))) s
      (\<lambda>_ s'. touches ext A' s s')
      (\<lambda>_ s'. (solid ext s s' \<or> touches ext A' s s') \<and> faulted (snd s) (snd s'))"
  proof (rule chain_solid [OF ok unique_post [OF ok A]])
    fix u s1 assume s1: "solid ext s s1" and ok1: "mem_ok ext s1"
    have A1: "alloc_at (fst s1) (snd s1) i = Some (gs, bs)" using solid_fields(8) [OF s1] A by simp
    show "st_post (st_bind (on_allocation i (\<lambda>ob. on_object ob (hm_protect ReadWrite))) (\<lambda>_.
          st_bind (allocation_memory_write i off (off + len) (replicate (off + len - off) 0)) (\<lambda>_.
          on_allocation i (\<lambda>ob. on_object ob (apply_allocation_protections ?ranges))))) s1
        (\<lambda>_ s'. touches ext A' s s')
        (\<lambda>_ s'. (solid ext s s' \<or> touches ext A' s s') \<and> faulted (snd s) (snd s'))"
    proof (rule chain_solid' [OF ok1 protect_whole_post [OF ok1 A1]])
      fix u s2 assume s12: "solid ext s1 s2" and ok2: "mem_ok ext s2"
      have s2: "solid ext s s2" using solid_trans [OF s1 s12] .
      have eq2: "alloc_at (fst s2) (snd s2) = alloc_at (fst s) (snd s)" using solid_fields(8) [OF s2] .
      then have A2: "alloc_at (fst s2) (snd s2) i = Some (gs, bs)" using A by simp
      show "st_post (st_bind (allocation_memory_write i off (off + len) (replicate (off + len - off) 0)) (\<lambda>_.
            on_allocation i (\<lambda>ob. on_object ob (apply_allocation_protections ?ranges)))) s2
          (\<lambda>_ s'. touches ext A' s s')
          (\<lambda>_ s'. (solid ext s s' \<or> touches ext A' s s') \<and> faulted (snd s) (snd s'))"
        unfolding st_post_bind
      proof (rule st_post_mono [OF allocation_memory_write_post [OF ok2 A2]])
        fix u s3
        assume t: "touches ext ((alloc_at (fst s2) (snd s2))(i \<mapsto> (gs, splice off (replicate (off + len - off) 0) bs))) s2 s3"
        then have t2: "touches ext A' s2 s3" by (simp add: A'_def zeroed_def eq2)
        have t3: "touches ext A' s s3" using touches_trans [OF s2 [unfolded solid_as_touches] t2] .
        have ext3: "same_extent (alloc_at (fst s2) (snd s2)) A'"
          unfolding eq2 A'_def using A len by (intro same_extent_upd) auto
        have ok3: "mem_ok ext s3" by (rule touches_mem_ok [OF ok2 t2 ext3])
        have A3: "alloc_at (fst s3) (snd s3) i = Some (gs, zeroed off len bs)"
          using touches_fields(8) [OF t3] by (simp add: A'_def)
        show "st_post (on_allocation i (\<lambda>ob. on_object ob (apply_allocation_protections ?ranges))) s3
            (\<lambda>_ s'. touches ext A' s s')
            (\<lambda>_ s'. (solid ext s s' \<or> touches ext A' s s') \<and> faulted (snd s) (snd s'))"
        proof (rule st_post_mono [OF apply_ranges_post [OF ok3 A3]])
          fix u s4 assume "solid ext s3 s4"
          then have "touches ext A' s3 s4" unfolding solid_as_touches using touches_fields(8) [OF t3] by simp
          then show "touches ext A' s s4" using touches_trans [OF t3] by blast
        next
          fix e s4 assume e: "solid ext s3 s4 \<and> faulted (snd s3) (snd s4)"
          then have "touches ext A' s3 s4" unfolding solid_as_touches using touches_fields(8) [OF t3] by simp
          then show "(solid ext s s4 \<or> touches ext A' s s4) \<and> faulted (snd s) (snd s4)"
            using touches_trans [OF t3] touches_faulted [OF t3] e by blast
        qed (use rin len in auto)
      next
        fix e s3 assume "solid ext s2 s3 \<and> faulted (snd s2) (snd s3)"
        then show "(solid ext s s3 \<or> touches ext A' s s3) \<and> faulted (snd s) (snd s3)"
          using solid_trans [OF s2] solid_faulted [OF s2] by blast
      qed (use len in auto)
    next
      fix e :: guest_memory_error and s2 assume "solid ext s1 s2" "faulted (snd s1) (snd s2)"
      then show "(solid ext s s2 \<or> touches ext A' s s2) \<and> faulted (snd s) (snd s2)"
        using solid_trans [OF s1] solid_faulted [OF s1] by blast
    qed
  qed auto
  then show ?thesis by (simp add: zero_allocation_range_def add Let_def st_post_def)
qed

end
