(* ===== verification/Mem_Cow.thy ===== *)
theory Mem_Cow
  imports Mem_Map
begin

text \<open>
  Operations that reorganise an address space without changing what the guest sees: splitting areas,
  dropping allocations without areas, and detaching the areas of shared allocations before a write.
\<close>

section \<open>The invariant by address\<close>

lemma backed_iff:
  assumes ok: "vmas_ok vmas"
  shows "(\<forall>k v. bt_get vmas k = Some v \<longrightarrow> backed A v) \<longleftrightarrow>
    (\<forall>a p k i off. locate vmas a = Some (p, k, i, off) \<longrightarrow>
       (\<exists>gs bs. A i = Some (gs, bs) \<and> gs + off = a \<and> off < length bs))" (is "?L \<longleftrightarrow> ?R")
proof
  assume L: ?L
  show ?R
  proof (intro allI impI)
    fix a p k i off assume "locate vmas a = Some (p, k, i, off)"
    then obtain v where v: "bt_get vmas (v_start v) = Some v" "v_start v \<le> a" "a < v_end v"
      "(p, k, i, off) = place v a" using locate_SomeE [OF ok] by metis
    then show "\<exists>gs bs. A i = Some (gs, bs) \<and> gs + off = a \<and> off < length bs"
      using L [rule_format, OF v(1)] by (auto simp: backed_def place_def)
  qed
next
  assume R: ?R
  show ?L
  proof (intro allI impI)
    fix k v assume v: "bt_get vmas k = Some v"
    note kv = vmas_okD(1,2) [OF ok v]
    have at: "\<exists>gs bs. A (v_allocation_id v) = Some (gs, bs)
        \<and> gs + (v_allocation_offset v + (a - v_start v)) = a \<and> v_allocation_offset v + (a - v_start v) < length bs"
      if "v_start v \<le> a" "a < v_end v" for a
      using R locate_Some [OF ok v that] unfolding place_def by blast
    obtain gs bs where A: "A (v_allocation_id v) = Some (gs, bs)" "gs + v_allocation_offset v = v_start v"
      using at [of "v_start v"] kv by auto
    have "v_allocation_offset v + (v_end v - 1 - v_start v) < length bs"
      using at [of "v_end v - 1"] kv A(1) by auto
    then show "backed A v" using A kv by (auto simp: backed_def)
  qed
qed

lemma backed_locate:
  assumes "vmas_ok vmas" "vmas_ok vmas'" "locate vmas' = locate vmas"
    "\<forall>k v. bt_get vmas k = Some v \<longrightarrow> backed A v"
  shows "\<forall>k v. bt_get vmas' k = Some v \<longrightarrow> backed A v"
  using assms backed_iff by metis

text \<open>The address of a byte determines its place in its allocation.\<close>

lemma content_at:
  assumes "vmas_ok vmas" "\<forall>k v. bt_get vmas k = Some v \<longrightarrow> backed A v" "locate vmas a = Some (p, k, i, off)"
  obtains gs bs where "A i = Some (gs, bs)" "gs + off = a" "off < length bs" "content vmas A a = Some (bs ! off, p, k)"
proof -
  obtain gs bs where "A i = Some (gs, bs)" "gs + off = a" "off < length bs"
    using assms backed_iff [OF assms(1), of A] by blast
  then show thesis using that assms(3) by (simp add: content_def)
qed

section \<open>Quiet operations\<close>

definition same_layout :: "guest_memory \<Rightarrow> guest_memory \<Rightarrow> bool" where
  "same_layout m m' \<longleftrightarrow> gm_brk_base m' = gm_brk_base m \<and> gm_current_brk m' = gm_current_brk m
   \<and> gm_mmap_base m' = gm_mmap_base m \<and> gm_address_space_end m' = gm_address_space_end m
   \<and> gm_host_address_mode m' = gm_host_address_mode m"

definition quiet :: "(nat \<Rightarrow> nat) \<Rightarrow> guest_memory \<times> host \<Rightarrow> guest_memory \<times> host \<Rightarrow> bool" where
  "quiet ext s s' \<longleftrightarrow> mem_ok ext s' \<and> env_kept ext (snd s) (snd s') \<and> view s' = view s
   \<and> same_layout (fst s) (fst s')
   \<and> (\<forall>a. boundary a (gm_vmas (fst s)) \<longrightarrow> boundary a (gm_vmas (fst s')))"

text \<open>The identifiers of allocations are used up.\<close>

definition exhausted :: "guest_memory \<times> host \<Rightarrow> bool" where
  "exhausted s \<longleftrightarrow> 2 ^ 64 \<le> gm_next_allocation_id (fst s) + 1"

definition quiet_err ::
  "(nat \<Rightarrow> nat) \<Rightarrow> guest_memory \<times> host \<Rightarrow> guest_memory_error \<Rightarrow> guest_memory \<times> host \<Rightarrow> bool" where
  "quiet_err ext s e s' \<longleftrightarrow>
     quiet ext s s' \<and> (faulted (snd s) (snd s') \<or> exhausted s' \<and> e = OutOfMemory)"

lemma same_layout_refl [simp]: "same_layout m m"
  by (simp add: same_layout_def)

lemma quiet_refl: "mem_ok ext s \<Longrightarrow> quiet ext s s"
  by (simp add: quiet_def)

lemma quiet_trans: "quiet ext s s' \<Longrightarrow> quiet ext s' s'' \<Longrightarrow> quiet ext s s''"
  by (auto simp: quiet_def same_layout_def intro: env_kept_trans)

lemma solid_quiet:
  assumes "mem_ok ext s" "solid ext s s'"
  shows "quiet ext s s'"
  unfolding quiet_def same_layout_def
  using solid_mem_ok [OF assms] solid_fields(1,3-7,9) [OF assms(2)] by simp

lemma quietD:
  assumes "quiet ext s s'"
  shows "mem_ok ext s'" "env_kept ext (snd s) (snd s')" "view s' = view s"
    "gm_host_address_mode (fst s') = gm_host_address_mode (fst s)"
    "gm_address_space_end (fst s') = gm_address_space_end (fst s)"
    "gm_brk_base (fst s') = gm_brk_base (fst s)"
    "boundary a (gm_vmas (fst s)) \<Longrightarrow> boundary a (gm_vmas (fst s'))"
  using assms by (auto simp: quiet_def same_layout_def)

lemma env_kept_faulted:
  "env_kept ext h h' \<Longrightarrow> faulted h' h'' \<Longrightarrow> faulted h h''"
  "env_kept ext h' h'' \<Longrightarrow> faulted h h' \<Longrightarrow> faulted h h''"
  by (auto simp: env_kept_def intro: faulted_before faulted_after)

lemma quiet_err_trans: "quiet ext s s' \<Longrightarrow> quiet_err ext s' e s'' \<Longrightarrow> quiet_err ext s e s''"
  unfolding quiet_err_def using quiet_trans env_kept_faulted quietD(2) by blast

lemma solid_quiet_err: "mem_ok ext s \<Longrightarrow> solid ext s s' \<Longrightarrow> faulted (snd s) (snd s') \<Longrightarrow> quiet_err ext s e s'"
  by (simp add: quiet_err_def solid_quiet)

lemma solid_post_quiet:
  assumes "mem_ok ext s"
    and "st_post f s (\<lambda>x s'. solid ext s s' \<and> R x s') (\<lambda>e s'. solid ext s s' \<and> faulted (snd s) (snd s'))"
  shows "st_post f s (\<lambda>x s'. quiet ext s s' \<and> R x s') (quiet_err ext s)"
  by (rule st_post_mono [OF assms(2)]) (use solid_quiet solid_quiet_err assms(1) in blast)+

text \<open>A sequence of quiet operations is quiet.\<close>

lemma quiet_bind:
  assumes "st_post f s (\<lambda>x s'. quiet ext s s' \<and> R x s') (quiet_err ext s)"
    and "\<And>x s'. quiet ext s s' \<Longrightarrow> R x s' \<Longrightarrow> st_post (g x) s' (\<lambda>y s''. quiet ext s' s'' \<and> S y s'') (quiet_err ext s')"
  shows "st_post (st_bind f g) s (\<lambda>y s''. quiet ext s s'' \<and> S y s'') (quiet_err ext s)"
  unfolding st_post_bind
proof (rule st_post_mono [OF assms(1)])
  fix x s' assume x: "quiet ext s s' \<and> R x s'"
  have "st_post (g x) s' (\<lambda>y s''. quiet ext s' s'' \<and> S y s'') (quiet_err ext s')"
    using assms(2) x by blast
  then show "st_post (g x) s' (\<lambda>y s''. quiet ext s s'' \<and> S y s'') (quiet_err ext s)"
    by (rule st_post_mono) (use x quiet_trans quiet_err_trans in blast)+
qed

lemma quiet_for:
  assumes "mem_ok ext s" "R s"
    and "\<And>x s'. x \<in> set xs \<Longrightarrow> quiet ext s s' \<Longrightarrow> R s' \<Longrightarrow>
      st_post (f x) s' (\<lambda>_ s''. quiet ext s' s'' \<and> R s'') (quiet_err ext s')"
  shows "st_post (st_for xs f) s (\<lambda>_ s'. quiet ext s s' \<and> R s') (quiet_err ext s)"
proof (rule st_post_for)
  fix x s' assume x: "x \<in> set xs" "quiet ext s s' \<and> R s'"
  have "st_post (f x) s' (\<lambda>_ s''. quiet ext s' s'' \<and> R s'') (quiet_err ext s')"
    using assms(3) x by blast
  then show "st_post (f x) s' (\<lambda>_ s''. quiet ext s s'' \<and> R s'') (quiet_err ext s)"
    by (rule st_post_mono) (use x quiet_trans quiet_err_trans in blast)+
qed (use assms quiet_refl in auto)

section \<open>Splitting areas and dropping allocations\<close>

lemma aligned_split:
  assumes "vmas_ok vmas" "aligned_vmas vmas E" "is_page_aligned a"
  shows "aligned_vmas (split_vma_at a vmas) E"
  using assms(1)
proof (cases rule: split_cases [of vmas a])
  case (split v)
  have "MIN_GUEST_ADDRESS \<le> v_start v" "is_page_aligned (v_start v)" "is_page_aligned (v_end v)" "v_end v \<le> E"
    using split(1) assms(2) by (auto simp: aligned_vmas_def)
  then show ?thesis
    using assms split(2,3) unfolding aligned_vmas_def split(4)
    by (auto simp: split_left_def split_right_def split: if_splits)
qed (simp add: assms)

lemma set_vmas_simps [simp]:
  "gm_vmas (fst (set_vmas f s)) = f (gm_vmas (fst s))" "snd (set_vmas f s) = snd s"
  "gm_allocations (fst (set_vmas f s)) = gm_allocations (fst s)"
  "gm_next_allocation_id (fst (set_vmas f s)) = gm_next_allocation_id (fst s)"
  "gm_address_space_end (fst (set_vmas f s)) = gm_address_space_end (fst s)"
  "gm_brk_base (fst (set_vmas f s)) = gm_brk_base (fst s)"
  "gm_current_brk (fst (set_vmas f s)) = gm_current_brk (fst s)"
  "gm_mmap_base (fst (set_vmas f s)) = gm_mmap_base (fst s)"
  "gm_host_address_mode (fst (set_vmas f s)) = gm_host_address_mode (fst s)"
  "alloc_at (fst (set_vmas f s)) = alloc_at (fst s)" "holds (fst (set_vmas f s)) = holds (fst s)"
  "same_layout (fst s) (fst (set_vmas f s))"
  by (simp_all add: set_vmas_def alloc_at_def holds_def fun_eq_iff same_layout_def)

text \<open>Changing the areas over the same allocations.\<close>

lemma mem_ok_set_vmas:
  assumes "mem_ok ext s" "vmas_ok (f (gm_vmas (fst s)))"
    "aligned_vmas (f (gm_vmas (fst s))) (gm_address_space_end (fst s))"
    "\<forall>k v. bt_get (f (gm_vmas (fst s))) k = Some v \<longrightarrow> backed (alloc_at (fst s) (snd s)) v"
  shows "mem_ok ext (set_vmas f s)"
  using assms by (simp add: mem_ok_def map_ok_def refs_ok_def)

lemma quiet_set_vmas:
  assumes ok: "mem_ok ext s" and v: "vmas_ok (f (gm_vmas (fst s)))"
    and al: "aligned_vmas (f (gm_vmas (fst s))) (gm_address_space_end (fst s))"
    and loc: "locate (f (gm_vmas (fst s))) = locate (gm_vmas (fst s))"
    and b: "\<And>a. boundary a (gm_vmas (fst s)) \<Longrightarrow> boundary a (f (gm_vmas (fst s)))"
  shows "quiet ext s (set_vmas f s)"
proof -
  have "\<forall>k v. bt_get (f (gm_vmas (fst s))) k = Some v \<longrightarrow> backed (alloc_at (fst s) (snd s)) v"
    using backed_locate [OF mem_okD(3) [OF ok] v loc] mem_okD(11) [OF ok] by blast
  then have "mem_ok ext (set_vmas f s)" using mem_ok_set_vmas ok v al by blast
  moreover have "view (set_vmas f s) = view s" by (simp add: view_def content_def fun_eq_iff loc)
  ultimately show ?thesis using b by (simp add: quiet_def)
qed

lemma split_quiet:
  assumes "mem_ok ext s" "is_page_aligned a"
  shows "quiet ext s (set_vmas (split_vma_at a) s)"
  using assms mem_okD(3,4) [OF assms(1)]
  by (intro quiet_set_vmas) (simp_all add: vmas_ok_split aligned_split boundary_split)

lemma split2_quiet:
  assumes "mem_ok ext s" "is_page_aligned a" "is_page_aligned b"
  shows "quiet ext s (set_vmas (\<lambda>vmas. split_vma_at b (split_vma_at a vmas)) s)"
proof -
  note 1 = split_quiet [OF assms(1,2)]
  have "set_vmas (\<lambda>vmas. split_vma_at b (split_vma_at a vmas)) s = set_vmas (split_vma_at b) (set_vmas (split_vma_at a) s)"
    by (simp add: set_vmas_def)
  then show ?thesis using quiet_trans [OF 1 split_quiet [OF quietD(1) [OF 1] assms(3)]] by simp
qed

lemma drop_unreferenced_quiet:
  assumes ok: "mem_ok ext s"
  shows "quiet ext s (drop_unreferenced_allocations s)"
    "gm_vmas (fst (drop_unreferenced_allocations s)) = gm_vmas (fst s)"
proof -
  obtain m h where s: "s = (m, h)" by (cases s)
  obtain m' h' where s': "(m', h') = drop_unreferenced_allocations (m, h)" by (metis prod.exhaust)
  have D: "refs_ok ext m' h' \<and> env_kept ext h h'
    \<and> (\<forall>k. alloc_at m' h' k = (if \<exists>v \<in> set (bt_values (gm_vmas m)). v_allocation_id v = k
          then alloc_at m h k else None))
    \<and> m' = m\<lparr>gm_allocations := gm_allocations m'\<rparr>"
    using drop_unreferenced_allocations [OF _ s'] mem_okD(1) [OF ok] s by simp
  have f: "gm_vmas m' = gm_vmas m" "same_layout m m'" "gm_address_space_end m' = gm_address_space_end m"
    "gm_brk_base m' = gm_brk_base m" "gm_host_address_mode m' = gm_host_address_mode m"
    by (subst conjunct2 [OF conjunct2 [OF conjunct2 [OF D]]], simp add: same_layout_def)+
  have keep: "alloc_at m' h' (v_allocation_id v) = alloc_at m h (v_allocation_id v)"
    if "bt_get (gm_vmas m) k = Some v" for k v
    using that D by (force simp: set_bt_values ran_def)
  have bk: "backed (alloc_at m' h') v" if "bt_get (gm_vmas m) k = Some v" for k v
    using mem_okD(11) [OF ok, of k v] that keep [OF that] s by (simp add: backed_def)
  have sub: "alloc_at m h i = Some x" if "alloc_at m' h' i = Some x" for i x
    using that D by (auto split: if_splits)
  have "map_ok m' (alloc_at m' h')"
    using mem_okD(2) [OF ok, unfolded s fst_conv snd_conv] bk sub unfolding map_ok_def f by blast
  moreover have "view (m', h') = view (m, h)"
  proof
    fix a
    show "view (m', h') a = view (m, h) a"
    proof (cases "locate (gm_vmas m) a")
      case (Some p)
      then obtain v where "bt_get (gm_vmas m) (v_start v) = Some v" "p = place v a"
        using locate_SomeE mem_okD(3) [OF ok] s by (metis fst_conv)
      then show ?thesis using Some keep by (simp add: view_def content_def f place_def)
    qed (simp add: view_def content_def f)
  qed
  ultimately show "quiet ext s (drop_unreferenced_allocations s)"
    using D f by (simp add: quiet_def mem_ok_def s flip: s')
  show "gm_vmas (fst (drop_unreferenced_allocations s)) = gm_vmas (fst s)"
    using f by (simp add: s flip: s')
qed

section \<open>Unmapping\<close>

lemma backed_fold_remove:
  "\<forall>k v. bt_get vmas k = Some v \<longrightarrow> P v \<Longrightarrow> \<forall>k v. bt_get (fold bt_remove ks vmas) k = Some v \<longrightarrow> P v"
  by (auto simp: bt_get_fold_remove split: if_splits)

text \<open>Unmapping forgets the addresses of the range; nothing else of the address space changes.\<close>

lemma unmap_range_spec:
  assumes ok: "mem_ok ext s" and al: "is_page_aligned start" "is_page_aligned end" and le: "start \<le> end"
  shows "mem_ok ext (unmap_range start end s)" "env_kept ext (snd s) (snd (unmap_range start end s))"
    "same_layout (fst s) (fst (unmap_range start end s))"
    "view (unmap_range start end s) = (\<lambda>a. if start \<le> a \<and> a < end then None else view s a)"
    "gm_vmas (fst (unmap_range start end s)) = unmap_vmas start end (gm_vmas (fst s))"
proof -
  let ?f = "\<lambda>vmas. split_vma_at end (split_vma_at start vmas)"
  let ?s1 = "set_vmas (unmap_vmas start end) s"
  have q1: "quiet ext s (set_vmas ?f s)" by (rule split2_quiet [OF ok al])
  have bk: "backed (alloc_at (fst s) (snd s)) v" if "bt_get (unmap_vmas start end (gm_vmas (fst s))) k = Some v" for k v
    using that mem_okD(11) [OF quietD(1) [OF q1]]
    by (auto simp: unmap_vmas_def Let_def bt_get_fold_remove split: if_splits)
  have ag: "aligned_vmas (unmap_vmas start end (gm_vmas (fst s))) (gm_address_space_end (fst s))"
    using mem_okD(4) [OF quietD(1) [OF q1]]
    by (auto simp: unmap_vmas_def Let_def bt_get_fold_remove aligned_vmas_def split: if_splits)
  have ok1: "mem_ok ext ?s1"
    by (rule mem_ok_set_vmas) (use ok vmas_ok_unmap [OF mem_okD(3) [OF ok]] ag bk in auto)
  have v1: "view ?s1 = (\<lambda>a. if start \<le> a \<and> a < end then None else view s a)"
    by (auto simp: view_def content_def locate_unmap [OF mem_okD(3) [OF ok] le])
  note q = drop_unreferenced_quiet [OF ok1]
  show "mem_ok ext (unmap_range start end s)" "env_kept ext (snd s) (snd (unmap_range start end s))"
    "view (unmap_range start end s) = (\<lambda>a. if start \<le> a \<and> a < end then None else view s a)"
    using quietD(1,2,3) [OF q(1)] v1 by (simp_all add: unmap_range_def)
  show "same_layout (fst s) (fst (unmap_range start end s))"
    using q(1) by (simp add: unmap_range_def quiet_def same_layout_def)
  show "gm_vmas (fst (unmap_range start end s)) = unmap_vmas start end (gm_vmas (fst s))"
    using q(2) by (simp add: unmap_range_def)
qed

section \<open>Moving areas to other allocations\<close>

definition area :: "mem_vma \<Rightarrow> nat \<times> nat \<times> mem_protection \<times> mem_vma_kind" where
  "area v = (v_start v, v_end v, v_protection v, v_kind v)"

definition areas_same :: "vma_map \<Rightarrow> vma_map \<Rightarrow> bool" where
  "areas_same vmas vmas' \<longleftrightarrow> (\<forall>k. map_option area (bt_get vmas' k) = map_option area (bt_get vmas k))"

definition byte_of :: "(nat \<Rightarrow> (nat \<times> u8 list) option) \<Rightarrow> nat \<Rightarrow> nat \<Rightarrow> u8" where
  "byte_of A i a = (case A i of None \<Rightarrow> 0 | Some (gs, bs) \<Rightarrow> bs ! (a - gs))"

lemma areas_sameE:
  assumes "areas_same vmas vmas'" "bt_get vmas' k = Some v'"
  obtains v where "bt_get vmas k = Some v" "v_start v' = v_start v" "v_end v' = v_end v"
    "v_protection v' = v_protection v" "v_kind v' = v_kind v"
proof -
  have "map_option area (bt_get vmas k) = Some (area v')"
    using assms(1) [unfolded areas_same_def, rule_format, of k] by (simp add: assms(2))
  then show thesis using that by (auto simp: area_def)
qed

lemma areas_same_sym: "areas_same vmas vmas' \<Longrightarrow> areas_same vmas' vmas"
  and areas_same_refl [simp]: "areas_same vmas vmas"
  and areas_same_trans: "areas_same vmas vmas' \<Longrightarrow> areas_same vmas' vmas'' \<Longrightarrow> areas_same vmas vmas''"
  by (simp_all add: areas_same_def)

lemma areas_same_modify: "(\<And>v. area (f v) = area v) \<Longrightarrow> areas_same vmas (bt_modify k f vmas)"
  unfolding areas_same_def bt_get_modify by (cases "bt_get vmas k") auto

lemma areas_same_ok:
  assumes s: "areas_same vmas vmas'" and ok: "vmas_ok vmas"
  shows "vmas_ok vmas'"
  unfolding vmas_ok_def
proof (intro conjI allI impI)
  show "v_start v = k" "k < v_end v" if "bt_get vmas' k = Some v" for k v
    using areas_sameE [OF s that] vmas_okD(1,2) [OF ok] by metis+
  show "v_end v \<le> k'" if "bt_get vmas' k = Some v" "bt_get vmas' k' = Some v'" "k < k'" for k v k' v'
    using areas_sameE [OF s that(1)] areas_sameE [OF s that(2)] vmas_okD(3) [OF ok] that(3) by metis
qed

lemma areas_same_aligned:
  assumes s: "areas_same vmas vmas'" and al: "aligned_vmas vmas E"
  shows "aligned_vmas vmas' E"
  unfolding aligned_vmas_def
proof (intro allI impI)
  fix k v assume "bt_get vmas' k = Some v"
  from areas_sameE [OF s this] obtain w where "bt_get vmas k = Some w" "v_start v = v_start w" "v_end v = v_end w"
    by metis
  then show "MIN_GUEST_ADDRESS \<le> v_start v \<and> is_page_aligned (v_start v) \<and> is_page_aligned (v_end v) \<and> v_end v \<le> E"
    using al by (simp add: aligned_vmas_def)
qed

lemma areas_same_boundary:
  assumes s: "areas_same vmas vmas'" and b: "boundary a vmas"
  shows "boundary a vmas'"
  unfolding boundary_def
proof (intro allI impI)
  fix k v assume "bt_get vmas' k = Some v"
  from areas_sameE [OF s this] obtain w where "bt_get vmas k = Some w" "v_start v = v_start w" "v_end v = v_end w"
    by metis
  then show "v_end v \<le> a \<or> a \<le> v_start v" using b by (simp add: boundary_def)
qed

lemma content_byte_of:
  assumes "vmas_ok vmas" "bt_get vmas k = Some v" "v_start v \<le> a" "a < v_end v" "backed A v"
  shows "content vmas A a = Some (byte_of A (v_allocation_id v) a, v_protection v, v_kind v)"
proof -
  obtain gs bs where A: "A (v_allocation_id v) = Some (gs, bs)" using assms(5) by (auto simp: backed_def)
  show ?thesis using content_Some(1) [OF assms A] by (simp add: byte_of_def A)
qed

lemma areas_same_content:
  assumes s: "areas_same vmas vmas'" and ok: "vmas_ok vmas"
    and bk: "\<And>k v. bt_get vmas k = Some v \<Longrightarrow> backed A v" "\<And>k v. bt_get vmas' k = Some v \<Longrightarrow> backed A' v"
    and eq: "\<And>k v v' a. bt_get vmas k = Some v \<Longrightarrow> bt_get vmas' k = Some v' \<Longrightarrow> v_start v \<le> a \<Longrightarrow> a < v_end v \<Longrightarrow>
      byte_of A' (v_allocation_id v') a = byte_of A (v_allocation_id v) a"
  shows "content vmas' A' = content vmas A"
proof
  fix a
  note ok' = areas_same_ok [OF s ok]
  show "content vmas' A' a = content vmas A a"
  proof (cases "locate vmas' a")
    case None
    have "locate vmas a = None"
      unfolding locate_None [OF ok]
    proof (intro allI impI)
      fix k v assume "bt_get vmas k = Some v"
      from areas_sameE [OF areas_same_sym [OF s] this] show "\<not> (v_start v \<le> a \<and> a < v_end v)"
        using None unfolding locate_None [OF ok'] by metis
    qed
    with None show ?thesis by (simp add: content_def)
  next
    case (Some p)
    then obtain v' where v': "bt_get vmas' (v_start v') = Some v'" "v_start v' \<le> a" "a < v_end v'"
      using locate_SomeE [OF ok'] by metis
    from areas_sameE [OF s v'(1)] obtain v where v: "bt_get vmas (v_start v') = Some v" "v_start v' = v_start v"
      "v_end v' = v_end v" "v_protection v' = v_protection v" "v_kind v' = v_kind v" by metis
    have "byte_of A' (v_allocation_id v') a = byte_of A (v_allocation_id v) a"
      using eq [OF v(1) v'(1)] v v' by simp
    then show ?thesis
      using content_byte_of [OF ok' v'(1,2,3) bk(2) [OF v'(1)]] content_byte_of [OF ok v(1) _ _ bk(1) [OF v(1)]] v v'
      by simp
  qed
qed

text \<open>Areas that move to allocations with the same bytes.\<close>

lemma move_quiet:
  assumes ok: "mem_ok ext s" and s: "areas_same (gm_vmas (fst s)) (f (gm_vmas (fst s)))"
    and bk: "\<And>k v. bt_get (f (gm_vmas (fst s))) k = Some v \<Longrightarrow> backed (alloc_at (fst s) (snd s)) v"
    and eq: "\<And>k v v' a. bt_get (gm_vmas (fst s)) k = Some v \<Longrightarrow> bt_get (f (gm_vmas (fst s))) k = Some v' \<Longrightarrow>
      v_start v \<le> a \<Longrightarrow> a < v_end v \<Longrightarrow>
      byte_of (alloc_at (fst s) (snd s)) (v_allocation_id v') a = byte_of (alloc_at (fst s) (snd s)) (v_allocation_id v) a"
  shows "quiet ext s (set_vmas f s)"
proof -
  have "mem_ok ext (set_vmas f s)"
    using areas_same_ok [OF s mem_okD(3) [OF ok]] areas_same_aligned [OF s mem_okD(4) [OF ok]] bk
    by (intro mem_ok_set_vmas [OF ok]) auto
  moreover have "view (set_vmas f s) = view s"
    unfolding view_def using areas_same_content [OF s mem_okD(3) [OF ok] mem_okD(11) [OF ok] bk eq] by simp
  ultimately show ?thesis using areas_same_boundary [OF s] by (simp add: quiet_def)
qed

text \<open>A new allocation that no area uses yet.\<close>

lemma fresh_allocation:
  assumes ok: "mem_ok ext s" and i: "i = gm_next_allocation_id (fst s)"
    and new: "hm_bytes mem \<noteq> []" "gs + length (hm_bytes mem) < 2 ^ 64"
      "gm_host_address_mode (fst s) = FixedGuest \<longrightarrow> 0 < gs"
    and s': "s' = allocations_insert i gs mem ((fst s)\<lparr>gm_next_allocation_id := Suc i\<rparr>, snd s)"
  shows "quiet ext s s'" "alloc_at (fst s') (snd s') = (alloc_at (fst s) (snd s))(i \<mapsto> (gs, hm_bytes mem))"
    "gm_vmas (fst s') = gm_vmas (fst s)" "alloc_at (fst s) (snd s) i = None" "unique_alloc s' i"
    "gm_next_allocation_id (fst s') = Suc i"
proof -
  obtain m h where s: "s = (m, h)" by (cases s)
  obtain m' h' where s'': "s' = (m', h')" by (cases s')
  let ?m = "m\<lparr>gm_next_allocation_id := Suc i\<rparr>"
  have none: "bt_get (gm_allocations m) i = None"
    using refs_okD(2) [OF mem_okD(1) [OF ok]] i s by (metis fst_conv less_irrefl option.exhaust)
  have r: "refs_ok ext ?m h"
    using mem_okD(1) [OF ok] i s by (auto simp: refs_ok_def holds_def less_Suc_eq)
  have at: "alloc_at ?m = alloc_at m" by (simp add: alloc_at_def fun_eq_iff)
  have I: "refs_ok ext m' h' \<and> env_kept ext h h'
    \<and> (\<forall>k. alloc_at m' h' k = (if k = i then Some (gs, hm_bytes mem) else alloc_at m h k))
    \<and> m' = ?m\<lparr>gm_allocations := bt_insert i \<lparr>ga_guest_start = gs, ga_memory = h_next h\<rparr> (gm_allocations m)\<rparr>
    \<and> arc_count h' (h_next h) = 1"
  proof -
    have ins: "(m', h') = allocations_insert i gs mem (?m, h)" using s' s s'' by simp
    have "i < gm_next_allocation_id ?m" "bt_get (gm_allocations ?m) i = None" using none by simp_all
    from allocations_insert_fresh [OF r this ins] show ?thesis unfolding at by auto
  qed
  then have f: "gm_vmas m' = gm_vmas m" "same_layout m m'" "gm_address_space_end m' = gm_address_space_end m"
    "gm_brk_base m' = gm_brk_base m" "gm_host_address_mode m' = gm_host_address_mode m"
    "gm_next_allocation_id m' = Suc i"
    by (simp_all add: same_layout_def)
  have A: "alloc_at m' h' = (alloc_at m h)(i \<mapsto> (gs, hm_bytes mem))" using I by auto
  have noti: "v_allocation_id v \<noteq> i" if "bt_get (gm_vmas m) k = Some v" for k v
    using mem_okD(11) [OF ok, of k v] that none s by (auto simp: backed_def alloc_at_def)
  have bk: "backed (alloc_at m' h') v" if "bt_get (gm_vmas m) k = Some v" for k v
    using mem_okD(11) [OF ok, of k v] that noti [OF that] s by (simp add: A backed_def)
  have "map_ok m' (alloc_at m' h')"
    using mem_okD(2) [OF ok, unfolded s fst_conv snd_conv] bk new s unfolding map_ok_def f A by auto
  moreover have "view s' = view s"
    unfolding view_def s s'' fst_conv snd_conv f
    by (rule areas_same_content)
      (use mem_okD(3,11) [OF ok, unfolded s fst_conv snd_conv] bk noti in \<open>auto simp: byte_of_def A\<close>)
  moreover have "refs_ok ext m' h'" "env_kept ext h h'" using I by blast+
  ultimately show "quiet ext s s'" using f s s'' by (simp add: quiet_def mem_ok_def)
  show "alloc_at (fst s') (snd s') = (alloc_at (fst s) (snd s))(i \<mapsto> (gs, hm_bytes mem))"
    "gm_vmas (fst s') = gm_vmas (fst s)" "alloc_at (fst s) (snd s) i = None" "unique_alloc s' i"
    "gm_next_allocation_id (fst s') = Suc i"
    using A f I none s s'' by (auto simp: alloc_at_def unique_alloc_def bt_get_insert)
qed

section \<open>Detaching shared areas\<close>

text \<open>The guard and the fresh copy leave the objects as they are.\<close>

lemma copied_memory_post:
  assumes ok: "mem_ok ext s" and A: "alloc_at (fst s) (snd s) i = Some (gs, bs)"
    and al: "bt_get (gm_allocations (fst s)) i = Some al"
  shows "st_post (on_host (guarded_bytes (ga_memory al) (allocation_protection_ranges (fst s) i))) s
    (\<lambda>bytes s'. solid ext s s' \<and> bytes = bs \<and> fst s' = fst s)
    (\<lambda>_ s'. solid ext s s' \<and> faulted (snd s) (snd s'))"
proof -
  have a: "arc_bytes (snd s) (ga_memory al) = bs" using A al by (simp add: alloc_at_def)
  have "st_post (guarded_bytes (ga_memory al) (allocation_protection_ranges (fst s) i)) (snd s)
      (\<lambda>bytes h'. host_same (snd s) h' \<and> bytes = arc_bytes (snd s) (ga_memory al))
      (\<lambda>_ h'. host_same (snd s) h' \<and> faulted (snd s) h')"
    using refs_ok_live(1) [OF mem_okD(1) [OF ok] al] allocation_ranges_in [OF ok A] mem_okD(9,10) [OF ok A]
    by (intro guarded_bytes_post) (auto simp: a)
  then show ?thesis
    unfolding st_post_on_host
    by (rule st_post_mono) (use host_same_solid [of ext "fst s" "snd s"] ok a in auto)
qed

lemma filled_memory_quiet:
  assumes ok: "mem_ok ext s" and b: "bytes \<noteq> []" "length bytes < 2 ^ 64" "\<forall>r \<in> set ranges. range_in (length bytes) r"
    and gs: "gm_host_address_mode (fst s) = FixedGuest \<longrightarrow> 0 < gs"
  shows "st_post (on_host (filled_memory gs bytes ranges (gm_host_address_mode (fst s)))) s
    (\<lambda>mem s'. solid ext s s' \<and> fst s' = fst s \<and> hm_bytes mem = bytes)
    (\<lambda>_ s'. solid ext s s' \<and> faulted (snd s) (snd s'))"
proof -
  have "st_post (filled_memory gs bytes ranges (gm_host_address_mode (fst s))) (snd s)
      (\<lambda>mem h'. tick (snd s) h' \<and> hm_bytes mem = bytes) (\<lambda>_ h'. tick (snd s) h' \<and> faulted (snd s) h')"
  proof (cases "0 < gs")
    case True
    then show ?thesis by (rule filled_memory_post [OF b(1) _ b(3,2)])
  next
    case False
    then have "gm_host_address_mode (fst s) = Flexible" using gs by (cases "gm_host_address_mode (fst s)") auto
    then have "filled_memory gs bytes ranges (gm_host_address_mode (fst s)) = filled_memory 1 bytes ranges Flexible"
      by (simp add: filled_memory_def allocate_guest_host_memory_at_def fun_eq_iff)
    then show ?thesis using filled_memory_post [OF b(1) _ b(3,2), of 1] by simp
  qed
  then show ?thesis
    unfolding st_post_on_host
    by (rule st_post_mono) (use tick_solid [of ext "fst s" "snd s"] ok in auto)
qed

lemma take_allocation_id_post:
  assumes "\<not> exhausted s \<Longrightarrow> Q (gm_next_allocation_id (fst s))
      ((fst s)\<lparr>gm_next_allocation_id := Suc (gm_next_allocation_id (fst s))\<rparr>, snd s)"
    "exhausted s \<Longrightarrow> E OutOfMemory s"
  shows "st_post take_allocation_id s Q E"
  using assms by (auto simp: st_post_def take_allocation_id_def nat_checked_add_def Let_def exhausted_def)

lemma detach_shared_vma_post:
  assumes ok: "mem_ok ext s" and v: "bt_get (gm_vmas (fst s)) (v_start v) = Some v"
    and fl: "gm_host_address_mode (fst s) = Flexible"
  shows "st_post (detach_shared_vma v) s
    (\<lambda>_ s'. quiet ext s s' \<and> areas_same (gm_vmas (fst s)) (gm_vmas (fst s'))) (quiet_err ext s)"
proof -
  let ?i = "v_allocation_id v" and ?o = "v_allocation_offset v" and ?n = "v_len v"
  let ?ranges = "allocation_protection_ranges (fst s) ?i"
  obtain gs bs where A: "alloc_at (fst s) (snd s) ?i = Some (gs, bs)" and b: "gs + ?o = v_start v" "v_end v \<le> gs + length bs"
    using mem_okD(11) [OF ok v] by (auto simp: backed_def)
  obtain al where al: "bt_get (gm_allocations (fst s)) ?i = Some al" using A by (auto elim: alloc_atE)
  have n: "0 < ?n" "?o + ?n \<le> length bs" "v_start v + ?n = v_end v"
    using vmas_okD(2) [OF mem_okD(3) [OF ok] v] b by (auto simp: v_len_def)
  let ?bytes = "take ?n (drop ?o bs)"
  have len: "length ?bytes = ?n" using n by simp
  have sl: "slice bs ?o (?o + ?n) = Ok ?bytes" using n by (simp add: slice_def)
  have small: "gs + length bs < 2 ^ 64" by (rule mem_okD(10) [OF ok A])
  let ?prog = "st_bind (on_host (guarded_bytes (ga_memory al) ?ranges)) (\<lambda>all_bytes.
      st_bind (st_lift (slice all_bytes ?o (?o + ?n))) (\<lambda>bytes.
      st_bind (on_host (filled_memory (v_start v) bytes
                 [\<lparr>apr_offset = 0, apr_len = length bytes, apr_protection = v_protection v\<rparr>]
                 (gm_host_address_mode (fst s)))) (\<lambda>mem.
      st_bind take_allocation_id (\<lambda>i.
      st_bind (st_modify (allocations_insert i (v_start v) mem)) (\<lambda>_ s.
        (case bt_get (gm_vmas (fst s)) (v_start v) of
           None \<Rightarrow> (Err NotMapped, s)
         | Some _ \<Rightarrow> (Ok (), set_vmas (bt_modify (v_start v)
             (\<lambda>w. w\<lparr>v_allocation_id := i, v_allocation_offset := 0\<rparr>)) s)))))))"
  have "st_post ?prog s
    (\<lambda>_ s'. quiet ext s s' \<and> areas_same (gm_vmas (fst s)) (gm_vmas (fst s'))) (quiet_err ext s)"
  proof (rule chain_solid [OF ok copied_memory_post [OF ok A al]])
    fix all_bytes s1 assume s1: "solid ext s s1" "mem_ok ext s1" "all_bytes = bs \<and> fst s1 = fst s"
    then have eq1: "all_bytes = bs" "fst s1 = fst s" by auto
    show "st_post (st_bind (st_lift (slice all_bytes ?o (?o + ?n))) (\<lambda>bytes.
      st_bind (on_host (filled_memory (v_start v) bytes
                 [\<lparr>apr_offset = 0, apr_len = length bytes, apr_protection = v_protection v\<rparr>]
                 (gm_host_address_mode (fst s)))) (\<lambda>mem.
      st_bind take_allocation_id (\<lambda>i.
      st_bind (st_modify (allocations_insert i (v_start v) mem)) (\<lambda>_ s.
        (case bt_get (gm_vmas (fst s)) (v_start v) of
           None \<Rightarrow> (Err NotMapped, s)
         | Some _ \<Rightarrow> (Ok (), set_vmas (bt_modify (v_start v)
             (\<lambda>w. w\<lparr>v_allocation_id := i, v_allocation_offset := 0\<rparr>)) s))))))) s1
      (\<lambda>_ s'. quiet ext s s' \<and> areas_same (gm_vmas (fst s)) (gm_vmas (fst s'))) (quiet_err ext s)"
      unfolding eq1(1) sl st_post_bind st_post_basic
    proof (rule st_post_mono [OF filled_memory_quiet [OF s1(2), unfolded eq1(2)]])
      fix mem :: host_memory and s2
      assume "solid ext s1 s2 \<and> fst s2 = fst s \<and> hm_bytes mem = ?bytes"
      then have s2: "solid ext s1 s2" and f2: "fst s2 = fst s" and hm: "hm_bytes mem = ?bytes" using eq1 by auto
      have q2: "quiet ext s s2" using solid_quiet [OF ok solid_trans [OF s1(1) s2]] .
      have ok2: "mem_ok ext s2" using quietD(1) [OF q2] .
      have A2: "alloc_at (fst s2) (snd s2) = alloc_at (fst s) (snd s)"
        using solid_fields(8) [OF s2] solid_fields(8) [OF s1(1)] by simp
      show "st_post take_allocation_id s2
        (\<lambda>i s'. st_post (st_modify (allocations_insert i (v_start v) mem)) s'
           (\<lambda>_ s'. st_post (\<lambda>s. case bt_get (gm_vmas (fst s)) (v_start v) of
               None \<Rightarrow> (Err NotMapped, s)
             | Some _ \<Rightarrow> (Ok (), set_vmas (bt_modify (v_start v)
                 (\<lambda>w. w\<lparr>v_allocation_id := i, v_allocation_offset := 0\<rparr>)) s)) s'
              (\<lambda>_ s'. quiet ext s s' \<and> areas_same (gm_vmas (fst s)) (gm_vmas (fst s'))) (quiet_err ext s))
           (quiet_err ext s)) (quiet_err ext s)"
        unfolding st_post_modify
      proof (rule take_allocation_id_post)
        let ?j = "gm_next_allocation_id (fst s2)"
        let ?s3 = "allocations_insert ?j (v_start v) mem
          ((fst s2)\<lparr>gm_next_allocation_id := Suc ?j\<rparr>, snd s2)"
        have new: "hm_bytes mem \<noteq> []" "v_start v + length (hm_bytes mem) < 2 ^ 64"
          "gm_host_address_mode (fst s2) = FixedGuest \<longrightarrow> 0 < v_start v"
          using hm len n b small fl f2 by auto
        note F = fresh_allocation [OF ok2 refl new refl]
        let ?f = "bt_modify (v_start v) (\<lambda>w. w\<lparr>v_allocation_id := ?j, v_allocation_offset := 0\<rparr>)"
        have vm3: "gm_vmas (fst ?s3) = gm_vmas (fst s)" using F(3) f2 by simp
        have same: "areas_same (gm_vmas (fst ?s3)) (?f (gm_vmas (fst ?s3)))"
          by (simp add: areas_same_modify area_def)
        have jn: "w \<noteq> v \<Longrightarrow> v_allocation_id w \<noteq> ?j" if "bt_get (gm_vmas (fst s)) k = Some w" for k w
          using mem_okD(11) [OF ok that] F(4) A2 by (auto simp: backed_def)
        have q: "quiet ext ?s3 (set_vmas ?f ?s3)"
        proof (rule move_quiet [where f = ?f, OF quietD(1) [OF F(1)] same])
          fix k w assume w: "bt_get (?f (gm_vmas (fst ?s3))) k = Some w"
          show "backed (alloc_at (fst ?s3) (snd ?s3)) w"
          proof (cases "k = v_start v")
            case True
            then have "w = v\<lparr>v_allocation_id := ?j, v_allocation_offset := 0\<rparr>"
              using w v vm3 by (simp add: bt_get_modify)
            then show ?thesis using F(2) hm len n by (simp add: backed_def)
          next
            case False
            then show ?thesis using w mem_okD(11) [OF quietD(1) [OF F(1)]] by (simp add: bt_get_modify)
          qed
        next
          fix k w w' a
          assume w: "bt_get (gm_vmas (fst ?s3)) k = Some w" "bt_get (?f (gm_vmas (fst ?s3))) k = Some w'"
            "v_start w \<le> a" "a < v_end w"
          show "byte_of (alloc_at (fst ?s3) (snd ?s3)) (v_allocation_id w') a
              = byte_of (alloc_at (fst ?s3) (snd ?s3)) (v_allocation_id w) a"
          proof (cases "k = v_start v")
            case True
            then have wv: "w = v" "v_allocation_id w' = ?j" using w v vm3 by (auto simp: bt_get_modify)
            have "?i \<noteq> ?j" using F(4) A A2 by auto
            moreover have "?o + (a - v_start v) = a - gs" "a - v_start v < ?n"
              using w(3,4) wv b n by (simp_all add: v_len_def)
            then have "?bytes ! (a - v_start v) = bs ! (a - gs)" using n by simp
            ultimately show ?thesis using F(2) A A2 hm wv by (simp add: byte_of_def)
          qed (use w in \<open>simp add: bt_get_modify\<close>)
        qed
        have "quiet ext s (set_vmas ?f ?s3)" using quiet_trans [OF quiet_trans [OF q2 F(1)] q] .
        then show "st_post (\<lambda>s. case bt_get (gm_vmas (fst s)) (v_start v) of
               None \<Rightarrow> (Err NotMapped, s)
             | Some _ \<Rightarrow> (Ok (), set_vmas (bt_modify (v_start v)
                 (\<lambda>w. w\<lparr>v_allocation_id := ?j, v_allocation_offset := 0\<rparr>)) s)) ?s3
              (\<lambda>_ s'. quiet ext s s' \<and> areas_same (gm_vmas (fst s)) (gm_vmas (fst s'))) (quiet_err ext s)"
          using vm3 v same by (simp add: st_post_def)
      next
        assume "exhausted s2"
        then show "quiet_err ext s OutOfMemory s2" using q2 by (simp add: quiet_err_def)
      qed
    next
      fix e s2 assume "solid ext s1 s2 \<and> faulted (snd s1) (snd s2)"
      then show "quiet_err ext s e s2"
        using solid_quiet_err [OF s1(2)] quiet_err_trans [OF solid_quiet [OF ok s1(1)]] by blast
    qed (use len n fl eq1 small b in \<open>auto simp: range_in_def\<close>)
  qed (rule solid_quiet_err [OF ok])
  then show ?thesis
    using al ok by (auto simp: st_post_def detach_shared_vma_def Let_def quiet_refl)
qed

lemma detach_key_post:
  assumes ok: "mem_ok ext s" and k: "bt_get (gm_vmas (fst s)) k \<noteq> None"
    and fl: "gm_host_address_mode (fst s) = Flexible"
  shows "st_post (detach_key k) s
    (\<lambda>_ s'. quiet ext s s' \<and> areas_same (gm_vmas (fst s)) (gm_vmas (fst s'))) (quiet_err ext s)"
proof -
  obtain v where v: "bt_get (gm_vmas (fst s)) k = Some v" using k by blast
  then have "v_start v = k" using vmas_okD(1) [OF mem_okD(3) [OF ok]] by blast
  then show ?thesis
    using detach_shared_vma_post [OF ok _ fl, of v] v by (simp add: st_post_def detach_key_def)
qed

lemma areas_same_None: "areas_same vmas vmas' \<Longrightarrow> bt_get vmas' k = None \<longleftrightarrow> bt_get vmas k = None"
  unfolding areas_same_def by (metis option.map_disc_iff)

text \<open>One area holds a whole range.\<close>

definition one_area :: "vma_map \<Rightarrow> nat \<Rightarrow> nat \<Rightarrow> bool" where
  "one_area vmas x y \<longleftrightarrow> (\<exists>v. bt_get vmas (v_start v) = Some v \<and> v_start v \<le> x \<and> y \<le> v_end v)"

lemma one_area_same: "areas_same vmas vmas' \<Longrightarrow> one_area vmas x y \<Longrightarrow> one_area vmas' x y"
proof -
  assume same: "areas_same vmas vmas'" and "one_area vmas x y"
  then obtain v where v: "bt_get vmas (v_start v) = Some v" "v_start v \<le> x" "y \<le> v_end v"
    by (auto simp: one_area_def)
  obtain w where "bt_get vmas' (v_start v) = Some w" "v_start v = v_start w" "v_end v = v_end w"
    using areas_sameE [OF areas_same_sym [OF same] v(1)] by metis
  then show ?thesis using v unfolding one_area_def by metis
qed

lemma one_area_split:
  assumes ok: "vmas_ok vmas" and c: "one_area vmas x y" and a: "a \<le> x \<or> y \<le> a"
  shows "one_area (split_vma_at a vmas) x y"
  using ok
proof (cases rule: split_cases [of vmas a])
  case (split v)
  obtain w where w: "bt_get vmas (v_start w) = Some w" "v_start w \<le> x" "y \<le> v_end w"
    using c by (auto simp: one_area_def)
  show ?thesis
  proof (cases "v_start w = v_start v")
    case True
    then have [simp]: "w = v" using w(1) split(1) by (metis option.inject)
    consider "a \<le> x" | "y \<le> a" using a by blast
    then show ?thesis
    proof cases
      case 1
      show ?thesis unfolding one_area_def
        using 1 w(3) split(4) [of a] by (intro exI [of _ "split_right a v"]) (simp add: split_right_def)
    next
      case 2
      show ?thesis unfolding one_area_def
        using 2 w(2) split(2) split(4) [of "v_start v"]
        by (intro exI [of _ "split_left a v"]) (simp add: split_left_def)
    qed
  next
    case False
    moreover have "v_start w \<noteq> a"
      using vmas_okD(3) [OF ok split(1), of a w] split(2,3) w(1) by auto
    ultimately have "bt_get (split_vma_at a vmas) (v_start w) = Some w" using w(1) by (simp add: split(4))
    then show ?thesis unfolding one_area_def using w(2,3) by blast
  qed
qed (simp add: c)

lemma one_area_containing:
  assumes ok: "vmas_ok vmas" and "one_area vmas x y" "x < y"
  obtains v where "vma_containing vmas x = Some v" "bt_get vmas (v_start v) = Some v" "v_start v \<le> x" "y \<le> v_end v"
  using assms vma_containing_Some [OF ok, of x] by (auto simp: one_area_def)

text \<open>Making a range unique keeps the ranges within it in one area.\<close>

definition keeps_cover :: "nat \<Rightarrow> nat \<Rightarrow> guest_memory \<times> host \<Rightarrow> guest_memory \<times> host \<Rightarrow> bool" where
  "keeps_cover a b s s' \<longleftrightarrow>
     (\<forall>x y. a \<le> x \<longrightarrow> y \<le> b \<longrightarrow> one_area (gm_vmas (fst s)) x y \<longrightarrow> one_area (gm_vmas (fst s')) x y)"

lemma keeps_cover_same: "areas_same (gm_vmas (fst s)) (gm_vmas (fst s')) \<Longrightarrow> keeps_cover a b s s'"
  using one_area_same by (auto simp: keeps_cover_def)

lemma keeps_cover_split:
  assumes ok: "vmas_ok (gm_vmas (fst s))"
    and "areas_same (split_vma_at b (split_vma_at a (gm_vmas (fst s)))) (gm_vmas (fst s'))"
  shows "keeps_cover a b s s'"
  unfolding keeps_cover_def
  using one_area_same [OF assms(2)] one_area_split [OF ok] one_area_split [OF vmas_ok_split [OF ok]] by blast

lemma in_overlapping_ids:
  assumes ok: "mem_ok ext s" and i: "i \<in> set (overlapping_allocation_ids (fst s) a b)"
  shows "alloc_at (fst s) (snd s) i \<noteq> None"
proof -
  have "finite {v \<in> set (bt_values (gm_vmas (fst s))). v_start v < b \<and> a < v_end v}" by simp
  then have "i \<in> v_allocation_id ` {v \<in> set (bt_values (gm_vmas (fst s))). v_start v < b \<and> a < v_end v}"
    using i by (simp only: overlapping_allocation_ids_def set_sorted_list_of_set finite_imageI)
  then obtain k v where "bt_get (gm_vmas (fst s)) k = Some v" "v_allocation_id v = i"
    by (auto simp: set_bt_values ran_def)
  then show ?thesis using mem_okD(11) [OF ok] by (fastforce simp: backed_def)
qed

lemma ensure_guest_range_unique_post:
  assumes ok: "mem_ok ext s" and al: "is_page_aligned a" "is_page_aligned b"
  shows "st_post (ensure_guest_range_unique a b) s (\<lambda>_ s'. quiet ext s s' \<and> keeps_cover a b s s') (quiet_err ext s)"
proof -
  consider (empty) "b \<le> a" | (fixed) "a < b" "gm_host_address_mode (fst s) = FixedGuest"
    | (flexible) "a < b" "gm_host_address_mode (fst s) = Flexible"
    by (cases "gm_host_address_mode (fst s)"; cases "a < b") auto
  then show ?thesis
  proof cases
    case empty
    then show ?thesis
      using ok by (simp add: st_post_def ensure_guest_range_unique_def quiet_refl keeps_cover_same)
  next
    case fixed
    let ?ids = "overlapping_allocation_ids (fst s) a b"
    have "st_post (st_for ?ids ensure_allocation_unique) s
        (\<lambda>_ s'. quiet ext s s' \<and> solid ext s s') (quiet_err ext s)"
    proof (rule quiet_for [where R = "solid ext s", OF ok solid_refl [OF ok]])
      fix i s' assume i: "i \<in> set ?ids" "quiet ext s s'" "solid ext s s'"
      obtain gs bs where "alloc_at (fst s) (snd s) i = Some (gs, bs)" using in_overlapping_ids [OF ok i(1)] by auto
      then have A: "alloc_at (fst s') (snd s') i = Some (gs, bs)" using solid_fields(8) [OF i(3)] by simp
      show "st_post (ensure_allocation_unique i) s' (\<lambda>_ s''. quiet ext s' s'' \<and> solid ext s s'') (quiet_err ext s')"
        by (rule st_post_mono [OF unique_post [OF quietD(1) [OF i(2)] A]])
          (use solid_quiet solid_quiet_err quietD(1) [OF i(2)] solid_trans [OF i(3)] in blast)+
    qed
    then have "st_post (st_for ?ids ensure_allocation_unique) s
        (\<lambda>_ s'. quiet ext s s' \<and> keeps_cover a b s s') (quiet_err ext s)"
      by (rule st_post_mono) (metis solid_fields(1) areas_same_refl keeps_cover_same, assumption)
    then show ?thesis using fixed by (auto simp: st_post_def ensure_guest_range_unique_def split: prod.splits result.splits)
  next
    case flexible
    let ?s1 = "set_vmas (\<lambda>vmas. split_vma_at b (split_vma_at a vmas)) s"
    have q1: "quiet ext s ?s1" by (rule split2_quiet [OF ok al])
    have "st_post (st_bind (st_for (range_keys a b (gm_vmas (fst ?s1))) detach_key)
        (\<lambda>_. st_modify drop_unreferenced_allocations)) ?s1
        (\<lambda>_ s'. quiet ext ?s1 s' \<and> areas_same (gm_vmas (fst ?s1)) (gm_vmas (fst s'))) (quiet_err ext ?s1)"
    proof (rule quiet_bind)
      show "st_post (st_for (range_keys a b (gm_vmas (fst ?s1))) detach_key) ?s1
          (\<lambda>_ s'. quiet ext ?s1 s' \<and> areas_same (gm_vmas (fst ?s1)) (gm_vmas (fst s'))) (quiet_err ext ?s1)"
      proof (rule quiet_for [where R = "\<lambda>s'. areas_same (gm_vmas (fst ?s1)) (gm_vmas (fst s'))",
            OF quietD(1) [OF q1] areas_same_refl])
        fix k s' assume k: "k \<in> set (range_keys a b (gm_vmas (fst ?s1)))" "quiet ext ?s1 s'"
          "areas_same (gm_vmas (fst ?s1)) (gm_vmas (fst s'))"
        have "bt_get (gm_vmas (fst s')) k \<noteq> None"
          using k(1) areas_same_None [OF k(3), of k] unfolding set_range_keys by simp
        moreover have "gm_host_address_mode (fst s') = Flexible" using quietD(4) [OF k(2)] flexible by simp
        ultimately show "st_post (detach_key k) s'
            (\<lambda>_ s''. quiet ext s' s'' \<and> areas_same (gm_vmas (fst ?s1)) (gm_vmas (fst s''))) (quiet_err ext s')"
          by (intro st_post_mono [OF detach_key_post [OF quietD(1) [OF k(2)]]])
            (use areas_same_trans [OF k(3)] in auto)
      qed
    next
      fix x :: unit and s' assume "quiet ext ?s1 s'" "areas_same (gm_vmas (fst ?s1)) (gm_vmas (fst s'))"
      then show "st_post (st_modify drop_unreferenced_allocations) s'
          (\<lambda>_ s''. quiet ext s' s'' \<and> areas_same (gm_vmas (fst ?s1)) (gm_vmas (fst s''))) (quiet_err ext s')"
        using drop_unreferenced_quiet [of ext s'] quietD(1) by (simp add: st_post_modify)
    qed
    then have "st_post (st_bind (st_for (range_keys a b (gm_vmas (fst ?s1))) detach_key)
        (\<lambda>_. st_modify drop_unreferenced_allocations)) ?s1
        (\<lambda>_ s'. quiet ext s s' \<and> keeps_cover a b s s') (quiet_err ext s)"
      by (rule st_post_mono)
        (use quiet_trans [OF q1] quiet_err_trans [OF q1] keeps_cover_split [OF mem_okD(3) [OF ok]] in auto)
    then show ?thesis using flexible by (simp add: st_post_def ensure_guest_range_unique_def Let_def)
  qed
qed

lemma align_down_aligned: "is_page_aligned (align_down_to a GUEST_PAGE_SIZE)"
  by (simp add: is_page_aligned_def align_down_to_def GUEST_PAGE_SIZE_def)

lemma align_up_to_page: "align_up_to b GUEST_PAGE_SIZE = align_up b"
  by (simp add: align_up_def)

text \<open>Rounding an end up within the address space does not overflow.\<close>

lemma align_up_below:
  assumes "b \<le> E" "is_page_aligned E" "E < 2 ^ 64"
  obtains c where "align_up b = Ok c" "is_page_aligned c" "b \<le> c" "c \<le> E"
proof -
  have "E \<le> 2 ^ 64 - 4096"
  proof -
    have "E mod 4096 = 0" using assms(2) by (simp add: is_page_aligned_def GUEST_PAGE_SIZE_def)
    then obtain q where q: "E = 4096 * q" by (auto simp: mod_eq_0_iff_dvd)
    then have "q < 2 ^ 52" using assms(3) by simp
    then show ?thesis using q by simp
  qed
  then have "b + 4095 < 2 ^ 64" using assms(1) by simp
  then obtain c where c: "align_up b = Ok c"
    by (auto simp: align_up_def align_up_to_def nat_checked_add_def ok_or_def GUEST_PAGE_SIZE_def result_simps)
  then show thesis using that align_up_Ok [OF c] assms by blast
qed

lemma align_down_to_le: "align_down_to a GUEST_PAGE_SIZE \<le> a"
  by (simp add: align_down_to_def GUEST_PAGE_SIZE_def)

lemma ensure_page_range_unique_covers:
  assumes ok: "mem_ok ext s" and b: "b \<le> gm_address_space_end (fst s)"
  shows "st_post (ensure_guest_page_range_unique a b) s (\<lambda>_ s'. quiet ext s s' \<and> keeps_cover a b s s') (quiet_err ext s)"
proof (cases "a < b")
  case True
  obtain c where c: "align_up b = Ok c" "is_page_aligned c" "b \<le> c"
    using align_up_below [OF b mem_okD(5,6) [OF ok]] by blast
  have "keeps_cover a b s s'" if "keeps_cover (align_down_to a GUEST_PAGE_SIZE) c s s'" for s'
    using that c(3) align_down_to_le [of a] unfolding keeps_cover_def by (meson le_trans)
  then have "st_post (ensure_guest_range_unique (align_down_to a GUEST_PAGE_SIZE) c) s
      (\<lambda>_ s'. quiet ext s s' \<and> keeps_cover a b s s') (quiet_err ext s)"
    by (intro st_post_mono [OF ensure_guest_range_unique_post [OF ok align_down_aligned c(2)]]) auto
  then show ?thesis
    using True c by (simp add: ensure_guest_page_range_unique_def align_up_to_page post_simps)
qed (simp add: ensure_guest_page_range_unique_def post_simps quiet_refl keeps_cover_same ok)

lemma ensure_page_range_unique_post:
  assumes ok: "mem_ok ext s" and b: "b \<le> gm_address_space_end (fst s)"
  shows "st_post (ensure_guest_page_range_unique a b) s (\<lambda>_ s'. quiet ext s s') (quiet_err ext s)"
  by (rule st_post_mono [OF ensure_page_range_unique_covers [OF assms]]) auto

end
