(* ===== verification/Mem_Rw.thy ===== *)
theory Mem_Rw
  imports Mem_Cow
begin

text \<open>
  Reading and writing guest memory as operations on the address space that the guest sees: a read
  returns the bytes of \<open>view\<close>, a write replaces them, and both fail at the first address that is not
  mapped or not accessible.
\<close>

section \<open>The abstract memory\<close>

type_synonym guest_view = "nat \<Rightarrow> (u8 \<times> mem_protection \<times> mem_vma_kind) option"

definition allowed :: "access_kind \<Rightarrow> mem_protection \<Rightarrow> bool" where
  "allowed access p = (case access of Read \<Rightarrow> prot_read p | Write \<Rightarrow> prot_write p)"

definition fault :: "guest_view \<Rightarrow> access_kind \<Rightarrow> nat \<Rightarrow> guest_memory_error option" where
  "fault V access a =
     (case V a of None \<Rightarrow> Some NotMapped
      | Some (_, p, _) \<Rightarrow> if allowed access p then None else Some AccessDenied)"

text \<open>The first faulting address of a range decides the error; without one, the bytes are read.\<close>

definition read_view :: "guest_view \<Rightarrow> access_kind \<Rightarrow> nat \<Rightarrow> nat \<Rightarrow> u8 list mem_result" where
  "read_view V access a b =
     (case List.find (\<lambda>x. fault V access x \<noteq> None) [a..<b] of
        Some x \<Rightarrow> Err (the (fault V access x))
      | None \<Rightarrow> Ok (map (\<lambda>x. fst (the (V x))) [a..<b]))"

definition put :: "nat \<Rightarrow> u8 list \<Rightarrow> guest_view \<Rightarrow> guest_view" where
  "put a bs V x =
     (if a \<le> x \<and> x < a + length bs then map_option (\<lambda>(_, pk). (bs ! (x - a), pk)) (V x) else V x)"

lemma put_Nil [simp]: "put a [] V = V"
  by (auto simp: put_def fun_eq_iff)

lemma put_append: "put (a + length bs) cs (put a bs V) = put a (bs @ cs) V"
  by (auto simp: put_def fun_eq_iff nth_append)

lemma fault_put [simp]: "fault (put a bs V) access x = fault V access x"
  by (auto simp: fault_def put_def split: option.splits)

lemma access_check_simps:
  "access_check access p = (if allowed access p then Ok () else Err AccessDenied)"
  by (simp add: access_check_def ensure_def allowed_def)

lemma read_view_chunk:
  assumes "a \<le> c" "c \<le> b" "\<And>x. a \<le> x \<Longrightarrow> x < c \<Longrightarrow> fault V access x = None"
  shows "read_view V access a b =
    and_then (read_view V access c b) (\<lambda>rest. Ok (map (\<lambda>x. fst (the (V x))) [a..<c] @ rest))"
proof -
  have split: "[a..<b] = [a..<c] @ [c..<b]" using assms(1,2) by (metis le_Suc_ex upt_add_eq_append)
  have "List.find (\<lambda>x. fault V access x \<noteq> None) [a..<c] = None"
    using assms(3) by (auto simp: find_None_iff)
  then have f: "List.find (\<lambda>x. fault V access x \<noteq> None) [a..<b] = List.find (\<lambda>x. fault V access x \<noteq> None) [c..<b]"
    unfolding split find_append by simp
  show ?thesis
    unfolding read_view_def f by (auto simp: split split: option.splits)
qed

lemma read_view_fault:
  assumes "a < b" "fault V access a = Some e"
  shows "read_view V access a b = Err e"
  using assms by (simp add: read_view_def upt_conv_Cons)

section \<open>Reading\<close>

lemma fault_at:
  assumes ok: "mem_ok ext s" and v: "bt_get (gm_vmas (fst s)) k = Some v" "v_start v \<le> a" "a < v_end v"
  shows "fault (view s) access a = (if allowed access (v_protection v) then None else Some AccessDenied)"
  using content_byte_of [OF mem_okD(3) [OF ok] v mem_okD(11) [OF ok v(1)]]
  by (simp add: fault_def view_def)

lemma vma_at:
  assumes ok: "mem_ok ext s"
  shows "vma_containing (gm_vmas (fst s)) a = Some v \<Longrightarrow>
      bt_get (gm_vmas (fst s)) (v_start v) = Some v \<and> v_start v \<le> a \<and> a < v_end v"
    and "vma_containing (gm_vmas (fst s)) a = None \<Longrightarrow> fault (view s) access a = Some NotMapped"
  using vma_containing_Some [OF mem_okD(3) [OF ok], of a v]
  by (auto simp: fault_def view_def content_def locate_def)

lemma chunk_bytes:
  assumes ok: "mem_ok ext s" and v: "bt_get (gm_vmas (fst s)) k = Some v" and c: "v_start v \<le> a" "a \<le> c" "c \<le> v_end v"
    and A: "alloc_at (fst s) (snd s) (v_allocation_id v) = Some (gs, bs)"
  defines "off \<equiv> v_allocation_offset v + (a - v_start v)"
  shows "slice bs off (off + (c - a)) = Ok (map (\<lambda>x. fst (the (view s x))) [a..<c])"
    "gs + off = a" "off + (c - a) \<le> length bs"
proof -
  have b: "gs + v_allocation_offset v = v_start v" "v_end v \<le> gs + length bs"
    using mem_okD(11) [OF ok v] A by (auto simp: backed_def)
  show off: "gs + off = a" "off + (c - a) \<le> length bs" using b c by (auto simp: off_def)
  have "take (c - a) (drop off bs) = map (\<lambda>x. fst (the (view s x))) [a..<c]"
  proof (rule nth_equalityI)
    show "length (take (c - a) (drop off bs)) = length (map (\<lambda>x. fst (the (view s x))) [a..<c])" using off by simp
    fix j assume j: "j < length (take (c - a) (drop off bs))"
    then have "view s (a + j) = Some (bs ! (a + j - gs), v_protection v, v_kind v)"
      unfolding view_def using off c
      by (intro content_Some(1) [OF mem_okD(3) [OF ok] v _ _ mem_okD(11) [OF ok v] A]) auto
    moreover have "a + j - gs = off + j" using off by simp
    ultimately show "take (c - a) (drop off bs) ! j = map (\<lambda>x. fst (the (view s x))) [a..<c] ! j"
      using j off by simp
  qed
  then show "slice bs off (off + (c - a)) = Ok (map (\<lambda>x. fst (the (view s x))) [a..<c])"
    using off by (simp add: slice_def)
qed

lemma copy_guest_loop_view:
  assumes "mem_ok ext (m, h)"
  shows "copy_guest_loop m h access a b = read_view (view (m, h)) access a b"
  using assms
proof (induction m h access a b rule: copy_guest_loop.induct)
  case (1 m h access a b)
  let ?V = "view (m, h)"
  note ok = 1(2)
  show ?case
  proof (cases "b \<le> a")
    case True
    then show ?thesis by (simp add: copy_guest_loop.simps read_view_def)
  next
    case False
    show ?thesis
    proof (cases "vma_containing (gm_vmas m) a")
      case None
      then show ?thesis
        using False vma_at(2) [OF ok, of a access] read_view_fault [of a b ?V access]
        by (simp add: copy_guest_loop.simps)
    next
      case (Some v)
      then have v: "bt_get (gm_vmas m) (v_start v) = Some v" "v_start v \<le> a" "a < v_end v"
        using vma_at(1) [OF ok] by auto
      have fault: "fault ?V access x = (if allowed access (v_protection v) then None else Some AccessDenied)"
        if "a \<le> x" "x < v_end v" for x
        using fault_at [OF ok, of "v_start v" v x access] v that by simp
      show ?thesis
      proof (cases "allowed access (v_protection v)")
        case denied: False
        then show ?thesis
          using False Some fault [of a] v read_view_fault [of a b ?V access AccessDenied]
          by (simp add: copy_guest_loop.simps access_check_simps)
      next
        case True
        let ?c = "min (v_end v) b"
        have c: "a \<le> ?c" "?c \<le> v_end v" "?c \<le> b" "a < ?c" using v False by auto
        obtain gs bs where A: "alloc_at m h (v_allocation_id v) = Some (gs, bs)"
          using mem_okD(11) [OF ok, of "v_start v" v] v by (auto simp: backed_def)
        obtain al where al: "bt_get (gm_allocations m) (v_allocation_id v) = Some al" "arc_bytes h (ga_memory al) = bs"
          using A by (auto elim: alloc_atE)
        let ?off = "v_allocation_offset v + (a - v_start v)"
        have sl: "slice bs ?off (?off + (?c - a)) = Ok (map (\<lambda>x. fst (the (?V x))) [a..<?c])"
          using chunk_bytes(1) [OF ok, of "v_start v" v a ?c gs bs] v c A by simp
        have IH: "copy_guest_loop m h access (a + (?c - a)) b = read_view ?V access (a + (?c - a)) b"
          by (rule 1(1) [OF False Some refl refl al(1) ok])
        have eq: "a + (?c - a) = ?c" using c by simp
        have "copy_guest_loop m h access a b
            = and_then (read_view ?V access ?c b) (\<lambda>rest. Ok (map (\<lambda>x. fst (the (?V x))) [a..<?c] @ rest))"
          by (subst copy_guest_loop.simps)
            (simp add: access_check_simps Let_def False Some True al sl IH [unfolded eq] eq)
        also have "\<dots> = read_view ?V access a b"
          using read_view_chunk [of a ?c b ?V access] c fault True by simp
        finally show ?thesis .
      qed
    qed
  qed
qed

section \<open>Writing\<close>

text \<open>The state of the address space apart from its areas and bytes, and the bytes of the others.\<close>

definition frame :: "(nat \<Rightarrow> nat) \<Rightarrow> guest_memory \<times> host \<Rightarrow> guest_memory \<times> host \<Rightarrow> bool" where
  "frame ext s s' \<longleftrightarrow> mem_ok ext s' \<and> env_kept ext (snd s) (snd s') \<and> same_layout (fst s) (fst s')"

lemma frame_refl: "mem_ok ext s \<Longrightarrow> frame ext s s"
  by (simp add: frame_def)

lemma frame_trans: "frame ext s s' \<Longrightarrow> frame ext s' s'' \<Longrightarrow> frame ext s s''"
  by (auto simp: frame_def same_layout_def intro: env_kept_trans)

lemma frameD:
  assumes "frame ext s s'"
  shows "mem_ok ext s'" "env_kept ext (snd s) (snd s')" "same_layout (fst s) (fst s')"
    "gm_address_space_end (fst s') = gm_address_space_end (fst s)"
    "faulted (snd s') h \<Longrightarrow> faulted (snd s) h"
  using assms env_kept_faulted(1) by (auto simp: frame_def same_layout_def)

lemma quiet_frame: "quiet ext s s' \<Longrightarrow> frame ext s s'"
  by (simp add: quiet_def frame_def)

lemma splice_nth:
  "off + length xs \<le> length bs \<Longrightarrow> j < length bs \<Longrightarrow>
     splice off xs bs ! j = (if off \<le> j \<and> j < off + length xs then xs ! (j - off) else bs ! j)"
  by (auto simp: splice_def nth_append)

text \<open>Writing into the allocation under an area writes to the addresses of the area.\<close>

lemma splice_view:
  assumes ok: "mem_ok ext s" and A: "alloc_at (fst s) (snd s) i = Some (gs, bs)"
    and len: "off + length xs \<le> length bs"
    and t: "touches ext ((alloc_at (fst s) (snd s))(i \<mapsto> (gs, splice off xs bs))) s s'"
    and here: "\<And>a. gs + off \<le> a \<Longrightarrow> a < gs + off + length xs \<Longrightarrow> \<exists>p k o'. locate (gm_vmas (fst s)) a = Some (p, k, i, o')"
  shows "frame ext s s'" "view s' = put (gs + off) xs (view s)"
proof -
  let ?A = "(alloc_at (fst s) (snd s))(i \<mapsto> (gs, splice off xs bs))"
  have ok': "mem_ok ext s'"
    by (rule touches_mem_ok [OF ok t]) (simp add: same_extent_upd A len)
  note f = touches_fields [OF t]
  show "frame ext s s'" using ok' f by (simp add: frame_def same_layout_def)
  show "view s' = put (gs + off) xs (view s)"
  proof
    fix a
    show "view s' a = put (gs + off) xs (view s) a"
    proof (cases "locate (gm_vmas (fst s)) a")
      case None
      then show ?thesis by (simp add: view_def content_def f put_def)
    next
      case (Some q)
      obtain p k j o' where q: "q = (p, k, j, o')" by (metis prod.exhaust)
      obtain gs' bs' where B: "alloc_at (fst s) (snd s) j = Some (gs', bs')" "gs' + o' = a" "o' < length bs'"
        "view s a = Some (bs' ! o', p, k)"
        using content_at [OF mem_okD(3) [OF ok], of "alloc_at (fst s) (snd s)" a p k j o'] mem_okD(11) [OF ok] Some q
        unfolding view_def by metis
      show ?thesis
      proof (cases "j = i")
        case True
        then have "view s' a = Some (splice off xs bs ! o', p, k)"
          using Some q by (simp add: view_def content_def f)
        moreover have "gs' = gs" "bs' = bs" using B A True by auto
        moreover have "a - (gs + off) = o' - off" using B \<open>gs' = gs\<close> by simp
        ultimately show ?thesis
          using B splice_nth [OF len, of o'] by (auto simp: put_def)
      next
        case False
        then have "\<not> (gs + off \<le> a \<and> a < gs + off + length xs)" using here [of a] Some q by auto
        moreover have "view s' a = view s a" using Some q False by (simp add: view_def content_def f)
        ultimately show ?thesis by (auto simp: put_def)
      qed
    qed
  qed
qed

text \<open>How a write can fail: at a faulting address, by a host fault, or when the identifiers of
  allocations are used up.\<close>

definition write_err ::
  "(nat \<Rightarrow> nat) \<Rightarrow> nat \<Rightarrow> u8 list \<Rightarrow> guest_memory \<times> host \<Rightarrow> guest_memory_error \<Rightarrow> guest_memory \<times> host \<Rightarrow> bool" where
  "write_err ext a bs s e s' \<longleftrightarrow> frame ext s s' \<and> (\<exists>n \<le> length bs. view s' = put a (take n bs) (view s)
     \<and> (n < length bs \<and> fault (view s) Write (a + n) = Some e \<or> faulted (snd s) (snd s') \<or> exhausted s' \<and> e = OutOfMemory))"

definition write_done :: "(nat \<Rightarrow> nat) \<Rightarrow> nat \<Rightarrow> u8 list \<Rightarrow> guest_memory \<times> host \<Rightarrow> guest_memory \<times> host \<Rightarrow> bool" where
  "write_done ext a bs s s' \<longleftrightarrow> frame ext s s' \<and> view s' = put a bs (view s)
     \<and> (\<forall>x. a \<le> x \<and> x < a + length bs \<longrightarrow> fault (view s) Write x = None)"

lemma write_done_append:
  assumes "write_done ext a bs s s'" "write_done ext (a + length bs) cs s' s''"
  shows "write_done ext a (bs @ cs) s s''"
proof -
  have "fault (view s) Write x = None" if "a \<le> x" "x < a + length (bs @ cs)" for x
    using assms that unfolding write_done_def by (cases "x < a + length bs") auto
  then show ?thesis
    using assms frame_trans unfolding write_done_def by (metis put_append)
qed

lemma write_err_append:
  assumes "write_done ext a bs s s'" "write_err ext (a + length bs) cs s' e s''"
  shows "write_err ext a (bs @ cs) s e s''"
proof -
  have d: "frame ext s s'" "view s' = put a bs (view s)" using assms(1) by (auto simp: write_done_def)
  obtain n where n: "n \<le> length cs" "view s'' = put (a + length bs) (take n cs) (view s')" "frame ext s' s''"
    "n < length cs \<and> fault (view s') Write (a + length bs + n) = Some e \<or> faulted (snd s') (snd s'')
     \<or> exhausted s'' \<and> e = OutOfMemory"
    using assms(2) by (auto simp: write_err_def)
  have "view s'' = put a (take (length bs + n) (bs @ cs)) (view s)"
    using n(2) by (simp add: d(2) put_append)
  moreover have "frame ext s s''" using frame_trans [OF d(1) n(3)] .
  ultimately show ?thesis
    using n d frameD(5) [OF d(1)] unfolding write_err_def
    by (auto intro!: exI [of _ "length bs + n"] simp: add.assoc)
qed

lemma write_err_done: "write_done ext a bs s s' \<Longrightarrow> faulted (snd s) (snd s') \<Longrightarrow> write_err ext a bs s e s'"
  unfolding write_err_def write_done_def by (metis order_refl take_all)

lemma write_err_quiet:
  assumes "quiet ext s s'"
    "bs \<noteq> [] \<and> fault (view s) Write a = Some e \<or> faulted (snd s) (snd s') \<or> exhausted s' \<and> e = OutOfMemory"
  shows "write_err ext a bs s e s'"
  using assms quiet_frame [OF assms(1)] quietD(3) [OF assms(1)]
  unfolding write_err_def by (auto intro!: exI [of _ "0 :: nat"])

lemma write_err_more:
  assumes "write_err ext a bs s e s'"
  shows "write_err ext a (bs @ cs) s e s'"
proof -
  obtain n where "n \<le> length bs" "view s' = put a (take n bs) (view s)" "frame ext s s'"
    "n < length bs \<and> fault (view s) Write (a + n) = Some e \<or> faulted (snd s) (snd s') \<or> exhausted s' \<and> e = OutOfMemory"
    using assms by (auto simp: write_err_def)
  then show ?thesis unfolding write_err_def by (auto intro!: exI [of _ n])
qed

lemma write_err_after: "quiet ext s s' \<Longrightarrow> write_err ext a bs s' e s'' \<Longrightarrow> write_err ext a bs s e s''"
  and write_done_after: "quiet ext s s' \<Longrightarrow> write_done ext a bs s' s'' \<Longrightarrow> write_done ext a bs s s''"
  using quiet_frame [of ext s s'] quietD(3) [of ext s s'] frame_trans [of ext s s' s''] frameD(5) [of ext s s']
  unfolding write_err_def write_done_def by auto

lemma store_chunk_post:
  assumes ok: "mem_ok ext s" and v: "bt_get (gm_vmas (fst s)) (v_start v) = Some v" "v_start v \<le> a" "a < v_end v"
    and w: "prot_write (v_protection v)" and b: "a < b" "b - a \<le> length bytes - copied" "copied \<le> length bytes"
  shows "st_post (store_chunk v a b bytes copied) s
    (\<lambda>(n, x) s'. n = min (v_end v) b - a \<and> write_done ext a (take n (drop copied bytes)) s s')
    (write_err ext a (take (min (v_end v) b - a) (drop copied bytes)) s)"
proof -
  let ?c = "min (v_end v) b" and ?i = "v_allocation_id v" and ?off = "v_allocation_offset v + (a - v_start v)"
  let ?xs = "take (?c - a) (drop copied bytes)"
  have c: "a \<le> ?c" "?c \<le> v_end v" "0 < ?c - a" using v b by auto
  have len: "length ?xs = ?c - a" using b by auto
  have sl: "slice bytes copied (copied + (?c - a)) = Ok ?xs" using b by (auto simp: slice_def)
  obtain gs bs where A: "alloc_at (fst s) (snd s) ?i = Some (gs, bs)"
    using mem_okD(11) [OF ok v(1)] by (auto simp: backed_def)
  note cb = chunk_bytes(2,3) [OF ok v(1,2) c(1,2) A]
  have fault: "fault (view s) Write x = None" if "a \<le> x" "x < a + length ?xs" for x
    using fault_at [OF ok v(1), of x Write] that v w len c by (simp add: allowed_def)
  have here: "\<exists>p k o'. locate (gm_vmas (fst s)) x = Some (p, k, ?i, o')" if "a \<le> x" "x < a + (?c - a)" for x
    using locate_Some [OF mem_okD(3) [OF ok] v(1), of x] v that c by (auto simp: place_def)
  let ?A = "(alloc_at (fst s) (snd s))(?i \<mapsto> (gs, splice ?off ?xs bs))"
  have t_done: "write_done ext a ?xs s s'" if "touches ext ?A s s'" for s'
    using splice_view [OF ok A _ that] cb here fault len by (auto simp: write_done_def)
  have "st_post (allocation_memory_write ?i ?off (?off + (?c - a)) ?xs) s
     (\<lambda>_ s'. touches ext ?A s s') (\<lambda>_ s'. solid ext s s' \<and> faulted (snd s) (snd s'))"
    by (rule allocation_memory_write_post [OF ok A]) (use cb len in auto)
  then have "st_post (allocation_memory_write ?i ?off (?off + (?c - a)) ?xs) s
     (\<lambda>_ s'. st_post (st_bind (if prot_execute (v_protection v) then flush_allocation ?i ?off (?c - a) else st_ok ())
        (\<lambda>_. st_ok (?c - a, prot_execute (v_protection v)))) s'
        (\<lambda>(n, x) s'. n = ?c - a \<and> write_done ext a (take n (drop copied bytes)) s s') (write_err ext a ?xs s))
     (write_err ext a ?xs s)"
  proof (rule st_post_mono)
    fix u s1 assume t: "touches ext ?A s s1"
    note d = t_done [OF t]
    then have fr: "frame ext s s1" by (simp add: write_done_def)
    have A1: "alloc_at (fst s1) (snd s1) ?i = Some (gs, splice ?off ?xs bs)" using touches_fields(8) [OF t] by simp
    have q: "write_done ext a ?xs s s2" if "solid ext s1 s2" for s2
      using d solid_quiet [OF frameD(1) [OF fr] that] quiet_frame frame_trans [OF fr]
      unfolding write_done_def by (metis quietD(3))
    have "st_post (if prot_execute (v_protection v) then flush_allocation ?i ?off (?c - a) else st_ok ()) s1
        (\<lambda>_ s2. solid ext s1 s2) (\<lambda>_ s2. solid ext s1 s2 \<and> faulted (snd s1) (snd s2))"
    proof (cases "prot_execute (v_protection v)")
      case True
      have "?off + (?c - a) \<le> length (splice ?off ?xs bs)" using cb len by simp
      from flush_post [OF frameD(1) [OF fr] A1 c(3) this] True show ?thesis by simp
    qed (simp add: st_post_basic solid_refl [OF frameD(1) [OF fr]])
    then show "st_post (st_bind (if prot_execute (v_protection v) then flush_allocation ?i ?off (?c - a) else st_ok ())
        (\<lambda>_. st_ok (?c - a, prot_execute (v_protection v)))) s1
        (\<lambda>(n, x) s'. n = ?c - a \<and> write_done ext a (take n (drop copied bytes)) s s') (write_err ext a ?xs s)"
      unfolding st_post_bind st_post_basic
    proof (rule st_post_mono)
      fix e s2 assume e: "solid ext s1 s2 \<and> faulted (snd s1) (snd s2)"
      then show "write_err ext a ?xs s e s2" using q frameD(5) [OF fr] write_err_done by blast
    qed (use q in auto)
  next
    fix e s1 assume e: "solid ext s s1 \<and> faulted (snd s) (snd s1)"
    then show "write_err ext a ?xs s e s1" using solid_quiet [OF ok] write_err_quiet by blast
  qed
  then show ?thesis by (simp add: store_chunk_def Let_def post_simps sl)
qed

lemma take_more: "n \<le> k \<Longrightarrow> take k xs = take n xs @ take (k - n) (drop n xs)"
  by (metis le_add_diff_inverse take_add)

lemma write_chunk_post:
  assumes ok: "mem_ok ext s" and b: "a < b" "b - a \<le> length bytes - copied" "copied \<le> length bytes"
  shows "st_post (write_chunk a b bytes copied) s
    (\<lambda>(n, x) s'. 0 < n \<and> n \<le> b - a \<and> write_done ext a (take n (drop copied bytes)) s s')
    (write_err ext a (take (b - a) (drop copied bytes)) s)"
proof -
  have ne: "take (b - a) (drop copied bytes) \<noteq> []" using b by auto
  note err = write_err_quiet [OF quiet_refl [OF ok], of "take (b - a) (drop copied bytes)" a]
  consider (none) "vma_containing (gm_vmas (fst s)) a = None"
    | (denied) v where "vma_containing (gm_vmas (fst s)) a = Some v" "\<not> prot_write (v_protection v)"
    | (ok) v where "vma_containing (gm_vmas (fst s)) a = Some v" "prot_write (v_protection v)"
    by (cases "vma_containing (gm_vmas (fst s)) a") auto
  then show ?thesis
  proof cases
    case none
    then show ?thesis using err vma_at(2) [OF ok none] ne by (simp add: st_post_def write_chunk_def)
  next
    case (denied v)
    then have "fault (view s) Write a = Some AccessDenied"
      using fault_at [OF ok, of "v_start v" v a Write] vma_at(1) [OF ok denied(1)] by (simp add: allowed_def)
    then show ?thesis
      using denied err ne
      by (simp add: st_post_def write_chunk_def st_bind_def st_lift_def access_check_simps allowed_def)
  next
    case v: (ok v)
    note va = vma_at(1) [OF ok v(1)]
    have wr: "fault (view s) Write a = None"
      using fault_at [OF ok, of "v_start v" v a Write] va v(2) by (simp add: allowed_def)
    have "min (v_end v) b \<le> gm_address_space_end (fst s)"
      using mem_okD(4) [OF ok] va unfolding aligned_vmas_def by (metis min.coboundedI1)
    note E = ensure_page_range_unique_post [OF ok this, of a]
    have "st_post (st_bind (ensure_guest_page_range_unique a (min (v_end v) b)) (\<lambda>_ s.
            (case vma_containing (gm_vmas (fst s)) a of
               None \<Rightarrow> (Err NotMapped, s)
             | Some v \<Rightarrow> store_chunk v a b bytes copied s))) s
        (\<lambda>(n, x) s'. 0 < n \<and> n \<le> b - a \<and> write_done ext a (take n (drop copied bytes)) s s')
        (write_err ext a (take (b - a) (drop copied bytes)) s)"
      unfolding st_post_bind
    proof (rule st_post_mono [OF E])
      fix u s1 assume q: "quiet ext s s1"
      have wr1: "fault (view s1) Write a = None" using wr quietD(3) [OF q] by simp
      then obtain w where w: "vma_containing (gm_vmas (fst s1)) a = Some w"
        using vma_at(2) [OF quietD(1) [OF q], of a Write] by (cases "vma_containing (gm_vmas (fst s1)) a") auto
      note wa = vma_at(1) [OF quietD(1) [OF q] w]
      have "prot_write (v_protection w)"
        using wr1 fault_at [OF quietD(1) [OF q], of "v_start w" w a Write] wa
        by (simp add: allowed_def split: if_splits)
      then have S: "st_post (store_chunk w a b bytes copied) s1
          (\<lambda>(n, x) s'. n = min (v_end w) b - a \<and> write_done ext a (take n (drop copied bytes)) s1 s')
          (write_err ext a (take (min (v_end w) b - a) (drop copied bytes)) s1)"
        using wa b by (intro store_chunk_post [OF quietD(1) [OF q]]) auto
      have more: "take (b - a) (drop copied bytes) = take (min (v_end w) b - a) (drop copied bytes)
          @ take (b - a - (min (v_end w) b - a)) (drop (min (v_end w) b - a) (drop copied bytes))"
        by (rule take_more) simp
      have "st_post (store_chunk w a b bytes copied) s1
          (\<lambda>(n, x) s'. 0 < n \<and> n \<le> b - a \<and> write_done ext a (take n (drop copied bytes)) s s')
          (write_err ext a (take (b - a) (drop copied bytes)) s)"
        unfolding more
        by (rule st_post_mono [OF S])
          (use write_done_after [OF q] write_err_more [OF write_err_after [OF q]] wa b in auto)
      then show "st_post (\<lambda>s. case vma_containing (gm_vmas (fst s)) a of None \<Rightarrow> (Err NotMapped, s)
             | Some v \<Rightarrow> store_chunk v a b bytes copied s) s1
          (\<lambda>(n, x) s'. 0 < n \<and> n \<le> b - a \<and> write_done ext a (take n (drop copied bytes)) s s')
          (write_err ext a (take (b - a) (drop copied bytes)) s)"
        using w by (simp add: st_post_def)
    next
      fix e s1 assume "quiet_err ext s e s1"
      then show "write_err ext a (take (b - a) (drop copied bytes)) s e s1"
        by (auto simp: quiet_err_def intro: write_err_quiet)
    qed
    then show ?thesis
      using v by (simp add: st_post_def write_chunk_def st_bind_def [of "st_lift _"] st_lift_def access_check_simps allowed_def)
  qed
qed

lemma write_guest_loop_post:
  assumes "mem_ok ext s" "a \<le> b" "b - a = length bytes - copied" "copied \<le> length bytes"
  shows "st_post (write_guest_loop a b bytes copied touched) s
    (\<lambda>_ s'. write_done ext a (drop copied bytes) s s') (write_err ext a (drop copied bytes) s)"
  using assms
proof (induction a b bytes copied touched s rule: write_guest_loop.induct)
  case (1 a b bytes copied touched s)
  show ?case
  proof (cases "b \<le> a")
    case True
    then have "drop copied bytes = []" using 1(3-5) by simp
    then show ?thesis
      using True 1(2) by (auto simp: st_post_def write_guest_loop.simps write_done_def frame_refl)
  next
    case False
    have C: "st_post (write_chunk a b bytes copied) s
        (\<lambda>(n, x) s'. 0 < n \<and> n \<le> b - a \<and> write_done ext a (take n (drop copied bytes)) s s')
        (write_err ext a (take (b - a) (drop copied bytes)) s)"
      using 1(2-5) False by (intro write_chunk_post) auto
    show ?thesis
    proof (cases "write_chunk a b bytes copied s" rule: prod.exhaust)
      case (Pair r s1)
      show ?thesis
      proof (cases r)
        case (Ok nx)
        obtain n x where nx: "nx = (n, x)" by (cases nx)
        have n: "0 < n" "n \<le> b - a" "write_done ext a (take n (drop copied bytes)) s s1"
          using C Pair Ok nx by (auto simp: st_post_def)
        have ok1: "mem_ok ext s1" using n(3) by (simp add: write_done_def frame_def)
        have len: "length (take n (drop copied bytes)) = n" using n 1(4) by simp
        have bs: "drop copied bytes = take n (drop copied bytes) @ drop (copied + n) bytes"
          by (metis add.commute append_take_drop_id drop_drop)
        have IH: "st_post (write_guest_loop (a + n) b bytes (copied + n) (touched \<or> x)) s1
            (\<lambda>_ s'. write_done ext (a + n) (drop (copied + n) bytes) s1 s')
            (write_err ext (a + n) (drop (copied + n) bytes) s1)"
          using 1(1) [OF False Pair [symmetric] Ok nx [symmetric] ok1] n 1(3-5) by simp
        have "st_post (write_guest_loop (a + n) b bytes (copied + n) (touched \<or> x)) s1
            (\<lambda>_ s'. write_done ext a (drop copied bytes) s s') (write_err ext a (drop copied bytes) s)"
          by (rule st_post_mono [OF IH])
            (use write_done_append [OF n(3), of "drop (copied + n) bytes"]
              write_err_append [OF n(3), of "drop (copied + n) bytes"] in \<open>simp_all only: len bs [symmetric]\<close>)
        then show ?thesis
          using Pair Ok nx False by (simp add: st_post_def write_guest_loop.simps [of a b bytes copied touched s])
      next
        case (Err e)
        have "take (b - a) (drop copied bytes) = drop copied bytes" using 1(4) by simp
        then have "write_err ext a (drop copied bytes) s e s1" using C Pair Err by (simp add: st_post_def)
        then show ?thesis
          using Pair Err False by (simp add: st_post_def write_guest_loop.simps [of a b bytes copied touched s])
      next
        case Panic
        then show ?thesis using C Pair by (simp add: st_post_def)
      qed
    qed
  qed
qed

lemma record_write_quiet:
  assumes "mem_ok ext s"
  shows "quiet ext s (record_executable_write s)"
proof -
  have "alloc_at (fst (record_executable_write s)) = alloc_at (fst s)"
    "holds (fst (record_executable_write s)) = holds (fst s)"
    by (simp_all add: record_executable_write_def alloc_at_def holds_def fun_eq_iff)
  then show ?thesis
    using assms by (simp add: quiet_def mem_ok_def map_ok_def refs_ok_def view_def same_layout_def)
      (simp add: record_executable_write_def)
qed

lemma write_done_quiet: "write_done ext a bs s s' \<Longrightarrow> quiet ext s' s'' \<Longrightarrow> write_done ext a bs s s''"
  unfolding write_done_def using frame_trans quiet_frame quietD(3) by metis

lemma write_guest_post:
  assumes ok: "mem_ok ext s" and b: "a + length bytes < 2 ^ 64"
  shows "st_post (write_guest a bytes) s (\<lambda>_ s'. write_done ext a bytes s s') (write_err ext a bytes s)"
proof -
  have "checked_raw_range a (length bytes) = Ok (a + length bytes)"
    using b by (simp add: checked_raw_range_def nat_checked_add_def)
  moreover have "st_post (write_guest_loop a (a + length bytes) bytes 0 False) s
      (\<lambda>_ s'. write_done ext a bytes s s') (write_err ext a bytes s)"
    using write_guest_loop_post [OF ok, of a "a + length bytes" bytes 0 False] by simp
  moreover have "st_post (if t then st_modify record_executable_write else st_ok ()) s'
      (\<lambda>_ s'. write_done ext a bytes s s') E" if "write_done ext a bytes s s'" for t s' and E :: "guest_memory_error \<Rightarrow> _"
    using that write_done_quiet [OF that record_write_quiet] by (auto simp: post_simps write_done_def frame_def)
  ultimately show ?thesis
    unfolding write_guest_def by (simp add: st_post_bind st_post_basic) (rule st_post_mono, assumption, simp_all)
qed

end
