(* ===== verification/Mem_Replace.thy ===== *)
theory Mem_Replace
  imports Mem_Rw
begin

text \<open>
  Finding host memory for a mapping: \<open>ensure_host_allocation\<close> uses an allocation that contains the
  range, or makes one, merging every allocation that overlaps the host range of the request.  The
  merge takes the old allocations away before it asks the host for the new one, and puts them back
  when the host refuses; a single host fault is survived without a trace.
\<close>

section \<open>Disjoint allocations\<close>

type_synonym allocs = "nat \<Rightarrow> (nat \<times> u8 list) option"

definition covers :: "nat \<times> u8 list \<Rightarrow> nat \<Rightarrow> bool" where
  "covers al a \<longleftrightarrow> fst al \<le> a \<and> a < fst al + length (snd al)"

definition adisj :: "allocs \<Rightarrow> bool" where
  "adisj A \<longleftrightarrow> (\<forall>i j x y a. A i = Some x \<longrightarrow> A j = Some y \<longrightarrow> covers x a \<longrightarrow> covers y a \<longrightarrow> i = j)"

definition tidy :: "guest_memory \<times> host \<Rightarrow> bool" where
  "tidy s \<longleftrightarrow> adisj (alloc_at (fst s) (snd s))"

lemma adisjD: "adisj A \<Longrightarrow> A i = Some x \<Longrightarrow> A j = Some y \<Longrightarrow> covers x a \<Longrightarrow> covers y a \<Longrightarrow> i = j"
  unfolding adisj_def by blast

lemma adisj_sub: "adisj A \<Longrightarrow> (\<And>i x. B i = Some x \<Longrightarrow> A i = Some x) \<Longrightarrow> adisj B"
  unfolding adisj_def by blast

lemma adisj_upd:
  assumes "adisj A" "\<And>j y a. j \<noteq> i \<Longrightarrow> A j = Some y \<Longrightarrow> covers y a \<Longrightarrow> \<not> covers x a"
  shows "adisj (A(i \<mapsto> x))"
  using assms unfolding adisj_def by (metis fun_upd_other fun_upd_same option.inject)

lemma same_extent_covers:
  assumes "same_extent A B" "B i = Some y"
  obtains x where "A i = Some x" "\<And>a. covers x a \<longleftrightarrow> covers y a"
proof -
  have "map_option (\<lambda>(gs, bs). (gs, length bs)) (A i) = Some (fst y, length (snd y))"
    using assms(1) [unfolded same_extent_def, rule_format, of i] assms(2) by (simp add: case_prod_beta)
  then show thesis using that by (auto simp: covers_def)
qed

lemma same_extent_adisj:
  assumes "same_extent A B" "adisj A"
  shows "adisj B"
  unfolding adisj_def
proof (intro allI impI)
  fix i j x y a assume B: "B i = Some x" "B j = Some y" "covers x a" "covers y a"
  obtain x' where "A i = Some x'" "covers x' a" using same_extent_covers [OF assms(1) B(1)] B(3) by blast
  moreover obtain y' where "A j = Some y'" "covers y' a" using same_extent_covers [OF assms(1) B(2)] B(4) by blast
  ultimately show "i = j" using adisjD [OF assms(2)] by blast
qed

lemma solid_tidy: "solid ext s s' \<Longrightarrow> tidy s' \<longleftrightarrow> tidy s"
  by (simp add: tidy_def solid_fields(8))

section \<open>Steps of the merge\<close>

lemma touches_same:
  assumes "touches ext A s s1" "host_same (snd s1) h"
  shows "touches ext A s (fst s1, h)"
  using assms host_same_refs_ok [of ext "fst s1" "snd s1" h] host_same_env_kept [OF assms(2), of ext]
    env_kept_trans [of ext "snd s" "snd s1" h]
  by (auto simp: touches_def)

lemma touches_next: "touches ext A s s1 \<Longrightarrow> gm_next_allocation_id (fst s1) = gm_next_allocation_id (fst s)"
  by (rule touches_fields(2))

lemma touches_insert:
  assumes t: "touches ext A s s1" and i: "i < gm_next_allocation_id (fst s)"
  shows "touches ext (A(i \<mapsto> (gs, hm_bytes mem))) s (allocations_insert i gs mem s1)"
proof -
  obtain m h where s1: "s1 = (m, h)" by (cases s1)
  obtain m' h' where s': "(m', h') = allocations_insert i gs mem (m, h)" by (metis prod.exhaust)
  have r: "refs_ok ext m h" using t s1 by (simp add: touches_def)
  have i': "i < gm_next_allocation_id m" using i touches_next [OF t] s1 by simp
  note I = allocations_insert [OF r i' s']
  have "alloc_at m' h' = A(i \<mapsto> (gs, hm_bytes mem))" using I t s1 by (auto simp: touches_def)
  moreover have "m' = (fst s)\<lparr>gm_allocations := gm_allocations m'\<rparr>"
    using I t s1 unfolding touches_def by (auto) (metis guest_memory.surjective guest_memory.update_convs(2))
  ultimately show ?thesis
    using I t env_kept_trans by (auto simp: touches_def s1 simp flip: s')
qed

lemma touches_remove_all:
  assumes t: "touches ext A s s1"
  shows "touches ext (\<lambda>k. if k \<in> set is then None else A k) s (fold allocations_remove is s1)"
proof -
  obtain m h where s1: "s1 = (m, h)" by (cases s1)
  obtain m' h' where s': "(m', h') = fold allocations_remove is (m, h)" by (metis prod.exhaust)
  have r: "refs_ok ext m h" using t s1 by (simp add: touches_def)
  note R = fold_allocations_remove [OF r s']
  have "alloc_at m' h' = (\<lambda>k. if k \<in> set is then None else A k)"
    using R t s1 by (auto simp: touches_def fun_eq_iff)
  moreover have "m' = (fst s)\<lparr>gm_allocations := gm_allocations m'\<rparr>"
    using R t s1 unfolding touches_def by (auto) (metis guest_memory.surjective guest_memory.update_convs(2))
  ultimately show ?thesis
    using R t env_kept_trans by (auto simp: touches_def s1 simp flip: s')
qed

section \<open>Saving and restoring\<close>

definition saved_from :: "guest_memory \<times> host \<Rightarrow> saved_allocation \<Rightarrow> bool" where
  "saved_from s sa \<longleftrightarrow>
     alloc_at (fst s) (snd s) (sa_allocation_id sa) = Some (sa_guest_start sa, sa_bytes sa)
   \<and> sa_ranges sa = allocation_protection_ranges (fst s) (sa_allocation_id sa)"

lemma save_allocations_post:
  assumes "mem_ok ext s" "\<forall>i \<in> set is. alloc_at (fst s) (snd s) i \<noteq> None"
  shows "st_post (save_allocations is) s
    (\<lambda>saved s'. solid ext s s' \<and> fst s' = fst s \<and> map sa_allocation_id saved = is \<and> (\<forall>sa \<in> set saved. saved_from s sa))
    (\<lambda>_ s'. solid ext s s' \<and> faulted (snd s) (snd s'))"
  using assms
proof (induction "is" arbitrary: s)
  case Nil
  then show ?case by (simp add: post_simps solid_refl)
next
  case (Cons i "is")
  note ok = Cons.prems(1)
  obtain gs bs where A: "alloc_at (fst s) (snd s) i = Some (gs, bs)" using Cons.prems(2) by auto
  obtain al where al: "bt_get (gm_allocations (fst s)) i = Some al" "ga_guest_start al = gs"
    using A by (auto elim: alloc_atE)
  let ?ranges = "allocation_protection_ranges (fst s) i"
  have "st_post (st_bind (on_host (guarded_bytes (ga_memory al) ?ranges)) (\<lambda>bytes.
          st_bind (save_allocations is) (\<lambda>saved.
          st_ok (\<lparr>sa_allocation_id = i, sa_guest_start = ga_guest_start al, sa_bytes = bytes,
                   sa_ranges = ?ranges\<rparr> # saved)))) s
    (\<lambda>saved s'. solid ext s s' \<and> fst s' = fst s \<and> map sa_allocation_id saved = i # is \<and> (\<forall>sa \<in> set saved. saved_from s sa))
    (\<lambda>_ s'. solid ext s s' \<and> faulted (snd s) (snd s'))"
  proof (rule chain_solid [OF ok copied_memory_post [OF ok A al(1)]])
    fix bytes s1 assume s1: "solid ext s s1" "mem_ok ext s1" "bytes = bs \<and> fst s1 = fst s"
    have eq: "alloc_at (fst s) (snd s1) = alloc_at (fst s) (snd s)" using solid_fields(8) [OF s1(1)] s1(3) by simp
    have sv: "saved_from s1 sa = saved_from s sa" for sa using eq s1(3) by (simp add: saved_from_def)
    have "\<forall>i \<in> set is. alloc_at (fst s1) (snd s1) i \<noteq> None" using Cons.prems(2) eq s1(3) by simp
    note IH = Cons.IH [OF s1(2) this]
    show "st_post (st_bind (save_allocations is) (\<lambda>saved.
          st_ok (\<lparr>sa_allocation_id = i, sa_guest_start = ga_guest_start al, sa_bytes = bytes,
                   sa_ranges = ?ranges\<rparr> # saved))) s1
      (\<lambda>saved s'. solid ext s s' \<and> fst s' = fst s \<and> map sa_allocation_id saved = i # is \<and> (\<forall>sa \<in> set saved. saved_from s sa))
      (\<lambda>_ s'. solid ext s s' \<and> faulted (snd s) (snd s'))"
      unfolding st_post_bind st_post_basic
      by (rule st_post_mono [OF IH])
        (use solid_trans [OF s1(1)] solid_faulted [OF s1(1)] s1(3) sv A al in \<open>auto simp: saved_from_def [of s]\<close>)
  qed auto
  then show ?case using al by (simp add: st_post_def Let_def)
qed

definition put_back :: "saved_allocation list \<Rightarrow> allocs \<Rightarrow> allocs" where
  "put_back saved A = fold (\<lambda>sa A. A(sa_allocation_id sa \<mapsto> (sa_guest_start sa, sa_bytes sa))) saved A"

definition restorable :: "guest_memory \<Rightarrow> saved_allocation \<Rightarrow> bool" where
  "restorable m sa \<longleftrightarrow> sa_bytes sa \<noteq> [] \<and> length (sa_bytes sa) < 2 ^ 64
     \<and> (\<forall>r \<in> set (sa_ranges sa). range_in (length (sa_bytes sa)) r)
     \<and> (gm_host_address_mode m = FixedGuest \<longrightarrow> 0 < sa_guest_start sa)
     \<and> sa_allocation_id sa < gm_next_allocation_id m"

lemma saved_restorable:
  assumes ok: "mem_ok ext s" and sa: "saved_from s sa"
  shows "restorable (fst s) sa"
proof -
  have A: "alloc_at (fst s) (snd s) (sa_allocation_id sa) = Some (sa_guest_start sa, sa_bytes sa)"
    using sa by (simp add: saved_from_def)
  then obtain al where "bt_get (gm_allocations (fst s)) (sa_allocation_id sa) = Some al" by (auto elim: alloc_atE)
  then have "sa_allocation_id sa < gm_next_allocation_id (fst s)" using refs_okD(2) [OF mem_okD(1) [OF ok]] by blast
  then show ?thesis
    using mem_okD(9,10,12) [OF ok A] allocation_ranges_in [OF ok A] sa by (auto simp: restorable_def saved_from_def)
qed

lemma put_back_get:
  assumes "\<forall>sa \<in> set saved. A (sa_allocation_id sa) = Some (sa_guest_start sa, sa_bytes sa)"
  shows "put_back saved B k = (if k \<in> sa_allocation_id ` set saved then A k else B k)"
  using assms by (induction saved arbitrary: B) (auto simp: put_back_def)

lemma filled_touches:
  assumes t: "touches ext A s s1" and sa: "restorable (fst s) sa" and calm: "calm (snd s1)"
  shows "st_post (restore_saved_allocation sa) s1
    (\<lambda>_ s2. touches ext (A(sa_allocation_id sa \<mapsto> (sa_guest_start sa, sa_bytes sa))) s s2 \<and> calm (snd s2))
    (\<lambda>_ _. False)"
proof -
  have mode: "gm_host_address_mode (fst s1) = gm_host_address_mode (fst s)" by (rule touches_fields(7) [OF t])
  have fm: "st_post (filled_memory gs (sa_bytes sa) (sa_ranges sa) (gm_host_address_mode (fst s))) (snd s1)
      (\<lambda>mem h'. tick (snd s1) h' \<and> hm_bytes mem = sa_bytes sa) (\<lambda>_ h'. tick (snd s1) h' \<and> faulted (snd s1) h')"
    if "0 < gs" for gs
    using sa that by (intro filled_memory_post) (auto simp: restorable_def)
  have "st_post (filled_memory (sa_guest_start sa) (sa_bytes sa) (sa_ranges sa) (gm_host_address_mode (fst s))) (snd s1)
      (\<lambda>mem h'. tick (snd s1) h' \<and> hm_bytes mem = sa_bytes sa) (\<lambda>_ h'. tick (snd s1) h' \<and> faulted (snd s1) h')"
  proof (cases "0 < sa_guest_start sa")
    case False
    then have "gm_host_address_mode (fst s) = Flexible"
      using sa by (cases "gm_host_address_mode (fst s)") (auto simp: restorable_def)
    then have "filled_memory (sa_guest_start sa) (sa_bytes sa) (sa_ranges sa) (gm_host_address_mode (fst s))
        = filled_memory 1 (sa_bytes sa) (sa_ranges sa) (gm_host_address_mode (fst s))"
      by (simp add: filled_memory_def allocate_guest_host_memory_at_def fun_eq_iff)
    then show ?thesis using fm [of 1] by simp
  qed (rule fm)
  then have "st_post (st_bind (on_host (filled_memory (sa_guest_start sa) (sa_bytes sa) (sa_ranges sa)
        (gm_host_address_mode (fst s)))) (\<lambda>mem.
      st_modify (allocations_insert (sa_allocation_id sa) (sa_guest_start sa) mem))) s1
    (\<lambda>_ s2. touches ext (A(sa_allocation_id sa \<mapsto> (sa_guest_start sa, sa_bytes sa))) s s2 \<and> calm (snd s2))
    (\<lambda>_ _. False)"
    unfolding st_post_bind st_post_on_host st_post_modify
  proof (rule st_post_mono)
    fix mem :: host_memory and h assume h: "tick (snd s1) h \<and> hm_bytes mem = sa_bytes sa"
    then have "touches ext A s (fst s1, h)" using touches_same [OF t] tick_host_same by blast
    then have t': "touches ext (A(sa_allocation_id sa \<mapsto> (sa_guest_start sa, sa_bytes sa))) s
        (allocations_insert (sa_allocation_id sa) (sa_guest_start sa) mem (fst s1, h))"
      using touches_insert [of ext A s "(fst s1, h)" "sa_allocation_id sa" "sa_guest_start sa" mem] sa h
      by (simp add: restorable_def)
    have "h_os (snd (allocations_insert (sa_allocation_id sa) (sa_guest_start sa) mem (fst s1, h))) = h_os h"
      "h_calls (snd (allocations_insert (sa_allocation_id sa) (sa_guest_start sa) mem (fst s1, h))) = h_calls h"
      by (auto simp: allocations_insert_def arc_new_def drop_allocation_def arc_drop_simps split: option.splits)
    then show "touches ext (A(sa_allocation_id sa \<mapsto> (sa_guest_start sa, sa_bytes sa))) s
        (allocations_insert (sa_allocation_id sa) (sa_guest_start sa) mem (fst s1, h)) \<and>
        calm (snd (allocations_insert (sa_allocation_id sa) (sa_guest_start sa) mem (fst s1, h)))"
      using t' calm h calm_later [OF calm] by (auto simp: tick_def)
  qed (use calm in \<open>auto simp: faulted_def\<close>)
  then show ?thesis by (simp add: st_post_def restore_saved_allocation_def mode)
qed

lemma restore_post:
  assumes "touches ext A s s1" "\<forall>sa \<in> set saved. restorable (fst s) sa" "calm (snd s1)"
  shows "st_post (restore_saved_allocations saved) s1 (\<lambda>_ s2. touches ext (put_back saved A) s s2 \<and> calm (snd s2)) (\<lambda>_ _. False)"
  using assms
proof (induction saved arbitrary: A s1)
  case (Cons sa saved)
  have "st_post (restore_saved_allocation sa) s1
      (\<lambda>_ s2. touches ext (A(sa_allocation_id sa \<mapsto> (sa_guest_start sa, sa_bytes sa))) s s2 \<and> calm (snd s2)) (\<lambda>_ _. False)"
    using Cons.prems by (intro filled_touches) auto
  then show ?case
    unfolding restore_saved_allocations_def st_for.simps st_post_bind
    by (rule st_post_mono)
      (use Cons.IH Cons.prems in \<open>auto simp: restore_saved_allocations_def put_back_def\<close>)
qed (simp add: restore_saved_allocations_def post_simps put_back_def)

section \<open>The bytes of the merged allocation\<close>

definition saved_al :: "saved_allocation \<Rightarrow> nat \<times> u8 list" where
  "saved_al sa = (sa_guest_start sa, sa_bytes sa)"

definition fits :: "nat \<Rightarrow> nat \<Rightarrow> saved_allocation \<Rightarrow> bool" where
  "fits gs n sa \<longleftrightarrow> gs \<le> sa_guest_start sa \<and> sa_guest_start sa + length (sa_bytes sa) \<le> gs + n"

lemma splice_at:
  assumes "fits gs (length buf) sa" "gs \<le> a" "a < gs + length buf"
  shows "splice (sa_guest_start sa - gs) (sa_bytes sa) buf ! (a - gs)
    = (if covers (saved_al sa) a then sa_bytes sa ! (a - sa_guest_start sa) else buf ! (a - gs))"
proof -
  have f: "gs \<le> sa_guest_start sa" "sa_guest_start sa + length (sa_bytes sa) \<le> gs + length buf"
    using assms(1) by (auto simp: fits_def)
  have "splice (sa_guest_start sa - gs) (sa_bytes sa) buf ! (a - gs)
    = (if sa_guest_start sa - gs \<le> a - gs \<and> a - gs < sa_guest_start sa - gs + length (sa_bytes sa)
       then sa_bytes sa ! (a - gs - (sa_guest_start sa - gs)) else buf ! (a - gs))"
    using f assms by (intro splice_nth) auto
  moreover have "sa_guest_start sa - gs \<le> a - gs \<and> a - gs < sa_guest_start sa - gs + length (sa_bytes sa)
      \<longleftrightarrow> covers (saved_al sa) a"
    using f assms by (auto simp: covers_def saved_al_def)
  moreover have "a - gs - (sa_guest_start sa - gs) = a - sa_guest_start sa" using f by simp
  ultimately show ?thesis by simp
qed

lemma copy_saved_bytes:
  assumes "\<forall>sa \<in> set saved. fits gs (length buf) sa"
    and "sorted_wrt (\<lambda>x y. \<forall>a. \<not> (covers (saved_al x) a \<and> covers (saved_al y) a)) saved"
  shows "\<exists>bs. copy_saved gs saved buf = Ok bs \<and> length bs = length buf
    \<and> (\<forall>a. gs \<le> a \<and> a < gs + length buf \<longrightarrow>
         (\<forall>sa \<in> set saved. covers (saved_al sa) a \<longrightarrow> bs ! (a - gs) = sa_bytes sa ! (a - sa_guest_start sa))
       \<and> ((\<forall>sa \<in> set saved. \<not> covers (saved_al sa) a) \<longrightarrow> bs ! (a - gs) = buf ! (a - gs)))"
  using assms
proof (induction saved arbitrary: buf)
  case (Cons sa saved)
  let ?buf = "splice (sa_guest_start sa - gs) (sa_bytes sa) buf"
  have f: "fits gs (length buf) sa" using Cons.prems(1) by simp
  then have le: "sa_guest_start sa - gs + length (sa_bytes sa) \<le> length buf" by (auto simp: fits_def)
  have len: "length ?buf = length buf" using le by simp
  obtain bs where bs: "copy_saved gs saved ?buf = Ok bs" "length bs = length buf"
    and at: "\<And>a sa. gs \<le> a \<Longrightarrow> a < gs + length buf \<Longrightarrow> sa \<in> set saved \<Longrightarrow> covers (saved_al sa) a \<Longrightarrow>
        bs ! (a - gs) = sa_bytes sa ! (a - sa_guest_start sa)"
      "\<And>a. gs \<le> a \<Longrightarrow> a < gs + length buf \<Longrightarrow> (\<forall>sa \<in> set saved. \<not> covers (saved_al sa) a) \<Longrightarrow>
        bs ! (a - gs) = ?buf ! (a - gs)"
    using Cons.IH [of ?buf] Cons.prems len by auto
  have "copy_saved gs (sa # saved) buf = Ok bs" using le bs by (simp add: Let_def write_slice_def)
  moreover have "bs ! (a - gs) = sa_bytes x ! (a - sa_guest_start x)"
    if "gs \<le> a" "a < gs + length buf" "x \<in> set (sa # saved)" "covers (saved_al x) a" for a x
  proof (cases "x = sa")
    case True
    then have "\<forall>y \<in> set saved. \<not> covers (saved_al y) a" using Cons.prems(2) that(4) by auto
    then show ?thesis using at(2) [OF that(1,2)] splice_at [OF f that(1,2)] that(4) True by simp
  qed (use that at(1) in auto)
  moreover have "bs ! (a - gs) = buf ! (a - gs)"
    if "gs \<le> a" "a < gs + length buf" "\<forall>x \<in> set (sa # saved). \<not> covers (saved_al x) a" for a
    using at(2) [OF that(1,2)] splice_at [OF f that(1,2)] that(3) by simp
  ultimately show ?case using bs(2) by blast
qed simp

lemma saved_disjoint:
  assumes "adisj A" "\<forall>sa \<in> set saved. A (sa_allocation_id sa) = Some (saved_al sa)" "distinct (map sa_allocation_id saved)"
  shows "sorted_wrt (\<lambda>x y. \<forall>a. \<not> (covers (saved_al x) a \<and> covers (saved_al y) a)) saved"
  using assms(2,3)
proof (induction saved)
  case (Cons sa saved)
  have "\<not> (covers (saved_al sa) a \<and> covers (saved_al y) a)" if "y \<in> set saved" for y a
    using adisjD [OF assms(1), of "sa_allocation_id sa" "saved_al sa" "sa_allocation_id y" "saved_al y" a] Cons.prems that
    by auto
  then show ?case using Cons by simp
qed simp

section \<open>The merge\<close>

text \<open>What is left after the merge: the merged allocations are gone, and the new one holds their
  bytes.\<close>

definition merged :: "allocs \<Rightarrow> nat list \<Rightarrow> nat \<Rightarrow> nat \<Rightarrow> u8 list \<Rightarrow> allocs" where
  "merged A ids i gs bs = (\<lambda>k. if k \<in> set ids then None else A k)(i \<mapsto> (gs, bs))"

definition carries :: "allocs \<Rightarrow> nat list \<Rightarrow> nat \<Rightarrow> u8 list \<Rightarrow> bool" where
  "carries A ids gs bs \<longleftrightarrow> (\<forall>k al a. k \<in> set ids \<longrightarrow> A k = Some al \<longrightarrow> covers al a \<longrightarrow>
     covers (gs, bs) a \<and> bs ! (a - gs) = snd al ! (a - fst al))"

lemma areas_same_map: "(\<And>v. area (f v) = area v) \<Longrightarrow> areas_same vmas (bt_map_values f vmas)"
  unfolding areas_same_def by (simp add: option.map_comp o_def)

text \<open>Moving the areas of the merged allocations to the new one.\<close>

lemma rebase_quiet:
  assumes ok: "mem_ok ext s" and i: "i = gm_next_allocation_id (fst s)"
    and t: "touches ext (merged (alloc_at (fst s) (snd s)) ids i gs bs) ((fst s)\<lparr>gm_next_allocation_id := Suc i\<rparr>, snd s) s1"
    and c: "carries (alloc_at (fst s) (snd s)) ids gs bs"
    and new: "bs \<noteq> []" "gs + length bs < 2 ^ 64" "gm_host_address_mode (fst s) = FixedGuest \<longrightarrow> 0 < gs"
  shows "quiet ext s (set_vmas (bt_map_values (rebase_vma gs ids i)) s1)"
proof -
  let ?A = "alloc_at (fst s) (snd s)" and ?f = "bt_map_values (rebase_vma gs ids i)"
  let ?s' = "set_vmas ?f s1"
  let ?B = "merged ?A ids i gs bs"
  have f: "gm_vmas (fst s1) = gm_vmas (fst s)" "gm_address_space_end (fst s1) = gm_address_space_end (fst s)"
    "gm_brk_base (fst s1) = gm_brk_base (fst s)" "gm_host_address_mode (fst s1) = gm_host_address_mode (fst s)"
    "alloc_at (fst s1) (snd s1) = ?B" "env_kept ext (snd s) (snd s1)"
    "gm_current_brk (fst s1) = gm_current_brk (fst s)" "gm_mmap_base (fst s1) = gm_mmap_base (fst s)"
    using touches_fields [OF t] by simp_all
  have none: "?A i = None"
  proof -
    have "bt_get (gm_allocations (fst s)) i = None"
      using refs_okD(2) [OF mem_okD(1) [OF ok]] i by (metis less_irrefl option.exhaust)
    then show ?thesis by (simp add: alloc_at_def)
  qed
  have same: "areas_same (gm_vmas (fst s)) (?f (gm_vmas (fst s)))"
    by (rule areas_same_map) (simp add: rebase_vma_def area_def)
  have cov: "covers (gs', bs') a" if "backed ?A v" "?A (v_allocation_id v) = Some (gs', bs')" "v_start v \<le> a" "a < v_end v"
    for v gs' bs' a
    using that by (auto simp: backed_def covers_def)
  have moved: "backed ?B (rebase_vma gs ids i v)
      \<and> (\<forall>a. v_start v \<le> a \<and> a < v_end v \<longrightarrow>
          byte_of ?B (v_allocation_id (rebase_vma gs ids i v)) a = byte_of ?A (v_allocation_id v) a)"
    if v: "bt_get (gm_vmas (fst s)) k = Some v" for k v
  proof -
    have bk: "backed ?A v" by (rule mem_okD(11) [OF ok v])
    then obtain gs' bs' where A: "?A (v_allocation_id v) = Some (gs', bs')" by (auto simp: backed_def)
    have se: "v_start v < v_end v" using vmas_okD(1,2) [OF mem_okD(3) [OF ok] v] by simp
    show ?thesis
    proof (cases "v_allocation_id v \<in> set ids")
      case True
      have at: "covers (gs, bs) a \<and> bs ! (a - gs) = bs' ! (a - gs')" if "v_start v \<le> a" "a < v_end v" for a
        using c True A cov [OF bk A that] unfolding carries_def by fastforce
      have "v_start v \<le> v_end v - 1" "v_end v - 1 < v_end v" using se by linarith+
      then have "covers (gs, bs) (v_end v - 1)" "covers (gs, bs) (v_start v)" using at se by blast+
      then have "gs \<le> v_start v" "v_end v \<le> gs + length bs" by (auto simp: covers_def)
      then show ?thesis
        using at True A by (auto simp: backed_def merged_def rebase_vma_def byte_of_def)
    next
      case False
      then show ?thesis
        using bk A none by (auto simp: backed_def merged_def rebase_vma_def byte_of_def)
    qed
  qed
  have bk: "backed ?B w" if "bt_get (?f (gm_vmas (fst s))) k = Some w" for k w
    using that moved by auto
  have r: "refs_ok ext (fst s1) (snd s1)" using t by (simp add: touches_def)
  have "map_ok (fst ?s') ?B"
    unfolding map_ok_def set_vmas_simps f
  proof (intro conjI allI impI)
    show "vmas_ok (?f (gm_vmas (fst s)))" by (rule areas_same_ok [OF same mem_okD(3) [OF ok]])
    show "aligned_vmas (?f (gm_vmas (fst s))) (gm_address_space_end (fst s))"
      by (rule areas_same_aligned [OF same mem_okD(4) [OF ok]])
    show "backed ?B v" if "bt_get (?f (gm_vmas (fst s))) k = Some v" for k v by (rule bk [OF that])
    fix j gs' bs' assume "?B j = Some (gs', bs')"
    then have j: "j = i \<and> gs' = gs \<and> bs' = bs \<or> ?A j = Some (gs', bs')" by (auto simp: merged_def split: if_splits)
    show "bs' \<noteq> []" using j new(1) mem_okD(9) [OF ok, of j gs' bs'] by blast
    show "gs' + length bs' < 2 ^ 64" using j new(2) mem_okD(10) [OF ok, of j gs' bs'] by blast
    show "0 < gs'" if "gm_host_address_mode (fst s) = FixedGuest"
      using j new(3) mem_okD(12) [OF ok, of j gs' bs'] that by blast
  qed (use mem_okD(5-8) [OF ok] in auto)
  moreover have "refs_ok ext (fst ?s') (snd ?s')" using r by (simp add: refs_ok_def)
  ultimately have "mem_ok ext ?s'" using f(5) by (simp add: mem_ok_def)
  moreover have "view ?s' = view s"
    unfolding view_def set_vmas_simps f
    by (rule areas_same_content [OF same mem_okD(3) [OF ok] mem_okD(11) [OF ok] bk]) (use moved in auto)
  moreover have "boundary a (gm_vmas (fst ?s'))" if "boundary a (gm_vmas (fst s))" for a
    using areas_same_boundary [OF same that] by (simp add: f)
  ultimately show ?thesis using f by (simp add: quiet_def same_layout_def)
qed

definition bump :: "nat \<Rightarrow> guest_memory \<times> host \<Rightarrow> guest_memory \<times> host" where
  "bump n s = ((fst s)\<lparr>gm_next_allocation_id := n\<rparr>, snd s)"

lemma bump_simps [simp]:
  "snd (bump n s) = snd s" "alloc_at (fst (bump n s)) = alloc_at (fst s)" "holds (fst (bump n s)) = holds (fst s)"
  "gm_vmas (fst (bump n s)) = gm_vmas (fst s)" "gm_allocations (fst (bump n s)) = gm_allocations (fst s)"
  "gm_next_allocation_id (fst (bump n s)) = n"
  by (simp_all add: bump_def alloc_at_def holds_def fun_eq_iff)

lemma refs_ok_bump: "refs_ok ext (fst s) (snd s) \<Longrightarrow> gm_next_allocation_id (fst s) \<le> n \<Longrightarrow> refs_ok ext (fst (bump n s)) (snd s)"
  unfolding refs_ok_def by (simp, meson less_le_trans)

lemma bump_quiet:
  assumes "mem_ok ext s" "gm_next_allocation_id (fst s) \<le> n"
  shows "quiet ext s (bump n s)"
proof -
  have f: "gm_address_space_end (fst (bump n s)) = gm_address_space_end (fst s)"
    "gm_brk_base (fst (bump n s)) = gm_brk_base (fst s)"
    "gm_host_address_mode (fst (bump n s)) = gm_host_address_mode (fst s)"
    by (simp_all add: bump_def)
  have "map_ok (fst (bump n s)) (alloc_at (fst s) (snd s))"
    using mem_okD(2) [OF assms(1)] unfolding map_ok_def bump_simps f .
  then show ?thesis
    using assms refs_ok_bump [OF mem_okD(1) [OF assms(1)] assms(2)]
    by (simp add: quiet_def mem_ok_def view_def same_layout_def) (simp add: bump_def)
qed

lemma touches_bump:
  assumes "touches ext A s s1" "gm_next_allocation_id (fst s) \<le> n"
  shows "touches ext A (bump n s) (bump n s1)"
proof -
  have "fst (bump n s1) = (fst (bump n s))\<lparr>gm_allocations := gm_allocations (fst s1)\<rparr>"
    using assms(1) unfolding touches_def bump_def fst_conv by (metis guest_memory.update_convs(2,3) guest_memory.surjective)
  then show ?thesis
    using assms touches_next [OF assms(1)] refs_ok_bump [of ext s1 n] unfolding touches_def bump_simps by simp
qed

lemma restorable_bump:
  "restorable (fst s) sa \<Longrightarrow> gm_next_allocation_id (fst s) \<le> n \<Longrightarrow> restorable (fst (bump n s)) sa"
  by (simp add: restorable_def bump_def)

text \<open>With all its allocations back, the address space is as it was.\<close>

lemma put_back_quiet:
  assumes ok: "mem_ok ext s" and n: "gm_next_allocation_id (fst s) \<le> n"
    and t: "touches ext (alloc_at (fst s) (snd s)) (bump n s) s'"
  shows "quiet ext s s'"
proof -
  note q = bump_quiet [OF ok n]
  have "solid ext (bump n s) s'" using t by (simp add: solid_as_touches)
  then show ?thesis using quiet_trans [OF q solid_quiet [OF quietD(1) [OF q]]] by blast
qed

lemma on_allocation_touches:
  assumes t: "touches ext A s s1" and A: "A i = Some (gs, bs)"
    and f: "\<And>ob. h_objects (snd s1) ob \<noteq> None \<Longrightarrow> arc_bytes (snd s1) ob = bs \<Longrightarrow>
      st_post (f ob) (snd s1) (\<lambda>_ h'. host_same (snd s1) h') (\<lambda>_ h'. host_same (snd s1) h' \<and> faulted (snd s1) h')"
  shows "st_post (on_allocation i f) s1 (\<lambda>_ s2. touches ext A s s2)
    (\<lambda>_ s2. touches ext A s s2 \<and> faulted (snd s1) (snd s2))"
proof -
  have A1: "alloc_at (fst s1) (snd s1) i = Some (gs, bs)" using touches_fields(8) [OF t] A by simp
  then obtain a where a: "bt_get (gm_allocations (fst s1)) i = Some a" "arc_bytes (snd s1) (ga_memory a) = bs"
    by (auto elim: alloc_atE)
  have "refs_ok ext (fst s1) (snd s1)" using t by (simp add: touches_def)
  then have "st_post (f (ga_memory a)) (snd s1) (\<lambda>_ h'. host_same (snd s1) h')
      (\<lambda>_ h'. host_same (snd s1) h' \<and> faulted (snd s1) h')"
    using refs_ok_live(1) [OF _ a(1)] a(2) by (intro f) auto
  then show ?thesis
    unfolding st_post_on_allocation [OF a(1)]
    by (rule st_post_mono) (use touches_same [OF t] in auto)
qed

lemma calm_after:
  assumes "one_fault h" "h_os h1 = h_os h" "h_calls h \<le> h_calls h1" "faulted h1 h2"
  shows "calm h2"
  using assms one_fault_later by (auto simp: faulted_def)

text \<open>The failing paths of the merge.\<close>

lemma restore_and_fail_post:
  assumes ok: "mem_ok ext s" and n: "gm_next_allocation_id (fst s) \<le> n"
    and t: "touches ext (\<lambda>k. if k \<in> set ids then None else alloc_at (fst s) (snd s) k) (bump n s) s1"
    and calm: "calm (snd s1)" and ft: "faulted (snd s) (snd s1)"
    and sv: "map sa_allocation_id saved = ids" "\<forall>sa \<in> set saved. saved_from s sa"
  shows "st_post (restore_and_fail saved e) s1 (\<lambda>_ _. False)
    (\<lambda>_ s'. quiet ext s s' \<and> faulted (snd s) (snd s') \<and> (tidy s \<longrightarrow> tidy s') \<and> gm_next_allocation_id (fst s') = n)"
proof -
  let ?A = "alloc_at (fst s) (snd s)"
  have res: "\<forall>sa \<in> set saved. restorable (fst (bump n s)) sa"
    using saved_restorable [OF ok] sv(2) restorable_bump [OF _ n] by blast
  have "put_back saved (\<lambda>k. if k \<in> set ids then None else ?A k) = ?A"
  proof
    fix k
    have "\<forall>sa \<in> set saved. ?A (sa_allocation_id sa) = Some (sa_guest_start sa, sa_bytes sa)"
      using sv(2) by (simp add: saved_from_def)
    moreover have "set ids = sa_allocation_id ` set saved" unfolding sv(1) [symmetric] by simp
    ultimately show "put_back saved (\<lambda>k. if k \<in> set ids then None else ?A k) k = ?A k"
      using put_back_get [of saved ?A] by simp
  qed
  with restore_post [OF t res calm]
  have R: "st_post (restore_saved_allocations saved) s1 (\<lambda>_ s2. touches ext ?A (bump n s) s2 \<and> calm (snd s2)) (\<lambda>_ _. False)"
    by simp
  obtain s2 where s2: "restore_saved_allocations saved s1 = (Ok (), s2)" "touches ext ?A (bump n s) s2" "calm (snd s2)"
    using R by (auto simp: st_post_def split: prod.splits result.splits)
  have q: "quiet ext s s2" by (rule put_back_quiet [OF ok n s2(2)])
  have "faulted (snd s) (snd s2)" using ft s2(3) by (simp add: faulted_def)
  then show ?thesis
    using s2 q touches_fields(2,8) [OF s2(2)]
    by (simp add: restore_and_fail_def post_simps) (simp add: st_post_def tidy_def)
qed

section \<open>Merging the overlapping allocations\<close>

definition mergeable :: "(nat \<Rightarrow> nat) \<Rightarrow> guest_memory \<times> host \<Rightarrow> nat list \<Rightarrow> nat \<Rightarrow> nat \<Rightarrow> bool" where
  "mergeable ext s ids gs ge \<longleftrightarrow> mem_ok ext s \<and> tidy s \<and> one_fault (snd s) \<and> \<not> exhausted s \<and> distinct ids
   \<and> (\<forall>k \<in> set ids. \<exists>gs' bs'. alloc_at (fst s) (snd s) k = Some (gs', bs') \<and> gs \<le> gs' \<and> gs' + length bs' \<le> ge)
   \<and> gs < ge \<and> ge < 2 ^ 64 \<and> (gm_host_address_mode (fst s) = FixedGuest \<longrightarrow> 0 < gs)"

definition without :: "allocs \<Rightarrow> nat list \<Rightarrow> allocs" where
  "without A ids = (\<lambda>k. if k \<in> set ids then None else A k)"

definition good_saved :: "guest_memory \<times> host \<Rightarrow> nat list \<Rightarrow> saved_allocation list \<Rightarrow> bool" where
  "good_saved s ids saved \<longleftrightarrow> map sa_allocation_id saved = ids \<and> (\<forall>sa \<in> set saved. saved_from s sa)"

definition grew :: "guest_memory \<times> host \<Rightarrow> guest_memory \<times> host \<Rightarrow> bool" where
  "grew s s' \<longleftrightarrow> gm_next_allocation_id (fst s') \<le> Suc (gm_next_allocation_id (fst s))"

definition merge_failed ::
  "(nat \<Rightarrow> nat) \<Rightarrow> guest_memory \<times> host \<Rightarrow> guest_memory_error \<Rightarrow> guest_memory \<times> host \<Rightarrow> bool" where
  "merge_failed ext s e s' \<longleftrightarrow> quiet ext s s' \<and> faulted (snd s) (snd s') \<and> tidy s' \<and> grew s s'"

definition merge_done ::
  "(nat \<Rightarrow> nat) \<Rightarrow> guest_memory \<times> host \<Rightarrow> nat list \<Rightarrow> nat \<Rightarrow> nat \<Rightarrow> nat \<Rightarrow> nat \<times> nat \<Rightarrow> guest_memory \<times> host \<Rightarrow> bool" where
  "merge_done ext s ids gs ge req r s' \<longleftrightarrow>
     quiet ext s s' \<and> grew s s' \<and> r = (gm_next_allocation_id (fst s), req - gs)
   \<and> (\<exists>bs. alloc_at (fst s') (snd s') = merged (alloc_at (fst s) (snd s)) ids (gm_next_allocation_id (fst s)) gs bs
        \<and> length bs = ge - gs)"

lemma mergeableD:
  assumes "mergeable ext s ids gs ge"
  shows "mem_ok ext s" "tidy s" "one_fault (snd s)" "\<not> exhausted s" "distinct ids" "gs < ge" "ge < 2 ^ 64"
    "gm_host_address_mode (fst s) = FixedGuest \<longrightarrow> 0 < gs"
    "k \<in> set ids \<Longrightarrow> \<exists>gs' bs'. alloc_at (fst s) (snd s) k = Some (gs', bs') \<and> gs \<le> gs' \<and> gs' + length bs' \<le> ge"
  using assms by (auto simp: mergeable_def)

lemma next_id_fresh:
  assumes "mem_ok ext s"
  shows "alloc_at (fst s) (snd s) (gm_next_allocation_id (fst s)) = None"
proof -
  have "bt_get (gm_allocations (fst s)) (gm_next_allocation_id (fst s)) = None"
    using refs_okD(2) [OF mem_okD(1) [OF assms]] by (metis less_irrefl option.exhaust)
  then show ?thesis by (simp add: alloc_at_def)
qed

lemma copied_bytes:
  assumes m: "mergeable ext s ids gs ge" and g: "good_saved s ids saved"
  shows "\<exists>bs. copy_saved gs saved (replicate (ge - gs) 0) = Ok bs \<and> length bs = ge - gs
    \<and> carries (alloc_at (fst s) (snd s)) ids gs bs"
proof -
  let ?A = "alloc_at (fst s) (snd s)"
  have sv: "?A (sa_allocation_id sa) = Some (saved_al sa)" "sa_allocation_id sa \<in> set ids" if "sa \<in> set saved" for sa
    using g that by (auto simp: good_saved_def saved_from_def saved_al_def)
  have fit: "fits gs (ge - gs) sa" if "sa \<in> set saved" for sa
    using mergeableD(9) [OF m sv(2) [OF that]] sv(1) [OF that] mergeableD(6) [OF m]
    by (auto simp: fits_def saved_al_def)
  have "sorted_wrt (\<lambda>x y. \<forall>a. \<not> (covers (saved_al x) a \<and> covers (saved_al y) a)) saved"
    using mergeableD(2,5) [OF m] sv(1) g by (intro saved_disjoint [of ?A]) (auto simp: tidy_def good_saved_def)
  then obtain bs where bs: "copy_saved gs saved (replicate (ge - gs) 0) = Ok bs" "length bs = ge - gs"
    and at: "\<And>a sa. gs \<le> a \<Longrightarrow> a < gs + (ge - gs) \<Longrightarrow> sa \<in> set saved \<Longrightarrow> covers (saved_al sa) a \<Longrightarrow>
        bs ! (a - gs) = sa_bytes sa ! (a - sa_guest_start sa)"
    using copy_saved_bytes [of saved gs "replicate (ge - gs) 0"] fit by auto
  have "carries ?A ids gs bs"
    unfolding carries_def
  proof (intro allI impI)
    fix k al a assume k: "k \<in> set ids" "?A k = Some al" "covers al a"
    then obtain sa where sa: "sa \<in> set saved" "k = sa_allocation_id sa" using g by (auto simp: good_saved_def)
    have al: "al = saved_al sa" using sv(1) [OF sa(1)] k(2) sa(2) by simp
    have "gs \<le> a" "a < gs + (ge - gs)"
      using fit [OF sa(1)] k(3) al mergeableD(6) [OF m] by (auto simp: fits_def covers_def saved_al_def)
    then show "covers (gs, bs) a \<and> bs ! (a - gs) = snd al ! (a - fst al)"
      using at sa(1) k(3) bs(2) unfolding al by (simp add: covers_def saved_al_def)
  qed
  then show ?thesis using bs by blast
qed

lemma replacement_ranges_in:
  assumes m: "mergeable ext s ids gs ge" and "length bs = ge - gs"
  shows "\<forall>r \<in> set (replacement_ranges gs ids (fst s)). range_in (length bs) r"
proof
  note ok = mergeableD(1) [OF m]
  fix r assume "r \<in> set (replacement_ranges gs ids (fst s))"
  then obtain v where v: "bt_get (gm_vmas (fst s)) (v_start v) = Some v" "v_allocation_id v \<in> set ids"
    and r: "r = \<lparr>apr_offset = v_start v - gs, apr_len = v_len v, apr_protection = v_protection v\<rparr>"
    using bt_values_get [OF mem_okD(3) [OF ok]] by (auto simp: replacement_ranges_def)
  have se: "v_start v < v_end v" using vmas_okD(2) [OF mem_okD(3) [OF ok] v(1)] .
  have "gs \<le> v_start v" "v_end v \<le> ge"
    using mem_okD(11) [OF ok v(1)] mergeableD(9) [OF m v(2)] by (auto simp: backed_def)
  then show "range_in (length bs) r" using se assms(2) by (auto simp: r range_in_def v_len_def)
qed

lemma merge_undone:
  assumes m: "mergeable ext s ids gs ge" and g: "good_saved s ids saved"
    and t: "touches ext (without (alloc_at (fst s) (snd s)) ids) (bump n s) s1"
    and n: "gm_next_allocation_id (fst s) \<le> n" "n \<le> Suc (gm_next_allocation_id (fst s))"
    and h0: "h_os h0 = h_os (snd s)" "h_calls (snd s) \<le> h_calls h0" and f: "faulted h0 (snd s1)"
  shows "st_post (restore_and_fail saved e) s1 Q (merge_failed ext s)"
proof -
  have "calm (snd s1)" using calm_after [OF mergeableD(3) [OF m] h0 f] .
  moreover have "faulted (snd s) (snd s1)" using faulted_before [OF h0 f] .
  moreover have "map sa_allocation_id saved = ids" "\<forall>sa \<in> set saved. saved_from s sa"
    using g by (auto simp: good_saved_def)
  ultimately have "st_post (restore_and_fail saved e) s1 (\<lambda>_ _. False)
      (\<lambda>_ s'. quiet ext s s' \<and> faulted (snd s) (snd s') \<and> (tidy s \<longrightarrow> tidy s') \<and> gm_next_allocation_id (fst s') = n)"
    by (rule restore_and_fail_post [OF mergeableD(1) [OF m] n(1) t [unfolded without_def]])
  then show ?thesis by (rule st_post_mono) (use mergeableD(2) [OF m] n in \<open>auto simp: merge_failed_def grew_def\<close>)
qed

lemma touches_later:
  "touches ext B s s1 \<Longrightarrow> h_os (snd s1) = h_os (snd s)" "touches ext B s s1 \<Longrightarrow> h_calls (snd s) \<le> h_calls (snd s1)"
  using touches_fields(9) by (fastforce simp: env_kept_def)+

lemma remove_one:
  assumes "touches ext (merged A ids i gs bs) s s1" "A i = None"
  shows "touches ext (without A ids) s (allocations_remove i s1)"
    "faulted h (snd s1) \<Longrightarrow> faulted h (snd (allocations_remove i s1))"
proof -
  have "(\<lambda>k. if k \<in> set [i] then None else merged A ids i gs bs k) = without A ids"
    using assms(2) by (auto simp: merged_def without_def)
  then show "touches ext (without A ids) s (allocations_remove i s1)"
    using touches_remove_all [OF assms(1), of "[i]"] by simp
  have "h_os (snd (allocations_remove i s1)) = h_os (snd s1)" "h_calls (snd (allocations_remove i s1)) = h_calls (snd s1)"
    by (auto simp: allocations_remove_def drop_allocation_def arc_drop_simps split: option.splits prod.splits)
  then show "faulted h (snd s1) \<Longrightarrow> faulted h (snd (allocations_remove i s1))"
    using faulted_after by fastforce
qed

lemma commit_post:
  assumes m: "mergeable ext s ids gs ge" and g: "good_saved s ids saved"
    and t: "touches ext (without (alloc_at (fst s) (snd s)) ids) s s1" and mem: "hm_bytes mem = replicate (ge - gs) 0"
  shows "st_post (commit_replacement req gs ids saved (replacement_ranges gs ids (fst s)) mem) s1
    (merge_done ext s ids gs ge req) (merge_failed ext s)"
proof -
  let ?A = "alloc_at (fst s) (snd s)" and ?i = "gm_next_allocation_id (fst s)"
  let ?b = "bump (Suc ?i)" and ?ranges = "replacement_ranges gs ids (fst s)"
  note ok = mergeableD(1) [OF m]
  obtain bs where bs: "copy_saved gs saved (replicate (ge - gs) 0) = Ok bs" "length bs = ge - gs" "carries ?A ids gs bs"
    using copied_bytes [OF m g] by blast
  let ?B = "merged ?A ids ?i gs bs"
  let ?s2 = "allocations_insert ?i gs (mem\<lparr>hm_bytes := bs\<rparr>) (?b s1)"
  have t2: "touches ext ?B (?b s) ?s2"
    using touches_insert [OF touches_bump [OF t], of "Suc ?i" ?i gs "mem\<lparr>hm_bytes := bs\<rparr>"]
    by (simp add: merged_def without_def)
  have ap: "st_post (on_allocation ?i (\<lambda>ob. on_object ob (apply_allocation_protections ?ranges))) ?s2
      (\<lambda>_ s3. touches ext ?B (?b s) s3) (\<lambda>_ s3. touches ext ?B (?b s) s3 \<and> faulted (snd ?s2) (snd s3))"
    by (rule on_allocation_touches [OF t2, of ?i gs bs], simp add: merged_def, rule apply_object_post)
      (use replacement_ranges_in [OF m bs(2)] bs(2) mergeableD(6,7) [OF m] in auto)
  have fin: "merge_done ext s ids gs ge req (?i, req - gs) (set_vmas (bt_map_values (rebase_vma gs ids ?i)) s3)"
    if t3: "touches ext ?B (?b s) s3" for s3
  proof -
    have "bs \<noteq> []" "gs + length bs < 2 ^ 64" using bs(2) mergeableD(6,7) [OF m] by auto
    then show ?thesis
      using rebase_quiet [OF ok refl t3 [unfolded bump_def] bs(3) _ _ mergeableD(8) [OF m]] touches_fields(2,8) [OF t3] bs(2)
      by (auto simp: merge_done_def grew_def)
  qed
  have err: "st_post (restore_and_fail saved e) (allocations_remove ?i s3) Q (merge_failed ext s)"
    if "touches ext ?B (?b s) s3" "faulted (snd ?s2) (snd s3)" for e s3 and Q :: "nat \<times> nat \<Rightarrow> _"
    using remove_one [OF that(1) next_id_fresh [OF ok]] that(2) touches_later [OF t2]
    by (intro merge_undone [OF m g, of "Suc ?i" _ "snd ?s2"]) auto
  have "st_post take_allocation_id s1 (\<lambda>x s'. x = ?i \<and> s' = ?b s1) (\<lambda>_ _. False)"
    by (rule take_allocation_id_post)
      (use touches_next [OF t] mergeableD(4) [OF m] in \<open>auto simp: exhausted_def bump_def\<close>)
  then show ?thesis
    unfolding commit_replacement_def mem bs(1) st_post_bind st_post_basic
  proof (rule st_post_mono)
    fix x s' assume "x = ?i \<and> s' = ?b s1"
    then show "st_post (st_modify (allocations_insert x gs (mem\<lparr>hm_bytes := bs\<rparr>))) s'
       (\<lambda>_ s'. st_post (st_try (on_allocation x (\<lambda>ob. on_object ob (apply_allocation_protections ?ranges)))
         (\<lambda>_. st_bind (st_modify (set_vmas (bt_map_values (rebase_vma gs ids x)))) (\<lambda>_. st_ok (x, req - gs)))
         (\<lambda>e. st_bind (st_modify (allocations_remove x)) (\<lambda>_. restore_and_fail saved e))) s'
         (merge_done ext s ids gs ge req) (merge_failed ext s)) (merge_failed ext s)"
      using fin err unfolding post_simps by (auto intro!: st_post_mono [OF ap])
  qed auto
qed

lemma allocate_at_mode_post:
  assumes "0 < len" "mode = FixedGuest \<longrightarrow> 0 < start"
  shows "st_post (allocate_guest_host_memory_at start len p mode) h
     (\<lambda>mem h'. tick h h' \<and> hm_bytes mem = replicate len 0) (\<lambda>e h'. tick h h' \<and> faulted h h')"
  using assms allocate_platform_post [of len p h]
  by (cases mode) (simp_all add: allocate_guest_host_memory_at_def hm_allocate_def hm_allocate_at_def)

lemma replace_post:
  assumes m: "mergeable ext s ids gs ge"
  shows "st_post (replace_overlapping_allocations req gs ge ids) s
    (merge_done ext s ids gs ge req) (merge_failed ext s)"
proof -
  let ?A = "alloc_at (fst s) (snd s)" and ?ranges = "replacement_ranges gs ids (fst s)"
  note ok = mergeableD(1) [OF m]
  have live: "\<forall>k \<in> set ids. ?A k \<noteq> None" using mergeableD(9) [OF m] by fastforce
  have mode: "gm_host_address_mode (fst s) = FixedGuest \<longrightarrow> 0 < gs" by (rule mergeableD(8) [OF m])
  show ?thesis
    unfolding replace_overlapping_allocations_def
  proof (rule chain_solid [OF ok save_allocations_post [OF ok live]])
    fix saved s1
    assume s1: "solid ext s s1" "fst s1 = fst s \<and> map sa_allocation_id saved = ids \<and> (\<forall>sa \<in> set saved. saved_from s sa)"
    then have g: "good_saved s ids saved" and f1: "fst s1 = fst s" by (auto simp: good_saved_def)
    let ?s2 = "fold allocations_remove ids s1"
    have t2: "touches ext (without ?A ids) s ?s2"
      using touches_remove_all [OF s1(1) [unfolded solid_as_touches], of ids] by (simp add: without_def)
    have al: "st_post (on_host (allocate_guest_host_memory_at gs (ge - gs) ReadWrite (gm_host_address_mode (fst s)))) ?s2
        (\<lambda>mem s3. touches ext (without ?A ids) s s3 \<and> hm_bytes mem = replicate (ge - gs) 0)
        (\<lambda>e s3. touches ext (without ?A ids) s s3 \<and> faulted (snd ?s2) (snd s3))"
      unfolding st_post_on_host
      by (rule st_post_mono [OF allocate_at_mode_post])
        (use mergeableD(6) [OF m] mode touches_same [OF t2] tick_host_same in auto)
    have err: "st_post (restore_and_fail saved e) s3 (merge_done ext s ids gs ge req) (merge_failed ext s)"
      if s3: "touches ext (without ?A ids) s s3" "faulted (snd ?s2) (snd s3)" for e s3
    proof (rule merge_undone [OF m g _ _ _ touches_later [OF t2] s3(2)])
      have "bump (gm_next_allocation_id (fst s)) s = s" by (simp add: bump_def)
      then show "touches ext (without ?A ids) (bump (gm_next_allocation_id (fst s)) s) s3" using s3(1) by simp
    qed simp_all
    have "\<not> ge < gs" using mergeableD(6) [OF m] by simp
    then show "st_post (st_bind (st_get (\<lambda>s. (replacement_ranges gs ids (fst s), gm_host_address_mode (fst s)))) (\<lambda>(ranges, mode).
        st_bind (st_modify (fold allocations_remove ids)) (\<lambda>_.
          if ge < gs then st_err InvalidAddress
          else st_try (on_host (allocate_guest_host_memory_at gs (ge - gs) ReadWrite mode))
             (commit_replacement req gs ids saved ranges) (restore_and_fail saved)))) s1
        (merge_done ext s ids gs ge req) (merge_failed ext s)"
      using commit_post [OF m g] err by (simp add: post_simps f1) (rule st_post_mono [OF al [unfolded st_post_on_host]], auto)
  qed (use solid_quiet [OF ok] solid_tidy solid_fields(2) mergeableD(2) [OF m] in \<open>auto simp: merge_failed_def grew_def\<close>)
qed

section \<open>The hull of a request\<close>

lemma hull_start_le: "hull_start os x \<le> x" "(k, a) \<in> set os \<Longrightarrow> hull_start os x \<le> ga_guest_start a"
proof -
  have "hull_start os x \<le> x \<and> (\<forall>(k, a) \<in> set os. hull_start os x \<le> ga_guest_start a)"
    by (induction os arbitrary: x) (auto simp: hull_start_def intro: order_trans, (meson min.boundedE order_trans)+)
  then show "hull_start os x \<le> x" "(k, a) \<in> set os \<Longrightarrow> hull_start os x \<le> ga_guest_start a" by auto
qed

lemma hull_end_ge: "x \<le> hull_end h os x" "(k, a) \<in> set os \<Longrightarrow> allocation_guest_end h a \<le> hull_end h os x"
proof -
  have "x \<le> hull_end h os x \<and> (\<forall>(k, a) \<in> set os. allocation_guest_end h a \<le> hull_end h os x)"
    by (induction os arbitrary: x) (auto simp: hull_end_def intro: order_trans, (meson max.boundedE order_trans)+)
  then show "x \<le> hull_end h os x" "(k, a) \<in> set os \<Longrightarrow> allocation_guest_end h a \<le> hull_end h os x" by auto
qed

lemma hull_start_in: "hull_start os x = x \<or> (\<exists>(k, a) \<in> set os. hull_start os x = ga_guest_start a)"
proof (induction os arbitrary: x)
  case (Cons o' os)
  obtain k a where o': "o' = (k, a)" by (cases o')
  show ?case using Cons [of "min x (ga_guest_start a)"] by (auto simp: o' hull_start_def min_def split: if_splits)
qed (simp add: hull_start_def)

lemma hull_end_in: "hull_end h os x = x \<or> (\<exists>(k, a) \<in> set os. hull_end h os x = allocation_guest_end h a)"
proof (induction os arbitrary: x)
  case (Cons o' os)
  obtain k a where o': "o' = (k, a)" by (cases o')
  show ?case using Cons [of "max x (allocation_guest_end h a)"] by (auto simp: o' hull_end_def max_def split: if_splits)
qed (simp add: hull_end_def)

text \<open>The allocations and their ends, by address.\<close>

lemma allocation_facts:
  assumes ok: "mem_ok ext s" and a: "bt_get (gm_allocations (fst s)) k = Some a"
  shows "alloc_at (fst s) (snd s) k = Some (ga_guest_start a, arc_bytes (snd s) (ga_memory a))"
    "allocation_guest_end (snd s) a = ga_guest_start a + length (arc_bytes (snd s) (ga_memory a))"
    "ga_guest_start a < allocation_guest_end (snd s) a" "allocation_guest_end (snd s) a < 2 ^ 64"
proof -
  show A: "alloc_at (fst s) (snd s) k = Some (ga_guest_start a, arc_bytes (snd s) (ga_memory a))"
    by (simp add: alloc_at_def a)
  have l: "ga_guest_start a + length (arc_bytes (snd s) (ga_memory a)) < 2 ^ 64" by (rule mem_okD(10) [OF ok A])
  then show e: "allocation_guest_end (snd s) a = ga_guest_start a + length (arc_bytes (snd s) (ga_memory a))"
    by (simp add: allocation_guest_end_def ga_len_def)
  show "ga_guest_start a < allocation_guest_end (snd s) a" "allocation_guest_end (snd s) a < 2 ^ 64"
    using e l mem_okD(9) [OF ok A] by auto
qed

text \<open>An allocation that is disjoint from the others and does not overlap the request does not reach
  into the hull.\<close>

lemma hull_disjoint:
  assumes ok: "mem_ok ext s" and t: "tidy s" and x: "alloc_at (fst s) (snd s) j = Some (gs, bs)"
    and os: "os = overlapping_allocations x y s" and j: "j \<notin> fst ` set os"
    and a: "covers (gs, bs) a" "hull_start os x \<le> a" "a < hull_end (snd s) os y"
  shows False
proof -
  obtain aj where aj: "bt_get (gm_allocations (fst s)) j = Some aj" "ga_guest_start aj = gs" "arc_bytes (snd s) (ga_memory aj) = bs"
    using x by (auto elim: alloc_atE)
  note ej = allocation_facts [OF ok aj(1)]
  have no: "y \<le> gs \<or> gs + length bs \<le> x"
    using j aj ej os by (force simp: overlapping_allocations_def overlaps_guest_range_def bt_get_Some_iff_entries)
  have other: False if k: "(k, b) \<in> set os" and c: "covers (ga_guest_start b, arc_bytes (snd s) (ga_memory b)) c" "covers (gs, bs) c" for k b c
  proof -
    have "bt_get (gm_allocations (fst s)) k = Some b"
      using k os by (auto simp: overlapping_allocations_def bt_get_Some_iff_entries)
    then have "k = j" using adisjD [OF t [unfolded tidy_def] allocation_facts(1) [OF ok] x c] by blast
    then show False using j k by force
  qed
  have ov: "ga_guest_start b < y \<and> x < ga_guest_start b + length (arc_bytes (snd s) (ga_memory b))
      \<and> allocation_guest_end (snd s) b = ga_guest_start b + length (arc_bytes (snd s) (ga_memory b))" if "(k, b) \<in> set os" for k b
  proof -
    have "bt_get (gm_allocations (fst s)) k = Some b" "overlaps_guest_range (snd s) x y b"
      using that os by (auto simp: overlapping_allocations_def bt_get_Some_iff_entries)
    then show ?thesis using allocation_facts(2) [OF ok] by (auto simp: overlaps_guest_range_def)
  qed
  from no show False
  proof
    assume "y \<le> gs"
    then have "hull_end (snd s) os y \<noteq> y" using a by (auto simp: covers_def)
    then obtain k b where b: "(k, b) \<in> set os" "hull_end (snd s) os y = allocation_guest_end (snd s) b"
      using hull_end_in [of "snd s" os y] by auto
    then show False using other [OF b(1), of a] ov [OF b(1)] a \<open>y \<le> gs\<close> by (auto simp: covers_def)
  next
    assume "gs + length bs \<le> x"
    then have "hull_start os x \<noteq> x" using a by (auto simp: covers_def)
    then obtain k b where b: "(k, b) \<in> set os" "hull_start os x = ga_guest_start b"
      using hull_start_in [of os x] by auto
    then show False using other [OF b(1), of a] ov [OF b(1)] a \<open>gs + length bs \<le> x\<close> by (auto simp: covers_def)
  qed
qed

section \<open>Host memory for a range\<close>

definition host_found ::
  "(nat \<Rightarrow> nat) \<Rightarrow> guest_memory \<times> host \<Rightarrow> nat \<Rightarrow> nat \<Rightarrow> nat \<times> nat \<Rightarrow> guest_memory \<times> host \<Rightarrow> bool" where
  "host_found ext s start len r s' \<longleftrightarrow> quiet ext s s' \<and> tidy s' \<and> grew s s'
   \<and> (\<exists>gs bs. alloc_at (fst s') (snd s') (fst r) = Some (gs, bs) \<and> gs + snd r = start \<and> snd r + len \<le> length bs)"

definition host_refused ::
  "(nat \<Rightarrow> nat) \<Rightarrow> guest_memory \<times> host \<Rightarrow> nat \<Rightarrow> guest_memory_error \<Rightarrow> guest_memory \<times> host \<Rightarrow> bool" where
  "host_refused ext s b e s' \<longleftrightarrow> quiet ext s s' \<and> tidy s' \<and> grew s s'
   \<and> (faulted (snd s) (snd s') \<or> e = InvalidLength \<and> 2 ^ 64 \<le> b + (HOST_ALLOCATION_GRANULARITY - 1))"

definition ready :: "(nat \<Rightarrow> nat) \<Rightarrow> guest_memory \<times> host \<Rightarrow> bool" where
  "ready ext s \<longleftrightarrow> mem_ok ext s \<and> tidy s \<and> one_fault (snd s) \<and> \<not> exhausted s"

lemma merged_tidy:
  assumes t: "tidy s" and h: "\<And>j y a. j \<notin> set ids \<Longrightarrow> alloc_at (fst s) (snd s) j = Some y \<Longrightarrow> covers y a \<Longrightarrow> \<not> covers (gs, bs) a"
    and s': "alloc_at (fst s') (snd s') = merged (alloc_at (fst s) (snd s)) ids i gs bs"
  shows "tidy s'"
  unfolding tidy_def s' merged_def
proof (rule adisj_upd)
  show "adisj (\<lambda>k. if k \<in> set ids then None else alloc_at (fst s) (snd s) k)"
    using t by (auto simp: tidy_def intro: adisj_sub split: if_splits)
qed (use h in \<open>auto split: if_splits\<close>)

lemma fresh_post:
  assumes r: "ready ext s" and g: "gs \<le> start" "start + len \<le> ge" "0 < len" "ge < 2 ^ 64"
    "gm_host_address_mode (fst s) = FixedGuest \<longrightarrow> 0 < gs"
    and h: "\<And>j y a. alloc_at (fst s) (snd s) j = Some y \<Longrightarrow> covers y a \<Longrightarrow> gs \<le> a \<Longrightarrow> a < ge \<Longrightarrow> False"
  shows "st_post (fresh_host_allocation start gs ge) s (host_found ext s start len) (host_refused ext s b)"
proof -
  have ok: "mem_ok ext s" and t: "tidy s" and nex: "\<not> exhausted s" using r by (auto simp: ready_def)
  let ?mode = "gm_host_address_mode (fst s)" and ?i = "gm_next_allocation_id (fst s)"
  have "st_post (on_host (allocate_guest_host_memory_at gs (ge - gs) ReadWrite ?mode)) s
      (\<lambda>mem s1. solid ext s s1 \<and> fst s1 = fst s \<and> hm_bytes mem = replicate (ge - gs) 0)
      (\<lambda>e s1. solid ext s s1 \<and> faulted (snd s) (snd s1))"
    unfolding st_post_on_host
    by (rule st_post_mono [OF allocate_at_mode_post]) (use g tick_solid [of ext "fst s" "snd s"] ok in auto)
  then have "st_post (st_bind (on_host (allocate_guest_host_memory_at gs (ge - gs) ReadWrite ?mode)) (\<lambda>mem.
      st_bind take_allocation_id (\<lambda>i. st_bind (st_modify (allocations_insert i gs mem)) (\<lambda>_. st_ok (i, start - gs))))) s
      (host_found ext s start len) (host_refused ext s b)"
    unfolding st_post_bind
  proof (rule st_post_mono)
    fix mem :: host_memory and s1 assume s1: "solid ext s s1 \<and> fst s1 = fst s \<and> hm_bytes mem = replicate (ge - gs) 0"
    then have q1: "quiet ext s s1" and ok1: "mem_ok ext s1" and f1: "fst s1 = fst s"
      using solid_quiet [OF ok] solid_mem_ok(1) [OF ok] by blast+
    let ?s2 = "allocations_insert ?i gs mem ((fst s1)\<lparr>gm_next_allocation_id := Suc ?i\<rparr>, snd s1)"
    have A1: "alloc_at (fst s1) (snd s1) = alloc_at (fst s) (snd s)" using solid_fields(8) s1 by blast
    have new: "hm_bytes mem \<noteq> []" "gs + length (hm_bytes mem) < 2 ^ 64" "gm_host_address_mode (fst s1) = FixedGuest \<longrightarrow> 0 < gs"
      using s1 g by auto
    have F: "quiet ext s1 ?s2" "alloc_at (fst ?s2) (snd ?s2) = (alloc_at (fst s) (snd s))(?i \<mapsto> (gs, hm_bytes mem))"
      "gm_next_allocation_id (fst ?s2) = Suc ?i"
      using fresh_allocation(1,2,6) [OF ok1 _ new refl, of ?i] f1 A1 by simp_all
    have gege: "gs + (ge - gs) = ge" using g by simp
    have "tidy ?s2"
      by (rule merged_tidy [OF t, of "[]" gs "hm_bytes mem" _ ?i])
        (use h F(2) s1 g gege in \<open>auto simp: merged_def covers_def\<close>)
    then have found: "host_found ext s start len (?i, start - gs) ?s2"
      using quiet_trans [OF q1 F(1)] F s1 g by (auto simp: host_found_def grew_def)
    show "st_post take_allocation_id s1
       (\<lambda>x s'. st_post (st_modify (allocations_insert x gs mem)) s'
          (\<lambda>_ s'. st_post (st_ok (x, start - gs)) s' (host_found ext s start len) (host_refused ext s b)) (host_refused ext s b))
       (host_refused ext s b)"
      unfolding post_simps
      by (rule take_allocation_id_post) (use found f1 nex in \<open>auto simp: exhausted_def\<close>)
  next
    fix e s1 assume e: "solid ext s s1 \<and> faulted (snd s) (snd s1)"
    then have so: "solid ext s s1" by blast
    show "host_refused ext s b e s1"
      using e solid_quiet [OF ok so] solid_tidy [OF so] t solid_fields(2) [OF so] by (simp add: host_refused_def grew_def)
  qed
  then show ?thesis using g by (simp add: st_post_def fresh_host_allocation_def)
qed

lemma align_down_le: "align_down_to x n \<le> x"
  by (simp add: align_down_to_def)

lemma align_down_pos: "0 < n \<Longrightarrow> n \<le> x \<Longrightarrow> 0 < align_down_to x n"
  by (simp add: align_down_to_def div_greater_zero_iff)

lemma host_allocation_range_cases:
  assumes "start + len < 2 ^ 64"
  shows "host_allocation_range start len =
    (if start + len + (HOST_ALLOCATION_GRANULARITY - 1) < 2 ^ 64
     then Ok (align_down_to start HOST_ALLOCATION_GRANULARITY,
       align_down_to (start + len + (HOST_ALLOCATION_GRANULARITY - 1)) HOST_ALLOCATION_GRANULARITY
       - align_down_to start HOST_ALLOCATION_GRANULARITY)
     else Err InvalidLength)"
  using assms
  by (simp add: host_allocation_range_def checked_raw_range_def nat_checked_add_def align_up_to_def Let_def
      HOST_ALLOCATION_GRANULARITY_def)

lemma align_up_ge: "0 < n \<Longrightarrow> x \<le> align_down_to (x + (n - 1)) n"
proof -
  assume n: "0 < n"
  have "x + (n - 1) = align_down_to (x + (n - 1)) n + (x + (n - 1)) mod n" by (simp add: align_down_to_def)
  moreover have "(x + (n - 1)) mod n \<le> n - 1" using n by (simp add: Suc_leI less_Suc_eq_le mod_less_divisor less_imp_le_nat flip: less_Suc_eq_le)
  ultimately show ?thesis by linarith
qed

lemma new_host_allocation_post:
  assumes r: "ready ext s" and g: "gs \<le> start" "start + len \<le> ge" "0 < len" "ge < 2 ^ 64"
    "gm_host_address_mode (fst s) = FixedGuest \<longrightarrow> 0 < gs"
  shows "st_post (new_host_allocation start gs ge) s (host_found ext s start len) (host_refused ext s b)"
proof -
  have ok: "mem_ok ext s" and t: "tidy s" and one: "one_fault (snd s)" and nex: "\<not> exhausted s"
    using r by (auto simp: ready_def)
  let ?os = "overlapping_allocations gs ge s"
  let ?gs = "hull_start ?os gs" and ?ge = "hull_end (snd s) ?os ge" and ?ids = "map fst ?os"
  have get: "bt_get (gm_allocations (fst s)) k = Some a" if "(k, a) \<in> set ?os" for k a
    using that by (auto simp: overlapping_allocations_def bt_get_Some_iff_entries)
  have far: "\<not> covers y a" if "j \<notin> set ?ids" "alloc_at (fst s) (snd s) j = Some y" "?gs \<le> a" "a < ?ge" for j y a
    using hull_disjoint [OF ok t, of j "fst y" "snd y" ?os gs ge a] that by auto
  show ?thesis
  proof (cases "?os = []")
    case True
    then have "?gs = gs" "?ge = ge" by (simp_all add: hull_start_def hull_end_def)
    moreover have "st_post (fresh_host_allocation start gs ge) s (host_found ext s start len) (host_refused ext s b)"
      using far True calculation by (intro fresh_post [OF r g]) auto
    ultimately show ?thesis using True by (simp add: st_post_def new_host_allocation_def Let_def)
  next
    case False
    have "mergeable ext s ?ids ?gs ?ge"
      unfolding mergeable_def
    proof (intro conjI ballI)
      show "distinct ?ids"
        using keys_sorted_distinct [OF keys_sorted_filter [OF keys_sorted_bt_entries]]
        by (simp add: overlapping_allocations_def)
      show "\<exists>gs' bs'. alloc_at (fst s) (snd s) k = Some (gs', bs') \<and> ?gs \<le> gs' \<and> gs' + length bs' \<le> ?ge"
        if k: "k \<in> set ?ids" for k
      proof -
        obtain a where a: "(k, a) \<in> set ?os" using k by auto
        note F = allocation_facts [OF ok get [OF a]]
        show ?thesis using F(1,2) hull_start_le(2) [OF a, of gs] hull_end_ge(2) [OF a, of "snd s" ge] by auto
      qed
      show "?gs < ?ge" using hull_start_le(1) [of ?os gs] hull_end_ge(1) [of ge "snd s" ?os] g by linarith
      show "?ge < 2 ^ 64"
        using hull_end_in [of "snd s" ?os ge] g(4) allocation_facts(4) [OF ok get] by auto
      show "gm_host_address_mode (fst s) = FixedGuest \<longrightarrow> 0 < ?gs"
      proof
        assume fixed: "gm_host_address_mode (fst s) = FixedGuest"
        have "0 < ga_guest_start a" if "(k, a) \<in> set ?os" for k a
          using mem_okD(12) [OF ok allocation_facts(1) [OF ok get [OF that]] fixed] .
        then show "0 < ?gs" using hull_start_in [of ?os gs] g(5) fixed by auto
      qed
    qed (use ok t one nex in auto)
    note R = replace_post [OF this, of start]
    have le: "?gs \<le> start" "start + len \<le> ?ge"
      using hull_start_le(1) [of ?os gs] hull_end_ge(1) [of ge "snd s" ?os] g by linarith+
    have "st_post (replace_overlapping_allocations start ?gs ?ge ?ids) s (host_found ext s start len) (host_refused ext s b)"
    proof (rule st_post_mono [OF R])
      fix x s' assume d: "merge_done ext s ?ids ?gs ?ge start x s'"
      then obtain bs where bs: "alloc_at (fst s') (snd s') = merged (alloc_at (fst s) (snd s)) ?ids (gm_next_allocation_id (fst s)) ?gs bs"
        "length bs = ?ge - ?gs" by (auto simp: merge_done_def)
      have "tidy s'"
        by (rule merged_tidy [OF t _ bs(1)]) (use far bs(2) in \<open>auto simp: covers_def [of "(_, bs)"]\<close>)
      then show "host_found ext s start len x s'"
        using d bs le by (auto simp: host_found_def merge_done_def merged_def)
    qed (auto simp: host_refused_def merge_failed_def)
    then show ?thesis using False by (simp add: st_post_def new_host_allocation_def Let_def)
  qed
qed

lemma ensure_host_allocation_post:
  assumes r: "ready ext s" and g: "0 < len" "start + len < 2 ^ 64"
    "gm_host_address_mode (fst s) = FixedGuest \<longrightarrow> HOST_ALLOCATION_GRANULARITY \<le> start"
  shows "st_post (ensure_host_allocation start len) s (host_found ext s start len) (host_refused ext s (start + len))"
proof -
  have ok: "mem_ok ext s" and t: "tidy s" using r by (auto simp: ready_def)
  let ?G = HOST_ALLOCATION_GRANULARITY
  have G: "0 < ?G" by (simp add: HOST_ALLOCATION_GRANULARITY_def)
  have raw: "checked_raw_range start len = Ok (start + len)" using g by (simp add: checked_raw_range_def nat_checked_add_def)
  let ?P = "\<lambda>(_ :: nat, a). contains_guest_range (snd s) start (start + len) a"
  consider (found) i a where "List.find ?P (bt_entries (gm_allocations (fst s))) = Some (i, a)"
    | (none) "List.find ?P (bt_entries (gm_allocations (fst s))) = None" by (metis option.exhaust prod.exhaust)
  then show ?thesis
  proof cases
    case found
    then have "(i, a) \<in> set (bt_entries (gm_allocations (fst s)))" "contains_guest_range (snd s) start (start + len) a"
      by (auto simp: find_Some_iff) (metis nth_mem)
    then have F: "alloc_at (fst s) (snd s) i = Some (ga_guest_start a, arc_bytes (snd s) (ga_memory a))"
      "ga_guest_start a \<le> start" "start + len \<le> ga_guest_start a + length (arc_bytes (snd s) (ga_memory a))"
      using allocation_facts(1,2) [OF ok, of i a] by (auto simp: bt_get_Some_iff_entries contains_guest_range_def)
    then have "host_found ext s start len (i, start - ga_guest_start a) s"
      using quiet_refl [OF ok] t by (auto simp: host_found_def grew_def)
    then show ?thesis by (simp add: st_post_def ensure_host_allocation_def raw found st_bind_def st_lift_def st_ok_def)
  next
    case none
    let ?gs = "align_down_to start ?G" and ?ge = "align_down_to (start + len + (?G - 1)) ?G"
    show ?thesis
    proof (cases "start + len + (?G - 1) < 2 ^ 64")
      case True
      have le: "?gs \<le> start" "start + len \<le> ?ge" "?ge < 2 ^ 64"
        using align_down_le [of start ?G] align_up_ge [OF G, of "start + len"]
          align_down_le [of "start + len + (?G - 1)" ?G] True by linarith+
      have raw2: "checked_raw_range ?gs (?ge - ?gs) = Ok ?ge"
        using le by (simp add: checked_raw_range_def nat_checked_add_def)
      have "st_post (new_host_allocation start ?gs ?ge) s (host_found ext s start len) (host_refused ext s (start + len))"
        using le g align_down_pos [OF G, of start] by (intro new_host_allocation_post [OF r]) auto
      then show ?thesis
        using True by (simp add: st_post_def ensure_host_allocation_def raw none st_bind_def st_lift_def
            host_allocation_range_cases [OF g(2)] raw2 [unfolded One_nat_def])
    next
      case False
      then have "host_refused ext s (start + len) InvalidLength s"
        using quiet_refl [OF ok] t by (auto simp: host_refused_def grew_def)
      then show ?thesis
        using False by (simp add: st_post_def ensure_host_allocation_def raw none st_bind_def st_lift_def
            host_allocation_range_cases [OF g(2)])
    qed
  qed
qed

end
