(* ===== verification/Mem_Mmap.thy ===== *)
theory Mem_Mmap
  imports Mem_Replace
begin

text \<open>
  Adding and removing mappings: \<open>insert_mapping\<close>, \<open>mmap\<close> with its retries, \<open>munmap\<close> and
  \<open>mprotect\<close>, each as a change of the address space that the guest sees.
\<close>

section \<open>Adding an area\<close>

definition fill :: "nat \<Rightarrow> nat \<Rightarrow> (nat \<Rightarrow> u8) \<Rightarrow> mem_protection \<Rightarrow> mem_vma_kind \<Rightarrow> guest_view \<Rightarrow> guest_view" where
  "fill a b f p k V x = (if a \<le> x \<and> x < b then Some (f x, p, k) else V x)"

definition clear :: "nat \<Rightarrow> nat \<Rightarrow> guest_view \<Rightarrow> guest_view" where
  "clear a b V x = (if a \<le> x \<and> x < b then None else V x)"

text \<open>Bytes that no area shows can change.\<close>

lemma hidden_write:
  assumes ok: "mem_ok ext s" and A: "alloc_at (fst s) (snd s) i = Some (gs, bs)"
    and t: "touches ext ((alloc_at (fst s) (snd s))(i \<mapsto> (gs, bs'))) s s'" and len: "length bs' = length bs"
    and eq: "\<And>a. gs \<le> a \<Longrightarrow> a < gs + length bs \<Longrightarrow> locate (gm_vmas (fst s)) a \<noteq> None \<Longrightarrow> bs' ! (a - gs) = bs ! (a - gs)"
  shows "quiet ext s s'" "tidy s \<Longrightarrow> tidy s'" "gm_next_allocation_id (fst s') = gm_next_allocation_id (fst s)"
proof -
  let ?A = "alloc_at (fst s) (snd s)"
  have ext': "same_extent ?A (?A(i \<mapsto> (gs, bs')))" by (rule same_extent_upd) (use A len in auto)
  note f = touches_fields [OF t]
  have ok': "mem_ok ext s'" by (rule touches_mem_ok [OF ok t ext'])
  have "view s' = view s"
    unfolding view_def f
  proof (rule areas_same_content [OF areas_same_refl mem_okD(3) [OF ok] mem_okD(11) [OF ok]])
    show "backed (?A(i \<mapsto> (gs, bs'))) v" if "bt_get (gm_vmas (fst s)) k = Some v" for k v
      by (rule same_extent_backed [OF ext' mem_okD(11) [OF ok that]])
    fix k v v' a assume v: "bt_get (gm_vmas (fst s)) k = Some v" "bt_get (gm_vmas (fst s)) k = Some v'"
      "v_start v \<le> a" "a < v_end v"
    have "locate (gm_vmas (fst s)) a \<noteq> None" using locate_Some [OF mem_okD(3) [OF ok] v(1,3,4)] by simp
    moreover have "gs \<le> a \<and> a < gs + length bs" if "v_allocation_id v = i"
      using mem_okD(11) [OF ok v(1)] A v(3,4) that by (auto simp: backed_def)
    ultimately show "byte_of (?A(i \<mapsto> (gs, bs'))) (v_allocation_id v') a = byte_of ?A (v_allocation_id v) a"
      using eq [of a] v(1,2) A by (auto simp: byte_of_def)
  qed
  then show "quiet ext s s'" using ok' f by (simp add: quiet_def same_layout_def)
  show "tidy s \<Longrightarrow> tidy s'" using same_extent_adisj [OF ext'] f by (simp add: tidy_def)
  show "gm_next_allocation_id (fst s') = gm_next_allocation_id (fst s)" by (rule f(2))
qed

lemma add_area:
  fixes p :: mem_protection and k :: mem_vma_kind
  assumes ok: "mem_ok ext s" and free: "\<not> overlaps (gm_vmas (fst s)) a b" and ab: "a < b"
    and al: "MIN_GUEST_ADDRESS \<le> a" "is_page_aligned a" "is_page_aligned b" "b \<le> gm_address_space_end (fst s)"
    and A: "alloc_at (fst s) (snd s) i = Some (gs, bs)" "gs + off = a" "off + (b - a) \<le> length bs"
  defines "s' \<equiv> set_vmas (bt_insert a (new_vma a b p k i off)) s"
  shows "frame ext s s'" "view s' = fill a b (\<lambda>x. bs ! (x - gs)) p k (view s)"
proof -
  let ?v = "new_vma a b p k i off"
  have v: "v_start ?v = a" "v_end ?v = b" "v_allocation_id ?v = i" "v_allocation_offset ?v = off"
    "v_protection ?v = p" "v_kind ?v = k" by (simp_all add: new_vma_def)
  let ?vmas = "bt_insert (v_start ?v) ?v (gm_vmas (fst s))"
  have f: "v_start ?v < v_end ?v" "\<not> overlaps (gm_vmas (fst s)) (v_start ?v) (v_end ?v)" using free ab v by simp_all
  note ok1 = vmas_ok_insert [OF mem_okD(3) [OF ok] f]
  have "aligned_vmas ?vmas (gm_address_space_end (fst s))"
    using mem_okD(4) [OF ok] al v by (auto simp: aligned_vmas_def bt_get_insert)
  moreover have "\<forall>k w. bt_get ?vmas k = Some w \<longrightarrow> backed (alloc_at (fst s) (snd s)) w"
    using mem_okD(11) [OF ok] A v ab by (auto simp: bt_get_insert backed_def)
  ultimately have ok': "mem_ok ext s'"
    unfolding s'_def using ok1 v by (intro mem_ok_set_vmas [OF ok]) simp_all
  then show "frame ext s s'" by (simp add: frame_def s'_def)
  show "view s' = fill a b (\<lambda>x. bs ! (x - gs)) p k (view s)"
  proof
    fix x
    have "off + (x - a) = x - gs" if "a \<le> x" using that A(2) by simp
    then show "view s' x = fill a b (\<lambda>x. bs ! (x - gs)) p k (view s) x"
      using locate_insert [OF mem_okD(3) [OF ok] f, of x] v A(1)
      by (auto simp: view_def content_def s'_def fill_def place_def)
  qed
qed

section \<open>insert_mapping\<close>

definition placed ::
  "(nat \<Rightarrow> nat) \<Rightarrow> guest_memory \<times> host \<Rightarrow> guest_view \<Rightarrow> guest_memory \<times> host \<Rightarrow> bool" where
  "placed ext s V s' \<longleftrightarrow> frame ext s s' \<and> tidy s' \<and> grew s s' \<and> view s' = V"

lemma view_None_iff:
  assumes ok: "mem_ok ext t"
  shows "view t x = None \<longleftrightarrow> locate (gm_vmas (fst t)) x = None"
proof (cases "locate (gm_vmas (fst t)) x")
  case (Some q)
  obtain p k i off where "q = (p, k, i, off)" by (metis prod.exhaust)
  then have "view t x \<noteq> None"
    using content_at [OF mem_okD(3) [OF ok], of "alloc_at (fst t) (snd t)" x p k i off] mem_okD(11) [OF ok] Some
    unfolding view_def by (metis option.distinct(1))
  then show ?thesis using Some by simp
qed (simp add: view_def content_def)

lemma no_area:
  assumes "mem_ok ext s" "mem_ok ext s'" "view s' = view s" "\<not> overlaps (gm_vmas (fst s)) a b" "a < b"
  shows "\<not> overlaps (gm_vmas (fst s')) a b" "a \<le> x \<Longrightarrow> x < b \<Longrightarrow> locate (gm_vmas (fst s')) x = None"
proof -
  have "locate (gm_vmas (fst s')) x = None" if "a \<le> x" "x < b" for x
    using assms(4) that view_None_iff [OF assms(1), of x] view_None_iff [OF assms(2), of x] assms(3)
    unfolding overlaps_iff [OF mem_okD(3) [OF assms(1)] assms(5)] by auto
  then show "\<not> overlaps (gm_vmas (fst s')) a b" "a \<le> x \<Longrightarrow> x < b \<Longrightarrow> locate (gm_vmas (fst s')) x = None"
    unfolding overlaps_iff [OF mem_okD(3) [OF assms(2)] assms(5)] by auto
qed

lemma zero_quiet:
  assumes ok: "mem_ok ext s" and t: "tidy s" and A: "alloc_at (fst s) (snd s) i = Some (gs, bs)"
    and len: "0 < len" "off + len \<le> length bs"
    and free: "\<And>x. gs + off \<le> x \<Longrightarrow> x < gs + off + len \<Longrightarrow> locate (gm_vmas (fst s)) x = None"
  shows "st_post (zero_allocation_range i off len) s
    (\<lambda>_ s'. quiet ext s s' \<and> tidy s' \<and> gm_next_allocation_id (fst s') = gm_next_allocation_id (fst s) \<and> alloc_at (fst s') (snd s') i = Some (gs, zeroed off len bs))
    (\<lambda>_ s'. quiet ext s s' \<and> tidy s' \<and> gm_next_allocation_id (fst s') = gm_next_allocation_id (fst s) \<and> faulted (snd s) (snd s'))"
proof -
  let ?A' = "(alloc_at (fst s) (snd s))(i \<mapsto> (gs, zeroed off len bs))"
  have H: "quiet ext s s' \<and> tidy s' \<and> gm_next_allocation_id (fst s') = gm_next_allocation_id (fst s) \<and> alloc_at (fst s') (snd s') i = Some (gs, zeroed off len bs)"
    if t': "touches ext ?A' s s'" for s'
  proof -
    have "zeroed off len bs ! (a - gs) = bs ! (a - gs)"
      if a: "gs \<le> a" "a < gs + length bs" "locate (gm_vmas (fst s)) a \<noteq> None" for a
    proof -
      have "gs + off \<le> a \<and> a < gs + off + len" if "off \<le> a - gs \<and> a - gs < off + len" using that a(1) by linarith
      then have "\<not> (off \<le> a - gs \<and> a - gs < off + len)" using free [of a] a(3) by blast
      then show ?thesis using zeroed_nth [OF len(2), of "a - gs"] a by auto
    qed
    note q = hidden_write [OF ok A t' length_zeroed [OF len(2)] this]
    show ?thesis using q t touches_fields(8) [OF t'] by simp
  qed
  have S: "quiet ext s s' \<and> tidy s' \<and> gm_next_allocation_id (fst s') = gm_next_allocation_id (fst s)" if "solid ext s s'" for s'
    using solid_quiet [OF ok that] solid_tidy [OF that] solid_fields(2) [OF that] t by simp
  show ?thesis by (rule st_post_mono [OF zero_post [OF ok A len]]) (use H S in blast)+
qed

text \<open>The common end of \<open>insert_mapping\<close> and \<open>insert_loaded_mapping\<close>: the pages get their protection
  and the area is recorded.\<close>

definition settled :: "(nat \<Rightarrow> nat) \<Rightarrow> guest_memory \<times> host \<Rightarrow> guest_memory \<times> host \<Rightarrow> bool" where
  "settled ext s s' \<longleftrightarrow> quiet ext s s' \<and> tidy s' \<and> grew s s'"

definition refused :: "(nat \<Rightarrow> nat) \<Rightarrow> guest_memory \<times> host \<Rightarrow> nat \<Rightarrow> guest_memory_error \<Rightarrow> guest_memory \<times> host \<Rightarrow> bool" where
  "refused ext s b e s' \<longleftrightarrow> settled ext s s'
   \<and> (faulted (snd s) (snd s') \<or> e = InvalidLength \<and> 2 ^ 64 \<le> b + (HOST_ALLOCATION_GRANULARITY - 1))"

lemma finish_mapping:
  assumes ok: "mem_ok ext s" and s1: "settled ext s s1" and free: "\<not> overlaps (gm_vmas (fst s)) a b" and ab: "a < b"
    and al: "MIN_GUEST_ADDRESS \<le> a" "is_page_aligned a" "is_page_aligned b" "b \<le> gm_address_space_end (fst s)"
    and A: "alloc_at (fst s1) (snd s1) i = Some (gs, bs)" "gs + off = a" "off + (b - a) \<le> length bs"
  shows "st_post (st_bind (on_allocation i (\<lambda>ob. on_object ob (hm_protect_range off (b - a) q))) (\<lambda>_.
      st_modify (set_vmas (bt_insert a (new_vma a b p k i off))))) s1
    (\<lambda>_ s'. placed ext s (fill a b (\<lambda>x. bs ! (x - gs)) p k (view s)) s') (refused ext s c)"
proof -
  have q1: "quiet ext s s1" and t1: "tidy s1" and g1: "grew s s1" using s1 by (auto simp: settled_def)
  note ok1 = quietD(1) [OF q1]
  have "0 < b - a" using ab by simp
  then show ?thesis
    unfolding post_simps
  proof (rule st_post_mono [OF protect_range_post [OF ok1 A(1) _ A(3)]])
    fix u s2 assume so: "solid ext s1 s2"
    have ok2: "mem_ok ext s2" and v2: "view s2 = view s"
      using solid_mem_ok [OF ok1 so] quietD(3) [OF q1] by simp_all
    have "gm_address_space_end (fst s2) = gm_address_space_end (fst s)"
      using solid_fields(6) [OF so] quietD(5) [OF q1] by simp
    moreover have "alloc_at (fst s2) (snd s2) i = Some (gs, bs)" using A(1) solid_fields(8) [OF so] by simp
    ultimately have add: "frame ext s2 (set_vmas (bt_insert a (new_vma a b p k i off)) s2)"
      "view (set_vmas (bt_insert a (new_vma a b p k i off)) s2) = fill a b (\<lambda>x. bs ! (x - gs)) p k (view s2)"
      using add_area [OF ok2 no_area(1) [OF ok ok2 v2 free ab] ab al(1-3) _ _ A(2,3)] al(4) by simp_all
    have "frame ext s s2" using frame_trans [OF quiet_frame [OF q1] quiet_frame [OF solid_quiet [OF ok1 so]]] .
    from frame_trans [OF this add(1)] show "placed ext s (fill a b (\<lambda>x. bs ! (x - gs)) p k (view s))
        (set_vmas (bt_insert a (new_vma a b p k i off)) s2)"
      using add(2) v2 solid_tidy [OF so] t1 solid_fields(2) [OF so] g1
      by (simp add: placed_def tidy_def grew_def)
  next
    fix e s2 assume e: "solid ext s1 s2 \<and> faulted (snd s1) (snd s2)"
    then have so: "solid ext s1 s2" by blast
    show "refused ext s c e s2"
      using quiet_trans [OF q1 solid_quiet [OF ok1 so]] solid_tidy [OF so] t1 solid_fields(2) [OF so] g1
        env_kept_faulted(1) [OF quietD(2) [OF q1]] e
      by (simp add: refused_def settled_def grew_def)
  qed
qed

lemma fill_cong: "(\<And>x. a \<le> x \<Longrightarrow> x < b \<Longrightarrow> f x = g x) \<Longrightarrow> fill a b f p k V = fill a b g p k V"
  by (auto simp: fill_def)

text \<open>Where a mapping may be placed.\<close>

definition mappable :: "guest_memory \<Rightarrow> nat \<Rightarrow> nat \<Rightarrow> bool" where
  "mappable m a b \<longleftrightarrow> a < b \<and> MIN_GUEST_ADDRESS \<le> a \<and> is_page_aligned a \<and> is_page_aligned b
   \<and> b \<le> gm_address_space_end m \<and> (gm_host_address_mode m = FixedGuest \<longrightarrow> HOST_ALLOCATION_GRANULARITY \<le> a)"

lemma host_found_settled: "host_found ext s a len r s' \<Longrightarrow> settled ext s s'"
  and host_refused_refused: "host_refused ext s c e s' \<Longrightarrow> refused ext s c e s'"
  by (auto simp: host_found_def host_refused_def settled_def refused_def)

lemma refused_after:
  assumes "settled ext s s1" "gm_next_allocation_id (fst s2) = gm_next_allocation_id (fst s1)"
    "quiet ext s1 s2" "tidy s2" "faulted (snd s1) (snd s2)"
  shows "refused ext s c e s2"
  using assms quiet_trans [of ext s s1 s2] env_kept_faulted(1) [OF quietD(2), of ext s s1 "snd s2"]
  by (auto simp: refused_def settled_def grew_def)

lemma insert_mapping_post:
  assumes r: "ready ext s" and m: "mappable (fst s) a (a + len)" and free: "\<not> overlaps (gm_vmas (fst s)) a (a + len)"
  shows "st_post (insert_mapping a len p k) s
    (\<lambda>_ s'. placed ext s (fill a (a + len) (\<lambda>_. 0) p k (view s)) s') (refused ext s (a + len))"
proof -
  have ok: "mem_ok ext s" using r by (simp add: ready_def)
  have ab: "a < a + len" "0 < len" and lt: "a + len < 2 ^ 64"
    and fx: "gm_host_address_mode (fst s) = FixedGuest \<longrightarrow> HOST_ALLOCATION_GRANULARITY \<le> a"
    and al: "MIN_GUEST_ADDRESS \<le> a" "is_page_aligned a" "is_page_aligned (a + len)" "a + len \<le> gm_address_space_end (fst s)"
    using m mem_okD(6) [OF ok] by (auto simp: mappable_def)
  have ce: "checked_mapping_end a len (gm_address_space_end (fst s)) = Ok (a + len)"
    using al lt by (simp add: checked_mapping_end_Ok)
  let ?q = "to_host p"
  have "st_post (st_bind (ensure_host_allocation a len) (\<lambda>(i, off).
      st_bind (zero_allocation_range i off len) (\<lambda>_.
      st_bind (on_allocation i (\<lambda>ob. on_object ob (hm_protect_range off len ?q))) (\<lambda>_.
      st_modify (set_vmas (bt_insert a (new_vma a (a + len) p k i off))))))) s
    (\<lambda>_ s'. placed ext s (fill a (a + len) (\<lambda>_. 0) p k (view s)) s') (refused ext s (a + len))"
    unfolding st_post_bind [of "ensure_host_allocation a len"]
  proof (rule st_post_mono [OF ensure_host_allocation_post [OF r ab(2) lt fx]])
    fix x s1 assume found: "host_found ext s a len x s1"
    obtain i off where x: "x = (i, off)" by (cases x)
    obtain gs bs where A: "alloc_at (fst s1) (snd s1) i = Some (gs, bs)" "gs + off = a" "off + len \<le> length bs"
      using found x by (auto simp: host_found_def)
    note se = host_found_settled [OF found]
    then have q1: "quiet ext s s1" and t1: "tidy s1" by (auto simp: settled_def)
    note ok1 = quietD(1) [OF q1]
    have free1: "locate (gm_vmas (fst s1)) y = None" if "gs + off \<le> y" "y < gs + off + len" for y
      using no_area(2) [OF ok ok1 quietD(3) [OF q1] free ab(1)] that A(2) by simp
    have "st_post (st_bind (zero_allocation_range i off len) (\<lambda>_.
        st_bind (on_allocation i (\<lambda>ob. on_object ob (hm_protect_range off len ?q))) (\<lambda>_.
        st_modify (set_vmas (bt_insert a (new_vma a (a + len) p k i off)))))) s1
      (\<lambda>_ s'. placed ext s (fill a (a + len) (\<lambda>_. 0) p k (view s)) s') (refused ext s (a + len))"
      unfolding st_post_bind [of "zero_allocation_range i off len"]
    proof (rule st_post_mono [OF zero_quiet [OF ok1 t1 A(1) ab(2) A(3) free1]])
      fix u s2
      assume s2: "quiet ext s1 s2 \<and> tidy s2 \<and> gm_next_allocation_id (fst s2) = gm_next_allocation_id (fst s1)
          \<and> alloc_at (fst s2) (snd s2) i = Some (gs, zeroed off len bs)"
      have se2: "settled ext s s2" using s2 se quiet_trans [OF q1] by (auto simp: settled_def grew_def)
      have z: "fill a (a + len) (\<lambda>x. zeroed off len bs ! (x - gs)) p k (view s) = fill a (a + len) (\<lambda>_. 0) p k (view s)"
      proof (rule fill_cong)
        fix x assume x: "a \<le> x" "x < a + len"
        then have "off \<le> x - gs" "x - gs < off + len" "x - gs < length bs" using A(2,3) by linarith+
        then show "zeroed off len bs ! (x - gs) = 0" using zeroed_nth [OF A(3), of "x - gs"] by simp
      qed
      have A2: "alloc_at (fst s2) (snd s2) i = Some (gs, zeroed off len bs)" using s2 by blast
      have len': "off + (a + len - a) \<le> length (zeroed off len bs)" using A(3) by simp
      show "st_post (st_bind (on_allocation i (\<lambda>ob. on_object ob (hm_protect_range off len ?q))) (\<lambda>_.
          st_modify (set_vmas (bt_insert a (new_vma a (a + len) p k i off))))) s2
        (\<lambda>_ s'. placed ext s (fill a (a + len) (\<lambda>_. 0) p k (view s)) s') (refused ext s (a + len))"
        using finish_mapping [OF ok se2 free ab(1) al A2 A(2) len', of ?q p k "a + len"]
        by (simp only: z add_diff_cancel_left')
    next
      fix e s2 assume "quiet ext s1 s2 \<and> tidy s2 \<and> gm_next_allocation_id (fst s2) = gm_next_allocation_id (fst s1) \<and> faulted (snd s1) (snd s2)"
      then show "refused ext s (a + len) e s2" using refused_after [OF se] by blast
    qed
    then show "st_post (case x of (i, off) \<Rightarrow> st_bind (zero_allocation_range i off len) (\<lambda>_.
        st_bind (on_allocation i (\<lambda>ob. on_object ob (hm_protect_range off len ?q))) (\<lambda>_.
        st_modify (set_vmas (bt_insert a (new_vma a (a + len) p k i off)))))) s1
      (\<lambda>_ s'. placed ext s (fill a (a + len) (\<lambda>_. 0) p k (view s)) s') (refused ext s (a + len))"
      by (simp add: x)
  qed (rule host_refused_refused)
  then show ?thesis using free by (simp add: st_post_def insert_mapping_def ce st_bind_def [of "st_lift _"] st_lift_def)
qed

text \<open>The mapping of an image area writes the bytes instead of clearing them.\<close>

lemma write_hidden:
  assumes ok: "mem_ok ext s" and t: "tidy s" and A: "alloc_at (fst s) (snd s) i = Some (gs, bs)"
    and len: "off + length xs \<le> length bs"
    and free: "\<And>x. gs + off \<le> x \<Longrightarrow> x < gs + off + length xs \<Longrightarrow> locate (gm_vmas (fst s)) x = None"
  shows "st_post (allocation_memory_write i off (off + length xs) xs) s
    (\<lambda>_ s'. quiet ext s s' \<and> tidy s' \<and> gm_next_allocation_id (fst s') = gm_next_allocation_id (fst s)
       \<and> alloc_at (fst s') (snd s') i = Some (gs, splice off xs bs))
    (\<lambda>_ s'. quiet ext s s' \<and> tidy s' \<and> gm_next_allocation_id (fst s') = gm_next_allocation_id (fst s)
       \<and> faulted (snd s) (snd s'))"
proof (rule st_post_mono [OF allocation_memory_write_post [OF ok A]])
  fix u s' assume t': "touches ext ((alloc_at (fst s) (snd s))(i \<mapsto> (gs, splice off xs bs))) s s'"
  have "splice off xs bs ! (a - gs) = bs ! (a - gs)"
    if a: "gs \<le> a" "a < gs + length bs" "locate (gm_vmas (fst s)) a \<noteq> None" for a
  proof -
    have "gs + off \<le> a \<and> a < gs + off + length xs" if "off \<le> a - gs \<and> a - gs < off + length xs"
      using that a(1) by linarith
    then have "\<not> (off \<le> a - gs \<and> a - gs < off + length xs)" using free [of a] a(3) by blast
    then show ?thesis using splice_nth [OF len, of "a - gs"] a by auto
  qed
  note q = hidden_write [OF ok A t' length_splice [OF len] this]
  show "quiet ext s s' \<and> tidy s' \<and> gm_next_allocation_id (fst s') = gm_next_allocation_id (fst s)
       \<and> alloc_at (fst s') (snd s') i = Some (gs, splice off xs bs)"
    using q t touches_fields(8) [OF t'] by simp
next
  fix e s' assume e: "solid ext s s' \<and> faulted (snd s) (snd s')"
  then have so: "solid ext s s'" by blast
  show "quiet ext s s' \<and> tidy s' \<and> gm_next_allocation_id (fst s') = gm_next_allocation_id (fst s) \<and> faulted (snd s) (snd s')"
    using solid_quiet [OF ok so] solid_tidy [OF so] solid_fields(2) [OF so] t e by simp
qed (use len in auto)

lemma insert_loaded_mapping_post:
  assumes r: "ready ext s" and m: "mappable (fst s) a (a + length xs)" and free: "\<not> overlaps (gm_vmas (fst s)) a (a + length xs)"
  shows "st_post (insert_loaded_mapping a (length xs) p xs) s
    (\<lambda>_ s'. placed ext s (fill a (a + length xs) (\<lambda>x. xs ! (x - a)) p Anonymous (view s)) s')
    (refused ext s (a + length xs))"
proof -
  let ?len = "length xs" and ?q = "to_host p"
  have ok: "mem_ok ext s" using r by (simp add: ready_def)
  have ab: "a < a + ?len" "0 < ?len" and lt: "a + ?len < 2 ^ 64"
    and fx: "gm_host_address_mode (fst s) = FixedGuest \<longrightarrow> HOST_ALLOCATION_GRANULARITY \<le> a"
    and al: "MIN_GUEST_ADDRESS \<le> a" "is_page_aligned a" "is_page_aligned (a + ?len)" "a + ?len \<le> gm_address_space_end (fst s)"
    using m mem_okD(6) [OF ok] by (auto simp: mappable_def)
  have ce: "checked_mapping_end a ?len (gm_address_space_end (fst s)) = Ok (a + ?len)"
    using al lt by (simp add: checked_mapping_end_Ok)
  let ?V = "fill a (a + ?len) (\<lambda>x. xs ! (x - a)) p Anonymous (view s)"
  let ?tail = "\<lambda>i off. st_bind (on_allocation i (\<lambda>ob. on_object ob (hm_protect_range off ?len ?q))) (\<lambda>_.
      st_modify (set_vmas (bt_insert a (new_vma a (a + ?len) p Anonymous i off))))"
  have "st_post (st_bind (ensure_host_allocation a ?len) (\<lambda>(i, off).
      st_bind (ensure_allocation_unique i) (\<lambda>_.
      st_bind (allocation_memory_write i off (off + ?len) xs) (\<lambda>_. ?tail i off)))) s
    (\<lambda>_ s'. placed ext s ?V s') (refused ext s (a + ?len))"
    unfolding st_post_bind [of "ensure_host_allocation a ?len"]
  proof (rule st_post_mono [OF ensure_host_allocation_post [OF r ab(2) lt fx]])
    fix x s1 assume found: "host_found ext s a ?len x s1"
    obtain i off where x: "x = (i, off)" by (cases x)
    obtain gs bs where A: "alloc_at (fst s1) (snd s1) i = Some (gs, bs)" "gs + off = a" "off + ?len \<le> length bs"
      using found x by (auto simp: host_found_def)
    note se = host_found_settled [OF found]
    then have q1: "quiet ext s s1" and t1: "tidy s1" by (auto simp: settled_def)
    note ok1 = quietD(1) [OF q1]
    have "st_post (st_bind (ensure_allocation_unique i) (\<lambda>_.
        st_bind (allocation_memory_write i off (off + ?len) xs) (\<lambda>_. ?tail i off))) s1
      (\<lambda>_ s'. placed ext s ?V s') (refused ext s (a + ?len))"
    proof (rule chain_solid [OF ok1 unique_post [OF ok1 A(1)]])
      fix u s2 assume so: "solid ext s1 s2" and ok2: "mem_ok ext s2"
      have q2: "quiet ext s s2" using quiet_trans [OF q1 solid_quiet [OF ok1 so]] .
      have t2: "tidy s2" using solid_tidy [OF so] t1 by simp
      have se2: "settled ext s s2" using se q2 t2 solid_fields(2) [OF so] by (simp add: settled_def grew_def)
      have A2: "alloc_at (fst s2) (snd s2) i = Some (gs, bs)" using A(1) solid_fields(8) [OF so] by simp
      have free2: "locate (gm_vmas (fst s2)) y = None" if "gs + off \<le> y" "y < gs + off + ?len" for y
        using no_area(2) [OF ok ok2 quietD(3) [OF q2] free ab(1)] that A(2) by simp
      show "st_post (st_bind (allocation_memory_write i off (off + ?len) xs) (\<lambda>_. ?tail i off)) s2
        (\<lambda>_ s'. placed ext s ?V s') (refused ext s (a + ?len))"
        unfolding st_post_bind [of "allocation_memory_write i off (off + ?len) xs"]
      proof (rule st_post_mono [OF write_hidden [OF ok2 t2 A2 A(3) free2]])
        fix u s3
        assume s3: "quiet ext s2 s3 \<and> tidy s3 \<and> gm_next_allocation_id (fst s3) = gm_next_allocation_id (fst s2)
            \<and> alloc_at (fst s3) (snd s3) i = Some (gs, splice off xs bs)"
        have se3: "settled ext s s3" using s3 se2 quiet_trans [OF q2] by (auto simp: settled_def grew_def)
        have z: "fill a (a + ?len) (\<lambda>x. splice off xs bs ! (x - gs)) p Anonymous (view s) = ?V"
        proof (rule fill_cong)
          fix y assume y: "a \<le> y" "y < a + ?len"
          then have "off \<le> y - gs" "y - gs < off + ?len" "y - gs < length bs" "y - gs - off = y - a"
            using A(2,3) by linarith+
          then show "splice off xs bs ! (y - gs) = xs ! (y - a)" using splice_nth [OF A(3), of "y - gs"] by simp
        qed
        have A3: "alloc_at (fst s3) (snd s3) i = Some (gs, splice off xs bs)" using s3 by blast
        have len': "off + (a + ?len - a) \<le> length (splice off xs bs)" using A(3) by simp
        show "st_post (?tail i off) s3 (\<lambda>_ s'. placed ext s ?V s') (refused ext s (a + ?len))"
          using finish_mapping [OF ok se3 free ab(1) al A3 A(2) len', of ?q p Anonymous "a + ?len"]
          by (simp only: z add_diff_cancel_left')
      next
        fix e s3 assume "quiet ext s2 s3 \<and> tidy s3 \<and> gm_next_allocation_id (fst s3) = gm_next_allocation_id (fst s2) \<and> faulted (snd s2) (snd s3)"
        then show "refused ext s (a + ?len) e s3" using refused_after [OF se2] by blast
      qed
    next
      fix e s2 assume so: "solid ext s1 s2" and f: "faulted (snd s1) (snd s2)"
      show "refused ext s (a + ?len) e s2"
        using refused_after [OF se solid_fields(2) [OF so] solid_quiet [OF ok1 so] _ f] solid_tidy [OF so] t1 by simp
    qed
    then show "st_post (case x of (i, off) \<Rightarrow> st_bind (ensure_allocation_unique i) (\<lambda>_.
        st_bind (allocation_memory_write i off (off + ?len) xs) (\<lambda>_. ?tail i off))) s1
      (\<lambda>_ s'. placed ext s ?V s') (refused ext s (a + ?len))"
      by (simp add: x)
  qed (rule host_refused_refused)
  then show ?thesis
    using free by (simp add: st_post_def insert_loaded_mapping_def ce st_bind_def [of "st_lift _"] st_lift_def)
qed

section \<open>Unmapping a range of a tidy address space\<close>

lemma drop_unreferenced_sub:
  assumes ok: "mem_ok ext s"
  shows "alloc_at (fst (drop_unreferenced_allocations s)) (snd (drop_unreferenced_allocations s)) i = Some x
      \<Longrightarrow> alloc_at (fst s) (snd s) i = Some x"
    "gm_next_allocation_id (fst (drop_unreferenced_allocations s)) = gm_next_allocation_id (fst s)"
proof -
  obtain m h where s: "s = (m, h)" by (cases s)
  obtain m' h' where s': "(m', h') = drop_unreferenced_allocations (m, h)" by (metis prod.exhaust)
  have r: "refs_ok ext m h" using mem_okD(1) [OF ok] s by simp
  have D: "refs_ok ext m' h' \<and> env_kept ext h h'
    \<and> (\<forall>k. alloc_at m' h' k = (if \<exists>v \<in> set (bt_values (gm_vmas m)). v_allocation_id v = k
          then alloc_at m h k else None))
    \<and> m' = m\<lparr>gm_allocations := gm_allocations m'\<rparr>"
    by (rule drop_unreferenced_allocations [OF r s'])
  then show "alloc_at (fst (drop_unreferenced_allocations s)) (snd (drop_unreferenced_allocations s)) i = Some x
      \<Longrightarrow> alloc_at (fst s) (snd s) i = Some x"
    by (auto simp: s simp flip: s' split: if_splits)
  have "gm_next_allocation_id m' = gm_next_allocation_id m"
    by (subst conjunct2 [OF conjunct2 [OF conjunct2 [OF D]]]) simp
  then show "gm_next_allocation_id (fst (drop_unreferenced_allocations s)) = gm_next_allocation_id (fst s)"
    by (simp add: s flip: s')
qed

lemma drop_unreferenced_tidy: "mem_ok ext s \<Longrightarrow> tidy s \<Longrightarrow> tidy (drop_unreferenced_allocations s)"
  unfolding tidy_def using adisj_sub drop_unreferenced_sub(1) by blast

lemma mem_ok_unmapped:
  assumes ok: "mem_ok ext s" and al: "is_page_aligned a" "is_page_aligned b"
  shows "mem_ok ext (set_vmas (unmap_vmas a b) s)"
proof -
  let ?f = "\<lambda>vmas. split_vma_at b (split_vma_at a vmas)"
  have q1: "quiet ext s (set_vmas ?f s)" by (rule split2_quiet [OF ok al])
  have "backed (alloc_at (fst s) (snd s)) v" if "bt_get (unmap_vmas a b (gm_vmas (fst s))) k = Some v" for k v
    using that mem_okD(11) [OF quietD(1) [OF q1]]
    by (auto simp: unmap_vmas_def Let_def bt_get_fold_remove split: if_splits)
  moreover have "aligned_vmas (unmap_vmas a b (gm_vmas (fst s))) (gm_address_space_end (fst s))"
    using mem_okD(4) [OF quietD(1) [OF q1]]
    by (auto simp: unmap_vmas_def Let_def bt_get_fold_remove aligned_vmas_def split: if_splits)
  ultimately show ?thesis
    by (intro mem_ok_set_vmas) (use ok vmas_ok_unmap [OF mem_okD(3) [OF ok]] in auto)
qed

lemma unmap_range_tidy:
  assumes ok: "mem_ok ext s" and al: "is_page_aligned a" "is_page_aligned b"
  shows "tidy s \<Longrightarrow> tidy (unmap_range a b s)"
    "gm_next_allocation_id (fst (unmap_range a b s)) = gm_next_allocation_id (fst s)"
proof -
  note ok1 = mem_ok_unmapped [OF ok al]
  show "tidy s \<Longrightarrow> tidy (unmap_range a b s)"
    using drop_unreferenced_tidy [OF ok1] by (simp add: unmap_range_def tidy_def)
  show "gm_next_allocation_id (fst (unmap_range a b s)) = gm_next_allocation_id (fst s)"
    using drop_unreferenced_sub(2) [OF ok1] by (simp add: unmap_range_def)
qed

section \<open>mmap\<close>

lemma find_free_range_Ok:
  assumes ok: "vmas_ok vmas" and f: "find_free_range vmas E hint len = Ok r" and len: "0 < len"
  shows "hint \<le> r" "MIN_GUEST_ADDRESS \<le> r" "is_page_aligned r" "r + len \<le> E" "\<not> overlaps vmas r (r + len)"
proof -
  obtain c where c: "align_up hint = Ok c"
    and l: "find_free_loop (bt_values vmas) len E (if c < MIN_GUEST_ADDRESS then MIN_GUEST_ADDRESS else c) = Ok r"
    using f by (auto simp: find_free_range_def result_simps)
  have "\<forall>v \<in> set (bt_values vmas). v_start v < v_end v"
    using vmas_okD(2) [OF ok] by (auto simp: bt_values_get [OF ok])
  note F = find_free_loop_Ok [OF sorted_bt_values [OF ok] this l]
  show "hint \<le> r" "MIN_GUEST_ADDRESS \<le> r" "is_page_aligned r" "r + len \<le> E"
    using F align_up_Ok(2) [OF c] by (auto split: if_splits)
  show "\<not> overlaps vmas r (r + len)" using F len by (auto simp: overlaps_def free_range_def)
qed

lemma checked_mapping_end_not_Panic [simp]: "checked_mapping_end c len E \<noteq> Panic"
  by (auto simp: checked_mapping_end_def checked_raw_range_def result_simps)

lemma align_up_not_Panic [simp]: "align_up v \<noteq> Panic"
  by (auto simp: align_up_def align_up_to_def result_simps)

lemma find_free_loop_not_Panic: "find_free_loop vs len E c \<noteq> Panic"
  by (induction vs arbitrary: c) (auto simp: result_simps)

definition landed :: "(nat \<Rightarrow> nat) \<Rightarrow> guest_memory \<times> host \<Rightarrow> guest_view \<Rightarrow> guest_memory \<times> host \<Rightarrow> bool" where
  "landed ext s V s' \<longleftrightarrow> frame ext s s' \<and> tidy s' \<and> view s' = V"

lemma placed_landed: "placed ext s V s' \<Longrightarrow> landed ext s V s'"
  by (simp add: placed_def landed_def)

definition attempt_err ::
  "(nat \<Rightarrow> nat) \<Rightarrow> guest_memory \<times> host \<Rightarrow> bool \<Rightarrow> nat \<Rightarrow> nat \<Rightarrow> guest_memory_error \<Rightarrow> guest_memory \<times> host \<Rightarrow> bool" where
  "attempt_err ext s fixed a b e s' \<longleftrightarrow>
     landed ext s (if fixed then clear a b (view s) else view s) s' \<and> grew s s' \<and> faulted (snd s) (snd s')"

lemma fill_clear: "fill a b f p k (clear a b V) = fill a b f p k V"
  by (auto simp: fill_def clear_def)

text \<open>The address space ends below the last host granule of the 64-bit range.\<close>

definition roomy :: "guest_memory \<Rightarrow> bool" where
  "roomy m \<longleftrightarrow> gm_address_space_end m + (HOST_ALLOCATION_GRANULARITY - 1) < 2 ^ 64"

lemma mmap_attempt_post:
  assumes r: "ready ext s" and ro: "roomy (fst s)" and m: "mappable (fst s) a (a + len)"
    and free: "is_fixed args \<or> \<not> overlaps (gm_vmas (fst s)) a (a + len)"
  shows "st_post (mmap_attempt args len p k a) s
    (\<lambda>_ s'. placed ext s (fill a (a + len) (\<lambda>_. 0) p k (view s)) s') (attempt_err ext s (is_fixed args) a (a + len))"
proof -
  have al: "is_page_aligned a" "is_page_aligned (a + len)" "a < a + len" "a + len \<le> gm_address_space_end (fst s)"
    using m by (auto simp: mappable_def)
  then have small: "\<not> 2 ^ 64 \<le> a + len + (HOST_ALLOCATION_GRANULARITY - 1)" using ro by (simp add: roomy_def)
  show ?thesis
  proof (cases "is_fixed args")
    case False
    have E: "attempt_err ext s False a (a + len) e s'" if "refused ext s (a + len) e s'" for e s'
      using that small quiet_frame [of ext s s'] quietD(3) [of ext s s']
      by (auto simp: refused_def settled_def attempt_err_def landed_def)
    have "mmap_attempt args len p k a = insert_mapping a len p k"
      using False by (simp add: mmap_attempt_def st_bind_def st_ok_def fun_eq_iff)
    then show ?thesis
      using st_post_mono [OF insert_mapping_post [OF r m, of p k]] free False E by simp
  next
    case True
    have ok: "mem_ok ext s" and t: "tidy s" and one: "one_fault (snd s)" and nex: "\<not> exhausted s"
      using r by (auto simp: ready_def)
    let ?s1 = "unmap_range a (a + len) s"
    have le: "a \<le> a + len" by simp
    note U = unmap_range_spec [OF ok al(1,2) le] and T = unmap_range_tidy [OF ok al(1,2)]
    have r1: "ready ext ?s1"
      using U(1) T(1) [OF t] env_kept_one_fault [OF U(2) one] nex T(2) by (simp add: ready_def exhausted_def)
    have m1: "mappable (fst ?s1) a (a + len)" using m U(3) by (simp add: mappable_def same_layout_def)
    have "\<not> overlaps (gm_vmas (fst ?s1)) a (a + len)"
      using overlaps_iff [OF mem_okD(3) [OF U(1)] al(3)] locate_unmap [OF mem_okD(3) [OF ok] le] U(5) by auto
    note I = insert_mapping_post [OF r1 m1 this, of p k]
    have fr: "frame ext s ?s1" using U by (simp add: frame_def)
    have v1: "view ?s1 = clear a (a + len) (view s)" using U(4) by (simp add: clear_def fun_eq_iff)
    have "st_post (insert_mapping a len p k) ?s1
        (\<lambda>_ s'. placed ext s (fill a (a + len) (\<lambda>_. 0) p k (view s)) s') (attempt_err ext s True a (a + len))"
    proof (rule st_post_mono [OF I])
      fix u s' assume "placed ext ?s1 (fill a (a + len) (\<lambda>_. 0) p k (view ?s1)) s'"
      then show "placed ext s (fill a (a + len) (\<lambda>_. 0) p k (view s)) s'"
        using frame_trans [OF fr] T(2) by (simp add: placed_def v1 fill_clear grew_def)
    next
      fix e s' assume "refused ext ?s1 (a + len) e s'"
      then show "attempt_err ext s True a (a + len) e s'"
        using small frame_trans [OF fr quiet_frame] quietD(3) [of ext ?s1 s'] v1 T(2) frameD(5) [OF fr]
        by (auto simp: refused_def settled_def attempt_err_def landed_def grew_def)
    qed
    then show ?thesis using True by (simp add: mmap_attempt_def st_post_bind st_post_modify)
  qed
qed

text \<open>The outcome of the attempts: a mapping at the requested address or, without a fixed address, at
  a free one; or an error that a host fault explains.\<close>

definition mapped_at ::
  "(nat \<Rightarrow> nat) \<Rightarrow> mmap_args \<Rightarrow> nat \<Rightarrow> mem_protection \<Rightarrow> mem_vma_kind \<Rightarrow> guest_memory \<times> host \<Rightarrow> nat \<Rightarrow> nat
     \<Rightarrow> guest_memory \<times> host \<Rightarrow> bool" where
  "mapped_at ext args len p k s a r s' \<longleftrightarrow>
     landed ext s (fill r (r + len) (\<lambda>_. 0) p k (view s)) s' \<and> mappable (fst s) r (r + len)
   \<and> (is_fixed args \<or> is_fixed_noreplace args \<longrightarrow> r = a)
   \<and> (\<not> is_fixed args \<longrightarrow> (\<forall>x. r \<le> x \<and> x < r + len \<longrightarrow> view s x = None))"

definition map_failed ::
  "(nat \<Rightarrow> nat) \<Rightarrow> mmap_args \<Rightarrow> nat \<Rightarrow> guest_memory \<times> host \<Rightarrow> nat \<Rightarrow> guest_memory_error \<Rightarrow> guest_memory \<times> host \<Rightarrow> bool" where
  "map_failed ext args len s a e s' \<longleftrightarrow>
     landed ext s (if is_fixed args then clear a (a + len) (view s) else view s) s' \<and> faulted (snd s) (snd s')"

lemma view_None:
  assumes "mem_ok ext s" "\<not> overlaps (gm_vmas (fst s)) a b" "a \<le> x" "x < b"
  shows "view s x = None"
  using no_area(2) [OF assms(1,1) refl assms(2), of x] assms(3,4) by (simp add: view_def content_def)

lemma mapped_at_after:
  assumes q: "quiet ext s s1" and m: "mapped_at ext args len p k s1 b r s'"
    and nf: "\<not> is_fixed args" "\<not> is_fixed_noreplace args"
  shows "mapped_at ext args len p k s a r s'"
  using m nf frame_trans [OF quiet_frame [OF q]] quietD(3,4,5) [OF q]
  by (auto simp: mapped_at_def landed_def mappable_def)

lemma next_retry_Ok:
  assumes ok: "mem_ok ext s" and len: "0 < len" "is_page_aligned len" and p: "HOST_ALLOCATION_GRANULARITY \<le> a"
    and n: "next_retry_mmap_start (fst s) a len = Ok b"
  shows "mappable (fst s) b (b + len)" "\<not> overlaps (gm_vmas (fst s)) b (b + len)"
proof -
  obtain hint where h: "align_up (a + len) = Ok hint"
    and f: "find_free_range (gm_vmas (fst s)) (gm_address_space_end (fst s)) hint len = Ok b"
    using n by (auto simp: next_retry_mmap_start_def result_simps nat_checked_add_def split: if_splits)
  note F = find_free_range_Ok [OF mem_okD(3) [OF ok] f len(1)]
  have "is_page_aligned (b + len)" using F(3) len(2) by (auto simp: is_page_aligned_def)
  then show "mappable (fst s) b (b + len)"
    using F len p align_up_Ok(2) [OF h] by (auto simp: mappable_def)
  show "\<not> overlaps (gm_vmas (fst s)) b (b + len)" by (rule F(5))
qed

lemma mmap_loop_post:
  assumes "ready ext s" "roomy (fst s)" "gm_next_allocation_id (fst s) + n + 1 < 2 ^ 64"
    "mappable (fst s) a (a + len)" "is_fixed args \<or> \<not> overlaps (gm_vmas (fst s)) a (a + len)" "is_page_aligned len"
  shows "st_post (mmap_loop n args len p k a) s (mapped_at ext args len p k s a) (map_failed ext args len s a)"
  using assms
proof (induction n arbitrary: s a)
  case (0 s a)
  have ok: "mem_ok ext s" using 0(1) by (simp add: ready_def)
  have Q: "mapped_at ext args len p k s a a s'" if "placed ext s (fill a (a + len) (\<lambda>_. 0) p k (view s)) s'" for s'
    using placed_landed [OF that] 0(4,5) view_None [OF ok] by (auto simp: mapped_at_def)
  show ?case
    unfolding mmap_loop.simps post_simps
    by (rule st_post_mono [OF mmap_attempt_post [OF 0(1,2,4,5)]])
      (use Q in \<open>auto simp: attempt_err_def map_failed_def\<close>)
next
  case (Suc n s a)
  have ok: "mem_ok ext s" using Suc.prems(1) by (simp add: ready_def)
  have Q: "mapped_at ext args len p k s a a s'" if "placed ext s (fill a (a + len) (\<lambda>_. 0) p k (view s)) s'" for s'
    using placed_landed [OF that] Suc.prems(4,5) view_None [OF ok] by (auto simp: mapped_at_def)
  have R: "st_post (\<lambda>s. if should_retry_mmap_host_conflict (fst s) args e
        then st_bind (st_lift (next_retry_mmap_start (fst s) a len)) (mmap_loop n args len p k) s else (Err e, s)) s1
      (mapped_at ext args len p k s a) (map_failed ext args len s a)"
    if e: "attempt_err ext s (is_fixed args) a (a + len) e s1" for e s1
  proof (cases "should_retry_mmap_host_conflict (fst s1) args e")
    case False
    then show ?thesis using e by (simp add: st_post_def map_failed_def attempt_err_def)
  next
    case True
    then have nf: "\<not> is_fixed args" "\<not> is_fixed_noreplace args" and fx: "gm_host_address_mode (fst s1) = FixedGuest"
      by (auto simp: should_retry_mmap_host_conflict_def)
    have fr: "frame ext s s1" and t1: "tidy s1" and v1: "view s1 = view s" and g1: "grew s s1" and ft: "faulted (snd s) (snd s1)"
      using e nf by (auto simp: attempt_err_def landed_def)
    note ok1 = frameD(1) [OF fr]
    have fl: "map_failed ext args len s a e' s1" for e' using fr t1 v1 ft nf by (simp add: map_failed_def landed_def)
    have r1: "ready ext s1" and room1: "gm_next_allocation_id (fst s1) + n + 1 < 2 ^ 64"
      using ok1 t1 env_kept_one_fault [OF frameD(2) [OF fr]] Suc.prems(1,3) g1
      by (auto simp: ready_def exhausted_def grew_def)
    have ro1: "roomy (fst s1)" using Suc.prems(2) frameD(4) [OF fr] by (simp add: roomy_def)
    have mode: "gm_host_address_mode (fst s) = FixedGuest" using fx frameD(3) [OF fr] by (simp add: same_layout_def)
    have len: "0 < len" and G: "HOST_ALLOCATION_GRANULARITY \<le> a" using Suc.prems(4) mode by (auto simp: mappable_def)
    show ?thesis
    proof (cases "next_retry_mmap_start (fst s1) a len")
      case (Ok b)
      note N = next_retry_Ok [OF ok1 len Suc.prems(6) G Ok]
      have "st_post (mmap_loop n args len p k b) s1 (mapped_at ext args len p k s1 b) (map_failed ext args len s1 b)"
        using Suc.IH [OF r1 ro1 room1 N(1) _ Suc.prems(6)] N(2) by blast
      then have "st_post (mmap_loop n args len p k b) s1 (mapped_at ext args len p k s a) (map_failed ext args len s a)"
      proof (rule st_post_mono)
        fix x s' assume "mapped_at ext args len p k s1 b x s'"
        then show "mapped_at ext args len p k s a x s'"
          using nf frame_trans [OF fr] v1 frameD(3) [OF fr]
          by (auto simp: mapped_at_def landed_def mappable_def same_layout_def)
      next
        fix e' s' assume "map_failed ext args len s1 b e' s'"
        then show "map_failed ext args len s a e' s'"
          using nf frame_trans [OF fr] v1 frameD(5) [OF fr] by (auto simp: map_failed_def landed_def)
      qed
      then show ?thesis using True Ok by (simp add: st_post_def st_bind_def st_lift_def)
    next
      case (Err e')
      then show ?thesis using True fl by (simp add: st_post_def st_bind_def st_lift_def)
    next
      case Panic
      have False
        using Panic unfolding next_retry_mmap_start_def
        by (auto simp: result_simps find_free_range_def align_up_def align_up_to_def find_free_loop_not_Panic split: if_splits)
      then show ?thesis ..
    qed
  qed
  show ?case
    unfolding mmap_loop.simps st_post_try
    by (rule st_post_mono [OF mmap_attempt_post [OF Suc.prems(1,2,4,5)]]) (use Q R in \<open>auto simp: post_simps\<close>)
qed

lemma align_up_Ok_page: "align_up v = Ok w \<Longrightarrow> 0 < v \<Longrightarrow> is_page_aligned w \<and> 0 < w"
  using align_up_Ok(1,2) [of v w] by auto

lemma mmap_start_Ok:
  assumes ok: "mem_ok ext s" and len: "0 < len" "is_page_aligned len" and a: "mmap_start (fst s) args len = Ok a"
    and fx: "gm_host_address_mode (fst s) = FixedGuest \<longrightarrow>
      HOST_ALLOCATION_GRANULARITY \<le> (if mm_addr args = 0 then gm_mmap_base (fst s) else mm_addr args)"
  shows "mappable (fst s) a (a + len)" "is_fixed args \<or> \<not> overlaps (gm_vmas (fst s)) a (a + len)"
    "is_fixed args \<or> is_fixed_noreplace args \<Longrightarrow> a = mm_addr args"
proof -
  have page: "is_page_aligned (x + len)" if "is_page_aligned x" for x
    using that len(2) by (auto simp: is_page_aligned_def)
  have "mappable (fst s) a (a + len) \<and> (is_fixed args \<or> \<not> overlaps (gm_vmas (fst s)) a (a + len))
      \<and> (is_fixed args \<or> is_fixed_noreplace args \<longrightarrow> a = mm_addr args)"
  proof (cases "is_fixed args \<or> is_fixed_noreplace args")
    case True
    then have "a = mm_addr args" "is_page_aligned a" "MIN_GUEST_ADDRESS \<le> a" "a + len \<le> gm_address_space_end (fst s)"
      "is_fixed args \<or> \<not> overlaps (gm_vmas (fst s)) a (a + len)"
      using a by (auto simp: mmap_start_def result_simps checked_mapping_end_Ok split: if_splits)
    moreover have "mm_addr args \<noteq> 0" using calculation by (auto simp: MIN_GUEST_ADDRESS_def GUEST_PAGE_SIZE_def)
    ultimately show ?thesis using page fx len by (auto simp: mappable_def)
  next
    case False
    then obtain hint where h: "(if mm_addr args = 0 then Ok (gm_mmap_base (fst s))
          else align_up (max (mm_addr args) MIN_GUEST_ADDRESS)) = Ok hint"
      and f: "find_free_range (gm_vmas (fst s)) (gm_address_space_end (fst s)) hint len = Ok a"
      using a by (auto simp: mmap_start_def result_simps)
    note F = find_free_range_Ok [OF mem_okD(3) [OF ok] f len(1)]
    have "(if mm_addr args = 0 then gm_mmap_base (fst s) else mm_addr args) \<le> hint"
      using h align_up_Ok(2) [of "max (mm_addr args) MIN_GUEST_ADDRESS" hint] by (auto split: if_splits)
    then show ?thesis using F page fx len False by (auto simp: mappable_def)
  qed
  then show "mappable (fst s) a (a + len)" "is_fixed args \<or> \<not> overlaps (gm_vmas (fst s)) a (a + len)"
    "is_fixed args \<or> is_fixed_noreplace args \<Longrightarrow> a = mm_addr args" by auto
qed

lemma mmap_start_not_Panic: "mmap_start m args len \<noteq> Panic"
  by (auto simp: mmap_start_def result_simps find_free_range_def find_free_loop_not_Panic split: if_splits)

text \<open>The state in which mapping calls are specified: the invariant, room for the allocations of a
  call and its retries, at most one host fault to come, and in the mode with fixed host addresses a
  request above the first host granule.\<close>

definition map_ready :: "(nat \<Rightarrow> nat) \<Rightarrow> guest_memory \<times> host \<Rightarrow> bool" where
  "map_ready ext s \<longleftrightarrow> mem_ok ext s \<and> tidy s \<and> one_fault (snd s)
   \<and> gm_next_allocation_id (fst s) + MMAP_HOST_CONFLICT_RETRIES + 1 < 2 ^ 64 \<and> roomy (fst s)"

definition high_request :: "guest_memory \<Rightarrow> mmap_args \<Rightarrow> bool" where
  "high_request m args \<longleftrightarrow> (gm_host_address_mode m = FixedGuest \<longrightarrow>
     HOST_ALLOCATION_GRANULARITY \<le> (if mm_addr args = 0 then gm_mmap_base m else mm_addr args))"

text \<open>What \<open>mmap\<close> promises.\<close>

definition mmap_effect :: "mmap_args \<Rightarrow> guest_memory \<Rightarrow> guest_view \<Rightarrow> nat \<Rightarrow> guest_view \<Rightarrow> bool" where
  "mmap_effect args m V a V' \<longleftrightarrow>
     (\<exists>p len k. from_linux (mm_prot args) = Ok p \<and> page_round_length (mm_length args) = Ok len \<and> mmap_kind args = Ok k
      \<and> is_page_aligned a \<and> MIN_GUEST_ADDRESS \<le> a \<and> a + len \<le> gm_address_space_end m
      \<and> (is_fixed args \<or> is_fixed_noreplace args \<longrightarrow> a = mm_addr args)
      \<and> (\<not> is_fixed args \<longrightarrow> (\<forall>x. a \<le> x \<and> x < a + len \<longrightarrow> V x = None))
      \<and> V' = fill a (a + len) (\<lambda>_. 0) p k V)"

text \<open>An error before the first change leaves the state as it is; a later one is explained by a host
  fault, and then at most the range of a fixed request is unmapped.\<close>

definition mmap_error ::
  "(nat \<Rightarrow> nat) \<Rightarrow> mmap_args \<Rightarrow> guest_memory \<times> host \<Rightarrow> guest_memory \<times> host \<Rightarrow> bool" where
  "mmap_error ext args s s' \<longleftrightarrow> s' = s \<or> frame ext s s' \<and> tidy s' \<and> faulted (snd s) (snd s')
     \<and> (view s' = view s \<or> is_fixed args
        \<and> (\<exists>len. page_round_length (mm_length args) = Ok len \<and> view s' = clear (mm_addr args) (mm_addr args + len) (view s)))"

lemma st_post_lift: "r \<noteq> Panic \<Longrightarrow> st_post (st_lift r) s Q E \<longleftrightarrow> (case r of Ok x \<Rightarrow> Q x s | Err e \<Rightarrow> E e s | Panic \<Rightarrow> False)"
  by (cases r) (simp_all add: post_simps)

lemma mmap_post:
  assumes r: "map_ready ext s" and hi: "high_request (fst s) args"
  shows "st_post (mmap args) s
    (\<lambda>a s'. frame ext s s' \<and> tidy s' \<and> mmap_effect args (fst s) (view s) a (view s')) (\<lambda>_ s'. mmap_error ext args s s')"
proof -
  have ok: "mem_ok ext s" and rd: "ready ext s" and ro: "roomy (fst s)"
    and room: "gm_next_allocation_id (fst s) + MMAP_HOST_CONFLICT_RETRIES + 1 < 2 ^ 64"
    using r by (auto simp: map_ready_def ready_def exhausted_def)
  let ?Q = "\<lambda>a s'. frame ext s s' \<and> tidy s' \<and> mmap_effect args (fst s) (view s) a (view s')"
  let ?E = "\<lambda>_ s'. mmap_error ext args s s'"
  consider (bad) e where "from_linux (mm_prot args) = Err e \<or> (\<exists>p. from_linux (mm_prot args) = Ok p
      \<and> (page_round_length (mm_length args) = Err e \<or> (\<exists>len. page_round_length (mm_length args) = Ok len
      \<and> (mmap_kind args = Err e \<or> (\<exists>k. mmap_kind args = Ok k \<and> mmap_start (fst s) args len = Err e)))))"
    | (good) p len k a where "from_linux (mm_prot args) = Ok p" "page_round_length (mm_length args) = Ok len"
      "mmap_kind args = Ok k" "mmap_start (fst s) args len = Ok a"
  proof -
    have np: "from_linux (mm_prot args) \<noteq> Panic" "page_round_length (mm_length args) \<noteq> Panic" "mmap_kind args \<noteq> Panic"
      by (auto simp: from_linux_def page_round_length_def mmap_kind_def Let_def split: if_splits)
    then show thesis using that mmap_start_not_Panic [of "fst s" args] by (metis result.exhaust)
  qed
  then show ?thesis
  proof cases
    case bad
    then show ?thesis by (auto simp: st_post_def mmap_def st_bind_def st_lift_def mmap_error_def)
  next
    case good
    have len: "0 < len" "is_page_aligned len"
      using good(2) align_up_Ok_page [of "mm_length args" len] by (auto simp: page_round_length_def split: if_splits)
    note S = mmap_start_Ok [OF ok len good(4) hi [unfolded high_request_def]]
    note L = mmap_loop_post [OF rd ro room S(1,2) len(2), of p k]
    have "st_post (mmap_loop MMAP_HOST_CONFLICT_RETRIES args len p k a) s ?Q ?E"
    proof (rule st_post_mono [OF L])
      fix x s' assume x: "mapped_at ext args len p k s a x s'"
      then have "mmap_effect args (fst s) (view s) x (view s')"
        unfolding mmap_effect_def
        by (intro exI [of _ p] exI [of _ len] exI [of _ k])
          (use good S(3) in \<open>auto simp: mapped_at_def landed_def mappable_def\<close>)
      then show "?Q x s'" using x by (simp add: mapped_at_def landed_def)
    next
      fix e s' assume "map_failed ext args len s a e s'"
      then show "?E e s'"
        using good S(3) unfolding mmap_error_def map_failed_def landed_def by (cases "is_fixed args") auto
    qed
    then show ?thesis using good by (simp add: st_post_def mmap_def st_bind_def st_lift_def)
  qed
qed

section \<open>munmap\<close>

lemma checked_page_range_Ok:
  assumes "checked_page_range a n = Ok b"
  shows "is_page_aligned a" "is_page_aligned b" "a < b" "b < 2 ^ 64" "\<exists>len. page_round_length n = Ok len \<and> b = a + len"
proof -
  obtain len where l: "page_round_length n = Ok len" "is_page_aligned a" "b = a + len" "a + len < 2 ^ 64" "n \<noteq> 0"
    using assms by (auto simp: checked_page_range_def result_simps checked_raw_range_def nat_checked_add_def split: if_splits)
  then have "is_page_aligned len \<and> 0 < len"
    using align_up_Ok_page [of n len] by (simp add: page_round_length_def)
  then show "is_page_aligned a" "is_page_aligned b" "a < b" "b < 2 ^ 64" "\<exists>len. page_round_length n = Ok len \<and> b = a + len"
    using l by (auto simp: is_page_aligned_def)
qed

lemma checked_page_range_not_Panic [simp]: "checked_page_range a n \<noteq> Panic"
  by (auto simp: checked_page_range_def page_round_length_def checked_raw_range_def result_simps split: if_splits)

lemma munmap_post:
  assumes ok: "mem_ok ext s"
  shows "st_post (munmap args) s
    (\<lambda>_ s'. \<exists>len. page_round_length (mu_length args) = Ok len \<and> frame ext s s' \<and> (tidy s \<longrightarrow> tidy s')
       \<and> view s' = clear (mu_addr args) (mu_addr args + len) (view s))
    (\<lambda>e s'. s' = s \<and> checked_page_range (mu_addr args) (mu_length args) = Err e)"
proof (cases "checked_page_range (mu_addr args) (mu_length args)")
  case (Ok b)
  note c = checked_page_range_Ok [OF Ok]
  note U = unmap_range_spec [OF ok c(1,2) less_imp_le [OF c(3)]] unmap_range_tidy(1) [OF ok c(1,2)]
  have "frame ext s (unmap_range (mu_addr args) b s)" using U by (simp add: frame_def)
  moreover have "view (unmap_range (mu_addr args) b s) = clear (mu_addr args) b (view s)"
    using U(4) by (simp add: clear_def fun_eq_iff)
  ultimately show ?thesis using Ok c(5) U(6) by (auto simp: munmap_def post_simps)
qed (simp_all add: munmap_def post_simps)

section \<open>mprotect\<close>

definition reprotect :: "nat \<Rightarrow> nat \<Rightarrow> mem_protection \<Rightarrow> guest_view \<Rightarrow> guest_view" where
  "reprotect a b p V x = (if a \<le> x \<and> x < b then map_option (\<lambda>(c, _, k). (c, p, k)) (V x) else V x)"

definition protect_areas :: "nat list \<Rightarrow> mem_protection \<Rightarrow> vma_map \<Rightarrow> vma_map" where
  "protect_areas keys p vmas = fold (\<lambda>k. bt_modify k (\<lambda>v. v\<lparr>v_protection := p\<rparr>)) keys vmas"

lemma protect_areas_get:
  "bt_get (protect_areas keys p vmas) k =
     (if k \<in> set keys then map_option (\<lambda>v. v\<lparr>v_protection := p\<rparr>) (bt_get vmas k) else bt_get vmas k)"
  unfolding protect_areas_def
  by (induction keys arbitrary: vmas) (auto simp: bt_get_modify option.map_comp o_def)

lemma protect_areas_ok:
  assumes ok: "vmas_ok vmas"
  shows "vmas_ok (protect_areas keys p vmas)"
    and "aligned_vmas vmas E \<Longrightarrow> aligned_vmas (protect_areas keys p vmas) E"
    and "\<forall>k v. bt_get vmas k = Some v \<longrightarrow> backed A v \<Longrightarrow> bt_get (protect_areas keys p vmas) k = Some w \<Longrightarrow> backed A w"
proof -
  have g: "\<exists>v. bt_get vmas k = Some v \<and> v_start w = v_start v \<and> v_end w = v_end v
      \<and> v_allocation_id w = v_allocation_id v \<and> v_allocation_offset w = v_allocation_offset v"
    if "bt_get (protect_areas keys p vmas) k = Some w" for k w
    using that by (auto simp: protect_areas_get split: if_splits)
  show "vmas_ok (protect_areas keys p vmas)"
    unfolding vmas_ok_def
  proof (intro conjI allI impI)
    show "v_start w = k" "k < v_end w" if "bt_get (protect_areas keys p vmas) k = Some w" for k w
      using g [OF that] vmas_okD(1,2) [OF ok] by auto
    show "v_end w \<le> k'" if "bt_get (protect_areas keys p vmas) k = Some w" "bt_get (protect_areas keys p vmas) k' = Some w'" "k < k'" for k w k' w'
      using g [OF that(1)] g [OF that(2)] vmas_okD(3) [OF ok _ _ that(3)] by auto
  qed
  show "aligned_vmas vmas E \<Longrightarrow> aligned_vmas (protect_areas keys p vmas) E"
    unfolding aligned_vmas_def using g by metis
  show "\<forall>k v. bt_get vmas k = Some v \<longrightarrow> backed A v \<Longrightarrow> bt_get (protect_areas keys p vmas) k = Some w \<Longrightarrow> backed A w"
    using g [of k w] by (auto simp: backed_def)
qed

lemma locate_protect:
  assumes ok: "vmas_ok vmas" and bd: "boundary a vmas" "boundary b vmas"
    and keys: "\<And>k. k \<in> set keys \<longleftrightarrow> a \<le> k \<and> k < b \<and> bt_get vmas k \<noteq> None"
  shows "locate (protect_areas keys p vmas) x =
    (if a \<le> x \<and> x < b then map_option (\<lambda>(_, r). (p, r)) (locate vmas x) else locate vmas x)"
proof (cases "locate vmas x")
  case None
  have "\<not> (v_start w \<le> x \<and> x < v_end w)" if "bt_get (protect_areas keys p vmas) k = Some w" for k w
    using that None unfolding locate_None [OF ok] by (auto simp: protect_areas_get split: if_splits)
  then have "locate (protect_areas keys p vmas) x = None" using locate_None [OF protect_areas_ok(1) [OF ok]] by blast
  with None show ?thesis by simp
next
  case (Some q)
  then obtain v where v: "bt_get vmas (v_start v) = Some v" "v_start v \<le> x" "x < v_end v" "q = place v x"
    using locate_SomeE [OF ok] by metis
  have inside: "v_start v \<in> set keys \<longleftrightarrow> a \<le> x \<and> x < b"
    using keys [of "v_start v"] v bd unfolding boundary_def by fastforce
  let ?w = "if v_start v \<in> set keys then v\<lparr>v_protection := p\<rparr> else v"
  have "bt_get (protect_areas keys p vmas) (v_start v) = Some ?w" using v(1) by (simp add: protect_areas_get)
  then have "locate (protect_areas keys p vmas) x = Some (place ?w x)"
    by (rule locate_Some [OF protect_areas_ok(1) [OF ok]]) (use v in auto)
  then show ?thesis using Some v(4) inside by (auto simp: place_def)
qed

text \<open>Merging adjacent areas introduces no new boundary.\<close>

lemma aligned_coalesce:
  assumes "vmas_ok vmas" "aligned_vmas vmas E"
  shows "aligned_vmas (coalesce_adjacent vmas) E"
proof -
  have step: "aligned_vmas (coalesce_step v m) E"
    if "aligned_vmas m E" "MIN_GUEST_ADDRESS \<le> v_start v" "is_page_aligned (v_start v)" "is_page_aligned (v_end v)" "v_end v \<le> E" for v m
  proof (cases "last_opt (bt_entries m)")
    case (Some kw)
    obtain k w where kw: "kw = (k, w)" by (cases kw)
    have "(k, w) \<in> set (bt_entries m)" using Some kw unfolding last_opt_def by (metis last_in_set option.distinct(1) option.inject)
    then have "bt_get m k = Some w" by (simp add: bt_get_Some_iff_entries)
    then show ?thesis
      using that Some kw by (auto simp: coalesce_step_def aligned_vmas_def bt_get_insert)
  qed (use that in \<open>auto simp: coalesce_step_def aligned_vmas_def bt_get_insert\<close>)
  have "aligned_vmas (fold coalesce_step vs m) E"
    if "aligned_vmas m E" "\<forall>v \<in> set vs. MIN_GUEST_ADDRESS \<le> v_start v \<and> is_page_aligned (v_start v) \<and> is_page_aligned (v_end v) \<and> v_end v \<le> E" for vs m
    using that step by (induction vs arbitrary: m) auto
  moreover have "\<forall>v \<in> set (bt_values vmas). MIN_GUEST_ADDRESS \<le> v_start v \<and> is_page_aligned (v_start v) \<and> is_page_aligned (v_end v) \<and> v_end v \<le> E"
    using assms(2) bt_values_get [OF assms(1)] unfolding aligned_vmas_def by blast
  moreover have "aligned_vmas bt_empty E" by (simp add: aligned_vmas_def)
  ultimately show ?thesis unfolding coalesce_adjacent_def by blast
qed

lemma protect_commit:
  fixes p :: mem_protection
  assumes ok: "mem_ok ext s" and bd: "boundary a (gm_vmas (fst s))" "boundary b (gm_vmas (fst s))"
    and keys: "\<And>k. k \<in> set keys \<longleftrightarrow> a \<le> k \<and> k < b \<and> bt_get (gm_vmas (fst s)) k \<noteq> None"
  defines "s' \<equiv> set_vmas (\<lambda>vmas. coalesce_adjacent (protect_areas keys p vmas)) s"
  shows "frame ext s s'" "view s' = reprotect a b p (view s)" "tidy s' = tidy s"
proof -
  let ?V = "gm_vmas (fst s)" and ?A = "alloc_at (fst s) (snd s)"
  note okv = mem_okD(3) [OF ok]
  note ok1 = protect_areas_ok(1) [OF okv, of keys p]
  note co = coalesce_adjacent [OF ok1]
  have al: "aligned_vmas (coalesce_adjacent (protect_areas keys p ?V)) (gm_address_space_end (fst s))"
    by (rule aligned_coalesce [OF ok1 protect_areas_ok(2) [OF okv mem_okD(4) [OF ok]]])
  have "\<forall>k v. bt_get (protect_areas keys p ?V) k = Some v \<longrightarrow> backed ?A v"
    using protect_areas_ok(3) [OF okv, of ?A] mem_okD(11) [OF ok] by blast
  then have bk: "\<forall>k v. bt_get (coalesce_adjacent (protect_areas keys p ?V)) k = Some v \<longrightarrow> backed ?A v"
    by (rule backed_locate [OF ok1 co(1,2)])
  have "mem_ok ext s'" unfolding s'_def by (rule mem_ok_set_vmas [OF ok]) (use co(1) al bk in auto)
  then show "frame ext s s'" by (simp add: frame_def s'_def)
  show "view s' = reprotect a b p (view s)"
    unfolding view_def s'_def
    by (auto simp: content_def co(2) locate_protect [OF okv bd keys] reprotect_def fun_eq_iff split: option.splits prod.splits)
  show "tidy s' = tidy s" by (simp add: s'_def tidy_def)
qed

lemma protect_for_post:
  assumes ok: "mem_ok ext s"
    and ops: "\<And>i off len. (i, off, len) \<in> set ops \<Longrightarrow>
      \<exists>gs bs. alloc_at (fst s) (snd s) i = Some (gs, bs) \<and> 0 < len \<and> off + len \<le> length bs"
  shows "st_post (st_for ops (protect_vma p)) s (\<lambda>_ s'. solid ext s s') (\<lambda>_ s'. solid ext s s' \<and> faulted (snd s) (snd s'))"
proof (rule st_post_for)
  show "solid ext s s" by (rule solid_refl [OF ok])
  fix x s1 assume x: "x \<in> set ops" and so: "solid ext s s1"
  obtain i off len where xx: "x = (i, off, len)" by (metis prod.exhaust)
  obtain gs bs where A: "alloc_at (fst s) (snd s) i = Some (gs, bs)" "0 < len" "off + len \<le> length bs"
    using ops x xx by blast
  have A1: "alloc_at (fst s1) (snd s1) i = Some (gs, bs)" using A(1) solid_fields(8) [OF so] by simp
  show "st_post (protect_vma p x) s1 (\<lambda>_ s'. solid ext s s') (\<lambda>_ s'. solid ext s s' \<and> faulted (snd s) (snd s'))"
    unfolding xx protect_vma_def prod.case
    by (rule st_post_mono [OF protect_range_post [OF solid_mem_ok(1) [OF ok so] A1 A(2,3)]])
      (use solid_trans [OF so] solid_faulted [OF so] in blast)+
qed

text \<open>When the arguments are refused: unknown protection bits, a range that is not a range of pages, or an
  address of the range that is not mapped.\<close>

definition mprotect_refused :: "mprotect_args \<Rightarrow> guest_view \<Rightarrow> guest_memory_error \<Rightarrow> bool" where
  "mprotect_refused args V e \<longleftrightarrow> from_linux (mp_prot args) = Err e
   \<or> checked_page_range (mp_addr args) (mp_length args) = Err e
   \<or> e = NotMapped \<and> (\<exists>b x. checked_page_range (mp_addr args) (mp_length args) = Ok b
        \<and> mp_addr args \<le> x \<and> x < b \<and> V x = None)"

definition mprotect_error ::
  "(nat \<Rightarrow> nat) \<Rightarrow> mprotect_args \<Rightarrow> guest_memory \<times> host \<Rightarrow> guest_memory_error \<Rightarrow> guest_memory \<times> host \<Rightarrow> bool" where
  "mprotect_error ext args s e s' \<longleftrightarrow> s' = s \<and> mprotect_refused args (view s) e \<or> quiet_err ext s e s'"

lemma bt_values_entries: "(k, v) \<in> set (bt_entries m) \<longleftrightarrow> bt_get m k = Some v"
  by (simp add: bt_get_Some_iff_entries)

lemma mprotect_tail:
  assumes ok: "mem_ok ext s" and bd: "boundary a (gm_vmas (fst s))" "boundary b (gm_vmas (fst s))"
  defines "areas \<equiv> filter (\<lambda>(k, _). a \<le> k \<and> k < b) (bt_entries (gm_vmas (fst s)))"
  shows "st_post (st_bind (st_for (map (\<lambda>(_, v). (v_allocation_id v, v_allocation_offset v, v_len v)) areas) (protect_vma p)) (\<lambda>_.
      st_modify (set_vmas (\<lambda>vmas. coalesce_adjacent
        (fold (\<lambda>k. bt_modify k (\<lambda>v. v\<lparr>v_protection := p\<rparr>)) (map fst areas) vmas))))) s
    (\<lambda>_ s'. frame ext s s' \<and> view s' = reprotect a b p (view s)) (quiet_err ext s)"
  unfolding st_post_bind st_post_modify
proof (rule st_post_mono [OF protect_for_post [OF ok]])
  fix i off len
  assume "(i, off, len) \<in> set (map (\<lambda>(_, v). (v_allocation_id v, v_allocation_offset v, v_len v)) areas)"
  then obtain k v where v: "bt_get (gm_vmas (fst s)) k = Some v" "i = v_allocation_id v" "off = v_allocation_offset v" "len = v_len v"
    by (auto simp: areas_def bt_values_entries)
  show "\<exists>gs bs. alloc_at (fst s) (snd s) i = Some (gs, bs) \<and> 0 < len \<and> off + len \<le> length bs"
    using mem_okD(11) [OF ok v(1)] vmas_okD(1,2) [OF mem_okD(3) [OF ok] v(1)] v(2-4)
    by (auto simp: backed_def v_len_def)
next
  fix u s1 assume so: "solid ext s s1"
  have vm: "gm_vmas (fst s1) = gm_vmas (fst s)" by (rule solid_fields(1) [OF so])
  have keys: "k \<in> set (map fst areas) \<longleftrightarrow> a \<le> k \<and> k < b \<and> bt_get (gm_vmas (fst s1)) k \<noteq> None" for k
    by (force simp: areas_def vm bt_values_entries)
  note P = protect_commit [OF solid_mem_ok(1) [OF ok so] bd [folded vm] keys, of p]
  have "frame ext s s1" using quiet_frame [OF solid_quiet [OF ok so]] .
  then show "frame ext s (set_vmas (\<lambda>vmas. coalesce_adjacent
        (fold (\<lambda>k. bt_modify k (\<lambda>v. v\<lparr>v_protection := p\<rparr>)) (map fst areas) vmas)) s1)
      \<and> view (set_vmas (\<lambda>vmas. coalesce_adjacent
        (fold (\<lambda>k. bt_modify k (\<lambda>v. v\<lparr>v_protection := p\<rparr>)) (map fst areas) vmas)) s1) = reprotect a b p (view s)"
    using frame_trans [OF _ P(1)] P(2) solid_mem_ok(2) [OF ok so] by (simp add: protect_areas_def)
qed (use solid_quiet_err [OF ok] in blast)

lemma mprotect_post:
  assumes ok: "mem_ok ext s" and b: "mp_length args \<noteq> 0"
  shows "st_post (mprotect args) s
    (\<lambda>_ s'. \<exists>p len. from_linux (mp_prot args) = Ok p \<and> page_round_length (mp_length args) = Ok len
       \<and> (\<forall>x. mp_addr args \<le> x \<and> x < mp_addr args + len \<longrightarrow> view s x \<noteq> None)
       \<and> frame ext s s' \<and> view s' = reprotect (mp_addr args) (mp_addr args + len) p (view s))
    (mprotect_error ext args s)"
proof -
  let ?a = "mp_addr args"
  let ?E = "mprotect_error ext args s"
  have np: "from_linux (mp_prot args) \<noteq> Panic" by (auto simp: from_linux_def)
  consider (bad) e where "from_linux (mp_prot args) = Err e \<or> (\<exists>p. from_linux (mp_prot args) = Ok p
      \<and> checked_page_range ?a (mp_length args) = Err e)"
    | (unmapped) p b where "from_linux (mp_prot args) = Ok p" "checked_page_range ?a (mp_length args) = Ok b"
      "\<not> is_range_mapped (gm_vmas (fst s)) ?a b"
    | (good) p b where "from_linux (mp_prot args) = Ok p" "checked_page_range ?a (mp_length args) = Ok b"
      "is_range_mapped (gm_vmas (fst s)) ?a b"
    using np by (metis result.exhaust checked_page_range_not_Panic)
  then show ?thesis
  proof cases
    case bad
    then show ?thesis
      using b by (auto simp: st_post_def mprotect_def st_bind_def st_lift_def mprotect_error_def mprotect_refused_def)
  next
    case unmapped
    obtain x where "?a \<le> x" "x < b" "locate (gm_vmas (fst s)) x = None"
      using unmapped(3) is_range_mapped_iff [OF mem_okD(3) [OF ok] checked_page_range_Ok(3) [OF unmapped(2)]] by blast
    then have "?E NotMapped s"
      using view_None_iff [OF ok, of x] unmapped(2) by (auto simp: mprotect_error_def mprotect_refused_def)
    then show ?thesis using unmapped b by (simp add: st_post_def mprotect_def st_bind_def st_lift_def)
  next
    case good
    note c = checked_page_range_Ok [OF good(2)]
    let ?split = "\<lambda>vmas. split_vma_at b (split_vma_at ?a vmas)"
    let ?s1 = "set_vmas ?split s"
    have loc: "locate (gm_vmas (fst s)) x \<noteq> None" if "?a \<le> x" "x < b" for x
      using good(3) is_range_mapped_iff [OF mem_okD(3) [OF ok] c(3)] that by blast
    have mapped: "view s x \<noteq> None" if x: "?a \<le> x" "x < b" for x
      using loc [OF x] view_None_iff [OF ok, of x] by simp
    have be: "b \<le> gm_address_space_end (fst s)"
    proof -
      have "locate (gm_vmas (fst s)) (b - 1) \<noteq> None" using loc [of "b - 1"] c(3) by simp
      then obtain v where "bt_get (gm_vmas (fst s)) (v_start v) = Some v" "b - 1 < v_end v"
        using locate_SomeE [OF mem_okD(3) [OF ok]] by (metis option.exhaust)
      then show ?thesis using mem_okD(4) [OF ok] c(3) by (force simp: aligned_vmas_def)
    qed
    have q1: "quiet ext s ?s1" by (rule split2_quiet [OF ok c(1,2)])
    have okv: "vmas_ok (gm_vmas (fst s))" by (rule mem_okD(3) [OF ok])
    have bd1: "boundary ?a (gm_vmas (fst ?s1))" "boundary b (gm_vmas (fst ?s1))"
      using boundary_split vmas_ok_split okv by auto
    let ?areas = "\<lambda>s. filter (\<lambda>(k, _). ?a \<le> k \<and> k < b) (bt_entries (gm_vmas (fst s)))"
    let ?tail = "\<lambda>s. st_bind (st_for (map (\<lambda>(_, v). (v_allocation_id v, v_allocation_offset v, v_len v)) (?areas s)) (protect_vma p)) (\<lambda>_.
      st_modify (set_vmas (\<lambda>vmas. coalesce_adjacent
        (fold (\<lambda>k. bt_modify k (\<lambda>v. v\<lparr>v_protection := p\<rparr>)) (map fst (?areas s)) vmas)))) s"
    have "st_post (st_bind (ensure_guest_page_range_unique ?a b) (\<lambda>_. ?tail)) ?s1
        (\<lambda>_ s'. frame ext s s' \<and> view s' = reprotect ?a b p (view s)) (quiet_err ext s)"
      unfolding st_post_bind
    proof (rule st_post_mono [OF ensure_page_range_unique_post [OF quietD(1) [OF q1]]])
      show "b \<le> gm_address_space_end (fst ?s1)" using be by simp
    next
      fix u s2 assume q12: "quiet ext ?s1 s2"
      have q2: "quiet ext s s2" using quiet_trans [OF q1 q12] .
      note T = mprotect_tail [OF quietD(1) [OF q2] quietD(7) [OF q12 bd1(1)] quietD(7) [OF q12 bd1(2)], of p]
      have "st_post ?tail s2 (\<lambda>_ s'. frame ext s2 s' \<and> view s' = reprotect ?a b p (view s2)) (quiet_err ext s2)"
        using T by (simp add: st_post_def)
      then show "st_post ?tail s2 (\<lambda>_ s'. frame ext s s' \<and> view s' = reprotect ?a b p (view s)) (quiet_err ext s)"
        by (rule st_post_mono) (use frame_trans [OF quiet_frame [OF q2]] quietD(3) [OF q2] quiet_err_trans [OF q2] in auto)
    qed (use quiet_err_trans [OF q1] in blast)
    then have "st_post (st_bind (ensure_guest_page_range_unique ?a b) (\<lambda>_. ?tail)) ?s1
        (\<lambda>_ s'. \<exists>p len. from_linux (mp_prot args) = Ok p \<and> page_round_length (mp_length args) = Ok len
           \<and> (\<forall>x. ?a \<le> x \<and> x < ?a + len \<longrightarrow> view s x \<noteq> None)
           \<and> frame ext s s' \<and> view s' = reprotect ?a (?a + len) p (view s)) ?E"
      by (rule st_post_mono) (use good(1) c(5) mapped in \<open>auto simp: mprotect_error_def\<close>)
    then show ?thesis
      using good b
      by (simp add: st_post_def mprotect_def st_bind_def [of "st_lift _"] st_lift_def st_bind_def [of "st_modify _"] st_modify_def Let_def)
  qed
qed

end
