(* ===== verification/Mem_Clone.thy ===== *)
theory Mem_Clone
  imports Mem_Mmap
begin

text \<open>
  Copying an address space for a new process.  The copy shows the same bytes as the original, the
  counts of the host objects add up for both, and a failed copy leaves no reference behind.  Writes
  of one address space are invisible in the other.
\<close>

section \<open>Two address spaces over one host\<close>

text \<open>The references that an address space sees as foreign when another one lives beside it.\<close>

definition others :: "(nat \<Rightarrow> nat) \<Rightarrow> guest_memory \<Rightarrow> nat \<Rightarrow> nat" where
  "others ext m i = ext i + of_bool (holds m i)"

definition own_ok :: "guest_memory \<Rightarrow> bool" where
  "own_ok m \<longleftrightarrow> (\<forall>k a. bt_get (gm_allocations m) k = Some a \<longrightarrow> k < gm_next_allocation_id m)
   \<and> (\<forall>k k' a a'. bt_get (gm_allocations m) k = Some a \<longrightarrow> bt_get (gm_allocations m) k' = Some a' \<longrightarrow>
        ga_memory a = ga_memory a' \<longrightarrow> k = k')"

lemma refs_ok_own: "refs_ok ext m h \<longleftrightarrow> host_ok h \<and> own_ok m \<and> (\<forall>i. arc_count h i = of_bool (holds m i) + ext i)"
  by (auto simp: refs_ok_def own_ok_def)

lemma refs_swap: "refs_ok (others ext m) m' h \<Longrightarrow> own_ok m \<Longrightarrow> refs_ok (others ext m') m h"
  by (simp add: refs_ok_own others_def add.left_commute add.commute)

definition with_allocations :: "guest_memory \<Rightarrow> (nat, guest_allocation) btree_map \<Rightarrow> guest_memory" where
  "with_allocations m D = m\<lparr>gm_allocations := D\<rparr>"

lemma with_allocations_simps [simp]:
  "gm_allocations (with_allocations m D) = D" "gm_next_allocation_id (with_allocations m D) = gm_next_allocation_id m"
  "gm_vmas (with_allocations m D) = gm_vmas m"
  by (simp_all add: with_allocations_def)

lemma refs_ok_empty:
  assumes "refs_ok ext m h"
  shows "refs_ok (others ext m) (with_allocations m bt_empty) h"
  using assms by (simp add: refs_ok_own own_ok_def holds_def [of "with_allocations _ _"] others_def add.commute)

lemma refs_back:
  assumes "refs_ok (others ext m) (with_allocations m bt_empty) h" "own_ok m"
  shows "refs_ok ext m h"
  using assms by (simp add: refs_ok_own holds_def [of "with_allocations _ _"] others_def add.commute)

lemma holds_insert:
  assumes "bt_get D i = None"
  shows "holds (with_allocations m (bt_insert i a D)) j \<longleftrightarrow> holds (with_allocations m D) j \<or> j = ga_memory a"
  unfolding holds_def using assms by (auto simp: bt_get_insert) (metis option.distinct(1))

text \<open>A step of the copy adds one allocation on an object that no other allocation of the copy uses.\<close>

lemma refs_ok_add:
  assumes r: "refs_ok ext (with_allocations m D) h" and i: "bt_get D i = None" "i < gm_next_allocation_id m"
    and fresh: "\<not> holds (with_allocations m D) (ga_memory a)" and h': "host_ok h'"
    and c: "\<And>j. arc_count h' j = arc_count h j + of_bool (j = ga_memory a)"
  shows "refs_ok ext (with_allocations m (bt_insert i a D)) h'"
  unfolding refs_ok_own
proof (intro conjI allI)
  show "own_ok (with_allocations m (bt_insert i a D))"
    using r i fresh unfolding refs_ok_own own_ok_def holds_def
    by (auto simp: bt_get_insert split: if_splits) metis
  show "arc_count h' j = of_bool (holds (with_allocations m (bt_insert i a D)) j) + ext j" for j
    using c [of j] r fresh unfolding refs_ok_own holds_insert [OF i(1)] by auto
qed (rule h')

lemma arc_clone_simps:
  "arc_bytes (arc_clone i h) j = arc_bytes h j"
  "h_objects h i \<noteq> None \<Longrightarrow> arc_count (arc_clone i h) j = arc_count h j + of_bool (j = i)"
  "h_os (arc_clone i h) = h_os h" "h_calls (arc_clone i h) = h_calls h"
  by (auto simp: arc_clone_def arc_bytes_def arc_count_def split: option.splits)

lemma host_ok_arc_clone: "host_ok h \<Longrightarrow> host_ok (arc_clone i h)"
  by (auto simp: host_ok_def arc_clone_def split: if_splits)

text \<open>Dropping the copies that were made.\<close>

lemma drop_all:
  assumes "refs_ok ext (with_allocations m D) h"
  shows "refs_ok ext (with_allocations m bt_empty) (fold (\<lambda>(_, a). arc_drop (ga_memory a)) (bt_entries D) h)"
    "env_kept ext h (fold (\<lambda>(_, a). arc_drop (ga_memory a)) (bt_entries D) h)"
proof -
  let ?m = "with_allocations m D" and ?xs = "bt_entries D"
  have g: "\<forall>(k, a) \<in> set ?xs. bt_get (gm_allocations ?m) k = Some a" by (auto simp: bt_get_Some_iff_entries)
  have d: "distinct (map fst ?xs)" using keys_sorted_distinct [OF keys_sorted_bt_entries] .
  have e: "fold bt_remove (map fst ?xs) D = bt_empty"
  proof (rule bt_eqI)
    fix k
    show "bt_get (fold bt_remove (map fst ?xs) D) k = bt_get bt_empty k"
    proof (cases "bt_get D k")
      case (Some a)
      then have "k \<in> set (map fst ?xs)" by (force simp: bt_get_Some_iff_entries)
      then show ?thesis by (simp add: bt_get_fold_remove)
    qed (simp add: bt_get_fold_remove)
  qed
  have "(with_allocations m bt_empty, fold (\<lambda>(_, a). arc_drop (ga_memory a)) ?xs h) = fold allocations_remove (map fst ?xs) (?m, h)"
    using drop_as_remove [OF g d, of h] e by (simp add: with_allocations_def)
  from fold_allocations_remove [OF assms this]
  show "refs_ok ext (with_allocations m bt_empty) (fold (\<lambda>(_, a). arc_drop (ga_memory a)) (bt_entries D) h)"
    "env_kept ext h (fold (\<lambda>(_, a). arc_drop (ga_memory a)) (bt_entries D) h)" by blast+
qed

section \<open>Copying one allocation\<close>

definition good_allocator :: "(nat \<Rightarrow> nat \<Rightarrow> (host, host_memory, host_error) st) \<Rightarrow> nat \<Rightarrow> bool" where
  "good_allocator allocate gs \<longleftrightarrow> (\<forall>len h. 0 < len \<longrightarrow>
     st_post (allocate gs len) h (\<lambda>mem h'. tick h h' \<and> hm_bytes mem = replicate len 0) (\<lambda>_ h'. tick h h' \<and> faulted h h'))"

definition step_done ::
  "(nat \<Rightarrow> nat) \<Rightarrow> guest_memory \<Rightarrow> (nat, guest_allocation) btree_map \<Rightarrow> nat \<Rightarrow> guest_allocation \<Rightarrow> host \<Rightarrow> guest_allocation \<Rightarrow> host \<Rightarrow> bool" where
  "step_done ext m D i a h a' h' \<longleftrightarrow> refs_ok ext (with_allocations m (bt_insert i a' D)) h' \<and> env_kept ext h h'
   \<and> (\<forall>j. holds (with_allocations m D) j \<longrightarrow> arc_bytes h' j = arc_bytes h j)
   \<and> ga_guest_start a' = ga_guest_start a \<and> arc_bytes h' (ga_memory a') = arc_bytes h (ga_memory a)
   \<and> (ga_memory a' = ga_memory a \<or> ext (ga_memory a') = 0)"

lemma clone_allocation_post:
  assumes r: "refs_ok ext (with_allocations m D) h" and i: "bt_get D i = None" "i < gm_next_allocation_id m"
    and a: "0 < ext (ga_memory a)" "\<not> holds (with_allocations m D) (ga_memory a)"
    and b: "arc_bytes h (ga_memory a) \<noteq> []" "length (arc_bytes h (ga_memory a)) < 2 ^ 64"
      "\<forall>r \<in> set (allocation_protection_ranges m i). range_in (length (arc_bytes h (ga_memory a))) r"
    and g: "good_allocator allocate (ga_guest_start a)"
  shows "st_post (clone_allocation m sharing allocate i a) h (step_done ext m D i a h)
    (\<lambda>_ h'. refs_ok ext (with_allocations m D) h' \<and> env_kept ext h h' \<and> faulted h h')"
proof -
  let ?ob = "ga_memory a" and ?ranges = "allocation_protection_ranges m i"
  have cnt: "0 < arc_count h ?ob" using r a(1) by (simp add: refs_ok_own)
  then have live: "h_objects h ?ob \<noteq> None" by (cases "h_objects h ?ob") (auto simp: arc_count_def)
  show ?thesis
  proof (cases "sharing \<and> allocation_is_readonly_shareable m i")
    case True
    have "refs_ok ext (with_allocations m (bt_insert i a D)) (arc_clone ?ob h)"
      using r by (intro refs_ok_add [OF r i a(2)]) (auto simp: host_ok_arc_clone refs_ok_own arc_clone_simps live)
    then show ?thesis
      using True by (simp add: st_post_def clone_allocation_def step_done_def env_kept_def arc_clone_simps)
  next
    case False
    have same: "refs_ok ext (with_allocations m D) h' \<and> env_kept ext h h'" if "host_same h h'" for h'
      using host_same_refs_ok [OF r that] host_same_env_kept [OF that] by blast
    have later: "faulted h1 h2 \<Longrightarrow> faulted h h2" if "host_same h h1" for h1 h2
      using env_kept_faulted(1) [OF host_same_env_kept [OF that]] .
    have live': "h_objects h' ?ob \<noteq> None" "arc_bytes h' ?ob = arc_bytes h ?ob" if "host_same h h'" for h'
      using live that by simp_all
    have P: "st_post (on_object ?ob (hm_protect ReadWrite)) h (\<lambda>_ h'. host_same h h') (\<lambda>_ h'. host_same h h' \<and> faulted h h')"
      by (rule protect_all_post [OF live b(1,2)])
    have GR: "st_post (guard_restore ?ob ?ranges) h1 (\<lambda>_ h2. host_same h h2)
        (\<lambda>_ h2. host_same h h2 \<and> faulted h h2)" if h1: "host_same h h1" for h1
    proof -
      have "st_post (guard_restore ?ob ?ranges) h1 (\<lambda>_ h2. host_same h1 h2) (\<lambda>_ h2. host_same h1 h2 \<and> faulted h1 h2)"
        using live' [OF h1] b by (intro guard_restore_post) simp_all
      then show ?thesis by (rule st_post_mono) (use host_same_trans [OF h1] later(1) [OF h1] in auto)
    qed
    have GDs: "host_same h1 (guard_drop ?ob ?ranges h1)" if h1: "host_same h h1" for h1
      using guard_drop_same live' [OF h1] b by simp
    have GD: "host_same h (guard_drop ?ob ?ranges h1)" if h1: "host_same h h1" for h1
      using host_same_trans [OF h1 guard_drop_same] live' [OF h1] b by simp
    let ?al = "\<lambda>h. case allocate (ga_guest_start a) (ga_len h a) h of
        (Err e, h) \<Rightarrow> (Err e, guard_drop ?ob ?ranges h) | r \<Rightarrow> r"
    have AL: "st_post ?al h1 (\<lambda>mem h2. host_same h h2 \<and> hm_bytes mem = replicate (length (arc_bytes h ?ob)) 0)
        (\<lambda>_ h2. host_same h h2 \<and> faulted h h2)" if h1: "host_same h h1" for h1
    proof -
      have len: "ga_len h1 a = length (arc_bytes h ?ob)" using live'(2) [OF h1] by (simp add: ga_len_def)
      then have "0 < ga_len h1 a" using b(1) by simp
      then have "st_post (allocate (ga_guest_start a) (ga_len h1 a)) h1
          (\<lambda>mem h'. tick h1 h' \<and> hm_bytes mem = replicate (ga_len h1 a) 0) (\<lambda>_ h'. tick h1 h' \<and> faulted h1 h')"
        using g unfolding good_allocator_def by blast
      moreover obtain r h2 where e: "allocate (ga_guest_start a) (ga_len h1 a) h1 = (r, h2)" by fastforce
      ultimately have t: "r \<noteq> Panic" "tick h1 h2" "\<And>mem. r = Ok mem \<Longrightarrow> hm_bytes mem = replicate (ga_len h1 a) 0"
        "\<And>e. r = Err e \<Longrightarrow> faulted h1 h2"
        by (auto simp: st_post_def split: result.splits)
      have hs: "host_same h h2" using host_same_trans [OF h1 tick_host_same [OF t(2)]] .
      have "faulted h (guard_drop ?ob ?ranges h2)" if "r = Err x" for x
        using env_kept_faulted(2) [OF host_same_env_kept later [OF h1 t(4) [OF that]]] GDs [OF hs] by blast
      then show ?thesis using e t(1,3) len GD hs by (cases r) (simp_all add: st_post_def)
    qed
    have AP: "st_post (apply_allocation_protections ?ranges) (mem\<lparr>hm_bytes := bytes\<rparr>, h1)
        (\<lambda>_ s'. memory_kept (mem\<lparr>hm_bytes := bytes\<rparr>, h1) s')
        (\<lambda>_ s'. memory_kept (mem\<lparr>hm_bytes := bytes\<rparr>, h1) s' \<and> faulted h1 (snd s'))"
      if "bytes = arc_bytes h ?ob" for mem :: host_memory and bytes h1
      using apply_protections_post [of ?ranges "(mem\<lparr>hm_bytes := bytes\<rparr>, h1)"] b that by simp
    have NEW: "step_done ext m D i a h (a\<lparr>ga_memory := fst (arc_new mem h1)\<rparr>) (snd (arc_new mem h1))"
      if h1: "host_same h h1" and mem: "hm_bytes mem = arc_bytes h ?ob" for mem h1
    proof -
      have r1: "refs_ok ext (with_allocations m D) h1" using same [OF h1] by blast
      then have hk: "host_ok h1" by (simp add: refs_ok_own)
      have z: "of_bool (holds (with_allocations m D) (h_next h1)) + ext (h_next h1) = 0"
        using host_ok_fresh(1) [OF hk] r1 by (simp add: refs_ok_own)
      then have fr: "\<not> holds (with_allocations m D) (h_next h1)" "ext (h_next h1) = 0" by auto
      have "refs_ok ext (with_allocations m (bt_insert i (a\<lparr>ga_memory := fst (arc_new mem h1)\<rparr>) D)) (snd (arc_new mem h1))"
        using fr hk host_ok_fresh(1) [OF hk]
        by (intro refs_ok_add [OF r1 i]) (auto simp: arc_new_simps host_ok_arc_new)
      moreover have "env_kept ext h (snd (arc_new mem h1))"
        using fr host_same_env_kept [OF h1, of ext] by (auto simp: env_kept_def arc_new_simps)
      ultimately show ?thesis using mem fr h1 by (auto simp: step_done_def arc_new_simps)
    qed
    have B: "st_post (st_bind (on_object ?ob (hm_protect ReadWrite)) (\<lambda>_. ?al)) h
        (\<lambda>mem h2. host_same h h2 \<and> hm_bytes mem = replicate (length (arc_bytes h ?ob)) 0)
        (\<lambda>_ h2. host_same h h2 \<and> faulted h h2)"
      unfolding st_post_bind by (rule st_post_mono [OF P]) (use AL in auto)
    obtain r1 h1 where e1: "st_bind (on_object ?ob (hm_protect ReadWrite)) (\<lambda>_. ?al) h = (r1, h1)" by fastforce
    have hs1: "r1 \<noteq> Panic" "host_same h h1" "\<And>e. r1 = Err e \<Longrightarrow> faulted h h1" using B e1 by (auto simp: st_post_def split: result.splits)
    obtain r2 h2 where e2: "guard_restore ?ob ?ranges h1 = (r2, h2)" by fastforce
    have hs2: "r2 \<noteq> Panic" "host_same h h2" "\<And>e. r2 = Err e \<Longrightarrow> faulted h h2" using GR [OF hs1(2)] e2 by (auto simp: st_post_def split: result.splits)
    have ap: "r3 \<noteq> Panic" "host_same h h3" "hm_bytes mem3 = arc_bytes h ?ob" "\<And>e. r3 = Err e \<Longrightarrow> faulted h h3"
      if "apply_allocation_protections ?ranges (mem\<lparr>hm_bytes := arc_bytes h1 ?ob\<rparr>, h2) = (r3, mem3, h3)" for mem r3 mem3 h3
      using AP [of "arc_bytes h1 ?ob" mem h2] that live'(2) [OF hs1(2)] host_same_trans [OF hs2(2) tick_host_same] later [OF hs2(2)]
      by (auto simp: st_post_def memory_kept_def split: result.splits)
    show ?thesis
    proof (cases r1)
      case (Ok mem)
      show ?thesis
      proof (cases r2)
        case (Ok u)
        obtain r3 mem3 h3 where e3: "apply_allocation_protections ?ranges (mem\<lparr>hm_bytes := arc_bytes h1 ?ob\<rparr>, h2) = (r3, mem3, h3)"
          by (metis prod.exhaust)
        note A3 = ap [OF e3]
        show ?thesis
          using \<open>r1 = Ok mem\<close> Ok e1 e2 e3 False A3(1,4) NEW [OF A3(2,3)] same [OF A3(2)]
          by (cases r3) (auto simp: st_post_def clone_allocation_def Let_def case_prod_beta)
      qed (use \<open>r1 = Ok mem\<close> e1 e2 False hs2 same in \<open>auto simp: st_post_def clone_allocation_def Let_def\<close>)
    qed (use e1 False hs1 same in \<open>auto simp: st_post_def clone_allocation_def Let_def\<close>)
  qed
qed

section \<open>Copying all allocations\<close>

definition copied ::
  "(nat \<Rightarrow> nat) \<Rightarrow> guest_memory \<Rightarrow> host \<Rightarrow> (nat, guest_allocation) btree_map \<Rightarrow> host \<Rightarrow> bool" where
  "copied ext m h0 D h \<longleftrightarrow> refs_ok ext (with_allocations m D) h \<and> env_kept ext h0 h
   \<and> (\<forall>k a'. bt_get D k = Some a' \<longrightarrow> (\<exists>a. bt_get (gm_allocations m) k = Some a
        \<and> ga_guest_start a' = ga_guest_start a \<and> arc_bytes h (ga_memory a') = arc_bytes h0 (ga_memory a)
        \<and> (ga_memory a' = ga_memory a \<or> ext (ga_memory a') = 0)))"

text \<open>What the source has to offer: its objects are referenced from outside the copy, they are not
  empty, and its areas lie within them.\<close>

definition copyable ::
  "(nat \<Rightarrow> nat) \<Rightarrow> guest_memory \<Rightarrow> host \<Rightarrow> (nat \<Rightarrow> nat \<Rightarrow> (host, host_memory, host_error) st) \<Rightarrow> bool" where
  "copyable ext m h allocate \<longleftrightarrow> own_ok m \<and> (\<forall>i a. bt_get (gm_allocations m) i = Some a \<longrightarrow>
     0 < ext (ga_memory a) \<and> arc_bytes h (ga_memory a) \<noteq> [] \<and> length (arc_bytes h (ga_memory a)) < 2 ^ 64
   \<and> (\<forall>r \<in> set (allocation_protection_ranges m i). range_in (length (arc_bytes h (ga_memory a))) r)
   \<and> good_allocator allocate (ga_guest_start a))"

lemma not_held:
  assumes c: "copied ext m h0 D h" and s: "copyable ext m h0 allocate"
    and a: "bt_get (gm_allocations m) i = Some a" and i: "bt_get D i = None"
  shows "\<not> holds (with_allocations m D) (ga_memory a)"
proof
  assume "holds (with_allocations m D) (ga_memory a)"
  then obtain k a' where k: "bt_get D k = Some a'" "ga_memory a' = ga_memory a" by (auto simp: holds_def)
  obtain b where b: "bt_get (gm_allocations m) k = Some b" "ga_memory a' = ga_memory b \<or> ext (ga_memory a') = 0"
    using c k(1) unfolding copied_def by blast
  have "0 < ext (ga_memory a)" using s a by (auto simp: copyable_def)
  then have "ga_memory b = ga_memory a" using b(2) k(2) by auto
  then have "k = i" using s a b(1) unfolding copyable_def own_ok_def by blast
  then show False using k(1) i by simp
qed

lemma copied_step:
  assumes c: "copied ext m h0 D h" and s: "copyable ext m h0 allocate"
    and a: "bt_get (gm_allocations m) i = Some a" and i: "bt_get D i = None"
    and d: "step_done ext m D i a h a' h'"
  shows "copied ext m h0 (bt_insert i a' D) h'"
proof -
  have pos: "0 < ext (ga_memory a)" using s a by (auto simp: copyable_def)
  have ek: "env_kept ext h0 h" "env_kept ext h h'" using c d by (auto simp: copied_def step_done_def)
  have "arc_bytes h (ga_memory a) = arc_bytes h0 (ga_memory a)" using ek(1) pos by (simp add: env_kept_def)
  then have new: "ga_guest_start a' = ga_guest_start a \<and> arc_bytes h' (ga_memory a') = arc_bytes h0 (ga_memory a)
      \<and> (ga_memory a' = ga_memory a \<or> ext (ga_memory a') = 0)"
    using d by (simp add: step_done_def)
  have old: "arc_bytes h' (ga_memory b) = arc_bytes h (ga_memory b)" if "bt_get D k = Some b" for k b
    using d that by (auto simp: step_done_def holds_def)
  show ?thesis
    using c d a new old env_kept_trans [OF ek]
    by (auto simp: copied_def step_done_def bt_get_insert)
qed

lemma clone_allocations_post:
  assumes s: "copyable ext m h0 allocate"
    and "copied ext m h0 D h" "\<forall>(i, a) \<in> set as. bt_get (gm_allocations m) i = Some a \<and> bt_get D i = None" "distinct (map fst as)"
  shows "st_post (clone_allocations m sharing allocate as D) h
    (\<lambda>D' h'. copied ext m h0 D' h' \<and> (\<forall>k. bt_get D' k \<noteq> None \<longleftrightarrow> bt_get D k \<noteq> None \<or> k \<in> fst ` set as))
    (\<lambda>_ h'. refs_ok ext (with_allocations m bt_empty) h' \<and> env_kept ext h0 h' \<and> faulted h0 h')"
  using assms(2-4)
proof (induction "as" arbitrary: D h)
  case Nil
  then show ?case by (simp add: st_post_basic)
next
  case (Cons x "as")
  obtain i a where x: "x = (i, a)" by (cases x)
  have a: "bt_get (gm_allocations m) i = Some a" and i: "bt_get D i = None" using Cons.prems(2) x by auto
  have pos: "0 < ext (ga_memory a)" and ni: "i < gm_next_allocation_id m"
    using s a by (auto simp: copyable_def own_ok_def)
  have bytes: "arc_bytes h (ga_memory a) = arc_bytes h0 (ga_memory a)"
    using Cons.prems(1) pos by (simp add: copied_def env_kept_def)
  have r: "refs_ok ext (with_allocations m D) h" using Cons.prems(1) by (simp add: copied_def)
  have C: "st_post (clone_allocation m sharing allocate i a) h (step_done ext m D i a h)
      (\<lambda>_ h'. refs_ok ext (with_allocations m D) h' \<and> env_kept ext h h' \<and> faulted h h')"
    by (rule clone_allocation_post [OF r i ni pos not_held [OF Cons.prems(1) s a i]])
      (use s a bytes in \<open>auto simp: copyable_def\<close>)
  obtain res h1 where e: "clone_allocation m sharing allocate i a h = (res, h1)" by fastforce
  show ?case
  proof (cases res)
    case (Ok a')
    then have d: "step_done ext m D i a h a' h1" using C e by (simp add: st_post_def)
    have rest: "\<forall>(j, b) \<in> set as. bt_get (gm_allocations m) j = Some b \<and> bt_get (bt_insert i a' D) j = None"
      using Cons.prems(2,3) x by (force simp: bt_get_insert)
    have "st_post (clone_allocations m sharing allocate as (bt_insert i a' D)) h1
      (\<lambda>D' h'. copied ext m h0 D' h' \<and> (\<forall>k. bt_get D' k \<noteq> None \<longleftrightarrow> bt_get (bt_insert i a' D) k \<noteq> None \<or> k \<in> fst ` set as))
      (\<lambda>_ h'. refs_ok ext (with_allocations m bt_empty) h' \<and> env_kept ext h0 h' \<and> faulted h0 h')"
      using Cons.IH [OF copied_step [OF Cons.prems(1) s a i d] rest] Cons.prems(3) by simp
    then have "st_post (clone_allocations m sharing allocate as (bt_insert i a' D)) h1
      (\<lambda>D' h'. copied ext m h0 D' h' \<and> (\<forall>k. bt_get D' k \<noteq> None \<longleftrightarrow> bt_get D k \<noteq> None \<or> k \<in> fst ` set (x # as)))
      (\<lambda>_ h'. refs_ok ext (with_allocations m bt_empty) h' \<and> env_kept ext h0 h' \<and> faulted h0 h')"
      by (rule st_post_mono) (auto simp: x bt_get_insert)
    then show ?thesis using e Ok by (simp add: st_post_def x)
  next
    case (Err er)
    then have r1: "refs_ok ext (with_allocations m D) h1" "env_kept ext h h1" "faulted h h1"
      using C e by (auto simp: st_post_def)
    have ek: "env_kept ext h0 h" using Cons.prems(1) by (simp add: copied_def)
    have fl: "faulted h0 (fold (\<lambda>(_, a). arc_drop (ga_memory a)) (bt_entries D) h1)"
      using env_kept_faulted(2) [OF drop_all(2) [OF r1(1)] env_kept_faulted(1) [OF ek r1(3)]] .
    from ek have "env_kept ext h0 (fold (\<lambda>(_, a). arc_drop (ga_memory a)) (bt_entries D) h1)"
      using env_kept_trans r1(2) drop_all(2) [OF r1(1)] by blast
    then show ?thesis using e Err fl drop_all(1) [OF r1(1)] by (simp add: st_post_def x)
  next
    case Panic
    then show ?thesis using C e by (simp add: st_post_def)
  qed
qed

section \<open>Copying the address space\<close>

text \<open>The outcome of a successful copy: both address spaces satisfy the invariant beside each other
  and show what the original showed.\<close>

definition twins :: "(nat \<Rightarrow> nat) \<Rightarrow> guest_memory \<times> host \<Rightarrow> guest_memory \<Rightarrow> host \<Rightarrow> bool" where
  "twins ext s m' h' \<longleftrightarrow> mem_ok (others ext m') (fst s, h') \<and> mem_ok (others ext (fst s)) (m', h')
   \<and> view (fst s, h') = view s \<and> view (m', h') = view s \<and> env_kept ext (snd s) h'"

lemma env_kept_less: "env_kept (others ext m) h h' \<Longrightarrow> env_kept ext h h'"
  by (simp add: env_kept_def others_def)

lemma env_kept_alloc_at:
  assumes "env_kept ext h h'" "\<And>i. holds m i \<Longrightarrow> 0 < ext i"
  shows "alloc_at m h' = alloc_at m h"
proof
  fix k
  show "alloc_at m h' k = alloc_at m h k"
    using assms by (cases "bt_get (gm_allocations m) k") (auto simp: alloc_at_def env_kept_def holds_def)
qed

lemma env_kept_view: "env_kept ext h h' \<Longrightarrow> (\<And>i. holds m i \<Longrightarrow> 0 < ext i) \<Longrightarrow> view (m, h') = view (m, h)"
  using env_kept_alloc_at by (simp add: view_def)

lemma map_ok_mode:
  "map_ok m A \<Longrightarrow> (mode = FixedGuest \<Longrightarrow> \<forall>i gs bs. A i = Some (gs, bs) \<longrightarrow> 0 < gs) \<Longrightarrow>
     map_ok (m\<lparr>gm_allocations := D, gm_host_address_mode := mode\<rparr>) A"
  by (auto simp: map_ok_def)

lemma mem_ok_copyable:
  assumes ok: "mem_ok ext s" and g: "\<And>i gs bs. alloc_at (fst s) (snd s) i = Some (gs, bs) \<Longrightarrow> good_allocator allocate gs"
  shows "copyable (others ext (fst s)) (fst s) (snd s) allocate"
  unfolding copyable_def
proof (intro conjI allI impI)
  show "own_ok (fst s)" using mem_okD(1) [OF ok] by (simp add: refs_ok_own)
  fix i a assume a: "bt_get (gm_allocations (fst s)) i = Some a"
  have A: "alloc_at (fst s) (snd s) i = Some (ga_guest_start a, arc_bytes (snd s) (ga_memory a))" by (simp add: alloc_at_def a)
  show "0 < others ext (fst s) (ga_memory a)" using a by (auto simp: others_def holds_def)
  show "arc_bytes (snd s) (ga_memory a) \<noteq> []" by (rule mem_okD(9) [OF ok A])
  show "length (arc_bytes (snd s) (ga_memory a)) < 2 ^ 64" using mem_okD(10) [OF ok A] by simp
  show "\<forall>r \<in> set (allocation_protection_ranges (fst s) i). range_in (length (arc_bytes (snd s) (ga_memory a))) r"
    by (rule allocation_ranges_in [OF ok A])
  show "good_allocator allocate (ga_guest_start a)" by (rule g [OF A])
qed

lemma clone_with_post:
  assumes ok: "mem_ok ext s" and g: "\<And>i gs bs. alloc_at (fst s) (snd s) i = Some (gs, bs) \<Longrightarrow> good_allocator allocate gs"
    and mode: "\<And>i gs bs. alloc_at (fst s) (snd s) i = Some (gs, bs) \<Longrightarrow> mode = FixedGuest \<Longrightarrow> 0 < gs"
  shows "st_post (clone_allocations (fst s) sharing allocate (bt_entries (gm_allocations (fst s))) bt_empty) (snd s)
    (\<lambda>D h'. twins ext s ((fst s)\<lparr>gm_allocations := D, gm_host_address_mode := mode\<rparr>) h')
    (\<lambda>_ h'. quiet ext s (fst s, h') \<and> faulted (snd s) h')"
proof -
  let ?m = "fst s" and ?o = "others ext (fst s)" and ?A = "alloc_at (fst s) (snd s)"
  have own: "own_ok ?m" using mem_okD(1) [OF ok] by (simp add: refs_ok_own)
  have c0: "copied ?o ?m (snd s) bt_empty (snd s)"
    using refs_ok_empty [OF mem_okD(1) [OF ok]] by (simp add: copied_def)
  have held: "holds ?m i \<Longrightarrow> 0 < ?o i" for i by (simp add: others_def)
  note C = clone_allocations_post [OF mem_ok_copyable [OF ok g] c0, where as = "bt_entries (gm_allocations ?m)" and sharing = sharing]
  show ?thesis
  proof (rule st_post_mono [OF C])
    show "\<forall>(i, a) \<in> set (bt_entries (gm_allocations ?m)). bt_get (gm_allocations ?m) i = Some a \<and> bt_get bt_empty i = None"
      by (auto simp: bt_get_Some_iff_entries)
    show "distinct (map fst (bt_entries (gm_allocations ?m)))" by (rule keys_sorted_distinct [OF keys_sorted_bt_entries])
  next
    fix D h' assume D: "copied ?o ?m (snd s) D h' \<and>
        (\<forall>k. bt_get D k \<noteq> None \<longleftrightarrow> bt_get bt_empty k \<noteq> None \<or> k \<in> fst ` set (bt_entries (gm_allocations ?m)))"
    let ?m' = "?m\<lparr>gm_allocations := D, gm_host_address_mode := mode\<rparr>"
    have ek: "env_kept ?o (snd s) h'" and r: "refs_ok ?o (with_allocations ?m D) h'" using D by (auto simp: copied_def)
    have r': "refs_ok ?o ?m' h'" using r by (simp add: refs_ok_def holds_def with_allocations_def)
    have A': "alloc_at ?m' h' = ?A"
    proof
      fix k
      show "alloc_at ?m' h' k = ?A k"
      proof (cases "bt_get D k")
        case None
        then have "k \<notin> fst ` set (bt_entries (gm_allocations ?m))" using D by (metis bt_get_empty)
        then have "bt_get (gm_allocations ?m) k = None"
          by (metis bt_get_Some_iff_entries fst_conv image_eqI option.exhaust)
        then show ?thesis using None by (simp add: alloc_at_def)
      next
        case (Some a')
        then show ?thesis using D unfolding copied_def by (fastforce simp: alloc_at_def)
      qed
    qed
    have Ap: "alloc_at ?m h' = ?A" by (rule env_kept_alloc_at [OF ek held])
    have "map_ok ?m' ?A" by (rule map_ok_mode [OF mem_okD(2) [OF ok]]) (use mode in blast)
    then have "mem_ok ?o (?m', h')" using r' A' by (simp add: mem_ok_def)
    moreover have "mem_ok (others ext ?m') (?m, h')"
      using refs_swap [OF r' own] Ap mem_okD(2) [OF ok] by (simp add: mem_ok_def)
    ultimately show "twins ext s ?m' h'"
      using A' Ap env_kept_less [OF ek] by (simp add: twins_def view_def)
  next
    fix e h' assume "refs_ok ?o (with_allocations ?m bt_empty) h' \<and> env_kept ?o (snd s) h' \<and> faulted (snd s) h'"
    then have r: "refs_ok ext ?m h'" and ek: "env_kept ?o (snd s) h'" and fl: "faulted (snd s) h'" using refs_back [OF _ own] by auto
    have Ap: "alloc_at ?m h' = ?A" by (rule env_kept_alloc_at [OF ek held])
    then show "quiet ext s (?m, h') \<and> faulted (snd s) h'"
      using fl r mem_okD(2) [OF ok] env_kept_less [OF ek] by (simp add: quiet_def mem_ok_def view_def)
  qed
qed

lemma try_clone_runtime_post:
  assumes ok: "mem_ok ext s"
  shows "st_post (try_clone_runtime (fst s)) (snd s) (\<lambda>m' h'. twins ext s m' h') (\<lambda>_ h'. quiet ext s (fst s, h') \<and> faulted (snd s) h')"
proof -
  have "good_allocator (\<lambda>_ len. hm_allocate len ReadWrite) gs" for gs
    using allocate_platform_post by (auto simp: good_allocator_def hm_allocate_def)
  then show ?thesis
    unfolding try_clone_runtime_def try_clone_runtime_with_allocator_def st_post_bind st_post_basic
    using clone_with_post [OF ok, of _ Flexible True] by simp
qed

lemma try_clone_at_guest_addresses_post:
  assumes ok: "mem_ok ext s" and pos: "\<And>i gs bs. alloc_at (fst s) (snd s) i = Some (gs, bs) \<Longrightarrow> 0 < gs"
  shows "st_post (try_clone_runtime_at_guest_addresses (fst s)) (snd s)
    (\<lambda>m' h'. twins ext s m' h') (\<lambda>_ h'. quiet ext s (fst s, h') \<and> faulted (snd s) h')"
proof -
  have "good_allocator (\<lambda>start len. allocate_guest_host_memory_at start len ReadWrite FixedGuest) gs" if "0 < gs" for gs
    using allocate_at_mode_post [of _ FixedGuest gs] that by (simp add: good_allocator_def)
  then show ?thesis
    unfolding try_clone_runtime_at_guest_addresses_def try_clone_runtime_with_allocator_def st_post_bind st_post_basic
    using clone_with_post [OF ok, of _ FixedGuest False] pos by simp
qed

end
