(* ===== verification/Mem_Props.thy ===== *)
theory Mem_Props
  imports Mem_Clone
begin

text \<open>
  What the guest address space promises its clients.  The interface of byte accesses is the locale
  \<open>byte_store\<close>; its laws are proved for \<open>read_guest\<close> and \<open>write_guest\<close>.  The statements about
  \<open>mmap\<close>, \<open>munmap\<close>, \<open>mprotect\<close>, reads and writes are refinements: the effect of the operation
  on \<open>view\<close>, the partial function from addresses to bytes with their protection, is an update of that
  function.
\<close>

section \<open>The interface of byte accesses\<close>

definition same_bytes :: "nat \<Rightarrow> nat \<Rightarrow> guest_view \<Rightarrow> guest_view \<Rightarrow> bool" where
  "same_bytes a b V V' \<longleftrightarrow> (\<forall>x. a \<le> x \<and> x < b \<longrightarrow> V' x = V x)"

lemma read_view_cong: "same_bytes a b V V' \<Longrightarrow> read_view V' access a b = read_view V access a b"
proof -
  assume s: "same_bytes a b V V'"
  have f: "fault V' access x = fault V access x" if "x \<in> set [a..<b]" for x
    using s that by (simp add: same_bytes_def fault_def)
  have "List.find (\<lambda>x. fault V' access x \<noteq> None) [a..<b] = List.find (\<lambda>x. fault V access x \<noteq> None) [a..<b]"
    by (rule find_cong) (use f in auto)
  moreover have "map (\<lambda>x. fst (the (V' x))) [a..<b] = map (\<lambda>x. fst (the (V x))) [a..<b]"
    using s by (simp add: same_bytes_def)
  moreover have "fault V' access x = fault V access x"
    if "List.find (\<lambda>x. fault V access x \<noteq> None) [a..<b] = Some x" for x
    using f [of x] that by (auto simp: find_Some_iff)
  ultimately show ?thesis by (auto simp: read_view_def split: option.splits)
qed

lemma read_view_Ok:
  "read_view V access a b = Ok bs \<longleftrightarrow>
     (\<forall>x. a \<le> x \<and> x < b \<longrightarrow> fault V access x = None) \<and> bs = map (\<lambda>x. fst (the (V x))) [a..<b]"
  by (auto simp: read_view_def find_None_iff find_Some_iff split: option.splits)

lemma read_view_put:
  assumes "\<forall>x. a \<le> x \<and> x < a + length bs \<longrightarrow> fault V access x = None"
  shows "read_view (put a bs V) access a (a + length bs) = Ok bs"
proof -
  have "fst (the (put a bs V x)) = bs ! (x - a)" if "a \<le> x" "x < a + length bs" for x
    using assms that by (auto simp: put_def fault_def split: option.splits)
  then have "map (\<lambda>x. fst (the (put a bs V x))) [a..<a + length bs] = map (\<lambda>x. bs ! (x - a)) [a..<a + length bs]"
    by simp
  also have "\<dots> = bs" by (rule nth_equalityI) auto
  finally show ?thesis using assms by (simp add: read_view_Ok)
qed

locale byte_store =
  fixes ok :: "'s \<Rightarrow> bool" and look :: "'s \<Rightarrow> guest_view"
    and fetch :: "'s \<Rightarrow> nat \<Rightarrow> nat \<Rightarrow> u8 list mem_result"
    and store :: "nat \<Rightarrow> u8 list \<Rightarrow> ('s, unit, guest_memory_error) st"
  assumes fetch_look: "ok s \<Longrightarrow> a + n < 2 ^ 64 \<Longrightarrow> fetch s a n = read_view (look s) Read a (a + n)"
    and store_look: "ok s \<Longrightarrow> a + length bs < 2 ^ 64 \<Longrightarrow> st_post (store a bs) s
      (\<lambda>_ s'. ok s' \<and> look s' = put a bs (look s))
      (\<lambda>_ s'. ok s' \<and> (\<exists>n \<le> length bs. look s' = put a (take n bs) (look s)))"
begin

lemma fetch_stored:
  assumes "ok s" "a + length bs < 2 ^ 64" "\<forall>x. a \<le> x \<and> x < a + length bs \<longrightarrow> fault (look s) Read x = None"
  shows "st_post (store a bs) s (\<lambda>_ s'. fetch s' a (length bs) = Ok bs) (\<lambda>_ _. True)"
  by (rule st_post_mono [OF store_look [OF assms(1,2)]])
    (use assms in \<open>auto simp: fetch_look read_view_put\<close>)

lemma fetch_apart:
  assumes "ok s" "a + length bs < 2 ^ 64" "b + n < 2 ^ 64" "b + n \<le> a \<or> a + length bs \<le> b"
  shows "st_post (store a bs) s (\<lambda>_ s'. fetch s' b n = fetch s b n) (\<lambda>_ s'. fetch s' b n = fetch s b n)"
proof (rule st_post_mono [OF store_look [OF assms(1,2)]])
  fix u s' assume s': "ok s' \<and> look s' = put a bs (look s)"
  then have "same_bytes b (b + n) (look s) (look s')" using assms(4) by (auto simp: same_bytes_def put_def)
  then show "fetch s' b n = fetch s b n" using read_view_cong s' assms by (simp add: fetch_look)
next
  fix e s' assume s': "ok s' \<and> (\<exists>k \<le> length bs. look s' = put a (take k bs) (look s))"
  then have "same_bytes b (b + n) (look s) (look s')" using assms(4) by (auto simp: same_bytes_def put_def)
  then show "fetch s' b n = fetch s b n" using read_view_cong s' assms by (simp add: fetch_look)
qed

text \<open>Copying through a buffer: the destination receives the bytes the source had before, also where
  the ranges overlap.\<close>

lemma fetch_then_store:
  assumes "ok s" "a + n < 2 ^ 64" "b + n < 2 ^ 64"
  shows "st_post (st_bind (st_lift (fetch s a n)) (store b)) s
    (\<lambda>_ s'. ok s' \<and> look s' = put b (map (\<lambda>x. fst (the (look s x))) [a..<a + n]) (look s))
    (\<lambda>e s'. ok s' \<and> (s' = s \<and> fetch s a n = Err e
       \<or> (\<exists>k \<le> n. look s' = put b (take k (map (\<lambda>x. fst (the (look s x))) [a..<a + n])) (look s))))"
proof (cases "fetch s a n")
  case (Ok bs)
  then have bs: "bs = map (\<lambda>x. fst (the (look s x))) [a..<a + n]" using assms by (simp add: fetch_look read_view_Ok)
  then have "b + length bs < 2 ^ 64" using assms by simp
  from store_look [OF assms(1) this] show ?thesis
    unfolding Ok st_post_bind st_post_basic by (rule st_post_mono) (auto simp: bs)
next
  case (Err e)
  then show ?thesis using assms(1) by (simp add: st_post_bind st_post_basic)
next
  case Panic
  then show ?thesis using assms by (auto simp: fetch_look read_view_def split: option.splits)
qed

end

lemma read_guest_look:
  assumes "mem_ok ext s" "a + n < 2 ^ 64"
  shows "read_guest (fst s) (snd s) a n = read_view (view s) Read a (a + n)"
  using assms copy_guest_loop_view [of ext "fst s" "snd s"]
  by (simp add: read_guest_def copy_guest_def checked_raw_range_def nat_checked_add_def ok_or_def)

interpretation gm: byte_store "mem_ok ext" view "\<lambda>s. read_guest (fst s) (snd s)" write_guest for ext
proof (unfold_locales, goal_cases)
  case (1 s a n)
  then show ?case by (rule read_guest_look)
next
  case (2 s a bs)
  show ?case
    by (rule st_post_mono [OF write_guest_post [OF 2]]) (auto simp: write_done_def write_err_def frame_def)
qed

section \<open>States for the examples\<close>

text \<open>A host that fails no call; the address space of \<open>memory_new\<close> on it; and an address space with
  one readable and writable page of zeroes.\<close>

definition quiet_host :: host where
  "quiet_host = \<lparr>h_os = (\<lambda>_ _. None), h_calls = 0, h_next = 0, h_objects = (\<lambda>_. None)\<rparr>"

definition blank_layout :: guest_memory where
  "blank_layout =
     \<lparr>gm_vmas = bt_empty, gm_allocations = bt_empty, gm_next_allocation_id = 1, gm_brk_base = 0x10000,
      gm_current_brk = 0x10000, gm_mmap_base = DEFAULT_MMAP_BASE, gm_address_space_end = GUEST_ADDRESS_SPACE_END,
      gm_host_address_mode = Flexible, gm_executable_write_generation = 0\<rparr>"

definition one_page :: "guest_memory \<times> host" where
  "one_page =
     (blank_layout\<lparr>gm_vmas := bt_insert 0x20000 (new_vma 0x20000 0x21000 (protection_new True True False) Anonymous 1 0) bt_empty,
        gm_allocations := bt_insert 1 \<lparr>ga_guest_start = 0x20000, ga_memory = 0\<rparr> bt_empty,
        gm_next_allocation_id := 2\<rparr>,
      quiet_host\<lparr>h_next := 1, h_objects := [0 \<mapsto>
        \<lparr>ho_memory = \<lparr>hm_bytes = replicate 4096 0, hm_page = (\<lambda>_. ReadWrite)\<rparr>, ho_count = 1\<rparr>]\<rparr>)"

lemmas layout_consts = GUEST_PAGE_SIZE_def MIN_GUEST_ADDRESS_def DEFAULT_MMAP_BASE_def GUEST_ADDRESS_SPACE_END_def
  is_page_aligned_def HOST_ALLOCATION_GRANULARITY_def MMAP_HOST_CONFLICT_RETRIES_def

lemma memory_new_blank: "memory_new 0x10000 = Ok blank_layout"
  by (simp add: memory_new_def with_layout_def blank_layout_def layout_consts)

lemma quiet_host_calm: "calm quiet_host" "one_fault quiet_host"
  by (simp_all add: calm_def one_fault_def quiet_host_def)

lemma blank_ok: "mem_ok (\<lambda>_. 0) (blank_layout, quiet_host)"
  by (simp add: mem_ok_def map_ok_def refs_ok_def host_ok_def holds_def quiet_host_def blank_layout_def
      aligned_vmas_def alloc_at_def arc_count_def layout_consts)

lemma blank_ready: "map_ready (\<lambda>_. 0) (blank_layout, quiet_host)"
  using blank_ok quiet_host_calm
  by (simp add: map_ready_def tidy_def adisj_def roomy_def blank_layout_def alloc_at_def layout_consts)

lemma one_page_ok: "mem_ok (\<lambda>_. 0) one_page"
  by (simp add: mem_ok_def map_ok_def refs_ok_def host_ok_def holds_def quiet_host_def blank_layout_def one_page_def
      aligned_vmas_def alloc_at_def arc_count_def arc_bytes_def layout_consts bt_get_insert vmas_ok_def backed_def new_vma_def)

lemma one_page_view:
  assumes "0x20000 \<le> a" "a < 0x21000"
  shows "view one_page a = Some (0, protection_new True True False, Anonymous)"
proof -
  let ?v = "new_vma 0x20000 0x21000 (protection_new True True False) Anonymous 1 0"
  have v: "bt_get (gm_vmas (fst one_page)) 0x20000 = Some ?v" by (simp add: one_page_def bt_get_insert)
  have A: "alloc_at (fst one_page) (snd one_page) 1 = Some (0x20000, replicate 4096 0)"
    by (simp add: one_page_def alloc_at_def bt_get_insert arc_bytes_def)
  have "view one_page a = Some (replicate 4096 0 ! (a - 0x20000), v_protection ?v, v_kind ?v)"
    unfolding view_def
    by (rule content_Some [OF mem_okD(3) [OF one_page_ok] v _ _ mem_okD(11) [OF one_page_ok v]])
      (use A assms in \<open>simp_all add: new_vma_def\<close>)
  then show ?thesis using assms by (simp add: new_vma_def)
qed

lemma one_page_access: "0x20000 \<le> a \<Longrightarrow> a < 0x21000 \<Longrightarrow> fault (view one_page) access a = None"
  by (cases access) (simp_all add: fault_def one_page_view allowed_def protection_new_def)

section \<open>Properties\<close>

text \<open>C1. \<open>mmap\<close> refines filling a range of the address space with zeroes.  The host may fail one of its
  calls.  The call never panics.  When it succeeds, the range starts at a page of the address space
  (the requested one with \<open>MAP_FIXED\<close> and \<open>MAP_FIXED_NOREPLACE\<close>), nothing was mapped there before unless \<open>MAP_FIXED\<close> was
  given, its bytes are zero with the requested protection and every other address keeps its byte,
  protection and kind; bytes that other address spaces share are kept.  When it fails, the state is as
  before, or the host failed and what the guest sees is as before except that a \<open>MAP_FIXED\<close> range may be unmapped.\<close>

theorem mmap_refines:
  assumes "map_ready ext s" "high_request (fst s) args"
  shows "st_post (mmap args) s
    (\<lambda>a s'. frame ext s s' \<and> tidy s' \<and> mmap_effect args (fst s) (view s) a (view s'))
    (\<lambda>_ s'. mmap_error ext args s s')"
  using assms by (rule mmap_post)

theorem mmap_refines_witness:
  "map_ready (\<lambda>_. 0) (blank_layout, quiet_host) \<and>
   st_post (mmap \<lparr>mm_addr = 0, mm_length = 5000, mm_prot = 3, mm_flags = 0x22, mm_fd = -1, mm_offset = 0\<rparr>)
     (blank_layout, quiet_host)
     (\<lambda>a s'. frame (\<lambda>_. 0) (blank_layout, quiet_host) s' \<and> tidy s'
        \<and> mmap_effect \<lparr>mm_addr = 0, mm_length = 5000, mm_prot = 3, mm_flags = 0x22, mm_fd = -1, mm_offset = 0\<rparr>
            blank_layout (view (blank_layout, quiet_host)) a (view s'))
     (\<lambda>_ s'. mmap_error (\<lambda>_. 0) \<lparr>mm_addr = 0, mm_length = 5000, mm_prot = 3, mm_flags = 0x22, mm_fd = -1, mm_offset = 0\<rparr>
        (blank_layout, quiet_host) s')"
proof -
  have "high_request blank_layout args" for args by (simp add: high_request_def blank_layout_def)
  then show ?thesis using mmap_refines [OF blank_ready] blank_ready by simp
qed

text \<open>C19. \<open>munmap\<close> refines clearing a range: it fails, without an effect, exactly on an invalid range,
  it never panics and never needs the host to succeed; afterwards nothing is mapped in the range and
  every other address is as before.\<close>

theorem munmap_refines:
  assumes "mem_ok ext s"
  shows "st_post (munmap args) s
    (\<lambda>_ s'. \<exists>len. page_round_length (mu_length args) = Ok len \<and> frame ext s s' \<and> (tidy s \<longrightarrow> tidy s')
       \<and> view s' = clear (mu_addr args) (mu_addr args + len) (view s))
    (\<lambda>e s'. s' = s \<and> checked_page_range (mu_addr args) (mu_length args) = Err e)"
  using assms by (rule munmap_post)

theorem munmap_refines_witness:
  "mem_ok (\<lambda>_. 0) one_page \<and>
   st_post (munmap \<lparr>mu_addr = 0x20000, mu_length = 1\<rparr>) one_page
     (\<lambda>_ s'. view s' = clear 0x20000 0x21000 (view one_page)) (\<lambda>_ _. False)"
proof -
  have "page_round_length (Suc 0) = Ok 4096" by (simp add: page_round_length_def align_up_def align_up_to_def
        nat_checked_add_def ok_or_def align_down_to_def layout_consts result_simps)
  moreover have "checked_page_range 0x20000 (Suc 0) = Ok 0x21000"
    by (simp add: checked_page_range_def calculation checked_raw_range_def nat_checked_add_def ok_or_def layout_consts result_simps)
  ultimately show ?thesis
    using munmap_refines [OF one_page_ok, of "\<lparr>mu_addr = 0x20000, mu_length = 1\<rparr>"] one_page_ok
    by (auto elim!: st_post_mono)
qed

text \<open>C18. \<open>mprotect\<close> refines changing the protection of a range: it succeeds only when the whole range
  is mapped, and then only the protection of the addresses in the range changes.  When it fails the
  guest sees what it saw before.\<close>

theorem mprotect_refines:
  assumes "mem_ok ext s" "mp_length args \<noteq> 0"
  shows "st_post (mprotect args) s
    (\<lambda>_ s'. \<exists>p len. from_linux (mp_prot args) = Ok p \<and> page_round_length (mp_length args) = Ok len
       \<and> (\<forall>x. mp_addr args \<le> x \<and> x < mp_addr args + len \<longrightarrow> view s x \<noteq> None)
       \<and> frame ext s s' \<and> view s' = reprotect (mp_addr args) (mp_addr args + len) p (view s))
    (\<lambda>e s'. view s' = view s \<and> (s' = s \<or> quiet_err ext s e s'))"
  by (rule st_post_mono [OF mprotect_post [OF assms]]) (auto simp: mprotect_error_def quiet_err_def quiet_def)

theorem mprotect_refines_witness:
  "mem_ok (\<lambda>_. 0) one_page \<and>
   st_post (mprotect \<lparr>mp_addr = 0x20000, mp_length = 4096, mp_prot = 1\<rparr>) one_page
     (\<lambda>_ s'. mem_ok (\<lambda>_. 0) s') (\<lambda>e s'. view s' = view one_page)"
  using mprotect_refines [OF one_page_ok, of "\<lparr>mp_addr = 0x20000, mp_length = 4096, mp_prot = 1\<rparr>"] one_page_ok
  by (auto simp: frame_def elim!: st_post_mono)

text \<open>C20. \<open>read_guest\<close>, which walks over the areas and copies out of their allocations, is equal to
  reading the view byte by byte: the first address that is unmapped or unreadable decides the error,
  and there is no panic.\<close>

theorem read_guest_refines:
  assumes "mem_ok ext s"
  shows "read_guest (fst s) (snd s) a n =
    (if a + n < 2 ^ 64 then read_view (view s) Read a (a + n) else Err InvalidLength)"
  using read_guest_look [OF assms]
  by (simp add: read_guest_def copy_guest_def checked_raw_range_def nat_checked_add_def ok_or_def)

theorem read_guest_refines_witness:
  "mem_ok (\<lambda>_. 0) one_page \<and> read_guest (fst one_page) (snd one_page) 0x20000 3 = Ok [0, 0, 0]"
proof -
  have "[131072..<131075] = [131072, 131073, 131074::nat]" by (simp add: upt_rec)
  then show ?thesis
    using read_guest_refines [OF one_page_ok, where a = "0x20000" and n = 3] one_page_ok one_page_access [of _ Read]
    by (simp add: read_view_def one_page_view)
qed

text \<open>C4. \<open>write_guest\<close> refines writing bytes into the view.  On success every address of the range was
  mapped and writable, the bytes are stored and protections are kept.  On error a prefix of the bytes
  is stored, and the error is that of the first address after it, or the host failed, or the allocation
  numbers are used up.  Shared allocations of other address spaces keep their bytes.\<close>

theorem write_guest_refines:
  assumes "mem_ok ext s" "a + length bytes < 2 ^ 64"
  shows "st_post (write_guest a bytes) s (\<lambda>_ s'. write_done ext a bytes s s') (write_err ext a bytes s)"
  using assms by (rule write_guest_post)

theorem write_guest_refines_witness:
  "mem_ok (\<lambda>_. 0) one_page \<and>
   st_post (write_guest 0x20ffe [1, 2, 3]) one_page (\<lambda>_ s'. write_done (\<lambda>_. 0) 0x20ffe [1, 2, 3] one_page s')
     (write_err (\<lambda>_. 0) 0x20ffe [1, 2, 3] one_page)"
  using write_guest_refines [OF one_page_ok, where a = "0x20ffe" and bytes = "[1, 2, 3]"] one_page_ok by simp

text \<open>C21. Reading back what was written: after a successful write to readable memory \<open>read_guest\<close> returns
  the written bytes, and a range that is disjoint from the written one reads as before.\<close>

theorem write_read_roundtrip:
  assumes "mem_ok ext s" "a + length bytes < 2 ^ 64"
    "\<forall>x. a \<le> x \<and> x < a + length bytes \<longrightarrow> fault (view s) Read x = None"
    "b + n < 2 ^ 64" "b + n \<le> a \<or> a + length bytes \<le> b"
  shows "st_post (write_guest a bytes) s
    (\<lambda>_ s'. read_guest (fst s') (snd s') a (length bytes) = Ok bytes
       \<and> read_guest (fst s') (snd s') b n = read_guest (fst s) (snd s) b n)
    (\<lambda>_ s'. read_guest (fst s') (snd s') b n = read_guest (fst s) (snd s) b n)"
  using gm.fetch_stored [OF assms(1-3)] gm.fetch_apart [OF assms(1,2,4,5)]
  by (auto simp: st_post_def split: prod.splits result.splits)

theorem write_read_roundtrip_witness:
  "st_post (write_guest 0x20010 [7, 8]) one_page
    (\<lambda>_ s'. read_guest (fst s') (snd s') 0x20010 (length [7, 8 :: u8]) = Ok [7, 8]
       \<and> read_guest (fst s') (snd s') 0x20000 16 = read_guest (fst one_page) (snd one_page) 0x20000 16)
    (\<lambda>_ s'. read_guest (fst s') (snd s') 0x20000 16 = read_guest (fst one_page) (snd one_page) 0x20000 16)"
  using write_read_roundtrip [OF one_page_ok, where a = "0x20010" and bytes = "[7, 8]" and b = "0x20000" and n = 16]
    one_page_access [of _ Read] by simp

text \<open>C1. \<open>find_free_range\<close>, one pass over the areas, is first fit: it returns the lowest page-aligned
  address at or above the hint where the whole range is free and fits the address space, and it fails
  only when there is none.\<close>

theorem find_free_range_first_fit:
  assumes ok: "vmas_ok vmas" "aligned_vmas vmas space_end" and len: "0 < len" "space_end + 4095 < 2 ^ 64"
  shows "(\<forall>r. find_free_range vmas space_end hint len = Ok r \<longrightarrow>
       is_page_aligned r \<and> hint \<le> r \<and> MIN_GUEST_ADDRESS \<le> r \<and> r + len \<le> space_end \<and> \<not> overlaps vmas r (r + len))
    \<and> (\<forall>r. is_page_aligned r \<and> hint \<le> r \<and> MIN_GUEST_ADDRESS \<le> r \<and> r + len \<le> space_end \<and> \<not> overlaps vmas r (r + len) \<longrightarrow>
         (\<exists>r' \<le> r. find_free_range vmas space_end hint len = Ok r'))"
proof -
  let ?c = "\<lambda>w. if w < MIN_GUEST_ADDRESS then MIN_GUEST_ADDRESS else w"
  have s: "sorted_wrt (\<lambda>v w. v_end v \<le> v_start w) (bt_values vmas)" by (rule sorted_bt_values [OF ok(1)])
  have n: "\<forall>v \<in> set (bt_values vmas). v_start v < v_end v \<and> is_page_aligned (v_end v) \<and> v_end v \<le> space_end"
    using vmas_okD(1,2) [OF ok(1)] ok(2) by (auto simp: set_bt_values ran_def aligned_vmas_def)
  have fr: "free_range (bt_values vmas) r len \<longleftrightarrow> \<not> overlaps vmas r (r + len)" for r
    by (auto simp: free_range_def overlaps_def not_less)
  have "is_page_aligned r \<and> hint \<le> r \<and> MIN_GUEST_ADDRESS \<le> r \<and> r + len \<le> space_end \<and> \<not> overlaps vmas r (r + len)"
    if r: "find_free_range vmas space_end hint len = Ok r" for r
  proof -
    obtain w where w: "align_up hint = Ok w" "find_free_loop (bt_values vmas) len space_end (?c w) = Ok r"
      using r by (auto simp: find_free_range_def result_simps)
    show ?thesis using find_free_loop_Ok [OF s _ w(2)] n align_up_Ok(2) [OF w(1)] fr by (auto split: if_splits)
  qed
  moreover have "\<exists>r' \<le> r. find_free_range vmas space_end hint len = Ok r'"
    if r: "is_page_aligned r" "hint \<le> r" "MIN_GUEST_ADDRESS \<le> r" "r + len \<le> space_end" "\<not> overlaps vmas r (r + len)" for r
  proof -
    have "hint + 4095 < 2 ^ 64" using r len by linarith
    then obtain w where w: "align_up hint = Ok w"
      by (auto simp: align_up_def align_up_to_def nat_checked_add_def ok_or_def layout_consts result_simps)
    have "\<exists>r' \<le> r. find_free_loop (bt_values vmas) len space_end (?c w) = Ok r'"
      by (rule find_free_loop_complete [OF s n len(2) len(1)])
        (use r fr align_up_Ok [OF w] in \<open>auto simp: layout_consts\<close>)
    then show ?thesis by (simp add: find_free_range_def w)
  qed
  ultimately show ?thesis by blast
qed

theorem find_free_range_first_fit_witness:
  "find_free_range (gm_vmas (fst one_page)) GUEST_ADDRESS_SPACE_END 0x1f000 8192 = Ok 0x21000 \<and>
   \<not> overlaps (gm_vmas (fst one_page)) 0x21000 0x23000"
proof -
  have r: "find_free_range (gm_vmas (fst one_page)) GUEST_ADDRESS_SPACE_END 0x1f000 8192 = Ok 0x21000"
    by (simp add: find_free_range_def one_page_def bt_values_def bt_simps new_vma_def align_up_def align_up_to_def align_down_to_def
        checked_mapping_end_def checked_raw_range_def nat_checked_add_def ok_or_def layout_consts result_simps)
  have "aligned_vmas (gm_vmas (fst one_page)) GUEST_ADDRESS_SPACE_END"
    using mem_okD(4) [OF one_page_ok] by (simp add: one_page_def blank_layout_def)
  then show ?thesis
    using find_free_range_first_fit [OF mem_okD(3) [OF one_page_ok], of GUEST_ADDRESS_SPACE_END 8192 "0x1f000"] r
    by (simp add: layout_consts)
qed

text \<open>C1. The walk of \<open>is_range_mapped\<close> over the areas decides whether every address of the range is
  mapped.\<close>

theorem is_range_mapped_correct:
  assumes "mem_ok ext s" "a < b"
  shows "is_range_mapped (gm_vmas (fst s)) a b \<longleftrightarrow> (\<forall>x. a \<le> x \<and> x < b \<longrightarrow> view s x \<noteq> None)"
proof -
  have "view s x \<noteq> None \<longleftrightarrow> locate (gm_vmas (fst s)) x \<noteq> None" for x
    using view_None_iff [OF assms(1), of x] by simp
  then show ?thesis using is_range_mapped_iff [OF mem_okD(3) [OF assms(1)] assms(2)] by simp
qed

theorem is_range_mapped_correct_witness:
  "is_range_mapped (gm_vmas (fst one_page)) 0x20000 0x21000 \<and> mem_ok (\<lambda>_. 0) one_page"
  using is_range_mapped_correct [OF one_page_ok, of "0x20000" "0x21000"] one_page_ok by (simp add: one_page_view)

text \<open>C1. \<open>memmove\<close> on guest memory copies through a buffer: on success the destination holds the bytes
  that the source held before the call, also where the two ranges overlap, and every other byte is kept;
  when the source cannot be read nothing changes, and an error of the store leaves a prefix of the copy.
  There is no panic for lengths that fit a buffer.\<close>

theorem memmove_overlap_safe:
  assumes "mem_ok ext s" "source + n < 2 ^ 64" "destination + n < 2 ^ 64" "n \<le> ISIZE_MAX"
  shows "st_post (intrinsic_memmove destination source n) s
    (\<lambda>_ s'. mem_ok ext s' \<and> view s' = put destination (map (\<lambda>x. fst (the (view s x))) [source..<source + n]) (view s))
    (\<lambda>e s'. mem_ok ext s' \<and> (s' = s \<and> read_guest (fst s) (snd s) source n = Err e
       \<or> (\<exists>k \<le> n. view s' = put destination (take k (map (\<lambda>x. fst (the (view s x))) [source..<source + n])) (view s))))"
proof -
  have "intrinsic_memmove destination source n s =
      st_bind (st_lift (read_guest (fst s) (snd s) source n)) (write_guest destination) s"
    using assms(4) by (simp add: intrinsic_memmove_def copy_out_def vec_fill_def vec_zero_def read_guest_def)
  then show ?thesis using gm.fetch_then_store [OF assms(1-3)] by (simp add: st_post_def)
qed

theorem memmove_overlap_safe_witness:
  "st_post (intrinsic_memmove 0x20001 0x20000 2) one_page
    (\<lambda>_ s'. mem_ok (\<lambda>_. 0) s' \<and> view s' = put 0x20001 [0, 0] (view one_page)) (\<lambda>_ s'. mem_ok (\<lambda>_. 0) s')"
proof -
  have "[131072..<131074] = [131072, 131073::nat]" by (simp add: upt_rec)
  then show ?thesis
    using memmove_overlap_safe [OF one_page_ok, where source = "0x20000" and destination = "0x20001" and n = 2]
    by (auto simp: one_page_view ISIZE_MAX_def elim!: st_post_mono)
qed

text \<open>C1. \<open>memcpy\<close> refuses overlapping ranges before it touches memory.\<close>

theorem memcpy_overlap_rejected:
  assumes "unat rdi + unat rdx < 2 ^ 64" "unat rsi + unat rdx < 2 ^ 64"
  shows "(fst (dispatch_libc_intrinsic Memcpy rdi rsi rdx s) = Err UnsupportedOverlap \<longleftrightarrow>
      (\<exists>x. unat rdi \<le> x \<and> x < unat rdi + unat rdx \<and> unat rsi \<le> x \<and> x < unat rsi + unat rdx))
    \<and> (fst (dispatch_libc_intrinsic Memcpy rdi rsi rdx s) = Err UnsupportedOverlap \<longrightarrow>
        snd (dispatch_libc_intrinsic Memcpy rdi rsi rdx s) = s)"
proof -
  let ?P = "\<exists>x. unat rdi \<le> x \<and> x < unat rdi + unat rdx \<and> unat rsi \<le> x \<and> x < unat rsi + unat rdx"
  have ov: "raw_ranges_overlap (unat rdi) (unat rsi) (unat rdx) =
      Ok (unat rdx \<noteq> 0 \<and> unat rdi < unat rsi + unat rdx \<and> unat rsi < unat rdi + unat rdx)"
    using assms by (simp add: raw_ranges_overlap_def checked_raw_range_def nat_checked_add_def ok_or_def)
  have P: "(unat rdx \<noteq> 0 \<and> unat rdi < unat rsi + unat rdx \<and> unat rsi < unat rdi + unat rdx) \<longleftrightarrow> ?P"
    by (auto intro!: exI [of _ "max (unat rdi) (unat rsi)"])
  obtain r s' where "intrinsic_memmove (unat rdi) (unat rsi) (unat rdx) s = (r, s')" by (rule prod.exhaust)
  then show ?thesis
    unfolding P [symmetric]
    by (cases r) (auto simp: ov wrap_memory_def st_bind_def st_lift_def st_err_def st_ok_def)
qed

theorem memcpy_overlap_rejected_witness:
  "dispatch_libc_intrinsic Memcpy 0x20000 0x20004 5 one_page = (Err UnsupportedOverlap, one_page)"
proof -
  have "\<exists>x. (0x20000::nat) \<le> x \<and> x < 0x20005 \<and> 0x20004 \<le> x \<and> x < 0x20009" by (rule exI [of _ "0x20004"]) simp
  then show ?thesis
    using memcpy_overlap_rejected [of "0x20000" 5 "0x20004" one_page] by (simp add: prod_eq_iff)
qed

end
