(* ===== verification/Mem_Fork.thy ===== *)
theory Mem_Fork
  imports Mem_Props
begin

text \<open>
  What code patches do (\<open>patch_code\<close> of \<open>mcr-memory/src/lib.rs\<close>), and two processes after a fork.  Their
  address spaces share the host memory of allocations without a writable area; a patch of shared code, or a
  write after \<open>mprotect\<close> made shared memory writable, detaches it first.  The calls of the two processes are
  interleaved in any order.
\<close>

section \<open>Code patches\<close>










section \<open>The calls of a process\<close>











section \<open>Processes beside each other\<close>


























end
