(* ===== verification/Mem_Load.thy ===== *)
theory Mem_Load
  imports Mem_Props
begin

text \<open>
  Loading an ELF image into a fresh address space (\<open>GuestMemory::from_image\<close>): what the guest sees is
  what the image holds.  This joins the image builder of mcr-elf with the address space of mcr-memory.
\<close>

section \<open>What an image holds\<close>

definition in_area :: "nat \<Rightarrow> guest_vma \<Rightarrow> bool" where
  "in_area x v \<longleftrightarrow> unat (gv_start v) \<le> x \<and> x < unat (gv_end v)"

definition area_region :: "guest_memory_image \<Rightarrow> guest_vma \<Rightarrow> guest_memory_region option" where
  "area_region img v = List.find (\<lambda>r. gr_start r = gv_start v \<and> gr_end r = gv_end v) (gi_regions img)"

definition area_byte :: "guest_memory_image \<Rightarrow> guest_vma \<Rightarrow> nat \<Rightarrow> u8" where
  "area_byte img v x = (case area_region img v of None \<Rightarrow> 0 | Some r \<Rightarrow> gr_bytes r ! (x - unat (gr_start r)))"

text \<open>The areas of an image laid over a view, and the view of the whole image.\<close>

definition lay :: "guest_memory_image \<Rightarrow> guest_vma list \<Rightarrow> guest_view \<Rightarrow> guest_view" where
  "lay img vs V x = (case List.find (in_area x) vs of
     None \<Rightarrow> V x | Some v \<Rightarrow> Some (area_byte img v x, from_segment (gv_permissions v), Anonymous))"

definition image_view :: "guest_memory_image \<Rightarrow> guest_view" where
  "image_view img = lay img (gi_vmas img) (\<lambda>_. None)"

definition area_ok :: "guest_memory_image \<Rightarrow> guest_vma \<Rightarrow> bool" where
  "area_ok img v \<longleftrightarrow> unat (gv_start v) < unat (gv_end v)
   \<and> (\<exists>r. area_region img v = Some r \<and> unat (gv_end v) = unat (gv_start v) + length (gr_bytes r))"

text \<open>The areas are whole pages inside the address space.\<close>

definition area_fits :: "guest_vma \<Rightarrow> bool" where
  "area_fits v \<longleftrightarrow> MIN_GUEST_ADDRESS \<le> unat (gv_start v) \<and> is_page_aligned (unat (gv_start v))
   \<and> is_page_aligned (unat (gv_end v)) \<and> unat (gv_end v) \<le> GUEST_ADDRESS_SPACE_END"

lemma image_wf_area_ok:
  assumes wf: "image_wf img" and v: "v \<in> set (gi_vmas img)"
  shows "area_ok img v"
proof -
  have "(gv_start v, gv_end v) \<in> set (map region_range (gi_regions img))"
    using wf v unfolding image_wf_def by force
  then have "area_region img v \<noteq> None" unfolding area_region_def find_None_iff by force
  then obtain r where r: "area_region img v = Some r" by blast
  then have "r \<in> set (gi_regions img)" "gr_start r = gv_start v" "gr_end r = gv_end v"
    unfolding area_region_def by (auto simp: find_Some_iff)
  then have "unat (gv_end v) = unat (gv_start v) + length (gr_bytes r)" using wf by (auto simp: image_wf_def)
  moreover have "unat (gv_start v) < unat (gv_end v)"
    using wf v by (simp add: image_wf_def vmas_wf_def word_less_nat_alt)
  ultimately show ?thesis using r by (simp add: area_ok_def)
qed

lemma lay_Cons:
  assumes "\<And>x w. in_area x v \<Longrightarrow> w \<in> set vs \<Longrightarrow> \<not> in_area x w"
  shows "lay img (v # vs) V = lay img vs
    (fill (unat (gv_start v)) (unat (gv_end v)) (area_byte img v) (from_segment (gv_permissions v)) Anonymous V)"
proof
  fix x
  have "List.find (in_area x) vs = None" if "in_area x v"
    using that assms by (auto simp: find_None_iff)
  then show "lay img (v # vs) V x = lay img vs
    (fill (unat (gv_start v)) (unat (gv_end v)) (area_byte img v) (from_segment (gv_permissions v)) Anonymous V) x"
    by (auto simp: lay_def fill_def in_area_def split: option.splits)
qed

section \<open>The loop over the areas\<close>

lemma frame_faulted: "frame ext s s' \<Longrightarrow> faulted (snd s') h \<Longrightarrow> faulted (snd s) h"
  by (auto simp: frame_def env_kept_def intro: faulted_before)


definition loading :: "(nat \<Rightarrow> nat) \<Rightarrow> nat \<Rightarrow> guest_memory \<times> host \<Rightarrow> bool" where
  "loading ext n s \<longleftrightarrow> mem_ok ext s \<and> tidy s \<and> one_fault (snd s) \<and> gm_next_allocation_id (fst s) + n + 1 < 2 ^ 64
   \<and> gm_host_address_mode (fst s) = Flexible \<and> gm_address_space_end (fst s) = GUEST_ADDRESS_SPACE_END"

lemma load_vma_post:
  assumes l: "loading ext n s" and v: "area_ok img v" "area_fits v"
    and free: "\<And>x. in_area x v \<Longrightarrow> view s x = None"
  shows "st_post (load_vma img v) s
    (\<lambda>_ s'. placed ext s (fill (unat (gv_start v)) (unat (gv_end v)) (area_byte img v)
       (from_segment (gv_permissions v)) Anonymous (view s)) s')
    (\<lambda>_ s'. frame ext s s' \<and> faulted (snd s) (snd s'))"
proof -
  obtain r where r: "area_region img v = Some r" "unat (gv_end v) = unat (gv_start v) + length (gr_bytes r)"
    and lt: "unat (gv_start v) < unat (gv_end v)" using v by (auto simp: area_ok_def)
  have st: "gr_start r = gv_start v" using r(1) unfolding area_region_def by (auto simp: find_Some_iff)
  have nlt: "\<not> gv_end v < gv_start v" using lt by (simp add: word_less_nat_alt)
  have len: "unat (gv_end v - gv_start v) = length (gr_bytes r)" using lt r(2) by (subst unat_sub) (auto simp: word_le_nat_alt)
  have ok: "mem_ok ext s" using l by (simp add: loading_def)
  let ?a = "unat (gv_start v)"
  have "\<not> overlaps (gm_vmas (fst s)) ?a (?a + length (gr_bytes r))"
    unfolding overlaps_iff [OF mem_okD(3) [OF ok] lt [unfolded r(2)]]
    using free view_None_iff [OF ok] r(2) by (auto simp: in_area_def)
  moreover have "ready ext s" using l by (simp add: loading_def ready_def exhausted_def)
  moreover have "mappable (fst s) ?a (?a + length (gr_bytes r))"
    using v(2) lt l r(2) by (simp add: area_fits_def mappable_def loading_def)
  moreover have eq: "load_vma img v = insert_loaded_mapping ?a (length (gr_bytes r)) (from_segment (gv_permissions v)) (gr_bytes r)"
    using r(1) nlt len by (simp add: load_vma_def area_region_def)
  ultimately show ?thesis
    unfolding eq
  proof (rule_tac st_post_mono [OF insert_loaded_mapping_post])
    fix u s' assume "placed ext s (fill ?a (?a + length (gr_bytes r)) (\<lambda>x. gr_bytes r ! (x - ?a)) (from_segment (gv_permissions v)) Anonymous (view s)) s'"
    then show "placed ext s (fill ?a (unat (gv_end v)) (area_byte img v) (from_segment (gv_permissions v)) Anonymous (view s)) s'"
      using r by (simp add: area_byte_def [abs_def] st)
  next
    fix e s' assume "refused ext s (?a + length (gr_bytes r)) e s'"
    moreover have "?a + length (gr_bytes r) \<le> GUEST_ADDRESS_SPACE_END" using v(2) r(2) by (simp add: area_fits_def)
    then have "\<not> 2 ^ 64 \<le> ?a + length (gr_bytes r) + (HOST_ALLOCATION_GRANULARITY - 1)"
      by (simp add: layout_consts)
    ultimately show "frame ext s s' \<and> faulted (snd s) (snd s')"
      by (auto simp: refused_def settled_def quiet_frame)
  qed
qed

lemma load_vmas_post:
  assumes "loading ext (length vs) s" "\<forall>v \<in> set vs. area_ok img v \<and> area_fits v" "vmas_wf vs"
    "\<And>x v. v \<in> set vs \<Longrightarrow> in_area x v \<Longrightarrow> view s x = None"
  shows "st_post (st_for vs (load_vma img)) s
    (\<lambda>_ s'. frame ext s s' \<and> view s' = lay img vs (view s)) (\<lambda>_ s'. frame ext s s' \<and> faulted (snd s) (snd s'))"
  using assms
proof (induction vs arbitrary: s)
  case Nil
  then show ?case by (simp add: st_post_basic frame_def same_layout_def loading_def lay_def [abs_def])
next
  case (Cons v vs)
  have apart: "\<not> in_area x w" if "in_area x v" "w \<in> set vs" for x w
    using Cons.prems(3) that by (auto simp: vmas_wf_def in_area_def word_le_nat_alt)
  show ?case
    unfolding st_for.simps st_post_bind
  proof (rule st_post_mono [OF load_vma_post])
    show "loading ext (Suc (length vs)) s" using Cons.prems(1) by simp
    show "area_ok img v" "area_fits v" using Cons.prems(2) by auto
    show "view s x = None" if "in_area x v" for x using Cons.prems(4) [of v x] that by simp
  next
    fix u s'
    assume p: "placed ext s (fill (unat (gv_start v)) (unat (gv_end v)) (area_byte img v) (from_segment (gv_permissions v)) Anonymous (view s)) s'"
    have l: "loading ext (length vs) s'"
      using Cons.prems(1) p env_kept_one_fault
      by (auto simp: loading_def placed_def frame_def same_layout_def grew_def)
    have f: "frame ext s s'" using p by (simp add: placed_def)
    have "lay img vs (view s') = lay img (v # vs) (view s)"
      using p lay_Cons [OF apart] by (simp add: placed_def)
    moreover have "view s' x = None" if "w \<in> set vs" "in_area x w" for x w
      using p apart [of x w] that Cons.prems(4) [of w x] by (auto simp: placed_def fill_def in_area_def)
    moreover have "vmas_wf vs" using Cons.prems(3) by (simp add: vmas_wf_def)
    ultimately show "st_post (st_for vs (load_vma img)) s'
      (\<lambda>_ s''. frame ext s s'' \<and> view s'' = lay img (v # vs) (view s)) (\<lambda>_ s''. frame ext s s'' \<and> faulted (snd s) (snd s''))"
      using Cons.IH [OF l] Cons.prems(2) frame_trans [OF f] frame_faulted [OF f]
      by (auto elim!: st_post_mono)
  qed auto
qed

section \<open>Loading\<close>

lemma blank_space_ok:
  assumes w: "memory_new w = Ok m" and h: "refs_ok ext (with_allocations m bt_empty) h"
  shows "mem_ok ext (m, h)" "view (m, h) = (\<lambda>_. None)" "tidy (m, h)" "gm_next_allocation_id m = 1"
    "gm_host_address_mode m = Flexible" "gm_address_space_end m = GUEST_ADDRESS_SPACE_END" "gm_allocations m = bt_empty"
  using assms
  by (auto simp: memory_new_def with_layout_def mem_ok_def map_ok_def aligned_vmas_def alloc_at_def view_def content_def
      tidy_def adisj_def layout_consts with_allocations_def split: if_splits)

text \<open>The host beside the address spaces that \<open>ext\<close> counts.\<close>

definition host_consistent :: "(nat \<Rightarrow> nat) \<Rightarrow> host \<Rightarrow> bool" where
  "host_consistent ext h \<longleftrightarrow> host_ok h \<and> (\<forall>i. arc_count h i = ext i)"

lemma host_consistent_refs: "host_consistent ext h \<longleftrightarrow> refs_ok ext (with_allocations m bt_empty) h"
  by (auto simp: host_consistent_def refs_ok_def holds_def with_allocations_def)

text \<open>C9. Loading an image of page-aligned areas on a host that fails at most once does not panic.  When it
  succeeds, the guest sees exactly the bytes and permissions of the image and nothing else.  When it fails
  the host has failed, every host object of the attempt is released and the others keep their bytes.\<close>

theorem from_image_loads:
  assumes img: "image_wf img" "\<forall>v \<in> set (gi_vmas img). area_fits v" "length (gi_vmas img) < 2 ^ 63"
    and brk: "unat (gi_brk img) + 4095 < 2 ^ 64" and h: "host_consistent ext h" "one_fault h"
  shows "st_post (from_image img) h
    (\<lambda>m h'. mem_ok ext (m, h') \<and> view (m, h') = image_view img \<and> env_kept ext h h')
    (\<lambda>_ h'. host_consistent ext h' \<and> env_kept ext h h' \<and> \<not> calm h)"
proof -
  let ?b = "max (unat (gi_brk img)) MIN_GUEST_ADDRESS"
  have "?b + 4095 < 2 ^ 64" using brk by (simp add: layout_consts)
  then obtain w where w: "align_up ?b = Ok w"
    by (auto simp: align_up_def align_up_to_def nat_checked_add_def ok_or_def layout_consts result_simps)
  have "MIN_GUEST_ADDRESS \<le> w" using align_up_Ok(2) [OF w] by simp
  then obtain m where m: "memory_new w = Ok m"
    using align_up_Ok(1) [OF w] by (auto simp: memory_new_def with_layout_def layout_consts)
  note new = blank_space_ok [OF m h(1) [unfolded host_consistent_refs [of ext h m]]]
  have l: "loading ext (length (gi_vmas img)) (m, h)" using new h(2) img(3) by (simp add: loading_def)
  have P: "st_post (st_for (gi_vmas img) (load_vma img)) (m, h)
      (\<lambda>_ s'. frame ext (m, h) s' \<and> view s' = lay img (gi_vmas img) (view (m, h)))
      (\<lambda>_ s'. frame ext (m, h) s' \<and> faulted h (snd s'))"
    using load_vmas_post [OF l, of img] image_wf_area_ok [OF img(1)] img(1,2) new(2)
    by (simp add: image_wf_def)
  obtain r m' h' where e: "st_for (gi_vmas img) (load_vma img) (m, h) = (r, m', h')" by (metis prod.exhaust)
  show ?thesis
  proof (cases r)
    case (Ok u)
    then show ?thesis using P w m e new(2) by (simp add: st_post_def from_image_def image_view_def frame_def)
  next
    case (Err er)
    have f: "frame ext (m, h) (m', h')" "\<not> calm h" using P e Err by (auto simp: st_post_def faulted_def)
    have "refs_ok ext (with_allocations m' (gm_allocations m')) h'"
      using f(1) by (simp add: frame_def mem_ok_def with_allocations_def)
    from drop_all [OF this] f show ?thesis
      using w m e Err env_kept_trans
      by (auto simp: st_post_def from_image_def drop_memory_def host_consistent_refs [of _ _ m'] frame_def)
  next
    case Panic
    then show ?thesis using P e by (simp add: st_post_def)
  qed
qed

definition flat_image :: guest_memory_image where
  "flat_image =
     \<lparr>gi_entrypoint = 0x20000, gi_initial_stack_pointer = 0, gi_initial_stack = \<lparr>is_stack_top = 0, is_stack_size = 0,
        is_stack_pointer = 0, is_bytes = [], is_argv_addresses = [], is_envp_addresses = [],
        is_executable_path_address = 0, is_platform_address = 0, is_random_address = 0, is_auxv_entries = []\<rparr>,
      gi_executable_load_bias = 0, gi_interpreter = None, gi_brk = 0x21000,
      gi_vmas = [\<lparr>gv_start = 0x20000, gv_end = 0x21000,
        gv_permissions = \<lparr>perm_read = True, perm_write = False, perm_execute = True\<rparr>, gv_kind = Stack\<rparr>],
      gi_regions = [\<lparr>gr_start = 0x20000, gr_end = 0x21000, gr_bytes = replicate 4096 0xc3\<rparr>]\<rparr>"

theorem from_image_loads_witness:
  "\<exists>m h'. from_image flat_image quiet_host = (Ok m, h') \<and> view (m, h') = image_view flat_image
     \<and> image_view flat_image 0x20fff = Some (0xc3, protection_new True False True, Anonymous)"
proof -
  have wf: "image_wf flat_image"
    by (simp add: image_wf_def vmas_wf_def flat_image_def word_less_nat_alt)
  have fits: "\<forall>v \<in> set (gi_vmas flat_image). area_fits v"
    by (simp add: flat_image_def area_fits_def layout_consts)
  have h: "host_consistent (\<lambda>_. 0) quiet_host"
    by (simp add: host_consistent_def host_ok_def quiet_host_def arc_count_def)
  have "st_post (from_image flat_image) quiet_host
    (\<lambda>m h'. mem_ok (\<lambda>_. 0) (m, h') \<and> view (m, h') = image_view flat_image \<and> env_kept (\<lambda>_. 0) quiet_host h')
    (\<lambda>_ h'. host_consistent (\<lambda>_. 0) h' \<and> env_kept (\<lambda>_. 0) quiet_host h' \<and> \<not> calm quiet_host)"
    by (rule from_image_loads [OF wf fits _ _ h quiet_host_calm(2)]) (simp_all add: flat_image_def)
  moreover have "image_view flat_image 0x20fff = Some (0xc3, protection_new True False True, Anonymous)"
    by (simp add: image_view_def lay_def flat_image_def in_area_def area_byte_def area_region_def from_segment_def)
  ultimately show ?thesis using quiet_host_calm(1)
    by (auto simp: st_post_def split: prod.splits result.splits)
qed

end
