(* ===== verification/Vfs_Node.thy ===== *)
theory Vfs_Node
  imports Abi Mcr_State Host_Api
begin

text \<open>
  The errors, flags and stream objects of the virtual file system (\<open>mcr-vfs\<close>: \<open>error.rs\<close>,
  \<open>lib.rs\<close>, \<open>node.rs\<close> and the small types of \<open>fd.rs\<close>): pipes as bounded byte queues with counted
  ends, and event counters.  The lemmas say that an event counter returns the sum of what was written and
  never overflows; the contract of pipes is in \<open>Vfs_Pipe\<close>.
\<close>

section \<open>Errors\<close>

datatype vfs_error =
    AlreadyExists | BadFd | BrokenPipe | Busy | InvalidPath | IsDirectory | Loop | NameTooLong
  | NoEntry | NotEmpty | NoSpace | NotSeekable | NotSocket | NotTerminal | NotDirectory
  | NotPermitted | PermissionDenied | WouldBlock

type_synonym 'a vfs_result = "('a, vfs_error) result"

definition EWOULDBLOCK :: linux_errno where "EWOULDBLOCK = 11"
definition EBUSY :: linux_errno where "EBUSY = 16"
definition ENOTDIR :: linux_errno where "ENOTDIR = 20"
definition EISDIR :: linux_errno where "EISDIR = 21"
definition ENOTTY :: linux_errno where "ENOTTY = 25"
definition ENOSPC :: linux_errno where "ENOSPC = 28"
definition ESPIPE :: linux_errno where "ESPIPE = 29"
definition ENAMETOOLONG :: linux_errno where "ENAMETOOLONG = 36"
definition ENOTEMPTY :: linux_errno where "ENOTEMPTY = 39"
definition ELOOP :: linux_errno where "ELOOP = 40"
definition ENOTSOCK :: linux_errno where "ENOTSOCK = 88"

fun linux_errno_value :: "vfs_error \<Rightarrow> linux_errno" where
  "linux_errno_value AlreadyExists = EEXIST"
| "linux_errno_value BadFd = EBADF"
| "linux_errno_value BrokenPipe = EPIPE"
| "linux_errno_value Busy = EBUSY"
| "linux_errno_value InvalidPath = EINVAL"
| "linux_errno_value IsDirectory = EISDIR"
| "linux_errno_value Loop = ELOOP"
| "linux_errno_value NameTooLong = ENAMETOOLONG"
| "linux_errno_value NoEntry = ENOENT"
| "linux_errno_value NotEmpty = ENOTEMPTY"
| "linux_errno_value NoSpace = ENOSPC"
| "linux_errno_value NotSeekable = ESPIPE"
| "linux_errno_value NotSocket = ENOTSOCK"
| "linux_errno_value NotTerminal = ENOTTY"
| "linux_errno_value NotDirectory = ENOTDIR"
| "linux_errno_value NotPermitted = EPERM"
| "linux_errno_value PermissionDenied = EACCES"
| "linux_errno_value WouldBlock = EWOULDBLOCK"

fun vfs_error_from_host :: "host_error_kind \<Rightarrow> vfs_error" where
  "vfs_error_from_host HostNotFound = NoEntry"
| "vfs_error_from_host HostAccessDenied = PermissionDenied"
| "vfs_error_from_host HostInterrupted = WouldBlock"
| "vfs_error_from_host HostWouldBlock = WouldBlock"
| "vfs_error_from_host HostBrokenPipe = BrokenPipe"
| "vfs_error_from_host HostAlreadyExists = InvalidPath"
| "vfs_error_from_host HostInvalidInput = InvalidPath"
| "vfs_error_from_host HostTimedOut = InvalidPath"
| "vfs_error_from_host HostOutOfMemory = InvalidPath"
| "vfs_error_from_host HostUnsupported = InvalidPath"
| "vfs_error_from_host HostPoisoned = InvalidPath"
| "vfs_error_from_host HostUnavailable = InvalidPath"
| "vfs_error_from_host HostOther = InvalidPath"

section \<open>Open flags\<close>

definition O_ACCMODE :: u32 where "O_ACCMODE = 3"
definition O_RDONLY :: u32 where "O_RDONLY = 0"
definition O_WRONLY :: u32 where "O_WRONLY = 1"
definition O_RDWR :: u32 where "O_RDWR = 2"
definition O_CREAT :: u32 where "O_CREAT = 0x40"
definition O_EXCL :: u32 where "O_EXCL = 0x80"
definition O_TRUNC :: u32 where "O_TRUNC = 0x200"
definition O_APPEND :: u32 where "O_APPEND = 0x400"
definition O_NONBLOCK :: u32 where "O_NONBLOCK = 0x800"
definition O_DIRECTORY :: u32 where "O_DIRECTORY = 0x10000"
definition O_NOFOLLOW :: u32 where "O_NOFOLLOW = 0x20000"
definition O_CLOEXEC :: u32 where "O_CLOEXEC = 0x80000"
definition FD_CLOEXEC :: u32 where "FD_CLOEXEC = 1"
definition SETFL_MUTABLE_FLAGS :: u32 where "SETFL_MUTABLE_FLAGS = O_APPEND OR O_NONBLOCK"

lemmas open_flag_defs = O_ACCMODE_def O_RDONLY_def O_WRONLY_def O_RDWR_def O_CREAT_def O_EXCL_def O_TRUNC_def
  O_APPEND_def O_NONBLOCK_def O_DIRECTORY_def O_NOFOLLOW_def O_CLOEXEC_def FD_CLOEXEC_def SETFL_MUTABLE_FLAGS_def

text \<open>\<open>OpenFlags\<close> is a wrapper around its raw word.\<close>

type_synonym open_flags = u32

definition access_mode :: "open_flags \<Rightarrow> u32" where
  "access_mode raw = raw AND O_ACCMODE"

definition can_read :: "open_flags \<Rightarrow> bool" where
  "can_read raw \<longleftrightarrow> access_mode raw = O_RDONLY \<or> access_mode raw = O_RDWR"

definition can_write :: "open_flags \<Rightarrow> bool" where
  "can_write raw \<longleftrightarrow> access_mode raw = O_WRONLY \<or> access_mode raw = O_RDWR"

definition flag_cloexec :: "open_flags \<Rightarrow> bool" where "flag_cloexec raw \<longleftrightarrow> raw AND O_CLOEXEC \<noteq> 0"
definition flag_create :: "open_flags \<Rightarrow> bool" where "flag_create raw \<longleftrightarrow> raw AND O_CREAT \<noteq> 0"
definition flag_exclusive :: "open_flags \<Rightarrow> bool" where "flag_exclusive raw \<longleftrightarrow> raw AND O_EXCL \<noteq> 0"
definition flag_truncate :: "open_flags \<Rightarrow> bool" where "flag_truncate raw \<longleftrightarrow> raw AND O_TRUNC \<noteq> 0"
definition flag_append :: "open_flags \<Rightarrow> bool" where "flag_append raw \<longleftrightarrow> raw AND O_APPEND \<noteq> 0"
definition flag_directory :: "open_flags \<Rightarrow> bool" where "flag_directory raw \<longleftrightarrow> raw AND O_DIRECTORY \<noteq> 0"
definition flag_nofollow :: "open_flags \<Rightarrow> bool" where "flag_nofollow raw \<longleftrightarrow> raw AND O_NOFOLLOW \<noteq> 0"

definition with_status_flags :: "open_flags \<Rightarrow> u32 \<Rightarrow> open_flags" where
  "with_status_flags raw status_flags =
     (raw AND NOT SETFL_MUTABLE_FLAGS) OR (status_flags AND SETFL_MUTABLE_FLAGS)"

section \<open>File kinds\<close>

datatype stdio_kind = Stdin | Stdout | Stderr

datatype dev_node_kind = DevNull | DevZero | DevUrandom | DevStdin | DevStdout | DevStderr

fun dev_of_stdio :: "stdio_kind \<Rightarrow> dev_node_kind" where
  "dev_of_stdio Stdin = DevStdin"
| "dev_of_stdio Stdout = DevStdout"
| "dev_of_stdio Stderr = DevStderr"

datatype file_kind =
    FRegular | FDirectory | FSymlink | FDev dev_node_kind | FPipeRead | FPipeWrite | FSocket
  | FEpoll | FEventfd | FStdio stdio_kind

section \<open>Pipes\<close>

definition DEFAULT_PIPE_CAPACITY :: nat where "DEFAULT_PIPE_CAPACITY = 65536"
definition MIN_PIPE_CAPACITY :: nat where "MIN_PIPE_CAPACITY = 4096"

record pipe_state =
  ps_buffer :: "u8 list"
  ps_capacity :: nat
  ps_readers :: nat
  ps_writers :: nat

definition pipe_state_new :: "nat \<Rightarrow> pipe_state" where
  "pipe_state_new capacity = \<lparr>ps_buffer = [], ps_capacity = capacity, ps_readers = 0, ps_writers = 0\<rparr>"

definition pipe_available :: "pipe_state \<Rightarrow> nat" where
  "pipe_available s = length (ps_buffer s)"

text \<open>The bytes that \<open>read\<close> stores at the front of a buffer of length \<open>len\<close>; their number is its
  value.\<close>

definition pipe_state_read :: "nat \<Rightarrow> pipe_state \<Rightarrow> u8 list \<times> pipe_state" where
  "pipe_state_read len s =
     (let count = min (length (ps_buffer s)) len
      in (take count (ps_buffer s), s\<lparr>ps_buffer := drop count (ps_buffer s)\<rparr>))"

definition discard_readable :: "nat \<Rightarrow> pipe_state \<Rightarrow> pipe_state" where
  "discard_readable count s = s\<lparr>ps_buffer := drop (min count (length (ps_buffer s))) (ps_buffer s)\<rparr>"

definition set_capacity :: "nat \<Rightarrow> (pipe_state, nat, vfs_error) st" where
  "set_capacity capacity s =
     (let capacity = max capacity MIN_PIPE_CAPACITY in
      if capacity < length (ps_buffer s) then (Err Busy, s)
      else (Ok capacity, s\<lparr>ps_capacity := capacity\<rparr>))"

definition pipe_state_write :: "u8 list \<Rightarrow> (pipe_state, nat, vfs_error) st" where
  "pipe_state_write buffer s =
     (let available = ps_capacity s - length (ps_buffer s) in
      if available = 0 \<and> buffer \<noteq> [] then (Err WouldBlock, s)
      else
        let count = min available (length buffer)
        in (Ok count, s\<lparr>ps_buffer := ps_buffer s @ take count buffer\<rparr>))"

definition record_written :: "nat \<Rightarrow> (pipe_state, nat, vfs_error) st" where
  "record_written count s =
     (let available = ps_capacity s - length (ps_buffer s) in
      if count > available then (Err WouldBlock, s)
      else (Ok count, s\<lparr>ps_buffer := ps_buffer s @ replicate count 0\<rparr>))"

fun register_endpoint :: "file_kind \<Rightarrow> pipe_state \<Rightarrow> pipe_state" where
  "register_endpoint FPipeRead s = s\<lparr>ps_readers := ps_readers s + 1\<rparr>"
| "register_endpoint FPipeWrite s = s\<lparr>ps_writers := ps_writers s + 1\<rparr>"
| "register_endpoint _ s = s"

fun unregister_endpoint :: "file_kind \<Rightarrow> pipe_state \<Rightarrow> pipe_state" where
  "unregister_endpoint FPipeRead s = s\<lparr>ps_readers := ps_readers s - 1\<rparr>"
| "unregister_endpoint FPipeWrite s = s\<lparr>ps_writers := ps_writers s - 1\<rparr>"
| "unregister_endpoint _ s = s"

section \<open>Event counters\<close>

definition EVENTFD_MAX_COUNTER :: u64 where "EVENTFD_MAX_COUNTER = - 2"

definition eventfd_readable :: "u64 \<Rightarrow> bool" where "eventfd_readable counter \<longleftrightarrow> counter > 0"
definition eventfd_writable :: "u64 \<Rightarrow> bool" where "eventfd_writable counter \<longleftrightarrow> counter < EVENTFD_MAX_COUNTER"

definition eventfd_state_read :: "nat \<Rightarrow> (u64, u8 list, vfs_error) st" where
  "eventfd_state_read len counter =
     (if len < 8 then (Err InvalidPath, counter)
      else if counter = 0 then (Err WouldBlock, counter)
      else (Ok (u64_to_le_bytes counter), 0))"

definition eventfd_state_write :: "u8 list \<Rightarrow> (u64, nat, vfs_error) st" where
  "eventfd_state_write buffer counter =
     (if length buffer < 8 then (Err InvalidPath, counter)
      else
        let v = u64_from_le_bytes (take 8 buffer) in
        if v = - 1 then (Err InvalidPath, counter)
        else
          (case checked_add counter v of
             None \<Rightarrow> (Err WouldBlock, counter)
           | Some next \<Rightarrow>
               if next > EVENTFD_MAX_COUNTER then (Err WouldBlock, counter) else (Ok 8, next)))"

section \<open>Event counters add up\<close>

datatype eventfd_op = Ev_write "u8 list" | Ev_read nat

text \<open>The sum of the accepted values, the sum of the returned values and the final counter.\<close>

fun eventfd_run :: "eventfd_op list \<Rightarrow> u64 \<Rightarrow> nat \<times> nat \<times> u64" where
  "eventfd_run [] c = (0, 0, c)"
| "eventfd_run (Ev_write bs # ops) c =
     (case eventfd_state_write bs c of
        (r, c') \<Rightarrow> case eventfd_run ops c' of (ins, outs, t) \<Rightarrow>
          ((case r of Ok _ \<Rightarrow> unat (u64_from_le_bytes (take 8 bs)) | _ \<Rightarrow> 0) + ins, outs, t))"
| "eventfd_run (Ev_read n # ops) c =
     (case eventfd_state_read n c of
        (r, c') \<Rightarrow> case eventfd_run ops c' of (ins, outs, t) \<Rightarrow>
          (ins, (case r of Ok bs \<Rightarrow> unat (u64_from_le_bytes bs) | _ \<Rightarrow> 0) + outs, t))"

lemma eventfd_write_step:
  assumes "eventfd_state_write bs c = (r, c')"
  shows "unat c' = unat c + (case r of Ok _ \<Rightarrow> unat (u64_from_le_bytes (take 8 bs)) | _ \<Rightarrow> 0)"
    "c \<le> EVENTFD_MAX_COUNTER \<Longrightarrow> c' \<le> EVENTFD_MAX_COUNTER"
  using assms by (auto simp: eventfd_state_write_def Let_def checked_simps split: if_splits option.splits)

lemma eventfd_read_step:
  assumes "eventfd_state_read n c = (r, c')"
  shows "unat c = unat c' + (case r of Ok bs \<Rightarrow> unat (u64_from_le_bytes bs) | _ \<Rightarrow> 0)"
    "c \<le> EVENTFD_MAX_COUNTER \<Longrightarrow> c' \<le> EVENTFD_MAX_COUNTER"
  using assms by (auto simp: eventfd_state_read_def split: if_splits)

text \<open>C1. Over any sequence of reads and writes of an event counter, the values read plus the final counter are the
  initial counter plus the accepted values, computed without wrap-around, and the counter stays below
  its maximum: a write that would exceed it is refused and changes nothing.\<close>

theorem eventfd_conserves:
  assumes "eventfd_run ops c = (ins, outs, c')" "c \<le> EVENTFD_MAX_COUNTER"
  shows "outs + unat c' = unat c + ins \<and> c' \<le> EVENTFD_MAX_COUNTER"
  using assms
proof (induction ops arbitrary: c ins outs)
  case (Cons p ops)
  show ?case
  proof (cases p)
    case (Ev_write bs)
    obtain r d where w: "eventfd_state_write bs c = (r, d)" by fastforce
    show ?thesis
      using Cons.prems Cons.IH [of d] eventfd_write_step [OF w] Ev_write w by (auto split: prod.splits)
  next
    case (Ev_read n)
    obtain r d where w: "eventfd_state_read n c = (r, d)" by fastforce
    show ?thesis
      using Cons.prems Cons.IH [of d] eventfd_read_step [OF w] Ev_read w by (auto split: prod.splits)
  qed
qed simp

theorem eventfd_conserves_witness:
  "eventfd_run [Ev_write [3, 0, 0, 0, 0, 0, 0, 0], Ev_write [4, 0, 0, 0, 0, 0, 0, 0], Ev_read 8] 0 = (7, 7, 0)
   \<and> (7::nat) + unat (0 :: u64) = unat (0 :: u64) + 7"
proof -
  have "checked_add (3 :: u64) 4 = Some 7" "checked_add (0 :: u64) 3 = Some 3" by (simp_all add: checked_simps)
  then have r: "eventfd_run [Ev_write [3, 0, 0, 0, 0, 0, 0, 0], Ev_write [4, 0, 0, 0, 0, 0, 0, 0], Ev_read 8] 0 = (7, 7, 0)"
    by (simp add: eventfd_state_write_def eventfd_state_read_def u64_from_le_bytes_def EVENTFD_MAX_COUNTER_def)
      (simp add: u64_from_le_bytes_def [symmetric])
  show ?thesis using r eventfd_conserves [OF r] by (simp add: EVENTFD_MAX_COUNTER_def)
qed

end
