(* ===== verification/Vfs_Path.thy ===== *)
theory Vfs_Path
  imports Vfs_Node Btree "HOL-Library.Char_ord" "HOL-Library.List_Lexorder"
begin

text \<open>
  Guest paths, the inode tree and path resolution of the virtual file system (\<open>mcr-vfs/src/path.rs\<close>).
  A Rust \<open>String\<close> is a list of its UTF-8 bytes, written as characters, so that lengths and the order of
  map keys are those of the code.  Inode numbers, sizes and link counts are \<open>u64\<close> values kept as
  natural numbers with their checks; a host path is a string.
\<close>

section \<open>Guest paths\<close>

type_synonym guest_path = "string list"

definition gp_parent :: "guest_path \<Rightarrow> guest_path option" where
  "gp_parent p = (if p = [] then None else Some (butlast p))"

definition gp_file_name :: "guest_path \<Rightarrow> string option" where
  "gp_file_name p = (if p = [] then None else Some (last p))"

definition gp_starts_with :: "guest_path \<Rightarrow> guest_path \<Rightarrow> bool" where
  "gp_starts_with p other \<longleftrightarrow> take (length other) p = other"

definition SLASH :: char where "SLASH = CHR ''/''"

fun join_components :: "guest_path \<Rightarrow> string" where
  "join_components [] = []"
| "join_components [c] = c"
| "join_components (c # cs) = c @ SLASH # join_components cs"

definition gp_display :: "guest_path \<Rightarrow> string" where
  "gp_display p = SLASH # join_components p"

fun split_slash :: "string \<Rightarrow> string list" where
  "split_slash [] = [[]]"
| "split_slash (c # cs) =
     (if c = SLASH then [] # split_slash cs
      else (case split_slash cs of [] \<Rightarrow> [[c]] | part # parts \<Rightarrow> (c # part) # parts))"

definition has_nul :: "string \<Rightarrow> bool" where
  "has_nul path \<longleftrightarrow> CHR 0x00 \<in> set path"

definition split_guest_components :: "string \<Rightarrow> string list vfs_result" where
  "split_guest_components path =
     (if has_nul path then Err InvalidPath
      else collect_results (\<lambda>part. if length part > 255 then Err NameTooLong else Ok part)
             (filter (\<lambda>part. part \<noteq> []) (split_slash path)))"

definition starts_with_slash :: "string \<Rightarrow> bool" where
  "starts_with_slash path \<longleftrightarrow> (case path of [] \<Rightarrow> False | c # _ \<Rightarrow> c = SLASH)"

definition parse_absolute_path :: "string \<Rightarrow> guest_path vfs_result" where
  "parse_absolute_path path =
     (if \<not> starts_with_slash path then Err InvalidPath else split_guest_components path)"

section \<open>Attributes\<close>

definition S_IFMT :: u32 where "S_IFMT = 0xf000"
definition S_IFIFO :: u32 where "S_IFIFO = 0x1000"
definition S_IFCHR :: u32 where "S_IFCHR = 0x2000"
definition S_IFDIR :: u32 where "S_IFDIR = 0x4000"
definition S_IFREG :: u32 where "S_IFREG = 0x8000"
definition S_IFLNK :: u32 where "S_IFLNK = 0xa000"
definition S_IFSOCK :: u32 where "S_IFSOCK = 0xc000"
definition MODE_MASK :: u32 where "MODE_MASK = 0xfff"
definition F_OK :: u32 where "F_OK = 0"
definition R_OK :: u32 where "R_OK = 4"
definition W_OK :: u32 where "W_OK = 2"
definition X_OK :: u32 where "X_OK = 1"
definition DT_UNKNOWN :: u8 where "DT_UNKNOWN = 0"
definition DT_CHR :: u8 where "DT_CHR = 2"
definition DT_DIR :: u8 where "DT_DIR = 4"
definition DT_REG :: u8 where "DT_REG = 8"
definition DT_LNK :: u8 where "DT_LNK = 10"
definition DT_SOCK :: u8 where "DT_SOCK = 12"

lemmas mode_defs = S_IFMT_def S_IFIFO_def S_IFCHR_def S_IFDIR_def S_IFREG_def S_IFLNK_def S_IFSOCK_def MODE_MASK_def
lemmas access_defs = F_OK_def R_OK_def W_OK_def X_OK_def

record linux_file_attr =
  fa_inode :: nat
  fa_mode :: u32
  fa_uid :: u32
  fa_gid :: u32
  fa_nlink :: nat
  fa_size :: nat
  fa_blksize :: nat
  fa_blocks :: nat
  fa_atime_sec :: int
  fa_atime_nsec :: int
  fa_mtime_sec :: int
  fa_mtime_nsec :: int
  fa_ctime_sec :: int
  fa_ctime_nsec :: int

definition attr_new :: "nat \<Rightarrow> u32 \<Rightarrow> nat \<Rightarrow> linux_file_attr" where
  "attr_new inode mode sz =
     \<lparr>fa_inode = inode, fa_mode = mode, fa_uid = 0, fa_gid = 0,
      fa_nlink = (if mode AND S_IFMT = S_IFDIR then 2 else 1), fa_size = sz, fa_blksize = 4096,
      fa_blocks = (sz + 511) div 512, fa_atime_sec = 0, fa_atime_nsec = 0, fa_mtime_sec = 0,
      fa_mtime_nsec = 0, fa_ctime_sec = 0, fa_ctime_nsec = 0\<rparr>"

definition attr_directory :: "nat \<Rightarrow> u32 \<Rightarrow> linux_file_attr" where
  "attr_directory inode mode = attr_new inode (S_IFDIR OR (mode AND MODE_MASK)) 0"

definition attr_regular :: "nat \<Rightarrow> u32 \<Rightarrow> nat \<Rightarrow> linux_file_attr" where
  "attr_regular inode mode sz = attr_new inode (S_IFREG OR (mode AND MODE_MASK)) sz"

definition attr_symlink :: "nat \<Rightarrow> nat \<Rightarrow> linux_file_attr" where
  "attr_symlink inode sz = attr_new inode (S_IFLNK OR 0x1ff) sz"

definition attr_character_device :: "nat \<Rightarrow> u32 \<Rightarrow> linux_file_attr" where
  "attr_character_device inode mode = attr_new inode (S_IFCHR OR (mode AND MODE_MASK)) 0"

definition attr_socket :: "nat \<Rightarrow> linux_file_attr" where
  "attr_socket inode = attr_new inode (S_IFSOCK OR 0x1b6) 0"

definition attr_fifo :: "nat \<Rightarrow> linux_file_attr" where
  "attr_fifo inode = attr_new inode (S_IFIFO OR 0x180) 0"

definition kind_bits :: "linux_file_attr \<Rightarrow> u32" where
  "kind_bits attr = fa_mode attr AND S_IFMT"

definition attr_is_directory :: "linux_file_attr \<Rightarrow> bool" where
  "attr_is_directory attr \<longleftrightarrow> kind_bits attr = S_IFDIR"

definition attr_is_symlink :: "linux_file_attr \<Rightarrow> bool" where
  "attr_is_symlink attr \<longleftrightarrow> kind_bits attr = S_IFLNK"

definition dirent_type :: "linux_file_attr \<Rightarrow> u8" where
  "dirent_type attr =
     (let k = kind_bits attr in
      if k = S_IFDIR then DT_DIR else if k = S_IFREG then DT_REG else if k = S_IFLNK then DT_LNK
      else if k = S_IFCHR then DT_CHR else if k = S_IFSOCK then DT_SOCK else DT_UNKNOWN)"

definition check_access :: "u32 \<Rightarrow> linux_file_attr \<Rightarrow> unit vfs_result" where
  "check_access mode attr =
     (if mode AND NOT (R_OK OR W_OK OR X_OK) \<noteq> 0 then Err InvalidPath
      else if mode = F_OK then Ok ()
      else
        let permissions = fa_mode attr AND 0x1ff in
        if mode AND R_OK \<noteq> 0 \<and> permissions AND 0x124 = 0 then Err PermissionDenied
        else if mode AND W_OK \<noteq> 0 \<and> permissions AND 0x92 = 0 then Err PermissionDenied
        else if mode AND X_OK \<noteq> 0 \<and> permissions AND 0x49 = 0 then Err PermissionDenied
        else Ok ())"

definition I64_MAX :: int where "I64_MAX = 2 ^ 63 - 1"
definition U64_MAX_NAT :: nat where "U64_MAX_NAT = 2 ^ 64 - 1"

definition touch_mtime :: "linux_file_attr \<Rightarrow> linux_file_attr" where
  "touch_mtime attr = attr\<lparr>fa_mtime_nsec := min (fa_mtime_nsec attr + 1) I64_MAX\<rparr>"

definition touch_ctime :: "linux_file_attr \<Rightarrow> linux_file_attr" where
  "touch_ctime attr = attr\<lparr>fa_ctime_nsec := min (fa_ctime_nsec attr + 1) I64_MAX\<rparr>"

definition attr_set_mode :: "u32 \<Rightarrow> linux_file_attr \<Rightarrow> linux_file_attr" where
  "attr_set_mode mode attr =
     touch_ctime (attr\<lparr>fa_mode := (fa_mode attr AND S_IFMT) OR (mode AND MODE_MASK)\<rparr>)"

definition attr_set_owner :: "u32 option \<Rightarrow> u32 option \<Rightarrow> linux_file_attr \<Rightarrow> linux_file_attr" where
  "attr_set_owner uid gid attr =
     touch_ctime (attr\<lparr>fa_uid := (case uid of Some u \<Rightarrow> u | None \<Rightarrow> fa_uid attr),
                       fa_gid := (case gid of Some g \<Rightarrow> g | None \<Rightarrow> fa_gid attr)\<rparr>)"

definition attr_set_size :: "nat \<Rightarrow> linux_file_attr \<Rightarrow> linux_file_attr" where
  "attr_set_size sz attr =
     touch_ctime (touch_mtime (attr\<lparr>fa_size := sz, fa_blocks := (sz + 511) div 512\<rparr>))"

definition increment_link_count :: "linux_file_attr \<Rightarrow> linux_file_attr vfs_result" where
  "increment_link_count attr =
     (if fa_nlink attr + 1 \<le> U64_MAX_NAT then Ok (touch_ctime (attr\<lparr>fa_nlink := fa_nlink attr + 1\<rparr>))
      else Err NoSpace)"

definition decrement_link_count :: "linux_file_attr \<Rightarrow> linux_file_attr" where
  "decrement_link_count attr = touch_ctime (attr\<lparr>fa_nlink := fa_nlink attr - 1\<rparr>)"

record file_times =
  ft_atime_sec :: int
  ft_atime_nsec :: int
  ft_mtime_sec :: int
  ft_mtime_nsec :: int

definition attr_set_times :: "file_times \<Rightarrow> linux_file_attr \<Rightarrow> linux_file_attr" where
  "attr_set_times ts attr =
     touch_ctime (attr\<lparr>fa_atime_sec := ft_atime_sec ts, fa_atime_nsec := ft_atime_nsec ts,
       fa_mtime_sec := ft_mtime_sec ts, fa_mtime_nsec := ft_mtime_nsec ts\<rparr>)"

section \<open>Nodes\<close>

datatype proc_node_kind =
  ProcDirectory | ProcExe | ProcCmdline | ProcEnviron | ProcFdDirectory | ProcFdLink int

datatype path_node_kind =
  NDirectory | NFile | NDevice dev_node_kind | NProc proc_node_kind | NSymlink string

record path_node =
  pn_inode_id :: nat
  pn_kind :: path_node_kind
  pn_attr :: linux_file_attr
  pn_data :: "u8 list"
  pn_deferred_host_path :: "string option"

fun proc_attr :: "proc_node_kind \<Rightarrow> nat \<Rightarrow> u32 \<Rightarrow> linux_file_attr" where
  "proc_attr ProcDirectory inode mode = attr_directory inode mode"
| "proc_attr ProcFdDirectory inode mode = attr_directory inode mode"
| "proc_attr ProcExe inode mode = attr_symlink inode 0"
| "proc_attr (ProcFdLink _) inode mode = attr_symlink inode 0"
| "proc_attr ProcCmdline inode mode = attr_regular inode mode 0"
| "proc_attr ProcEnviron inode mode = attr_regular inode mode 0"

fun proc_file_kind :: "proc_node_kind \<Rightarrow> file_kind" where
  "proc_file_kind ProcDirectory = FDirectory"
| "proc_file_kind ProcFdDirectory = FDirectory"
| "proc_file_kind ProcExe = FSymlink"
| "proc_file_kind (ProcFdLink _) = FSymlink"
| "proc_file_kind ProcCmdline = FRegular"
| "proc_file_kind ProcEnviron = FRegular"

fun is_directory_kind :: "path_node_kind \<Rightarrow> bool" where
  "is_directory_kind NDirectory = True"
| "is_directory_kind (NProc ProcDirectory) = True"
| "is_directory_kind (NProc ProcFdDirectory) = True"
| "is_directory_kind _ = False"

definition node_is_directory :: "path_node \<Rightarrow> bool" where
  "node_is_directory n = is_directory_kind (pn_kind n)"

text \<open>A node without data of its own, as the constructors build it.\<close>

definition bare_node :: "nat \<Rightarrow> path_node_kind \<Rightarrow> linux_file_attr \<Rightarrow> path_node" where
  "bare_node inode kind attr =
     \<lparr>pn_inode_id = inode, pn_kind = kind, pn_attr = attr, pn_data = [], pn_deferred_host_path = None\<rparr>"

definition node_directory :: "nat \<Rightarrow> path_node" where
  "node_directory inode = bare_node inode NDirectory (attr_directory inode 0x1ed)"

text \<open>The contents of host files are outside the model: \<open>host_file\<close> is what \<open>fs::read\<close> returns for a
  path, if it succeeds.\<close>

type_synonym host_files = "string \<Rightarrow> u8 list option"

definition materialize_deferred_content :: "host_files \<Rightarrow> (path_node, unit, vfs_error) st" where
  "materialize_deferred_content host_file n =
     (case pn_deferred_host_path n of
        None \<Rightarrow> (Ok (), n)
      | Some path \<Rightarrow>
          (case host_file path of
             None \<Rightarrow> (Err NoEntry, n)
           | Some data \<Rightarrow> (Ok (), n\<lparr>pn_data := data, pn_deferred_host_path := None\<rparr>)))"

text \<open>\<open>Vec::resize\<close> with zeroes.\<close>

definition vec_resize :: "nat \<Rightarrow> u8 list \<Rightarrow> u8 list" where
  "vec_resize len xs = take len xs @ replicate (len - length xs) 0"

definition set_data :: "u8 list \<Rightarrow> path_node \<Rightarrow> path_node" where
  "set_data bytes n = n\<lparr>pn_data := bytes, pn_attr := attr_set_size (length bytes) (pn_attr n)\<rparr>"

definition node_set_len :: "host_files \<Rightarrow> nat \<Rightarrow> (path_node, unit, vfs_error) st" where
  "node_set_len host_file len n =
     (if pn_kind n \<noteq> NFile then (Err InvalidPath, n)
      else
        st_bind (materialize_deferred_content host_file) (\<lambda>_ n.
          if length (pn_data n) < len \<and> ISIZE_MAX < len then (Panic, n)
          else (Ok (), set_data (vec_resize len (pn_data n)) n)) n)"

definition node_truncate :: "host_files \<Rightarrow> (path_node, unit, vfs_error) st" where
  "node_truncate host_file = node_set_len host_file 0"

definition node_write_at :: "host_files \<Rightarrow> nat \<Rightarrow> u8 list \<Rightarrow> (path_node, nat, vfs_error) st" where
  "node_write_at host_file offset data n =
     (if pn_kind n \<noteq> NFile then (Err InvalidPath, n)
      else
        st_bind (materialize_deferred_content host_file) (\<lambda>_ n.
          let end = offset + length data in
          if U64_MAX_NAT < end then (Err InvalidPath, n)
          else if length (pn_data n) < end \<and> ISIZE_MAX < end then (Panic, n)
          else
            let grown = (if length (pn_data n) < end then vec_resize end (pn_data n) else pn_data n) in
            st_bind (st_lift (write_slice grown offset end data)) (\<lambda>bytes.
            st_bind (st_modify (set_data bytes)) (\<lambda>_.
            st_ok (length data))) n) n)"

section \<open>The tree\<close>

definition ROOT_INODE_ID :: nat where "ROOT_INODE_ID = 1"
definition PROC_INODE_ID :: nat where "PROC_INODE_ID = 2 ^ 60"
definition DEV_NULL_INODE_ID :: nat where "DEV_NULL_INODE_ID = 2 ^ 61"
definition SYMLINK_LIMIT :: nat where "SYMLINK_LIMIT = 40"

lemmas inode_const_defs = ROOT_INODE_ID_def PROC_INODE_ID_def DEV_NULL_INODE_ID_def

record path_tree =
  pt_nodes :: "(guest_path, nat) btree_map"
  pt_inodes :: "(nat, path_node) btree_map"
  pt_children :: "(guest_path, (string, nat) btree_map) btree_map"
  pt_next_inode_id :: nat

type_synonym 'a tree_op = "(path_tree, 'a, vfs_error) st"

definition tree_new :: path_tree where
  "tree_new =
     \<lparr>pt_nodes = bt_insert [] ROOT_INODE_ID bt_empty,
      pt_inodes = bt_insert ROOT_INODE_ID (node_directory ROOT_INODE_ID) bt_empty,
      pt_children = bt_empty, pt_next_inode_id = ROOT_INODE_ID + 1\<rparr>"

definition lookup_path :: "path_tree \<Rightarrow> guest_path \<Rightarrow> path_node option" where
  "lookup_path t p = Option.bind (bt_get (pt_nodes t) p) (bt_get (pt_inodes t))"

definition lookup_inode :: "path_tree \<Rightarrow> nat \<Rightarrow> path_node option" where
  "lookup_inode t i = bt_get (pt_inodes t) i"

definition modify_inode :: "nat \<Rightarrow> (path_node \<Rightarrow> path_node) \<Rightarrow> path_tree \<Rightarrow> path_tree" where
  "modify_inode i f t = t\<lparr>pt_inodes := bt_modify i f (pt_inodes t)\<rparr>"

definition first_path_for_inode :: "path_tree \<Rightarrow> nat \<Rightarrow> guest_path option" where
  "first_path_for_inode t i = map_option fst (List.find (\<lambda>(_, j). j = i) (bt_entries (pt_nodes t)))"

record directory_child =
  dc_name :: string
  dc_inode :: nat
  dc_file_type :: u8

definition children_of_path :: "path_tree \<Rightarrow> guest_path \<Rightarrow> (string \<times> nat) list" where
  "children_of_path t p = (case bt_get (pt_children t) p of None \<Rightarrow> [] | Some m \<Rightarrow> bt_entries m)"

definition static_children :: "path_tree \<Rightarrow> guest_path \<Rightarrow> directory_child list vfs_result" where
  "static_children t p =
     and_then (ok_or (lookup_path t p) NoEntry) (\<lambda>node.
     if \<not> node_is_directory node then Err NotDirectory
     else collect_results (\<lambda>(name, child_inode).
            and_then (ok_or (lookup_inode t child_inode) InvalidPath) (\<lambda>child.
            Ok \<lparr>dc_name = name, dc_inode = pn_inode_id child, dc_file_type = dirent_type (pn_attr child)\<rparr>))
            (children_of_path t p))"

record symlink_placeholder =
  sp_parent :: guest_path
  sp_target :: string

definition ends_with_slash :: "string \<Rightarrow> bool" where
  "ends_with_slash s \<longleftrightarrow> s \<noteq> [] \<and> last s = SLASH"

definition push_suffix :: "string \<Rightarrow> string list \<Rightarrow> string" where
  "push_suffix target suffix =
     fold (\<lambda>component rewritten.
       (if ends_with_slash rewritten then rewritten else rewritten @ [SLASH]) @ component) suffix target"

fun symlink_at :: "path_tree \<Rightarrow> guest_path \<Rightarrow> nat \<Rightarrow> symlink_placeholder option" where
  "symlink_at t p 0 = None"
| "symlink_at t p (Suc k) =
     (let ancestor = take (Suc k) p in
      (case lookup_path t ancestor of
         None \<Rightarrow> symlink_at t p k
       | Some node \<Rightarrow>
           (case pn_kind node of
              NSymlink target \<Rightarrow>
                Some \<lparr>sp_parent = butlast ancestor, sp_target = push_suffix target (drop (Suc k) p)\<rparr>
            | kind \<Rightarrow> if is_directory_kind kind then symlink_at t p k else None)))"

definition lookup_symlink_placeholder :: "path_tree \<Rightarrow> guest_path \<Rightarrow> symlink_placeholder option" where
  "lookup_symlink_placeholder t p = symlink_at t p (length p)"

definition ensure_parent_dir :: "path_tree \<Rightarrow> guest_path \<Rightarrow> unit vfs_result" where
  "ensure_parent_dir t p =
     (case gp_parent p of
        None \<Rightarrow> Err InvalidPath
      | Some parent \<Rightarrow>
          (case lookup_path t parent of
             Some node \<Rightarrow> if node_is_directory node then Ok () else Err NotDirectory
           | None \<Rightarrow> Err NoEntry))"

text \<open>\<open>next_inode_id += 1\<close> panics at the end of \<open>u64\<close>.\<close>

definition allocate_inode_id :: "nat tree_op" where
  "allocate_inode_id t =
     (if U64_MAX_NAT < pt_next_inode_id t + 1 then (Panic, t)
      else (Ok (pt_next_inode_id t), t\<lparr>pt_next_inode_id := pt_next_inode_id t + 1\<rparr>))"

definition index_child :: "guest_path \<Rightarrow> nat \<Rightarrow> path_tree \<Rightarrow> path_tree" where
  "index_child p i t =
     (if p = [] then t
      else
        let parent = butlast p;
            m = (case bt_get (pt_children t) parent of None \<Rightarrow> bt_empty | Some m \<Rightarrow> m)
        in t\<lparr>pt_children := bt_insert parent (bt_insert (last p) i m) (pt_children t)\<rparr>)"

definition unindex_child :: "guest_path \<Rightarrow> path_tree \<Rightarrow> path_tree" where
  "unindex_child p t =
     (if p = [] then t
      else
        (case bt_get (pt_children t) (butlast p) of
           None \<Rightarrow> t
         | Some m \<Rightarrow>
             let m' = bt_remove (last p) m in
             t\<lparr>pt_children := (if bt_entries m' = [] then bt_remove (butlast p) (pt_children t)
                                else bt_insert (butlast p) m' (pt_children t))\<rparr>))"

definition insert_path_node :: "guest_path \<Rightarrow> path_node \<Rightarrow> unit tree_op" where
  "insert_path_node p n t =
     (if bt_contains (pt_nodes t) p then (Err AlreadyExists, t)
      else (Ok (), index_child p (pn_inode_id n)
             (t\<lparr>pt_inodes := bt_insert (pn_inode_id n) n (pt_inodes t),
                pt_nodes := bt_insert p (pn_inode_id n) (pt_nodes t)\<rparr>)))"

definition insert_link :: "guest_path \<Rightarrow> nat \<Rightarrow> unit tree_op" where
  "insert_link p i t =
     (if bt_contains (pt_nodes t) p then (Err AlreadyExists, t)
      else if \<not> bt_contains (pt_inodes t) i then (Err NoEntry, t)
      else (Ok (), index_child p i (t\<lparr>pt_nodes := bt_insert p i (pt_nodes t)\<rparr>)))"

definition remove_path_link :: "guest_path \<Rightarrow> nat tree_op" where
  "remove_path_link p t =
     (case bt_get (pt_nodes t) p of
        None \<Rightarrow> (Err NoEntry, t)
      | Some i \<Rightarrow> (Ok i, unindex_child p (t\<lparr>pt_nodes := bt_remove p (pt_nodes t)\<rparr>)))"

definition replace_path_node :: "guest_path \<Rightarrow> path_node \<Rightarrow> path_tree \<Rightarrow> path_tree" where
  "replace_path_node p n t =
     (let inodes = (case bt_get (pt_nodes t) p of
                      None \<Rightarrow> pt_inodes t | Some existing \<Rightarrow> bt_remove existing (pt_inodes t));
          t = index_child p (pn_inode_id n)
                (t\<lparr>pt_nodes := bt_insert p (pn_inode_id n) (pt_nodes t), pt_inodes := inodes\<rparr>)
      in t\<lparr>pt_inodes := bt_insert (pn_inode_id n) n (pt_inodes t)\<rparr>)"

fun kind_attr :: "path_node_kind \<Rightarrow> nat \<Rightarrow> u32 \<Rightarrow> linux_file_attr" where
  "kind_attr NDirectory inode mode = attr_directory inode mode"
| "kind_attr NFile inode mode = attr_regular inode mode 0"
| "kind_attr (NDevice _) inode mode = attr_character_device inode mode"
| "kind_attr (NProc kind) inode mode = proc_attr kind inode mode"
| "kind_attr (NSymlink target) inode mode = attr_symlink inode (length target)"

definition insert_node :: "guest_path \<Rightarrow> path_node_kind \<Rightarrow> u32 \<Rightarrow> nat tree_op" where
  "insert_node p kind mode t =
     (if bt_contains (pt_nodes t) p then (Err AlreadyExists, t)
      else
        st_bind allocate_inode_id (\<lambda>i.
        st_bind (insert_path_node p (bare_node i kind (kind_attr kind i mode))) (\<lambda>_.
        st_ok i)) t)"

text \<open>The beginning that the \<open>create_*\<close> methods share.\<close>

definition at_new_path :: "string \<Rightarrow> (guest_path \<Rightarrow> 'a tree_op) \<Rightarrow> 'a tree_op" where
  "at_new_path path f =
     st_bind (st_lift (parse_absolute_path path)) (\<lambda>p t.
     st_bind (st_lift (ensure_parent_dir t p)) (\<lambda>_. f p) t)"

definition create_dir :: "string \<Rightarrow> nat tree_op" where
  "create_dir path = at_new_path path (\<lambda>p. insert_node p NDirectory 0x1ed)"

definition create_file :: "string \<Rightarrow> nat tree_op" where
  "create_file path = at_new_path path (\<lambda>p. insert_node p NFile 0x1a4)"

definition create_symlink :: "string \<Rightarrow> string \<Rightarrow> nat tree_op" where
  "create_symlink path target = at_new_path path (\<lambda>p. insert_node p (NSymlink target) 0x1ff)"

definition create_file_with_content :: "string \<Rightarrow> u8 list \<Rightarrow> u32 \<Rightarrow> nat tree_op" where
  "create_file_with_content path content mode =
     at_new_path path (\<lambda>p.
     st_bind allocate_inode_id (\<lambda>i.
     st_bind (insert_path_node p ((bare_node i NFile (attr_regular i mode (length content)))
                \<lparr>pn_data := content\<rparr>)) (\<lambda>_.
     st_ok i)))"

definition create_file_with_host_content :: "string \<Rightarrow> string \<Rightarrow> nat \<Rightarrow> u32 \<Rightarrow> nat tree_op" where
  "create_file_with_host_content path host_path sz mode =
     at_new_path path (\<lambda>p.
     st_bind allocate_inode_id (\<lambda>i.
     st_bind (insert_path_node p ((bare_node i NFile (attr_regular i mode sz))
                \<lparr>pn_deferred_host_path := Some host_path\<rparr>)) (\<lambda>_.
     st_ok i)))"

definition create_dir_if_missing :: "string \<Rightarrow> nat tree_op" where
  "create_dir_if_missing path =
     st_bind (st_lift (parse_absolute_path path)) (\<lambda>p t.
       (case lookup_path t p of
          Some node \<Rightarrow> if node_is_directory node then (Ok (pn_inode_id node), t) else (Err NotDirectory, t)
        | None \<Rightarrow> st_bind (st_lift (ensure_parent_dir t p)) (\<lambda>_. insert_node p NDirectory 0x1ed) t))"

definition insert_dev_node :: "string \<Rightarrow> nat \<Rightarrow> dev_node_kind \<Rightarrow> unit tree_op" where
  "insert_dev_node path inode kind =
     st_bind (st_lift (parse_absolute_path path)) (\<lambda>p t.
       (case lookup_path t p of
          Some node \<Rightarrow> if pn_kind node = NDevice kind then (Ok (), t) else (Err AlreadyExists, t)
        | None \<Rightarrow>
            st_bind (st_lift (ensure_parent_dir t p)) (\<lambda>_.
            insert_path_node p (bare_node inode (NDevice kind) (attr_character_device inode 0x1b6))) t))"

definition insert_proc_static_node :: "string \<Rightarrow> nat \<Rightarrow> proc_node_kind \<Rightarrow> u32 \<Rightarrow> unit tree_op" where
  "insert_proc_static_node path inode kind mode =
     st_bind (st_lift (parse_absolute_path path)) (\<lambda>p t.
       let n = bare_node inode (NProc kind) (proc_attr kind inode mode) in
       (case lookup_path t p of
          Some node \<Rightarrow>
            if pn_kind node = NProc kind then (Ok (), t)
            else if pn_kind node = NDirectory \<and> (kind = ProcDirectory \<or> kind = ProcFdDirectory)
            then (Ok (), replace_path_node p n t)
            else (Err AlreadyExists, t)
        | None \<Rightarrow>
            st_bind (if p = [] then st_ok () else st_lift (ensure_parent_dir t p)) (\<lambda>_.
            insert_path_node p n) t))"

definition mount_minimal_devfs :: "unit tree_op" where
  "mount_minimal_devfs =
     st_bind (create_dir_if_missing ''/dev'') (\<lambda>_.
     st_bind (insert_dev_node ''/dev/null'' DEV_NULL_INODE_ID DevNull) (\<lambda>_.
     st_bind (insert_dev_node ''/dev/zero'' (DEV_NULL_INODE_ID + 1) DevZero) (\<lambda>_.
     insert_dev_node ''/dev/urandom'' (DEV_NULL_INODE_ID + 2) DevUrandom)))"

definition mount_minimal_procfs :: "unit tree_op" where
  "mount_minimal_procfs =
     st_bind (insert_proc_static_node ''/proc'' PROC_INODE_ID ProcDirectory 0x16d) (\<lambda>_.
     st_bind (insert_proc_static_node ''/proc/self'' (PROC_INODE_ID + 1) ProcDirectory 0x16d) (\<lambda>_.
     st_bind (insert_proc_static_node ''/proc/self/exe'' (PROC_INODE_ID + 2) ProcExe 0x1ff) (\<lambda>_.
     st_bind (insert_proc_static_node ''/proc/self/cmdline'' (PROC_INODE_ID + 3) ProcCmdline 0x124) (\<lambda>_.
     st_bind (insert_proc_static_node ''/proc/self/environ'' (PROC_INODE_ID + 4) ProcEnviron 0x100) (\<lambda>_.
     insert_proc_static_node ''/proc/self/fd'' (PROC_INODE_ID + 5) ProcFdDirectory 0x16d)))))"

definition is_empty_directory :: "path_tree \<Rightarrow> guest_path \<Rightarrow> bool" where
  "is_empty_directory t p \<longleftrightarrow> children_of_path t p = []"

definition paths_under_prefix :: "path_tree \<Rightarrow> guest_path \<Rightarrow> guest_path list" where
  "paths_under_prefix t pre = filter (\<lambda>p. gp_starts_with p pre) (bt_keys (pt_nodes t))"

definition tree_link_count :: "path_tree \<Rightarrow> nat \<Rightarrow> nat" where
  "tree_link_count t i = length (filter (\<lambda>j. j = i) (bt_values (pt_nodes t)))"

definition replace_prefix :: "guest_path \<Rightarrow> guest_path \<Rightarrow> guest_path \<Rightarrow> guest_path" where
  "replace_prefix p old_prefix new_prefix = new_prefix @ drop (length old_prefix) p"

end
