(* ===== verification/Vfs_Resolve.thy ===== *)
theory Vfs_Resolve
  imports Vfs_Path
begin

text \<open>
  Path resolution (\<open>Rootfs\<close> and \<open>PathResolver\<close> of \<open>mcr-vfs/src/path.rs\<close>): components are taken from
  a work list, symbolic links push their target onto it, and at most \<open>SYMLINK_LIMIT\<close> links are followed.
  The walk is a total function: it terminates on every tree, also on one with cyclic links.
\<close>

section \<open>Definitions\<close>

record rootfs =
  rf_host_root :: string
  rf_root :: guest_path
  rf_cwd :: guest_path

definition rootfs_new :: "string \<Rightarrow> rootfs" where
  "rootfs_new host_root = \<lparr>rf_host_root = host_root, rf_root = [], rf_cwd = []\<rparr>"

definition with_guest_root :: "string \<Rightarrow> guest_path \<Rightarrow> rootfs" where
  "with_guest_root host_root root = \<lparr>rf_host_root = host_root, rf_root = root, rf_cwd = root\<rparr>"

definition set_cwd :: "guest_path \<Rightarrow> (rootfs, unit, vfs_error) st" where
  "set_cwd cwd fs = (if gp_starts_with cwd (rf_root fs) then (Ok (), fs\<lparr>rf_cwd := cwd\<rparr>) else (Err NoEntry, fs))"

definition visible_path :: "rootfs \<Rightarrow> guest_path \<Rightarrow> string vfs_result" where
  "visible_path fs p =
     (if \<not> gp_starts_with p (rf_root fs) then Err NoEntry
      else
        let suffix = drop (length (rf_root fs)) p in
        if suffix = [] then Ok [SLASH] else Ok (SLASH # join_components suffix))"

definition enforce_jail :: "rootfs \<Rightarrow> guest_path \<Rightarrow> unit vfs_result" where
  "enforce_jail fs p = ensure (gp_starts_with p (rf_root fs)) NoEntry"

definition allow_missing_leaf :: "rootfs \<Rightarrow> guest_path \<Rightarrow> string list \<Rightarrow> bool" where
  "allow_missing_leaf fs current pending \<longleftrightarrow> gp_starts_with current (rf_root fs) \<and> pending = []"

text \<open>\<open>walk\<close>: the pending components are in the order in which they are taken.\<close>

function walk ::
  "rootfs \<Rightarrow> path_tree \<Rightarrow> bool \<Rightarrow> guest_path \<Rightarrow> string list \<Rightarrow> nat \<Rightarrow> guest_path vfs_result" where
  "walk fs t follow current [] symlink_count = Ok current"
| "walk fs t follow current (component # pending) symlink_count =
     (if component = [] \<or> component = ''.'' then
        and_then (enforce_jail fs current) (\<lambda>_. walk fs t follow current pending symlink_count)
      else if component = ''..'' then
        let current = (if length current > length (rf_root fs) then butlast current else current) in
        and_then (enforce_jail fs current) (\<lambda>_. walk fs t follow current pending symlink_count)
      else
        let next_path = current @ [component] in
        and_then (enforce_jail fs next_path) (\<lambda>_.
        (case lookup_symlink_placeholder t next_path of
           Some link \<Rightarrow>
             if \<not> follow \<and> pending = [] then walk fs t follow next_path pending symlink_count
             else if symlink_count + 1 > SYMLINK_LIMIT then Err Loop
             else
               let current = (if starts_with_slash (sp_target link) then rf_root fs else sp_parent link) in
               and_then (split_guest_components (sp_target link)) (\<lambda>components.
               and_then (enforce_jail fs current) (\<lambda>_.
               walk fs t follow current (components @ pending) (symlink_count + 1)))
         | None \<Rightarrow>
             (case lookup_path t next_path of
                Some node \<Rightarrow>
                  if \<not> node_is_directory node \<and> pending \<noteq> [] then Err NotDirectory
                  else walk fs t follow next_path pending symlink_count
              | None \<Rightarrow>
                  if allow_missing_leaf fs next_path pending then Ok next_path else Err NoEntry))))"
  by pat_completeness auto
termination
  by (relation "measures [\<lambda>(fs, t, follow, current, pending, symlink_count). SYMLINK_LIMIT - symlink_count,
      \<lambda>(fs, t, follow, current, pending, symlink_count). length pending]") auto

declare walk.simps(2) [simp del]

definition resolve :: "rootfs \<Rightarrow> path_tree \<Rightarrow> bool \<Rightarrow> string \<Rightarrow> guest_path vfs_result" where
  "resolve fs t follow path =
     (if path = [] \<or> has_nul path then Err InvalidPath
      else
        let base = (if starts_with_slash path then rf_root fs else rf_cwd fs) in
        and_then (split_guest_components path) (\<lambda>components.
        walk fs t follow base components 0))"

record resolved_path =
  rp_guest_path :: guest_path
  rp_inode :: "nat option"

definition resolve_path_with_options :: "rootfs \<Rightarrow> string \<Rightarrow> path_tree \<Rightarrow> bool \<Rightarrow> resolved_path vfs_result" where
  "resolve_path_with_options fs path t follow =
     and_then (resolve fs t follow path) (\<lambda>resolved.
     Ok \<lparr>rp_guest_path = resolved, rp_inode = map_option pn_inode_id (lookup_path t resolved)\<rparr>)"

definition resolve_path :: "rootfs \<Rightarrow> string \<Rightarrow> path_tree \<Rightarrow> resolved_path vfs_result" where
  "resolve_path fs path t = resolve_path_with_options fs path t True"

section \<open>Splitting\<close>

lemma split_slash_not_Nil [simp]: "split_slash s \<noteq> []"
  by (induction s) (auto split: list.splits)

lemma split_slash_no_slash: "part \<in> set (split_slash s) \<Longrightarrow> SLASH \<notin> set part \<and> set part \<subseteq> set s"
  by (induction s arbitrary: part) (fastforce split: list.splits if_splits)+

text \<open>A name as it can appear between slashes.\<close>

definition component_ok :: "string \<Rightarrow> bool" where
  "component_ok c \<longleftrightarrow> c \<noteq> [] \<and> length c \<le> 255 \<and> SLASH \<notin> set c \<and> CHR 0x00 \<notin> set c"

lemma split_guest_components_Ok:
  assumes "split_guest_components path = Ok cs"
  shows "cs = filter (\<lambda>part. part \<noteq> []) (split_slash path)" "\<forall>c \<in> set cs. component_ok c"
proof -
  let ?parts = "filter (\<lambda>part. part \<noteq> []) (split_slash path)"
  have nul: "CHR 0x00 \<notin> set path" and r: "list_all2 (\<lambda>x y. (if length x > 255 then Err NameTooLong else Ok x) = (Ok y :: string vfs_result)) ?parts cs"
    using assms by (auto simp: split_guest_components_def has_nul_def collect_results_Ok split: if_splits)
  have "list_all2 (\<lambda>x y. x = y \<and> length x \<le> 255) ?parts cs"
    using r by (rule list_all2_mono) (auto split: if_splits)
  then have e: "cs = ?parts" and l: "\<forall>c \<in> set cs. length c \<le> 255"
    by (auto simp: list_all2_conv_all_nth in_set_conv_nth intro!: nth_equalityI) (metis)
  show "cs = ?parts" by (rule e)
  show "\<forall>c \<in> set cs. component_ok c"
    using l nul split_slash_no_slash [of _ path] unfolding component_ok_def e by auto
qed

lemma split_guest_components_not_Panic [simp]: "split_guest_components path \<noteq> Panic"
  by (auto simp: split_guest_components_def intro!: collect_results_not_Panic split: if_splits)

section \<open>Invariants of the walk\<close>

lemma gp_starts_with_iff: "gp_starts_with p q \<longleftrightarrow> (\<exists>r. p = q @ r)"
  by (auto simp: gp_starts_with_def) (metis append_take_drop_id)

lemma gp_starts_with_refl [simp]: "gp_starts_with p p" and gp_starts_with_Nil [simp]: "gp_starts_with p []"
  by (simp_all add: gp_starts_with_def)

lemma enforce_jail_Ok [result_simps]: "enforce_jail fs p = Ok u \<longleftrightarrow> gp_starts_with p (rf_root fs)"
  by (simp add: enforce_jail_def result_simps)

lemma enforce_jail_not_Panic [simp]: "enforce_jail fs p \<noteq> Panic"
  by (simp add: enforce_jail_def)

text \<open>A predicate on paths that holds initially and is kept by taking a parent, by adding a component of the
  path or of a link, and by restarting at the root or at a link holds for the result.\<close>

definition walk_closed :: "rootfs \<Rightarrow> path_tree \<Rightarrow> (guest_path \<Rightarrow> bool) \<Rightarrow> (string \<Rightarrow> bool) \<Rightarrow> bool" where
  "walk_closed fs t P C \<longleftrightarrow> P (rf_root fs)
   \<and> (\<forall>q. P q \<longrightarrow> length (rf_root fs) < length q \<longrightarrow> P (butlast q))
   \<and> (\<forall>q c. P q \<longrightarrow> C c \<longrightarrow> c \<noteq> [] \<longrightarrow> c \<noteq> ''.'' \<longrightarrow> c \<noteq> ''..'' \<longrightarrow> gp_starts_with (q @ [c]) (rf_root fs) \<longrightarrow> P (q @ [c]))
   \<and> (\<forall>q c l. P (q @ [c]) \<longrightarrow> lookup_symlink_placeholder t (q @ [c]) = Some l \<longrightarrow>
        gp_starts_with (sp_parent l) (rf_root fs) \<longrightarrow> P (sp_parent l))
   \<and> (\<forall>s cs. split_guest_components s = Ok cs \<longrightarrow> (\<forall>c \<in> set cs. C c))"

lemma walk_closed_result:
  assumes "walk fs t follow current pending n = Ok p" "walk_closed fs t P C" "P current" "\<forall>c \<in> set pending. C c"
  shows "P p"
  using assms
proof (induction fs t follow current pending n rule: walk.induct)
  case (2 fs t follow current component pending n)
  have up: "P (if length (rf_root fs) < length current then butlast current else current)"
    using 2(7,8) unfolding walk_closed_def by simp
  let ?next = "current @ [component]"
  consider (dot) "component = [] \<or> component = ''.''" | (dotdot) "component = ''..''"
    | (name) "component \<noteq> []" "component \<noteq> ''.''" "component \<noteq> ''..''" by blast
  then show ?case
  proof cases
    case dot
    then show ?thesis using 2(1,6-9) by (auto simp: walk.simps(2) result_simps)
  next
    case dotdot
    then show ?thesis using 2(2,6-9) up by (auto simp: walk.simps(2) result_simps Let_def)
  next
    case name
    have j: "gp_starts_with ?next (rf_root fs)" using 2(6) name by (auto simp: walk.simps(2) result_simps Let_def)
    have P: "P ?next" using 2(7-9) name j unfolding walk_closed_def by auto
    show ?thesis
    proof (cases "lookup_symlink_placeholder t ?next")
      case None
      then show ?thesis
        using 2(3) [OF _ _ refl None] 2(6-9) name j P
        by (auto simp: walk.simps(2) result_simps Let_def split: option.splits if_splits)
    next
      case (Some l)
      show ?thesis
      proof (cases "\<not> follow \<and> pending = []")
        case True
        then show ?thesis using 2(6) name Some P by (auto simp: walk.simps result_simps Let_def)
      next
        case False
        let ?cur = "if starts_with_slash (sp_target l) then rf_root fs else sp_parent l"
        obtain cs where cs: "split_guest_components (sp_target l) = Ok cs" "gp_starts_with ?cur (rf_root fs)"
            "n + 1 \<le> SYMLINK_LIMIT" "walk fs t follow ?cur (cs @ pending) (n + 1) = Ok p"
          using 2(6) name Some False by (auto simp: walk.simps(2) result_simps Let_def split: if_splits)
        have "P ?cur" using 2(7) P Some cs(2) unfolding walk_closed_def by auto
        moreover have "\<forall>c \<in> set (cs @ pending). C c" using 2(7,9) cs(1) unfolding walk_closed_def by auto
        moreover note 2(5) [OF _ _ refl Some False _ refl, of cs]
        ultimately show ?thesis using name cs 2(7) by auto
      qed
    qed
  qed
qed simp


lemma walk_not_Panic: "walk fs t follow current pending n \<noteq> Panic"
proof (induction fs t follow current pending n rule: walk.induct)
  case (2 fs t follow current component pending n)
  show ?case
  proof (cases "component = [] \<or> component = ''.'' \<or> component = ''..''")
    case True
    then show ?thesis using 2(1,2) by (auto simp: walk.simps(2) result_simps Let_def)
  next
    case name: False
    show ?thesis
    proof (cases "lookup_symlink_placeholder t (current @ [component])")
      case None
      then show ?thesis
        using 2(3) [OF _ _ refl None] name
        by (cases "lookup_path t (current @ [component])") (auto simp: walk.simps(2) result_simps Let_def)
    next
      case (Some l)
      let ?cur = "if starts_with_slash (sp_target l) then rf_root fs else sp_parent l"
      have IH: "walk fs t follow ?cur (cs @ pending) (n + 1) \<noteq> Panic"
        if "split_guest_components (sp_target l) = Ok cs" "\<not> (\<not> follow \<and> pending = [])" "\<not> SYMLINK_LIMIT < n + 1" for cs
        using 2(5) [OF _ _ refl Some that(2,3) refl, of cs] name by auto
      show ?thesis
      proof (cases "\<not> follow \<and> pending = []")
        case True
        then show ?thesis using name Some by (auto simp: walk.simps result_simps Let_def)
      next
        case False
        then show ?thesis using IH name Some by (auto simp: walk.simps(2) result_simps Let_def split: if_splits)
      qed
    qed
  qed
qed simp

section \<open>Properties of resolution\<close>

lemma symlink_at_parent:
  assumes "symlink_at t p k = Some l" "k \<le> length p"
  shows "\<exists>j < k. sp_parent l = take j p"
  using assms
proof (induction k)
  case (Suc k)
  show ?case
  proof (cases "\<exists>node target. lookup_path t (take (Suc k) p) = Some node \<and> pn_kind node = NSymlink target")
    case True
    then have "sp_parent l = butlast (take (Suc k) p)" using Suc.prems(1) by (auto simp: Let_def)
    then show ?thesis using Suc.prems(2) by (intro exI [of _ k]) (simp add: butlast_take)
  next
    case False
    then have "symlink_at t p k = Some l"
      using Suc.prems(1) by (auto simp: Let_def split: option.splits path_node_kind.splits if_splits)
    then show ?thesis using Suc.IH Suc.prems(2) by (meson Suc_leD less_SucI)
  qed
qed simp

lemma placeholder_parent: "lookup_symlink_placeholder t p = Some l \<Longrightarrow> \<exists>j < length p. sp_parent l = take j p"
  unfolding lookup_symlink_placeholder_def by (rule symlink_at_parent) auto

text \<open>A path in normal form.\<close>

definition path_ok :: "guest_path \<Rightarrow> bool" where
  "path_ok p \<longleftrightarrow> (\<forall>c \<in> set p. component_ok c \<and> c \<noteq> ''.'' \<and> c \<noteq> ''..'')"

lemma path_ok_take: "path_ok p \<Longrightarrow> path_ok (take n p)" and path_ok_butlast: "path_ok p \<Longrightarrow> path_ok (butlast p)"
  by (auto simp: path_ok_def dest: in_set_takeD in_set_butlastD)

lemma gp_starts_with_butlast: "gp_starts_with q r \<Longrightarrow> length r < length q \<Longrightarrow> gp_starts_with (butlast q) r"
  by (auto simp: gp_starts_with_def take_butlast)

lemma walk_contained:
  assumes w: "walk fs t follow current pending n = Ok p" and "gp_starts_with current (rf_root fs) \<or> pending \<noteq> []"
  shows "gp_starts_with p (rf_root fs)"
proof -
  have closed: "walk_closed fs t (\<lambda>p. gp_starts_with p (rf_root fs)) (\<lambda>_. True)"
    by (auto simp: walk_closed_def gp_starts_with_butlast)
  note rest = walk_closed_result [OF _ closed, simplified]
  show ?thesis
  proof (cases pending)
    case Nil
    then show ?thesis using assms by simp
  next
    case (Cons c cs)
    then show ?thesis
      using w by (auto simp: walk.simps(2) result_simps Let_def intro: rest split: if_splits option.splits)
  qed
qed

text \<open>C7. Containment: whatever the tree holds, whatever the path and its symbolic links say, a path that
  resolution returns lies below the root of the guest; no sequence of \<open>..\<close> components and no link leaves it.
  This does not even depend on the working directory being inside.\<close>

theorem resolve_contained:
  assumes "resolve fs t follow path = Ok p"
  shows "gp_starts_with p (rf_root fs)"
proof -
  let ?base = "if starts_with_slash path then rf_root fs else rf_cwd fs"
  obtain cs where cs: "split_guest_components path = Ok cs" "walk fs t follow ?base cs 0 = Ok p" and ne: "path \<noteq> []"
    using assms by (auto simp: resolve_def result_simps Let_def split: if_splits)
  show ?thesis
  proof (cases "starts_with_slash path")
    case True
    then show ?thesis using walk_contained [OF cs(2)] by simp
  next
    case False
    have "cs \<noteq> []"
    proof -
      obtain c rest where "path = c # rest" "c \<noteq> SLASH" using ne False by (cases path) (auto simp: starts_with_slash_def)
      then obtain part parts where "split_slash path = (c # part) # parts" by (cases "split_slash rest") auto
      then show ?thesis using split_guest_components_Ok(1) [OF cs(1)] by auto
    qed
    then show ?thesis using walk_contained [OF cs(2)] by simp
  qed
qed


text \<open>A guest tree with a link that points above its root.\<close>

definition demo_tree :: path_tree where
  "demo_tree =
     \<lparr>pt_nodes = bt_insert [''jail'', ''esc''] 3 (bt_insert [''jail''] 2 (bt_insert [] 1 bt_empty)),
      pt_inodes = bt_insert 3 (bare_node 3 (NSymlink ''../../etc'') (attr_symlink 3 9))
        (bt_insert 2 (node_directory 2) (bt_insert 1 (node_directory 1) bt_empty)),
      pt_children = bt_insert [''jail''] (bt_insert ''esc'' 3 bt_empty) (bt_insert [] (bt_insert ''jail'' 2 bt_empty) bt_empty),
      pt_next_inode_id = 4\<rparr>"

lemma demo_lookup [simp]:
  "lookup_path demo_tree p =
     (if p = [''jail'', ''esc''] then Some (bare_node 3 (NSymlink ''../../etc'') (attr_symlink 3 9))
      else if p = [''jail''] then Some (node_directory 2) else if p = [] then Some (node_directory 1) else None)"
  by (simp add: lookup_path_def demo_tree_def bt_get_insert)

lemma kind_simps [simp]:
  "pn_kind (bare_node i k a) = k" "pn_kind (node_directory i) = NDirectory" "pn_inode_id (bare_node i k a) = i"
  "pn_inode_id (node_directory i) = i" "pn_attr (bare_node i k a) = a" "node_is_directory (node_directory i)"
  "node_is_directory (bare_node i k a) = is_directory_kind k"
  by (simp_all add: bare_node_def node_directory_def node_is_directory_def)

theorem resolve_contained_witness:
  "resolve (with_guest_root [] [''jail'']) demo_tree True ''esc'' = Ok [''jail'', ''etc'']
   \<and> gp_starts_with [''jail'', ''etc''] [''jail'']"
proof -
  have "resolve (with_guest_root [] [''jail'']) demo_tree True ''esc'' = Ok [''jail'', ''etc'']"
    by (simp add: resolve_def has_nul_def starts_with_slash_def with_guest_root_def split_guest_components_def SLASH_def
        walk.simps(2) Let_def enforce_jail_def gp_starts_with_def lookup_symlink_placeholder_def push_suffix_def
        SYMLINK_LIMIT_def allow_missing_leaf_def)
  then show ?thesis using resolve_contained [of "with_guest_root [] [''jail'']" demo_tree True "''esc''"]
    by (simp add: with_guest_root_def)
qed

text \<open>C1. Resolution returns paths in normal form: with a normal root and working directory, no component of the
  result is empty, too long, \<open>.\<close>, \<open>..\<close>, or contains a slash or NUL byte.\<close>

theorem resolve_normal:
  assumes "resolve fs t follow path = Ok p" "path_ok (rf_root fs)" "path_ok (rf_cwd fs)"
  shows "path_ok p"
proof -
  let ?base = "if starts_with_slash path then rf_root fs else rf_cwd fs"
  obtain cs where cs: "split_guest_components path = Ok cs" "walk fs t follow ?base cs 0 = Ok p"
    using assms(1) by (auto simp: resolve_def result_simps Let_def split: if_splits)
  have "walk_closed fs t path_ok component_ok"
    unfolding walk_closed_def
  proof (intro conjI allI impI)
    show "path_ok (rf_root fs)" by (rule assms(2))
    show "path_ok (butlast q)" if "path_ok q" for q by (rule path_ok_butlast [OF that])
    show "path_ok (q @ [c])" if "path_ok q" "component_ok c" "c \<noteq> ''.''" "c \<noteq> ''..''" for q c
      using that by (simp add: path_ok_def)
    show "\<forall>c \<in> set cs. component_ok c" if "split_guest_components s = Ok cs" for s cs
      by (rule split_guest_components_Ok(2) [OF that])
    fix q c l assume "path_ok (q @ [c])" "lookup_symlink_placeholder t (q @ [c]) = Some l"
    then show "path_ok (sp_parent l)" using placeholder_parent path_ok_take by metis
  qed
  then show ?thesis
    by (rule walk_closed_result [OF cs(2)]) (use assms(2,3) split_guest_components_Ok(2) [OF cs(1)] in simp_all)
qed

theorem resolve_normal_witness:
  "path_ok [''jail'', ''etc'']"
proof -
  have r: "path_ok [''jail'']" by (simp add: path_ok_def component_ok_def SLASH_def)
  have "resolve (with_guest_root [] [''jail'']) demo_tree True ''./esc'' = Ok [''jail'', ''etc'']"
    by (simp add: resolve_def has_nul_def starts_with_slash_def with_guest_root_def split_guest_components_def SLASH_def
        walk.simps(2) Let_def enforce_jail_def gp_starts_with_def lookup_symlink_placeholder_def push_suffix_def
        SYMLINK_LIMIT_def allow_missing_leaf_def)
  then show ?thesis using resolve_normal r by (fastforce simp: with_guest_root_def)
qed


text \<open>Normalisation of a path by its components alone.\<close>

fun lexical :: "guest_path \<Rightarrow> guest_path \<Rightarrow> string list \<Rightarrow> guest_path" where
  "lexical root current [] = current"
| "lexical root current (c # cs) =
     (if c = [] \<or> c = ''.'' then lexical root current cs
      else if c = ''..'' then lexical root (if length root < length current then butlast current else current) cs
      else lexical root (current @ [c]) cs)"

definition no_symlinks :: "path_tree \<Rightarrow> bool" where
  "no_symlinks t \<longleftrightarrow> (\<forall>p node target. lookup_path t p = Some node \<longrightarrow> pn_kind node \<noteq> NSymlink target)"

lemma no_symlinks_placeholder:
  assumes "no_symlinks t"
  shows "lookup_symlink_placeholder t p = None"
proof -
  have "symlink_at t p k = None" for k
    by (induction k) (use assms in \<open>auto simp: no_symlinks_def Let_def split: option.splits path_node_kind.splits\<close>)
  then show ?thesis by (simp add: lookup_symlink_placeholder_def)
qed

lemma walk_lexical:
  assumes "no_symlinks t" "walk fs t follow current pending n = Ok p"
  shows "p = lexical (rf_root fs) current pending"
  using assms(2)
proof (induction pending arbitrary: current)
  case (Cons c pending)
  then show ?case
    by (auto simp: walk.simps(2) result_simps Let_def no_symlinks_placeholder [OF assms(1)] allow_missing_leaf_def
        split: if_splits option.splits)
qed simp

text \<open>C1. On a tree without symbolic links resolution is lexical: the result is the normalisation of the
  components, with \<open>..\<close> stopping at the guest root, whatever the other contents of the tree.\<close>

theorem resolve_is_lexical:
  assumes "no_symlinks t" "resolve fs t follow path = Ok p"
  shows "p = lexical (rf_root fs) (if starts_with_slash path then rf_root fs else rf_cwd fs) (filter (\<lambda>c. c \<noteq> []) (split_slash path))"
  using assms(2) walk_lexical [OF assms(1)] split_guest_components_Ok(1) [of path]
  by (auto simp: resolve_def result_simps Let_def split: if_splits)

definition plain_tree :: path_tree where
  "plain_tree =
     \<lparr>pt_nodes = bt_insert [''etc''] 2 (bt_insert [] 1 bt_empty),
      pt_inodes = bt_insert 2 (node_directory 2) (bt_insert 1 (node_directory 1) bt_empty),
      pt_children = bt_insert [] (bt_insert ''etc'' 2 bt_empty) bt_empty, pt_next_inode_id = 3\<rparr>"

lemma plain_lookup: "lookup_path plain_tree p = (if p = [''etc''] then Some (node_directory 2) else if p = [] then Some (node_directory 1) else None)"
  by (simp add: lookup_path_def plain_tree_def bt_get_insert)

theorem resolve_is_lexical_witness:
  "no_symlinks plain_tree \<and> resolve (rootfs_new []) plain_tree True ''/..//etc/.'' = Ok [''etc'']
   \<and> [''etc''] = lexical [] [] [''..'', ''etc'', ''.'']"
proof -
  have n: "no_symlinks plain_tree" by (simp add: no_symlinks_def plain_lookup)
  have r: "resolve (rootfs_new []) plain_tree True ''/..//etc/.'' = Ok [''etc'']"
    by code_simp
  show ?thesis
    using n r resolve_is_lexical [OF n r, symmetric] by (simp add: rootfs_new_def starts_with_slash_def SLASH_def)
qed

text \<open>A walk without a limit on links, which counts the links it follows.  A walk that goes on forever has no
  derivation.\<close>

definition is_dots :: "string \<Rightarrow> bool" where
  "is_dots c \<longleftrightarrow> c = [] \<or> c = ''.'' \<or> c = ''..''"

definition next_place :: "rootfs \<Rightarrow> guest_path \<Rightarrow> string \<Rightarrow> guest_path" where
  "next_place fs current c =
     (if c = ''..'' then if length (rf_root fs) < length current then butlast current else current
      else if is_dots c then current else current @ [c])"

definition inside :: "rootfs \<Rightarrow> guest_path \<Rightarrow> bool" where
  "inside fs p \<longleftrightarrow> gp_starts_with p (rf_root fs)"

definition link_base :: "rootfs \<Rightarrow> symlink_placeholder \<Rightarrow> guest_path" where
  "link_base fs l = (if starts_with_slash (sp_target l) then rf_root fs else sp_parent l)"

inductive link_walk ::
  "rootfs \<Rightarrow> path_tree \<Rightarrow> bool \<Rightarrow> guest_path \<Rightarrow> string list \<Rightarrow> nat \<Rightarrow> guest_path vfs_result \<Rightarrow> bool" for fs t follow where
  arrived: "link_walk fs t follow p [] 0 (Ok p)"
| outside: "\<not> inside fs (next_place fs p c) \<Longrightarrow> link_walk fs t follow p (c # cs) 0 (Err NoEntry)"
| dots: "inside fs (next_place fs p c) \<Longrightarrow> is_dots c \<Longrightarrow> link_walk fs t follow (next_place fs p c) cs n r \<Longrightarrow>
    link_walk fs t follow p (c # cs) n r"
| the_link: "inside fs (p @ [c]) \<Longrightarrow> \<not> is_dots c \<Longrightarrow> lookup_symlink_placeholder t (p @ [c]) = Some l \<Longrightarrow> \<not> follow \<Longrightarrow>
    link_walk fs t follow p [c] 0 (Ok (p @ [c]))"
| bad_link: "inside fs (p @ [c]) \<Longrightarrow> \<not> is_dots c \<Longrightarrow> lookup_symlink_placeholder t (p @ [c]) = Some l \<Longrightarrow> follow \<or> cs \<noteq> [] \<Longrightarrow>
    split_guest_components (sp_target l) = Err e \<Longrightarrow> link_walk fs t follow p (c # cs) 1 (Err e)"
| link_outside: "inside fs (p @ [c]) \<Longrightarrow> \<not> is_dots c \<Longrightarrow> lookup_symlink_placeholder t (p @ [c]) = Some l \<Longrightarrow> follow \<or> cs \<noteq> [] \<Longrightarrow>
    split_guest_components (sp_target l) = Ok ds \<Longrightarrow> \<not> inside fs (link_base fs l) \<Longrightarrow>
    link_walk fs t follow p (c # cs) 1 (Err NoEntry)"
| link: "inside fs (p @ [c]) \<Longrightarrow> \<not> is_dots c \<Longrightarrow> lookup_symlink_placeholder t (p @ [c]) = Some l \<Longrightarrow> follow \<or> cs \<noteq> [] \<Longrightarrow>
    split_guest_components (sp_target l) = Ok ds \<Longrightarrow> inside fs (link_base fs l) \<Longrightarrow>
    link_walk fs t follow (link_base fs l) (ds @ cs) n r \<Longrightarrow> link_walk fs t follow p (c # cs) (Suc n) r"
| node: "inside fs (p @ [c]) \<Longrightarrow> \<not> is_dots c \<Longrightarrow> lookup_symlink_placeholder t (p @ [c]) = None \<Longrightarrow>
    lookup_path t (p @ [c]) = Some nd \<Longrightarrow> node_is_directory nd \<or> cs = [] \<Longrightarrow>
    link_walk fs t follow (p @ [c]) cs n r \<Longrightarrow> link_walk fs t follow p (c # cs) n r"
| plain_file: "inside fs (p @ [c]) \<Longrightarrow> \<not> is_dots c \<Longrightarrow> lookup_symlink_placeholder t (p @ [c]) = None \<Longrightarrow>
    lookup_path t (p @ [c]) = Some nd \<Longrightarrow> \<not> node_is_directory nd \<Longrightarrow> cs \<noteq> [] \<Longrightarrow>
    link_walk fs t follow p (c # cs) 0 (Err NotDirectory)"
| new_leaf: "inside fs (p @ [c]) \<Longrightarrow> \<not> is_dots c \<Longrightarrow> lookup_symlink_placeholder t (p @ [c]) = None \<Longrightarrow>
    lookup_path t (p @ [c]) = None \<Longrightarrow> link_walk fs t follow p [c] 0 (Ok (p @ [c]))"
| missing: "inside fs (p @ [c]) \<Longrightarrow> \<not> is_dots c \<Longrightarrow> lookup_symlink_placeholder t (p @ [c]) = None \<Longrightarrow>
    lookup_path t (p @ [c]) = None \<Longrightarrow> cs \<noteq> [] \<Longrightarrow> link_walk fs t follow p (c # cs) 0 (Err NoEntry)"

text \<open>One step of the walk, in the words of the rules.\<close>

lemma walk_step:
  "walk fs t follow p (c # cs) k =
     (if \<not> inside fs (next_place fs p c) then Err NoEntry
      else if is_dots c then walk fs t follow (next_place fs p c) cs k
      else (case lookup_symlink_placeholder t (p @ [c]) of
          Some l \<Rightarrow>
            if \<not> follow \<and> cs = [] then Ok (p @ [c])
            else if SYMLINK_LIMIT \<le> k then Err Loop
            else and_then (split_guest_components (sp_target l)) (\<lambda>ds.
              if inside fs (link_base fs l) then walk fs t follow (link_base fs l) (ds @ cs) (Suc k) else Err NoEntry)
        | None \<Rightarrow>
            (case lookup_path t (p @ [c]) of
               Some nd \<Rightarrow> if node_is_directory nd \<or> cs = [] then walk fs t follow (p @ [c]) cs k else Err NotDirectory
             | None \<Rightarrow> if cs = [] then Ok (p @ [c]) else Err NoEntry)))"
  by (auto simp: walk.simps(2) [of _ _ _ _ c cs] inside_def next_place_def is_dots_def link_base_def Let_def enforce_jail_def
      allow_missing_leaf_def ensure_def less_Suc_eq_le split: option.splits cong: if_cong)

lemma collect_results_Err: "collect_results f xs = Err e \<Longrightarrow> \<exists>x \<in> set xs. f x = Err e"
proof (induction xs)
  case (Cons x xs)
  then show ?case by (cases "f x"; cases "collect_results f xs") auto
qed simp

lemma split_guest_components_not_Loop [simp]: "split_guest_components s \<noteq> Err Loop"
  by (auto simp: split_guest_components_def dest!: collect_results_Err split: if_splits)

lemma next_name [simp]: "\<not> is_dots c \<Longrightarrow> next_place fs p c = p @ [c]"
  by (auto simp: next_place_def is_dots_def)

lemma link_walk_within:
  assumes "link_walk fs t follow p cs n r"
  shows "n + k \<le> SYMLINK_LIMIT \<Longrightarrow> walk fs t follow p cs k = r"
  using assms
proof (induction arbitrary: k)
  case (link p c l cs ds n r)
  have "walk fs t follow (link_base fs l) (ds @ cs) (Suc k) = r" by (rule link.IH) (use link.prems in simp)
  then show ?case using link by (auto simp: walk_step)
qed (auto simp: walk_step)

lemma link_walk_not_Loop: "link_walk fs t follow p cs n r \<Longrightarrow> r \<noteq> Err Loop"
  by (induction rule: link_walk.induct) auto

lemma walk_as_link_walk:
  "walk fs t follow p cs k \<noteq> Err Loop \<Longrightarrow> k \<le> SYMLINK_LIMIT \<Longrightarrow>
     \<exists>n. n + k \<le> SYMLINK_LIMIT \<and> link_walk fs t follow p cs n (walk fs t follow p cs k)"
proof (induction "SYMLINK_LIMIT - k" arbitrary: k p cs rule: less_induct)
  case (less k)
  note by_links = less.hyps
  show ?case
    using less.prems
  proof (induction cs arbitrary: p)
    case Nil
    show ?case using Nil link_walk.arrived by (intro exI [of _ 0]) simp
  next
    case (Cons c cs)
    let ?W = "walk fs t follow p (c # cs) k"
    consider (outside) "\<not> inside fs (next_place fs p c)"
      | (dots) "inside fs (next_place fs p c)" "is_dots c"
      | (link) l where "inside fs (p @ [c])" "\<not> is_dots c" "lookup_symlink_placeholder t (p @ [c]) = Some l"
      | (node) nd where "inside fs (p @ [c])" "\<not> is_dots c" "lookup_symlink_placeholder t (p @ [c]) = None" "lookup_path t (p @ [c]) = Some nd"
      | (none) "inside fs (p @ [c])" "\<not> is_dots c" "lookup_symlink_placeholder t (p @ [c]) = None" "lookup_path t (p @ [c]) = None"
      by (metis next_name option.exhaust)
    then show ?case
    proof cases
      case outside
      then show ?thesis using Cons.prems(2) link_walk.outside [OF outside] by (intro exI [of _ 0]) (simp add: walk_step)
    next
      case dots
      then have W: "?W = walk fs t follow (next_place fs p c) cs k" by (simp add: walk_step)
      then show ?thesis using Cons.IH [of "next_place fs p c"] Cons.prems link_walk.dots [OF dots] by metis
    next
      case link
      show ?thesis
      proof (cases "\<not> follow \<and> cs = []")
        case True
        then show ?thesis
          using link Cons.prems(2) link_walk.the_link [OF link] by (intro exI [of _ 0]) (simp add: walk_step)
      next
        case False
        then have fl: "follow \<or> cs \<noteq> []" and k: "k < SYMLINK_LIMIT"
          using link Cons.prems by (auto simp: walk_step not_le split: if_splits)
        show ?thesis
        proof (cases "split_guest_components (sp_target l)")
          case (Ok ds)
          show ?thesis
          proof (cases "inside fs (link_base fs l)")
            case True
            then have W: "?W = walk fs t follow (link_base fs l) (ds @ cs) (Suc k)"
              using link fl k Ok by (auto simp: walk_step)
            then obtain n where "n + Suc k \<le> SYMLINK_LIMIT" "link_walk fs t follow (link_base fs l) (ds @ cs) n ?W"
              using by_links [of "Suc k" "link_base fs l" "ds @ cs", OF diff_less_mono2 [OF lessI k]] Cons.prems k by auto
            then show ?thesis using link_walk.link [OF link fl Ok True] by (intro exI [of _ "Suc n"]) simp
          next
            case out: False
            then have "?W = Err NoEntry" using link fl k Ok by (auto simp: walk_step)
            then show ?thesis using k link_walk.link_outside [OF link fl Ok out] by (intro exI [of _ 1]) simp
          qed
        next
          case (Err e)
          then have "?W = Err e" using link fl k by (auto simp: walk_step)
          then show ?thesis using k link_walk.bad_link [OF link fl Err] by (intro exI [of _ 1]) simp
        qed simp
      qed
    next
      case node
      show ?thesis
      proof (cases "node_is_directory nd \<or> cs = []")
        case True
        then have W: "?W = walk fs t follow (p @ [c]) cs k" using node by (auto simp: walk_step)
        then show ?thesis using Cons.IH [of "p @ [c]"] Cons.prems link_walk.node [OF node True] by metis
      next
        case False
        then show ?thesis
          using node Cons.prems(2) link_walk.plain_file [OF node] by (intro exI [of _ 0]) (simp add: walk_step)
      qed
    next
      case none
      then show ?thesis
        using Cons.prems(2) link_walk.new_leaf [OF none] link_walk.missing [OF none]
        by (intro exI [of _ 0]) (simp add: walk_step)
    qed
  qed
qed

definition walk_base :: "rootfs \<Rightarrow> string \<Rightarrow> guest_path" where
  "walk_base fs path = (if starts_with_slash path then rf_root fs else rf_cwd fs)"

text \<open>C31. The limit on symbolic links is exact.  Beside a walk that may follow any number of links, and go round in
  circles forever, resolution reports a loop if and only if that walk does not come to an end within 40 links: a
  walk that ends after at most 40 links gives its own answer, and one that needs more, or never ends, as at any cycle of
  links, is refused.  This holds for every tree, root, working directory and path.\<close>

theorem resolve_link_limit:
  assumes "path \<noteq> []" "split_guest_components path = Ok cs"
  shows "(resolve fs t follow path = Err Loop \<longleftrightarrow> (\<forall>n r. link_walk fs t follow (walk_base fs path) cs n r \<longrightarrow> 40 < n))
    \<and> (\<forall>n r. link_walk fs t follow (walk_base fs path) cs n r \<and> n \<le> 40 \<longrightarrow> resolve fs t follow path = r)"
proof -
  have L: "SYMLINK_LIMIT = 40" by (simp add: SYMLINK_LIMIT_def)
  have "\<not> has_nul path" using assms(2) by (auto simp: split_guest_components_def split: if_splits)
  then have R: "resolve fs t follow path = walk fs t follow (walk_base fs path) cs 0"
    using assms(1,2) by (simp add: resolve_def walk_base_def)
  have in40: "walk fs t follow (walk_base fs path) cs 0 = r \<and> r \<noteq> Err Loop" if "link_walk fs t follow (walk_base fs path) cs n r" "n \<le> 40" for n r
    using link_walk_within [OF that(1), of 0] link_walk_not_Loop [OF that(1)] that(2) L by simp
  have "\<exists>n r. link_walk fs t follow (walk_base fs path) cs n r \<and> n \<le> 40" if "walk fs t follow (walk_base fs path) cs 0 \<noteq> Err Loop"
    using walk_as_link_walk [OF that] L by auto
  then show ?thesis unfolding R using in40 not_less by blast
qed

text \<open>Two links that point to each other: the walk goes back and forth and has no end.\<close>

definition cyclic_tree :: path_tree where
  "cyclic_tree = plain_tree\<lparr>
     pt_nodes := bt_insert [''etc'', ''b''] 8 (bt_insert [''a''] 9 (pt_nodes plain_tree)),
     pt_inodes := bt_insert 8 (bare_node 8 (NSymlink ''../a'') (attr_symlink 8 4))
       (bt_insert 9 (bare_node 9 (NSymlink ''etc/b'') (attr_symlink 9 5)) (pt_inodes plain_tree))\<rparr>"

lemma cyclic_lookup [simp]:
  "lookup_path cyclic_tree p =
     (if p = [''etc'', ''b''] then Some (bare_node 8 (NSymlink ''../a'') (attr_symlink 8 4))
      else if p = [''a''] then Some (bare_node 9 (NSymlink ''etc/b'') (attr_symlink 9 5))
      else if p = [''etc''] then Some (node_directory 2) else if p = [] then Some (node_directory 1) else None)"
  by (simp add: lookup_path_def cyclic_tree_def plain_tree_def bt_get_insert)

lemma cyclic_walk:
  assumes "link_walk (rootfs_new []) cyclic_tree True p cs n r"
    "(p, cs) \<in> {([], [''a'']), ([], [''etc'', ''b'']), ([''etc''], [''b'']), ([''etc''], [''..'', ''a''])}"
  shows False
  using assms
  by (induction rule: link_walk.induct)
    (auto simp: is_dots_def next_place_def inside_def link_base_def rootfs_new_def lookup_symlink_placeholder_def push_suffix_def
      split_guest_components_def starts_with_slash_def has_nul_def SLASH_def)

theorem resolve_link_limit_witness:
  "split_guest_components ''a'' = Ok [''a''] \<and> resolve (rootfs_new []) cyclic_tree True ''a'' = Err Loop"
proof -
  have c: "split_guest_components ''a'' = Ok [''a'']" by (simp add: split_guest_components_def has_nul_def SLASH_def)
  have "walk_base (rootfs_new []) ''a'' = []" by (simp add: walk_base_def rootfs_new_def)
  then show ?thesis using resolve_link_limit [OF _ c, of "rootfs_new []" cyclic_tree True] cyclic_walk c by auto
qed

text \<open>C1. Resolution never panics, and it finds what is there: an absolute path of normal components whose proper
  prefixes are directories of the tree and whose last component is not a link resolves to itself below the root.\<close>

theorem resolve_finds:
  assumes cs: "split_guest_components path = Ok cs" "starts_with_slash path" "path_ok cs"
    and dirs: "\<And>k. k < length cs \<Longrightarrow> \<exists>node. lookup_path t (rf_root fs @ take k cs) = Some node \<and> node_is_directory node"
    and root: "\<And>k. k \<le> length (rf_root fs) \<Longrightarrow> \<exists>node. lookup_path t (take k (rf_root fs)) = Some node \<and> node_is_directory node"
    and leaf: "\<And>node target. lookup_path t (rf_root fs @ cs) = Some node \<Longrightarrow> pn_kind node \<noteq> NSymlink target"
  shows "resolve fs t follow path = Ok (rf_root fs @ cs)"
proof -
  let ?r = "rf_root fs"
  have dir: "\<exists>node. lookup_path t (take k (?r @ cs)) = Some node \<and> node_is_directory node" if "k < length (?r @ cs)" for k
    using dirs [of "k - length ?r"] root [of k] that by (cases "k \<le> length ?r") auto
  have none: "symlink_at t p k = None" if "\<forall>j \<le> k. \<exists>node. lookup_path t (take j p) = Some node \<and> node_is_directory node" for p k
    using that
  proof (induction k)
    case (Suc k)
    obtain node where "lookup_path t (take (Suc k) p) = Some node" "node_is_directory node" using Suc.prems by blast
    then show ?case using Suc by (auto simp: Let_def node_is_directory_def split: path_node_kind.splits)
  qed simp
  have pl: "lookup_symlink_placeholder t (?r @ take (Suc k) cs) = None" if "k < length cs" for k
  proof -
    let ?p = "?r @ take (Suc k) cs"
    have len: "length ?p = Suc (length ?r + k)" using that by simp
    have tk: "take j ?p = take j (?r @ cs)" if "j \<le> length ?p" for j
    proof -
      have "?p = take (length ?p) (?r @ cs)" by (simp add: min_def)
      then show ?thesis using that by (metis take_take min.absorb1)
    qed
    have below: "symlink_at t ?p (length ?r + k) = None"
      by (rule none) (use dir tk that in auto)
    show ?thesis
    proof (cases "lookup_path t ?p")
      case None
      then show ?thesis using below len by (simp add: lookup_symlink_placeholder_def)
    next
      case (Some node)
      have nd: "pn_kind node \<noteq> NSymlink target" for target
      proof (cases "Suc k < length cs")
        case True
        then show ?thesis using dirs [of "Suc k"] Some by (auto simp: node_is_directory_def)
      next
        case False
        then show ?thesis using that leaf [of node target] Some by auto
      qed
      show ?thesis
        using below len Some nd by (auto simp: lookup_symlink_placeholder_def Let_def split: path_node_kind.splits)
    qed
  qed
  have "walk fs t follow (?r @ take k cs) (drop k cs) n = Ok (?r @ cs)" if "k \<le> length cs" for k n
    using that
  proof (induction "length cs - k" arbitrary: k)
    case 0
    then show ?case by simp
  next
    case (Suc m)
    then have k: "k < length cs" by simp
    then have d: "drop k cs = cs ! k # drop (Suc k) cs" by (simp add: Cons_nth_drop_Suc)
    have tk: "?r @ take k cs @ [cs ! k] = ?r @ take (Suc k) cs" using k by (simp add: take_Suc_conv_app_nth)
    have c: "cs ! k \<noteq> []" "cs ! k \<noteq> ''.''" "cs ! k \<noteq> ''..''" using cs(3) k nth_mem [OF k] by (auto simp: path_ok_def component_ok_def)
    have IH: "walk fs t follow (?r @ take (Suc k) cs) (drop (Suc k) cs) n = Ok (?r @ cs)" by (rule Suc.hyps(1)) (use Suc k in auto)
    show ?case
    proof (cases "Suc k < length cs")
      case True
      then obtain node where "lookup_path t (?r @ take (Suc k) cs) = Some node" "node_is_directory node" using dirs by blast
      then show ?thesis unfolding d using IH c pl [OF k] by (simp add: walk.simps(2) tk Let_def enforce_jail_def gp_starts_with_def)
    next
      case False
      then have "take (Suc k) cs = cs" "drop (Suc k) cs = []" using k by auto
      then show ?thesis
        unfolding d using IH c pl [OF k]
        by (simp add: walk.simps(2) tk Let_def enforce_jail_def gp_starts_with_def allow_missing_leaf_def split: option.splits)
    qed
  qed
  from this [of 0 0] show ?thesis
    using cs by (auto simp: resolve_def Let_def starts_with_slash_def split_guest_components_def split: if_splits)
qed


theorem resolve_finds_witness:
  "resolve (rootfs_new []) plain_tree True ''/etc/new'' = Ok [''etc'', ''new'']"
proof -
  have "resolve (rootfs_new []) plain_tree True ''/etc/new'' = Ok (rf_root (rootfs_new []) @ [''etc'', ''new''])"
  proof (rule resolve_finds)
    show "split_guest_components ''/etc/new'' = Ok [''etc'', ''new'']"
      by (simp add: split_guest_components_def has_nul_def SLASH_def)
    show "path_ok [''etc'', ''new'']" by (simp add: path_ok_def component_ok_def SLASH_def)
    show "\<exists>node. lookup_path plain_tree (rf_root (rootfs_new []) @ take k [''etc'', ''new'']) = Some node \<and> node_is_directory node"
      if "k < length [''etc'', ''new'']" for k
      using that by (cases k) (auto simp: rootfs_new_def plain_lookup)
  qed (auto simp: rootfs_new_def plain_lookup starts_with_slash_def SLASH_def)
  then show ?thesis by (simp add: rootfs_new_def)
qed

end
