(* ===== verification/Vfs_Fd.thy ===== *)
theory Vfs_Fd
  imports Vfs_Resolve
begin

text \<open>
  The descriptor table of the virtual file system (\<open>mcr-vfs/src/fd.rs\<close> and the stream helpers of
  \<open>io_helpers.rs\<close>).  What the code keeps behind an \<open>Arc\<close> lives in a store of open descriptions, pipes, event
  counters and output captures, because entries of one table, and tables of different processes, share
  it; an \<open>Arc\<close> is an address of the store.  The answers of the operating system are the parameter
  \<open>vs_os\<close>: whether a host pipe can be created, what a host transfer returns, what a host file holds,
  indexed by the number of the call.  Condition variables only wake waiting threads and have no
  effect on the store.  The set of close-on-exec descriptors is a \<open>HashSet\<close> whose iteration order is
  unspecified; the model iterates in ascending order.
\<close>

section \<open>The store\<close>

record fd_description =
  fd_offset :: nat
  fd_flags :: open_flags
  fd_dir_cursor :: nat

record pipe_inner =
  pi_state :: pipe_state
  pi_host_pair :: bool

record stdio_capture_state =
  sc_stdout :: "u8 list"
  sc_stderr :: "u8 list"

text \<open>The answers of the operating system to its \<open>i\<close>-th call.  A completed transfer hands back the buffer
  it was submitted with and the number of bytes transferred; only the contents are the host's, not the
  length.\<close>

record os_io =
  os_pipe_pair :: "nat \<Rightarrow> bool"
  os_open :: "nat \<Rightarrow> string \<Rightarrow> host_error_kind + unit"
  os_read :: "nat \<Rightarrow> nat \<Rightarrow> host_error_kind + (nat \<Rightarrow> u8) \<times> nat"
  os_write :: "nat \<Rightarrow> u8 list \<Rightarrow> host_error_kind + nat"
  os_read_at :: "nat \<Rightarrow> string \<Rightarrow> nat \<Rightarrow> nat \<Rightarrow> host_error_kind + (nat \<Rightarrow> u8) \<times> nat"
  os_map_at :: "nat \<Rightarrow> string \<Rightarrow> nat \<Rightarrow> nat \<Rightarrow> host_error_kind + unit"
  os_random :: "nat \<Rightarrow> (nat \<Rightarrow> u8) option"
  os_file :: "nat \<Rightarrow> host_files"

record vfs_store =
  vs_descriptions :: "nat \<Rightarrow> fd_description"
  vs_pipes :: "nat \<Rightarrow> pipe_inner"
  vs_eventfds :: "nat \<Rightarrow> u64"
  vs_stdio :: "nat \<Rightarrow> stdio_capture_state"
  vs_next :: nat
  vs_os :: os_io
  vs_calls :: nat

definition store_os_call :: "(os_io \<Rightarrow> nat \<Rightarrow> 'a) \<Rightarrow> vfs_store \<Rightarrow> 'a \<times> vfs_store" where
  "store_os_call f s = (f (vs_os s) (vs_calls s), s\<lparr>vs_calls := Suc (vs_calls s)\<rparr>)"

section \<open>Files and entries\<close>

datatype inode_backend =
    HostPath string guest_path | ProcVirtual string | DevVirtual dev_node_kind
  | Pipe_node nat nat | Socket_node nat | Epoll_node nat | Eventfd_node nat nat

text \<open>\<open>HostPath\<close> carries the host directory and the guest components that are pushed onto it; \<open>Pipe_node\<close> and \<open>Eventfd_node\<close> carry their number and the address of their shared state.\<close>

record inode =
  in_id :: nat
  in_backend :: inode_backend
  in_link_count :: nat

definition inode_new :: "nat \<Rightarrow> inode_backend \<Rightarrow> inode" where
  "inode_new i backend = \<lparr>in_id = i, in_backend = backend, in_link_count = 1\<rparr>"

record file_ref =
  fr_inode :: inode
  fr_kind :: file_kind

fun stdio_id :: "stdio_kind \<Rightarrow> nat" where
  "stdio_id Stdin = 0"
| "stdio_id Stdout = 1"
| "stdio_id Stderr = 2"

definition file_stdio :: "stdio_kind \<Rightarrow> file_ref" where
  "file_stdio kind =
     \<lparr>fr_inode = inode_new (stdio_id kind) (DevVirtual (dev_of_stdio kind)), fr_kind = FStdio kind\<rparr>"

record fd_entry =
  fe_file :: file_ref
  fe_description :: nat
  fe_path :: "guest_path option"

definition fe_inode_id :: "fd_entry \<Rightarrow> nat" where
  "fe_inode_id e = in_id (fr_inode (fe_file e))"

abbreviation fe_kind :: "fd_entry \<Rightarrow> file_kind" where
  "fe_kind e \<equiv> fr_kind (fe_file e)"

definition entry_rebind_path :: "guest_path \<Rightarrow> guest_path \<Rightarrow> fd_entry \<Rightarrow> fd_entry" where
  "entry_rebind_path old_path new_path e =
     (case fe_path e of
        None \<Rightarrow> e
      | Some p \<Rightarrow>
          if \<not> gp_starts_with p old_path then e
          else e\<lparr>fe_path := Some (replace_prefix p old_path new_path)\<rparr>)"

definition pipe_address :: "file_ref \<Rightarrow> nat option" where
  "pipe_address f = (case in_backend (fr_inode f) of Pipe_node _ a \<Rightarrow> Some a | _ \<Rightarrow> None)"

definition eventfd_address :: "file_ref \<Rightarrow> nat option" where
  "eventfd_address f = (case in_backend (fr_inode f) of Eventfd_node _ a \<Rightarrow> Some a | _ \<Rightarrow> None)"

definition modify_pipe :: "nat \<Rightarrow> (pipe_state \<Rightarrow> pipe_state) \<Rightarrow> vfs_store \<Rightarrow> vfs_store" where
  "modify_pipe a f s =
     s\<lparr>vs_pipes := (vs_pipes s)(a := (vs_pipes s a)\<lparr>pi_state := f (pi_state (vs_pipes s a))\<rparr>)\<rparr>"

definition register_fd_endpoint :: "file_ref \<Rightarrow> vfs_store \<Rightarrow> vfs_store" where
  "register_fd_endpoint f s =
     (case pipe_address f of None \<Rightarrow> s | Some a \<Rightarrow> modify_pipe a (register_endpoint (fr_kind f)) s)"

definition unregister_fd_endpoint :: "file_ref \<Rightarrow> vfs_store \<Rightarrow> vfs_store" where
  "unregister_fd_endpoint f s =
     (case pipe_address f of None \<Rightarrow> s | Some a \<Rightarrow> modify_pipe a (unregister_endpoint (fr_kind f)) s)"

section \<open>The table\<close>

definition I32_MAX :: int where "I32_MAX = 2 ^ 31 - 1"
definition FIRST_ALLOC_FD :: int where "FIRST_ALLOC_FD = 0"
definition FIRST_PIPE_INODE_ID :: nat where "FIRST_PIPE_INODE_ID = 2 ^ 62"
definition FIRST_SOCKET_INODE_ID :: nat where "FIRST_SOCKET_INODE_ID = 2 ^ 59"
definition FIRST_EPOLL_INODE_ID :: nat where "FIRST_EPOLL_INODE_ID = 2 ^ 59 + 2 ^ 58"
definition FIRST_EVENTFD_INODE_ID :: nat where "FIRST_EVENTFD_INODE_ID = 2 ^ 59 + 2 ^ 57"

record fd_table =
  ft_entries :: "(int, fd_entry) btree_map"
  ft_cloexec :: "int btree_set"
  ft_next_pipe_id :: nat
  ft_next_eventfd_id :: nat
  ft_stdio :: nat

type_synonym 'a fd_op = "(fd_table \<times> vfs_store, 'a, vfs_error) st"

definition on_store :: "(vfs_store \<Rightarrow> vfs_store) \<Rightarrow> fd_table \<times> vfs_store \<Rightarrow> fd_table \<times> vfs_store" where
  "on_store f s = (fst s, f (snd s))"

definition on_table :: "(fd_table \<Rightarrow> fd_table) \<Rightarrow> fd_table \<times> vfs_store \<Rightarrow> fd_table \<times> vfs_store" where
  "on_table f s = (f (fst s), snd s)"

definition table_new :: "vfs_store \<Rightarrow> fd_table \<times> vfs_store" where
  "table_new s =
     (\<lparr>ft_entries = bt_empty, ft_cloexec = bt_empty, ft_next_pipe_id = 1, ft_next_eventfd_id = 1, ft_stdio = vs_next s\<rparr>,
      s\<lparr>vs_stdio := (vs_stdio s)(vs_next s := \<lparr>sc_stdout = [], sc_stderr = []\<rparr>), vs_next := Suc (vs_next s)\<rparr>)"

definition fd_lookup :: "fd_table \<Rightarrow> int \<Rightarrow> fd_entry vfs_result" where
  "fd_lookup t fd = ok_or (bt_get (ft_entries t) fd) BadFd"

definition set_cloexec :: "int \<Rightarrow> bool \<Rightarrow> unit fd_op" where
  "set_cloexec fd cloexec s =
     (if \<not> bt_contains (ft_entries (fst s)) fd then (Err BadFd, s)
      else (Ok (), on_table (\<lambda>t. t\<lparr>ft_cloexec := (if cloexec then bs_insert fd else bs_remove fd) (ft_cloexec t)\<rparr>) s))"

definition cloexec_flag :: "fd_table \<Rightarrow> int \<Rightarrow> bool vfs_result" where
  "cloexec_flag t fd = and_then (fd_lookup t fd) (\<lambda>_. Ok (bt_contains (ft_cloexec t) fd))"

text \<open>A fresh open description.\<close>

definition new_description :: "open_flags \<Rightarrow> vfs_store \<Rightarrow> nat \<times> vfs_store" where
  "new_description flags s =
     (vs_next s, s\<lparr>vs_descriptions := (vs_descriptions s)(vs_next s := \<lparr>fd_offset = 0, fd_flags = flags, fd_dir_cursor = 0\<rparr>),
        vs_next := Suc (vs_next s)\<rparr>)"

definition put_entry :: "int \<Rightarrow> fd_entry \<Rightarrow> fd_table \<times> vfs_store \<Rightarrow> fd_table \<times> vfs_store" where
  "put_entry fd e s =
     on_table (\<lambda>t. t\<lparr>ft_entries := bt_insert fd e (ft_entries t)\<rparr>) (on_store (register_fd_endpoint (fe_file e)) s)"

definition insert_entry :: "int \<Rightarrow> file_ref \<Rightarrow> bool \<Rightarrow> open_flags \<Rightarrow> guest_path option \<Rightarrow> int fd_op" where
  "insert_entry fd f cloexec flags path s =
     (if fd < 0 then (Err BadFd, s)
      else if bt_contains (ft_entries (fst s)) fd then (Err BadFd, s)
      else
        (case new_description flags (snd s) of
           (a, store) \<Rightarrow>
             st_bind (st_modify (put_entry fd \<lparr>fe_file = f, fe_description = a, fe_path = path\<rparr>)) (\<lambda>_.
             st_bind (set_cloexec fd cloexec) (\<lambda>_.
             st_ok fd)) (fst s, store)))"

function next_fd_loop :: "(int, fd_entry) btree_map \<Rightarrow> int \<Rightarrow> int vfs_result" where
  "next_fd_loop entries fd =
     (if \<not> bt_contains entries fd then Ok fd
      else if fd + 1 > I32_MAX then Err BadFd
      else next_fd_loop entries (fd + 1))"
  by pat_completeness auto
termination
  by (relation "measure (\<lambda>(entries, fd). nat (I32_MAX - fd))") auto

declare next_fd_loop.simps [simp del]

definition next_fd_from :: "fd_table \<Rightarrow> int \<Rightarrow> int vfs_result" where
  "next_fd_from t min_fd = (if min_fd < 0 then Err BadFd else next_fd_loop (ft_entries t) min_fd)"

definition insert_exact :: "int \<Rightarrow> file_ref \<Rightarrow> bool \<Rightarrow> unit fd_op" where
  "insert_exact fd f cloexec =
     st_bind (insert_entry fd f cloexec O_RDWR None) (\<lambda>_. st_ok ())"

definition with_next_fd :: "int \<Rightarrow> (int \<Rightarrow> 'a fd_op) \<Rightarrow> 'a fd_op" where
  "with_next_fd min_fd f s = st_bind (st_lift (next_fd_from (fst s) min_fd)) f s"

definition fd_insert :: "file_ref \<Rightarrow> bool \<Rightarrow> int fd_op" where
  "fd_insert f cloexec =
     with_next_fd FIRST_ALLOC_FD (\<lambda>fd. st_bind (insert_exact fd f cloexec) (\<lambda>_. st_ok fd))"

definition insert_at_or_above :: "int \<Rightarrow> file_ref \<Rightarrow> bool \<Rightarrow> int fd_op" where
  "insert_at_or_above min_fd f cloexec =
     with_next_fd min_fd (\<lambda>fd. st_bind (insert_exact fd f cloexec) (\<lambda>_. st_ok fd))"

definition insert_open :: "file_ref \<Rightarrow> open_flags \<Rightarrow> guest_path option \<Rightarrow> int fd_op" where
  "insert_open f flags path =
     with_next_fd FIRST_ALLOC_FD (\<lambda>fd. insert_entry fd f (flag_cloexec flags) flags path)"

definition with_stdio :: "vfs_store \<Rightarrow> (unit, vfs_error) result \<times> fd_table \<times> vfs_store" where
  "with_stdio s =
     st_bind (\<lambda>s. (expect (fst (insert_exact 0 (file_stdio Stdin) False s)), snd (insert_exact 0 (file_stdio Stdin) False s))) (\<lambda>_.
     st_bind (\<lambda>s. (expect (fst (insert_exact 1 (file_stdio Stdout) False s)), snd (insert_exact 1 (file_stdio Stdout) False s))) (\<lambda>_.
     (\<lambda>s. (expect (fst (insert_exact 2 (file_stdio Stderr) False s)), snd (insert_exact 2 (file_stdio Stderr) False s)))))
     (table_new s)"

definition fd_close :: "int \<Rightarrow> file_ref fd_op" where
  "fd_close fd s =
     (case bt_get (ft_entries (fst s)) fd of
        None \<Rightarrow> (Err BadFd, s)
      | Some e \<Rightarrow>
          (Ok (fe_file e),
           on_store (unregister_fd_endpoint (fe_file e))
             (on_table (\<lambda>t. t\<lparr>ft_entries := bt_remove fd (ft_entries t), ft_cloexec := bs_remove fd (ft_cloexec t)\<rparr>) s)))"

definition allocate_pipe_id :: "nat fd_op" where
  "allocate_pipe_id s =
     (let i = ft_next_pipe_id (fst s) in
      if U64_MAX_NAT < i + 1 then (Err BadFd, s)
      else (Ok i, on_table (\<lambda>t. t\<lparr>ft_next_pipe_id := i + 1\<rparr>) s))"

definition allocate_eventfd_id :: "nat fd_op" where
  "allocate_eventfd_id s =
     (let i = ft_next_eventfd_id (fst s) in
      if U64_MAX_NAT < i + 1 then (Err BadFd, s)
      else (Ok i, on_table (\<lambda>t. t\<lparr>ft_next_eventfd_id := i + 1\<rparr>) s))"

definition id_from :: "nat \<Rightarrow> nat \<Rightarrow> nat vfs_result" where
  "id_from first i = (if U64_MAX_NAT < first + i then Err BadFd else Ok (first + i))"

text \<open>\<open>PipeNode::new\<close>: the shared state with a host pipe pair when the host can create one.\<close>

definition pipe_node_new :: "nat \<Rightarrow> fd_table \<times> vfs_store \<Rightarrow> inode_backend \<times> fd_table \<times> vfs_store" where
  "pipe_node_new i s =
     (case store_os_call os_pipe_pair (snd s) of
        (pair, store) \<Rightarrow>
          (Pipe_node i (vs_next store), fst s,
           store\<lparr>vs_pipes := (vs_pipes store)(vs_next store := \<lparr>pi_state = pipe_state_new DEFAULT_PIPE_CAPACITY, pi_host_pair = pair\<rparr>),
             vs_next := Suc (vs_next store)\<rparr>))"

definition fd_pipe :: "open_flags \<Rightarrow> (int \<times> int) fd_op" where
  "fd_pipe flags =
     (if flags AND NOT (O_CLOEXEC OR O_NONBLOCK) \<noteq> 0 then st_err InvalidPath
      else
        with_next_fd FIRST_ALLOC_FD (\<lambda>read_fd.
        st_bind (st_lift (if read_fd + 1 > I32_MAX then Err BadFd else Ok (read_fd + 1))) (\<lambda>above.
        with_next_fd above (\<lambda>write_fd.
        st_bind allocate_pipe_id (\<lambda>pipe_id.
        st_bind (st_lift (id_from FIRST_PIPE_INODE_ID pipe_id)) (\<lambda>inode_id s.
          (case pipe_node_new pipe_id s of
             (backend, s) \<Rightarrow>
               let inode = inode_new inode_id backend in
               st_bind (insert_entry read_fd \<lparr>fr_inode = inode, fr_kind = FPipeRead\<rparr> (flag_cloexec flags)
                          (O_RDONLY OR (flags AND O_NONBLOCK)) None) (\<lambda>_.
               st_try (insert_entry write_fd \<lparr>fr_inode = inode, fr_kind = FPipeWrite\<rparr> (flag_cloexec flags)
                          (O_WRONLY OR (flags AND O_NONBLOCK)) None)
                 (\<lambda>_. st_ok (read_fd, write_fd))
                 (\<lambda>e. st_try (fd_close read_fd) (\<lambda>_. st_err e) (\<lambda>_. st_err e))) s)))))))"

definition insert_socket :: "nat \<Rightarrow> open_flags \<Rightarrow> int fd_op" where
  "insert_socket socket_id flags =
     (if flags AND NOT (O_ACCMODE OR O_CLOEXEC OR O_NONBLOCK) \<noteq> 0
         \<or> access_mode flags \<noteq> 0 \<and> access_mode flags \<noteq> O_RDWR
      then st_err InvalidPath
      else
        st_bind (st_lift (id_from FIRST_SOCKET_INODE_ID socket_id)) (\<lambda>inode_id.
        with_next_fd FIRST_ALLOC_FD (\<lambda>fd.
        insert_entry fd \<lparr>fr_inode = inode_new inode_id (Socket_node socket_id), fr_kind = FSocket\<rparr>
          (flag_cloexec flags) (O_RDWR OR (flags AND O_NONBLOCK)) None)))"

definition insert_epoll :: "nat \<Rightarrow> open_flags \<Rightarrow> int fd_op" where
  "insert_epoll epoll_id flags =
     (if flags AND NOT (O_ACCMODE OR O_CLOEXEC) \<noteq> 0 \<or> access_mode flags \<noteq> 0 then st_err InvalidPath
      else
        st_bind (st_lift (id_from FIRST_EPOLL_INODE_ID epoll_id)) (\<lambda>inode_id.
        with_next_fd FIRST_ALLOC_FD (\<lambda>fd.
        insert_entry fd \<lparr>fr_inode = inode_new inode_id (Epoll_node epoll_id), fr_kind = FEpoll\<rparr>
          (flag_cloexec flags) (O_RDONLY OR (flags AND O_CLOEXEC)) None)))"

definition fd_eventfd :: "u64 \<Rightarrow> open_flags \<Rightarrow> int fd_op" where
  "fd_eventfd initial flags =
     (if flags AND NOT (O_ACCMODE OR O_CLOEXEC OR O_NONBLOCK) \<noteq> 0
         \<or> access_mode flags \<noteq> 0 \<and> access_mode flags \<noteq> O_RDWR
      then st_err InvalidPath
      else
        st_bind allocate_eventfd_id (\<lambda>i.
        st_bind (st_lift (id_from FIRST_EVENTFD_INODE_ID i)) (\<lambda>inode_id s.
          let a = vs_next (snd s);
              s = on_store (\<lambda>st. st\<lparr>vs_eventfds := (vs_eventfds st)(a := initial), vs_next := Suc a\<rparr>) s
          in with_next_fd FIRST_ALLOC_FD (\<lambda>fd.
             insert_entry fd \<lparr>fr_inode = inode_new inode_id (Eventfd_node i a), fr_kind = FEventfd\<rparr>
               (flag_cloexec flags) (O_RDWR OR (flags AND O_NONBLOCK)) None) s)))"

definition socket_id_for_fd :: "fd_table \<Rightarrow> int \<Rightarrow> nat vfs_result" where
  "socket_id_for_fd t fd =
     and_then (fd_lookup t fd) (\<lambda>e.
       case in_backend (fr_inode (fe_file e)) of Socket_node i \<Rightarrow> Ok i | _ \<Rightarrow> Err NotSocket)"

definition epoll_id_for_fd :: "fd_table \<Rightarrow> int \<Rightarrow> nat vfs_result" where
  "epoll_id_for_fd t fd =
     and_then (fd_lookup t fd) (\<lambda>e.
       case in_backend (fr_inode (fe_file e)) of Epoll_node i \<Rightarrow> Ok i | _ \<Rightarrow> Err BadFd)"

definition socket_id_for_entry :: "fd_entry \<Rightarrow> nat option" where
  "socket_id_for_entry e =
     (if fe_kind e \<noteq> FSocket then None
      else (case in_backend (fr_inode (fe_file e)) of Socket_node i \<Rightarrow> Some i | _ \<Rightarrow> None))"

definition epoll_id_for_entry :: "fd_entry \<Rightarrow> nat option" where
  "epoll_id_for_entry e =
     (if fe_kind e \<noteq> FEpoll then None
      else (case in_backend (fr_inode (fe_file e)) of Epoll_node i \<Rightarrow> Some i | _ \<Rightarrow> None))"

definition socket_ids :: "fd_table \<Rightarrow> nat list" where
  "socket_ids t = List.map_filter socket_id_for_entry (bt_values (ft_entries t))"

definition epoll_ids :: "fd_table \<Rightarrow> nat list" where
  "epoll_ids t = List.map_filter epoll_id_for_entry (bt_values (ft_entries t))"

definition socket_fd_count :: "fd_table \<Rightarrow> nat \<Rightarrow> nat" where
  "socket_fd_count t i = length (filter (\<lambda>j. j = i) (socket_ids t))"

definition epoll_fd_count :: "fd_table \<Rightarrow> nat \<Rightarrow> nat" where
  "epoll_fd_count t i = length (filter (\<lambda>j. j = i) (epoll_ids t))"

definition fd_dup :: "int \<Rightarrow> int \<Rightarrow> bool \<Rightarrow> int fd_op" where
  "fd_dup oldfd min_fd cloexec s =
     (if min_fd < 0 then (Err BadFd, s)
      else
        st_bind (st_lift (fd_lookup (fst s) oldfd)) (\<lambda>e.
        with_next_fd min_fd (\<lambda>newfd.
        st_bind (st_modify (put_entry newfd e)) (\<lambda>_.
        st_bind (set_cloexec newfd cloexec) (\<lambda>_.
        st_ok newfd)))) s)"

definition fd_dup2 :: "int \<Rightarrow> int \<Rightarrow> bool \<Rightarrow> int fd_op" where
  "fd_dup2 oldfd newfd cloexec s =
     (if newfd < 0 then (Err BadFd, s)
      else
        st_bind (st_lift (fd_lookup (fst s) oldfd)) (\<lambda>e.
          if oldfd = newfd then st_ok newfd
          else
            st_bind (\<lambda>s. (Ok (), snd (fd_close newfd s))) (\<lambda>_.
            st_bind (st_modify (put_entry newfd e)) (\<lambda>_.
            st_bind (set_cloexec newfd cloexec) (\<lambda>_.
            st_ok newfd)))) s)"

definition fds_in_range :: "fd_table \<Rightarrow> int \<Rightarrow> int \<Rightarrow> int list vfs_result" where
  "fds_in_range t lo hi =
     (if hi < lo then Panic else Ok (filter (\<lambda>fd. lo \<le> fd \<and> fd \<le> hi) (bt_keys (ft_entries t))))"

text \<open>\<open>Clone\<close> and \<open>Drop\<close> of a table.\<close>

definition table_clone :: "fd_table \<Rightarrow> vfs_store \<Rightarrow> fd_table \<times> vfs_store" where
  "table_clone t s = (t, fold (\<lambda>e. register_fd_endpoint (fe_file e)) (bt_values (ft_entries t)) s)"

definition table_drop :: "fd_table \<Rightarrow> vfs_store \<Rightarrow> vfs_store" where
  "table_drop t s = fold (\<lambda>e. unregister_fd_endpoint (fe_file e)) (bt_values (ft_entries t)) s"

record closed_fd_ids =
  cf_socket_ids :: "nat list"
  cf_epoll_ids :: "nat list"

definition add_closed :: "fd_entry \<Rightarrow> closed_fd_ids \<Rightarrow> closed_fd_ids" where
  "add_closed e c =
     \<lparr>cf_socket_ids = cf_socket_ids c @ (case socket_id_for_entry e of None \<Rightarrow> [] | Some i \<Rightarrow> [i]),
      cf_epoll_ids = cf_epoll_ids c @ (case epoll_id_for_entry e of None \<Rightarrow> [] | Some i \<Rightarrow> [i])\<rparr>"

definition close_cloexec_fd :: "int \<Rightarrow> closed_fd_ids \<times> fd_table \<times> vfs_store \<Rightarrow> closed_fd_ids \<times> fd_table \<times> vfs_store" where
  "close_cloexec_fd fd cs =
     (case cs of (closed, s) \<Rightarrow>
        (case bt_get (ft_entries (fst s)) fd of
           None \<Rightarrow> (closed, s)
         | Some e \<Rightarrow>
             (add_closed e closed,
              on_store (unregister_fd_endpoint (fe_file e))
                (on_table (\<lambda>t. t\<lparr>ft_entries := bt_remove fd (ft_entries t)\<rparr>) s))))"

definition table_close_on_exec :: "fd_table \<times> vfs_store \<Rightarrow> closed_fd_ids \<times> fd_table \<times> vfs_store" where
  "table_close_on_exec s =
     fold close_cloexec_fd (bs_list (ft_cloexec (fst s)))
       (\<lparr>cf_socket_ids = [], cf_epoll_ids = []\<rparr>, on_table (\<lambda>t. t\<lparr>ft_cloexec := bt_empty\<rparr>) s)"

end
