(* ===== verification/Vfs_Io.thy ===== *)
theory Vfs_Io
  imports Vfs_Fd
begin

text \<open>
  Transfers through the descriptor table (\<open>mcr-vfs/src/fd.rs\<close>, \<open>io_helpers.rs\<close> and the directory records of
  \<open>path.rs\<close>): flags, readiness, \<open>read\<close>, \<open>pread\<close>, \<open>write\<close>, \<open>seek\<close> and \<open>getdents64\<close>.  A read returns the bytes
  it stores at the front of the caller's buffer; their number is the value of the Rust function.
\<close>

section \<open>Host calls and shared state\<close>

type_synonym 'a store_op = "(vfs_store, 'a, vfs_error) st"

definition host_call :: "(os_io \<Rightarrow> nat \<Rightarrow> host_error_kind + 'a) \<Rightarrow> 'a store_op" where
  "host_call f s =
     (map_err vfs_error_from_host (lift_sum (f (vs_os s) (vs_calls s))), s\<lparr>vs_calls := Suc (vs_calls s)\<rparr>)"

definition in_store :: "'a store_op \<Rightarrow> 'a fd_op" where
  "in_store f s = (case f (snd s) of (r, store) \<Rightarrow> (r, fst s, store))"

definition pipe_st :: "nat \<Rightarrow> (pipe_state, 'a, vfs_error) st \<Rightarrow> 'a store_op" where
  "pipe_st a f s = (case f (pi_state (vs_pipes s a)) of (r, p) \<Rightarrow> (r, modify_pipe a (\<lambda>_. p) s))"

definition pipe_node :: "file_ref \<Rightarrow> nat vfs_result" where
  "pipe_node f = ok_or (pipe_address f) BadFd"

definition eventfd_node :: "file_ref \<Rightarrow> nat vfs_result" where
  "eventfd_node f = ok_or (eventfd_address f) BadFd"

definition eventfd_st :: "nat \<Rightarrow> (u64, 'a, vfs_error) st \<Rightarrow> 'a store_op" where
  "eventfd_st a f s =
     (case f (vs_eventfds s a) of (r, c) \<Rightarrow> (r, s\<lparr>vs_eventfds := (vs_eventfds s)(a := c)\<rparr>))"

definition fill_urandom :: "nat \<Rightarrow> u8 list store_op" where
  "fill_urandom len s =
     (case store_os_call os_random s of
        (None, s) \<Rightarrow> (Err InvalidPath, s)
      | (Some f, s) \<Rightarrow> (Ok (map f [0..<len]), s))"

section \<open>Streams\<close>

definition pipe_host_read :: "nat \<Rightarrow> nat \<Rightarrow> u8 list store_op" where
  "pipe_host_read a len s =
     (let count = min (pipe_available (pi_state (vs_pipes s a))) len in
      if count = 0 then (Ok [], s)
      else
        st_bind (host_call (\<lambda>os i. os_read os i count)) (\<lambda>(bytes, transferred).
        st_bind (st_lift (slice (map bytes [0..<count]) 0 (min transferred len))) (\<lambda>data.
        st_bind (st_modify (modify_pipe a (discard_readable (min transferred len)))) (\<lambda>_.
        st_ok data))) s)"

definition pipe_host_write :: "nat \<Rightarrow> u8 list \<Rightarrow> nat store_op" where
  "pipe_host_write a buffer s =
     (let p = pi_state (vs_pipes s a);
          count = min (ps_capacity p - pipe_available p) (length buffer)
      in if count = 0 then (Ok 0, s)
         else
           st_bind (host_call (\<lambda>os i. os_write os i (take count buffer))) (\<lambda>transferred.
           pipe_st a (record_written (min transferred count))) s)"

definition pipe_read :: "file_ref \<Rightarrow> nat \<Rightarrow> u8 list store_op" where
  "pipe_read f len =
     st_bind (st_lift (pipe_node f)) (\<lambda>a s.
       let p = pi_state (vs_pipes s a) in
       if pipe_available p = 0 \<and> len \<noteq> 0 \<and> ps_writers p > 0 then (Err WouldBlock, s)
       else if pi_host_pair (vs_pipes s a) then pipe_host_read a len s
       else pipe_st a (\<lambda>p. case pipe_state_read len p of (data, p) \<Rightarrow> (Ok data, p)) s)"

definition pipe_write :: "file_ref \<Rightarrow> u8 list \<Rightarrow> nat store_op" where
  "pipe_write f buffer =
     st_bind (st_lift (pipe_node f)) (\<lambda>a s.
       let p = pi_state (vs_pipes s a) in
       if ps_readers p = 0 then (Err BrokenPipe, s)
       else if ps_capacity p = pipe_available p \<and> buffer \<noteq> [] \<and> ps_readers p > 0 then (Err WouldBlock, s)
       else if pi_host_pair (vs_pipes s a) then pipe_host_write a buffer s
       else pipe_st a (pipe_state_write buffer) s)"

definition eventfd_read :: "file_ref \<Rightarrow> nat \<Rightarrow> u8 list store_op" where
  "eventfd_read f len = st_bind (st_lift (eventfd_node f)) (\<lambda>a. eventfd_st a (eventfd_state_read len))"

definition eventfd_write :: "file_ref \<Rightarrow> u8 list \<Rightarrow> nat store_op" where
  "eventfd_write f buffer = st_bind (st_lift (eventfd_node f)) (\<lambda>a. eventfd_st a (eventfd_state_write buffer))"

fun stdio_snapshot :: "stdio_kind \<Rightarrow> stdio_capture_state \<Rightarrow> u8 list" where
  "stdio_snapshot Stdin c = []"
| "stdio_snapshot Stdout c = sc_stdout c"
| "stdio_snapshot Stderr c = sc_stderr c"

fun stdio_take :: "stdio_kind \<Rightarrow> stdio_capture_state \<Rightarrow> u8 list \<times> stdio_capture_state" where
  "stdio_take Stdin c = ([], c)"
| "stdio_take Stdout c = (sc_stdout c, c\<lparr>sc_stdout := []\<rparr>)"
| "stdio_take Stderr c = (sc_stderr c, c\<lparr>sc_stderr := []\<rparr>)"

fun stdio_write :: "stdio_kind \<Rightarrow> u8 list \<Rightarrow> (stdio_capture_state, nat, vfs_error) st" where
  "stdio_write Stdin buffer c = (Err BadFd, c)"
| "stdio_write Stdout buffer c = (Ok (length buffer), c\<lparr>sc_stdout := sc_stdout c @ buffer\<rparr>)"
| "stdio_write Stderr buffer c = (Ok (length buffer), c\<lparr>sc_stderr := sc_stderr c @ buffer\<rparr>)"

definition table_snapshot :: "stdio_kind \<Rightarrow> fd_table \<times> vfs_store \<Rightarrow> u8 list" where
  "table_snapshot kind s = stdio_snapshot kind (vs_stdio (snd s) (ft_stdio (fst s)))"

definition table_take :: "stdio_kind \<Rightarrow> fd_table \<times> vfs_store \<Rightarrow> u8 list \<times> fd_table \<times> vfs_store" where
  "table_take kind s =
     (case stdio_take kind (vs_stdio (snd s) (ft_stdio (fst s))) of
        (bytes, c) \<Rightarrow> (bytes, on_store (\<lambda>st. st\<lparr>vs_stdio := (vs_stdio st)(ft_stdio (fst s) := c)\<rparr>) s))"

section \<open>Regular files\<close>

record proc_self_data =
  psd_executable_path :: "u8 list"
  psd_argv :: "u8 list list"
  psd_envp :: "u8 list list"

definition nul_joined_entries :: "u8 list list \<Rightarrow> u8 list" where
  "nul_joined_entries entries = concat (map (\<lambda>e. e @ [0]) entries)"

definition cmdline_bytes :: "proc_self_data \<Rightarrow> u8 list" where
  "cmdline_bytes p = nul_joined_entries (psd_argv p)"

definition environ_bytes :: "proc_self_data \<Rightarrow> u8 list" where
  "environ_bytes p = nul_joined_entries (psd_envp p)"

definition read_memory_at :: "u8 list \<Rightarrow> nat \<Rightarrow> nat \<Rightarrow> u8 list" where
  "read_memory_at data offset len = take len (drop offset data)"

text \<open>A read handle is the path it was opened on.\<close>

definition open_host_read_handle :: "string \<Rightarrow> string store_op" where
  "open_host_read_handle path = st_bind (host_call (\<lambda>os i. os_open os i path)) (\<lambda>_. st_ok path)"

definition read_host_file_at :: "string \<Rightarrow> nat \<Rightarrow> nat \<Rightarrow> u8 list store_op" where
  "read_host_file_at handle offset len =
     (if len = 0 then st_ok []
      else
        st_bind (host_call (\<lambda>os i. os_read_at os i handle offset len)) (\<lambda>(bytes, transferred).
        st_ok (map bytes [0..<min transferred len])))"

definition read_host_path_at :: "string \<Rightarrow> nat \<Rightarrow> nat \<Rightarrow> u8 list store_op" where
  "read_host_path_at path offset len =
     st_bind (open_host_read_handle path) (\<lambda>handle. read_host_file_at handle offset len)"

definition read_regular_node_at ::
  "path_node \<Rightarrow> proc_self_data \<Rightarrow> nat \<Rightarrow> nat \<Rightarrow> string option \<Rightarrow> u8 list store_op" where
  "read_regular_node_at node proc offset len host_file =
     (case pn_kind node of
        NProc ProcCmdline \<Rightarrow> st_ok (read_memory_at (cmdline_bytes proc) offset len)
      | NProc ProcEnviron \<Rightarrow> st_ok (read_memory_at (environ_bytes proc) offset len)
      | _ \<Rightarrow>
          (case pn_deferred_host_path node of
             Some path \<Rightarrow>
               (case host_file of
                  Some handle \<Rightarrow> read_host_file_at handle offset len
                | None \<Rightarrow> read_host_path_at path offset len)
           | None \<Rightarrow> st_ok (read_memory_at (pn_data node) offset len)))"

definition vectored_len :: "nat list \<Rightarrow> nat vfs_result" where
  "vectored_len lengths =
     fold (\<lambda>len total. and_then total (\<lambda>n. if U64_MAX_NAT < n + len then Err InvalidPath else Ok (n + len)))
       lengths (Ok 0)"

text \<open>What \<open>scatter_vectored\<close> leaves in each of the buffers.\<close>

fun scatter_vectored :: "u8 list \<Rightarrow> u8 list list \<Rightarrow> u8 list list" where
  "scatter_vectored source [] = []"
| "scatter_vectored source (b # bs) =
     (if source = [] then b # bs
      else
        let count = min (length b) (length source)
        in (take count source @ drop count b) # scatter_vectored (drop count source) bs)"

section \<open>Descriptions and flags\<close>

abbreviation entry_description :: "fd_entry \<Rightarrow> vfs_store \<Rightarrow> fd_description" where
  "entry_description e s \<equiv> vs_descriptions s (fe_description e)"

abbreviation entry_flags :: "fd_entry \<Rightarrow> vfs_store \<Rightarrow> open_flags" where
  "entry_flags e s \<equiv> fd_flags (entry_description e s)"

abbreviation entry_offset :: "fd_entry \<Rightarrow> vfs_store \<Rightarrow> nat" where
  "entry_offset e s \<equiv> fd_offset (entry_description e s)"

definition modify_description :: "fd_entry \<Rightarrow> (fd_description \<Rightarrow> fd_description) \<Rightarrow> vfs_store \<Rightarrow> vfs_store" where
  "modify_description e f s =
     s\<lparr>vs_descriptions := (vs_descriptions s)(fe_description e := f (entry_description e s))\<rparr>"

definition set_offset :: "fd_entry \<Rightarrow> nat \<Rightarrow> vfs_store \<Rightarrow> vfs_store" where
  "set_offset e n = modify_description e (\<lambda>d. d\<lparr>fd_offset := n\<rparr>)"

text \<open>An operation on the entry of a descriptor.\<close>

definition with_entry :: "int \<Rightarrow> (fd_entry \<Rightarrow> 'a fd_op) \<Rightarrow> 'a fd_op" where
  "with_entry fd f s = st_bind (st_lift (fd_lookup (fst s) fd)) f s"

definition set_fd_flags :: "int \<Rightarrow> u32 \<Rightarrow> unit fd_op" where
  "set_fd_flags fd flags = set_cloexec fd (flags AND FD_CLOEXEC \<noteq> 0)"

definition get_fd_flags :: "fd_table \<Rightarrow> int \<Rightarrow> u32 vfs_result" where
  "get_fd_flags t fd = and_then (cloexec_flag t fd) (\<lambda>c. Ok (if c then FD_CLOEXEC else 0))"

definition status_flags :: "fd_table \<times> vfs_store \<Rightarrow> int \<Rightarrow> u32 vfs_result" where
  "status_flags s fd = and_then (fd_lookup (fst s) fd) (\<lambda>e. Ok (entry_flags e (snd s)))"

definition set_status_flags :: "int \<Rightarrow> u32 \<Rightarrow> unit fd_op" where
  "set_status_flags fd flags =
     with_entry fd (\<lambda>e. st_modify (on_store (\<lambda>s.
       modify_description e (\<lambda>d. d\<lparr>fd_flags := with_status_flags (fd_flags d) flags\<rparr>) s)))"

definition pipe_capacity :: "fd_table \<times> vfs_store \<Rightarrow> int \<Rightarrow> nat vfs_result" where
  "pipe_capacity s fd =
     and_then (fd_lookup (fst s) fd) (\<lambda>e.
     and_then (pipe_node (fe_file e)) (\<lambda>a.
     Ok (ps_capacity (pi_state (vs_pipes (snd s) a)))))"

definition set_pipe_capacity :: "int \<Rightarrow> nat \<Rightarrow> nat fd_op" where
  "set_pipe_capacity fd capacity =
     with_entry fd (\<lambda>e.
     st_bind (st_lift (pipe_node (fe_file e))) (\<lambda>a.
     in_store (pipe_st a (set_capacity capacity))))"

definition open_count :: "fd_table \<Rightarrow> nat \<Rightarrow> nat" where
  "open_count t i = length (filter (\<lambda>e. fe_inode_id e = i) (bt_values (ft_entries t)))"

definition rebind_paths :: "guest_path \<Rightarrow> guest_path \<Rightarrow> fd_table \<Rightarrow> fd_table" where
  "rebind_paths old_path new_path t =
     t\<lparr>ft_entries := bt_map_values (entry_rebind_path old_path new_path) (ft_entries t)\<rparr>"

section \<open>Readiness\<close>

definition available_bytes :: "path_tree \<Rightarrow> fd_table \<times> vfs_store \<Rightarrow> int \<Rightarrow> nat vfs_result" where
  "available_bytes tree s fd =
     and_then (fd_lookup (fst s) fd) (\<lambda>e.
       if fe_kind e = FRegular \<or> fe_kind e = FSymlink then
         and_then (ok_or (lookup_inode tree (fe_inode_id e)) NoEntry) (\<lambda>node.
         Ok (fa_size (pn_attr node) - entry_offset e (snd s)))
       else if fe_kind e = FPipeRead \<or> fe_kind e = FPipeWrite then
         and_then (pipe_node (fe_file e)) (\<lambda>a. Ok (pipe_available (pi_state (vs_pipes (snd s) a))))
       else Ok 0)"

record fd_readiness =
  rd_readable :: bool
  rd_writable :: bool
  rd_hang_up :: bool
  rd_error :: bool

definition readiness :: "bool \<Rightarrow> bool \<Rightarrow> bool \<Rightarrow> fd_readiness" where
  "readiness r w h = \<lparr>rd_readable = r, rd_writable = w, rd_hang_up = h, rd_error = False\<rparr>"

definition poll_readiness :: "fd_table \<times> vfs_store \<Rightarrow> int \<Rightarrow> fd_readiness vfs_result" where
  "poll_readiness s fd =
     and_then (fd_lookup (fst s) fd) (\<lambda>e.
       let flags = entry_flags e (snd s) in
       (case fe_kind e of
          FRegular \<Rightarrow> Ok (readiness True (can_write flags) False)
        | FSymlink \<Rightarrow> Ok (readiness True (can_write flags) False)
        | FDirectory \<Rightarrow> Ok (readiness True (can_write flags) False)
        | FDev kind \<Rightarrow>
            Ok (readiness (kind \<in> {DevNull, DevZero, DevUrandom} \<and> can_read flags) (can_write flags) False)
        | FStdio _ \<Rightarrow> Ok (readiness False (can_write flags) False)
        | FPipeRead \<Rightarrow>
            and_then (pipe_node (fe_file e)) (\<lambda>a.
              let p = pi_state (vs_pipes (snd s) a) in
              Ok (readiness (pipe_available p > 0 \<or> ps_writers p = 0) False (ps_writers p = 0)))
        | FPipeWrite \<Rightarrow>
            and_then (pipe_node (fe_file e)) (\<lambda>a.
              let p = pi_state (vs_pipes (snd s) a) in
              Ok (readiness False (ps_readers p > 0 \<and> pipe_available p < ps_capacity p) (ps_readers p = 0)))
        | FSocket \<Rightarrow> Ok (readiness False False False)
        | FEpoll \<Rightarrow> Ok (readiness False False False)
        | FEventfd \<Rightarrow>
            and_then (eventfd_node (fe_file e)) (\<lambda>a.
              let c = vs_eventfds (snd s) a in
              Ok (readiness (eventfd_readable c) (eventfd_writable c) False))))"

section \<open>Reading and writing\<close>

fun dev_read :: "dev_node_kind \<Rightarrow> nat \<Rightarrow> u8 list store_op" where
  "dev_read DevNull len = st_ok []"
| "dev_read DevZero len = st_ok (replicate len 0)"
| "dev_read DevUrandom len = fill_urandom len"
| "dev_read DevStdin len = st_ok []"
| "dev_read _ len = st_err BadFd"

text \<open>The node behind a readable regular file or link.\<close>

definition readable_node :: "path_tree \<Rightarrow> nat \<Rightarrow> path_node vfs_result" where
  "readable_node tree i =
     and_then (ok_or (lookup_inode tree i) NoEntry) (\<lambda>node.
     if attr_is_directory (pn_attr node) then Err IsDirectory else Ok node)"

definition read_file_entry :: "path_tree \<Rightarrow> proc_self_data \<Rightarrow> fd_entry \<Rightarrow> nat \<Rightarrow> u8 list store_op" where
  "read_file_entry tree proc e len s =
     st_bind (st_lift (readable_node tree (fe_inode_id e))) (\<lambda>node.
     st_bind (read_regular_node_at node proc (entry_offset e s) len None) (\<lambda>data.
       if U64_MAX_NAT < entry_offset e s + length data then st_panic
       else
         st_bind (st_modify (set_offset e (entry_offset e s + length data))) (\<lambda>_.
         st_ok data))) s"

fun read_entry :: "path_tree \<Rightarrow> proc_self_data \<Rightarrow> fd_entry \<Rightarrow> file_kind \<Rightarrow> nat \<Rightarrow> u8 list store_op" where
  "read_entry tree proc e FRegular len = read_file_entry tree proc e len"
| "read_entry tree proc e FSymlink len = read_file_entry tree proc e len"
| "read_entry tree proc e (FDev kind) len = dev_read kind len"
| "read_entry tree proc e FPipeRead len = pipe_read (fe_file e) len"
| "read_entry tree proc e FEventfd len = eventfd_read (fe_file e) len"
| "read_entry tree proc e FDirectory len = st_err IsDirectory"
| "read_entry tree proc e (FStdio Stdin) len = st_ok []"
| "read_entry tree proc e _ len = st_err BadFd"

definition fd_read :: "path_tree \<Rightarrow> proc_self_data \<Rightarrow> int \<Rightarrow> nat \<Rightarrow> u8 list fd_op" where
  "fd_read tree proc fd len =
     with_entry fd (\<lambda>e s.
       if \<not> can_read (entry_flags e (snd s)) then (Err BadFd, s)
       else in_store (read_entry tree proc e (fe_kind e) len) s)"

fun pread_entry :: "path_tree \<Rightarrow> proc_self_data \<Rightarrow> fd_entry \<Rightarrow> file_kind \<Rightarrow> nat \<Rightarrow> nat \<Rightarrow> u8 list store_op" where
  "pread_entry tree proc e FRegular offset len =
     st_bind (st_lift (readable_node tree (fe_inode_id e))) (\<lambda>node.
     read_regular_node_at node proc offset len None)"
| "pread_entry tree proc e FSymlink offset len =
     st_bind (st_lift (readable_node tree (fe_inode_id e))) (\<lambda>node.
     read_regular_node_at node proc offset len None)"
| "pread_entry tree proc e (FDev kind) offset len = dev_read kind len"
| "pread_entry tree proc e _ offset len = st_err BadFd"

definition fd_pread :: "path_tree \<Rightarrow> proc_self_data \<Rightarrow> int \<Rightarrow> nat \<Rightarrow> nat \<Rightarrow> u8 list fd_op" where
  "fd_pread tree proc fd offset len =
     with_entry fd (\<lambda>e s.
       if \<not> can_read (entry_flags e (snd s)) then (Err BadFd, s)
       else in_store (pread_entry tree proc e (fe_kind e) offset len) s)"

definition readlink_open :: "path_tree \<Rightarrow> fd_table \<Rightarrow> int \<Rightarrow> nat \<Rightarrow> string vfs_result" where
  "readlink_open tree t fd len =
     and_then (fd_lookup t fd) (\<lambda>e.
     and_then (ok_or (lookup_inode tree (fe_inode_id e)) NoEntry) (\<lambda>node.
     (case pn_kind node of NSymlink target \<Rightarrow> Ok (take len target) | _ \<Rightarrow> Err InvalidPath)))"

text \<open>An operation that may write a node of the tree; a deferred node reads its host file.\<close>

type_synonym 'a tree_fd_op = "(path_tree \<times> fd_table \<times> vfs_store, 'a, vfs_error) st"

definition at_inode :: "nat \<Rightarrow> (host_files \<Rightarrow> (path_node, 'a, vfs_error) st) \<Rightarrow> 'a tree_fd_op" where
  "at_inode i f s =
     (case s of (tree, t, store) \<Rightarrow>
        (case lookup_inode tree i of
           None \<Rightarrow> (Err NoEntry, s)
         | Some n \<Rightarrow>
             (case store_os_call os_file store of (files, store) \<Rightarrow>
                (case f files n of (r, n) \<Rightarrow> (r, modify_inode i (\<lambda>_. n) tree, t, store)))))"

definition on_tree_fds :: "'a fd_op \<Rightarrow> 'a tree_fd_op" where
  "on_tree_fds f s = (case f (snd s) of (r, fds) \<Rightarrow> (r, fst s, fds))"

text \<open>Where the next write of an entry goes: at the end of the file when it is open for appending.\<close>

definition write_offset :: "fd_entry \<Rightarrow> path_tree \<times> fd_table \<times> vfs_store \<Rightarrow> nat" where
  "write_offset e s =
     (case s of (tree, t, store) \<Rightarrow>
        if flag_append (entry_flags e store)
        then (case lookup_inode tree (fe_inode_id e) of None \<Rightarrow> 0 | Some n \<Rightarrow> fa_size (pn_attr n))
        else entry_offset e store)"

definition write_file_entry :: "fd_entry \<Rightarrow> u8 list \<Rightarrow> nat tree_fd_op" where
  "write_file_entry e buffer s =
     (let offset = write_offset e s in
      st_bind (at_inode (fe_inode_id e) (\<lambda>files. node_write_at files offset buffer)) (\<lambda>count.
      st_bind (st_modify (\<lambda>s. (fst s, on_store (set_offset e (offset + count)) (snd s)))) (\<lambda>_.
      st_ok count)) s)"

definition dev_write :: "dev_node_kind \<Rightarrow> u8 list \<Rightarrow> nat store_op" where
  "dev_write kind buffer = (if kind = DevStdin then st_err BadFd else st_ok (length buffer))"

definition capture_write :: "stdio_kind \<Rightarrow> u8 list \<Rightarrow> nat fd_op" where
  "capture_write kind buffer s =
     (case stdio_write kind buffer (vs_stdio (snd s) (ft_stdio (fst s))) of
        (r, c) \<Rightarrow> (r, on_store (\<lambda>st. st\<lparr>vs_stdio := (vs_stdio st)(ft_stdio (fst s) := c)\<rparr>) s))"

fun write_entry :: "fd_entry \<Rightarrow> file_kind \<Rightarrow> u8 list \<Rightarrow> nat tree_fd_op" where
  "write_entry e FRegular buffer = write_file_entry e buffer"
| "write_entry e (FDev kind) buffer = on_tree_fds (in_store (dev_write kind buffer))"
| "write_entry e FDirectory buffer = st_err IsDirectory"
| "write_entry e FSymlink buffer = st_err InvalidPath"
| "write_entry e FPipeWrite buffer = on_tree_fds (in_store (pipe_write (fe_file e) buffer))"
| "write_entry e FEventfd buffer = on_tree_fds (in_store (eventfd_write (fe_file e) buffer))"
| "write_entry e (FStdio kind) buffer = on_tree_fds (capture_write kind buffer)"
| "write_entry e _ buffer = st_err BadFd"

definition with_tree_entry :: "int \<Rightarrow> (fd_entry \<Rightarrow> 'a tree_fd_op) \<Rightarrow> 'a tree_fd_op" where
  "with_tree_entry fd f s = st_bind (st_lift (fd_lookup (fst (snd s)) fd)) f s"

definition fd_write :: "int \<Rightarrow> u8 list \<Rightarrow> nat tree_fd_op" where
  "fd_write fd buffer =
     with_tree_entry fd (\<lambda>e s.
       if \<not> can_write (entry_flags e (snd (snd s))) then (Err BadFd, s)
       else write_entry e (fe_kind e) buffer s)"

section \<open>Seeking\<close>

datatype seek_whence = Seek_Set | Seek_Cur | Seek_End

definition seek_whence_from_linux :: "u32 \<Rightarrow> seek_whence vfs_result" where
  "seek_whence_from_linux v =
     (if v = 0 then Ok Seek_Set else if v = 1 then Ok Seek_Cur else if v = 2 then Ok Seek_End else Err InvalidPath)"

definition is_seekable :: "file_kind \<Rightarrow> bool" where
  "is_seekable kind \<longleftrightarrow> kind = FRegular \<or> kind = FSymlink \<or> kind = FDirectory"

fun seek_base :: "seek_whence \<Rightarrow> nat \<Rightarrow> nat \<Rightarrow> nat" where
  "seek_base Seek_Set offset sz = 0"
| "seek_base Seek_Cur offset sz = offset"
| "seek_base Seek_End offset sz = sz"

definition seek :: "path_tree \<Rightarrow> int \<Rightarrow> int \<Rightarrow> seek_whence \<Rightarrow> nat fd_op" where
  "seek tree fd offset whence =
     with_entry fd (\<lambda>e s.
       if \<not> is_seekable (fe_kind e) then (Err NotSeekable, s)
       else
         st_bind (st_lift (if fe_kind e = FDirectory then Ok 0
                           else and_then (ok_or (lookup_inode tree (fe_inode_id e)) NoEntry) (\<lambda>n. Ok (fa_size (pn_attr n)))))
         (\<lambda>sz s.
            let next = int (seek_base whence (entry_offset e (snd s)) sz) + offset in
            if next < 0 \<or> next > int U64_MAX_NAT then (Err InvalidPath, s)
            else
              (Ok (nat next),
               on_store (modify_description e (\<lambda>d.
                 d\<lparr>fd_offset := nat next,
                   fd_dir_cursor := (if fe_kind e = FDirectory then nat next else fd_dir_cursor d)\<rparr>)) s)) s)"

section \<open>Directories\<close>

record directory_entry =
  de_inode :: nat
  de_offset :: int
  de_file_type :: u8
  de_name :: string

definition dirent_align_up :: "nat \<Rightarrow> nat \<Rightarrow> nat" where
  "dirent_align_up v alignment = unat ((of_nat (v + alignment - 1) :: u64) AND NOT (of_nat (alignment - 1)))"

definition record_len :: "directory_entry \<Rightarrow> nat" where
  "record_len e = dirent_align_up (19 + length (de_name e) + 1) 8"

definition string_bytes :: "string \<Rightarrow> u8 list" where
  "string_bytes = map of_char"

definition encode_linux_dirent64 :: "directory_entry \<Rightarrow> u8 list vfs_result" where
  "encode_linux_dirent64 e =
     (if 2 ^ 16 \<le> record_len e then Err InvalidPath
      else
        let head = nat_le 8 (de_inode e) @ nat_le 8 (nat (de_offset e mod 2 ^ 64)) @ nat_le 2 (record_len e)
                     @ [de_file_type e] @ string_bytes (de_name e) @ [0]
        in Ok (head @ replicate (record_len e - 19 - length (de_name e) - 1) 0))"

fun nat_decimal :: "nat \<Rightarrow> string" where
  "nat_decimal n = (if n < 10 then [char_of (48 + n)] else nat_decimal (n div 10) @ [char_of (48 + n mod 10)])"

declare nat_decimal.simps [simp del]

definition FIRST_PROC_SELF_FD_LINK_INODE_ID :: nat where "FIRST_PROC_SELF_FD_LINK_INODE_ID = PROC_INODE_ID + 1024"

definition proc_self_fd_link_inode :: "int \<Rightarrow> nat vfs_result" where
  "proc_self_fd_link_inode fd = (if fd < 0 then Err BadFd else id_from FIRST_PROC_SELF_FD_LINK_INODE_ID (nat fd))"

definition proc_fd_children :: "fd_table \<Rightarrow> directory_child list" where
  "proc_fd_children t =
     List.map_filter (\<lambda>fd.
       (case proc_self_fd_link_inode fd of
          Ok i \<Rightarrow> Some \<lparr>dc_name = nat_decimal (nat fd), dc_inode = i, dc_file_type = DT_LNK\<rparr>
        | _ \<Rightarrow> None)) (bt_keys (ft_entries t))"

definition is_proc_self_fd_directory :: "path_tree \<Rightarrow> guest_path \<Rightarrow> bool" where
  "is_proc_self_fd_directory tree p \<longleftrightarrow> map_option pn_kind (lookup_path tree p) = Some (NProc ProcFdDirectory)"

record listing_source =
  ls_inode :: nat
  ls_path :: guest_path
  ls_cacheable :: bool

definition directory_listing_source :: "path_tree \<Rightarrow> fd_table \<Rightarrow> int \<Rightarrow> listing_source vfs_result" where
  "directory_listing_source tree t fd =
     and_then (fd_lookup t fd) (\<lambda>e.
       if fe_kind e \<noteq> FDirectory then Err NotDirectory
       else
         and_then (ok_or (fe_path e) BadFd) (\<lambda>p.
         and_then (ok_or (lookup_path tree p) NoEntry) (\<lambda>node.
         Ok \<lparr>ls_inode = pn_inode_id node, ls_path = p, ls_cacheable = \<not> is_proc_self_fd_directory tree p\<rparr>)))"

text \<open>\<open>i64::try_from(index + 3).unwrap_or(i64::MAX)\<close>.\<close>

definition child_entry :: "nat \<Rightarrow> directory_child \<Rightarrow> directory_entry" where
  "child_entry index c =
     \<lparr>de_inode = dc_inode c, de_offset = min (int (index + 3)) I64_MAX, de_file_type = dc_file_type c,
      de_name = dc_name c\<rparr>"

definition directory_entries_from_children ::
  "path_tree \<Rightarrow> guest_path \<Rightarrow> directory_child list \<Rightarrow> directory_entry list vfs_result" where
  "directory_entries_from_children tree p children =
     and_then (ok_or (lookup_path tree p) NoEntry) (\<lambda>node.
     Ok ([\<lparr>de_inode = pn_inode_id node, de_offset = 1, de_file_type = DT_DIR, de_name = ''.''\<rparr>,
          \<lparr>de_inode = pn_inode_id node, de_offset = 2, de_file_type = DT_DIR, de_name = ''..''\<rparr>]
         @ map (\<lambda>(index, c). child_entry index c) (enumerate 0 (sort_key dc_name children))))"

definition directory_entries :: "path_tree \<Rightarrow> fd_table \<Rightarrow> guest_path \<Rightarrow> directory_entry list vfs_result" where
  "directory_entries tree t p =
     and_then (static_children tree p) (\<lambda>children.
     directory_entries_from_children tree p
       (children @ (if is_proc_self_fd_directory tree p then proc_fd_children t else [])))"

definition static_directory_entries :: "path_tree \<Rightarrow> guest_path \<Rightarrow> directory_entry list vfs_result" where
  "static_directory_entries tree p = and_then (static_children tree p) (directory_entries_from_children tree p)"

fun fitting :: "nat \<Rightarrow> nat \<Rightarrow> directory_entry list \<Rightarrow> directory_entry list" where
  "fitting max_bytes used [] = []"
| "fitting max_bytes used (e # es) =
     (if used + record_len e > max_bytes then [] else e # fitting max_bytes (used + record_len e) es)"

definition consume_directory_entries :: "int \<Rightarrow> nat \<Rightarrow> directory_entry list \<Rightarrow> directory_entry list fd_op" where
  "consume_directory_entries fd max_bytes entries =
     with_entry fd (\<lambda>e s.
       let cursor = fd_dir_cursor (entry_description e (snd s));
           returned = fitting max_bytes 0 (drop cursor entries)
       in if returned = [] then (if drop cursor entries = [] then (Ok [], s) else (Err InvalidPath, s))
          else
            (Ok returned,
             on_store (modify_description e (\<lambda>d.
               d\<lparr>fd_dir_cursor := cursor + length returned, fd_offset := cursor + length returned\<rparr>)) s))"

definition fd_getdents64 :: "path_tree \<Rightarrow> int \<Rightarrow> nat \<Rightarrow> directory_entry list fd_op" where
  "fd_getdents64 tree fd max_bytes s =
     st_bind (st_lift (directory_listing_source tree (fst s) fd)) (\<lambda>source.
     st_bind (st_lift (directory_entries tree (fst s) (ls_path source))) (\<lambda>entries.
     consume_directory_entries fd max_bytes entries)) s"

end
