(* ===== verification/Vfs_Pipe.thy ===== *)
theory Vfs_Pipe
  imports Vfs_Io
begin

text \<open>
  The contract of a pipe (\<open>pipe_read\<close>, \<open>pipe_write\<close> and their host variants in \<open>mcr-vfs/src/io_helpers.rs\<close>,
  \<open>PipeState\<close> in \<open>node.rs\<close>).  A pipe created with a pair of host handles keeps its bytes in the host and only counts
  them in its own buffer, as zeroes; without one it keeps the bytes itself.  Both kinds implement the locale
  \<open>byte_queue\<close>.  What the host does with the bytes is a hypothesis: its pipe is a queue.
\<close>

section \<open>Queues of bytes\<close>

text \<open>A sequence of operations: the bytes that were accepted, the bytes that were delivered, and the final
  state.\<close>

inductive queue_run ::
  "('s \<Rightarrow> u8 list \<Rightarrow> 's \<Rightarrow> bool) \<Rightarrow> ('s \<Rightarrow> u8 list \<Rightarrow> 's \<Rightarrow> bool) \<Rightarrow> ('s \<Rightarrow> 's \<Rightarrow> bool) \<Rightarrow> 's \<Rightarrow> u8 list \<Rightarrow> u8 list \<Rightarrow> 's \<Rightarrow> bool"
  for push pull other s where
  begins: "queue_run push pull other s [] [] s"
| pushes: "queue_run push pull other s ins outs t \<Longrightarrow> push t bs t' \<Longrightarrow> queue_run push pull other s (ins @ bs) outs t'"
| pulls: "queue_run push pull other s ins outs t \<Longrightarrow> pull t bs t' \<Longrightarrow> queue_run push pull other s ins (outs @ bs) t'"
| others: "queue_run push pull other s ins outs t \<Longrightarrow> other t t' \<Longrightarrow> queue_run push pull other s ins outs t'"

locale byte_queue =
  fixes ok :: "'s \<Rightarrow> bool" and contents :: "'s \<Rightarrow> u8 list" and bound :: "'s \<Rightarrow> nat"
    and push :: "'s \<Rightarrow> u8 list \<Rightarrow> 's \<Rightarrow> bool" and pull :: "'s \<Rightarrow> u8 list \<Rightarrow> 's \<Rightarrow> bool" and other :: "'s \<Rightarrow> 's \<Rightarrow> bool"
  assumes bounded: "ok s \<Longrightarrow> length (contents s) \<le> bound s"
    and push_law: "ok s \<Longrightarrow> push s bs s' \<Longrightarrow> ok s' \<and> contents s' = contents s @ bs"
    and pull_law: "ok s \<Longrightarrow> pull s bs s' \<Longrightarrow> ok s' \<and> contents s = bs @ contents s'"
    and other_law: "ok s \<Longrightarrow> other s s' \<Longrightarrow> ok s' \<and> contents s' = contents s"
begin

lemma run_conserves:
  assumes "queue_run push pull other s ins outs t" "ok s"
  shows "ok t" "outs @ contents t = contents s @ ins" "length (contents t) \<le> bound t"
proof -
  have "ok t \<and> outs @ contents t = contents s @ ins"
    using assms
  proof induction
    case (pushes ins outs t bs t')
    then show ?case using push_law by (metis append_assoc)
  next
    case (pulls ins outs t bs t')
    then show ?case using pull_law by (metis append_assoc)
  next
    case (others ins outs t t')
    then show ?case using other_law by metis
  qed simp
  then show "ok t" "outs @ contents t = contents s @ ins" "length (contents t) \<le> bound t" using bounded by auto
qed

end

section \<open>The pipes of the store\<close>

text \<open>The state of a pipe: the store, and the bytes that are in its host pipe.\<close>

type_synonym pipe_view = "vfs_store \<times> u8 list"

abbreviation pipe_at :: "nat \<Rightarrow> pipe_view \<Rightarrow> pipe_state" where
  "pipe_at a x \<equiv> pi_state (vs_pipes (fst x) a)"

abbreviation has_pair :: "nat \<Rightarrow> pipe_view \<Rightarrow> bool" where
  "has_pair a x \<equiv> pi_host_pair (vs_pipes (fst x) a)"

definition pipe_contents :: "nat \<Rightarrow> pipe_view \<Rightarrow> u8 list" where
  "pipe_contents a x = (if has_pair a x then snd x else ps_buffer (pipe_at a x))"

definition pipe_ok :: "nat \<Rightarrow> pipe_view \<Rightarrow> bool" where
  "pipe_ok a x \<longleftrightarrow> pipe_available (pipe_at a x) = length (pipe_contents a x)
     \<and> length (pipe_contents a x) \<le> ps_capacity (pipe_at a x)"

definition pipe_room :: "nat \<Rightarrow> pipe_view \<Rightarrow> nat" where
  "pipe_room a x = ps_capacity (pipe_at a x) - length (pipe_contents a x)"

text \<open>The host pipe is a queue.  A write of some bytes takes a nonempty prefix of them and appends it, a read of
  at most \<open>n\<close> bytes returns and removes a nonempty prefix of what is there, and a call that fails moves nothing.\<close>

definition host_takes :: "vfs_store \<Rightarrow> u8 list \<Rightarrow> u8 list \<Rightarrow> u8 list \<Rightarrow> bool" where
  "host_takes s data q q' \<longleftrightarrow> (case os_write (vs_os s) (vs_calls s) data of
       Inl e \<Rightarrow> q' = q
     | Inr n \<Rightarrow> 0 < n \<and> n \<le> length data \<and> q' = q @ take n data)"

definition host_gives :: "vfs_store \<Rightarrow> nat \<Rightarrow> u8 list \<Rightarrow> u8 list \<Rightarrow> bool" where
  "host_gives s n q q' \<longleftrightarrow> (case os_read (vs_os s) (vs_calls s) n of
       Inl e \<Rightarrow> q' = q
     | Inr (bytes, k) \<Rightarrow> (q \<noteq> [] \<longrightarrow> 0 < k) \<and> k \<le> n \<and> k \<le> length q \<and> map bytes [0..<k] = take k q \<and> q' = drop k q)"

text \<open>A write of \<open>bs\<close> and a read into a buffer of \<open>len\<close> bytes, with their answers.  The host pipe changes by the host
  call, when there is one: a write hands the host as many bytes as there is room for, a read asks for as many as
  are there.\<close>

definition pipe_writes :: "nat \<Rightarrow> u8 list \<Rightarrow> pipe_view \<Rightarrow> nat vfs_result \<Rightarrow> pipe_view \<Rightarrow> bool" where
  "pipe_writes a bs x r x' \<longleftrightarrow> (\<exists>f. pipe_address f = Some a \<and> pipe_write f bs (fst x) = (r, fst x'))
     \<and> (if vs_calls (fst x') = vs_calls (fst x) then snd x' = snd x
        else host_takes (fst x) (take (pipe_room a x) bs) (snd x) (snd x'))"

definition pipe_reads :: "nat \<Rightarrow> nat \<Rightarrow> pipe_view \<Rightarrow> u8 list vfs_result \<Rightarrow> pipe_view \<Rightarrow> bool" where
  "pipe_reads a len x r x' \<longleftrightarrow> (\<exists>f. pipe_address f = Some a \<and> pipe_read f len (fst x) = (r, fst x'))
     \<and> (if vs_calls (fst x') = vs_calls (fst x) then snd x' = snd x
        else host_gives (fst x) (min (length (pipe_contents a x)) len) (snd x) (snd x'))"

text \<open>What else happens to a pipe: its capacity is changed, descriptors of it are opened and closed, and any
  operation on other objects.\<close>

definition pipe_other :: "nat \<Rightarrow> pipe_view \<Rightarrow> pipe_view \<Rightarrow> bool" where
  "pipe_other a x x' \<longleftrightarrow> snd x' = snd x \<and> ((\<exists>c. fst x' = snd (pipe_st a (set_capacity c) (fst x)))
     \<or> (\<exists>f. fst x' = register_fd_endpoint f (fst x) \<or> fst x' = unregister_fd_endpoint f (fst x))
     \<or> vs_pipes (fst x') a = vs_pipes (fst x) a)"

definition pipe_push :: "nat \<Rightarrow> pipe_view \<Rightarrow> u8 list \<Rightarrow> pipe_view \<Rightarrow> bool" where
  "pipe_push a x bs x' \<longleftrightarrow> (\<exists>buffer r. pipe_writes a buffer x r x' \<and> bs = (case r of Ok n \<Rightarrow> take n buffer | _ \<Rightarrow> []))"

definition pipe_pull :: "nat \<Rightarrow> pipe_view \<Rightarrow> u8 list \<Rightarrow> pipe_view \<Rightarrow> bool" where
  "pipe_pull a x bs x' \<longleftrightarrow> (\<exists>len r. pipe_reads a len x r x' \<and> bs = (case r of Ok data \<Rightarrow> data | _ \<Rightarrow> []))"

abbreviation pipe_run :: "nat \<Rightarrow> pipe_view \<Rightarrow> u8 list \<Rightarrow> u8 list \<Rightarrow> pipe_view \<Rightarrow> bool" where
  "pipe_run a \<equiv> queue_run (pipe_push a) (pipe_pull a) (pipe_other a)"

section \<open>What a write and a read do\<close>

definition write_answer :: "nat \<Rightarrow> u8 list \<Rightarrow> pipe_view \<Rightarrow> nat vfs_result \<Rightarrow> bool" where
  "write_answer a bs x r \<longleftrightarrow>
     (if ps_readers (pipe_at a x) = 0 then r = Err BrokenPipe
      else if bs = [] then r = Ok 0
      else if pipe_room a x = 0 then r = Err WouldBlock
      else (\<exists>n. r = Ok n \<and> 0 < n \<and> n \<le> min (pipe_room a x) (length bs)
               \<and> (\<not> has_pair a x \<longrightarrow> n = min (pipe_room a x) (length bs)))
         \<or> has_pair a x \<and> (\<exists>e. os_write (vs_os (fst x)) (vs_calls (fst x)) (take (pipe_room a x) bs) = Inl e
               \<and> r = Err (vfs_error_from_host e)))"

definition read_answer :: "nat \<Rightarrow> nat \<Rightarrow> pipe_view \<Rightarrow> u8 list vfs_result \<Rightarrow> bool" where
  "read_answer a len x r \<longleftrightarrow>
     (if len = 0 then r = Ok []
      else if pipe_contents a x = [] then r = (if 0 < ps_writers (pipe_at a x) then Err WouldBlock else Ok [])
      else (\<exists>n. r = Ok (take n (pipe_contents a x)) \<and> 0 < n \<and> n \<le> len \<and> (\<not> has_pair a x \<longrightarrow> n = len))
         \<or> has_pair a x \<and> (\<exists>e. os_read (vs_os (fst x)) (vs_calls (fst x)) (min (length (pipe_contents a x)) len) = Inl e
               \<and> r = Err (vfs_error_from_host e)))"

lemma modify_pipe_at [simp]:
  "vs_pipes (modify_pipe a g s) b = (if b = a then (vs_pipes s a)\<lparr>pi_state := g (pi_state (vs_pipes s a))\<rparr> else vs_pipes s b)"
  "vs_calls (modify_pipe a g s) = vs_calls s" "vs_os (modify_pipe a g s) = vs_os s"
  by (simp_all add: modify_pipe_def)

lemma pipe_write_eq:
  assumes "pipe_address f = Some a"
  shows "pipe_write f bs s = (let p = pi_state (vs_pipes s a) in
    if ps_readers p = 0 then (Err BrokenPipe, s)
    else if ps_capacity p = pipe_available p \<and> bs \<noteq> [] then (Err WouldBlock, s)
    else if pi_host_pair (vs_pipes s a) then pipe_host_write a bs s else pipe_st a (pipe_state_write bs) s)"
  using assms by (simp add: pipe_write_def pipe_node_def ok_or_def st_bind_def st_lift_def Let_def)

lemma pipe_read_eq:
  assumes "pipe_address f = Some a"
  shows "pipe_read f len s = (let p = pi_state (vs_pipes s a) in
    if pipe_available p = 0 \<and> len \<noteq> 0 \<and> ps_writers p > 0 then (Err WouldBlock, s)
    else if pi_host_pair (vs_pipes s a) then pipe_host_read a len s
    else (Ok (take len (ps_buffer p)), modify_pipe a (\<lambda>p. p\<lparr>ps_buffer := drop len (ps_buffer p)\<rparr>) s))"
proof -
  have t: "take (min (length xs) len) xs = take len xs" "drop (min (length xs) len) xs = drop len xs" for xs :: "u8 list"
    by (simp_all add: min_def)
  show ?thesis
    using assms by (simp add: pipe_read_def pipe_node_def ok_or_def st_bind_def st_lift_def Let_def pipe_st_def
        pipe_state_read_def t modify_pipe_def)
qed

lemma pipe_state_write_room:
  assumes "length (ps_buffer p) < ps_capacity p \<or> bs = []"
  shows "pipe_state_write bs p = (let n = min (ps_capacity p - length (ps_buffer p)) (length bs)
    in (Ok n, p\<lparr>ps_buffer := ps_buffer p @ take n bs\<rparr>))"
  using assms by (auto simp: pipe_state_write_def Let_def)

lemma pipe_host_write_eq:
  assumes "count = min (ps_capacity (pi_state (vs_pipes s a)) - pipe_available (pi_state (vs_pipes s a))) (length bs)" "0 < count"
  shows "pipe_host_write a bs s = (case os_write (vs_os s) (vs_calls s) (take count bs) of
      Inl e \<Rightarrow> (Err (vfs_error_from_host e), s\<lparr>vs_calls := Suc (vs_calls s)\<rparr>)
    | Inr n \<Rightarrow> (Ok (min n count), modify_pipe a (\<lambda>p. p\<lparr>ps_buffer := ps_buffer p @ replicate (min n count) 0\<rparr>)
        (s\<lparr>vs_calls := Suc (vs_calls s)\<rparr>)))"
proof -
  have r: "record_written (min n count) (pi_state (vs_pipes s a)) = (Ok (min n count),
      (pi_state (vs_pipes s a))\<lparr>ps_buffer := ps_buffer (pi_state (vs_pipes s a)) @ replicate (min n count) 0\<rparr>)" for n
    using assms(1) by (simp add: record_written_def pipe_available_def Let_def)
  show ?thesis
    unfolding pipe_host_write_def Let_def assms(1) [symmetric]
    using assms(2) r by (simp add: st_bind_def host_call_def pipe_st_def modify_pipe_def split: sum.splits)
qed

lemma pipe_host_read_eq:
  assumes "count = min (pipe_available (pi_state (vs_pipes s a))) len" "0 < count"
  shows "pipe_host_read a len s = (case os_read (vs_os s) (vs_calls s) count of
      Inl e \<Rightarrow> (Err (vfs_error_from_host e), s\<lparr>vs_calls := Suc (vs_calls s)\<rparr>)
    | Inr (bytes, k) \<Rightarrow>
        if min k len \<le> count then
          (Ok (map bytes [0..<min k len]), modify_pipe a (discard_readable (min k len)) (s\<lparr>vs_calls := Suc (vs_calls s)\<rparr>))
        else (Panic, s\<lparr>vs_calls := Suc (vs_calls s)\<rparr>))"
  unfolding pipe_host_read_def Let_def assms(1) [symmetric]
  using assms(2) by (auto simp: st_bind_def host_call_def st_lift_def slice_def st_modify_def st_ok_def take_map take_upt
      split: sum.splits)

lemma pipe_writes_law:
  assumes ok: "pipe_ok a x" and w: "pipe_writes a bs x r x'"
  shows "write_answer a bs x r \<and> pipe_ok a x'
    \<and> pipe_contents a x' = pipe_contents a x @ (case r of Ok n \<Rightarrow> take n bs | _ \<Rightarrow> [])"
proof -
  obtain s q s' q' where x: "x = (s, q)" "x' = (s', q')" by (cases x, cases x')
  let ?p = "pi_state (vs_pipes s a)"
  define room where "room = ps_capacity ?p - pipe_available ?p"
  define count where "count = min room (length bs)"
  obtain f where f: "pipe_address f = Some a" "pipe_write f bs s = (r, s')" using w x by (auto simp: pipe_writes_def)
  have le: "pipe_available ?p \<le> ps_capacity ?p" and room: "pipe_room a x = room"
    using ok x by (auto simp: pipe_ok_def pipe_room_def room_def)
  have tk: "take room bs = take count bs" by (simp add: count_def min_def)
  have ghost: "if vs_calls s' = vs_calls s then q' = q else host_takes s (take count bs) q q'"
    using w x room tk by (simp add: pipe_writes_def cong: if_cong)
  consider (refused) "ps_readers ?p = 0 \<or> room = 0 \<and> bs \<noteq> []" | (empty) "0 < ps_readers ?p" "bs = []"
    | (stored) "0 < ps_readers ?p" "0 < count"
    by (cases "bs = []"; cases "room = 0"; cases "ps_readers ?p = 0") (auto simp: count_def)
  then show ?thesis
  proof cases
    case refused
    then have "s' = s" "r = (if ps_readers ?p = 0 then Err BrokenPipe else Err WouldBlock)"
      using f(2) le by (auto simp: pipe_write_eq [OF f(1)] room_def Let_def split: if_splits)
    then show ?thesis using ok x refused ghost room by (auto simp: write_answer_def)
  next
    case empty
    have "pipe_host_write a [] s = (Ok 0, s)" by (simp add: pipe_host_write_def)
    moreover have "pipe_st a (pipe_state_write []) s = (Ok 0, modify_pipe a (\<lambda>p. p) s)"
      by (simp add: pipe_st_def pipe_state_write_def modify_pipe_def)
    ultimately have "r = Ok 0" "vs_pipes s' a = vs_pipes s a" "vs_calls s' = vs_calls s"
      using f(2) empty by (auto simp: pipe_write_eq [OF f(1)] Let_def split: if_splits)
    then show ?thesis using ok x empty ghost by (auto simp: write_answer_def pipe_ok_def pipe_contents_def split: if_splits)
  next
    case stored
    then have c: "\<not> (ps_capacity ?p = pipe_available ?p \<and> bs \<noteq> [])" "bs \<noteq> []" "0 < room" by (auto simp: count_def room_def)
    show ?thesis
    proof (cases "pi_host_pair (vs_pipes s a)")
      case False
      have "length (ps_buffer ?p) < ps_capacity ?p" using c(3) by (simp add: room_def pipe_available_def)
      then have r: "r = Ok count" and s': "s' = modify_pipe a (\<lambda>p. ?p\<lparr>ps_buffer := ps_buffer ?p @ take count bs\<rparr>) s"
        using f(2) stored(1) c False by (auto simp: pipe_write_eq [OF f(1)] Let_def pipe_st_def pipe_state_write_room count_def
            room_def pipe_available_def)
      have l: "length (ps_buffer ?p) + count \<le> ps_capacity ?p" using le by (simp add: count_def room_def pipe_available_def)
      show ?thesis
        using stored c False room ok l by (simp add: x r s' write_answer_def pipe_ok_def pipe_contents_def pipe_available_def count_def)
    next
      case True
      note P = pipe_host_write_eq [OF count_def [unfolded room_def] stored(2)]
      have W: "pipe_write f bs s = pipe_host_write a bs s"
        using stored(1) c True by (simp add: pipe_write_eq [OF f(1)] Let_def)
      show ?thesis
      proof (cases "os_write (vs_os s) (vs_calls s) (take count bs)")
        case (Inl e)
        then have r: "r = Err (vfs_error_from_host e)" "s' = s\<lparr>vs_calls := Suc (vs_calls s)\<rparr>" using f(2) W P by auto
        then have "q' = q" using ghost Inl by (simp add: host_takes_def)
        then show ?thesis
          using tk stored c True room ok Inl by (simp add: x r write_answer_def pipe_ok_def pipe_contents_def)
      next
        case (Inr n)
        have h: "0 < n" "n \<le> count" "q' = q @ take n (take count bs)"
          using ghost Inr f(2) W P by (auto simp: host_takes_def count_def split: if_splits)
        then have r: "r = Ok n"
          and s': "s' = modify_pipe a (\<lambda>p. p\<lparr>ps_buffer := ps_buffer p @ replicate n 0\<rparr>) (s\<lparr>vs_calls := Suc (vs_calls s)\<rparr>)"
          using f(2) W P Inr by (auto simp: min_def)
        have l: "length (ps_buffer ?p) + n \<le> ps_capacity ?p" using le h(2) by (auto simp: count_def room_def pipe_available_def)
        have t: "take n (take count bs) = take n bs" "n \<le> length bs" "n \<le> room" using h(2) by (auto simp: count_def)
        show ?thesis
          using stored c True room ok l h t by (simp add: x r s' write_answer_def pipe_ok_def pipe_contents_def pipe_available_def)
      qed
    qed
  qed
qed

lemma pipe_reads_law:
  assumes ok: "pipe_ok a x" and w: "pipe_reads a len x r x'"
  shows "read_answer a len x r \<and> pipe_ok a x'
    \<and> pipe_contents a x = (case r of Ok data \<Rightarrow> data | _ \<Rightarrow> []) @ pipe_contents a x'"
proof -
  obtain s q s' q' where x: "x = (s, q)" "x' = (s', q')" by (cases x, cases x')
  let ?p = "pi_state (vs_pipes s a)" and ?s = "s\<lparr>vs_calls := Suc (vs_calls s)\<rparr>"
  define count where "count = min (pipe_available ?p) len"
  obtain f where f: "pipe_address f = Some a" "pipe_read f len s = (r, s')" using w x by (auto simp: pipe_reads_def)
  have av: "pipe_available ?p = length (pipe_contents a x)" using ok x by (simp add: pipe_ok_def)
  have ghost: "if vs_calls s' = vs_calls s then q' = q else host_gives s count q q'"
    using w x av by (simp add: pipe_reads_def count_def cong: if_cong)
  show ?thesis
  proof (cases "pi_host_pair (vs_pipes s a)")
    case False
    show ?thesis
    proof (cases "pipe_available ?p = 0 \<and> len \<noteq> 0 \<and> ps_writers ?p > 0")
      case True
      then have "s' = s" "r = Err WouldBlock" using f(2) by (auto simp: pipe_read_eq [OF f(1)] Let_def)
      then show ?thesis using ok x True ghost av by (simp add: read_answer_def)
    next
      case got: False
      then have r: "r = Ok (take len (ps_buffer ?p))" and s': "s' = modify_pipe a (\<lambda>p. p\<lparr>ps_buffer := drop len (ps_buffer p)\<rparr>) s"
        using f(2) False by (auto simp: pipe_read_eq [OF f(1)] Let_def)
      show ?thesis
        using got False ok by (auto simp: x r s' read_answer_def pipe_ok_def pipe_contents_def pipe_available_def)
    qed
  next
    case True
    have q: "pipe_contents a x = q" using True x by (simp add: pipe_contents_def)
    show ?thesis
    proof (cases "count = 0")
      case z: True
      then have "s' = s" "r = (if q = [] \<and> len \<noteq> 0 \<and> ps_writers ?p > 0 then Err WouldBlock else Ok [])"
        using f(2) True av q by (auto simp: pipe_read_eq [OF f(1)] Let_def pipe_host_read_def count_def split: if_splits)
      moreover have "q = [] \<or> len = 0" using z av q by (simp add: count_def min_def split: if_splits)
      ultimately show ?thesis using ok ghost q True by (auto simp: x read_answer_def)
    next
      case False
      then have pos: "0 < count" "0 < len" "q \<noteq> []" using av q by (auto simp: count_def)
      note P = pipe_host_read_eq [OF count_def pos(1)]
      have W: "pipe_read f len s = pipe_host_read a len s"
        using True av q pos by (simp add: pipe_read_eq [OF f(1)] Let_def)
      show ?thesis
      proof (cases "os_read (vs_os s) (vs_calls s) count")
        case (Inl e)
        then have r: "r = Err (vfs_error_from_host e)" "s' = ?s" using f(2) W P by auto
        then have "q' = q" using ghost Inl by (simp add: host_gives_def)
        moreover have "min (length q) len = count" using av q by (simp add: count_def)
        ultimately show ?thesis
          using pos True ok Inl q by (simp add: x r read_answer_def) (simp add: pipe_ok_def pipe_contents_def)
      next
        case (Inr bk)
        obtain bytes k where bk: "bk = (bytes, k)" by fastforce
        have calls: "vs_calls s' \<noteq> vs_calls s" using f(2) W P Inr bk by (auto split: if_splits)
        then have h: "0 < k" "k \<le> count" "k \<le> length q" "map bytes [0..<k] = take k q" "q' = drop k q"
          using ghost Inr bk pos by (auto simp: host_gives_def)
        then have kl: "min k len = k" "k \<le> len" by (auto simp: count_def)
        then have r: "r = Ok (take k q)" and s': "s' = modify_pipe a (discard_readable k) ?s"
          using f(2) W P Inr bk h by auto
        show ?thesis
          using pos True ok h kl q av
          by (auto simp: x r s' read_answer_def pipe_ok_def pipe_contents_def pipe_available_def discard_readable_def)
      qed
    qed
  qed
qed

lemma endpoint_kept [simp]:
  "ps_buffer (register_endpoint k s) = ps_buffer s" "ps_capacity (register_endpoint k s) = ps_capacity s"
  "ps_buffer (unregister_endpoint k s) = ps_buffer s" "ps_capacity (unregister_endpoint k s) = ps_capacity s"
  by (cases k; simp)+

lemma pipe_other_law:
  assumes ok: "pipe_ok a x" and o: "pipe_other a x x'"
  shows "pipe_ok a x' \<and> pipe_contents a x' = pipe_contents a x"
proof -
  let ?p = "pipe_at a x"
  have q: "snd x' = snd x" using o by (simp add: pipe_other_def)
  have K: "pi_host_pair (vs_pipes (fst x') a) = pi_host_pair (vs_pipes (fst x) a) \<and> ps_buffer (pipe_at a x') = ps_buffer ?p
      \<and> pipe_available ?p \<le> ps_capacity (pipe_at a x')"
    using o ok unfolding pipe_other_def
  proof (elim conjE disjE exE)
    fix c assume "fst x' = snd (pipe_st a (set_capacity c) (fst x))"
    then have "vs_pipes (fst x') a = (vs_pipes (fst x) a)\<lparr>pi_state := snd (set_capacity c ?p)\<rparr>"
      by (simp add: pipe_st_def split: prod.splits)
    moreover have "ps_buffer (snd (set_capacity c ?p)) = ps_buffer ?p \<and> pipe_available ?p \<le> ps_capacity (snd (set_capacity c ?p))"
      using ok by (auto simp: set_capacity_def Let_def pipe_ok_def pipe_available_def)
    ultimately show ?thesis by simp
  next
    fix f assume "fst x' = register_fd_endpoint f (fst x)"
    then show ?thesis using ok by (auto simp: register_fd_endpoint_def pipe_ok_def split: option.splits)
  next
    fix f assume "fst x' = unregister_fd_endpoint f (fst x)"
    then show ?thesis using ok by (auto simp: unregister_fd_endpoint_def pipe_ok_def split: option.splits)
  next
    assume "vs_pipes (fst x') a = vs_pipes (fst x) a"
    then show ?thesis using ok by (simp add: pipe_ok_def)
  qed
  have "pipe_contents a x' = pipe_contents a x" using K q by (simp add: pipe_contents_def)
  moreover have "pipe_available (pipe_at a x') = pipe_available ?p" using K by (simp add: pipe_available_def)
  ultimately show ?thesis using ok K unfolding pipe_ok_def by simp
qed

interpretation pq: byte_queue "pipe_ok a" "pipe_contents a" "\<lambda>x. ps_capacity (pipe_at a x)" "pipe_push a" "pipe_pull a" "pipe_other a" for a
proof (unfold_locales, goal_cases)
  case (1 x)
  then show ?case by (simp add: pipe_ok_def)
next
  case (2 x bs x')
  then show ?case using pipe_writes_law [OF 2(1)] unfolding pipe_push_def by blast
next
  case (3 x bs x')
  then show ?case using pipe_reads_law [OF 3(1)] unfolding pipe_pull_def by blast
next
  case (4 x x')
  then show ?case by (rule pipe_other_law)
qed

text \<open>C35. A pipe is a bounded queue of bytes, whether it keeps its bytes itself or in a pair of host handles, given
  that the host pipe is a queue.  From its creation on, through any sequence of writes and reads of any of its
  descriptors, capacity changes, opened and closed ends and other operations: the bytes delivered, followed by
  the bytes inside, are the bytes accepted; it never holds more than its capacity, and the number it reports as
  available is the number of bytes inside.  In each such state a write is refused as broken exactly without
  readers and as blocking exactly when the pipe is full; otherwise it accepts a nonempty prefix, all that fits
  when the pipe keeps its bytes itself, or returns the error of the host.  A read blocks exactly when the pipe is
  empty and has a writer and reports the end exactly when it is empty without one; otherwise it returns a nonempty
  prefix of the bytes inside, all that fit when the pipe keeps its bytes itself, or the error of the host.\<close>

theorem pipe_is_bounded_fifo:
  assumes "pi_state (vs_pipes s a) = pipe_state_new capacity" "pipe_run a (s, []) accepted delivered x"
  shows "delivered @ pipe_contents a x = accepted
    \<and> length (pipe_contents a x) \<le> ps_capacity (pipe_at a x) \<and> pipe_available (pipe_at a x) = length (pipe_contents a x)
    \<and> (\<forall>bs r x'. pipe_writes a bs x r x' \<longrightarrow> write_answer a bs x r)
    \<and> (\<forall>len r x'. pipe_reads a len x r x' \<longrightarrow> read_answer a len x r)"
proof -
  have ok0: "pipe_ok a (s, [])" "pipe_contents a (s, []) = []"
    using assms(1) by (auto simp: pipe_ok_def pipe_contents_def pipe_state_new_def pipe_available_def)
  note run = pq.run_conserves [OF assms(2) ok0(1)]
  have "pipe_available (pipe_at a x) = length (pipe_contents a x)" using run(1) by (simp add: pipe_ok_def)
  then show ?thesis
    using run(2,3) ok0(2) pipe_writes_law [OF run(1)] pipe_reads_law [OF run(1)] by auto
qed

text \<open>A pipe with a pair of host handles: both ends are opened, three bytes are written and two are read.\<close>

definition pipe_end :: "file_kind \<Rightarrow> file_ref" where
  "pipe_end k = \<lparr>fr_inode = inode_new 7 (Pipe_node 7 0), fr_kind = k\<rparr>"

definition demo_store :: vfs_store where
  "demo_store =
     \<lparr>vs_descriptions = (\<lambda>_. \<lparr>fd_offset = 0, fd_flags = 0, fd_dir_cursor = 0\<rparr>),
      vs_pipes = (\<lambda>_. \<lparr>pi_state = pipe_state_new 4096, pi_host_pair = True\<rparr>), vs_eventfds = (\<lambda>_. 0),
      vs_stdio = (\<lambda>_. \<lparr>sc_stdout = [], sc_stderr = []\<rparr>), vs_next = 1,
      vs_os = \<lparr>os_pipe_pair = (\<lambda>_. True), os_open = (\<lambda>_ _. Inl HostNotFound),
        os_read = (\<lambda>_ n. Inr (\<lambda>j. of_nat (Suc j), n)), os_write = (\<lambda>_ data. Inr (length data)),
        os_read_at = (\<lambda>_ _ _ _. Inl HostNotFound), os_map_at = (\<lambda>_ _ _ _. Inl HostNotFound), os_random = (\<lambda>_. None),
        os_file = (\<lambda>_ _. None)\<rparr>, vs_calls = 0\<rparr>"

definition opened_store :: vfs_store where
  "opened_store = register_fd_endpoint (pipe_end FPipeWrite) (register_fd_endpoint (pipe_end FPipeRead) demo_store)"

definition written_store :: vfs_store where
  "written_store = snd (pipe_write (pipe_end FPipeWrite) [1, 2, 3] opened_store)"

definition read_store :: vfs_store where
  "read_store = snd (pipe_read (pipe_end FPipeRead) 2 written_store)"

lemma pipe_end_address [simp]: "pipe_address (pipe_end k) = Some 0"
  by (simp add: pipe_address_def pipe_end_def inode_new_def)

lemma demo_opened: "pi_state (vs_pipes opened_store 0) = \<lparr>ps_buffer = [], ps_capacity = 4096, ps_readers = 1, ps_writers = 1\<rparr>"
    "pi_host_pair (vs_pipes opened_store 0)" "vs_os opened_store = vs_os demo_store" "vs_calls opened_store = 0"
  by (simp_all add: opened_store_def register_fd_endpoint_def) (simp_all add: demo_store_def pipe_state_new_def pipe_end_def)

lemma demo_written: "pipe_write (pipe_end FPipeWrite) [1, 2, 3] opened_store = (Ok 3, written_store)"
    "pi_state (vs_pipes written_store 0) = \<lparr>ps_buffer = [0, 0, 0], ps_capacity = 4096, ps_readers = 1, ps_writers = 1\<rparr>"
    "pi_host_pair (vs_pipes written_store 0)" "vs_os written_store = vs_os demo_store" "vs_calls written_store = 1"
proof -
  have "pipe_write (pipe_end FPipeWrite) [1, 2, 3] opened_store =
      (Ok 3, modify_pipe 0 (\<lambda>p. p\<lparr>ps_buffer := ps_buffer p @ replicate 3 0\<rparr>) (opened_store\<lparr>vs_calls := 1\<rparr>))"
    using pipe_host_write_eq [of 3 opened_store 0 "[1, 2, 3]"]
    by (simp add: pipe_write_eq [OF pipe_end_address] Let_def demo_opened pipe_available_def)
      (simp add: demo_store_def demo_opened(4) numeral_eq_Suc)
  then show "pipe_write (pipe_end FPipeWrite) [1, 2, 3] opened_store = (Ok 3, written_store)"
    "pi_state (vs_pipes written_store 0) = \<lparr>ps_buffer = [0, 0, 0], ps_capacity = 4096, ps_readers = 1, ps_writers = 1\<rparr>"
    "pi_host_pair (vs_pipes written_store 0)" "vs_os written_store = vs_os demo_store" "vs_calls written_store = 1"
    by (simp_all add: written_store_def demo_opened numeral_eq_Suc)
qed

lemma demo_read: "pipe_read (pipe_end FPipeRead) 2 written_store = (Ok [1, 2], read_store)"
    "pi_host_pair (vs_pipes read_store 0)" "vs_calls read_store = 2"
proof -
  have "pipe_read (pipe_end FPipeRead) 2 written_store =
      (Ok [1, 2], modify_pipe 0 (discard_readable 2) (written_store\<lparr>vs_calls := 2\<rparr>))"
    using pipe_host_read_eq [of 2 written_store 0 2]
    by (simp add: pipe_read_eq [OF pipe_end_address] Let_def demo_written pipe_available_def)
      (simp add: demo_store_def demo_written(5) numeral_eq_Suc)
  then show "pipe_read (pipe_end FPipeRead) 2 written_store = (Ok [1, 2], read_store)"
    "pi_host_pair (vs_pipes read_store 0)" "vs_calls read_store = 2"
    by (simp_all add: read_store_def demo_written)
qed

lemma demo_run: "pipe_run 0 (demo_store, []) [1, 2, 3] [1, 2] (read_store, [3])"
proof -
  have o1: "pipe_other 0 (demo_store, []) (register_fd_endpoint (pipe_end FPipeRead) demo_store, [])"
    and o2: "pipe_other 0 (register_fd_endpoint (pipe_end FPipeRead) demo_store, []) (opened_store, [])"
    unfolding pipe_other_def opened_store_def by auto
  have "pipe_writes 0 [1, 2, 3] (opened_store, []) (Ok 3) (written_store, [1, 2, 3])"
    unfolding pipe_writes_def
  proof
    show "\<exists>f. pipe_address f = Some 0 \<and> pipe_write f [1, 2, 3] (fst (opened_store, [])) = (Ok 3, fst (written_store, [1, 2, 3]))"
      using demo_written(1) by (intro exI [of _ "pipe_end FPipeWrite"]) simp
  qed (use demo_opened demo_written(5) in \<open>simp add: host_takes_def pipe_room_def pipe_contents_def demo_store_def\<close>)
  then have w: "pipe_push 0 (opened_store, []) [1, 2, 3] (written_store, [1, 2, 3])"
    unfolding pipe_push_def by (intro exI [of _ "[1, 2, 3]"] exI [of _ "Ok 3"]) simp
  have "pipe_reads 0 2 (written_store, [1, 2, 3]) (Ok [1, 2]) (read_store, [3])"
    unfolding pipe_reads_def
  proof
    show "\<exists>f. pipe_address f = Some 0 \<and> pipe_read f 2 (fst (written_store, [1, 2, 3])) = (Ok [1, 2], fst (read_store, [3]))"
      using demo_read(1) by (intro exI [of _ "pipe_end FPipeRead"]) simp
  qed (use demo_read(3) demo_written(3-5) in \<open>simp add: host_gives_def pipe_contents_def demo_store_def numeral_eq_Suc\<close>)
  then have r: "pipe_pull 0 (written_store, [1, 2, 3]) [1, 2] (read_store, [3])"
    unfolding pipe_pull_def by (intro exI [of _ 2] exI [of _ "Ok [1, 2]"]) simp
  show ?thesis
  proof -
    have "pipe_run 0 (demo_store, []) [] [] (opened_store, [])"
      by (rule queue_run.others [OF queue_run.others [OF queue_run.begins]]) (rule o1, rule o2)
    then have "pipe_run 0 (demo_store, []) ([] @ [1, 2, 3]) [] (written_store, [1, 2, 3])" by (rule queue_run.pushes) (rule w)
    then have "pipe_run 0 (demo_store, []) ([] @ [1, 2, 3]) ([] @ [1, 2]) (read_store, [3])" by (rule queue_run.pulls) (rule r)
    then show ?thesis by simp
  qed
qed

theorem pipe_is_bounded_fifo_witness:
  "pi_host_pair (vs_pipes demo_store 0) \<and> pipe_run 0 (demo_store, []) [1, 2, 3] [1, 2] (read_store, [3])
   \<and> [1, 2] @ pipe_contents 0 (read_store, [3]) = [1, 2, 3 :: u8]"
proof -
  have "pi_state (vs_pipes demo_store 0) = pipe_state_new 4096" "pi_host_pair (vs_pipes demo_store 0)"
    by (simp_all add: demo_store_def)
  then show ?thesis using pipe_is_bounded_fifo [OF _ demo_run] demo_run by blast
qed

end
