(* ===== verification/Vfs_Cache.thy ===== *)
theory Vfs_Cache
  imports Vfs_Io "HOL-Library.Product_Lexorder"
begin

text \<open>
  The cache of the virtual file system (\<open>mcr-vfs/src/cache.rs\<close>): listings, attributes and small files keyed
  by inode and generation, and a bounded set of open host files in least-recently-used order.
\<close>

section \<open>Definitions\<close>

definition SMALL_READ_CACHE_LIMIT :: nat where "SMALL_READ_CACHE_LIMIT = 4096"
definition HOST_READ_HANDLE_CACHE_LIMIT :: nat where "HOST_READ_HANDLE_CACHE_LIMIT = 32"

type_synonym vfs_cache_key = "nat \<times> u64"

record host_read_handle_entry =
  hh_generation :: u64
  hh_path :: string
  hh_handle :: string

record vfs_cache =
  vc_generation :: u64
  vc_global_generation :: u64
  vc_inode_generations :: "(nat, u64) btree_map"
  vc_directory_listings :: "(vfs_cache_key, directory_entry list) btree_map"
  vc_metadata :: "(vfs_cache_key, linux_file_attr) btree_map"
  vc_small_reads :: "(vfs_cache_key, u8 list) btree_map"
  vc_host_read_handles :: "(nat, host_read_handle_entry) btree_map"
  vc_host_read_lru :: "nat list"

definition cache_default :: vfs_cache where
  "cache_default =
     \<lparr>vc_generation = 0, vc_global_generation = 0, vc_inode_generations = bt_empty, vc_directory_listings = bt_empty,
      vc_metadata = bt_empty, vc_small_reads = bt_empty, vc_host_read_handles = bt_empty, vc_host_read_lru = []\<rparr>"

definition key_generation :: "vfs_cache \<Rightarrow> nat \<Rightarrow> u64" where
  "key_generation c i =
     vc_global_generation c + (case bt_get (vc_inode_generations c) i of None \<Rightarrow> 0 | Some g \<Rightarrow> g)"

definition cache_key :: "vfs_cache \<Rightarrow> nat \<Rightarrow> vfs_cache_key" where
  "cache_key c i = (i, key_generation c i)"

definition bump_inode_generation :: "nat \<Rightarrow> vfs_cache \<Rightarrow> vfs_cache" where
  "bump_inode_generation i c =
     c\<lparr>vc_inode_generations :=
        bt_insert i (case bt_get (vc_inode_generations c) i of None \<Rightarrow> 1 | Some g \<Rightarrow> g + 1) (vc_inode_generations c)\<rparr>"

definition remove_inode_entries :: "nat \<Rightarrow> vfs_cache \<Rightarrow> vfs_cache" where
  "remove_inode_entries i c =
     c\<lparr>vc_directory_listings := bt_retain (\<lambda>k _. fst k \<noteq> i) (vc_directory_listings c),
       vc_metadata := bt_retain (\<lambda>k _. fst k \<noteq> i) (vc_metadata c),
       vc_small_reads := bt_retain (\<lambda>k _. fst k \<noteq> i) (vc_small_reads c),
       vc_host_read_handles := bt_remove i (vc_host_read_handles c),
       vc_host_read_lru := filter (\<lambda>j. j \<noteq> i) (vc_host_read_lru c)\<rparr>"

definition cache_invalidate_all :: "vfs_cache \<Rightarrow> vfs_cache" where
  "cache_invalidate_all c =
     c\<lparr>vc_generation := vc_generation c + 1, vc_global_generation := vc_global_generation c + 1,
       vc_directory_listings := bt_empty, vc_metadata := bt_empty, vc_small_reads := bt_empty,
       vc_host_read_handles := bt_empty, vc_host_read_lru := []\<rparr>"

definition invalidate_proc_views :: "vfs_cache \<Rightarrow> vfs_cache" where
  "invalidate_proc_views c =
     c\<lparr>vc_generation := vc_generation c + 1, vc_directory_listings := bt_empty, vc_metadata := bt_empty,
       vc_small_reads := bt_empty\<rparr>"

definition cache_invalidate_inode :: "nat \<Rightarrow> vfs_cache \<Rightarrow> vfs_cache" where
  "cache_invalidate_inode i c =
     remove_inode_entries i (bump_inode_generation i (c\<lparr>vc_generation := vc_generation c + 1\<rparr>))"

definition cache_invalidate_inodes :: "nat list \<Rightarrow> vfs_cache \<Rightarrow> vfs_cache" where
  "cache_invalidate_inodes is c =
     (let c = fold (\<lambda>i c. remove_inode_entries i (bump_inode_generation i c)) is c
      in if is \<noteq> [] then c\<lparr>vc_generation := vc_generation c + 1\<rparr> else c)"

definition cache_directory_listing :: "vfs_cache \<Rightarrow> nat \<Rightarrow> directory_entry list option" where
  "cache_directory_listing c i = bt_get (vc_directory_listings c) (cache_key c i)"

definition insert_directory_listing :: "nat \<Rightarrow> directory_entry list \<Rightarrow> vfs_cache \<Rightarrow> vfs_cache" where
  "insert_directory_listing i es c =
     c\<lparr>vc_directory_listings := bt_insert (cache_key c i) es (vc_directory_listings c)\<rparr>"

definition cache_metadata :: "vfs_cache \<Rightarrow> nat \<Rightarrow> linux_file_attr option" where
  "cache_metadata c i = bt_get (vc_metadata c) (cache_key c i)"

definition insert_metadata :: "nat \<Rightarrow> linux_file_attr \<Rightarrow> vfs_cache \<Rightarrow> vfs_cache" where
  "insert_metadata i attr c = c\<lparr>vc_metadata := bt_insert (cache_key c i) attr (vc_metadata c)\<rparr>"

definition cache_small_read :: "vfs_cache \<Rightarrow> nat \<Rightarrow> u8 list option" where
  "cache_small_read c i = bt_get (vc_small_reads c) (cache_key c i)"

definition insert_small_read :: "nat \<Rightarrow> u8 list \<Rightarrow> vfs_cache \<Rightarrow> vfs_cache" where
  "insert_small_read i data c = c\<lparr>vc_small_reads := bt_insert (cache_key c i) data (vc_small_reads c)\<rparr>"

definition touch_host_read_lru :: "nat \<Rightarrow> vfs_cache \<Rightarrow> vfs_cache" where
  "touch_host_read_lru i c = c\<lparr>vc_host_read_lru := filter (\<lambda>j. j \<noteq> i) (vc_host_read_lru c) @ [i]\<rparr>"

fun evict_loop ::
  "(nat, host_read_handle_entry) btree_map \<Rightarrow> nat list \<Rightarrow> (nat, host_read_handle_entry) btree_map \<times> nat list" where
  "evict_loop handles [] = (handles, [])"
| "evict_loop handles (i # lru) =
     (if length (bt_entries handles) > HOST_READ_HANDLE_CACHE_LIMIT then evict_loop (bt_remove i handles) lru
      else (handles, i # lru))"

definition evict_host_read_handles :: "vfs_cache \<Rightarrow> vfs_cache" where
  "evict_host_read_handles c =
     (case evict_loop (vc_host_read_handles c) (vc_host_read_lru c) of
        (handles, lru) \<Rightarrow> c\<lparr>vc_host_read_handles := handles, vc_host_read_lru := lru\<rparr>)"

definition cached_handle :: "vfs_cache \<Rightarrow> nat \<Rightarrow> string \<Rightarrow> string option" where
  "cached_handle c i path =
     (case bt_get (vc_host_read_handles c) i of
        None \<Rightarrow> None
      | Some h \<Rightarrow> if hh_generation h = key_generation c i \<and> hh_path h = path then Some (hh_handle h) else None)"

definition host_read_handle :: "nat \<Rightarrow> string \<Rightarrow> (vfs_cache \<times> vfs_store, string, vfs_error) st" where
  "host_read_handle i path s =
     (case s of (c, store) \<Rightarrow>
        (case cached_handle c i path of
           Some handle \<Rightarrow> (Ok handle, touch_host_read_lru i c, store)
         | None \<Rightarrow>
             (case open_host_read_handle path store of
                (Ok handle, store) \<Rightarrow>
                  (Ok handle,
                   evict_host_read_handles (touch_host_read_lru i
                     (c\<lparr>vc_host_read_handles :=
                        bt_insert i \<lparr>hh_generation = key_generation c i, hh_path = path, hh_handle = handle\<rparr>
                          (vc_host_read_handles c)\<rparr>)), store)
              | (Err e, store) \<Rightarrow> (Err e, c, store)
              | (Panic, store) \<Rightarrow> (Panic, c, store))))"

end
