(* ===== verification/Vfs_Lru.thy ===== *)
theory Vfs_Lru
  imports Vfs_Cache
begin

text \<open>
  The bound on open host files.  The cache of read handles never holds more than its limit, its order list
  names exactly the handles it holds, and the handle just asked for is never the one that is evicted.
\<close>

definition lru_ok :: "vfs_cache \<Rightarrow> bool" where
  "lru_ok c \<longleftrightarrow>
     distinct (vc_host_read_lru c) \<and> set (vc_host_read_lru c) = set (bt_keys (vc_host_read_handles c)) \<and>
     length (vc_host_read_lru c) \<le> HOST_READ_HANDLE_CACHE_LIMIT"

text \<open>The operations of \<open>cache.rs\<close>.\<close>

datatype cache_op =
    K_listing nat "directory_entry list" | K_metadata nat linux_file_attr | K_small_read nat "u8 list"
  | K_invalidate_all | K_invalidate_proc | K_invalidate nat | K_invalidate_many "nat list" | K_handle nat string

fun cache_step :: "cache_op \<Rightarrow> vfs_cache \<times> vfs_store \<Rightarrow> vfs_cache \<times> vfs_store" where
  "cache_step (K_listing i es) (c, h) = (insert_directory_listing i es c, h)"
| "cache_step (K_metadata i a) (c, h) = (insert_metadata i a c, h)"
| "cache_step (K_small_read i d) (c, h) = (insert_small_read i d c, h)"
| "cache_step K_invalidate_all (c, h) = (cache_invalidate_all c, h)"
| "cache_step K_invalidate_proc (c, h) = (invalidate_proc_views c, h)"
| "cache_step (K_invalidate i) (c, h) = (cache_invalidate_inode i c, h)"
| "cache_step (K_invalidate_many is) (c, h) = (cache_invalidate_inodes is c, h)"
| "cache_step (K_handle i path) s = snd (host_read_handle i path s)"

lemma set_bt_keys_dom: "set (bt_keys m) = dom (bt_get m)"
  by (simp add: set_bt_keys)

lemma length_entries_lru:
  assumes "distinct lru" "set lru = set (bt_keys m)"
  shows "length (bt_entries m) = length lru"
proof -
  have "distinct (bt_keys m)"
    using keys_sorted_distinct [of "bt_entries m"] by (simp add: bt_keys_def)
  then have "length (bt_keys m) = length lru"
    using assms by (metis distinct_card)
  then show ?thesis
    by (simp add: bt_keys_def)
qed

lemma evict_loop_ok:
  assumes "distinct lru" "set lru = set (bt_keys m)" "evict_loop m lru = (m', lru')"
  shows "distinct lru' \<and> set lru' = set (bt_keys m') \<and> lru' = drop (length lru - HOST_READ_HANDLE_CACHE_LIMIT) lru
    \<and> (\<forall>k \<in> set lru'. bt_get m' k = bt_get m k)"
  using assms
proof (induction m lru rule: evict_loop.induct)
  case (2 m i lru)
  have len: "length (bt_entries m) = Suc (length lru)"
    using length_entries_lru [OF 2(2,3)] by simp
  show ?case
  proof (cases "length (bt_entries m) > HOST_READ_HANDLE_CACHE_LIMIT")
    case True
    have keys: "set lru = set (bt_keys (bt_remove i m))"
      using 2(2,3) by (auto simp: set_bt_keys_dom bt_get_remove dom_def split: if_splits)
    have run: "evict_loop (bt_remove i m) lru = (m', lru')"
      using 2(4) True by simp
    have ih: "distinct lru'" "set lru' = set (bt_keys m')" "lru' = drop (length lru - HOST_READ_HANDLE_CACHE_LIMIT) lru"
        "\<forall>k \<in> set lru'. bt_get m' k = bt_get (bt_remove i m) k"
      using 2(1) [OF True _ keys] 2(2) run by (auto simp only: distinct.simps)
    moreover have "i \<notin> set lru'"
      unfolding ih(3) using 2(2) by (auto dest: in_set_dropD)
    moreover have "drop (length lru - HOST_READ_HANDLE_CACHE_LIMIT) lru = drop (length (i # lru) - HOST_READ_HANDLE_CACHE_LIMIT) (i # lru)"
      using True len by (simp add: Suc_diff_le)
    ultimately show ?thesis
      by (metis bt_get_remove)
  next
    case False
    then have "m' = m" "lru' = i # lru"
      using 2(4) by simp_all
    moreover have "length (i # lru) - HOST_READ_HANDLE_CACHE_LIMIT = 0"
      using False len by simp
    ultimately show ?thesis
      using 2(2,3) by simp
  qed
qed simp

lemma lru_ok_touch_insert:
  assumes "lru_ok c"
  shows "lru_ok (evict_host_read_handles (touch_host_read_lru i (c\<lparr>vc_host_read_handles := bt_insert i h (vc_host_read_handles c)\<rparr>)))
    \<and> bt_get (vc_host_read_handles (evict_host_read_handles (touch_host_read_lru i
        (c\<lparr>vc_host_read_handles := bt_insert i h (vc_host_read_handles c)\<rparr>)))) i = Some h"
proof -
  let ?m = "bt_insert i h (vc_host_read_handles c)" and ?lru = "filter (\<lambda>j. j \<noteq> i) (vc_host_read_lru c) @ [i]"
  obtain m' lru' where ev: "evict_loop ?m ?lru = (m', lru')"
    by (cases "evict_loop ?m ?lru")
  have "distinct ?lru" "set ?lru = set (bt_keys ?m)"
    using assms by (auto simp: lru_ok_def set_bt_keys_dom bt_get_insert)
  note ok = evict_loop_ok [OF this ev]
  have "length (filter (\<lambda>j. j \<noteq> i) (vc_host_read_lru c)) \<le> HOST_READ_HANDLE_CACHE_LIMIT"
    using assms by (intro order.trans [OF length_filter_le]) (simp add: lru_ok_def)
  then have "i \<in> set lru'" "length lru' \<le> HOST_READ_HANDLE_CACHE_LIMIT"
    using ok by (auto simp: HOST_READ_HANDLE_CACHE_LIMIT_def)
  then show ?thesis
    using ok ev by (auto simp: evict_host_read_handles_def touch_host_read_lru_def lru_ok_def bt_get_insert)
qed

lemma generation_kept [simp]:
  "key_generation (evict_host_read_handles c) = key_generation c" "key_generation (touch_host_read_lru i c) = key_generation c"
  "key_generation (c\<lparr>vc_host_read_handles := m\<rparr>) = key_generation c"
  by (auto simp: fun_eq_iff key_generation_def evict_host_read_handles_def touch_host_read_lru_def split: prod.splits)

lemma cached_handle_touch: "cached_handle (touch_host_read_lru i c) j path = cached_handle c j path"
  by (cases "bt_get (vc_host_read_handles c) j") (simp_all add: cached_handle_def touch_host_read_lru_def key_generation_def)

lemma lru_ok_remove: "lru_ok c \<Longrightarrow> lru_ok (remove_inode_entries i c)"
  by (auto simp: lru_ok_def remove_inode_entries_def set_bt_keys_dom bt_get_remove dom_def intro: order.trans [OF length_filter_le])

lemma lru_ok_irrelevant [simp]:
  "lru_ok (c\<lparr>vc_generation := g\<rparr>) = lru_ok c" "lru_ok (bump_inode_generation i c) = lru_ok c"
  by (simp_all add: lru_ok_def bump_inode_generation_def)

lemma cached_handle_lru: "lru_ok c \<Longrightarrow> cached_handle c i path = Some h \<Longrightarrow> lru_ok (touch_host_read_lru i c)"
proof -
  assume c: "lru_ok c" "cached_handle c i path = Some h"
  then have "i \<in> set (vc_host_read_lru c)"
    by (auto simp: lru_ok_def cached_handle_def set_bt_keys_dom split: option.splits)
  then have "length (filter (\<lambda>j. j \<noteq> i) (vc_host_read_lru c)) < length (vc_host_read_lru c)"
    by (auto simp: length_filter_less)
  then show "lru_ok (touch_host_read_lru i c)"
    using c \<open>i \<in> _\<close> by (auto simp: lru_ok_def touch_host_read_lru_def)
qed

lemma cache_step_lru: "lru_ok c \<Longrightarrow> lru_ok (fst (cache_step op (c, h)))"
proof (induction op)
  case (K_invalidate_many "is")
  then have "lru_ok (fold (\<lambda>i c. remove_inode_entries i (bump_inode_generation i c)) is c)"
    by (induction "is" arbitrary: c) (simp_all add: lru_ok_remove)
  then show ?case
    by (auto simp: cache_invalidate_inodes_def Let_def)
next
  case (K_handle i path)
  then show ?case
    using lru_ok_touch_insert [OF K_handle, of i] cached_handle_lru [OF K_handle, of i path]
    by (auto simp: host_read_handle_def split: option.splits prod.splits result.splits)
qed (auto simp: insert_directory_listing_def insert_metadata_def insert_small_read_def cache_invalidate_all_def invalidate_proc_views_def
    cache_invalidate_inode_def lru_ok_remove, simp_all add: lru_ok_def bt_keys_def bt_entries_empty)

text \<open>C34. After any sequence of cache operations from an empty cache at most 32 host files are held open, the order
  list names each of them exactly once, and the file that was asked for last is among them: asking
  for it again returns the same handle without a call to the host.\<close>

theorem handle_cache_bounded:
  assumes "fold cache_step ops (cache_default, h) = (c, h')"
  shows "length (bt_entries (vc_host_read_handles c)) \<le> 32
    \<and> distinct (vc_host_read_lru c) \<and> set (vc_host_read_lru c) = set (bt_keys (vc_host_read_handles c))
    \<and> (\<forall>i path handle c' h''. host_read_handle i path (c, h') = (Ok handle, c', h'') \<longrightarrow> fst (host_read_handle i path (c', h'')) = Ok handle
        \<and> snd (snd (host_read_handle i path (c', h''))) = h'')"
proof -
  have "lru_ok cache_default"
    by (simp add: lru_ok_def cache_default_def bt_keys_def bt_entries_empty)
  then have "lru_ok (fst (fold cache_step ops (cache_default, h)))"
  proof (induction ops arbitrary: h rule: rev_induct)
    case (snoc op ops)
    obtain a b where ab: "fold cache_step ops (cache_default, h) = (a, b)"
      by (cases "fold cache_step ops (cache_default, h)")
    then show ?case
      using snoc.IH [OF snoc.prems, of h] cache_step_lru [of a op b] by simp
  qed simp
  then have ok: "lru_ok c"
    using assms by simp
  have "cached_handle c' i path = Some handle" if "host_read_handle i path (c, h') = (Ok handle, c', h'')" for i path handle c' h''
  proof (cases "cached_handle c i path")
    case None
    then show ?thesis
      using that lru_ok_touch_insert [OF ok, of i]
      by (auto simp: host_read_handle_def cached_handle_def [of "evict_host_read_handles _"] split: prod.splits result.splits)
  next
    case (Some g)
    then show ?thesis
      using that by (auto simp: host_read_handle_def cached_handle_touch)
  qed
  then show ?thesis
    using ok length_entries_lru [of "vc_host_read_lru c" "vc_host_read_handles c"]
    by (auto simp: lru_ok_def HOST_READ_HANDLE_CACHE_LIMIT_def host_read_handle_def)
qed

theorem handle_cache_bounded_witness:
  "\<forall>h. length (bt_entries (vc_host_read_handles (fst (fold cache_step
     [K_handle 7 ''a'', K_invalidate 7, K_handle 8 ''b''] (cache_default, h))))) \<le> 32"
  using handle_cache_bounded [OF prod.collapse [symmetric]] by blast

end
