(* ===== verification/Vfs_Fs.thy ===== *)
theory Vfs_Fs
  imports Vfs_Cache
begin

text \<open>
  The virtual file system (\<open>mcr-vfs/src/filesystem.rs\<close>): the tree, the descriptors of the current process,
  the cache and the operations that system calls are mapped to.  Methods that take \<open>&self\<close> may still fill
  the cache, which is behind a \<open>RefCell\<close>, so they are operations on the state too.
\<close>

section \<open>State\<close>

definition AT_FDCWD :: int where "AT_FDCWD = - 100"
definition AT_EMPTY_PATH :: u32 where "AT_EMPTY_PATH = 0x1000"
definition AT_REMOVEDIR :: u32 where "AT_REMOVEDIR = 0x200"
definition AT_SYMLINK_FOLLOW :: u32 where "AT_SYMLINK_FOLLOW = 0x400"
definition AT_SYMLINK_NOFOLLOW :: u32 where "AT_SYMLINK_NOFOLLOW = 0x100"
definition DEFAULT_UMASK :: u32 where "DEFAULT_UMASK = 0x12"
definition RENAME_NOREPLACE :: u32 where "RENAME_NOREPLACE = 1"
definition RENAME_EXCHANGE :: u32 where "RENAME_EXCHANGE = 2"
definition SUPPORTED_RENAME_FLAGS :: u32 where "SUPPORTED_RENAME_FLAGS = RENAME_NOREPLACE OR RENAME_EXCHANGE"

lemmas at_flag_defs = AT_FDCWD_def AT_EMPTY_PATH_def AT_REMOVEDIR_def AT_SYMLINK_FOLLOW_def AT_SYMLINK_NOFOLLOW_def
  RENAME_NOREPLACE_def RENAME_EXCHANGE_def SUPPORTED_RENAME_FLAGS_def DEFAULT_UMASK_def

record vfs =
  v_rootfs :: rootfs
  v_tree :: path_tree
  v_fds :: fd_table
  v_proc_self :: proc_self_data
  v_umask :: u32
  v_cache :: vfs_cache
  v_store :: vfs_store

type_synonym 'a vfs_op = "(vfs, 'a, vfs_error) st"

definition ask :: "(vfs \<Rightarrow> 'a vfs_result) \<Rightarrow> 'a vfs_op" where
  "ask f s = (f s, s)"

definition lift_fds :: "'a fd_op \<Rightarrow> 'a vfs_op" where
  "lift_fds f s = (case f (v_fds s, v_store s) of (r, t, store) \<Rightarrow> (r, s\<lparr>v_fds := t, v_store := store\<rparr>))"

definition lift_tree :: "'a tree_op \<Rightarrow> 'a vfs_op" where
  "lift_tree f s = (case f (v_tree s) of (r, t) \<Rightarrow> (r, s\<lparr>v_tree := t\<rparr>))"

definition lift_tree_fds :: "'a tree_fd_op \<Rightarrow> 'a vfs_op" where
  "lift_tree_fds f s =
     (case f (v_tree s, v_fds s, v_store s) of
        (r, tree, t, store) \<Rightarrow> (r, s\<lparr>v_tree := tree, v_fds := t, v_store := store\<rparr>))"

definition on_cache :: "(vfs_cache \<Rightarrow> vfs_cache) \<Rightarrow> unit vfs_op" where
  "on_cache f = st_modify (\<lambda>s. s\<lparr>v_cache := f (v_cache s)\<rparr>)"

definition from_parts :: "rootfs \<Rightarrow> path_tree \<Rightarrow> fd_table \<Rightarrow> vfs_store \<Rightarrow> vfs" where
  "from_parts fs tree t store =
     \<lparr>v_rootfs = fs, v_tree = tree, v_fds = t,
      v_proc_self = \<lparr>psd_executable_path = [], psd_argv = [], psd_envp = []\<rparr>, v_umask = DEFAULT_UMASK,
      v_cache = cache_default, v_store = store\<rparr>"

section \<open>Cache plumbing\<close>

definition invalidate_vfs_caches :: "unit vfs_op" where
  "invalidate_vfs_caches = on_cache cache_invalidate_all"

definition invalidate_inode_cache :: "nat \<Rightarrow> unit vfs_op" where
  "invalidate_inode_cache i = on_cache (cache_invalidate_inode i)"

definition flatten_options :: "'a option list \<Rightarrow> 'a list" where
  "flatten_options xs = List.map_filter id xs"

definition invalidate_inode_caches :: "nat option list \<Rightarrow> unit vfs_op" where
  "invalidate_inode_caches is = on_cache (cache_invalidate_inodes (flatten_options is))"

definition parent_inode :: "path_tree \<Rightarrow> guest_path \<Rightarrow> nat option" where
  "parent_inode tree p =
     (case gp_parent p of None \<Rightarrow> None | Some parent \<Rightarrow> map_option pn_inode_id (lookup_path tree parent))"

definition invalidate_parent_cache :: "guest_path \<Rightarrow> unit vfs_op" where
  "invalidate_parent_cache p s =
     (case parent_inode (v_tree s) p of None \<Rightarrow> (Ok (), s) | Some i \<Rightarrow> invalidate_inode_cache i s)"

definition cached_metadata :: "path_node \<Rightarrow> linux_file_attr vfs_op" where
  "cached_metadata node s =
     (case cache_metadata (v_cache s) (pn_inode_id node) of
        Some attr \<Rightarrow> (Ok attr, s)
      | None \<Rightarrow> st_bind (on_cache (insert_metadata (pn_inode_id node) (pn_attr node))) (\<lambda>_. st_ok (pn_attr node)) s)"

definition cached_directory_entries :: "nat \<Rightarrow> guest_path \<Rightarrow> directory_entry list vfs_op" where
  "cached_directory_entries i p s =
     (case cache_directory_listing (v_cache s) i of
        Some entries \<Rightarrow> (Ok entries, s)
      | None \<Rightarrow>
          st_bind (st_lift (static_directory_entries (v_tree s) p)) (\<lambda>entries.
          st_bind (on_cache (insert_directory_listing i entries)) (\<lambda>_. st_ok entries)) s)"

definition cached_small_read_data :: "nat \<Rightarrow> u8 list \<Rightarrow> u8 list vfs_op" where
  "cached_small_read_data i data s =
     (case cache_small_read (v_cache s) i of
        Some cached \<Rightarrow> (Ok cached, s)
      | None \<Rightarrow> st_bind (on_cache (insert_small_read i data)) (\<lambda>_. st_ok data) s)"

definition cached_host_read_handle :: "nat \<Rightarrow> string \<Rightarrow> string vfs_op" where
  "cached_host_read_handle i path s =
     (case host_read_handle i path (v_cache s, v_store s) of
        (r, c, store) \<Rightarrow> (r, s\<lparr>v_cache := c, v_store := store\<rparr>))"

section \<open>Permissions and resolution\<close>

fun check_ancestors :: "path_tree \<Rightarrow> guest_path \<Rightarrow> string list \<Rightarrow> unit vfs_result" where
  "check_ancestors tree ancestor [] = Ok ()"
| "check_ancestors tree ancestor (component # rest) =
     (let ancestor = ancestor @ [component] in
      (case lookup_path tree ancestor of
         None \<Rightarrow> Ok ()
       | Some node \<Rightarrow>
           and_then (if attr_is_directory (pn_attr node) then check_access X_OK (pn_attr node) else Ok ()) (\<lambda>_.
           check_ancestors tree ancestor rest)))"

definition check_traversal_permissions :: "path_tree \<Rightarrow> guest_path \<Rightarrow> unit vfs_result" where
  "check_traversal_permissions tree p = check_ancestors tree [] (butlast p)"

definition check_parent_write_permissions :: "path_tree \<Rightarrow> guest_path \<Rightarrow> unit vfs_result" where
  "check_parent_write_permissions tree p =
     and_then (ok_or (gp_parent p) InvalidPath) (\<lambda>parent.
     and_then (ok_or (lookup_path tree parent) NoEntry) (\<lambda>node.
     if \<not> node_is_directory node then Err NotDirectory else check_access (W_OK OR X_OK) (pn_attr node)))"

definition resolve_checked :: "rootfs \<Rightarrow> path_tree \<Rightarrow> string \<Rightarrow> bool \<Rightarrow> resolved_path vfs_result" where
  "resolve_checked fs tree path follow =
     and_then (resolve_path_with_options fs path tree follow) (\<lambda>resolved.
     and_then (check_traversal_permissions tree (rp_guest_path resolved)) (\<lambda>_.
     Ok resolved))"

definition resolve_at :: "vfs \<Rightarrow> int \<Rightarrow> string \<Rightarrow> bool \<Rightarrow> bool \<Rightarrow> resolved_path vfs_result" where
  "resolve_at s dirfd path follow require_directory_base =
     (if path = [] then Err NoEntry
      else if starts_with_slash path \<or> dirfd = AT_FDCWD then resolve_checked (v_rootfs s) (v_tree s) path follow
      else
        and_then (fd_lookup (v_fds s) dirfd) (\<lambda>e.
        and_then (ok_or (fe_path e) NotDirectory) (\<lambda>base.
        and_then (ok_or (lookup_path (v_tree s) base) NoEntry) (\<lambda>base_node.
        if \<not> node_is_directory base_node then Err NotDirectory
        else
          and_then (if require_directory_base then check_access X_OK (pn_attr base_node) else Ok ()) (\<lambda>_.
          (case set_cwd base (v_rootfs s) of
             (r, scoped_rootfs) \<Rightarrow> and_then r (\<lambda>_. resolve_checked scoped_rootfs (v_tree s) path follow)))))))"

definition getcwd :: "vfs \<Rightarrow> string vfs_result" where
  "getcwd s = visible_path (v_rootfs s) (rf_cwd (v_rootfs s))"

definition chdir :: "string \<Rightarrow> unit vfs_op" where
  "chdir path =
     st_bind (ask (\<lambda>s. resolve_at s AT_FDCWD path True False)) (\<lambda>resolved.
     st_bind (ask (\<lambda>s. ok_or (lookup_path (v_tree s) (rp_guest_path resolved)) NoEntry)) (\<lambda>node.
     if \<not> node_is_directory node then st_err NotDirectory
     else
       st_bind (st_lift (check_access X_OK (pn_attr node))) (\<lambda>_ s.
         (case set_cwd (rp_guest_path resolved) (v_rootfs s) of (r, fs) \<Rightarrow> (r, s\<lparr>v_rootfs := fs\<rparr>)))))"

definition set_umask :: "u32 \<Rightarrow> u32 vfs_op" where
  "set_umask new_mask s = (Ok (v_umask s), s\<lparr>v_umask := new_mask AND 0x1ff\<rparr>)"

definition set_proc_self :: "proc_self_data \<Rightarrow> unit vfs_op" where
  "set_proc_self p = st_bind (st_modify (\<lambda>s. s\<lparr>v_proc_self := p\<rparr>)) (\<lambda>_. on_cache invalidate_proc_views)"

definition vfs_mount_devfs :: "unit vfs_op" where
  "vfs_mount_devfs = st_bind (lift_tree mount_minimal_devfs) (\<lambda>_. invalidate_vfs_caches)"

definition vfs_mount_procfs :: "unit vfs_op" where
  "vfs_mount_procfs = st_bind (lift_tree mount_minimal_procfs) (\<lambda>_. invalidate_vfs_caches)"

text \<open>\<open>VirtualFileSystem::new\<close> on a store that holds the host.\<close>

definition vfs_new :: "string \<Rightarrow> vfs_store \<Rightarrow> (unit, vfs_error) result \<times> vfs" where
  "vfs_new host_root store =
     (case with_stdio store of
        (r, t, store) \<Rightarrow>
          st_bind (st_lift r) (\<lambda>_ s.
            (case vfs_mount_devfs s of (r, s) \<Rightarrow> (expect r, s)))
            (from_parts (rootfs_new host_root) tree_new t store))"

section \<open>Opening and closing\<close>

definition create_resolved_file :: "guest_path \<Rightarrow> u32 \<Rightarrow> unit tree_op" where
  "create_resolved_file p mode t =
     st_bind (st_lift (ensure_parent_dir t p)) (\<lambda>_.
     st_bind allocate_inode_id (\<lambda>i.
     insert_path_node p (bare_node i NFile (attr_regular i mode 0)))) t"

text \<open>\<open>lookup_path_mut\<close> followed by an operation on the node.\<close>

definition at_path :: "guest_path \<Rightarrow> (host_files \<Rightarrow> (path_node, 'a, vfs_error) st) \<Rightarrow> 'a tree_fd_op" where
  "at_path p f s =
     (case bt_get (pt_nodes (fst s)) p of None \<Rightarrow> (Err NoEntry, s) | Some i \<Rightarrow> at_inode i f s)"

fun open_file_kind :: "path_node_kind \<Rightarrow> file_kind" where
  "open_file_kind NDirectory = FDirectory"
| "open_file_kind NFile = FRegular"
| "open_file_kind (NDevice kind) = FDev kind"
| "open_file_kind (NProc kind) = proc_file_kind kind"
| "open_file_kind (NSymlink _) = FSymlink"

fun proc_name :: "proc_node_kind \<Rightarrow> string" where
  "proc_name ProcDirectory = ''directory''"
| "proc_name ProcExe = ''self/exe''"
| "proc_name ProcCmdline = ''self/cmdline''"
| "proc_name ProcEnviron = ''self/environ''"
| "proc_name ProcFdDirectory = ''self/fd''"
| "proc_name (ProcFdLink _) = ''self/fd''"

definition inode_backend_for_path_node :: "path_node \<Rightarrow> string \<Rightarrow> guest_path \<Rightarrow> inode_backend" where
  "inode_backend_for_path_node node host_root p =
     (case pn_kind node of
        NDevice kind \<Rightarrow> DevVirtual kind
      | NProc kind \<Rightarrow> ProcVirtual (proc_name kind)
      | _ \<Rightarrow> HostPath host_root p)"

definition open_access_mode :: "open_flags \<Rightarrow> u32" where
  "open_access_mode flags = (if can_read flags then R_OK else 0) OR (if can_write flags then W_OK else 0)"

definition open_create :: "guest_path \<Rightarrow> bool \<Rightarrow> open_flags \<Rightarrow> u32 \<Rightarrow> nat option vfs_op" where
  "open_create p node_missing flags mode =
     (if node_missing then
        if \<not> flag_create flags then st_err NoEntry
        else
          st_bind (ask (\<lambda>s. ensure_parent_dir (v_tree s) p)) (\<lambda>_.
          st_bind (ask (\<lambda>s. check_parent_write_permissions (v_tree s) p)) (\<lambda>_.
          st_bind (\<lambda>s. lift_tree (create_resolved_file p (mode AND NOT (v_umask s))) s) (\<lambda>_.
          ask (\<lambda>s. Ok (parent_inode (v_tree s) p)))))
      else if flag_create flags \<and> flag_exclusive flags then st_err AlreadyExists
      else st_ok None)"

definition open_node_checks :: "open_flags \<Rightarrow> bool \<Rightarrow> path_node \<Rightarrow> unit vfs_result" where
  "open_node_checks flags created node =
     (if flag_directory flags \<and> \<not> attr_is_directory (pn_attr node) then Err NotDirectory
      else if attr_is_symlink (pn_attr node) \<and> flag_nofollow flags then Err Loop
      else if attr_is_directory (pn_attr node) \<and> can_write flags then Err IsDirectory
      else if created then Ok ()
      else check_access (open_access_mode flags) (pn_attr node))"

definition invalidate_opt :: "nat option \<Rightarrow> unit vfs_op" where
  "invalidate_opt i = (case i of None \<Rightarrow> st_ok () | Some i \<Rightarrow> invalidate_inode_cache i)"

text \<open>The end of \<open>openat\<close>: the descriptor is inserted and the changed inodes leave the cache.\<close>

definition open_finish :: "guest_path \<Rightarrow> open_flags \<Rightarrow> nat option \<Rightarrow> nat option \<Rightarrow> int vfs_op" where
  "open_finish p flags created_parent truncated_inode =
     st_bind (ask (\<lambda>s. ok_or (lookup_path (v_tree s) p) NoEntry)) (\<lambda>node s.
     st_bind (lift_fds (insert_open
       \<lparr>fr_inode = inode_new (pn_inode_id node) (inode_backend_for_path_node node (rf_host_root (v_rootfs s)) p),
        fr_kind = open_file_kind (pn_kind node)\<rparr> flags (Some p))) (\<lambda>fd.
     st_bind (invalidate_opt created_parent) (\<lambda>_.
     st_bind (invalidate_opt truncated_inode) (\<lambda>_.
     st_ok fd))) s)"

definition open_existing :: "guest_path \<Rightarrow> open_flags \<Rightarrow> nat option \<Rightarrow> int vfs_op" where
  "open_existing p flags created_parent =
     st_bind (ask (\<lambda>s. ok_or (lookup_path (v_tree s) p) NoEntry)) (\<lambda>node.
     st_bind (st_lift (open_node_checks flags (created_parent \<noteq> None) node)) (\<lambda>_.
     if flag_truncate flags \<and> can_write flags \<and> pn_kind node = NFile then
       st_bind (lift_tree_fds (at_path p node_truncate)) (\<lambda>_.
       open_finish p flags created_parent (Some (pn_inode_id node)))
     else open_finish p flags created_parent None))"

definition openat :: "int \<Rightarrow> string \<Rightarrow> open_flags \<Rightarrow> u32 \<Rightarrow> int vfs_op" where
  "openat dirfd path flags mode =
     st_bind (ask (\<lambda>s. resolve_at s dirfd path (\<not> flag_nofollow flags) False)) (\<lambda>resolved.
     st_bind (open_create (rp_guest_path resolved) (rp_inode resolved = None) flags mode) (\<lambda>created_parent.
     open_existing (rp_guest_path resolved) flags created_parent))"

definition close_with_file :: "int \<Rightarrow> file_ref vfs_op" where
  "close_with_file fd =
     st_bind (lift_fds (fd_close fd)) (\<lambda>f s.
       let i = in_id (fr_inode f) in
       if lookup_inode (v_tree s) i \<noteq> None \<and> tree_link_count (v_tree s) i = 0 then
         st_bind (st_modify (\<lambda>s. s\<lparr>v_tree := (v_tree s)\<lparr>pt_inodes := bt_remove i (pt_inodes (v_tree s))\<rparr>\<rparr>)) (\<lambda>_.
         st_bind (invalidate_inode_cache i) (\<lambda>_. st_ok f)) s
       else (Ok f, s))"

definition vfs_close :: "int \<Rightarrow> unit vfs_op" where
  "vfs_close fd = st_bind (close_with_file fd) (\<lambda>_. st_ok ())"

end
