(* ===== verification/Vfs_Ops.thy ===== *)
theory Vfs_Ops
  imports Vfs_Fs
begin

text \<open>
  The operations of the virtual file system on open files, names and attributes
  (\<open>mcr-vfs/src/filesystem.rs\<close>, from \<open>read\<close> on).
\<close>

section \<open>Reading\<close>

definition vfs_entry :: "int \<Rightarrow> fd_entry vfs_op" where
  "vfs_entry fd = ask (\<lambda>s. fd_lookup (v_fds s) fd)"

definition cached_small_read_for_entry :: "fd_entry \<Rightarrow> nat \<Rightarrow> nat \<Rightarrow> u8 list option vfs_op" where
  "cached_small_read_for_entry e offset len s =
     (if \<not> can_read (entry_flags e (v_store s)) then (Err BadFd, s)
      else if fe_kind e \<noteq> FRegular then (Ok None, s)
      else if len = 0 then (Ok (Some []), s)
      else
        st_bind (ask (\<lambda>s. ok_or (lookup_inode (v_tree s) (fe_inode_id e)) NoEntry)) (\<lambda>node.
        if pn_kind node \<noteq> NFile then st_ok None
        else if pn_deferred_host_path node \<noteq> None then st_ok None
        else if length (pn_data node) > SMALL_READ_CACHE_LIMIT then st_ok None
        else
          st_bind (cached_small_read_data (fe_inode_id e) (pn_data node)) (\<lambda>data.
          st_ok (Some (take len (drop offset data))))) s)"

definition advance_offset :: "fd_entry \<Rightarrow> nat \<Rightarrow> nat \<Rightarrow> unit vfs_op" where
  "advance_offset e offset count =
     (if U64_MAX_NAT < offset + count then st_err InvalidPath
      else st_modify (\<lambda>s. s\<lparr>v_store := set_offset e (offset + count) (v_store s)\<rparr>))"

definition read_from_small_cache :: "int \<Rightarrow> nat \<Rightarrow> u8 list option vfs_op" where
  "read_from_small_cache fd len =
     st_bind (vfs_entry fd) (\<lambda>e s.
       let offset = entry_offset e (v_store s) in
       st_bind (cached_small_read_for_entry e offset len) (\<lambda>r.
       (case r of
          None \<Rightarrow> st_ok None
        | Some data \<Rightarrow> st_bind (advance_offset e offset (length data)) (\<lambda>_. st_ok (Some data)))) s)"

definition cached_small_read_at :: "int \<Rightarrow> nat \<Rightarrow> nat \<Rightarrow> u8 list option vfs_op" where
  "cached_small_read_at fd offset len = st_bind (vfs_entry fd) (\<lambda>e. cached_small_read_for_entry e offset len)"

definition regular_read_request :: "int \<Rightarrow> (nat \<times> nat) option vfs_op" where
  "regular_read_request fd =
     st_bind (vfs_entry fd) (\<lambda>e s.
       if \<not> can_read (entry_flags e (v_store s)) then (Err BadFd, s)
       else if fe_kind e \<noteq> FRegular \<and> fe_kind e \<noteq> FSymlink then (Ok None, s)
       else (Ok (Some (fe_inode_id e, entry_offset e (v_store s))), s))"

definition in_vfs_store :: "'a store_op \<Rightarrow> 'a vfs_op" where
  "in_vfs_store f s = (case f (v_store s) of (r, store) \<Rightarrow> (r, s\<lparr>v_store := store\<rparr>))"

definition read_regular_inode_at :: "nat \<Rightarrow> nat \<Rightarrow> nat \<Rightarrow> u8 list vfs_op" where
  "read_regular_inode_at i offset len =
     st_bind (ask (\<lambda>s. readable_node (v_tree s) i)) (\<lambda>node.
     st_bind (case pn_deferred_host_path node of
                None \<Rightarrow> st_ok None
              | Some path \<Rightarrow> st_bind (cached_host_read_handle i path) (\<lambda>h. st_ok (Some h))) (\<lambda>host_file s.
     in_vfs_store (read_regular_node_at node (v_proc_self s) offset len host_file) s))"

definition vfs_read :: "int \<Rightarrow> nat \<Rightarrow> u8 list vfs_op" where
  "vfs_read fd len =
     st_bind (read_from_small_cache fd len) (\<lambda>cached.
     (case cached of
        Some data \<Rightarrow> st_ok data
      | None \<Rightarrow>
          st_bind (regular_read_request fd) (\<lambda>request.
          (case request of
             None \<Rightarrow> (\<lambda>s. lift_fds (fd_read (v_tree s) (v_proc_self s) fd len) s)
           | Some (i, offset) \<Rightarrow>
               st_bind (read_regular_inode_at i offset len) (\<lambda>data.
               st_bind (vfs_entry fd) (\<lambda>e.
               st_bind (advance_offset e offset (length data)) (\<lambda>_.
               st_ok data)))))))"

definition can_regular_readv_fast_path :: "int \<Rightarrow> bool vfs_op" where
  "can_regular_readv_fast_path fd =
     st_bind (vfs_entry fd) (\<lambda>e s.
       if \<not> can_read (entry_flags e (v_store s)) then (Err BadFd, s)
       else (Ok (fe_kind e = FRegular \<or> fe_kind e = FSymlink), s))"

text \<open>\<open>readv_regular\<close> returns the count and what the buffers hold.\<close>

definition readv_regular :: "int \<Rightarrow> u8 list list \<Rightarrow> (nat \<times> u8 list list) option vfs_op" where
  "readv_regular fd buffers =
     st_bind (regular_read_request fd) (\<lambda>request.
     (case request of
        None \<Rightarrow> st_ok None
      | Some (i, offset) \<Rightarrow>
          st_bind (st_lift (vectored_len (map length buffers))) (\<lambda>total_len.
          if total_len = 0 then st_ok (Some (0, buffers))
          else if ISIZE_MAX < total_len then st_panic
          else
            st_bind (read_regular_inode_at i offset total_len) (\<lambda>staging.
            st_bind (vfs_entry fd) (\<lambda>e.
            st_bind (advance_offset e offset (length staging)) (\<lambda>_.
            st_ok (Some (length staging, scatter_vectored staging buffers))))))))"

definition vfs_pread :: "int \<Rightarrow> nat \<Rightarrow> nat \<Rightarrow> u8 list vfs_op" where
  "vfs_pread fd offset len =
     st_bind (cached_small_read_at fd offset len) (\<lambda>cached.
     (case cached of
        Some data \<Rightarrow> st_ok data
      | None \<Rightarrow>
          st_bind (regular_read_request fd) (\<lambda>request.
          (case request of
             None \<Rightarrow> (\<lambda>s. lift_fds (fd_pread (v_tree s) (v_proc_self s) fd offset len) s)
           | Some (i, _) \<Rightarrow> read_regular_inode_at i offset len))))"

definition regular_file_cache_key :: "int \<Rightarrow> vfs_cache_key option vfs_op" where
  "regular_file_cache_key fd =
     st_bind (vfs_entry fd) (\<lambda>e s.
       if \<not> can_read (entry_flags e (v_store s)) then (Err BadFd, s)
       else if fe_kind e \<noteq> FRegular then (Ok None, s)
       else
         (case lookup_inode (v_tree s) (fe_inode_id e) of
            None \<Rightarrow> (Ok None, s)
          | Some node \<Rightarrow>
              if pn_kind node \<noteq> NFile then (Ok None, s)
              else (Ok (Some (cache_key (v_cache s) (fe_inode_id e))), s)))"

text \<open>\<open>map_readonly_regular_file_at\<close>: the handle, offset and length that are mapped; the mapping itself is the
  host's.\<close>

definition map_at_handle :: "string \<Rightarrow> nat \<Rightarrow> nat \<Rightarrow> (string \<times> nat \<times> nat) option store_op" where
  "map_at_handle handle offset map_len s =
     (case store_os_call (\<lambda>os i. os_map_at os i handle offset map_len) s of
        (Inr _, s) \<Rightarrow> (Ok (Some (handle, offset, map_len)), s)
      | (Inl k, s) \<Rightarrow> if k = HostInvalidInput \<or> k = HostUnsupported then (Ok None, s) else (Err (vfs_error_from_host k), s))"

definition map_readonly_regular_file_at :: "int \<Rightarrow> nat \<Rightarrow> nat \<Rightarrow> (string \<times> nat \<times> nat) option vfs_op" where
  "map_readonly_regular_file_at fd offset len =
     (if len = 0 then st_ok None
      else
        st_bind (vfs_entry fd) (\<lambda>e s.
          if \<not> can_read (entry_flags e (v_store s)) then (Err BadFd, s)
          else if fe_kind e \<noteq> FRegular then (Ok None, s)
          else
            (case lookup_inode (v_tree s) (fe_inode_id e) of
               None \<Rightarrow> (Ok None, s)
             | Some node \<Rightarrow>
                 if pn_kind node \<noteq> NFile then (Ok None, s)
                 else
                   (case pn_deferred_host_path node of
                      None \<Rightarrow> (Ok None, s)
                    | Some path \<Rightarrow>
                        let map_len = min len (fa_size (pn_attr node) - offset) in
                        if fa_size (pn_attr node) < offset \<or> map_len = 0 then (Ok None, s)
                        else
                          st_bind (cached_host_read_handle (fe_inode_id e) path) (\<lambda>handle.
                          in_vfs_store (map_at_handle handle offset map_len)) s))))"

section \<open>Writing\<close>

definition can_regular_writev_fast_path :: "int \<Rightarrow> bool vfs_op" where
  "can_regular_writev_fast_path fd =
     st_bind (vfs_entry fd) (\<lambda>e s.
       if \<not> can_write (entry_flags e (v_store s)) then (Err BadFd, s)
       else (Ok (fe_kind e = FRegular), s))"

definition invalidate_written :: "nat option \<Rightarrow> nat \<Rightarrow> unit vfs_op" where
  "invalidate_written i count = (if count > 0 then invalidate_opt i else st_ok ())"

definition writev_regular :: "int \<Rightarrow> u8 list list \<Rightarrow> nat option vfs_op" where
  "writev_regular fd buffers =
     st_bind (vfs_entry fd) (\<lambda>e s.
       if \<not> can_write (entry_flags e (v_store s)) then (Err BadFd, s)
       else if fe_kind e \<noteq> FRegular then (Ok None, s)
       else
         st_bind (ask (\<lambda>s. ok_or (lookup_inode (v_tree s) (fe_inode_id e)) NoEntry)) (\<lambda>_.
         st_bind (st_lift (vectored_len (map length buffers))) (\<lambda>total_len.
         if total_len = 0 then st_ok (Some 0)
         else if ISIZE_MAX < total_len then st_panic
         else
           st_bind (lift_tree_fds (write_file_entry e (concat buffers))) (\<lambda>count.
           st_bind (invalidate_written (Some (fe_inode_id e)) count) (\<lambda>_.
           st_ok (Some count))))) s)"

definition vfs_write :: "int \<Rightarrow> u8 list \<Rightarrow> nat vfs_op" where
  "vfs_write fd buffer s =
     (let regular_inode = (case fd_lookup (v_fds s) fd of
                             Ok e \<Rightarrow> if fe_kind e = FRegular then Some (fe_inode_id e) else None
                           | _ \<Rightarrow> None) in
      st_bind (lift_tree_fds (fd_write fd buffer)) (\<lambda>count.
      st_bind (invalidate_written regular_inode count) (\<lambda>_.
      st_ok count)) s)"

definition vfs_pwrite :: "int \<Rightarrow> nat \<Rightarrow> u8 list \<Rightarrow> nat vfs_op" where
  "vfs_pwrite fd offset buffer =
     st_bind (vfs_entry fd) (\<lambda>e s.
       if \<not> can_write (entry_flags e (v_store s)) then (Err BadFd, s)
       else if fe_kind e \<noteq> FRegular then (Err BadFd, s)
       else
         st_bind (lift_tree_fds (at_inode (fe_inode_id e) (\<lambda>files. node_write_at files offset buffer))) (\<lambda>count.
         st_bind (invalidate_written (Some (fe_inode_id e)) count) (\<lambda>_.
         st_ok count)) s)"

definition ftruncate :: "int \<Rightarrow> nat \<Rightarrow> unit vfs_op" where
  "ftruncate fd len =
     st_bind (vfs_entry fd) (\<lambda>e s.
       if \<not> can_write (entry_flags e (v_store s)) then (Err BadFd, s)
       else if fe_kind e \<noteq> FRegular then (Err InvalidPath, s)
       else
         st_bind (lift_tree_fds (at_inode (fe_inode_id e) (\<lambda>files. node_set_len files len))) (\<lambda>_.
         invalidate_inode_cache (fe_inode_id e)) s)"

definition fallocate :: "int \<Rightarrow> nat \<Rightarrow> nat \<Rightarrow> unit vfs_op" where
  "fallocate fd offset len =
     (if U64_MAX_NAT < offset + len then st_err NoSpace
      else
        st_bind (vfs_entry fd) (\<lambda>e s.
          if \<not> can_write (entry_flags e (v_store s)) then (Err BadFd, s)
          else if fe_kind e \<noteq> FRegular then (Err InvalidPath, s)
          else
            st_bind (ask (\<lambda>s. ok_or (lookup_inode (v_tree s) (fe_inode_id e)) NoEntry)) (\<lambda>node.
            if fa_size (pn_attr node) < offset + len then
              st_bind (lift_tree_fds (at_inode (fe_inode_id e) (\<lambda>files. node_set_len files (offset + len)))) (\<lambda>_.
              invalidate_inode_cache (fe_inode_id e))
            else st_ok ()) s))"

definition lseek :: "int \<Rightarrow> int \<Rightarrow> seek_whence \<Rightarrow> nat vfs_op" where
  "lseek fd offset whence s = lift_fds (seek (v_tree s) fd offset whence) s"

section \<open>Attributes\<close>

fun anonymous_attr_of :: "file_kind \<Rightarrow> nat \<Rightarrow> linux_file_attr" where
  "anonymous_attr_of (FStdio _) i = attr_fifo i"
| "anonymous_attr_of FPipeRead i = attr_fifo i"
| "anonymous_attr_of FPipeWrite i = attr_fifo i"
| "anonymous_attr_of FSocket i = attr_socket i"
| "anonymous_attr_of FEpoll i = attr_regular i 0x180 0"
| "anonymous_attr_of FEventfd i = attr_regular i 0x180 0"
| "anonymous_attr_of (FDev _) i = attr_character_device i 0x1b6"
| "anonymous_attr_of _ i = attr_new 0 (S_IFREG OR 0x1b6) 0"

definition anonymous_attr :: "file_ref \<Rightarrow> linux_file_attr" where
  "anonymous_attr f = anonymous_attr_of (fr_kind f) (in_id (fr_inode f))"

definition is_anonymous_kind :: "file_kind \<Rightarrow> bool" where
  "is_anonymous_kind kind \<longleftrightarrow>
     (case kind of FStdio _ \<Rightarrow> True | _ \<Rightarrow> kind \<in> {FPipeRead, FPipeWrite, FSocket, FEpoll, FEventfd})"

definition fstat :: "int \<Rightarrow> linux_file_attr vfs_op" where
  "fstat fd =
     st_bind (vfs_entry fd) (\<lambda>e s.
       if is_anonymous_kind (fe_kind e) then (Ok (anonymous_attr (fe_file e)), s)
       else
         (case lookup_inode (v_tree s) (fe_inode_id e) of
            Some node \<Rightarrow> cached_metadata node s
          | None \<Rightarrow> (Ok (anonymous_attr (fe_file e)), s)))"

definition sync_fd :: "int \<Rightarrow> unit vfs_op" where
  "sync_fd fd =
     st_bind (vfs_entry fd) (\<lambda>e. if fe_kind e = FRegular \<or> fe_kind e = FDirectory then st_ok () else st_err InvalidPath)"

datatype linux_fs_kind = ExtLike | TmpfsLike

record linux_statfs =
  sf_kind :: linux_fs_kind
  sf_block_size :: nat
  sf_blocks :: nat
  sf_blocks_free :: nat
  sf_blocks_available :: nat
  sf_files :: nat
  sf_files_free :: nat
  sf_name_max :: nat

definition ext_like :: linux_statfs where
  "ext_like =
     \<lparr>sf_kind = ExtLike, sf_block_size = 4096, sf_blocks = 262144, sf_blocks_free = 196608, sf_blocks_available = 196608,
      sf_files = 65536, sf_files_free = 49152, sf_name_max = 255\<rparr>"

definition tmpfs_like :: linux_statfs where
  "tmpfs_like =
     \<lparr>sf_kind = TmpfsLike, sf_block_size = 4096, sf_blocks = 65536, sf_blocks_free = 49152, sf_blocks_available = 49152,
      sf_files = 32768, sf_files_free = 24576, sf_name_max = 255\<rparr>"

definition statfs_for_path_node :: "path_node \<Rightarrow> linux_statfs" where
  "statfs_for_path_node node =
     (case pn_kind node of NProc _ \<Rightarrow> tmpfs_like | NDevice _ \<Rightarrow> tmpfs_like | _ \<Rightarrow> ext_like)"

definition statfs_for_file :: "file_ref \<Rightarrow> linux_statfs" where
  "statfs_for_file f = (if fr_kind f \<in> {FRegular, FDirectory, FSymlink} then ext_like else tmpfs_like)"

definition statfs :: "string \<Rightarrow> linux_statfs vfs_op" where
  "statfs path =
     (if path = [] then st_err NoEntry
      else
        st_bind (ask (\<lambda>s. resolve_checked (v_rootfs s) (v_tree s) path True)) (\<lambda>resolved.
        st_bind (ask (\<lambda>s. ok_or (lookup_path (v_tree s) (rp_guest_path resolved)) NoEntry)) (\<lambda>node.
        st_ok (statfs_for_path_node node))))"

definition fstatfs :: "int \<Rightarrow> linux_statfs vfs_op" where
  "fstatfs fd =
     st_bind (vfs_entry fd) (\<lambda>e s.
       (case lookup_inode (v_tree s) (fe_inode_id e) of
          Some node \<Rightarrow> (Ok (statfs_for_path_node node), s)
        | None \<Rightarrow> (Ok (statfs_for_file (fe_file e)), s)))"

text \<open>\<open>str::parse::<i32>\<close>: an optional sign, at least one digit, and a value in range.\<close>

definition digit_value :: "char \<Rightarrow> nat option" where
  "digit_value c = (let n = (of_char c :: nat) in if 48 \<le> n \<and> n \<le> 57 then Some (n - 48) else None)"

fun parse_digits :: "nat \<Rightarrow> string \<Rightarrow> nat option" where
  "parse_digits acc [] = Some acc"
| "parse_digits acc (c # cs) = Option.bind (digit_value c) (\<lambda>d. parse_digits (acc * 10 + d) cs)"

definition parse_i32 :: "string \<Rightarrow> int option" where
  "parse_i32 s =
     (let (sign, digits) = (case s of
            [] \<Rightarrow> (1, [])
          | c # cs \<Rightarrow> if c = CHR ''-'' then (- 1, cs) else if c = CHR ''+'' then (1, cs) else (1, s)) in
      if digits = [] then None
      else
        Option.bind (parse_digits 0 digits) (\<lambda>n.
        if - I32_MAX - 1 \<le> sign * int n \<and> sign * int n \<le> I32_MAX then Some (sign * int n) else None))"

definition proc_self_fd_path_fd :: "guest_path \<Rightarrow> int option" where
  "proc_self_fd_path_fd p =
     (case p of
        [a, b, c, d] \<Rightarrow>
          if a \<noteq> ''proc'' \<or> b \<noteq> ''self'' \<or> c \<noteq> ''fd'' then None
          else Option.bind (parse_i32 d) (\<lambda>fd. if fd \<ge> 0 then Some fd else None)
      | _ \<Rightarrow> None)"

fun dev_name :: "dev_node_kind \<Rightarrow> string" where
  "dev_name DevNull = ''null''"
| "dev_name DevZero = ''zero''"
| "dev_name DevUrandom = ''urandom''"
| "dev_name DevStdin = ''stdin''"
| "dev_name DevStdout = ''stdout''"
| "dev_name DevStderr = ''stderr''"

fun stdio_name :: "stdio_kind \<Rightarrow> string" where
  "stdio_name Stdin = ''stdin''"
| "stdio_name Stdout = ''stdout''"
| "stdio_name Stderr = ''stderr''"

definition proc_fd_target :: "vfs \<Rightarrow> int \<Rightarrow> string vfs_result" where
  "proc_fd_target s fd =
     and_then (map_err (\<lambda>_. NoEntry) (fd_lookup (v_fds s) fd)) (\<lambda>e.
       let visible = and_then (ok_or (fe_path e) NoEntry) (visible_path (v_rootfs s));
           id_text = nat_decimal (fe_inode_id e) in
       (case fe_kind e of
          FRegular \<Rightarrow> visible
        | FDirectory \<Rightarrow> visible
        | FSymlink \<Rightarrow> visible
        | FDev kind \<Rightarrow> Ok (''/dev/'' @ dev_name kind)
        | FPipeRead \<Rightarrow> Ok (''pipe:['' @ id_text @ '']'')
        | FPipeWrite \<Rightarrow> Ok (''pipe:['' @ id_text @ '']'')
        | FSocket \<Rightarrow> Ok (''socket:['' @ id_text @ '']'')
        | FEpoll \<Rightarrow> Ok (''anon_inode:[eventpoll:'' @ id_text @ '']'')
        | FEventfd \<Rightarrow> Ok (''anon_inode:[eventfd:'' @ id_text @ '']'')
        | FStdio kind \<Rightarrow> Ok (''/dev/'' @ stdio_name kind)))"

definition stat_path :: "guest_path \<Rightarrow> linux_file_attr vfs_op" where
  "stat_path p s =
     (case proc_self_fd_path_fd p of
        Some fd \<Rightarrow>
          st_bind (st_lift (proc_fd_target s fd)) (\<lambda>target.
          st_bind (st_lift (proc_self_fd_link_inode fd)) (\<lambda>i.
          st_ok (attr_symlink i (length target)))) s
      | None \<Rightarrow> st_bind (st_lift (ok_or (lookup_path (v_tree s) p) NoEntry)) cached_metadata s)"

definition newfstatat :: "int \<Rightarrow> string \<Rightarrow> u32 \<Rightarrow> linux_file_attr vfs_op" where
  "newfstatat dirfd path flags =
     (if path = [] \<and> flags AND AT_EMPTY_PATH \<noteq> 0 then fstat dirfd
      else
        st_bind (ask (\<lambda>s. resolve_at s dirfd path (flags AND AT_SYMLINK_NOFOLLOW = 0) False)) (\<lambda>resolved.
        stat_path (rp_guest_path resolved)))"

definition vfs_access :: "string \<Rightarrow> u32 \<Rightarrow> unit vfs_op" where
  "vfs_access path mode =
     (if path = [] then st_err NoEntry
      else
        st_bind (ask (\<lambda>s. resolve_checked (v_rootfs s) (v_tree s) path True)) (\<lambda>resolved.
        st_bind (stat_path (rp_guest_path resolved)) (\<lambda>attr.
        st_lift (check_access mode attr))))"

definition faccessat2 :: "int \<Rightarrow> string \<Rightarrow> u32 \<Rightarrow> u32 \<Rightarrow> unit vfs_op" where
  "faccessat2 dirfd path mode flags =
     (if flags AND NOT (AT_EMPTY_PATH OR AT_SYMLINK_NOFOLLOW) \<noteq> 0 then st_err InvalidPath
      else
        st_bind
          (if path = [] \<and> flags AND AT_EMPTY_PATH \<noteq> 0 then fstat dirfd
           else if path = [] then st_err NoEntry
           else
             st_bind (ask (\<lambda>s. resolve_at s dirfd path (flags AND AT_SYMLINK_NOFOLLOW = 0) False)) (\<lambda>resolved.
             stat_path (rp_guest_path resolved)))
          (\<lambda>attr. st_lift (check_access mode attr)))"

text \<open>An update of the attributes of the node at a path.\<close>

definition update_attr_at :: "string \<Rightarrow> (linux_file_attr \<Rightarrow> linux_file_attr) \<Rightarrow> unit vfs_op" where
  "update_attr_at path f =
     st_bind (ask (\<lambda>s. resolve_at s AT_FDCWD path True False)) (\<lambda>resolved.
     st_bind (ask (\<lambda>s. ok_or (lookup_path (v_tree s) (rp_guest_path resolved)) NoEntry)) (\<lambda>node.
     st_bind (lift_tree_fds (at_path (rp_guest_path resolved) (\<lambda>_ n. (Ok (), n\<lparr>pn_attr := f (pn_attr n)\<rparr>)))) (\<lambda>_.
     invalidate_inode_cache (pn_inode_id node))))"

definition chmod :: "string \<Rightarrow> u32 \<Rightarrow> unit vfs_op" where
  "chmod path mode = update_attr_at path (attr_set_mode mode)"

definition chown :: "string \<Rightarrow> u32 option \<Rightarrow> u32 option \<Rightarrow> unit vfs_op" where
  "chown path uid gid = update_attr_at path (attr_set_owner uid gid)"

definition utimensat :: "int \<Rightarrow> string \<Rightarrow> file_times \<Rightarrow> u32 \<Rightarrow> unit vfs_op" where
  "utimensat dirfd path ts flags =
     (if flags AND NOT (AT_SYMLINK_NOFOLLOW OR AT_EMPTY_PATH) \<noteq> 0 then st_err InvalidPath
      else
        st_bind
          (if path = [] \<and> flags AND AT_EMPTY_PATH \<noteq> 0 then
             st_bind (vfs_entry dirfd) (\<lambda>e. st_ok (fe_inode_id e))
           else
             st_bind (ask (\<lambda>s. resolve_at s dirfd path (flags AND AT_SYMLINK_NOFOLLOW = 0) False)) (\<lambda>resolved.
             st_lift (ok_or (rp_inode resolved) NoEntry)))
          (\<lambda>i.
             st_bind (lift_tree_fds (at_inode i (\<lambda>_ n. (Ok (), n\<lparr>pn_attr := attr_set_times ts (pn_attr n)\<rparr>)))) (\<lambda>_.
             invalidate_inode_cache i)))"

definition readlink_resolved :: "guest_path \<Rightarrow> nat \<Rightarrow> u8 list vfs_op" where
  "readlink_resolved p len s =
     st_bind (st_lift
       (case proc_self_fd_path_fd p of
          Some fd \<Rightarrow> and_then (proc_fd_target s fd) (\<lambda>t. Ok (string_bytes t))
        | None \<Rightarrow>
            and_then (ok_or (lookup_path (v_tree s) p) NoEntry) (\<lambda>node.
            (case pn_kind node of
               NSymlink target \<Rightarrow> Ok (string_bytes target)
             | NProc ProcExe \<Rightarrow> Ok (psd_executable_path (v_proc_self s))
             | NProc (ProcFdLink fd) \<Rightarrow> and_then (proc_fd_target s fd) (\<lambda>t. Ok (string_bytes t))
             | _ \<Rightarrow> Err InvalidPath))))
       (\<lambda>target. st_ok (take len target)) s"

definition vfs_readlink :: "string \<Rightarrow> nat \<Rightarrow> u8 list vfs_op" where
  "vfs_readlink path len =
     (if path = [] then st_err NoEntry
      else
        st_bind (ask (\<lambda>s. resolve_checked (v_rootfs s) (v_tree s) path False)) (\<lambda>resolved.
        readlink_resolved (rp_guest_path resolved) len))"

definition readlinkat :: "int \<Rightarrow> string \<Rightarrow> nat \<Rightarrow> u8 list vfs_op" where
  "readlinkat dirfd path len =
     (if path = [] then
        st_bind (vfs_entry dirfd) (\<lambda>e.
        st_bind (st_lift (ok_or (fe_path e) NoEntry)) (\<lambda>p.
        readlink_resolved p len))
      else
        st_bind (ask (\<lambda>s. resolve_at s dirfd path False False)) (\<lambda>resolved.
        readlink_resolved (rp_guest_path resolved) len))"

definition vfs_getdents64 :: "int \<Rightarrow> nat \<Rightarrow> directory_entry list vfs_op" where
  "vfs_getdents64 fd max_bytes =
     st_bind (ask (\<lambda>s. directory_listing_source (v_tree s) (v_fds s) fd)) (\<lambda>source.
     st_bind (if ls_cacheable source then cached_directory_entries (ls_inode source) (ls_path source)
              else ask (\<lambda>s. directory_entries (v_tree s) (v_fds s) (ls_path source))) (\<lambda>entries.
     lift_fds (consume_directory_entries fd max_bytes entries)))"

end
