(* ===== verification/Vfs_Names.thy ===== *)
theory Vfs_Names
  imports Vfs_Ops
begin

text \<open>
  The operations of the virtual file system that change names, and the descriptor operations that system
  calls reach through it (\<open>mcr-vfs/src/filesystem.rs\<close>: \<open>mkdirat\<close>, \<open>unlinkat\<close>, \<open>symlinkat\<close>, \<open>linkat\<close>,
  \<open>renameat2\<close>, \<open>dup\<close>, \<open>fcntl\<close> and \<open>ioctl\<close>).
\<close>

section \<open>Creating and removing names\<close>

text \<open>The end of \<open>mkdirat\<close> and \<open>symlinkat\<close>: a node at a path that names nothing yet.\<close>

definition create_at :: "int \<Rightarrow> string \<Rightarrow> (vfs \<Rightarrow> nat \<Rightarrow> path_node) \<Rightarrow> unit vfs_op" where
  "create_at dirfd path node =
     st_bind (ask (\<lambda>s. resolve_at s dirfd path False False)) (\<lambda>resolved.
     if rp_inode resolved \<noteq> None then st_err AlreadyExists
     else
       let p = rp_guest_path resolved in
       st_bind (ask (\<lambda>s. ensure_parent_dir (v_tree s) p)) (\<lambda>_.
       st_bind (ask (\<lambda>s. check_parent_write_permissions (v_tree s) p)) (\<lambda>_.
       st_bind (lift_tree allocate_inode_id) (\<lambda>i.
       st_bind (\<lambda>s. lift_tree (insert_path_node p (node s i)) s) (\<lambda>_.
       invalidate_parent_cache p)))))"

definition mkdirat :: "int \<Rightarrow> string \<Rightarrow> u32 \<Rightarrow> unit vfs_op" where
  "mkdirat dirfd path mode =
     create_at dirfd path (\<lambda>s i. bare_node i NDirectory (attr_directory i (mode AND NOT (v_umask s))))"

definition symlinkat :: "string \<Rightarrow> int \<Rightarrow> string \<Rightarrow> unit vfs_op" where
  "symlinkat target newdirfd linkpath =
     (if target = [] \<or> has_nul target then st_err InvalidPath
      else create_at newdirfd linkpath (\<lambda>s i. bare_node i (NSymlink target) (attr_symlink i (length target))))"

definition forget_inode :: "nat \<Rightarrow> path_tree \<Rightarrow> path_tree" where
  "forget_inode i t = t\<lparr>pt_inodes := bt_remove i (pt_inodes t)\<rparr>"

definition drop_link :: "nat \<Rightarrow> unit vfs_op" where
  "drop_link i =
     st_modify (\<lambda>s.
       let tree = modify_inode i (\<lambda>n. n\<lparr>pn_attr := decrement_link_count (pn_attr n)\<rparr>) (v_tree s)
       in s\<lparr>v_tree := (if tree_link_count tree i = 0 \<and> open_count (v_fds s) i = 0 then forget_inode i tree else tree)\<rparr>)"

definition unlink_checks :: "bool \<Rightarrow> path_tree \<Rightarrow> guest_path \<Rightarrow> path_node \<Rightarrow> unit vfs_result" where
  "unlink_checks remove_dir tree target node =
     (if remove_dir then
        if \<not> node_is_directory node then Err NotDirectory
        else if \<not> is_empty_directory tree target then Err NotEmpty
        else Ok ()
      else if node_is_directory node then Err IsDirectory
      else Ok ())"

definition unlinkat :: "int \<Rightarrow> string \<Rightarrow> u32 \<Rightarrow> unit vfs_op" where
  "unlinkat dirfd path flags =
     (if flags AND NOT AT_REMOVEDIR \<noteq> 0 then st_err InvalidPath
      else
        st_bind (ask (\<lambda>s. resolve_at s dirfd path False False)) (\<lambda>resolved.
        let target = rp_guest_path resolved in
        if target = [] then st_err PermissionDenied
        else
          st_bind (ask (\<lambda>s. ok_or (lookup_path (v_tree s) target) NoEntry)) (\<lambda>node.
          st_bind (ask (\<lambda>s. unlink_checks (flags AND AT_REMOVEDIR \<noteq> 0) (v_tree s) target node)) (\<lambda>_.
          st_bind (ask (\<lambda>s. check_parent_write_permissions (v_tree s) target)) (\<lambda>_.
          st_bind (ask (\<lambda>s. Ok (parent_inode (v_tree s) target))) (\<lambda>parent.
          st_bind (lift_tree (remove_path_link target)) (\<lambda>i.
          st_bind (drop_link i) (\<lambda>_.
          invalidate_inode_caches [parent, Some i]))))))))"

definition link_source :: "vfs \<Rightarrow> int \<Rightarrow> string \<Rightarrow> u32 \<Rightarrow> resolved_path vfs_result" where
  "link_source s olddirfd oldpath flags =
     (if oldpath = [] \<and> flags AND AT_EMPTY_PATH \<noteq> 0 then
        and_then (fd_lookup (v_fds s) olddirfd) (\<lambda>e.
        and_then (ok_or (fe_path e) NoEntry) (\<lambda>p.
        Ok \<lparr>rp_guest_path = p, rp_inode = Some (fe_inode_id e)\<rparr>))
      else resolve_at s olddirfd oldpath (flags AND AT_SYMLINK_FOLLOW \<noteq> 0) False)"

definition increment_node :: "host_files \<Rightarrow> (path_node, unit, vfs_error) st" where
  "increment_node files n =
     (case increment_link_count (pn_attr n) of
        Ok attr \<Rightarrow> (Ok (), n\<lparr>pn_attr := attr\<rparr>)
      | Err e \<Rightarrow> (Err e, n)
      | Panic \<Rightarrow> (Panic, n))"

definition linkat :: "int \<Rightarrow> string \<Rightarrow> int \<Rightarrow> string \<Rightarrow> u32 \<Rightarrow> unit vfs_op" where
  "linkat olddirfd oldpath newdirfd newpath flags =
     (if flags AND NOT (AT_SYMLINK_FOLLOW OR AT_EMPTY_PATH) \<noteq> 0 then st_err InvalidPath
      else if oldpath = [] \<and> flags AND AT_EMPTY_PATH = 0 then st_err NoEntry
      else
        st_bind (ask (\<lambda>s. link_source s olddirfd oldpath flags)) (\<lambda>old_resolved.
        st_bind (st_lift (ok_or (rp_inode old_resolved) NoEntry)) (\<lambda>old_inode.
        st_bind (ask (\<lambda>s. ok_or (lookup_inode (v_tree s) old_inode) NoEntry)) (\<lambda>old_node.
        if node_is_directory old_node then st_err NotPermitted
        else
          st_bind (ask (\<lambda>s. resolve_at s newdirfd newpath False False)) (\<lambda>new_resolved.
          if rp_inode new_resolved \<noteq> None then st_err AlreadyExists
          else
            let p = rp_guest_path new_resolved in
            st_bind (ask (\<lambda>s. ensure_parent_dir (v_tree s) p)) (\<lambda>_.
            st_bind (ask (\<lambda>s. check_parent_write_permissions (v_tree s) p)) (\<lambda>_.
            st_bind (lift_tree_fds (at_inode old_inode increment_node)) (\<lambda>_.
            st_bind (lift_tree (insert_link p old_inode)) (\<lambda>_ s.
            invalidate_inode_caches [parent_inode (v_tree s) p, Some old_inode] s)))))))))"

section \<open>Renaming\<close>

definition validate_rename_replacement :: "path_tree \<Rightarrow> nat \<Rightarrow> nat \<Rightarrow> guest_path \<Rightarrow> unit vfs_result" where
  "validate_rename_replacement tree old_inode target_inode target_path =
     and_then (ok_or (lookup_inode tree old_inode) NoEntry) (\<lambda>old_node.
     and_then (ok_or (lookup_inode tree target_inode) NoEntry) (\<lambda>target_node.
       if node_is_directory old_node \<and> \<not> node_is_directory target_node then Err NotDirectory
       else if \<not> node_is_directory old_node \<and> node_is_directory target_node then Err IsDirectory
       else if node_is_directory old_node \<and> node_is_directory target_node \<and> \<not> is_empty_directory tree target_path
       then Err NotEmpty
       else Ok ()))"

definition remove_existing_rename_target :: "guest_path \<Rightarrow> nat \<Rightarrow> unit vfs_op" where
  "remove_existing_rename_target target_path target_inode =
     st_bind (ask (\<lambda>s. ok_or (lookup_inode (v_tree s) target_inode) NoEntry)) (\<lambda>node s.
       if node_is_directory node \<and> \<not> is_empty_directory (v_tree s) target_path then (Err NotEmpty, s)
       else st_bind (lift_tree (remove_path_link target_path)) (\<lambda>_. drop_link target_inode) s)"

fun remove_links :: "guest_path \<Rightarrow> guest_path \<Rightarrow> guest_path list \<Rightarrow> (guest_path \<times> nat) list tree_op" where
  "remove_links old_path new_path [] = st_ok []"
| "remove_links old_path new_path (p # ps) =
     st_bind (remove_path_link p) (\<lambda>i.
     st_bind (remove_links old_path new_path ps) (\<lambda>updates.
     st_ok ((replace_prefix p old_path new_path, i) # updates)))"

fun insert_links :: "(guest_path \<times> nat) list \<Rightarrow> unit tree_op" where
  "insert_links [] = st_ok ()"
| "insert_links ((p, i) # updates) = st_bind (insert_link p i) (\<lambda>_. insert_links updates)"

definition rebind_fds :: "guest_path \<Rightarrow> guest_path \<Rightarrow> unit vfs_op" where
  "rebind_fds old_path new_path = st_modify (\<lambda>s. s\<lparr>v_fds := rebind_paths old_path new_path (v_fds s)\<rparr>)"

definition move_links :: "guest_path \<Rightarrow> guest_path \<Rightarrow> unit tree_op" where
  "move_links old_path new_path t =
     st_bind (remove_links old_path new_path (paths_under_prefix t old_path)) insert_links t"

definition move_path :: "guest_path \<Rightarrow> guest_path \<Rightarrow> unit vfs_op" where
  "move_path old_path new_path =
     st_bind (lift_tree (move_links old_path new_path)) (\<lambda>_. rebind_fds old_path new_path)"

definition moved_paths :: "path_tree \<Rightarrow> bool \<Rightarrow> guest_path \<Rightarrow> guest_path list" where
  "moved_paths tree is_dir p = (if is_dir then paths_under_prefix tree p else [p])"

definition exchange_paths :: "guest_path \<Rightarrow> nat \<Rightarrow> guest_path \<Rightarrow> nat \<Rightarrow> unit vfs_op" where
  "exchange_paths old_path old_inode new_path new_inode =
     st_bind (ask (\<lambda>s. ok_or (lookup_inode (v_tree s) old_inode) NoEntry)) (\<lambda>old_node.
     st_bind (ask (\<lambda>s. ok_or (lookup_inode (v_tree s) new_inode) NoEntry)) (\<lambda>new_node s.
       let old_is_dir = node_is_directory old_node; new_is_dir = node_is_directory new_node in
       if old_is_dir \<and> gp_starts_with new_path old_path then (Err InvalidPath, s)
       else if new_is_dir \<and> gp_starts_with old_path new_path then (Err InvalidPath, s)
       else
         let old_paths = moved_paths (v_tree s) old_is_dir old_path;
             new_paths = moved_paths (v_tree s) new_is_dir new_path in
         st_bind (lift_tree (remove_links old_path new_path old_paths)) (\<lambda>old_updates.
         st_bind (lift_tree (remove_links new_path old_path new_paths)) (\<lambda>new_updates.
         st_bind (lift_tree (insert_links (old_updates @ new_updates))) (\<lambda>_.
         st_bind (rebind_fds old_path new_path) (\<lambda>_.
         rebind_fds new_path old_path)))) s))"

definition rename_checks :: "vfs \<Rightarrow> u32 \<Rightarrow> guest_path \<Rightarrow> nat \<Rightarrow> guest_path \<Rightarrow> nat option \<Rightarrow> unit vfs_result" where
  "rename_checks s flags old_path old_inode new_path new_inode =
     and_then (ok_or (lookup_inode (v_tree s) old_inode) NoEntry) (\<lambda>old_node.
       if flags AND RENAME_NOREPLACE \<noteq> 0 \<and> new_inode \<noteq> None then Err AlreadyExists
       else if node_is_directory old_node \<and> gp_starts_with new_path old_path \<and> flags AND RENAME_EXCHANGE = 0
       then Err InvalidPath
       else
         and_then (ensure_parent_dir (v_tree s) new_path) (\<lambda>_.
         and_then (check_parent_write_permissions (v_tree s) old_path) (\<lambda>_.
         check_parent_write_permissions (v_tree s) new_path)))"

definition rename_replace :: "guest_path \<Rightarrow> nat \<Rightarrow> guest_path \<Rightarrow> nat option \<Rightarrow> unit vfs_op" where
  "rename_replace old_path old_inode new_path new_inode =
     st_bind (case new_inode of
                None \<Rightarrow> st_ok ()
              | Some target_inode \<Rightarrow>
                  st_bind (ask (\<lambda>s. validate_rename_replacement (v_tree s) old_inode target_inode new_path)) (\<lambda>_.
                  remove_existing_rename_target new_path target_inode)) (\<lambda>_ s.
       let old_parent = parent_inode (v_tree s) old_path; new_parent = parent_inode (v_tree s) new_path in
       st_bind (move_path old_path new_path) (\<lambda>_.
       invalidate_inode_caches [old_parent, new_parent, new_inode]) s)"

definition renameat2 :: "int \<Rightarrow> string \<Rightarrow> int \<Rightarrow> string \<Rightarrow> u32 \<Rightarrow> unit vfs_op" where
  "renameat2 olddirfd oldpath newdirfd newpath flags =
     (if flags AND NOT SUPPORTED_RENAME_FLAGS \<noteq> 0 then st_err InvalidPath
      else if flags AND RENAME_NOREPLACE \<noteq> 0 \<and> flags AND RENAME_EXCHANGE \<noteq> 0 then st_err InvalidPath
      else
        st_bind (ask (\<lambda>s. resolve_at s olddirfd oldpath False False)) (\<lambda>old_resolved.
        st_bind (ask (\<lambda>s. resolve_at s newdirfd newpath False False)) (\<lambda>new_resolved.
        let old_path = rp_guest_path old_resolved; new_path = rp_guest_path new_resolved;
            new_inode = rp_inode new_resolved in
        if old_path = [] \<or> new_path = [] then st_err PermissionDenied
        else
          st_bind (st_lift (ok_or (rp_inode old_resolved) NoEntry)) (\<lambda>old_inode.
          if old_path = new_path then st_ok ()
          else
            st_bind (ask (\<lambda>s. rename_checks s flags old_path old_inode new_path new_inode)) (\<lambda>_.
            if flags AND RENAME_EXCHANGE \<noteq> 0 then
              st_bind (st_lift (ok_or new_inode NoEntry)) (\<lambda>target.
              st_bind (exchange_paths old_path old_inode new_path target) (\<lambda>_.
              invalidate_vfs_caches))
            else rename_replace old_path old_inode new_path new_inode)))))"

section \<open>Descriptors\<close>

definition vfs_pipe :: "open_flags \<Rightarrow> (int \<times> int) vfs_op" where
  "vfs_pipe flags = lift_fds (fd_pipe flags)"

definition vfs_eventfd :: "u64 \<Rightarrow> open_flags \<Rightarrow> int vfs_op" where
  "vfs_eventfd initial flags = lift_fds (fd_eventfd initial flags)"

definition vfs_dup :: "int \<Rightarrow> int vfs_op" where
  "vfs_dup oldfd = lift_fds (fd_dup oldfd FIRST_ALLOC_FD False)"

definition vfs_dup2 :: "int \<Rightarrow> int \<Rightarrow> int vfs_op" where
  "vfs_dup2 oldfd newfd = lift_fds (fd_dup2 oldfd newfd False)"

definition vfs_dup3 :: "int \<Rightarrow> int \<Rightarrow> open_flags \<Rightarrow> int vfs_op" where
  "vfs_dup3 oldfd newfd flags =
     (if flags AND NOT O_CLOEXEC \<noteq> 0 \<or> oldfd = newfd then st_err InvalidPath
      else lift_fds (fd_dup2 oldfd newfd (flag_cloexec flags)))"

definition F_DUPFD :: u32 where "F_DUPFD = 0"
definition F_GETFD :: u32 where "F_GETFD = 1"
definition F_SETFD :: u32 where "F_SETFD = 2"
definition F_GETFL :: u32 where "F_GETFL = 3"
definition F_SETFL :: u32 where "F_SETFL = 4"
definition F_SETLK :: u32 where "F_SETLK = 6"
definition F_SETLKW :: u32 where "F_SETLKW = 7"
definition F_DUPFD_CLOEXEC :: u32 where "F_DUPFD_CLOEXEC = 1030"
definition F_SETPIPE_SZ :: u32 where "F_SETPIPE_SZ = 1031"
definition F_GETPIPE_SZ :: u32 where "F_GETPIPE_SZ = 1032"

text \<open>\<open>fd as u64\<close> and \<open>flags as u64\<close> of non-negative values.\<close>

definition fcntl_dup :: "int \<Rightarrow> u64 \<Rightarrow> bool \<Rightarrow> u64 vfs_op" where
  "fcntl_dup fd arg cloexec =
     (if int (unat arg) > I32_MAX then st_err BadFd
      else st_bind (lift_fds (fd_dup fd (int (unat arg)) cloexec)) (\<lambda>newfd. st_ok (of_int newfd)))"

definition fcntl :: "int \<Rightarrow> u32 \<Rightarrow> u64 \<Rightarrow> u64 vfs_op" where
  "fcntl fd cmd arg =
     (if cmd = F_DUPFD then fcntl_dup fd arg False
      else if cmd = F_DUPFD_CLOEXEC then fcntl_dup fd arg True
      else if cmd = F_GETFD then st_bind (ask (\<lambda>s. get_fd_flags (v_fds s) fd)) (\<lambda>r. st_ok (ucast r))
      else if cmd = F_SETFD then st_bind (lift_fds (set_fd_flags fd (ucast arg))) (\<lambda>_. st_ok 0)
      else if cmd = F_GETFL then st_bind (ask (\<lambda>s. status_flags (v_fds s, v_store s) fd)) (\<lambda>r. st_ok (ucast r))
      else if cmd = F_SETFL then st_bind (lift_fds (set_status_flags fd (ucast arg))) (\<lambda>_. st_ok 0)
      else if cmd = F_SETLK \<or> cmd = F_SETLKW then st_bind (vfs_entry fd) (\<lambda>_. st_ok 0)
      else if cmd = F_GETPIPE_SZ then st_bind (ask (\<lambda>s. pipe_capacity (v_fds s, v_store s) fd)) (\<lambda>n. st_ok (of_nat n))
      else if cmd = F_SETPIPE_SZ then st_bind (lift_fds (set_pipe_capacity fd (unat arg))) (\<lambda>n. st_ok (of_nat n))
      else st_err InvalidPath)"

definition FIONREAD :: u64 where "FIONREAD = 0x541b"

definition ioctl :: "int \<Rightarrow> u64 \<Rightarrow> u32 vfs_op" where
  "ioctl fd request =
     st_bind (vfs_entry fd) (\<lambda>_.
       if request = FIONREAD then
         st_bind (ask (\<lambda>s. available_bytes (v_tree s) (v_fds s, v_store s) fd)) (\<lambda>n.
         st_ok (if n < 2 ^ 32 then of_nat n else - 1))
       else st_err NotTerminal)"

end
