(* ===== verification/Vfs_Tree.thy ===== *)
theory Vfs_Tree
  imports Vfs_Names
begin

text \<open>
  The invariant of the file tree.  It is stated on the three finite functions a tree stands for: which inode
  a path names, what an inode holds, and which inode a directory lists under a name.  The lemmas of the
  first half are about these functions only; the second half shows that the operations of \<open>path.rs\<close> act on
  them by the updates the first half is about.
\<close>

section \<open>The invariant\<close>

text \<open>A node is filed under its own number and its mode bits agree with its kind.\<close>

definition node_ok :: "nat \<Rightarrow> path_node \<Rightarrow> bool" where
  "node_ok i n \<longleftrightarrow>
     pn_inode_id n = i \<and> fa_inode (pn_attr n) = i \<and>
     attr_is_directory (pn_attr n) = node_is_directory n"

definition dir_at :: "(guest_path \<Rightarrow> nat option) \<Rightarrow> (nat \<Rightarrow> path_node option) \<Rightarrow> guest_path \<Rightarrow> bool" where
  "dir_at N I p \<longleftrightarrow> (\<exists>i n. N p = Some i \<and> I i = Some n \<and> node_is_directory n)"

lemma dir_at_mono:
  assumes "dir_at N I r" "N' r = N r"
    "\<And>i n. N r = Some i \<Longrightarrow> I i = Some n \<Longrightarrow> node_is_directory n \<Longrightarrow> \<exists>n'. I' i = Some n' \<and> node_is_directory n'"
  shows "dir_at N' I' r"
  using assms by (auto simp: dir_at_def)

text \<open>The root is a directory; names point to nodes; the parent of every name is a directory; the listing
  index agrees with the names; a directory has one name; the link count of anything else is the number of
  its names.\<close>

definition tree_inv ::
  "(guest_path \<Rightarrow> nat option) \<Rightarrow> (nat \<Rightarrow> path_node option) \<Rightarrow> (guest_path \<Rightarrow> string \<Rightarrow> nat option) \<Rightarrow> bool" where
  "tree_inv N I C \<longleftrightarrow>
     finite (dom N) \<and> dir_at N I [] \<and>
     (\<forall>p i. N p = Some i \<longrightarrow> I i \<noteq> None) \<and>
     (\<forall>i n. I i = Some n \<longrightarrow> node_ok i n) \<and>
     (\<forall>p x. N (p @ [x]) \<noteq> None \<longrightarrow> dir_at N I p) \<and>
     (\<forall>p x. C p x = N (p @ [x])) \<and>
     (\<forall>p q i n. N p = Some i \<longrightarrow> N q = Some i \<longrightarrow> I i = Some n \<longrightarrow> node_is_directory n \<longrightarrow> p = q) \<and>
     (\<forall>i n. I i = Some n \<longrightarrow> \<not> node_is_directory n \<longrightarrow> fa_nlink (pn_attr n) = card {p. N p = Some i})"

lemma tree_invD:
  assumes "tree_inv N I C"
  shows "finite (dom N)" "dir_at N I []" "N p = Some i \<Longrightarrow> I i \<noteq> None" "I i = Some n \<Longrightarrow> node_ok i n"
    "N (p @ [x]) \<noteq> None \<Longrightarrow> dir_at N I p" "C p x = N (p @ [x])"
    "N p = Some i \<Longrightarrow> N q = Some i \<Longrightarrow> I i = Some n \<Longrightarrow> node_is_directory n \<Longrightarrow> p = q"
    "I i = Some n \<Longrightarrow> \<not> node_is_directory n \<Longrightarrow> fa_nlink (pn_attr n) = card {p. N p = Some i}"
  using assms unfolding tree_inv_def by blast+

lemma tree_invI:
  assumes "finite (dom N)" "dir_at N I []" "\<And>p i. N p = Some i \<Longrightarrow> I i \<noteq> None" "\<And>i n. I i = Some n \<Longrightarrow> node_ok i n"
    "\<And>p x. N (p @ [x]) \<noteq> None \<Longrightarrow> dir_at N I p" "\<And>p x. C p x = N (p @ [x])"
    "\<And>p q i n. N p = Some i \<Longrightarrow> N q = Some i \<Longrightarrow> I i = Some n \<Longrightarrow> node_is_directory n \<Longrightarrow> p = q"
    "\<And>i n. I i = Some n \<Longrightarrow> \<not> node_is_directory n \<Longrightarrow> fa_nlink (pn_attr n) = card {p. N p = Some i}"
  shows "tree_inv N I C"
  using assms unfolding tree_inv_def by blast

text \<open>A name exists only below existing directories.\<close>

lemma names_prefix_closed:
  assumes "tree_inv N I C" "N (p @ r) \<noteq> None" "r \<noteq> []"
  shows "dir_at N I p"
  using assms(2,3)
proof (induction r rule: rev_induct)
  case (snoc x r)
  then have "dir_at N I (p @ r)"
    using tree_invD(5) [OF assms(1), of "p @ r" x] by simp
  then show ?case
    using snoc.IH by (cases "r = []") (auto simp: dir_at_def)
qed simp

lemma names_finite: "tree_inv N I C \<Longrightarrow> finite {p. N p = Some i}"
  by (rule finite_subset [of _ "dom N"]) (auto dest: tree_invD(1))

section \<open>Updates that keep the invariant\<close>

text \<open>The listing index after a name was set or cleared.\<close>

definition set_child ::
  "guest_path \<Rightarrow> nat option \<Rightarrow> (guest_path \<Rightarrow> string \<Rightarrow> nat option) \<Rightarrow> guest_path \<Rightarrow> string \<Rightarrow> nat option" where
  "set_child p v C q x = (if q @ [x] = p then v else C q x)"

lemma tree_inv_new_node:
  assumes inv: "tree_inv N I C" and parent: "dir_at N I q" and p: "p = q @ [x]" and free: "N p = None" "I i = None"
    and n: "node_ok i n" "\<not> node_is_directory n \<longrightarrow> fa_nlink (pn_attr n) = 1"
  shows "tree_inv (N(p \<mapsto> i)) (I(i \<mapsto> n)) (set_child p (Some i) C)"
proof (rule tree_invI)
  have unused: "N r \<noteq> Some i" for r
    using tree_invD(3) [OF inv, of r i] free(2) by blast
  have keep: "dir_at N I r \<Longrightarrow> dir_at (N(p \<mapsto> i)) (I(i \<mapsto> n)) r" for r
    using unused free by (fastforce simp: dir_at_def)
  show "dir_at (N(p \<mapsto> i)) (I(i \<mapsto> n)) []"
    using keep tree_invD(2) [OF inv] .
  show "dir_at (N(p \<mapsto> i)) (I(i \<mapsto> n)) r" if "(N(p \<mapsto> i)) (r @ [y]) \<noteq> None" for r y
    using that keep parent tree_invD(5) [OF inv, of r y] by (auto simp: p split: if_splits)
  show "fa_nlink (pn_attr m) = card {r. (N(p \<mapsto> i)) r = Some j}"
    if "(I(i \<mapsto> n)) j = Some m" "\<not> node_is_directory m" for j m
  proof (cases "j = i")
    case True
    then have "{r. (N(p \<mapsto> i)) r = Some j} = {p}"
      using unused by auto
    then show ?thesis
      using that n True by simp
  next
    case False
    then have "{r. (N(p \<mapsto> i)) r = Some j} = {r. N r = Some j}"
      using free by auto
    then show ?thesis
      using that False tree_invD(8) [OF inv, of j m] by simp
  qed
  show "r = s" if "(N(p \<mapsto> i)) r = Some j" "(N(p \<mapsto> i)) s = Some j" "(I(i \<mapsto> n)) j = Some m" "node_is_directory m"
    for r s j m
    using that unused tree_invD(7) [OF inv] by (auto split: if_splits)
qed (use inv n in \<open>auto simp: set_child_def dest: tree_invD split: if_splits\<close>)

lemma tree_inv_new_link:
  assumes inv: "tree_inv N I C" and parent: "dir_at N I q" and p: "p = q @ [x]" and free: "N p = None"
    and i: "I i = Some n" "\<not> node_is_directory n" and n': "node_ok i n'" "\<not> node_is_directory n'"
      "fa_nlink (pn_attr n') = fa_nlink (pn_attr n) + 1"
  shows "tree_inv (N(p \<mapsto> i)) (I(i \<mapsto> n')) (set_child p (Some i) C)"
proof (rule tree_invI)
  have keep: "dir_at N I r \<Longrightarrow> dir_at (N(p \<mapsto> i)) (I(i \<mapsto> n')) r" for r
    using i free by (fastforce simp: dir_at_def)
  show "dir_at (N(p \<mapsto> i)) (I(i \<mapsto> n')) []"
    using keep tree_invD(2) [OF inv] .
  show "dir_at (N(p \<mapsto> i)) (I(i \<mapsto> n')) r" if "(N(p \<mapsto> i)) (r @ [y]) \<noteq> None" for r y
    using that keep parent tree_invD(5) [OF inv, of r y] by (auto simp: p split: if_splits)
  show "fa_nlink (pn_attr m) = card {r. (N(p \<mapsto> i)) r = Some j}"
    if "(I(i \<mapsto> n')) j = Some m" "\<not> node_is_directory m" for j m
  proof (cases "j = i")
    case True
    then have "{r. (N(p \<mapsto> i)) r = Some j} = insert p {r. N r = Some i}"
      by auto
    then show ?thesis
      using that n' True tree_invD(8) [OF inv i] free names_finite [OF inv, of i] by simp
  next
    case False
    then have "{r. (N(p \<mapsto> i)) r = Some j} = {r. N r = Some j}"
      using free by auto
    then show ?thesis
      using that False tree_invD(8) [OF inv, of j m] by simp
  qed
qed (use inv i n' in \<open>auto simp: set_child_def dest: tree_invD split: if_splits\<close>)

lemma tree_inv_unlink:
  assumes inv: "tree_inv N I C" and p: "p \<noteq> []" "N p = Some i" and i: "I i = Some n"
    and leaf: "\<And>x. N (p @ [x]) = None" and n': "node_ok i n'" "node_is_directory n' = node_is_directory n"
      "fa_nlink (pn_attr n') = fa_nlink (pn_attr n) - 1"
  shows "tree_inv (N(p := None)) (I(i \<mapsto> n')) (set_child p None C)"
proof (rule tree_invI)
  have keep: "r \<noteq> p \<Longrightarrow> dir_at N I r \<Longrightarrow> dir_at (N(p := None)) (I(i \<mapsto> n')) r" for r
    using i n' by (elim dir_at_mono) auto
  show "dir_at (N(p := None)) (I(i \<mapsto> n')) []"
    using keep p tree_invD(2) [OF inv] by simp
  show "dir_at (N(p := None)) (I(i \<mapsto> n')) r" if "(N(p := None)) (r @ [y]) \<noteq> None" for r y
    using that keep [of r] leaf tree_invD(5) [OF inv, of r y] by (cases "r = p") (auto split: if_splits)
  show "fa_nlink (pn_attr m) = card {r. (N(p := None)) r = Some j}"
    if "(I(i \<mapsto> n')) j = Some m" "\<not> node_is_directory m" for j m
  proof (cases "j = i")
    case True
    have "{r. (N(p := None)) r = Some i} = {r. N r = Some i} - {p}"
      by auto
    then show ?thesis
      using that n' True tree_invD(8) [OF inv i] p by simp
  next
    case False
    then have "{r. (N(p := None)) r = Some j} = {r. N r = Some j}"
      using p by auto
    then show ?thesis
      using that False tree_invD(8) [OF inv, of j m] by simp
  qed
  show "r = s" if "(N(p := None)) r = Some j" "(N(p := None)) s = Some j" "(I(i \<mapsto> n')) j = Some m" "node_is_directory m"
    for r s j m
    using that i n' tree_invD(7) [OF inv, of r j s] by (auto split: if_splits)
qed (use inv n' in \<open>auto simp: set_child_def dest: tree_invD split: if_splits\<close>)

lemma tree_inv_forget:
  assumes inv: "tree_inv N I C" and "\<And>p. N p \<noteq> Some i"
  shows "tree_inv N (I(i := None)) C"
proof (rule tree_invI)
  have keep: "dir_at N I r \<Longrightarrow> dir_at N (I(i := None)) r" for r
    using assms(2) by (fastforce simp: dir_at_def)
  show "dir_at N (I(i := None)) []" and "N (r @ [x]) \<noteq> None \<Longrightarrow> dir_at N (I(i := None)) r" for r x
    using keep tree_invD(2,5) [OF inv] by blast+
qed (use assms in \<open>auto dest: tree_invD split: if_splits\<close>)

lemma tree_inv_modify:
  assumes inv: "tree_inv N I C" and "I i = Some n" "node_ok i n'" "node_is_directory n' = node_is_directory n"
    "fa_nlink (pn_attr n') = fa_nlink (pn_attr n)"
  shows "tree_inv N (I(i \<mapsto> n')) C"
proof (rule tree_invI)
  have keep: "dir_at N I r \<Longrightarrow> dir_at N (I(i \<mapsto> n')) r" for r
    using assms(2-) by (elim dir_at_mono) auto
  show "dir_at N (I(i \<mapsto> n')) []" and "N (r @ [x]) \<noteq> None \<Longrightarrow> dir_at N (I(i \<mapsto> n')) r" for r x
    using keep tree_invD(2,5) [OF inv] by blast+
  show "r = s" if "N r = Some j" "N s = Some j" "(I(i \<mapsto> n')) j = Some m" "node_is_directory m" for r s j m
    using that assms tree_invD(7) [OF inv, of r j s] by (auto split: if_splits)
qed (use assms in \<open>auto dest: tree_invD split: if_splits\<close>)

text \<open>Exchanging two subtrees.  Moving a subtree to a free name is the exchange with an empty one.\<close>

definition swap_prefix :: "guest_path \<Rightarrow> guest_path \<Rightarrow> guest_path \<Rightarrow> guest_path" where
  "swap_prefix a b p =
     (if gp_starts_with p b then a @ drop (length b) p
      else if gp_starts_with p a then b @ drop (length a) p
      else p)"

definition incomparable :: "guest_path \<Rightarrow> guest_path \<Rightarrow> bool" where
  "incomparable a b \<longleftrightarrow> \<not> gp_starts_with a b \<and> \<not> gp_starts_with b a"

lemma incomparable_sym: "incomparable a b \<Longrightarrow> incomparable b a"
  by (auto simp: incomparable_def)

lemma incomparable_append:
  assumes "incomparable a b"
  shows "\<not> gp_starts_with (a @ r) b" "\<not> gp_starts_with (b @ r) a" "a \<noteq> []" "b \<noteq> []"
  using assms by (auto simp: incomparable_def gp_starts_with_iff append_eq_append_conv2)

lemma swap_prefix_simps [simp]:
  "swap_prefix a b (b @ r) = a @ r"
  "incomparable a b \<Longrightarrow> swap_prefix a b (a @ r) = b @ r"
  "\<not> gp_starts_with p a \<Longrightarrow> \<not> gp_starts_with p b \<Longrightarrow> swap_prefix a b p = p"
  using incomparable_append(1) [of a b r] by (auto simp: swap_prefix_def gp_starts_with_iff)

lemma gp_starts_with_append: "gp_starts_with (p @ r) p"
  by (simp add: gp_starts_with_iff)

lemma swap_prefix_cases:
  obtains r where "p = b @ r" | r where "p = a @ r" | "\<not> gp_starts_with p a" "\<not> gp_starts_with p b"
  by (auto simp: gp_starts_with_iff)

lemma swap_prefix_involution [simp]: "incomparable a b \<Longrightarrow> swap_prefix a b (swap_prefix a b p) = p"
  by (rule swap_prefix_cases [where p = p and a = a and b = b]) auto

lemma swap_prefix_snoc:
  assumes "incomparable a b" "p @ [x] \<noteq> a" "p @ [x] \<noteq> b"
  shows "swap_prefix a b (p @ [x]) = swap_prefix a b p @ [x]"
proof -
  have "gp_starts_with (p @ [x]) c \<longleftrightarrow> gp_starts_with p c" if "p @ [x] \<noteq> c" for c
    using that by (auto simp: gp_starts_with_iff append_eq_append_conv2 Cons_eq_append_conv)
  then show ?thesis
    using assms(2,3) by (auto simp: swap_prefix_def gp_starts_with_iff)
qed

lemma tree_inv_swap:
  assumes inv: "tree_inv N I C" and ab: "incomparable a b" "dir_at N I (butlast a)" "dir_at N I (butlast b)"
    and N': "\<And>p. N' p = N (swap_prefix a b p)" and C': "\<And>p x. C' p x = N' (p @ [x])"
  shows "tree_inv N' I C'"
proof (rule tree_invI)
  have inj: "inj (swap_prefix a b)"
    using ab(1) by (metis injI swap_prefix_involution)
  have bij: "{p. N' p = Some i} = swap_prefix a b ` {p. N p = Some i}" for i
    using ab(1) by (force simp: N' image_iff intro: exI [of _ "swap_prefix a b _"])
  have card_eq: "card {p. N' p = Some i} = card {p. N p = Some i}" for i
    unfolding bij by (rule card_image) (rule inj_on_subset [OF inj], simp)
  show "fa_nlink (pn_attr n) = card {p. N' p = Some i}" if "I i = Some n" "\<not> node_is_directory n" for i n
    using tree_invD(8) [OF inv that] card_eq by simp
  have "dom N' \<subseteq> swap_prefix a b ` dom N"
    using ab(1) by (force simp: N' image_iff intro: exI [of _ "swap_prefix a b _"])
  then show "finite (dom N')"
    by (rule finite_subset) (simp add: tree_invD(1) [OF inv])
  have dir: "dir_at N' I p \<longleftrightarrow> dir_at N I (swap_prefix a b p)" for p
    by (simp add: dir_at_def N')
  have top: "swap_prefix a b p = p" if "p @ [x] = a \<or> p @ [x] = b \<or> p = []" for p x
    using that ab(1) incomparable_append [OF ab(1)]
    by (intro swap_prefix_simps) (auto simp: incomparable_def gp_starts_with_iff append_eq_append_conv2)
  show "dir_at N' I []"
    using top [of "[]"] tree_invD(2) [OF inv] by (simp add: dir)
  show "dir_at N' I p" if "N' (p @ [x]) \<noteq> None" for p x
  proof (cases "p @ [x] = a \<or> p @ [x] = b")
    case True
    then show ?thesis
      using top [of p x] ab(2,3) by (auto simp: dir dest: sym)
  next
    case False
    then show ?thesis
      using that swap_prefix_snoc [OF ab(1), of p x] tree_invD(5) [OF inv] by (simp add: dir N')
  qed
  show "p = q" if "N' p = Some i" "N' q = Some i" "I i = Some n" "node_is_directory n" for p q i n
    using tree_invD(7) [OF inv, of "swap_prefix a b p" i "swap_prefix a b q"] that inj by (auto simp: N' dest: injD)
qed (use inv in \<open>auto simp: N' C' dest: tree_invD\<close>)

section \<open>The tree operations as updates\<close>

definition child_of :: "path_tree \<Rightarrow> guest_path \<Rightarrow> string \<Rightarrow> nat option" where
  "child_of t p x = (case bt_get (pt_children t) p of None \<Rightarrow> None | Some m \<Rightarrow> bt_get m x)"

abbreviation names :: "path_tree \<Rightarrow> guest_path \<Rightarrow> nat option" where
  "names t \<equiv> bt_get (pt_nodes t)"

abbreviation inodes :: "path_tree \<Rightarrow> nat \<Rightarrow> path_node option" where
  "inodes t \<equiv> bt_get (pt_inodes t)"

definition tree_ok :: "path_tree \<Rightarrow> bool" where
  "tree_ok t \<longleftrightarrow> tree_inv (names t) (inodes t) (child_of t)"

text \<open>Numbers in use are below the next one or belong to the fixed nodes of \<open>/proc\<close> and \<open>/dev\<close>.\<close>

definition fresh_ids :: "path_tree \<Rightarrow> bool" where
  "fresh_ids t \<longleftrightarrow> (\<forall>i. inodes t i \<noteq> None \<longrightarrow> i < pt_next_inode_id t \<or> PROC_INODE_ID \<le> i)"

lemma bt_get_insert_fun: "bt_get (bt_insert k v m) = (bt_get m)(k \<mapsto> v)"
  and bt_get_remove_fun: "bt_get (bt_remove k m) = (bt_get m)(k := None)"
  by (auto simp: bt_get_insert bt_get_remove)

lemma modify_inode_fun:
  "inodes t i = Some n \<Longrightarrow> inodes (modify_inode i f t) = (inodes t)(i \<mapsto> f n)"
  by (auto simp: modify_inode_def bt_get_modify)

lemma modify_inode_rest [simp]:
  "pt_nodes (modify_inode i f t) = pt_nodes t" "pt_next_inode_id (modify_inode i f t) = pt_next_inode_id t"
  "child_of (modify_inode i f t) = child_of t"
  by (simp_all add: modify_inode_def child_of_def fun_eq_iff)

lemma index_child_rest [simp]:
  "pt_nodes (index_child p i t) = pt_nodes t" "pt_inodes (index_child p i t) = pt_inodes t"
  "pt_next_inode_id (index_child p i t) = pt_next_inode_id t"
  by (simp_all add: index_child_def Let_def)

lemma unindex_child_rest [simp]:
  "pt_nodes (unindex_child p t) = pt_nodes t" "pt_inodes (unindex_child p t) = pt_inodes t"
  "pt_next_inode_id (unindex_child p t) = pt_next_inode_id t"
  by (simp_all add: unindex_child_def Let_def split: option.splits)

lemma snoc_eq_iff: "q @ [x] = p \<longleftrightarrow> p \<noteq> [] \<and> q = butlast p \<and> x = last p"
  by (cases p rule: rev_cases) auto

lemma child_of_index: "child_of (index_child p i t) = set_child p (Some i) (child_of t)"
  by (auto simp: fun_eq_iff child_of_def index_child_def set_child_def snoc_eq_iff Let_def bt_get_insert
      split: option.splits)

lemma bt_entries_Nil_iff: "bt_entries m = [] \<longleftrightarrow> (\<forall>k. bt_get m k = None)"
proof -
  have "bt_entries m = [] \<longleftrightarrow> (\<forall>k v. (k, v) \<notin> set (bt_entries m))"
    by (cases "bt_entries m") auto
  then show ?thesis
    by (simp flip: bt_get_Some_iff_entries)
qed

lemma child_of_unindex: "child_of (unindex_child p t) = set_child p None (child_of t)"
  by (auto simp: fun_eq_iff child_of_def unindex_child_def set_child_def snoc_eq_iff Let_def bt_get_insert bt_get_remove
      bt_entries_Nil_iff split: option.splits if_splits)

lemma child_of_update [simp]:
  "child_of (t\<lparr>pt_nodes := a\<rparr>) = child_of t" "child_of (t\<lparr>pt_inodes := b\<rparr>) = child_of t"
  "child_of (t\<lparr>pt_next_inode_id := n\<rparr>) = child_of t"
  by (simp_all add: child_of_def fun_eq_iff)

lemma lookup_path_None: "tree_ok t \<Longrightarrow> lookup_path t p = None \<longleftrightarrow> names t p = None"
  using tree_invD(3) [of "names t" "inodes t" "child_of t" p]
  by (cases "names t p") (auto simp: lookup_path_def tree_ok_def)

lemma lookup_path_Some: "lookup_path t p = Some n \<longleftrightarrow> (\<exists>i. names t p = Some i \<and> inodes t i = Some n)"
  by (simp add: lookup_path_def Option.bind_eq_Some_conv)

lemma lookup_path_id: "tree_ok t \<Longrightarrow> lookup_path t p = Some n \<Longrightarrow> names t p = Some (pn_inode_id n)"
  by (auto simp: lookup_path_Some tree_ok_def node_ok_def dest: tree_invD(4))

lemma dir_at_lookup: "dir_at (names t) (inodes t) p \<longleftrightarrow> (\<exists>n. lookup_path t p = Some n \<and> node_is_directory n)"
  by (auto simp: dir_at_def lookup_path_Some)

lemma ensure_parent_dir_Ok:
  "ensure_parent_dir t p = Ok u \<longleftrightarrow> p \<noteq> [] \<and> dir_at (names t) (inodes t) (butlast p)"
  by (auto simp: ensure_parent_dir_def gp_parent_def dir_at_lookup split: option.splits if_splits)

lemma finite_names [simp]: "finite (dom (bt_get m))"
  by (metis List.finite_set set_bt_keys)

lemma tree_link_count_card: "tree_link_count t i = card {p. names t p = Some i}"
proof -
  have "tree_link_count t i = length (filter (\<lambda>e. snd e = i) (bt_entries (pt_nodes t)))"
    by (simp add: tree_link_count_def bt_values_def filter_map comp_def)
  also have "\<dots> = card (fst ` set (filter (\<lambda>e. snd e = i) (bt_entries (pt_nodes t))))"
    using keys_sorted_distinct [OF keys_sorted_filter [OF keys_sorted_bt_entries]]
    by (metis distinct_card length_map list.set_map)
  also have "fst ` set (filter (\<lambda>e. snd e = i) (bt_entries (pt_nodes t))) = {p. names t p = Some i}"
    by (force simp: bt_get_Some_iff_entries)
  finally show ?thesis .
qed

lemma empty_directory_iff: "tree_ok t \<Longrightarrow> is_empty_directory t p \<longleftrightarrow> (\<forall>x. names t (p @ [x]) = None)"
  using tree_invD(6) [of "names t" "inodes t" "child_of t" p]
  by (auto simp: is_empty_directory_def children_of_path_def tree_ok_def child_of_def bt_entries_Nil_iff
      split: option.splits)

subsection \<open>Creating\<close>

lemma insert_path_node_ok:
  assumes "tree_ok t" "ensure_parent_dir t p = Ok u" "lookup_path t p = None" "inodes t (pn_inode_id n) = None"
    "node_ok (pn_inode_id n) n" "\<not> node_is_directory n \<longrightarrow> fa_nlink (pn_attr n) = 1"
  shows "fst (insert_path_node p n t) = Ok () \<and> tree_ok (snd (insert_path_node p n t))
    \<and> names (snd (insert_path_node p n t)) = (names t)(p \<mapsto> pn_inode_id n)
    \<and> inodes (snd (insert_path_node p n t)) = (inodes t)(pn_inode_id n \<mapsto> n)
    \<and> pt_next_inode_id (snd (insert_path_node p n t)) = pt_next_inode_id t"
proof -
  have free: "names t p = None" and p: "p \<noteq> []" "dir_at (names t) (inodes t) (butlast p)"
    using assms by (simp_all add: lookup_path_None ensure_parent_dir_Ok)
  have "tree_inv ((names t)(p \<mapsto> pn_inode_id n)) ((inodes t)(pn_inode_id n \<mapsto> n))
    (set_child p (Some (pn_inode_id n)) (child_of t))"
    using assms p free by (intro tree_inv_new_node [of _ _ _ "butlast p" _ "last p"]) (simp_all add: tree_ok_def)
  then show ?thesis
    using free by (simp add: insert_path_node_def bt_contains_def tree_ok_def child_of_index bt_get_insert_fun)
qed

lemma insert_link_ok:
  assumes "tree_ok t" "ensure_parent_dir t p = Ok u" "lookup_path t p = None" "inodes t i = Some n" "\<not> node_is_directory n"
    "node_ok i n'" "\<not> node_is_directory n'" "fa_nlink (pn_attr n') = fa_nlink (pn_attr n) + 1"
  shows "fst (insert_link p i (modify_inode i (\<lambda>_. n') t)) = Ok ()
    \<and> tree_ok (snd (insert_link p i (modify_inode i (\<lambda>_. n') t)))"
proof -
  have free: "names t p = None" and p: "p \<noteq> []" "dir_at (names t) (inodes t) (butlast p)"
    using assms by (simp_all add: lookup_path_None ensure_parent_dir_Ok)
  have "tree_inv ((names t)(p \<mapsto> i)) ((inodes t)(i \<mapsto> n')) (set_child p (Some i) (child_of t))"
    using assms p free by (intro tree_inv_new_link [of _ _ _ "butlast p" _ "last p" _ n]) (simp_all add: tree_ok_def)
  then show ?thesis
    using free assms(4)
    by (simp add: insert_link_def bt_contains_def tree_ok_def child_of_index bt_get_insert_fun modify_inode_fun)
qed

subsection \<open>Removing\<close>

lemma remove_path_link_ok:
  assumes "tree_ok t" "p \<noteq> []" "names t p = Some i" "inodes t i = Some n" "\<And>x. names t (p @ [x]) = None"
    "node_ok i n'" "node_is_directory n' = node_is_directory n" "fa_nlink (pn_attr n') = fa_nlink (pn_attr n) - 1"
  shows "tree_ok (modify_inode i (\<lambda>_. n') (snd (remove_path_link p t)))"
proof -
  have "tree_inv ((names t)(p := None)) ((inodes t)(i \<mapsto> n')) (set_child p None (child_of t))"
    using assms by (intro tree_inv_unlink [of _ _ _ _ _ n]) (simp_all add: tree_ok_def)
  then show ?thesis
    using assms(3,4)
    by (simp add: remove_path_link_def tree_ok_def child_of_unindex bt_get_remove_fun modify_inode_fun)
qed

lemma leaf_of_nondirectory:
  assumes "tree_ok t" "names t p = Some i" "inodes t i = Some n" "\<not> node_is_directory n"
  shows "names t (p @ [x]) = None"
proof (rule ccontr)
  assume "names t (p @ [x]) \<noteq> None"
  then have "dir_at (names t) (inodes t) p"
    using assms(1) tree_invD(5) unfolding tree_ok_def by blast
  then show False
    using assms(2-) by (auto simp: dir_at_def)
qed

lemma forget_inode_ok: "tree_ok t \<Longrightarrow> tree_link_count t i = 0 \<Longrightarrow> tree_ok (forget_inode i t)"
  using tree_inv_forget [of "names t" "inodes t" "child_of t" i] names_finite [of "names t" "inodes t" "child_of t" i]
  by (auto simp: tree_ok_def forget_inode_def tree_link_count_card bt_get_remove_fun)

lemma decrement_node_ok:
  "node_ok i n \<Longrightarrow> node_ok i (n\<lparr>pn_attr := decrement_link_count (pn_attr n)\<rparr>)"
  "node_is_directory (n\<lparr>pn_attr := a\<rparr>) = node_is_directory n"
  "fa_nlink (decrement_link_count a) = fa_nlink a - 1"
  by (simp_all add: node_ok_def decrement_link_count_def touch_ctime_def attr_is_directory_def kind_bits_def
      node_is_directory_def)

subsection \<open>Moving\<close>

definition synced :: "path_tree \<Rightarrow> bool" where
  "synced t \<longleftrightarrow> (\<forall>p x. child_of t p x = names t (p @ [x]))"

lemma remove_links_effect:
  "distinct ps \<Longrightarrow> set ps \<subseteq> dom (names t) \<Longrightarrow> synced t \<Longrightarrow>
   \<exists>t'. remove_links a b ps t = (Ok (map (\<lambda>p. (replace_prefix p a b, the (names t p))) ps), t')
      \<and> names t' = (names t) |` (- set ps) \<and> pt_inodes t' = pt_inodes t \<and> pt_next_inode_id t' = pt_next_inode_id t
      \<and> synced t'"
proof (induction ps arbitrary: t)
  case Nil
  then show ?case
    by (simp add: st_ok_def)
next
  case (Cons p ps)
  define u where "u = snd (remove_path_link p t)"
  from Cons.prems obtain i where p: "names t p = Some i"
    by auto
  then have u: "names u = (names t)(p := None)" "pt_inodes u = pt_inodes t" "pt_next_inode_id u = pt_next_inode_id t"
      "synced u" and first: "remove_path_link p t = (Ok i, u)"
    using Cons.prems by (auto simp: u_def remove_path_link_def bt_get_remove_fun synced_def child_of_unindex set_child_def)
  have sub: "set ps \<subseteq> dom (names u)" and d: "distinct ps" and same: "map (\<lambda>p. (replace_prefix p a b, the (names u p))) ps =
      map (\<lambda>p. (replace_prefix p a b, the (names t p))) ps"
    using Cons.prems by (auto simp: u)
  obtain t' where rest: "remove_links a b ps u = (Ok (map (\<lambda>p. (replace_prefix p a b, the (names t p))) ps), t')"
      "names t' = names u |` (- set ps)" "pt_inodes t' = pt_inodes u" "pt_next_inode_id t' = pt_next_inode_id u" "synced t'"
    using Cons.IH [OF d sub u(4)] unfolding same by blast
  have "names u |` (- set ps) = names t |` (- set (p # ps))"
    by (auto simp: u restrict_map_def fun_eq_iff)
  with rest show ?case
    using p u first by (auto simp: st_bind_def st_ok_def)
qed

lemma insert_links_effect:
  "distinct (map fst us) \<Longrightarrow> fst ` set us \<inter> dom (names t) = {} \<Longrightarrow> snd ` set us \<subseteq> dom (inodes t) \<Longrightarrow> synced t \<Longrightarrow>
   \<exists>t'. insert_links us t = (Ok (), t') \<and> names t' = names t ++ map_of us \<and> pt_inodes t' = pt_inodes t
      \<and> pt_next_inode_id t' = pt_next_inode_id t \<and> synced t'"
proof (induction us arbitrary: t)
  case Nil
  then show ?case
    by (simp add: st_ok_def)
next
  case (Cons pi us)
  obtain p i where pi: "pi = (p, i)"
    by fastforce
  define u where "u = snd (insert_link p i t)"
  have "names t p = None" "inodes t i \<noteq> None"
    using Cons.prems pi by auto
  then have u: "names u = (names t)(p \<mapsto> i)" "pt_inodes u = pt_inodes t" "pt_next_inode_id u = pt_next_inode_id t"
      "synced u" and first: "insert_link p i t = (Ok (), u)"
    using Cons.prems by (auto simp: u_def insert_link_def bt_contains_def bt_get_insert_fun synced_def child_of_index set_child_def)
  have "map_of us p = None"
    using Cons.prems pi by (simp add: map_of_eq_None_iff)
  then have "(names t)(p \<mapsto> i) ++ map_of us = names t ++ map_of (pi # us)"
    by (auto simp: map_add_def fun_eq_iff pi split: option.splits)
  then have names_u: "names u ++ map_of us = names t ++ map_of (pi # us)"
    by (simp add: u)
  have sub: "distinct (map fst us)" "fst ` set us \<inter> dom (names u) = {}" "snd ` set us \<subseteq> dom (inodes u)"
    using Cons.prems pi by (auto simp: u)
  obtain t' where rest: "insert_links us u = (Ok (), t')" "names t' = names t ++ map_of (pi # us)"
      "pt_inodes t' = pt_inodes u" "pt_next_inode_id t' = pt_next_inode_id u" "synced t'"
    using Cons.IH [OF sub u(4)] unfolding names_u by blast
  show ?case
    by (rule exI [of _ t'], intro conjI)
      (use first rest u in \<open>simp add: st_bind_def pi\<close>, rule rest(2), use rest u in simp_all)
qed

definition moved :: "guest_path \<Rightarrow> guest_path \<Rightarrow> (guest_path \<Rightarrow> nat option) \<Rightarrow> guest_path list \<Rightarrow> (guest_path \<times> nat) list" where
  "moved a b f ps = map (\<lambda>p. (replace_prefix p a b, the (f p))) ps"

lemma replace_prefix_append [simp]: "replace_prefix (a @ r) a b = b @ r"
  by (simp add: replace_prefix_def)

lemma map_of_moved:
  assumes "\<And>p. p \<in> set ps \<longleftrightarrow> gp_starts_with p a \<and> f p \<noteq> None"
  shows "map_of (moved a b f ps) q = (if gp_starts_with q b then f (a @ drop (length b) q) else None)"
proof (cases "gp_starts_with q b \<and> f (a @ drop (length b) q) \<noteq> None")
  case True
  then obtain r i where q: "q = b @ r" and i: "f (a @ r) = Some i"
    by (auto simp: gp_starts_with_iff)
  have "(q, i) \<in> set (moved a b f ps)"
    using assms [of "a @ r"] q i by (force simp: moved_def gp_starts_with_iff image_iff intro: exI [of _ "a @ r"])
  moreover have "j = i" if "(q, j) \<in> set (moved a b f ps)" for j
    using that assms q i by (auto simp: moved_def gp_starts_with_iff)
  ultimately have "map_of (moved a b f ps) q = Some i"
    by (metis map_of_SomeD option.exhaust map_of_eq_None_iff image_eqI fst_conv)
  then show ?thesis
    using q i by (simp add: gp_starts_with_iff)
next
  case False
  have "q \<notin> fst ` set (moved a b f ps)"
    using assms False by (auto simp: moved_def gp_starts_with_iff)
  then have "map_of (moved a b f ps) q = None"
    by (simp add: map_of_eq_None_iff)
  then show ?thesis
    using False by auto
qed

lemma set_paths_under_prefix: "p \<in> set (paths_under_prefix t a) \<longleftrightarrow> gp_starts_with p a \<and> names t p \<noteq> None"
  by (auto simp: paths_under_prefix_def set_bt_keys)

lemma distinct_paths_under_prefix [simp]: "distinct (paths_under_prefix t a)"
  by (simp add: paths_under_prefix_def)

text \<open>What the two loops of a move or an exchange leave: the names composed with the exchange of prefixes.\<close>

lemma relocate_names:
  assumes "incomparable a b"
  shows "names t |` (- set (paths_under_prefix t a) - set (paths_under_prefix t b))
    ++ map_of (moved a b (names t) (paths_under_prefix t a) @ moved b a (names t) (paths_under_prefix t b))
    = (\<lambda>q. names t (swap_prefix a b q))"
proof
  fix q
  note inc = incomparable_append(1,2) [OF assms]
  have none: "(names t |` (- set (paths_under_prefix t a) - set (paths_under_prefix t b))) (c @ r) = None"
    if "c = a \<or> c = b" for c r
    using that by (auto simp: restrict_map_def set_paths_under_prefix gp_starts_with_append)
  show "(names t |` (- set (paths_under_prefix t a) - set (paths_under_prefix t b))
    ++ map_of (moved a b (names t) (paths_under_prefix t a) @ moved b a (names t) (paths_under_prefix t b))) q
    = names t (swap_prefix a b q)"
  proof (rule swap_prefix_cases [where p = q and a = a and b = b])
    fix r assume q: "q = b @ r"
    then show ?thesis
      by (cases "names t (a @ r)")
        (simp_all add: map_add_def map_of_moved [OF set_paths_under_prefix] none inc gp_starts_with_append)
  next
    fix r assume q: "q = a @ r"
    then show ?thesis
      by (cases "names t (b @ r)")
        (simp_all add: map_add_def map_of_moved [OF set_paths_under_prefix] none inc gp_starts_with_append assms)
  next
    assume "\<not> gp_starts_with q a" "\<not> gp_starts_with q b"
    then show ?thesis
      by (simp add: map_add_def map_of_moved [OF set_paths_under_prefix] restrict_map_def set_paths_under_prefix)
  qed
qed

lemma distinct_moved: "distinct ps \<Longrightarrow> (\<And>p. p \<in> set ps \<Longrightarrow> gp_starts_with p a) \<Longrightarrow> distinct (map fst (moved a b f ps))"
  by (auto simp: moved_def comp_def distinct_map inj_on_def gp_starts_with_def replace_prefix_def)
    (metis append_take_drop_id)

lemma relocate_ok:
  assumes ok: "tree_ok t" and ab: "incomparable a b" "dir_at (names t) (inodes t) (butlast a)"
      "dir_at (names t) (inodes t) (butlast b)"
    and names': "names t' = (\<lambda>q. names t (swap_prefix a b q))" and same: "pt_inodes t' = pt_inodes t" and "synced t'"
  shows "tree_ok t'"
  using tree_inv_swap [OF ok [unfolded tree_ok_def] ab, of "names t'" "child_of t'"] assms(7)
  by (simp add: tree_ok_def names' same synced_def)

lemma tree_ok_synced: "tree_ok t \<Longrightarrow> synced t"
  by (simp add: tree_ok_def synced_def tree_invD(6))

end
