(* ===== verification/Vfs_Coherent.thy ===== *)
theory Vfs_Coherent
  imports Vfs_Tree
begin

text \<open>
  Coherence of the cache with the tree.  \<open>coherent S\<close> says that every cached attribute, file and listing is the
  one the tree holds, except for the inodes of \<open>S\<close>: an operation that changes the tree adds the inodes it
  touches to \<open>S\<close>, and invalidating them takes them out again.
\<close>

section \<open>Definition\<close>

definition coherent :: "nat set \<Rightarrow> vfs_cache \<Rightarrow> path_tree \<Rightarrow> bool" where
  "coherent S c t \<longleftrightarrow>
     (\<forall>k a. bt_get (vc_metadata c) k = Some a \<longrightarrow> fst k \<in> S \<or> map_option pn_attr (inodes t (fst k)) = Some a) \<and>
     (\<forall>k d. bt_get (vc_small_reads c) k = Some d \<longrightarrow>
        fst k \<in> S \<or> (\<exists>n. inodes t (fst k) = Some n \<and> pn_deferred_host_path n = None \<and> pn_data n = d)) \<and>
     (\<forall>k es. bt_get (vc_directory_listings c) k = Some es \<longrightarrow>
        fst k \<in> S \<or> (\<exists>p. names t p = Some (fst k) \<and> static_directory_entries t p = Ok es))"

lemma coherentI:
  assumes "\<And>k a. bt_get (vc_metadata c) k = Some a \<Longrightarrow> fst k \<notin> S \<Longrightarrow> map_option pn_attr (inodes t (fst k)) = Some a"
    "\<And>k d. bt_get (vc_small_reads c) k = Some d \<Longrightarrow> fst k \<notin> S \<Longrightarrow>
       \<exists>n. inodes t (fst k) = Some n \<and> pn_deferred_host_path n = None \<and> pn_data n = d"
    "\<And>k es. bt_get (vc_directory_listings c) k = Some es \<Longrightarrow> fst k \<notin> S \<Longrightarrow>
       \<exists>p. names t p = Some (fst k) \<and> static_directory_entries t p = Ok es"
  shows "coherent S c t"
  using assms unfolding coherent_def by blast

lemma coherentD:
  assumes "coherent S c t"
  shows "bt_get (vc_metadata c) k = Some a \<Longrightarrow> fst k \<notin> S \<Longrightarrow> map_option pn_attr (inodes t (fst k)) = Some a"
    "bt_get (vc_small_reads c) k = Some d \<Longrightarrow> fst k \<notin> S \<Longrightarrow>
       \<exists>n. inodes t (fst k) = Some n \<and> pn_deferred_host_path n = None \<and> pn_data n = d"
    "bt_get (vc_directory_listings c) k = Some es \<Longrightarrow> fst k \<notin> S \<Longrightarrow>
       \<exists>p. names t p = Some (fst k) \<and> static_directory_entries t p = Ok es"
  using assms unfolding coherent_def by blast+

lemma coherent_mono: "coherent S c t \<Longrightarrow> S \<subseteq> S' \<Longrightarrow> coherent S' c t"
  unfolding coherent_def by blast

section \<open>Invalidation\<close>

lemma remove_inode_entries_coherent:
  "coherent (insert i S) c t \<Longrightarrow> coherent S (remove_inode_entries i c) t"
  by (rule coherentI) (auto simp: remove_inode_entries_def bt_get_retain dest: coherentD split: option.splits if_splits)

lemma coherent_irrelevant [simp]:
  "coherent S (c\<lparr>vc_generation := g\<rparr>) t = coherent S c t" "coherent S (bump_inode_generation i c) t = coherent S c t"
  "coherent S (c\<lparr>vc_host_read_handles := h\<rparr>) t = coherent S c t" "coherent S (c\<lparr>vc_host_read_lru := l\<rparr>) t = coherent S c t"
  by (simp_all add: coherent_def bump_inode_generation_def)

lemma invalidate_inode_coherent:
  "coherent (insert i S) c t \<Longrightarrow> coherent S (cache_invalidate_inode i c) t"
  by (simp add: cache_invalidate_inode_def remove_inode_entries_coherent)

lemma invalidate_inodes_coherent:
  assumes "coherent (set is \<union> S) c t"
  shows "coherent S (cache_invalidate_inodes is c) t"
proof -
  have "coherent S (fold (\<lambda>i c. remove_inode_entries i (bump_inode_generation i c)) is c) t"
    using assms by (induction "is" arbitrary: c) (simp_all add: remove_inode_entries_coherent)
  then show ?thesis
    by (auto simp: cache_invalidate_inodes_def Let_def)
qed

lemma invalidate_all_coherent: "coherent S (cache_invalidate_all c) t"
  by (simp add: coherent_def cache_invalidate_all_def)

lemma invalidate_proc_coherent: "coherent S (invalidate_proc_views c) t"
  by (simp add: coherent_def invalidate_proc_views_def)

section \<open>Listings\<close>

text \<open>What a listing depends on: the number of the directory, its names, and the numbers and types of its
  children.\<close>

definition same_child :: "path_tree \<Rightarrow> path_tree \<Rightarrow> nat \<Rightarrow> bool" where
  "same_child t t' i \<longleftrightarrow>
     rel_option (\<lambda>m n. pn_inode_id m = pn_inode_id n \<and> dirent_type (pn_attr m) = dirent_type (pn_attr n)) (inodes t i) (inodes t' i)"

lemma same_child_refl: "inodes t' i = inodes t i \<Longrightarrow> same_child t t' i"
  by (simp add: same_child_def option.rel_refl)

lemma children_of_path_cong:
  assumes "child_of t p = child_of t' p'"
  shows "children_of_path t p = children_of_path t' p'"
proof -
  have eq: "bt_get m x = bt_get m' x" if "bt_get (pt_children t) p = Some m" "bt_get (pt_children t') p' = Some m'" for m m' x
    using fun_cong [OF assms, of x] that by (simp add: child_of_def)
  show ?thesis
  proof (cases "bt_get (pt_children t) p"; cases "bt_get (pt_children t') p'")
    fix m m'
    assume *: "bt_get (pt_children t) p = Some m" "bt_get (pt_children t') p' = Some m'"
    then have "m = m'"
      using eq by (blast intro: bt_eqI)
    then show ?thesis
      using * by (simp add: children_of_path_def)
  qed (use assms in \<open>auto simp: children_of_path_def child_of_def fun_eq_iff bt_entries_Nil_iff eq_commute [of "[]"]
      eq_commute [of None]\<close>)
qed

lemma children_of_path_child: "(x, i) \<in> set (children_of_path t p) \<longleftrightarrow> child_of t p x = Some i"
  by (cases "bt_get (pt_children t) p") (auto simp: children_of_path_def child_of_def simp flip: bt_get_Some_iff_entries)

lemma collect_results_cong: "(\<And>x. x \<in> set xs \<Longrightarrow> f x = g x) \<Longrightarrow> collect_results f xs = collect_results g xs"
  by (induction xs) simp_all

lemma static_entries_cong:
  assumes "lookup_path t p = Some n" "lookup_path t' p' = Some n'" "node_is_directory n = node_is_directory n'"
    "pn_inode_id n = pn_inode_id n'" "child_of t p = child_of t' p'"
    "\<And>x i. child_of t p x = Some i \<Longrightarrow> same_child t t' i"
  shows "static_directory_entries t p = static_directory_entries t' p'"
proof -
  define child where "child = (\<lambda>t (name, i).
     and_then (ok_or (lookup_inode t i) InvalidPath) (\<lambda>c.
     Ok \<lparr>dc_name = name, dc_inode = pn_inode_id c, dc_file_type = dirent_type (pn_attr c)\<rparr>) :: directory_child vfs_result)"
  have "child t e = child t' e" if "e \<in> set (children_of_path t p)" for e
    using that assms(6) [of "fst e" "snd e"] children_of_path_child [of "fst e" "snd e" t p]
    by (auto simp: child_def case_prod_beta same_child_def lookup_inode_def elim!: option.rel_cases)
  then have "collect_results (child t) (children_of_path t p) = collect_results (child t') (children_of_path t' p')"
    using children_of_path_cong [OF assms(5)] by (metis collect_results_cong)
  then have "static_children t p = static_children t' p'"
    using assms(1-3) by (simp add: static_children_def child_def)
  moreover have "directory_entries_from_children t p = directory_entries_from_children t' p'"
    using assms(1,2,4) by (simp add: directory_entries_from_children_def fun_eq_iff)
  ultimately show ?thesis
    by (simp add: static_directory_entries_def)
qed

lemma static_entries_lookup: "static_directory_entries t p = Ok es \<Longrightarrow> \<exists>n. lookup_path t p = Some n"
  by (auto simp: static_directory_entries_def static_children_def result_simps)

text \<open>A listing stays valid when the directory is found under a name with the same children.\<close>

lemma listing_transfer:
  assumes "names t p = Some j" "static_directory_entries t p = Ok es" "names t' p' = Some j" "child_of t' p' = child_of t p"
    "\<And>n. inodes t j = Some n \<Longrightarrow>
       \<exists>n'. inodes t' j = Some n' \<and> pn_inode_id n' = pn_inode_id n \<and> node_is_directory n' = node_is_directory n"
    "\<And>x i. child_of t p x = Some i \<Longrightarrow> same_child t t' i"
  shows "\<exists>p. names t' p = Some j \<and> static_directory_entries t' p = Ok es"
proof -
  obtain n where n: "lookup_path t p = Some n" "inodes t j = Some n"
    using static_entries_lookup [OF assms(2)] assms(1) by (auto simp: lookup_path_Some)
  then obtain n' where n': "lookup_path t' p' = Some n'" "pn_inode_id n' = pn_inode_id n"
      "node_is_directory n' = node_is_directory n"
    using assms(3,5) by (fastforce simp: lookup_path_Some)
  then have "static_directory_entries t p = static_directory_entries t' p'"
    using n assms(4,6) by (intro static_entries_cong [OF n(1) n'(1)]) auto
  then show ?thesis
    using assms(2,3) by auto
qed

section \<open>Changes of the tree\<close>

lemma coherent_modify:
  assumes c: "coherent S c t" and i: "inodes t i = Some n"
    and n': "pn_inode_id n' = pn_inode_id n" "node_is_directory n' = node_is_directory n"
      "dirent_type (pn_attr n') = dirent_type (pn_attr n)"
  shows "coherent (insert i S) c (modify_inode i (\<lambda>_. n') t)"
proof (rule coherentI)
  note I = modify_inode_fun [OF i, of "\<lambda>_. n'"]
  fix k es
  assume "bt_get (vc_directory_listings c) k = Some es" "fst k \<notin> insert i S"
  then obtain p where p: "names t p = Some (fst k)" "static_directory_entries t p = Ok es"
    using coherentD(3) [OF c] by blast
  show "\<exists>p. names (modify_inode i (\<lambda>_. n') t) p = Some (fst k) \<and>
      static_directory_entries (modify_inode i (\<lambda>_. n') t) p = Ok es"
    by (rule listing_transfer [OF p, where p' = p]) (use p i n' in \<open>auto simp: I same_child_def option.rel_refl\<close>)
qed (use c in \<open>auto simp: modify_inode_fun [OF i] dest: coherentD\<close>)

text \<open>A change of names and nodes that leaves the nodes outside \<open>S\<close> alone and keeps, for each directory outside
  \<open>S\<close>, a name with the same children.\<close>

lemma coherent_names:
  assumes c: "coherent S c t" and nodes: "\<And>j. j \<notin> S \<Longrightarrow> inodes t j \<noteq> None \<Longrightarrow> inodes t' j = inodes t j"
    and dirs: "\<And>p j. names t p = Some j \<Longrightarrow> j \<notin> S \<Longrightarrow> \<exists>p'. names t' p' = Some j \<and> child_of t' p' = child_of t p"
    and children: "\<And>p x i. child_of t p x = Some i \<Longrightarrow> names t p \<noteq> None \<Longrightarrow> same_child t t' i"
  shows "coherent S c t'"
proof (rule coherentI)
  fix k es
  assume "bt_get (vc_directory_listings c) k = Some es" "fst k \<notin> S"
  then obtain p where p: "names t p = Some (fst k)" "static_directory_entries t p = Ok es"
    using coherentD(3) [OF c] by blast
  obtain p' where p': "names t' p' = Some (fst k)" "child_of t' p' = child_of t p"
    using dirs [OF p(1) \<open>fst k \<notin> S\<close>] by blast
  show "\<exists>p. names t' p = Some (fst k) \<and> static_directory_entries t' p = Ok es"
    by (rule listing_transfer [OF p p']) (use nodes [OF \<open>fst k \<notin> S\<close>] children p(1) in auto)
next
  fix k a
  assume *: "bt_get (vc_metadata c) k = Some a" "fst k \<notin> S"
  then show "map_option pn_attr (inodes t' (fst k)) = Some a"
    using coherentD(1) [OF c *] nodes [of "fst k"] by auto
next
  fix k d
  assume *: "bt_get (vc_small_reads c) k = Some d" "fst k \<notin> S"
  then show "\<exists>n. inodes t' (fst k) = Some n \<and> pn_deferred_host_path n = None \<and> pn_data n = d"
    using coherentD(2) [OF c *] nodes [of "fst k"] by auto
qed

lemma child_of_names: "tree_ok t \<Longrightarrow> child_of t p x = names t (p @ [x])"
  by (simp add: tree_ok_def tree_invD(6))

text \<open>Setting or clearing one name.\<close>

lemma coherent_one_name:
  assumes c: "coherent S c t" and ok: "tree_ok t" and p: "p \<noteq> []" and N: "names t' = (names t)(p := v)"
    and C: "child_of t' = set_child p v (child_of t)"
    and nodes: "\<And>j. j \<notin> S \<Longrightarrow> inodes t j \<noteq> None \<Longrightarrow> inodes t' j = inodes t j"
    and children: "\<And>p i. names t p = Some i \<Longrightarrow> same_child t t' i"
    and S: "names t (butlast p) = Some d" "d \<in> S" "\<And>i. names t p = Some i \<Longrightarrow> i \<in> S"
  shows "coherent S c t'"
proof (rule coherent_names [OF c nodes])
  fix q j
  assume q: "names t q = Some j" "j \<notin> S"
  then have "q \<noteq> p" "q \<noteq> butlast p"
    using S by auto
  then have "names t' q = Some j" "child_of t' q = child_of t q"
    using q by (auto simp: N C set_child_def snoc_eq_iff fun_eq_iff)
  then show "\<exists>p'. names t' p' = Some j \<and> child_of t' p' = child_of t q"
    by blast
next
  fix q x i
  assume "child_of t q x = Some i"
  then show "same_child t t' i"
    using children [of "q @ [x]"] by (simp add: child_of_names [OF ok])
qed

lemma coherent_relocate:
  assumes c: "coherent S c t" and ok: "tree_ok t" and ab: "incomparable a b"
    and t': "names t' = (\<lambda>q. names t (swap_prefix a b q))" "pt_inodes t' = pt_inodes t" "synced t'"
    and S: "\<And>j. names t (butlast a) = Some j \<Longrightarrow> j \<in> S" "\<And>j. names t (butlast b) = Some j \<Longrightarrow> j \<in> S"
  shows "coherent S c t'"
proof (rule coherent_names [OF c])
  fix q j
  assume q: "names t q = Some j" "j \<notin> S"
  define q' where "q' = swap_prefix a b q"
  have q'q: "swap_prefix a b q' = q"
    using ab by (simp add: q'_def)
  have "swap_prefix a b (q' @ [x]) = q @ [x]" for x
  proof (cases "q' @ [x] = a \<or> q' @ [x] = b")
    case True
    then have "swap_prefix a b q' = q'"
      using ab by (intro swap_prefix_simps) (auto simp: incomparable_def gp_starts_with_iff)
    then have "q = butlast a \<or> q = butlast b"
      using True q'q by (metis butlast_snoc)
    then show ?thesis
      using S q by auto
  next
    case False
    then show ?thesis
      using swap_prefix_snoc [OF ab, of q' x] q'q by simp
  qed
  then have "child_of t' q' = child_of t q"
    using t'(3) by (auto simp: fun_eq_iff synced_def child_of_names [OF ok] t'(1))
  moreover have "names t' q' = Some j"
    using q q'q by (simp add: t'(1))
  ultimately show "\<exists>p'. names t' p' = Some j \<and> child_of t' p' = child_of t q"
    by blast
qed (use t' in \<open>auto simp: same_child_refl\<close>)

lemma coherent_forget:
  assumes c: "coherent S c t" and ok: "tree_ok t" and "i \<in> S" "tree_link_count t i = 0"
  shows "coherent S c (forget_inode i t)"
proof (rule coherent_names [OF c])
  have unused: "names t p \<noteq> Some i" for p
    using assms(4) ok [unfolded tree_ok_def] names_finite by (fastforce simp: tree_link_count_card)
  show "same_child t (forget_inode i t) j" if "child_of t p x = Some j" for p x j
    using that unused [of "p @ [x]"]
    by (intro same_child_refl) (auto simp: forget_inode_def bt_get_remove child_of_names [OF ok])
qed (use assms in \<open>auto simp: forget_inode_def bt_get_remove\<close>)

end
