(* ===== verification/Vfs_Inv.thy ===== *)
theory Vfs_Inv
  imports Vfs_Coherent
begin

text \<open>
  The invariant of the virtual file system and the steps its operations are made of.  \<open>ends p Q R\<close>, and
  \<open>after m s Q R\<close> for the outcome of running \<open>m\<close> from \<open>s\<close>, is the postcondition of an operation that may panic: \<open>Q\<close> holds of its value and state when it succeeds, \<open>R\<close>
  of its state when it fails.
\<close>

section \<open>Postconditions\<close>

definition ends :: "('a, 'e) result \<times> 's \<Rightarrow> ('a \<Rightarrow> 's \<Rightarrow> bool) \<Rightarrow> ('s \<Rightarrow> bool) \<Rightarrow> bool" where
  "ends p Q R \<longleftrightarrow> (case p of (Ok x, s') \<Rightarrow> Q x s' | (Err _, s') \<Rightarrow> R s' | (Panic, _) \<Rightarrow> True)"

abbreviation after :: "('s, 'a, 'e) st \<Rightarrow> 's \<Rightarrow> ('a \<Rightarrow> 's \<Rightarrow> bool) \<Rightarrow> ('s \<Rightarrow> bool) \<Rightarrow> bool" where
  "after m s Q R \<equiv> ends (m s) Q R"

named_theorems after_simps \<open>postconditions of the basic operations\<close>

lemma after_basic [after_simps]:
  "after (st_ok x) s Q R \<longleftrightarrow> Q x s" "after (st_err e) s Q R \<longleftrightarrow> R s" "after st_panic s Q R"
  "after (st_lift r) s Q R \<longleftrightarrow> (\<forall>x. r = Ok x \<longrightarrow> Q x s) \<and> (\<forall>e. r = Err e \<longrightarrow> R s)"
  by (auto simp: ends_def st_ok_def st_err_def st_panic_def st_lift_def split: result.splits)

lemma after_modify [after_simps]: "after (st_modify f) s Q R \<longleftrightarrow> Q () (f s)"
  by (simp add: ends_def st_modify_def)

lemma after_ask [after_simps]:
  "after (ask f) s Q R \<longleftrightarrow> (\<forall>x. f s = Ok x \<longrightarrow> Q x s) \<and> (\<forall>e. f s = Err e \<longrightarrow> R s)"
  by (auto simp: ends_def ask_def split: result.splits)

lemma after_bind [after_simps]:
  "after (st_bind m f) s Q R \<longleftrightarrow> after m s (\<lambda>x s'. after (f x) s' Q R) R"
  by (auto simp: ends_def st_bind_def split: prod.splits result.splits)

lemma after_on_cache [after_simps]:
  "after (on_cache f) s Q R \<longleftrightarrow> Q () (s\<lparr>v_cache := f (v_cache s)\<rparr>)"
  by (simp add: on_cache_def after_simps)

lemma after_lift_tree [after_simps]:
  "after (lift_tree f) s Q R \<longleftrightarrow> after f (v_tree s) (\<lambda>x t. Q x (s\<lparr>v_tree := t\<rparr>)) (\<lambda>t. R (s\<lparr>v_tree := t\<rparr>))"
  by (auto simp: ends_def lift_tree_def split: prod.splits result.splits)

lemma ends_pair [simp]:
  "ends (Ok x, s) Q R \<longleftrightarrow> Q x s" "ends (Err e, s) Q R \<longleftrightarrow> R s" "ends (Panic, s) Q R"
  by (simp_all add: ends_def)

lemma ends_mono:
  assumes "ends p Q R" "\<And>x s'. Q x s' \<Longrightarrow> Q' x s'" "\<And>s'. R s' \<Longrightarrow> R' s'"
  shows "ends p Q' R'"
  using assms by (auto simp: ends_def split: prod.splits result.splits)

lemma ends_no_err: "ends p Q R \<Longrightarrow> (\<And>e. fst p \<noteq> Err e) \<Longrightarrow> ends p Q R'"
  by (auto simp: ends_def split: prod.splits result.splits)

lemma ends_value:
  "ends p Q R \<Longrightarrow> (\<And>x s. p = (Ok x, s) \<Longrightarrow> P x) \<Longrightarrow> ends p (\<lambda>x s. P x \<and> Q x s) R"
  by (auto simp: ends_def split: prod.splits result.splits)

section \<open>The invariant\<close>

definition vfs_inv :: "nat set \<Rightarrow> vfs \<Rightarrow> bool" where
  "vfs_inv S s \<longleftrightarrow> tree_ok (v_tree s) \<and> fresh_ids (v_tree s) \<and> coherent S (v_cache s) (v_tree s)"

lemma vfs_inv_irrelevant [simp]:
  "vfs_inv S (s\<lparr>v_fds := f\<rparr>) = vfs_inv S s" "vfs_inv S (s\<lparr>v_store := h\<rparr>) = vfs_inv S s"
  "vfs_inv S (s\<lparr>v_rootfs := r\<rparr>) = vfs_inv S s" "vfs_inv S (s\<lparr>v_umask := u\<rparr>) = vfs_inv S s"
  "vfs_inv S (s\<lparr>v_proc_self := p\<rparr>) = vfs_inv S s"
  by (simp_all add: vfs_inv_def)

lemma vfs_inv_mono: "vfs_inv S s \<Longrightarrow> S \<subseteq> S' \<Longrightarrow> vfs_inv S' s"
  by (auto simp: vfs_inv_def intro: coherent_mono)

text \<open>Operations that touch only descriptors and the store.\<close>

lemma after_lift_fds:
  assumes "\<And>x t h. Q x (s\<lparr>v_fds := t, v_store := h\<rparr>)" "\<And>t h. R (s\<lparr>v_fds := t, v_store := h\<rparr>)"
  shows "after (lift_fds f) s Q R"
  using assms by (auto simp: ends_def lift_fds_def split: prod.splits result.splits)

lemma after_in_vfs_store:
  assumes "\<And>x h. Q x (s\<lparr>v_store := h\<rparr>)" "\<And>h. R (s\<lparr>v_store := h\<rparr>)"
  shows "after (in_vfs_store f) s Q R"
  using assms by (auto simp: ends_def in_vfs_store_def split: prod.splits result.splits)

section \<open>Invalidation\<close>

lemma after_invalidate_inode:
  "vfs_inv (insert i S) s \<Longrightarrow> (\<And>s'. vfs_inv S s' \<Longrightarrow> Q () s') \<Longrightarrow> after (invalidate_inode_cache i) s Q R"
  by (simp add: invalidate_inode_cache_def after_simps vfs_inv_def invalidate_inode_coherent)

lemma after_invalidate_opt:
  "vfs_inv (set_option i \<union> S) s \<Longrightarrow> (\<And>s'. vfs_inv S s' \<Longrightarrow> Q () s') \<Longrightarrow> after (invalidate_opt i) s Q R"
  by (cases i) (simp_all add: invalidate_opt_def after_simps after_invalidate_inode)

lemma set_flatten_options: "set (flatten_options is) = (\<Union>i \<in> set is. set_option i)"
  by (force simp: flatten_options_def map_filter_def)

lemma after_invalidate_inodes:
  "vfs_inv ((\<Union>i \<in> set is. set_option i) \<union> S) s \<Longrightarrow> (\<And>s'. vfs_inv S s' \<Longrightarrow> Q () s') \<Longrightarrow>
   after (invalidate_inode_caches is) s Q R"
  by (simp add: invalidate_inode_caches_def after_simps vfs_inv_def invalidate_inodes_coherent set_flatten_options)

lemma after_invalidate_parent:
  assumes "vfs_inv (set_option (parent_inode (v_tree s) p) \<union> S) s" "\<And>s'. vfs_inv S s' \<Longrightarrow> Q () s'"
  shows "after (invalidate_parent_cache p) s Q R"
proof (cases "parent_inode (v_tree s) p")
  case None
  then show ?thesis
    using assms by (simp add: invalidate_parent_cache_def ends_def)
next
  case (Some i)
  then have "after (invalidate_inode_cache i) s Q R"
    using assms by (auto intro: after_invalidate_inode)
  then show ?thesis
    using Some by (simp add: invalidate_parent_cache_def ends_def)
qed

lemma after_invalidate_all:
  "tree_ok (v_tree s) \<Longrightarrow> fresh_ids (v_tree s) \<Longrightarrow> (\<And>s'. vfs_inv S s' \<Longrightarrow> Q () s') \<Longrightarrow> after invalidate_vfs_caches s Q R"
  by (simp add: invalidate_vfs_caches_def after_simps vfs_inv_def invalidate_all_coherent)

section \<open>Filling the cache\<close>

lemma coherent_insert_metadata:
  "coherent S c t \<Longrightarrow> inodes t i = Some n \<Longrightarrow> coherent S (insert_metadata i (pn_attr n) c) t"
  by (auto simp: coherent_def insert_metadata_def bt_get_insert cache_key_def)

lemma coherent_insert_small_read:
  "coherent S c t \<Longrightarrow> inodes t i = Some n \<Longrightarrow> pn_deferred_host_path n = None \<Longrightarrow>
   coherent S (insert_small_read i (pn_data n) c) t"
  by (auto simp: coherent_def insert_small_read_def bt_get_insert cache_key_def)

lemma coherent_insert_listing:
  "coherent S c t \<Longrightarrow> names t p = Some i \<Longrightarrow> static_directory_entries t p = Ok es \<Longrightarrow>
   coherent S (insert_directory_listing i es c) t"
  by (auto simp: coherent_def insert_directory_listing_def bt_get_insert cache_key_def)

text \<open>The three cached reads return what the tree holds.\<close>

lemma after_cached_metadata:
  assumes "vfs_inv {} s" "inodes (v_tree s) (pn_inode_id n) = Some n"
    "\<And>s'. vfs_inv {} s' \<Longrightarrow> v_tree s' = v_tree s \<Longrightarrow> Q (pn_attr n) s'"
  shows "after (cached_metadata n) s Q R"
proof (cases "cache_metadata (v_cache s) (pn_inode_id n)")
  case None
  then have "after (cached_metadata n) s Q R = Q (pn_attr n) (s\<lparr>v_cache := insert_metadata (pn_inode_id n) (pn_attr n) (v_cache s)\<rparr>)"
    by (simp add: ends_def cached_metadata_def st_bind_def on_cache_def st_modify_def st_ok_def)
  then show ?thesis
    using assms by (simp add: vfs_inv_def coherent_insert_metadata)
next
  case (Some a)
  then have "a = pn_attr n"
    using assms(1,2) coherentD(1) [of "{}" "v_cache s" "v_tree s"]
    by (fastforce simp: vfs_inv_def cache_metadata_def cache_key_def)
  then show ?thesis
    using Some assms by (simp add: ends_def cached_metadata_def)
qed

lemma after_cached_small_read_data:
  assumes "vfs_inv {} s" "inodes (v_tree s) i = Some n" "pn_deferred_host_path n = None"
    "\<And>s'. vfs_inv {} s' \<Longrightarrow> v_tree s' = v_tree s \<Longrightarrow> v_store s' = v_store s \<Longrightarrow> v_fds s' = v_fds s \<Longrightarrow> Q (pn_data n) s'"
  shows "after (cached_small_read_data i (pn_data n)) s Q R"
proof (cases "cache_small_read (v_cache s) i")
  case None
  then have "after (cached_small_read_data i (pn_data n)) s Q R = Q (pn_data n) (s\<lparr>v_cache := insert_small_read i (pn_data n) (v_cache s)\<rparr>)"
    by (simp add: ends_def cached_small_read_data_def st_bind_def on_cache_def st_modify_def st_ok_def)
  then show ?thesis
    using assms by (simp add: vfs_inv_def coherent_insert_small_read)
next
  case (Some d)
  then have "d = pn_data n"
    using assms(1,2) coherentD(2) [of "{}" "v_cache s" "v_tree s"]
    by (fastforce simp: vfs_inv_def cache_small_read_def cache_key_def)
  then show ?thesis
    using Some assms by (simp add: ends_def cached_small_read_data_def)
qed

lemma directory_single_name:
  "tree_ok t \<Longrightarrow> names t p = Some i \<Longrightarrow> names t q = Some i \<Longrightarrow> inodes t i = Some n \<Longrightarrow> node_is_directory n \<Longrightarrow> p = q"
  using tree_invD(7) unfolding tree_ok_def by blast

lemma static_entries_directory: "static_directory_entries t p = Ok es \<Longrightarrow> \<exists>n. lookup_path t p = Some n \<and> node_is_directory n"
  by (auto simp: static_directory_entries_def static_children_def result_simps split: if_splits)

lemma after_cached_directory_entries:
  assumes "vfs_inv {} s" "names (v_tree s) p = Some i"
    "\<And>s' es. vfs_inv {} s' \<Longrightarrow> v_tree s' = v_tree s \<Longrightarrow> static_directory_entries (v_tree s) p = Ok es \<Longrightarrow> Q es s'"
    "vfs_inv {} s \<Longrightarrow> R s"
  shows "after (cached_directory_entries i p) s Q R"
proof (cases "cache_directory_listing (v_cache s) i")
  case None
  then have "after (cached_directory_entries i p) s Q R = after (st_bind (st_lift (static_directory_entries (v_tree s) p)) (\<lambda>es.
      st_bind (on_cache (insert_directory_listing i es)) (\<lambda>_. st_ok es))) s Q R"
    by (simp add: cached_directory_entries_def)
  then show ?thesis
    using assms by (simp add: after_simps vfs_inv_def coherent_insert_listing)
next
  case (Some es)
  then obtain q where q: "names (v_tree s) q = Some i" "static_directory_entries (v_tree s) q = Ok es"
    using assms(1) coherentD(3) [of "{}" "v_cache s" "v_tree s"]
    by (fastforce simp: vfs_inv_def cache_directory_listing_def cache_key_def)
  then have "q = p"
    using static_entries_directory [OF q(2)] assms(1,2)
    by (auto simp: vfs_inv_def lookup_path_Some intro: directory_single_name)
  then show ?thesis
    using Some q assms(1,3) by (simp add: ends_def cached_directory_entries_def)
qed

end
