(* ===== verification/Vfs_Safe.thy ===== *)
theory Vfs_Safe
  imports Vfs_Inv
begin

text \<open>
  Every operation of the virtual file system keeps the invariant of the tree and the coherence of the cache.
\<close>

section \<open>Changes of one node\<close>

text \<open>An operation on a node that keeps its number, kind, type bits and link count, and that leaves the
  attributes alone when it fails; a failure may still have read the contents of a deferred file.\<close>

definition node_step :: "(host_files \<Rightarrow> (path_node, 'a, vfs_error) st) \<Rightarrow> bool" where
  "node_step f \<longleftrightarrow>
     (\<forall>files n r n'. f files n = (r, n') \<longrightarrow>
        pn_inode_id n' = pn_inode_id n \<and> pn_kind n' = pn_kind n \<and> kind_bits (pn_attr n') = kind_bits (pn_attr n) \<and>
        fa_nlink (pn_attr n') = fa_nlink (pn_attr n) \<and> fa_inode (pn_attr n') = fa_inode (pn_attr n) \<and>
        (\<forall>e. r = Err e \<longrightarrow> pn_attr n' = pn_attr n \<and> (pn_deferred_host_path n = None \<longrightarrow> n' = n)))"

lemma node_stepD:
  assumes "node_step f" "f files n = (r, n')"
  shows "pn_inode_id n' = pn_inode_id n" "pn_kind n' = pn_kind n" "kind_bits (pn_attr n') = kind_bits (pn_attr n)"
    "fa_nlink (pn_attr n') = fa_nlink (pn_attr n)" "fa_inode (pn_attr n') = fa_inode (pn_attr n)"
    "r = Err e \<Longrightarrow> pn_attr n' = pn_attr n" "r = Err e \<Longrightarrow> pn_deferred_host_path n = None \<Longrightarrow> n' = n"
  using assms unfolding node_step_def by blast+

lemma set_data_simps [simp]:
  "pn_inode_id (set_data d n) = pn_inode_id n" "pn_kind (set_data d n) = pn_kind n"
  "kind_bits (pn_attr (set_data d n)) = kind_bits (pn_attr n)" "fa_nlink (pn_attr (set_data d n)) = fa_nlink (pn_attr n)"
  "fa_inode (pn_attr (set_data d n)) = fa_inode (pn_attr n)" "pn_data (set_data d n) = d"
  "fa_size (pn_attr (set_data d n)) = length d"
  by (simp_all add: set_data_def attr_set_size_def touch_ctime_def touch_mtime_def kind_bits_def)

lemma materialize_simps:
  assumes "materialize_deferred_content files n = (r, n')"
  shows "pn_inode_id n' = pn_inode_id n" "pn_kind n' = pn_kind n" "pn_attr n' = pn_attr n"
    "pn_deferred_host_path n = None \<Longrightarrow> n' = n" "r = Err e \<Longrightarrow> n' = n" "r \<noteq> Panic"
  using assms by (auto simp: materialize_deferred_content_def split: option.splits)

lemma node_step_set_len: "node_step (\<lambda>files. node_set_len files len)"
  unfolding node_step_def
  by (auto simp: node_set_len_def st_bind_def dest: materialize_simps split: if_splits prod.splits result.splits)

lemma node_step_truncate: "node_step node_truncate"
  using node_step_set_len [of 0] by (simp add: node_truncate_def [abs_def])

lemma node_step_write_at: "node_step (\<lambda>files. node_write_at files offset data)"
  unfolding node_step_def
  by (auto simp: node_write_at_def st_bind_def st_lift_def st_modify_def st_ok_def Let_def write_slice_def
      dest: materialize_simps split: if_splits prod.splits result.splits)

lemma node_step_attr:
  assumes "\<And>a. kind_bits (f a) = kind_bits a" "\<And>a. fa_nlink (f a) = fa_nlink a" "\<And>a. fa_inode (f a) = fa_inode a"
  shows "node_step (\<lambda>_ n. (Ok (), n\<lparr>pn_attr := f (pn_attr n)\<rparr>))"
  using assms by (simp add: node_step_def)

lemma type_bits: "((x :: u32) AND S_IFMT OR (mode AND MODE_MASK)) AND S_IFMT = x AND S_IFMT"
  by (simp add: mode_defs bit.conj_disj_distrib2 and.assoc)

lemma attr_updates [simp]:
  "kind_bits (attr_set_mode mode a) = kind_bits a" "fa_nlink (attr_set_mode mode a) = fa_nlink a"
  "fa_inode (attr_set_mode mode a) = fa_inode a" "kind_bits (attr_set_owner u g a) = kind_bits a"
  "fa_nlink (attr_set_owner u g a) = fa_nlink a" "fa_inode (attr_set_owner u g a) = fa_inode a"
  "kind_bits (attr_set_times ts a) = kind_bits a" "fa_nlink (attr_set_times ts a) = fa_nlink a"
  "fa_inode (attr_set_times ts a) = fa_inode a"
  by (simp_all add: kind_bits_def attr_set_mode_def attr_set_owner_def attr_set_times_def touch_ctime_def type_bits)

lemma node_step_node_ok:
  assumes "node_step f" "f files n = (r, n')" "node_ok i n"
  shows "node_ok i n'" "node_is_directory n' = node_is_directory n" "dirent_type (pn_attr n') = dirent_type (pn_attr n)"
  using node_stepD [OF assms(1,2)] assms(3)
  by (simp_all add: node_ok_def node_is_directory_def attr_is_directory_def dirent_type_def)

lemma modify_inode_tree_ok:
  assumes "tree_ok t" "inodes t i = Some n" "node_ok i n'" "node_is_directory n' = node_is_directory n"
    "fa_nlink (pn_attr n') = fa_nlink (pn_attr n)"
  shows "tree_ok (modify_inode i (\<lambda>_. n') t)"
  using tree_inv_modify [of "names t" "inodes t" "child_of t" i n n'] assms by (simp add: tree_ok_def modify_inode_fun)

lemma modify_inode_fresh: "inodes t i = Some n \<Longrightarrow> fresh_ids t \<Longrightarrow> fresh_ids (modify_inode i (\<lambda>_. n') t)"
  by (auto simp: fresh_ids_def modify_inode_fun)

lemma coherent_modify_quiet:
  assumes c: "coherent S c t" and i: "inodes t i = Some n" and n': "pn_inode_id n' = pn_inode_id n"
    "node_is_directory n' = node_is_directory n" "pn_attr n' = pn_attr n" "pn_deferred_host_path n = None \<Longrightarrow> n' = n"
  shows "coherent S c (modify_inode i (\<lambda>_. n') t)"
proof (rule coherentI)
  note I = modify_inode_fun [OF i, of "\<lambda>_. n'"]
  fix k es
  assume "bt_get (vc_directory_listings c) k = Some es" "fst k \<notin> S"
  then obtain p where p: "names t p = Some (fst k)" "static_directory_entries t p = Ok es"
    using coherentD(3) [OF c] by blast
  show "\<exists>p. names (modify_inode i (\<lambda>_. n') t) p = Some (fst k) \<and>
      static_directory_entries (modify_inode i (\<lambda>_. n') t) p = Ok es"
    by (rule listing_transfer [OF p, where p' = p]) (use p i n' in \<open>auto simp: I same_child_def option.rel_refl\<close>)
next
  fix k d
  assume *: "bt_get (vc_small_reads c) k = Some d" "fst k \<notin> S"
  show "\<exists>m. inodes (modify_inode i (\<lambda>_. n') t) (fst k) = Some m \<and> pn_deferred_host_path m = None \<and> pn_data m = d"
    using coherentD(2) [OF c *] i n'(4) by (auto simp: modify_inode_fun [OF i])
next
  fix k a
  assume *: "bt_get (vc_metadata c) k = Some a" "fst k \<notin> S"
  show "map_option pn_attr (inodes (modify_inode i (\<lambda>_. n') t) (fst k)) = Some a"
    using coherentD(1) [OF c *] i n'(3) by (auto simp: modify_inode_fun [OF i])
qed

lemma inodes_node_ok: "tree_ok t \<Longrightarrow> inodes t i = Some n \<Longrightarrow> node_ok i n"
  using tree_invD(4) unfolding tree_ok_def by blast

text \<open>The state after an operation on one node.\<close>

lemma after_at_inode:
  assumes inv: "vfs_inv S s" and f: "node_step f"
    and Q: "\<And>x s'. vfs_inv (insert i S) s' \<Longrightarrow> pt_nodes (v_tree s') = pt_nodes (v_tree s) \<Longrightarrow> v_fds s' = v_fds s \<Longrightarrow> Q x s'"
    and R: "\<And>s'. vfs_inv S s' \<Longrightarrow> R s'"
  shows "after (lift_tree_fds (at_inode i f)) s Q R"
proof (cases "inodes (v_tree s) i")
  case None
  then show ?thesis
    using R inv by (simp add: ends_def lift_tree_fds_def at_inode_def lookup_inode_def)
next
  case (Some n)
  define files where "files = os_file (vs_os (v_store s)) (vs_calls (v_store s))"
  define h where "h = (v_store s)\<lparr>vs_calls := Suc (vs_calls (v_store s))\<rparr>"
  obtain r n' where step: "f files n = (r, n')"
    by fastforce
  define s' where "s' = s\<lparr>v_tree := modify_inode i (\<lambda>_. n') (v_tree s), v_fds := v_fds s, v_store := h\<rparr>"
  have run: "lift_tree_fds (at_inode i f) s = (r, s')"
    using Some step by (simp add: lift_tree_fds_def at_inode_def lookup_inode_def store_os_call_def files_def h_def s'_def)
  have inv': "tree_ok (v_tree s)" "fresh_ids (v_tree s)" "coherent S (v_cache s) (v_tree s)"
    using inv by (simp_all add: vfs_inv_def)
  note n = node_step_node_ok [OF f step inodes_node_ok [OF inv'(1) Some]] and d = node_stepD [OF f step]
  have ok: "tree_ok (v_tree s')" "fresh_ids (v_tree s')"
    using modify_inode_tree_ok [OF inv'(1) Some n(1,2) d(4)] modify_inode_fresh [OF Some inv'(2)] by (simp_all add: s'_def)
  have "vfs_inv (insert i S) s'"
    using ok coherent_modify [OF inv'(3) Some d(1) n(2,3)] by (simp add: vfs_inv_def s'_def)
  moreover have "vfs_inv S s'" if "r = Err e" for e
    using ok coherent_modify_quiet [OF inv'(3) Some d(1) n(2) d(6) [OF that] d(7) [OF that]]
    by (simp add: vfs_inv_def s'_def)
  ultimately show ?thesis
    using Q [of s'] R [of s'] by (auto simp: ends_def run s'_def split: result.splits)
qed

lemma after_at_path:
  assumes inv: "vfs_inv S s" and f: "node_step f"
    and Q: "\<And>x s' i. names (v_tree s) p = Some i \<Longrightarrow> vfs_inv (insert i S) s' \<Longrightarrow> pt_nodes (v_tree s') = pt_nodes (v_tree s) \<Longrightarrow>
      v_fds s' = v_fds s \<Longrightarrow> Q x s'"
    and R: "\<And>s'. vfs_inv S s' \<Longrightarrow> R s'"
  shows "after (lift_tree_fds (at_path p f)) s Q R"
proof (cases "names (v_tree s) p")
  case None
  then show ?thesis
    using R inv by (simp add: ends_def lift_tree_fds_def at_path_def)
next
  case (Some i)
  have "after (lift_tree_fds (at_inode i f)) s Q R"
    using inv f by (rule after_at_inode) (use Q [OF Some] R in auto)
  moreover have "lift_tree_fds (at_path p f) s = lift_tree_fds (at_inode i f) s"
    using Some by (simp add: lift_tree_fds_def at_path_def)
  ultimately show ?thesis
    by (simp add: ends_def)
qed

section \<open>Creating\<close>

lemma parent_inode_names:
  "tree_ok t \<Longrightarrow> p \<noteq> [] \<Longrightarrow> parent_inode t p = names t (butlast p)"
  by (cases "lookup_path t (butlast p)")
    (auto simp: parent_inode_def gp_parent_def lookup_path_None dest: lookup_path_id)

lemma resolve_at_inode: "resolve_at s dirfd path follow b = Ok r \<Longrightarrow>
    rp_inode r = map_option pn_inode_id (lookup_path (v_tree s) (rp_guest_path r))"
  by (auto simp: resolve_at_def resolve_checked_def resolve_path_with_options_def result_simps split: if_splits prod.splits)

lemma next_id_irrelevant [simp]:
  "lookup_path (t\<lparr>pt_next_inode_id := n\<rparr>) = lookup_path t" "lookup_inode (t\<lparr>pt_next_inode_id := n\<rparr>) = lookup_inode t"
  "children_of_path (t\<lparr>pt_next_inode_id := n\<rparr>) = children_of_path t"
  by (simp_all add: lookup_path_def lookup_inode_def children_of_path_def fun_eq_iff)

lemma next_id_entries [simp]:
  "static_directory_entries (t\<lparr>pt_next_inode_id := n\<rparr>) = static_directory_entries t"
proof -
  have "static_children (t\<lparr>pt_next_inode_id := n\<rparr>) = static_children t"
    "directory_entries_from_children (t\<lparr>pt_next_inode_id := n\<rparr>) = directory_entries_from_children t"
    by (auto simp: static_children_def directory_entries_from_children_def fun_eq_iff ok_or_def split: option.splits)
  then show ?thesis
    by (intro ext) (simp add: static_directory_entries_def)
qed

lemma create_node:
  assumes inv: "vfs_inv S s" and p: "ensure_parent_dir (v_tree s) p = Ok u" "lookup_path (v_tree s) p = None"
    and room: "pt_next_inode_id (v_tree s) < PROC_INODE_ID"
    and node: "\<And>i. node_ok i (node i)" "\<And>i. \<not> node_is_directory (node i) \<Longrightarrow> fa_nlink (pn_attr (node i)) = 1"
    and Q: "\<And>s' d. vfs_inv (insert d S) s' \<Longrightarrow> parent_inode (v_tree s') p = Some d \<Longrightarrow>
      (\<exists>i. lookup_path (v_tree s') p = Some (node i)) \<Longrightarrow> v_fds s' = v_fds s \<Longrightarrow> v_umask s' = v_umask s \<Longrightarrow> Q () s'"
  shows "after (lift_tree (st_bind allocate_inode_id (\<lambda>i. insert_path_node p (node i)))) s Q R"
proof -
  let ?i = "pt_next_inode_id (v_tree s)"
  define t where "t = (v_tree s)\<lparr>pt_next_inode_id := ?i + 1\<rparr>"
  define t' where "t' = snd (insert_path_node p (node ?i) t)"
  have inv': "tree_ok (v_tree s)" "fresh_ids (v_tree s)" "coherent S (v_cache s) (v_tree s)"
    using inv by (simp_all add: vfs_inv_def)
  have unused: "inodes (v_tree s) ?i = None"
    using inv'(2) room unfolding fresh_ids_def by (metis less_irrefl linorder_not_less option.distinct(1))
  have id: "pn_inode_id (node ?i) = ?i"
    using node(1) [of ?i] by (simp add: node_ok_def)
  have same: "lookup_path t = lookup_path (v_tree s)" "static_directory_entries t = static_directory_entries (v_tree s)"
    by (simp_all add: t_def)
  have t: "tree_ok t" "ensure_parent_dir t p = Ok u" "lookup_path t p = None" "inodes t (pn_inode_id (node ?i)) = None"
    "node_ok (pn_inode_id (node ?i)) (node ?i)" "coherent S (v_cache s) t"
    using inv'(1,3) p unused node(1) [of ?i] id same
    by (simp_all add: t_def tree_ok_def ensure_parent_dir_Ok coherent_def)
  have ins: "fst (insert_path_node p (node ?i) t) = Ok ()" "tree_ok t'" "names t' = (names t)(p \<mapsto> ?i)"
    "inodes t' = (inodes t)(?i \<mapsto> node ?i)" "pt_next_inode_id t' = ?i + 1"
    using insert_path_node_ok [OF t(1-5)] node(2) [of ?i] by (simp_all add: t'_def id) (simp add: t_def)
  have alloc: "allocate_inode_id (v_tree s) = (Ok ?i, t)"
    using room by (simp add: allocate_inode_id_def t_def inode_const_defs U64_MAX_NAT_def)
  have pd: "p \<noteq> []" "dir_at (names t) (inodes t) (butlast p)"
    using t(2) by (simp_all add: ensure_parent_dir_Ok)
  then obtain d where d: "names t (butlast p) = Some d"
    by (auto simp: dir_at_def)
  have live: "inodes t j \<noteq> None \<Longrightarrow> j \<noteq> ?i" for j
    using t(4) id by auto
  have namelive: "names t q = Some j \<Longrightarrow> inodes t j \<noteq> None" for q j
    using t(1) tree_invD(3) unfolding tree_ok_def by blast
  have "coherent (insert d S) (v_cache s) t'"
  proof (rule coherent_one_name [OF coherent_mono [OF t(6)] t(1) pd(1) ins(3) _ _ _ d])
    show "child_of t' = set_child p (Some ?i) (child_of t)"
      using t(3) lookup_path_None [OF t(1)] id
      by (simp add: t'_def insert_path_node_def bt_contains_def child_of_index)
  qed (use live namelive t(3) lookup_path_None [OF t(1)] in \<open>auto simp: ins(4) intro!: same_child_refl\<close>)
  moreover have "fresh_ids t'"
    using inv'(2) by (auto simp: fresh_ids_def ins t_def)
  moreover have "butlast p \<noteq> p"
    using pd(1) by (metis append_butlast_last_id not_Cons_self2 self_append_conv)
  then have "parent_inode t' p = Some d" "lookup_path t' p = Some (node ?i)"
    using parent_inode_names [OF ins(2) pd(1)] d by (simp_all add: ins(3,4) lookup_path_def)
  moreover have "st_bind allocate_inode_id (\<lambda>i. insert_path_node p (node i)) (v_tree s) = (Ok (), t')"
    using alloc ins(1) by (cases "insert_path_node p (node ?i) t") (simp add: st_bind_def t'_def)
  ultimately show ?thesis
    using Q [of d "s\<lparr>v_tree := t'\<rparr>"] ins(2) by (simp add: after_lift_tree) (auto simp: ends_def vfs_inv_def)
qed

lemma new_node_ok:
  assumes "is_directory_kind kind = attr_is_directory attr" "fa_inode attr = i"
  shows "node_ok i (bare_node i kind attr)"
  using assms by (simp add: node_ok_def)

lemma kind_bits_new [simp]:
  "kind_bits (attr_directory i mode) = S_IFDIR" "kind_bits (attr_regular i mode sz) = S_IFREG"
  "kind_bits (attr_symlink i sz) = S_IFLNK" "kind_bits (attr_character_device i mode) = S_IFCHR"
  using type_bits [of S_IFDIR mode] type_bits [of S_IFREG mode] type_bits [of S_IFCHR mode]
  by (simp_all add: kind_bits_def attr_directory_def attr_regular_def attr_symlink_def attr_character_device_def attr_new_def mode_defs)

lemma attr_new_simps [simp]:
  "fa_inode (attr_directory i mode) = i" "fa_inode (attr_regular i mode sz) = i" "fa_inode (attr_symlink i sz) = i"
  "fa_nlink (attr_regular i mode sz) = 1" "fa_nlink (attr_symlink i sz) = 1"
  using kind_bits_new(2) [of i mode sz] kind_bits_new(3) [of i sz]
  by (simp_all add: attr_directory_def attr_regular_def attr_symlink_def attr_new_def kind_bits_def mode_defs)

section \<open>Removing\<close>

lemma modify_inode_at: "inodes t i = Some n \<Longrightarrow> modify_inode i f t = modify_inode i (\<lambda>_. f n) t"
  by (auto simp: modify_inode_def bt_get_modify intro!: arg_cong [of _ _ "\<lambda>m. t\<lparr>pt_inodes := m\<rparr>"] bt_eqI)

text \<open>Removing a name and dropping its link.\<close>

lemma unlink_name:
  assumes inv: "vfs_inv S s" and p: "p \<noteq> []" "names (v_tree s) p = Some i" and leaf: "\<And>x. names (v_tree s) (p @ [x]) = None"
    and Q: "\<And>s' d. vfs_inv (insert i (insert d S)) s' \<Longrightarrow> names (v_tree s) (butlast p) = Some d \<Longrightarrow>
      names (v_tree s') = (names (v_tree s))(p := None) \<Longrightarrow>
      (\<And>j. j \<noteq> i \<Longrightarrow> inodes (v_tree s') j = inodes (v_tree s) j) \<Longrightarrow> 
      (\<forall>n. inodes (v_tree s') i = Some n \<longrightarrow>
        (\<exists>m. inodes (v_tree s) i = Some m \<and> n = m\<lparr>pn_attr := decrement_link_count (pn_attr m)\<rparr>)) \<Longrightarrow>
      (inodes (v_tree s') i = None \<longrightarrow> open_count (v_fds s) i = 0) \<Longrightarrow>
      v_fds s' = v_fds s \<Longrightarrow> v_store s' = v_store s \<Longrightarrow> Q () s'"
  shows "after (st_bind (lift_tree (remove_path_link p)) (\<lambda>j. drop_link i)) s Q R"
proof -
  let ?t = "v_tree s"
  have inv': "tree_ok ?t" "fresh_ids ?t" "coherent S (v_cache s) ?t"
    using inv by (simp_all add: vfs_inv_def)
  obtain n where n: "inodes ?t i = Some n" "node_ok i n"
    using p(2) inv'(1) inodes_node_ok tree_invD(3) [of "names ?t" "inodes ?t" "child_of ?t" p i] unfolding tree_ok_def by blast
  define n' where "n' = n\<lparr>pn_attr := decrement_link_count (pn_attr n)\<rparr>"
  define t1 where "t1 = snd (remove_path_link p ?t)"
  define t where "t = modify_inode i (\<lambda>_. n') t1"
  have I1: "inodes t1 = inodes ?t" and rm: "remove_path_link p ?t = (Ok i, t1)"
    using p(2) by (simp_all add: remove_path_link_def t1_def)
  have ok: "tree_ok t"
    unfolding t_def t1_def n'_def
    by (rule remove_path_link_ok [OF inv'(1) p n(1) leaf])
      (use n in \<open>simp_all add: decrement_node_ok\<close>)
  have N: "names t = (names ?t)(p := None)" "inodes t = (inodes ?t)(i \<mapsto> n')" "child_of t = set_child p None (child_of ?t)"
    using p(2) n(1) I1 modify_inode_fun [of t1 i n "\<lambda>_. n'"]
    by (simp_all add: t_def) (simp_all add: t1_def remove_path_link_def bt_get_remove_fun child_of_unindex)
  obtain d where d: "names ?t (butlast p) = Some d"
  proof -
    have "dir_at (names ?t) (inodes ?t) (butlast p)"
      using inv'(1) p tree_invD(5) [of "names ?t" "inodes ?t" "child_of ?t" "butlast p" "last p"] by (simp add: tree_ok_def)
    then show ?thesis
      using that by (auto simp: dir_at_def)
  qed
  have same: "same_child ?t t j" for j
    using n(1) by (auto simp: same_child_def N n'_def option.rel_refl decrement_link_count_def touch_ctime_def dirent_type_def kind_bits_def)
  have co: "coherent (insert i (insert d S)) (v_cache s) t"
    by (rule coherent_one_name [OF coherent_mono [OF inv'(3)] inv'(1) p(1) N(1,3) _ same d]) (use p(2) in \<open>auto simp: N\<close>)
  have fresh: "fresh_ids t"
    using inv'(2) n(1) p(2) by (auto simp: fresh_ids_def N) (auto simp: t_def t1_def remove_path_link_def)
  define t' where "t' = (if tree_link_count t i = 0 \<and> open_count (v_fds s) i = 0 then forget_inode i t else t)"
  have "vfs_inv (insert i (insert d S)) (s\<lparr>v_tree := t'\<rparr>)"
    using ok co fresh forget_inode_ok [OF ok] coherent_forget [OF co ok]
    by (auto simp: vfs_inv_def t'_def fresh_ids_def forget_inode_def bt_get_remove)
  then have "Q () (s\<lparr>v_tree := t'\<rparr>)"
    using n(1) by (intro Q [OF _ d]) (auto simp: t'_def N forget_inode_def bt_get_remove n'_def node_is_directory_def)
  moreover have "modify_inode i (\<lambda>n. n\<lparr>pn_attr := decrement_link_count (pn_attr n)\<rparr>) t1 = t"
    unfolding t_def n'_def by (rule modify_inode_at) (simp add: I1 n(1))
  ultimately show ?thesis
    using rm by (simp add: after_simps drop_link_def Let_def) (auto simp: ends_def t'_def split: if_splits)
qed

section \<open>Linking\<close>

lemma increment_node_Ok:
  assumes "increment_node files n = (r, n')"
  shows "r \<noteq> Panic" "r = Err e \<Longrightarrow> n' = n"
    "r = Ok u \<Longrightarrow> n' = n\<lparr>pn_attr := touch_ctime ((pn_attr n)\<lparr>fa_nlink := fa_nlink (pn_attr n) + 1\<rparr>)\<rparr>"
  using assms by (auto simp: increment_node_def increment_link_count_def split: if_splits result.splits)

lemma modify_inode_self: "inodes t i = Some n \<Longrightarrow> modify_inode i (\<lambda>_. n) t = t"
  by (simp add: modify_inode_def) (metis (mono_tags) bt_eqI bt_get_modify option.simps(9) path_tree.surjective path_tree.update_convs(2))

lemma link_name:
  assumes inv: "vfs_inv S s" and p: "ensure_parent_dir (v_tree s) p = Ok u" "lookup_path (v_tree s) p = None"
    and i: "inodes (v_tree s) i = Some n" "\<not> node_is_directory n"
    and Q: "\<And>s' d. vfs_inv (insert i (insert d S)) s' \<Longrightarrow> parent_inode (v_tree s') p = Some d \<Longrightarrow> Q () s'"
    and R: "\<And>s'. vfs_inv S s' \<Longrightarrow> R s'"
  shows "after (st_bind (lift_tree_fds (at_inode i increment_node)) (\<lambda>_. lift_tree (insert_link p i))) s Q R"
proof -
  let ?t = "v_tree s"
  have inv': "tree_ok ?t" "fresh_ids ?t" "coherent S (v_cache s) ?t"
    using inv by (simp_all add: vfs_inv_def)
  define files where "files = os_file (vs_os (v_store s)) (vs_calls (v_store s))"
  define h where "h = (v_store s)\<lparr>vs_calls := Suc (vs_calls (v_store s))\<rparr>"
  obtain r n' where step: "increment_node files n = (r, n')"
    by fastforce
  define t where "t = modify_inode i (\<lambda>_. n') ?t"
  have run: "lift_tree_fds (at_inode i increment_node) s = (r, s\<lparr>v_tree := t, v_fds := v_fds s, v_store := h\<rparr>)"
    using i step by (simp add: lift_tree_fds_def at_inode_def lookup_inode_def store_os_call_def files_def h_def t_def)
  show ?thesis
  proof (cases r)
    case (Ok v)
    then have n': "n' = n\<lparr>pn_attr := touch_ctime ((pn_attr n)\<lparr>fa_nlink := fa_nlink (pn_attr n) + 1\<rparr>)\<rparr>"
      using increment_node_Ok(3) [OF step] by blast
    have props: "node_ok i n'" "node_is_directory n' = node_is_directory n" "fa_nlink (pn_attr n') = fa_nlink (pn_attr n) + 1"
        "pn_inode_id n' = pn_inode_id n" "dirent_type (pn_attr n') = dirent_type (pn_attr n)"
      using inodes_node_ok [OF inv'(1) i(1)]
      by (simp_all add: n' node_ok_def touch_ctime_def attr_is_directory_def kind_bits_def node_is_directory_def dirent_type_def)
    define t' where "t' = snd (insert_link p i t)"
    have free: "names ?t p = None" and pd: "p \<noteq> []" "dir_at (names ?t) (inodes ?t) (butlast p)"
      using p inv'(1) by (simp_all add: lookup_path_None ensure_parent_dir_Ok)
    obtain d where d: "names ?t (butlast p) = Some d"
      using pd(2) by (auto simp: dir_at_def)
    have I: "inodes t = (inodes ?t)(i \<mapsto> n')" and names_t: "names t = names ?t" "child_of t = child_of ?t"
      using i by (simp_all add: t_def modify_inode_fun)
    have t': "names t' = (names ?t)(p \<mapsto> i)" "inodes t' = (inodes ?t)(i \<mapsto> n')" "child_of t' = set_child p (Some i) (child_of ?t)"
        "pt_next_inode_id t' = pt_next_inode_id ?t" "fst (insert_link p i t) = Ok ()"
      using free I names_t by (simp_all add: t'_def insert_link_def bt_contains_def bt_get_insert_fun child_of_index) (simp add: t_def)
    have ok: "tree_ok t'"
      using insert_link_ok [OF inv'(1) p i props(1) _ props(3)] props(2) i(2) by (simp add: t'_def t_def)
    have "same_child ?t t' j" for j
      using i props(4,5) by (auto simp: same_child_def t' option.rel_refl)
    then have "coherent (insert i (insert d S)) (v_cache s) t'"
      using free by (intro coherent_one_name [OF coherent_mono [OF inv'(3)] inv'(1) pd(1) t'(1,3) _ _ d]) (auto simp: t')
    moreover have "fresh_ids t'"
      using inv'(2) i by (auto simp: fresh_ids_def t')
    moreover have "butlast p \<noteq> p"
      using pd(1) by (metis append_butlast_last_id not_Cons_self2 self_append_conv)
    then have "parent_inode t' p = Some d"
      using parent_inode_names [OF ok pd(1)] d by (simp add: t')
    moreover have "insert_link p i t = (Ok (), t')"
      using t'(5) by (cases "insert_link p i t") (simp add: t'_def)
    ultimately show ?thesis
      using Q [of d "s\<lparr>v_store := h, v_tree := t'\<rparr>"] ok run Ok
      by (simp add: ends_def st_bind_def lift_tree_def vfs_inv_def)
  next
    case (Err e)
    then have "t = ?t"
      using increment_node_Ok(2) [OF step] modify_inode_self [OF i(1)] by (simp add: t_def)
    then show ?thesis
      using R [of "s\<lparr>v_tree := t, v_fds := v_fds s, v_store := h\<rparr>"] run Err inv
      by (simp add: ends_def st_bind_def vfs_inv_def)
  next
    case Panic
    then show ?thesis
      using increment_node_Ok(1) [OF step] by blast
  qed
qed

section \<open>Renaming\<close>

lemma names_live: "tree_ok t \<Longrightarrow> names t p = Some i \<Longrightarrow> inodes t i \<noteq> None"
  using tree_invD(3) unfolding tree_ok_def by blast

lemma nothing_below:
  assumes "tree_ok t" "names t b = None"
  shows "names t (b @ r) = None"
proof (rule ccontr)
  assume *: "names t (b @ r) \<noteq> None"
  then have "dir_at (names t) (inodes t) b"
    using names_prefix_closed [OF assms(1) [unfolded tree_ok_def] *] assms(2) by (cases "r = []") auto
  then show False
    using assms(2) by (simp add: dir_at_def)
qed

lemma paths_under_prefix_empty:
  assumes "tree_ok t" "names t b = None"
  shows "paths_under_prefix t b = []"
proof -
  have "p \<notin> set (paths_under_prefix t b)" for p
    using nothing_below [OF assms] by (auto simp: set_paths_under_prefix gp_starts_with_iff)
  then show ?thesis
    by (metis list.set_intros(1) neq_Nil_conv)
qed

lemma moved_targets: "p \<in> fst ` set (moved a b f (paths_under_prefix t a)) \<Longrightarrow> \<exists>r. p = b @ r \<and> names t (a @ r) \<noteq> None"
  by (auto simp: moved_def set_paths_under_prefix gp_starts_with_iff)

lemma moved_sources: "i \<in> snd ` set (moved a b (names t) (paths_under_prefix t a)) \<Longrightarrow> \<exists>p. names t p = Some i"
  by (auto simp: moved_def set_paths_under_prefix)

text \<open>The two loops of an exchange; the second subtree may be empty.\<close>

lemma exchange_links:
  assumes ok: "tree_ok t" and ab: "incomparable a b"
  obtains t1 t2 t' where
    "remove_links a b (paths_under_prefix t a) t = (Ok (moved a b (names t) (paths_under_prefix t a)), t1)"
    "remove_links b a (paths_under_prefix t b) t1 = (Ok (moved b a (names t) (paths_under_prefix t b)), t2)"
    "insert_links (moved a b (names t) (paths_under_prefix t a) @ moved b a (names t) (paths_under_prefix t b)) t2 = (Ok (), t')"
    "names t' = (\<lambda>q. names t (swap_prefix a b q))" "pt_inodes t' = pt_inodes t"
    "pt_next_inode_id t' = pt_next_inode_id t" "synced t'"
proof -
  let ?A = "paths_under_prefix t a" and ?B = "paths_under_prefix t b"
  note inc = incomparable_append [OF ab]
  have "set ?A \<subseteq> dom (names t)"
    by (auto simp: set_paths_under_prefix)
  then obtain t1 where t1: "remove_links a b ?A t = (Ok (moved a b (names t) ?A), t1)" "names t1 = names t |` (- set ?A)"
      "pt_inodes t1 = pt_inodes t" "pt_next_inode_id t1 = pt_next_inode_id t" "synced t1"
    using remove_links_effect [of ?A t a b] tree_ok_synced [OF ok] unfolding moved_def by auto
  have B: "set ?B \<subseteq> dom (names t1)" "names t1 p = names t p" if "p \<in> set ?B" for p
    using that inc by (auto simp: t1(2) set_paths_under_prefix gp_starts_with_iff restrict_map_def)
  then have "map (\<lambda>p. (replace_prefix p b a, the (names t1 p))) ?B = moved b a (names t) ?B" "set ?B \<subseteq> dom (names t1)"
    by (auto simp: moved_def)
  then obtain t2 where t2: "remove_links b a ?B t1 = (Ok (moved b a (names t) ?B), t2)" "names t2 = names t1 |` (- set ?B)"
      "pt_inodes t2 = pt_inodes t1" "pt_next_inode_id t2 = pt_next_inode_id t1" "synced t2"
    using remove_links_effect [of ?B t1 b a] t1(5) by auto
  have names2: "names t2 = names t |` (- set ?A - set ?B)"
    by (simp add: t2(2) t1(2) Int_commute Diff_eq)
  let ?us = "moved a b (names t) ?A @ moved b a (names t) ?B"
  have "distinct (map fst ?us)"
  proof -
    have "p \<notin> fst ` set (moved b a (names t) ?B)" if "p \<in> fst ` set (moved a b (names t) ?A)" for p
      using moved_targets [OF that] moved_targets [of p b a "names t" t] inc by (auto simp: gp_starts_with_iff)
    moreover have "distinct (map fst (moved a b (names t) ?A))" "distinct (map fst (moved b a (names t) ?B))"
      by (auto intro!: distinct_moved simp: set_paths_under_prefix)
    ultimately show ?thesis
      by auto
  qed
  moreover have "fst ` set ?us \<inter> dom (names t2) = {}"
    using moved_targets [of _ a b "names t" t] moved_targets [of _ b a "names t" t]
    by (fastforce simp: names2 restrict_map_def set_paths_under_prefix gp_starts_with_append split: if_splits)
  moreover have "snd ` set ?us \<subseteq> dom (inodes t2)"
    using moved_sources [of _ a b t] moved_sources [of _ b a t] names_live [OF ok] by (fastforce simp: t2(3) t1(3))
  ultimately obtain t' where t': "insert_links ?us t2 = (Ok (), t')" "names t' = names t2 ++ map_of ?us"
      "pt_inodes t' = pt_inodes t2" "pt_next_inode_id t' = pt_next_inode_id t2" "synced t'"
    using insert_links_effect [of ?us t2] t2(5) by auto
  show ?thesis
    by (rule that [OF t1(1) t2(1) t'(1)])
      (use t' t2 t1 relocate_names [OF ab, of t] names2 in simp_all)
qed

lemma move_links_effect:
  assumes ok: "tree_ok t" and ab: "incomparable a b" and b: "names t b = None"
  obtains t' where "move_links a b t = (Ok (), t')" "names t' = (\<lambda>q. names t (swap_prefix a b q))" "pt_inodes t' = pt_inodes t"
    "pt_next_inode_id t' = pt_next_inode_id t" "synced t'"
proof -
  have empty: "paths_under_prefix t b = []"
    by (rule paths_under_prefix_empty [OF ok b])
  show ?thesis
    by (rule exchange_links [OF ok ab])
      (rule that, simp_all add: empty moved_def move_links_def st_bind_def st_ok_def)
qed

end
