(* ===== verification/Vfs_Rename.thy ===== *)
theory Vfs_Rename
  imports Vfs_Safe
begin

text \<open>
  Renaming keeps the invariant: replacing a target and moving a subtree, and exchanging two subtrees.
\<close>

section \<open>Renaming keeps the invariant\<close>

lemma below_existing:
  assumes "tree_ok t" "names t (a @ r) \<noteq> None" "r \<noteq> []" "names t a = Some i" "inodes t i = Some n"
  shows "node_is_directory n"
  using names_prefix_closed [OF assms(1) [unfolded tree_ok_def] assms(2,3)] assms(4,5) by (auto simp: dir_at_def)

lemma nonempty_above:
  assumes "tree_ok t" "names t (b @ r) \<noteq> None" "r \<noteq> []"
  shows "\<not> is_empty_directory t b"
proof -
  obtain x r' where "r = x # r'"
    using assms(3) by (cases r) auto
  then have "names t (b @ [x]) \<noteq> None"
    using nothing_below [OF assms(1), of "b @ [x]" r'] assms(2) by fastforce
  then show ?thesis
    unfolding empty_directory_iff [OF assms(1)] by auto
qed

lemma rename_incomparable:
  assumes ok: "tree_ok t" and a: "names t a = Some i" "inodes t i = Some n" and "a \<noteq> b"
    and into: "\<not> (node_is_directory n \<and> gp_starts_with b a)" and parent: "ensure_parent_dir t b = Ok u"
    and target: "\<And>j m. names t b = Some j \<Longrightarrow> inodes t j = Some m \<Longrightarrow>
      node_is_directory n = node_is_directory m \<and> (node_is_directory m \<longrightarrow> is_empty_directory t b)"
  shows "incomparable a b"
proof -
  have "\<not> gp_starts_with b a"
  proof
    assume "gp_starts_with b a"
    then obtain r where r: "b = a @ r" "r \<noteq> []"
      using \<open>a \<noteq> b\<close> by (auto simp: gp_starts_with_iff)
    have n: "\<not> node_is_directory n"
      using into \<open>gp_starts_with b a\<close> by simp
    have "dir_at (names t) (inodes t) (a @ butlast r)"
      using parent r by (simp add: ensure_parent_dir_Ok butlast_append)
    then show False
      using below_existing [OF ok, of a "butlast r"] a n by (cases "butlast r = []") (auto simp: dir_at_def)
  qed
  moreover have "\<not> gp_starts_with a b"
  proof
    assume "gp_starts_with a b"
    then obtain r where r: "a = b @ r" "r \<noteq> []"
      using \<open>a \<noteq> b\<close> by (auto simp: gp_starts_with_iff)
    then have below: "names t (b @ r) \<noteq> None"
      using a by simp
    then obtain j m where j: "names t b = Some j" "inodes t j = Some m"
      using nothing_below [OF ok, of b r] names_live [OF ok, of b] by fastforce
    then show False
      using below_existing [OF ok below r(2) j] nonempty_above [OF ok below r(2)] target by blast
  qed
  ultimately show ?thesis
    by (simp add: incomparable_def)
qed

text \<open>The last part of a rename, once the target name is free.\<close>

lemma after_move:
  assumes inv: "vfs_inv S s" and ab: "incomparable a b" and a: "names (v_tree s) a \<noteq> None" and b: "names (v_tree s) b = None"
    and parent: "dir_at (names (v_tree s)) (inodes (v_tree s)) (butlast b)"
    and S: "S \<subseteq> set_option (parent_inode (v_tree s) b) \<union> set_option j"
  shows "after (st_bind (move_path a b) (\<lambda>_.
      invalidate_inode_caches [parent_inode (v_tree s) a, parent_inode (v_tree s) b, j])) s (\<lambda>_. vfs_inv {}) R"
proof -
  have inv': "tree_ok (v_tree s)" "fresh_ids (v_tree s)" "coherent S (v_cache s) (v_tree s)"
    using inv by (simp_all add: vfs_inv_def)
  note ne = incomparable_append(3,4) [OF ab]
  obtain t' where t': "move_links a b (v_tree s) = (Ok (), t')" "names t' = (\<lambda>q. names (v_tree s) (swap_prefix a b q))"
      "pt_inodes t' = pt_inodes (v_tree s)" "pt_next_inode_id t' = pt_next_inode_id (v_tree s)" "synced t'"
    by (rule move_links_effect [OF inv'(1) ab b])
  have "dir_at (names (v_tree s)) (inodes (v_tree s)) (butlast a)"
    using tree_invD(5) [OF inv'(1) [unfolded tree_ok_def], of "butlast a" "last a"] a ne by simp
  then have ok: "tree_ok t'"
    using relocate_ok [OF inv'(1) ab _ parent t'(2,3,5)] by blast
  let ?S = "(\<Union>i \<in> set [parent_inode (v_tree s) a, parent_inode (v_tree s) b, j]. set_option i) \<union> {}"
  have "coherent ?S (v_cache s) (v_tree s)"
    using inv'(3) S by (auto elim: coherent_mono)
  then have co: "coherent ?S (v_cache s) t'"
    using ne by (intro coherent_relocate [OF _ inv'(1) ab t'(2,3,5)]) (auto simp: parent_inode_names [OF inv'(1)])
  have fr: "fresh_ids t'"
    using inv'(2) t'(3,4) by (simp add: fresh_ids_def)
  have "after (invalidate_inode_caches [parent_inode (v_tree s) a, parent_inode (v_tree s) b, j])
      (s\<lparr>v_tree := t', v_fds := rebind_paths a b (v_fds s)\<rparr>) (\<lambda>_. vfs_inv {}) R"
    by (rule after_invalidate_inodes [where S = "{}"]) (use ok co fr in \<open>simp_all add: vfs_inv_def\<close>)
  then show ?thesis
    by (simp add: after_bind move_path_def rebind_fds_def after_modify after_lift_tree) (simp add: ends_def t'(1))
qed

text \<open>Replacing an existing target.\<close>

lemma rename_over:
  assumes ok: "tree_ok (v_tree s)" and a: "names (v_tree s) a = Some i" and ab: "incomparable a b"
    and b: "names (v_tree s) b = Some j" and parent: "dir_at (names (v_tree s)) (inodes (v_tree s)) (butlast b)"
    and s': "vfs_inv (insert j (insert d {})) s'" "names (v_tree s) (butlast b) = Some d"
      "names (v_tree s') = (names (v_tree s))(b := None)" "\<And>k. k \<noteq> j \<Longrightarrow> inodes (v_tree s') k = inodes (v_tree s) k"
  shows "after (st_bind (move_path a b) (\<lambda>_.
      invalidate_inode_caches [parent_inode (v_tree s') a, parent_inode (v_tree s') b, Some j])) s' (\<lambda>_. vfs_inv {}) (vfs_inv {})"
proof (rule after_move [OF s'(1) ab])
  have "b \<noteq> []"
    using incomparable_append(4) [OF ab] .
  then have bb: "butlast b \<noteq> b"
    by (metis append_butlast_last_id not_Cons_self2 self_append_conv)
  obtain dn where dn: "inodes (v_tree s) d = Some dn" "node_is_directory dn"
    using parent s'(2) by (auto simp: dir_at_def)
  have "d \<noteq> j"
    using directory_single_name [OF ok s'(2) _ dn, of b] b bb by auto
  then show "dir_at (names (v_tree s')) (inodes (v_tree s')) (butlast b)"
    using dn s'(2-4) bb by (auto simp: dir_at_def)
  have "parent_inode (v_tree s') b = Some d"
    using parent_inode_names [of "v_tree s'" b] s'(1-3) bb \<open>b \<noteq> []\<close> by (simp add: vfs_inv_def)
  then show "insert j (insert d {}) \<subseteq> set_option (parent_inode (v_tree s') b) \<union> set_option (Some j)"
    by simp
  show "names (v_tree s') a \<noteq> None" "names (v_tree s') b = None"
    using a ab s'(3) by (auto simp: incomparable_def)
qed

lemma rename_target_inv:
  assumes inv: "vfs_inv {} s" and a: "names (v_tree s) a = Some i" and ab: "incomparable a b"
    and b: "names (v_tree s) b = Some j" and leaf: "\<And>x. names (v_tree s) (b @ [x]) = None"
    and parent: "dir_at (names (v_tree s)) (inodes (v_tree s)) (butlast b)"
  shows "after (st_bind (st_bind (lift_tree (remove_path_link b)) (\<lambda>_. drop_link j)) (\<lambda>_ s. st_bind (move_path a b) (\<lambda>_.
      invalidate_inode_caches [parent_inode (v_tree s) a, parent_inode (v_tree s) b, Some j]) s)) s (\<lambda>_. vfs_inv {}) (vfs_inv {})"
  unfolding after_bind [of "st_bind _ _"]
proof (rule unlink_name [OF inv incomparable_append(4) [OF ab] b leaf])
  fix s' d
  assume s': "vfs_inv {j, d} s'" "names (v_tree s) (butlast b) = Some d" "names (v_tree s') = (names (v_tree s))(b := None)"
    "\<And>k. k \<noteq> j \<Longrightarrow> inodes (v_tree s') k = inodes (v_tree s) k"
  have "tree_ok (v_tree s)"
    using inv by (simp add: vfs_inv_def)
  then have "after (st_bind (move_path a b) (\<lambda>_.
      invalidate_inode_caches [parent_inode (v_tree s') a, parent_inode (v_tree s') b, Some j])) s' (\<lambda>_. vfs_inv {}) (vfs_inv {})"
    by (rule rename_over [OF _ a ab b parent s'])
  then show "after (\<lambda>s. st_bind (move_path a b) (\<lambda>_.
      invalidate_inode_caches [parent_inode (v_tree s) a, parent_inode (v_tree s) b, Some j]) s) s' (\<lambda>_. vfs_inv {}) (vfs_inv {})"
    by (simp add: ends_def)
qed

lemma rename_replace_over:
  assumes "lookup_inode (v_tree s) j = Some m"
  shows "rename_replace a i b (Some j) s =
    (case validate_rename_replacement (v_tree s) i j b of
       Ok _ \<Rightarrow>
         if node_is_directory m \<and> \<not> is_empty_directory (v_tree s) b then (Err NotEmpty, s)
         else st_bind (st_bind (lift_tree (remove_path_link b)) (\<lambda>_. drop_link j)) (\<lambda>_ s. st_bind (move_path a b) (\<lambda>_.
           invalidate_inode_caches [parent_inode (v_tree s) a, parent_inode (v_tree s) b, Some j]) s) s
     | Err e \<Rightarrow> (Err e, s)
     | Panic \<Rightarrow> (Panic, s))"
  using assms
  by (auto simp: rename_replace_def remove_existing_rename_target_def st_bind_def ask_def Let_def split: result.splits)

lemma rename_replace_inv:
  assumes inv: "vfs_inv {} s" and a: "names (v_tree s) a = Some i" and "b \<noteq> []" "a \<noteq> b"
    and checks: "rename_checks s flags a i b (names (v_tree s) b) = Ok u" "flags AND RENAME_EXCHANGE = 0"
  shows "after (rename_replace a i b (names (v_tree s) b)) s (\<lambda>_. vfs_inv {}) (vfs_inv {})"
proof -
  let ?t = "v_tree s"
  have ok: "tree_ok ?t"
    using inv by (simp add: vfs_inv_def)
  obtain n where n: "inodes ?t i = Some n" "\<not> (node_is_directory n \<and> gp_starts_with b a)" "ensure_parent_dir ?t b = Ok ()"
    using checks by (auto simp: rename_checks_def result_simps lookup_inode_def split: if_splits)
  have parent: "dir_at (names ?t) (inodes ?t) (butlast b)"
    using n(3) by (simp add: ensure_parent_dir_Ok)
  note incomp = rename_incomparable [OF ok a n(1) \<open>a \<noteq> b\<close> n(2,3)]
  show ?thesis
  proof (cases "names ?t b")
    case None
    then have "after (st_bind (move_path a b) (\<lambda>_. invalidate_inode_caches [parent_inode ?t a, parent_inode ?t b, None]))
        s (\<lambda>_. vfs_inv {}) (vfs_inv {})"
      using a parent incomp by (intro after_move [OF inv]) auto
    then show ?thesis
      using None by (simp add: rename_replace_def ends_def st_bind_def st_ok_def Let_def)
  next
    case (Some j)
    then obtain m where m: "inodes ?t j = Some m"
      using names_live [OF ok] by fastforce
    show ?thesis
    proof (cases "validate_rename_replacement ?t i j b")
      case (Ok u)
      then have same: "node_is_directory n = node_is_directory m" "node_is_directory m \<Longrightarrow> is_empty_directory ?t b"
        using n(1) m by (auto simp: validate_rename_replacement_def result_simps lookup_inode_def split: if_splits)
      have leaf: "names ?t (b @ [x]) = None" for x
        using leaf_of_nondirectory [OF ok Some m] empty_directory_iff [OF ok, of b] same(2) by blast
      have "incomparable a b"
        by (rule incomp) (use same m Some in auto)
      from rename_target_inv [OF inv a this Some leaf parent] show ?thesis
        using Ok same m Some inv by (simp add: ends_def rename_replace_over lookup_inode_def)
    qed (use inv m Some in \<open>simp_all add: ends_def rename_replace_over lookup_inode_def\<close>)
  qed
qed

lemma paths_under_leaf:
  assumes "tree_ok t" "names t p = Some i" "inodes t i = Some n" "\<not> node_is_directory n"
  shows "paths_under_prefix t p = [p]"
proof -
  have "q \<in> set (paths_under_prefix t p) \<longleftrightarrow> q = p" for q
    using below_existing [OF assms(1) _ _ assms(2,3)] assms(2,4) by (auto simp: set_paths_under_prefix gp_starts_with_iff)
  then have "set (paths_under_prefix t p) = {p}"
    by auto
  then show ?thesis
    by (metis distinct_card distinct_paths_under_prefix is_singletonI is_singleton_altdef length_0_conv length_Suc_conv
        list.set_intros(1) One_nat_def singletonD)
qed

lemma exchange_inv:
  assumes inv: "vfs_inv {} s" and a: "names (v_tree s) a = Some i" and b: "names (v_tree s) b = Some j" and "a \<noteq> b"
    and ne: "a \<noteq> []" "b \<noteq> []"
  shows "after (exchange_paths a i b j) s (\<lambda>_ s. tree_ok (v_tree s) \<and> fresh_ids (v_tree s)) (vfs_inv {})"
proof -
  let ?t = "v_tree s"
  have ok: "tree_ok ?t" "fresh_ids ?t"
    using inv by (simp_all add: vfs_inv_def)
  obtain n m where nm: "inodes ?t i = Some n" "inodes ?t j = Some m"
    using names_live [OF ok(1)] a b by fastforce
  show ?thesis
  proof (cases "node_is_directory n \<and> gp_starts_with b a \<or> node_is_directory m \<and> gp_starts_with a b")
    case True
    then show ?thesis
      using inv nm by (auto simp: ends_def exchange_paths_def st_bind_def ask_def lookup_inode_def Let_def)
  next
    case False
    have ab: "incomparable a b"
      using False below_existing [OF ok(1) _ _ a nm(1)] below_existing [OF ok(1) _ _ b nm(2)] a b \<open>a \<noteq> b\<close>
      by (auto simp: incomparable_def gp_starts_with_iff)
    have dirs: "dir_at (names ?t) (inodes ?t) (butlast a)" "dir_at (names ?t) (inodes ?t) (butlast b)"
      using tree_invD(5) [OF ok(1) [unfolded tree_ok_def], of "butlast a" "last a"]
        tree_invD(5) [OF ok(1) [unfolded tree_ok_def], of "butlast b" "last b"] a b ne by auto
    have paths: "moved_paths ?t (node_is_directory n) a = paths_under_prefix ?t a"
      "moved_paths ?t (node_is_directory m) b = paths_under_prefix ?t b"
      using paths_under_leaf [OF ok(1) a nm(1)] paths_under_leaf [OF ok(1) b nm(2)] by (simp_all add: moved_paths_def)
    obtain t1 t2 t' where run:
      "remove_links a b (paths_under_prefix ?t a) ?t = (Ok (moved a b (names ?t) (paths_under_prefix ?t a)), t1)"
      "remove_links b a (paths_under_prefix ?t b) t1 = (Ok (moved b a (names ?t) (paths_under_prefix ?t b)), t2)"
      "insert_links (moved a b (names ?t) (paths_under_prefix ?t a) @ moved b a (names ?t) (paths_under_prefix ?t b)) t2 = (Ok (), t')"
      and t': "names t' = (\<lambda>q. names ?t (swap_prefix a b q))" "pt_inodes t' = pt_inodes ?t"
        "pt_next_inode_id t' = pt_next_inode_id ?t" "synced t'"
      by (rule exchange_links [OF ok(1) ab])
    have "tree_ok t'" "fresh_ids t'"
      using relocate_ok [OF ok(1) ab dirs t'(1,2,4)] ok(2) t'(2,3) by (simp_all add: fresh_ids_def)
    then show ?thesis
      using False nm run
      by (auto simp: ends_def exchange_paths_def st_bind_def ask_def lookup_inode_def Let_def paths lift_tree_def
          rebind_fds_def st_modify_def)
  qed
qed

end
