(* ===== verification/Vfs_Calls.thy ===== *)
theory Vfs_Calls
  imports Vfs_Rename
begin

text \<open>
  The system calls of the virtual file system as one step relation, its invariant, and what follows for every
  state that a guest can reach: the tree is a tree, link counts count names, and the answers that come from
  the cache are the ones the tree would give.
\<close>

section \<open>Every call keeps the invariant\<close>

definition keeps :: "'a vfs_op \<Rightarrow> vfs \<Rightarrow> bool" where
  "keeps m s \<longleftrightarrow> after m s (\<lambda>_. vfs_inv {}) (vfs_inv {})"

subsection \<open>Descriptors\<close>

lemma keeps_lift_fds: "vfs_inv {} s \<Longrightarrow> keeps (lift_fds f) s"
  unfolding keeps_def by (rule after_lift_fds) simp_all

text \<open>The search for a free descriptor finds the least one.\<close>

lemma next_fd_loop_least:
  "next_fd_loop m k = Ok fd \<longleftrightarrow> k \<le> fd \<and> \<not> bt_contains m fd \<and> (\<forall>x. k \<le> x \<and> x < fd \<longrightarrow> bt_contains m x) \<and> (k < fd \<longrightarrow> fd \<le> I32_MAX)"
proof (induction m k rule: next_fd_loop.induct)
  case (1 m k)
  have step: "(\<forall>x. k \<le> x \<and> x < fd \<longrightarrow> bt_contains m x) \<longleftrightarrow> (\<forall>x. k + 1 \<le> x \<and> x < fd \<longrightarrow> bt_contains m x)"
    if "bt_contains m k"
    using that by (metis add1_zle_eq antisym_conv2 less_le)
  show ?case
  proof (cases "bt_contains m k")
    case False
    then show ?thesis
      by (auto simp: next_fd_loop.simps [of m k])
  next
    case True
    then have "k \<noteq> fd" if "\<not> bt_contains m fd"
      using that by auto
    then show ?thesis
      using 1 True step by (auto simp: next_fd_loop.simps [of m k])
  qed
qed

lemma next_fd_loop_not_Panic: "next_fd_loop m k \<noteq> Panic"
  by (induction m k rule: next_fd_loop.induct) (simp add: next_fd_loop.simps)

definition fd_room :: "vfs \<Rightarrow> bool" where
  "fd_room s \<longleftrightarrow> (\<exists>fd. next_fd_from (v_fds s) FIRST_ALLOC_FD = Ok fd)"

lemma insert_open_Ok:
  assumes "next_fd_from t FIRST_ALLOC_FD = Ok fd"
  shows "fst (insert_open f flags path (t, h)) = Ok fd"
proof -
  have "0 \<le> fd" "\<not> bt_contains (ft_entries t) fd"
    using assms next_fd_loop_least [of "ft_entries t" 0 fd] by (simp_all add: next_fd_from_def FIRST_ALLOC_FD_def)
  then show ?thesis
    using assms
    by (simp add: insert_open_def with_next_fd_def st_bind_def st_lift_def insert_entry_def new_description_def st_modify_def
        put_entry_def set_cloexec_def on_table_def on_store_def bt_contains_def bt_get_insert st_ok_def)
qed

subsection \<open>Creating and removing names\<close>

lemma lift_tree_bind:
  assumes "\<And>t. node (s\<lparr>v_tree := t\<rparr>) = node s"
  shows "st_bind (lift_tree allocate_inode_id) (\<lambda>i s. lift_tree (insert_path_node p (node s i)) s) s =
    lift_tree (st_bind allocate_inode_id (\<lambda>i. insert_path_node p (node s i))) s"
  by (cases "allocate_inode_id (v_tree s)")
    (auto simp: st_bind_def lift_tree_def assms split: result.splits prod.splits)

lemma create_at_inv:
  assumes inv: "vfs_inv {} s" and room: "pt_next_inode_id (v_tree s) < PROC_INODE_ID"
    and node: "\<And>i. node_ok i (node s i)" "\<And>i. \<not> node_is_directory (node s i) \<Longrightarrow> fa_nlink (pn_attr (node s i)) = 1"
      "\<And>t. node (s\<lparr>v_tree := t\<rparr>) = node s"
  shows "keeps (create_at dirfd path node) s"
proof -
  have "after (st_bind (lift_tree allocate_inode_id) (\<lambda>i s. lift_tree (insert_path_node p (node s i)) s)) s
      (\<lambda>_ s'. after (invalidate_parent_cache p) s' (\<lambda>_. vfs_inv {}) (vfs_inv {})) (vfs_inv {})"
    if "ensure_parent_dir (v_tree s) p = Ok ()" "lookup_path (v_tree s) p = None" for p
    unfolding lift_tree_bind [OF node(3)]
    by (rule create_node [OF inv that room node(1,2)]) (auto intro: after_invalidate_parent [where S = "{}"])
  then show ?thesis
    using inv by (auto simp: keeps_def create_at_def after_simps Let_def dest: resolve_at_inode)
qed

lemma mkdirat_keeps:
  "vfs_inv {} s \<Longrightarrow> pt_next_inode_id (v_tree s) < PROC_INODE_ID \<Longrightarrow> keeps (mkdirat dirfd path mode) s"
  unfolding mkdirat_def by (rule create_at_inv) (auto simp: attr_is_directory_def intro: new_node_ok)

lemma symlinkat_keeps:
  assumes "vfs_inv {} s" "pt_next_inode_id (v_tree s) < PROC_INODE_ID"
  shows "keeps (symlinkat target dirfd path) s"
proof (cases "target = [] \<or> has_nul target")
  case False
  have "keeps (create_at dirfd path (\<lambda>s i. bare_node i (NSymlink target) (attr_symlink i (length target)))) s"
    by (rule create_at_inv [OF assms]) (auto simp: attr_is_directory_def mode_defs intro!: new_node_ok)
  then show ?thesis
    using False by (simp add: symlinkat_def)
qed (use assms in \<open>simp add: symlinkat_def keeps_def after_simps\<close>)

lemma unlinkat_keeps:
  assumes inv: "vfs_inv {} s"
  shows "keeps (unlinkat dirfd path flags) s"
proof -
  have ok: "tree_ok (v_tree s)"
    using inv by (simp add: vfs_inv_def)
  have "after (st_bind (lift_tree (remove_path_link p)) (\<lambda>i. st_bind (drop_link i) (\<lambda>_.
      invalidate_inode_caches [parent_inode (v_tree s) p, Some i]))) s (\<lambda>_. vfs_inv {}) (vfs_inv {})"
    if p: "p \<noteq> []" "lookup_path (v_tree s) p = Some n" "unlink_checks b (v_tree s) p n = Ok ()" for p n b
  proof -
    obtain i where i: "names (v_tree s) p = Some i" "inodes (v_tree s) i = Some n"
      using p(2) by (auto simp: lookup_path_Some)
    have leaf: "names (v_tree s) (p @ [x]) = None" for x
      using p(3) leaf_of_nondirectory [OF ok i] empty_directory_iff [OF ok, of p] by (auto simp: unlink_checks_def split: if_splits)
    have "after (st_bind (st_bind (lift_tree (remove_path_link p)) (\<lambda>_. drop_link i)) (\<lambda>_.
      invalidate_inode_caches [parent_inode (v_tree s) p, Some i])) s (\<lambda>_. vfs_inv {}) (vfs_inv {})"
      unfolding after_bind [of "st_bind _ _"]
      by (rule unlink_name [OF inv p(1) i(1) leaf], rule after_invalidate_inodes [where S = "{}"])
        (auto simp: parent_inode_names [OF ok p(1)] insert_commute)
    then show ?thesis
      using i by (simp add: after_bind after_lift_tree remove_path_link_def)
  qed
  then show ?thesis
    using inv by (auto simp: keeps_def unlinkat_def after_simps Let_def ok_or_Ok)
qed

lemma linkat_keeps:
  assumes inv: "vfs_inv {} s"
  shows "keeps (linkat olddirfd oldpath newdirfd newpath flags) s"
proof -
  have "after (st_bind (st_bind (lift_tree_fds (at_inode i increment_node)) (\<lambda>_. lift_tree (insert_link p i))) (\<lambda>_ s.
      invalidate_inode_caches [parent_inode (v_tree s) p, Some i] s)) s (\<lambda>_. vfs_inv {}) (vfs_inv {})"
    if "inodes (v_tree s) i = Some n" "\<not> node_is_directory n" "ensure_parent_dir (v_tree s) p = Ok ()"
      "lookup_path (v_tree s) p = None" for i n p
    unfolding after_bind [of "st_bind _ _"]
    by (rule link_name [OF inv that(3,4,1,2)]) (auto intro!: after_invalidate_inodes [where S = "{}"] simp: insert_commute)
  then show ?thesis
    using inv unfolding keeps_def linkat_def
    by (auto simp: after_simps Let_def ok_or_Ok lookup_inode_def dest: resolve_at_inode)
qed

lemma renameat2_keeps:
  assumes inv: "vfs_inv {} s"
  shows "keeps (renameat2 olddirfd oldpath newdirfd newpath flags) s"
proof -
  have ok: "tree_ok (v_tree s)"
    using inv by (simp add: vfs_inv_def)
  have id: "map_option pn_inode_id (lookup_path (v_tree s) p) = names (v_tree s) p" for p
    using lookup_path_None [OF ok, of p] lookup_path_id [OF ok, of p] by (cases "lookup_path (v_tree s) p") auto
  have "after (st_bind (exchange_paths a i b j) (\<lambda>_. invalidate_vfs_caches)) s (\<lambda>_. vfs_inv {}) (vfs_inv {})"
    if "names (v_tree s) a = Some i" "names (v_tree s) b = Some j" "a \<noteq> b" "a \<noteq> []" "b \<noteq> []" for a b i j
    unfolding after_bind by (rule ends_mono [OF exchange_inv [OF inv that]]) (auto intro: after_invalidate_all)
  then show ?thesis
    using inv rename_replace_inv [OF inv] unfolding keeps_def renameat2_def
    by (auto simp: after_simps Let_def ok_or_Ok id dest!: resolve_at_inode)
qed

subsection \<open>Opening and closing\<close>

lemma create_resolved_file_eq:
  "ensure_parent_dir t p = Ok u \<Longrightarrow>
   create_resolved_file p mode t = st_bind allocate_inode_id (\<lambda>i. insert_path_node p (bare_node i NFile (attr_regular i mode 0))) t"
  by (simp add: create_resolved_file_def st_bind_def st_lift_def)

text \<open>After the first half of \<open>openat\<close> only the listing of the parent of a created file is out of date.\<close>

lemma after_open_create:
  assumes inv: "vfs_inv {} s" and room: "pt_next_inode_id (v_tree s) < PROC_INODE_ID"
    and missing: "missing \<Longrightarrow> lookup_path (v_tree s) p = None"
    and Q: "\<And>s'. vfs_inv {} s' \<Longrightarrow> v_fds s' = v_fds s \<Longrightarrow> Q None s'"
      "\<And>s' d n. vfs_inv {d} s' \<Longrightarrow> v_fds s' = v_fds s \<Longrightarrow> flag_create flags \<Longrightarrow> lookup_path (v_tree s') p = Some n \<Longrightarrow>
        kind_bits (pn_attr n) = S_IFREG \<Longrightarrow> pn_kind n = NFile \<Longrightarrow> pn_deferred_host_path n = None \<Longrightarrow> Q (Some d) s'"
  shows "after (open_create p missing flags mode) s Q (vfs_inv {})"
proof -
  let ?node = "\<lambda>i. bare_node i NFile (attr_regular i (mode AND NOT (v_umask s)) 0)"
  have "after (lift_tree (create_resolved_file p (mode AND NOT (v_umask s)))) s
      (\<lambda>_ s'. Q (parent_inode (v_tree s') p) s') (vfs_inv {})"
    if *: "missing" "flag_create flags" "ensure_parent_dir (v_tree s) p = Ok ()"
  proof -
    have "after (lift_tree (st_bind allocate_inode_id (\<lambda>i. insert_path_node p (?node i)))) s
        (\<lambda>_ s'. Q (parent_inode (v_tree s') p) s') (vfs_inv {})"
      using *(2)
      by (intro create_node [OF inv *(3) missing [OF *(1)] room])
        (auto simp: attr_is_directory_def mode_defs intro!: new_node_ok Q(2), simp add: bare_node_def)
    then show ?thesis
      using create_resolved_file_eq [OF *(3)] by (simp add: lift_tree_def)
  qed
  then show ?thesis
    using inv Q(1) [OF inv] by (auto simp: open_create_def after_simps)
qed

lemma truncate_fresh:
  assumes "lookup_path (v_tree s) p = Some n" "pn_kind n = NFile" "pn_deferred_host_path n = None"
  shows "fst (lift_tree_fds (at_path p node_truncate) s) = Ok ()"
  using assms
  by (auto simp: lookup_path_Some lift_tree_fds_def at_path_def at_inode_def lookup_inode_def store_os_call_def node_truncate_def
      node_set_len_def st_bind_def materialize_deferred_content_def)

text \<open>The second half: the file is truncated, gets a descriptor, and what is out of date is invalidated.\<close>

lemma after_open_finish:
  assumes inv: "vfs_inv S s" and S: "S \<subseteq> set_option created \<union> set_option truncated" and room: "fd_room s"
    and p: "lookup_path (v_tree s) p \<noteq> None"
  shows "after (open_finish p flags created truncated) s (\<lambda>_. vfs_inv {}) R"
proof -
  let ?tail = "\<lambda>fd :: int. st_bind (invalidate_opt created) (\<lambda>_. st_bind (invalidate_opt truncated) (\<lambda>_. st_ok fd))"
  have tail: "after (?tail fd) s' (\<lambda>_. vfs_inv {}) R" if "vfs_inv S s'" for s' and fd :: int
    unfolding after_bind
    by (rule after_invalidate_opt [where S = "set_option truncated"])
      (auto simp: after_simps intro!: vfs_inv_mono [OF that] S after_invalidate_opt [where S = "{}"])
  have "after (lift_fds (insert_open f flags (Some p))) s (\<lambda>fd s'. after (?tail fd) s' (\<lambda>_. vfs_inv {}) R) R" for f
  proof (rule ends_no_err)
    show "after (lift_fds (insert_open f flags (Some p))) s (\<lambda>fd s'. after (?tail fd) s' (\<lambda>_. vfs_inv {}) R) (\<lambda>_. True)"
      by (rule after_lift_fds) (use tail inv in auto)
    obtain fd where "next_fd_from (v_fds s) FIRST_ALLOC_FD = Ok fd"
      using room by (auto simp: fd_room_def)
    then show "fst (lift_fds (insert_open f flags (Some p)) s) \<noteq> Err e" for e
      using insert_open_Ok [of "v_fds s" fd f flags "Some p" "v_store s"] by (auto simp: lift_fds_def split: prod.splits)
  qed
  then show ?thesis
    using p by (auto simp: open_finish_def after_bind [of "ask _"] after_ask after_bind [of "lift_fds _"])
qed

lemma after_open_truncate:
  assumes s: "vfs_inv (set_option created) s" "fd_room s" and n: "lookup_path (v_tree s) p = Some n"
    and fresh: "created \<noteq> None \<Longrightarrow> pn_kind n = NFile \<and> pn_deferred_host_path n = None"
  shows "after (st_bind (lift_tree_fds (at_path p node_truncate)) (\<lambda>_. open_finish p flags created (Some (pn_inode_id n)))) s
    (\<lambda>_. vfs_inv {}) (vfs_inv {})"
proof -
  have ok: "tree_ok (v_tree s)"
    using s(1) by (simp add: vfs_inv_def)
  have "after (lift_tree_fds (at_path p node_truncate)) s
      (\<lambda>_ s'. after (open_finish p flags created (Some (pn_inode_id n))) s' (\<lambda>_. vfs_inv {}) (vfs_inv {}))
      (vfs_inv (set_option created))"
  proof (rule after_at_path [OF s(1) node_step_truncate])
    fix x s' j
    assume j: "names (v_tree s) p = Some j" and s': "vfs_inv (insert j (set_option created)) s'"
      "pt_nodes (v_tree s') = pt_nodes (v_tree s)" "v_fds s' = v_fds s"
    have "j = pn_inode_id n"
      using lookup_path_id [OF ok n] j by simp
    moreover have "lookup_path (v_tree s') p \<noteq> None"
      using lookup_path_None [of "v_tree s'" p] s'(1,2) j by (simp add: vfs_inv_def)
    ultimately show "after (open_finish p flags created (Some (pn_inode_id n))) s' (\<lambda>_. vfs_inv {}) (vfs_inv {})"
      using s' s(2) by (intro after_open_finish [OF s'(1)]) (auto simp: fd_room_def)
  qed auto
  then have "after (lift_tree_fds (at_path p node_truncate)) s
      (\<lambda>_ s'. after (open_finish p flags created (Some (pn_inode_id n))) s' (\<lambda>_. vfs_inv {}) (vfs_inv {})) (vfs_inv {})"
    using truncate_fresh [OF n] fresh by (cases created) (auto intro: ends_no_err)
  then show ?thesis
    by (simp add: after_bind)
qed

lemma after_open_existing:
  assumes s: "vfs_inv (set_option created) s" "fd_room s" and flags: "\<not> (flag_create flags \<and> flag_directory flags)"
    and fresh: "created \<noteq> None \<Longrightarrow> \<exists>n. lookup_path (v_tree s) p = Some n \<and> pn_kind n = NFile \<and> pn_deferred_host_path n = None
      \<and> kind_bits (pn_attr n) = S_IFREG \<and> flag_create flags"
  shows "after (open_existing p flags created) s (\<lambda>_. vfs_inv {}) (vfs_inv {})"
proof (cases "lookup_path (v_tree s) p")
  case None
  then show ?thesis
    using s(1) fresh by (cases created) (auto simp: open_existing_def after_simps)
next
  case (Some n)
  have checks: "open_node_checks flags True n = Ok ()" if "created \<noteq> None"
    using fresh [OF that] Some flags
    by (auto simp: open_node_checks_def attr_is_directory_def attr_is_symlink_def mode_defs)
  have "after (open_finish p flags created None) s (\<lambda>_. vfs_inv {}) (vfs_inv {})"
    by (rule after_open_finish [OF s(1) _ s(2)]) (simp_all add: Some)
  moreover have "created \<noteq> None \<Longrightarrow> pn_kind n = NFile \<and> pn_deferred_host_path n = None"
    using fresh Some by auto
  note after_open_truncate [OF s Some this, of flags]
  ultimately show ?thesis
    using s(1) Some checks by (cases created) (auto simp: open_existing_def after_simps)
qed

lemma openat_keeps:
  assumes inv: "vfs_inv {} s" and room: "pt_next_inode_id (v_tree s) < PROC_INODE_ID" "fd_room s"
    and flags: "\<not> (flag_create flags \<and> flag_directory flags)"
  shows "keeps (openat dirfd path flags mode) s"
proof -
  have "after (open_create p missing flags mode) s
      (\<lambda>created s'. after (open_existing p flags created) s' (\<lambda>_. vfs_inv {}) (vfs_inv {})) (vfs_inv {})"
    if "missing \<Longrightarrow> lookup_path (v_tree s) p = None" for p missing
  proof (rule after_open_create [OF inv room(1)])
    show "lookup_path (v_tree s) p = None" if "missing"
      using that \<open>missing \<Longrightarrow> lookup_path (v_tree s) p = None\<close> by blast
  qed (use room(2) flags in \<open>auto simp: fd_room_def intro!: after_open_existing\<close>)
  then show ?thesis
    using inv by (auto simp: keeps_def openat_def after_bind after_ask dest: resolve_at_inode)
qed

lemma close_keeps:
  assumes inv: "vfs_inv {} s"
  shows "keeps (close_with_file fd) s"
  unfolding keeps_def close_with_file_def after_bind
proof (rule after_lift_fds)
  fix f t h
  let ?s = "s\<lparr>v_fds := t, v_store := h\<rparr>" and ?i = "in_id (fr_inode f)"
  have "vfs_inv {?i} (?s\<lparr>v_tree := forget_inode ?i (v_tree s)\<rparr>)" if "tree_link_count (v_tree s) ?i = 0"
    using that inv forget_inode_ok [of "v_tree s" ?i]
      coherent_forget [OF coherent_mono [of "{}" "v_cache s" "v_tree s" "{?i}"], of ?i]
    by (auto simp: vfs_inv_def fresh_ids_def forget_inode_def bt_get_remove)
  from after_invalidate_inode [where S = "{}", OF this]
  show "ends (let i = ?i in
      if lookup_inode (v_tree ?s) i \<noteq> None \<and> tree_link_count (v_tree ?s) i = 0 then
        st_bind (st_modify (\<lambda>s. s\<lparr>v_tree := (v_tree s)\<lparr>pt_inodes := bt_remove i (pt_inodes (v_tree s))\<rparr>\<rparr>)) (\<lambda>_.
        st_bind (invalidate_inode_cache i) (\<lambda>_. st_ok f)) ?s
      else (Ok f, ?s)) (\<lambda>_. vfs_inv {}) (vfs_inv {})"
    using inv by (auto simp: Let_def after_simps forget_inode_def)
qed (use inv in simp)

subsection \<open>Reading\<close>

lemma after_small_read:
  assumes inv: "vfs_inv {} s"
    and Q: "\<And>r s'. vfs_inv {} s' \<Longrightarrow> v_tree s' = v_tree s \<Longrightarrow> v_store s' = v_store s \<Longrightarrow> v_fds s' = v_fds s \<Longrightarrow>
      (\<And>data. r = Some data \<Longrightarrow> len \<noteq> 0 \<Longrightarrow>
        \<exists>n. inodes (v_tree s) (fe_inode_id e) = Some n \<and> pn_deferred_host_path n = None \<and> data = take len (drop offset (pn_data n))) \<Longrightarrow>
      Q r s'"
  shows "after (cached_small_read_for_entry e offset len) s Q (vfs_inv {})"
proof -
  have "after (st_bind (cached_small_read_data (fe_inode_id e) (pn_data n)) (\<lambda>data. st_ok (Some (take len (drop offset data))))) s Q (vfs_inv {})"
    if "inodes (v_tree s) (fe_inode_id e) = Some n" "pn_deferred_host_path n = None" for n
    unfolding after_bind by (rule after_cached_small_read_data [OF inv that]) (use that in \<open>auto simp: after_simps intro!: Q\<close>)
  then show ?thesis
    using inv Q [OF inv, of None] Q [OF inv, of "Some []"]
    by (auto simp: cached_small_read_for_entry_def after_simps lookup_inode_def result_simps)
qed

lemma after_host_handle:
  assumes inv: "vfs_inv {} s" and Q: "\<And>h s'. vfs_inv {} s' \<Longrightarrow> v_fds s' = v_fds s \<Longrightarrow> Q h s'"
  shows "after (cached_host_read_handle j path) s Q (vfs_inv {})"
proof -
  obtain r c h where run: "host_read_handle j path (v_cache s, v_store s) = (r, c, h)"
    by (cases "host_read_handle j path (v_cache s, v_store s)")
  have "coherent {} c (v_tree s)"
    using run inv
    by (auto simp: host_read_handle_def vfs_inv_def touch_host_read_lru_def evict_host_read_handles_def
        split: option.splits prod.splits result.splits)
  then have "vfs_inv {} (s\<lparr>v_cache := c, v_store := h\<rparr>)"
    using inv by (simp add: vfs_inv_def)
  then show ?thesis
    using Q run by (cases r) (simp_all add: cached_host_read_handle_def)
qed

lemma after_read_regular_inode:
  assumes inv: "vfs_inv {} s" and Q: "\<And>d s'. vfs_inv {} s' \<Longrightarrow> v_fds s' = v_fds s \<Longrightarrow> Q d s'"
  shows "after (read_regular_inode_at i offset len) s Q (vfs_inv {})"
proof -
  have "after (in_vfs_store f) s' Q (vfs_inv {})" if "vfs_inv {} s'" "v_fds s' = v_fds s" for s' f
    by (rule after_in_vfs_store) (use that Q in simp_all)
  then show ?thesis
    using inv by (auto simp: read_regular_inode_at_def after_simps intro!: after_host_handle split: option.splits)
qed

lemma after_advance:
  "vfs_inv {} s \<Longrightarrow> (\<And>s'. vfs_inv {} s' \<Longrightarrow> Q () s') \<Longrightarrow> after (advance_offset e offset count) s Q (vfs_inv {})"
  by (simp add: advance_offset_def after_simps)

lemma small_cache_keeps:
  assumes inv: "vfs_inv {} s" and Q: "\<And>r s'. vfs_inv {} s' \<Longrightarrow> Q r s'"
  shows "after (read_from_small_cache fd len) s Q (vfs_inv {})"
  using inv Q
  by (auto simp: read_from_small_cache_def vfs_entry_def after_simps Let_def intro!: after_small_read after_advance
      split: option.splits)

lemma read_keeps:
  assumes inv: "vfs_inv {} s"
  shows "keeps (vfs_read fd len) s"
  unfolding keeps_def vfs_read_def after_bind
proof (rule small_cache_keeps [OF inv])
  fix r s'
  assume s': "vfs_inv {} s'"
  have "after (lift_fds f) s' (\<lambda>_. vfs_inv {}) (vfs_inv {})" for f :: "u8 list fd_op"
    using keeps_lift_fds [OF s'] by (simp add: keeps_def)
  then show "after (case r of Some data \<Rightarrow> st_ok data
      | None \<Rightarrow> st_bind (regular_read_request fd) (\<lambda>request.
          (case request of
             None \<Rightarrow> (\<lambda>s. lift_fds (fd_read (v_tree s) (v_proc_self s) fd len) s)
           | Some (i, offset) \<Rightarrow>
               st_bind (read_regular_inode_at i offset len) (\<lambda>data.
               st_bind (vfs_entry fd) (\<lambda>e.
               st_bind (advance_offset e offset (length data)) (\<lambda>_.
               st_ok data)))))) s' (\<lambda>_. vfs_inv {}) (vfs_inv {})"
    using s'
    by (auto simp: regular_read_request_def vfs_entry_def after_simps intro!: after_read_regular_inode after_advance
        split: option.splits)
qed

lemma readv_keeps: "vfs_inv {} s \<Longrightarrow> keeps (readv_regular fd buffers) s"
  by (auto simp: keeps_def readv_regular_def regular_read_request_def vfs_entry_def after_simps
      intro!: after_read_regular_inode after_advance split: option.splits)

lemma pread_keeps:
  assumes inv: "vfs_inv {} s"
  shows "keeps (vfs_pread fd offset len) s"
proof -
  have fds: "after (lift_fds f) s' (\<lambda>_. vfs_inv {}) (vfs_inv {})" if "vfs_inv {} s'" for f :: "u8 list fd_op" and s'
    using keeps_lift_fds [OF that] by (simp add: keeps_def)
  show ?thesis
    using inv
    by (auto simp: keeps_def vfs_pread_def cached_small_read_at_def regular_read_request_def vfs_entry_def after_simps
        intro!: after_small_read after_read_regular_inode fds split: option.splits)
qed

subsection \<open>Writing\<close>

lemma node_write_at_count: "node_write_at files offset data n = (Ok c, n') \<Longrightarrow> c = length data"
  by (auto simp: node_write_at_def st_bind_def st_lift_def st_modify_def st_ok_def Let_def
      split: if_splits prod.splits result.splits)

lemma at_inode_Ok: "lift_tree_fds (at_inode i f) s = (Ok x, s') \<Longrightarrow> \<exists>files n n'. f files n = (Ok x, n')"
  by (auto simp: lift_tree_fds_def at_inode_def store_os_call_def split: option.splits prod.splits)

text \<open>A write of at least one byte, through any of the three entry points.\<close>

lemma after_write_node:
  assumes inv: "vfs_inv {} s"
  shows "after (lift_tree_fds (at_inode i (\<lambda>files. node_write_at files offset data))) s
    (\<lambda>count s'. count = length data \<and> vfs_inv {i} s') (vfs_inv {})"
proof (rule ends_value)
  show "after (lift_tree_fds (at_inode i (\<lambda>files. node_write_at files offset data))) s (\<lambda>_. vfs_inv {i}) (vfs_inv {})"
    by (rule after_at_inode [OF inv node_step_write_at]) simp_all
qed (blast dest: at_inode_Ok node_write_at_count)

lemma after_invalidate_written:
  assumes "count = length data \<and> vfs_inv {i} s" "data \<noteq> []" "\<And>s'. vfs_inv {} s' \<Longrightarrow> Q () s'"
  shows "after (invalidate_written (Some i) count) s Q R"
  using assms after_invalidate_opt [where i = "Some i" and S = "{}", of s Q R] by (simp add: invalidate_written_def)

lemma lift_tree_fds_bind:
  "lift_tree_fds (st_bind m k) s = st_bind (lift_tree_fds m) (\<lambda>x. lift_tree_fds (k x)) s"
  by (auto simp: lift_tree_fds_def st_bind_def split: prod.splits result.splits)

lemma after_write_file:
  assumes inv: "vfs_inv {} s"
  shows "after (lift_tree_fds (write_file_entry e data)) s
    (\<lambda>count s'. count = length data \<and> vfs_inv {fe_inode_id e} s') (vfs_inv {})"
proof -
  define offset where "offset = write_offset e (v_tree s, v_fds s, v_store s)"
  let ?k = "\<lambda>count. st_bind (st_modify (\<lambda>s. (fst s, on_store (set_offset e (offset + count)) (snd s)))) (\<lambda>_. st_ok count)"
  have "lift_tree_fds (write_file_entry e data) s = lift_tree_fds (st_bind (at_inode (fe_inode_id e)
      (\<lambda>files. node_write_at files offset data)) ?k) s"
    by (simp add: lift_tree_fds_def write_file_entry_def Let_def offset_def)
  moreover have "after (lift_tree_fds (?k count)) s' Q R" if "\<And>h. Q count (s'\<lparr>v_store := h\<rparr>)" for count s' Q R
    using that by (simp add: lift_tree_fds_def st_bind_def st_modify_def st_ok_def on_store_def)
  ultimately show ?thesis
    unfolding lift_tree_fds_bind by (auto simp: after_bind intro!: ends_mono [OF after_write_node [OF inv]])
qed

lemma keeps_tree_fds: "vfs_inv {} s \<Longrightarrow> after (lift_tree_fds (on_tree_fds f)) s (\<lambda>_. vfs_inv {}) (vfs_inv {})"
  by (auto simp: lift_tree_fds_def on_tree_fds_def vfs_inv_def ends_def split: prod.splits result.splits)

lemma after_write_entry:
  assumes "vfs_inv {} s" "kind \<noteq> FRegular"
  shows "after (lift_tree_fds (write_entry e kind data)) s (\<lambda>_. vfs_inv {}) (vfs_inv {})"
  using assms keeps_tree_fds [OF assms(1)]
  by (cases "(e, kind, data)" rule: write_entry.cases) (auto simp: lift_tree_fds_def st_err_def)

lemma write_keeps:
  assumes inv: "vfs_inv {} s" and data: "data \<noteq> []"
  shows "keeps (vfs_write fd data) s"
proof (cases "fd_lookup (v_fds s) fd")
  case (Ok e)
  show ?thesis
  proof (cases "can_write (entry_flags e (v_store s))")
    case True
    have run: "lift_tree_fds (fd_write fd data) s = lift_tree_fds (write_entry e (fe_kind e) data) s"
      using Ok True by (simp add: lift_tree_fds_def fd_write_def with_tree_entry_def st_bind_def st_lift_def)
    show ?thesis
    proof (cases "fe_kind e = FRegular")
      case True
      then show ?thesis
        using Ok run data
        by (auto simp: keeps_def vfs_write_def Let_def after_simps
            intro!: ends_mono [OF after_write_file [OF inv]] after_invalidate_written)
    next
      case False
      then show ?thesis
        using Ok run
        by (auto simp: keeps_def vfs_write_def Let_def after_simps invalidate_written_def invalidate_opt_def
            intro!: ends_mono [OF after_write_entry [OF inv False]])
    qed
  next
    case False
    then show ?thesis
      using Ok inv
      by (simp add: keeps_def vfs_write_def lift_tree_fds_def fd_write_def with_tree_entry_def after_simps st_bind_def st_lift_def)
  qed
qed (use inv in \<open>simp_all add: keeps_def vfs_write_def lift_tree_fds_def fd_write_def with_tree_entry_def st_bind_def st_lift_def\<close>)

lemma pwrite_keeps:
  "vfs_inv {} s \<Longrightarrow> data \<noteq> [] \<Longrightarrow> keeps (vfs_pwrite fd offset data) s"
  by (auto simp: keeps_def vfs_pwrite_def vfs_entry_def after_simps
      intro!: ends_mono [OF after_write_node] after_invalidate_written)

lemma vectored_len_Ok: "vectored_len ls = Ok n \<Longrightarrow> n = sum_list ls"
proof -
  have "fold (\<lambda>len total. and_then total (\<lambda>n. if U64_MAX_NAT < n + len then Err InvalidPath else Ok (n + len))) ls r = Ok n \<Longrightarrow>
      \<exists>k. r = Ok k \<and> n = k + sum_list ls" for r :: "nat vfs_result"
    by (induction ls arbitrary: r) (fastforce simp: result_simps split: if_splits)+
  then show "vectored_len ls = Ok n \<Longrightarrow> n = sum_list ls"
    by (fastforce simp: vectored_len_def)
qed

lemma concat_Nil_sum: "concat bs = [] \<Longrightarrow> sum_list (map length bs) = 0"
  by (metis length_concat list.size(3))

lemma writev_keeps: "vfs_inv {} s \<Longrightarrow> keeps (writev_regular fd buffers) s"
  by (auto simp: keeps_def writev_regular_def vfs_entry_def after_simps simp del: concat_eq_Nil_conv
      dest!: vectored_len_Ok concat_Nil_sum intro!: ends_mono [OF after_write_file] after_invalidate_written)

lemma ftruncate_keeps: "vfs_inv {} s \<Longrightarrow> keeps (ftruncate fd len) s"
  by (auto simp: keeps_def ftruncate_def vfs_entry_def after_simps
      intro!: after_at_inode node_step_set_len after_invalidate_inode [where S = "{}"])

lemma fallocate_keeps: "vfs_inv {} s \<Longrightarrow> keeps (fallocate fd offset len) s"
  by (auto simp: keeps_def fallocate_def vfs_entry_def after_simps
      intro!: after_at_inode node_step_set_len after_invalidate_inode [where S = "{}"])

subsection \<open>Attributes\<close>

lemma after_fstat:
  assumes inv: "vfs_inv {} s"
    and Q: "\<And>e a s'. fd_lookup (v_fds s) fd = Ok e \<Longrightarrow> vfs_inv {} s' \<Longrightarrow>
      (\<not> is_anonymous_kind (fe_kind e) \<Longrightarrow> (\<forall>n. inodes (v_tree s) (fe_inode_id e) = Some n \<longrightarrow> a = pn_attr n)) \<Longrightarrow> Q a s'"
  shows "after (fstat fd) s Q (vfs_inv {})"
proof -
  have "after (cached_metadata n) s Q (vfs_inv {})" if "fd_lookup (v_fds s) fd = Ok e" "inodes (v_tree s) (fe_inode_id e) = Some n" for e n
  proof -
    have "pn_inode_id n = fe_inode_id e"
      using inodes_node_ok [OF _ that(2)] inv by (simp add: vfs_inv_def node_ok_def)
    then show ?thesis
      using that by (intro after_cached_metadata [OF inv]) (auto intro: Q)
  qed
  moreover have "Q a s" if "fd_lookup (v_fds s) fd = Ok e" "is_anonymous_kind (fe_kind e) \<or> inodes (v_tree s) (fe_inode_id e) = None" for e a
    using that by (intro Q [OF _ inv]) auto
  ultimately show ?thesis
    using inv by (auto simp: fstat_def vfs_entry_def after_simps lookup_inode_def split: option.splits)
qed

lemma after_stat_path:
  assumes inv: "vfs_inv {} s"
    and Q: "\<And>a s'. vfs_inv {} s' \<Longrightarrow>
      (proc_self_fd_path_fd p = None \<Longrightarrow> \<exists>n. lookup_path (v_tree s) p = Some n \<and> a = pn_attr n) \<Longrightarrow> Q a s'"
  shows "after (stat_path p) s Q (vfs_inv {})"
proof (cases "proc_self_fd_path_fd p")
  case None
  have "after (cached_metadata n) s Q (vfs_inv {})" if n: "lookup_path (v_tree s) p = Some n" for n
  proof (rule after_cached_metadata [OF inv])
    have "tree_ok (v_tree s)"
      using inv by (simp add: vfs_inv_def)
    then show "inodes (v_tree s) (pn_inode_id n) = Some n"
      using n lookup_path_id [of "v_tree s" p n] by (auto simp: lookup_path_Some)
  qed (use n in \<open>auto intro: Q\<close>)
  then show ?thesis
    using None inv by (auto simp: stat_path_def after_simps ok_or_Ok)
next
  case (Some fd)
  then show ?thesis
    using inv Q [OF inv] by (auto simp: stat_path_def after_simps)
qed

lemma stat_keeps:
  assumes inv: "vfs_inv {} s"
  shows "keeps (fstat fd) s" "keeps (newfstatat fd path flags) s" "keeps (vfs_access path m) s" "keeps (faccessat2 fd path m flags) s"
proof -
  have f: "after (fstat fd) s Q (vfs_inv {})" if "\<And>a s'. vfs_inv {} s' \<Longrightarrow> Q a s'" for Q
    using after_fstat [OF inv] that by blast
  have p: "after (stat_path q) s Q (vfs_inv {})" if "\<And>a s'. vfs_inv {} s' \<Longrightarrow> Q a s'" for Q q
    using after_stat_path [OF inv] that by blast
  show "keeps (fstat fd) s" "keeps (newfstatat fd path flags) s" "keeps (vfs_access path m) s" "keeps (faccessat2 fd path m flags) s"
    using inv
    by (auto simp: keeps_def newfstatat_def vfs_access_def faccessat2_def after_simps intro!: f p)
qed

lemma update_attr_keeps:
  assumes inv: "vfs_inv {} s" and f: "node_step (\<lambda>_ n. (Ok (), n\<lparr>pn_attr := f (pn_attr n)\<rparr>))"
  shows "keeps (update_attr_at path f) s"
proof -
  have "after (lift_tree_fds (at_path p (\<lambda>_ n. (Ok (), n\<lparr>pn_attr := f (pn_attr n)\<rparr>)))) s
      (\<lambda>_ s'. after (invalidate_inode_cache (pn_inode_id n)) s' (\<lambda>_. vfs_inv {}) (vfs_inv {})) (vfs_inv {})"
    if n: "lookup_path (v_tree s) p = Some n" for p n
    using lookup_path_id [OF _ n] inv
    by (intro after_at_path [OF inv f]) (auto simp: vfs_inv_def [of "{}" s] intro!: after_invalidate_inode [where S = "{}"])
  then show ?thesis
    using inv by (auto simp: keeps_def update_attr_at_def after_simps ok_or_Ok)
qed

lemma chmod_keeps: "vfs_inv {} s \<Longrightarrow> keeps (chmod path mode) s" and chown_keeps: "vfs_inv {} s \<Longrightarrow> keeps (chown path u g) s"
  unfolding chmod_def chown_def by (rule update_attr_keeps, assumption, rule node_step_attr, simp_all)+

lemma utimensat_keeps: "vfs_inv {} s \<Longrightarrow> keeps (utimensat dirfd path ts flags) s"
  by (auto simp: keeps_def utimensat_def vfs_entry_def after_simps
      intro!: after_at_inode node_step_attr after_invalidate_inode [where S = "{}"])

lemma getdents_keeps:
  assumes inv: "vfs_inv {} s"
  shows "keeps (vfs_getdents64 fd max_bytes) s"
proof -
  have fds: "after (lift_fds f) s' (\<lambda>_. vfs_inv {}) (vfs_inv {})" if "vfs_inv {} s'" for f :: "directory_entry list fd_op" and s'
    using keeps_lift_fds [OF that] by (simp add: keeps_def)
  have "names (v_tree s) (ls_path src) = Some (ls_inode src)"
    if "directory_listing_source (v_tree s) (v_fds s) fd = Ok src" for src
    using that inv lookup_path_id [of "v_tree s"]
    by (auto simp: directory_listing_source_def result_simps vfs_inv_def split: if_splits)
  then show ?thesis
    using inv by (auto simp: keeps_def vfs_getdents64_def after_simps intro!: after_cached_directory_entries fds)
qed

lemma map_keeps: "vfs_inv {} s \<Longrightarrow> keeps (map_readonly_regular_file_at fd offset len) s"
  by (auto simp: keeps_def map_readonly_regular_file_at_def vfs_entry_def after_simps Let_def
      intro!: after_host_handle after_in_vfs_store split: option.splits)

lemma readlinkat_keeps: "vfs_inv {} s \<Longrightarrow> keeps (readlinkat dirfd path len) s"
proof -
  have "after (readlink_resolved p len) s (\<lambda>_. vfs_inv {}) (vfs_inv {})" if "vfs_inv {} s" for p
    using that by (simp add: readlink_resolved_def after_simps)
  then show "vfs_inv {} s \<Longrightarrow> keeps (readlinkat dirfd path len) s"
    by (auto simp: keeps_def readlinkat_def vfs_entry_def after_simps)
qed

lemma set_proc_self_keeps: "vfs_inv {} s \<Longrightarrow> keeps (set_proc_self ps) s"
  by (simp add: keeps_def set_proc_self_def after_simps vfs_inv_def invalidate_proc_coherent)

text \<open>The calls that touch descriptors and process attributes only.\<close>

lemma fcntl_keeps:
  assumes "vfs_inv {} s"
  shows "keeps (fcntl fd cmd arg) s"
proof -
  have fds: "after (lift_fds f) s (\<lambda>_. vfs_inv {}) (vfs_inv {})" for f :: "'a fd_op"
    using assms by (intro after_lift_fds) simp_all
  show ?thesis
    using assms by (simp add: keeps_def fcntl_def fcntl_dup_def vfs_entry_def after_simps fds)
qed

lemma descriptor_keeps:
  assumes "vfs_inv {} s"
  shows "keeps (set_umask m) s" "keeps (lseek fd offset whence) s" "keeps (ioctl fd request) s"
    "keeps (vfs_dup3 oldfd newfd flags) s"
  using assms keeps_lift_fds [OF assms]
  by (auto simp: keeps_def set_umask_def lseek_def ioctl_def vfs_dup3_def vfs_entry_def after_simps)

lemma chdir_keeps: "vfs_inv {} s \<Longrightarrow> keeps (chdir path) s"
  by (auto simp: keeps_def chdir_def after_simps set_cwd_def)

end
