(* ===== verification/Vfs_Boot.thy ===== *)
theory Vfs_Boot
  imports Vfs_Calls
begin

text \<open>
  Building a tree (\<open>PathTree::new\<close>, the \<open>create_*\<close> methods and the two mounts of \<open>path.rs\<close>): whatever an image
  loader creates, the tree it hands to the virtual file system satisfies the invariant.
\<close>

section \<open>The empty tree\<close>

definition tree_good :: "path_tree \<Rightarrow> bool" where
  "tree_good t \<longleftrightarrow> tree_ok t \<and> fresh_ids t"

lemma node_directory_ok: "node_ok i (node_directory i)" "node_is_directory (node_directory i)"
  by (simp_all add: node_ok_def node_directory_def bare_node_def node_is_directory_def attr_directory_def attr_new_def
      attr_is_directory_def kind_bits_def mode_defs)

lemma tree_new_good: "tree_good tree_new"
proof -
  have maps: "names tree_new = [[] \<mapsto> ROOT_INODE_ID]" "inodes tree_new = [ROOT_INODE_ID \<mapsto> node_directory ROOT_INODE_ID]"
    "child_of tree_new = (\<lambda>_ _. None)" "pt_next_inode_id tree_new = ROOT_INODE_ID + 1"
    by (auto simp: tree_new_def bt_get_insert child_of_def fun_eq_iff)
  show ?thesis
    by (auto simp: tree_good_def tree_ok_def fresh_ids_def maps tree_inv_def dir_at_def node_directory_ok
        split: if_splits)
qed

section \<open>Creating\<close>

text \<open>What creating leaves: a good tree in which the fixed nodes are as before.\<close>

definition grown :: "path_tree \<Rightarrow> path_tree \<Rightarrow> bool" where
  "grown t t' \<longleftrightarrow> tree_good t' \<and> (\<forall>i \<ge> PROC_INODE_ID. inodes t' i = inodes t i)"

lemma grown_refl [simp]: "grown t t = tree_good t"
  by (simp add: grown_def)

lemma insert_path_node_good:
  assumes "tree_good t" "ensure_parent_dir t p = Ok u" "lookup_path t p = None" "inodes t (pn_inode_id n) = None"
    "node_ok (pn_inode_id n) n" "\<not> node_is_directory n \<longrightarrow> fa_nlink (pn_attr n) = 1"
    "pn_inode_id n < pt_next_inode_id t \<or> PROC_INODE_ID \<le> pn_inode_id n"
  shows "tree_good (snd (insert_path_node p n t))" "inodes (snd (insert_path_node p n t)) = (inodes t)(pn_inode_id n \<mapsto> n)"
  using assms insert_path_node_ok [of t p u n] by (auto simp: tree_good_def fresh_ids_def)

lemma create_node_good:
  assumes good: "tree_good t" and room: "pt_next_inode_id t < PROC_INODE_ID"
    and p: "ensure_parent_dir t p = Ok u" "lookup_path t p = None"
    and node: "\<And>i. node_ok i (node i)" "\<And>i. \<not> node_is_directory (node i) \<Longrightarrow> fa_nlink (pn_attr (node i)) = 1"
  shows "after (st_bind allocate_inode_id (\<lambda>i. insert_path_node p (node i))) t (\<lambda>_. grown t) (grown t)"
proof -
  let ?i = "pt_next_inode_id t"
  define t' where "t' = t\<lparr>pt_next_inode_id := ?i + 1\<rparr>"
  have same: "names t' = names t" "inodes t' = inodes t" "child_of t' = child_of t" "lookup_path t' = lookup_path t"
    by (simp_all add: t'_def lookup_path_def fun_eq_iff)
  have "tree_good t'"
    using good same by (auto simp: tree_good_def tree_ok_def fresh_ids_def t'_def less_Suc_eq)
  moreover have "inodes t ?i = None"
    using good room unfolding tree_good_def fresh_ids_def by (metis less_irrefl linorder_not_less option.distinct(1))
  moreover have "ensure_parent_dir t' p = Ok u" "pn_inode_id (node ?i) = ?i"
    using p(1) same node(1) [of ?i] by (auto simp: ensure_parent_dir_Ok node_ok_def)
  ultimately have "grown t (snd (insert_path_node p (node ?i) t'))" "fst (insert_path_node p (node ?i) t') = Ok ()"
    using insert_path_node_good [of t' p u "node ?i"] insert_path_node_ok [of t' p u "node ?i"] p(2) same node room
    by (auto simp: t'_def tree_good_def grown_def)
  then show ?thesis
    using good
    by (cases "insert_path_node p (node ?i) t'") (auto simp: after_bind allocate_inode_id_def t'_def)
qed

lemma after_at_new_path:
  assumes "tree_good t"
    "\<And>p. ensure_parent_dir t p = Ok () \<Longrightarrow> after (f p) t (\<lambda>_. grown t) (grown t)"
  shows "after (at_new_path path f) t (\<lambda>_. grown t) (grown t)"
  using assms by (auto simp: at_new_path_def after_simps)

lemma attr_device_simps [simp]:
  "fa_inode (attr_character_device i mode) = i" "fa_nlink (attr_character_device i mode) = 1"
  using kind_bits_new(4) [of i mode] by (simp_all add: attr_character_device_def attr_new_def kind_bits_def mode_defs)

lemma kind_attr_ok:
  "node_ok i (bare_node i kind (kind_attr kind i mode))"
  "\<not> node_is_directory (bare_node i kind (kind_attr kind i mode)) \<Longrightarrow> fa_nlink (kind_attr kind i mode) = 1"
proof -
  have dirs: "is_directory_kind (NProc k) = attr_is_directory (proc_attr k i mode)" for k
    by (cases k) (simp_all add: attr_is_directory_def mode_defs)
  have ids: "fa_inode (proc_attr k i mode) = i" "\<not> is_directory_kind (NProc k) \<Longrightarrow> fa_nlink (proc_attr k i mode) = 1" for k
    by (cases k; simp)+
  show "node_ok i (bare_node i kind (kind_attr kind i mode))"
    by (cases kind) (simp_all add: new_node_ok dirs ids attr_is_directory_def [of "attr_directory _ _"]
        attr_is_directory_def [of "attr_regular _ _ _"] attr_is_directory_def [of "attr_symlink _ _"]
        attr_is_directory_def [of "attr_character_device _ _"] mode_defs)
  show "\<not> node_is_directory (bare_node i kind (kind_attr kind i mode)) \<Longrightarrow> fa_nlink (kind_attr kind i mode) = 1"
    by (cases kind) (simp_all add: ids node_is_directory_def bare_node_def)
qed

lemma insert_node_good:
  assumes "tree_good t" "pt_next_inode_id t < PROC_INODE_ID" "ensure_parent_dir t p = Ok u"
  shows "after (insert_node p kind mode) t (\<lambda>_. grown t) (grown t)"
proof (cases "bt_contains (pt_nodes t) p")
  case False
  then have "lookup_path t p = None"
    using assms(1) by (simp add: tree_good_def lookup_path_None bt_contains_def)
  then show ?thesis
    using create_node_good [OF assms, of "\<lambda>i. bare_node i kind (kind_attr kind i mode)"] False kind_attr_ok
    by (simp add: insert_node_def after_simps)
qed (use assms in \<open>simp add: insert_node_def\<close>)

lemma bare_regular_ok:
  "node_ok i ((bare_node i NFile (attr_regular i mode sz))\<lparr>pn_data := d\<rparr>)"
  "node_ok i ((bare_node i NFile (attr_regular i mode sz))\<lparr>pn_deferred_host_path := h\<rparr>)"
  using new_node_ok [of NFile "attr_regular i mode sz" i]
  by (simp_all add: node_ok_def node_is_directory_def attr_is_directory_def mode_defs bare_node_def)

lemma create_good:
  assumes "tree_good t" "pt_next_inode_id t < PROC_INODE_ID"
  shows "after (create_dir path) t (\<lambda>_. grown t) (grown t)" "after (create_file path) t (\<lambda>_. grown t) (grown t)"
    "after (create_symlink path target) t (\<lambda>_. grown t) (grown t)"
    "after (create_dir_if_missing path) t (\<lambda>_. grown t) (grown t)"
  using assms
  by (auto simp: create_dir_def create_file_def create_symlink_def create_dir_if_missing_def after_simps
      intro!: after_at_new_path insert_node_good split: option.splits)

lemma create_file_good:
  assumes "tree_good t" "pt_next_inode_id t < PROC_INODE_ID"
    "\<And>i. node_ok i (node i)" "\<And>i. \<not> node_is_directory (node i) \<Longrightarrow> fa_nlink (pn_attr (node i)) = 1"
  shows "after (at_new_path path (\<lambda>p. st_bind allocate_inode_id (\<lambda>i. st_bind (insert_path_node p (node i)) (\<lambda>_. st_ok i)))) t
    (\<lambda>_. grown t) (grown t)"
proof (rule after_at_new_path [OF assms(1)])
  fix p
  assume parent: "ensure_parent_dir t p = Ok ()"
  show "after (st_bind allocate_inode_id (\<lambda>i. st_bind (insert_path_node p (node i)) (\<lambda>_. st_ok i))) t (\<lambda>_. grown t) (grown t)"
  proof (cases "lookup_path t p")
    case None
    then show ?thesis
      using create_node_good [OF assms(1,2) parent None assms(3,4)] by (simp add: after_simps)
  next
    case (Some n)
    then have "bt_contains (pt_nodes t) p"
      by (auto simp: lookup_path_Some bt_contains_def)
    moreover have "grown t (t\<lparr>pt_next_inode_id := Suc (pt_next_inode_id t)\<rparr>)"
      using assms(1) by (auto simp: grown_def tree_good_def tree_ok_def fresh_ids_def less_Suc_eq)
    ultimately show ?thesis
      using assms(1) by (simp add: after_simps allocate_inode_id_def insert_path_node_def)
  qed
qed

lemma create_content_good:
  assumes "tree_good t" "pt_next_inode_id t < PROC_INODE_ID"
  shows "after (create_file_with_content path content mode) t (\<lambda>_. grown t) (grown t)"
    "after (create_file_with_host_content path host_path sz mode) t (\<lambda>_. grown t) (grown t)"
  unfolding create_file_with_content_def create_file_with_host_content_def
  by (rule create_file_good [OF assms]; simp add: bare_regular_ok; simp add: bare_node_def)+

section \<open>Mounting\<close>

definition ids_free :: "nat \<Rightarrow> nat \<Rightarrow> path_tree \<Rightarrow> bool" where
  "ids_free i n t \<longleftrightarrow> (\<forall>k < n. inodes t (i + k) = None)"

text \<open>One fixed node is added: the tree stays good and the numbers of the nodes to come stay free.\<close>

lemma insert_fixed_node:
  assumes "tree_good t" "ids_free i (Suc n) t" "PROC_INODE_ID \<le> i" "ensure_parent_dir t p = Ok u" "lookup_path t p = None"
    "node_ok i m" "\<not> node_is_directory m \<Longrightarrow> fa_nlink (pn_attr m) = 1"
  shows "after (insert_path_node p m) t (\<lambda>_ t'. tree_good t' \<and> ids_free (Suc i) n t') R"
proof -
  have "pn_inode_id m = i" "inodes t i = None"
    using assms by (force simp: node_ok_def ids_free_def)+
  then have "tree_good (snd (insert_path_node p m t))" "inodes (snd (insert_path_node p m t)) = (inodes t)(i \<mapsto> m)"
    using insert_path_node_good [of t p u m] assms by simp_all
  moreover have "fst (insert_path_node p m t) = Ok ()"
    using assms \<open>pn_inode_id m = i\<close> \<open>inodes t i = None\<close> insert_path_node_ok [of t p u m] by (simp add: tree_good_def)
  ultimately show ?thesis
    using assms(2) by (cases "insert_path_node p m t") (auto simp: ids_free_def)
qed

lemma ids_free_Suc: "ids_free i (Suc n) t \<Longrightarrow> ids_free (Suc i) n t"
  by (auto simp: ids_free_def)

lemma insert_dev_node_good:
  assumes "tree_good t" "ids_free i (Suc n) t" "PROC_INODE_ID \<le> i"
  shows "after (insert_dev_node path i kind) t (\<lambda>_ t'. tree_good t' \<and> ids_free (Suc i) n t') tree_good"
  using assms kind_attr_ok [of i "NDevice kind" "0x1b6"]
  by (auto simp: insert_dev_node_def after_simps ids_free_Suc intro!: insert_fixed_node split: option.splits)

lemma mount_devfs_good:
  assumes "tree_good t" "pt_next_inode_id t < PROC_INODE_ID" "ids_free DEV_NULL_INODE_ID 3 t"
  shows "after mount_minimal_devfs t (\<lambda>_. tree_good) tree_good"
proof -
  have "PROC_INODE_ID \<le> DEV_NULL_INODE_ID"
    by (simp add: inode_const_defs)
  then have free: "ids_free DEV_NULL_INODE_ID (Suc (Suc (Suc 0))) t'" if "grown t t'" for t'
    using that assms(3) by (auto simp: ids_free_def grown_def numeral_3_eq_3)
  have dev: "after (insert_dev_node path i kind) t' Q tree_good"
    if "tree_good t'" "ids_free i (Suc n) t'" "DEV_NULL_INODE_ID \<le> i"
      "\<And>t''. tree_good t'' \<Longrightarrow> ids_free (Suc i) n t'' \<Longrightarrow> Q () t''" for path i kind t' n Q
    using ends_mono [OF insert_dev_node_good [OF that(1,2)]] that(3,4) \<open>PROC_INODE_ID \<le> DEV_NULL_INODE_ID\<close> by force
  show ?thesis
    unfolding mount_minimal_devfs_def after_bind
    by (rule ends_mono [OF create_good(4) [OF assms(1,2)]])
      (auto simp: grown_def [of t] intro!: dev free)
qed

text \<open>An image directory at a mount point is replaced by the directory of the mounted file system.\<close>

lemma tree_inv_replace_directory:
  assumes inv: "tree_inv N I C" and p: "N p = Some i" "I i = Some m" "node_is_directory m"
    and n: "node_ok j n" "node_is_directory n" "I j = None"
  shows "tree_inv (N(p \<mapsto> j)) ((I(i := None))(j \<mapsto> n)) (if p = [] then C else set_child p (Some j) C)"
proof (rule tree_invI)
  have unused: "N r \<noteq> Some j" for r
    using tree_invD(3) [OF inv, of r j] n(3) by blast
  have other: "N r \<noteq> Some i" if "r \<noteq> p" for r
    using that tree_invD(7) [OF inv p(1) _ p(2,3), of r] by blast
  have keep: "dir_at N I r \<Longrightarrow> dir_at (N(p \<mapsto> j)) ((I(i := None))(j \<mapsto> n)) r" for r
    using unused other n by (cases "r = p") (fastforce simp: dir_at_def)+
  show "dir_at (N(p \<mapsto> j)) ((I(i := None))(j \<mapsto> n)) []"
    using keep tree_invD(2) [OF inv] .
  show "dir_at (N(p \<mapsto> j)) ((I(i := None))(j \<mapsto> n)) r" if "(N(p \<mapsto> j)) (r @ [y]) \<noteq> None" for r y
    using that keep p tree_invD(5) [OF inv, of r y] by (auto split: if_splits)
  show "fa_nlink (pn_attr k) = card {r. (N(p \<mapsto> j)) r = Some l}"
    if "((I(i := None))(j \<mapsto> n)) l = Some k" "\<not> node_is_directory k" for l k
  proof -
    have l: "l \<noteq> j" "I l = Some k" "l \<noteq> i"
      using that n by (auto split: if_splits)
    then have "{r. (N(p \<mapsto> j)) r = Some l} = {r. N r = Some l}"
      using p by auto
    then show ?thesis
      using tree_invD(8) [OF inv l(2) that(2)] by simp
  qed
  show "r = s" if "(N(p \<mapsto> j)) r = Some l" "(N(p \<mapsto> j)) s = Some l" "((I(i := None))(j \<mapsto> n)) l = Some k" "node_is_directory k"
    for r s l k
    using that unused tree_invD(7) [OF inv] by (auto split: if_splits)
  show "((I(i := None))(j \<mapsto> n)) l \<noteq> None" if "(N(p \<mapsto> j)) r = Some l" for r l
    using that other [of r] tree_invD(3) [OF inv, of r l] by (auto split: if_splits)
qed (use inv n in \<open>auto simp: set_child_def dest: tree_invD split: if_splits\<close>)

lemma replace_path_node_good:
  assumes "tree_good t" "lookup_path t p = Some m" "node_is_directory m" "ids_free j (Suc k) t" "PROC_INODE_ID \<le> j"
    "node_ok j n" "node_is_directory n"
  shows "tree_good (replace_path_node p n t)" "ids_free (Suc j) k (replace_path_node p n t)"
proof -
  obtain i where i: "names t p = Some i" "inodes t i = Some m"
    using assms(2) by (auto simp: lookup_path_Some)
  have j: "inodes t j = None" "pn_inode_id n = j"
    using assms(4,6) by (force simp: ids_free_def node_ok_def)+
  have maps: "names (replace_path_node p n t) = (names t)(p \<mapsto> j)"
    "inodes (replace_path_node p n t) = ((inodes t)(i := None))(j \<mapsto> n)"
    "child_of (replace_path_node p n t) = (if p = [] then child_of t else set_child p (Some j) (child_of t))"
    "pt_next_inode_id (replace_path_node p n t) = pt_next_inode_id t"
    using i j(2)
    by (auto simp: replace_path_node_def Let_def bt_get_insert_fun bt_get_remove_fun child_of_index fun_eq_iff set_child_def)
  then show "tree_good (replace_path_node p n t)"
    using tree_inv_replace_directory [of "names t" "inodes t" "child_of t", OF _ i assms(3) assms(6,7) j(1)] assms(1,5)
    by (auto simp: tree_good_def tree_ok_def fresh_ids_def)
  show "ids_free (Suc j) k (replace_path_node p n t)"
    using assms(4) by (auto simp: ids_free_def maps)
qed

lemma insert_proc_node_good:
  assumes good: "tree_good t" and free: "ids_free i (Suc n) t" "PROC_INODE_ID \<le> i" and path: "parse_absolute_path path \<noteq> Ok []"
  shows "after (insert_proc_static_node path i kind mode) t (\<lambda>_ t'. tree_good t' \<and> ids_free (Suc i) n t') tree_good"
proof -
  let ?n = "bare_node i (NProc kind) (proc_attr kind i mode)"
  have n: "node_ok i ?n" "\<not> node_is_directory ?n \<Longrightarrow> fa_nlink (pn_attr ?n) = 1"
    using kind_attr_ok [of i "NProc kind" mode] by (simp_all add: bare_node_def)
  have "node_is_directory m" if "pn_kind m = NDirectory" for m :: path_node
    using that by (simp add: node_is_directory_def)
  moreover have "node_is_directory ?n" if "kind = ProcDirectory \<or> kind = ProcFdDirectory"
    using that by (auto simp: node_is_directory_def bare_node_def)
  ultimately show ?thesis
    using good path replace_path_node_good [OF good _ _ free n(1)] ids_free_Suc [OF free(1)]
    by (auto simp: insert_proc_static_node_def after_simps Let_def intro!: insert_fixed_node [OF good free _ _ n] split: option.splits)
qed

lemma mount_procfs_good:
  assumes "tree_good t" "ids_free PROC_INODE_ID 6 t"
  shows "after mount_minimal_procfs t (\<lambda>_. tree_good) tree_good"
proof -
  have proc: "after (insert_proc_static_node path i kind mode) t' Q tree_good"
    if "tree_good t'" "ids_free i (Suc n) t'" "PROC_INODE_ID \<le> i" "parse_absolute_path path \<noteq> Ok []"
      "\<And>t''. tree_good t'' \<Longrightarrow> ids_free (Suc i) n t'' \<Longrightarrow> Q () t''" for path i kind mode t' n Q
    using ends_mono [OF insert_proc_node_good [OF that(1-4)]] that(5) by force
  have paths: "parse_absolute_path path \<noteq> Ok []"
    if "path \<in> {''/proc'', ''/proc/self'', ''/proc/self/exe'', ''/proc/self/cmdline'', ''/proc/self/environ'', ''/proc/self/fd''}" for path
    using that by (elim insertE emptyE) (simp_all, code_simp+)
  have ids: "PROC_INODE_ID + 1 = Suc PROC_INODE_ID" "PROC_INODE_ID + 2 = Suc (Suc PROC_INODE_ID)"
    "PROC_INODE_ID + 3 = Suc (Suc (Suc PROC_INODE_ID))" "PROC_INODE_ID + 4 = Suc (Suc (Suc (Suc PROC_INODE_ID)))"
    "PROC_INODE_ID + 5 = Suc (Suc (Suc (Suc (Suc PROC_INODE_ID))))"
    by simp_all
  have "ids_free PROC_INODE_ID (Suc (Suc (Suc (Suc (Suc (Suc 0)))))) t"
    using assms(2) by (simp add: eval_nat_numeral)
  then show ?thesis
    unfolding mount_minimal_procfs_def after_bind ids using assms(1)
    by (auto intro!: proc dest!: paths [THEN notE, rotated])
qed

end
