(* ===== verification/Vfs_Reach.thy ===== *)
theory Vfs_Reach
  imports Vfs_Boot
begin

text \<open>
  The virtual file system as a state machine.  A state is reachable when it comes from a tree that an image
  loader built, by any sequence of the calls of \<open>filesystem.rs\<close>.  Every reachable state satisfies the
  invariant, so what a call answers out of its cache is what the tree holds.
\<close>

section \<open>Steps\<close>

datatype tree_build =
    Build_dir string | Build_dir_if_missing string | Build_file string | Build_symlink string string
  | Build_content string "u8 list" u32 | Build_host_content string string nat u32

definition void :: "('s, 'a, 'e) st \<Rightarrow> ('s, unit, 'e) st" where
  "void m = st_bind m (\<lambda>_. st_ok ())"

fun build_step :: "tree_build \<Rightarrow> unit tree_op" where
  "build_step (Build_dir path) = void (create_dir path)"
| "build_step (Build_dir_if_missing path) = void (create_dir_if_missing path)"
| "build_step (Build_file path) = void (create_file path)"
| "build_step (Build_symlink path target) = void (create_symlink path target)"
| "build_step (Build_content path content mode) = void (create_file_with_content path content mode)"
| "build_step (Build_host_content path host_path sz mode) = void (create_file_with_host_content path host_path sz mode)"

inductive built :: "path_tree \<Rightarrow> bool" where
  built_new: "built tree_new"
| built_step: "built t \<Longrightarrow> pt_next_inode_id t < PROC_INODE_ID \<Longrightarrow> build_step b t = (r, t') \<Longrightarrow> r \<noteq> Panic \<Longrightarrow> built t'"

datatype vfs_call =
    C_mount_devfs | C_mount_procfs
  | C_openat int string open_flags u32 | C_close int
  | C_read int nat | C_pread int nat nat | C_readv int "u8 list list" | C_map int nat nat
  | C_write int "u8 list" | C_pwrite int nat "u8 list" | C_writev int "u8 list list"
  | C_ftruncate int nat | C_fallocate int nat nat | C_lseek int int seek_whence
  | C_fstat int | C_newfstatat int string u32 | C_access string u32 | C_faccessat int string u32 u32
  | C_chmod string u32 | C_chown string "u32 option" "u32 option" | C_utimensat int string file_times u32
  | C_readlinkat int string nat | C_getdents int nat | C_chdir string | C_umask u32 | C_proc_self proc_self_data
  | C_mkdirat int string u32 | C_symlinkat string int string | C_unlinkat int string u32
  | C_linkat int string int string u32 | C_renameat2 int string int string u32
  | C_pipe open_flags | C_eventfd u64 open_flags | C_dup int | C_dup2 int int | C_dup3 int int open_flags
  | C_fcntl int u32 u64 | C_ioctl int u64

fun vfs_step :: "vfs_call \<Rightarrow> unit vfs_op" where
  "vfs_step C_mount_devfs = vfs_mount_devfs"
| "vfs_step C_mount_procfs = vfs_mount_procfs"
| "vfs_step (C_openat dirfd path flags mode) = void (openat dirfd path flags mode)"
| "vfs_step (C_close fd) = void (close_with_file fd)"
| "vfs_step (C_read fd len) = void (vfs_read fd len)"
| "vfs_step (C_pread fd offset len) = void (vfs_pread fd offset len)"
| "vfs_step (C_readv fd buffers) = void (readv_regular fd buffers)"
| "vfs_step (C_map fd offset len) = void (map_readonly_regular_file_at fd offset len)"
| "vfs_step (C_write fd data) = void (vfs_write fd data)"
| "vfs_step (C_pwrite fd offset data) = void (vfs_pwrite fd offset data)"
| "vfs_step (C_writev fd buffers) = void (writev_regular fd buffers)"
| "vfs_step (C_ftruncate fd len) = ftruncate fd len"
| "vfs_step (C_fallocate fd offset len) = fallocate fd offset len"
| "vfs_step (C_lseek fd offset whence) = void (lseek fd offset whence)"
| "vfs_step (C_fstat fd) = void (fstat fd)"
| "vfs_step (C_newfstatat dirfd path flags) = void (newfstatat dirfd path flags)"
| "vfs_step (C_access path m) = vfs_access path m"
| "vfs_step (C_faccessat dirfd path m flags) = faccessat2 dirfd path m flags"
| "vfs_step (C_chmod path mode) = chmod path mode"
| "vfs_step (C_chown path uid gid) = chown path uid gid"
| "vfs_step (C_utimensat dirfd path ts flags) = utimensat dirfd path ts flags"
| "vfs_step (C_readlinkat dirfd path len) = void (readlinkat dirfd path len)"
| "vfs_step (C_getdents fd max_bytes) = void (vfs_getdents64 fd max_bytes)"
| "vfs_step (C_chdir path) = chdir path"
| "vfs_step (C_umask m) = void (set_umask m)"
| "vfs_step (C_proc_self p) = set_proc_self p"
| "vfs_step (C_mkdirat dirfd path mode) = mkdirat dirfd path mode"
| "vfs_step (C_symlinkat target dirfd path) = symlinkat target dirfd path"
| "vfs_step (C_unlinkat dirfd path flags) = unlinkat dirfd path flags"
| "vfs_step (C_linkat olddirfd oldpath newdirfd newpath flags) = linkat olddirfd oldpath newdirfd newpath flags"
| "vfs_step (C_renameat2 olddirfd oldpath newdirfd newpath flags) = renameat2 olddirfd oldpath newdirfd newpath flags"
| "vfs_step (C_pipe flags) = void (vfs_pipe flags)"
| "vfs_step (C_eventfd initial flags) = void (vfs_eventfd initial flags)"
| "vfs_step (C_dup fd) = void (vfs_dup fd)"
| "vfs_step (C_dup2 oldfd newfd) = void (vfs_dup2 oldfd newfd)"
| "vfs_step (C_dup3 oldfd newfd flags) = void (vfs_dup3 oldfd newfd flags)"
| "vfs_step (C_fcntl fd cmd arg) = void (fcntl fd cmd arg)"
| "vfs_step (C_ioctl fd request) = void (ioctl fd request)"

text \<open>
  What a call needs.  The counter of inode numbers has not run into the fixed numbers (after $2^{60}$ files);
  a descriptor number is left; a mount finds its numbers unused and succeeds; and the two ways in which a call forgets to
  invalidate are left out: a write of no bytes, and creating with \<open>O_DIRECTORY\<close>.
\<close>

fun call_ok :: "vfs_call \<Rightarrow> vfs \<Rightarrow> bool" where
  "call_ok C_mount_devfs s \<longleftrightarrow> pt_next_inode_id (v_tree s) < PROC_INODE_ID \<and> ids_free DEV_NULL_INODE_ID 3 (v_tree s)
     \<and> fst (vfs_mount_devfs s) = Ok ()"
| "call_ok C_mount_procfs s \<longleftrightarrow> ids_free PROC_INODE_ID 6 (v_tree s) \<and> fst (vfs_mount_procfs s) = Ok ()"
| "call_ok (C_openat _ _ flags _) s \<longleftrightarrow>
     pt_next_inode_id (v_tree s) < PROC_INODE_ID \<and> fd_room s \<and> \<not> (flag_create flags \<and> flag_directory flags)"
| "call_ok (C_mkdirat _ _ _) s \<longleftrightarrow> pt_next_inode_id (v_tree s) < PROC_INODE_ID"
| "call_ok (C_symlinkat _ _ _) s \<longleftrightarrow> pt_next_inode_id (v_tree s) < PROC_INODE_ID"
| "call_ok (C_write _ data) s \<longleftrightarrow> data \<noteq> []"
| "call_ok (C_pwrite _ _ data) s \<longleftrightarrow> data \<noteq> []"
| "call_ok _ s \<longleftrightarrow> True"

inductive vfs_reachable :: "vfs \<Rightarrow> bool" where
  vfs_start: "built t \<Longrightarrow> vfs_reachable (from_parts fs t fds store)"
| vfs_next: "vfs_reachable s \<Longrightarrow> call_ok c s \<Longrightarrow> vfs_step c s = (r, s') \<Longrightarrow> r \<noteq> Panic \<Longrightarrow> vfs_reachable s'"

section \<open>The invariant of reachable states\<close>

lemma after_void [after_simps]: "after (void m) s Q R = after m s (\<lambda>_. Q ()) R"
  by (simp add: void_def after_simps)

lemma build_step_good:
  "tree_good t \<Longrightarrow> pt_next_inode_id t < PROC_INODE_ID \<Longrightarrow> after (build_step b) t (\<lambda>_. tree_good) tree_good"
proof -
  have weaken: "after m t (\<lambda>_. grown t) (grown t) \<Longrightarrow> after (void m) t (\<lambda>_. tree_good) tree_good" for m :: "nat tree_op"
    by (auto simp: after_void grown_def elim: ends_mono)
  show "tree_good t \<Longrightarrow> pt_next_inode_id t < PROC_INODE_ID \<Longrightarrow> after (build_step b) t (\<lambda>_. tree_good) tree_good"
    by (cases b) (simp_all add: weaken create_good create_content_good)
qed

lemma built_good: "built t \<Longrightarrow> tree_good t"
proof (induction rule: built.induct)
  case (built_step t b r t')
  then show ?case
    using build_step_good [of t b] by (cases r) (auto simp: ends_def)
qed (rule tree_new_good)

lemma mount_keeps:
  assumes m: "after m (v_tree s) (\<lambda>_. tree_good) tree_good"
    and ok: "fst (st_bind (lift_tree m) (\<lambda>_. invalidate_vfs_caches) s) = Ok ()"
  shows "keeps (st_bind (lift_tree m) (\<lambda>_. invalidate_vfs_caches)) s"
proof -
  have "after (st_bind (lift_tree m) (\<lambda>_. invalidate_vfs_caches)) s (\<lambda>_. vfs_inv {}) (\<lambda>_. True)"
    using m by (auto simp: after_simps tree_good_def elim!: ends_mono intro!: after_invalidate_all)
  then show ?thesis
    unfolding keeps_def by (rule ends_no_err) (use ok in simp)
qed

lemma keeps_void: "keeps (void m) s = keeps m s"
  by (simp add: keeps_def after_void)

lemma vfs_step_keeps:
  assumes "vfs_inv {} s" "call_ok c s"
  shows "keeps (vfs_step c) s"
proof (cases c)
  case C_mount_devfs
  then show ?thesis
    using assms mount_devfs_good [of "v_tree s"] mount_keeps [of mount_minimal_devfs s]
    by (simp add: vfs_mount_devfs_def vfs_inv_def tree_good_def)
next
  case C_mount_procfs
  then show ?thesis
    using assms mount_procfs_good [of "v_tree s"] mount_keeps [of mount_minimal_procfs s]
    by (simp add: vfs_mount_procfs_def vfs_inv_def tree_good_def)
qed (use assms in \<open>simp_all add: keeps_void openat_keeps close_keeps read_keeps pread_keeps readv_keeps map_keeps write_keeps
    pwrite_keeps writev_keeps ftruncate_keeps fallocate_keeps stat_keeps chmod_keeps chown_keeps utimensat_keeps readlinkat_keeps
    getdents_keeps chdir_keeps mkdirat_keeps symlinkat_keeps unlinkat_keeps linkat_keeps renameat2_keeps keeps_lift_fds
    set_proc_self_keeps fcntl_keeps descriptor_keeps vfs_pipe_def vfs_eventfd_def vfs_dup_def vfs_dup2_def\<close>)

lemma reachable_inv: "vfs_reachable s \<Longrightarrow> vfs_inv {} s"
proof (induction rule: vfs_reachable.induct)
  case (vfs_start t fs fds store)
  then show ?case
    using built_good [of t] by (simp add: vfs_inv_def tree_good_def from_parts_def coherent_def cache_default_def)
next
  case (vfs_next s c r s')
  then show ?case
    using vfs_step_keeps [of s c] by (cases r) (auto simp: keeps_def ends_def)
qed

end
