(* ===== verification/Vfs_Props.thy ===== *)
theory Vfs_Props
  imports Vfs_Reach
begin

text \<open>
  What the invariant of the virtual file system gives its callers: consistent trees, answers that do not
  depend on the cache, reads that return what was written, renames that move whole subtrees.  Each property
  is applied once to a small concrete file system.
\<close>

section \<open>A concrete file system\<close>

text \<open>An operating system that does nothing, a store, a tree with one directory and one file, and a table
  with the file at descriptor 0 and the directory at descriptor 1.\<close>

definition idle_os :: os_io where
  "idle_os =
     \<lparr>os_pipe_pair = (\<lambda>_. False), os_open = (\<lambda>_ _. Inr ()), os_read = (\<lambda>_ _. Inr (\<lambda>_. 0, 0)),
      os_write = (\<lambda>_ _. Inr 0), os_read_at = (\<lambda>_ _ _ _. Inr (\<lambda>_. 0, 0)), os_map_at = (\<lambda>_ _ _ _. Inr ()),
      os_random = (\<lambda>_. None), os_file = (\<lambda>_ _. None)\<rparr>"

definition demo_store :: vfs_store where
  "demo_store =
     \<lparr>vs_descriptions = (\<lambda>_. \<lparr>fd_offset = 0, fd_flags = O_RDWR, fd_dir_cursor = 0\<rparr>),
      vs_pipes = (\<lambda>_. \<lparr>pi_state = pipe_state_new 0, pi_host_pair = False\<rparr>), vs_eventfds = (\<lambda>_. 0),
      vs_stdio = (\<lambda>_. \<lparr>sc_stdout = [], sc_stderr = []\<rparr>), vs_next = 9, vs_os = idle_os, vs_calls = 0\<rparr>"

definition demo_file_node :: path_node where
  "demo_file_node = (bare_node 3 NFile (attr_regular 3 0x1b6 3))\<lparr>pn_data := [1, 2, 3]\<rparr>"

definition demo_dir_node :: path_node where
  "demo_dir_node = bare_node 2 NDirectory (attr_directory 2 0x1ed)"

definition demo_image :: path_tree where
  "demo_image =
     \<lparr>pt_nodes = bt_insert [''d'', ''a''] 3 (bt_insert [''d''] 2 (bt_insert [] 1 bt_empty)),
      pt_inodes = bt_insert 3 demo_file_node (bt_insert 2 demo_dir_node (bt_insert 1 (node_directory 1) bt_empty)),
      pt_children = bt_insert [''d''] (bt_insert ''a'' 3 bt_empty) (bt_insert [] (bt_insert ''d'' 2 bt_empty) bt_empty),
      pt_next_inode_id = 4\<rparr>"

definition demo_entry :: "nat \<Rightarrow> file_kind \<Rightarrow> guest_path \<Rightarrow> fd_entry" where
  "demo_entry i kind p =
     \<lparr>fe_file = \<lparr>fr_inode = inode_new i (HostPath [] p), fr_kind = kind\<rparr>, fe_description = i, fe_path = Some p\<rparr>"

definition demo_fds :: fd_table where
  "demo_fds =
     \<lparr>ft_entries = bt_insert 0 (demo_entry 3 FRegular [''d'', ''a'']) (bt_insert 1 (demo_entry 2 FDirectory [''d'']) bt_empty),
      ft_cloexec = bt_empty, ft_next_pipe_id = 1, ft_next_eventfd_id = 1, ft_stdio = 0\<rparr>"

definition demo_vfs :: vfs where
  "demo_vfs = from_parts (rootfs_new []) demo_image demo_fds demo_store"

lemmas build_eval = void_def at_new_path_def parse_absolute_path_def st_bind_def st_lift_def starts_with_slash_def
  split_guest_components_def SLASH_def has_nul_def ensure_parent_dir_def gp_parent_def allocate_inode_id_def
  U64_MAX_NAT_def ROOT_INODE_ID_def lookup_path_def bt_get_insert insert_path_node_def bt_contains_def st_ok_def
  index_child_def

lemma demo_build_dir:
  "build_step (Build_dir ''/d'') tree_new =
     (Ok (), \<lparr>pt_nodes = bt_insert [''d''] 2 (bt_insert [] 1 bt_empty),
       pt_inodes = bt_insert 2 demo_dir_node (bt_insert 1 (node_directory 1) bt_empty),
       pt_children = bt_insert [] (bt_insert ''d'' 2 bt_empty) bt_empty, pt_next_inode_id = 3\<rparr>)"
  by (simp add: create_dir_def insert_node_def build_eval Let_def tree_new_def demo_dir_node_def) (simp add: numeral_2_eq_2)

lemma demo_built: "built demo_image"
proof (rule built_step [OF built_step [OF built_new]])
  show "build_step (Build_dir ''/d'') tree_new = (Ok (), \<lparr>pt_nodes = bt_insert [''d''] 2 (bt_insert [] 1 bt_empty),
       pt_inodes = bt_insert 2 demo_dir_node (bt_insert 1 (node_directory 1) bt_empty),
       pt_children = bt_insert [] (bt_insert ''d'' 2 bt_empty) bt_empty, pt_next_inode_id = 3\<rparr>)"
    by (rule demo_build_dir)
  show "build_step (Build_content ''/d/a'' [1, 2, 3] 0x1b6) \<lparr>pt_nodes = bt_insert [''d''] 2 (bt_insert [] 1 bt_empty),
       pt_inodes = bt_insert 2 demo_dir_node (bt_insert 1 (node_directory 1) bt_empty),
       pt_children = bt_insert [] (bt_insert ''d'' 2 bt_empty) bt_empty, pt_next_inode_id = 3\<rparr> = (Ok (), demo_image)"
    by (simp add: create_file_with_content_def build_eval Let_def demo_dir_node_def demo_image_def demo_file_node_def numeral_3_eq_3)
qed (simp_all add: tree_new_def inode_const_defs)

lemma demo_reachable: "vfs_reachable demo_vfs"
  unfolding demo_vfs_def by (rule vfs_start [OF demo_built])

lemma demo_parts [simp]:
  "v_tree demo_vfs = demo_image" "v_fds demo_vfs = demo_fds" "v_store demo_vfs = demo_store"
  "v_rootfs demo_vfs = rootfs_new []"
  by (simp_all add: demo_vfs_def from_parts_def)

lemma demo_names [simp]:
  "names demo_image p = (if p = [''d'', ''a''] then Some 3 else if p = [''d''] then Some 2 else if p = [] then Some 1 else None)"
  "inodes demo_image i =
     (if i = 3 then Some demo_file_node else if i = 2 then Some demo_dir_node else if i = 1 then Some (node_directory 1) else None)"
  by (simp_all add: demo_image_def bt_get_insert)

lemma demo_fd_get [simp]:
  "fd_lookup demo_fds 0 = Ok (demo_entry 3 FRegular [''d'', ''a''])" "fd_lookup demo_fds 1 = Ok (demo_entry 2 FDirectory [''d''])"
  by (simp_all add: fd_lookup_def demo_fds_def bt_get_insert)

lemma demo_entry_parts [simp]:
  "fe_inode_id (demo_entry i k p) = i" "fe_kind (demo_entry i k p) = k" "fe_path (demo_entry i k p) = Some p"
  "fe_description (demo_entry i k p) = i"
  by (simp_all add: demo_entry_def fe_inode_id_def inode_new_def)

section \<open>Trees\<close>

text \<open>C2. In every reachable state the tree is a tree: the parent of every name is a directory; every name
  points to a live inode filed under its own number; the index that listings are made from has exactly the
  names of each directory; and the link count of everything that is not a directory is the number of its names.\<close>

theorem reachable_tree_consistent:
  assumes "vfs_reachable s"
  shows "(\<forall>p x. lookup_path (v_tree s) (p @ [x]) \<noteq> None \<longrightarrow> (\<exists>d. lookup_path (v_tree s) p = Some d \<and> node_is_directory d))
    \<and> (\<forall>p i. bt_get (pt_nodes (v_tree s)) p = Some i \<longrightarrow> (\<exists>n. lookup_inode (v_tree s) i = Some n \<and> pn_inode_id n = i))
    \<and> (\<forall>p x i. (x, i) \<in> set (children_of_path (v_tree s) p) \<longleftrightarrow> bt_get (pt_nodes (v_tree s)) (p @ [x]) = Some i)
    \<and> (\<forall>i n. lookup_inode (v_tree s) i = Some n \<and> \<not> node_is_directory n \<longrightarrow> fa_nlink (pn_attr n) = tree_link_count (v_tree s) i)"
proof -
  have ok: "tree_ok (v_tree s)"
    using reachable_inv [OF assms] by (simp add: vfs_inv_def)
  then have inv: "tree_inv (names (v_tree s)) (inodes (v_tree s)) (child_of (v_tree s))"
    by (simp add: tree_ok_def)
  have "\<exists>d. lookup_path (v_tree s) p = Some d \<and> node_is_directory d" if "lookup_path (v_tree s) (p @ [x]) \<noteq> None" for p x
    using that tree_invD(5) [OF inv, of p x] by (simp add: lookup_path_None [OF ok] flip: dir_at_lookup)
  moreover have "\<exists>n. lookup_inode (v_tree s) i = Some n \<and> pn_inode_id n = i" if "names (v_tree s) p = Some i" for p i
    using names_live [OF ok that] tree_invD(4) [OF inv] by (auto simp: lookup_inode_def node_ok_def)
  moreover have "(x, i) \<in> set (children_of_path (v_tree s) p) \<longleftrightarrow> names (v_tree s) (p @ [x]) = Some i" for p x i
    by (simp add: children_of_path_child tree_invD(6) [OF inv])
  moreover have "fa_nlink (pn_attr n) = tree_link_count (v_tree s) i"
    if "lookup_inode (v_tree s) i = Some n" "\<not> node_is_directory n" for i n
    using that tree_invD(8) [OF inv] by (simp add: lookup_inode_def tree_link_count_card)
  ultimately show ?thesis
    by blast
qed

theorem reachable_tree_consistent_witness:
  "fa_nlink (pn_attr demo_file_node) = tree_link_count demo_image 3
    \<and> (''a'', 3) \<in> set (children_of_path demo_image [''d''])"
proof -
  have "lookup_inode (v_tree demo_vfs) 3 = Some demo_file_node \<and> \<not> node_is_directory demo_file_node"
    by (simp add: lookup_inode_def demo_file_node_def node_is_directory_def bare_node_def)
  moreover have "bt_get (pt_nodes (v_tree demo_vfs)) ([''d''] @ [''a'']) = Some 3"
    by simp
  ultimately show ?thesis
    using reachable_tree_consistent [OF demo_reachable] unfolding demo_parts by blast
qed

section \<open>The cache\<close>

text \<open>The same file system with nothing cached.\<close>

definition uncached :: "vfs \<Rightarrow> vfs" where
  "uncached s = s\<lparr>v_cache := cache_default\<rparr>"

lemma uncached_parts [simp]:
  "v_tree (uncached s) = v_tree s" "v_fds (uncached s) = v_fds s" "v_store (uncached s) = v_store s"
  "v_rootfs (uncached s) = v_rootfs s" "v_proc_self (uncached s) = v_proc_self s"
  by (simp_all add: uncached_def)

lemma uncached_resolve [simp]: "resolve_at (uncached s) = resolve_at s"
  by (intro ext, unfold resolve_at_def uncached_parts, rule refl)

lemma uncached_target [simp]: "proc_fd_target (uncached s) = proc_fd_target s"
  by (intro ext, unfold proc_fd_target_def uncached_parts, rule refl)

lemma uncached_inv: "vfs_inv {} s \<Longrightarrow> vfs_inv {} (uncached s)"
  by (simp add: vfs_inv_def uncached_def coherent_def cache_default_def)

lemma cached_metadata_eq:
  assumes "vfs_inv {} s" "inodes (v_tree s) (pn_inode_id n) = Some n"
  shows "fst (cached_metadata n s) = Ok (pn_attr n)"
proof -
  have "cache_metadata (v_cache s) (pn_inode_id n) \<in> {None, Some (pn_attr n)}"
    using assms coherentD(1) [of "{}" "v_cache s" "v_tree s" "cache_key (v_cache s) (pn_inode_id n)"]
    by (cases "cache_metadata (v_cache s) (pn_inode_id n)") (auto simp: vfs_inv_def cache_metadata_def cache_key_def)
  then show ?thesis
    by (auto simp: cached_metadata_def st_bind_def on_cache_def st_modify_def st_ok_def)
qed

lemma cached_entries_eq:
  assumes "vfs_inv {} s" "names (v_tree s) p = Some i"
  shows "\<exists>c. cached_directory_entries i p s = (static_directory_entries (v_tree s) p, s\<lparr>v_cache := c\<rparr>)"
proof (cases "cache_directory_listing (v_cache s) i")
  case None
  then show ?thesis
    by (cases "static_directory_entries (v_tree s) p")
      (auto simp: cached_directory_entries_def st_bind_def st_lift_def on_cache_def st_modify_def st_ok_def intro: exI [of _ "v_cache s"])
next
  case (Some es)
  have "after (cached_directory_entries i p) s (\<lambda>es _. static_directory_entries (v_tree s) p = Ok es) (\<lambda>_. True)"
    by (rule after_cached_directory_entries [OF assms]) simp_all
  then show ?thesis
    using Some by (auto simp: cached_directory_entries_def intro!: exI [of _ "v_cache s"])
qed

lemma fstat_value:
  assumes "vfs_inv {} s"
  shows "fst (fstat fd s) =
    and_then (fd_lookup (v_fds s) fd) (\<lambda>e.
      if is_anonymous_kind (fe_kind e) then Ok (anonymous_attr (fe_file e))
      else (case lookup_inode (v_tree s) (fe_inode_id e) of Some n \<Rightarrow> Ok (pn_attr n) | None \<Rightarrow> Ok (anonymous_attr (fe_file e))))"
proof -
  have "fst (cached_metadata n s) = Ok (pn_attr n)" if "inodes (v_tree s) i = Some n" for i n
    using that inodes_node_ok [OF _ that] assms by (auto intro!: cached_metadata_eq simp: vfs_inv_def node_ok_def)
  then show ?thesis
    by (cases "fd_lookup (v_fds s) fd")
      (auto simp: fstat_def st_bind_def vfs_entry_def ask_def lookup_inode_def split: option.splits)
qed

lemma stat_path_value:
  assumes "vfs_inv {} s"
  shows "fst (stat_path p s) = fst (stat_path p (uncached s))"
proof -
  have "fst (cached_metadata n s') = Ok (pn_attr n)" if "lookup_path (v_tree s) p = Some n" "s' = s \<or> s' = uncached s" for n s'
    using that assms uncached_inv [OF assms] lookup_path_id [of "v_tree s" p n]
    by (intro cached_metadata_eq) (auto simp: vfs_inv_def lookup_path_Some)
  then show ?thesis
    by (cases "lookup_path (v_tree s) p"; cases "proc_self_fd_path_fd p") (simp_all add: stat_path_def st_bind_def st_lift_def st_ok_def
        split: result.splits)
qed

lemma newfstatat_value:
  assumes "vfs_inv {} s"
  shows "fst (newfstatat dirfd path flags s) = fst (newfstatat dirfd path flags (uncached s))"
proof -
  have "fst (fstat dirfd s) = fst (fstat dirfd (uncached s))"
    by (simp only: fstat_value [OF assms] fstat_value [OF uncached_inv [OF assms]] uncached_parts)
  then show ?thesis
    using stat_path_value [OF assms] by (simp add: newfstatat_def st_bind_def ask_def split: result.splits)
qed

lemma getdents_value:
  assumes "vfs_inv {} s"
  shows "fst (vfs_getdents64 fd max_bytes s) = fst (vfs_getdents64 fd max_bytes (uncached s))
    \<and> uncached (snd (vfs_getdents64 fd max_bytes s)) = uncached (snd (vfs_getdents64 fd max_bytes (uncached s)))"
proof (cases "directory_listing_source (v_tree s) (v_fds s) fd")
  case (Ok src)
  let ?entries = "if ls_cacheable src then static_directory_entries (v_tree s) (ls_path src)
    else directory_entries (v_tree s) (v_fds s) (ls_path src)"
  have "\<exists>c. vfs_getdents64 fd max_bytes s' = st_bind (st_lift ?entries) (\<lambda>entries.
      lift_fds (consume_directory_entries fd max_bytes entries)) (s\<lparr>v_cache := c\<rparr>)" if s': "s' = s \<or> s' = uncached s" for s'
  proof -
    have "names (v_tree s) (ls_path src) = Some (ls_inode src)"
      using Ok assms lookup_path_id [of "v_tree s"]
      by (auto simp: directory_listing_source_def result_simps vfs_inv_def split: if_splits)
    then obtain c where "cached_directory_entries (ls_inode src) (ls_path src) s' =
        (static_directory_entries (v_tree s) (ls_path src), s'\<lparr>v_cache := c\<rparr>)"
      using s' cached_entries_eq [of s' "ls_path src" "ls_inode src"] assms uncached_inv [OF assms] by auto
    moreover have "s'\<lparr>v_cache := v_cache s'\<rparr> = s'"
      by simp
    ultimately show ?thesis
      using s' Ok
      by (cases "ls_cacheable src")
        (auto simp: vfs_getdents64_def st_bind_def st_lift_def ask_def uncached_def split: result.splits
          intro: exI [of _ c] exI [of _ "v_cache s'"])
  qed
  from this [of s] this [of "uncached s"] show ?thesis
    by (cases ?entries) (auto simp: st_bind_def st_lift_def lift_fds_def uncached_def split: prod.splits)
qed (auto simp: vfs_getdents64_def st_bind_def ask_def uncached_def)

text \<open>C5. In every reachable state the cache is transparent: the attributes that \<open>fstat\<close> and \<open>newfstatat\<close> answer,
  and the entries that \<open>getdents64\<close> answers together with the directory position it leaves behind, are the ones
  the same file system would give with an empty cache.\<close>

theorem cache_transparent:
  assumes "vfs_reachable s"
  shows "fst (fstat fd s) = fst (fstat fd (uncached s))
    \<and> fst (newfstatat dirfd path flags s) = fst (newfstatat dirfd path flags (uncached s))
    \<and> fst (vfs_getdents64 fd max_bytes s) = fst (vfs_getdents64 fd max_bytes (uncached s))
    \<and> uncached (snd (vfs_getdents64 fd max_bytes s)) = uncached (snd (vfs_getdents64 fd max_bytes (uncached s)))"
proof -
  note inv = reachable_inv [OF assms]
  have "fst (fstat fd s) = fst (fstat fd (uncached s))"
    by (simp only: fstat_value [OF inv] fstat_value [OF uncached_inv [OF inv]] uncached_parts)
  then show ?thesis
    using newfstatat_value [OF inv, of dirfd path flags] getdents_value [OF inv, of fd max_bytes] by simp
qed

lemma demo_cached_reachable: "vfs_reachable (snd (vfs_step (C_fstat 0) demo_vfs))"
proof (rule vfs_next [OF demo_reachable])
  show "vfs_step (C_fstat 0) demo_vfs = (Ok (), snd (vfs_step (C_fstat 0) demo_vfs))"
    using fstat_value [OF reachable_inv [OF demo_reachable], of 0]
    by (cases "fstat 0 demo_vfs") (simp add: void_def st_bind_def st_ok_def is_anonymous_kind_def lookup_inode_def)
qed simp_all

theorem cache_transparent_witness:
  "fst (fstat 0 (snd (vfs_step (C_fstat 0) demo_vfs))) = fst (fstat 0 (uncached (snd (vfs_step (C_fstat 0) demo_vfs))))
    \<and> fst (fstat 0 (snd (vfs_step (C_fstat 0) demo_vfs))) = Ok (attr_regular 3 0x1b6 3)"
proof
  show "fst (fstat 0 (snd (vfs_step (C_fstat 0) demo_vfs))) = fst (fstat 0 (uncached (snd (vfs_step (C_fstat 0) demo_vfs))))"
    using cache_transparent [OF demo_cached_reachable] by blast
  show "fst (fstat 0 (snd (vfs_step (C_fstat 0) demo_vfs))) = Ok (attr_regular 3 0x1b6 3)"
    by (simp add: fstat_def void_def st_bind_def st_ok_def vfs_entry_def ask_def is_anonymous_kind_def lookup_inode_def cached_metadata_def
        demo_vfs_def from_parts_def cache_default_def cache_metadata_def on_cache_def st_modify_def insert_metadata_def bt_get_insert
        cache_key_def key_generation_def demo_file_node_def bare_node_def)
qed

end
