(* ===== verification/Vfs_Files.thy ===== *)
theory Vfs_Files
  imports Vfs_Props
begin

text \<open>
  Open files of the virtual file system: what reads return, what writes leave, which descriptor a call gets
  and what duplicated descriptors share.
\<close>

section \<open>Reading and writing\<close>

text \<open>A descriptor that is open for reading on a regular file whose content is loaded.\<close>

definition open_file :: "vfs \<Rightarrow> int \<Rightarrow> fd_entry \<Rightarrow> path_node \<Rightarrow> bool" where
  "open_file s fd e n \<longleftrightarrow>
     fd_lookup (v_fds s) fd = Ok e \<and> fe_kind e = FRegular \<and> can_read (entry_flags e (v_store s)) \<and>
     lookup_inode (v_tree s) (fe_inode_id e) = Some n \<and> pn_kind n = NFile \<and> pn_deferred_host_path n = None"

lemma cached_small_read_eq:
  assumes "vfs_inv {} s" "inodes (v_tree s) i = Some n" "pn_deferred_host_path n = None"
  shows "\<exists>c. cached_small_read_data i (pn_data n) s = (Ok (pn_data n), s\<lparr>v_cache := c\<rparr>)"
proof -
  have "cache_small_read (v_cache s) i \<in> {None, Some (pn_data n)}"
    using assms coherentD(2) [of "{}" "v_cache s" "v_tree s" "cache_key (v_cache s) i"]
    by (cases "cache_small_read (v_cache s) i") (auto simp: vfs_inv_def cache_small_read_def cache_key_def)
  then show ?thesis
    by (auto simp: cached_small_read_data_def st_bind_def on_cache_def st_modify_def st_ok_def intro: exI [of _ "v_cache s"])
qed

lemma small_read_value:
  assumes "vfs_inv {} s" "open_file s fd e n"
  shows "\<exists>c. cached_small_read_for_entry e offset len s =
    (Ok (if length (pn_data n) \<le> SMALL_READ_CACHE_LIMIT \<or> len = 0 then Some (take len (drop offset (pn_data n))) else None), s\<lparr>v_cache := c\<rparr>)"
proof -
  have n: "inodes (v_tree s) (fe_inode_id e) = Some n" "pn_deferred_host_path n = None"
    using assms(2) by (simp_all add: open_file_def lookup_inode_def)
  obtain c where "cached_small_read_data (fe_inode_id e) (pn_data n) s = (Ok (pn_data n), s\<lparr>v_cache := c\<rparr>)"
    using cached_small_read_eq [OF assms(1) n] by blast
  moreover have "s\<lparr>v_cache := v_cache s\<rparr> = s"
    by simp
  ultimately show ?thesis
    using assms(2)
    by (auto simp: open_file_def cached_small_read_for_entry_def st_bind_def ask_def st_ok_def not_less
        intro: exI [of _ c] exI [of _ "v_cache s"])
qed

lemma read_inode_value:
  assumes "vfs_inv {} s" "open_file s fd e n"
  shows "\<exists>store. read_regular_inode_at (fe_inode_id e) offset len s = (Ok (take len (drop offset (pn_data n))), s\<lparr>v_store := store\<rparr>)
    \<and> vs_descriptions store = vs_descriptions (v_store s)"
proof -
  have "\<not> attr_is_directory (pn_attr n)"
    using assms inodes_node_ok [of "v_tree s" "fe_inode_id e" n]
    by (simp add: open_file_def vfs_inv_def node_ok_def lookup_inode_def node_is_directory_def)
  then show ?thesis
    using assms(2)
    by (auto simp: read_regular_inode_at_def open_file_def readable_node_def st_bind_def ask_def st_ok_def in_vfs_store_def
        read_regular_node_at_def read_memory_at_def intro!: exI [of _ "v_store s"])
qed

lemma pread_value:
  assumes "vfs_inv {} s" "open_file s fd e n"
  shows "fst (vfs_pread fd offset len s) = Ok (take len (drop offset (pn_data n)))"
proof -
  obtain c where c: "cached_small_read_for_entry e offset len s =
    (Ok (if length (pn_data n) \<le> SMALL_READ_CACHE_LIMIT \<or> len = 0 then Some (take len (drop offset (pn_data n))) else None), s\<lparr>v_cache := c\<rparr>)"
    using small_read_value [OF assms] by blast
  have "vfs_inv {} (s\<lparr>v_cache := c\<rparr>)"
    using c after_small_read [OF assms(1), where Q = "\<lambda>_. vfs_inv {}", of len e offset] by simp
  moreover have "open_file (s\<lparr>v_cache := c\<rparr>) fd e n"
    using assms(2) by (simp add: open_file_def)
  ultimately have "fst (read_regular_inode_at (fe_inode_id e) offset len (s\<lparr>v_cache := c\<rparr>)) = Ok (take len (drop offset (pn_data n)))"
    using read_inode_value [of "s\<lparr>v_cache := c\<rparr>" fd e n offset len] by auto
  then show ?thesis
    using assms(2) c
    by (simp add: open_file_def vfs_pread_def cached_small_read_at_def vfs_entry_def st_bind_def ask_def st_ok_def regular_read_request_def)
qed

text \<open>The content of a file after a write: the old bytes, zeroes where the write starts behind the end, and the
  new bytes.\<close>

definition overlay :: "u8 list \<Rightarrow> nat \<Rightarrow> u8 list \<Rightarrow> u8 list" where
  "overlay old offset data =
     map (\<lambda>j. if offset \<le> j \<and> j < offset + length data then data ! (j - offset) else if j < length old then old ! j else 0)
       [0..<max (length old) (offset + length data)]"

lemma overlay_written: "take (length data) (drop offset (overlay old offset data)) = data"
  by (rule nth_equalityI) (auto simp: overlay_def)

lemma splice_overlay:
  "splice offset data (if length old < offset + length data then vec_resize (offset + length data) old else old) = overlay old offset data"
  by (rule nth_equalityI) (auto simp: overlay_def splice_def vec_resize_def nth_append)

lemma write_at_value:
  assumes "node_write_at files offset data n = (Ok k, n')" "pn_deferred_host_path n = None"
  shows "k = length data" "pn_data n' = overlay (pn_data n) offset data" "pn_kind n' = NFile" "pn_deferred_host_path n' = None"
  using assms splice_overlay [of offset data "pn_data n"]
  by (auto simp: node_write_at_def st_bind_def st_lift_def st_modify_def st_ok_def materialize_deferred_content_def Let_def
      set_data_def result_simps split: if_splits prod.splits result.splits)

lemma pwrite_effect:
  assumes inv: "vfs_inv {} s" and opened: "open_file s fd e n" and run: "vfs_pwrite fd offset data s = (Ok k, s')" and "data \<noteq> []"
  obtains n' where "k = length data" "vfs_inv {} s'" "open_file s' fd e n'" "pn_data n' = overlay (pn_data n) offset data"
proof -
  let ?i = "fe_inode_id e"
  define files where "files = os_file (vs_os (v_store s)) (vs_calls (v_store s))"
  obtain r n' where w: "node_write_at files offset data n = (r, n')"
    by (cases "node_write_at files offset data n")
  have n: "inodes (v_tree s) ?i = Some n" "pn_deferred_host_path n = None"
    using opened by (simp_all add: open_file_def lookup_inode_def)
  have step: "lift_tree_fds (at_inode ?i (\<lambda>files. node_write_at files offset data)) s =
      (r, s\<lparr>v_tree := modify_inode ?i (\<lambda>_. n') (v_tree s), v_store := (v_store s)\<lparr>vs_calls := Suc (vs_calls (v_store s))\<rparr>\<rparr>)"
    using n w by (simp add: lift_tree_fds_def at_inode_def lookup_inode_def store_os_call_def files_def)
  have r: "r = Ok k" "v_tree s' = modify_inode ?i (\<lambda>_. n') (v_tree s)" "v_fds s' = v_fds s"
      "vs_descriptions (v_store s') = vs_descriptions (v_store s)"
    using run opened step
    by (auto simp: vfs_pwrite_def vfs_entry_def st_bind_def ask_def open_file_def st_ok_def invalidate_written_def
        invalidate_opt_def invalidate_inode_cache_def on_cache_def st_modify_def split: result.splits if_splits)
  note w' = write_at_value [OF w [unfolded r(1)] n(2)]
  have "vfs_inv {} s'"
    using pwrite_keeps [OF inv \<open>data \<noteq> []\<close>, of fd offset] run by (simp add: keeps_def)
  moreover have "open_file s' fd e n'"
    using opened n r w' by (simp add: open_file_def lookup_inode_def modify_inode_fun)
  ultimately show ?thesis
    using that w' by blast
qed

text \<open>C10. A write that succeeds is read back: after \<open>pwrite\<close> of \<open>data\<close> at \<open>offset\<close> any \<open>pread\<close> returns the slice of the
  file in which the bytes at \<open>offset\<close> are \<open>data\<close>, the others are as before, and a gap is filled with zeroes; in particular
  reading the same range gives \<open>data\<close> back.  This holds whatever is in the cache, which may hold the file
  as it was.\<close>

theorem pwrite_pread:
  assumes "vfs_reachable s" "open_file s fd e n" "vfs_pwrite fd offset data s = (Ok k, s')" "data \<noteq> []"
  shows "k = length data \<and> fst (vfs_pread fd o' len s') = Ok (take len (drop o' (overlay (pn_data n) offset data)))
    \<and> fst (vfs_pread fd offset (length data) s') = Ok data"
proof -
  obtain n' where "k = length data" "vfs_inv {} s'" "open_file s' fd e n'" "pn_data n' = overlay (pn_data n) offset data"
    by (rule pwrite_effect [OF reachable_inv [OF assms(1)] assms(2-4)])
  then show ?thesis
    using pread_value [of s' fd e n'] overlay_written by simp
qed

lemma demo_open_file: "open_file demo_vfs 0 (demo_entry 3 FRegular [''d'', ''a'']) demo_file_node"
  by (simp add: open_file_def lookup_inode_def can_read_def access_mode_def open_flag_defs demo_file_node_def bare_node_def demo_store_def)

theorem pwrite_pread_witness:
  "\<exists>s'. vfs_pwrite 0 5 [7, 8] demo_vfs = (Ok 2, s') \<and> fst (vfs_pread 0 2 9 s') = Ok [3, 0, 0, 7, 8]
    \<and> fst (vfs_pread 0 5 2 s') = Ok [7, 8]"
proof -
  let ?s = "snd (vfs_pwrite 0 5 [7, 8] demo_vfs)"
  have run: "vfs_pwrite 0 5 [7, 8] demo_vfs = (Ok 2, ?s)"
    by (cases "vfs_pwrite 0 5 [7, 8] demo_vfs")
      (auto simp: vfs_pwrite_def vfs_entry_def st_bind_def ask_def st_ok_def lift_tree_fds_def at_inode_def lookup_inode_def store_os_call_def
        node_write_at_def materialize_deferred_content_def demo_file_node_def bare_node_def U64_MAX_NAT_def ISIZE_MAX_def
        st_lift_def st_modify_def write_slice_def vec_resize_def invalidate_written_def invalidate_opt_def invalidate_inode_cache_def
        on_cache_def can_write_def access_mode_def open_flag_defs demo_store_def demo_entry_def fe_inode_id_def inode_new_def)
  have "take 9 (drop 2 (overlay (pn_data demo_file_node) 5 [7, 8])) = [3, 0, 0, 7, 8]"
    by (simp add: demo_file_node_def overlay_def upt_rec)
  then show ?thesis
    using pwrite_pread [OF demo_reachable demo_open_file run, of 2 9] run by (intro exI [of _ ?s]) (simp add: numeral_2_eq_2)
qed

section \<open>Descriptors\<close>

lemma ends_True [simp]: "ends p (\<lambda>_ _. True) (\<lambda>_. True)"
  by (cases p; cases "fst p") (auto simp: ends_def)

text \<open>The descriptor an operation gets: the least one that is free.\<close>

definition least_free :: "fd_table \<Rightarrow> int \<Rightarrow> bool" where
  "least_free t fd \<longleftrightarrow> 0 \<le> fd \<and> fd_lookup t fd = Err BadFd \<and> (\<forall>x. 0 \<le> x \<and> x < fd \<longrightarrow> fd_lookup t x \<noteq> Err BadFd)"

lemma next_fd_least_free: "next_fd_from t FIRST_ALLOC_FD = Ok fd \<Longrightarrow> least_free t fd"
  by (auto simp: next_fd_from_def FIRST_ALLOC_FD_def next_fd_loop_least least_free_def fd_lookup_def bt_contains_def ok_or_def split: option.splits)

lemma fd_get_put [simp]:
  "fd_lookup (t\<lparr>ft_entries := bt_insert fd e m\<rparr>) x = (if x = fd then Ok e else ok_or (bt_get m x) BadFd)"
  by (simp add: fd_lookup_def bt_get_insert ok_or_def)

lemma set_cloexec_Ok:
  "set_cloexec fd b s = (Ok u, s') \<longleftrightarrow> bt_contains (ft_entries (fst s)) fd \<and>
    s' = on_table (\<lambda>t. t\<lparr>ft_cloexec := (if b then bs_insert fd else bs_remove fd) (ft_cloexec t)\<rparr>) s"
  by (auto simp: set_cloexec_def)

lemma register_descriptions [simp]: "vs_descriptions (register_fd_endpoint f s) = vs_descriptions s"
  by (simp add: register_fd_endpoint_def modify_pipe_def split: option.splits)

lemma insert_open_effect:
  assumes "insert_open f flags path s = (Ok fd, s')"
  shows "least_free (fst s) fd"
    "fd_lookup (fst s') x = (if x = fd then Ok \<lparr>fe_file = f, fe_description = vs_next (snd s), fe_path = path\<rparr> else fd_lookup (fst s) x)"
    "vs_descriptions (snd s') = (vs_descriptions (snd s))(vs_next (snd s) := \<lparr>fd_offset = 0, fd_flags = flags, fd_dir_cursor = 0\<rparr>)"
proof -
  have run: "next_fd_from (fst s) FIRST_ALLOC_FD = Ok fd" "insert_entry fd f (flag_cloexec flags) flags path s = (Ok fd, s')"
    using assms next_fd_loop_least
    by (auto simp: insert_open_def with_next_fd_def st_bind_def st_lift_def insert_entry_def st_ok_def split: result.splits prod.splits if_splits)
  show "least_free (fst s) fd"
    by (rule next_fd_least_free [OF run(1)])
  show "fd_lookup (fst s') x = (if x = fd then Ok \<lparr>fe_file = f, fe_description = vs_next (snd s), fe_path = path\<rparr> else fd_lookup (fst s) x)"
    "vs_descriptions (snd s') = (vs_descriptions (snd s))(vs_next (snd s) := \<lparr>fd_offset = 0, fd_flags = flags, fd_dir_cursor = 0\<rparr>)"
    using run(2)
    by (auto simp: insert_entry_def new_description_def st_bind_def st_modify_def st_ok_def put_entry_def on_table_def on_store_def
        set_cloexec_Ok fd_lookup_def bt_get_insert ok_or_def split: if_splits result.splits prod.splits)
qed

lemma open_create_fds: "after (open_create p missing flags mode) s (\<lambda>_ s'. v_fds s' = v_fds s \<and> v_store s' = v_store s) (\<lambda>_. True)"
  by (simp add: open_create_def after_simps)

text \<open>C1. \<open>openat\<close> answers the least free descriptor.  Afterwards it is bound to a fresh description at offset zero with
  the given flags, and every other descriptor is bound as before.\<close>

theorem openat_least_fd:
  assumes "openat dirfd path flags mode s = (Ok fd, s')"
  shows "least_free (v_fds s) fd
    \<and> (\<exists>e. fd_lookup (v_fds s') fd = Ok e \<and> entry_offset e (v_store s') = 0 \<and> entry_flags e (v_store s') = flags)
    \<and> (\<forall>x. x \<noteq> fd \<longrightarrow> fd_lookup (v_fds s') x = fd_lookup (v_fds s) x)"
proof -
  let ?post = "\<lambda>fd s'. least_free (v_fds s) fd
    \<and> (\<exists>e. fd_lookup (v_fds s') fd = Ok e \<and> entry_offset e (v_store s') = 0 \<and> entry_flags e (v_store s') = flags)
    \<and> (\<forall>x. x \<noteq> fd \<longrightarrow> fd_lookup (v_fds s') x = fd_lookup (v_fds s) x)"
  have ins: "after (lift_fds (insert_open f flags p)) t (\<lambda>fd s'. ?post fd s') (\<lambda>_. True)" if "v_fds t = v_fds s" for f p t
    using that insert_open_effect [of f flags p "(v_fds t, v_store t)"]
    by (auto simp: ends_def lift_fds_def split: prod.splits result.splits)
  have opt: "after (invalidate_opt i) t Q (\<lambda>_. True)" if "\<And>c. Q () (t\<lparr>v_cache := c\<rparr>)" for i t and Q :: "unit \<Rightarrow> vfs \<Rightarrow> bool"
    using that by (cases i) (auto simp: invalidate_opt_def invalidate_inode_cache_def after_simps intro: that [of "v_cache t", simplified])
  have fin: "after (open_finish p flags i j) t ?post (\<lambda>_. True)" if "v_fds t = v_fds s" for p i j t
    unfolding open_finish_def
    by (auto simp: after_simps intro!: ends_mono [OF ins] that opt)
  have trunc: "after (lift_tree_fds (at_path p node_truncate)) t (\<lambda>_ t'. v_fds t' = v_fds t) (\<lambda>_. True)" for p t
    by (auto simp: ends_def lift_tree_fds_def at_path_def at_inode_def store_os_call_def split: prod.splits result.splits option.splits)
  have "after (openat dirfd path flags mode) s ?post (\<lambda>_. True)"
    unfolding openat_def open_existing_def
    by (auto simp: after_simps intro!: ends_mono [OF open_create_fds] fin ends_mono [OF trunc])
  then show ?thesis
    using assms by simp
qed

lemma demo_lookup_image [simp]:
  "lookup_path demo_image p = (if p = [''d'', ''a''] then Some demo_file_node else if p = [''d''] then Some demo_dir_node
     else if p = [] then Some (node_directory 1) else None)"
  by (simp add: lookup_path_def)

lemma demo_nodes [simp]:
  "pn_inode_id demo_file_node = 3" "pn_inode_id demo_dir_node = 2" "pn_kind demo_file_node = NFile" "pn_kind demo_dir_node = NDirectory"
  "node_is_directory demo_dir_node" "\<not> node_is_directory demo_file_node"
  "pn_attr demo_file_node = attr_regular 3 0x1b6 3" "pn_attr demo_dir_node = attr_directory 2 0x1ed"
  by (simp_all add: demo_file_node_def demo_dir_node_def node_is_directory_def bare_node_def)

lemma demo_resolve:
  "resolve_at demo_vfs AT_FDCWD ''/d/a'' follow b = Ok \<lparr>rp_guest_path = [''d'', ''a''], rp_inode = Some 3\<rparr>"
  by (simp add: resolve_at_def resolve_checked_def resolve_path_with_options_def resolve_def has_nul_def starts_with_slash_def
      split_guest_components_def SLASH_def walk.simps(2) Let_def enforce_jail_def gp_starts_with_def lookup_symlink_placeholder_def
      rootfs_new_def check_traversal_permissions_def check_access_def access_defs attr_directory_def attr_new_def attr_is_directory_def
      kind_bits_def mode_defs)

lemma demo_next: "next_fd_from demo_fds FIRST_ALLOC_FD = Ok 2"
  by (simp add: next_fd_from_def FIRST_ALLOC_FD_def next_fd_loop.simps demo_fds_def bt_contains_def bt_get_insert I32_MAX_def)

theorem openat_least_fd_witness:
  "least_free (v_fds demo_vfs) 2 \<and> fst (openat AT_FDCWD ''/d/a'' O_RDONLY 0 demo_vfs) = Ok 2"
proof -
  let ?r = "openat AT_FDCWD ''/d/a'' O_RDONLY 0 demo_vfs"
  define g where "g f fl p = snd (insert_open f fl p (demo_fds, demo_store))" for f fl p
  have ins: "insert_open f fl p (demo_fds, demo_store) = (Ok 2, g f fl p)" for f fl p
    unfolding g_def by (metis insert_open_Ok [OF demo_next] prod.collapse)
  have "fst ?r = Ok 2"
    by (simp add: openat_def st_bind_def ask_def demo_resolve open_create_def open_existing_def open_flag_defs open_node_checks_def
        flag_create_def flag_directory_def flag_truncate_def flag_nofollow_def can_write_def can_read_def access_mode_def
        attr_is_directory_def attr_is_symlink_def mode_defs open_access_mode_def check_access_def access_defs st_ok_def st_lift_def
        attr_regular_def attr_new_def kind_bits_def
        open_finish_def lift_fds_def ins [of _ 0] case_prod_beta invalidate_opt_def)
  then show ?thesis
    using openat_least_fd [of AT_FDCWD "''/d/a''" O_RDONLY 0 demo_vfs 2 "snd ?r"] by (cases ?r) simp
qed

lemma fd_dup_effect:
  assumes "fd_dup fd FIRST_ALLOC_FD b s = (Ok fd', s')"
  shows "least_free (fst s) fd'" "fd_lookup (fst s') x = (if x = fd' then fd_lookup (fst s) fd else fd_lookup (fst s) x)"
    "vs_descriptions (snd s') = vs_descriptions (snd s)"
proof -
  obtain e where e: "fd_lookup (fst s) fd = Ok e" "next_fd_from (fst s) FIRST_ALLOC_FD = Ok fd'"
      "st_bind (st_modify (put_entry fd' e)) (\<lambda>_. st_bind (set_cloexec fd' b) (\<lambda>_. st_ok fd')) s = (Ok fd', s')"
    using assms
    by (auto simp: fd_dup_def with_next_fd_def st_bind_def st_lift_def st_ok_def st_modify_def FIRST_ALLOC_FD_def
        split: result.splits prod.splits if_splits)
  show "least_free (fst s) fd'"
    by (rule next_fd_least_free [OF e(2)])
  show "fd_lookup (fst s') x = (if x = fd' then fd_lookup (fst s) fd else fd_lookup (fst s) x)"
    "vs_descriptions (snd s') = vs_descriptions (snd s)"
    using e(1,3)
    by (auto simp: st_bind_def st_modify_def st_ok_def put_entry_def on_table_def on_store_def set_cloexec_Ok fd_lookup_def bt_get_insert
        ok_or_def split: result.splits prod.splits)
qed

text \<open>C1. \<open>dup\<close> answers the least free descriptor and makes it share the open file: a seek through either descriptor
  moves both, and no other descriptor changes its binding.\<close>

theorem dup_shares_offset:
  assumes "vfs_dup fd s = (Ok fd', s')"
  shows "least_free (v_fds s) fd' \<and> fd_lookup (v_fds s') fd' = fd_lookup (v_fds s) fd
    \<and> (\<forall>x. x \<noteq> fd' \<longrightarrow> fd_lookup (v_fds s') x = fd_lookup (v_fds s) x)
    \<and> (\<forall>a b offset whence pos s'' e. {a, b} \<subseteq> {fd, fd'} \<and> lseek a offset whence s' = (Ok pos, s'') \<and> fd_lookup (v_fds s'') b = Ok e
        \<longrightarrow> entry_offset e (v_store s'') = pos)"
proof -
  have run: "fd_dup fd FIRST_ALLOC_FD False (v_fds s, v_store s) = (Ok fd', v_fds s', v_store s')"
    using assms by (auto simp: vfs_dup_def lift_fds_def split: prod.splits)
  note eff = fd_dup_effect [OF run, unfolded fst_conv snd_conv]
  have "entry_offset e (v_store s'') = pos"
    if ab: "{a, b} \<subseteq> {fd, fd'}" and l: "lseek a offset whence s' = (Ok pos, s'')" "fd_lookup (v_fds s'') b = Ok e"
    for a b offset whence pos s'' e
  proof -
    have "fd_lookup (v_fds s') a = fd_lookup (v_fds s) fd" "fd_lookup (v_fds s') b = fd_lookup (v_fds s) fd"
      using ab eff(2) by auto
    then show ?thesis
      using l
      by (auto simp: lseek_def lift_fds_def seek_def with_entry_def st_bind_def st_lift_def on_store_def modify_description_def Let_def
          split: prod.splits result.splits if_splits)
  qed
  then show ?thesis
    using eff by simp blast
qed

theorem dup_shares_offset_witness:
  "\<exists>s' s'' e. vfs_dup 0 demo_vfs = (Ok 2, s') \<and> lseek 2 1 Seek_End s' = (Ok 4, s'') \<and> fd_lookup (v_fds s'') 0 = Ok e
     \<and> entry_offset e (v_store s'') = 4"
proof -
  obtain s' where run: "vfs_dup 0 demo_vfs = (Ok 2, s')" and rest: "v_tree s' = demo_image"
    by (simp add: vfs_dup_def lift_fds_def fd_dup_def FIRST_ALLOC_FD_def with_next_fd_def st_bind_def st_lift_def
        demo_next [unfolded FIRST_ALLOC_FD_def] st_modify_def put_entry_def on_table_def on_store_def set_cloexec_def bt_contains_def
        bt_get_insert st_ok_def)
  note dup = dup_shares_offset [OF run]
  have fd: "fd_lookup (v_fds s') 2 = Ok (demo_entry 3 FRegular [''d'', ''a''])" "fd_lookup (v_fds s') 0 = Ok (demo_entry 3 FRegular [''d'', ''a''])"
    using dup by simp_all
  obtain s'' where seek: "lseek 2 1 Seek_End s' = (Ok 4, s'')" "v_fds s'' = v_fds s'"
    by (simp add: lseek_def lift_fds_def seek_def with_entry_def st_bind_def st_lift_def fd rest lookup_inode_def is_seekable_def
        attr_regular_def attr_new_def Let_def U64_MAX_NAT_def on_store_def)
  have "{2, 0} \<subseteq> {0, 2::int}"
    by simp
  then have "entry_offset (demo_entry 3 FRegular [''d'', ''a'']) (v_store s'') = 4"
    using dup seek fd(2) by metis
  then show ?thesis
    using run seek fd(2) by metis
qed

end
