(* ===== verification/Vfs_Dirs.thy ===== *)
theory Vfs_Dirs
  imports Vfs_Files
begin

text \<open>
  Names in the virtual file system: listing a directory, renaming a subtree, removing the name of an open file.
\<close>

section \<open>Listing a directory\<close>

text \<open>What a process does to list a directory: it calls \<open>getdents64\<close> until the answer is empty, at most \<open>n\<close> times.\<close>

fun list_dir :: "nat \<Rightarrow> int \<Rightarrow> nat \<Rightarrow> directory_entry list vfs_op" where
  "list_dir 0 fd max_bytes = st_err InvalidPath"
| "list_dir (Suc n) fd max_bytes =
     st_bind (vfs_getdents64 fd max_bytes) (\<lambda>es.
     if es = [] then st_ok [] else st_bind (list_dir n fd max_bytes) (\<lambda>rest. st_ok (es @ rest)))"

text \<open>An open directory with the entries \<open>es\<close>, read up to \<open>cursor\<close>.\<close>

definition open_dir :: "vfs \<Rightarrow> int \<Rightarrow> fd_entry \<Rightarrow> guest_path \<Rightarrow> directory_entry list \<Rightarrow> nat \<Rightarrow> bool" where
  "open_dir s fd e p es cursor \<longleftrightarrow>
     fd_lookup (v_fds s) fd = Ok e \<and> fe_kind e = FDirectory \<and> fe_path e = Some p \<and> \<not> is_proc_self_fd_directory (v_tree s) p \<and>
     static_directory_entries (v_tree s) p = Ok es \<and> fd_dir_cursor (entry_description e (v_store s)) = cursor"

lemma fitting_prefix: "\<exists>rest. es = fitting max_bytes used es @ rest"
  by (induction max_bytes used es rule: fitting.induct) auto

lemma fitting_bytes: "used \<le> max_bytes \<Longrightarrow> used + sum_list (map record_len (fitting max_bytes used es)) \<le> max_bytes"
  by (induction max_bytes used es rule: fitting.induct) auto

lemma fitting_progress: "es \<noteq> [] \<Longrightarrow> record_len (hd es) \<le> max_bytes \<Longrightarrow> fitting max_bytes 0 es \<noteq> []"
  by (cases es) auto

lemma first_fits: "drop c es \<noteq> [] \<Longrightarrow> \<forall>x \<in> set es. record_len x \<le> max_bytes \<Longrightarrow> fitting max_bytes 0 (drop c es) \<noteq> []"
  by (metis fitting_progress hd_in_set in_set_dropD)

lemma drop_fitting: "drop (length (fitting max_bytes used es)) es = rest \<Longrightarrow> es = fitting max_bytes used es @ rest"
  using fitting_prefix [of es max_bytes used] by (metis append_eq_conv_conj)

lemma getdents_step:
  assumes inv: "vfs_inv {} s" and dir: "open_dir s fd e p es cursor"
    and fits: "\<forall>x \<in> set es. record_len x \<le> max_bytes"
  obtains s' where "vfs_getdents64 fd max_bytes s = (Ok (fitting max_bytes 0 (drop cursor es)), s')" "vfs_inv {} s'"
    "open_dir s' fd e p es (cursor + length (fitting max_bytes 0 (drop cursor es)))"
proof -
  let ?got = "fitting max_bytes 0 (drop cursor es)"
  have nonempty: "?got \<noteq> []" if "drop cursor es \<noteq> []"
    using that fits by (rule first_fits)
  obtain n where n: "lookup_path (v_tree s) p = Some n"
    using dir static_entries_directory [of "v_tree s" p es] by (auto simp: open_dir_def)
  then have "names (v_tree s) p = Some (pn_inode_id n)"
    using inv lookup_path_id by (auto simp: vfs_inv_def)
  then obtain c where c: "cached_directory_entries (pn_inode_id n) p s = (Ok es, s\<lparr>v_cache := c\<rparr>)"
    using cached_entries_eq [OF inv] dir by (force simp: open_dir_def)
  have "\<exists>s'. vfs_getdents64 fd max_bytes s = (Ok ?got, s') \<and> open_dir s' fd e p es (cursor + length ?got)"
    using dir n c nonempty
    by (auto simp: open_dir_def vfs_getdents64_def st_bind_def ask_def directory_listing_source_def lift_fds_def
        consume_directory_entries_def with_entry_def st_lift_def Let_def on_store_def modify_description_def)
  then show ?thesis
    using that getdents_keeps [OF inv, of fd max_bytes] by (auto simp: keeps_def)
qed

lemma list_dir_value:
  assumes "vfs_inv {} s" "open_dir s fd e p es cursor" "\<forall>x \<in> set es. record_len x \<le> max_bytes" "length es - cursor < n"
  shows "fst (list_dir n fd max_bytes s) = Ok (drop cursor es)"
  using assms
proof (induction n arbitrary: s cursor)
  case (Suc n)
  let ?got = "fitting max_bytes 0 (drop cursor es)"
  obtain s' where s': "vfs_getdents64 fd max_bytes s = (Ok ?got, s')" "vfs_inv {} s'" "open_dir s' fd e p es (cursor + length ?got)"
    by (rule getdents_step [OF Suc.prems(1-3)])
  have split: "drop cursor es = ?got @ drop (cursor + length ?got) es"
    using drop_fitting [of max_bytes 0 "drop cursor es"] by (simp add: add.commute)
  show ?case
  proof (cases "?got = []")
    case True
    then have "drop cursor es = []"
      using first_fits Suc.prems(3) by blast
    then show ?thesis
      using s'(1) by (simp add: st_bind_def st_ok_def)
  next
    case False
    have "fst (list_dir n fd max_bytes s') = Ok (drop (cursor + length ?got) es)"
    proof (rule Suc.IH [OF s'(2,3) Suc.prems(3)])
      have "cursor < length es"
        using False by (metis drop_all fitting.simps(1) not_le)
      then show "length es - (cursor + length ?got) < n"
        using Suc.prems(4) False by (cases "length ?got") auto
    qed
    then show ?thesis
      using s'(1) False split by (cases "list_dir n fd max_bytes s'") (simp add: st_bind_def st_ok_def)
  qed
qed simp

text \<open>What the entries behind the two dots are: the names of the directory, in order, each with its inode.\<close>

lemma entries_of_directory:
  assumes ok: "tree_ok t" and es: "static_directory_entries t p = Ok es"
  shows "map de_name (take 2 es) = [''.'', ''..'']" "sorted (map de_name (drop 2 es))" "distinct (map de_name (drop 2 es))"
    "(\<exists>x \<in> set (drop 2 es). de_name x = name \<and> de_inode x = i) \<longleftrightarrow> names t (p @ [name]) = Some i"
proof -
  obtain cs where cs: "static_children t p = Ok cs" "directory_entries_from_children t p cs = Ok es"
    using es by (auto simp: static_directory_entries_def result_simps)
  have "(case x of (n, i) \<Rightarrow> (dc_name c, dc_inode c) = (n, i))"
    if "(case x of (name, j) \<Rightarrow> and_then (ok_or (lookup_inode t j) InvalidPath) (\<lambda>child.
      Ok \<lparr>dc_name = name, dc_inode = pn_inode_id child, dc_file_type = dirent_type (pn_attr child)\<rparr>)) = (Ok c :: directory_child vfs_result)" for x c
    using that inodes_node_ok [OF ok] by (fastforce simp: result_simps lookup_inode_def node_ok_def)
  then have "list_all2 (\<lambda>x c. (dc_name c, dc_inode c) = x) (children_of_path t p) cs"
    using cs(1)
    by (auto simp: static_children_def result_simps collect_results_Ok split: if_splits elim!: list_all2_mono)
  then have kids: "map (\<lambda>c. (dc_name c, dc_inode c)) cs = children_of_path t p"
    by (induction rule: list_all2_induct) auto
  obtain n where es': "es = [\<lparr>de_inode = n, de_offset = 1, de_file_type = DT_DIR, de_name = ''.''\<rparr>,
      \<lparr>de_inode = n, de_offset = 2, de_file_type = DT_DIR, de_name = ''..''\<rparr>]
      @ map (\<lambda>(index, c). child_entry index c) (enumerate 0 (sort_key dc_name cs))"
    using cs(2) by (auto simp: directory_entries_from_children_def result_simps)
  have "map (\<lambda>x. (de_name x, de_inode x)) (drop 2 es) = map (\<lambda>c. (dc_name c, dc_inode c)) (map snd (enumerate 0 (sort_key dc_name cs)))"
    by (simp add: es' child_entry_def comp_def case_prod_beta del: map_snd_enumerate)
  then have tail: "map (\<lambda>x. (de_name x, de_inode x)) (drop 2 es) = map (\<lambda>c. (dc_name c, dc_inode c)) (sort_key dc_name cs)"
    by simp
  from arg_cong [OF this, of "map fst"] have names: "map de_name (drop 2 es) = map dc_name (sort_key dc_name cs)"
    by (simp add: comp_def)
  have "distinct (map fst (children_of_path t p))"
    by (cases "bt_get (pt_children t) p") (simp_all add: children_of_path_def keys_sorted_distinct)
  then have "distinct (map dc_name cs)"
    by (simp add: comp_def flip: kids)
  then show "sorted (map de_name (drop 2 es))" "distinct (map de_name (drop 2 es))"
    by (simp_all add: names) (simp add: distinct_map inj_on_def)
  have "(\<exists>x \<in> set (drop 2 es). de_name x = name \<and> de_inode x = i) \<longleftrightarrow> (name, i) \<in> set (map (\<lambda>x. (de_name x, de_inode x)) (drop 2 es))"
    by auto
  also have "\<dots> \<longleftrightarrow> (name, i) \<in> set (children_of_path t p)"
    by (simp add: tail flip: kids)
  finally show "(\<exists>x \<in> set (drop 2 es). de_name x = name \<and> de_inode x = i) \<longleftrightarrow> names t (p @ [name]) = Some i"
    using tree_invD(6) [OF ok [unfolded tree_ok_def], of p name] by (simp add: children_of_path_child)
  show "map de_name (take 2 es) = [''.'', ''..'']"
    by (simp add: es')
qed

text \<open>C32. Listing a directory is complete: a process that calls \<open>getdents64\<close> until it gets nothing, with a buffer that
  holds any single entry, ends after at most one call per entry, and what it got is \<open>.\<close>, \<open>..\<close> and then exactly the names of
  the directory in order, each once and with its inode.  No single answer is longer than the buffer.\<close>

theorem listing_complete:
  assumes "vfs_reachable s" "open_dir s fd e p es 0" "\<forall>x \<in> set es. record_len x \<le> max_bytes" "length es < n"
  shows "fst (list_dir n fd max_bytes s) = Ok es \<and> map de_name (take 2 es) = [''.'', ''..'']
    \<and> sorted (map de_name (drop 2 es)) \<and> distinct (map de_name (drop 2 es))
    \<and> (\<forall>name i. (\<exists>x \<in> set (drop 2 es). de_name x = name \<and> de_inode x = i) \<longleftrightarrow> bt_get (pt_nodes (v_tree s)) (p @ [name]) = Some i)
    \<and> (\<forall>got s'. vfs_getdents64 fd max_bytes s = (Ok got, s') \<longrightarrow> sum_list (map record_len got) \<le> max_bytes)"
proof -
  note inv = reachable_inv [OF assms(1)]
  have ok: "tree_ok (v_tree s)" "static_directory_entries (v_tree s) p = Ok es"
    using inv assms(2) by (simp_all add: vfs_inv_def open_dir_def)
  have "fst (list_dir n fd max_bytes s) = Ok es"
    using list_dir_value [OF inv assms(2,3)] assms(4) by simp
  moreover have "sum_list (map record_len got) \<le> max_bytes" if "vfs_getdents64 fd max_bytes s = (Ok got, s')" for got s'
    using fitting_bytes [of 0 max_bytes es] getdents_step [OF inv assms(2,3)] that by (metis add_0 drop0 le0 prod.inject result.inject(1))
  ultimately show ?thesis
    using entries_of_directory [OF ok] by auto
qed

theorem listing_complete_witness:
  "\<exists>es. fst (list_dir 4 1 40 demo_vfs) = Ok es \<and> map de_name es = [''.'', ''..'', ''a'']"
proof -
  let ?es = "[\<lparr>de_inode = 2, de_offset = 1, de_file_type = DT_DIR, de_name = ''.''\<rparr>,
      \<lparr>de_inode = 2, de_offset = 2, de_file_type = DT_DIR, de_name = ''..''\<rparr>, child_entry 0 \<lparr>dc_name = ''a'', dc_inode = 3, dc_file_type = DT_REG\<rparr>]"
  have "open_dir demo_vfs 1 (demo_entry 2 FDirectory [''d'']) [''d''] ?es 0"
    by (simp add: open_dir_def is_proc_self_fd_directory_def static_directory_entries_def static_children_def children_of_path_def
        demo_image_def [THEN arg_cong, of pt_children] bt_get_insert lookup_inode_def directory_entries_from_children_def demo_store_def
        dirent_type_def Let_def mode_defs bt_simps enumerate_eq_zip child_entry_def)
  moreover have "\<forall>x \<in> set ?es. record_len x \<le> 40"
    by (simp add: record_len_def dirent_align_up_def child_entry_def)
  ultimately show ?thesis
    using listing_complete [OF demo_reachable, of 1 _ _ ?es 40 4] by (intro exI [of _ ?es]) (simp add: child_entry_def)
qed

section \<open>Renaming\<close>

text \<open>The tree after a subtree was moved from \<open>a\<close> to \<open>b\<close>: everything below \<open>a\<close> is found below \<open>b\<close>, nothing is left at \<open>a\<close>,
  all other names are as before, and so is every inode but the one that \<open>b\<close> named.\<close>

definition moved_tree :: "guest_path \<Rightarrow> guest_path \<Rightarrow> path_tree \<Rightarrow> path_tree \<Rightarrow> bool" where
  "moved_tree a b t t' \<longleftrightarrow>
     (\<forall>q. bt_get (pt_nodes t') (b @ q) = bt_get (pt_nodes t) (a @ q)) \<and> (\<forall>q. bt_get (pt_nodes t') (a @ q) = None) \<and>
     (\<forall>p. \<not> gp_starts_with p a \<and> \<not> gp_starts_with p b \<longrightarrow> bt_get (pt_nodes t') p = bt_get (pt_nodes t) p) \<and>
     (\<forall>i. bt_get (pt_nodes t) b \<noteq> Some i \<longrightarrow> lookup_inode t' i = lookup_inode t i)"

lemma move_effect:
  assumes ok: "tree_ok (v_tree s)" and ab: "incomparable a b" and b: "names (v_tree s) b = None"
  shows "after (st_bind (move_path a b) (\<lambda>_. invalidate_inode_caches is)) s (\<lambda>_ s'. moved_tree a b (v_tree s) (v_tree s')) R"
proof -
  obtain t' where t': "move_links a b (v_tree s) = (Ok (), t')" "names t' = (\<lambda>q. names (v_tree s) (swap_prefix a b q))"
      "pt_inodes t' = pt_inodes (v_tree s)"
    by (rule move_links_effect [OF ok ab b])
  have "moved_tree a b (v_tree s) t'"
    using t'(2,3) ab nothing_below [OF ok b] by (simp add: moved_tree_def lookup_inode_def)
  then show ?thesis
    by (simp add: after_simps move_path_def rebind_fds_def invalidate_inode_caches_def) (simp add: ends_def t'(1))
qed

lemma moved_after_unlink:
  assumes "moved_tree a b t1 t'" "names t1 = (names t)(b := None)" "names t b = Some j" "incomparable a b"
    "\<And>k. k \<noteq> j \<Longrightarrow> inodes t1 k = inodes t k"
  shows "moved_tree a b t t'"
proof -
  have "a @ q \<noteq> b" "p \<noteq> b" if "\<not> gp_starts_with p b" for p q
    using assms(4) that by (auto simp: incomparable_def gp_starts_with_iff)
  then show ?thesis
    using assms by (auto simp: moved_tree_def lookup_inode_def incomparable_def gp_starts_with_iff)
qed

lemma rename_replace_effect:
  assumes inv: "vfs_inv {} s" and a: "names (v_tree s) a = Some i" and "b \<noteq> []" "a \<noteq> b"
    and checks: "rename_checks s flags a i b (names (v_tree s) b) = Ok u" "flags AND RENAME_EXCHANGE = 0"
  shows "after (rename_replace a i b (names (v_tree s) b)) s (\<lambda>_ s'. moved_tree a b (v_tree s) (v_tree s')) (\<lambda>_. True)"
proof -
  let ?t = "v_tree s"
  have ok: "tree_ok ?t"
    using inv by (simp add: vfs_inv_def)
  obtain n where n: "inodes ?t i = Some n" "\<not> (node_is_directory n \<and> gp_starts_with b a)" "ensure_parent_dir ?t b = Ok ()"
    using checks by (auto simp: rename_checks_def result_simps lookup_inode_def split: if_splits)
  note incomp = rename_incomparable [OF ok a n(1) \<open>a \<noteq> b\<close> n(2,3)]
  show ?thesis
  proof (cases "names ?t b")
    case None
    then show ?thesis
      using move_effect [OF ok incomp None, of "[parent_inode ?t a, parent_inode ?t b, None]"]
      by (simp add: rename_replace_def ends_def st_bind_def st_ok_def Let_def)
  next
    case (Some j)
    then obtain m where m: "inodes ?t j = Some m"
      using names_live [OF ok] by fastforce
    show ?thesis
    proof (cases "validate_rename_replacement ?t i j b")
      case (Ok u)
      then have same: "node_is_directory n = node_is_directory m" "node_is_directory m \<Longrightarrow> is_empty_directory ?t b"
        using n(1) m by (auto simp: validate_rename_replacement_def result_simps lookup_inode_def split: if_splits)
      have leaf: "names ?t (b @ [x]) = None" for x
        using leaf_of_nondirectory [OF ok Some m] empty_directory_iff [OF ok, of b] same(2) by blast
      have ab: "incomparable a b"
        by (rule incomp) (use same m Some in auto)
      have "after (st_bind (st_bind (lift_tree (remove_path_link b)) (\<lambda>_. drop_link j)) (\<lambda>_ s. st_bind (move_path a b) (\<lambda>_.
          invalidate_inode_caches [parent_inode (v_tree s) a, parent_inode (v_tree s) b, Some j]) s)) s
          (\<lambda>_ s'. moved_tree a b ?t (v_tree s')) (\<lambda>_. True)"
        unfolding after_bind [of "st_bind _ _"]
      proof (rule unlink_name [OF inv \<open>b \<noteq> []\<close> Some leaf])
        fix s' d
        assume s': "vfs_inv {j, d} s'" "names (v_tree s') = (names ?t)(b := None)" "\<And>k. k \<noteq> j \<Longrightarrow> inodes (v_tree s') k = inodes ?t k"
        have "after (st_bind (move_path a b) (\<lambda>_. invalidate_inode_caches is)) s' (\<lambda>_ s'. moved_tree a b ?t (v_tree s')) (\<lambda>_. True)" for "is"
          by (rule ends_mono [OF move_effect [where R = "\<lambda>_. True"]])
            (use s' ab Some in \<open>auto simp: vfs_inv_def intro: moved_after_unlink\<close>)
        then show "after (\<lambda>s. st_bind (move_path a b) (\<lambda>_.
            invalidate_inode_caches [parent_inode (v_tree s) a, parent_inode (v_tree s) b, Some j]) s) s'
            (\<lambda>_ s'. moved_tree a b ?t (v_tree s')) (\<lambda>_. True)"
          by (simp add: ends_def)
      qed
      then show ?thesis
        using Ok same m Some by (simp add: ends_def rename_replace_over lookup_inode_def)
    qed (use m Some in \<open>simp_all add: ends_def rename_replace_over lookup_inode_def\<close>)
  qed
qed

text \<open>C11. A rename that succeeds moves the whole subtree, and only it: what was at or below the old path is found at
  the same place below the new one, nothing is left at the old path, every other name keeps its inode, and the
  contents of all inodes stay, except for the file or empty directory that the new path named before.\<close>

theorem rename_moves_subtree:
  assumes "vfs_reachable s" "renameat2 olddirfd oldpath newdirfd newpath flags s = (Ok (), s')" "flags AND RENAME_EXCHANGE = 0"
    and paths: "resolve_at s olddirfd oldpath False False = Ok old" "resolve_at s newdirfd newpath False False = Ok new"
      "rp_guest_path old \<noteq> rp_guest_path new"
  shows "moved_tree (rp_guest_path old) (rp_guest_path new) (v_tree s) (v_tree s')"
proof -
  note inv = reachable_inv [OF assms(1)]
  have ok: "tree_ok (v_tree s)"
    using inv by (simp add: vfs_inv_def)
  have id: "map_option pn_inode_id (lookup_path (v_tree s) p) = names (v_tree s) p" for p
    using lookup_path_None [OF ok, of p] lookup_path_id [OF ok, of p] by (cases "lookup_path (v_tree s) p") auto
  have "after (renameat2 olddirfd oldpath newdirfd newpath flags) s
      (\<lambda>_ s'. moved_tree (rp_guest_path old) (rp_guest_path new) (v_tree s) (v_tree s')) (\<lambda>_. True)"
    using paths assms(3) resolve_at_inode [OF paths(1)] resolve_at_inode [OF paths(2)] rename_replace_effect [OF inv]
    unfolding renameat2_def by (auto simp: after_simps Let_def ok_or_Ok id)
  then show ?thesis
    using assms(2) by simp
qed

lemma demo_resolve_top:
  "resolve_at demo_vfs AT_FDCWD ''/d'' follow b = Ok \<lparr>rp_guest_path = [''d''], rp_inode = Some 2\<rparr>"
  "resolve_at demo_vfs AT_FDCWD ''/e'' follow b = Ok \<lparr>rp_guest_path = [''e''], rp_inode = None\<rparr>"
  by (simp_all add: resolve_at_def resolve_checked_def resolve_path_with_options_def resolve_def has_nul_def starts_with_slash_def
      split_guest_components_def SLASH_def walk.simps(2) Let_def enforce_jail_def gp_starts_with_def lookup_symlink_placeholder_def
      rootfs_new_def check_traversal_permissions_def allow_missing_leaf_def)

lemma demo_root_writable: "check_access (W_OK OR X_OK) (pn_attr (node_directory (Suc 0))) = Ok ()"
  by (simp add: check_access_def access_defs node_directory_def bare_node_def attr_directory_def attr_new_def mode_defs)

theorem rename_moves_subtree_witness:
  "\<exists>s'. renameat2 AT_FDCWD ''/d'' AT_FDCWD ''/e'' 0 demo_vfs = (Ok (), s') \<and> bt_get (pt_nodes (v_tree s')) [''e'', ''a''] = Some 3
    \<and> bt_get (pt_nodes (v_tree s')) [''d'', ''a''] = None"
proof -
  have ok: "tree_ok demo_image"
    using reachable_inv [OF demo_reachable] by (simp add: vfs_inv_def)
  obtain t' where "move_links [''d''] [''e''] demo_image = (Ok (), t')"
    by (rule move_links_effect [OF ok, of "[''d'']" "[''e'']"]) (simp_all add: incomparable_def gp_starts_with_def)
  then obtain s' where run: "renameat2 AT_FDCWD ''/d'' AT_FDCWD ''/e'' 0 demo_vfs = (Ok (), s')"
    by (simp add: renameat2_def st_bind_def ask_def demo_resolve_top Let_def rename_checks_def lookup_inode_def gp_starts_with_def
        ensure_parent_dir_def gp_parent_def check_parent_write_permissions_def demo_root_writable rename_replace_def st_ok_def st_lift_def
        move_path_def lift_tree_def rebind_fds_def st_modify_def invalidate_inode_caches_def on_cache_def)
  have "moved_tree [''d''] [''e''] demo_image (v_tree s')"
    using rename_moves_subtree [OF demo_reachable run _ demo_resolve_top] by simp
  then have "bt_get (pt_nodes (v_tree s')) ([''e''] @ [''a'']) = Some 3" "bt_get (pt_nodes (v_tree s')) ([''d''] @ [''a'']) = None"
    by (simp_all only: moved_tree_def) simp_all
  then show ?thesis
    using run by auto
qed

section \<open>Removing the name of an open file\<close>

lemma open_count_open: "fd_lookup t fd = Ok e \<Longrightarrow> open_count t (fe_inode_id e) \<noteq> 0"
proof -
  assume "fd_lookup t fd = Ok e"
  then have "e \<in> set (bt_values (ft_entries t))"
    by (auto simp: fd_lookup_def ok_or_def bt_values_def bt_get_Some_iff_entries split: option.splits intro: rev_image_eqI)
  then show "open_count t (fe_inode_id e) \<noteq> 0"
    by (auto simp: open_count_def filter_empty_conv)
qed

text \<open>C33. A file that is open survives the loss of its last name: after \<open>unlinkat\<close> removed it, the descriptor still reads
  the same bytes, although the path is gone.\<close>

theorem unlinked_file_readable:
  assumes "vfs_reachable s" "open_file s fd e n" "unlinkat dirfd path flags s = (Ok (), s')"
    and target: "resolve_at s dirfd path False False = Ok r"
  shows "lookup_path (v_tree s') (rp_guest_path r) = None
    \<and> (\<exists>n'. open_file s' fd e n' \<and> pn_data n' = pn_data n)"
proof -
  let ?p = "rp_guest_path r"
  let ?post = "\<lambda>s'. lookup_path (v_tree s') ?p = None \<and> (\<exists>n'. open_file s' fd e n' \<and> pn_data n' = pn_data n)"
  note inv = reachable_inv [OF assms(1)]
  have ok: "tree_ok (v_tree s)"
    using inv by (simp add: vfs_inv_def)
  have e: "inodes (v_tree s) (fe_inode_id e) = Some n"
    using assms(2) by (simp add: open_file_def lookup_inode_def)
  have cache: "after (invalidate_inode_caches is) s' (\<lambda>_. ?post) (\<lambda>_. True)" if "?post s'" for s' "is"
    using that by (auto simp: invalidate_inode_caches_def after_simps open_file_def)
  have "after (st_bind (lift_tree (remove_path_link ?p)) (\<lambda>i. st_bind (drop_link i) (\<lambda>_.
      invalidate_inode_caches [parent_inode (v_tree s) ?p, Some i]))) s (\<lambda>_. ?post) (\<lambda>_. True)"
    if p: "?p \<noteq> []" "lookup_path (v_tree s) ?p = Some m" "unlink_checks b (v_tree s) ?p m = Ok ()" for m b
  proof -
    obtain i where i: "names (v_tree s) ?p = Some i" "inodes (v_tree s) i = Some m"
      using p(2) by (auto simp: lookup_path_Some)
    have leaf: "names (v_tree s) (?p @ [x]) = None" for x
      using p(3) leaf_of_nondirectory [OF ok i] empty_directory_iff [OF ok, of ?p] by (auto simp: unlink_checks_def split: if_splits)
    have "after (st_bind (st_bind (lift_tree (remove_path_link ?p)) (\<lambda>_. drop_link i)) (\<lambda>_.
      invalidate_inode_caches [parent_inode (v_tree s) ?p, Some i])) s (\<lambda>_. ?post) (\<lambda>_. True)"
      unfolding after_bind [of "st_bind _ _"]
    proof (rule unlink_name [OF inv p(1) i(1) leaf], rule cache)
      fix s' :: vfs
      assume s': "names (v_tree s') = (names (v_tree s))(?p := None)" "\<And>j. j \<noteq> i \<Longrightarrow> inodes (v_tree s') j = inodes (v_tree s) j"
        "\<forall>n. inodes (v_tree s') i = Some n \<longrightarrow> (\<exists>m. inodes (v_tree s) i = Some m \<and> n = m\<lparr>pn_attr := decrement_link_count (pn_attr m)\<rparr>)"
        "inodes (v_tree s') i = None \<longrightarrow> open_count (v_fds s) i = 0" "v_fds s' = v_fds s" "v_store s' = v_store s"
      have "open_count (v_fds s) (fe_inode_id e) \<noteq> 0"
        using assms(2) open_count_open by (auto simp: open_file_def)
      then obtain n' where n': "inodes (v_tree s') (fe_inode_id e) = Some n'" "n' = n \<or> n' = n\<lparr>pn_attr := decrement_link_count (pn_attr n)\<rparr>"
        using s'(2-4) e by (cases "fe_inode_id e = i"; cases "inodes (v_tree s') i") auto
      then have "open_file s' fd e n'" "pn_data n' = pn_data n"
        using assms(2) s'(5,6) by (auto simp: open_file_def lookup_inode_def)
      then show "?post s'"
        using s'(1) by (auto simp: lookup_path_def)
    qed
    then show ?thesis
      using i by (simp add: after_bind after_lift_tree remove_path_link_def)
  qed
  then have "after (unlinkat dirfd path flags) s (\<lambda>_. ?post) (\<lambda>_. True)"
    using target by (auto simp: unlinkat_def after_simps Let_def ok_or_Ok)
  then show ?thesis
    using assms(3) by simp
qed

theorem unlinked_file_readable_witness:
  "\<exists>s' n'. unlinkat AT_FDCWD ''/d/a'' 0 demo_vfs = (Ok (), s') \<and> lookup_path (v_tree s') [''d'', ''a''] = None
    \<and> open_file s' 0 (demo_entry 3 FRegular [''d'', ''a'']) n' \<and> pn_data n' = [1, 2, 3]"
proof -
  have "check_access (W_OK OR X_OK) (pn_attr demo_dir_node) = Ok ()"
    by (simp add: check_access_def access_defs attr_directory_def attr_new_def mode_defs)
  then obtain s' where run: "unlinkat AT_FDCWD ''/d/a'' 0 demo_vfs = (Ok (), s')"
    by (simp add: unlinkat_def st_bind_def ask_def demo_resolve Let_def unlink_checks_def check_parent_write_permissions_def gp_parent_def
        lift_tree_def remove_path_link_def drop_link_def st_modify_def invalidate_inode_caches_def on_cache_def)
  show ?thesis
    using unlinked_file_readable [OF demo_reachable demo_open_file run demo_resolve] run by (auto simp: demo_file_node_def)
qed

text \<open>The other half does not hold.  \<open>close\<close> drops an inode without a name whether or not another descriptor still has
  it open: after a file was unlinked, closing one of two duplicated descriptors makes the other one fail.\<close>

lemma closing_duplicate_loses_file:
  assumes opened: "open_file s fd e n" and dup: "fd' \<noteq> fd" "fd_lookup (v_fds s) fd' = Ok e" and unlinked: "tree_link_count (v_tree s) (fe_inode_id e) = 0"
    and "0 < len"
  shows "fst (vfs_close fd' s) = Ok () \<and> fst (vfs_pread fd offset len (snd (vfs_close fd' s))) = Err NoEntry"
proof -
  have e: "bt_get (ft_entries (v_fds s)) fd' = Some e" "lookup_inode (v_tree s) (fe_inode_id e) = Some n" "fe_kind e = FRegular"
    using opened dup by (auto simp: open_file_def fd_lookup_def ok_or_def split: option.splits)
  have desc: "vs_descriptions (unregister_fd_endpoint f h) = vs_descriptions h" for f h
    by (simp add: unregister_fd_endpoint_def modify_pipe_def split: option.splits)
  obtain s' where s': "vfs_close fd' s = (Ok (), s')" "inodes (v_tree s') (fe_inode_id e) = None" "fd_lookup (v_fds s') fd = Ok e"
      "vs_descriptions (v_store s') = vs_descriptions (v_store s)"
    using e unlinked dup opened
    by (simp add: vfs_close_def close_with_file_def st_bind_def lift_fds_def fd_close_def on_store_def on_table_def Let_def fe_inode_id_def
        st_modify_def invalidate_inode_cache_def on_cache_def st_ok_def bt_get_remove open_file_def fd_lookup_def desc)
  then show ?thesis
    using opened \<open>0 < len\<close>
    by (simp add: vfs_pread_def cached_small_read_at_def vfs_entry_def st_bind_def ask_def cached_small_read_for_entry_def open_file_def
        lookup_inode_def)
qed

end
