(* ===== verification/Jit_Regs.thy ===== *)
theory Jit_Regs
  imports Mcr_State
begin

text \<open>
  Registers and flags of the instruction fallback (\<open>mcr-jit/src/registers.rs\<close>), and the errors of the
  decoder and of execution that they mention (\<open>decoder.rs\<close>, \<open>execution.rs\<close>, \<open>operand_memory.rs\<close>).

  The names of registers are those of the disassembler \<open>iced-x86\<close>.  A general register and its width make
  one name: \<open>Reg64 RAX\<close> is \<open>RAX\<close>, \<open>Reg32 RAX\<close> is \<open>EAX\<close>, \<open>Reg16 R8\<close> is \<open>R8W\<close>, \<open>Reg8 RSP\<close> is \<open>SPL\<close>.
  The four high bytes have names of their own.
\<close>

section \<open>Errors\<close>

record syscall_site =
  site_rip :: u64
  site_next_rip :: u64

datatype decoded_flow_control =
    UnconditionalBranch | IndirectBranch | ConditionalBranch | Return | Call | Interrupt
  | Exception | XbeginXabortXend

datatype block_terminator =
    SyscallAt syscall_site
  | ControlFlow u64 decoded_flow_control
  | Invalid u64
  | EndOfBytes

datatype decode_error = InvalidInstruction u64

datatype memory_access_kind = OperandRead | OperandWrite

datatype operand_error = OperandNotMapped | OperandAccessDenied | OperandFault

datatype execution_error =
    DecodeFailed decode_error
  | MissingSyscall block_terminator
  | MemoryOperand u64 u64 memory_access_kind operand_error

section \<open>Registers\<close>

datatype gpr =
    RAX | RCX | RDX | RBX | RSP | RBP | RSI | RDI
  | R8 | R9 | R10 | R11 | R12 | R13 | R14 | R15

datatype register =
    Reg64 gpr | Reg32 gpr | Reg16 gpr | Reg8 gpr
  | AH | CH | DH | BH
  | EIP | RIP | FS | DS | ES | SS
  | Register_None | Register_other

record guest_registers =
  r_rax :: u64
  r_rbx :: u64
  r_rcx :: u64
  r_rdx :: u64
  r_rsi :: u64
  r_rdi :: u64
  r_rbp :: u64
  r_rsp :: u64
  r_r8 :: u64
  r_r9 :: u64
  r_r10 :: u64
  r_r11 :: u64
  r_r12 :: u64
  r_r13 :: u64
  r_r14 :: u64
  r_r15 :: u64
  r_rip :: u64
  r_rflags :: u64
  r_fs_base :: u64

text \<open>The field of a general register.\<close>

primrec gpr_get :: "gpr \<Rightarrow> guest_registers \<Rightarrow> u64" where
  "gpr_get RAX = r_rax"
| "gpr_get RCX = r_rcx"
| "gpr_get RDX = r_rdx"
| "gpr_get RBX = r_rbx"
| "gpr_get RSP = r_rsp"
| "gpr_get RBP = r_rbp"
| "gpr_get RSI = r_rsi"
| "gpr_get RDI = r_rdi"
| "gpr_get R8 = r_r8"
| "gpr_get R9 = r_r9"
| "gpr_get R10 = r_r10"
| "gpr_get R11 = r_r11"
| "gpr_get R12 = r_r12"
| "gpr_get R13 = r_r13"
| "gpr_get R14 = r_r14"
| "gpr_get R15 = r_r15"

primrec gpr_set :: "gpr \<Rightarrow> u64 \<Rightarrow> guest_registers \<Rightarrow> guest_registers" where
  "gpr_set RAX v = r_rax_update (\<lambda>_. v)"
| "gpr_set RCX v = r_rcx_update (\<lambda>_. v)"
| "gpr_set RDX v = r_rdx_update (\<lambda>_. v)"
| "gpr_set RBX v = r_rbx_update (\<lambda>_. v)"
| "gpr_set RSP v = r_rsp_update (\<lambda>_. v)"
| "gpr_set RBP v = r_rbp_update (\<lambda>_. v)"
| "gpr_set RSI v = r_rsi_update (\<lambda>_. v)"
| "gpr_set RDI v = r_rdi_update (\<lambda>_. v)"
| "gpr_set R8 v = r_r8_update (\<lambda>_. v)"
| "gpr_set R9 v = r_r9_update (\<lambda>_. v)"
| "gpr_set R10 v = r_r10_update (\<lambda>_. v)"
| "gpr_set R11 v = r_r11_update (\<lambda>_. v)"
| "gpr_set R12 v = r_r12_update (\<lambda>_. v)"
| "gpr_set R13 v = r_r13_update (\<lambda>_. v)"
| "gpr_set R14 v = r_r14_update (\<lambda>_. v)"
| "gpr_set R15 v = r_r15_update (\<lambda>_. v)"

type_synonym 'a exec_result = "('a, execution_error) result"

text \<open>The error for a register name that an access does not support.\<close>

definition bad_register :: "guest_registers \<Rightarrow> execution_error" where
  "bad_register rs = MissingSyscall (Invalid (r_rip rs))"

definition read_reg64 :: "guest_registers \<Rightarrow> register \<Rightarrow> u64 exec_result" where
  "read_reg64 rs r = (case r of Reg64 g \<Rightarrow> Ok (gpr_get g rs) | _ \<Rightarrow> Err (bad_register rs))"

definition read_reg8 :: "guest_registers \<Rightarrow> register \<Rightarrow> u8 exec_result" where
  "read_reg8 rs r =
     (case r of
        Reg8 g \<Rightarrow> Ok (ucast (gpr_get g rs))
      | AH \<Rightarrow> Ok (ucast (drop_bit 8 (r_rax rs)))
      | CH \<Rightarrow> Ok (ucast (drop_bit 8 (r_rcx rs)))
      | DH \<Rightarrow> Ok (ucast (drop_bit 8 (r_rdx rs)))
      | BH \<Rightarrow> Ok (ucast (drop_bit 8 (r_rbx rs)))
      | _ \<Rightarrow> Err (bad_register rs))"

definition read_reg16 :: "guest_registers \<Rightarrow> register \<Rightarrow> u16 exec_result" where
  "read_reg16 rs r =
     (case r of
        Reg64 g \<Rightarrow> Ok (ucast (gpr_get g rs))
      | Reg32 g \<Rightarrow> Ok (ucast (gpr_get g rs))
      | Reg16 g \<Rightarrow> Ok (ucast (gpr_get g rs))
      | _ \<Rightarrow> Err (bad_register rs))"

definition read_reg32 :: "guest_registers \<Rightarrow> register \<Rightarrow> u32 exec_result" where
  "read_reg32 rs r =
     (case r of
        Reg64 g \<Rightarrow> Ok (ucast (gpr_get g rs))
      | Reg32 g \<Rightarrow> Ok (ucast (gpr_get g rs))
      | _ \<Rightarrow> Err (bad_register rs))"

text \<open>The byte \<open>(value & !0xff) | v\<close> and its relatives for the second byte and for sixteen bits.\<close>

definition set_low_byte :: "u8 \<Rightarrow> u64 \<Rightarrow> u64" where
  "set_low_byte v w = (w AND NOT 0xff) OR ucast v"

definition set_high_byte :: "u8 \<Rightarrow> u64 \<Rightarrow> u64" where
  "set_high_byte v w = (w AND NOT 0xff00) OR push_bit 8 (ucast v)"

definition set_low_half :: "u16 \<Rightarrow> u64 \<Rightarrow> u64" where
  "set_low_half v w = (w AND NOT 0xffff) OR ucast v"

definition write_reg8 :: "guest_registers \<Rightarrow> register \<Rightarrow> u8 \<Rightarrow> guest_registers exec_result" where
  "write_reg8 rs r v =
     (case r of
        Reg8 g \<Rightarrow> Ok (gpr_set g (set_low_byte v (gpr_get g rs)) rs)
      | AH \<Rightarrow> Ok (rs\<lparr>r_rax := set_high_byte v (r_rax rs)\<rparr>)
      | CH \<Rightarrow> Ok (rs\<lparr>r_rcx := set_high_byte v (r_rcx rs)\<rparr>)
      | DH \<Rightarrow> Ok (rs\<lparr>r_rdx := set_high_byte v (r_rdx rs)\<rparr>)
      | BH \<Rightarrow> Ok (rs\<lparr>r_rbx := set_high_byte v (r_rbx rs)\<rparr>)
      | _ \<Rightarrow> Err (bad_register rs))"

definition write_reg16 :: "guest_registers \<Rightarrow> register \<Rightarrow> u16 \<Rightarrow> guest_registers exec_result" where
  "write_reg16 rs r v =
     (case r of
        Reg16 g \<Rightarrow> Ok (gpr_set g (set_low_half v (gpr_get g rs)) rs)
      | _ \<Rightarrow> Err (bad_register rs))"

definition write_reg64 :: "guest_registers \<Rightarrow> register \<Rightarrow> u64 \<Rightarrow> guest_registers exec_result" where
  "write_reg64 rs r v =
     (case r of
        Reg64 g \<Rightarrow> Ok (gpr_set g v rs)
      | Reg32 g \<Rightarrow> Ok (gpr_set g v rs)
      | _ \<Rightarrow> Err (bad_register rs))"

definition write_reg32 :: "guest_registers \<Rightarrow> register \<Rightarrow> u32 \<Rightarrow> guest_registers exec_result" where
  "write_reg32 rs r v = write_reg64 rs r (ucast v)"

text \<open>What a system call sees, and what it leaves (\<open>syscall_registers\<close>, \<open>apply_syscall_return\<close>).\<close>

definition apply_syscall_return :: "guest_registers \<Rightarrow> u64 \<Rightarrow> u64 \<Rightarrow> guest_registers" where
  "apply_syscall_return rs encoded_rax next_rip =
     rs\<lparr>r_rax := encoded_rax, r_rcx := next_rip, r_r11 := r_rflags rs, r_rip := next_rip\<rparr>"

section \<open>Flags\<close>

record guest_flags =
  f_carry :: bool
  f_zero :: bool
  f_sign :: bool
  f_overflow :: bool

definition RFLAGS_CARRY :: u64 where "RFLAGS_CARRY = 1"
definition RFLAGS_ZERO :: u64 where "RFLAGS_ZERO = push_bit 6 1"
definition RFLAGS_SIGN :: u64 where "RFLAGS_SIGN = push_bit 7 1"
definition RFLAGS_OVERFLOW :: u64 where "RFLAGS_OVERFLOW = push_bit 11 1"

definition from_registers :: "guest_registers \<Rightarrow> guest_flags" where
  "from_registers rs =
     \<lparr>f_carry = r_rflags rs AND RFLAGS_CARRY \<noteq> 0,
      f_zero = r_rflags rs AND RFLAGS_ZERO \<noteq> 0,
      f_sign = r_rflags rs AND RFLAGS_SIGN \<noteq> 0,
      f_overflow = r_rflags rs AND RFLAGS_OVERFLOW \<noteq> 0\<rparr>"

text \<open>Widths are the constants 8, 16, 32 and 64 of the callers.\<close>

definition mask_for_width :: "nat \<Rightarrow> u64" where
  "mask_for_width bits = (if bits = 64 then - 1 else push_bit bits 1 - 1)"

definition mask_to_width :: "u64 \<Rightarrow> nat \<Rightarrow> u64" where
  "mask_to_width value bits = value AND mask_for_width bits"

definition sign_bit :: "nat \<Rightarrow> u64" where
  "sign_bit bits = push_bit (bits - 1) 1"

definition sign_extend_u64 :: "u64 \<Rightarrow> nat \<Rightarrow> u64" where
  "sign_extend_u64 value bits = signed_drop_bit (64 - bits) (push_bit (64 - bits) value)"

definition set_zero_sign :: "u64 \<Rightarrow> nat \<Rightarrow> guest_flags \<Rightarrow> guest_flags" where
  "set_zero_sign v bits f = f\<lparr>f_zero := v = 0, f_sign := v AND sign_bit bits \<noteq> 0\<rparr>"

text \<open>The sum of the carry test is taken in 128 bits.\<close>

definition set_add_result :: "u64 \<Rightarrow> u64 \<Rightarrow> u64 \<Rightarrow> nat \<Rightarrow> guest_flags \<Rightarrow> guest_flags" where
  "set_add_result lhs rhs v bits f =
     (let lhs = mask_to_width lhs bits;
          rhs = mask_to_width rhs bits;
          v = mask_to_width v bits
      in (set_zero_sign v bits f)
           \<lparr>f_carry := (ucast lhs :: 128 word) + ucast rhs > ucast (mask_for_width bits),
            f_overflow := (lhs XOR v) AND (rhs XOR v) AND sign_bit bits \<noteq> 0\<rparr>)"

definition set_sub_result :: "u64 \<Rightarrow> u64 \<Rightarrow> u64 \<Rightarrow> nat \<Rightarrow> guest_flags \<Rightarrow> guest_flags" where
  "set_sub_result lhs rhs v bits f =
     (let lhs = mask_to_width lhs bits;
          rhs = mask_to_width rhs bits;
          v = mask_to_width v bits
      in (set_zero_sign v bits f)
           \<lparr>f_carry := lhs < rhs,
            f_overflow := (lhs XOR rhs) AND (lhs XOR v) AND sign_bit bits \<noteq> 0\<rparr>)"

definition set_logic_result :: "u64 \<Rightarrow> nat \<Rightarrow> guest_flags \<Rightarrow> guest_flags" where
  "set_logic_result v bits f =
     (set_zero_sign (mask_to_width v bits) bits f)\<lparr>f_carry := False, f_overflow := False\<rparr>"

end
