(* ===== verification/Jit_Insn.thy ===== *)
theory Jit_Insn
  imports Jit_Regs
begin

text \<open>
  Decoding and operand access of the instruction fallback (\<open>mcr-jit/src/decoder.rs\<close>,
  \<open>mcr-jit/src/operand_memory.rs\<close>).  The disassembler \<open>iced-x86\<close> is a parameter: a function from the bytes
  at an address to the instruction they start with.  The record \<open>instruction\<close> holds what the code reads of
  an instruction through the accessors of \<open>iced-x86\<close>, field by accessor.  What the code relies on is
  \<open>decoder_ok\<close>: an instruction starts where it was decoded, consumes at least one byte and no more than
  there are, is followed by the next address, and does not depend on the bytes behind it.

  Memory is reached through the trait \<open>GuestMemoryOperandAccess\<close>, which is a record of two operations here.
\<close>

section \<open>Instructions\<close>

text \<open>The code of an instruction, \<open>Code Mov Rm64_r64\<close> for \<open>Code::Mov_rm64_r64\<close>; a code that no \<open>match\<close>
  of the sources names is \<open>Code_other\<close>.\<close>

datatype opcode =
    Mov | Movzx | Movsx | Movsxd | Cdqe | Push | Pushq | Pop | Lea | Add | Sub | And | Or | Xor
  | Cmp | Test | Nopd | Nopq | Jmp | Je | Jne | Js | Jns | Jl | Jge | Jg | Jle | Jb | Jae | Ja | Jbe
  | CallOp | Retnq

datatype operand_form =
    R64_imm64 | Rm64_imm32 | R32_imm32 | Rm32_imm32 | Rm64_r64 | R64_rm64 | Rm32_r32 | R32_rm32
  | R8_rm8 | Rm8_r8 | R16_rm16 | Rm16_r16 | R8_imm8 | Rm8_imm8 | R16_imm16 | Rm16_imm16
  | R32_rm8 | R64_rm8 | R32_rm16 | R64_rm16 | R64_rm32 | R64 | Imm32 | Imm8 | R64_m
  | Rm64_imm8 | Rm32_imm8 | RAX_imm32 | EAX_imm32 | Rm8_imm8_82 | Rm16_imm8
  | Rm32_imm32_F7r1 | Rm64_imm32_F7r1 | Rm8_imm8_F6r1 | Rm16_imm16_F7r1
  | Rel8_64 | Rel32_64 | Rm64 | No_operand

datatype code = Code opcode operand_form | Code_other

datatype mnemonic = Syscall | Mnemonic_other

datatype flow_control =
    Flow_Next | Flow_UnconditionalBranch | Flow_IndirectBranch | Flow_ConditionalBranch | Flow_Return
  | Flow_Call | Flow_IndirectCall | Flow_Interrupt | Flow_XbeginXabortXend | Flow_Exception

datatype op_kind =
    OpRegister | OpMemory | NearBranch16 | NearBranch32 | NearBranch64
  | Immediate8 | Immediate8to16 | Immediate8to32 | Immediate8to64 | Immediate16 | Immediate32
  | Immediate32to64 | Immediate64 | OpKind_other

record instruction =
  i_ip :: u64
  i_len :: nat
  i_next_ip :: u64
  i_is_invalid :: bool
  i_mnemonic :: mnemonic
  i_code :: code
  i_flow_control :: flow_control
  i_op_kind :: "nat \<Rightarrow> op_kind"
  i_op_register :: "nat \<Rightarrow> register"
  i_immediate8 :: u8
  i_immediate16 :: u16
  i_immediate32 :: u32
  i_immediate64 :: u64
  i_immediate8to16 :: u16
  i_immediate8to32 :: u32
  i_immediate8to64 :: u64
  i_immediate32to64 :: u64
  i_memory_segment :: register
  i_memory_base :: register
  i_memory_index :: register
  i_memory_index_scale :: u64
  i_memory_displacement64 :: u64
  i_ip_rel_memory_address :: u64
  i_near_branch_target :: u64

type_synonym decoder = "u8 list \<Rightarrow> u64 \<Rightarrow> instruction"

text \<open>The instructions that \<open>while decoder.can_decode() { decoder.decode() }\<close> sees.  Every instruction
  consumes a byte, so as many steps as there are bytes are enough (\<open>decode_stream_unfold\<close>).\<close>

fun decode_steps :: "nat \<Rightarrow> decoder \<Rightarrow> u8 list \<Rightarrow> u64 \<Rightarrow> instruction list" where
  "decode_steps 0 dec bytes ip = []"
| "decode_steps (Suc n) dec bytes ip =
     (if bytes = [] then []
      else let i = dec bytes ip
           in i # decode_steps n dec (drop (i_len i) bytes) (ip + of_nat (i_len i)))"

definition decode_stream :: "decoder \<Rightarrow> u8 list \<Rightarrow> u64 \<Rightarrow> instruction list" where
  "decode_stream dec bytes ip = decode_steps (length bytes) dec bytes ip"

definition decoder_ok :: "decoder \<Rightarrow> bool" where
  "decoder_ok dec \<longleftrightarrow>
     (\<forall>bytes ip. bytes \<noteq> [] \<longrightarrow>
        i_ip (dec bytes ip) = ip \<and> 0 < i_len (dec bytes ip) \<and> i_len (dec bytes ip) \<le> length bytes \<and>
        i_next_ip (dec bytes ip) = ip + of_nat (i_len (dec bytes ip)) \<and>
        (\<not> i_is_invalid (dec bytes ip) \<longrightarrow> dec (take (i_len (dec bytes ip)) bytes) ip = dec bytes ip))"

section \<open>Blocks\<close>

record guest_block =
  gb_bytes :: "u8 list"
  gb_rip :: u64

datatype decoded_mnemonic = DecodedSyscall | DecodedOther

record decoded_instruction =
  di_rip :: u64
  di_len :: nat
  di_mnemonic :: decoded_mnemonic

record decoded_block =
  db_instructions :: "decoded_instruction list"
  db_terminator :: block_terminator

text \<open>An addition of \<open>u64\<close> values without a check in the source: an overflow panics.\<close>

definition u64_add :: "u64 \<Rightarrow> u64 \<Rightarrow> (u64, 'e) result" where
  "u64_add a b = (case checked_add a b of Some c \<Rightarrow> Ok c | None \<Rightarrow> Panic)"

definition end_rip :: "decoded_instruction \<Rightarrow> (u64, 'e) result" where
  "end_rip d = u64_add (di_rip d) (of_nat (di_len d))"

definition block_syscall_site :: "decoded_block \<Rightarrow> syscall_site option" where
  "block_syscall_site b = (case db_terminator b of SyscallAt s \<Rightarrow> Some s | _ \<Rightarrow> None)"

definition to_decoded_mnemonic :: "instruction \<Rightarrow> decoded_mnemonic" where
  "to_decoded_mnemonic i = (if i_mnemonic i = Syscall then DecodedSyscall else DecodedOther)"

fun to_decoded_flow_control :: "flow_control \<Rightarrow> decoded_flow_control option" where
  "to_decoded_flow_control Flow_Next = None"
| "to_decoded_flow_control Flow_UnconditionalBranch = Some UnconditionalBranch"
| "to_decoded_flow_control Flow_IndirectBranch = Some IndirectBranch"
| "to_decoded_flow_control Flow_ConditionalBranch = Some ConditionalBranch"
| "to_decoded_flow_control Flow_Return = Some Return"
| "to_decoded_flow_control Flow_Call = Some Call"
| "to_decoded_flow_control Flow_IndirectCall = Some Call"
| "to_decoded_flow_control Flow_Interrupt = Some Interrupt"
| "to_decoded_flow_control Flow_XbeginXabortXend = Some XbeginXabortXend"
| "to_decoded_flow_control Flow_Exception = Some Exception"

definition decoded_of :: "instruction \<Rightarrow> decoded_instruction" where
  "decoded_of i = \<lparr>di_rip = i_ip i, di_len = i_len i, di_mnemonic = to_decoded_mnemonic i\<rparr>"

text \<open>The loop of \<open>BlockDecoder::decode\<close>; \<open>acc\<close> is the vector \<open>instructions\<close>.\<close>

fun decode_loop ::
  "instruction list \<Rightarrow> decoded_instruction list \<Rightarrow> (decoded_block, decode_error) result" where
  "decode_loop [] acc = Ok \<lparr>db_instructions = acc, db_terminator = EndOfBytes\<rparr>"
| "decode_loop (i # rest) acc =
     (if i_is_invalid i then Err (InvalidInstruction (i_ip i))
      else
        let acc' = acc @ [decoded_of i] in
        if i_mnemonic i = Syscall then
          and_then (end_rip (decoded_of i)) (\<lambda>next.
            Ok \<lparr>db_instructions = acc',
                db_terminator = SyscallAt \<lparr>site_rip = i_ip i, site_next_rip = next\<rparr>\<rparr>)
        else
          case to_decoded_flow_control (i_flow_control i) of
            Some flow \<Rightarrow> Ok \<lparr>db_instructions = acc', db_terminator = ControlFlow (i_ip i) flow\<rparr>
          | None \<Rightarrow> decode_loop rest acc')"

definition block_decode :: "decoder \<Rightarrow> guest_block \<Rightarrow> (decoded_block, decode_error) result" where
  "block_decode dec b = decode_loop (decode_stream dec (gb_bytes b) (gb_rip b)) []"

text \<open>\<open>LinearInstructionScanner::scan\<close> skips what does not decode.\<close>

definition linear_scan :: "decoder \<Rightarrow> guest_block \<Rightarrow> decoded_instruction list" where
  "linear_scan dec b =
     map decoded_of (filter (\<lambda>i. \<not> i_is_invalid i) (decode_stream dec (gb_bytes b) (gb_rip b)))"

definition last_syscall_byte_pair :: "u8 list \<Rightarrow> nat option" where
  "last_syscall_byte_pair bytes =
     List.find (\<lambda>k. bytes ! k = 0x0f \<and> bytes ! Suc k = 0x05) (rev [0..<length bytes - 1])"

text \<open>The loop of \<open>syscall_instruction_sites\<close>; \<open>pos\<close> is \<open>decoder.position()\<close>.\<close>

fun sites_loop ::
  "nat \<Rightarrow> nat \<Rightarrow> instruction list \<Rightarrow> syscall_site list \<Rightarrow> (syscall_site list, 'e) result" where
  "sites_loop last_candidate pos [] acc = Ok acc"
| "sites_loop last_candidate pos (i # rest) acc =
     and_then
       (if \<not> i_is_invalid i \<and> i_mnemonic i = Syscall
        then and_then (u64_add (i_ip i) (of_nat (i_len i)))
               (\<lambda>next. Ok (acc @ [\<lparr>site_rip = i_ip i, site_next_rip = next\<rparr>]))
        else Ok acc)
       (\<lambda>acc. if pos + i_len i > last_candidate then Ok acc
              else sites_loop last_candidate (pos + i_len i) rest acc)"

definition syscall_instruction_sites :: "decoder \<Rightarrow> u8 list \<Rightarrow> u64 \<Rightarrow> (syscall_site list, 'e) result" where
  "syscall_instruction_sites dec bytes rip =
     (case last_syscall_byte_pair bytes of
        None \<Rightarrow> Ok []
      | Some last_candidate \<Rightarrow> sites_loop last_candidate 0 (decode_stream dec bytes rip) [])"

section \<open>Operands\<close>

record 'm operand_access =
  oa_read :: "'m \<Rightarrow> u64 \<Rightarrow> nat \<Rightarrow> (u8 list, operand_error) result"
  oa_write :: "'m \<Rightarrow> u64 \<Rightarrow> u8 list \<Rightarrow> (unit, operand_error) result \<times> 'm"

definition rejecting_access :: "unit operand_access" where
  "rejecting_access =
     \<lparr>oa_read = (\<lambda>m a n. Err OperandNotMapped), oa_write = (\<lambda>m a bytes. (Err OperandNotMapped, m))\<rparr>"

record 'm machine =
  m_registers :: guest_registers
  m_flags :: guest_flags
  m_memory :: 'm

type_synonym ('m, 'a) exec_op = "('m machine, 'a, execution_error) st"

text \<open>The error for an operand that an instruction does not support.\<close>

definition bad_operand :: "instruction \<Rightarrow> execution_error" where
  "bad_operand i = MissingSyscall (Invalid (i_ip i))"

definition immediate_as_u64 :: "instruction \<Rightarrow> u64 exec_result" where
  "immediate_as_u64 i =
     (case i_op_kind i 1 of
        Immediate8to64 \<Rightarrow> Ok (i_immediate8to64 i)
      | Immediate32to64 \<Rightarrow> Ok (i_immediate32to64 i)
      | Immediate64 \<Rightarrow> Ok (i_immediate64 i)
      | _ \<Rightarrow> Err (bad_operand i))"

definition immediate_as_u32 :: "instruction \<Rightarrow> u32 exec_result" where
  "immediate_as_u32 i =
     (case i_op_kind i 1 of
        Immediate8to32 \<Rightarrow> Ok (i_immediate8to32 i)
      | Immediate32 \<Rightarrow> Ok (i_immediate32 i)
      | _ \<Rightarrow> Err (bad_operand i))"

definition immediate_as_u16 :: "instruction \<Rightarrow> u16 exec_result" where
  "immediate_as_u16 i =
     (case i_op_kind i 1 of
        Immediate8to16 \<Rightarrow> Ok (i_immediate8to16 i)
      | Immediate16 \<Rightarrow> Ok (i_immediate16 i)
      | _ \<Rightarrow> Err (bad_operand i))"

definition immediate_as_u8 :: "instruction \<Rightarrow> u8 exec_result" where
  "immediate_as_u8 i =
     (case i_op_kind i 1 of Immediate8 \<Rightarrow> Ok (i_immediate8 i) | _ \<Rightarrow> Err (bad_operand i))"

definition immediate_operand_as_u64 :: "instruction \<Rightarrow> nat \<Rightarrow> u64 exec_result" where
  "immediate_operand_as_u64 i operand =
     (case i_op_kind i operand of
        Immediate8to64 \<Rightarrow> Ok (i_immediate8to64 i)
      | Immediate32to64 \<Rightarrow> Ok (i_immediate32to64 i)
      | Immediate64 \<Rightarrow> Ok (i_immediate64 i)
      | _ \<Rightarrow> Err (bad_operand i))"

definition segment_base :: "guest_registers \<Rightarrow> instruction \<Rightarrow> u64 exec_result" where
  "segment_base rs i =
     (case i_memory_segment i of
        FS \<Rightarrow> Ok (r_fs_base rs)
      | Register_None \<Rightarrow> Ok 0
      | DS \<Rightarrow> Ok 0
      | ES \<Rightarrow> Ok 0
      | SS \<Rightarrow> Ok 0
      | _ \<Rightarrow> Err (bad_operand i))"

definition memory_base :: "guest_registers \<Rightarrow> instruction \<Rightarrow> u64 exec_result" where
  "memory_base rs i =
     (case i_memory_base i of Register_None \<Rightarrow> Ok 0 | base \<Rightarrow> read_reg64 rs base)"

definition memory_index :: "guest_registers \<Rightarrow> instruction \<Rightarrow> u64 exec_result" where
  "memory_index rs i =
     (case i_memory_index i of
        Register_None \<Rightarrow> Ok 0
      | index \<Rightarrow> and_then (read_reg64 rs index) (\<lambda>v. Ok (v * i_memory_index_scale i)))"

definition effective_address :: "guest_registers \<Rightarrow> instruction \<Rightarrow> u64 exec_result" where
  "effective_address rs i =
     and_then (segment_base rs i) (\<lambda>segment.
       if i_memory_base i = RIP \<or> i_memory_base i = EIP
       then Ok (segment + i_ip_rel_memory_address i)
       else
         and_then (memory_base rs i) (\<lambda>base.
         and_then (memory_index rs i) (\<lambda>index.
           Ok (segment + base + index + i_memory_displacement64 i))))"

section \<open>Memory operands\<close>

definition u16_to_le_bytes :: "u16 \<Rightarrow> u8 list" where
  "u16_to_le_bytes v = nat_le 2 (unat v)"

definition u32_to_le_bytes :: "u32 \<Rightarrow> u8 list" where
  "u32_to_le_bytes v = nat_le 4 (unat v)"

text \<open>The common part of the \<open>read_memory_*\<close> functions: the buffer of \<open>n\<close> bytes that the access fills.\<close>

definition read_memory_bytes :: "'m operand_access \<Rightarrow> u64 \<Rightarrow> u64 \<Rightarrow> nat \<Rightarrow> ('m, u8 list) exec_op" where
  "read_memory_bytes oa rip address n s =
     (map_err (MemoryOperand rip address OperandRead) (oa_read oa (m_memory s) address n), s)"

definition write_memory_bytes :: "'m operand_access \<Rightarrow> u64 \<Rightarrow> u64 \<Rightarrow> u8 list \<Rightarrow> ('m, unit) exec_op" where
  "write_memory_bytes oa rip address bytes s =
     (let (r, m) = oa_write oa (m_memory s) address bytes
      in (map_err (MemoryOperand rip address OperandWrite) r, s\<lparr>m_memory := m\<rparr>))"

definition read_memory_u8 :: "'m operand_access \<Rightarrow> u64 \<Rightarrow> u64 \<Rightarrow> ('m, u8) exec_op" where
  "read_memory_u8 oa rip address =
     st_bind (read_memory_bytes oa rip address 1) (\<lambda>bytes. st_ok (bytes ! 0))"

definition read_memory_u16 :: "'m operand_access \<Rightarrow> u64 \<Rightarrow> u64 \<Rightarrow> ('m, u16) exec_op" where
  "read_memory_u16 oa rip address =
     st_bind (read_memory_bytes oa rip address 2) (\<lambda>bytes. st_ok (u16_from_le_bytes bytes))"

definition read_memory_u32 :: "'m operand_access \<Rightarrow> u64 \<Rightarrow> u64 \<Rightarrow> ('m, u32) exec_op" where
  "read_memory_u32 oa rip address =
     st_bind (read_memory_bytes oa rip address 4) (\<lambda>bytes. st_ok (u32_from_le_bytes bytes))"

definition read_memory_u64 :: "'m operand_access \<Rightarrow> u64 \<Rightarrow> u64 \<Rightarrow> ('m, u64) exec_op" where
  "read_memory_u64 oa rip address =
     st_bind (read_memory_bytes oa rip address 8) (\<lambda>bytes. st_ok (u64_from_le_bytes bytes))"

definition write_memory_u8 :: "'m operand_access \<Rightarrow> u64 \<Rightarrow> u64 \<Rightarrow> u8 \<Rightarrow> ('m, unit) exec_op" where
  "write_memory_u8 oa rip address v = write_memory_bytes oa rip address [v]"

definition write_memory_u16 :: "'m operand_access \<Rightarrow> u64 \<Rightarrow> u64 \<Rightarrow> u16 \<Rightarrow> ('m, unit) exec_op" where
  "write_memory_u16 oa rip address v = write_memory_bytes oa rip address (u16_to_le_bytes v)"

definition write_memory_u32 :: "'m operand_access \<Rightarrow> u64 \<Rightarrow> u64 \<Rightarrow> u32 \<Rightarrow> ('m, unit) exec_op" where
  "write_memory_u32 oa rip address v = write_memory_bytes oa rip address (u32_to_le_bytes v)"

definition write_memory_u64 :: "'m operand_access \<Rightarrow> u64 \<Rightarrow> u64 \<Rightarrow> u64 \<Rightarrow> ('m, unit) exec_op" where
  "write_memory_u64 oa rip address v = write_memory_bytes oa rip address (u64_to_le_bytes v)"

text \<open>Reading from and updating the registers of a machine.\<close>

definition of_registers :: "(guest_registers \<Rightarrow> 'a exec_result) \<Rightarrow> ('m, 'a) exec_op" where
  "of_registers f s = (f (m_registers s), s)"

definition on_registers :: "(guest_registers \<Rightarrow> guest_registers exec_result) \<Rightarrow> ('m, unit) exec_op" where
  "on_registers f s =
     (case f (m_registers s) of
        Ok rs \<Rightarrow> (Ok (), s\<lparr>m_registers := rs\<rparr>)
      | Err e \<Rightarrow> (Err e, s)
      | Panic \<Rightarrow> (Panic, s))"

definition on_flags :: "(guest_flags \<Rightarrow> guest_flags) \<Rightarrow> ('m, unit) exec_op" where
  "on_flags f = st_modify (\<lambda>s. s\<lparr>m_flags := f (m_flags s)\<rparr>)"

definition operand_address :: "instruction \<Rightarrow> ('m, u64) exec_op" where
  "operand_address i = of_registers (\<lambda>rs. effective_address rs i)"

definition read_operand_u8 :: "'m operand_access \<Rightarrow> instruction \<Rightarrow> nat \<Rightarrow> ('m, u8) exec_op" where
  "read_operand_u8 oa i operand =
     (case i_op_kind i operand of
        OpRegister \<Rightarrow> of_registers (\<lambda>rs. read_reg8 rs (i_op_register i operand))
      | OpMemory \<Rightarrow> st_bind (operand_address i) (read_memory_u8 oa (i_ip i))
      | _ \<Rightarrow> st_err (bad_operand i))"

definition read_operand_u16 :: "'m operand_access \<Rightarrow> instruction \<Rightarrow> nat \<Rightarrow> ('m, u16) exec_op" where
  "read_operand_u16 oa i operand =
     (case i_op_kind i operand of
        OpRegister \<Rightarrow> of_registers (\<lambda>rs. read_reg16 rs (i_op_register i operand))
      | OpMemory \<Rightarrow> st_bind (operand_address i) (read_memory_u16 oa (i_ip i))
      | _ \<Rightarrow> st_err (bad_operand i))"

definition read_operand_u32 :: "'m operand_access \<Rightarrow> instruction \<Rightarrow> nat \<Rightarrow> ('m, u32) exec_op" where
  "read_operand_u32 oa i operand =
     (case i_op_kind i operand of
        OpRegister \<Rightarrow> of_registers (\<lambda>rs. read_reg32 rs (i_op_register i operand))
      | OpMemory \<Rightarrow> st_bind (operand_address i) (read_memory_u32 oa (i_ip i))
      | _ \<Rightarrow> st_err (bad_operand i))"

definition read_operand_u64 :: "'m operand_access \<Rightarrow> instruction \<Rightarrow> nat \<Rightarrow> ('m, u64) exec_op" where
  "read_operand_u64 oa i operand =
     (case i_op_kind i operand of
        OpRegister \<Rightarrow> of_registers (\<lambda>rs. read_reg64 rs (i_op_register i operand))
      | OpMemory \<Rightarrow> st_bind (operand_address i) (read_memory_u64 oa (i_ip i))
      | _ \<Rightarrow> st_err (bad_operand i))"

definition read_operand_or_immediate_u32 ::
  "'m operand_access \<Rightarrow> instruction \<Rightarrow> nat \<Rightarrow> ('m, u32) exec_op" where
  "read_operand_or_immediate_u32 oa i operand =
     (if i_op_kind i operand = Immediate8to32 \<or> i_op_kind i operand = Immediate32
      then st_lift (immediate_as_u32 i) else read_operand_u32 oa i operand)"

definition read_operand_or_immediate_u64 ::
  "'m operand_access \<Rightarrow> instruction \<Rightarrow> nat \<Rightarrow> ('m, u64) exec_op" where
  "read_operand_or_immediate_u64 oa i operand =
     (if i_op_kind i operand = Immediate8to64 \<or> i_op_kind i operand = Immediate32to64
         \<or> i_op_kind i operand = Immediate64
      then st_lift (immediate_as_u64 i) else read_operand_u64 oa i operand)"

definition write_operand_u32 ::
  "'m operand_access \<Rightarrow> instruction \<Rightarrow> nat \<Rightarrow> u32 \<Rightarrow> ('m, unit) exec_op" where
  "write_operand_u32 oa i operand v =
     (case i_op_kind i operand of
        OpRegister \<Rightarrow> on_registers (\<lambda>rs. write_reg32 rs (i_op_register i operand) v)
      | OpMemory \<Rightarrow> st_bind (operand_address i) (\<lambda>a. write_memory_u32 oa (i_ip i) a v)
      | _ \<Rightarrow> st_err (bad_operand i))"

definition write_operand_u64 ::
  "'m operand_access \<Rightarrow> instruction \<Rightarrow> nat \<Rightarrow> u64 \<Rightarrow> ('m, unit) exec_op" where
  "write_operand_u64 oa i operand v =
     (case i_op_kind i operand of
        OpRegister \<Rightarrow> on_registers (\<lambda>rs. write_reg64 rs (i_op_register i operand) v)
      | OpMemory \<Rightarrow> st_bind (operand_address i) (\<lambda>a. write_memory_u64 oa (i_ip i) a v)
      | _ \<Rightarrow> st_err (bad_operand i))"

end
