(* ===== verification/Jit_Exec.thy ===== *)
theory Jit_Exec
  imports Jit_Insn Abi
begin

text \<open>
  Execution of single instructions and of blocks up to a system call
  (\<open>mcr-jit/src/simple_instruction.rs\<close>, \<open>execution.rs\<close>, \<open>trampoline.rs\<close>).  The big \<open>match\<close> of
  \<open>execute_simple_instruction\<close> is split by operation; a code that no arm takes, also because the guard of
  its arm fails, is \<open>unsupported\<close>.
\<close>

section \<open>Single instructions\<close>

datatype logic_op = LogicAnd | LogicOr | LogicXor

fun apply_logic :: "u64 \<Rightarrow> u64 \<Rightarrow> logic_op \<Rightarrow> u64" where
  "apply_logic lhs rhs LogicAnd = lhs AND rhs"
| "apply_logic lhs rhs LogicOr = lhs OR rhs"
| "apply_logic lhs rhs LogicXor = lhs XOR rhs"

definition execute_logic_u64 :: "'m operand_access \<Rightarrow> instruction \<Rightarrow> logic_op \<Rightarrow> ('m, unit) exec_op" where
  "execute_logic_u64 oa i operation =
     st_bind (read_operand_u64 oa i 0) (\<lambda>lhs.
     st_bind (read_operand_or_immediate_u64 oa i 1) (\<lambda>rhs.
       let v = apply_logic lhs rhs operation in
       st_bind (write_operand_u64 oa i 0 v) (\<lambda>_. on_flags (set_logic_result v 64))))"

definition execute_logic_u32 :: "'m operand_access \<Rightarrow> instruction \<Rightarrow> logic_op \<Rightarrow> ('m, unit) exec_op" where
  "execute_logic_u32 oa i operation =
     st_bind (read_operand_u32 oa i 0) (\<lambda>lhs.
     st_bind (read_operand_or_immediate_u32 oa i 1) (\<lambda>rhs.
       let v = (ucast (apply_logic (ucast lhs) (ucast rhs) operation) :: u32) in
       st_bind (write_operand_u32 oa i 0 v) (\<lambda>_. on_flags (set_logic_result (ucast v) 32))))"

definition unsupported :: "u64 \<Rightarrow> ('m, unit) exec_op" where
  "unsupported rip = st_err (MissingSyscall (ControlFlow rip Exception))"

definition reg_reg :: "instruction \<Rightarrow> bool" where
  "reg_reg i \<longleftrightarrow> i_op_kind i 0 = OpRegister \<and> i_op_kind i 1 = OpRegister"

definition reg_mem :: "instruction \<Rightarrow> bool" where
  "reg_mem i \<longleftrightarrow> i_op_kind i 0 = OpRegister \<and> i_op_kind i 1 = OpMemory"

definition mem_reg :: "instruction \<Rightarrow> bool" where
  "mem_reg i \<longleftrightarrow> i_op_kind i 0 = OpMemory \<and> i_op_kind i 1 = OpRegister"

text \<open>The three shapes of a move at one width, with the accessors of that width.\<close>

definition move_registers ::
  "(guest_registers \<Rightarrow> register \<Rightarrow> 'v exec_result) \<Rightarrow>
   (guest_registers \<Rightarrow> register \<Rightarrow> 'v \<Rightarrow> guest_registers exec_result) \<Rightarrow> instruction \<Rightarrow> ('m, unit) exec_op" where
  "move_registers rd wr i =
     st_bind (of_registers (\<lambda>rs. rd rs (i_op_register i 1))) (\<lambda>v.
       on_registers (\<lambda>rs. wr rs (i_op_register i 0) v))"

definition move_load ::
  "(u64 \<Rightarrow> ('m, 'v) exec_op) \<Rightarrow> (guest_registers \<Rightarrow> register \<Rightarrow> 'v \<Rightarrow> guest_registers exec_result) \<Rightarrow>
   instruction \<Rightarrow> ('m, unit) exec_op" where
  "move_load ld wr i =
     st_bind (operand_address i) (\<lambda>address.
     st_bind (ld address) (\<lambda>v. on_registers (\<lambda>rs. wr rs (i_op_register i 0) v)))"

definition move_store ::
  "(guest_registers \<Rightarrow> register \<Rightarrow> 'v exec_result) \<Rightarrow> (u64 \<Rightarrow> 'v \<Rightarrow> ('m, unit) exec_op) \<Rightarrow>
   instruction \<Rightarrow> ('m, unit) exec_op" where
  "move_store rd sto i =
     st_bind (operand_address i) (\<lambda>address.
     st_bind (of_registers (\<lambda>rs. rd rs (i_op_register i 1))) (sto address))"

definition move_immediate ::
  "(guest_registers \<Rightarrow> register \<Rightarrow> 'v \<Rightarrow> guest_registers exec_result) \<Rightarrow> instruction \<Rightarrow> 'v \<Rightarrow>
   ('m, unit) exec_op" where
  "move_immediate wr i v = on_registers (\<lambda>rs. wr rs (i_op_register i 0) v)"

definition store_immediate ::
  "(u64 \<Rightarrow> 'v \<Rightarrow> ('m, unit) exec_op) \<Rightarrow> instruction \<Rightarrow> 'v \<Rightarrow> ('m, unit) exec_op" where
  "store_immediate sto i v = st_bind (operand_address i) (\<lambda>address. sto address v)"

definition execute_mov :: "'m operand_access \<Rightarrow> u64 \<Rightarrow> instruction \<Rightarrow> operand_form \<Rightarrow> ('m, unit) exec_op" where
  "execute_mov oa rip i form =
     (case form of
        R64_imm64 \<Rightarrow> move_immediate write_reg64 i (i_immediate64 i)
      | Rm64_imm32 \<Rightarrow>
          if i_op_kind i 0 = OpRegister then move_immediate write_reg64 i (i_immediate32to64 i)
          else if i_op_kind i 0 = OpMemory then store_immediate (write_memory_u64 oa rip) i (i_immediate32to64 i)
          else unsupported rip
      | R32_imm32 \<Rightarrow> move_immediate write_reg32 i (i_immediate32 i)
      | Rm32_imm32 \<Rightarrow>
          if i_op_kind i 0 = OpMemory then store_immediate (write_memory_u32 oa rip) i (i_immediate32 i)
          else unsupported rip
      | Rm64_r64 \<Rightarrow>
          if reg_reg i then move_registers read_reg64 write_reg64 i
          else if mem_reg i then move_store read_reg64 (write_memory_u64 oa rip) i
          else unsupported rip
      | R64_rm64 \<Rightarrow>
          if reg_reg i then move_registers read_reg64 write_reg64 i
          else if reg_mem i then move_load (read_memory_u64 oa rip) write_reg64 i
          else unsupported rip
      | Rm32_r32 \<Rightarrow>
          if reg_reg i then move_registers read_reg32 write_reg32 i
          else if mem_reg i then move_store read_reg32 (write_memory_u32 oa rip) i
          else unsupported rip
      | R32_rm32 \<Rightarrow>
          if reg_reg i then move_registers read_reg32 write_reg32 i
          else if reg_mem i then move_load (read_memory_u32 oa rip) write_reg32 i
          else unsupported rip
      | R8_rm8 \<Rightarrow>
          if reg_reg i then move_registers read_reg8 write_reg8 i
          else if reg_mem i then move_load (read_memory_u8 oa rip) write_reg8 i
          else unsupported rip
      | Rm8_r8 \<Rightarrow>
          if reg_reg i then move_registers read_reg8 write_reg8 i
          else if mem_reg i then move_store read_reg8 (write_memory_u8 oa rip) i
          else unsupported rip
      | R16_rm16 \<Rightarrow>
          if reg_reg i then move_registers read_reg16 write_reg16 i
          else if reg_mem i then move_load (read_memory_u16 oa rip) write_reg16 i
          else unsupported rip
      | Rm16_r16 \<Rightarrow>
          if reg_reg i then move_registers read_reg16 write_reg16 i
          else if mem_reg i then move_store read_reg16 (write_memory_u16 oa rip) i
          else unsupported rip
      | R8_imm8 \<Rightarrow>
          if i_op_kind i 0 = OpRegister then move_immediate write_reg8 i (i_immediate8 i)
          else unsupported rip
      | Rm8_imm8 \<Rightarrow>
          if i_op_kind i 0 = OpMemory then store_immediate (write_memory_u8 oa rip) i (i_immediate8 i)
          else unsupported rip
      | R16_imm16 \<Rightarrow>
          if i_op_kind i 0 = OpRegister then move_immediate write_reg16 i (i_immediate16 i)
          else unsupported rip
      | Rm16_imm16 \<Rightarrow>
          if i_op_kind i 0 = OpMemory then store_immediate (write_memory_u16 oa rip) i (i_immediate16 i)
          else unsupported rip
      | _ \<Rightarrow> unsupported rip)"

definition execute_movzx :: "'m operand_access \<Rightarrow> u64 \<Rightarrow> instruction \<Rightarrow> operand_form \<Rightarrow> ('m, unit) exec_op" where
  "execute_movzx oa rip i form =
     (case form of
        R32_rm8 \<Rightarrow> st_bind (read_operand_u8 oa i 1) (\<lambda>v. move_immediate write_reg32 i (ucast v))
      | R64_rm8 \<Rightarrow> st_bind (read_operand_u8 oa i 1) (\<lambda>v. move_immediate write_reg64 i (ucast v))
      | R32_rm16 \<Rightarrow> st_bind (read_operand_u16 oa i 1) (\<lambda>v. move_immediate write_reg32 i (ucast v))
      | R64_rm16 \<Rightarrow> st_bind (read_operand_u16 oa i 1) (\<lambda>v. move_immediate write_reg64 i (ucast v))
      | _ \<Rightarrow> unsupported rip)"

definition execute_movsx :: "'m operand_access \<Rightarrow> u64 \<Rightarrow> instruction \<Rightarrow> operand_form \<Rightarrow> ('m, unit) exec_op" where
  "execute_movsx oa rip i form =
     (case form of
        R32_rm8 \<Rightarrow> st_bind (read_operand_u8 oa i 1)
          (\<lambda>v. move_immediate write_reg32 i (ucast (sign_extend_u64 (ucast v) 8)))
      | R64_rm8 \<Rightarrow> st_bind (read_operand_u8 oa i 1)
          (\<lambda>v. move_immediate write_reg64 i (sign_extend_u64 (ucast v) 8))
      | R32_rm16 \<Rightarrow> st_bind (read_operand_u16 oa i 1)
          (\<lambda>v. move_immediate write_reg32 i (ucast (sign_extend_u64 (ucast v) 16)))
      | R64_rm16 \<Rightarrow> st_bind (read_operand_u16 oa i 1)
          (\<lambda>v. move_immediate write_reg64 i (sign_extend_u64 (ucast v) 16))
      | _ \<Rightarrow> unsupported rip)"

definition execute_movsxd :: "'m operand_access \<Rightarrow> u64 \<Rightarrow> instruction \<Rightarrow> operand_form \<Rightarrow> ('m, unit) exec_op" where
  "execute_movsxd oa rip i form =
     (case form of
        R64_rm32 \<Rightarrow> st_bind (read_operand_u32 oa i 1)
          (\<lambda>v. move_immediate write_reg64 i (sign_extend_u64 (ucast v) 32))
      | _ \<Rightarrow> unsupported rip)"

definition execute_cdqe :: "('m, unit) exec_op" where
  "execute_cdqe =
     st_bind (of_registers (\<lambda>rs. read_reg32 rs (Reg32 RAX))) (\<lambda>v.
       on_registers (\<lambda>rs. write_reg64 rs (Reg64 RAX) (sign_extend_u64 (ucast v) 32)))"

text \<open>The stack pointer moves before the store, as in the source.\<close>

definition push_value :: "'m operand_access \<Rightarrow> u64 \<Rightarrow> u64 \<Rightarrow> ('m, unit) exec_op" where
  "push_value oa rip v =
     st_bind (on_registers (\<lambda>rs. Ok (rs\<lparr>r_rsp := r_rsp rs - 8\<rparr>))) (\<lambda>_.
     st_bind (of_registers (\<lambda>rs. Ok (r_rsp rs))) (\<lambda>rsp. write_memory_u64 oa rip rsp v))"

definition execute_push :: "'m operand_access \<Rightarrow> u64 \<Rightarrow> instruction \<Rightarrow> operand_form \<Rightarrow> ('m, unit) exec_op" where
  "execute_push oa rip i form =
     (case form of
        R64 \<Rightarrow>
          if i_op_kind i 0 = OpRegister
          then st_bind (of_registers (\<lambda>rs. read_reg64 rs (i_op_register i 0))) (push_value oa rip)
          else unsupported rip
      | _ \<Rightarrow> unsupported rip)"

definition execute_pushq :: "'m operand_access \<Rightarrow> u64 \<Rightarrow> instruction \<Rightarrow> operand_form \<Rightarrow> ('m, unit) exec_op" where
  "execute_pushq oa rip i form =
     (if form = Imm32 \<or> form = Imm8
      then st_bind (st_lift (immediate_operand_as_u64 i 0)) (push_value oa rip)
      else unsupported rip)"

definition execute_pop :: "'m operand_access \<Rightarrow> u64 \<Rightarrow> instruction \<Rightarrow> operand_form \<Rightarrow> ('m, unit) exec_op" where
  "execute_pop oa rip i form =
     (case form of
        R64 \<Rightarrow>
          if i_op_kind i 0 = OpRegister
          then
            st_bind (of_registers (\<lambda>rs. Ok (r_rsp rs))) (\<lambda>rsp.
            st_bind (read_memory_u64 oa rip rsp) (\<lambda>v.
            st_bind (on_registers (\<lambda>rs. Ok (rs\<lparr>r_rsp := r_rsp rs + 8\<rparr>))) (\<lambda>_.
              move_immediate write_reg64 i v)))
          else unsupported rip
      | _ \<Rightarrow> unsupported rip)"

definition execute_lea :: "u64 \<Rightarrow> instruction \<Rightarrow> operand_form \<Rightarrow> ('m, unit) exec_op" where
  "execute_lea rip i form =
     (if form = R64_m \<and> i_op_kind i 1 = OpMemory
      then st_bind (operand_address i) (move_immediate write_reg64 i)
      else unsupported rip)"

text \<open>The two operands of an arithmetic instruction: a register, and a register or an immediate.\<close>

definition arith_operands_u64 :: "instruction \<Rightarrow> u64 exec_result \<Rightarrow> ('m, u64 \<times> u64) exec_op" where
  "arith_operands_u64 i immediate =
     st_bind (of_registers (\<lambda>rs. read_reg64 rs (i_op_register i 0))) (\<lambda>lhs.
     st_bind (st_lift immediate) (\<lambda>rhs. st_ok (lhs, rhs)))"

definition arith_operands_u32 :: "instruction \<Rightarrow> u32 exec_result \<Rightarrow> ('m, u32 \<times> u32) exec_op" where
  "arith_operands_u32 i immediate =
     st_bind (of_registers (\<lambda>rs. read_reg32 rs (i_op_register i 0))) (\<lambda>lhs.
     st_bind (st_lift immediate) (\<lambda>rhs. st_ok (lhs, rhs)))"

definition arith_registers_u64 :: "instruction \<Rightarrow> ('m, u64 \<times> u64) exec_op" where
  "arith_registers_u64 i =
     st_bind (of_registers (\<lambda>rs. read_reg64 rs (i_op_register i 0))) (\<lambda>lhs.
     st_bind (of_registers (\<lambda>rs. read_reg64 rs (i_op_register i 1))) (\<lambda>rhs. st_ok (lhs, rhs)))"

definition arith_registers_u32 :: "instruction \<Rightarrow> ('m, u32 \<times> u32) exec_op" where
  "arith_registers_u32 i =
     st_bind (of_registers (\<lambda>rs. read_reg32 rs (i_op_register i 0))) (\<lambda>lhs.
     st_bind (of_registers (\<lambda>rs. read_reg32 rs (i_op_register i 1))) (\<lambda>rhs. st_ok (lhs, rhs)))"

definition finish_add_u64 :: "instruction \<Rightarrow> u64 \<times> u64 \<Rightarrow> ('m, unit) exec_op" where
  "finish_add_u64 i = (\<lambda>(lhs, rhs).
     st_bind (on_registers (\<lambda>rs. write_reg64 rs (i_op_register i 0) (lhs + rhs))) (\<lambda>_.
       on_flags (set_add_result lhs rhs (lhs + rhs) 64)))"

definition finish_add_u32 :: "instruction \<Rightarrow> u32 \<times> u32 \<Rightarrow> ('m, unit) exec_op" where
  "finish_add_u32 i = (\<lambda>(lhs, rhs).
     st_bind (on_registers (\<lambda>rs. write_reg32 rs (i_op_register i 0) (lhs + rhs))) (\<lambda>_.
       on_flags (set_add_result (ucast lhs) (ucast rhs) (ucast (lhs + rhs)) 32)))"

definition finish_sub_u64 :: "instruction \<Rightarrow> u64 \<times> u64 \<Rightarrow> ('m, unit) exec_op" where
  "finish_sub_u64 i = (\<lambda>(lhs, rhs).
     st_bind (on_registers (\<lambda>rs. write_reg64 rs (i_op_register i 0) (lhs - rhs))) (\<lambda>_.
       on_flags (set_sub_result lhs rhs (lhs - rhs) 64)))"

definition finish_sub_u32 :: "instruction \<Rightarrow> u32 \<times> u32 \<Rightarrow> ('m, unit) exec_op" where
  "finish_sub_u32 i = (\<lambda>(lhs, rhs).
     st_bind (on_registers (\<lambda>rs. write_reg32 rs (i_op_register i 0) (lhs - rhs))) (\<lambda>_.
       on_flags (set_sub_result (ucast lhs) (ucast rhs) (ucast (lhs - rhs)) 32)))"

definition finish_cmp :: "'w::len word \<times> 'w word \<Rightarrow> ('m, unit) exec_op" where
  "finish_cmp = (\<lambda>(lhs, rhs).
     on_flags (set_sub_result (ucast lhs) (ucast rhs) (ucast (lhs - rhs)) LENGTH('w)))"

definition finish_test :: "'w::len word \<times> 'w word \<Rightarrow> ('m, unit) exec_op" where
  "finish_test = (\<lambda>(lhs, rhs). on_flags (set_logic_result (ucast (lhs AND rhs)) LENGTH('w)))"

text \<open>\<open>add\<close> and \<open>sub\<close> take the same shapes of operands.\<close>

definition execute_arith ::
  "(u64 \<times> u64 \<Rightarrow> ('m, unit) exec_op) \<Rightarrow> (u32 \<times> u32 \<Rightarrow> ('m, unit) exec_op) \<Rightarrow> u64 \<Rightarrow> instruction \<Rightarrow>
   operand_form \<Rightarrow> ('m, unit) exec_op" where
  "execute_arith finish64 finish32 rip i form =
     (if form = Rm64_r64 \<or> form = R64_rm64 then
        if reg_reg i then st_bind (arith_registers_u64 i) finish64 else unsupported rip
      else if form = Rm32_r32 \<or> form = R32_rm32 then
        if reg_reg i then st_bind (arith_registers_u32 i) finish32 else unsupported rip
      else if form = Rm64_imm32 \<or> form = Rm64_imm8 then
        if i_op_kind i 0 = OpRegister
        then st_bind (arith_operands_u64 i (immediate_as_u64 i)) finish64 else unsupported rip
      else if form = Rm32_imm32 \<or> form = Rm32_imm8 then
        if i_op_kind i 0 = OpRegister
        then st_bind (arith_operands_u32 i (immediate_as_u32 i)) finish32 else unsupported rip
      else unsupported rip)"

definition execute_add :: "u64 \<Rightarrow> instruction \<Rightarrow> operand_form \<Rightarrow> ('m, unit) exec_op" where
  "execute_add rip i = execute_arith (finish_add_u64 i) (finish_add_u32 i) rip i"

definition execute_sub :: "u64 \<Rightarrow> instruction \<Rightarrow> operand_form \<Rightarrow> ('m, unit) exec_op" where
  "execute_sub rip i = execute_arith (finish_sub_u64 i) (finish_sub_u32 i) rip i"

definition execute_logic ::
  "'m operand_access \<Rightarrow> u64 \<Rightarrow> instruction \<Rightarrow> logic_op \<Rightarrow> operand_form \<Rightarrow> ('m, unit) exec_op" where
  "execute_logic oa rip i operation form =
     (if form \<in> {Rm64_r64, R64_rm64, Rm64_imm32, Rm64_imm8, RAX_imm32}
      then execute_logic_u64 oa i operation
      else if form \<in> {Rm32_r32, R32_rm32, Rm32_imm32, Rm32_imm8, EAX_imm32}
      then execute_logic_u32 oa i operation
      else unsupported rip)"

definition execute_cmp :: "'m operand_access \<Rightarrow> u64 \<Rightarrow> instruction \<Rightarrow> operand_form \<Rightarrow> ('m, unit) exec_op" where
  "execute_cmp oa rip i form =
     (if form = Rm8_r8 \<or> form = R8_rm8 then
        st_bind (read_operand_u8 oa i 0) (\<lambda>lhs.
        st_bind (read_operand_u8 oa i 1) (\<lambda>rhs. finish_cmp (lhs, rhs)))
      else if form = Rm16_r16 \<or> form = R16_rm16 then
        st_bind (read_operand_u16 oa i 0) (\<lambda>lhs.
        st_bind (read_operand_u16 oa i 1) (\<lambda>rhs. finish_cmp (lhs, rhs)))
      else if form = Rm8_imm8 \<or> form = Rm8_imm8_82 then
        st_bind (read_operand_u8 oa i 0) (\<lambda>lhs.
        st_bind (st_lift (immediate_as_u8 i)) (\<lambda>rhs. finish_cmp (lhs, rhs)))
      else if form = Rm16_imm16 \<or> form = Rm16_imm8 then
        st_bind (read_operand_u16 oa i 0) (\<lambda>lhs.
        st_bind (st_lift (immediate_as_u16 i)) (\<lambda>rhs. finish_cmp (lhs, rhs)))
      else execute_arith finish_cmp finish_cmp rip i form)"

definition execute_test :: "'m operand_access \<Rightarrow> u64 \<Rightarrow> instruction \<Rightarrow> operand_form \<Rightarrow> ('m, unit) exec_op" where
  "execute_test oa rip i form =
     (if form = Rm32_r32 then
        if reg_reg i then st_bind (arith_registers_u32 i) finish_test else unsupported rip
      else if form = Rm64_r64 then
        if reg_reg i then st_bind (arith_registers_u64 i) finish_test else unsupported rip
      else if form \<in> {Rm32_imm32, Rm32_imm32_F7r1, EAX_imm32} then
        st_bind (read_operand_u32 oa i 0) (\<lambda>lhs.
        st_bind (st_lift (immediate_as_u32 i)) (\<lambda>rhs. finish_test (lhs, rhs)))
      else if form \<in> {Rm64_imm32, Rm64_imm32_F7r1, RAX_imm32} then
        st_bind (read_operand_u64 oa i 0) (\<lambda>lhs.
        st_bind (st_lift (immediate_as_u64 i)) (\<lambda>rhs. finish_test (lhs, rhs)))
      else if form = Rm8_r8 then
        st_bind (read_operand_u8 oa i 0) (\<lambda>lhs.
        st_bind (read_operand_u8 oa i 1) (\<lambda>rhs. finish_test (lhs, rhs)))
      else if form = Rm16_r16 then
        st_bind (read_operand_u16 oa i 0) (\<lambda>lhs.
        st_bind (read_operand_u16 oa i 1) (\<lambda>rhs. finish_test (lhs, rhs)))
      else if form = Rm8_imm8 \<or> form = Rm8_imm8_F6r1 then
        st_bind (read_operand_u8 oa i 0) (\<lambda>lhs.
        st_bind (st_lift (immediate_as_u8 i)) (\<lambda>rhs. finish_test (lhs, rhs)))
      else if form = Rm16_imm16 \<or> form = Rm16_imm16_F7r1 then
        st_bind (read_operand_u16 oa i 0) (\<lambda>lhs.
        st_bind (st_lift (immediate_as_u16 i)) (\<lambda>rhs. finish_test (lhs, rhs)))
      else unsupported rip)"

definition execute_code :: "'m operand_access \<Rightarrow> u64 \<Rightarrow> instruction \<Rightarrow> ('m, unit) exec_op" where
  "execute_code oa rip i =
     (case i_code i of
        Code_other \<Rightarrow> unsupported rip
      | Code opcode form \<Rightarrow>
          (case opcode of
             Mov \<Rightarrow> execute_mov oa rip i form
           | Movzx \<Rightarrow> execute_movzx oa rip i form
           | Movsx \<Rightarrow> execute_movsx oa rip i form
           | Movsxd \<Rightarrow> execute_movsxd oa rip i form
           | Cdqe \<Rightarrow> execute_cdqe
           | Push \<Rightarrow> execute_push oa rip i form
           | Pushq \<Rightarrow> execute_pushq oa rip i form
           | Pop \<Rightarrow> execute_pop oa rip i form
           | Lea \<Rightarrow> execute_lea rip i form
           | Add \<Rightarrow> execute_add rip i form
           | Sub \<Rightarrow> execute_sub rip i form
           | And \<Rightarrow> execute_logic oa rip i LogicAnd form
           | Or \<Rightarrow> execute_logic oa rip i LogicOr form
           | Xor \<Rightarrow> execute_logic oa rip i LogicXor form
           | Cmp \<Rightarrow> execute_cmp oa rip i form
           | Test \<Rightarrow> execute_test oa rip i form
           | Nopd \<Rightarrow> st_ok ()
           | Nopq \<Rightarrow> st_ok ()
           | _ \<Rightarrow> unsupported rip))"

text \<open>\<open>bytes.get(a..b)\<close>, whose bounds are computed with an overflow check.\<close>

definition slice_get :: "u8 list \<Rightarrow> nat \<Rightarrow> nat \<Rightarrow> execution_error \<Rightarrow> u8 list exec_result" where
  "slice_get bytes a n e =
     (if 2 ^ 64 \<le> a + n then Panic
      else if a + n \<le> length bytes then Ok (take n (drop a bytes)) else Err e)"

definition execute_simple_instruction ::
  "decoder \<Rightarrow> 'm operand_access \<Rightarrow> guest_block \<Rightarrow> u64 \<Rightarrow> nat \<Rightarrow> ('m, unit) exec_op" where
  "execute_simple_instruction dec oa block rip len =
     st_bind (st_lift (slice_get (gb_bytes block)
                         (if gb_rip block \<le> rip then unat (rip - gb_rip block) else 0) len
                         (MissingSyscall (Invalid rip)))) (\<lambda>bytes.
     st_bind (execute_code oa rip (dec bytes rip)) (\<lambda>_.
     st_bind (st_lift (u64_add rip (of_nat len))) (\<lambda>next.
       on_registers (\<lambda>rs. Ok (rs\<lparr>r_rip := next\<rparr>)))))"

section \<open>Blocks\<close>

definition block_offset :: "guest_block \<Rightarrow> u64 \<Rightarrow> nat exec_result" where
  "block_offset block rip =
     and_then (ok_or (checked_sub rip (gb_rip block)) (MissingSyscall (Invalid rip))) (\<lambda>offset.
       if unat offset \<ge> length (gb_bytes block) then Err (MissingSyscall (Invalid rip)) else Ok (unat offset))"

definition block_from_rip :: "guest_block \<Rightarrow> u64 \<Rightarrow> guest_block exec_result" where
  "block_from_rip block rip =
     and_then (block_offset block rip) (\<lambda>offset.
       if offset \<le> length (gb_bytes block) then Ok \<lparr>gb_bytes = drop offset (gb_bytes block), gb_rip = rip\<rparr>
       else Err (MissingSyscall (Invalid rip)))"

definition branch_condition :: "opcode \<Rightarrow> guest_flags \<Rightarrow> bool option" where
  "branch_condition opcode f =
     (case opcode of
        Jmp \<Rightarrow> Some True
      | Je \<Rightarrow> Some (f_zero f)
      | Jne \<Rightarrow> Some (\<not> f_zero f)
      | Js \<Rightarrow> Some (f_sign f)
      | Jns \<Rightarrow> Some (\<not> f_sign f)
      | Jl \<Rightarrow> Some (f_sign f \<noteq> f_overflow f)
      | Jge \<Rightarrow> Some (f_sign f = f_overflow f)
      | Jg \<Rightarrow> Some (\<not> f_zero f \<and> f_sign f = f_overflow f)
      | Jle \<Rightarrow> Some (f_zero f \<or> f_sign f \<noteq> f_overflow f)
      | Jb \<Rightarrow> Some (f_carry f)
      | Jae \<Rightarrow> Some (\<not> f_carry f)
      | Ja \<Rightarrow> Some (\<not> f_carry f \<and> \<not> f_zero f)
      | Jbe \<Rightarrow> Some (f_carry f \<or> f_zero f)
      | _ \<Rightarrow> None)"

definition branch_taken :: "instruction \<Rightarrow> guest_flags \<Rightarrow> bool exec_result" where
  "branch_taken i f =
     (let unknown = Err (MissingSyscall (ControlFlow (i_ip i)
                      (case to_decoded_flow_control (i_flow_control i) of
                         Some flow \<Rightarrow> flow | None \<Rightarrow> Exception)))
      in case i_code i of
           Code opcode form \<Rightarrow>
             if form = Rel8_64 \<or> form = Rel32_64
             then (case branch_condition opcode f of Some b \<Rightarrow> Ok b | None \<Rightarrow> unknown)
             else unknown
         | Code_other \<Rightarrow> unknown)"

text \<open>Entering a called function: the return address is stored below the stack pointer.\<close>

definition enter_call :: "'m operand_access \<Rightarrow> instruction \<Rightarrow> u64 \<Rightarrow> ('m, u64 option) exec_op" where
  "enter_call oa i target =
     st_bind (of_registers (\<lambda>rs. Ok (r_rsp rs - 8))) (\<lambda>next_rsp.
     st_bind (write_memory_u64 oa (i_ip i) next_rsp (i_next_ip i)) (\<lambda>_.
     st_bind (on_registers (\<lambda>rs. Ok (rs\<lparr>r_rsp := next_rsp\<rparr>))) (\<lambda>_. st_ok (Some target))))"

definition jump_within :: "guest_block \<Rightarrow> u64 \<Rightarrow> ('m, u64) exec_op" where
  "jump_within block target = st_bind (st_lift (block_offset block target)) (\<lambda>_. st_ok target)"

definition near_branch :: "op_kind \<Rightarrow> bool" where
  "near_branch k \<longleftrightarrow> k = NearBranch16 \<or> k = NearBranch32 \<or> k = NearBranch64"

definition flow_target ::
  "'m operand_access \<Rightarrow> guest_block \<Rightarrow> block_terminator \<Rightarrow> decoded_flow_control \<Rightarrow> instruction \<Rightarrow>
   ('m, u64 option) exec_op" where
  "flow_target oa block terminator flow i =
     (if flow = UnconditionalBranch \<or> flow = ConditionalBranch then
        st_bind (st_get m_flags) (\<lambda>flags.
        st_bind (st_lift (branch_taken i flags)) (\<lambda>taken.
          if \<not> taken then st_ok (Some (i_next_ip i))
          else if \<not> near_branch (i_op_kind i 0) then st_err (MissingSyscall terminator)
          else st_bind (jump_within block (i_near_branch_target i)) (\<lambda>t. st_ok (Some t))))
      else if flow = Call \<and> i_code i = Code CallOp Rel32_64 then
        st_bind (jump_within block (i_near_branch_target i)) (enter_call oa i)
      else if flow = Call \<and> i_code i = Code CallOp Rm64 then
        st_bind (read_operand_u64 oa i 0) (\<lambda>target.
        st_bind (jump_within block target) (enter_call oa i))
      else if flow = Return \<and> i_code i = Code Retnq No_operand then
        st_bind (of_registers (\<lambda>rs. Ok (r_rsp rs))) (\<lambda>rsp.
        st_bind (read_memory_u64 oa (i_ip i) rsp) (\<lambda>target.
        st_bind (jump_within block target) (\<lambda>t.
        st_bind (on_registers (\<lambda>rs. Ok (rs\<lparr>r_rsp := r_rsp rs + 8\<rparr>))) (\<lambda>_. st_ok (Some t)))))
      else if flow = IndirectBranch \<and> i_code i = Code Jmp Rm64 then
        st_bind (read_operand_u64 oa i 0) (\<lambda>target.
        st_bind (jump_within block target) (\<lambda>t. st_ok (Some t)))
      else st_ok None)"

definition control_flow_target ::
  "decoder \<Rightarrow> 'm operand_access \<Rightarrow> guest_block \<Rightarrow> decoded_block \<Rightarrow> ('m, u64 option) exec_op" where
  "control_flow_target dec oa block decoded =
     (case db_terminator decoded of
        ControlFlow rip flow \<Rightarrow>
          (if db_instructions decoded = [] then st_err (MissingSyscall (db_terminator decoded))
           else
             let d = last (db_instructions decoded) in
             st_bind (st_lift (block_offset block (di_rip d))) (\<lambda>offset.
             st_bind (st_lift (slice_get (gb_bytes block) offset (di_len d)
                                 (MissingSyscall (Invalid (di_rip d))))) (\<lambda>bytes.
               flow_target oa block (db_terminator decoded) flow (dec bytes (di_rip d)))))
      | _ \<Rightarrow> st_ok None)"

text \<open>The instructions of a block before the one that ends it.\<close>

definition ends_block :: "decoded_block \<Rightarrow> decoded_instruction \<Rightarrow> bool" where
  "ends_block decoded d \<longleftrightarrow>
     (case db_terminator decoded of
        SyscallAt s \<Rightarrow> site_rip s = di_rip d
      | ControlFlow rip flow \<Rightarrow> rip = di_rip d
      | _ \<Rightarrow> False)"

definition execute_straight ::
  "decoder \<Rightarrow> 'm operand_access \<Rightarrow> guest_block \<Rightarrow> decoded_block \<Rightarrow> ('m, unit) exec_op" where
  "execute_straight dec oa block decoded =
     st_for (takeWhile (\<lambda>d. \<not> ends_block decoded d) (db_instructions decoded))
       (\<lambda>d. execute_simple_instruction dec oa block (di_rip d) (di_len d))"

record syscall_trap =
  trap_decoded :: decoded_block
  trap_site :: syscall_site
  trap_registers :: guest_registers

definition MAX_CONTROL_FLOW_STEPS :: nat where "MAX_CONTROL_FLOW_STEPS = 256"

definition set_rip :: "u64 \<Rightarrow> ('m, unit) exec_op" where
  "set_rip rip = on_registers (\<lambda>rs. Ok (rs\<lparr>r_rip := rip\<rparr>))"

text \<open>The loop over the blocks that control flow reaches, at most \<open>MAX_CONTROL_FLOW_STEPS\<close> of them.\<close>

fun trap_loop ::
  "nat \<Rightarrow> decoder \<Rightarrow> 'm operand_access \<Rightarrow> guest_block \<Rightarrow> u64 \<Rightarrow> ('m, syscall_trap) exec_op" where
  "trap_loop 0 dec oa block current_rip = st_err (MissingSyscall (Invalid current_rip))"
| "trap_loop (Suc n) dec oa block current_rip =
     st_bind (st_lift (and_then (block_from_rip block current_rip)
                         (\<lambda>b. map_err DecodeFailed (block_decode dec b)))) (\<lambda>decoded.
     st_bind (execute_straight dec oa block decoded) (\<lambda>_.
       case block_syscall_site decoded of
         Some site \<Rightarrow>
           st_bind (set_rip (site_rip site)) (\<lambda>_.
           st_bind (st_get m_registers) (\<lambda>rs.
             st_ok \<lparr>trap_decoded = decoded, trap_site = site, trap_registers = rs\<rparr>))
       | None \<Rightarrow>
           st_bind (control_flow_target dec oa block decoded) (\<lambda>target.
             case target of
               Some t \<Rightarrow> st_bind (set_rip t) (\<lambda>_. trap_loop n dec oa block t)
             | None \<Rightarrow> st_err (MissingSyscall (db_terminator decoded)))))"

definition execute_to_syscall_trap_with_memory ::
  "decoder \<Rightarrow> 'm operand_access \<Rightarrow> guest_block \<Rightarrow> guest_registers \<Rightarrow> 'm \<Rightarrow> syscall_trap exec_result \<times> 'm" where
  "execute_to_syscall_trap_with_memory dec oa block rs m =
     (let (r, s) = trap_loop MAX_CONTROL_FLOW_STEPS dec oa block (r_rip rs)
                     \<lparr>m_registers = rs, m_flags = from_registers rs, m_memory = m\<rparr>
      in (r, m_memory s))"

definition execute_to_syscall_trap ::
  "decoder \<Rightarrow> guest_block \<Rightarrow> guest_registers \<Rightarrow> syscall_trap exec_result" where
  "execute_to_syscall_trap dec block rs =
     fst (execute_to_syscall_trap_with_memory dec rejecting_access block rs ())"

section \<open>Trampoline\<close>

record syscall_registers =
  sr_rax :: u64
  sr_rdi :: u64
  sr_rsi :: u64
  sr_rdx :: u64
  sr_r10 :: u64
  sr_r8 :: u64
  sr_r9 :: u64
  sr_rip :: u64

definition get_syscall_registers :: "guest_registers \<Rightarrow> syscall_registers" where
  "get_syscall_registers rs =
     \<lparr>sr_rax = r_rax rs, sr_rdi = r_rdi rs, sr_rsi = r_rsi rs, sr_rdx = r_rdx rs, sr_r10 = r_r10 rs,
      sr_r8 = r_r8 rs, sr_r9 = r_r9 rs, sr_rip = r_rip rs\<rparr>"

text \<open>The dispatcher is a parameter: its state, and the value of \<open>rax\<close> it returns for a context.\<close>

record 'd trampoline_core =
  tc_pid :: guest_pid
  tc_tid :: guest_tid
  tc_dispatcher :: 'd

type_synonym 'd guest_dispatcher = "'d \<Rightarrow> guest_pid \<times> guest_tid \<times> syscall_registers \<Rightarrow> u64 \<times> 'd"

definition dispatch_syscall ::
  "'d guest_dispatcher \<Rightarrow> 'd trampoline_core \<Rightarrow> guest_pid \<times> guest_tid \<times> syscall_registers \<Rightarrow>
   (u64 \<times> u64) exec_result \<times> 'd trampoline_core" where
  "dispatch_syscall disp t ctx =
     (let (rax, d) = disp (tc_dispatcher t) ctx
      in (and_then (u64_add (sr_rip (snd (snd ctx))) 2) (\<lambda>next. Ok (rax, next)), t\<lparr>tc_dispatcher := d\<rparr>))"

definition enter_syscall ::
  "'d guest_dispatcher \<Rightarrow> 'd trampoline_core \<Rightarrow> guest_registers \<Rightarrow> syscall_site \<Rightarrow>
   guest_registers exec_result \<times> 'd trampoline_core" where
  "enter_syscall disp t rs site =
     (let (r, t') = dispatch_syscall disp t (tc_pid t, tc_tid t, get_syscall_registers rs)
      in (and_then r (\<lambda>(rax, _). Ok (apply_syscall_return rs rax (site_next_rip site))), t'))"

definition execute_until_syscall ::
  "decoder \<Rightarrow> 'd guest_dispatcher \<Rightarrow> guest_block \<Rightarrow> guest_registers \<Rightarrow> 'd trampoline_core \<Rightarrow>
   (decoded_block \<times> guest_registers) exec_result \<times> 'd trampoline_core" where
  "execute_until_syscall dec disp block rs t =
     (case execute_to_syscall_trap dec block rs of
        Ok trap \<Rightarrow>
          (case enter_syscall disp t (trap_registers trap) (trap_site trap) of
             (Ok rs', t') \<Rightarrow> (Ok (trap_decoded trap, rs'), t')
           | (Err e, t') \<Rightarrow> (Err e, t')
           | (Panic, t') \<Rightarrow> (Panic, t'))
      | Err e \<Rightarrow> (Err e, t)
      | Panic \<Rightarrow> (Panic, t))"

end
