(* ===== verification/Jit_Flags.thy ===== *)
theory Jit_Flags
  imports Jit_Exec
begin

text \<open>
  Flags and registers of the instruction fallback mean what the processor's manual says: after a
  comparison the conditional branches decide the signed and unsigned orders, after an addition carry and
  overflow tell whether the sum left the range, and names of partial registers read and write their bits.
\<close>

section \<open>Widths\<close>

lemma mask_for_width_eq: "n \<le> 64 \<Longrightarrow> mask_for_width n = mask n"
  by (auto simp: mask_for_width_def mask_eq_exp_minus_1)

lemma mask_to_width_eq: "n \<le> 64 \<Longrightarrow> mask_to_width v n = take_bit n v"
  by (simp add: mask_to_width_def mask_for_width_eq take_bit_eq_mask)

lemma take_bit_ucast_self:
  "take_bit LENGTH('w) (ucast (a :: 'w::len word) :: 'v::len word) = ucast a"
  by (rule bit_word_eqI) (auto simp: bit_simps dest: bit_imp_le_length)

lemma sign_bit_test: "0 < n \<Longrightarrow> n \<le> 64 \<Longrightarrow> v AND sign_bit n \<noteq> 0 \<longleftrightarrow> bit v (n - 1)"
  by (simp add: sign_bit_def and_exp_eq_0_iff_not_bit)

lemma sign_bit_test_both:
  "0 < n \<Longrightarrow> n \<le> 64 \<Longrightarrow> u AND v AND sign_bit n = 0 \<longleftrightarrow> \<not> (bit u (n - 1) \<and> bit v (n - 1))"
  by (simp add: and.assoc [symmetric] sign_bit_def and_exp_eq_0_iff_not_bit bit_and_iff)

lemma bit_ucast_last:
  "LENGTH('w) \<le> 64 \<Longrightarrow> bit (ucast (a :: 'w::len word) :: u64) (LENGTH('w) - Suc 0) \<longleftrightarrow> sint a < 0"
  by (simp add: bit_simps bit_last_iff)

lemma unat_ucast_wide:
  fixes x :: "'w::len word"
  assumes "LENGTH('w) \<le> LENGTH('v::len)"
  shows "unat (ucast x :: 'v word) = unat x"
proof -
  have "unat x < 2 ^ LENGTH('v)"
    using assms by (meson less_le_trans one_le_numeral power_increasing unsigned_less)
  then show ?thesis by (simp add: unsigned_ucast_eq take_bit_nat_eq_self_iff)
qed

lemma ucast_wide_eq_iff:
  "LENGTH('w::len) \<le> LENGTH('v::len) \<Longrightarrow> (ucast x :: 'v word) = ucast y \<longleftrightarrow> x = (y :: 'w word)"
  by (metis unat_ucast_wide word_unat_eq_iff)

lemma ucast_wide_less:
  "LENGTH('w::len) \<le> LENGTH('v::len) \<Longrightarrow> (ucast x :: 'v word) < ucast y \<longleftrightarrow> x < (y :: 'w word)"
  by (simp add: word_less_nat_alt unat_ucast_wide)

section \<open>Differences\<close>

lemma sint_bounds:
  fixes a :: "'w::len word"
  shows "- (2 ^ (LENGTH('w) - 1)) \<le> sint a" "sint a < 2 ^ (LENGTH('w) - 1)"
  using sint_ge [of a] sint_lt [of a] by simp_all

lemma range_shift:
  fixes d m :: int
  assumes "- m \<le> d" "d < m" "k * (2 * m) = x - d" "- (2 * m) \<le> x" "x < 2 * m" "0 < m"
  shows "d = x \<or> d = x - 2 * m \<or> d = x + 2 * m"
proof -
  have "- (3 * m) < k * (2 * m)" "k * (2 * m) < 3 * m" using assms by linarith+
  have "- 2 < k"
  proof (rule ccontr)
    assume "\<not> - 2 < k"
    then have "k * (2 * m) \<le> - 2 * (2 * m)" using assms(6) by (intro mult_right_mono) auto
    with \<open>- (3 * m) < k * (2 * m)\<close> assms(6) show False by simp
  qed
  moreover have "k < 2"
  proof (rule ccontr)
    assume "\<not> k < 2"
    then have "2 * (2 * m) \<le> k * (2 * m)" using assms(6) by (intro mult_right_mono) auto
    with \<open>k * (2 * m) < 3 * m\<close> assms(6) show False by simp
  qed
  ultimately have "k = - 1 \<or> k = 0 \<or> k = 1" by linarith
  then show ?thesis using assms(3) by auto
qed

text \<open>A wrapped difference or sum is off by nothing or by the size of the range.\<close>

lemma sint_mod_shift:
  fixes r :: "'w::len word"
  assumes "r = word_of_int x" "- (2 ^ LENGTH('w)) \<le> x" "x < 2 ^ LENGTH('w)"
  shows "sint r = x \<or> sint r = x - 2 ^ LENGTH('w) \<or> sint r = x + 2 ^ LENGTH('w)"
proof -
  define m :: int where "m = 2 ^ (LENGTH('w) - 1)"
  have mm: "2 ^ LENGTH('w) = 2 * m" unfolding m_def
    by (metis Suc_pred' len_gt_0 power_Suc)
  have "(word_of_int (sint r) :: 'w word) = word_of_int x" using assms(1) by simp
  then have "sint r mod 2 ^ LENGTH('w) = x mod 2 ^ LENGTH('w)"
    unfolding word_of_int_eq_iff take_bit_eq_mod .
  then have "2 ^ LENGTH('w) dvd x - sint r" by (metis mod_eq_dvd_iff)
  then obtain k where "x - sint r = 2 ^ LENGTH('w) * k" by (auto elim: dvdE)
  then have "k * (2 * m) = x - sint r" using mm by (simp add: mult.commute)
  then show ?thesis
    unfolding mm using sint_bounds [of r] assms(2,3) unfolding mm m_def [symmetric]
    by (intro range_shift [where k = k]) (auto simp: m_def)
qed

lemma sint_diff_cases:
  fixes a b :: "'w::len word"
  shows "sint (a - b) = sint a - sint b \<or> sint (a - b) = sint a - sint b - 2 ^ LENGTH('w) \<or>
         sint (a - b) = sint a - sint b + 2 ^ LENGTH('w)"
proof (rule sint_mod_shift)
  have "(2 :: int) ^ LENGTH('w) = 2 * 2 ^ (LENGTH('w) - 1)" by (metis Suc_pred' len_gt_0 power_Suc)
  then show "- (2 ^ LENGTH('w)) \<le> sint a - sint b" "sint a - sint b < 2 ^ LENGTH('w)"
    using sint_bounds [of a] sint_bounds [of b] by linarith+
qed simp

lemma sint_add_cases:
  fixes a b :: "'w::len word"
  shows "sint (a + b) = sint a + sint b \<or> sint (a + b) = sint a + sint b - 2 ^ LENGTH('w) \<or>
         sint (a + b) = sint a + sint b + 2 ^ LENGTH('w)"
proof (rule sint_mod_shift)
  have "(2 :: int) ^ LENGTH('w) = 2 * 2 ^ (LENGTH('w) - 1)" by (metis Suc_pred' len_gt_0 power_Suc)
  then show "- (2 ^ LENGTH('w)) \<le> sint a + sint b" "sint a + sint b < 2 ^ LENGTH('w)"
    using sint_bounds [of a] sint_bounds [of b] by linarith+
qed simp

lemma sint_sign_diff:
  fixes a b :: "'w::len word"
  shows "(((sint a < 0) \<noteq> (sint b < 0)) \<and> ((sint a < 0) \<noteq> (sint (a - b) < 0))) \<longleftrightarrow>
         sint (a - b) \<noteq> sint a - sint b"
  using sint_diff_cases [of a b] sint_bounds [of a] sint_bounds [of b] sint_bounds [of "a - b"]
    power_Suc [of "2 :: int" "LENGTH('w) - 1"]
  by (auto simp: Suc_pred')

lemma sint_sign_add:
  fixes a b :: "'w::len word"
  shows "(((sint a < 0) \<noteq> (sint (a + b) < 0)) \<and> ((sint b < 0) \<noteq> (sint (a + b) < 0))) \<longleftrightarrow>
         sint (a + b) \<noteq> sint a + sint b"
  using sint_add_cases [of a b] sint_bounds [of a] sint_bounds [of b] sint_bounds [of "a + b"]
    power_Suc [of "2 :: int" "LENGTH('w) - 1"]
  by (auto simp: Suc_pred')

lemma sint_less_by_flags:
  fixes a b :: "'w::len word"
  shows "(sint (a - b) < 0) \<noteq> (sint (a - b) \<noteq> sint a - sint b) \<longleftrightarrow> sint a < sint b"
  using sint_diff_cases [of a b] sint_bounds [of a] sint_bounds [of b] sint_bounds [of "a - b"]
    power_Suc [of "2 :: int" "LENGTH('w) - 1"]
  by (auto simp: Suc_pred')

section \<open>Flags of arithmetic\<close>

lemma set_sub_result_flags:
  fixes a b :: "'w::len word" and f :: guest_flags
  assumes w: "LENGTH('w) \<le> 64"
  defines "f' \<equiv> set_sub_result (ucast a) (ucast b) (ucast (a - b)) LENGTH('w) f"
  shows "f_zero f' \<longleftrightarrow> a = b" "f_carry f' \<longleftrightarrow> a < b" "f_sign f' \<longleftrightarrow> sint (a - b) < 0"
    "f_overflow f' \<longleftrightarrow> sint (a - b) \<noteq> sint a - sint b"
proof -
  have p: "0 < LENGTH('w)" by simp
  note simps = f'_def set_sub_result_def Let_def set_zero_sign_def mask_to_width_eq [OF w] take_bit_ucast_self
    sign_bit_test [OF p w] sign_bit_test_both [OF p w] bit_ucast_last [OF w]
  have "(ucast (a - b) :: u64) = 0 \<longleftrightarrow> a - b = 0" using w ucast_wide_eq_iff [of "a - b" 0, where ?'v = 64] by simp
  then show "f_zero f' \<longleftrightarrow> a = b" by (simp add: simps)
  show "f_carry f' \<longleftrightarrow> a < b" using w by (simp add: simps ucast_wide_less)
  show "f_sign f' \<longleftrightarrow> sint (a - b) < 0" by (simp add: simps)
  show "f_overflow f' \<longleftrightarrow> sint (a - b) \<noteq> sint a - sint b"
    using sint_sign_diff [of a b] by (simp add: simps bit_and_iff bit_xor_iff)
qed

lemma set_add_result_flags:
  fixes a b :: "'w::len word" and f :: guest_flags
  assumes w: "LENGTH('w) \<le> 64"
  defines "f' \<equiv> set_add_result (ucast a) (ucast b) (ucast (a + b)) LENGTH('w) f"
  shows "f_zero f' \<longleftrightarrow> a + b = 0" "f_carry f' \<longleftrightarrow> 2 ^ LENGTH('w) \<le> unat a + unat b"
    "f_sign f' \<longleftrightarrow> sint (a + b) < 0" "f_overflow f' \<longleftrightarrow> sint (a + b) \<noteq> sint a + sint b"
proof -
  have p: "0 < LENGTH('w)" by simp
  note simps = f'_def set_add_result_def Let_def set_zero_sign_def mask_to_width_eq [OF w] take_bit_ucast_self
    sign_bit_test [OF p w] sign_bit_test_both [OF p w] bit_ucast_last [OF w]
  have "(ucast (a + b) :: u64) = 0 \<longleftrightarrow> a + b = 0" using w ucast_wide_eq_iff [of "a + b" 0, where ?'v = 64] by simp
  then show "f_zero f' \<longleftrightarrow> a + b = 0" by (simp add: simps)
  show "f_sign f' \<longleftrightarrow> sint (a + b) < 0" by (simp add: simps)
  show "f_overflow f' \<longleftrightarrow> sint (a + b) \<noteq> sint a + sint b"
    using sint_sign_add [of a b] by (simp add: simps bit_and_iff bit_xor_iff conj_commute)
  have less: "unat x < 2 ^ 64" for x :: "'w word"
    using w by (meson less_le_trans one_le_numeral power_increasing unsigned_less)
  have u: "unat (ucast (ucast x :: u64) :: 128 word) = unat x" for x :: "'w word"
    using w by (simp add: unat_ucast_wide)
  have s: "unat ((ucast (ucast a :: u64) :: 128 word) + ucast (ucast b :: u64)) = unat a + unat b"
    using less [of a] less [of b] u [of a] u [of b] by (subst unat_add_small) auto
  have "(mask LENGTH('w) :: u64) = ucast (- 1 :: 'w word)"
    using w by (intro bit_word_eqI) (auto simp: bit_simps)
  then have "unat (ucast (mask_for_width LENGTH('w)) :: 128 word) = unat (- 1 :: 'w word)"
    using w by (simp only: mask_for_width_eq) (rule u)
  then have "unat (ucast (mask_for_width LENGTH('w)) :: 128 word) = 2 ^ LENGTH('w) - 1"
    by (simp add: unsigned_minus_1_eq_mask mask_eq_exp_minus_1)
  then have "f_carry f' \<longleftrightarrow> 2 ^ LENGTH('w) - 1 < unat a + unat b"
    by (simp add: simps word_less_nat_alt s)
  moreover have "(0 :: nat) < 2 ^ LENGTH('w)" by simp
  ultimately show "f_carry f' \<longleftrightarrow> 2 ^ LENGTH('w) \<le> unat a + unat b" by linarith
qed

section \<open>Conditional branches\<close>

text \<open>What the manual says of a conditional branch behind a comparison of \<open>a\<close> with \<open>b\<close>.\<close>

definition branch_meaning :: "opcode \<Rightarrow> 'w::len word \<Rightarrow> 'w word \<Rightarrow> bool option" where
  "branch_meaning opcode a b =
     (case opcode of
        Jmp \<Rightarrow> Some True
      | Je \<Rightarrow> Some (a = b)
      | Jne \<Rightarrow> Some (a \<noteq> b)
      | Jl \<Rightarrow> Some (sint a < sint b)
      | Jge \<Rightarrow> Some (sint b \<le> sint a)
      | Jg \<Rightarrow> Some (sint b < sint a)
      | Jle \<Rightarrow> Some (sint a \<le> sint b)
      | Jb \<Rightarrow> Some (unat a < unat b)
      | Jae \<Rightarrow> Some (unat b \<le> unat a)
      | Ja \<Rightarrow> Some (unat b < unat a)
      | Jbe \<Rightarrow> Some (unat a \<le> unat b)
      | Js \<Rightarrow> Some (sint (a - b) < 0)
      | Jns \<Rightarrow> Some (0 \<le> sint (a - b))
      | _ \<Rightarrow> None)"

lemma finish_cmp_flags:
  "m_flags (snd (finish_cmp (a, b) s)) =
     set_sub_result (ucast a) (ucast b) (ucast (a - b)) LENGTH('w) (m_flags s)"
  for a b :: "'w::len word"
  by (simp add: finish_cmp_def on_flags_def st_modify_def)

lemma branch_condition_meaning:
  fixes a b :: "'w::len word"
  assumes w: "LENGTH('w) \<le> 64"
  shows "branch_condition opcode (m_flags (snd (finish_cmp (a, b) s))) = branch_meaning opcode a b"
proof -
  note flags = set_sub_result_flags [OF w, where a = a and b = b and f = "m_flags s"]
  have eq: "a = b \<longleftrightarrow> sint a = sint b" by (rule word_eq_iff_signed)
  have sign: "sint (a - b) < 0 \<longleftrightarrow> (sint (a - b) \<noteq> sint a - sint b) \<noteq> (sint a < sint b)"
    using sint_less_by_flags [of a b] by blast
  have signed: "sint b < sint a \<longleftrightarrow> a \<noteq> b \<and> \<not> sint a < sint b" "sint b \<le> sint a \<longleftrightarrow> \<not> sint a < sint b"
    "sint a \<le> sint b \<longleftrightarrow> a = b \<or> sint a < sint b" "0 \<le> sint (a - b) \<longleftrightarrow> \<not> sint (a - b) < 0"
    unfolding eq by linarith+
  have unsigned: "unat a < unat b \<longleftrightarrow> a < b" "unat b < unat a \<longleftrightarrow> \<not> a < b \<and> a \<noteq> b"
    "unat b \<le> unat a \<longleftrightarrow> \<not> a < b" "unat a \<le> unat b \<longleftrightarrow> a < b \<or> a = b"
    by (auto simp: word_less_nat_alt word_unat_eq_iff)
  show ?thesis
    by (cases opcode)
      (auto simp: branch_condition_def branch_meaning_def finish_cmp_flags flags unsigned signed
        simp del: not_less not_le, auto simp: sign)
qed

text \<open>C13. After a comparison of two values of the same width, a conditional branch is taken exactly when
  the order that its name stands for holds between them: signed for \<open>jl\<close>, \<open>jg\<close> and their negations,
  unsigned for \<open>jb\<close>, \<open>ja\<close> and theirs, equality for \<open>je\<close>.\<close>

theorem compare_then_branch:
  fixes a b :: "'w::len word"
  assumes "LENGTH('w) \<le> 64" "i_code i = Code opcode form" "form = Rel8_64 \<or> form = Rel32_64"
    "branch_meaning opcode a b = Some t"
  shows "branch_taken i (m_flags (snd (finish_cmp (a, b) s))) = Ok t"
  using assms branch_condition_meaning [OF assms(1), of opcode a b s]
  by (auto simp: branch_taken_def Let_def)

text \<open>An instruction without operands, and registers that hold nothing.\<close>

definition blank_instruction :: "u64 \<Rightarrow> nat \<Rightarrow> instruction" where
  "blank_instruction ip len =
     \<lparr>i_ip = ip, i_len = len, i_next_ip = ip + of_nat len, i_is_invalid = False, i_mnemonic = Mnemonic_other,
      i_code = Code Nopd No_operand, i_flow_control = Flow_Next, i_op_kind = (\<lambda>_. OpRegister),
      i_op_register = (\<lambda>_. Reg64 RAX), i_immediate8 = 0, i_immediate16 = 0, i_immediate32 = 0,
      i_immediate64 = 0, i_immediate8to16 = 0, i_immediate8to32 = 0, i_immediate8to64 = 0,
      i_immediate32to64 = 0, i_memory_segment = DS, i_memory_base = Register_None,
      i_memory_index = Register_None, i_memory_index_scale = 1, i_memory_displacement64 = 0,
      i_ip_rel_memory_address = 0, i_near_branch_target = 0\<rparr>"

definition zero_registers :: guest_registers where
  "zero_registers =
     \<lparr>r_rax = 0, r_rbx = 0, r_rcx = 0, r_rdx = 0, r_rsi = 0, r_rdi = 0, r_rbp = 0, r_rsp = 0, r_r8 = 0,
      r_r9 = 0, r_r10 = 0, r_r11 = 0, r_r12 = 0, r_r13 = 0, r_r14 = 0, r_r15 = 0, r_rip = 0,
      r_rflags = 0, r_fs_base = 0\<rparr>"

definition clear_flags :: guest_flags where
  "clear_flags = \<lparr>f_carry = False, f_zero = False, f_sign = False, f_overflow = False\<rparr>"

theorem compare_then_branch_witness:
  "branch_taken ((blank_instruction 0 2)\<lparr>i_code := Code Jl Rel8_64\<rparr>)
     (m_flags (snd (finish_cmp (255 :: u8, 1)
        \<lparr>m_registers = zero_registers, m_flags = clear_flags, m_memory = ()\<rparr>))) = Ok True"
  by (rule compare_then_branch [where opcode = Jl and form = Rel8_64]) (simp_all add: branch_meaning_def)

text \<open>C2. The flags of an addition at any width: zero and sign describe the wrapped sum, carry tells that
  the unsigned sum does not fit, overflow that the signed sum does not.\<close>

theorem addition_flags:
  fixes a b :: "'w::len word"
  assumes "LENGTH('w) \<le> 64"
    and "f' = set_add_result (ucast a) (ucast b) (ucast (a + b)) LENGTH('w) f"
  shows "(f_zero f' \<longleftrightarrow> a + b = 0) \<and> (f_sign f' \<longleftrightarrow> sint (a + b) < 0) \<and>
    (f_carry f' \<longleftrightarrow> 2 ^ LENGTH('w) \<le> unat a + unat b) \<and>
    (f_overflow f' \<longleftrightarrow> sint (a + b) \<noteq> sint a + sint b)"
  unfolding assms(2) using set_add_result_flags [OF assms(1), of a b f] by simp

theorem addition_flags_witness:
  "f_carry (set_add_result (ucast (200 :: u8)) (ucast (100 :: u8)) (ucast (200 + 100 :: u8)) LENGTH(8)
              clear_flags)"
  using addition_flags [OF _ refl, of "200 :: u8" "100 :: u8" clear_flags] by simp

section \<open>Registers\<close>

lemma gpr_get_set [simp]: "gpr_get h (gpr_set g v rs) = (if h = g then v else gpr_get h rs)"
  by (cases g; cases h) simp_all

lemma gpr_set_other [simp]:
  "r_rip (gpr_set g v rs) = r_rip rs" "r_rflags (gpr_set g v rs) = r_rflags rs"
  "r_fs_base (gpr_set g v rs) = r_fs_base rs"
  by (cases g; simp)+

text \<open>Where a register name lives: the general register, the lowest bit and the width.\<close>

fun reg_place :: "register \<Rightarrow> (gpr \<times> nat \<times> nat) option" where
  "reg_place (Reg64 g) = Some (g, 0, 64)"
| "reg_place (Reg32 g) = Some (g, 0, 32)"
| "reg_place (Reg16 g) = Some (g, 0, 16)"
| "reg_place (Reg8 g) = Some (g, 0, 8)"
| "reg_place AH = Some (RAX, 8, 8)"
| "reg_place CH = Some (RCX, 8, 8)"
| "reg_place DH = Some (RDX, 8, 8)"
| "reg_place BH = Some (RBX, 8, 8)"
| "reg_place _ = None"

text \<open>The effect of writing a name as the manual gives it: the bits of its place take the value, a write
  of 32 bits clears the upper half, and nothing else changes.\<close>

definition reg_written :: "register \<Rightarrow> 'w::len word \<Rightarrow> guest_registers \<Rightarrow> guest_registers \<Rightarrow> bool" where
  "reg_written r v rs rs' \<longleftrightarrow>
     (\<exists>g off. reg_place r = Some (g, off, LENGTH('w)) \<and>
        (\<forall>h n. bit (gpr_get h rs') n \<longleftrightarrow>
           (if h \<noteq> g then bit (gpr_get h rs) n
            else if off \<le> n \<and> n < off + LENGTH('w) then bit v (n - off)
            else LENGTH('w) < 32 \<and> bit (gpr_get h rs) n)) \<and>
        r_rip rs' = r_rip rs \<and> r_rflags rs' = r_rflags rs \<and> r_fs_base rs' = r_fs_base rs)"

lemma byte_masks:
  "(0xff :: u64) = mask 8" "(0xffff :: u64) = mask 16" "(0xff00 :: u64) = push_bit 8 (mask 8)"
  by (simp_all add: mask_eq_exp_minus_1 push_bit_eq_mult)

lemma bit_set_low_byte: "bit (set_low_byte v w) n \<longleftrightarrow> (if n < 8 then bit v n else bit w n)"
  unfolding set_low_byte_def byte_masks
  by (auto simp: bit_simps simp del: mask_numeral dest: bit_imp_le_length)

lemma bit_set_high_byte:
  "bit (set_high_byte v w) n \<longleftrightarrow> (if 8 \<le> n \<and> n < 16 then bit v (n - 8) else bit w n)"
  unfolding set_high_byte_def byte_masks
  by (auto simp: bit_simps simp del: mask_numeral dest: bit_imp_le_length)

lemma bit_set_low_half: "bit (set_low_half v w) n \<longleftrightarrow> (if n < 16 then bit v n else bit w n)"
  unfolding set_low_half_def byte_masks
  by (auto simp: bit_simps simp del: mask_numeral dest: bit_imp_le_length)

lemma read_reg8_bits:
  "reg_place r = Some (g, off, 8) \<Longrightarrow> read_reg8 rs r = Ok (ucast (drop_bit off (gpr_get g rs)))"
  by (cases r) (auto simp: read_reg8_def)

lemma write_reg8_written:
  assumes "write_reg8 rs r v = Ok rs'"
  shows "reg_written r v rs rs'"
proof (cases r)
  case (Reg8 g)
  then show ?thesis using assms by (auto simp: write_reg8_def reg_written_def bit_set_low_byte)
next
  case AH
  then have "rs' = gpr_set RAX (set_high_byte v (gpr_get RAX rs)) rs" using assms by (simp add: write_reg8_def)
  then show ?thesis using AH by (auto simp: reg_written_def bit_set_high_byte simp del: gpr_set.simps gpr_get.simps)
next
  case CH
  then have "rs' = gpr_set RCX (set_high_byte v (gpr_get RCX rs)) rs" using assms by (simp add: write_reg8_def)
  then show ?thesis using CH by (auto simp: reg_written_def bit_set_high_byte simp del: gpr_set.simps gpr_get.simps)
next
  case DH
  then have "rs' = gpr_set RDX (set_high_byte v (gpr_get RDX rs)) rs" using assms by (simp add: write_reg8_def)
  then show ?thesis using DH by (auto simp: reg_written_def bit_set_high_byte simp del: gpr_set.simps gpr_get.simps)
next
  case BH
  then have "rs' = gpr_set RBX (set_high_byte v (gpr_get RBX rs)) rs" using assms by (simp add: write_reg8_def)
  then show ?thesis using BH by (auto simp: reg_written_def bit_set_high_byte simp del: gpr_set.simps gpr_get.simps)
qed (use assms in \<open>simp_all add: write_reg8_def\<close>)

lemma write_reg16_written: "write_reg16 rs r v = Ok rs' \<Longrightarrow> reg_written r v rs rs'"
  by (cases r) (auto simp: write_reg16_def reg_written_def bit_set_low_half)

lemma write_reg32_written:
  "write_reg32 rs (Reg32 g) v = Ok rs' \<Longrightarrow> reg_written (Reg32 g) v rs rs'"
  by (auto simp: write_reg32_def write_reg64_def reg_written_def bit_simps)
    (use bit_imp_le_length in fastforce)

lemma write_reg64_written: "write_reg64 rs (Reg64 g) v = Ok rs' \<Longrightarrow> reg_written (Reg64 g) v rs rs'"
  by (auto simp: write_reg64_def reg_written_def dest: bit_imp_le_length)

text \<open>What was written to a place is what its bits are.\<close>

lemma reg_written_read:
  fixes v :: "'w::len word"
  assumes "reg_written r v rs rs'" "reg_place r = Some (g, off, LENGTH('w))" "off + LENGTH('w) \<le> 64"
  shows "ucast (drop_bit off (gpr_get g rs')) = v"
  using assms by (intro bit_word_eqI) (auto simp: reg_written_def bit_simps)

text \<open>C38. Writing a partial register changes exactly its bits, except that a write of 32 bits clears the
  upper half of the register; the other registers, \<open>rip\<close> and \<open>rflags\<close> keep their values, and reading the
  name gives the value back.\<close>

theorem register_writes:
  shows "(write_reg8 rs r8 v8 = Ok rs' \<longrightarrow> reg_written r8 v8 rs rs' \<and> read_reg8 rs' r8 = Ok v8) \<and>
    (write_reg16 rs r16 v16 = Ok rs' \<longrightarrow> reg_written r16 v16 rs rs' \<and> read_reg16 rs' r16 = Ok v16) \<and>
    (write_reg32 rs (Reg32 g) v32 = Ok rs' \<longrightarrow>
       reg_written (Reg32 g) v32 rs rs' \<and> read_reg32 rs' (Reg32 g) = Ok v32) \<and>
    (write_reg64 rs (Reg64 g) v64 = Ok rs' \<longrightarrow>
       reg_written (Reg64 g) v64 rs rs' \<and> read_reg64 rs' (Reg64 g) = Ok v64)"
proof (intro conjI impI)
  assume w: "write_reg8 rs r8 v8 = Ok rs'"
  show l: "reg_written r8 v8 rs rs'" using w by (rule write_reg8_written)
  then obtain h off where p: "reg_place r8 = Some (h, off, 8)" by (auto simp: reg_written_def)
  then have "off + 8 \<le> 64" by (cases r8) auto
  then show "read_reg8 rs' r8 = Ok v8"
    using reg_written_read [OF l, of h off] p by (simp add: read_reg8_bits)
next
  assume w: "write_reg16 rs r16 v16 = Ok rs'"
  show l: "reg_written r16 v16 rs rs'" using w by (rule write_reg16_written)
  from w show "read_reg16 rs' r16 = Ok v16"
    using reg_written_read [OF l] by (cases r16) (auto simp: write_reg16_def read_reg16_def)
next
  assume w: "write_reg32 rs (Reg32 g) v32 = Ok rs'"
  show l: "reg_written (Reg32 g) v32 rs rs'" using w by (rule write_reg32_written)
  show "read_reg32 rs' (Reg32 g) = Ok v32"
    using reg_written_read [OF l, of g 0] by (simp add: read_reg32_def)
next
  assume w: "write_reg64 rs (Reg64 g) v64 = Ok rs'"
  show "reg_written (Reg64 g) v64 rs rs'" using w by (rule write_reg64_written)
  show "read_reg64 rs' (Reg64 g) = Ok v64" using w by (auto simp: read_reg64_def write_reg64_def)
qed

theorem register_writes_witness:
  "write_reg8 zero_registers AH 7 = Ok (zero_registers\<lparr>r_rax := 0x700\<rparr>) \<and>
   read_reg8 (zero_registers\<lparr>r_rax := 0x700\<rparr>) AH = Ok 7"
proof -
  have w: "write_reg8 zero_registers AH 7 = Ok (zero_registers\<lparr>r_rax := 0x700\<rparr>)"
    by (simp add: write_reg8_def zero_registers_def set_high_byte_def push_bit_eq_mult)
  from register_writes [of zero_registers AH 7 "zero_registers\<lparr>r_rax := 0x700\<rparr>"] w show ?thesis by blast
qed

end
