(* ===== verification/Jit_Run.thy ===== *)
theory Jit_Run
  imports Jit_Flags "HOL-Library.Sublist"
begin

text \<open>
  Running blocks: what the decoder hands to the executor, that execution stays inside the block and never
  panics, where it stops, and what the system call at the end leaves in the registers.
\<close>

section \<open>The stream of instructions\<close>

lemma decoder_okD:
  assumes "decoder_ok dec" "bytes \<noteq> []"
  shows "i_ip (dec bytes ip) = ip" "0 < i_len (dec bytes ip)" "i_len (dec bytes ip) \<le> length bytes"
    "i_next_ip (dec bytes ip) = ip + of_nat (i_len (dec bytes ip))"
    "\<not> i_is_invalid (dec bytes ip) \<Longrightarrow> dec (take (i_len (dec bytes ip)) bytes) ip = dec bytes ip"
  using assms by (auto simp: decoder_ok_def)

text \<open>As many steps as there are bytes are enough: the stream is what an unbounded loop would see.\<close>

lemma decode_steps_enough:
  assumes "decoder_ok dec"
  shows "length bytes \<le> n \<Longrightarrow> decode_steps n dec bytes ip = decode_steps (length bytes) dec bytes ip"
proof (induction n arbitrary: bytes ip rule: less_induct)
  case (less n)
  show ?case
  proof (cases "bytes = []")
    case True
    then show ?thesis by (cases n) auto
  next
    case False
    then obtain m k where n: "n = Suc m" and l: "length bytes = Suc k"
      using less.prems by (cases n; cases "length bytes") auto
    let ?rest = "drop (i_len (dec bytes ip)) bytes"
    have s: "length ?rest \<le> k" using decoder_okD(2) [OF assms False, of ip] l by simp
    then have "decode_steps m dec ?rest a = decode_steps (length ?rest) dec ?rest a" for a
      using s n l less.prems by (intro less.IH) auto
    moreover have "decode_steps k dec ?rest a = decode_steps (length ?rest) dec ?rest a" for a
      using s n l less.prems by (intro less.IH) auto
    ultimately show ?thesis using False n l by (simp add: Let_def)
  qed
qed

lemma decode_stream_Nil [simp]: "decode_stream dec [] ip = []"
  by (simp add: decode_stream_def)

lemma decode_stream_unfold:
  assumes "decoder_ok dec" "bytes \<noteq> []"
  shows "decode_stream dec bytes ip =
    dec bytes ip # decode_stream dec (drop (i_len (dec bytes ip)) bytes) (ip + of_nat (i_len (dec bytes ip)))"
proof -
  obtain k where l: "length bytes = Suc k" using assms(2) by (cases "length bytes") auto
  have "length (drop (i_len (dec bytes ip)) bytes) \<le> k"
    using decoder_okD(2) [OF assms, of ip] l by simp
  note enough = decode_steps_enough [OF assms(1) this]
  show ?thesis
    using assms(2) by (simp add: decode_stream_def l Let_def enough del: length_drop)
qed

text \<open>An instruction of the stream sits at an offset of the bytes and fits behind it.\<close>

definition placed_in :: "decoder \<Rightarrow> u8 list \<Rightarrow> u64 \<Rightarrow> nat \<Rightarrow> instruction \<Rightarrow> bool" where
  "placed_in dec bytes ip k i \<longleftrightarrow>
     k < length bytes \<and> i = dec (drop k bytes) (ip + of_nat k) \<and> i_ip i = ip + of_nat k \<and>
     0 < i_len i \<and> k + i_len i \<le> length bytes \<and> i_next_ip i = ip + of_nat (k + i_len i) \<and>
     (\<not> i_is_invalid i \<longrightarrow> dec (take (i_len i) (drop k bytes)) (i_ip i) = i)"

lemma placed_inD:
  assumes "placed_in dec bytes ip k i"
  shows "k < length bytes" "i = dec (drop k bytes) (ip + of_nat k)" "i_ip i = ip + of_nat k" "0 < i_len i"
    "k + i_len i \<le> length bytes" "i_next_ip i = ip + of_nat (k + i_len i)"
    "\<not> i_is_invalid i \<Longrightarrow> dec (take (i_len i) (drop k bytes)) (i_ip i) = i"
  using assms unfolding placed_in_def by blast+

lemma placed_in_here:
  assumes "decoder_ok dec" "k < length bytes"
  shows "placed_in dec bytes ip k (dec (drop k bytes) (ip + of_nat k))"
  using decoder_okD [OF assms(1), of "drop k bytes" "ip + of_nat k"] assms(2)
  by (auto simp: placed_in_def algebra_simps)

lemma placed_in_drop:
  assumes "placed_in dec (drop n bytes) (ip + of_nat n) k i"
  shows "placed_in dec bytes ip (n + k) i"
  using assms by (auto simp: placed_in_def algebra_simps)

lemma decode_stream_placed:
  assumes "decoder_ok dec" "i \<in> set (decode_stream dec bytes ip)"
  shows "\<exists>k. placed_in dec bytes ip k i"
  using assms(2)
proof (induction "length bytes" arbitrary: bytes ip rule: less_induct)
  case less
  show ?case
  proof (cases "bytes = []")
    case False
    let ?j = "dec bytes ip"
    note ok = decoder_okD [OF assms(1) False, of ip]
    consider "i = ?j" | "i \<in> set (decode_stream dec (drop (i_len ?j) bytes) (ip + of_nat (i_len ?j)))"
      using less.prems decode_stream_unfold [OF assms(1) False, of ip] by auto
    then show ?thesis
    proof cases
      case 1
      then show ?thesis using placed_in_here [OF assms(1), of 0 bytes ip] False by auto
    next
      case 2
      then obtain k where "placed_in dec (drop (i_len ?j) bytes) (ip + of_nat (i_len ?j)) k i"
        using less.hyps [of "drop (i_len ?j) bytes"] ok False by auto
      then show ?thesis by (blast dest: placed_in_drop)
    qed
  qed (use less in simp)
qed

section \<open>Decoded blocks\<close>

text \<open>The instructions of a decoded block before the one that ends it.\<close>

definition before_end :: "decoded_block \<Rightarrow> 'a list \<Rightarrow> 'a list" where
  "before_end b js = (if db_terminator b = EndOfBytes then js else butlast js)"

text \<open>What a decoded block is: a prefix of the stream, cut at the first system call or change of control.\<close>

lemma decode_loop_prefix:
  assumes "decode_loop is acc = Ok b"
  shows "\<exists>js. prefix js is \<and> db_instructions b = acc @ map decoded_of js \<and> (\<forall>j\<in>set js. \<not> i_is_invalid j) \<and>
    (case db_terminator b of
       SyscallAt s \<Rightarrow> js \<noteq> [] \<and> i_mnemonic (last js) = Syscall \<and> site_rip s = i_ip (last js) \<and>
         unat (site_next_rip s) = unat (i_ip (last js)) + unat (of_nat (i_len (last js)) :: u64)
     | ControlFlow rip flow \<Rightarrow> js \<noteq> [] \<and> rip = i_ip (last js) \<and>
         i_mnemonic (last js) \<noteq> Syscall \<and> to_decoded_flow_control (i_flow_control (last js)) = Some flow
     | Invalid rip \<Rightarrow> False
     | EndOfBytes \<Rightarrow> js = is) \<and>
    (\<forall>j\<in>set (before_end b js). i_mnemonic j \<noteq> Syscall \<and> to_decoded_flow_control (i_flow_control j) = None)"
  using assms
proof (induction "is" acc rule: decode_loop.induct)
  case (1 acc)
  then show ?case by (intro exI [of _ "[]"]) (auto simp: before_end_def)
next
  case (2 i rest acc)
  show ?case
  proof (cases "i_is_invalid i \<or> i_mnemonic i = Syscall \<or> to_decoded_flow_control (i_flow_control i) \<noteq> None")
    case True
    then show ?thesis using "2.prems"
      by (intro exI [of _ "[i]"])
        (auto simp: Let_def result_simps end_rip_def u64_add_def decoded_of_def checked_simps before_end_def
          split: if_splits option.splits)
  next
    case False
    then have "decode_loop rest (acc @ [decoded_of i]) = Ok b" using "2.prems" by (simp add: Let_def)
    then obtain js where *: "prefix js rest" "db_instructions b = (acc @ [decoded_of i]) @ map decoded_of js"
      "\<forall>j\<in>set js. \<not> i_is_invalid j" and t: "case db_terminator b of
       SyscallAt s \<Rightarrow> js \<noteq> [] \<and> i_mnemonic (last js) = Syscall \<and> site_rip s = i_ip (last js) \<and>
         unat (site_next_rip s) = unat (i_ip (last js)) + unat (of_nat (i_len (last js)) :: u64)
     | ControlFlow rip flow \<Rightarrow> js \<noteq> [] \<and> rip = i_ip (last js) \<and>
         i_mnemonic (last js) \<noteq> Syscall \<and> to_decoded_flow_control (i_flow_control (last js)) = Some flow
     | Invalid rip \<Rightarrow> False
     | EndOfBytes \<Rightarrow> js = rest"
      and q: "\<forall>j\<in>set (before_end b js). i_mnemonic j \<noteq> Syscall \<and> to_decoded_flow_control (i_flow_control j) = None"
      using 2 False by (auto simp: Let_def)
    have "set (before_end b (i # js)) \<subseteq> insert i (set (before_end b js))"
      by (auto simp: before_end_def)
    with q False have "\<forall>j\<in>set (before_end b (i # js)).
        i_mnemonic j \<noteq> Syscall \<and> to_decoded_flow_control (i_flow_control j) = None" by blast
    with * t show ?thesis using False
      by (intro exI [of _ "i # js"]) (auto split: block_terminator.splits)
  qed
qed

section \<open>Well-behaved operations\<close>

text \<open>An operation that keeps an invariant of the memory, never panics and leaves \<open>rflags\<close> and the base of
  \<open>fs\<close> alone.\<close>

definition tame :: "('m \<Rightarrow> bool) \<Rightarrow> ('m, 'a) exec_op \<Rightarrow> bool" where
  "tame good m \<longleftrightarrow>
     (\<forall>s. good (m_memory s) \<longrightarrow>
        fst (m s) \<noteq> Panic \<and> good (m_memory (snd (m s))) \<and>
        r_rflags (m_registers (snd (m s))) = r_rflags (m_registers s) \<and>
        r_fs_base (m_registers (snd (m s))) = r_fs_base (m_registers s))"

named_theorems tame_intros \<open>operations that keep the memory invariant and never panic\<close>

lemma tame_basic [tame_intros]:
  "tame good (st_ok x)" "tame good (st_err e)" "tame good (st_get g)"
  "r \<noteq> Panic \<Longrightarrow> tame good (st_lift r)" "tame good (on_flags f)"
  by (simp_all add: tame_def st_ok_def st_err_def st_get_def st_lift_def on_flags_def st_modify_def)

lemma tame_bind [tame_intros]:
  fixes m :: "('b, 'a) exec_op"
  assumes "tame good m" "\<And>x. tame good (f x)"
  shows "tame good (st_bind m f)"
proof (unfold tame_def, intro allI impI)
  fix s :: "'b machine"
  assume i: "good (m_memory s)"
  obtain r s' where m: "m s = (r, s')" by fastforce
  have "fst (m s) \<noteq> Panic \<and> good (m_memory (snd (m s))) \<and>
      r_rflags (m_registers (snd (m s))) = r_rflags (m_registers s) \<and>
      r_fs_base (m_registers (snd (m s))) = r_fs_base (m_registers s)"
    using assms(1) i unfolding tame_def by blast
  then show "fst (st_bind m f s) \<noteq> Panic \<and> good (m_memory (snd (st_bind m f s))) \<and>
      r_rflags (m_registers (snd (st_bind m f s))) = r_rflags (m_registers s) \<and>
      r_fs_base (m_registers (snd (st_bind m f s))) = r_fs_base (m_registers s)"
    using assms(2) by (cases r) (simp_all add: st_bind_def m tame_def)
qed

lemma tame_for [tame_intros]: "(\<And>x. x \<in> set xs \<Longrightarrow> tame good (f x)) \<Longrightarrow> tame good (st_for xs f)"
  by (induction xs) (auto intro!: tame_intros)

lemma tame_of_registers [tame_intros]: "(\<And>rs. f rs \<noteq> Panic) \<Longrightarrow> tame good (of_registers f)"
  by (simp add: tame_def of_registers_def)

text \<open>Updates of registers that do not touch \<open>rflags\<close> and the base of \<open>fs\<close>.\<close>

definition plain_update :: "(guest_registers \<Rightarrow> guest_registers exec_result) \<Rightarrow> bool" where
  "plain_update f \<longleftrightarrow>
     (\<forall>rs. f rs \<noteq> Panic \<and>
        (\<forall>rs'. f rs = Ok rs' \<longrightarrow> r_rflags rs' = r_rflags rs \<and> r_fs_base rs' = r_fs_base rs))"

lemma tame_on_registers [tame_intros]: "plain_update f \<Longrightarrow> tame good (on_registers f)"
  by (auto simp: tame_def on_registers_def plain_update_def split: result.splits)

lemma plain_updates [tame_intros]:
  "plain_update (\<lambda>rs. write_reg8 rs r v8)" "plain_update (\<lambda>rs. write_reg16 rs r v16)"
  "plain_update (\<lambda>rs. write_reg32 rs r v32)" "plain_update (\<lambda>rs. write_reg64 rs r v64)"
  "plain_update (\<lambda>rs. Ok (rs\<lparr>r_rsp := g rs\<rparr>))" "plain_update (\<lambda>rs. Ok (rs\<lparr>r_rip := h rs\<rparr>))"
  by (auto simp: plain_update_def write_reg8_def write_reg16_def write_reg32_def write_reg64_def
      split: register.splits)

lemma reads_no_panic [tame_intros, simp]:
  "read_reg8 rs r \<noteq> Panic" "read_reg16 rs r \<noteq> Panic" "read_reg32 rs r \<noteq> Panic" "read_reg64 rs r \<noteq> Panic"
  by (simp_all add: read_reg8_def read_reg16_def read_reg32_def read_reg64_def split: register.splits)

lemma immediates_no_panic [tame_intros, simp]:
  "immediate_as_u8 i \<noteq> Panic" "immediate_as_u16 i \<noteq> Panic" "immediate_as_u32 i \<noteq> Panic"
  "immediate_as_u64 i \<noteq> Panic" "immediate_operand_as_u64 i k \<noteq> Panic"
  by (simp_all add: immediate_as_u8_def immediate_as_u16_def immediate_as_u32_def immediate_as_u64_def
      immediate_operand_as_u64_def split: op_kind.splits)

lemma effective_address_no_panic [simp]: "effective_address rs i \<noteq> Panic"
  by (auto simp: effective_address_def segment_base_def memory_base_def memory_index_def result_simps
      split: register.splits)

lemma tame_operand_address [tame_intros]: "tame good (operand_address i)"
  by (simp add: operand_address_def tame_of_registers)

lemma tame_moves [tame_intros]:
  "(\<And>rs. rd rs (i_op_register i 1) \<noteq> Panic) \<Longrightarrow> (\<And>v. plain_update (\<lambda>rs. wr rs (i_op_register i 0) v)) \<Longrightarrow>
     tame good (move_registers rd wr i)"
  "(\<And>a. tame good (ld a)) \<Longrightarrow> (\<And>v. plain_update (\<lambda>rs. wr rs (i_op_register i 0) v)) \<Longrightarrow>
     tame good (move_load ld wr i)"
  "(\<And>rs. rd rs (i_op_register i 1) \<noteq> Panic) \<Longrightarrow> (\<And>a v. tame good (sto a v)) \<Longrightarrow> tame good (move_store rd sto i)"
  "plain_update (\<lambda>rs. wr rs (i_op_register i 0) v) \<Longrightarrow> tame good (move_immediate wr i v)"
  "(\<And>a. tame good (sto a v)) \<Longrightarrow> tame good (store_immediate sto i v)"
  unfolding move_registers_def move_load_def move_store_def move_immediate_def store_immediate_def
  by (auto intro!: tame_intros)

lemma tame_finishes [tame_intros]:
  "tame good (finish_add_u64 i p64)" "tame good (finish_add_u32 i p32)" "tame good (finish_sub_u64 i p64)"
  "tame good (finish_sub_u32 i p32)" "tame good (finish_cmp p)" "tame good (finish_test p)"
  unfolding finish_add_u64_def finish_add_u32_def finish_sub_u64_def finish_sub_u32_def finish_cmp_def finish_test_def
  by (auto intro!: tame_intros split: prod.split)

lemma tame_arith [tame_intros]:
  "(\<And>p. tame good (f64 p)) \<Longrightarrow> (\<And>p. tame good (f32 p)) \<Longrightarrow> tame good (execute_arith f64 f32 rip i form)"
  "tame good (arith_registers_u64 i)" "tame good (arith_registers_u32 i)" "tame good (unsupported rip)"
  unfolding execute_arith_def arith_registers_u64_def arith_registers_u32_def arith_operands_u64_def
    arith_operands_u32_def unsupported_def
  by (auto intro!: tame_intros)

lemma block_offset_no_panic [simp]: "block_offset block rip \<noteq> Panic"
  by (auto simp: block_offset_def result_simps)

lemma branch_taken_no_panic [simp]: "branch_taken i f \<noteq> Panic"
  by (auto simp: branch_taken_def Let_def split: code.splits option.splits)

lemma tame_lift_bind:
  "r \<noteq> Panic \<Longrightarrow> (\<And>x. r = Ok x \<Longrightarrow> tame good (f x)) \<Longrightarrow> tame good (st_bind (st_lift r) f)"
  by (cases r) (auto simp: tame_def st_bind_def st_lift_def)

lemma bind_lift_Ok [simp]: "st_bind (st_lift (Ok x)) f = f x"
  by (simp add: st_bind_def st_lift_def fun_eq_iff)

section \<open>Instructions inside a block\<close>

text \<open>The block does not reach over the end of the address space.\<close>

definition fits_space :: "guest_block \<Rightarrow> bool" where
  "fits_space block \<longleftrightarrow> unat (gb_rip block) + length (gb_bytes block) < 2 ^ 64"

lemma unat_in_block:
  assumes "fits_space block" "k \<le> length (gb_bytes block)"
  shows "unat (gb_rip block + of_nat k) = unat (gb_rip block) + k"
proof -
  have "unat (of_nat k :: u64) = k" using assms by (simp add: fits_space_def unat_of_nat)
  then show ?thesis using assms by (subst unat_add_small) (simp_all add: fits_space_def)
qed

lemma placed_addresses:
  assumes "fits_space block" "placed_in dec (gb_bytes block) (gb_rip block) k i"
  shows "unat (i_ip i) = unat (gb_rip block) + k" "unat (i_next_ip i) = unat (i_ip i) + i_len i"
    "gb_rip block \<le> i_ip i" "unat (i_ip i - gb_rip block) = k" "unat (of_nat (i_len i) :: u64) = i_len i"
proof -
  note p = placed_inD [OF assms(2)]
  show ip: "unat (i_ip i) = unat (gb_rip block) + k"
    unfolding p(3) using p(1) by (simp add: unat_in_block [OF assms(1)])
  have "unat (i_next_ip i) = unat (gb_rip block) + (k + i_len i)"
    unfolding p(6) using p(5) by (rule unat_in_block [OF assms(1)])
  with ip show "unat (i_next_ip i) = unat (i_ip i) + i_len i" by simp
  from ip show le: "gb_rip block \<le> i_ip i" by (simp add: word_le_nat_alt)
  from le ip show "unat (i_ip i - gb_rip block) = k" by (simp add: unat_sub)
  show "unat (of_nat (i_len i) :: u64) = i_len i"
    using p(5) assms(1) by (simp add: fits_space_def unat_of_nat)
qed

lemma u64_add_next:
  assumes "fits_space block" "placed_in dec (gb_bytes block) (gb_rip block) k i"
  shows "u64_add (i_ip i) (of_nat (i_len i)) = Ok (i_next_ip i)"
proof -
  have "checked_add (i_ip i) (of_nat (i_len i)) = Some (i_next_ip i)"
    using placed_addresses [OF assms] by (simp add: checked_simps)
  then show ?thesis by (simp add: u64_add_def)
qed

lemma slice_get_placed:
  assumes "fits_space block" "placed_in dec (gb_bytes block) (gb_rip block) k i"
  shows "slice_get (gb_bytes block) k (i_len i) e = Ok (take (i_len i) (drop k (gb_bytes block)))"
  using placed_inD(5) [OF assms(2)] assms(1) by (simp add: slice_get_def fits_space_def)

text \<open>Decoding the instruction's own bytes again gives the instruction that the block decoder saw.\<close>

lemma execute_simple_instruction_eq:
  assumes "fits_space block" "placed_in dec (gb_bytes block) (gb_rip block) k i" "\<not> i_is_invalid i"
  shows "execute_simple_instruction dec oa block (i_ip i) (i_len i) =
    st_bind (execute_code oa (i_ip i) i) (\<lambda>_. set_rip (i_next_ip i))"
proof -
  have "dec (take (i_len i) (drop k (gb_bytes block))) (i_ip i) = i"
    using placed_inD(7) [OF assms(2,3)] .
  then show ?thesis
    using placed_addresses(3,4) [OF assms(1,2)]
    by (simp add: execute_simple_instruction_def slice_get_placed [OF assms(1,2)] u64_add_next [OF assms(1,2)]
        set_rip_def)
qed

lemma block_offset_placed:
  assumes "fits_space block" "placed_in dec (gb_bytes block) (gb_rip block) k i"
  shows "block_offset block (i_ip i) = Ok k"
  using placed_addresses [OF assms] placed_inD(1) [OF assms(2)]
  by (simp add: block_offset_def checked_sub_def)

lemma block_offset_Ok:
  assumes "block_offset block rip = Ok k"
  shows "k < length (gb_bytes block) \<and> rip = gb_rip block + of_nat k"
proof -
  obtain d where d: "checked_sub rip (gb_rip block) = Some d" "k = unat d" "k < length (gb_bytes block)"
    using assms by (auto simp: block_offset_def result_simps split: if_splits)
  then have "rip - gb_rip block = of_nat k" by (auto simp: checked_sub_def split: if_splits)
  then show ?thesis using d by (simp add: algebra_simps)
qed

lemma block_from_rip_Ok:
  assumes "block_from_rip block rip = Ok b"
  shows "\<exists>k. k < length (gb_bytes block) \<and> rip = gb_rip block + of_nat k \<and>
    b = \<lparr>gb_bytes = drop k (gb_bytes block), gb_rip = rip\<rparr>"
  using assms by (auto simp: block_from_rip_def result_simps dest!: block_offset_Ok split: if_splits)

lemma block_from_rip_no_panic [simp]: "block_from_rip block rip \<noteq> Panic"
  by (auto simp: block_from_rip_def result_simps)

text \<open>What the block decoder returns for a part of the block.\<close>

lemma decode_loop_no_panic:
  assumes "\<And>i. i \<in> set is \<Longrightarrow> u64_add (i_ip i) (of_nat (i_len i)) \<noteq> (Panic :: (u64, decode_error) result)"
  shows "decode_loop is acc \<noteq> Panic"
  using assms by (induction "is" acc rule: decode_loop.induct)
    (auto simp: Let_def result_simps end_rip_def decoded_of_def split: option.splits)

lemma decode_part:
  assumes "decoder_ok dec" "fits_space block" "block_from_rip block rip = Ok b"
  shows "block_decode dec b \<noteq> Panic"
    and "i \<in> set (decode_stream dec (gb_bytes b) (gb_rip b)) \<Longrightarrow>
      \<exists>k. placed_in dec (gb_bytes block) (gb_rip block) k i"
proof -
  obtain n where b: "rip = gb_rip block + of_nat n" "b = \<lparr>gb_bytes = drop n (gb_bytes block), gb_rip = rip\<rparr>"
    using block_from_rip_Ok [OF assms(3)] by blast
  have placed: "\<exists>k. placed_in dec (gb_bytes block) (gb_rip block) k i"
    if i: "i \<in> set (decode_stream dec (gb_bytes b) (gb_rip b))" for i
  proof -
    obtain k where "placed_in dec (drop n (gb_bytes block)) (gb_rip block + of_nat n) k i"
      using decode_stream_placed [OF assms(1) i] b by auto
    then show ?thesis by (blast dest: placed_in_drop)
  qed
  then show "i \<in> set (decode_stream dec (gb_bytes b) (gb_rip b)) \<Longrightarrow>
      \<exists>k. placed_in dec (gb_bytes block) (gb_rip block) k i" by blast
  show "block_decode dec b \<noteq> Panic"
    unfolding block_decode_def
  proof (rule decode_loop_no_panic)
    fix i assume "i \<in> set (decode_stream dec (gb_bytes b) (gb_rip b))"
    then obtain k where "placed_in dec (gb_bytes block) (gb_rip block) k i" using placed by blast
    then show "u64_add (i_ip i) (of_nat (i_len i)) \<noteq> (Panic :: (u64, decode_error) result)"
      by (simp add: u64_add_next [OF assms(2)])
  qed
qed

text \<open>Instructions of the block that follow each other without a gap, starting at \<open>rip\<close>.\<close>

fun chained :: "decoder \<Rightarrow> guest_block \<Rightarrow> u64 \<Rightarrow> instruction list \<Rightarrow> bool" where
  "chained dec block rip [] \<longleftrightarrow> True"
| "chained dec block rip (j # js) \<longleftrightarrow>
     i_ip j = rip \<and> (\<exists>k. placed_in dec (gb_bytes block) (gb_rip block) k j) \<and> chained dec block (i_next_ip j) js"

definition chain_end :: "u64 \<Rightarrow> instruction list \<Rightarrow> u64" where
  "chain_end rip js = (if js = [] then rip else i_next_ip (last js))"

lemma chained_append:
  "chained dec block rip (xs @ ys) \<longleftrightarrow> chained dec block rip xs \<and> chained dec block (chain_end rip xs) ys"
  by (induction xs arbitrary: rip) (auto simp: chain_end_def)

lemma stream_chained:
  assumes "decoder_ok dec" "prefix js (decode_stream dec (drop n (gb_bytes block)) (gb_rip block + of_nat n))"
  shows "chained dec block (gb_rip block + of_nat n) js"
  using assms(2)
proof (induction js arbitrary: n)
  case (Cons j js)
  let ?bytes = "drop n (gb_bytes block)" and ?ip = "gb_rip block + of_nat n"
  have "?bytes \<noteq> []" using Cons.prems by auto
  then have n: "n < length (gb_bytes block)" by simp
  have j: "j = dec ?bytes ?ip"
    and rest: "prefix js (decode_stream dec (drop (i_len j) ?bytes) (?ip + of_nat (i_len j)))"
    using Cons.prems decode_stream_unfold [OF assms(1) \<open>?bytes \<noteq> []\<close>, of ?ip] by auto
  have p: "placed_in dec (gb_bytes block) (gb_rip block) n j"
    unfolding j by (rule placed_in_here [OF assms(1) n])
  have "chained dec block (gb_rip block + of_nat (n + i_len j)) js"
    using rest by (intro Cons.IH) (simp add: add.commute add.left_commute)
  then show ?case using p placed_inD [OF p] by auto
qed simp

lemma chained_lower:
  assumes "fits_space block" "chained dec block rip js" "j \<in> set js"
  shows "unat rip \<le> unat (i_ip j)"
  using assms(2,3)
proof (induction js arbitrary: rip)
  case (Cons x js)
  then obtain k where "placed_in dec (gb_bytes block) (gb_rip block) k x" by auto
  note x = placed_addresses(2) [OF assms(1) this]
  show ?case using Cons.IH [of "i_next_ip x"] Cons.prems x by auto
qed simp

lemma chained_increasing:
  assumes "fits_space block" "chained dec block rip (xs @ [l])" "j \<in> set xs"
  shows "unat (i_ip j) < unat (i_ip l)"
  using assms(2,3)
proof (induction xs arbitrary: rip)
  case (Cons x xs)
  then obtain k where "placed_in dec (gb_bytes block) (gb_rip block) k x" by auto
  note x = placed_addresses(2) [OF assms(1) this] placed_inD(4) [OF this]
  have "unat (i_next_ip x) \<le> unat (i_ip l)"
    using chained_lower [OF assms(1), of dec "i_next_ip x" "xs @ [l]" l] Cons.prems by simp
  then show ?case using Cons.IH [of "i_next_ip x"] Cons.prems x by auto
qed simp

text \<open>A decoded part of the block: valid instructions of the block, ended as the terminator says.\<close>

definition decoded_part :: "decoder \<Rightarrow> guest_block \<Rightarrow> u64 \<Rightarrow> decoded_block \<Rightarrow> instruction list \<Rightarrow> bool" where
  "decoded_part dec block rip b js \<longleftrightarrow>
     db_instructions b = map decoded_of js \<and> chained dec block rip js \<and>
     (\<forall>j\<in>set (before_end b js). i_mnemonic j \<noteq> Syscall \<and> to_decoded_flow_control (i_flow_control j) = None) \<and>
     (\<forall>j\<in>set js. \<not> i_is_invalid j \<and> (\<exists>k. placed_in dec (gb_bytes block) (gb_rip block) k j)) \<and>
     (case db_terminator b of
        SyscallAt s \<Rightarrow> js \<noteq> [] \<and> i_mnemonic (last js) = Syscall \<and> site_rip s = i_ip (last js) \<and>
          site_next_rip s = i_next_ip (last js)
      | ControlFlow rip flow \<Rightarrow> js \<noteq> [] \<and> rip = i_ip (last js) \<and>
          i_mnemonic (last js) \<noteq> Syscall \<and> to_decoded_flow_control (i_flow_control (last js)) = Some flow
      | Invalid rip \<Rightarrow> False
      | EndOfBytes \<Rightarrow> True)"

lemma decode_part_block:
  assumes "decoder_ok dec" "fits_space block" "block_from_rip block rip = Ok b" "block_decode dec b = Ok decoded"
  shows "\<exists>js. decoded_part dec block rip decoded js"
proof -
  obtain js where js: "prefix js (decode_stream dec (gb_bytes b) (gb_rip b))" "db_instructions decoded = map decoded_of js"
      "\<forall>j\<in>set js. \<not> i_is_invalid j" and t: "case db_terminator decoded of
       SyscallAt s \<Rightarrow> js \<noteq> [] \<and> i_mnemonic (last js) = Syscall \<and> site_rip s = i_ip (last js) \<and>
         unat (site_next_rip s) = unat (i_ip (last js)) + unat (of_nat (i_len (last js)) :: u64)
     | ControlFlow rip flow \<Rightarrow> js \<noteq> [] \<and> rip = i_ip (last js) \<and>
         i_mnemonic (last js) \<noteq> Syscall \<and> to_decoded_flow_control (i_flow_control (last js)) = Some flow
     | Invalid rip \<Rightarrow> False
     | EndOfBytes \<Rightarrow> js = decode_stream dec (gb_bytes b) (gb_rip b)"
      and q: "\<forall>j\<in>set (before_end decoded js).
        i_mnemonic j \<noteq> Syscall \<and> to_decoded_flow_control (i_flow_control j) = None"
    using decode_loop_prefix [OF assms(4) [unfolded block_decode_def]] by auto
  obtain n where "rip = gb_rip block + of_nat n" "b = \<lparr>gb_bytes = drop n (gb_bytes block), gb_rip = rip\<rparr>"
    using block_from_rip_Ok [OF assms(3)] by blast
  then have c: "chained dec block rip js"
    using stream_chained [OF assms(1), of js n block] js(1) by simp
  have placed: "\<exists>k. placed_in dec (gb_bytes block) (gb_rip block) k j" if "j \<in> set js" for j
    using decode_part(2) [OF assms(1-3)] that set_mono_prefix [OF js(1)] by blast
  have "site_next_rip s = i_next_ip (last js)" if s: "db_terminator decoded = SyscallAt s" for s
  proof -
    have "last js \<in> set js" using t s by simp
    then obtain k where p: "placed_in dec (gb_bytes block) (gb_rip block) k (last js)" using placed by blast
    from placed_addresses(2,5) [OF assms(2) p] t s show ?thesis by (simp add: word_unat_eq_iff)
  qed
  with js t placed c q show ?thesis
    by (intro exI [of _ js]) (auto simp: decoded_part_def split: block_terminator.splits)
qed

lemma decoded_partD:
  assumes "decoded_part dec block rip b js"
  shows "db_instructions b = map decoded_of js" "j \<in> set js \<Longrightarrow> \<not> i_is_invalid j"
    "j \<in> set js \<Longrightarrow> \<exists>k. placed_in dec (gb_bytes block) (gb_rip block) k j"
  using assms by (auto simp: decoded_part_def)

text \<open>Executing a part runs its instructions in order up to the one that ends it.\<close>

lemma decoded_of_fields [simp]: "di_rip (decoded_of j) = i_ip j" "di_len (decoded_of j) = i_len j"
  by (simp_all add: decoded_of_def)

lemma st_for_cong: "(\<And>x. x \<in> set xs \<Longrightarrow> f x = g x) \<Longrightarrow> st_for xs f = st_for xs g"
  by (induction xs) auto

lemma st_for_map: "st_for (map h xs) f = st_for xs (\<lambda>x. f (h x))"
  by (induction xs) auto

lemma execute_straight_eq:
  assumes "fits_space block" "decoded_part dec block rip b js"
  shows "execute_straight dec oa block b =
    st_for (takeWhile (\<lambda>j. \<not> ends_block b (decoded_of j)) js)
      (\<lambda>j. st_bind (execute_code oa (i_ip j) j) (\<lambda>_. set_rip (i_next_ip j)))"
proof -
  have "execute_simple_instruction dec oa block (i_ip j) (i_len j) =
      st_bind (execute_code oa (i_ip j) j) (\<lambda>_. set_rip (i_next_ip j))"
    if j: "j \<in> set (takeWhile (\<lambda>j. \<not> ends_block b (decoded_of j)) js)" for j
  proof -
    from j have "j \<in> set js" by (rule set_takeWhileD [THEN conjunct1])
    with decoded_partD [OF assms(2)] obtain k
      where "placed_in dec (gb_bytes block) (gb_rip block) k j" "\<not> i_is_invalid j" by blast
    then show ?thesis by (rule execute_simple_instruction_eq [OF assms(1)])
  qed
  note each = this
  have "execute_straight dec oa block b =
      st_for (takeWhile (\<lambda>j. \<not> ends_block b (decoded_of j)) js)
        (\<lambda>j. execute_simple_instruction dec oa block (di_rip (decoded_of j)) (di_len (decoded_of j)))"
    unfolding execute_straight_def decoded_partD(1) [OF assms(2)] takeWhile_map comp_def st_for_map ..
  also have "\<dots> = st_for (takeWhile (\<lambda>j. \<not> ends_block b (decoded_of j)) js)
      (\<lambda>j. st_bind (execute_code oa (i_ip j) j) (\<lambda>_. set_rip (i_next_ip j)))"
    by (rule st_for_cong) (simp add: each)
  finally show ?thesis .
qed

lemma control_flow_target_eq:
  assumes "fits_space block" "decoded_part dec block rip b js"
  shows "control_flow_target dec oa block b =
    (case db_terminator b of
       ControlFlow rip flow \<Rightarrow> flow_target oa block (db_terminator b) flow (last js)
     | _ \<Rightarrow> st_ok None)"
proof (cases "db_terminator b")
  case (ControlFlow rip flow)
  then have "js \<noteq> []" using assms(2) by (simp add: decoded_part_def)
  then have l: "last js \<in> set js" by simp
  with decoded_partD [OF assms(2)] obtain k
    where p: "placed_in dec (gb_bytes block) (gb_rip block) k (last js)" and v: "\<not> i_is_invalid (last js)" by blast
  have "dec (take (i_len (last js)) (drop k (gb_bytes block))) (i_ip (last js)) = last js"
    using placed_inD(7) [OF p v] .
  then show ?thesis
    using \<open>js \<noteq> []\<close> ControlFlow
    by (simp add: control_flow_target_def decoded_partD(1) [OF assms(2)] last_map decoded_of_def Let_def
        block_offset_placed [OF assms(1) p] slice_get_placed [OF assms(1) p])
qed (simp_all add: control_flow_target_def)

section \<open>Memory behind the operands\<close>

locale operand_memory =
  fixes good :: "'m \<Rightarrow> bool" and oa :: "'m operand_access"
  assumes read_total: "good m \<Longrightarrow> oa_read oa m a n \<noteq> Panic"
    and write_total: "good m \<Longrightarrow> fst (oa_write oa m a bs) \<noteq> Panic \<and> good (snd (oa_write oa m a bs))"
    and write_read: "good m \<Longrightarrow> oa_write oa m a bs = (Ok (), m') \<Longrightarrow> oa_read oa m a (length bs) = Ok old \<Longrightarrow>
      oa_read oa m' a (length bs) = Ok bs"
begin

lemma tame_memory:
  "tame good (read_memory_bytes oa rip a n)" "tame good (write_memory_bytes oa rip a bs)"
  using read_total write_total
  by (auto simp: tame_def read_memory_bytes_def write_memory_bytes_def result_simps Let_def split: prod.split)
    (metis fst_conv snd_conv)+

lemma tame_words:
  "tame good (read_memory_u8 oa rip a)" "tame good (read_memory_u16 oa rip a)"
  "tame good (read_memory_u32 oa rip a)" "tame good (read_memory_u64 oa rip a)"
  "tame good (write_memory_u8 oa rip a v8)" "tame good (write_memory_u16 oa rip a v16)"
  "tame good (write_memory_u32 oa rip a v32)" "tame good (write_memory_u64 oa rip a v64)"
  unfolding read_memory_u8_def read_memory_u16_def read_memory_u32_def read_memory_u64_def
    write_memory_u8_def write_memory_u16_def write_memory_u32_def write_memory_u64_def
  by (auto intro!: tame_intros tame_memory)

lemma tame_operands:
  "tame good (read_operand_u8 oa i k)" "tame good (read_operand_u16 oa i k)"
  "tame good (read_operand_u32 oa i k)" "tame good (read_operand_u64 oa i k)"
  "tame good (read_operand_or_immediate_u32 oa i k)" "tame good (read_operand_or_immediate_u64 oa i k)"
  "tame good (write_operand_u32 oa i k v32)" "tame good (write_operand_u64 oa i k v64)"
  unfolding read_operand_u8_def read_operand_u16_def read_operand_u32_def read_operand_u64_def
    read_operand_or_immediate_u32_def read_operand_or_immediate_u64_def write_operand_u32_def write_operand_u64_def
  by (auto intro!: tame_intros tame_words split: op_kind.split)

lemmas tame_all = tame_intros tame_words tame_operands

lemma tame_mov: "tame good (execute_mov oa rip i form)"
  unfolding execute_mov_def by (cases form) (auto intro!: tame_all)

lemma tame_extend:
  "tame good (execute_movzx oa rip i form)" "tame good (execute_movsx oa rip i form)"
  "tame good (execute_movsxd oa rip i form)" "tame good execute_cdqe"
  unfolding execute_movzx_def execute_movsx_def execute_movsxd_def execute_cdqe_def
  by (auto intro!: tame_all split: operand_form.split)

lemma tame_stack:
  "tame good (push_value oa rip v)" "tame good (execute_push oa rip i form)"
  "tame good (execute_pushq oa rip i form)" "tame good (execute_pop oa rip i form)"
  "tame good (execute_lea rip i form)"
  unfolding execute_push_def execute_pushq_def execute_pop_def execute_lea_def push_value_def
  by (auto intro!: tame_all split: operand_form.split)

lemma tame_compute:
  "tame good (execute_add rip i form)" "tame good (execute_sub rip i form)"
  "tame good (execute_logic oa rip i op form)" "tame good (execute_cmp oa rip i form)"
  "tame good (execute_test oa rip i form)"
  unfolding execute_add_def execute_sub_def execute_logic_def execute_logic_u64_def execute_logic_u32_def
    execute_cmp_def execute_test_def Let_def
  by (auto intro!: tame_all)

lemma tame_code: "tame good (execute_code oa rip i)"
proof (cases "i_code i")
  case (Code opcode form)
  then show ?thesis
    by (cases opcode) (simp_all add: execute_code_def tame_mov tame_extend tame_stack tame_compute tame_basic tame_arith)
qed (simp add: execute_code_def tame_arith)

lemma tame_flow: "tame good (flow_target oa block t flow i)"
  unfolding flow_target_def jump_within_def enter_call_def by (auto intro!: tame_all)

lemma tame_trap_loop:
  assumes "decoder_ok dec" "fits_space block"
  shows "tame good (trap_loop n dec oa block rip)"
proof (induction n arbitrary: rip)
  case (Suc n)
  show ?case
    unfolding trap_loop.simps
  proof (rule tame_lift_bind)
    show "and_then (block_from_rip block rip) (\<lambda>b. map_err DecodeFailed (block_decode dec b)) \<noteq> Panic"
      using decode_part(1) [OF assms] by (auto simp: result_simps)
    fix decoded
    assume "and_then (block_from_rip block rip) (\<lambda>b. map_err DecodeFailed (block_decode dec b)) = Ok decoded"
    then obtain b where "block_from_rip block rip = Ok b" "block_decode dec b = Ok decoded"
      by (auto simp: result_simps)
    then obtain js where js: "decoded_part dec block rip decoded js"
      using decode_part_block [OF assms] by blast
    note eqs = execute_straight_eq [OF assms(2) js] control_flow_target_eq [OF assms(2) js]
    have "tame good (execute_straight dec oa block decoded)"
      unfolding eqs set_rip_def by (intro tame_intros tame_code)
    moreover have "tame good (control_flow_target dec oa block decoded)"
      unfolding eqs by (auto intro!: tame_intros tame_flow split: block_terminator.split)
    ultimately show "tame good (st_bind (execute_straight dec oa block decoded) (\<lambda>_.
       case block_syscall_site decoded of
         Some site \<Rightarrow>
           st_bind (set_rip (site_rip site)) (\<lambda>_.
           st_bind (st_get m_registers) (\<lambda>rs.
             st_ok \<lparr>trap_decoded = decoded, trap_site = site, trap_registers = rs\<rparr>))
       | None \<Rightarrow>
           st_bind (control_flow_target dec oa block decoded) (\<lambda>target.
             case target of
               Some t \<Rightarrow> st_bind (set_rip t) (\<lambda>_. trap_loop n dec oa block t)
             | None \<Rightarrow> st_err (MissingSyscall (db_terminator decoded)))))"
      using Suc by (auto intro!: tame_intros simp: set_rip_def split: option.split)
  qed
qed (simp add: tame_basic)

end

end
