(* ===== verification/Jit_Steps.thy ===== *)
theory Jit_Steps
  imports Jit_Run
begin

text \<open>
  The instruction fallback as an implementation of an instruction-at-a-time machine.  The executor decodes
  whole blocks, runs their straight part and computes the target of the instruction that ends them; the
  machine of this theory fetches, decodes and executes one instruction per step.  A trap that the executor
  reports is a state the machine reaches.
\<close>

section \<open>One instruction at a time\<close>

abbreviation machine_rip :: "'m machine \<Rightarrow> u64" where
  "machine_rip s \<equiv> r_rip (m_registers s)"

definition with_rip :: "u64 \<Rightarrow> 'm machine \<Rightarrow> 'm machine" where
  "with_rip rip s = s\<lparr>m_registers := (m_registers s)\<lparr>r_rip := rip\<rparr>\<rparr>"

text \<open>The valid instruction at the address in \<open>rip\<close>.\<close>

definition fetched :: "decoder \<Rightarrow> guest_block \<Rightarrow> 'm machine \<Rightarrow> instruction \<Rightarrow> bool" where
  "fetched dec block s i \<longleftrightarrow>
     (\<exists>k. block_offset block (machine_rip s) = Ok k \<and> i = dec (drop k (gb_bytes block)) (machine_rip s) \<and>
        \<not> i_is_invalid i)"

inductive insn_step :: "decoder \<Rightarrow> 'm operand_access \<Rightarrow> guest_block \<Rightarrow> 'm machine \<Rightarrow> 'm machine \<Rightarrow> bool"
  for dec oa block where
    plain: "fetched dec block s i \<Longrightarrow> i_mnemonic i \<noteq> Syscall \<Longrightarrow>
      to_decoded_flow_control (i_flow_control i) = None \<Longrightarrow> execute_code oa (machine_rip s) i s = (Ok (), s') \<Longrightarrow>
      insn_step dec oa block s (with_rip (i_next_ip i) s')"
  | jump: "fetched dec block s i \<Longrightarrow> i_mnemonic i \<noteq> Syscall \<Longrightarrow>
      to_decoded_flow_control (i_flow_control i) = Some flow \<Longrightarrow>
      flow_target oa block (ControlFlow (machine_rip s) flow) flow i s = (Ok (Some t), s') \<Longrightarrow>
      insn_step dec oa block s (with_rip t s')"

inductive_cases insn_stepE: "insn_step dec oa block s s'"

text \<open>Runs of the machine with the number of their jumps.\<close>

inductive insn_run ::
  "decoder \<Rightarrow> 'm operand_access \<Rightarrow> guest_block \<Rightarrow> nat \<Rightarrow> 'm machine \<Rightarrow> 'm machine \<Rightarrow> bool"
  for dec oa block where
    run_stop: "insn_run dec oa block 0 s s"
  | run_plain: "fetched dec block s i \<Longrightarrow> i_mnemonic i \<noteq> Syscall \<Longrightarrow>
      to_decoded_flow_control (i_flow_control i) = None \<Longrightarrow> execute_code oa (machine_rip s) i s = (Ok (), s1) \<Longrightarrow>
      insn_run dec oa block n (with_rip (i_next_ip i) s1) s' \<Longrightarrow> insn_run dec oa block n s s'"
  | run_jump: "fetched dec block s i \<Longrightarrow> i_mnemonic i \<noteq> Syscall \<Longrightarrow>
      to_decoded_flow_control (i_flow_control i) = Some flow \<Longrightarrow>
      flow_target oa block (ControlFlow (machine_rip s) flow) flow i s = (Ok (Some t), s1) \<Longrightarrow>
      insn_run dec oa block n (with_rip t s1) s' \<Longrightarrow> insn_run dec oa block (Suc n) s s'"

lemma insn_run_steps: "insn_run dec oa block n s s' \<Longrightarrow> (insn_step dec oa block)\<^sup>*\<^sup>* s s'"
proof (induction rule: insn_run.induct)
  case (run_plain s i s1 n s')
  then show ?case by (blast intro: converse_rtranclp_into_rtranclp plain)
next
  case (run_jump s i flow t s1 n s')
  then show ?case by (blast intro: converse_rtranclp_into_rtranclp jump)
qed simp

lemma insn_run_complete: "(insn_step dec oa block)\<^sup>*\<^sup>* s s' \<Longrightarrow> \<exists>n. insn_run dec oa block n s s'"
proof (induction rule: converse_rtranclp_induct)
  case base
  then show ?case by (blast intro: run_stop)
next
  case (step s s1)
  then obtain n where "insn_run dec oa block n s1 s'" by blast
  with step(1) show ?case by (elim insn_stepE) (blast intro: run_plain run_jump)+
qed

lemma set_rip_Ok: "set_rip rip s = (Ok u, s') \<longleftrightarrow> s' = with_rip rip s"
  by (auto simp: set_rip_def on_registers_def with_rip_def)

lemma machine_rip_with_rip [simp]: "machine_rip (with_rip rip s) = rip" "m_memory (with_rip rip s) = m_memory s"
  by (simp_all add: with_rip_def)

lemma bind_Ok_iff:
  "st_bind m f s = (Ok y, s') \<longleftrightarrow> (\<exists>x s1. m s = (Ok x, s1) \<and> f x s1 = (Ok y, s'))"
  by (auto simp: st_bind_def split: prod.splits result.splits)

lemma fetched_placed:
  assumes "fits_space block" "placed_in dec (gb_bytes block) (gb_rip block) k i" "i_ip i = machine_rip s"
    "\<not> i_is_invalid i"
  shows "fetched dec block s i"
  using block_offset_placed [OF assms(1,2)] placed_inD(2,3) [OF assms(2)] assms(3,4)
  by (auto simp: fetched_def)

section \<open>Straight parts\<close>

text \<open>The instructions that the executor runs before the end of a part are all but the last.\<close>

lemma takeWhile_before_end:
  assumes "fits_space block" "decoded_part dec block rip b js"
  shows "takeWhile (\<lambda>j. \<not> ends_block b (decoded_of j)) js = before_end b js"
proof (cases "db_terminator b = EndOfBytes")
  case True
  then show ?thesis by (simp add: before_end_def ends_block_def)
next
  case False
  then obtain xs l where js: "js = xs @ [l]" and e: "\<And>j. ends_block b (decoded_of j) \<longleftrightarrow> i_ip l = i_ip j"
    using assms(2) by (cases "db_terminator b"; cases js rule: rev_cases) (auto simp: decoded_part_def ends_block_def)
  have "chained dec block rip (xs @ [l])" using assms(2) js by (simp add: decoded_part_def)
  then have "i_ip l \<noteq> i_ip j" if "j \<in> set xs" for j
    using chained_increasing [OF assms(1), of dec rip xs l j] that by auto
  then show ?thesis using False by (simp add: js e before_end_def takeWhile_eq_all_conv takeWhile_append2)
qed

lemma run_straight:
  assumes fits: "fits_space block" and c: "chained dec block (machine_rip s) js"
    and q: "\<And>j. j \<in> set js \<Longrightarrow> \<not> i_is_invalid j \<and> i_mnemonic j \<noteq> Syscall \<and> to_decoded_flow_control (i_flow_control j) = None"
    and r: "st_for js (\<lambda>j. st_bind (execute_code oa (i_ip j) j) (\<lambda>_. set_rip (i_next_ip j))) s = (Ok (), s')"
  shows "(insn_run dec oa block n s' t \<longrightarrow> insn_run dec oa block n s t) \<and>
    machine_rip s' = chain_end (machine_rip s) js"
  using c q r
proof (induction js arbitrary: s)
  case Nil
  then show ?case by (simp add: st_ok_def chain_end_def)
next
  case (Cons j js)
  obtain s1 where e: "execute_code oa (i_ip j) j s = (Ok (), s1)"
    and rest: "st_for js (\<lambda>j. st_bind (execute_code oa (i_ip j) j) (\<lambda>_. set_rip (i_next_ip j)))
        (with_rip (i_next_ip j) s1) = (Ok (), s')"
    using Cons.prems(3) by (auto simp: bind_Ok_iff set_rip_Ok)
  obtain k where p: "placed_in dec (gb_bytes block) (gb_rip block) k j" using Cons.prems(1) by auto
  have j: "i_ip j = machine_rip s" using Cons.prems(1) by simp
  have "insn_run dec oa block n s t" if "insn_run dec oa block n (with_rip (i_next_ip j) s1) t"
    by (rule run_plain [OF fetched_placed [OF fits p j], where ?s1.0 = s1]) (use Cons.prems(2) [of j] e j that in auto)
  moreover have "(insn_run dec oa block n s' t \<longrightarrow> insn_run dec oa block n (with_rip (i_next_ip j) s1) t) \<and>
      machine_rip s' = chain_end (i_next_ip j) js"
    using Cons.IH [of "with_rip (i_next_ip j) s1"] Cons.prems rest by simp
  ultimately show ?case by (auto simp: chain_end_def)
qed

section \<open>Traps\<close>

text \<open>The machine stands at a system call.\<close>

definition at_syscall :: "decoder \<Rightarrow> guest_block \<Rightarrow> 'm machine \<Rightarrow> syscall_site \<Rightarrow> bool" where
  "at_syscall dec block s site \<longleftrightarrow>
     (\<exists>i. fetched dec block s i \<and> i_mnemonic i = Syscall \<and> site_rip site = machine_rip s \<and>
        site_next_rip site = i_next_ip i)"

lemma part_steps:
  assumes "fits_space block" "decoded_part dec block (machine_rip s) b js"
    and "execute_straight dec oa block b s = (Ok (), s1)"
  shows "insn_run dec oa block n s1 t \<Longrightarrow> insn_run dec oa block n s t"
    and "db_terminator b \<noteq> EndOfBytes \<Longrightarrow> fetched dec block s1 (last js) \<and> machine_rip s1 = i_ip (last js)"
proof -
  note d = assms(2) [unfolded decoded_part_def]
  have c: "chained dec block (machine_rip s) (before_end b js)"
    using d by (cases js rule: rev_cases) (auto simp: before_end_def chained_append)
  have v: "set (before_end b js) \<subseteq> set js" by (auto simp: before_end_def dest: in_set_butlastD)
  have r: "st_for (before_end b js) (\<lambda>j. st_bind (execute_code oa (i_ip j) j) (\<lambda>_. set_rip (i_next_ip j))) s = (Ok (), s1)"
    using assms(3) unfolding execute_straight_eq [OF assms(1,2)] takeWhile_before_end [OF assms(1,2)] .
  have run: "(insn_run dec oa block n s1 t \<longrightarrow> insn_run dec oa block n s t) \<and>
      machine_rip s1 = chain_end (machine_rip s) (before_end b js)" for n t
    by (rule run_straight [OF assms(1) c _ r]) (use d v in blast)
  then show "insn_run dec oa block n s1 t \<Longrightarrow> insn_run dec oa block n s t" by blast
  assume e: "db_terminator b \<noteq> EndOfBytes"
  then obtain xs l where js: "js = xs @ [l]"
    using d by (cases "db_terminator b"; cases js rule: rev_cases) auto
  then have x: "machine_rip s1 = i_ip l" using run d e by (simp add: before_end_def chained_append)
  obtain k where "placed_in dec (gb_bytes block) (gb_rip block) k l" using d js by auto
  from fetched_placed [OF assms(1) this, of s1] x d js
  show "fetched dec block s1 (last js) \<and> machine_rip s1 = i_ip (last js)" by simp
qed

lemma with_rip_same: "machine_rip s = rip \<Longrightarrow> with_rip rip s = s"
  by (cases s) (simp add: with_rip_def)

lemma trap_loop_steps:
  assumes "decoder_ok dec" "fits_space block"
    and "trap_loop n dec oa block (machine_rip s) s = (Ok trap, s')"
  shows "(\<exists>k<n. insn_run dec oa block k s s') \<and> at_syscall dec block s' (trap_site trap) \<and>
    m_registers s' = trap_registers trap \<and> block_syscall_site (trap_decoded trap) = Some (trap_site trap)"
  using assms(3)
proof (induction n arbitrary: s)
  case 0
  then show ?case by (simp add: st_err_def)
next
  case (Suc n)
  from Suc.prems obtain b decoded s1 where b: "block_from_rip block (machine_rip s) = Ok b" "block_decode dec b = Ok decoded"
    and r1: "execute_straight dec oa block decoded s = (Ok (), s1)"
    and r2: "(case block_syscall_site decoded of
         Some site \<Rightarrow>
           st_bind (set_rip (site_rip site)) (\<lambda>_.
           st_bind (st_get m_registers) (\<lambda>rs.
             st_ok \<lparr>trap_decoded = decoded, trap_site = site, trap_registers = rs\<rparr>))
       | None \<Rightarrow>
           st_bind (control_flow_target dec oa block decoded) (\<lambda>target.
             case target of
               Some t \<Rightarrow> st_bind (set_rip t) (\<lambda>_. trap_loop n dec oa block t)
             | None \<Rightarrow> st_err (MissingSyscall (db_terminator decoded)))) s1 = (Ok trap, s')"
    by (auto simp: bind_Ok_iff st_lift_def result_simps)
  obtain js where js: "decoded_part dec block (machine_rip s) decoded js"
    using decode_part_block [OF assms(1,2) b] ..
  note d = js [unfolded decoded_part_def]
  note run = part_steps(1) [OF assms(2) js r1]
  note at_end = part_steps(2) [OF assms(2) js r1]
  show ?case
  proof (cases "db_terminator decoded")
    case (SyscallAt site)
    then have e: "fetched dec block s1 (last js)" "machine_rip s1 = i_ip (last js)" using at_end by auto
    then have "at_syscall dec block s1 site" using d SyscallAt by (auto simp: at_syscall_def)
    moreover have "s' = s1" "trap = \<lparr>trap_decoded = decoded, trap_site = site, trap_registers = m_registers s1\<rparr>"
      using r2 SyscallAt d e with_rip_same [of s1]
      by (auto simp: block_syscall_site_def bind_Ok_iff set_rip_Ok st_get_def st_ok_def)
    ultimately show ?thesis using run [OF run_stop] SyscallAt by (auto simp: block_syscall_site_def)
  next
    case (ControlFlow rip flow)
    then have e: "fetched dec block s1 (last js)" "machine_rip s1 = i_ip (last js)" using at_end by auto
    have "js \<noteq> []" "rip = i_ip (last js)" "to_decoded_flow_control (i_flow_control (last js)) = Some flow"
      using d ControlFlow by auto
    obtain t s2 where t: "flow_target oa block (ControlFlow (machine_rip s1) flow) flow (last js) s1 = (Ok (Some t), s2)"
      and rest: "trap_loop n dec oa block t (with_rip t s2) = (Ok trap, s')"
      using r2 ControlFlow \<open>rip = i_ip (last js)\<close> e(2) control_flow_target_eq [OF assms(2) js, of oa]
      by (auto simp: block_syscall_site_def bind_Ok_iff set_rip_Ok st_err_def split: option.splits)
    have "i_mnemonic (last js) \<noteq> Syscall" using d ControlFlow by auto
    then have "insn_run dec oa block (Suc k) s s'" if "insn_run dec oa block k (with_rip t s2) s'" for k
      using e t \<open>to_decoded_flow_control (i_flow_control (last js)) = Some flow\<close> that
      by (intro run [OF run_jump [OF e(1), where t = t and ?s1.0 = s2]]) auto
    moreover have "(\<exists>k<n. insn_run dec oa block k (with_rip t s2) s') \<and> at_syscall dec block s' (trap_site trap) \<and>
        m_registers s' = trap_registers trap \<and> block_syscall_site (trap_decoded trap) = Some (trap_site trap)"
      using Suc.IH [of "with_rip t s2"] rest by simp
    ultimately show ?thesis by (meson Suc_mono)
  next
    case EndOfBytes
    then show ?thesis using r2 control_flow_target_eq [OF assms(2) js, of oa]
      by (auto simp: block_syscall_site_def bind_Ok_iff st_ok_def st_err_def)
  qed (use d in simp)
qed

section \<open>Every trap is found\<close>

abbreviation run_one :: "'m operand_access \<Rightarrow> instruction \<Rightarrow> ('m, unit) exec_op" where
  "run_one oa j \<equiv> st_bind (execute_code oa (i_ip j) j) (\<lambda>_. set_rip (i_next_ip j))"

text \<open>A run starts with a straight part and then stands at the instruction that ends it.\<close>

definition straight_to :: "decoder \<Rightarrow> 'm operand_access \<Rightarrow> guest_block \<Rightarrow> 'm machine \<Rightarrow> instruction list \<Rightarrow>
    'm machine \<Rightarrow> bool" where
  "straight_to dec oa block s js s1 \<longleftrightarrow>
     chained dec block (machine_rip s) js \<and>
     (\<forall>j\<in>set js. \<not> i_is_invalid j \<and> i_mnemonic j \<noteq> Syscall \<and> to_decoded_flow_control (i_flow_control j) = None) \<and>
     st_for js (run_one oa) s = (Ok (), s1)"

lemma fetchedD:
  assumes "decoder_ok dec" "fetched dec block s i"
  shows "\<exists>k. placed_in dec (gb_bytes block) (gb_rip block) k i" "i_ip i = machine_rip s" "\<not> i_is_invalid i"
proof -
  obtain k where k: "block_offset block (machine_rip s) = Ok k" "i = dec (drop k (gb_bytes block)) (machine_rip s)"
    and v: "\<not> i_is_invalid i" using assms(2) by (auto simp: fetched_def)
  from block_offset_Ok [OF k(1)] have o: "k < length (gb_bytes block)" "machine_rip s = gb_rip block + of_nat k"
    by simp_all
  have p: "placed_in dec (gb_bytes block) (gb_rip block) k i"
    using placed_in_here [OF assms(1) o(1), of "gb_rip block"] k(2) o(2) by simp
  then show "\<exists>k. placed_in dec (gb_bytes block) (gb_rip block) k i" ..
  show "i_ip i = machine_rip s" using placed_inD(3) [OF p] o(2) by simp
  show "\<not> i_is_invalid i" by (rule v)
qed

lemma straight_to_Cons:
  assumes "decoder_ok dec" "fetched dec block s i" "i_mnemonic i \<noteq> Syscall"
    "to_decoded_flow_control (i_flow_control i) = None" "execute_code oa (machine_rip s) i s = (Ok (), s1)"
    "straight_to dec oa block (with_rip (i_next_ip i) s1) js s2"
  shows "straight_to dec oa block s (i # js) s2"
  using assms fetchedD [OF assms(1,2)] by (auto simp: straight_to_def st_bind_def set_rip_Ok set_rip_def
      on_registers_def with_rip_def)

lemma run_splits:
  assumes "decoder_ok dec" "insn_run dec oa block n s s'" "at_syscall dec block s' site"
  shows "\<exists>js s1. straight_to dec oa block s js s1 \<and>
    (n = 0 \<and> s1 = s' \<or>
     (\<exists>i flow t s2 m. n = Suc m \<and> fetched dec block s1 i \<and> i_mnemonic i \<noteq> Syscall \<and>
        to_decoded_flow_control (i_flow_control i) = Some flow \<and>
        flow_target oa block (ControlFlow (machine_rip s1) flow) flow i s1 = (Ok (Some t), s2) \<and>
        insn_run dec oa block m (with_rip t s2) s'))"
  using assms(2,3)
proof (induction rule: insn_run.induct)
  case (run_stop s)
  then show ?case by (intro exI [of _ "[]"] exI [of _ s]) (simp add: straight_to_def st_ok_def)
next
  case (run_plain s i s1 n s')
  from run_plain.IH [OF run_plain.prems] straight_to_Cons [OF assms(1) run_plain.hyps(1-4)]
  show ?case by blast
next
  case (run_jump s i flow t s1 n s')
  then show ?case by (intro exI [of _ "[]"] exI [of _ s]) (auto simp: straight_to_def st_ok_def)
qed

text \<open>The block decoder finds the straight part and its end.\<close>

lemma stream_of_chain:
  assumes "decoder_ok dec" "chained dec block rip (js @ [l])" "rip = gb_rip block + of_nat n" "fits_space block"
    "n \<le> length (gb_bytes block)"
  shows "\<exists>rest. decode_stream dec (drop n (gb_bytes block)) rip = js @ l # rest"
  using assms(2,3,5)
proof (induction "js @ [l]" arbitrary: js rip n)
  case (Cons j tl)
  let ?bytes = "drop n (gb_bytes block)"
  obtain k where p: "placed_in dec (gb_bytes block) (gb_rip block) k j" and ip: "i_ip j = rip"
    using Cons by (auto simp: Cons.hyps(2) [symmetric])
  have "unat (gb_rip block) + k = unat (gb_rip block) + n"
    using placed_addresses(1) [OF assms(4) p] unat_in_block [OF assms(4) Cons.prems(3)] ip Cons.prems(2) by simp
  then have kn: "k = n" by simp
  then have n: "?bytes \<noteq> []" using placed_inD(1) [OF p] by simp
  have j: "dec ?bytes rip = j" using placed_inD(2) [OF p] kn Cons.prems(2) by simp
  have nx: "rip + of_nat (i_len j) = i_next_ip j"
    using placed_inD(6) [OF p] kn Cons.prems(2) by (simp add: add.assoc)
  have s: "decode_stream dec ?bytes rip = j # decode_stream dec (drop (n + i_len j) (gb_bytes block)) (i_next_ip j)"
    unfolding decode_stream_unfold [OF assms(1) n, of rip] j nx by (simp add: add.commute)
  show ?case
  proof (cases js)
    case Nil
    then show ?thesis using s Cons.hyps(2) by auto
  next
    case (Cons j' js')
    then have eq: "j' = j" "tl = js' @ [l]" using Cons.hyps(2) Cons by auto
    show ?thesis
      using Cons.hyps(1) [of js' "i_next_ip j" "n + i_len j"] eq s \<open>js = j' # js'\<close> Cons.prems placed_inD(5,6) [OF p] kn
      by auto
  qed
qed simp

lemma decode_loop_stops:
  assumes "\<forall>j\<in>set js. \<not> i_is_invalid j \<and> i_mnemonic j \<noteq> Syscall \<and> to_decoded_flow_control (i_flow_control j) = None"
  shows "decode_loop (js @ rest) acc = decode_loop rest (acc @ map decoded_of js)"
  using assms by (induction js arbitrary: acc) (auto simp: Let_def)

lemma chained_placed: "chained dec block rip js \<Longrightarrow> j \<in> set js \<Longrightarrow> \<exists>k. placed_in dec (gb_bytes block) (gb_rip block) k j"
  by (induction js arbitrary: rip) auto

text \<open>The terminator of a part that \<open>l\<close> ends.\<close>

definition ended_by :: "instruction \<Rightarrow> block_terminator \<Rightarrow> bool" where
  "ended_by l t \<longleftrightarrow>
     (if i_mnemonic l = Syscall then t = SyscallAt \<lparr>site_rip = i_ip l, site_next_rip = i_next_ip l\<rparr>
      else \<exists>flow. to_decoded_flow_control (i_flow_control l) = Some flow \<and> t = ControlFlow (i_ip l) flow)"

lemma straight_decoded:
  assumes "decoder_ok dec" "fits_space block" "straight_to dec oa block s js s1" "fetched dec block s1 l" "ended_by l t"
  defines "decoded \<equiv> \<lparr>db_instructions = map decoded_of (js @ [l]), db_terminator = t\<rparr>"
  shows "\<exists>b. block_from_rip block (machine_rip s) = Ok b \<and> block_decode dec b = Ok decoded"
    and "decoded_part dec block (machine_rip s) decoded (js @ [l])"
    and "execute_straight dec oa block decoded s = (Ok (), s1)"
proof -
  note st = assms(3) [unfolded straight_to_def]
  note l = fetchedD [OF assms(1,4)]
  have "machine_rip s1 = chain_end (machine_rip s) js"
    using run_straight [OF assms(2), of dec s js oa s1 0 s1] st by blast
  then have c: "chained dec block (machine_rip s) (js @ [l])" using st l by (simp add: chained_append)
  obtain j tl where "js @ [l] = j # tl" by (cases js) auto
  then obtain k where p: "placed_in dec (gb_bytes block) (gb_rip block) k j" "i_ip j = machine_rip s"
    using c by auto
  note off = block_offset_placed [OF assms(2) p(1), unfolded p(2)]
  note rip = block_offset_Ok [OF off]
  let ?b = "\<lparr>gb_bytes = drop k (gb_bytes block), gb_rip = machine_rip s\<rparr>"
  have b: "block_from_rip block (machine_rip s) = Ok ?b" using off rip by (simp add: block_from_rip_def)
  obtain rest where stream: "decode_stream dec (drop k (gb_bytes block)) (machine_rip s) = js @ l # rest"
    using stream_of_chain [OF assms(1) c _ assms(2), of k] rip by auto
  obtain kl where pl: "placed_in dec (gb_bytes block) (gb_rip block) kl l" using l by blast
  have "block_decode dec ?b = decode_loop (l # rest) (map decoded_of js)"
    unfolding block_decode_def guest_block.simps stream using decode_loop_stops [of js "l # rest" "[]"] st by simp
  also have "\<dots> = Ok decoded"
    using assms(5) l(3)
    by (auto simp: decoded_def ended_by_def Let_def end_rip_def u64_add_next [OF assms(2) pl] split: if_splits)
  finally show "\<exists>b. block_from_rip block (machine_rip s) = Ok b \<and> block_decode dec b = Ok decoded" using b by blast
  have "before_end decoded (js @ [l]) = js"
    using assms(5) by (auto simp: before_end_def decoded_def ended_by_def split: if_splits)
  then show part: "decoded_part dec block (machine_rip s) decoded (js @ [l])"
    unfolding decoded_part_def using c st l(3) chained_placed [OF c] assms(5)
    by (auto simp: decoded_def ended_by_def split: if_splits)
  show "execute_straight dec oa block decoded s = (Ok (), s1)"
    unfolding execute_straight_eq [OF assms(2) part] takeWhile_before_end [OF assms(2) part]
    using \<open>before_end decoded (js @ [l]) = js\<close> st by simp
qed

lemma trap_loop_complete:
  assumes "decoder_ok dec" "fits_space block" "insn_run dec oa block m s s'" "at_syscall dec block s' site" "m < n"
  shows "\<exists>trap. trap_loop n dec oa block (machine_rip s) s = (Ok trap, s') \<and> trap_site trap = site"
  using assms(3,5)
proof (induction n arbitrary: m s)
  case (Suc n)
  from run_splits [OF assms(1) Suc.prems(1) assms(4)] obtain js s1 where st: "straight_to dec oa block s js s1"
    and fin: "m = 0 \<and> s1 = s' \<or>
     (\<exists>i flow t s2 k. m = Suc k \<and> fetched dec block s1 i \<and> i_mnemonic i \<noteq> Syscall \<and>
        to_decoded_flow_control (i_flow_control i) = Some flow \<and>
        flow_target oa block (ControlFlow (machine_rip s1) flow) flow i s1 = (Ok (Some t), s2) \<and>
        insn_run dec oa block k (with_rip t s2) s')" by blast
  from fin show ?case
  proof (elim disjE conjE exE)
    assume "m = 0" "s1 = s'"
    obtain l where l: "fetched dec block s1 l" "i_mnemonic l = Syscall" "site_rip site = machine_rip s1"
      "site_next_rip site = i_next_ip l" using assms(4) \<open>s1 = s'\<close> by (auto simp: at_syscall_def)
    have t: "ended_by l (SyscallAt site)" using l fetchedD(2) [OF assms(1) l(1)] by (simp add: ended_by_def)
    note d = straight_decoded [OF assms(1,2) st l(1) t]
    show ?thesis
      using d(1,3) l(3) \<open>s1 = s'\<close> with_rip_same [of s1]
      by (auto simp: st_bind_def st_lift_def block_syscall_site_def set_rip_def on_registers_def st_get_def st_ok_def
          with_rip_def)
  next
    fix i flow t s2 k
    assume k: "m = Suc k" and i: "fetched dec block s1 i" "i_mnemonic i \<noteq> Syscall"
      and f: "to_decoded_flow_control (i_flow_control i) = Some flow"
      and t: "flow_target oa block (ControlFlow (machine_rip s1) flow) flow i s1 = (Ok (Some t), s2)"
      and r: "insn_run dec oa block k (with_rip t s2) s'"
    have ip: "i_ip i = machine_rip s1" by (rule fetchedD(2) [OF assms(1) i(1)])
    have e: "ended_by i (ControlFlow (machine_rip s1) flow)" using i f ip by (simp add: ended_by_def)
    note d = straight_decoded [OF assms(1,2) st i(1) e]
    obtain trap where "trap_loop n dec oa block t (with_rip t s2) = (Ok trap, s')" "trap_site trap = site"
      using Suc.IH [OF r] k Suc.prems(2) by auto
    then show ?thesis
      using d(1,3) t control_flow_target_eq [OF assms(2) d(2), of oa]
      by (auto simp: st_bind_def st_lift_def block_syscall_site_def set_rip_def on_registers_def with_rip_def)
  qed
qed simp

section \<open>The executor and the machine\<close>

definition start_machine :: "guest_registers \<Rightarrow> 'm \<Rightarrow> 'm machine" where
  "start_machine rs m = \<lparr>m_registers = rs, m_flags = from_registers rs, m_memory = m\<rparr>"

text \<open>A decoder for a few instructions: \<open>syscall\<close>, \<open>nop\<close>, a short \<open>jmp\<close>, and nothing else.\<close>

fun tiny_decoder :: decoder where
  "tiny_decoder (a # b # rest) ip =
     (if a = 0x0f \<and> b = 0x05
      then (blank_instruction ip 2)\<lparr>i_mnemonic := Syscall, i_code := Code_other, i_flow_control := Flow_Call\<rparr>
      else if a = 0xeb
      then (blank_instruction ip 2)\<lparr>i_code := Code Jmp Rel8_64, i_flow_control := Flow_UnconditionalBranch,
             i_op_kind := (\<lambda>_. NearBranch64), i_near_branch_target := ip + 2 + scast b\<rparr>
      else if a = 0x90 then blank_instruction ip 1
      else (blank_instruction ip 1)\<lparr>i_is_invalid := True\<rparr>)"
| "tiny_decoder [a] ip =
     (if a = 0x90 then blank_instruction ip 1 else (blank_instruction ip 1)\<lparr>i_is_invalid := True\<rparr>)"
| "tiny_decoder [] ip = (blank_instruction ip 1)\<lparr>i_is_invalid := True\<rparr>"

lemma tiny_decoder_ok: "decoder_ok tiny_decoder"
  unfolding decoder_ok_def
proof (intro allI impI)
  fix bytes :: "u8 list" and ip
  assume "bytes \<noteq> []"
  then obtain a r where "bytes = a # r" by (cases bytes) auto
  then show "i_ip (tiny_decoder bytes ip) = ip \<and> 0 < i_len (tiny_decoder bytes ip) \<and>
      i_len (tiny_decoder bytes ip) \<le> length bytes \<and>
      i_next_ip (tiny_decoder bytes ip) = ip + of_nat (i_len (tiny_decoder bytes ip)) \<and>
      (\<not> i_is_invalid (tiny_decoder bytes ip) \<longrightarrow>
         tiny_decoder (take (i_len (tiny_decoder bytes ip)) bytes) ip = tiny_decoder bytes ip)"
    by (cases r) (simp_all add: blank_instruction_def numeral_2_eq_2)
qed

text \<open>C12. The executor of a block reports a trap exactly when the machine that fetches, decodes and executes
  one instruction at a time, started in the same state, reaches a system call with fewer than
  \<open>MAX_CONTROL_FLOW_STEPS\<close> jumps; registers and memory of the trap are those of the machine, and the site is
  the instruction it stands at.\<close>

theorem trap_iff_machine_reaches_syscall:
  assumes "decoder_ok dec" "fits_space block"
  shows "(\<exists>trap. execute_to_syscall_trap_with_memory dec oa block rs m = (Ok trap, m') \<and>
            trap_site trap = site \<and> trap_registers trap = rs') \<longleftrightarrow>
    (\<exists>n s'. n < MAX_CONTROL_FLOW_STEPS \<and> insn_run dec oa block n (start_machine rs m) s' \<and>
        at_syscall dec block s' site \<and> m_registers s' = rs' \<and> m_memory s' = m')"
proof
  assume "\<exists>trap. execute_to_syscall_trap_with_memory dec oa block rs m = (Ok trap, m') \<and>
            trap_site trap = site \<and> trap_registers trap = rs'"
  then obtain trap s' where "trap_loop MAX_CONTROL_FLOW_STEPS dec oa block (r_rip rs) (start_machine rs m) = (Ok trap, s')"
    "m_memory s' = m'" "trap_site trap = site" "trap_registers trap = rs'"
    by (auto simp: execute_to_syscall_trap_with_memory_def start_machine_def split: prod.splits)
  with trap_loop_steps [OF assms, of MAX_CONTROL_FLOW_STEPS oa "start_machine rs m" trap s']
  show "\<exists>n s'. n < MAX_CONTROL_FLOW_STEPS \<and> insn_run dec oa block n (start_machine rs m) s' \<and>
        at_syscall dec block s' site \<and> m_registers s' = rs' \<and> m_memory s' = m'"
    by (auto simp: start_machine_def)
next
  assume "\<exists>n s'. n < MAX_CONTROL_FLOW_STEPS \<and> insn_run dec oa block n (start_machine rs m) s' \<and>
        at_syscall dec block s' site \<and> m_registers s' = rs' \<and> m_memory s' = m'"
  then obtain n s' where n: "n < MAX_CONTROL_FLOW_STEPS" "insn_run dec oa block n (start_machine rs m) s'"
    "at_syscall dec block s' site" and s': "m_registers s' = rs'" "m_memory s' = m'" by blast
  obtain trap where t: "trap_loop MAX_CONTROL_FLOW_STEPS dec oa block (machine_rip (start_machine rs m)) (start_machine rs m)
      = (Ok trap, s')" "trap_site trap = site"
    using trap_loop_complete [OF assms n(2,3,1)] by blast
  with trap_loop_steps [OF assms t(1)] s' show "\<exists>trap. execute_to_syscall_trap_with_memory dec oa block rs m = (Ok trap, m') \<and>
            trap_site trap = site \<and> trap_registers trap = rs'"
    by (auto simp: execute_to_syscall_trap_with_memory_def start_machine_def)
qed

text \<open>The example: \<open>nop; jmp +1; int3; syscall\<close> at address \<open>0x1000\<close>.\<close>

definition tiny_block :: guest_block where
  "tiny_block = \<lparr>gb_bytes = [0x90, 0xeb, 0x01, 0xcc, 0x0f, 0x05], gb_rip = 0x1000\<rparr>"

definition tiny_registers :: guest_registers where
  "tiny_registers = zero_registers\<lparr>r_rip := 0x1000\<rparr>"

lemma tiny_fits: "fits_space tiny_block"
  by (simp add: fits_space_def tiny_block_def)

lemma tiny_fetched:
  "machine_rip s = 0x1000 \<Longrightarrow> fetched tiny_decoder tiny_block s (blank_instruction 0x1000 1)"
  "machine_rip s = 0x1001 \<Longrightarrow> fetched tiny_decoder tiny_block s
     ((blank_instruction 0x1001 2)\<lparr>i_code := Code Jmp Rel8_64, i_flow_control := Flow_UnconditionalBranch,
             i_op_kind := (\<lambda>_. NearBranch64), i_near_branch_target := 0x1004\<rparr>)"
  "machine_rip s = 0x1004 \<Longrightarrow> fetched tiny_decoder tiny_block s
     ((blank_instruction 0x1004 2)\<lparr>i_mnemonic := Syscall, i_code := Code_other, i_flow_control := Flow_Call\<rparr>)"
  by (auto simp: fetched_def block_offset_def checked_sub_def tiny_block_def blank_instruction_def)

lemma tiny_run:
  "insn_run tiny_decoder rejecting_access tiny_block 1 (start_machine tiny_registers ())
     (with_rip 0x1004 (start_machine tiny_registers ()))"
proof (rule run_plain [OF tiny_fetched(1), where ?s1.0 = "start_machine tiny_registers ()"])
  let ?s = "start_machine tiny_registers ()"
  let ?s1 = "with_rip (i_next_ip (blank_instruction 0x1000 1)) ?s"
  show "insn_run tiny_decoder rejecting_access tiny_block 1 ?s1 (with_rip 0x1004 ?s)"
    unfolding One_nat_def
  proof (rule run_jump [OF tiny_fetched(2), where t = "0x1004" and ?s1.0 = ?s1 and flow = UnconditionalBranch])
    show "insn_run tiny_decoder rejecting_access tiny_block 0 (with_rip 0x1004 ?s1) (with_rip 0x1004 ?s)"
      using run_stop by (simp add: with_rip_def)
  qed (simp_all add: with_rip_def blank_instruction_def flow_target_def st_bind_def st_get_def st_lift_def
      branch_taken_def branch_condition_def near_branch_def jump_within_def block_offset_def checked_sub_def
      tiny_block_def st_ok_def)
qed (simp_all add: start_machine_def tiny_registers_def blank_instruction_def execute_code_def st_ok_def)

lemma tiny_at_syscall:
  "at_syscall tiny_decoder tiny_block (with_rip 0x1004 (start_machine tiny_registers ()))
     \<lparr>site_rip = 0x1004, site_next_rip = 0x1006\<rparr>"
  unfolding at_syscall_def by (intro exI conjI, rule tiny_fetched(3)) (simp_all add: blank_instruction_def)

theorem trap_iff_machine_reaches_syscall_witness:
  "\<exists>trap. execute_to_syscall_trap_with_memory tiny_decoder rejecting_access tiny_block tiny_registers () = (Ok trap, ()) \<and>
     trap_site trap = \<lparr>site_rip = 0x1004, site_next_rip = 0x1006\<rparr> \<and>
     trap_registers trap = tiny_registers\<lparr>r_rip := 0x1004\<rparr>"
  unfolding trap_iff_machine_reaches_syscall [OF tiny_decoder_ok tiny_fits]
  using tiny_run tiny_at_syscall
  by (intro exI [of _ 1] exI [of _ "with_rip 0x1004 (start_machine tiny_registers ())"])
    (simp add: MAX_CONTROL_FLOW_STEPS_def with_rip_def start_machine_def)

section \<open>Scanning for system calls\<close>

text \<open>The encoding of \<open>syscall\<close>: the instruction ends in the bytes \<open>0f 05\<close>.\<close>

definition syscall_encoding :: "decoder \<Rightarrow> bool" where
  "syscall_encoding dec \<longleftrightarrow>
     (\<forall>bytes ip. bytes \<noteq> [] \<and> \<not> i_is_invalid (dec bytes ip) \<and> i_mnemonic (dec bytes ip) = Syscall \<longrightarrow>
        2 \<le> i_len (dec bytes ip) \<and> bytes ! (i_len (dec bytes ip) - 2) = 0x0f \<and>
        bytes ! (i_len (dec bytes ip) - 1) = 0x05)"

text \<open>The reference: every instruction of the linear scan that is a system call.\<close>

definition sites_of :: "decoded_instruction list \<Rightarrow> syscall_site list" where
  "sites_of ds = map (\<lambda>d. \<lparr>site_rip = di_rip d, site_next_rip = di_rip d + of_nat (di_len d)\<rparr>)
     (filter (\<lambda>d. di_mnemonic d = DecodedSyscall) ds)"

lemma last_pair_None:
  assumes "last_syscall_byte_pair bytes = None" "Suc k < length bytes" "bytes ! k = 0x0f" "bytes ! Suc k = 0x05"
  shows False
  using assms by (auto simp: last_syscall_byte_pair_def find_None_iff)

lemma find_rev_upt:
  assumes "List.find P (rev [0..<n]) = Some k" "P j" "j < n"
  shows "j \<le> k"
  using assms
proof (induction n)
  case (Suc n)
  then show ?case by (cases "P n") (auto simp: less_Suc_eq)
qed simp

lemma last_pair_Some:
  assumes "last_syscall_byte_pair bytes = Some c" "Suc k < length bytes" "bytes ! k = 0x0f" "bytes ! Suc k = 0x05"
  shows "k \<le> c"
  using find_rev_upt [OF assms(1) [unfolded last_syscall_byte_pair_def], of k] assms by auto

text \<open>The pair of bytes of a system call instruction at an offset.\<close>

lemma syscall_pair:
  assumes "syscall_encoding dec" "placed_in dec bytes ip k i" "\<not> i_is_invalid i" "i_mnemonic i = Syscall"
  shows "\<exists>p. k \<le> p \<and> Suc p < length bytes \<and> bytes ! p = 0x0f \<and> bytes ! Suc p = 0x05"
proof -
  note p = placed_inD [OF assms(2)]
  have "2 \<le> i_len i \<and> drop k bytes ! (i_len i - 2) = 0x0f \<and> drop k bytes ! (i_len i - 1) = 0x05"
    using assms(1,3,4) p(1) unfolding syscall_encoding_def p(2) by simp
  then show ?thesis
    using p(1,5) by (intro exI [of _ "k + (i_len i - 2)"]) (auto simp: Suc_diff_Suc numeral_2_eq_2)
qed

definition stream_sites :: "instruction list \<Rightarrow> syscall_site list" where
  "stream_sites is = sites_of (map decoded_of (filter (\<lambda>i. \<not> i_is_invalid i) is))"

lemma stream_sites_Cons:
  "stream_sites (i # is) =
     (if \<not> i_is_invalid i \<and> i_mnemonic i = Syscall
      then [\<lparr>site_rip = i_ip i, site_next_rip = i_ip i + of_nat (i_len i)\<rparr>] else []) @ stream_sites is"
  by (simp add: stream_sites_def sites_of_def decoded_of_def to_decoded_mnemonic_def)

lemma stream_sites_empty:
  "(\<And>i. i \<in> set is \<Longrightarrow> i_is_invalid i \<or> i_mnemonic i \<noteq> Syscall) \<Longrightarrow> stream_sites is = []"
  by (induction "is") (auto simp: stream_sites_Cons, simp add: stream_sites_def sites_of_def)

lemma no_syscall_behind:
  assumes "decoder_ok dec" "syscall_encoding dec"
    "\<And>p. n \<le> p \<Longrightarrow> Suc p < length bytes \<Longrightarrow> bytes ! p = 0x0f \<Longrightarrow> bytes ! Suc p = 0x05 \<Longrightarrow> False"
  shows "stream_sites (decode_stream dec (drop n bytes) (ip + of_nat n)) = []"
proof (rule stream_sites_empty, rule ccontr)
  fix i assume i: "i \<in> set (decode_stream dec (drop n bytes) (ip + of_nat n))"
    and s: "\<not> (i_is_invalid i \<or> i_mnemonic i \<noteq> Syscall)"
  obtain k where "placed_in dec (drop n bytes) (ip + of_nat n) k i"
    using decode_stream_placed [OF assms(1) i] ..
  then have "placed_in dec bytes ip (n + k) i" by (rule placed_in_drop)
  from syscall_pair [OF assms(2) this] s assms(3) show False by force
qed

lemma sites_loop_all:
  assumes "decoder_ok dec" "syscall_encoding dec" "fits_space \<lparr>gb_bytes = bytes, gb_rip = rip\<rparr>"
    "last_syscall_byte_pair bytes = Some c"
  shows "n \<le> length bytes \<Longrightarrow>
    (sites_loop c n (decode_stream dec (drop n bytes) (rip + of_nat n)) acc :: (syscall_site list, 'e) result) =
      Ok (acc @ stream_sites (decode_stream dec (drop n bytes) (rip + of_nat n)))"
proof (induction "length bytes - n" arbitrary: n acc rule: less_induct)
  case less
  show ?case
  proof (cases "drop n bytes = []")
    case True
    then show ?thesis by (simp add: stream_sites_def sites_of_def)
  next
    case False
    let ?i = "dec (drop n bytes) (rip + of_nat n)"
    have p: "placed_in dec bytes rip n ?i" using False by (intro placed_in_here [OF assms(1)]) simp
    note l = placed_inD(4,5) [OF p]
    have next_ip: "(u64_add (i_ip ?i) (of_nat (i_len ?i)) :: (u64, 'e) result) = Ok (i_next_ip ?i)"
      "i_next_ip ?i = i_ip ?i + of_nat (i_len ?i)"
      using u64_add_next [OF assms(3), of dec n ?i] p placed_inD(3,6) [OF p] by (simp_all add: add.assoc)
    define rest where "rest = decode_stream dec (drop (n + i_len ?i) bytes) (rip + of_nat (n + i_len ?i))"
    have s: "decode_stream dec (drop n bytes) (rip + of_nat n) = ?i # rest"
    proof -
      have "drop (i_len ?i) (drop n bytes) = drop (n + i_len ?i) bytes" by (simp add: add.commute)
      moreover have "rip + of_nat n + of_nat (i_len ?i) = rip + of_nat (n + i_len ?i)" by (simp add: add.assoc)
      ultimately show ?thesis
        using decode_stream_unfold [OF assms(1) False, of "rip + of_nat n"] unfolding rest_def by metis
    qed
    have tail: "stream_sites rest = []" if "c < n + i_len ?i"
      unfolding rest_def
      by (rule no_syscall_behind [OF assms(1,2)])
        (use last_pair_Some [OF assms(4)] that in \<open>fastforce dest: leD\<close>)
    have IH: "(sites_loop c (n + i_len ?i) rest acc' :: (syscall_site list, 'e) result) =
        Ok (acc' @ stream_sites rest)" for acc'
      unfolding rest_def by (rule less.hyps) (use l False in auto)
    show ?thesis
      unfolding s stream_sites_Cons sites_loop.simps next_ip(1)
      by (simp add: IH tail next_ip(2))
  qed
qed

text \<open>C14. The scan for system calls stops behind the last pair of bytes \<open>0f 05\<close>; it still finds every system
  call instruction that a scan of all bytes finds, in order, and nothing else.\<close>

theorem syscall_scan_complete:
  assumes "decoder_ok dec" "syscall_encoding dec" "fits_space \<lparr>gb_bytes = bytes, gb_rip = rip\<rparr>"
  shows "syscall_instruction_sites dec bytes rip =
    Ok (sites_of (linear_scan dec \<lparr>gb_bytes = bytes, gb_rip = rip\<rparr>))"
proof (cases "last_syscall_byte_pair bytes")
  case None
  have "stream_sites (decode_stream dec (drop 0 bytes) (rip + of_nat 0)) = []"
    by (rule no_syscall_behind [OF assms(1,2)]) (use last_pair_None [OF None] in blast)
  then show ?thesis using None by (simp add: syscall_instruction_sites_def linear_scan_def stream_sites_def)
next
  case (Some c)
  with sites_loop_all [OF assms Some, of 0 "[]"] show ?thesis
    by (simp add: syscall_instruction_sites_def linear_scan_def stream_sites_def)
qed

lemma tiny_encoding: "syscall_encoding tiny_decoder"
  unfolding syscall_encoding_def
proof (intro allI impI)
  fix bytes :: "u8 list" and ip
  assume a: "bytes \<noteq> [] \<and> \<not> i_is_invalid (tiny_decoder bytes ip) \<and> i_mnemonic (tiny_decoder bytes ip) = Syscall"
  then obtain x r where "bytes = x # r" by (cases bytes) auto
  with a show "2 \<le> i_len (tiny_decoder bytes ip) \<and> bytes ! (i_len (tiny_decoder bytes ip) - 2) = 0x0f \<and>
      bytes ! (i_len (tiny_decoder bytes ip) - 1) = 0x05"
    by (cases r) (auto simp: blank_instruction_def split: if_splits)
qed

theorem syscall_scan_complete_witness:
  "syscall_instruction_sites tiny_decoder [0x90, 0x0f, 0x05, 0x90] 0x1000 =
     Ok [\<lparr>site_rip = 0x1001, site_next_rip = 0x1003\<rparr>]"
proof -
  have "fits_space \<lparr>gb_bytes = [0x90, 0x0f, 0x05, 0x90], gb_rip = 0x1000\<rparr>" by (simp add: fits_space_def)
  from syscall_scan_complete [OF tiny_decoder_ok tiny_encoding this] show ?thesis
    by (simp add: linear_scan_def decode_stream_unfold [OF tiny_decoder_ok] blank_instruction_def sites_of_def
        decoded_of_def to_decoded_mnemonic_def)
qed

end
