(* ===== verification/Jit_Guest.thy ===== *)
theory Jit_Guest
  imports Jit_Steps Mem_Props
begin

text \<open>
  The instruction fallback on guest memory (\<open>mcr-memory/src/memory_access.rs\<close>): the accesses of the executor
  are \<open>GuestMemory::read\<close> and \<open>GuestMemory::write\<close>.  The laws of \<open>operand_memory\<close> follow from the refinement
  of those two, so that what is proved about the executor holds for the real address space.
\<close>

section \<open>Accesses\<close>

fun memory_operand_error :: "guest_memory_error \<Rightarrow> operand_error" where
  "memory_operand_error NotMapped = OperandNotMapped"
| "memory_operand_error AccessDenied = OperandAccessDenied"
| "memory_operand_error InvalidAddress = OperandFault"
| "memory_operand_error InvalidLength = OperandFault"
| "memory_operand_error InvalidProtection = OperandFault"
| "memory_operand_error InvalidFlags = OperandFault"
| "memory_operand_error InvalidOffset = OperandFault"
| "memory_operand_error BadFileDescriptor = OperandFault"
| "memory_operand_error AddressInUse = OperandFault"
| "memory_operand_error OutOfMemory = OperandFault"
| "memory_operand_error MemRegionTooLarge = OperandFault"
| "memory_operand_error (Host e) = OperandFault"

definition read_memory_operand ::
  "guest_memory \<times> host \<Rightarrow> u64 \<Rightarrow> nat \<Rightarrow> (u8 list, operand_error) result" where
  "read_memory_operand s address n =
     map_err memory_operand_error (read_guest (fst s) (snd s) (unat address) n)"

definition write_memory_operand ::
  "guest_memory \<times> host \<Rightarrow> u64 \<Rightarrow> u8 list \<Rightarrow> (unit, operand_error) result \<times> guest_memory \<times> host" where
  "write_memory_operand s address bytes =
     (let (r, s') = write_guest (unat address) bytes s in (map_err memory_operand_error r, s'))"

definition guest_access :: "(guest_memory \<times> host) operand_access" where
  "guest_access = \<lparr>oa_read = read_memory_operand, oa_write = write_memory_operand\<rparr>"

lemma guest_access_fields [simp]:
  "oa_read guest_access = read_memory_operand" "oa_write guest_access = write_memory_operand"
  by (simp_all add: guest_access_def)

lemma write_guest_high: "2 ^ 64 \<le> a + length bs \<Longrightarrow> write_guest a bs s = (Err InvalidLength, s)"
  by (simp add: write_guest_def checked_raw_range_def nat_checked_add_def ok_or_def st_bind_def st_lift_def)

lemma read_guest_high: "2 ^ 64 \<le> a + n \<Longrightarrow> read_guest m h a n = Err InvalidLength"
  by (simp add: read_guest_def copy_guest_def checked_raw_range_def nat_checked_add_def ok_or_def)

lemma read_view_no_panic: "read_view V access a b \<noteq> Panic"
  by (auto simp: read_view_def split: option.splits)

interpretation guest: operand_memory "mem_ok ext" guest_access for ext
proof (unfold_locales, goal_cases)
  case (1 m a n)
  show ?case
    using read_guest_look [OF 1, of "unat a" n] read_guest_high [of "unat a" n "fst m" "snd m"] read_view_no_panic
    by (cases "unat a + n < 2 ^ 64") (simp_all add: read_memory_operand_def result_simps)
next
  case (2 m a bs)
  show ?case
  proof (cases "unat a + length bs < 2 ^ 64")
    case True
    show ?thesis
      using gm.store_look [OF 2 True]
      by (auto simp: write_memory_operand_def st_post_def result_simps split: prod.splits result.splits)
  next
    case False
    then show ?thesis using 2 write_guest_high [of "unat a" bs m] by (simp add: write_memory_operand_def)
  qed
next
  case (3 m a bs m' old)
  have w: "write_guest (unat a) bs m = (Ok (), m')"
    using 3(2) by (auto simp: write_memory_operand_def result_simps split: prod.splits)
  then have small: "unat a + length bs < 2 ^ 64" using write_guest_high [of "unat a" bs m] by force
  have "\<forall>x. unat a \<le> x \<and> x < unat a + length bs \<longrightarrow> fault (view m) Read x = None"
    using 3(3) small unfolding guest_access_fields read_memory_operand_def map_err_Ok gm.fetch_look [OF 3(1) small]
    by (simp add: read_view_Ok)
  from gm.fetch_stored [OF 3(1) small this] w show ?case
    by (simp add: st_post_def read_memory_operand_def)
qed

section \<open>Calls and returns\<close>

context operand_memory
begin

lemma write_word_Ok:
  assumes "good (m_memory s)" "write_memory_u64 oa rip a v s = (Ok (), s1)" "oa_read oa (m_memory s) a 8 = Ok old"
  shows "m_registers s1 = m_registers s" "oa_read oa (m_memory s1) a 8 = Ok (u64_to_le_bytes v)"
proof -
  obtain m where w: "oa_write oa (m_memory s) a (u64_to_le_bytes v) = (Ok (), m)" "s1 = s\<lparr>m_memory := m\<rparr>"
    using assms(2) by (auto simp: write_memory_u64_def write_memory_bytes_def result_simps Let_def split: prod.splits)
  then show "m_registers s1 = m_registers s" by simp
  show "oa_read oa (m_memory s1) a 8 = Ok (u64_to_le_bytes v)"
    using write_read [OF assms(1) w(1)] assms(3) w(2) by simp
qed

lemma read_word_Ok:
  "oa_read oa (m_memory s) a 8 = Ok (u64_to_le_bytes v) \<Longrightarrow> read_memory_u64 oa rip a s = (Ok v, s)"
  by (simp add: read_memory_u64_def read_memory_bytes_def st_bind_def st_ok_def)

lemma call_then_return:
  assumes "good (m_memory s)" "i_code i = Code CallOp Rel32_64"
    and call: "flow_target oa block tm Call i s = (Ok (Some target), s1)"
    and stack: "oa_read oa (m_memory s) (r_rsp (m_registers s) - 8) 8 = Ok old"
    and j: "i_code j = Code Retnq No_operand"
    and s2: "m_memory s2 = m_memory s1" "r_rsp (m_registers s2) = r_rsp (m_registers s1)"
    and ret: "block_offset block (i_next_ip i) = Ok k"
  shows "\<exists>s3. flow_target oa block tm' Return j s2 = (Ok (Some (i_next_ip i)), s3) \<and>
    r_rsp (m_registers s3) = r_rsp (m_registers s) \<and> m_memory s3 = m_memory s1"
proof -
  obtain w where w: "write_memory_u64 oa (i_ip i) (r_rsp (m_registers s) - 8) (i_next_ip i) s = (Ok (), w)"
    and s1: "s1 = w\<lparr>m_registers := (m_registers w)\<lparr>r_rsp := r_rsp (m_registers s) - 8\<rparr>\<rparr>"
    using call assms(2)
    by (auto simp: flow_target_def jump_within_def enter_call_def bind_Ok_iff st_ok_def of_registers_def
        on_registers_def st_lift_def)
  note written = write_word_Ok [OF assms(1) w stack]
  have "read_memory_u64 oa (i_ip j) (r_rsp (m_registers s2)) s2 = (Ok (i_next_ip i), s2)"
    by (rule read_word_Ok) (use s1 s2 written in simp)
  then show ?thesis
    using j ret s2 s1
    by (simp add: flow_target_def jump_within_def st_bind_def st_lift_def of_registers_def on_registers_def st_ok_def)
qed

end

text \<open>C1. A call stores its return address below the stack pointer and a return takes it from there: when the
  callee leaves the memory and the stack pointer as the call left them, the return goes to the instruction
  behind the call and restores the stack pointer.  The memory is the guest's address space.\<close>

theorem call_return_matches:
  assumes "mem_ok ext (m_memory s)" "i_code i = Code CallOp Rel32_64"
    and "flow_target guest_access block tm Call i s = (Ok (Some target), s1)"
    and "\<forall>x. unat (r_rsp (m_registers s) - 8) \<le> x \<and> x < unat (r_rsp (m_registers s) - 8) + 8 \<longrightarrow>
      fault (view (m_memory s)) Read x = None" "unat (r_rsp (m_registers s) - 8) + 8 < 2 ^ 64"
    and "i_code j = Code Retnq No_operand"
    and "m_memory s2 = m_memory s1" "r_rsp (m_registers s2) = r_rsp (m_registers s1)"
    and "block_offset block (i_next_ip i) = Ok k"
  shows "\<exists>s3. flow_target guest_access block tm' Return j s2 = (Ok (Some (i_next_ip i)), s3) \<and>
    r_rsp (m_registers s3) = r_rsp (m_registers s) \<and> m_memory s3 = m_memory s1"
proof -
  let ?a = "r_rsp (m_registers s) - 8"
  have "read_guest (fst (m_memory s)) (snd (m_memory s)) (unat ?a) 8 =
      Ok (map (\<lambda>x. fst (the (view (m_memory s) x))) [unat ?a..<unat ?a + 8])"
    unfolding gm.fetch_look [OF assms(1,5)] using assms(4) by (simp add: read_view_Ok)
  then have "oa_read guest_access (m_memory s) ?a 8 =
      Ok (map (\<lambda>x. fst (the (view (m_memory s) x))) [unat ?a..<unat ?a + 8])"
    by (simp add: read_memory_operand_def)
  from guest.call_then_return [OF assms(1-3) this assms(6-9)] show ?thesis .
qed

section \<open>A concrete call\<close>

text \<open>An address space with one page whose host address is the guest address.\<close>

definition fixed_page :: "guest_memory \<times> host" where
  "fixed_page = ((fst one_page)\<lparr>gm_host_address_mode := FixedGuest\<rparr>, snd one_page)"

lemma single_entry: "bt_entries (bt_insert (a::nat) v bt_empty) = [(a, v)]"
  by (simp add: bt_simps)

lemma fixed_page_vma:
  "vma_containing (gm_vmas (fst fixed_page)) 0x20008 =
     Some (new_vma 0x20000 0x21000 (protection_new True True False) Anonymous 1 0)"
  by (simp add: vma_containing_def one_page_def fixed_page_def single_entry v_contains_def new_vma_def last_opt_def)

lemma fixed_page_ids: "overlapping_allocation_ids (fst fixed_page) 0x20000 0x21000 = [1]"
proof -
  let ?v = "new_vma 0x20000 0x21000 (protection_new True True False) Anonymous 1 0"
  have "{v \<in> set (bt_values (gm_vmas (fst fixed_page))). v_start v < 0x21000 \<and> 0x20000 < v_end v} = {?v}"
    by (auto simp: fixed_page_def one_page_def bt_values_def single_entry) (simp_all add: new_vma_def)
  then show ?thesis unfolding overlapping_allocation_ids_def by (simp add: new_vma_def)
qed

lemma fixed_page_unique: "ensure_allocation_unique 1 fixed_page = (Ok (), fixed_page)"
  by (simp add: ensure_allocation_unique_def fixed_page_def one_page_def bt_get_insert arc_count_def)

lemma fixed_page_range_unique: "ensure_guest_page_range_unique 0x20008 0x20010 fixed_page = (Ok (), fixed_page)"
proof -
  have m: "gm_host_address_mode (fst fixed_page) = FixedGuest" by (simp add: fixed_page_def)
  show ?thesis
    using fixed_page_unique fixed_page_ids m
    by (simp add: ensure_guest_page_range_unique_def ensure_guest_range_unique_def st_bind_def st_lift_def align_up_to_def
        nat_checked_add_def ok_or_def align_down_to_def layout_consts st_ok_def)
qed

lemma fixed_page_store: "length bs = 8 \<Longrightarrow> \<exists>s'. allocation_memory_write (Suc 0) 8 16 bs fixed_page = (Ok (), s')"
  using fixed_page_unique
  by (simp add: allocation_memory_write_def allocation_memory_mut_def st_bind_def)
    (simp add: fixed_page_def one_page_def bt_get_insert arc_count_def on_host_def write_object_def
      on_object_def write_slice_def quiet_host_def)

lemma fixed_page_write: "length bs = 8 \<Longrightarrow> \<exists>s'. write_guest 0x20008 bs fixed_page = (Ok (), s')"
proof -
  assume l: "length bs = 8"
  obtain s' where s': "allocation_memory_write (Suc 0) 8 16 bs fixed_page = (Ok (), s')"
    using fixed_page_store [OF l] by blast
  have "write_chunk 0x20008 0x20010 bs 0 fixed_page = (Ok (8, False), s')"
    using l s' by (simp add: write_chunk_def fixed_page_vma access_check_def st_bind_def st_lift_def new_vma_def
        protection_new_def fixed_page_range_unique store_chunk_def slice_def st_ok_def)
  then have "write_guest_loop 0x20008 0x20010 bs 0 False fixed_page = (Ok False, s')"
    by (simp add: write_guest_loop.simps)
  then show ?thesis
    using l by (simp add: write_guest_def checked_raw_range_def nat_checked_add_def ok_or_def st_bind_def st_lift_def st_ok_def)
qed

lemma fixed_page_ok: "mem_ok (\<lambda>_. 0) fixed_page"
  by (simp add: mem_ok_def map_ok_def refs_ok_def host_ok_def holds_def quiet_host_def blank_layout_def one_page_def
      fixed_page_def aligned_vmas_def alloc_at_def arc_count_def arc_bytes_def layout_consts bt_get_insert vmas_ok_def
      backed_def new_vma_def)

lemma fixed_page_view: "view fixed_page = view one_page"
proof -
  have "alloc_at (fst fixed_page) (snd fixed_page) = alloc_at (fst one_page) (snd one_page)"
    by (simp add: fixed_page_def alloc_at_def fun_eq_iff)
  then show ?thesis by (simp add: view_def) (simp add: fixed_page_def)
qed

text \<open>A call at \<open>0x1000\<close> with the stack pointer at \<open>0x20010\<close>, and a return.\<close>

definition demo_call :: instruction where
  "demo_call = (blank_instruction 0x1000 5)\<lparr>i_code := Code CallOp Rel32_64, i_flow_control := Flow_Call,
     i_op_kind := (\<lambda>_. NearBranch64), i_near_branch_target := 0x1005\<rparr>"

definition demo_return :: instruction where
  "demo_return = (blank_instruction 0x1005 1)\<lparr>i_code := Code Retnq No_operand, i_flow_control := Flow_Return\<rparr>"

definition demo_calls :: guest_block where
  "demo_calls = \<lparr>gb_bytes = [0xe8, 0, 0, 0, 0, 0xc3], gb_rip = 0x1000\<rparr>"

definition demo_machine :: "(guest_memory \<times> host) machine" where
  "demo_machine = start_machine (zero_registers\<lparr>r_rip := 0x1000, r_rsp := 0x20010\<rparr>) fixed_page"

theorem call_return_matches_witness:
  "\<exists>s1 s3. flow_target guest_access demo_calls EndOfBytes Call demo_call demo_machine = (Ok (Some 0x1005), s1) \<and>
     flow_target guest_access demo_calls EndOfBytes Return demo_return s1 = (Ok (Some 0x1005), s3) \<and>
     r_rsp (m_registers s3) = 0x20010"
proof -
  obtain m where w: "write_guest 0x20008 (u64_to_le_bytes 0x1005) fixed_page = (Ok (), m)"
    using fixed_page_write [of "u64_to_le_bytes 0x1005"] by auto
  obtain s1 where call: "flow_target guest_access demo_calls EndOfBytes Call demo_call demo_machine = (Ok (Some 0x1005), s1)"
    using w by (auto simp: flow_target_def demo_call_def demo_calls_def demo_machine_def start_machine_def blank_instruction_def
        zero_registers_def jump_within_def block_offset_def checked_sub_def enter_call_def st_bind_def st_lift_def st_ok_def
        of_registers_def on_registers_def write_memory_u64_def write_memory_bytes_def write_memory_operand_def)
  have "fault (view (m_memory demo_machine)) Read x = None" if "0x20008 \<le> x" "x < 0x20010" for x
    using one_page_access [of x Read] that by (simp add: demo_machine_def start_machine_def fixed_page_view)
  then show ?thesis
    using call call_return_matches [where s = demo_machine and i = demo_call and block = demo_calls and j = demo_return
        and ext = "\<lambda>_. 0" and ?s1.0 = s1 and ?s2.0 = s1 and tm = EndOfBytes and target = "0x1005" and k = 5 and tm' = EndOfBytes]
      fixed_page_ok
    by (auto simp: demo_machine_def start_machine_def demo_call_def demo_return_def blank_instruction_def demo_calls_def
        block_offset_def checked_sub_def zero_registers_def)
qed

section \<open>Safety\<close>

text \<open>C36. Running a block on guest memory never panics, whatever the block holds, and keeps the invariant of
  the address space; \<open>rflags\<close> and the base of \<open>fs\<close> of a trap are those the run was started with.\<close>

theorem guest_execution_safe:
  assumes "mem_ok ext s" "decoder_ok dec" "fits_space block"
    and "execute_to_syscall_trap_with_memory dec guest_access block rs s = (r, s')"
  shows "r \<noteq> Panic \<and> mem_ok ext s' \<and>
    (\<forall>trap. r = Ok trap \<longrightarrow> r_rflags (trap_registers trap) = r_rflags rs \<and> r_fs_base (trap_registers trap) = r_fs_base rs)"
proof -
  let ?s = "start_machine rs s"
  obtain s1 where t: "trap_loop MAX_CONTROL_FLOW_STEPS dec guest_access block (machine_rip ?s) ?s = (r, s1)"
    and s1: "m_memory s1 = s'"
    using assms(4) by (auto simp: execute_to_syscall_trap_with_memory_def start_machine_def split: prod.splits)
  have "tame (mem_ok ext) (trap_loop MAX_CONTROL_FLOW_STEPS dec guest_access block (machine_rip ?s))"
    by (rule guest.tame_trap_loop [OF assms(2,3)])
  then have "r \<noteq> Panic \<and> mem_ok ext (m_memory s1) \<and> r_rflags (m_registers s1) = r_rflags rs \<and>
      r_fs_base (m_registers s1) = r_fs_base rs"
    using t assms(1) unfolding tame_def by (metis start_machine_def machine.select_convs(1,3) fst_conv snd_conv)
  moreover have "m_registers s1 = trap_registers trap" if "r = Ok trap" for trap
    using trap_loop_steps [OF assms(2,3)] t that by blast
  ultimately show ?thesis using s1 by metis
qed

theorem guest_execution_safe_witness:
  "\<exists>r s'. execute_to_syscall_trap_with_memory tiny_decoder guest_access tiny_block tiny_registers one_page = (r, s') \<and>
     r \<noteq> Panic \<and> mem_ok (\<lambda>_. 0) s'"
proof -
  obtain r s' where e: "execute_to_syscall_trap_with_memory tiny_decoder guest_access tiny_block tiny_registers one_page = (r, s')"
    by (metis surj_pair)
  from guest_execution_safe [OF one_page_ok tiny_decoder_ok tiny_fits e] e show ?thesis by blast
qed

section \<open>Entering the kernel\<close>

interpretation rejecting: operand_memory "\<lambda>_. True" rejecting_access
  by unfold_locales (simp_all add: rejecting_access_def)

lemma trap_site_room:
  assumes "decoder_ok dec" "syscall_encoding dec" "fits_space block" "at_syscall dec block s site"
  shows "unat (site_rip site) + 2 < 2 ^ 64"
proof -
  obtain i where i: "fetched dec block s i" "i_mnemonic i = Syscall" "site_rip site = machine_rip s"
    using assms(4) by (auto simp: at_syscall_def)
  obtain k where p: "placed_in dec (gb_bytes block) (gb_rip block) k i" and v: "\<not> i_is_invalid i" "i_ip i = machine_rip s"
    using fetchedD [OF assms(1) i(1)] by blast
  obtain q where "k \<le> q" "Suc q < length (gb_bytes block)" using syscall_pair [OF assms(2) p v(1) i(2)] by blast
  then show ?thesis
    using placed_addresses(1) [OF assms(3) p] v(2) i(3) assms(3) by (simp add: fits_space_def)
qed

text \<open>C37. A block that ends in a system call enters the kernel once, with the registers of the trap; the value
  of the kernel arrives in \<open>rax\<close>, \<open>rcx\<close> and \<open>rip\<close> hold the address behind the instruction, \<open>r11\<close> holds the
  flags the run was started with, and every other register is as it was at the trap.\<close>

theorem syscall_round:
  assumes "decoder_ok dec" "syscall_encoding dec" "fits_space block"
    and trap: "execute_to_syscall_trap dec block rs = Ok trap"
    and disp: "disp (tc_dispatcher t) (tc_pid t, tc_tid t, get_syscall_registers (trap_registers trap)) = (rax, d)"
  shows "execute_until_syscall dec disp block rs t =
    (Ok (trap_decoded trap,
         (trap_registers trap)\<lparr>r_rax := rax, r_rcx := site_next_rip (trap_site trap), r_r11 := r_rflags rs,
            r_rip := site_next_rip (trap_site trap)\<rparr>),
     t\<lparr>tc_dispatcher := d\<rparr>)"
proof -
  let ?s = "start_machine rs ()"
  obtain s1 where l: "trap_loop MAX_CONTROL_FLOW_STEPS dec rejecting_access block (machine_rip ?s) ?s = (Ok trap, s1)"
    using trap by (auto simp: execute_to_syscall_trap_def execute_to_syscall_trap_with_memory_def start_machine_def
        split: prod.splits)
  have at: "at_syscall dec block s1 (trap_site trap)" "m_registers s1 = trap_registers trap"
    using trap_loop_steps [OF assms(1,3) l] by auto
  have "tame (\<lambda>_. True) (trap_loop MAX_CONTROL_FLOW_STEPS dec rejecting_access block (machine_rip ?s))"
    by (rule rejecting.tame_trap_loop [OF assms(1,3)])
  then have f: "r_rflags (trap_registers trap) = r_rflags rs"
    using l at(2) unfolding tame_def by (metis start_machine_def machine.select_convs(1) snd_conv)
  have "site_rip (trap_site trap) = r_rip (trap_registers trap)" using at by (auto simp: at_syscall_def)
  then have "checked_add (r_rip (trap_registers trap)) 2 \<noteq> None"
    using trap_site_room [OF assms(1-3) at(1)] by (simp add: checked_simps)
  then obtain x where "checked_add (r_rip (trap_registers trap)) 2 = Some x" by blast
  then show ?thesis
    using trap disp f
    by (simp add: execute_until_syscall_def enter_syscall_def dispatch_syscall_def u64_add_def get_syscall_registers_def
        apply_syscall_return_def)
qed

theorem syscall_round_witness:
  "\<exists>b. execute_until_syscall tiny_decoder (\<lambda>d _. (42, Suc d)) tiny_block tiny_registers
       \<lparr>tc_pid = 1, tc_tid = 1, tc_dispatcher = 0\<rparr> =
     (Ok (b, tiny_registers\<lparr>r_rax := 42, r_rcx := 0x1006, r_r11 := 0, r_rip := 0x1006\<rparr>),
      \<lparr>tc_pid = 1, tc_tid = 1, tc_dispatcher = 1\<rparr>)"
proof -
  obtain trap s1 where l: "trap_loop MAX_CONTROL_FLOW_STEPS tiny_decoder rejecting_access tiny_block
      (machine_rip (start_machine tiny_registers ())) (start_machine tiny_registers ()) = (Ok trap, s1)"
    and t: "trap_site trap = \<lparr>site_rip = 0x1004, site_next_rip = 0x1006\<rparr>"
    and s1: "s1 = with_rip 0x1004 (start_machine tiny_registers ())"
    using trap_loop_complete [OF tiny_decoder_ok tiny_fits tiny_run tiny_at_syscall, of MAX_CONTROL_FLOW_STEPS]
    by (auto simp: MAX_CONTROL_FLOW_STEPS_def)
  have r: "trap_registers trap = tiny_registers\<lparr>r_rip := 0x1004\<rparr>"
    using trap_loop_steps [OF tiny_decoder_ok tiny_fits l] s1 by (simp add: with_rip_def start_machine_def)
  have e: "execute_to_syscall_trap tiny_decoder tiny_block tiny_registers = Ok trap"
    using l by (simp add: execute_to_syscall_trap_def execute_to_syscall_trap_with_memory_def start_machine_def)
  show ?thesis
    using syscall_round [OF tiny_decoder_ok tiny_encoding tiny_fits e,
        of "\<lambda>d _. (42, Suc d)" "\<lparr>tc_pid = 1, tc_tid = 1, tc_dispatcher = 0\<rparr>"] r t
    by (simp add: tiny_registers_def zero_registers_def)
qed

end
