(* ===== verification/Jit_Patch.thy ===== *)
theory Jit_Patch
  imports Jit_Steps Elf_Image Btree
begin

text \<open>
  Native patches (\<open>mcr-jit/src/native_patch.rs\<close>): which instructions of an executable range are replaced
  before it runs natively, the cache of what was found, and the file format that stores it.  The Windows
  build is modelled, where instructions that access memory relative to \<open>fs\<close> are rewritten.  A byte array
  \<open>[u8; N]\<close> is a list; the messages of the errors are constructors.  Reading and writing the cache
  directory is left out.
\<close>

section \<open>Data\<close>

record executable_syscall_patch =
  xp_address :: u64

record fs_relative_patch =
  fp_original :: "u8 list"

record fs_relative_patch_site =
  fps_address :: u64
  fps_patch :: fs_relative_patch
  fps_materialized :: bool

record fs_relative_trap =
  ft_original :: "u8 list"
  ft_len :: u8

record fs_relative_trap_site =
  fts_address :: u64
  fts_trap :: fs_relative_trap

record executable_native_patches =
  np_scanned_ranges :: "(u64 \<times> u64) list"
  np_syscall_patches :: "executable_syscall_patch list"
  np_fs_relative_patches :: "fs_relative_patch_site list"
  np_fs_relative_traps :: "fs_relative_trap_site list"

datatype fs_relative_patch_work = NoWork | NewWork | AllWork

record native_image_patch_key =
  pk_hash :: u64
  pk_executable_len :: u64

record native_patch_metadata =
  md_scanned_ranges :: "(u64 \<times> u64) list"
  md_syscall_patches :: "executable_syscall_patch list"
  md_fs_relative_patches :: "(u64, fs_relative_patch) btree_map"
  md_fs_relative_traps :: "(u64, fs_relative_trap) btree_map"

record native_image_patch_ranges =
  pr_base :: u64
  pr_ranges :: "(u64 \<times> u64) list"

record native_patch_cache =
  pc_fs_base :: u64
  pc_scanned_ranges :: "(u64 \<times> u64) list"
  pc_executable_write_generation :: u64
  pc_image_metadata_checked :: bool
  pc_image_metadata_eligible :: bool
  pc_fs_relative_patches :: "(u64, fs_relative_patch) btree_map"
  pc_fs_relative_traps :: "(u64, fs_relative_trap) btree_map"

text \<open>\<open>FsRelativeTrap::new\<close> pads the bytes to fifteen.\<close>

definition fs_relative_trap_new :: "u8 list \<Rightarrow> fs_relative_trap option" where
  "fs_relative_trap_new bytes =
     (if bytes = [] \<or> length bytes > 15 then None
      else Some \<lparr>ft_original = bytes @ replicate (15 - length bytes) 0, ft_len = of_nat (length bytes)\<rparr>)"

definition original_bytes :: "fs_relative_trap \<Rightarrow> u8 list" where
  "original_bytes t = take (unat (ft_len t)) (ft_original t)"

definition patch_cache_default :: native_patch_cache where
  "patch_cache_default =
     \<lparr>pc_fs_base = 0, pc_scanned_ranges = [], pc_executable_write_generation = 0,
      pc_image_metadata_checked = False, pc_image_metadata_eligible = True,
      pc_fs_relative_patches = bt_empty, pc_fs_relative_traps = bt_empty\<rparr>"

section \<open>Ranges\<close>

definition range_is_covered :: "u64 \<Rightarrow> u64 \<Rightarrow> (u64 \<times> u64) list \<Rightarrow> bool" where
  "range_is_covered start end ranges \<longleftrightarrow> (\<exists>(s, e) \<in> set ranges. start \<ge> s \<and> end \<le> e)"

definition address_in_ranges :: "u64 \<Rightarrow> (u64 \<times> u64) list \<Rightarrow> bool" where
  "address_in_ranges address ranges \<longleftrightarrow> (\<exists>(s, e) \<in> set ranges. s \<le> address \<and> address < e)"

definition ranges_overlap :: "u64 \<Rightarrow> u64 \<Rightarrow> u64 \<Rightarrow> u64 \<Rightarrow> bool" where
  "ranges_overlap left_start left_end right_start right_end \<longleftrightarrow> left_start < right_end \<and> right_start < left_end"

section \<open>The cache of a process\<close>

definition cache_invalidate :: "native_patch_cache \<Rightarrow> native_patch_cache" where
  "cache_invalidate c =
     c\<lparr>pc_scanned_ranges := [], pc_image_metadata_eligible := False,
       pc_fs_relative_patches := bt_empty, pc_fs_relative_traps := bt_empty\<rparr>"

definition invalidate_range :: "u64 \<Rightarrow> u64 \<Rightarrow> native_patch_cache \<Rightarrow> native_patch_cache" where
  "invalidate_range start end c =
     (if \<not> (\<exists>(s, e) \<in> set (pc_scanned_ranges c). ranges_overlap start end s e) then c
      else
        c\<lparr>pc_image_metadata_eligible := False,
          pc_scanned_ranges := filter (\<lambda>(s, e). \<not> ranges_overlap start end s e) (pc_scanned_ranges c),
          pc_fs_relative_patches := bt_retain (\<lambda>a _. \<not> (a \<ge> start \<and> a < end)) (pc_fs_relative_patches c),
          pc_fs_relative_traps := bt_retain (\<lambda>a _. \<not> (a \<ge> start \<and> a < end)) (pc_fs_relative_traps c)\<rparr>)"

fun merge_ranges :: "(u64 \<times> u64) list \<Rightarrow> (u64 \<times> u64) list \<Rightarrow> (u64 \<times> u64) list" where
  "merge_ranges [] ranges = ranges"
| "merge_ranges ((s, e) # new) ranges =
     merge_ranges new (if range_is_covered s e ranges then ranges else ranges @ [(s, e)])"

text \<open>\<open>entry(address).or_insert(..)\<close> for every entry.\<close>

definition or_insert_all :: "('k::linorder \<times> 'v) list \<Rightarrow> ('k, 'v) btree_map \<Rightarrow> ('k, 'v) btree_map" where
  "or_insert_all new m = fold (\<lambda>(k, v) m. if bt_contains m k then m else bt_insert k v m) new m"

definition merge_metadata :: "native_patch_metadata \<Rightarrow> native_patch_cache \<Rightarrow> bool \<times> native_patch_cache" where
  "merge_metadata md c =
     (\<exists>(k, _) \<in> set (bt_entries (md_fs_relative_patches md)). \<not> bt_contains (pc_fs_relative_patches c) k,
      c\<lparr>pc_scanned_ranges := merge_ranges (md_scanned_ranges md) (pc_scanned_ranges c),
        pc_fs_relative_patches := or_insert_all (bt_entries (md_fs_relative_patches md)) (pc_fs_relative_patches c),
        pc_fs_relative_traps := or_insert_all (bt_entries (md_fs_relative_traps md)) (pc_fs_relative_traps c)\<rparr>)"

section \<open>Keys\<close>

definition FNV64_OFFSET :: u64 where "FNV64_OFFSET = 0xcbf29ce484222325"
definition FNV64_PRIME :: u64 where "FNV64_PRIME = 0x00000100000001b3"

definition hash_u8 :: "u8 \<Rightarrow> u64 \<Rightarrow> u64" where
  "hash_u8 v hash = (hash XOR ucast v) * FNV64_PRIME"

definition hash_bytes :: "u8 list \<Rightarrow> u64 \<Rightarrow> u64" where
  "hash_bytes bytes hash = fold hash_u8 bytes hash"

definition hash_u64 :: "u64 \<Rightarrow> u64 \<Rightarrow> u64" where
  "hash_u64 v hash = hash_bytes (u64_to_le_bytes v) hash"

definition hash_bool :: "bool \<Rightarrow> u64 \<Rightarrow> u64" where
  "hash_bool b hash = hash_u8 (of_bool b) hash"

record native_patch_protection =
  npp_read :: bool
  npp_write :: bool
  npp_execute :: bool

definition native_executable_range_patch_key_from_bytes ::
  "u64 \<Rightarrow> native_patch_protection \<Rightarrow> u8 list \<Rightarrow> native_image_patch_key" where
  "native_executable_range_patch_key_from_bytes len p bytes =
     (let hash = hash_bytes bytes (hash_bool (npp_execute p) (hash_bool (npp_write p) (hash_bool (npp_read p)
                   (hash_u64 len (hash_u64 0 FNV64_OFFSET)))))
      in \<lparr>pk_hash = hash, pk_executable_len = len\<rparr>)"

text \<open>The loop over the executable areas; \<open>None\<close> is the early return of \<open>?\<close>.\<close>

fun image_key_loop ::
  "guest_memory_image \<Rightarrow> u64 \<Rightarrow> guest_vma list \<Rightarrow> u64 \<times> u64 \<times> (u64 \<times> u64) list \<Rightarrow>
   ((u64 \<times> u64 \<times> (u64 \<times> u64) list) option, 'e) result" where
  "image_key_loop img base [] acc = Ok (Some acc)"
| "image_key_loop img base (vma # vmas) (hash, executable_len, ranges) =
     (case checked_sub (gv_end vma) (gv_start vma) of
        None \<Rightarrow> Ok None
      | Some len \<Rightarrow>
          and_then (image_read img (gv_start vma) (unat len)) (\<lambda>read.
            case (read, checked_sub (gv_start vma) base, checked_sub (gv_end vma) base, checked_add executable_len len) of
              (Some bytes, Some s, Some e, Some grown) \<Rightarrow>
                image_key_loop img base vmas
                  (hash_bytes bytes (hash_bool (perm_execute (gv_permissions vma))
                     (hash_bool (perm_write (gv_permissions vma)) (hash_bool (perm_read (gv_permissions vma))
                     (hash_u64 e (hash_u64 s hash))))),
                   grown, ranges @ [(gv_start vma, gv_end vma)])
            | _ \<Rightarrow> Ok None))"

definition native_image_patch_key_and_ranges ::
  "guest_memory_image \<Rightarrow> ((native_image_patch_key \<times> native_image_patch_ranges) option, 'e) result" where
  "native_image_patch_key_and_ranges img =
     (let executable = filter (\<lambda>vma. perm_execute (gv_permissions vma)) (gi_vmas img)
      in case executable of
           [] \<Rightarrow> Ok None
         | first # _ \<Rightarrow>
             and_then (image_key_loop img (gv_start first) executable (FNV64_OFFSET, 0, [])) (\<lambda>r.
               case r of
                 None \<Rightarrow> Ok None
               | Some (hash, executable_len, ranges) \<Rightarrow>
                   if executable_len = 0 then Ok None
                   else Ok (Some (\<lparr>pk_hash = hash, pk_executable_len = executable_len\<rparr>,
                                  \<lparr>pr_base = gv_start first, pr_ranges = ranges\<rparr>))))"

section \<open>The file format\<close>

datatype cache_error =
    AddressPrecedesBase | AddressOverflowsBase | InvalidMagic | UnsupportedVersion | KeyMismatch
  | TrapLengthOverflow | InvalidTrapLength | CacheOffsetOverflow | TruncatedCache | TrailingBytes

type_synonym 'a cache_result = "('a, cache_error) result"

definition NATIVE_PATCH_CACHE_MAGIC :: "u8 list" where
  "NATIVE_PATCH_CACHE_MAGIC = [0x4d, 0x43, 0x52, 0x4e, 0x50, 0x43, 0x30, 0x31]"

definition NATIVE_PATCH_CACHE_VERSION :: u32 where "NATIVE_PATCH_CACHE_VERSION = 3"

definition cache_relative_offset :: "u64 \<Rightarrow> u64 \<Rightarrow> u64 cache_result" where
  "cache_relative_offset address base = ok_or (checked_sub address base) AddressPrecedesBase"

definition cache_absolute_address :: "u64 \<Rightarrow> u64 \<Rightarrow> u64 cache_result" where
  "cache_absolute_address offset base = ok_or (checked_add base offset) AddressOverflowsBase"

definition encode_each :: "('a \<Rightarrow> u8 list cache_result) \<Rightarrow> 'a list \<Rightarrow> u8 list cache_result" where
  "encode_each f xs = and_then (collect_results f xs) (\<lambda>parts. Ok (u32_to_le_bytes (of_nat (length xs)) @ concat parts))"

definition encode_offset :: "u64 \<Rightarrow> u64 \<Rightarrow> u8 list cache_result" where
  "encode_offset base address = and_then (cache_relative_offset address base) (\<lambda>o'. Ok (u64_to_le_bytes o'))"

definition encode_range :: "u64 \<Rightarrow> u64 \<times> u64 \<Rightarrow> u8 list cache_result" where
  "encode_range base r =
     and_then (encode_offset base (fst r)) (\<lambda>a. and_then (encode_offset base (snd r)) (\<lambda>b. Ok (a @ b)))"

definition encode_patch :: "u64 \<Rightarrow> u64 \<times> fs_relative_patch \<Rightarrow> u8 list cache_result" where
  "encode_patch base e = and_then (encode_offset base (fst e)) (\<lambda>a. Ok (a @ fp_original (snd e)))"

definition encode_trap :: "u64 \<Rightarrow> u64 \<times> fs_relative_trap \<Rightarrow> u8 list cache_result" where
  "encode_trap base e =
     and_then (encode_offset base (fst e)) (\<lambda>a.
       Ok (a @ u32_to_le_bytes (ucast (ft_len (snd e))) @ ft_original (snd e)))"

definition encode_native_patch_metadata ::
  "native_image_patch_key \<Rightarrow> native_patch_metadata \<Rightarrow> u64 \<Rightarrow> u8 list cache_result" where
  "encode_native_patch_metadata key md base =
     and_then (encode_each (encode_range base) (md_scanned_ranges md)) (\<lambda>ranges.
     and_then (encode_each (\<lambda>p. encode_offset base (xp_address p)) (md_syscall_patches md)) (\<lambda>syscalls.
     and_then (encode_each (encode_patch base) (bt_entries (md_fs_relative_patches md))) (\<lambda>patches.
     and_then (encode_each (encode_trap base) (bt_entries (md_fs_relative_traps md))) (\<lambda>traps.
       Ok (NATIVE_PATCH_CACHE_MAGIC @ u32_to_le_bytes NATIVE_PATCH_CACHE_VERSION @ u64_to_le_bytes (pk_hash key) @
           u64_to_le_bytes (pk_executable_len key) @ ranges @ syscalls @ patches @ traps)))))"

record metadata_reader =
  mr_bytes :: "u8 list"
  mr_offset :: nat

type_synonym 'a reader_op = "(metadata_reader, 'a, cache_error) st"

definition cache_read_slice :: "nat \<Rightarrow> u8 list reader_op" where
  "cache_read_slice len r =
     (if 2 ^ 64 \<le> mr_offset r + len then (Err CacheOffsetOverflow, r)
      else if mr_offset r + len \<le> length (mr_bytes r)
      then (Ok (take len (drop (mr_offset r) (mr_bytes r))), r\<lparr>mr_offset := mr_offset r + len\<rparr>)
      else (Err TruncatedCache, r))"

text \<open>\<open>try_into().expect(..)\<close> on a slice whose length has to be \<open>n\<close>.\<close>

definition cache_read_array :: "nat \<Rightarrow> u8 list reader_op" where
  "cache_read_array n = st_bind (cache_read_slice n) (\<lambda>s. if length s = n then st_ok s else st_panic)"

definition cache_read_u32 :: "u32 reader_op" where
  "cache_read_u32 = st_bind (cache_read_array 4) (\<lambda>s. st_ok (u32_from_le_bytes s))"

definition cache_read_u64 :: "u64 reader_op" where
  "cache_read_u64 = st_bind (cache_read_array 8) (\<lambda>s. st_ok (u64_from_le_bytes s))"

definition expect_magic :: "u8 list \<Rightarrow> unit reader_op" where
  "expect_magic magic =
     st_bind (cache_read_slice (length magic)) (\<lambda>s. if s \<noteq> magic then st_err InvalidMagic else st_ok ())"

definition expect_eof :: "unit reader_op" where
  "expect_eof r = (if mr_offset r \<noteq> length (mr_bytes r) then (Err TrailingBytes, r) else (Ok (), r))"

fun read_repeated :: "nat \<Rightarrow> 'a reader_op \<Rightarrow> 'a list reader_op" where
  "read_repeated 0 m = st_ok []"
| "read_repeated (Suc n) m = st_bind m (\<lambda>x. st_bind (read_repeated n m) (\<lambda>xs. st_ok (x # xs)))"

text \<open>\<open>for _ in 0..reader.cache_read_u32()?\<close>.\<close>

definition read_counted :: "'a reader_op \<Rightarrow> 'a list reader_op" where
  "read_counted m = st_bind cache_read_u32 (\<lambda>n. read_repeated (unat n) m)"

definition read_address :: "u64 \<Rightarrow> u64 reader_op" where
  "read_address base = st_bind cache_read_u64 (\<lambda>o'. st_lift (cache_absolute_address o' base))"

definition read_range :: "u64 \<Rightarrow> (u64 \<times> u64) reader_op" where
  "read_range base = st_bind (read_address base) (\<lambda>s. st_bind (read_address base) (\<lambda>e. st_ok (s, e)))"

definition read_patch :: "u64 \<Rightarrow> (u64 \<times> fs_relative_patch) reader_op" where
  "read_patch base =
     st_bind (read_address base) (\<lambda>a. st_bind (cache_read_array 9) (\<lambda>o'. st_ok (a, \<lparr>fp_original = o'\<rparr>)))"

definition read_trap :: "u64 \<Rightarrow> (u64 \<times> fs_relative_trap) reader_op" where
  "read_trap base =
     st_bind (read_address base) (\<lambda>a.
     st_bind cache_read_u32 (\<lambda>len.
     st_bind (cache_read_array 15) (\<lambda>o'.
       if unat len \<ge> 256 then st_err TrapLengthOverflow
       else if len = 0 \<or> unat len > length o' then st_err InvalidTrapLength
       else st_ok (a, \<lparr>ft_original = o', ft_len = ucast len\<rparr>))))"

definition bt_collect :: "('k::linorder \<times> 'v) list \<Rightarrow> ('k, 'v) btree_map" where
  "bt_collect es = fold (\<lambda>(k, v). bt_insert k v) es bt_empty"

definition read_metadata :: "native_image_patch_key \<Rightarrow> u64 \<Rightarrow> native_patch_metadata reader_op" where
  "read_metadata key base =
     st_bind (expect_magic NATIVE_PATCH_CACHE_MAGIC) (\<lambda>_.
     st_bind cache_read_u32 (\<lambda>version.
     if version \<noteq> NATIVE_PATCH_CACHE_VERSION then st_err UnsupportedVersion
     else
       st_bind cache_read_u64 (\<lambda>hash.
       st_bind cache_read_u64 (\<lambda>executable_len.
       if \<lparr>pk_hash = hash, pk_executable_len = executable_len\<rparr> \<noteq> key then st_err KeyMismatch
       else
         st_bind (read_counted (read_range base)) (\<lambda>ranges.
         st_bind (read_counted (st_bind (read_address base) (\<lambda>a. st_ok \<lparr>xp_address = a\<rparr>))) (\<lambda>syscalls.
         st_bind (read_counted (read_patch base)) (\<lambda>patches.
         st_bind (read_counted (read_trap base)) (\<lambda>traps.
         st_bind expect_eof (\<lambda>_.
           st_ok \<lparr>md_scanned_ranges = ranges, md_syscall_patches = syscalls,
                  md_fs_relative_patches = bt_collect patches, md_fs_relative_traps = bt_collect traps\<rparr>)))))))))"

definition decode_native_patch_metadata ::
  "native_image_patch_key \<Rightarrow> u8 list \<Rightarrow> u64 \<Rightarrow> native_patch_metadata cache_result" where
  "decode_native_patch_metadata key bytes base = fst (read_metadata key base \<lparr>mr_bytes = bytes, mr_offset = 0\<rparr>)"

section \<open>Scanning a range\<close>

text \<open>\<open>bytes[..9]\<close> is read only after its length was checked.\<close>

definition fs_relative_original :: "u8 list \<Rightarrow> u8 list option" where
  "fs_relative_original bytes =
     (if length bytes < 9 \<or> bytes ! 0 \<noteq> 0x64 \<or> bytes ! 1 AND 0xf8 \<noteq> 0x48
         \<or> bytes ! 2 \<notin> {0x8b, 0x2b} \<or> bytes ! 3 AND 0xc7 \<noteq> 0x04 \<or> bytes ! 4 \<noteq> 0x25
      then None
      else Some (take 9 bytes))"

definition fs_relative_instruction_bytes :: "decoder \<Rightarrow> u8 list \<Rightarrow> bool" where
  "fs_relative_instruction_bytes dec bytes =
     (if bytes = [] then False
      else let i = dec bytes 0 in \<not> i_is_invalid i \<and> i_memory_segment i = FS)"

text \<open>The subtraction of \<open>i64\<close> panics when it leaves the type.\<close>

definition fs_relative_original_from_replacement :: "u8 list \<Rightarrow> u64 \<Rightarrow> (u8 list option, 'e) result" where
  "fs_relative_original_from_replacement bytes fs_base =
     (if fs_base = 0 \<or> length bytes < 9 \<or> bytes ! 0 AND 0xf8 \<noteq> 0x48 \<or> bytes ! 1 \<notin> {0x8b, 0x2b}
         \<or> bytes ! 2 AND 0xc7 \<noteq> 0x04 \<or> bytes ! 3 \<noteq> 0x25 \<or> bytes ! 8 \<noteq> 0x90
      then Ok None
      else
        let absolute = uint (u32_from_le_bytes (take 4 (drop 4 bytes)));
            displacement = absolute - sint fs_base
        in if displacement < - (2 ^ 63) \<or> 2 ^ 63 \<le> displacement then Panic
           else if displacement < - (2 ^ 31) \<or> 2 ^ 31 \<le> displacement then Ok None
           else Ok (Some ([0x64, bytes ! 0, bytes ! 1, bytes ! 2, bytes ! 3] @
                          u32_to_le_bytes (of_int displacement))))"

definition fs_relative_replacement :: "u8 list \<Rightarrow> u64 \<Rightarrow> u8 list option" where
  "fs_relative_replacement original fs_base =
     (if fs_base = 0 then None
      else
        let displacement = sint (u32_from_le_bytes (take 4 (drop 5 original)))
        in case (if displacement \<ge> 0 then checked_add fs_base (of_int displacement)
                 else checked_sub fs_base (of_int (- displacement))) of
             None \<Rightarrow> None
           | Some absolute \<Rightarrow>
               if absolute > 0x7fffffff then None
               else Some ([original ! 1, original ! 2, original ! 3, original ! 4] @
                          u32_to_le_bytes (ucast absolute) @ [0x90]))"

record fs_relative_sites =
  fss_patches :: "fs_relative_patch_site list"
  fss_traps :: "fs_relative_trap_site list"

text \<open>One turn of the loop; \<open>&bytes[offset..]\<close> panics beyond the end.\<close>

definition fs_relative_site ::
  "u8 list \<Rightarrow> u64 \<Rightarrow> u64 \<Rightarrow> instruction \<Rightarrow> fs_relative_sites \<Rightarrow> (fs_relative_sites, 'e) result" where
  "fs_relative_site bytes range_start previous_fs_base i acc =
     (if i_is_invalid i then Ok acc
      else case checked_sub (i_ip i) range_start of
        None \<Rightarrow> Ok acc
      | Some distance \<Rightarrow>
          let offset = unat distance in
          if offset > length bytes then Panic
          else case fs_relative_original (drop offset bytes) of
            Some original \<Rightarrow>
              Ok (acc\<lparr>fss_patches := fss_patches acc @
                [\<lparr>fps_address = i_ip i, fps_patch = \<lparr>fp_original = original\<rparr>, fps_materialized = False\<rparr>]\<rparr>)
          | None \<Rightarrow>
              and_then (if previous_fs_base = 0 then Ok None
                        else fs_relative_original_from_replacement (drop offset bytes) previous_fs_base) (\<lambda>found.
              case found of
                Some original \<Rightarrow>
                  Ok (acc\<lparr>fss_patches := fss_patches acc @
                    [\<lparr>fps_address = i_ip i, fps_patch = \<lparr>fp_original = original\<rparr>, fps_materialized = True\<rparr>]\<rparr>)
              | None \<Rightarrow>
                  if i_memory_segment i = FS \<and> offset + i_len i \<le> length bytes
                  then case fs_relative_trap_new (take (i_len i) (drop offset bytes)) of
                         None \<Rightarrow> Ok acc
                       | Some trap \<Rightarrow>
                           Ok (acc\<lparr>fss_traps := fss_traps acc @ [\<lparr>fts_address = i_ip i, fts_trap = trap\<rparr>]\<rparr>)
                  else Ok acc))"

fun fs_sites_loop ::
  "u8 list \<Rightarrow> u64 \<Rightarrow> u64 \<Rightarrow> instruction list \<Rightarrow> fs_relative_sites \<Rightarrow> (fs_relative_sites, 'e) result" where
  "fs_sites_loop bytes range_start previous_fs_base [] acc = Ok acc"
| "fs_sites_loop bytes range_start previous_fs_base (i # rest) acc =
     and_then (fs_relative_site bytes range_start previous_fs_base i acc)
       (fs_sites_loop bytes range_start previous_fs_base rest)"

definition find_fs_relative_sites ::
  "decoder \<Rightarrow> u8 list \<Rightarrow> u64 \<Rightarrow> u64 \<Rightarrow> (fs_relative_sites, 'e) result" where
  "find_fs_relative_sites dec bytes range_start previous_fs_base =
     fs_sites_loop bytes range_start previous_fs_base (decode_stream dec bytes range_start)
       \<lparr>fss_patches = [], fss_traps = []\<rparr>"

definition fs_relative_patch_sites ::
  "decoder \<Rightarrow> u8 list \<Rightarrow> u64 \<Rightarrow> u64 \<Rightarrow> (fs_relative_patch_site list, 'e) result" where
  "fs_relative_patch_sites dec bytes range_start previous_fs_base =
     and_then (find_fs_relative_sites dec bytes range_start previous_fs_base) (\<lambda>s. Ok (fss_patches s))"

definition fs_relative_trap_sites ::
  "decoder \<Rightarrow> u8 list \<Rightarrow> u64 \<Rightarrow> u64 \<Rightarrow> (fs_relative_trap_site list, 'e) result" where
  "fs_relative_trap_sites dec bytes range_start previous_fs_base =
     and_then (find_fs_relative_sites dec bytes range_start previous_fs_base) (\<lambda>s. Ok (fss_traps s))"

definition scan_executable_native_patch_range ::
  "decoder \<Rightarrow> u64 \<Rightarrow> u64 \<Rightarrow> u8 list \<Rightarrow> u64 \<Rightarrow> (executable_native_patches, 'e) result" where
  "scan_executable_native_patch_range dec start end bytes previous_fs_base =
     and_then (syscall_instruction_sites dec bytes start) (\<lambda>sites.
     and_then (find_fs_relative_sites dec bytes start previous_fs_base) (\<lambda>fs_sites.
       Ok \<lparr>np_scanned_ranges = [(start, end)],
           np_syscall_patches = map (\<lambda>site. \<lparr>xp_address = site_rip site\<rparr>) sites,
           np_fs_relative_patches = fss_patches fs_sites, np_fs_relative_traps = fss_traps fs_sites\<rparr>))"

definition merge_executable_native_patches ::
  "executable_native_patches \<Rightarrow> executable_native_patches \<Rightarrow> executable_native_patches" where
  "merge_executable_native_patches target r =
     target\<lparr>np_scanned_ranges := np_scanned_ranges target @ np_scanned_ranges r,
            np_syscall_patches := np_syscall_patches target @ np_syscall_patches r,
            np_fs_relative_patches := np_fs_relative_patches target @ np_fs_relative_patches r,
            np_fs_relative_traps := np_fs_relative_traps target @ np_fs_relative_traps r\<rparr>"

definition executable_syscall_patch_writes :: "executable_syscall_patch list \<Rightarrow> (u64 \<times> u8 list) list" where
  "executable_syscall_patch_writes patches = map (\<lambda>p. (xp_address p, [0xcc, 0x90])) patches"

definition fs_relative_patch_writes :: "u64 \<Rightarrow> (u64 \<times> fs_relative_patch) list \<Rightarrow> (u64 \<times> u8 list) list" where
  "fs_relative_patch_writes fs_base patches =
     map (\<lambda>(address, p). (address, case fs_relative_replacement (fp_original p) fs_base of
                                      Some r \<Rightarrow> r | None \<Rightarrow> fp_original p)) patches"

definition native_patch_metadata_from_patches :: "executable_native_patches \<Rightarrow> native_patch_metadata" where
  "native_patch_metadata_from_patches patches =
     \<lparr>md_scanned_ranges = np_scanned_ranges patches, md_syscall_patches = np_syscall_patches patches,
      md_fs_relative_patches =
        bt_collect (map (\<lambda>site. (fps_address site, fps_patch site)) (np_fs_relative_patches patches)),
      md_fs_relative_traps =
        bt_collect (map (\<lambda>site. (fts_address site, fts_trap site)) (np_fs_relative_traps patches))\<rparr>"

definition metadata_for_ranges :: "native_patch_metadata \<Rightarrow> (u64 \<times> u64) list \<Rightarrow> native_patch_metadata" where
  "metadata_for_ranges md ranges =
     \<lparr>md_scanned_ranges = filter (\<lambda>(s, e). range_is_covered s e ranges) (md_scanned_ranges md),
      md_syscall_patches = filter (\<lambda>p. address_in_ranges (xp_address p) ranges) (md_syscall_patches md),
      md_fs_relative_patches =
        bt_collect (filter (\<lambda>(a, _). address_in_ranges a ranges) (bt_entries (md_fs_relative_patches md))),
      md_fs_relative_traps =
        bt_collect (filter (\<lambda>(a, _). address_in_ranges a ranges) (bt_entries (md_fs_relative_traps md)))\<rparr>"

definition rebase_native_patch_address :: "u64 \<Rightarrow> u64 \<Rightarrow> u64 \<Rightarrow> u64 option" where
  "rebase_native_patch_address address source_base target_base =
     Option.bind (checked_sub address source_base) (checked_add target_base)"

text \<open>\<open>collect::<Option<_>>()\<close>: the first \<open>None\<close> ends it.\<close>

fun collect_options :: "('a \<Rightarrow> 'b option) \<Rightarrow> 'a list \<Rightarrow> 'b list option" where
  "collect_options f [] = Some []"
| "collect_options f (x # xs) =
     Option.bind (f x) (\<lambda>y. Option.bind (collect_options f xs) (\<lambda>ys. Some (y # ys)))"

definition rebase_range :: "u64 \<Rightarrow> u64 \<Rightarrow> u64 \<times> u64 \<Rightarrow> (u64 \<times> u64) option" where
  "rebase_range sb tb r =
     Option.bind (rebase_native_patch_address (fst r) sb tb) (\<lambda>s.
     Option.bind (rebase_native_patch_address (snd r) sb tb) (\<lambda>e. Some (s, e)))"

definition rebase_syscall_patch :: "u64 \<Rightarrow> u64 \<Rightarrow> executable_syscall_patch \<Rightarrow> executable_syscall_patch option" where
  "rebase_syscall_patch sb tb p =
     Option.bind (rebase_native_patch_address (xp_address p) sb tb) (\<lambda>a. Some \<lparr>xp_address = a\<rparr>)"

definition rebase_entry :: "u64 \<Rightarrow> u64 \<Rightarrow> u64 \<times> 'v \<Rightarrow> (u64 \<times> 'v) option" where
  "rebase_entry sb tb e =
     Option.bind (rebase_native_patch_address (fst e) sb tb) (\<lambda>a. Some (a, snd e))"

definition rebase_native_patch_metadata ::
  "native_patch_metadata \<Rightarrow> u64 \<Rightarrow> u64 \<Rightarrow> native_patch_metadata option" where
  "rebase_native_patch_metadata md sb tb =
     Option.bind (collect_options (rebase_range sb tb) (md_scanned_ranges md)) (\<lambda>ranges.
     Option.bind (collect_options (rebase_syscall_patch sb tb) (md_syscall_patches md)) (\<lambda>syscalls.
     Option.bind (collect_options (rebase_entry sb tb) (bt_entries (md_fs_relative_patches md))) (\<lambda>patches.
     Option.bind (collect_options (rebase_entry sb tb) (bt_entries (md_fs_relative_traps md))) (\<lambda>traps.
       Some \<lparr>md_scanned_ranges = ranges, md_syscall_patches = syscalls,
             md_fs_relative_patches = bt_collect patches, md_fs_relative_traps = bt_collect traps\<rparr>))))"

definition find_fs_relative_patch_work :: "u64 \<Rightarrow> u64 \<Rightarrow> nat \<Rightarrow> nat \<Rightarrow> nat \<Rightarrow> fs_relative_patch_work" where
  "find_fs_relative_patch_work cached_fs_base fs_base cached_count new_unmaterialized new_materialized =
     (if cached_fs_base \<noteq> fs_base
      then if fs_base \<noteq> 0 \<or> cached_count > 0 \<or> new_materialized > 0 then AllWork else NoWork
      else if fs_base \<noteq> 0 \<and> new_unmaterialized > 0 then NewWork
      else NoWork)"

end
