(* ===== verification/Jit_Cache.thy ===== *)
theory Jit_Cache
  imports Jit_Patch
begin

text \<open>
  Correctness of the native patches: stored metadata is read back at any base, decoding a file never
  panics, a rewritten \<open>fs\<close> access reaches the address of the original and can be undone, and what
  invalidation keeps.
\<close>

section \<open>Reading back what was written\<close>

text \<open>\<open>reads m bs v\<close>: at any place of a file, \<open>m\<close> consumes exactly \<open>bs\<close> and answers \<open>v\<close>.\<close>

definition reads :: "'a reader_op \<Rightarrow> u8 list \<Rightarrow> 'a \<Rightarrow> bool" where
  "reads m bs v \<longleftrightarrow>
     (\<forall>pre post. length (pre @ bs @ post) < 2 ^ 64 \<longrightarrow>
        m \<lparr>mr_bytes = pre @ bs @ post, mr_offset = length pre\<rparr> =
        (Ok v, \<lparr>mr_bytes = pre @ bs @ post, mr_offset = length pre + length bs\<rparr>))"

lemma readsI:
  assumes "\<And>pre post. length (pre @ bs @ post) < 2 ^ 64 \<Longrightarrow>
    m \<lparr>mr_bytes = pre @ bs @ post, mr_offset = length pre\<rparr> =
    (Ok v, \<lparr>mr_bytes = pre @ bs @ post, mr_offset = length pre + length bs\<rparr>)"
  shows "reads m bs v"
  using assms unfolding reads_def by blast

lemma reads_ok: "reads (st_ok v) [] v"
  by (rule readsI) (simp add: st_ok_def)

lemma reads_bind:
  assumes "reads m bs v" "reads (f v) cs w"
  shows "reads (st_bind m f) (bs @ cs) w"
proof (rule readsI)
  fix pre post :: "u8 list"
  assume "length (pre @ (bs @ cs) @ post) < 2 ^ 64"
  then show "st_bind m f \<lparr>mr_bytes = pre @ (bs @ cs) @ post, mr_offset = length pre\<rparr> =
    (Ok w, \<lparr>mr_bytes = pre @ (bs @ cs) @ post, mr_offset = length pre + length (bs @ cs)\<rparr>)"
    using assms(1) [unfolded reads_def, rule_format, of pre "cs @ post"]
      assms(2) [unfolded reads_def, rule_format, of "pre @ bs" post]
    by (simp add: st_bind_def add.assoc)
qed

lemma reads_then_ok: "reads m bs v \<Longrightarrow> reads (st_bind m (\<lambda>x. st_ok (g x))) bs (g v)"
  using reads_bind [of m bs v "\<lambda>x. st_ok (g x)" "[]" "g v"] by (simp add: reads_ok)

lemma reads_slice: "length bs = n \<Longrightarrow> reads (cache_read_slice n) bs bs"
  by (rule readsI) (auto simp: cache_read_slice_def)

lemma reads_array: "length bs = n \<Longrightarrow> reads (cache_read_array n) bs bs"
  using reads_bind [OF reads_slice, of bs n "\<lambda>s. if length s = n then st_ok s else st_panic" "[]" bs]
  by (simp add: cache_read_array_def reads_ok)

lemma u32_le_roundtrip [simp]: "u32_from_le_bytes (u32_to_le_bytes w) = w"
proof -
  have "unat w < 256 ^ 4" using unsigned_less [of w] by simp
  then show ?thesis by (simp add: u32_from_le_bytes_def u32_to_le_bytes_def le_nat_nat_le)
qed

lemma length_u32_to_le_bytes [simp]: "length (u32_to_le_bytes w) = 4"
  by (simp add: u32_to_le_bytes_def)

lemma reads_u32: "reads cache_read_u32 (u32_to_le_bytes v) v"
  using reads_then_ok [OF reads_array, of "u32_to_le_bytes v" 4 u32_from_le_bytes]
  by (simp add: cache_read_u32_def)

lemma reads_u64: "reads cache_read_u64 (u64_to_le_bytes v) v"
  using reads_then_ok [OF reads_array, of "u64_to_le_bytes v" 8 u64_from_le_bytes]
  by (simp add: cache_read_u64_def)

lemma reads_magic: "reads (expect_magic magic) magic ()"
  using reads_bind [OF reads_slice, of magic "length magic"
      "\<lambda>s. if s \<noteq> magic then st_err InvalidMagic else st_ok ()" "[]" "()"]
  by (simp add: expect_magic_def reads_ok)

lemma reads_repeated:
  assumes "list_all2 (reads m) parts vs"
  shows "reads (read_repeated (length vs) m) (concat parts) vs"
  using assms
proof (induction rule: list_all2_induct)
  case Nil
  then show ?case by (simp add: reads_ok)
next
  case (Cons p parts v vs)
  show ?case
    using reads_bind [OF Cons(1), of "\<lambda>x. st_bind (read_repeated (length vs) m) (\<lambda>xs. st_ok (x # xs))"]
      reads_then_ok [OF Cons(3), of "(#) v"]
    by simp
qed

lemma reads_counted:
  assumes "list_all2 (reads m) parts vs" "length vs < 2 ^ 32"
  shows "reads (read_counted m) (u32_to_le_bytes (of_nat (length vs)) @ concat parts) vs"
proof -
  have "unat (of_nat (length vs) :: u32) = length vs" using assms(2) by (simp add: unat_of_nat)
  then show ?thesis
    using reads_bind [OF reads_u32 [of "of_nat (length vs)"], of "\<lambda>n. read_repeated (unat n) m"] reads_repeated [OF assms(1)]
    by (simp add: read_counted_def)
qed

lemma encode_each_reads:
  assumes each: "\<And>x y. \<lbrakk>x \<in> set xs; g x = Some y\<rbrakk> \<Longrightarrow> \<exists>bs. f x = Ok bs \<and> reads m bs y \<and> length bs = k"
    and ys: "collect_options g xs = Some ys" and small: "length xs < 2 ^ 32"
  shows "\<exists>bs. encode_each f xs = Ok bs \<and> reads (read_counted m) bs ys \<and> length bs = 4 + k * length xs"
proof -
  have "\<exists>parts. collect_results f xs = Ok parts \<and> list_all2 (reads m) parts ys \<and>
      length (concat parts) = k * length xs \<and> length ys = length xs"
    using each ys
  proof (induction xs arbitrary: ys)
    case Nil
    then show ?case by simp
  next
    case (Cons x xs)
    from Cons.prems(2) obtain y ys' where y: "g x = Some y" "collect_options g xs = Some ys'" "ys = y # ys'"
      by (auto simp: bind_eq_Some_conv)
    from Cons.prems(1) [of x y] y obtain bs where bs: "f x = Ok bs" "reads m bs y" "length bs = k" by auto
    from Cons.IH [OF _ y(2)] Cons.prems(1) obtain parts where
      "collect_results f xs = Ok parts" "list_all2 (reads m) parts ys'" "length (concat parts) = k * length xs"
      "length ys' = length xs" by (metis list.set_intros(2))
    with bs y(3) show ?case by (intro exI [of _ "bs # parts"]) (simp add: result_simps)
  qed
  then obtain parts where "collect_results f xs = Ok parts" "list_all2 (reads m) parts ys"
    "length (concat parts) = k * length xs" "length ys = length xs" by blast
  with reads_counted [of m parts ys] small show ?thesis by (simp add: encode_each_def)
qed

section \<open>Elements of the metadata\<close>

lemma offset_reads:
  assumes "rebase_native_patch_address a sb tb = Some a'"
  shows "\<exists>bs. encode_offset sb a = Ok bs \<and> reads (read_address tb) bs a' \<and> length bs = 8"
proof -
  from assms obtain o' where o': "checked_sub a sb = Some o'" "checked_add tb o' = Some a'"
    by (auto simp: rebase_native_patch_address_def bind_eq_Some_conv)
  have "reads (st_lift (cache_absolute_address o' tb)) [] a'"
    using o'(2) by (simp add: cache_absolute_address_def ok_or_def st_lift_def reads_def)
  with reads_bind [OF reads_u64 [of o'], of "\<lambda>o'. st_lift (cache_absolute_address o' tb)" "[]" a'] o'(1)
  show ?thesis by (simp add: encode_offset_def cache_relative_offset_def ok_or_def read_address_def)
qed

lemma range_reads:
  assumes "rebase_range sb tb r = Some r'"
  shows "\<exists>bs. encode_range sb r = Ok bs \<and> reads (read_range tb) bs r' \<and> length bs = 16"
proof -
  from assms obtain s e where se: "rebase_native_patch_address (fst r) sb tb = Some s"
    "rebase_native_patch_address (snd r) sb tb = Some e" "r' = (s, e)"
    by (auto simp: rebase_range_def bind_eq_Some_conv)
  from offset_reads [OF se(1)] obtain as where as: "encode_offset sb (fst r) = Ok as"
    "reads (read_address tb) as s" "length as = 8" by blast
  from offset_reads [OF se(2)] obtain bs where bs: "encode_offset sb (snd r) = Ok bs"
    "reads (read_address tb) bs e" "length bs = 8" by blast
  have "reads (read_range tb) (as @ bs) r'"
    unfolding read_range_def using reads_then_ok [OF bs(2), of "Pair s"] se(3)
    by (intro reads_bind [OF as(2)]) simp
  with as bs show ?thesis by (simp add: encode_range_def)
qed

lemma syscall_patch_reads:
  assumes "rebase_syscall_patch sb tb p = Some p'"
  shows "\<exists>bs. encode_offset sb (xp_address p) = Ok bs \<and>
     reads (st_bind (read_address tb) (\<lambda>a. st_ok \<lparr>xp_address = a\<rparr>)) bs p' \<and> length bs = 8"
proof -
  from assms obtain a where a: "rebase_native_patch_address (xp_address p) sb tb = Some a" "p' = \<lparr>xp_address = a\<rparr>"
    by (auto simp: rebase_syscall_patch_def bind_eq_Some_conv)
  from offset_reads [OF a(1)] a(2) show ?thesis by (auto intro: reads_then_ok)
qed

lemma patch_reads:
  assumes "rebase_entry sb tb e = Some e'" "length (fp_original (snd e)) = 9"
  shows "\<exists>bs. encode_patch sb e = Ok bs \<and> reads (read_patch tb) bs e' \<and> length bs = 17"
proof -
  from assms(1) obtain a where a: "rebase_native_patch_address (fst e) sb tb = Some a" "e' = (a, snd e)"
    by (auto simp: rebase_entry_def bind_eq_Some_conv)
  from offset_reads [OF a(1)] obtain as where as: "encode_offset sb (fst e) = Ok as"
    "reads (read_address tb) as a" "length as = 8" by blast
  have "reads (read_patch tb) (as @ fp_original (snd e)) e'"
    unfolding read_patch_def
    using reads_then_ok [OF reads_array [OF assms(2)], of "\<lambda>o'. (a, \<lparr>fp_original = o'\<rparr>)"] a(2)
    by (intro reads_bind [OF as(2)]) (cases "snd e", simp)
  with as assms(2) show ?thesis by (simp add: encode_patch_def)
qed

definition trap_ok :: "fs_relative_trap \<Rightarrow> bool" where
  "trap_ok t \<longleftrightarrow> length (ft_original t) = 15 \<and> 0 < ft_len t \<and> ft_len t \<le> 15"

lemma trap_new_ok: "fs_relative_trap_new bytes = Some t \<Longrightarrow> trap_ok t \<and> original_bytes t = bytes"
  by (auto simp: fs_relative_trap_new_def trap_ok_def original_bytes_def unat_of_nat word_less_nat_alt
      word_le_nat_alt split: if_splits)

lemma ucast_ucast_u8: "ucast (ucast (x :: u8) :: u32) = x"
  by (rule bit_word_eqI) (auto simp: bit_simps)

lemma trap_reads:
  assumes "rebase_entry sb tb e = Some e'" "trap_ok (snd e)"
  shows "\<exists>bs. encode_trap sb e = Ok bs \<and> reads (read_trap tb) bs e' \<and> length bs = 27"
proof -
  from assms(1) obtain a where a: "rebase_native_patch_address (fst e) sb tb = Some a" "e' = (a, snd e)"
    by (auto simp: rebase_entry_def bind_eq_Some_conv)
  from offset_reads [OF a(1)] obtain as where as: "encode_offset sb (fst e) = Ok as"
    "reads (read_address tb) as a" "length as = 8" by blast
  let ?t = "snd e" and ?len = "ucast (ft_len (snd e)) :: u32"
  have len: "unat ?len = unat (ft_len ?t)" "ucast ?len = ft_len ?t" "0 < unat (ft_len ?t)" "unat (ft_len ?t) \<le> 15"
    using assms(2) by (auto simp: trap_ok_def unat_ucast_wide ucast_ucast_u8 word_less_nat_alt word_le_nat_alt)
  have "reads (if unat ?len \<ge> 256 then st_err TrapLengthOverflow
      else if ?len = 0 \<or> unat ?len > length (ft_original ?t) then st_err InvalidTrapLength
      else st_ok (a, \<lparr>ft_original = ft_original ?t, ft_len = ucast ?len\<rparr>)) [] e'"
    using len a(2) assms(2) by (cases "snd e") (auto simp: reads_ok trap_ok_def)
  then have "reads (read_trap tb) (as @ u32_to_le_bytes ?len @ ft_original ?t) e'"
    unfolding read_trap_def
    using reads_bind [OF reads_array, of "ft_original ?t" 15 _ "[]" e'] assms(2)
    by (intro reads_bind [OF as(2)] reads_bind [OF reads_u32]) (simp add: trap_ok_def)
  with as assms(2) show ?thesis by (simp add: encode_trap_def trap_ok_def)
qed

section \<open>The whole file\<close>

definition metadata_ok :: "native_patch_metadata \<Rightarrow> bool" where
  "metadata_ok md \<longleftrightarrow>
     length (md_scanned_ranges md) < 2 ^ 32 \<and> length (md_syscall_patches md) < 2 ^ 32 \<and>
     length (bt_entries (md_fs_relative_patches md)) < 2 ^ 32 \<and>
     length (bt_entries (md_fs_relative_traps md)) < 2 ^ 32 \<and>
     (\<forall>e \<in> set (bt_entries (md_fs_relative_patches md)). length (fp_original (snd e)) = 9) \<and>
     (\<forall>e \<in> set (bt_entries (md_fs_relative_traps md)). trap_ok (snd e))"

lemma reads_decode:
  assumes "reads m bs v" "length bs < 2 ^ 64"
  shows "fst (st_bind m (\<lambda>v. st_bind expect_eof (\<lambda>_. st_ok (f v))) \<lparr>mr_bytes = bs, mr_offset = 0\<rparr>) = Ok (f v)"
  using assms(1) [unfolded reads_def, rule_format, of "[]" "[]"] assms(2)
  by (simp add: st_bind_def expect_eof_def st_ok_def)

lemma bind_assoc: "st_bind (st_bind m f) g = st_bind m (\<lambda>x. st_bind (f x) g)"
  by (rule ext) (simp add: st_bind_def split: prod.splits result.splits)

text \<open>The reader without the check for trailing bytes.\<close>

definition read_sections ::
  "native_image_patch_key \<Rightarrow> u64 \<Rightarrow> ((u64 \<times> u64) list \<times> executable_syscall_patch list \<times>
     (u64 \<times> fs_relative_patch) list \<times> (u64 \<times> fs_relative_trap) list) reader_op" where
  "read_sections key base =
     st_bind (expect_magic NATIVE_PATCH_CACHE_MAGIC) (\<lambda>_.
     st_bind cache_read_u32 (\<lambda>version.
     if version \<noteq> NATIVE_PATCH_CACHE_VERSION then st_err UnsupportedVersion
     else
       st_bind cache_read_u64 (\<lambda>hash.
       st_bind cache_read_u64 (\<lambda>executable_len.
       if \<lparr>pk_hash = hash, pk_executable_len = executable_len\<rparr> \<noteq> key then st_err KeyMismatch
       else
         st_bind (read_counted (read_range base)) (\<lambda>ranges.
         st_bind (read_counted (st_bind (read_address base) (\<lambda>a. st_ok \<lparr>xp_address = a\<rparr>))) (\<lambda>syscalls.
         st_bind (read_counted (read_patch base)) (\<lambda>patches.
         st_bind (read_counted (read_trap base)) (\<lambda>traps.
           st_ok (ranges, syscalls, patches, traps)))))))))"

fun metadata_of_sections ::
  "(u64 \<times> u64) list \<times> executable_syscall_patch list \<times> (u64 \<times> fs_relative_patch) list \<times>
   (u64 \<times> fs_relative_trap) list \<Rightarrow> native_patch_metadata" where
  "metadata_of_sections (ranges, syscalls, patches, traps) =
     \<lparr>md_scanned_ranges = ranges, md_syscall_patches = syscalls,
      md_fs_relative_patches = bt_collect patches, md_fs_relative_traps = bt_collect traps\<rparr>"

lemma bind_if: "st_bind (if c then st_err e else m) f = (if c then st_err e else st_bind m f)"
  by (auto simp: st_bind_def st_err_def fun_eq_iff)

lemma bind_ok: "st_bind (st_ok v) f = f v"
  by (simp add: st_bind_def st_ok_def fun_eq_iff)

lemma read_metadata_sections:
  "read_metadata key base =
   st_bind (read_sections key base) (\<lambda>v. st_bind expect_eof (\<lambda>_. st_ok (metadata_of_sections v)))"
  by (simp add: read_metadata_def read_sections_def bind_assoc bind_if bind_ok cong: if_cong)

lemma reads_sections:
  assumes "reads (read_counted (read_range base)) b1 rs"
    "reads (read_counted (st_bind (read_address base) (\<lambda>a. st_ok \<lparr>xp_address = a\<rparr>))) b2 ss"
    "reads (read_counted (read_patch base)) b3 ps" "reads (read_counted (read_trap base)) b4 ts"
  shows "reads (read_sections key base)
    (NATIVE_PATCH_CACHE_MAGIC @ u32_to_le_bytes NATIVE_PATCH_CACHE_VERSION @ u64_to_le_bytes (pk_hash key) @
     u64_to_le_bytes (pk_executable_len key) @ b1 @ b2 @ b3 @ b4) (rs, ss, ps, ts)"
  unfolding read_sections_def
  by (rule reads_bind [OF reads_magic] reads_bind [OF reads_u32] reads_bind [OF reads_u64] reads_bind [OF assms(1)]
      reads_bind [OF assms(2)] reads_bind [OF assms(3)]
      | simp add: reads_then_ok [OF assms(4), of "\<lambda>traps. (rs, ss, ps, traps)"] split del: if_split)+

text \<open>C40. Patch metadata survives the cache file.  What was encoded relative to the base of one image is
  decoded, for an image loaded at another base, to exactly the metadata that \<open>rebase_native_patch_metadata\<close>
  computes, whatever the bases, as long as rebasing is possible and the counts fit their fields.\<close>

theorem metadata_roundtrip:
  assumes ok: "metadata_ok md" and rebased: "rebase_native_patch_metadata md sb tb = Some md'"
  shows "\<exists>bytes. encode_native_patch_metadata key md sb = Ok bytes \<and>
                 decode_native_patch_metadata key bytes tb = Ok md'"
proof -
  from rebased obtain rs ss ps ts where c: "collect_options (rebase_range sb tb) (md_scanned_ranges md) = Some rs"
    "collect_options (rebase_syscall_patch sb tb) (md_syscall_patches md) = Some ss"
    "collect_options (rebase_entry sb tb) (bt_entries (md_fs_relative_patches md)) = Some ps"
    "collect_options (rebase_entry sb tb) (bt_entries (md_fs_relative_traps md)) = Some ts"
    and md': "md' = \<lparr>md_scanned_ranges = rs, md_syscall_patches = ss,
               md_fs_relative_patches = bt_collect ps, md_fs_relative_traps = bt_collect ts\<rparr>"
    by (auto simp: rebase_native_patch_metadata_def bind_eq_Some_conv)
  obtain b1 where b1: "encode_each (encode_range sb) (md_scanned_ranges md) = Ok b1"
    "reads (read_counted (read_range tb)) b1 rs" "length b1 = 4 + 16 * length (md_scanned_ranges md)"
    using encode_each_reads [OF _ c(1), of "encode_range sb" "read_range tb" 16] range_reads ok
    unfolding metadata_ok_def by blast
  obtain b2 where b2: "encode_each (\<lambda>p. encode_offset sb (xp_address p)) (md_syscall_patches md) = Ok b2"
    "reads (read_counted (st_bind (read_address tb) (\<lambda>a. st_ok \<lparr>xp_address = a\<rparr>))) b2 ss"
    "length b2 = 4 + 8 * length (md_syscall_patches md)"
    using encode_each_reads [OF _ c(2), of "\<lambda>p. encode_offset sb (xp_address p)" "st_bind (read_address tb) (\<lambda>a. st_ok \<lparr>xp_address = a\<rparr>)" 8] syscall_patch_reads ok
    unfolding metadata_ok_def by blast
  obtain b3 where b3: "encode_each (encode_patch sb) (bt_entries (md_fs_relative_patches md)) = Ok b3"
    "reads (read_counted (read_patch tb)) b3 ps" "length b3 = 4 + 17 * length (bt_entries (md_fs_relative_patches md))"
    using encode_each_reads [OF _ c(3), of "encode_patch sb" "read_patch tb" 17] patch_reads ok
    unfolding metadata_ok_def by blast
  obtain b4 where b4: "encode_each (encode_trap sb) (bt_entries (md_fs_relative_traps md)) = Ok b4"
    "reads (read_counted (read_trap tb)) b4 ts" "length b4 = 4 + 27 * length (bt_entries (md_fs_relative_traps md))"
    using encode_each_reads [OF _ c(4), of "encode_trap sb" "read_trap tb" 27] trap_reads ok
    unfolding metadata_ok_def by blast
  let ?bytes = "NATIVE_PATCH_CACHE_MAGIC @ u32_to_le_bytes NATIVE_PATCH_CACHE_VERSION @ u64_to_le_bytes (pk_hash key) @
     u64_to_le_bytes (pk_executable_len key) @ b1 @ b2 @ b3 @ b4"
  have "length ?bytes < 2 ^ 64"
    using ok b1(3) b2(3) b3(3) b4(3) by (simp add: metadata_ok_def NATIVE_PATCH_CACHE_MAGIC_def)
  moreover have "reads (read_sections key tb) ?bytes (rs, ss, ps, ts)"
    by (rule reads_sections [OF b1(2) b2(2) b3(2) b4(2)])
  ultimately have "decode_native_patch_metadata key ?bytes tb = Ok md'"
    using reads_decode [of "read_sections key tb" ?bytes "(rs, ss, ps, ts)" metadata_of_sections] md'
    by (simp add: decode_native_patch_metadata_def read_metadata_sections)
  then show ?thesis
    using b1(1) b2(1) b3(1) b4(1) by (simp add: encode_native_patch_metadata_def)
qed

definition sample_metadata :: native_patch_metadata where
  "sample_metadata =
     \<lparr>md_scanned_ranges = [(0x1000, 0x2000)], md_syscall_patches = [\<lparr>xp_address = 0x1010\<rparr>],
      md_fs_relative_patches = bt_insert 0x1100 \<lparr>fp_original = [0x64, 0x48, 0x8b, 4, 0x25, 0x28, 0, 0, 0]\<rparr> bt_empty,
      md_fs_relative_traps = bt_insert 0x1200 \<lparr>ft_original = 0x64 # 0x48 # replicate 13 0, ft_len = 2\<rparr> bt_empty\<rparr>"

definition sample_rebased :: native_patch_metadata where
  "sample_rebased =
     \<lparr>md_scanned_ranges = [(0x5000, 0x6000)], md_syscall_patches = [\<lparr>xp_address = 0x5010\<rparr>],
      md_fs_relative_patches = bt_insert 0x5100 \<lparr>fp_original = [0x64, 0x48, 0x8b, 4, 0x25, 0x28, 0, 0, 0]\<rparr> bt_empty,
      md_fs_relative_traps = bt_insert 0x5200 \<lparr>ft_original = 0x64 # 0x48 # replicate 13 0, ft_len = 2\<rparr> bt_empty\<rparr>"

lemma metadata_roundtrip_witness:
  "\<exists>bytes. encode_native_patch_metadata \<lparr>pk_hash = 7, pk_executable_len = 0x1000\<rparr> sample_metadata 0x1000 = Ok bytes \<and>
     decode_native_patch_metadata \<lparr>pk_hash = 7, pk_executable_len = 0x1000\<rparr> bytes 0x5000 = Ok sample_rebased"
proof (rule metadata_roundtrip)
  show "metadata_ok sample_metadata"
    by (simp add: metadata_ok_def sample_metadata_def bt_simps trap_ok_def)
  show "rebase_native_patch_metadata sample_metadata 0x1000 0x5000 = Some sample_rebased"
    by (simp add: rebase_native_patch_metadata_def sample_metadata_def sample_rebased_def bt_simps bt_collect_def
        rebase_range_def rebase_syscall_patch_def rebase_entry_def rebase_native_patch_address_def
        checked_sub_def checked_add_def)
qed

section \<open>Decoding never panics\<close>

definition panic_free :: "'a reader_op \<Rightarrow> bool" where
  "panic_free m \<longleftrightarrow> (\<forall>r. fst (m r) \<noteq> Panic)"

lemma panic_free_basic [intro, simp]: "panic_free (st_ok v)" "panic_free (st_err e)" "panic_free (cache_read_slice n)"
    "panic_free expect_eof"
  by (auto simp: panic_free_def st_ok_def st_err_def cache_read_slice_def expect_eof_def)

lemma panic_free_bind [intro]: "\<lbrakk>panic_free m; \<And>v. panic_free (f v)\<rbrakk> \<Longrightarrow> panic_free (st_bind m f)"
  by (auto simp: panic_free_def st_bind_def split: prod.splits result.splits) (metis fst_conv)+

lemma panic_free_array [intro, simp]: "panic_free (cache_read_array n)"
  by (auto simp: panic_free_def cache_read_array_def st_bind_def cache_read_slice_def st_ok_def)

lemma panic_free_words [intro, simp]: "panic_free cache_read_u32" "panic_free cache_read_u64"
  by (auto simp: cache_read_u32_def cache_read_u64_def)

lemma panic_free_address [intro, simp]: "panic_free (read_address base)"
proof -
  have "panic_free (st_lift (cache_absolute_address o' base))" for o'
    by (simp add: panic_free_def cache_absolute_address_def ok_or_def st_lift_def split: option.splits)
  then show ?thesis by (auto simp: read_address_def)
qed

lemma panic_free_if: "\<lbrakk>panic_free m; panic_free m'\<rbrakk> \<Longrightarrow> panic_free (if c then m else m')"
  by simp

lemma panic_free_counted [intro]: "panic_free m \<Longrightarrow> panic_free (read_counted m)"
proof -
  assume "panic_free m"
  then have "panic_free (read_repeated n m)" for n by (induction n) auto
  then show ?thesis by (auto simp: read_counted_def)
qed

lemma panic_free_metadata: "panic_free (read_metadata key base)"
  unfolding read_metadata_def expect_magic_def read_range_def read_patch_def read_trap_def
  by (intro panic_free_bind panic_free_counted panic_free_if panic_free_basic panic_free_words panic_free_array
      panic_free_address)

text \<open>C2. A cache file is never trusted: whatever its bytes, decoding returns metadata or an error and does
  not panic.\<close>

theorem decode_never_panics: "decode_native_patch_metadata key bytes base \<noteq> Panic"
  using panic_free_metadata by (simp add: decode_native_patch_metadata_def panic_free_def)

section \<open>What invalidation keeps\<close>

text \<open>Invalidating part of a scanned range forgets the whole range but keeps its patches outside the part.
  A later invalidation that covers such a patch meets no scanned range, returns early and keeps it; because
  merging keeps existing entries, the patch found by the next scan is dropped for the stale one.\<close>

lemma second_invalidation_keeps_stale_patch:
  defines "cache \<equiv> patch_cache_default\<lparr>pc_scanned_ranges := [(0x1000, 0x2000)],
     pc_fs_relative_patches := bt_insert 0x1100 \<lparr>fp_original = [0x64, 0x48, 0x8b, 4, 0x25, 0x28, 0, 0, 0]\<rparr> bt_empty\<rparr>"
  shows "bt_get (pc_fs_relative_patches (invalidate_range 0x1100 0x1200 (invalidate_range 0x1800 0x1900 cache))) 0x1100
     = Some \<lparr>fp_original = [0x64, 0x48, 0x8b, 4, 0x25, 0x28, 0, 0, 0]\<rparr>"
  by (simp add: cache_def patch_cache_default_def invalidate_range_def ranges_overlap_def bt_get_insert bt_get_retain)

section \<open>Rewriting accesses relative to \<open>fs\<close>\<close>

lemma nat_le_le_nat: "nat_le (length bs) (le_nat bs) = bs"
proof (induction bs)
  case Nil
  then show ?case by simp
next
  case (Cons b bs)
  have "unat b < 256" using unsigned_less [of b] by simp
  with Cons show ?case by simp
qed

lemma u32_to_from_le: "length bs = 4 \<Longrightarrow> u32_to_le_bytes (u32_from_le_bytes bs) = bs"
  using nat_le_le_nat [of bs] le_nat_bound [of bs] by (simp add: u32_to_le_bytes_def u32_from_le_bytes_def unat_of_nat)

lemma nine: "length xs = 9 \<Longrightarrow> \<exists>a b c d e f g h i. xs = [a, b, c, d, e, f, g, h, i]"
  by (auto simp: eval_nat_numeral length_Suc_conv)

lemma four: "length xs = 4 \<Longrightarrow> \<exists>a b c d. xs = [a, b, c, d]"
  by (auto simp: eval_nat_numeral length_Suc_conv)

lemma fs_relative_original_shape:
  assumes "fs_relative_original bytes = Some original"
  shows "\<exists>b c d f g h i. original = [0x64, b, c, d, 0x25, f, g, h, i] \<and>
           b AND 0xf8 = 0x48 \<and> c \<in> {0x8b, 0x2b} \<and> d AND 0xc7 = 0x04"
proof -
  from assms have o': "original = take 9 bytes" "length original = 9"
    and c: "bytes ! 0 = 0x64" "bytes ! 1 AND 0xf8 = 0x48" "bytes ! 2 \<in> {0x8b, 0x2b}" "bytes ! 3 AND 0xc7 = 0x04"
      "bytes ! 4 = 0x25"
    by (auto simp: fs_relative_original_def split: if_splits)
  then have n: "bytes ! k = original ! k" if "k < 9" for k using that by simp
  from nine [OF o'(2)] obtain a b' c' d e f g h i where "original = [a, b', c', d, e, f, g, h, i]" by blast
  with c n [of 0] n [of 1] n [of 2] n [of 3] n [of 4] show ?thesis by simp
qed

text \<open>The absolute address of a replacement is the base plus the signed displacement, without wrapping, and fits
  the positive half of a 32-bit displacement.\<close>

lemma fs_relative_replacement_Some:
  assumes "fs_relative_replacement original fs_base = Some r"
  shows "\<exists>absolute :: u64. r = [original ! 1, original ! 2, original ! 3, original ! 4] @ u32_to_le_bytes (ucast absolute) @ [0x90]
     \<and> uint absolute = uint fs_base + sint (u32_from_le_bytes (take 4 (drop 5 original)))
     \<and> uint absolute < 2 ^ 31 \<and> fs_base \<noteq> 0"
proof -
  let ?d = "sint (u32_from_le_bytes (take 4 (drop 5 original)))"
  have d: "- (2 ^ 31) \<le> ?d" "?d < 2 ^ 31"
    using sint_ge [of "u32_from_le_bytes (take 4 (drop 5 original))"]
      sint_lt [of "u32_from_le_bytes (take 4 (drop 5 original))"] by simp_all
  from assms obtain absolute where a: "(if ?d \<ge> 0 then checked_add fs_base (of_int ?d)
        else checked_sub fs_base (of_int (- ?d))) = Some absolute"
    "\<not> absolute > 0x7fffffff" "fs_base \<noteq> 0"
    "r = [original ! 1, original ! 2, original ! 3, original ! 4] @ u32_to_le_bytes (ucast absolute) @ [0x90]"
    by (auto simp: fs_relative_replacement_def Let_def split: if_splits option.splits)
  have u: "uint (of_int x :: u64) = x" if "0 \<le> x" "x \<le> 2 ^ 31" for x
    using that by (simp add: uint_word_of_int)
  have "uint absolute = uint fs_base + ?d"
  proof (cases "?d \<ge> 0")
    case True
    with a(1) have "unat fs_base + unat (of_int ?d :: u64) < 2 ^ 64" "absolute = fs_base + of_int ?d"
      by (auto simp: checked_add_def split: if_splits)
    then have "unat absolute = unat fs_base + unat (of_int ?d :: u64)" by (simp add: unat_word_ariths)
    then have "uint absolute = uint fs_base + uint (of_int ?d :: u64)" by (metis of_nat_add of_nat_unat)
    with u [of ?d] d True show ?thesis by simp
  next
    case False
    with a(1) have "(of_int (- ?d) :: u64) \<le> fs_base" "absolute = fs_base - of_int (- ?d)"
      by (auto simp: checked_sub_def split: if_splits)
    then have "uint absolute = uint fs_base - uint (of_int (- ?d) :: u64)" by (simp add: uint_minus_simple_alt)
    with u [of "- ?d"] d False show ?thesis by simp
  qed
  moreover have "uint absolute < 2 ^ 31"
    using a(2) by (simp add: not_less word_le_def)
  ultimately show ?thesis using a(3,4) by blast
qed

lemma sint_eq_uint_small:
  fixes w :: "'w::len word"
  assumes "uint w < 2 ^ (LENGTH('w) - 1)"
  shows "sint w = uint w"
proof -
  have "- (2 ^ (LENGTH('w) - 1)) \<le> uint w" by (rule order_trans [of _ 0]) simp_all
  with assms show ?thesis by (simp add: sint_uint signed_take_bit_int_eq_self)
qed

lemma small_absolute:
  fixes absolute :: u64
  assumes "uint absolute < 2 ^ 31"
  shows "uint (ucast absolute :: u32) = uint absolute" "scast (ucast absolute :: u32) = absolute"
proof -
  show u: "uint (ucast absolute :: u32) = uint absolute"
    using assms by (simp add: unsigned_ucast_eq take_bit_int_eq_self)
  have "sint (ucast absolute :: u32) = uint absolute"
    using assms u sint_eq_uint_small [of "ucast absolute :: u32"] by simp
  from arg_cong [OF this, of "of_int :: int \<Rightarrow> u64"] show "scast (ucast absolute :: u32) = absolute"
    by simp
qed

text \<open>C39. An instruction that reads thread-local storage is rewritten to reach the same address and can be
  restored.  The replacement keeps the opcode bytes, is as long as the original, its sign-extended 32-bit
  address is the base of \<open>fs\<close> plus the sign-extended displacement of the original, and from the replacement,
  wherever it stands, exactly the original bytes are computed again.\<close>

theorem fs_rewrite_exact:
  assumes o': "fs_relative_original bytes = Some original"
    and r: "fs_relative_replacement original fs_base = Some replacement"
  shows "length replacement = length original \<and>
    take 4 replacement = take 4 (drop 1 original) \<and>
    (scast (u32_from_le_bytes (take 4 (drop 4 replacement))) :: u64)
      = fs_base + scast (u32_from_le_bytes (take 4 (drop 5 original))) \<and>
    fs_relative_original_from_replacement (replacement @ rest) fs_base = (Ok (Some original) :: (u8 list option, unit) result)"
proof -
  from fs_relative_original_shape [OF o'] obtain b c d f g h i where
    s: "original = [0x64, b, c, d, 0x25, f, g, h, i]" "b AND 0xf8 = 0x48" "c \<in> {0x8b, 0x2b}" "d AND 0xc7 = 0x04" by blast
  let ?disp = "u32_from_le_bytes [f, g, h, i]"
  from fs_relative_replacement_Some [OF r] obtain a :: u64 where
    "replacement = [original ! 1, original ! 2, original ! 3, original ! 4] @ u32_to_le_bytes (ucast a) @ [0x90]"
    "uint a = uint fs_base + sint (u32_from_le_bytes (take 4 (drop 5 original)))" and a': "uint a < 2 ^ 31" "fs_base \<noteq> 0"
    by blast
  with s(1) have rep: "replacement = [b, c, d, 0x25] @ u32_to_le_bytes (ucast a) @ [0x90]"
    and a: "uint a = uint fs_base + sint ?disp" by simp_all
  have n: "\<exists>p q u v. u32_to_le_bytes (ucast a) = [p, q, u, v]"
    by (rule four) simp
  have "a = fs_base + scast ?disp"
    using arg_cong [OF a, of "of_int :: int \<Rightarrow> u64"] by simp
  with small_absolute(2) [OF a'(1)] have same: "(scast (u32_from_le_bytes (take 4 (drop 4 replacement))) :: u64)
      = fs_base + scast (u32_from_le_bytes (take 4 (drop 5 original)))"
    by (simp add: rep s(1))
  have "- (2 ^ 31) \<le> sint ?disp" "sint ?disp < 2 ^ 31" using sint_ge [of ?disp] sint_lt [of ?disp] by simp_all
  moreover from this a a' have "sint fs_base = uint fs_base"
    by (intro sint_eq_uint_small) simp
  moreover have "u32_to_le_bytes (of_int (sint ?disp)) = [f, g, h, i]"
    by (simp add: u32_to_from_le)
  ultimately have "fs_relative_original_from_replacement (replacement @ rest) fs_base =
      (Ok (Some original) :: (u8 list option, unit) result)"
    using n s a a' by (auto simp: fs_relative_original_from_replacement_def rep small_absolute(1) [OF a'(1)] Let_def)
  with same show ?thesis by (simp add: rep s(1))
qed

lemma nat_le_four:
  "nat_le 4 n = [of_nat (n mod 256), of_nat (n div 256 mod 256), of_nat (n div 256 div 256 mod 256),
     of_nat (n div 256 div 256 div 256 mod 256)]"
proof -
  have "4 = Suc (Suc (Suc (Suc 0)))" by simp
  then show ?thesis by (simp only: nat_le.simps)
qed

lemma fs_rewrite_exact_witness:
  "fs_relative_replacement [0x64, 0x48, 0x8b, 4, 0x25, 0xf8, 0xff, 0xff, 0xff] 0x10000 =
     Some [0x48, 0x8b, 4, 0x25, 0xf8, 0xff, 0, 0, 0x90] \<and>
   fs_relative_original_from_replacement ([0x48, 0x8b, 4, 0x25, 0xf8, 0xff, 0, 0, 0x90] @ []) 0x10000 =
     (Ok (Some [0x64, 0x48, 0x8b, 4, 0x25, 0xf8, 0xff, 0xff, 0xff]) :: (u8 list option, unit) result)"
proof -
  have o': "fs_relative_original [0x64, 0x48, 0x8b, 4, 0x25, 0xf8, 0xff, 0xff, 0xff] =
      Some [0x64, 0x48, 0x8b, 4, 0x25, 0xf8, 0xff, 0xff, 0xff]"
    by (simp add: fs_relative_original_def)
  have d: "sint (u32_from_le_bytes [0xf8, 0xff, 0xff, 0xff]) = - 8" by (simp add: u32_from_le_bytes_def)
  have w: "u32_to_le_bytes (ucast (0xfff8 :: u64)) = [0xf8, 0xff, 0, 0]"
    by (simp add: u32_to_le_bytes_def nat_le_four)
  have r: "fs_relative_replacement [0x64, 0x48, 0x8b, 4, 0x25, 0xf8, 0xff, 0xff, 0xff] 0x10000 =
      Some [0x48, 0x8b, 4, 0x25, 0xf8, 0xff, 0, 0, 0x90]"
    using d w by (simp add: fs_relative_replacement_def checked_sub_def)
  from fs_rewrite_exact [OF o' r] r show ?thesis by blast
qed

end
