(* ===== verification/Spec2Isabelle.thy ===== *)
theory Spec2Isabelle
  imports Task_Dispatch Mem_Fork Mem_Load Vfs_Pipe Vfs_Lru Vfs_Dirs Jit_Guest Jit_Cache
begin

text \<open>
  A verification library for the core of \<open>mcr\<close>, a user-space runtime that runs x86-64 Linux programs on
  Windows.  An executable is parsed and laid out (\<open>mcr-elf\<close>), loaded into a guest address space that is
  backed by host allocations (\<open>mcr-memory\<close> on \<open>mcr-win\<close>), and run until it reaches a system call
  (\<open>mcr-jit\<close>); the call is decoded (\<open>mcr-sys\<close>) and answered by the task kernel (\<open>mcr-task\<close>), by the
  address space or by the virtual file system (\<open>mcr-vfs\<close>).

  \<^bold>\<open>Conventions.\<close>  A Rust \<open>struct\<close> is a record, an \<open>enum\<close> a datatype.  \<open>Result\<close> is \<open>('a, 'e) result\<close> with a
  third constructor \<open>Panic\<close>: an arithmetic overflow, a failed \<open>expect\<close> or an index out of range is a value
  of the model, and absence of panics is proved where it holds.  Stateful code is \<open>('s, 'a, 'e) st\<close>, a
  function that returns the new state also when it fails (\<open>Mcr_State\<close>).  \<open>usize\<close> has 64 bits.  Machine
  integers are words where the code computes with them bit by bit or lets them wrap; in the memory manager and
  the file system \<open>u64\<close> and \<open>usize\<close> are \<open>nat\<close> with each checked operation written out.  \<open>BTreeMap\<close> and
  \<open>BTreeSet\<close> are the sorted association lists of \<open>Btree\<close>; a \<open>HashSet\<close> whose order the code observes is
  visited in ascending order.

  \<^bold>\<open>Theories and sources\<close> (under \<open>src/crates/\<close>).

  \<^item> \<open>Mcr_Prelude\<close>, \<open>Btree\<close>, \<open>Mcr_State\<close>: results, checked arithmetic, byte encodings, ordered maps (locale
    \<open>ordered_map\<close>), state-passing computations with their postconditions.
  \<^item> \<open>Abi\<close>: \<open>mcr-sys\<close> (\<open>abi.rs\<close>, \<open>errno.rs\<close>, \<open>return_value.rs\<close>, \<open>task.rs\<close>, requests and outcomes of
    \<open>dispatcher.rs\<close>).  A result survives its encoding into \<open>rax\<close>.
  \<^item> \<open>Elf_Parser\<close>, \<open>Elf_Stack\<close>, \<open>Elf_Image\<close>: \<open>mcr-elf\<close>.  What the parser accepts is sound, and it drops,
    repeats or reorders no loadable header; it never panics; the initial stack has the System V layout; an image has
    disjoint areas that hold the bytes of the file.
  \<^item> \<open>Task_State\<close>, \<open>Task_Kernel\<close>, \<open>Task_Clone\<close>, \<open>Task_Wait\<close>, \<open>Task_Signal\<close>, \<open>Task_Dispatch\<close>: \<open>mcr-task\<close>.  The
    locales \<open>id_allocator\<close> and \<open>state_table\<close> are the contracts of the counters and of the scheduling indexes.
    \<open>kernel_ok\<close> relates the task table with its indexes; every state reachable by public operations satisfies
    it, dispatching never panics, and fork, exec, wait, futexes and signals do what they promise.
  \<^item> \<open>Host_Api\<close>, \<open>Mem_Host\<close>: the error kinds and host memory objects of \<open>mcr-win\<close>.  The store of
    reference-counted objects (\<open>Arc\<close>) is explicit.
  \<^item> \<open>Mem_Vma\<close>, \<open>Mem_Space\<close>, \<open>Mem_Access\<close>, \<open>Mem_Load\<close>: the operations of \<open>mcr-memory\<close>.  \<open>Mem_Inv\<close>, \<open>Mem_Ops\<close>,
    \<open>Mem_Map\<close>, \<open>Mem_Cow\<close>, \<open>Mem_Rw\<close>, \<open>Mem_Replace\<close>, \<open>Mem_Mmap\<close>, \<open>Mem_Clone\<close>, \<open>Mem_Props\<close>, \<open>Mem_Fork\<close>: the invariant
    \<open>mem_ok\<close> and the refinement of a specification in which an address space is the partial function \<open>view\<close>
    from addresses to bytes and protections.  \<open>mmap\<close>, \<open>munmap\<close>, \<open>mprotect\<close>, reads and writes act on the view
    as specified; processes that descend from one by \<open>fork\<close>, whose calls, forks and exits are interleaved in
    any order (\<open>forked\<close>), never see each other's writes, code patches and mappings, although forks share the
    host memory of allocations without a writable area until it is detached; a loaded image has the contents and
    protections of its segments.  The locale \<open>byte_store\<close> is what clients of guest memory rely on.
  \<^item> \<open>Vfs_Node\<close>, \<open>Vfs_Path\<close>, \<open>Vfs_Resolve\<close>, \<open>Vfs_Fd\<close>, \<open>Vfs_Io\<close>, \<open>Vfs_Pipe\<close>, \<open>Vfs_Cache\<close>, \<open>Vfs_Lru\<close>, \<open>Vfs_Fs\<close>, \<open>Vfs_Ops\<close>,
    \<open>Vfs_Names\<close>: the data and operations of \<open>mcr-vfs\<close>.  \<open>Vfs_Tree\<close>, \<open>Vfs_Coherent\<close>, \<open>Vfs_Inv\<close>, \<open>Vfs_Safe\<close>,
    \<open>Vfs_Rename\<close>, \<open>Vfs_Calls\<close>, \<open>Vfs_Boot\<close>, \<open>Vfs_Reach\<close>: the invariants of the tree and of the cache, and the
    calls as a step relation.  \<open>Vfs_Props\<close>, \<open>Vfs_Files\<close>, \<open>Vfs_Dirs\<close>: in every reachable state the tree is a
    tree whose link counts count names; answers from the cache are those of the tree; resolution stays below
    the root and reports a loop exactly when a walk without a limit needs more than 40 links; what is written is read back; a rename moves exactly a subtree; a listing is complete.  The
    locale \<open>byte_queue\<close> is the contract of a pipe; it is interpreted for the pipes of the store, those that
    keep their bytes and those that move them through a pair of host handles.
  \<^item> \<open>Jit_Regs\<close>, \<open>Jit_Insn\<close>, \<open>Jit_Exec\<close>: decoding into blocks, registers, flags, operands, the instruction
    fallback, control flow, traps and the trampoline of \<open>mcr-jit\<close>.  \<open>Jit_Flags\<close>: flags mean the signed and
    unsigned orders, partial registers change only their bits.  \<open>Jit_Run\<close>, \<open>Jit_Steps\<close>: the block executor is
    equivalent to a machine that executes one instruction at a time, and the early end of the scan for system
    calls loses none.  \<open>Jit_Guest\<close>: guest memory is an operand memory (locale \<open>operand_memory\<close>, interpreted
    for the address space and for the memory that rejects every access), so execution never panics and keeps
    \<open>mem_ok\<close>; a return undoes its call; a system call round.
  \<^item> \<open>Jit_Patch\<close>, \<open>Jit_Cache\<close>: \<open>native_patch.rs\<close>: patch sites, the cache of a process, keys, the file format.
    Metadata is read back at any base, decoding never panics, a rewritten \<open>fs\<close> access reaches the same address
    and can be undone.

  \<^bold>\<open>Parameters and hypotheses.\<close>  The answers of the operating system are functions of the number of the call
  (in the host state of the memory manager and in the store of the file system), so a theorem that
  does not restrict them holds for every sequence of failures.  Windows constants and the 64 KiB granularity of allocations are those of the
  documentation.  Mapping needs that the host fails at most one more call (\<open>one_fault\<close>; a second failure
  while replaced allocations are put back loses them), that allocations do not overlap (\<open>tidy\<close>), and that the
  address space ends below the last host granule (\<open>roomy\<close>).  The disassembler is a parameter with two documented
  properties: an instruction consumes between one and the available bytes (\<open>decoder_ok\<close>), and a system call is
  encoded by \<open>0f 05\<close> (\<open>syscall_encoding\<close>); a concrete decoder with both is given in \<open>Jit_Steps\<close>.
  The host pipe behind a guest pipe is a queue: a write appends a nonempty prefix, a read removes one, a call that
  fails moves nothing (\<open>host_takes\<close>, \<open>host_gives\<close>).
  \<open>fits_space\<close> says that a block does not reach the end of the address space.  The calls of the file system
  satisfy \<open>call_ok\<close>: the counter of inode numbers is below the fixed numbers, a descriptor is left, mounts
  find their numbers unused, and two ways in which a call forgets to invalidate the cache are excluded
  (a zero-length write beyond the end, and \<open>O_CREAT\<close> with \<open>O_DIRECTORY\<close>).

  \<^bold>\<open>Termination.\<close>  Path resolution ends because every link followed counts against \<open>SYMLINK_LIMIT\<close>; the loop over
  decoded instructions takes as many steps as there are bytes, which is enough (\<open>decode_stream_unfold\<close>); the
  executor follows \<open>MAX_CONTROL_FLOW_STEPS\<close> blocks as the code does; the repeated \<open>getdents64\<close> of
  \<open>listing_complete\<close> ends within one round more than there are entries.

  \<^bold>\<open>Not modelled.\<close>  Threads that wait on condition variables (the calls are sequences of steps, waking has no effect on
  the state); the routing of \<open>mcr-sys/src/dispatcher.rs\<close> to the subsystems, the byte layouts of its codecs and
  its traces; the accessors of \<open>mcr-elf/src/view.rs\<close>; the host worker pools of \<open>mcr-task\<close>; the fault reports and the cache
  directory of \<open>mcr-jit\<close>; the other services of \<open>mcr-win\<close>, which are bindings to the operating system; and the crates
  \<open>mcr-runtime\<close> (the loop that connects the subsystems, with its host threads), \<open>mcr-net\<close>, \<open>mcr-image\<close>,
  \<open>mcr-build\<close>, \<open>mcr-snapshot\<close>, \<open>mcr-cli\<close> and \<open>mcr-testkit\<close>.
\<close>

end
